(* ===== verification/Prelude.thy ===== *)
theory Prelude
  imports Main "HOL-Library.Word" "HOL-Library.Char_ord" "HOL-Library.List_Lexorder"
    "HOL-Library.Multiset"
begin

text \<open>
  Shared vocabulary of the development: the outcome type of a Go call, machine integers,
  the functions of Go's standard library on strings and slices that the sources use
  (package \<^verbatim>\<open>strings\<close>), Go maps as association lists, and the generic lemmas the
  component theories share.
\<close>

section \<open>Outcomes of a call\<close>

text \<open>
  A Go call returns, panics, or never returns.  Functions whose recursion has no
  termination argument of its own take fuel; running out of it is \<open>Diverges\<close>, and a
  theorem says which inputs return under enough fuel and which inputs never return.
\<close>

datatype 'a outcome = Diverges | Panics | Returns 'a

text \<open>A Go result with an error: the message, or the value.\<close>

type_synonym 'a result = "string + 'a"

fun obind :: "'a outcome \<Rightarrow> ('a \<Rightarrow> 'b outcome) \<Rightarrow> 'b outcome" where
  "obind Diverges f = Diverges"
| "obind Panics f = Panics"
| "obind (Returns x) f = f x"

fun omap :: "('a \<Rightarrow> 'b outcome) \<Rightarrow> 'a list \<Rightarrow> 'b list outcome" where
  "omap f [] = Returns []"
| "omap f (x # xs) = obind (f x) (\<lambda>y. obind (omap f xs) (\<lambda>ys. Returns (y # ys)))"

definition returned :: "'a outcome \<Rightarrow> bool" where
  "returned r \<longleftrightarrow> (\<exists>x. r = Returns x)"

section \<open>Machine integers\<close>

type_synonym byte = "8 word"
type_synonym u32 = "32 word"
type_synonym u64 = "64 word"

text \<open>Go's \<^verbatim>\<open>int64\<close> as an \<open>int\<close> kept in its range by wrapping.\<close>

definition wrap64 :: "int \<Rightarrow> int" where
  "wrap64 x = (x + 2 ^ 63) mod 2 ^ 64 - 2 ^ 63"

text \<open>Go's integer division truncates towards zero.\<close>

definition go_div :: "int \<Rightarrow> int \<Rightarrow> int" where
  "go_div a b = sgn a * sgn b * (\<bar>a\<bar> div \<bar>b\<bar>)"

section \<open>Strings and slices\<close>

text \<open>\<^verbatim>\<open>strings.Split\<close> with a separator of one byte.\<close>

fun split_on :: "'a \<Rightarrow> 'a list \<Rightarrow> 'a list list" where
  "split_on c [] = [[]]"
| "split_on c (x # xs) =
     (if x = c then [] # split_on c xs
      else (case split_on c xs of [] \<Rightarrow> [[x]] | w # ws \<Rightarrow> (x # w) # ws))"

text \<open>\<^verbatim>\<open>strings.Join\<close>.\<close>

fun join_with :: "'a list \<Rightarrow> 'a list list \<Rightarrow> 'a list" where
  "join_with s [] = []"
| "join_with s [w] = w"
| "join_with s (w # v # ws) = w @ s @ join_with s (v # ws)"

text \<open>\<^verbatim>\<open>strings.HasPrefix\<close>, \<^verbatim>\<open>HasSuffix\<close>, \<^verbatim>\<open>TrimPrefix\<close>, \<^verbatim>\<open>TrimSuffix\<close>,
  and \<^verbatim>\<open>Trim\<close> with a cutset of one byte.\<close>

fun has_prefix :: "'a list \<Rightarrow> 'a list \<Rightarrow> bool" where
  "has_prefix s [] = True"
| "has_prefix [] (p # ps) = False"
| "has_prefix (x # s) (p # ps) = (x = p \<and> has_prefix s ps)"

definition has_suffix :: "'a list \<Rightarrow> 'a list \<Rightarrow> bool" where
  "has_suffix s p = has_prefix (rev s) (rev p)"

definition trim_prefix :: "'a list \<Rightarrow> 'a list \<Rightarrow> 'a list" where
  "trim_prefix s p = (if has_prefix s p then drop (length p) s else s)"

definition trim_suffix :: "'a list \<Rightarrow> 'a list \<Rightarrow> 'a list" where
  "trim_suffix s p = (if has_suffix s p then take (length s - length p) s else s)"

definition trim_char :: "'a \<Rightarrow> 'a list \<Rightarrow> 'a list" where
  "trim_char c s = rev (dropWhile (\<lambda>x. x = c) (rev (dropWhile (\<lambda>x. x = c) s)))"

text \<open>The index of the first and of the last occurrence of a byte (\<^verbatim>\<open>-1\<close> is \<open>None\<close>).\<close>

fun index_of :: "'a \<Rightarrow> 'a list \<Rightarrow> nat option" where
  "index_of c [] = None"
| "index_of c (x # xs) = (if x = c then Some 0 else map_option Suc (index_of c xs))"

definition last_index_of :: "'a \<Rightarrow> 'a list \<Rightarrow> nat option" where
  "last_index_of c s = map_option (\<lambda>i. length s - Suc i) (index_of c (rev s))"

text \<open>\<^verbatim>\<open>%d\<close>: decimal digits, most significant first.\<close>

fun dec_nat :: "nat \<Rightarrow> string" where
  "dec_nat n = (if n < 10 then [char_of (48 + n)] else dec_nat (n div 10) @ [char_of (48 + n mod 10)])"

definition dec_int :: "int \<Rightarrow> string" where
  "dec_int i = (if i < 0 then CHR ''-'' # dec_nat (nat (- i)) else dec_nat (nat i))"

text \<open>\<^verbatim>\<open>strconv.Atoi\<close>: an optional sign and decimal digits, in the range of an int.\<close>

definition is_digit :: "char \<Rightarrow> bool" where
  "is_digit c \<longleftrightarrow> 48 \<le> (of_char c :: nat) \<and> (of_char c :: nat) \<le> 57"

definition digits_value :: "string \<Rightarrow> int" where
  "digits_value s = fold (\<lambda>c n. n * 10 + (of_char c - 48)) s 0"

definition atoi :: "string \<Rightarrow> int option" where
  "atoi s =
     (let neg = has_prefix s ''-''; ds = (if neg \<or> has_prefix s ''+'' then tl s else s);
          n = (if neg then - digits_value ds else digits_value ds)
      in if ds = [] \<or> (\<exists>c \<in> set ds. \<not> is_digit c) \<or> wrap64 n \<noteq> n then None else Some n)"

section \<open>Go maps as association lists\<close>

text \<open>
  A Go map is an association list with distinct keys; its order stands for one of the
  iteration orders of a \<^verbatim>\<open>range\<close> loop.  A theorem about every such list is a theorem
  about every iteration order.
\<close>

fun al_get :: "('k \<times> 'v) list \<Rightarrow> 'k \<Rightarrow> 'v option" where
  "al_get [] k = None"
| "al_get ((k', v) # m) k = (if k' = k then Some v else al_get m k)"

fun al_put :: "('k \<times> 'v) list \<Rightarrow> 'k \<Rightarrow> 'v \<Rightarrow> ('k \<times> 'v) list" where
  "al_put [] k v = [(k, v)]"
| "al_put ((k', v') # m) k v = (if k' = k then (k, v) # m else (k', v') # al_put m k v)"

definition al_del :: "('k \<times> 'v) list \<Rightarrow> 'k \<Rightarrow> ('k \<times> 'v) list" where
  "al_del m k = filter (\<lambda>(k', _). k' \<noteq> k) m"

definition al_ok :: "('k \<times> 'v) list \<Rightarrow> bool" where
  "al_ok m \<longleftrightarrow> distinct (map fst m)"

section \<open>Time\<close>

text \<open>
  Instants are nanoseconds since the Unix epoch.  \<^verbatim>\<open>time.Time{}\<close> is the first of January
  of the year 1.  \<^verbatim>\<open>Time.Sub\<close> saturates at the limits of \<^verbatim>\<open>time.Duration\<close>, and
  \<^verbatim>\<open>Time.Unix\<close> counts whole seconds.
\<close>

definition zero_time :: int where
  "zero_time = - 62135596800 * 10 ^ 9"

definition time_sub :: "int \<Rightarrow> int \<Rightarrow> int" where
  "time_sub a b = min (2 ^ 63 - 1) (max (- (2 ^ 63)) (a - b))"

definition unix_seconds :: "int \<Rightarrow> int" where
  "unix_seconds t = t div 10 ^ 9"

section \<open>Lemma collections\<close>

named_theorems al_simps \<open>lookup after an update of a Go map\<close>
named_theorems str_simps \<open>strings.* functions\<close>

section \<open>Outcomes\<close>

lemma obind_Returns_iff:
  "obind r f = Returns y \<longleftrightarrow> (\<exists>x. r = Returns x \<and> f x = Returns y)"
  by (cases r) auto

lemma obind_assoc: "obind (obind r f) g = obind r (\<lambda>x. obind (f x) g)"
  by (cases r) auto

lemma omap_Returns_iff:
  "omap f xs = Returns ys \<longleftrightarrow> list_all2 (\<lambda>x y. f x = Returns y) xs ys"
proof (induction xs arbitrary: ys)
  case Nil
  then show ?case by auto
next
  case (Cons x xs)
  then show ?case
    by (cases ys) (auto simp: obind_Returns_iff list_all2_Cons1)
qed

lemma omap_returned:
  assumes "\<And>x. x \<in> set xs \<Longrightarrow> returned (f x)"
  shows "returned (omap f xs)"
  using assms
proof (induction xs)
  case Nil
  then show ?case by (simp add: returned_def)
next
  case (Cons x xs)
  then obtain y ys where "f x = Returns y" "omap f xs = Returns ys"
    by (fastforce simp: returned_def)
  then show ?case by (simp add: returned_def)
qed

lemma omap_Diverges:
  assumes "\<And>x. x \<in> set xs \<Longrightarrow> f x \<noteq> Panics" and "x \<in> set xs" and "f x = Diverges"
  shows "omap f xs = Diverges"
  using assms
proof (induction xs)
  case Nil
  then show ?case by simp
next
  case (Cons a xs)
  show ?case
  proof (cases "f a")
    case Diverges
    then show ?thesis by simp
  next
    case Panics
    with Cons.prems(1)[of a] show ?thesis by simp
  next
    case (Returns y)
    with Cons.prems have "x \<in> set xs" by auto
    with Cons have "omap f xs = Diverges" by simp
    with Returns show ?thesis by simp
  qed
qed

lemma option_case_witness:
  "case r of None \<Rightarrow> False | Some (a, b) \<Rightarrow> P a b \<Longrightarrow> \<exists>a b. r = Some (a, b) \<and> P a b"
  by (auto split: option.splits)

declare dec_nat.simps [simp del]

section \<open>Strings\<close>

lemma split_on_nonempty [simp]: "split_on c s \<noteq> []"
  by (induction s) (auto split: list.splits)

lemma join_split [str_simps]: "join_with [c] (split_on c s) = s"
proof (induction s)
  case Nil
  then show ?case by simp
next
  case (Cons x s)
  obtain w ws where w: "split_on c s = w # ws"
    by (cases "split_on c s") auto
  with Cons show ?case by (cases ws) auto
qed

lemma split_on_no_sep [str_simps]: "w \<in> set (split_on c s) \<Longrightarrow> c \<notin> set w"
proof (induction s arbitrary: w)
  case Nil
  then show ?case by simp
next
  case (Cons x s)
  then show ?case
    by (cases "split_on c s") (auto split: if_splits)
qed

lemma split_on_word [str_simps]: "c \<notin> set w \<Longrightarrow> split_on c w = [w]"
  by (induction w) auto

lemma split_on_append:
  "c \<notin> set w \<Longrightarrow> split_on c (w @ c # s) = w # split_on c s"
  by (induction w) auto

lemma split_join [str_simps]:
  "ws \<noteq> [] \<Longrightarrow> \<forall>w \<in> set ws. c \<notin> set w \<Longrightarrow> split_on c (join_with [c] ws) = ws"
proof (induction "[c]" ws rule: join_with.induct)
  case 1
  then show ?case by simp
next
  case (2 w)
  then show ?case by (simp add: split_on_word)
next
  case (3 w v ws)
  then show ?case by (simp add: split_on_append)
qed

lemma has_prefix_append [simp]: "has_prefix (p @ s) p"
  by (induction p) auto

lemma has_prefix_iff: "has_prefix s p \<longleftrightarrow> (\<exists>r. s = p @ r)"
proof (induction s p rule: has_prefix.induct)
  case (3 x s p ps)
  then show ?case by auto
qed auto

lemma has_suffix_iff: "has_suffix s p \<longleftrightarrow> (\<exists>r. s = r @ p)"
proof -
  have "has_suffix s p \<longleftrightarrow> (\<exists>r. rev s = rev p @ r)"
    by (simp add: has_suffix_def has_prefix_iff)
  also have "\<dots> \<longleftrightarrow> (\<exists>r. s = r @ p)"
    by (metis rev_append rev_rev_ident)
  finally show ?thesis .
qed

lemma trim_prefix_append [simp]: "trim_prefix (p @ s) p = s"
  by (simp add: trim_prefix_def)

lemma index_of_None [simp]: "index_of c s = None \<longleftrightarrow> c \<notin> set s"
  by (induction s) auto

lemma index_of_append: "c \<notin> set v \<Longrightarrow> index_of c (v @ c # t) = Some (length v)"
  by (induction v) auto

lemma index_of_Some:
  "index_of c s = Some i \<Longrightarrow> i < length s \<and> s ! i = c \<and> c \<notin> set (take i s)"
proof (induction s arbitrary: i)
  case Nil
  then show ?case by simp
next
  case (Cons x s)
  then show ?case by (auto split: if_splits)
qed

lemma index_of_split:
  assumes "index_of c s = Some i"
  shows "s = take i s @ c # drop (Suc i) s"
  using index_of_Some [OF assms] by (metis id_take_nth_drop)

section \<open>Go maps\<close>

lemma al_get_put [al_simps]: "al_get (al_put m k v) k' = (if k' = k then Some v else al_get m k')"
  by (induction m k v rule: al_put.induct) auto

lemma al_get_del [al_simps]: "al_get (al_del m k) k' = (if k' = k then None else al_get m k')"
  by (induction m) (auto simp: al_del_def)

lemma fst_al_put: "fst ` set (al_put m k v) = insert k (fst ` set m)"
  by (induction m k v rule: al_put.induct) auto

lemma al_ok_put [simp]: "al_ok m \<Longrightarrow> al_ok (al_put m k v)"
proof (induction m k v rule: al_put.induct)
  case (1 k v)
  then show ?case by (simp add: al_ok_def)
next
  case (2 k' v' m k v)
  then show ?case using fst_al_put [of m k v] by (auto simp: al_ok_def)
qed

lemma al_ok_del [simp]: "al_ok m \<Longrightarrow> al_ok (al_del m k)"
  by (induction m) (auto simp: al_ok_def al_del_def)

lemma al_get_None_iff: "al_get m k = None \<longleftrightarrow> k \<notin> fst ` set m"
proof (induction m)
  case Nil
  then show ?case by simp
next
  case (Cons p m)
  then show ?case by (cases p) auto
qed

lemma al_get_Some_set: "al_get m k = Some v \<Longrightarrow> (k, v) \<in> set m"
  by (induction m) (auto split: if_splits)

lemma al_get_iff_set: "al_ok m \<Longrightarrow> al_get m k = Some v \<longleftrightarrow> (k, v) \<in> set m"
  by (induction m) (auto simp: al_ok_def image_iff split: if_splits)

lemma al_del_notin: "k \<notin> fst ` set m \<Longrightarrow> al_del m k = m"
  by (induction m) (auto simp: al_del_def)

section \<open>Integers\<close>

lemma wrap64_id: "- (2 ^ 63) \<le> x \<Longrightarrow> x < 2 ^ 63 \<Longrightarrow> wrap64 x = x"
  by (simp add: wrap64_def)

lemma wrap64_range: "- (2 ^ 63) \<le> wrap64 x \<and> wrap64 x < 2 ^ 63"
proof -
  have "0 \<le> (x + 2 ^ 63) mod 2 ^ 64" and "(x + 2 ^ 63) mod 2 ^ 64 < (2 ^ 64 :: int)"
    by simp_all
  then show ?thesis by (simp add: wrap64_def)
qed

lemma wrap64_wrap_add: "wrap64 (wrap64 x + y) = wrap64 (x + y)"
proof -
  have "(wrap64 x + y + 2 ^ 63) mod 2 ^ 64 = ((x + 2 ^ 63) mod 2 ^ 64 + y) mod (2 ^ 64 :: int)"
    by (simp add: wrap64_def)
  also have "\<dots> = (x + 2 ^ 63 + y) mod 2 ^ 64"
    by (simp add: mod_add_left_eq)
  finally show ?thesis by (simp add: wrap64_def algebra_simps)
qed

lemma wrap64_eq_iff: "wrap64 x = wrap64 y \<longleftrightarrow> x mod 2 ^ 64 = y mod 2 ^ 64"
proof -
  have "wrap64 x = wrap64 y \<longleftrightarrow> (x + 2 ^ 63) mod 2 ^ 64 = (y + 2 ^ 63) mod (2 ^ 64 :: int)"
    by (simp add: wrap64_def)
  also have "\<dots> \<longleftrightarrow> x mod 2 ^ 64 = y mod 2 ^ 64"
    by (simp add: mod_eq_dvd_iff)
  finally show ?thesis .
qed

lemma wrap64_idem [simp]: "wrap64 (wrap64 x) = wrap64 x"
  using wrap64_wrap_add [of x 0] by simp

lemma wrap64_add_cong: "wrap64 a = wrap64 b \<Longrightarrow> wrap64 c = wrap64 d \<Longrightarrow> wrap64 (a + c) = wrap64 (b + d)"
  by (metis add.commute wrap64_wrap_add)

lemma wrap64_sum_cong:
  "(\<And>x. x \<in> set xs \<Longrightarrow> wrap64 (g x) = wrap64 (h x)) \<Longrightarrow>
   wrap64 (sum_list (map g xs)) = wrap64 (sum_list (map h xs))"
  by (induction xs) (auto intro: wrap64_add_cong)

end
