(* ===== verification/Vector_Clock.thy ===== *)
theory Vector_Clock
  imports Prelude
begin

text \<open>
  Vector clocks (\<^verbatim>\<open>src/internal/sync/vector.go\<close>).  A \<^verbatim>\<open>VectorClock\<close> is a Go map from
  device ids to \<^verbatim>\<open>uint64\<close> counters; \<open>None\<close> is the nil map, which reads as empty and
  panics when it is written.  The order of the association list is the iteration order of
  a \<^verbatim>\<open>range\<close> loop, so what is proved holds for every iteration order.
\<close>

type_synonym entries = "(string \<times> u64) list"
type_synonym vector_clock = "entries option"

datatype ordering = Before | Equal | After | Concurrent

section \<open>Operations\<close>

definition NewVectorClock :: vector_clock where
  "NewVectorClock = Some []"

fun vc_entries :: "vector_clock \<Rightarrow> entries" where
  "vc_entries None = []"
| "vc_entries (Some m) = m"

text \<open>Reading a missing key gives the zero value.\<close>

definition vc_get :: "vector_clock \<Rightarrow> string \<Rightarrow> u64" where
  "vc_get v device = (case al_get (vc_entries v) device of None \<Rightarrow> 0 | Some n \<Rightarrow> n)"

text \<open>Writing into a nil map panics.\<close>

fun vc_store :: "vector_clock \<Rightarrow> string \<Rightarrow> u64 \<Rightarrow> vector_clock outcome" where
  "vc_store None device n = Panics"
| "vc_store (Some m) device n = Returns (Some (al_put m device n))"

definition Increment :: "vector_clock \<Rightarrow> string \<Rightarrow> vector_clock outcome" where
  "Increment v deviceID = vc_store v deviceID (vc_get v deviceID + 1)"

fun merge_loop :: "vector_clock \<Rightarrow> entries \<Rightarrow> vector_clock outcome" where
  "merge_loop v [] = Returns v"
| "merge_loop v ((device, counter) # rest) =
     (if counter > vc_get v device
      then obind (vc_store v device counter) (\<lambda>v'. merge_loop v' rest)
      else merge_loop v rest)"

definition Merge :: "vector_clock \<Rightarrow> vector_clock \<Rightarrow> vector_clock outcome" where
  "Merge v other = merge_loop v (vc_entries other)"

text \<open>The two loops of \<^verbatim>\<open>Compare\<close> carry the flags \<^verbatim>\<open>superset\<close> and \<^verbatim>\<open>subset\<close>.\<close>

fun compare_own :: "vector_clock \<Rightarrow> entries \<Rightarrow> bool \<times> bool \<Rightarrow> bool \<times> bool" where
  "compare_own other [] flags = flags"
| "compare_own other ((device, counter) # rest) (super_f, sub_f) =
     (let otherCounter = vc_get other device in
      if counter > otherCounter then compare_own other rest (True, sub_f)
      else if counter < otherCounter then compare_own other rest (super_f, True)
      else compare_own other rest (super_f, sub_f))"

fun compare_other :: "vector_clock \<Rightarrow> entries \<Rightarrow> bool \<Rightarrow> bool" where
  "compare_other v [] sub_f = sub_f"
| "compare_other v ((device, counter) # rest) sub_f =
     (if al_get (vc_entries v) device = None \<and> counter > 0
      then compare_other v rest True
      else compare_other v rest sub_f)"

definition Compare :: "vector_clock \<Rightarrow> vector_clock \<Rightarrow> ordering" where
  "Compare v other =
     (let (super_f, sub_f1) = compare_own other (vc_entries v) (False, False);
          sub_f = compare_other v (vc_entries other) sub_f1
      in if \<not> super_f \<and> \<not> sub_f then Equal
         else if super_f \<and> \<not> sub_f then After
         else if \<not> super_f \<and> sub_f then Before
         else Concurrent)"

definition IsConcurrent :: "vector_clock \<Rightarrow> vector_clock \<Rightarrow> bool" where
  "IsConcurrent v other \<longleftrightarrow> Compare v other = Concurrent"

definition HappenedBefore :: "vector_clock \<Rightarrow> vector_clock \<Rightarrow> bool" where
  "HappenedBefore v other \<longleftrightarrow> Compare v other = Before"

fun copy_loop :: "entries \<Rightarrow> entries \<Rightarrow> entries" where
  "copy_loop acc [] = acc"
| "copy_loop acc ((device, counter) # rest) = copy_loop (al_put acc device counter) rest"

definition Copy :: "vector_clock \<Rightarrow> vector_clock" where
  "Copy v = Some (copy_loop [] (vc_entries v))"

text \<open>\<^verbatim>\<open>firstDeviceID\<close> (in \<^verbatim>\<open>engine.go\<close>) returns the key the iteration meets first.\<close>

definition firstDeviceID :: "vector_clock \<Rightarrow> string" where
  "firstDeviceID v = (case vc_entries v of [] \<Rightarrow> '''' | (d, _) # _ \<Rightarrow> d)"

section \<open>The specification: the pointwise order\<close>

definition vc_ok :: "vector_clock \<Rightarrow> bool" where
  "vc_ok v \<longleftrightarrow> al_ok (vc_entries v)"

definition vc_le :: "vector_clock \<Rightarrow> vector_clock \<Rightarrow> bool" where
  "vc_le v w \<longleftrightarrow> (\<forall>d. vc_get v d \<le> vc_get w d)"

text \<open>The relation the four results of \<^verbatim>\<open>Compare\<close> are documented to report.\<close>

definition causal :: "vector_clock \<Rightarrow> vector_clock \<Rightarrow> ordering" where
  "causal v w = (if vc_le v w \<and> vc_le w v then Equal
     else if vc_le w v then After else if vc_le v w then Before else Concurrent)"

section \<open>Clocks as a join semilattice\<close>

text \<open>
  What clients of a logical clock rely on: a merge whose reading is the maximum of the
  readings.  The algebra a replica needs (any merge order gives the same readings) follows
  from that law alone.
\<close>

locale logical_clock =
  fixes read :: "'c \<Rightarrow> 'd \<Rightarrow> 'n :: linorder"
    and merge :: "'c \<Rightarrow> 'c \<Rightarrow> 'c"
    and valid :: "'c \<Rightarrow> bool"
  assumes read_merge: "valid v \<Longrightarrow> valid w \<Longrightarrow> read (merge v w) d = max (read v d) (read w d)"
    and valid_merge: "valid v \<Longrightarrow> valid w \<Longrightarrow> valid (merge v w)"
begin

lemma merge_commute: "valid v \<Longrightarrow> valid w \<Longrightarrow> read (merge v w) = read (merge w v)"
  by (simp add: fun_eq_iff read_merge max.commute)

lemma merge_assoc:
  "valid u \<Longrightarrow> valid v \<Longrightarrow> valid w \<Longrightarrow> read (merge (merge u v) w) = read (merge u (merge v w))"
  by (simp add: fun_eq_iff read_merge valid_merge max.assoc)

lemma merge_idem: "valid v \<Longrightarrow> read (merge v v) = read v"
  by (simp add: fun_eq_iff read_merge)

lemma merge_least:
  assumes "valid v" and "valid w" and "\<And>d. read v d \<le> read u d" and "\<And>d. read w d \<le> read u d"
  shows "read (merge v w) d \<le> read u d"
  using assms by (simp add: read_merge)

lemma fold_merge_read:
  "valid v \<Longrightarrow> (\<And>w. w \<in> set ws \<Longrightarrow> valid w) \<Longrightarrow>
   valid (fold (\<lambda>w a. merge a w) ws v) \<and>
   read (fold (\<lambda>w a. merge a w) ws v) d = fold max (map (\<lambda>w. read w d) ws) (read v d)"
proof (induction ws arbitrary: v)
  case Nil
  then show ?case by simp
next
  case (Cons w ws)
  then show ?case by (simp add: read_merge valid_merge max.commute)
qed

lemma gossip_order_irrelevant:
  assumes "valid v" and "\<And>w. w \<in> set ws \<Longrightarrow> valid w" and "mset ws' = mset ws"
  shows "read (fold (\<lambda>w a. merge a w) ws' v) = read (fold (\<lambda>w a. merge a w) ws v)"
proof
  fix d
  have set_eq: "set ws' = set ws" using assms(3) by (rule mset_eq_setD)
  let ?f = "\<lambda>us. fold max (map (\<lambda>w. read w d) us) (read v d)"
  have "?f us = Max (set (read v d # map (\<lambda>w. read w d) us))" for us
    by (simp only: Max.set_eq_fold fold_simps)
  then have "?f ws' = ?f ws" using set_eq by simp
  then show "read (fold (\<lambda>w a. merge a w) ws' v) d = read (fold (\<lambda>w a. merge a w) ws v) d"
    using fold_merge_read [of v ws d] fold_merge_read [of v ws' d] assms set_eq by simp
qed

end

section \<open>Lemmas\<close>

lemma vc_get_None [simp]: "vc_get None d = 0"
  by (simp add: vc_get_def)

lemma vc_get_put [simp]:
  "vc_get (Some (al_put m d n)) d' = (if d' = d then n else vc_get (Some m) d')"
  by (simp add: vc_get_def al_simps)

lemma vc_get_mem: "vc_ok v \<Longrightarrow> (d, n) \<in> set (vc_entries v) \<Longrightarrow> vc_get v d = n"
  using al_get_iff_set [of "vc_entries v" d n] by (simp add: vc_ok_def vc_get_def)

lemma vc_get_absent: "al_get (vc_entries v) d = None \<Longrightarrow> vc_get v d = 0"
  by (simp add: vc_get_def)

lemma vc_get_cases:
  obtains "al_get (vc_entries v) d = None" "vc_get v d = 0"
  | "(d, vc_get v d) \<in> set (vc_entries v)"
  using al_get_Some_set [of "vc_entries v" d]
  by (cases "al_get (vc_entries v) d") (auto simp: vc_get_def)

lemma merge_loop_spec:
  assumes "al_ok m" and "al_ok es"
  shows "\<exists>m'. merge_loop (Some m) es = Returns (Some m') \<and> al_ok m' \<and>
    (\<forall>d. vc_get (Some m') d = max (vc_get (Some m) d) (vc_get (Some es) d))"
  using assms
proof (induction es arbitrary: m)
  case Nil
  then show ?case by (auto simp: vc_get_def max_def)
next
  case (Cons e es)
  obtain d0 n0 where e: "e = (d0, n0)" by (cases e)
  from Cons.prems have es: "al_ok es" and fresh: "al_get es d0 = None"
    by (auto simp: al_ok_def e al_get_None_iff)
  let ?m = "if n0 > vc_get (Some m) d0 then al_put m d0 n0 else m"
  have "al_ok ?m" using Cons.prems by simp
  from Cons.IH [OF this es] obtain m' where
    m': "merge_loop (Some ?m) es = Returns (Some m')" "al_ok m'"
      "\<forall>d. vc_get (Some m') d = max (vc_get (Some ?m) d) (vc_get (Some es) d)" by blast
  have "vc_get (Some m') d = max (vc_get (Some m) d) (vc_get (Some (e # es)) d)" for d
  proof (cases "d = d0")
    case True
    with fresh m'(3) have "vc_get (Some m') d = vc_get (Some ?m) d0"
      by (simp add: vc_get_def [of "Some es"])
    also have "\<dots> = max (vc_get (Some m) d0) n0"
      by (auto simp: max_def)
    finally show ?thesis using True by (simp add: e vc_get_def)
  next
    case False
    then have "vc_get (Some (e # es)) d = vc_get (Some es) d" and "vc_get (Some ?m) d = vc_get (Some m) d"
      by (simp_all add: e vc_get_def al_simps)
    with m'(3) show ?thesis by simp
  qed
  with m' show ?case by (auto simp: e)
qed

lemma Merge_spec:
  assumes "vc_ok v" and "vc_ok w" and "v \<noteq> None"
  shows "\<exists>u. Merge v w = Returns u \<and> u \<noteq> None \<and> vc_ok u \<and>
    (\<forall>d. vc_get u d = max (vc_get v d) (vc_get w d))"
proof -
  from assms(3) obtain m where v: "v = Some m" by auto
  have "vc_get (Some (vc_entries w)) d = vc_get w d" for d by (simp add: vc_get_def)
  with merge_loop_spec [of m "vc_entries w"] assms v show ?thesis
    by (fastforce simp: Merge_def vc_ok_def)
qed

lemma compare_own_fst:
  "fst (compare_own w es (s, t)) \<longleftrightarrow> s \<or> (\<exists>(d, n) \<in> set es. n > vc_get w d)"
  by (induction w es "(s, t)" arbitrary: s t rule: compare_own.induct)
    (auto simp: Let_def)

lemma compare_own_snd:
  "snd (compare_own w es (s, t)) \<longleftrightarrow> t \<or> (\<exists>(d, n) \<in> set es. n < vc_get w d)"
  by (induction w es "(s, t)" arbitrary: s t rule: compare_own.induct)
    (auto simp: Let_def)

lemma compare_other_iff:
  "compare_other v es t \<longleftrightarrow>
     t \<or> (\<exists>(d, n) \<in> set es. al_get (vc_entries v) d = None \<and> n > 0)"
  by (induction v es t rule: compare_other.induct) auto

lemma superset_iff:
  assumes "vc_ok v"
  shows "(\<exists>(d, n) \<in> set (vc_entries v). n > vc_get w d) \<longleftrightarrow> \<not> vc_le v w"
proof
  assume "\<exists>(d, n) \<in> set (vc_entries v). n > vc_get w d"
  then obtain d n where "(d, n) \<in> set (vc_entries v)" "n > vc_get w d" by blast
  with vc_get_mem [OF assms] show "\<not> vc_le v w" by (auto simp: vc_le_def not_le)
next
  assume "\<not> vc_le v w"
  then obtain d where d: "vc_get v d > vc_get w d" by (auto simp: vc_le_def not_le)
  then have "vc_get v d \<noteq> 0" by auto
  then have "(d, vc_get v d) \<in> set (vc_entries v)" by (metis vc_get_cases)
  with d show "\<exists>(d, n) \<in> set (vc_entries v). n > vc_get w d" by blast
qed

lemma subset_iff:
  assumes "vc_ok v" and "vc_ok w"
  shows "(\<exists>(d, n) \<in> set (vc_entries v). n < vc_get w d) \<or>
      (\<exists>(d, n) \<in> set (vc_entries w). al_get (vc_entries v) d = None \<and> n > 0) \<longleftrightarrow> \<not> vc_le w v"
    (is "?A \<or> ?B \<longleftrightarrow> _")
proof
  assume "?A \<or> ?B"
  then show "\<not> vc_le w v"
  proof
    assume ?A
    then obtain d n where "(d, n) \<in> set (vc_entries v)" "n < vc_get w d" by blast
    with vc_get_mem [OF assms(1)] show ?thesis by (auto simp: vc_le_def not_le)
  next
    assume ?B
    then obtain d n where dn: "(d, n) \<in> set (vc_entries w)" "al_get (vc_entries v) d = None" "n > 0"
      by blast
    with vc_get_mem [OF assms(2)] vc_get_absent [of v d] have "vc_get v d < vc_get w d" by simp
    then show ?thesis by (auto simp: vc_le_def not_le)
  qed
next
  assume "\<not> vc_le w v"
  then obtain d where d: "vc_get v d < vc_get w d" by (auto simp: vc_le_def not_le)
  show "?A \<or> ?B"
  proof (rule vc_get_cases [of v d])
    assume "al_get (vc_entries v) d = None"
    moreover have "(d, vc_get w d) \<in> set (vc_entries w)"
      using d by (metis vc_get_cases word_not_simps(1))
    ultimately show ?thesis using d by (auto simp: vc_get_absent)
  next
    assume "(d, vc_get v d) \<in> set (vc_entries v)"
    with d show ?thesis by blast
  qed
qed

lemma Compare_causal: "vc_ok v \<Longrightarrow> vc_ok w \<Longrightarrow> Compare v w = causal v w"
proof -
  assume ok: "vc_ok v" "vc_ok w"
  obtain s t where st: "compare_own w (vc_entries v) (False, False) = (s, t)" by fastforce
  have s: "s \<longleftrightarrow> \<not> vc_le v w"
    using compare_own_fst [of w "vc_entries v" False False] superset_iff [OF ok(1), of w] st by simp
  have t: "compare_other v (vc_entries w) t \<longleftrightarrow> \<not> vc_le w v"
    using compare_own_snd [of w "vc_entries v" False False] subset_iff [OF ok] st
    by (simp add: compare_other_iff)
  show ?thesis by (simp add: Compare_def causal_def st s t)
qed

lemma copy_loop_get: "al_get (copy_loop acc es) d = (case al_get (rev es) d of Some n \<Rightarrow> Some n | None \<Rightarrow> al_get acc d)"
proof (induction acc es arbitrary: d rule: copy_loop.induct)
  case (1 acc)
  then show ?case by simp
next
  case (2 acc d0 n0 es)
  have "al_get (xs @ ys) d = (case al_get xs d of Some n \<Rightarrow> Some n | None \<Rightarrow> al_get ys d)"
    for xs ys :: entries by (induction xs) auto
  with 2 show ?case by (simp add: al_simps split: option.splits)
qed

lemma al_get_rev: "al_ok m \<Longrightarrow> al_get (rev m) d = al_get m d"
  using al_get_iff_set [of m d] al_get_iff_set [of "rev m" d]
  by (metis al_ok_def distinct_rev option.exhaust rev_map set_rev)

lemma Copy_get: "vc_ok v \<Longrightarrow> vc_get (Copy v) d = vc_get v d"
  by (simp add: Copy_def vc_get_def copy_loop_get al_get_rev vc_ok_def split: option.splits)

lemma copy_loop_ok: "al_ok acc \<Longrightarrow> al_ok (copy_loop acc es)"
  by (induction acc es rule: copy_loop.induct) auto

lemma Copy_ok: "vc_ok (Copy v)"
  using copy_loop_ok [of "[]" "vc_entries v"] by (simp add: Copy_def vc_ok_def al_ok_def)

section \<open>The clock interface on the model\<close>

text \<open>\<open>merged\<close> is the clock a receiver holds after \<^verbatim>\<open>Merge\<close>, which mutates it in place.\<close>

definition merged :: "vector_clock \<Rightarrow> vector_clock \<Rightarrow> vector_clock" where
  "merged v w = (case Merge v w of Returns u \<Rightarrow> u | _ \<Rightarrow> v)"

interpretation clock: logical_clock vc_get merged "\<lambda>v. vc_ok v \<and> v \<noteq> None"
proof
  fix v w :: vector_clock and d
  assume "vc_ok v \<and> v \<noteq> None" and "vc_ok w \<and> w \<noteq> None"
  then obtain u where "Merge v w = Returns u" "u \<noteq> None" "vc_ok u"
    "\<forall>d. vc_get u d = max (vc_get v d) (vc_get w d)" using Merge_spec by blast
  then show "vc_get (merged v w) d = max (vc_get v d) (vc_get w d)"
    and "vc_ok (merged v w) \<and> merged v w \<noteq> None" by (simp_all add: merged_def)
qed

section \<open>Properties\<close>

text \<open>C11: \<^verbatim>\<open>Compare\<close> decides causality.  For clocks without duplicate keys, in every
  iteration order, it answers Equal exactly when all counters agree (a missing device counts
  as 0), Before exactly when no counter is larger and one is smaller, After exactly when the
  converse comparison is Before, and Concurrent exactly when each clock is ahead on some
  device.\<close>
theorem compare_decides_causality:
  assumes "vc_ok v" and "vc_ok w"
  shows "(Compare v w = Equal \<longleftrightarrow> (\<forall>d. vc_get v d = vc_get w d))
    \<and> (HappenedBefore v w \<longleftrightarrow> (\<forall>d. vc_get v d \<le> vc_get w d) \<and> (\<exists>d. vc_get v d < vc_get w d))
    \<and> (Compare v w = After \<longleftrightarrow> HappenedBefore w v)
    \<and> (IsConcurrent v w \<longleftrightarrow> (\<exists>d. vc_get v d < vc_get w d) \<and> (\<exists>d. vc_get w d < vc_get v d))"
proof -
  have eq: "vc_le v w \<and> vc_le w v \<longleftrightarrow> (\<forall>d. vc_get v d = vc_get w d)"
    by (auto simp: vc_le_def intro: antisym)
  have lt: "\<not> vc_le w v \<longleftrightarrow> (\<exists>d. vc_get v d < vc_get w d)" for v w
    by (simp add: vc_le_def not_le)
  note c = Compare_causal [OF assms] Compare_causal [OF assms(2,1)]
  show ?thesis
    unfolding HappenedBefore_def IsConcurrent_def c eq [symmetric] lt [symmetric] vc_le_def [symmetric]
    by (simp add: causal_def)
qed

theorem compare_decides_causality_witness:
  "IsConcurrent (Some [(''a'', 2), (''b'', 1)]) (Some [(''a'', 1), (''c'', 1)])"
proof -
  let ?v = "Some [(''a'', 2), (''b'', 1)]" and ?w = "Some [(''a'', 1), (''c'', 1)]"
  have "vc_ok ?v" and "vc_ok ?w" by (simp_all add: vc_ok_def al_ok_def)
  note causality = compare_decides_causality [OF this]
  have "vc_get ?w ''a'' < vc_get ?v ''a''" and "vc_get ?v ''c'' < vc_get ?w ''c''"
    by (simp_all add: vc_get_def)
  with causality show ?thesis by blast
qed

text \<open>merging is a join.  Folding any list of clocks into a clock with \<^verbatim>\<open>Merge\<close> never
  panics on an allocated receiver, keeps the keys distinct, and gives the same readings for
  every order of the list, so devices that have seen the same clocks agree.\<close>
theorem merge_order_irrelevant:
  assumes "vc_ok v" and "v \<noteq> None"
    and "\<And>w. w \<in> set ws \<Longrightarrow> vc_ok w \<and> w \<noteq> None" and "mset ws' = mset ws"
  shows "vc_get (fold (\<lambda>w a. merged a w) ws' v) = vc_get (fold (\<lambda>w a. merged a w) ws v)
    \<and> (\<forall>w \<in> set ws. \<exists>u. Merge v w = Returns u \<and> vc_ok u \<and>
         (\<forall>d. vc_get u d = max (vc_get v d) (vc_get w d)))"
  using clock.gossip_order_irrelevant [of v ws ws'] assms Merge_spec [of v] by blast

theorem merge_order_irrelevant_witness:
  "vc_get (fold (\<lambda>w a. merged a w) [Some [(''c'', 4)], Some [(''b'', 7), (''a'', 2)]] (Some [(''a'', 3)])) =
   vc_get (fold (\<lambda>w a. merged a w) [Some [(''b'', 7), (''a'', 2)], Some [(''c'', 4)]] (Some [(''a'', 3)]))"
  by (rule conjunct1 [OF merge_order_irrelevant]) (auto simp: vc_ok_def al_ok_def)

text \<open>\<^verbatim>\<open>Increment\<close> moves a clock strictly forward, except at the \<^verbatim>\<open>uint64\<close> limit where
  the counter wraps to 0 and the new clock is reported as Before the old one; on the nil map
  it panics.\<close>
theorem increment_advances:
  assumes "vc_ok (Some m)"
  shows "\<exists>w. Increment (Some m) d = Returns w \<and> vc_ok w
    \<and> Compare w (Some m) = (if vc_get (Some m) d = - 1 then Before else After)
    \<and> Increment None d = Panics"
proof -
  let ?n = "vc_get (Some m) d" and ?w = "Some (al_put m d (vc_get (Some m) d + 1))"
  have ok: "vc_ok ?w" using assms by (simp add: vc_ok_def)
  have "causal ?w (Some m) = (if ?n = - 1 then Before else After)"
  proof (cases "?n = - 1")
    case True
    then have "vc_le ?w (Some m)" and "\<not> vc_le (Some m) ?w"
      by (auto simp: vc_le_def intro!: exI [of _ d])
    with True show ?thesis by (simp add: causal_def)
  next
    case False
    then have "?n < ?n + 1" by (metis inc_less_eq_self_iff_eq not_le)
    then have "vc_le (Some m) ?w" and "\<not> vc_le ?w (Some m)"
      by (auto simp: vc_le_def not_le intro!: exI [of _ d])
    with False show ?thesis by (simp add: causal_def)
  qed
  with ok assms show ?thesis by (simp add: Increment_def Compare_causal)
qed

theorem increment_advances_witness:
  "\<exists>w. Increment (Some [(''phone'', 18446744073709551615)]) ''phone'' = Returns w \<and>
     Compare w (Some [(''phone'', 18446744073709551615)]) = Before"
  using increment_advances [of "[(''phone'', 18446744073709551615)]" "''phone''"]
  by (auto simp: vc_ok_def al_ok_def vc_get_def)

end
