(* ===== verification/Merkle.thy ===== *)
theory Merkle
  imports Prelude
begin

text \<open>
  Merkle trees over a user's files (\<^verbatim>\<open>src/internal/sync/merkle.go\<close>): building a tree from
  a flat list of file metadata, hashing directories, and the diff of two trees.

  SHA-256 with hex encoding is the parameter \<open>sha\<close>.  \<^verbatim>\<open>sort.Slice\<close> is a stable sort by
  path: on distinct paths every sorting function agrees with it.  A slice expression out of
  range panics.  \<^verbatim>\<open>buildNode\<close> takes fuel, since it does not return on every input.
\<close>

record file_info =
  fi_path :: string
  fi_is_file :: bool
  fi_size :: int
  fi_mod_time :: int
  fi_hash :: string

datatype merkle_node = MerkleNode (mn_hash: string) (mn_path: string) (mn_is_file: bool)
  (mn_size: int) (mn_mod_time: int) (mn_children: "merkle_node list")

record diff_result =
  added :: "string list"
  modified :: "string list"
  deleted :: "string list"

section \<open>Building the tree\<close>

definition computeNodeHash :: "(string \<Rightarrow> string) \<Rightarrow> merkle_node list \<Rightarrow> string" where
  "computeNodeHash sha children = sha (concat (map mn_hash children))"

definition hashString :: "(string \<Rightarrow> string) \<Rightarrow> string \<Rightarrow> string" where
  "hashString sha s = sha s"

text \<open>\<^verbatim>\<open>f.Path[len(prefix)+1:]\<close>, or the whole path at the root.\<close>

definition rel_path :: "string \<Rightarrow> file_info \<Rightarrow> string outcome" where
  "rel_path prefix f =
     (if prefix = [] then Returns (fi_path f)
      else if length prefix + 1 \<le> length (fi_path f)
      then Returns (drop (length prefix + 1) (fi_path f))
      else Panics)"

definition dir_name :: "string \<Rightarrow> string \<Rightarrow> nat \<Rightarrow> string" where
  "dir_name prefix relPath idx =
     (if prefix = [] then take idx relPath else prefix @ ''/'' @ take idx relPath)"

definition grp :: "(string \<times> file_info list) list \<Rightarrow> string \<Rightarrow> file_info list" where
  "grp groups d = (case al_get groups d of None \<Rightarrow> [] | Some l \<Rightarrow> l)"

text \<open>The loop that separates direct children from the groups of nested files.\<close>

fun group_files :: "string \<Rightarrow> file_info list \<Rightarrow> file_info list \<times> (string \<times> file_info list) list
    \<Rightarrow> (file_info list \<times> (string \<times> file_info list) list) outcome" where
  "group_files prefix [] acc = Returns acc"
| "group_files prefix (f # fs) (direct, groups) =
     obind (rel_path prefix f) (\<lambda>relPath.
       case index_of (CHR ''/'') relPath of
         None \<Rightarrow> group_files prefix fs (direct @ [f], groups)
       | Some idx \<Rightarrow>
           let dirName = dir_name prefix relPath idx
           in group_files prefix fs (direct, al_put groups dirName (grp groups dirName @ [f])))"

text \<open>The node of a direct child: a leaf file, or an empty directory hashed by its name.\<close>

definition direct_node :: "(string \<Rightarrow> string) \<Rightarrow> file_info \<Rightarrow> merkle_node" where
  "direct_node sha f =
     (if fi_is_file f
      then MerkleNode (fi_hash f) (fi_path f) True (fi_size f) (fi_mod_time f) []
      else MerkleNode (hashString sha (fi_path f)) (fi_path f) False 0 (fi_mod_time f) [])"

definition total_size :: "merkle_node list \<Rightarrow> int" where
  "total_size children = fold (\<lambda>c acc. wrap64 (acc + mn_size c)) children 0"

definition latest_mod_time :: "merkle_node list \<Rightarrow> int" where
  "latest_mod_time children = fold (\<lambda>c acc. if mn_mod_time c > acc then mn_mod_time c else acc) children 0"

definition dir_node :: "(string \<Rightarrow> string) \<Rightarrow> string \<Rightarrow> merkle_node list \<Rightarrow> merkle_node" where
  "dir_node sha prefix children =
     MerkleNode (computeNodeHash sha children) prefix False
       (total_size children) (latest_mod_time children) children"

fun keep_some :: "'a option list \<Rightarrow> 'a list" where
  "keep_some [] = []"
| "keep_some (None # xs) = keep_some xs"
| "keep_some (Some x # xs) = x # keep_some xs"

fun buildNode :: "nat \<Rightarrow> (string \<Rightarrow> string) \<Rightarrow> string \<Rightarrow> file_info list \<Rightarrow> merkle_node option outcome" where
  "buildNode 0 sha prefix files = Diverges"
| "buildNode (Suc fuel) sha prefix files =
     (if files = [] then Returns None
      else if prefix \<noteq> [] \<and> length files = 1 \<and> fi_path (hd files) = prefix
      then Returns (Some (MerkleNode (fi_hash (hd files)) (fi_path (hd files)) True
             (fi_size (hd files)) (fi_mod_time (hd files)) []))
      else obind (group_files prefix files ([], [])) (\<lambda>(direct, groups).
             obind (omap (\<lambda>dirName. buildNode fuel sha dirName (grp groups dirName))
                     (sort (map fst groups))) (\<lambda>subs.
               Returns (Some (dir_node sha prefix
                 (sort_key mn_path (map (direct_node sha) direct @ keep_some subs)))))))"

definition Build :: "nat \<Rightarrow> (string \<Rightarrow> string) \<Rightarrow> file_info list \<Rightarrow> merkle_node option outcome" where
  "Build fuel sha files =
     (if files = [] then Returns None else buildNode fuel sha [] (sort_key fi_path files))"

section \<open>The diff of two trees\<close>

fun collectPaths :: "merkle_node \<Rightarrow> string list" where
  "collectPaths (MerkleNode h p f s m children) = p # concat (map collectPaths children)"

text \<open>The map from child path to child; of two children with one path the later one stays.\<close>

definition child_map :: "merkle_node list \<Rightarrow> (string \<times> merkle_node) list" where
  "child_map children = fold (\<lambda>c m. al_put m (mn_path c) c) children []"

lemma child_map_fold_mem:
  "(p, c) \<in> set (fold (\<lambda>c m. al_put m (mn_path c) c) cs m) \<Longrightarrow>
   (p, c) \<in> set m \<or> (c \<in> set cs \<and> mn_path c = p)"
proof (induction cs arbitrary: m)
  case Nil
  then show ?case by simp
next
  case (Cons a cs)
  have put: "(p, c) \<in> set (al_put m k v) \<Longrightarrow> (p, c) \<in> set m \<or> (p = k \<and> c = v)" for k v
    by (induction m k v rule: al_put.induct) (auto split: if_splits)
  from Cons.IH [of "al_put m (mn_path a) a"] Cons.prems put show ?case by auto
qed

lemma child_map_mem: "(p, c) \<in> set (child_map cs) \<Longrightarrow> c \<in> set cs \<and> mn_path c = p"
  using child_map_fold_mem [of p c cs "[]"] by (simp add: child_map_def)

lemma child_size: "c \<in> set (mn_children t) \<Longrightarrow> size c < size t"
  by (cases t) (auto simp: less_Suc_eq_le intro: size_list_estimation')

function diffNodes :: "merkle_node \<Rightarrow> merkle_node \<Rightarrow> diff_result \<Rightarrow> diff_result" where
  "diffNodes local remote result =
     (if mn_hash local = mn_hash remote then result
      else if mn_is_file local \<and> mn_is_file remote
      then result\<lparr>modified := modified result @ [mn_path local]\<rparr>
      else if mn_is_file local \<noteq> mn_is_file remote
      then result\<lparr>deleted := deleted result @ [mn_path local], added := added result @ [mn_path remote]\<rparr>
      else let localChildren = child_map (mn_children local);
               remoteChildren = child_map (mn_children remote);
               result1 = fold (\<lambda>(path, remoteChild) r.
                   case al_get localChildren path of
                     Some localChild \<Rightarrow> diffNodes localChild remoteChild r
                   | None \<Rightarrow> r\<lparr>added := added r @ collectPaths remoteChild\<rparr>) remoteChildren result
           in fold (\<lambda>(path, localChild) r.
                if al_get remoteChildren path = None
                then r\<lparr>deleted := deleted r @ collectPaths localChild\<rparr> else r) localChildren result1)"
  by pat_completeness auto
termination
  by (relation "measure (\<lambda>(l, r, res). size r)") (auto dest!: child_map_mem intro: child_size)

definition empty_diff :: diff_result where
  "empty_diff = \<lparr>added = [], modified = [], deleted = []\<rparr>"

fun Diff :: "merkle_node option \<Rightarrow> merkle_node option \<Rightarrow> diff_result" where
  "Diff None None = empty_diff"
| "Diff None (Some remote) = empty_diff\<lparr>added := collectPaths remote\<rparr>"
| "Diff (Some local) None = empty_diff\<lparr>deleted := collectPaths local\<rparr>"
| "Diff (Some local) (Some remote) =
     (if mn_hash local = mn_hash remote then empty_diff else diffNodes local remote empty_diff)"

section \<open>Searching the tree\<close>

fun findNodeRecursive :: "merkle_node \<Rightarrow> string \<Rightarrow> merkle_node option"
  and findInChildren :: "merkle_node list \<Rightarrow> string \<Rightarrow> merkle_node option" where
  "findNodeRecursive (MerkleNode h p f s m children) path =
     (if p = path then Some (MerkleNode h p f s m children) else findInChildren children path)"
| "findInChildren [] path = None"
| "findInChildren (c # cs) path =
     (case findNodeRecursive c path of Some n \<Rightarrow> Some n | None \<Rightarrow> findInChildren cs path)"

definition FindNode :: "merkle_node option \<Rightarrow> string \<Rightarrow> merkle_node option" where
  "FindNode root path = (case root of None \<Rightarrow> None | Some t \<Rightarrow> findNodeRecursive t path)"

definition GetRootHash :: "merkle_node option \<Rightarrow> string" where
  "GetRootHash root = (case root of None \<Rightarrow> [] | Some t \<Rightarrow> mn_hash t)"

text \<open>\<^verbatim>\<open>collectAllPaths\<close> of \<^verbatim>\<open>engine.go\<close>: the paths of the files only.\<close>

fun collectPathsRecursive :: "merkle_node \<Rightarrow> string list" where
  "collectPathsRecursive (MerkleNode h p f s m children) =
     (if f then [p] else []) @ concat (map collectPathsRecursive children)"

definition collectAllPaths :: "merkle_node option \<Rightarrow> string list" where
  "collectAllPaths t = (case t of None \<Rightarrow> [] | Some n \<Rightarrow> collectPathsRecursive n)"

section \<open>Grouping\<close>

text \<open>The group a file falls into, and the inputs on which no slice is out of range.\<close>

definition rel_of :: "string \<Rightarrow> file_info \<Rightarrow> string" where
  "rel_of prefix f = (if prefix = [] then fi_path f else drop (length prefix + 1) (fi_path f))"

definition dir_key :: "string \<Rightarrow> file_info \<Rightarrow> string option" where
  "dir_key prefix f = map_option (dir_name prefix (rel_of prefix f)) (index_of (CHR ''/'') (rel_of prefix f))"

definition below :: "string \<Rightarrow> file_info \<Rightarrow> bool" where
  "below prefix f \<longleftrightarrow> prefix = [] \<or> (\<exists>rest. fi_path f = prefix @ ''/'' @ rest)"

definition absolute :: "file_info \<Rightarrow> bool" where
  "absolute f \<longleftrightarrow> has_prefix (fi_path f) ''/''"

lemma rel_path_below: "below prefix f \<Longrightarrow> rel_path prefix f = Returns (rel_of prefix f)"
  by (auto simp: below_def rel_path_def rel_of_def)

lemma grp_put [simp]: "grp (al_put gs d l) d' = (if d' = d then l else grp gs d')"
  by (simp add: grp_def al_simps)

lemma group_files_spec:
  assumes "\<And>f. f \<in> set fs \<Longrightarrow> below prefix f" and "al_ok gs"
  shows "\<exists>gs'. group_files prefix fs (dc, gs) =
      Returns (dc @ filter (\<lambda>f. dir_key prefix f = None) fs, gs')
    \<and> al_ok gs' \<and> (\<forall>d. grp gs' d = grp gs d @ filter (\<lambda>f. dir_key prefix f = Some d) fs)
    \<and> fst ` set gs' = fst ` set gs \<union> {d. \<exists>f \<in> set fs. dir_key prefix f = Some d}"
  using assms
proof (induction fs arbitrary: dc gs)
  case Nil
  then show ?case by simp
next
  case (Cons f fs)
  have rel: "rel_path prefix f = Returns (rel_of prefix f)"
    using Cons.prems(1) by (simp add: rel_path_below)
  show ?case
  proof (cases "index_of (CHR ''/'') (rel_of prefix f)")
    case None
    then have key: "dir_key prefix f = None" by (simp add: dir_key_def)
    from Cons.IH [of gs "dc @ [f]"] Cons.prems obtain gs' where
      "group_files prefix fs (dc @ [f], gs) = Returns ((dc @ [f]) @ filter (\<lambda>f. dir_key prefix f = None) fs, gs')"
      "al_ok gs'" "\<forall>d. grp gs' d = grp gs d @ filter (\<lambda>f. dir_key prefix f = Some d) fs"
      "fst ` set gs' = fst ` set gs \<union> {d. \<exists>f \<in> set fs. dir_key prefix f = Some d}" by auto
    then show ?thesis by (simp add: None key rel)
  next
    case (Some idx)
    let ?d = "dir_name prefix (rel_of prefix f) idx"
    let ?gs = "al_put gs ?d (grp gs ?d @ [f])"
    have key: "dir_key prefix f = Some ?d" using Some by (simp add: dir_key_def)
    have "al_ok ?gs" using Cons.prems(2) by simp
    from Cons.IH [of ?gs dc] Cons.prems(1) this obtain gs' where
      gs': "group_files prefix fs (dc, ?gs) = Returns (dc @ filter (\<lambda>f. dir_key prefix f = None) fs, gs')"
        "al_ok gs'" "\<forall>d. grp gs' d = grp ?gs d @ filter (\<lambda>f. dir_key prefix f = Some d) fs"
        "fst ` set gs' = fst ` set ?gs \<union> {d. \<exists>f \<in> set fs. dir_key prefix f = Some d}" by auto
    show ?thesis
      using gs' key Some rel by (auto simp: Let_def fst_al_put)
  qed
qed

text \<open>A group is strictly deeper than its directory, unless a root path starts with a slash.\<close>

lemma dir_key_below:
  assumes "below prefix f" and "dir_key prefix f = Some d"
  shows "\<exists>rest. fi_path f = d @ ''/'' @ rest"
proof -
  from assms(2) obtain idx where idx: "index_of (CHR ''/'') (rel_of prefix f) = Some idx"
    and d: "d = dir_name prefix (rel_of prefix f) idx" by (auto simp: dir_key_def)
  from index_of_split [OF idx]
  have rel: "rel_of prefix f = take idx (rel_of prefix f) @ ''/'' @ drop (Suc idx) (rel_of prefix f)"
    by simp
  show ?thesis
  proof (cases "prefix = []")
    case True
    with rel d show ?thesis by (auto simp: rel_of_def dir_name_def)
  next
    case False
    with assms(1) obtain r where r: "fi_path f = prefix @ ''/'' @ r" by (auto simp: below_def)
    with False have "rel_of prefix f = r" by (simp add: rel_of_def)
    with False rel d r show ?thesis by (metis append.assoc dir_name_def)
  qed
qed

lemma dir_key_longer:
  assumes "below prefix f" and "dir_key prefix f = Some d" and "prefix = [] \<Longrightarrow> \<not> absolute f"
  shows "length prefix < length d"
proof -
  from assms(2) obtain idx where idx: "index_of (CHR ''/'') (rel_of prefix f) = Some idx"
    and d: "d = dir_name prefix (rel_of prefix f) idx" by (auto simp: dir_key_def)
  show ?thesis
  proof (cases "prefix = []")
    case True
    then have "\<not> absolute f" using assms(3) by simp
    then have "idx \<noteq> 0"
      using idx True by (cases "fi_path f") (auto simp: rel_of_def absolute_def)
    with True d index_of_Some [OF idx] show ?thesis by (auto simp: dir_name_def rel_of_def)
  next
    case False
    with d show ?thesis by (simp add: dir_name_def)
  qed
qed

lemma mset_partition_keys:
  assumes "distinct ds" and "\<forall>f \<in> set fs. \<forall>d. k f = Some d \<longrightarrow> d \<in> set ds"
  shows "mset fs = mset (filter (\<lambda>f. k f = None) fs)
    + sum_list (map (\<lambda>d. mset (filter (\<lambda>f. k f = Some d) fs)) ds)"
  using assms(2)
proof (induction fs)
  case Nil
  then show ?case by (induction ds) auto
next
  case (Cons f fs)
  show ?case
  proof (cases "k f")
    case None
    moreover have "mset fs = mset (filter (\<lambda>f. k f = None) fs)
      + sum_list (map (\<lambda>d. mset (filter (\<lambda>f. k f = Some d) fs)) ds)"
      using Cons.IH Cons.prems by simp
    ultimately show ?thesis by simp
  next
    case (Some d)
    then have d: "d \<in> set ds" using Cons.prems by simp
    have "sum_list (map (\<lambda>x. mset (filter (\<lambda>f. k f = Some x) (f # fs))) ds)
      = sum_list (map (\<lambda>x. (if x = d then {#f#} else {#}) + mset (filter (\<lambda>f. k f = Some x) fs)) ds)"
      using Some by (intro arg_cong [where f = sum_list] map_cong) auto
    also have "\<dots> = sum_list (map (\<lambda>x. if x = d then {#f#} else {#}) ds)
      + sum_list (map (\<lambda>x. mset (filter (\<lambda>f. k f = Some x) fs)) ds)"
      by (rule sum_list_addf)
    also have "sum_list (map (\<lambda>x. if x = d then {#f#} else {#}) ds) = {#f#}"
    proof -
      have "sum_list (map (\<lambda>x. if x = d then {#f#} else {#}) es) = (if d \<in> set es then {#f#} else {#})"
        if "distinct es" for es using that by (induction es) auto
      with assms(1) d show ?thesis by simp
    qed
    finally have step: "sum_list (map (\<lambda>x. mset (filter (\<lambda>f. k f = Some x) (f # fs))) ds)
      = {#f#} + sum_list (map (\<lambda>x. mset (filter (\<lambda>f. k f = Some x) fs)) ds)" .
    have ih: "mset fs = mset (filter (\<lambda>f. k f = None) fs)
      + sum_list (map (\<lambda>d. mset (filter (\<lambda>f. k f = Some d) fs)) ds)"
      using Cons.IH Cons.prems by simp
    have "mset (f # fs) = {#f#} + mset fs" by simp
    also have "\<dots> = {#f#} + (mset (filter (\<lambda>f. k f = None) fs)
      + sum_list (map (\<lambda>d. mset (filter (\<lambda>f. k f = Some d) fs)) ds))"
      by (rule arg_cong [OF ih])
    also have "\<dots> = mset (filter (\<lambda>f. k f = None) (f # fs))
      + sum_list (map (\<lambda>d. mset (filter (\<lambda>f. k f = Some d) (f # fs))) ds)"
      unfolding step using Some by simp
    finally show ?thesis .
  qed
qed

section \<open>Building: termination\<close>

declare buildNode.simps(2) [simp del]

definition members :: "string \<Rightarrow> string \<Rightarrow> file_info list \<Rightarrow> file_info list" where
  "members prefix d fs = filter (\<lambda>f. dir_key prefix f = Some d) fs"

definition dirs :: "string \<Rightarrow> file_info list \<Rightarrow> string list" where
  "dirs prefix fs = sorted_list_of_set {d. \<exists>f \<in> set fs. dir_key prefix f = Some d}"

definition assembled :: "(string \<Rightarrow> string) \<Rightarrow> string \<Rightarrow> file_info list \<Rightarrow> merkle_node option list \<Rightarrow> merkle_node" where
  "assembled sha prefix fs subs = dir_node sha prefix (sort_key mn_path
     (map (direct_node sha) (filter (\<lambda>f. dir_key prefix f = None) fs) @ keep_some subs))"

lemma finite_dirs: "finite {d. \<exists>f \<in> set fs. dir_key prefix f = Some d}"
proof -
  have "{d. \<exists>f \<in> set fs. dir_key prefix f = Some d} \<subseteq> (\<lambda>f. the (dir_key prefix f)) ` set fs"
    by force
  then show ?thesis by (rule finite_subset) simp
qed

lemma set_dirs: "set (dirs prefix fs) = {d. \<exists>f \<in> set fs. dir_key prefix f = Some d}"
  by (simp add: dirs_def finite_dirs)

lemma distinct_dirs: "distinct (dirs prefix fs)"
  by (simp add: dirs_def)

lemma below_not_leaf: "below prefix f \<Longrightarrow> prefix \<noteq> [] \<Longrightarrow> fi_path f \<noteq> prefix"
  by (auto simp: below_def)

text \<open>One call, in terms of the groups: the form every proof about \<^verbatim>\<open>buildNode\<close> uses.\<close>

lemma buildNode_unfold:
  assumes "fs \<noteq> []" and "\<And>f. f \<in> set fs \<Longrightarrow> below prefix f"
  shows "buildNode (Suc n) sha prefix fs =
    obind (omap (\<lambda>d. buildNode n sha d (members prefix d fs)) (dirs prefix fs))
      (\<lambda>subs. Returns (Some (assembled sha prefix fs subs)))"
proof -
  obtain gs where gs: "group_files prefix fs ([], []) =
      Returns (filter (\<lambda>f. dir_key prefix f = None) fs, gs)" "al_ok gs"
    "\<And>d. grp gs d = members prefix d fs" "fst ` set gs = set (dirs prefix fs)"
    using group_files_spec [of fs prefix "[]" "[]"] assms(2)
    by (auto simp: al_ok_def grp_def members_def set_dirs)
  have "sort (map fst gs) = sorted_list_of_set (set (map fst gs))"
    using gs(2) by (simp add: sorted_list_of_set_sort_remdups al_ok_def distinct_remdups_id del: set_map)
  also have "\<dots> = dirs prefix fs"
    using gs(4) by (simp add: set_dirs) (simp add: dirs_def)
  finally have ds: "sort (map fst gs) = dirs prefix fs" .
  have "\<not> (prefix \<noteq> [] \<and> length fs = 1 \<and> fi_path (hd fs) = prefix)"
    using assms below_not_leaf by (cases fs) auto
  then have "buildNode (Suc n) sha prefix fs =
    obind (group_files prefix fs ([], [])) (\<lambda>(direct, groups).
      obind (omap (\<lambda>dirName. buildNode n sha dirName (grp groups dirName)) (sort (map fst groups)))
        (\<lambda>subs. Returns (Some (dir_node sha prefix
          (sort_key mn_path (map (direct_node sha) direct @ keep_some subs))))))"
    using assms(1) by (simp only: buildNode.simps(2) if_False)
  then show ?thesis by (simp add: gs ds assembled_def)
qed

lemma members_below:
  assumes "\<And>f. f \<in> set fs \<Longrightarrow> below prefix f" and "f \<in> set (members prefix d fs)"
  shows "below d f"
  using dir_key_below [of prefix f d] assms by (auto simp: members_def below_def)

lemma members_nonempty: "d \<in> set (dirs prefix fs) \<Longrightarrow> members prefix d fs \<noteq> []"
  by (auto simp: set_dirs members_def filter_empty_conv)

text \<open>Directories below the root have a name that is not empty.\<close>

definition rooted :: "string \<Rightarrow> file_info list \<Rightarrow> bool" where
  "rooted prefix fs \<longleftrightarrow> (\<forall>f \<in> set fs. below prefix f) \<and> (prefix = [] \<longrightarrow> (\<forall>f \<in> set fs. \<not> absolute f))"

lemma rooted_longer:
  "rooted prefix fs \<Longrightarrow> d \<in> set (dirs prefix fs) \<Longrightarrow> length prefix < length d"
  using dir_key_longer by (fastforce simp: rooted_def set_dirs)

lemma rooted_members:
  assumes "rooted prefix fs" and "d \<in> set (dirs prefix fs)"
  shows "rooted d (members prefix d fs)"
proof -
  have "d \<noteq> []" using rooted_longer [OF assms] by auto
  with assms members_below [of fs prefix] show ?thesis by (auto simp: rooted_def)
qed

lemma buildNode_returns:
  assumes "rooted prefix fs" and "\<And>f. f \<in> set fs \<Longrightarrow> length (fi_path f) < n + length prefix" and "0 < n"
  shows "returned (buildNode n sha prefix fs)"
  using assms
proof (induction n arbitrary: prefix fs)
  case 0
  then show ?case by simp
next
  case (Suc n)
  show ?case
  proof (cases "fs = []")
    case True
    then show ?thesis by (simp add: returned_def buildNode.simps(2))
  next
    case False
    have "returned (omap (\<lambda>d. buildNode n sha d (members prefix d fs)) (dirs prefix fs))"
    proof (rule omap_returned)
      fix d assume d: "d \<in> set (dirs prefix fs)"
      note longer = rooted_longer [OF Suc.prems(1) d]
      have len: "length (fi_path f) < n + length d" if "f \<in> set (members prefix d fs)" for f
        using that Suc.prems(2) [of f] longer by (simp add: members_def)
      obtain f0 where f0: "f0 \<in> set (members prefix d fs)"
        using members_nonempty [OF d] by (metis list.set_intros(1) neq_Nil_conv)
      have "below d f0" using f0 rooted_members [OF Suc.prems(1) d] by (simp add: rooted_def)
      with longer have "length d < length (fi_path f0)" by (auto simp: below_def)
      with len [OF f0] have "0 < n" by simp
      with len show "returned (buildNode n sha d (members prefix d fs))"
        by (intro Suc.IH rooted_members [OF Suc.prems(1) d]) auto
    qed
    then obtain subs where "omap (\<lambda>d. buildNode n sha d (members prefix d fs)) (dirs prefix fs) = Returns subs"
      by (auto simp: returned_def)
    with False Suc.prems(1) show ?thesis
      by (simp add: returned_def buildNode_unfold rooted_def)
  qed
qed

lemma dirs_head_Nil:
  assumes "[] \<in> set (dirs prefix fs)"
  shows "\<exists>ds. dirs prefix fs = [] # ds"
proof -
  obtain d ds where s: "dirs prefix fs = d # ds" using assms by (cases "dirs prefix fs") auto
  have "sorted (d # ds)" using s by (metis dirs_def sorted_list_of_set.sorted_sorted_key_list_of_set)
  then have "d \<le> []" using assms s by auto
  then have "d = []" by (cases d) auto
  with s show ?thesis by blast
qed

lemma dir_key_absolute: "absolute f \<Longrightarrow> dir_key [] f = Some []"
  by (cases "fi_path f") (auto simp: absolute_def dir_key_def rel_of_def dir_name_def)

lemma buildNode_absolute_diverges:
  assumes "f \<in> set fs" and "absolute f"
  shows "buildNode n sha [] fs = Diverges"
  using assms
proof (induction n arbitrary: fs)
  case 0
  then show ?case by simp
next
  case (Suc n)
  note key = dir_key_absolute [OF Suc.prems(2)]
  have "[] \<in> set (dirs [] fs)" using Suc.prems(1) key by (auto simp: set_dirs)
  then obtain ds where "dirs [] fs = [] # ds" using dirs_head_Nil by blast
  moreover have "buildNode n sha [] (members [] [] fs) = Diverges"
    using Suc key by (simp add: members_def)
  moreover have "fs \<noteq> []" using Suc.prems by auto
  ultimately show ?case by (simp add: buildNode_unfold below_def)
qed

section \<open>Building: what the tree holds\<close>

fun leaves :: "merkle_node \<Rightarrow> merkle_node list" where
  "leaves (MerkleNode h p f s m children) =
     (if children = [] then [MerkleNode h p f s m children] else concat (map leaves children))"

definition leaf_bytes :: "merkle_node \<Rightarrow> int" where
  "leaf_bytes t = sum_list (map mn_size (leaves t))"

lemma leaves_direct [simp]: "leaves (direct_node sha f) = [direct_node sha f]"
  by (simp add: direct_node_def)

lemma mn_path_direct [simp]: "mn_path (direct_node sha f) = fi_path f"
  by (simp add: direct_node_def)

lemma leaves_dir_node: "cs \<noteq> [] \<Longrightarrow> leaves (dir_node sha prefix cs) = concat (map leaves cs)"
  by (simp add: dir_node_def)

lemma leaves_mset_cong:
  "mset cs = mset cs' \<Longrightarrow> mset (concat (map leaves cs)) = mset (concat (map leaves cs'))"
  by (metis mset_concat map_map mset_map sum_mset_sum_list)

lemma total_size_sum: "total_size cs = wrap64 (sum_list (map mn_size cs))"
proof -
  have "fold (\<lambda>c acc. wrap64 (acc + mn_size c)) cs (wrap64 a) = wrap64 (a + sum_list (map mn_size cs))" for a
    by (induction cs arbitrary: a) (simp_all add: wrap64_wrap_add add.assoc)
  from this [of 0] show ?thesis by (simp add: total_size_def wrap64_id)
qed

lemma keep_some_map_Some [simp]: "keep_some (map Some xs) = xs"
  by (induction xs) auto

lemma sum_list_leaf_bytes: "sum_list (map mn_size (concat (map leaves cs))) = sum_list (map leaf_bytes cs)"
  by (induction cs) (auto simp: leaf_bytes_def)

text \<open>What is known of one subtree: it flattens to its files, and its size is their sum.\<close>

definition holds :: "(string \<Rightarrow> string) \<Rightarrow> merkle_node \<Rightarrow> file_info list \<Rightarrow> bool" where
  "holds sha t fs \<longleftrightarrow> mset (leaves t) = mset (map (direct_node sha) fs) \<and> wrap64 (mn_size t) = wrap64 (leaf_bytes t)"

lemma image_mset_sum_list:
  "image_mset h (sum_list (map g ds)) = sum_list (map (\<lambda>d. image_mset h (g d)) ds)"
  by (induction ds) auto

lemma assembled_root: "mn_path (assembled sha prefix fs subs) = prefix
    \<and> wrap64 (mn_size (assembled sha prefix fs subs)) = mn_size (assembled sha prefix fs subs)
    \<and> \<not> mn_is_file (assembled sha prefix fs subs)"
  by (simp add: assembled_def dir_node_def total_size_sum)

lemma holds_assembled:
  assumes "fs \<noteq> []" and "list_all2 (\<lambda>d c. holds sha c (members prefix d fs)) (dirs prefix fs) cs"
  shows "holds sha (assembled sha prefix fs (map Some cs)) fs"
proof -
  let ?direct = "map (direct_node sha) (filter (\<lambda>f. dir_key prefix f = None) fs)"
  let ?cs = "sort_key mn_path (?direct @ cs)"
  have sub: "mset (concat (map leaves cs)) =
      sum_list (map (\<lambda>d. mset (map (direct_node sha) (members prefix d fs))) (dirs prefix fs))"
    using assms(2) by (induction rule: list_all2_induct) (auto simp: holds_def)
  have "mset (concat (map leaves ?cs)) = mset (concat (map leaves (?direct @ cs)))"
    by (rule leaves_mset_cong) simp
  also have "\<dots> = mset ?direct + mset (concat (map leaves cs))"
    by (simp add: comp_def concat_map_singleton)
  also have "\<dots> = image_mset (direct_node sha) (mset (filter (\<lambda>f. dir_key prefix f = None) fs)
      + sum_list (map (\<lambda>d. mset (members prefix d fs)) (dirs prefix fs)))"
    by (simp add: sub image_mset_sum_list)
  also have "mset (filter (\<lambda>f. dir_key prefix f = None) fs)
      + sum_list (map (\<lambda>d. mset (members prefix d fs)) (dirs prefix fs)) = mset fs"
    unfolding members_def
    by (rule mset_partition_keys [OF distinct_dirs, symmetric]) (auto simp: set_dirs)
  finally have leaves: "mset (concat (map leaves ?cs)) = mset (map (direct_node sha) fs)" by simp
  with assms(1) have ne: "?cs \<noteq> []" by auto
  have "wrap64 (sum_list (map mn_size ?cs)) = wrap64 (sum_list (map leaf_bytes ?cs))"
  proof (rule wrap64_sum_cong)
    fix c assume "c \<in> set ?cs"
    then consider (d) "c \<in> set ?direct" | (s) "c \<in> set cs" by auto
    then show "wrap64 (mn_size c) = wrap64 (leaf_bytes c)"
    proof cases
      case d
      then show ?thesis by (auto simp: leaf_bytes_def)
    next
      case s
      then show ?thesis using assms(2) by (auto simp: holds_def list_all2_conv_all_nth in_set_conv_nth)
    qed
  qed
  with leaves ne show ?thesis
    by (simp add: holds_def assembled_def leaf_bytes_def leaves_dir_node sum_list_leaf_bytes)
      (simp add: dir_node_def total_size_sum)
qed

lemma buildNode_holds:
  assumes "rooted prefix fs" and "fs \<noteq> []" and "buildNode n sha prefix fs = Returns r"
  shows "\<exists>t. r = Some t \<and> holds sha t fs \<and> mn_path t = prefix \<and> wrap64 (mn_size t) = mn_size t"
  using assms
proof (induction n arbitrary: prefix fs r)
  case 0
  then show ?case by simp
next
  case (Suc n)
  from Suc.prems obtain subs where
    all: "list_all2 (\<lambda>d y. buildNode n sha d (members prefix d fs) = Returns y) (dirs prefix fs) subs"
    and r: "r = Some (assembled sha prefix fs subs)"
    by (auto simp: buildNode_unfold rooted_def obind_Returns_iff omap_Returns_iff)
  from all have len: "length subs = length (dirs prefix fs)" by (simp add: list_all2_lengthD)
  have "\<exists>c. subs ! i = Some c \<and> holds sha c (members prefix (dirs prefix fs ! i) fs)"
    if i: "i < length subs" for i
  proof -
    let ?d = "dirs prefix fs ! i"
    have d: "?d \<in> set (dirs prefix fs)" using i len by simp
    have "buildNode n sha ?d (members prefix ?d fs) = Returns (subs ! i)"
      using all i by (simp add: list_all2_conv_all_nth)
    from Suc.IH [OF rooted_members [OF Suc.prems(1) d] members_nonempty [OF d] this]
    show ?thesis by blast
  qed
  then obtain cf where cf: "\<And>i. i < length subs \<Longrightarrow>
      subs ! i = Some (cf i) \<and> holds sha (cf i) (members prefix (dirs prefix fs ! i) fs)" by metis
  let ?cs = "map cf [0..<length subs]"
  have "subs = map Some ?cs" using cf by (intro nth_equalityI) auto
  with r have t: "r = Some (assembled sha prefix fs (map Some ?cs))" by metis
  have "list_all2 (\<lambda>d c. holds sha c (members prefix d fs)) (dirs prefix fs) ?cs"
    using cf len by (simp add: list_all2_conv_all_nth)
  from holds_assembled [OF Suc.prems(2) this] t assembled_root show ?case by metis
qed

section \<open>The diff: soundness\<close>

declare diffNodes.simps [simp del]

text \<open>All nodes of a tree.\<close>

fun nodes :: "merkle_node \<Rightarrow> merkle_node list" where
  "nodes (MerkleNode h p f s m children) = MerkleNode h p f s m children # concat (map nodes children)"

lemma self_in_nodes: "t \<in> set (nodes t)"
  by (cases t) simp

lemma nodes_child: "c \<in> set (mn_children t) \<Longrightarrow> n \<in> set (nodes c) \<Longrightarrow> n \<in> set (nodes t)"
  by (cases t) auto

lemma collectPaths_nodes: "collectPaths t = map mn_path (nodes t)"
  by (induction t) (auto simp: map_concat comp_def intro!: arg_cong [where f = concat])

text \<open>What every entry of a diff is evidence of.\<close>

definition sound :: "merkle_node \<Rightarrow> merkle_node \<Rightarrow> diff_result \<Rightarrow> bool" where
  "sound local remote d \<longleftrightarrow>
     (\<forall>p \<in> set (added d). \<exists>n \<in> set (nodes remote). mn_path n = p)
   \<and> (\<forall>p \<in> set (deleted d). \<exists>n \<in> set (nodes local). mn_path n = p)
   \<and> (\<forall>p \<in> set (modified d). \<exists>a \<in> set (nodes local). \<exists>b \<in> set (nodes remote).
        mn_path a = p \<and> mn_path b = p \<and> mn_is_file a \<and> mn_is_file b \<and> mn_hash a \<noteq> mn_hash b)"

lemma sound_modified:
  "sound l r d \<Longrightarrow> a \<in> set (nodes l) \<Longrightarrow> b \<in> set (nodes r) \<Longrightarrow> mn_path a = mn_path b \<Longrightarrow> mn_is_file a
   \<Longrightarrow> mn_is_file b \<Longrightarrow> mn_hash a \<noteq> mn_hash b \<Longrightarrow> sound l r (d\<lparr>modified := modified d @ [mn_path a]\<rparr>)"
  by (auto simp: sound_def)

lemma sound_added:
  "sound l r d \<Longrightarrow> set ps \<subseteq> mn_path ` set (nodes r) \<Longrightarrow> sound l r (d\<lparr>added := added d @ ps\<rparr>)"
  by (fastforce simp: sound_def)

lemma sound_deleted:
  "sound l r d \<Longrightarrow> set ps \<subseteq> mn_path ` set (nodes l) \<Longrightarrow> sound l r (d\<lparr>deleted := deleted d @ ps\<rparr>)"
  by (fastforce simp: sound_def)

lemma collectPaths_subtree:
  "c \<in> set (mn_children t) \<Longrightarrow> set (nodes t) \<subseteq> set (nodes T) \<Longrightarrow> set (collectPaths c) \<subseteq> mn_path ` set (nodes T)"
  using nodes_child by (fastforce simp: collectPaths_nodes)

lemma diffNodes_sound:
  assumes "sound L R d" and "set (nodes l) \<subseteq> set (nodes L)" and "set (nodes r) \<subseteq> set (nodes R)"
    and "mn_path l = mn_path r"
  shows "sound L R (diffNodes l r d)"
  using assms
proof (induction l r d rule: diffNodes.induct)
  case (1 l r d)
  have root: "l \<in> set (nodes L)" "r \<in> set (nodes R)" using 1 self_in_nodes by auto
  consider (same) "mn_hash l = mn_hash r"
    | (files) "mn_hash l \<noteq> mn_hash r" "mn_is_file l" "mn_is_file r"
    | (kinds) "mn_hash l \<noteq> mn_hash r" "mn_is_file l \<noteq> mn_is_file r"
    | (dirs) "mn_hash l \<noteq> mn_hash r" "\<not> mn_is_file l" "\<not> mn_is_file r" by auto
  then show ?case
  proof cases
    case same
    with 1 show ?thesis by (simp add: diffNodes.simps)
  next
    case files
    with sound_modified [OF 1(2) root 1(5) files(2,3,1)] show ?thesis by (simp add: diffNodes.simps)
  next
    case kinds
    have eq: "diffNodes l r d = (d\<lparr>deleted := deleted d @ [mn_path l]\<rparr>)\<lparr>added :=
      added (d\<lparr>deleted := deleted d @ [mn_path l]\<rparr>) @ [mn_path r]\<rparr>"
      using kinds by (subst diffNodes.simps) auto
    from root 1(2) show ?thesis
      unfolding eq by (intro sound_added sound_deleted) auto
  next
    case dirs
    let ?lc = "child_map (mn_children l)" and ?rc = "child_map (mn_children r)"
    have part1: "sound L R (fold (\<lambda>(p, rch) q. case al_get ?lc p of Some lch \<Rightarrow> diffNodes lch rch q
      | None \<Rightarrow> q\<lparr>added := added q @ collectPaths rch\<rparr>) ?rc d)"
    proof (rule fold_invariant [where Q = "\<lambda>x. x \<in> set ?rc"])
      fix x q assume x: "x \<in> set ?rc" and q: "sound L R q"
      obtain p rch where [simp]: "x = (p, rch)" by (cases x)
      from x have rch: "rch \<in> set (mn_children r)" "mn_path rch = p" using child_map_mem by auto
      show "sound L R ((case x of (p, rch) \<Rightarrow> (\<lambda>q. case al_get ?lc p of Some lch \<Rightarrow> diffNodes lch rch q
        | None \<Rightarrow> q\<lparr>added := added q @ collectPaths rch\<rparr>)) q)"
      proof (cases "al_get ?lc p")
        case None
        then show ?thesis using sound_added [OF q collectPaths_subtree [OF rch(1) 1(4)]] by simp
      next
        case (Some lch)
        then have lch: "lch \<in> set (mn_children l)" "mn_path lch = p"
          using child_map_mem al_get_Some_set by fastforce+
        have "sound L R (diffNodes lch rch q)"
          using 1(1) [OF dirs(1) _ _ refl refl x _ Some q] dirs lch rch 1(3,4) nodes_child by fastforce
        with Some show ?thesis by simp
      qed
    qed (use 1 in auto)
    have "sound L R (fold (\<lambda>(p, lch) q. if al_get ?rc p = None
      then q\<lparr>deleted := deleted q @ collectPaths lch\<rparr> else q) ?lc q0)" if q0: "sound L R q0" for q0
    proof (rule fold_invariant [where Q = "\<lambda>x. x \<in> set ?lc"])
      fix x q assume x: "x \<in> set ?lc" and q: "sound L R q"
      then have "snd x \<in> set (mn_children l)" using child_map_mem [of "fst x" "snd x"] by simp
      from sound_deleted [OF q collectPaths_subtree [OF this 1(3)]] q
      show "sound L R ((case x of (p, lch) \<Rightarrow> (\<lambda>q. if al_get ?rc p = None
        then q\<lparr>deleted := deleted q @ collectPaths lch\<rparr> else q)) q)"
        by (cases x) simp
    qed (use q0 in auto)
    from this [OF part1] dirs show ?thesis
      by (subst diffNodes.simps) (simp add: Let_def)
  qed
qed

section \<open>Flat directories\<close>

lemma flat_Build:
  assumes "fs \<noteq> []" and "\<And>f. f \<in> set fs \<Longrightarrow> fi_is_file f \<and> CHR ''/'' \<notin> set (fi_path f)"
  shows "\<exists>t. Build (Suc n) sha fs = Returns (Some t) \<and> mn_path t = [] \<and> \<not> mn_is_file t
    \<and> mn_hash t = sha (concat (map fi_hash (sort_key fi_path fs)))"
proof -
  let ?fs = "sort_key fi_path fs"
  have key: "dir_key [] f = None" if "f \<in> set ?fs" for f
    using that assms(2) [of f] by (simp add: dir_key_def rel_of_def)
  then have nodirs: "dirs [] ?fs = []" by (simp add: dirs_def)
  have direct: "filter (\<lambda>f. dir_key [] f = None) ?fs = ?fs" using key by (simp add: filter_id_conv)
  have sorted: "sort_key mn_path (map (direct_node sha) ?fs) = map (direct_node sha) ?fs"
    by (rule sort_key_id_if_sorted) (simp add: comp_def)
  have "map (mn_hash \<circ> direct_node sha) ?fs = map fi_hash ?fs"
    using assms(2) by (auto simp: direct_node_def)
  moreover have "?fs \<noteq> []" using assms(1) by (metis length_0_conv length_sort)
  then have "Build (Suc n) sha fs = Returns (Some (assembled sha [] ?fs []))"
    using assms(1) by (simp add: Build_def buildNode_unfold below_def nodirs)
  ultimately show ?thesis
    by (simp add: assembled_def direct sorted dir_node_def computeNodeHash_def del: map_eq_conv)
qed

section \<open>Properties\<close>

text \<open>C12: Building a tree over relative paths returns: with one unit of fuel more than the
  longest path has bytes the call is not out of fuel and no slice expression is out of range.
  The leaves of the tree are exactly the nodes of the given files, with multiplicity, the root
  is the directory with the empty path, and its size is the wrapped sum of the file sizes.\<close>

theorem build_flattens:
  assumes "files \<noteq> []" and "\<forall>f \<in> set files. \<not> absolute f \<and> length (fi_path f) < n"
  shows "\<exists>t. Build n sha files = Returns (Some t)
    \<and> mset (leaves t) = mset (map (direct_node sha) files)
    \<and> mn_path t = [] \<and> mn_size t = wrap64 (sum_list (map mn_size (leaves t)))"
proof -
  let ?fs = "sort_key fi_path files"
  have rooted: "rooted [] ?fs" using assms(2) by (simp add: rooted_def below_def)
  have ne: "?fs \<noteq> []" using assms(1) by (metis length_0_conv length_sort)
  with assms have "0 < n" by (cases files) auto
  then have "returned (buildNode n sha [] ?fs)"
    using assms(2) by (intro buildNode_returns rooted) auto
  then obtain r where r: "buildNode n sha [] ?fs = Returns r" by (auto simp: returned_def)
  from buildNode_holds [OF rooted ne r] obtain t where
    t: "r = Some t" "holds sha t ?fs" "mn_path t = []" "wrap64 (mn_size t) = mn_size t" by auto
  then have "mset (leaves t) = mset (map (direct_node sha) files)"
    by (simp add: holds_def)
  with t r assms(1) show ?thesis by (simp add: Build_def holds_def leaf_bytes_def)
qed

theorem build_flattens_witness:
  "\<exists>t. Build 4 (\<lambda>s. s)
      [\<lparr>fi_path = ''d/f'', fi_is_file = True, fi_size = 7, fi_mod_time = 1, fi_hash = ''x''\<rparr>,
       \<lparr>fi_path = ''b'', fi_is_file = True, fi_size = 2, fi_mod_time = 3, fi_hash = ''y''\<rparr>] = Returns (Some t)
    \<and> mn_size t = 9"
proof -
  let ?fs = "[\<lparr>fi_path = ''d/f'', fi_is_file = True, fi_size = 7, fi_mod_time = 1, fi_hash = ''x''\<rparr>,
       \<lparr>fi_path = ''b'', fi_is_file = True, fi_size = 2, fi_mod_time = 3, fi_hash = ''y''\<rparr>]"
  from build_flattens [of ?fs 4 "\<lambda>s. s"] obtain t where
    t: "Build 4 (\<lambda>s. s) ?fs = Returns (Some t)" "mset (leaves t) = mset (map (direct_node (\<lambda>s. s)) ?fs)"
      "mn_size t = wrap64 (sum_list (map mn_size (leaves t)))"
    by (auto simp: absolute_def)
  have "sum_list (map mn_size (leaves t)) = sum_mset (image_mset mn_size (mset (leaves t)))"
    by (metis mset_map sum_mset_sum_list)
  also have "\<dots> = 9" unfolding t(2) by (simp add: direct_node_def)
  finally show ?thesis using t by (simp add: wrap64_def)
qed

text \<open>A file list with one path that starts with a slash is never built: at the root the
  group of such a path has the empty name again, so the call recurses on the same arguments
  for ever, whatever the other files and the fuel are.\<close>

theorem build_absolute_never_returns:
  assumes "f \<in> set files" and "absolute f"
  shows "Build n sha files = Diverges"
proof -
  have "f \<in> set (sort_key fi_path files)" and "files \<noteq> []" using assms by auto
  with assms buildNode_absolute_diverges show ?thesis by (simp add: Build_def)
qed

theorem build_absolute_never_returns_witness:
  "Build 1000 (\<lambda>s. s)
     [\<lparr>fi_path = ''/f'', fi_is_file = True, fi_size = 7, fi_mod_time = 1, fi_hash = ''x''\<rparr>] = Diverges"
  by (rule build_absolute_never_returns [OF list.set_intros(1)]) (simp add: absolute_def)

text \<open>The diff of two trees whose roots have the same path is sound: an added path is the path of a node of the
  remote tree, a deleted path one of the local tree, and a modified path belongs to a file in
  both trees with two different hashes.  The diff of a tree with an equal root hash is empty.\<close>

theorem diff_sound:
  assumes "mn_path l = mn_path r"
  shows "set (added (Diff (Some l) (Some r))) \<subseteq> set (collectPaths r)
    \<and> set (deleted (Diff (Some l) (Some r))) \<subseteq> set (collectPaths l)
    \<and> (\<forall>p \<in> set (modified (Diff (Some l) (Some r))).
        \<exists>a \<in> set (nodes l). \<exists>b \<in> set (nodes r). mn_path a = p \<and> mn_path b = p
          \<and> mn_is_file a \<and> mn_is_file b \<and> mn_hash a \<noteq> mn_hash b)
    \<and> (mn_hash l = mn_hash r \<longrightarrow> Diff (Some l) (Some r) = empty_diff)"
proof -
  have "sound l r (Diff (Some l) (Some r))"
    using diffNodes_sound [of l r empty_diff l r] assms by (auto simp: sound_def empty_diff_def)
  then have "set (added (Diff (Some l) (Some r))) \<subseteq> set (collectPaths r)"
    and "set (deleted (Diff (Some l) (Some r))) \<subseteq> set (collectPaths l)"
    by (auto simp: sound_def collectPaths_nodes simp del: Diff.simps)
  moreover have "mn_hash l = mn_hash r \<longrightarrow> Diff (Some l) (Some r) = empty_diff" by simp
  ultimately show ?thesis using \<open>sound l r _\<close> unfolding sound_def by blast
qed

theorem diff_sound_witness:
  "modified (Diff (Some (MerkleNode ''h1'' [] False 1 1 [MerkleNode ''a'' ''f'' True 1 1 []]))
       (Some (MerkleNode ''h2'' [] False 1 1 [MerkleNode ''b'' ''f'' True 1 1 []]))) = [''f'']
   \<and> set (added (Diff (Some (MerkleNode ''h1'' [] False 1 1 [MerkleNode ''a'' ''f'' True 1 1 []]))
       (Some (MerkleNode ''h2'' [] False 1 1 [MerkleNode ''b'' ''f'' True 1 1 []])))) \<subseteq> {[], ''f''}"
  using diff_sound [of "MerkleNode ''h1'' [] False 1 1 [MerkleNode ''a'' ''f'' True 1 1 []]"
      "MerkleNode ''h2'' [] False 1 1 [MerkleNode ''b'' ''f'' True 1 1 []]"]
  by (simp add: diffNodes.simps child_map_def empty_diff_def)

text \<open>A directory hash covers the hashes of the children but not their names.  Two flat
  file lists with the same content hashes in path order get the same root hash, so the diff
  between them is empty even where every path was renamed.\<close>

theorem renames_not_detected:
  assumes "fs \<noteq> []" and "gs \<noteq> []"
    and "\<forall>f \<in> set fs \<union> set gs. fi_is_file f \<and> CHR ''/'' \<notin> set (fi_path f)"
    and "map fi_hash (sort_key fi_path fs) = map fi_hash (sort_key fi_path gs)"
  shows "\<exists>t u. Build (Suc n) sha fs = Returns (Some t) \<and> Build (Suc n) sha gs = Returns (Some u)
    \<and> GetRootHash (Some t) = GetRootHash (Some u) \<and> Diff (Some t) (Some u) = empty_diff"
proof -
  from flat_Build [of fs n sha] assms obtain t where
    t: "Build (Suc n) sha fs = Returns (Some t)" "mn_hash t = sha (concat (map fi_hash (sort_key fi_path fs)))" by auto
  from flat_Build [of gs n sha] assms obtain u where
    u: "Build (Suc n) sha gs = Returns (Some u)" "mn_hash u = sha (concat (map fi_hash (sort_key fi_path gs)))" by auto
  from t(2) u(2) assms(4) have "mn_hash t = mn_hash u" by simp
  then have "GetRootHash (Some t) = GetRootHash (Some u) \<and> Diff (Some t) (Some u) = empty_diff"
    by (simp add: GetRootHash_def)
  with t(1) u(1) show ?thesis by blast
qed

theorem renames_not_detected_witness:
  "\<exists>t u. Build 1 (\<lambda>s. s)
      [\<lparr>fi_path = ''a'', fi_is_file = True, fi_size = 7, fi_mod_time = 1, fi_hash = ''x''\<rparr>] = Returns (Some t)
    \<and> Build 1 (\<lambda>s. s)
      [\<lparr>fi_path = ''z'', fi_is_file = True, fi_size = 7, fi_mod_time = 1, fi_hash = ''x''\<rparr>] = Returns (Some u)
    \<and> Diff (Some t) (Some u) = empty_diff"
  using renames_not_detected
    [of "[\<lparr>fi_path = ''a'', fi_is_file = True, fi_size = 7, fi_mod_time = 1, fi_hash = ''x''\<rparr>]"
        "[\<lparr>fi_path = ''z'', fi_is_file = True, fi_size = 7, fi_mod_time = 1, fi_hash = ''x''\<rparr>]" 0 "\<lambda>s. s"]
  by (auto simp del: Diff.simps)

end
