(* ===== verification/Chunker.thy ===== *)
theory Chunker
  imports Prelude
begin

unbundle bit_operations_syntax

text \<open>
  Content-defined chunking (\<^verbatim>\<open>src/internal/chunk/chunker.go\<close>) and file manifests
  (\<^verbatim>\<open>src/internal/chunk/manifest.go\<close>): the Rabin tables, the rolling fingerprint, the three
  chunking loops, the deduplication index, and manifests built from chunks.

  A reader is the list of what its successive \<^verbatim>\<open>Read\<close> calls return: the bytes and the
  error of each call.  When the list is used up without an error the loop is still reading.
  SHA-256 with hex encoding is the parameter \<open>sha\<close>.
\<close>

section \<open>Rabin tables\<close>

record rabin_table =
  polynomial :: u64
  degree :: nat
  outTable :: "u64 list"
  modTable :: "u64 list"

text \<open>\<^verbatim>\<open>for degree > 0 && ((poly>>degree)&1) == 0 { degree-- }\<close>\<close>

fun top_bit :: "u64 \<Rightarrow> nat \<Rightarrow> nat" where
  "top_bit poly 0 = 0"
| "top_bit poly (Suc d) = (if bit poly (Suc d) then Suc d else top_bit poly d)"

definition shift_reduce :: "u64 \<Rightarrow> nat \<Rightarrow> u64 \<Rightarrow> u64" where
  "shift_reduce poly deg fp =
     (let fp' = push_bit 1 fp in if bit fp' deg then fp' XOR poly else fp')"

text \<open>\<^verbatim>\<open>for i := uint(63); i >= degree; i--\<close>: clear the bits from 63 down to the degree.\<close>

definition reduce :: "u64 \<Rightarrow> nat \<Rightarrow> u64 \<Rightarrow> u64" where
  "reduce poly deg r =
     fold (\<lambda>i r. if bit r i then r XOR push_bit (i - deg) poly else r) (rev [deg..<64]) r"

definition spread :: "u64 \<Rightarrow> nat \<Rightarrow> u64" where
  "spread p b = fold (\<lambda>i r. if bit b i then r XOR push_bit i p else r) [0..<8] 0"

text \<open>With degree 0 the unsigned loop counter of the reduction never falls below the degree.\<close>

definition createRabinTable :: "u64 \<Rightarrow> nat \<Rightarrow> rabin_table outcome" where
  "createRabinTable poly windowSize =
     (let deg = top_bit poly 63;
          outPoly = (shift_reduce poly deg ^^ windowSize) 1
      in if deg = 0 then Diverges
         else Returns \<lparr>polynomial = poly, degree = deg,
           outTable = map (\<lambda>b. reduce poly deg (spread outPoly b)) [0..<256],
           modTable = map (\<lambda>b. reduce poly deg (spread poly b)) [0..<256]\<rparr>)"

text \<open>The cache is keyed by the polynomial alone.\<close>

definition getRabinTable :: "(u64 \<times> rabin_table) list \<Rightarrow> u64 \<Rightarrow> nat
    \<Rightarrow> (rabin_table \<times> (u64 \<times> rabin_table) list) outcome" where
  "getRabinTable tables poly windowSize =
     (case al_get tables poly of
        Some table \<Rightarrow> Returns (table, tables)
      | None \<Rightarrow> obind (createRabinTable poly windowSize) (\<lambda>table.
          Returns (table, al_put tables poly table)))"

section \<open>The chunker\<close>

record chunker =
  minSize :: int
  avgSize :: int
  maxSize :: int
  windowSize :: nat
  mask :: u64
  ck_polynomial :: u64
  ck_table :: rabin_table

record chunk_info =
  ci_hash :: string
  ci_offset :: int
  ci_size :: int

text \<open>\<^verbatim>\<open>for size > 1 { size >>= 1; bits++ }\<close>\<close>

function size_bits :: "int \<Rightarrow> nat" where
  "size_bits sz = (if sz > 1 then Suc (size_bits (drop_bit 1 sz)) else 0)"
  by pat_completeness auto
termination
  by (relation "measure nat") (auto simp: drop_bit_eq_div)

definition NewChunker :: "(u64 \<times> rabin_table) list \<Rightarrow> int \<Rightarrow> int \<Rightarrow> int
    \<Rightarrow> (chunker \<times> (u64 \<times> rabin_table) list) outcome" where
  "NewChunker tables mn avg mx =
     (let bits = (if int (size_bits avg) - 2 < 8 then 8 else size_bits avg - 2);
          poly = 0x3DA3358B4DC173
      in obind (getRabinTable tables poly 48) (\<lambda>(table, tables').
         Returns (\<lparr>minSize = mn, avgSize = avg, maxSize = mx, windowSize = 48,
           mask = push_bit bits 1 - 1, ck_polynomial = poly, ck_table = table\<rparr>, tables')))"

definition DefaultChunker :: "(u64 \<times> rabin_table) list
    \<Rightarrow> (chunker \<times> (u64 \<times> rabin_table) list) outcome" where
  "DefaultChunker tables = NewChunker tables (256 * 1024) (1024 * 1024) (4 * 1024 * 1024)"

section \<open>The rolling fingerprint\<close>

definition pushByte :: "chunker \<Rightarrow> u64 \<Rightarrow> byte \<Rightarrow> u64" where
  "pushByte c fp b =
     (let fp1 = push_bit 1 fp;
          fp2 = (if bit fp1 (degree (ck_table c)) then fp1 XOR ck_polynomial c else fp1)
      in fp2 XOR ucast b)"

definition slideFingerprint :: "chunker \<Rightarrow> u64 \<Rightarrow> byte \<Rightarrow> byte \<Rightarrow> u64" where
  "slideFingerprint c fp oldByte newByte =
     (let fp0 = fp XOR outTable (ck_table c) ! unat oldByte;
          fp1 = push_bit 1 fp0;
          fp2 = (if bit fp1 (degree (ck_table c)) then fp1 XOR ck_polynomial c else fp1)
      in fp2 XOR ucast newByte)"

text \<open>The window variables the three loops share, and the block that feeds one byte to them.\<close>

record roller =
  window :: "byte list"
  fingerprint :: u64
  windowPos :: nat
  windowFilled :: bool

definition new_roller :: "chunker \<Rightarrow> roller" where
  "new_roller c = \<lparr>window = replicate (windowSize c) 0, fingerprint = 0, windowPos = 0, windowFilled = False\<rparr>"

definition roll :: "chunker \<Rightarrow> byte \<Rightarrow> roller \<Rightarrow> roller" where
  "roll c b r =
     (if windowFilled r \<or> windowPos r \<ge> windowSize c
      then r\<lparr>window := (tl (window r) @ [last (window r)])[windowSize c - 1 := b],
             fingerprint := slideFingerprint c (fingerprint r) (hd (window r)) b\<rparr>
      else r\<lparr>window := (window r)[windowPos r := b], windowPos := windowPos r + 1,
             fingerprint := pushByte c (fingerprint r) b,
             windowFilled := windowFilled r \<or> windowPos r + 1 = windowSize c\<rparr>)"

definition at_boundary :: "chunker \<Rightarrow> roller \<Rightarrow> byte list \<Rightarrow> bool" where
  "at_boundary c r buf \<longleftrightarrow> int (length buf) \<ge> minSize c
     \<and> (fingerprint r AND mask c = 0 \<or> int (length buf) \<ge> maxSize c)"

section \<open>Reading\<close>

datatype read_error = EOF | ReadError string

type_synonym reader = "(byte list \<times> read_error option) list"

section \<open>Chunk\<close>

record chunk_state =
  cs_roller :: roller
  cs_buf :: "byte list"
  cs_offset :: int
  cs_chunkOffset :: int
  cs_chunks :: "chunk_info list"

definition chunk_byte :: "(byte list \<Rightarrow> string) \<Rightarrow> chunker \<Rightarrow> byte \<Rightarrow> chunk_state \<Rightarrow> chunk_state" where
  "chunk_byte sha c b st =
     (let buf = cs_buf st @ [b]; off = wrap64 (cs_offset st + 1); r = roll c b (cs_roller st)
      in if at_boundary c r buf
         then st\<lparr>cs_roller := r, cs_buf := [], cs_offset := off, cs_chunkOffset := off,
                cs_chunks := cs_chunks st @
                  [\<lparr>ci_hash = sha buf, ci_offset = cs_chunkOffset st, ci_size = int (length buf)\<rparr>]\<rparr>
         else st\<lparr>cs_roller := r, cs_buf := buf, cs_offset := off\<rparr>)"

definition chunk_finish :: "(byte list \<Rightarrow> string) \<Rightarrow> chunk_state \<Rightarrow> chunk_info list" where
  "chunk_finish sha st =
     (if cs_buf st \<noteq> []
      then cs_chunks st @ [\<lparr>ci_hash = sha (cs_buf st), ci_offset = cs_chunkOffset st,
                            ci_size = int (length (cs_buf st))\<rparr>]
      else cs_chunks st)"

fun chunk_reads :: "(byte list \<Rightarrow> string) \<Rightarrow> chunker \<Rightarrow> reader \<Rightarrow> chunk_state \<Rightarrow> (string + chunk_info list) outcome" where
  "chunk_reads sha c [] st = Diverges"
| "chunk_reads sha c ((bs, err) # rs) st =
     (let st' = fold (chunk_byte sha c) bs st
      in case err of
           None \<Rightarrow> chunk_reads sha c rs st'
         | Some EOF \<Rightarrow> Returns (Inr (chunk_finish sha st'))
         | Some (ReadError e) \<Rightarrow> Returns (Inl e))"

text \<open>\<^verbatim>\<open>make([]byte, 0, c.maxSize)\<close> panics on a negative capacity.\<close>

definition Chunk :: "(byte list \<Rightarrow> string) \<Rightarrow> chunker \<Rightarrow> reader \<Rightarrow> (string + chunk_info list) outcome" where
  "Chunk sha c rs =
     (if maxSize c < 0 then Panics
      else chunk_reads sha c rs \<lparr>cs_roller = new_roller c, cs_buf = [], cs_offset = 0,
             cs_chunkOffset = 0, cs_chunks = []\<rparr>)"

section \<open>ChunkWithData\<close>

record data_state = chunk_state +
  ds_data :: "byte list list"

definition data_byte :: "(byte list \<Rightarrow> string) \<Rightarrow> chunker \<Rightarrow> byte \<Rightarrow> data_state \<Rightarrow> data_state" where
  "data_byte sha c b st =
     (let buf = cs_buf st @ [b]; off = wrap64 (cs_offset st + 1); r = roll c b (cs_roller st)
      in if at_boundary c r buf
         then st\<lparr>cs_roller := r, cs_buf := [], cs_offset := off, cs_chunkOffset := off,
                cs_chunks := cs_chunks st @
                  [\<lparr>ci_hash = sha buf, ci_offset = cs_chunkOffset st, ci_size = int (length buf)\<rparr>],
                ds_data := ds_data st @ [buf]\<rparr>
         else st\<lparr>cs_roller := r, cs_buf := buf, cs_offset := off\<rparr>)"

definition data_finish :: "(byte list \<Rightarrow> string) \<Rightarrow> data_state \<Rightarrow> chunk_info list \<times> byte list list" where
  "data_finish sha st =
     (if cs_buf st \<noteq> []
      then (cs_chunks st @ [\<lparr>ci_hash = sha (cs_buf st), ci_offset = cs_chunkOffset st,
                             ci_size = int (length (cs_buf st))\<rparr>], ds_data st @ [cs_buf st])
      else (cs_chunks st, ds_data st))"

fun data_reads :: "(byte list \<Rightarrow> string) \<Rightarrow> chunker \<Rightarrow> reader \<Rightarrow> data_state
    \<Rightarrow> (string + chunk_info list \<times> byte list list) outcome" where
  "data_reads sha c [] st = Diverges"
| "data_reads sha c ((bs, err) # rs) st =
     (let st' = fold (data_byte sha c) bs st
      in case err of
           None \<Rightarrow> data_reads sha c rs st'
         | Some EOF \<Rightarrow> Returns (Inr (data_finish sha st'))
         | Some (ReadError e) \<Rightarrow> Returns (Inl e))"

definition ChunkWithData :: "(byte list \<Rightarrow> string) \<Rightarrow> chunker \<Rightarrow> reader
    \<Rightarrow> (string + chunk_info list \<times> byte list list) outcome" where
  "ChunkWithData sha c rs =
     (if maxSize c < 0 then Panics
      else data_reads sha c rs \<lparr>cs_roller = new_roller c, cs_buf = [], cs_offset = 0,
             cs_chunkOffset = 0, cs_chunks = [], ds_data = []\<rparr>)"

section \<open>ChunkStream\<close>

text \<open>
  The callback is a state transformer that may return an error; its state \<open>'s\<close> is whatever the
  caller closes over.  The hasher is the bytes written to it since its last reset.
\<close>

type_synonym 's on_chunk = "int \<Rightarrow> int \<Rightarrow> string \<Rightarrow> byte list \<Rightarrow> 's \<Rightarrow> 's \<times> string option"

record 's stream_state =
  ss_roller :: roller
  ss_buf :: "byte list"
  ss_chunkOffset :: int
  ss_hasher :: "byte list"
  ss_caller :: 's

text \<open>\<^verbatim>\<open>chunkBuf\<close> is emptied before its length is added to the offset.\<close>

definition stream_byte :: "(byte list \<Rightarrow> string) \<Rightarrow> chunker \<Rightarrow> 's on_chunk \<Rightarrow> byte \<Rightarrow> 's stream_state
    \<Rightarrow> 's stream_state \<times> string option" where
  "stream_byte sha c onChunk b st =
     (let buf = ss_buf st @ [b]; h = ss_hasher st @ [b]; r = roll c b (ss_roller st);
          st1 = st\<lparr>ss_roller := r, ss_buf := buf, ss_hasher := h\<rparr>
      in if at_boundary c r buf
         then (case onChunk (ss_chunkOffset st) (int (length buf)) (sha h) buf (ss_caller st) of
                 (s, Some e) \<Rightarrow> (st1\<lparr>ss_caller := s\<rparr>, Some e)
               | (s, None) \<Rightarrow>
                   (let st2 = st1\<lparr>ss_caller := s, ss_hasher := [], ss_buf := []\<rparr>
                    in (st2\<lparr>ss_chunkOffset := wrap64 (ss_chunkOffset st2 + int (length (ss_buf st2)))\<rparr>, None)))
         else (st1, None))"

fun stream_bytes :: "(byte list \<Rightarrow> string) \<Rightarrow> chunker \<Rightarrow> 's on_chunk \<Rightarrow> byte list \<Rightarrow> 's stream_state
    \<Rightarrow> 's stream_state \<times> string option" where
  "stream_bytes sha c onChunk [] st = (st, None)"
| "stream_bytes sha c onChunk (b # bs) st =
     (case stream_byte sha c onChunk b st of
        (st', Some e) \<Rightarrow> (st', Some e)
      | (st', None) \<Rightarrow> stream_bytes sha c onChunk bs st')"

definition stream_finish :: "(byte list \<Rightarrow> string) \<Rightarrow> 's on_chunk \<Rightarrow> 's stream_state \<Rightarrow> 's \<times> string option" where
  "stream_finish sha onChunk st =
     (if ss_buf st \<noteq> []
      then onChunk (ss_chunkOffset st) (int (length (ss_buf st))) (sha (ss_hasher st)) (ss_buf st) (ss_caller st)
      else (ss_caller st, None))"

fun stream_reads :: "(byte list \<Rightarrow> string) \<Rightarrow> chunker \<Rightarrow> 's on_chunk \<Rightarrow> reader \<Rightarrow> 's stream_state
    \<Rightarrow> ('s \<times> string option) outcome" where
  "stream_reads sha c onChunk [] st = Diverges"
| "stream_reads sha c onChunk ((bs, err) # rs) st =
     (case stream_bytes sha c onChunk bs st of
        (st', Some e) \<Rightarrow> Returns (ss_caller st', Some e)
      | (st', None) \<Rightarrow>
          (case err of
             None \<Rightarrow> stream_reads sha c onChunk rs st'
           | Some EOF \<Rightarrow> Returns (stream_finish sha onChunk st')
           | Some (ReadError e) \<Rightarrow> Returns (ss_caller st', Some e)))"

definition ChunkStream :: "(byte list \<Rightarrow> string) \<Rightarrow> chunker \<Rightarrow> reader \<Rightarrow> 's on_chunk \<Rightarrow> 's
    \<Rightarrow> ('s \<times> string option) outcome" where
  "ChunkStream sha c rs onChunk s =
     (if maxSize c < 0 then Panics
      else stream_reads sha c onChunk rs \<lparr>ss_roller = new_roller c, ss_buf = [], ss_chunkOffset = 0,
             ss_hasher = [], ss_caller = s\<rparr>)"

section \<open>The deduplication index\<close>

type_synonym dedup_index = "(string \<times> unit) list"

definition NewDedupIndex :: dedup_index where
  "NewDedupIndex = []"

definition dedup_Add :: "dedup_index \<Rightarrow> string \<Rightarrow> dedup_index" where
  "dedup_Add d hash = al_put d hash ()"

definition dedup_Exists :: "dedup_index \<Rightarrow> string \<Rightarrow> bool" where
  "dedup_Exists d hash = (al_get d hash \<noteq> None)"

definition dedup_Remove :: "dedup_index \<Rightarrow> string \<Rightarrow> dedup_index" where
  "dedup_Remove d hash = al_del d hash"

section \<open>Manifests\<close>

record manifest_doc =
  md_id :: string
  md_file_id :: string
  md_version :: int
  md_size :: int
  md_chunks :: "chunk_info list"
  md_checksum :: string
  md_device_id :: string
  md_created_at :: int

definition NewManifest :: "int \<Rightarrow> string \<Rightarrow> string \<Rightarrow> string \<Rightarrow> chunk_info list \<Rightarrow> manifest_doc" where
  "NewManifest now i fileID deviceID chunks =
     \<lparr>md_id = i, md_file_id = fileID, md_version = 1,
      md_size = fold (\<lambda>c total. wrap64 (total + ci_size c)) chunks 0,
      md_chunks = chunks, md_checksum = [], md_device_id = deviceID, md_created_at = now\<rparr>"

definition GetChunkHashes :: "manifest_doc \<Rightarrow> string list" where
  "GetChunkHashes m = map ci_hash (md_chunks m)"

definition CalculateChecksum :: "(byte list \<Rightarrow> string) \<Rightarrow> manifest_doc \<Rightarrow> byte list \<Rightarrow> string" where
  "CalculateChecksum sha m data = sha data"

definition ChunkCount :: "manifest_doc \<Rightarrow> nat" where
  "ChunkCount m = length (md_chunks m)"

datatype manifest_error = ManifestIDRequired | FileIDRequired | NoChunks | NegativeSize
  | ChunkNoHash nat | ChunkInvalidSize nat

fun validate_chunks :: "nat \<Rightarrow> chunk_info list \<Rightarrow> manifest_error option" where
  "validate_chunks i [] = None"
| "validate_chunks i (c # cs) =
     (if ci_hash c = [] then Some (ChunkNoHash i)
      else if ci_size c \<le> 0 then Some (ChunkInvalidSize i)
      else validate_chunks (i + 1) cs)"

definition Validate :: "manifest_doc \<Rightarrow> manifest_error option" where
  "Validate m =
     (if md_id m = [] then Some ManifestIDRequired
      else if md_file_id m = [] then Some FileIDRequired
      else if md_chunks m = [] then Some NoChunks
      else if md_size m < 0 then Some NegativeSize
      else validate_chunks 0 (md_chunks m))"


declare size_bits.simps [simp del]

section \<open>Reference: cutting a byte string\<close>

text \<open>What a reader delivers up to its first error, and that error.\<close>

fun drain :: "reader \<Rightarrow> byte list \<times> read_error option" where
  "drain [] = ([], None)"
| "drain ((bs, None) # rs) = (bs @ fst (drain rs), snd (drain rs))"
| "drain ((bs, Some e) # rs) = (bs, Some e)"

text \<open>The pieces a byte string is cut into, with the rest that is in the buffer at its end.\<close>

fun cut :: "chunker \<Rightarrow> roller \<Rightarrow> byte list \<Rightarrow> byte list \<Rightarrow> byte list list \<times> roller \<times> byte list" where
  "cut c r buf [] = ([], r, buf)"
| "cut c r buf (b # bs) =
     (let r' = roll c b r; buf' = buf @ [b]
      in if at_boundary c r' buf' then (case cut c r' [] bs of (ps, q) \<Rightarrow> (buf' # ps, q))
         else cut c r' buf' bs)"

definition cut_pieces :: "chunker \<Rightarrow> byte list \<Rightarrow> byte list list" where
  "cut_pieces c bs = (case cut c (new_roller c) [] bs of (ps, r, buf) \<Rightarrow> if buf = [] then ps else ps @ [buf])"

fun infos :: "(byte list \<Rightarrow> string) \<Rightarrow> int \<Rightarrow> byte list list \<Rightarrow> chunk_info list" where
  "infos sha off [] = []"
| "infos sha off (p # ps) = \<lparr>ci_hash = sha p, ci_offset = off, ci_size = int (length p)\<rparr>
     # infos sha (wrap64 (off + int (length p))) ps"

lemma infos_append:
  "infos sha (wrap64 off) (ps @ qs) = infos sha (wrap64 off) ps @ infos sha (wrap64 (off + int (length (concat ps)))) qs"
  by (induction ps arbitrary: off) (simp_all add: wrap64_wrap_add add.assoc)

lemma cut_append:
  "cut c r buf (xs @ ys) =
     (case cut c r buf xs of (ps, r', buf') \<Rightarrow> case cut c r' buf' ys of (qs, q) \<Rightarrow> (ps @ qs, q))"
  by (induction xs arbitrary: r buf) (auto simp: Let_def split: prod.splits)

lemma cut_concat: "cut c r buf bs = (ps, r', buf') \<Longrightarrow> concat ps @ buf' = buf @ bs"
proof (induction bs arbitrary: r buf ps)
  case Nil
  then show ?case by simp
next
  case (Cons b bs)
  then show ?case by (fastforce simp: Let_def split: if_splits prod.splits)
qed

lemma concat_cut_pieces: "concat (cut_pieces c bs) = bs"
proof (cases "cut c (new_roller c) [] bs")
  case (fields ps r buf)
  with cut_concat [OF this] show ?thesis by (auto simp: cut_pieces_def)
qed

section \<open>The loops compute the reference\<close>

definition tracks :: "(byte list \<Rightarrow> string) \<Rightarrow> chunker \<Rightarrow> byte list \<Rightarrow> 'z chunk_state_scheme \<Rightarrow> bool" where
  "tracks sha c bs st \<longleftrightarrow> (case cut c (new_roller c) [] bs of (ps, r, buf) \<Rightarrow>
     cs_roller st = r \<and> cs_buf st = buf \<and> cs_chunks st = infos sha 0 ps
     \<and> cs_offset st = wrap64 (int (length bs)) \<and> cs_chunkOffset st = wrap64 (int (length (concat ps))))"

lemma infos_snoc: "infos sha 0 (ps @ [p]) = infos sha 0 ps @
    [\<lparr>ci_hash = sha p, ci_offset = wrap64 (int (length (concat ps))), ci_size = int (length p)\<rparr>]"
  using infos_append [of sha 0 ps "[p]"] by (simp add: wrap64_id)

lemma wrap64_of_nat_Suc: "wrap64 (wrap64 (int n) + 1) = wrap64 (int (Suc n))"
  by (simp only: wrap64_wrap_add) (simp add: add.commute)

lemma chunk_byte_tracks: "tracks sha c bs st \<Longrightarrow> tracks sha c (bs @ [b]) (chunk_byte sha c b st)"
proof (cases "cut c (new_roller c) [] bs")
  case (fields ps r buf)
  assume "tracks sha c bs st"
  with fields cut_concat [OF fields] show ?thesis
    by (auto simp: tracks_def cut_append chunk_byte_def Let_def infos_snoc wrap64_of_nat_Suc)
qed

lemma data_byte_chunk: "chunk_state.truncate (data_byte sha c b st) = chunk_byte sha c b (chunk_state.truncate st)"
  by (simp add: data_byte_def chunk_byte_def chunk_state.truncate_def Let_def)

lemma chunk_bytes_tracks:
  "tracks sha c bs st \<Longrightarrow> tracks sha c (bs @ xs) (fold (chunk_byte sha c) xs st)"
proof (induction xs arbitrary: bs st)
  case Nil
  then show ?case by simp
next
  case (Cons x xs)
  from Cons.IH [OF chunk_byte_tracks [OF Cons.prems, of x]] show ?case by simp
qed

lemma tracks_finish: "tracks sha c bs st \<Longrightarrow> chunk_finish sha st = infos sha 0 (cut_pieces c bs)"
  by (auto simp: tracks_def chunk_finish_def cut_pieces_def infos_snoc split: prod.splits)

text \<open>What a loop returns on what was drained.\<close>

fun finished :: "'a \<Rightarrow> read_error option \<Rightarrow> (string + 'a) outcome" where
  "finished x None = Diverges"
| "finished x (Some EOF) = Returns (Inr x)"
| "finished x (Some (ReadError e)) = Returns (Inl e)"

lemma chunk_reads_spec:
  "tracks sha c bs st \<Longrightarrow>
   chunk_reads sha c rs st = finished (infos sha 0 (cut_pieces c (bs @ fst (drain rs)))) (snd (drain rs))"
proof (induction rs arbitrary: bs st rule: drain.induct)
  case 1
  then show ?case by simp
next
  case (2 xs rs)
  from "2.IH" [OF chunk_bytes_tracks [OF "2.prems", of xs]] show ?case by simp
next
  case (3 xs e rs)
  from tracks_finish [OF chunk_bytes_tracks [OF 3, of xs]] show ?case
    by (cases e) simp_all
qed

lemma tracks_start: "tracks sha c [] \<lparr>cs_roller = new_roller c, cs_buf = [], cs_offset = 0,
    cs_chunkOffset = 0, cs_chunks = []\<rparr>"
  by (simp add: tracks_def wrap64_id)

lemma Chunk_spec:
  "0 \<le> maxSize c \<Longrightarrow> Chunk sha c rs = finished (infos sha 0 (cut_pieces c (fst (drain rs)))) (snd (drain rs))"
  using chunk_reads_spec [OF tracks_start, of sha c rs] by (simp add: Chunk_def)

definition data_tracks :: "chunker \<Rightarrow> byte list \<Rightarrow> data_state \<Rightarrow> bool" where
  "data_tracks c bs st \<longleftrightarrow> ds_data st = fst (cut c (new_roller c) [] bs)"

lemma data_byte_tracks:
  assumes "tracks sha c bs (chunk_state.truncate st)" and "data_tracks c bs st"
  shows "data_tracks c (bs @ [b]) (data_byte sha c b st)"
proof (cases "cut c (new_roller c) [] bs")
  case (fields ps r buf)
  with assms show ?thesis
    by (auto simp: data_tracks_def tracks_def cut_append data_byte_def Let_def chunk_state.truncate_def)
qed

lemma data_bytes_tracks:
  assumes "tracks sha c bs (chunk_state.truncate st)" and "data_tracks c bs st"
  shows "tracks sha c (bs @ xs) (chunk_state.truncate (fold (data_byte sha c) xs st))
    \<and> data_tracks c (bs @ xs) (fold (data_byte sha c) xs st)"
  using assms
proof (induction xs arbitrary: bs st)
  case Nil
  then show ?case by simp
next
  case (Cons x xs)
  have "tracks sha c (bs @ [x]) (chunk_state.truncate (data_byte sha c x st))"
    using chunk_byte_tracks [OF Cons.prems(1)] by (simp add: data_byte_chunk)
  from Cons.IH [OF this data_byte_tracks [OF Cons.prems]] show ?case by simp
qed

lemma data_finish_spec:
  assumes "tracks sha c bs (chunk_state.truncate st)" and "data_tracks c bs st"
  shows "data_finish sha st = (infos sha 0 (cut_pieces c bs), cut_pieces c bs)"
  using assms
  by (auto simp: tracks_def data_tracks_def data_finish_def cut_pieces_def infos_snoc
      chunk_state.truncate_def split: prod.splits)

lemma data_reads_spec:
  assumes "tracks sha c bs (chunk_state.truncate st)" and "data_tracks c bs st"
  shows "data_reads sha c rs st = (let ps = cut_pieces c (bs @ fst (drain rs)) in
    finished (infos sha 0 ps, ps) (snd (drain rs)))"
  using assms
proof (induction rs arbitrary: bs st rule: drain.induct)
  case 1
  then show ?case by (simp add: Let_def)
next
  case (2 xs rs)
  from data_bytes_tracks [OF "2.prems", of xs] "2.IH" [of "bs @ xs" "fold (data_byte sha c) xs st"]
  show ?case by simp
next
  case (3 xs e rs)
  from data_bytes_tracks [OF 3, of xs]
  have "data_finish sha (fold (data_byte sha c) xs st) = (infos sha 0 (cut_pieces c (bs @ xs)), cut_pieces c (bs @ xs))"
    by (intro data_finish_spec) auto
  then show ?case by (cases e) (simp_all add: Let_def)
qed

lemma ChunkWithData_spec:
  assumes "0 \<le> maxSize c"
  shows "ChunkWithData sha c rs = (let ps = cut_pieces c (fst (drain rs)) in
    finished (infos sha 0 ps, ps) (snd (drain rs)))"
proof -
  let ?st = "\<lparr>cs_roller = new_roller c, cs_buf = [], cs_offset = 0,
             cs_chunkOffset = 0, cs_chunks = [], ds_data = []\<rparr>"
  have "tracks sha c [] (chunk_state.truncate ?st)" using tracks_start by (simp add: chunk_state.truncate_def)
  moreover have "data_tracks c [] ?st" by (simp add: data_tracks_def)
  ultimately show ?thesis using data_reads_spec [of sha c "[]" ?st rs] assms by (simp add: ChunkWithData_def)
qed

text \<open>The calls the streaming loop makes, and what they leave of the caller's state.\<close>

fun report :: "(byte list \<Rightarrow> string) \<Rightarrow> 's on_chunk \<Rightarrow> byte list list \<Rightarrow> 's \<Rightarrow> 's \<times> string option" where
  "report sha onChunk [] s = (s, None)"
| "report sha onChunk (p # ps) s =
     (case onChunk 0 (int (length p)) (sha p) p s of
        (s', Some e) \<Rightarrow> (s', Some e)
      | (s', None) \<Rightarrow> report sha onChunk ps s')"

lemma report_append:
  "report sha onChunk (ps @ qs) s =
     (case report sha onChunk ps s of (s', Some e) \<Rightarrow> (s', Some e) | (s', None) \<Rightarrow> report sha onChunk qs s')"
  by (induction ps arbitrary: s) (auto split: prod.splits option.splits)

lemma stream_bytes_report:
  assumes "ss_hasher st = ss_buf st" and "ss_chunkOffset st = 0"
    and "cut c (ss_roller st) (ss_buf st) bs = (ps, r, buf)"
    and "report sha onChunk ps (ss_caller st) = (s, e)"
  shows "\<exists>st'. stream_bytes sha c onChunk bs st = (st', e) \<and> ss_caller st' = s \<and> (e = None \<longrightarrow>
    ss_roller st' = r \<and> ss_buf st' = buf \<and> ss_hasher st' = buf \<and> ss_chunkOffset st' = 0)"
  using assms
proof (induction bs arbitrary: st ps)
  case Nil
  then show ?case by auto
next
  case (Cons b bs)
  let ?r = "roll c b (ss_roller st)" and ?buf = "ss_buf st @ [b]"
  show ?case
  proof (cases "at_boundary c ?r ?buf")
    case False
    with Cons.prems Cons.IH [of "st\<lparr>ss_roller := ?r, ss_buf := ?buf, ss_hasher := ?buf\<rparr>" ps]
    show ?thesis by (simp add: stream_byte_def Let_def)
  next
    case True
    obtain qs where qs: "cut c ?r [] bs = (qs, r, buf)" "ps = ?buf # qs"
      using Cons.prems(3) True by (auto simp: Let_def split: prod.splits)
    obtain s1 e1 where call: "onChunk 0 (int (length ?buf)) (sha ?buf) ?buf (ss_caller st) = (s1, e1)"
      by (cases "onChunk 0 (int (length ?buf)) (sha ?buf) ?buf (ss_caller st)")
    show ?thesis
    proof (cases e1)
      case (Some x)
      with True Cons.prems qs call show ?thesis by (auto simp: stream_byte_def Let_def)
    next
      case None
      with True Cons.prems qs call Cons.IH [of "\<lparr>ss_roller = ?r, ss_buf = [], ss_chunkOffset = 0,
          ss_hasher = [], ss_caller = s1\<rparr>" qs]
      show ?thesis by (cases st) (auto simp: stream_byte_def Let_def wrap64_id)
    qed
  qed
qed

lemma stream_reads_report:
  assumes "ss_hasher st = ss_buf st" and "ss_chunkOffset st = 0"
  shows "stream_reads sha c onChunk rs st =
    (case cut c (ss_roller st) (ss_buf st) (fst (drain rs)) of (ps, r, buf) \<Rightarrow>
     case report sha onChunk ps (ss_caller st) of
       (s, Some e) \<Rightarrow> Returns (s, Some e)
     | (s, None) \<Rightarrow> (case snd (drain rs) of
           None \<Rightarrow> Diverges
         | Some EOF \<Rightarrow> Returns (report sha onChunk (if buf = [] then [] else [buf]) s)
         | Some (ReadError e) \<Rightarrow> Returns (s, Some e)))"
  using assms
proof (induction rs arbitrary: st rule: drain.induct)
  case 1
  then show ?case by simp
next
  case (2 xs rs)
  obtain ps r buf where cut: "cut c (ss_roller st) (ss_buf st) xs = (ps, r, buf)" by (cases "cut c (ss_roller st) (ss_buf st) xs")
  obtain s e where rep: "report sha onChunk ps (ss_caller st) = (s, e)" by (cases "report sha onChunk ps (ss_caller st)")
  from stream_bytes_report [OF "2.prems" cut rep] obtain st' where
    st': "stream_bytes sha c onChunk xs st = (st', e)" "ss_caller st' = s"
    "e = None \<Longrightarrow> ss_roller st' = r \<and> ss_buf st' = buf \<and> ss_hasher st' = buf \<and> ss_chunkOffset st' = 0" by auto
  show ?case
  proof (cases e)
    case (Some x)
    with st' cut rep show ?thesis by (auto simp: cut_append report_append split: prod.splits)
  next
    case None
    obtain qs r2 buf2 where cut2: "cut c r buf (fst (drain rs)) = (qs, r2, buf2)"
      by (cases "cut c r buf (fst (drain rs))")
    with None st' cut rep "2.IH" [of st'] show ?thesis by (simp add: cut_append report_append)
  qed
next
  case (3 xs err rs)
  obtain ps r buf where cut: "cut c (ss_roller st) (ss_buf st) xs = (ps, r, buf)" by (cases "cut c (ss_roller st) (ss_buf st) xs")
  obtain s e where rep: "report sha onChunk ps (ss_caller st) = (s, e)" by (cases "report sha onChunk ps (ss_caller st)")
  from stream_bytes_report [OF 3 cut rep] obtain st' where
    st': "stream_bytes sha c onChunk xs st = (st', e)" "ss_caller st' = s"
    "e = None \<Longrightarrow> ss_roller st' = r \<and> ss_buf st' = buf \<and> ss_hasher st' = buf \<and> ss_chunkOffset st' = 0" by auto
  with cut rep show ?case
    by (cases e; cases err) (auto simp: stream_finish_def split: prod.splits option.splits)
qed

lemma ChunkStream_spec:
  assumes "0 \<le> maxSize c"
  shows "ChunkStream sha c rs onChunk s =
    (case cut c (new_roller c) [] (fst (drain rs)) of (ps, r, buf) \<Rightarrow>
     case report sha onChunk ps s of
       (s, Some e) \<Rightarrow> Returns (s, Some e)
     | (s, None) \<Rightarrow> (case snd (drain rs) of
           None \<Rightarrow> Diverges
         | Some EOF \<Rightarrow> Returns (report sha onChunk (if buf = [] then [] else [buf]) s)
         | Some (ReadError e) \<Rightarrow> Returns (s, Some e)))"
  using assms stream_reads_report [of "\<lparr>ss_roller = new_roller c, ss_buf = [], ss_chunkOffset = 0,
             ss_hasher = [], ss_caller = s\<rparr>"]
  by (simp add: ChunkStream_def)

section \<open>Sizes of the pieces\<close>

lemma cut_sizes:
  assumes "cut c r buf bs = (ps, r', buf')" and "1 \<le> minSize c" and "minSize c \<le> maxSize c"
    and "int (length buf) < maxSize c"
  shows "(\<forall>p \<in> set ps. minSize c \<le> int (length p) \<and> int (length p) \<le> maxSize c)
    \<and> int (length buf') < maxSize c"
  using assms
proof (induction bs arbitrary: r buf ps)
  case Nil
  then show ?case by simp
next
  case (Cons b bs)
  let ?r = "roll c b r" and ?buf = "buf @ [b]"
  show ?case
  proof (cases "at_boundary c ?r ?buf")
    case True
    then obtain qs where "cut c ?r [] bs = (qs, r', buf')" "ps = ?buf # qs"
      using Cons.prems(1) by (auto simp: Let_def split: prod.splits)
    with Cons.IH [of ?r "[]" qs] Cons.prems True show ?thesis by (auto simp: at_boundary_def)
  next
    case False
    moreover from this have "int (length ?buf) < maxSize c"
      using Cons.prems(2-4) by (auto simp: at_boundary_def)
    ultimately show ?thesis using Cons.IH [of ?r ?buf ps] Cons.prems by (simp add: Let_def)
  qed
qed

lemma cut_pieces_nonempty:
  assumes "1 \<le> minSize c" and "minSize c \<le> maxSize c"
  shows "\<forall>p \<in> set (cut_pieces c bs). p \<noteq> [] \<and> int (length p) \<le> maxSize c"
proof -
  obtain ps r buf where cut: "cut c (new_roller c) [] bs = (ps, r, buf)"
    by (cases "cut c (new_roller c) [] bs")
  have "(\<forall>p \<in> set ps. minSize c \<le> int (length p) \<and> int (length p) \<le> maxSize c) \<and> int (length buf) < maxSize c"
    using cut_sizes [OF cut assms] assms by simp
  with assms(1) show ?thesis by (auto simp: cut_pieces_def cut)
qed

lemma manifest_size:
  "fold (\<lambda>c total. wrap64 (total + ci_size c)) (infos sha a qs) (wrap64 t) = wrap64 (t + int (length (concat qs)))"
  by (induction qs arbitrary: a t) (simp_all add: wrap64_wrap_add add.assoc)

lemma infos_nth:
  assumes "i < length ps" and "int (length (concat ps)) < 2 ^ 63"
  shows "infos sha 0 ps ! i = \<lparr>ci_hash = sha (ps ! i), ci_offset = int (length (concat (take i ps))),
    ci_size = int (length (ps ! i))\<rparr>"
proof -
  have ps: "ps = take i ps @ [ps ! i] @ drop (Suc i) ps" using assms(1) by (simp add: id_take_nth_drop)
  then have "length (concat (take i ps)) \<le> length (concat ps)"
    by (metis concat_append length_append le_add1)
  with assms(2) have off: "wrap64 (int (length (concat (take i ps)))) = int (length (concat (take i ps)))"
    by (intro wrap64_id) auto
  have len: "length (infos sha a qs) = length qs" for a qs by (induction qs arbitrary: a) auto
  have "infos sha 0 ps = infos sha 0 (take i ps) @ infos sha (wrap64 (int (length (concat (take i ps))))) ([ps ! i] @ drop (Suc i) ps)"
    using infos_append [of sha 0 "take i ps" "[ps ! i] @ drop (Suc i) ps"] ps by (simp add: wrap64_id)
  then show ?thesis using assms(1) off by (simp add: nth_append len)
qed

section \<open>Bits of the fingerprint\<close>

text \<open>All bits from \<open>n\<close> upwards are clear.\<close>

definition below_bit :: "nat \<Rightarrow> u64 \<Rightarrow> bool" where
  "below_bit n x \<longleftrightarrow> (\<forall>i \<ge> n. \<not> bit x i)"

lemma below_bit_xor: "below_bit n x \<Longrightarrow> below_bit n y \<Longrightarrow> below_bit n (x XOR y)"
  by (simp add: below_bit_def bit_xor_iff)

lemma below_bit_byte: "8 \<le> n \<Longrightarrow> below_bit n (ucast (b :: byte))"
  using bit_imp_le_length [of b] by (fastforce simp: below_bit_def bit_simps)

lemma below_bit_less: "below_bit n x \<Longrightarrow> uint x < 2 ^ n"
proof -
  assume "below_bit n x"
  then have "take_bit n x = x"
    by (intro bit_word_eqI) (auto simp: bit_take_bit_iff below_bit_def not_le)
  then have "uint x = take_bit n (uint x)" by (metis unsigned_take_bit_eq)
  then show ?thesis by (metis take_bit_int_less_exp)
qed

lemma top_bit_spec:
  "top_bit poly d = n \<Longrightarrow> 0 < n \<Longrightarrow> n \<le> d \<and> bit poly n \<and> (\<forall>i. n < i \<and> i \<le> d \<longrightarrow> \<not> bit poly i)"
  by (induction d) (auto split: if_splits simp: le_Suc_eq)

lemma top_bit_poly:
  assumes "top_bit poly 63 = n" and "0 < n"
  shows "n < 64 \<and> bit poly n \<and> below_bit (Suc n) poly"
proof -
  have "\<not> bit poly i" if "Suc n \<le> i" for i
    using top_bit_spec [OF assms] that bit_imp_le_length [of poly i] by (cases "i \<le> 63") auto
  then show ?thesis using top_bit_spec [OF assms] by (auto simp: below_bit_def)
qed

lemma shift_reduce_below:
  assumes "bit poly n" and "below_bit (Suc n) poly" and "below_bit n x"
  shows "below_bit n (shift_reduce poly n x)"
proof -
  have up: "\<not> bit (push_bit 1 x) i" if "n < i" for i
    unfolding bit_push_bit_iff using assms(3) that by (auto simp: below_bit_def)
  show ?thesis
    unfolding below_bit_def
  proof (intro allI impI)
    fix i assume "n \<le> i"
    then consider "i = n" | "n < i" by linarith
    then show "\<not> bit (shift_reduce poly n x) i"
      unfolding shift_reduce_def Let_def
      using up assms(1,2) by cases (simp_all only: bit_xor_iff below_bit_def Suc_le_eq split: if_splits, auto)
  qed
qed

lemma reduce_step:
  assumes "bit poly n" and "below_bit (Suc n) poly" and "n \<le> i" and "i < 64" and "below_bit (Suc i) r"
  shows "below_bit i (if bit r i then r XOR push_bit (i - n) poly else r)"
proof -
  have "bit (push_bit (i - n) poly) i" using assms(1,3,4) by (simp add: bit_simps)
  moreover have "\<not> bit (push_bit (i - n) poly) j" if "i < j" for j
    using assms(2,3) that by (auto simp: below_bit_def bit_simps)
  moreover have "\<not> bit r j" if "i < j" for j using assms(5) that by (simp add: below_bit_def)
  ultimately have "\<not> bit (if bit r i then r XOR push_bit (i - n) poly else r) j" if "j = i \<or> i < j" for j
    using that by (auto simp: bit_xor_iff)
  then show ?thesis by (auto simp: below_bit_def le_eq_less_or_eq)
qed

lemma reduce_below:
  assumes "bit poly n" and "below_bit (Suc n) poly" and "n + k \<le> 64" and "below_bit (n + k) r"
  shows "below_bit n (fold (\<lambda>i r. if bit r i then r XOR push_bit (i - n) poly else r) (rev [n..<n + k]) r)"
  using assms
proof (induction k arbitrary: r)
  case 0
  then show ?case by simp
next
  case (Suc k)
  have "below_bit (n + k) (if bit r (n + k) then r XOR push_bit (n + k - n) poly else r)"
    by (rule reduce_step [OF assms(1,2)]) (use Suc.prems in auto)
  with Suc show ?case by simp
qed

lemma createRabinTable_below:
  assumes "createRabinTable poly w = Returns tb"
  shows "polynomial tb = poly \<and> degree tb < 64 \<and> bit poly (degree tb) \<and> below_bit (Suc (degree tb)) poly
    \<and> length (outTable tb) = 256 \<and> (\<forall>x \<in> set (outTable tb). below_bit (degree tb) x)"
proof -
  define n where "n = top_bit poly 63"
  from assms have n: "0 < n" and tb: "degree tb = n" "polynomial tb = poly"
    "outTable tb = map (\<lambda>b. reduce poly n (spread ((shift_reduce poly n ^^ w) 1) b)) [0..<256]"
    by (auto simp: createRabinTable_def Let_def n_def split: if_splits)
  note poly = top_bit_poly [OF n_def [symmetric] n]
  have "below_bit 64 x" for x using bit_imp_le_length [of x] by (fastforce simp: below_bit_def)
  then have "below_bit n (reduce poly n x)" for x
    using reduce_below [of poly n "64 - n" x] poly by (simp add: reduce_def)
  with tb poly show ?thesis by auto
qed

text \<open>What a chunker's table promises, and that feeding bytes keeps the window full-sized and the
  fingerprint below the degree.\<close>

definition table_ok :: "chunker \<Rightarrow> bool" where
  "table_ok c \<longleftrightarrow> 8 \<le> degree (ck_table c) \<and> degree (ck_table c) < 64
     \<and> bit (ck_polynomial c) (degree (ck_table c)) \<and> below_bit (Suc (degree (ck_table c))) (ck_polynomial c)
     \<and> length (outTable (ck_table c)) = 256 \<and> (\<forall>x \<in> set (outTable (ck_table c)). below_bit (degree (ck_table c)) x)"

lemma pushByte_shift: "pushByte c fp b = shift_reduce (ck_polynomial c) (degree (ck_table c)) fp XOR ucast b"
  unfolding pushByte_def shift_reduce_def Let_def by (rule refl)

lemma slide_push: "slideFingerprint c fp old b = pushByte c (fp XOR outTable (ck_table c) ! unat old) b"
  unfolding slideFingerprint_def pushByte_def Let_def by (rule refl)

lemma pushByte_below: "table_ok c \<Longrightarrow> below_bit (degree (ck_table c)) fp \<Longrightarrow> below_bit (degree (ck_table c)) (pushByte c fp b)"
  by (simp add: pushByte_shift below_bit_xor shift_reduce_below below_bit_byte table_ok_def)

lemma unat_byte: "unat (b :: byte) < 256"
  using unsigned_less [of b, where 'a = nat] by simp

lemma roll_below:
  assumes "table_ok c" and "below_bit (degree (ck_table c)) (fingerprint r)"
  shows "below_bit (degree (ck_table c)) (fingerprint (roll c b r))"
proof -
  have "outTable (ck_table c) ! unat x \<in> set (outTable (ck_table c))" for x :: byte
    using assms(1) unat_byte by (simp add: table_ok_def)
  with assms show ?thesis
    by (auto simp: roll_def slide_push table_ok_def intro!: pushByte_below below_bit_xor)
qed

lemma rolls_below:
  assumes "table_ok c"
  shows "below_bit (degree (ck_table c)) (fingerprint (fold (roll c) bs (new_roller c)))"
  by (rule fold_invariant [where Q = "\<lambda>_. True"])
    (use assms roll_below in \<open>auto simp: new_roller_def below_bit_def\<close>)

section \<open>The chunkers the program makes\<close>

lemma top_bit_program: "top_bit 0x3DA3358B4DC173 63 = 53"
  by code_simp

lemma NewChunker_spec:
  "\<exists>c tb. NewChunker [] mn avg mx = Returns (c, [(0x3DA3358B4DC173, tb)]) \<and> ck_table c = tb
    \<and> createRabinTable 0x3DA3358B4DC173 48 = Returns tb
    \<and> minSize c = mn \<and> maxSize c = mx \<and> windowSize c = 48 \<and> ck_polynomial c = 0x3DA3358B4DC173 \<and> degree tb = 53"
proof -
  obtain tb where tb: "createRabinTable 0x3DA3358B4DC173 48 = Returns tb" "degree tb = 53"
    by (simp add: createRabinTable_def top_bit_program Let_def)
  then show ?thesis by (simp add: NewChunker_def getRabinTable_def Let_def)
qed

lemma NewChunker_table_ok:
  assumes "NewChunker [] mn avg mx = Returns (c, tables)"
  shows "table_ok c \<and> degree (ck_table c) = 53"
proof -
  from NewChunker_spec [of mn avg mx] assms obtain tb where
    tb: "createRabinTable 0x3DA3358B4DC173 48 = Returns tb" "ck_table c = tb" "degree tb = 53"
      "ck_polynomial c = 0x3DA3358B4DC173" by auto
  with createRabinTable_below [OF tb(1)] show ?thesis by (auto simp: table_ok_def)
qed

lemma shift_reduce_small: "0 < d \<Longrightarrow> \<not> bit x (d - 1) \<Longrightarrow> shift_reduce poly d x = push_bit 1 x"
  unfolding shift_reduce_def Let_def bit_push_bit_iff by auto

lemma bit_push_one: "bit (push_bit k (1 :: u64)) i \<longleftrightarrow> i = k \<and> i < 64"
  unfolding bit_push_bit_iff by (auto simp: bit_1_iff)

lemma shift_power: "k < d \<Longrightarrow> (shift_reduce poly d ^^ k) 1 = push_bit k 1"
proof (induction k)
  case 0
  then show ?case by simp
next
  case (Suc k)
  then have "shift_reduce poly d (push_bit k 1) = push_bit 1 (push_bit k 1)"
    by (intro shift_reduce_small) (simp_all only: bit_push_one, auto)
  with Suc show ?case by (simp only: funpow.simps comp_def push_bit_push_bit) simp
qed

lemma reduce_id: "below_bit n r \<Longrightarrow> reduce poly n r = r"
  unfolding reduce_def
  by (rule fold_invariant [where Q = "\<lambda>i. n \<le> i"]) (auto simp: below_bit_def)

lemma spread_simps: "spread p 0 = 0" "spread p (Suc 0) = p"
  by (simp_all add: spread_def upt_rec bit_Suc_0_iff bit_0)

lemma slide_one: "shift_reduce poly 53 (push_bit 47 1 XOR push_bit 48 1) \<noteq> 0"
proof -
  have "shift_reduce poly 53 (push_bit 47 1 XOR push_bit 48 1) = push_bit 1 (push_bit 47 1 XOR push_bit 48 1)"
    by (rule shift_reduce_small) (simp_all only: bit_xor_iff bit_push_one, simp_all)
  moreover have "bit (push_bit 1 (push_bit 47 1 XOR push_bit 48 1 :: u64)) 48"
    by (simp only: bit_push_bit_iff bit_xor_iff bit_push_one) simp
  ultimately show ?thesis by (metis bit_0_eq bot_apply bot_bool_def)
qed

lemma out_entries:
  assumes "createRabinTable 0x3DA3358B4DC173 48 = Returns tb"
  shows "outTable tb ! 1 = push_bit 48 1 \<and> outTable tb ! 0 = 0"
proof -
  have "below_bit 53 (push_bit 48 1)" "below_bit 53 0" by (auto simp: below_bit_def bit_push_one simp del: push_bit_of_1)
  with assms show ?thesis
    by (auto simp: createRabinTable_def Let_def top_bit_program spread_simps shift_power reduce_id
        simp del: push_bit_of_1)
qed

lemma funpow_fixpoint: "f x = x \<Longrightarrow> (f ^^ n) x = x"
  by (induction n) auto

lemma rolls_fill:
  "length bs \<le> windowSize c \<Longrightarrow> fold (roll c) bs (new_roller c) =
   \<lparr>window = bs @ replicate (windowSize c - length bs) 0, fingerprint = fold (\<lambda>b fp. pushByte c fp b) bs 0,
    windowPos = length bs, windowFilled = bs \<noteq> [] \<and> length bs = windowSize c\<rparr>"
proof (induction bs rule: rev_induct)
  case Nil
  then show ?case by (simp add: new_roller_def)
next
  case (snoc b bs)
  then have "replicate (windowSize c - length bs) 0 = (0::byte) # replicate (windowSize c - Suc (length bs)) 0"
    by (metis Suc_diff_Suc length_append_singleton less_eq_Suc_le replicate_Suc)
  with snoc show ?case by (auto simp: roll_def list_update_append)
qed

section \<open>Properties\<close>

text \<open>C13: Chunking loses nothing.  For a reader that ends in EOF, with 1 <= min <= max, the
  data chunks concatenate to exactly the bytes read, no chunk is empty or longer than max, and
  every chunk but the last is at least min long; the i-th chunk info holds the hash, the
  offset and the size of the i-th data chunk; and Chunk returns the same infos.\<close>

theorem chunking_partitions_the_input:
  assumes "1 \<le> minSize c" and "minSize c \<le> maxSize c"
    and "drain rs = (bs, Some EOF)" and "int (length bs) < 2 ^ 63"
  shows "\<exists>chunks ps. ChunkWithData sha c rs = Returns (Inr (chunks, ps))
    \<and> Chunk sha c rs = Returns (Inr chunks)
    \<and> concat ps = bs
    \<and> (\<forall>p \<in> set ps. p \<noteq> [] \<and> int (length p) \<le> maxSize c)
    \<and> (\<forall>p \<in> set (butlast ps). minSize c \<le> int (length p))
    \<and> length chunks = length ps
    \<and> (\<forall>i < length ps. chunks ! i = \<lparr>ci_hash = sha (ps ! i),
         ci_offset = int (length (concat (take i ps))), ci_size = int (length (ps ! i))\<rparr>)"
proof -
  let ?ps = "cut_pieces c bs"
  obtain ps r buf where cut: "cut c (new_roller c) [] bs = (ps, r, buf)"
    by (cases "cut c (new_roller c) [] bs")
  have sizes: "(\<forall>p \<in> set ps. minSize c \<le> int (length p) \<and> int (length p) \<le> maxSize c)
      \<and> int (length buf) < maxSize c"
    using cut_sizes [OF cut assms(1,2)] assms(1,2) by simp
  have pieces: "?ps = (if buf = [] then ps else ps @ [buf])" by (simp add: cut_pieces_def cut)
  note one = cut_pieces_nonempty [OF assms(1,2), of bs]
  have two: "\<forall>p \<in> set (butlast ?ps). minSize c \<le> int (length p)"
    using sizes assms(1,2) by (auto simp: pieces dest: in_set_butlastD)
  have len: "length (infos sha a qs) = length qs" for a qs by (induction qs arbitrary: a) auto
  have three: "\<forall>i < length ?ps. infos sha 0 ?ps ! i = \<lparr>ci_hash = sha (?ps ! i),
         ci_offset = int (length (concat (take i ?ps))), ci_size = int (length (?ps ! i))\<rparr>"
    using infos_nth [of _ ?ps sha] assms(4) by (simp add: concat_cut_pieces)
  have "ChunkWithData sha c rs = Returns (Inr (infos sha 0 ?ps, ?ps))"
    and "Chunk sha c rs = Returns (Inr (infos sha 0 ?ps))"
    using ChunkWithData_spec [of c sha rs] Chunk_spec [of c sha rs] assms(1-3) by (simp_all add: Let_def)
  with one two three len show ?thesis by (intro exI [of _ "infos sha 0 ?ps"] exI [of _ ?ps])
    (simp add: concat_cut_pieces)
qed

theorem chunking_partitions_the_input_witness:
  "\<exists>chunks ps. ChunkWithData (\<lambda>_. ''h'') \<lparr>minSize = 1, avgSize = 1, maxSize = 2, windowSize = 48, mask = 255,
      ck_polynomial = 3, ck_table = \<lparr>polynomial = 3, degree = 1, outTable = replicate 256 0, modTable = []\<rparr>\<rparr>
      [([5, 6], None), ([7], Some EOF)] = Returns (Inr (chunks, ps)) \<and> concat ps = [5, 6, 7]"
  using chunking_partitions_the_input [of "\<lparr>minSize = 1, avgSize = 1, maxSize = 2, windowSize = 48, mask = 255,
      ck_polynomial = 3, ck_table = \<lparr>polynomial = 3, degree = 1, outTable = replicate 256 0, modTable = []\<rparr>\<rparr>"
      "[([5, 6], None), ([7], Some EOF)]" "[5, 6, 7]" "\<lambda>_. ''h''"] by auto

text \<open>The chunk boundaries depend on the content only: two readers that deliver the same
  bytes and the same final error give the same result in all three loops, however the bytes
  are spread over the Read calls.\<close>

theorem chunking_ignores_read_sizes:
  assumes "drain rs = drain rs'"
  shows "Chunk sha c rs = Chunk sha c rs' \<and> ChunkWithData sha c rs = ChunkWithData sha c rs'
    \<and> ChunkStream sha c rs onChunk s = ChunkStream sha c rs' onChunk s"
proof (cases "0 \<le> maxSize c")
  case True
  with assms show ?thesis by (simp only: Chunk_spec ChunkWithData_spec ChunkStream_spec)
next
  case False
  then show ?thesis by (simp add: Chunk_def ChunkWithData_def ChunkStream_def)
qed

theorem chunking_ignores_read_sizes_witness:
  "drain [([5, 6], None), ([7], Some EOF)] = drain [([5], None), ([], None), ([6, 7], Some EOF)]
   \<and> Chunk (\<lambda>_. ''h'') \<lparr>minSize = 1, avgSize = 1, maxSize = 2, windowSize = 48, mask = 255,
      ck_polynomial = 3, ck_table = \<lparr>polynomial = 3, degree = 1, outTable = replicate 256 0, modTable = []\<rparr>\<rparr>
      [([5, 6], None), ([7], Some EOF)]
   = Chunk (\<lambda>_. ''h'') \<lparr>minSize = 1, avgSize = 1, maxSize = 2, windowSize = 48, mask = 255,
      ck_polynomial = 3, ck_table = \<lparr>polynomial = 3, degree = 1, outTable = replicate 256 0, modTable = []\<rparr>\<rparr>
      [([5], None), ([], None), ([6, 7], Some EOF)]"
  by (intro conjI chunking_ignores_read_sizes [THEN conjunct1]) simp_all

text \<open>The streaming variant makes one call per chunk, in order, with the size, hash and
  data that ChunkWithData returns for it, but the offset it reports is 0 for every chunk, since
  the buffer is emptied before its length is added to the offset.\<close>

theorem stream_reports_offset_zero:
  assumes "0 \<le> maxSize c" and "ChunkWithData sha c rs = Returns (Inr (chunks, ps))"
  shows "ChunkStream sha c rs (\<lambda>off n h d calls. (calls @ [(off, n, h, d)], None)) []
    = Returns (map (\<lambda>p. (0, int (length p), sha p, p)) ps, None)"
proof -
  let ?rec = "\<lambda>off n h d calls. (calls @ [(off, n, h, d)], None)"
  obtain bs where bs: "drain rs = (bs, Some EOF)" and ps: "ps = cut_pieces c bs"
    using assms(2) ChunkWithData_spec [OF assms(1), of sha rs]
    by (cases "drain rs"; cases "snd (drain rs)"; cases "the (snd (drain rs))") (auto simp: Let_def)
  have rep: "report sha ?rec qs calls = (calls @ map (\<lambda>p. (0, int (length p), sha p, p)) qs, None)" for qs calls
    by (induction qs arbitrary: calls) auto
  obtain qs r buf where "cut c (new_roller c) [] bs = (qs, r, buf)" by (cases "cut c (new_roller c) [] bs")
  with bs ps show ?thesis by (simp add: ChunkStream_spec [OF assms(1)] rep cut_pieces_def)
qed

theorem stream_reports_offset_zero_witness:
  "ChunkStream (\<lambda>_. ''h'') \<lparr>minSize = 1, avgSize = 1, maxSize = 1, windowSize = 48, mask = 255,
      ck_polynomial = 3, ck_table = \<lparr>polynomial = 3, degree = 1, outTable = replicate 256 0, modTable = []\<rparr>\<rparr>
      [([5, 6], Some EOF)] (\<lambda>off n h d calls. (calls @ [(off, n, h, d)], None)) []
    = Returns ([(0, 1, ''h'', [5]), (0, 1, ''h'', [6])], None)"
  using stream_reports_offset_zero [of "\<lparr>minSize = 1, avgSize = 1, maxSize = 1, windowSize = 48, mask = 255,
      ck_polynomial = 3, ck_table = \<lparr>polynomial = 3, degree = 1, outTable = replicate 256 0, modTable = []\<rparr>\<rparr>"
      "\<lambda>_. ''h''" "[([5, 6], Some EOF)]" _ "[[5], [6]]"]
  by (simp add: ChunkWithData_def Let_def data_byte_def at_boundary_def data_finish_def)

text \<open>For every chunker the program makes, the fingerprint stays a residue modulo the
  polynomial of degree 53, whatever is fed to it.\<close>

theorem fingerprint_bounded:
  assumes "NewChunker [] mn avg mx = Returns (c, tables)"
  shows "uint (fingerprint (fold (roll c) bs (new_roller c))) < 2 ^ 53"
  using rolls_below [of c bs] below_bit_less NewChunker_table_ok [OF assms] by metis

theorem fingerprint_bounded_witness:
  "\<exists>c tables. NewChunker [] 1 1 2 = Returns (c, tables)
    \<and> uint (fingerprint (fold (roll c) [1, 2, 3] (new_roller c))) < 2 ^ 53"
  using NewChunker_spec [of 1 1 2] fingerprint_bounded [of 1 1 2 _ _ "[1, 2, 3]"] by metis

text \<open>The fingerprint is not a function of the 48 byte window: with a leading 1 and with a
  leading 0 before 48 zero bytes the window holds the same bytes but the fingerprint differs.
  The table entry of the outgoing byte has weight x^48, while the oldest byte weighs x^47.\<close>

theorem fingerprint_not_local:
  assumes "NewChunker [] mn avg mx = Returns (c, tables)"
  shows "window (fold (roll c) (1 # replicate 48 0) (new_roller c)) = replicate 48 0
    \<and> window (fold (roll c) (0 # replicate 48 0) (new_roller c)) = replicate 48 0
    \<and> fingerprint (fold (roll c) (1 # replicate 48 0) (new_roller c))
      \<noteq> fingerprint (fold (roll c) (0 # replicate 48 0) (new_roller c))"
proof -
  from NewChunker_spec [of mn avg mx] assms obtain tb where
    c: "createRabinTable 0x3DA3358B4DC173 48 = Returns tb" "ck_table c = tb" "degree tb = 53"
      "ck_polynomial c = 0x3DA3358B4DC173" "windowSize c = 48" by auto
  have full: "fold (roll c) (b # replicate 48 0) (new_roller c) =
    \<lparr>window = replicate 48 0, fingerprint = slideFingerprint c (fold (\<lambda>b fp. pushByte c fp b) (b # replicate 47 0) 0) b 0,
     windowPos = 48, windowFilled = True\<rparr>" for b
  proof -
    have "b # replicate 48 0 = (b # replicate 47 0) @ [0 :: byte]" by (simp add: replicate_append_same [symmetric] del: replicate.simps) (simp add: numeral_eq_Suc)
    moreover have "fold (roll c) (b # replicate 47 0) (new_roller c) =
      \<lparr>window = b # replicate 47 0, fingerprint = fold (\<lambda>b fp. pushByte c fp b) (b # replicate 47 0) 0,
       windowPos = 48, windowFilled = True\<rparr>"
      using rolls_fill [of "b # replicate 47 0" c] c(5) by simp
    ultimately show ?thesis using c(5) by (simp add: roll_def list_update_append)
  qed
  note out = out_entries [OF c(1)]
  have zero: "shift_reduce 0x3DA3358B4DC173 53 0 = 0" by (simp add: shift_reduce_def)
  have pushes: "fold (\<lambda>b fp. pushByte c fp b) (b # replicate 47 0) 0 = (shift_reduce 0x3DA3358B4DC173 53 ^^ 47) (ucast b)" for b
    using c zero by (simp add: pushByte_shift fold_replicate)
  have fp: "fingerprint (fold (roll c) (b # replicate 48 0) (new_roller c)) =
      shift_reduce 0x3DA3358B4DC173 53 ((shift_reduce 0x3DA3358B4DC173 53 ^^ 47) (ucast b) XOR outTable tb ! unat b)" for b
    by (simp only: full slide_push pushes c roller.simps) (simp add: pushByte_shift c)
  have "fingerprint (fold (roll c) (0 # replicate 48 0) (new_roller c)) = 0"
    unfolding fp using out funpow_fixpoint [of "shift_reduce 0x3DA3358B4DC173 53" 0 47, OF zero] zero by simp
  moreover have "fingerprint (fold (roll c) (1 # replicate 48 0) (new_roller c)) \<noteq> 0"
    unfolding fp using out slide_one shift_power [of 47 53] by (simp del: push_bit_of_1)
  ultimately show ?thesis using full [of 0] full [of 1] by (simp only: roller.simps) simp
qed

theorem fingerprint_not_local_witness:
  "\<exists>c tables. NewChunker [] 1 1 2 = Returns (c, tables)
    \<and> fingerprint (fold (roll c) (1 # replicate 48 0) (new_roller c))
      \<noteq> fingerprint (fold (roll c) (0 # replicate 48 0) (new_roller c))"
  using NewChunker_spec [of 1 1 2] fingerprint_not_local [of 1 1 2] by metis

text \<open>A manifest made from the chunks of a file that is not empty is valid, its size is the
  length of the file, and its hash list is the hashes of the data chunks in order, so that the
  chunks fetched in that order rebuild the file.\<close>

theorem manifest_of_chunks_valid:
  assumes "\<And>x. sha x \<noteq> []" and "i \<noteq> []" and "fileID \<noteq> []" and "bs \<noteq> []"
    and "1 \<le> minSize c" and "minSize c \<le> maxSize c"
    and "drain rs = (bs, Some EOF)" and "int (length bs) < 2 ^ 63"
  shows "\<exists>chunks ps. ChunkWithData sha c rs = Returns (Inr (chunks, ps))
    \<and> Validate (NewManifest now i fileID deviceID chunks) = None
    \<and> md_size (NewManifest now i fileID deviceID chunks) = int (length bs)
    \<and> GetChunkHashes (NewManifest now i fileID deviceID chunks) = map sha ps \<and> concat ps = bs"
proof -
  let ?ps = "cut_pieces c bs"
  have run: "ChunkWithData sha c rs = Returns (Inr (infos sha 0 ?ps, ?ps))"
    using ChunkWithData_spec [of c sha rs] assms by (simp add: Let_def)
  have "?ps \<noteq> []" using assms(4) concat_cut_pieces [of c bs] by auto
  moreover have "infos sha a qs \<noteq> []" if "qs \<noteq> []" for a qs using that by (cases qs) auto
  moreover have "map ci_hash (infos sha a qs) = map sha qs" for a qs by (induction qs arbitrary: a) auto
  moreover have "md_size (NewManifest now i fileID deviceID (infos sha 0 ?ps)) = int (length bs)"
    using manifest_size [of sha 0 ?ps 0] assms(8)
    by (simp add: NewManifest_def concat_cut_pieces wrap64_id)
  moreover have "validate_chunks k (infos sha a qs) = None" if "\<forall>p \<in> set qs. p \<noteq> []" for k a qs
    using that assms(1) by (induction qs arbitrary: k a) auto
  moreover have "\<forall>p \<in> set ?ps. p \<noteq> []" using cut_pieces_nonempty [OF assms(5,6)] by blast
  ultimately show ?thesis
    using run assms(2,3) by (intro exI [of _ "infos sha 0 ?ps"] exI [of _ ?ps])
      (simp add: Validate_def GetChunkHashes_def concat_cut_pieces, simp add: NewManifest_def)
qed

theorem manifest_of_chunks_valid_witness:
  "\<exists>chunks ps. ChunkWithData (\<lambda>_. ''h'') \<lparr>minSize = 1, avgSize = 1, maxSize = 2, windowSize = 48, mask = 255,
      ck_polynomial = 3, ck_table = \<lparr>polynomial = 3, degree = 1, outTable = replicate 256 0, modTable = []\<rparr>\<rparr>
      [([5, 6], None), ([7], Some EOF)] = Returns (Inr (chunks, ps))
    \<and> Validate (NewManifest 0 ''m'' ''f'' ''d'' chunks) = None
    \<and> md_size (NewManifest 0 ''m'' ''f'' ''d'' chunks) = 3"
  using manifest_of_chunks_valid [of "\<lambda>_. ''h''" "''m''" "''f''" "[5, 6, 7]"
      "\<lparr>minSize = 1, avgSize = 1, maxSize = 2, windowSize = 48, mask = 255,
      ck_polynomial = 3, ck_table = \<lparr>polynomial = 3, degree = 1, outTable = replicate 256 0, modTable = []\<rparr>\<rparr>"
      "[([5, 6], None), ([7], Some EOF)]" 0 "''d''"] by auto

end
