(* ===== verification/Circuit.thy ===== *)
theory Circuit
  imports Prelude
begin

text \<open>
  The circuit breaker (\<^verbatim>\<open>src/internal/circuit/breaker.go\<close>).  Each method that holds the
  mutex is one atomic operation on the \<open>breaker\<close> record; \<^verbatim>\<open>Execute\<close> is their composition
  for one caller, and a step relation interleaves the operations of many callers.

  Times are nanoseconds.  What happens in one attempt of \<^verbatim>\<open>executeWithRetries\<close> (which branch
  of each \<^verbatim>\<open>select\<close> is taken, and what the protected function returns) is a parameter.
\<close>

section \<open>State and atomic operations\<close>

datatype cb_state = StateClosed | StateOpen | StateHalfOpen

fun cb_state_String :: "cb_state \<Rightarrow> string" where
  "cb_state_String StateClosed = ''closed''"
| "cb_state_String StateOpen = ''open''"
| "cb_state_String StateHalfOpen = ''half-open''"

record cb_config =
  MaxFailures :: u32
  Timeout :: int
  MaxRetries :: int
  RetryDelay :: int

definition DefaultConfig :: cb_config where
  "DefaultConfig = \<lparr>MaxFailures = 5, Timeout = 30 * 10 ^ 9, MaxRetries = 3, RetryDelay = 10 ^ 9\<rparr>"

record breaker =
  cb_name :: string
  config :: cb_config
  state :: cb_state
  failures :: u32
  lastFailure :: int
  halfOpenCalls :: u32

definition cb_New :: "string \<Rightarrow> cb_config \<Rightarrow> breaker" where
  "cb_New nm cfg = \<lparr>cb_name = nm, config = cfg, state = StateClosed, failures = 0,
     lastFailure = 0, halfOpenCalls = 0\<rparr>"

definition currentState :: "int \<Rightarrow> breaker \<Rightarrow> cb_state \<times> breaker" where
  "currentState now cb =
     (let cb' = (if state cb = StateOpen \<and> time_sub now (lastFailure cb) > Timeout (config cb)
                 then cb\<lparr>state := StateHalfOpen, halfOpenCalls := 0\<rparr> else cb)
      in (state cb', cb'))"

definition acquireHalfOpenSlot :: "breaker \<Rightarrow> bool \<times> breaker" where
  "acquireHalfOpenSlot cb =
     (if halfOpenCalls cb < 1 then (True, cb\<lparr>halfOpenCalls := halfOpenCalls cb + 1\<rparr>) else (False, cb))"

definition releaseHalfOpenSlot :: "breaker \<Rightarrow> breaker" where
  "releaseHalfOpenSlot cb = cb\<lparr>halfOpenCalls := halfOpenCalls cb - 1\<rparr>"

definition recordSuccess :: "breaker \<Rightarrow> breaker" where
  "recordSuccess cb =
     (let cb' = cb\<lparr>failures := 0\<rparr>
      in if state cb' = StateHalfOpen then cb'\<lparr>state := StateClosed, halfOpenCalls := 0\<rparr> else cb')"

definition recordFailure :: "int \<Rightarrow> breaker \<Rightarrow> breaker" where
  "recordFailure now cb =
     (let cb' = cb\<lparr>failures := failures cb + 1, lastFailure := now\<rparr>
      in if state cb' = StateHalfOpen then cb'\<lparr>state := StateOpen, halfOpenCalls := 0\<rparr>
         else if failures cb' \<ge> MaxFailures (config cb') then cb'\<lparr>state := StateOpen\<rparr>
         else cb')"

section \<open>Retries\<close>

text \<open>The outcome of the select that waits for one attempt, and the errors of a call.\<close>

datatype attempt = FnReturned "string option" | CtxDone string | AttemptTimeout

datatype fn_error = FnError string | ErrTimeout

datatype cb_error = ErrOpenCircuit | CtxErr string | AfterRetries int "fn_error option"

text \<open>
  \<open>delay n\<close> is the context error when the context ends during the delay before attempt
  \<open>n\<close>; \<open>att n\<close> is the outcome of attempt \<open>n\<close>.  The result also counts the calls of
  the function.  \<^verbatim>\<open>fmt.Errorf\<close> with a nil \<^verbatim>\<open>lastErr\<close> still returns an error.
\<close>

function retry_loop :: "int \<Rightarrow> (int \<Rightarrow> string option) \<Rightarrow> (int \<Rightarrow> attempt) \<Rightarrow> int \<Rightarrow> nat \<Rightarrow> fn_error option
    \<Rightarrow> cb_error option \<times> nat" where
  "retry_loop mx delay att attempt calls lastErr =
     (if attempt \<le> mx
      then (case (if attempt > 0 then delay attempt else None) of
              Some e \<Rightarrow> (Some (CtxErr e), calls)
            | None \<Rightarrow>
                (case att attempt of
                   FnReturned None \<Rightarrow> (None, calls + 1)
                 | FnReturned (Some e) \<Rightarrow> retry_loop mx delay att (attempt + 1) (calls + 1) (Some (FnError e))
                 | CtxDone e \<Rightarrow> (Some (CtxErr e), calls + 1)
                 | AttemptTimeout \<Rightarrow> retry_loop mx delay att (attempt + 1) (calls + 1) (Some ErrTimeout)))
      else (Some (AfterRetries mx lastErr), calls))"
  by pat_completeness auto
termination
  by (relation "measure (\<lambda>(mx, delay, att, attempt, calls, lastErr). nat (mx + 1 - attempt))") auto

declare retry_loop.simps [simp del]

definition executeWithRetries :: "cb_config \<Rightarrow> (int \<Rightarrow> string option) \<Rightarrow> (int \<Rightarrow> attempt) \<Rightarrow> cb_error option \<times> nat" where
  "executeWithRetries cfg delay att = retry_loop (MaxRetries cfg) delay att 0 0 None"

section \<open>Execute\<close>

text \<open>One caller alone: \<open>t1\<close> is the clock in \<^verbatim>\<open>currentState\<close>, \<open>t2\<close> in \<^verbatim>\<open>recordFailure\<close>.\<close>

definition finish_call :: "int \<Rightarrow> cb_error option \<Rightarrow> breaker \<Rightarrow> breaker" where
  "finish_call t2 err cb = (if err \<noteq> None then recordFailure t2 cb else recordSuccess cb)"

definition Execute :: "int \<Rightarrow> int \<Rightarrow> (int \<Rightarrow> string option) \<Rightarrow> (int \<Rightarrow> attempt) \<Rightarrow> breaker
    \<Rightarrow> (cb_error option \<times> nat) \<times> breaker" where
  "Execute t1 t2 delay att cb =
     (case currentState t1 cb of
        (StateOpen, cb1) \<Rightarrow> ((Some ErrOpenCircuit, 0), cb1)
      | (StateHalfOpen, cb1) \<Rightarrow>
          (case acquireHalfOpenSlot cb1 of
             (False, cb2) \<Rightarrow> ((Some ErrOpenCircuit, 0), cb2)
           | (True, cb2) \<Rightarrow>
               let (err, n) = executeWithRetries (config cb2) delay att
               in ((err, n), releaseHalfOpenSlot (finish_call t2 err cb2)))
      | (StateClosed, cb1) \<Rightarrow>
          let (err, n) = executeWithRetries (config cb1) delay att
          in ((err, n), finish_call t2 err cb1))"

text \<open>
  \<^verbatim>\<open>ExecuteWithResult\<close>: the closure stores the value of every attempt that returned, so the
  result is that of the last attempt that returned, and the zero value \<open>z\<close> when none did.
  (A function still running after its attempt timed out may store its value later; that write
  races with the return and is not part of the model.)
\<close>

definition last_value :: "'t \<Rightarrow> (int \<Rightarrow> 't) \<Rightarrow> (int \<Rightarrow> attempt) \<Rightarrow> nat \<Rightarrow> 't" where
  "last_value z val att n =
     fold (\<lambda>i r. case att i of FnReturned _ \<Rightarrow> val i | _ \<Rightarrow> r) (map int [0..<n]) z"

definition ExecuteWithResult :: "int \<Rightarrow> int \<Rightarrow> (int \<Rightarrow> string option) \<Rightarrow> (int \<Rightarrow> attempt) \<Rightarrow> 't \<Rightarrow> (int \<Rightarrow> 't)
    \<Rightarrow> breaker \<Rightarrow> ('t \<times> cb_error option) \<times> breaker" where
  "ExecuteWithResult t1 t2 delay att z val cb =
     (case currentState t1 cb of
        (StateOpen, cb1) \<Rightarrow> ((z, Some ErrOpenCircuit), cb1)
      | (StateHalfOpen, cb1) \<Rightarrow>
          (case acquireHalfOpenSlot cb1 of
             (False, cb2) \<Rightarrow> ((z, Some ErrOpenCircuit), cb2)
           | (True, cb2) \<Rightarrow>
               let (err, n) = executeWithRetries (config cb2) delay att
               in ((last_value z val att n, err), releaseHalfOpenSlot (finish_call t2 err cb2)))
      | (StateClosed, cb1) \<Rightarrow>
          let (err, n) = executeWithRetries (config cb1) delay att
          in ((last_value z val att n, err), finish_call t2 err cb1))"

record cb_stats =
  st_name :: string
  st_state :: string
  st_failures :: u32
  st_last_failure :: int
  st_half_open_calls :: u32

definition Stats :: "breaker \<Rightarrow> cb_stats" where
  "Stats cb = \<lparr>st_name = cb_name cb, st_state = cb_state_String (state cb), st_failures = failures cb,
     st_last_failure = lastFailure cb, st_half_open_calls = halfOpenCalls cb\<rparr>"

section \<open>The registry\<close>

type_synonym registry = "(string \<times> breaker) list"

definition GetOrCreate :: "registry \<Rightarrow> string \<Rightarrow> cb_config \<Rightarrow> breaker \<times> registry" where
  "GetOrCreate r nm cfg =
     (case al_get r nm of
        Some cb \<Rightarrow> (cb, r)
      | None \<Rightarrow> (let cb = cb_New nm cfg in (cb, al_put r nm cb)))"

definition registry_Get :: "registry \<Rightarrow> string \<Rightarrow> breaker option" where
  "registry_Get r nm = al_get r nm"

definition AllStats :: "registry \<Rightarrow> cb_stats list" where
  "AllStats r = map (\<lambda>(_, cb). Stats cb) r"

section \<open>Many callers\<close>

text \<open>Where a caller is between its atomic operations, and the interleaving of those.\<close>

datatype phase = Idle | Acquiring | Running bool | Releasing | Finished

type_synonym system = "breaker \<times> (nat \<Rightarrow> phase)"

datatype event = Enter nat int | Acquire nat | Fail nat int | Succeed nat | Release nat

fun after_run :: "bool \<Rightarrow> phase" where
  "after_run True = Releasing"
| "after_run False = Finished"

fun do_event :: "event \<Rightarrow> system \<Rightarrow> system option" where
  "do_event (Enter i now) (cb, ph) =
     (if ph i \<noteq> Idle then None
      else case currentState now cb of
        (StateOpen, cb') \<Rightarrow> Some (cb', ph(i := Finished))
      | (StateHalfOpen, cb') \<Rightarrow> Some (cb', ph(i := Acquiring))
      | (StateClosed, cb') \<Rightarrow> Some (cb', ph(i := Running False)))"
| "do_event (Acquire i) (cb, ph) =
     (if ph i \<noteq> Acquiring then None
      else case acquireHalfOpenSlot cb of
        (True, cb') \<Rightarrow> Some (cb', ph(i := Running True))
      | (False, cb') \<Rightarrow> Some (cb', ph(i := Finished)))"
| "do_event (Fail i now) (cb, ph) =
     (case ph i of
        Running probe \<Rightarrow> Some (recordFailure now cb, ph(i := after_run probe))
      | _ \<Rightarrow> None)"
| "do_event (Succeed i) (cb, ph) =
     (case ph i of
        Running probe \<Rightarrow> Some (recordSuccess cb, ph(i := after_run probe))
      | _ \<Rightarrow> None)"
| "do_event (Release i) (cb, ph) =
     (if ph i \<noteq> Releasing then None else Some (releaseHalfOpenSlot cb, ph(i := Finished)))"

fun do_events :: "event list \<Rightarrow> system \<Rightarrow> system option" where
  "do_events [] s = Some s"
| "do_events (e # es) s = (case do_event e s of None \<Rightarrow> None | Some s' \<Rightarrow> do_events es s')"

inductive cb_step :: "system \<Rightarrow> system \<Rightarrow> bool" where
  cb_step: "do_event e s = Some s' \<Longrightarrow> cb_step s s'"

inductive_cases cb_stepE: "cb_step s s'"

inductive cb_reachable :: "string \<Rightarrow> cb_config \<Rightarrow> system \<Rightarrow> bool" for nm cfg where
  cb_start: "cb_reachable nm cfg (cb_New nm cfg, \<lambda>_. Idle)"
| cb_next: "cb_reachable nm cfg s \<Longrightarrow> cb_step s s' \<Longrightarrow> cb_reachable nm cfg s'"

section \<open>Lemmas: the atomic operations\<close>

named_theorems cb_ops \<open>the atomic operations of the breaker\<close>

lemmas cb_ops_defs [cb_ops] = currentState_def acquireHalfOpenSlot_def releaseHalfOpenSlot_def
  recordSuccess_def recordFailure_def Let_def

definition cb_inv :: "cb_config \<Rightarrow> breaker \<Rightarrow> bool" where
  "cb_inv cfg cb \<longleftrightarrow> config cb = cfg \<and> (state cb = StateClosed \<longrightarrow> failures cb = 0 \<or> failures cb < MaxFailures cfg)"

lemma cb_inv_New: "cb_inv cfg (cb_New nm cfg)"
  by (simp add: cb_inv_def cb_New_def)

lemma cb_inv_currentState: "cb_inv cfg cb \<Longrightarrow> cb_inv cfg (snd (currentState now cb))"
  by (auto simp: cb_inv_def cb_ops)

lemma cb_inv_acquire: "cb_inv cfg cb \<Longrightarrow> cb_inv cfg (snd (acquireHalfOpenSlot cb))"
  by (auto simp: cb_inv_def cb_ops)

lemma cb_inv_release: "cb_inv cfg cb \<Longrightarrow> cb_inv cfg (releaseHalfOpenSlot cb)"
  by (auto simp: cb_inv_def cb_ops)

lemma cb_inv_success: "cb_inv cfg cb \<Longrightarrow> cb_inv cfg (recordSuccess cb)"
  by (auto simp: cb_inv_def cb_ops)

lemma cb_inv_failure: "cb_inv cfg cb \<Longrightarrow> cb_inv cfg (recordFailure now cb)"
  by (auto simp: cb_inv_def cb_ops not_le)

lemmas cb_inv_intros = cb_inv_New cb_inv_currentState cb_inv_acquire cb_inv_release cb_inv_success cb_inv_failure

text \<open>Every event runs exactly one of the atomic operations on the breaker.\<close>

lemma do_event_op:
  assumes "do_event e (cb, ph) = Some s'"
  obtains now where "fst s' = snd (currentState now cb)"
  | "fst s' = snd (acquireHalfOpenSlot cb)"
  | now where "fst s' = recordFailure now cb"
  | "fst s' = recordSuccess cb"
  | "fst s' = releaseHalfOpenSlot cb"
proof (cases e)
  case (Enter i now)
  with assms have "fst s' = snd (currentState now cb)"
    by (cases "currentState now cb"; cases "fst (currentState now cb)") (auto split: if_splits)
  then show ?thesis by (rule that(1))
next
  case (Acquire i)
  with assms have "fst s' = snd (acquireHalfOpenSlot cb)"
    by (cases "acquireHalfOpenSlot cb"; cases "fst (acquireHalfOpenSlot cb)") (auto split: if_splits)
  then show ?thesis by (rule that(2))
next
  case (Fail i now)
  with assms that(3) show ?thesis by (auto split: phase.splits)
next
  case (Succeed i)
  with assms that(4) show ?thesis by (auto split: phase.splits)
next
  case (Release i)
  with assms that(5) show ?thesis by (auto split: if_splits)
qed

lemma do_event_inv: "do_event e s = Some s' \<Longrightarrow> cb_inv cfg (fst s) \<Longrightarrow> cb_inv cfg (fst s')"
  by (cases s, erule do_event_op [of e "fst s" "snd s" s', simplified]) (auto simp: cb_inv_intros)

lemma cb_reachable_inv: "cb_reachable nm cfg s \<Longrightarrow> cb_inv cfg (fst s)"
  by (induction rule: cb_reachable.induct) (auto simp: cb_inv_New elim!: cb_stepE dest: do_event_inv)

section \<open>Lemmas: retries\<close>

lemma retry_loop_calls:
  assumes "retry_loop mx delay att k calls le = (err, n)" and "0 \<le> k"
  shows "calls \<le> n \<and> int n \<le> int calls + max 0 (mx + 1 - k)
    \<and> (err = None \<longrightarrow> calls < n \<and> att (k + int n - int calls - 1) = FnReturned None)"
  using assms
proof (induction mx delay att k calls le rule: retry_loop.induct)
  case (1 mx delay att k calls le)
  have next_ok: ?case if "retry_loop mx delay att (k + 1) (calls + 1) le' = (err, n)" "k \<le> mx"
    and "calls + 1 \<le> n \<and> int n \<le> int (calls + 1) + max 0 (mx + 1 - (k + 1))
     \<and> (err = None \<longrightarrow> calls + 1 < n \<and> att (k + 1 + int n - int (calls + 1) - 1) = FnReturned None)" for le'
    using that by (auto simp: algebra_simps)
  show ?case
  proof (cases "k \<le> mx \<and> (if k > 0 then delay k else None) = None")
    case False
    then show ?thesis using 1(3) by (auto simp: retry_loop.simps [of mx] split: if_splits)
  next
    case True
    show ?thesis
    proof (cases "att k")
      case (FnReturned r)
      show ?thesis
      proof (cases r)
        case None
        with True FnReturned 1(3) show ?thesis by (auto simp: retry_loop.simps [of mx])
      next
        case (Some x)
        with True FnReturned 1(3) have "retry_loop mx delay att (k + 1) (calls + 1) (Some (FnError x)) = (err, n)"
          by (simp add: retry_loop.simps [of mx _ _ k])
        with 1(1) [of r x] True FnReturned Some 1(4) show ?thesis by (intro next_ok) auto
      qed
    next
      case (CtxDone e)
      with True 1(3) show ?thesis by (auto simp: retry_loop.simps [of mx])
    next
      case AttemptTimeout
      with True 1(3) have "retry_loop mx delay att (k + 1) (calls + 1) (Some ErrTimeout) = (err, n)"
        by (simp add: retry_loop.simps [of mx _ _ k])
      with 1(2) True AttemptTimeout 1(4) show ?thesis by (intro next_ok) auto
    qed
  qed
qed

lemma retry_loop_not_open: "fst (retry_loop mx delay att k calls le) \<noteq> Some ErrOpenCircuit"
proof (induction mx delay att k calls le rule: retry_loop.induct)
  case (1 mx delay att k calls le)
  show ?case
    by (subst retry_loop.simps)
      (use 1 in \<open>auto split: attempt.splits option.splits\<close>)
qed

section \<open>Specification of one caller\<close>

text \<open>
  What the breaker promises a sequence of calls: count consecutive failures; at the limit trip
  and refuse calls; let one call through when the timeout has passed since the last failure.
\<close>

datatype cb_spec = Counting nat | Tripped int

fun spec_call :: "cb_config \<Rightarrow> int \<Rightarrow> int \<Rightarrow> bool \<Rightarrow> cb_spec \<Rightarrow> bool \<times> cb_spec" where
  "spec_call cfg t1 t2 ok (Counting n) =
     (True, if ok then Counting 0
            else if n + 1 \<ge> unat (MaxFailures cfg) then Tripped t2 else Counting (n + 1))"
| "spec_call cfg t1 t2 ok (Tripped t) =
     (if time_sub t1 t > Timeout cfg then (True, if ok then Counting 0 else Tripped t2)
      else (False, Tripped t))"

type_synonym call = "int \<times> int \<times> (int \<Rightarrow> string option) \<times> (int \<Rightarrow> attempt)"

definition call_ok :: "cb_config \<Rightarrow> call \<Rightarrow> bool" where
  "call_ok cfg = (\<lambda>(t1, t2, delay, att). fst (executeWithRetries cfg delay att) = None)"

fun spec_run :: "cb_config \<Rightarrow> call list \<Rightarrow> cb_spec \<Rightarrow> bool list \<times> cb_spec" where
  "spec_run cfg [] s = ([], s)"
| "spec_run cfg ((t1, t2, delay, att) # cs) s =
     (let (adm, s') = spec_call cfg t1 t2 (call_ok cfg (t1, t2, delay, att)) s;
          (adms, s'') = spec_run cfg cs s'
      in (adm # adms, s''))"

fun run_calls :: "call list \<Rightarrow> breaker \<Rightarrow> cb_error option list \<times> breaker" where
  "run_calls [] cb = ([], cb)"
| "run_calls ((t1, t2, delay, att) # cs) cb =
     (let ((err, n), cb') = Execute t1 t2 delay att cb;
          (errs, cb'') = run_calls cs cb'
      in (err # errs, cb''))"

definition abs_cb :: "breaker \<Rightarrow> cb_spec" where
  "abs_cb cb = (if state cb = StateClosed then Counting (unat (failures cb)) else Tripped (lastFailure cb))"

definition quiet :: "cb_config \<Rightarrow> breaker \<Rightarrow> bool" where
  "quiet cfg cb \<longleftrightarrow> cb_inv cfg cb \<and> state cb \<noteq> StateHalfOpen"

lemma unat_Suc_u32: "x < y \<Longrightarrow> unat (x + 1 :: u32) = Suc (unat x)"
proof -
  assume "x < y"
  then have "x + 1 \<noteq> 0" by (metis eq_neg_iff_add_eq_0 not_less word_order.extremum)
  then show ?thesis by (metis add.commute unatSuc)
qed

lemma Execute_refines:
  assumes "quiet cfg cb" and "Execute t1 t2 delay att cb = ((err, n), cb')"
  shows "quiet cfg cb' \<and> spec_call cfg t1 t2 (call_ok cfg (t1, t2, delay, att)) (abs_cb cb)
    = (err \<noteq> Some ErrOpenCircuit, abs_cb cb')"
proof -
  obtain e m where run: "executeWithRetries cfg delay att = (e, m)" by (cases "executeWithRetries cfg delay att")
  have e: "e \<noteq> Some ErrOpenCircuit"
    using retry_loop_not_open [of "MaxRetries cfg" delay att 0 0 None] run by (simp add: executeWithRetries_def)
  have cfg: "config cb = cfg" using assms(1) by (simp add: quiet_def cb_inv_def)
  consider (closed) "state cb = StateClosed" | (refused) "state cb = StateOpen" "\<not> time_sub t1 (lastFailure cb) > Timeout cfg"
    | (probe) "state cb = StateOpen" "time_sub t1 (lastFailure cb) > Timeout cfg"
    using assms(1) by (cases "state cb") (auto simp: quiet_def)
  then show ?thesis
  proof cases
    case closed
    then have cb': "err = e" "cb' = finish_call t2 e cb"
      using assms(2) run by (auto simp: Execute_def currentState_def Let_def cfg)
    have "failures cb + 1 \<ge> MaxFailures cfg \<longleftrightarrow> unat (failures cb) + 1 \<ge> unat (MaxFailures cfg)"
      using assms(1) closed unat_Suc_u32 [of "failures cb" "MaxFailures cfg"] unat_Suc_u32 [of 0 1]
      by (auto simp: quiet_def cb_inv_def word_le_nat_alt)
    moreover have "unat (failures cb + 1) = unat (failures cb) + 1" if "\<not> failures cb + 1 \<ge> MaxFailures cfg"
      using assms(1) closed that unat_Suc_u32 [of "failures cb" "MaxFailures cfg"] unat_Suc_u32 [of 0 1]
      by (auto simp: quiet_def cb_inv_def)
    ultimately show ?thesis
      using closed assms(1) run e cb'
      by (auto simp: abs_cb_def call_ok_def finish_call_def quiet_def cb_inv_def cb_ops cfg not_le)
  next
    case refused
    with assms show ?thesis by (auto simp: Execute_def currentState_def Let_def cfg abs_cb_def)
  next
    case probe
    then have "err = e" "cb' = releaseHalfOpenSlot (finish_call t2 e
        (cb\<lparr>state := StateHalfOpen, halfOpenCalls := 1\<rparr>))"
      using assms(2) run by (auto simp: Execute_def currentState_def acquireHalfOpenSlot_def Let_def cfg)
    with probe assms(1) run e show ?thesis
      by (auto simp: abs_cb_def call_ok_def finish_call_def quiet_def cb_inv_def cb_ops cfg)
  qed
qed

lemma run_calls_refines:
  assumes "quiet cfg cb" and "run_calls cs cb = (errs, cb')"
  shows "quiet cfg cb' \<and> spec_run cfg cs (abs_cb cb) = (map (\<lambda>e. e \<noteq> Some ErrOpenCircuit) errs, abs_cb cb')"
  using assms
proof (induction cs arbitrary: cb errs)
  case Nil
  then show ?case by simp
next
  case (Cons c cs)
  obtain t1 t2 delay att where c: "c = (t1, t2, delay, att)" by (cases c)
  obtain err n cb1 where x: "Execute t1 t2 delay att cb = ((err, n), cb1)"
    by (cases "Execute t1 t2 delay att cb"; cases "fst (Execute t1 t2 delay att cb)") auto
  obtain es where es: "run_calls cs cb1 = (es, cb')" "errs = err # es"
    using Cons.prems(2) c x by (cases "run_calls cs cb1") auto
  from Execute_refines [OF Cons.prems(1) x] Cons.IH [of cb1 es] es c show ?case by simp
qed

section \<open>Properties\<close>

text \<open>C14: For a caller at a time the breaker implements its contract.  Over every sequence of
  calls, a call is refused exactly when the specification refuses it, and the breaker ends in
  the state the specification ends in: it counts consecutive failures, trips when they reach
  MaxFailures, refuses until more than Timeout has passed since the last failure, and then lets
  one call decide between closing and tripping again.\<close>

theorem breaker_refines_spec:
  "(case run_calls cs (cb_New nm cfg) of (errs, cb) \<Rightarrow>
     spec_run cfg cs (Counting 0) = (map (\<lambda>e. e \<noteq> Some ErrOpenCircuit) errs, abs_cb cb))"
proof -
  have "quiet cfg (cb_New nm cfg)" by (simp add: quiet_def cb_inv_New) (simp add: cb_New_def)
  moreover have "abs_cb (cb_New nm cfg) = Counting 0" by (simp add: abs_cb_def cb_New_def)
  ultimately show ?thesis
    using run_calls_refines [of cfg "cb_New nm cfg" cs] by (cases "run_calls cs (cb_New nm cfg)") simp
qed

text \<open>The state machine under every interleaving of callers.  In a reachable state a closed
  breaker has fewer than MaxFailures failures (or none); every step keeps the state or makes one of
  the documented moves, closed to open only by a failure that reaches MaxFailures, and open
  to half-open only by a caller that enters more than Timeout after the last failure.\<close>

theorem breaker_transitions:
  assumes "cb_reachable nm cfg (cb, ph)" and "do_event e (cb, ph) = Some (cb', ph')"
  shows "(state cb = StateClosed \<longrightarrow> failures cb = 0 \<or> failures cb < MaxFailures cfg)
    \<and> (state cb' = state cb
       \<or> (state cb = StateClosed \<and> state cb' = StateOpen \<and> failures cb + 1 \<ge> MaxFailures cfg \<and> (\<exists>i t. e = Fail i t))
       \<or> (state cb = StateOpen \<and> state cb' = StateHalfOpen
           \<and> (\<exists>i now. e = Enter i now \<and> time_sub now (lastFailure cb) > Timeout cfg))
       \<or> (state cb = StateHalfOpen \<and> state cb' = StateOpen \<and> (\<exists>i t. e = Fail i t))
       \<or> (state cb = StateHalfOpen \<and> state cb' = StateClosed \<and> (\<exists>i. e = Succeed i)))"
proof -
  have inv: "cb_inv cfg cb" using cb_reachable_inv [OF assms(1)] by simp
  then have cfg: "config cb = cfg" by (simp add: cb_inv_def)
  have "state cb' = state cb
       \<or> (state cb = StateClosed \<and> state cb' = StateOpen \<and> failures cb + 1 \<ge> MaxFailures cfg \<and> (\<exists>i t. e = Fail i t))
       \<or> (state cb = StateOpen \<and> state cb' = StateHalfOpen
           \<and> (\<exists>i now. e = Enter i now \<and> time_sub now (lastFailure cb) > Timeout cfg))
       \<or> (state cb = StateHalfOpen \<and> state cb' = StateOpen \<and> (\<exists>i t. e = Fail i t))
       \<or> (state cb = StateHalfOpen \<and> state cb' = StateClosed \<and> (\<exists>i. e = Succeed i))"
  proof (cases e)
    case (Enter i now)
    with assms(2) show ?thesis
      by (auto simp: currentState_def Let_def cfg split: if_splits cb_state.splits)
  next
    case (Acquire i)
    with assms(2) show ?thesis by (auto simp: acquireHalfOpenSlot_def split: if_splits)
  next
    case (Fail i now)
    with assms(2) show ?thesis
      by (cases "state cb") (auto simp: recordFailure_def Let_def cfg split: phase.splits if_splits)
  next
    case (Succeed i)
    with assms(2) show ?thesis by (auto simp: recordSuccess_def Let_def split: phase.splits if_splits)
  next
    case (Release i)
    with assms(2) show ?thesis by (auto simp: releaseHalfOpenSlot_def split: if_splits)
  qed
  with inv show ?thesis by (simp add: cb_inv_def)
qed

theorem breaker_transitions_witness:
  "cb_reachable ''x'' DefaultConfig (cb_New ''x'' DefaultConfig, \<lambda>_. Idle)
   \<and> do_event (Enter 0 7) (cb_New ''x'' DefaultConfig, \<lambda>_. Idle)
     = Some (cb_New ''x'' DefaultConfig, (\<lambda>_. Idle)(0 := Running False))
   \<and> failures (cb_New ''x'' DefaultConfig) = 0"
proof -
  have r: "cb_reachable ''x'' DefaultConfig (cb_New ''x'' DefaultConfig, \<lambda>_. Idle)" by (rule cb_start)
  have d: "do_event (Enter 0 7) (cb_New ''x'' DefaultConfig, \<lambda>_. Idle)
     = Some (cb_New ''x'' DefaultConfig, (\<lambda>_. Idle)(0 := Running False))"
    by (simp add: currentState_def cb_New_def Let_def)
  from breaker_transitions [OF r d] r d show ?thesis by (simp add: cb_New_def)
qed

text \<open>Retries are bounded and honest.  The function is called at most MaxRetries + 1 times
  (never, with an error, when MaxRetries is negative); a nil error is returned only when the
  last call returned nil; and the first attempt returning nil always gives success after one call.\<close>

theorem retries_bounded:
  "(case executeWithRetries cfg delay att of (err, n) \<Rightarrow>
      int n \<le> max 0 (MaxRetries cfg + 1)
      \<and> (err = None \<longrightarrow> 0 < n \<and> att (int n - 1) = FnReturned None)
      \<and> (MaxRetries cfg < 0 \<longrightarrow> err = Some (AfterRetries (MaxRetries cfg) None) \<and> n = 0)
      \<and> (0 \<le> MaxRetries cfg \<and> att 0 = FnReturned None \<longrightarrow> err = None \<and> n = 1))"
proof -
  obtain err n where run: "executeWithRetries cfg delay att = (err, n)" by (cases "executeWithRetries cfg delay att")
  from retry_loop_calls [of "MaxRetries cfg" delay att 0 0 None err n] run
  have "int n \<le> max 0 (MaxRetries cfg + 1) \<and> (err = None \<longrightarrow> 0 < n \<and> att (int n - 1) = FnReturned None)"
    by (simp add: executeWithRetries_def)
  moreover have "MaxRetries cfg < 0 \<Longrightarrow> err = Some (AfterRetries (MaxRetries cfg) None) \<and> n = 0"
    using run by (simp add: executeWithRetries_def retry_loop.simps)
  moreover have "0 \<le> MaxRetries cfg \<Longrightarrow> att 0 = FnReturned None \<Longrightarrow> err = None \<and> n = 1"
    using run by (simp add: executeWithRetries_def retry_loop.simps)
  ultimately show ?thesis using run by simp
qed

theorem retries_bounded_witness:
  "executeWithRetries DefaultConfig (\<lambda>_. None) (\<lambda>i. if i = 2 then FnReturned None else AttemptTimeout) = (None, 3)
   \<and> (3::int) \<le> max 0 (MaxRetries DefaultConfig + 1)"
proof -
  have run: "executeWithRetries DefaultConfig (\<lambda>_. None) (\<lambda>i. if i = 2 then FnReturned None else AttemptTimeout) = (None, 3)"
    by (simp add: executeWithRetries_def DefaultConfig_def retry_loop.simps)
  then show ?thesis
    using retries_bounded [where cfg = DefaultConfig and delay = "\<lambda>_. None" and att = "\<lambda>i. if i = 2 then FnReturned None else AttemptTimeout"]
    by auto
qed

text \<open>More than one test request can run at a time.  With the default configuration there is
  an interleaving in which a call admitted while the breaker was closed fails during the
  half-open phase: the failure reopens the breaker and resets the slot count although a probe
  still runs, so after the next timeout a second probe is admitted beside the first.\<close>

theorem probes_can_overlap:
  "\<exists>es cb ph. do_events es (cb_New ''x'' DefaultConfig, \<lambda>_. Idle) = Some (cb, ph)
     \<and> state cb = StateHalfOpen \<and> ph 6 = Running True \<and> ph 7 = Running True"
proof -
  let ?es = "[Enter 0 1, Enter 1 1, Enter 2 1, Enter 3 1, Enter 4 1, Enter 5 1,
      Fail 0 2, Fail 1 2, Fail 2 2, Fail 3 2, Fail 4 2,
      Enter 6 31000000000, Acquire 6, Fail 5 32000000000, Enter 7 63000000000, Acquire 7]"
  have "case do_events ?es (cb_New ''x'' DefaultConfig, \<lambda>_. Idle) of None \<Rightarrow> False
     | Some (cb, ph) \<Rightarrow> state cb = StateHalfOpen \<and> ph 6 = Running True \<and> ph 7 = Running True"
    by code_simp
  from option_case_witness [OF this] show ?thesis by blast
qed

text \<open>After a probe the deferred release decrements a count that was just reset: it wraps to the
  largest \<^verbatim>\<open>uint32\<close>, which is what \<^verbatim>\<open>Stats\<close> then reports.\<close>

lemma slot_count_wraps:
  assumes "state cb = StateOpen" and "time_sub t1 (lastFailure cb) > Timeout (config cb)"
  shows "st_half_open_calls (Stats (snd (Execute t1 t2 delay att cb))) = - 1"
  using assms by (auto simp: Execute_def cb_ops finish_call_def Stats_def split: prod.splits)

end
