(* ===== verification/Worker.thy ===== *)
theory Worker
  imports Prelude
begin

text \<open>
  Background work (\<^verbatim>\<open>src/internal/worker/pool.go\<close>): the priority queue of jobs, the worker
  pool as a system of interleaved workers, and the scheduler of recurring tasks.

  \<^verbatim>\<open>Pop\<close> on an empty queue waits on a condition variable that only \<^verbatim>\<open>Push\<close> signals: here
  it has no result.  The results channel holds 100 results; a send to the full channel waits.
\<close>

section \<open>The queue\<close>

record 'p job =
  job_ID :: string
  job_Type :: string
  Payload :: 'p
  Priority :: int
  Retries :: int
  job_MaxRetries :: int

record job_result =
  JobID :: string
  Success :: bool
  Error :: "string option"

type_synonym 'p memory_queue = "'p job list"

definition NewMemoryQueue :: "'p memory_queue" where
  "NewMemoryQueue = []"

text \<open>The loop of \<^verbatim>\<open>Push\<close>: insert before the first job of lower priority.\<close>

fun Push :: "'p job \<Rightarrow> 'p memory_queue \<Rightarrow> 'p memory_queue" where
  "Push job [] = [job]"
| "Push job (j # js) = (if Priority job > Priority j then job # j # js else j # Push job js)"

definition Pop :: "'p memory_queue \<Rightarrow> ('p job \<times> 'p memory_queue) option" where
  "Pop q = (if length q = 0 then None else Some (hd q, tl q))"

definition queue_Len :: "'p memory_queue \<Rightarrow> nat" where
  "queue_Len q = length q"

section \<open>What a client of the queue relies on\<close>

text \<open>
  The laws of the \<^verbatim>\<open>Queue\<close> interface: jobs are kept, a pop takes a job of the highest
  priority, and only an empty queue has nothing to pop.
\<close>

locale job_queue =
  fixes empty_q :: 'q
    and push :: "'p job \<Rightarrow> 'q \<Rightarrow> 'q"
    and pop :: "'q \<Rightarrow> ('p job \<times> 'q) option"
    and len :: "'q \<Rightarrow> nat"
    and jobs :: "'q \<Rightarrow> 'p job multiset"
    and invar :: "'q \<Rightarrow> bool"
  assumes jobs_empty: "jobs empty_q = {#}" and invar_empty: "invar empty_q"
    and jobs_push: "invar q \<Longrightarrow> jobs (push j q) = add_mset j (jobs q)"
    and invar_push: "invar q \<Longrightarrow> invar (push j q)"
    and pop_None: "invar q \<Longrightarrow> pop q = None \<longleftrightarrow> jobs q = {#}"
    and pop_Some: "invar q \<Longrightarrow> pop q = Some (j, q') \<Longrightarrow> invar q' \<and> jobs q = add_mset j (jobs q')
      \<and> (\<forall>k \<in># jobs q'. Priority k \<le> Priority j)"
    and len_jobs: "invar q \<Longrightarrow> len q = size (jobs q)"
begin

lemma push_len: "invar q \<Longrightarrow> len (push j q) = Suc (len q)"
  by (simp add: len_jobs invar_push jobs_push)

text \<open>Pushing a list of jobs and popping \<open>n\<close> times.\<close>

lemma push_all: "invar q \<Longrightarrow> invar (fold push js q) \<and> jobs (fold push js q) = mset js + jobs q"
proof (induction js arbitrary: q)
  case Nil
  then show ?case by simp
next
  case (Cons j js)
  from Cons.IH [OF invar_push [OF Cons.prems]] show ?case by (simp add: jobs_push [OF Cons.prems])
qed

lemma pop_after_push: "invar q \<Longrightarrow> \<exists>k q'. pop (push j q) = Some (k, q') \<and> Priority j \<le> Priority k
    \<and> (\<forall>i \<in># jobs q. Priority i \<le> Priority k)"
proof -
  assume q: "invar q"
  have "pop (push j q) \<noteq> None" using pop_None [OF invar_push [OF q]] jobs_push [OF q] by simp
  then obtain k q' where pop: "pop (push j q) = Some (k, q')" by auto
  from pop_Some [OF invar_push [OF q] this] jobs_push [OF q, of j] 
  have eq: "add_mset j (jobs q) = add_mset k (jobs q')" and le: "\<forall>i \<in># jobs q'. Priority i \<le> Priority k" by auto
  have "\<forall>i \<in># add_mset k (jobs q'). Priority i \<le> Priority k" using le by simp
  with eq have "\<forall>i \<in># add_mset j (jobs q). Priority i \<le> Priority k" by simp
  with pop show ?thesis by auto
qed

end

definition by_priority :: "'p memory_queue \<Rightarrow> bool" where
  "by_priority q \<longleftrightarrow> sorted_wrt (\<lambda>a b. Priority a \<ge> Priority b) q"

lemma mset_Push: "mset (Push j q) = add_mset j (mset q)"
  by (induction q) auto

lemma by_priority_Push: "by_priority q \<Longrightarrow> by_priority (Push j q)"
proof (induction q)
  case Nil
  then show ?case by (simp add: by_priority_def)
next
  case (Cons k q)
  have "set (Push j q) = insert j (set q)" using mset_Push [of j q] by (metis set_mset_add_mset_insert set_mset_mset)
  with Cons show ?case by (auto simp: by_priority_def)
qed

lemma Pop_Some_iff: "Pop q = Some (j, q') \<longleftrightarrow> q = j # q'"
  by (cases q) (auto simp: Pop_def)

interpretation mq: job_queue NewMemoryQueue Push Pop queue_Len mset by_priority
  by unfold_locales
    (auto simp: mset_Push by_priority_Push Pop_Some_iff, auto simp: NewMemoryQueue_def by_priority_def Pop_def queue_Len_def split: if_splits)

text \<open>Pushing is insertion sort: the queue is the stable sort of the jobs by falling priority, so
  jobs of one priority leave in the order in which they came.\<close>

lemma filter_Push:
  "by_priority q \<Longrightarrow> filter (\<lambda>k. Priority k = p) (Push j q) =
   filter (\<lambda>k. Priority k = p) q @ (if Priority j = p then [j] else [])"
proof (induction q)
  case Nil
  then show ?case by simp
next
  case (Cons k q)
  show ?case
  proof (cases "Priority j > Priority k")
    case True
    with Cons.prems have "\<forall>i \<in> set (k # q). Priority i < Priority j" by (auto simp: by_priority_def)
    then have "filter (\<lambda>i. Priority i = Priority j) (k # q) = []" by (auto simp: filter_empty_conv)
    with True show ?thesis by auto
  next
    case False
    with Cons show ?thesis by (auto simp: by_priority_def)
  qed
qed

lemma push_all_filter:
  "by_priority q \<Longrightarrow> filter (\<lambda>k. Priority k = p) (fold Push js q) =
   filter (\<lambda>k. Priority k = p) q @ filter (\<lambda>k. Priority k = p) js"
proof (induction js arbitrary: q)
  case Nil
  then show ?case by simp
next
  case (Cons j js)
  from Cons.IH [OF by_priority_Push [OF Cons.prems, of j]] filter_Push [OF Cons.prems, of p j]
  show ?case by simp
qed

lemma push_all_sort: "fold Push js [] = sort_key (\<lambda>j. - Priority j) js"
proof (rule properties_for_sort_key [symmetric])
  have inv: "by_priority (fold Push js [])" "mset (fold Push js []) = mset js"
    using mq.push_all [of "[]" js] by (auto simp: by_priority_def)
  show "mset (fold Push js []) = mset js" by (rule inv(2))
  show "filter (\<lambda>x. - Priority k = - Priority x) (fold Push js []) = filter (\<lambda>x. - Priority k = - Priority x) js" for k
    using push_all_filter [of "[]" "Priority k" js] by (simp add: by_priority_def eq_commute)
  show "sorted (map (\<lambda>j. - Priority j) (fold Push js []))"
    using inv(1) by (simp add: by_priority_def sorted_wrt_map)
qed

section \<open>The pool\<close>

text \<open>
  What a worker is doing.  \<open>Handling\<close> has taken a job, \<open>Sleeping\<close> waits before it pushes the
  job again, and \<open>Sending\<close> has a result for the channel.
\<close>

datatype 'p wstate = Checking | Popping | Handling "'p job" | Sleeping "'p job" | Sending job_result | Exited

record 'p pool =
  queue :: "'p memory_queue"
  handlers :: "string list"
  results :: "job_result list"
  received :: "job_result list"
  running :: bool
  cancelled :: bool
  workers :: "'p wstate list"

definition NewWorkerPool :: "int \<Rightarrow> 'p memory_queue \<Rightarrow> int \<Rightarrow> nat \<times> 'p pool" where
  "NewWorkerPool numCPU q n =
     (nat (if n \<le> 0 then numCPU else n),
      \<lparr>queue = q, handlers = [], results = [], received = [], running = False, cancelled = False, workers = []\<rparr>)"

definition RegisterHandler :: "string \<Rightarrow> 'p pool \<Rightarrow> 'p pool" where
  "RegisterHandler jobType p = p\<lparr>handlers := List.insert jobType (handlers p)\<rparr>"

definition Submit :: "'p job \<Rightarrow> 'p pool \<Rightarrow> 'p pool" where
  "Submit job p = p\<lparr>queue := Push (if job_MaxRetries job = 0 then job\<lparr>job_MaxRetries := 3\<rparr> else job) (queue p)\<rparr>"

definition pool_Start :: "nat \<Rightarrow> 'p pool \<Rightarrow> 'p pool" where
  "pool_Start n p = (if running p then p else p\<lparr>running := True, workers := workers p @ replicate n Checking\<rparr>)"

text \<open>\<^verbatim>\<open>Stop\<close> up to \<^verbatim>\<open>p.wg.Wait()\<close>, which returns once every worker has exited.\<close>

definition pool_Stop :: "'p pool \<Rightarrow> 'p pool" where
  "pool_Stop p = (if \<not> running p then p else p\<lparr>running := False, cancelled := True\<rparr>)"

definition wg_done :: "'p pool \<Rightarrow> bool" where
  "wg_done p \<longleftrightarrow> (\<forall>w \<in> set (workers p). w = Exited)"

text \<open>\<^verbatim>\<open>processJob\<close> after the handler: the error it returned is a parameter.\<close>

definition processJob :: "string list \<Rightarrow> string option \<Rightarrow> 'p job \<Rightarrow> 'p wstate" where
  "processJob hs err job =
     (if job_Type job \<notin> set hs
      then Sending \<lparr>JobID = job_ID job, Success = False,
             Error = Some (''no handler for job type: '' @ job_Type job)\<rparr>
      else if err \<noteq> None \<and> Retries job < job_MaxRetries job
      then Sleeping (job\<lparr>Retries := Retries job + 1\<rparr>)
      else Sending \<lparr>JobID = job_ID job, Success = (err = None), Error = err\<rparr>)"

text \<open>The events of the pool: a step of worker \<open>i\<close>, or a step of its environment.\<close>

datatype 'p pool_event = Check nat | Take nat | Process nat "string option" | Wake nat | Send nat
  | SubmitE "'p job" | Receive | StopE

fun pool_step :: "'p pool_event \<Rightarrow> 'p pool \<Rightarrow> 'p pool option" where
  "pool_step (Check i) p =
     (if i < length (workers p) \<and> workers p ! i = Checking
      then Some (p\<lparr>workers := (workers p)[i := if cancelled p then Exited else Popping]\<rparr>) else None)"
| "pool_step (Take i) p =
     (if i < length (workers p) \<and> workers p ! i = Popping
      then (case Pop (queue p) of
              None \<Rightarrow> None
            | Some (job, q) \<Rightarrow> Some (p\<lparr>queue := q, workers := (workers p)[i := Handling job]\<rparr>))
      else None)"
| "pool_step (Process i err) p =
     (if i < length (workers p)
      then (case workers p ! i of
              Handling job \<Rightarrow> Some (p\<lparr>workers := (workers p)[i := processJob (handlers p) err job]\<rparr>)
            | _ \<Rightarrow> None)
      else None)"
| "pool_step (Wake i) p =
     (if i < length (workers p)
      then (case workers p ! i of
              Sleeping job \<Rightarrow> Some (p\<lparr>queue := Push job (queue p), workers := (workers p)[i := Checking]\<rparr>)
            | _ \<Rightarrow> None)
      else None)"
| "pool_step (Send i) p =
     (if i < length (workers p) \<and> length (results p) < 100
      then (case workers p ! i of
              Sending r \<Rightarrow> Some (p\<lparr>results := results p @ [r], workers := (workers p)[i := Checking]\<rparr>)
            | _ \<Rightarrow> None)
      else None)"
| "pool_step (SubmitE job) p = Some (Submit job p)"
| "pool_step Receive p =
     (case results p of [] \<Rightarrow> None | r # rs \<Rightarrow> Some (p\<lparr>results := rs, received := received p @ [r]\<rparr>))"
| "pool_step StopE p = Some (pool_Stop p)"

fun pool_run :: "'p pool_event list \<Rightarrow> 'p pool \<Rightarrow> 'p pool option" where
  "pool_run [] p = Some p"
| "pool_run (e # es) p = (case pool_step e p of None \<Rightarrow> None | Some p' \<Rightarrow> pool_run es p')"

section \<open>The scheduler\<close>

record 'p scheduled_task =
  jobType :: string
  task_payload :: 'p
  interval :: int
  lastRun :: int

type_synonym 'p tasks = "(string \<times> 'p scheduled_task) list"

definition AddTask :: "string \<Rightarrow> string \<Rightarrow> 'p \<Rightarrow> int \<Rightarrow> 'p tasks \<Rightarrow> 'p tasks" where
  "AddTask nm jt pl iv ts = al_put ts nm \<lparr>jobType = jt, task_payload = pl, interval = iv, lastRun = zero_time\<rparr>"

definition RemoveTask :: "string \<Rightarrow> 'p tasks \<Rightarrow> 'p tasks" where
  "RemoveTask nm ts = al_del ts nm"

definition task_job :: "int \<Rightarrow> string \<Rightarrow> 'p scheduled_task \<Rightarrow> 'p job" where
  "task_job now nm t = \<lparr>job_ID = ''scheduled-'' @ nm @ ''-'' @ dec_int (unix_seconds now),
     job_Type = jobType t, Payload = task_payload t, Priority = 0, Retries = 0, job_MaxRetries = 0\<rparr>"

definition task_due :: "int \<Rightarrow> 'p scheduled_task \<Rightarrow> bool" where
  "task_due now t \<longleftrightarrow> time_sub now (lastRun t) \<ge> interval t"

text \<open>The loop over the copy of the task map; the pointers in it are shared with the scheduler, so
  the new \<^verbatim>\<open>lastRun\<close> is set in the scheduler's own map when the name is still there.\<close>

definition run_task :: "int \<Rightarrow> string \<times> 'p scheduled_task \<Rightarrow> 'p tasks \<times> 'p pool \<Rightarrow> 'p tasks \<times> 'p pool" where
  "run_task now nt st = (case nt of (nm, t) \<Rightarrow> case st of (ts, p) \<Rightarrow>
     if task_due now t
     then ((case al_get ts nm of None \<Rightarrow> ts | Some t' \<Rightarrow> al_put ts nm (t'\<lparr>lastRun := now\<rparr>)), Submit (task_job now nm t) p)
     else (ts, p))"

definition checkAndRunTasks :: "int \<Rightarrow> 'p tasks \<Rightarrow> 'p pool \<Rightarrow> 'p tasks \<times> 'p pool" where
  "checkAndRunTasks now ts p = fold (run_task now) ts (ts, p)"

section \<open>Jobs are neither lost nor duplicated\<close>

fun held :: "'p wstate \<Rightarrow> string multiset" where
  "held (Handling j) = {#job_ID j#}"
| "held (Sleeping j) = {#job_ID j#}"
| "held (Sending r) = {#JobID r#}"
| "held _ = {#}"

definition in_pool :: "'p pool \<Rightarrow> string multiset" where
  "in_pool p = image_mset job_ID (mset (queue p)) + sum_list (map held (workers p))
     + image_mset JobID (mset (results p)) + image_mset JobID (mset (received p))"

fun submitted :: "'p pool_event list \<Rightarrow> string multiset" where
  "submitted [] = {#}"
| "submitted (SubmitE j # es) = add_mset (job_ID j) (submitted es)"
| "submitted (_ # es) = submitted es"

lemma sum_list_update_mset:
  "i < length xs \<Longrightarrow> sum_list (map f (xs[i := y])) + f (xs ! i) = sum_list (map f xs) + (f y :: 'b multiset)"
  by (induction xs arbitrary: i) (auto split: nat.splits)

lemma held_update:
  assumes "i < length ws" and "held y = held (ws ! i) + m"
  shows "sum_list (map held (ws[i := y])) = sum_list (map held ws) + m"
  using sum_list_update_mset [OF assms(1), of held y] assms(2) by (simp add: ac_simps)

lemma held_processJob: "held (processJob hs err j) = {#job_ID j#}"
  by (simp add: processJob_def)

lemma held_drop:
  assumes "i < length ws" and "held (ws ! i) = held y + m"
  shows "sum_list (map held (ws[i := y])) + m = sum_list (map held ws)"
  using sum_list_update_mset [OF assms(1), of held y] assms(2) by (simp add: ac_simps)

lemma Submit_in_pool: "in_pool (Submit j p) = add_mset (job_ID j) (in_pool p)"
  by (simp add: in_pool_def Submit_def mset_Push)

lemma pool_step_in_pool:
  assumes "pool_step e p = Some p'"
  shows "in_pool p' = in_pool p + submitted [e]"
proof (cases e)
  case (Check i)
  with assms held_update [of i "workers p" _ "{#}"] show ?thesis
    by (auto simp: in_pool_def split: if_splits)
next
  case (Take i)
  then obtain j q where "i < length (workers p)" "workers p ! i = Popping" "queue p = j # q"
    "p' = p\<lparr>queue := q, workers := (workers p)[i := Handling j]\<rparr>"
    using assms by (cases "queue p") (auto simp: Pop_def split: if_splits)
  with held_update [of i "workers p" "Handling j" "{#job_ID j#}"] Take show ?thesis
    by (auto simp: in_pool_def)
next
  case (Process i err)
  then obtain j where "i < length (workers p)" "workers p ! i = Handling j"
    "p' = p\<lparr>workers := (workers p)[i := processJob (handlers p) err j]\<rparr>"
    using assms by (auto split: if_splits wstate.splits)
  with held_update [of i "workers p" "processJob (handlers p) err j" "{#}"] Process show ?thesis
    by (auto simp: in_pool_def held_processJob)
next
  case (Wake i)
  then obtain j where "i < length (workers p)" "workers p ! i = Sleeping j"
    "p' = p\<lparr>queue := Push j (queue p), workers := (workers p)[i := Checking]\<rparr>"
    using assms by (auto split: if_splits wstate.splits)
  with held_drop [of i "workers p" Checking "{#job_ID j#}"] Wake show ?thesis
    by (auto simp: in_pool_def mset_Push)
next
  case (Send i)
  then obtain r where "i < length (workers p)" "workers p ! i = Sending r"
    "p' = p\<lparr>results := results p @ [r], workers := (workers p)[i := Checking]\<rparr>"
    using assms by (auto split: if_splits wstate.splits)
  with held_drop [of i "workers p" Checking "{#JobID r#}"] Send show ?thesis
    by (auto simp: in_pool_def)
next
  case (SubmitE j)
  with assms show ?thesis by (auto simp: Submit_in_pool)
next
  case Receive
  with assms show ?thesis by (auto simp: in_pool_def split: list.splits)
next
  case StopE
  with assms show ?thesis by (auto simp: pool_Stop_def in_pool_def)
qed

lemma pool_run_in_pool: "pool_run es p = Some p' \<Longrightarrow> in_pool p' = in_pool p + submitted es"
proof (induction es arbitrary: p)
  case Nil
  then show ?case by simp
next
  case (Cons e es)
  then obtain p1 where "pool_step e p = Some p1" "pool_run es p1 = Some p'" by (auto split: option.splits)
  with Cons.IH pool_step_in_pool show ?case by (cases e) fastforce+
qed

section \<open>Retrying one job\<close>

text \<open>The runs of one job until it has a result: \<open>errs n\<close> is what run \<open>n\<close> returns.\<close>

function attempts :: "string list \<Rightarrow> (nat \<Rightarrow> string option) \<Rightarrow> nat \<Rightarrow> 'p job \<Rightarrow> nat \<times> job_result" where
  "attempts hs errs n job =
     (case processJob hs (errs n) job of
        Sleeping job' \<Rightarrow> attempts hs errs (n + 1) job'
      | Sending r \<Rightarrow> (n + 1, r)
      | _ \<Rightarrow> (n, \<lparr>JobID = job_ID job, Success = False, Error = None\<rparr>))"
  by pat_completeness auto
termination
  by (relation "measure (\<lambda>(hs, errs, n, job). nat (job_MaxRetries job - Retries job))")
    (auto simp: processJob_def split: if_splits)

declare attempts.simps [simp del]

lemma attempts_spec:
  assumes "job_Type job \<in> set hs" and "attempts hs errs n job = (m, r)"
  shows "n < m \<and> int (m - n) \<le> max 0 (job_MaxRetries job - Retries job) + 1 \<and> JobID r = job_ID job
    \<and> Success r = (errs (m - 1) = None) \<and> Error r = errs (m - 1)
    \<and> (\<forall>k. n \<le> k \<and> k < m - 1 \<longrightarrow> errs k \<noteq> None)
    \<and> (errs (m - 1) \<noteq> None \<longrightarrow> int (m - n) = max 0 (job_MaxRetries job - Retries job) + 1)"
  using assms
proof (induction hs errs n job rule: attempts.induct)
  case (1 hs errs n job)
  show ?case
  proof (cases "errs n \<noteq> None \<and> Retries job < job_MaxRetries job")
    case False
    then have "m = n + 1" "r = \<lparr>JobID = job_ID job, Success = (errs n = None), Error = errs n\<rparr>"
      using 1(2,3) by (auto simp: attempts.simps [of hs] processJob_def)
    with False show ?thesis by auto
  next
    case True
    let ?job = "job\<lparr>Retries := Retries job + 1\<rparr>"
    have p: "processJob hs (errs n) job = Sleeping ?job" using True 1(2) by (auto simp: processJob_def)
    then have "attempts hs errs (n + 1) ?job = (m, r)" using 1(3) by (simp add: attempts.simps [of hs _ n])
    with 1(1) [OF p] 1(2) have ih: "n + 1 < m" "int (m - (n + 1)) \<le> max 0 (job_MaxRetries job - (Retries job + 1)) + 1"
      "JobID r = job_ID job" "Success r = (errs (m - 1) = None)" "Error r = errs (m - 1)"
      "\<forall>k. n + 1 \<le> k \<and> k < m - 1 \<longrightarrow> errs k \<noteq> None"
      "errs (m - 1) \<noteq> None \<longrightarrow> int (m - (n + 1)) = max 0 (job_MaxRetries job - (Retries job + 1)) + 1"
      by auto
    have "errs k \<noteq> None" if "n \<le> k" "k < m - 1" for k
      using that ih(6) True by (cases "k = n") auto
    with ih True show ?thesis by auto
  qed
qed

section \<open>Properties\<close>

text \<open>Popping a queue into which jobs were pushed gives them by falling priority, and jobs of one
  priority in the order in which they were pushed: the queue is their stable sort.\<close>

theorem queue_is_stable_priority_order:
  "fold Push js NewMemoryQueue = sort_key (\<lambda>j. - Priority j) js
   \<and> filter (\<lambda>k. Priority k = p) (fold Push js NewMemoryQueue) = filter (\<lambda>k. Priority k = p) js
   \<and> (\<exists>k q'. Pop (Push j (fold Push js NewMemoryQueue)) = Some (k, q') \<and> (\<forall>i \<in> set (j # js). Priority i \<le> Priority k))"
proof -
  have inv: "by_priority (fold Push js NewMemoryQueue)" "mset (fold Push js NewMemoryQueue) = mset js"
    using mq.push_all [OF mq.invar_empty, of js] by (auto simp: NewMemoryQueue_def)
  from mq.pop_after_push [OF inv(1), of j] inv(2)
  have "\<exists>k q'. Pop (Push j (fold Push js NewMemoryQueue)) = Some (k, q') \<and> (\<forall>i \<in> set (j # js). Priority i \<le> Priority k)"
    by auto
  then show ?thesis
    using push_all_sort push_all_filter [of "[]" p js] by (simp add: NewMemoryQueue_def by_priority_def)
qed

theorem queue_is_stable_priority_order_witness:
  "map job_ID (fold Push [\<lparr>job_ID = ''a'', job_Type = ''t'', Payload = (), Priority = 0, Retries = 0, job_MaxRetries = 3\<rparr>,
     \<lparr>job_ID = ''b'', job_Type = ''t'', Payload = (), Priority = 1, Retries = 0, job_MaxRetries = 3\<rparr>,
     \<lparr>job_ID = ''c'', job_Type = ''t'', Payload = (), Priority = 1, Retries = 0, job_MaxRetries = 3\<rparr>] NewMemoryQueue)
   = [''b'', ''c'', ''a'']"
  unfolding queue_is_stable_priority_order [THEN conjunct1] by simp

text \<open>C15: Whatever the interleaving of workers, submitters, receiver and Stop, no job is lost and
  none is duplicated: the ids in the queue, in the hands of workers, in the results channel
  and already received are exactly the ids that were there before plus those submitted.\<close>

theorem jobs_conserved:
  assumes "pool_run es p = Some p'"
  shows "in_pool p' = in_pool p + submitted es"
  using assms by (rule pool_run_in_pool)

theorem jobs_conserved_witness:
  "in_pool \<lparr>queue = [], handlers = [''t''], results = [], received = [\<lparr>JobID = ''a'', Success = True, Error = None\<rparr>],
      running = True, cancelled = False, workers = [Checking :: unit wstate]\<rparr> = {#''a''#}"
proof -
  let ?j = "\<lparr>job_ID = ''a'', job_Type = ''t'', Payload = (), Priority = 0, Retries = 0, job_MaxRetries = 3\<rparr>"
  let ?p = "\<lparr>queue = [], handlers = [''t''], results = [], received = [], running = True, cancelled = False,
      workers = [Checking :: unit wstate]\<rparr>"
  have "pool_run [SubmitE ?j, Check 0, Take 0, Process 0 None, Send 0, Receive] ?p =
    Some \<lparr>queue = [], handlers = [''t''], results = [], received = [\<lparr>JobID = ''a'', Success = True, Error = None\<rparr>],
      running = True, cancelled = False, workers = [Checking]\<rparr>"
    by (simp add: Submit_def Pop_def processJob_def)
  from jobs_conserved [OF this] show ?thesis by (simp add: in_pool_def)
qed

text \<open>A job whose type has a handler is run until a run succeeds or its retries are used up:
  at most MaxRetries - Retries + 1 runs, all but the last failed, and the result carries the
  outcome of the last run; a failed result means that every allowed run failed.\<close>

theorem job_attempts_bounded:
  assumes "job_Type job \<in> set hs"
  shows "\<exists>m r. attempts hs errs 0 job = (m, r) \<and> 0 < m
    \<and> int m \<le> max 0 (job_MaxRetries job - Retries job) + 1
    \<and> JobID r = job_ID job \<and> Error r = errs (m - 1) \<and> Success r = (errs (m - 1) = None)
    \<and> (\<forall>k < m - 1. errs k \<noteq> None)
    \<and> (\<not> Success r \<longrightarrow> int m = max 0 (job_MaxRetries job - Retries job) + 1)"
proof -
  obtain m r where run: "attempts hs errs 0 job = (m, r)" by (cases "attempts hs errs 0 job")
  from attempts_spec [OF assms run] run show ?thesis by (intro exI [of _ m] exI [of _ r]) auto
qed

theorem job_attempts_bounded_witness:
  "\<exists>m r. attempts [''t''] (\<lambda>_. Some ''e'') 0
     \<lparr>job_ID = ''a'', job_Type = ''t'', Payload = (), Priority = 0, Retries = 0, job_MaxRetries = 3\<rparr> = (m, r)
     \<and> int m \<le> 4 \<and> JobID r = ''a''"
  using job_attempts_bounded [of "\<lparr>job_ID = ''a'', job_Type = ''t'', Payload = (), Priority = 0, Retries = 0,
      job_MaxRetries = 3\<rparr>" "[''t'']" "\<lambda>_. Some ''e''"] by auto

text \<open>Stop does not return while an idle worker waits for a job.  Cancelling the context does
  not wake a worker that waits in Pop; when the queue is empty and every worker waits or has
  exited, no run without a submission lets the waiting worker exit, so the wait group is never done.\<close>

theorem stop_never_returns_when_idle:
  assumes "queue p = []" and "\<forall>w \<in> set (workers p). w = Popping \<or> w = Exited"
    and "i < length (workers p)" and "workers p ! i = Popping"
    and "pool_run es (pool_Stop p) = Some p'" and "\<forall>e \<in> set es. \<forall>j. e \<noteq> SubmitE j"
  shows "workers p' ! i = Popping \<and> \<not> wg_done p'"
proof -
  have stuck: "queue q' = [] \<and> workers q' = workers q"
    if "queue q = []" "\<forall>w \<in> set (workers q). w = Popping \<or> w = Exited" "pool_run es q = Some q'"
      "\<forall>e \<in> set es. \<forall>j. e \<noteq> SubmitE j" for es and q q' :: "'a pool"
    using that
  proof (induction es arbitrary: q)
    case Nil
    then show ?case by simp
  next
    case (Cons e es)
    from Cons.prems(3) obtain q1 where q1: "pool_step e q = Some q1" "pool_run es q1 = Some q'"
      by (auto split: option.splits)
    have "workers q ! k \<in> {Popping, Exited}" if "k < length (workers q)" for k
      using Cons.prems(2) that by force
    then have "queue q1 = [] \<and> workers q1 = workers q"
      using q1(1) Cons.prems(1,4)
      by (cases e) (force simp: Pop_def pool_Stop_def split: if_splits list.splits wstate.splits)+
    with Cons.IH [of q1] Cons.prems q1 show ?case by simp
  qed
  have "queue (pool_Stop p) = []" "workers (pool_Stop p) = workers p" using assms(1) by (simp_all add: pool_Stop_def)
  with stuck [of "pool_Stop p" es p'] assms have "workers p' = workers p" by simp
  moreover have "Popping \<in> set (workers p)" using assms(3,4) by (metis nth_mem)
  ultimately show ?thesis using assms(4) by (auto simp: wg_done_def)
qed

theorem stop_never_returns_when_idle_witness:
  "\<not> wg_done (pool_Stop \<lparr>queue = [], handlers = [], results = [], received = [], running = True, cancelled = False,
      workers = [Popping :: unit wstate]\<rparr>)"
  using stop_never_returns_when_idle [of "\<lparr>queue = [], handlers = [], results = [], received = [], running = True,
      cancelled = False, workers = [Popping :: unit wstate]\<rparr>" 0 "[]"] by simp

end
