(* ===== verification/Store.thy ===== *)
theory Store
  imports Prelude "HOL-Library.Option_ord"
begin

text \<open>
  The metadata store (\<^verbatim>\<open>src/internal/db\<close>): the rows of the tables \<^verbatim>\<open>files\<close>,
  \<^verbatim>\<open>manifests\<close>, \<^verbatim>\<open>chunks\<close>, \<^verbatim>\<open>users\<close> and the operations of \<^verbatim>\<open>files.go\<close>,
  \<^verbatim>\<open>manifests.go\<close> and \<^verbatim>\<open>chunks.go\<close>.

  A table is the list of its rows; an SQL statement is the function on tables that its text
  denotes, with the constraints of \<^verbatim>\<open>schema.go\<close>: primary keys, the UNIQUE constraints (NULL is
  distinct from every value, so root entries are not constrained) and the references with
  ON DELETE CASCADE.  \<^verbatim>\<open>PRAGMA foreign_keys\<close> is set on one connection of the pool only, so
  \<open>fk_on\<close> says whether the connection that runs a statement enforces them; every theorem holds
  for both values.  Errors are the messages of the code without the text of the wrapped driver
  error.  I/O errors of the driver are not modelled.  Timestamps are stored at whole seconds.
\<close>

section \<open>Rows and tables\<close>

record file_row =
  f_id :: string
  f_user :: string
  f_parent :: "string option"
  f_name :: string
  f_name_encrypted :: "byte list"
  f_type :: string
  f_size :: int
  f_mime :: string
  f_manifest :: "string option"
  f_checksum :: "string option"
  f_encrypted :: bool
  f_key :: "byte list"
  f_trashed :: bool
  f_trashed_at :: "int option"
  f_version :: int
  f_created :: int
  f_updated :: int

record manifest =
  m_id :: string
  m_file :: string
  m_version :: int
  m_size :: int
  m_count :: int
  m_chunks :: "string list"
  m_checksum :: string
  m_device :: string
  m_created :: int

record chunk =
  c_hash :: string
  c_size :: int
  c_backend :: string
  c_path :: string
  c_ref :: int
  c_encrypted :: bool
  c_created :: int

record user =
  u_id :: string
  u_username :: string
  u_email :: string
  u_display :: string
  u_password_hash :: string
  u_role :: string
  u_quota :: int
  u_used :: int
  u_totp_secret :: "string option"
  u_totp_enabled :: bool
  u_public_key :: "byte list"
  u_private_key :: "byte list"
  u_recovery :: "string option"
  u_avatar :: "string option"
  u_status :: string
  u_must_change :: bool
  u_last_login :: "int option"
  u_created :: int
  u_updated :: int

record device =
  dv_id :: string
  dv_user :: string
  dv_name :: string
  dv_type :: string
  dv_os :: string
  dv_folder :: string
  dv_last_sync :: "int option"
  dv_clock :: string
  dv_root :: "string option"
  dv_active :: bool
  dv_created :: int
  dv_updated :: int

record sync_state =
  ss_id :: string
  ss_device :: string
  ss_file :: string
  ss_manifest :: string
  ss_clock :: string
  ss_synced :: int

record database =
  files :: "file_row list"
  manifests :: "manifest list"
  chunks :: "chunk list"
  users :: "user list"
  devices :: "device list"
  sync_states :: "sync_state list"
  fk_on :: bool

text \<open>A timestamp formatted by \<^verbatim>\<open>time.RFC3339\<close> and parsed again.\<close>

definition rfc3339 :: "int \<Rightarrow> int" where
  "rfc3339 t = t div 10 ^ 9 * 10 ^ 9"

text \<open>Stable descending sort, and LIMIT/OFFSET.\<close>

definition desc_sort :: "('a \<Rightarrow> 'k::linorder) \<Rightarrow> 'a list \<Rightarrow> 'a list" where
  "desc_sort k xs = rev (sort_key k (rev xs))"

definition limit_offset :: "int \<Rightarrow> int \<Rightarrow> 'a list \<Rightarrow> 'a list" where
  "limit_offset limit offset xs = take (nat limit) (drop (nat offset) xs)"

fun find_row :: "('a \<Rightarrow> bool) \<Rightarrow> 'a list \<Rightarrow> 'a option" where
  "find_row P [] = None"
| "find_row P (x # xs) = (if P x then Some x else find_row P xs)"

section \<open>files.go\<close>

text \<open>Another row with the same primary key, or with the same owner, parent and name.\<close>

definition name_clash :: "file_row \<Rightarrow> file_row \<Rightarrow> bool" where
  "name_clash f g \<longleftrightarrow> f_parent f \<noteq> None \<and> f_user g = f_user f \<and> f_parent g = f_parent f \<and> f_name g = f_name f"

definition parent_ok :: "database \<Rightarrow> file_row \<Rightarrow> bool" where
  "parent_ok d f \<longleftrightarrow> (case f_parent f of None \<Rightarrow> True
     | Some p \<Rightarrow> p = f_id f \<or> (\<exists>g \<in> set (files d). f_id g = p))"

definition CreateFile :: "file_row \<Rightarrow> database \<Rightarrow> database result" where
  "CreateFile f d =
     (if \<exists>g \<in> set (files d). f_id g = f_id f \<or> name_clash f g then Inl ''file already exists''
      else if fk_on d \<and> ((\<forall>u \<in> set (users d). u_id u \<noteq> f_user f) \<or> \<not> parent_ok d f)
      then Inl ''failed to create file''
      else Inr (d\<lparr>files := files d @ [f\<lparr>f_trashed_at := None,
             f_created := rfc3339 (f_created f), f_updated := rfc3339 (f_updated f)\<rparr>]\<rparr>))"

definition GetFileByID :: "string \<Rightarrow> database \<Rightarrow> file_row result" where
  "GetFileByID i d =
     (case find_row (\<lambda>f. f_id f = i) (files d) of None \<Rightarrow> Inl ''file not found'' | Some f \<Rightarrow> Inr f)"

text \<open>A nil or empty parent selects the root.\<close>

fun at_parent :: "string option \<Rightarrow> file_row \<Rightarrow> bool" where
  "at_parent None f = (f_parent f = None)"
| "at_parent (Some p) f = (if p = [] then f_parent f = None else f_parent f = Some p)"

definition GetFileByPath :: "string \<Rightarrow> string option \<Rightarrow> string \<Rightarrow> database \<Rightarrow> file_row result" where
  "GetFileByPath userID parentID nm d =
     (case find_row (\<lambda>f. f_user f = userID \<and> at_parent parentID f \<and> f_name f = nm \<and> \<not> f_trashed f) (files d) of
        None \<Rightarrow> Inl ''file not found'' | Some f \<Rightarrow> Inr f)"

definition ListDirectory :: "string \<Rightarrow> string option \<Rightarrow> int \<Rightarrow> int \<Rightarrow> database \<Rightarrow> file_row list" where
  "ListDirectory userID parentID limit offset d =
     limit_offset (if limit \<le> 0 then 100 else limit) offset
       (desc_sort f_type (sort_key f_name
         (filter (\<lambda>f. f_user f = userID \<and> at_parent parentID f \<and> \<not> f_trashed f) (files d))))"

text \<open>
  The updates map: one constructor per column that may be set, and \<open>UInvalid\<close> for a key that
  is not among the allowed fields.
\<close>

datatype file_update = UName string | UNameEncrypted "byte list" | USize int | UMime string
  | UManifest "string option" | UChecksum "string option" | UEncrypted bool | UKey "byte list"
  | UVersion int | UInvalid string

fun set_column :: "file_update \<Rightarrow> file_row \<Rightarrow> file_row" where
  "set_column (UName s) f = f\<lparr>f_name := s\<rparr>"
| "set_column (UNameEncrypted b) f = f\<lparr>f_name_encrypted := b\<rparr>"
| "set_column (USize n) f = f\<lparr>f_size := n\<rparr>"
| "set_column (UMime s) f = f\<lparr>f_mime := s\<rparr>"
| "set_column (UManifest m) f = f\<lparr>f_manifest := m\<rparr>"
| "set_column (UChecksum c) f = f\<lparr>f_checksum := c\<rparr>"
| "set_column (UEncrypted b) f = f\<lparr>f_encrypted := b\<rparr>"
| "set_column (UKey b) f = f\<lparr>f_key := b\<rparr>"
| "set_column (UVersion v) f = f\<lparr>f_version := v\<rparr>"
| "set_column (UInvalid s) f = f"

fun invalid_update :: "file_update \<Rightarrow> bool" where
  "invalid_update (UInvalid s) = True"
| "invalid_update _ = False"

text \<open>\<^verbatim>\<open>UPDATE files SET ... WHERE id = ?\<close>: the new rows, unless the changed row clashes.\<close>

definition update_row :: "string \<Rightarrow> (file_row \<Rightarrow> file_row) \<Rightarrow> file_row list \<Rightarrow> file_row list" where
  "update_row i h fs = map (\<lambda>f. if f_id f = i then h f else f) fs"

definition update_clash :: "string \<Rightarrow> (file_row \<Rightarrow> file_row) \<Rightarrow> file_row list \<Rightarrow> bool" where
  "update_clash i h fs \<longleftrightarrow>
     (\<exists>f \<in> set fs. \<exists>g \<in> set fs. f_id f = i \<and> f_id g \<noteq> i \<and> name_clash (h f) g)"

definition has_file :: "string \<Rightarrow> database \<Rightarrow> bool" where
  "has_file i d \<longleftrightarrow> (\<exists>f \<in> set (files d). f_id f = i)"

definition UpdateFile :: "int \<Rightarrow> string \<Rightarrow> file_update list \<Rightarrow> database \<Rightarrow> database result" where
  "UpdateFile now i updates d =
     (let h = (\<lambda>f. (fold set_column updates f)\<lparr>f_updated := rfc3339 now\<rparr>)
      in if updates = [] then Inr d
         else if \<exists>u \<in> set updates. invalid_update u then Inl ''invalid update field''
         else if update_clash i h (files d) then Inl ''failed to update file''
         else if \<not> has_file i d then Inl ''file not found''
         else Inr (d\<lparr>files := update_row i h (files d)\<rparr>))"

definition MoveFile :: "int \<Rightarrow> string \<Rightarrow> string \<Rightarrow> string \<Rightarrow> database \<Rightarrow> database result" where
  "MoveFile now i newParentID newName d =
     (let p = (if newParentID = [] then None else Some newParentID);
          h = (\<lambda>f. f\<lparr>f_parent := p, f_name := newName, f_updated := rfc3339 now\<rparr>)
      in if update_clash i h (files d) then Inl ''file already exists at destination''
         else if fk_on d \<and> has_file i d \<and> p \<noteq> None \<and> \<not> has_file newParentID d then Inl ''failed to move file''
         else if \<not> has_file i d then Inl ''file not found''
         else Inr (d\<lparr>files := update_row i h (files d)\<rparr>))"

definition SoftDelete :: "int \<Rightarrow> string \<Rightarrow> database \<Rightarrow> database result" where
  "SoftDelete now i d =
     (if \<not> has_file i d then Inl ''file not found''
      else Inr (d\<lparr>files := update_row i (\<lambda>f. f\<lparr>f_trashed := True, f_trashed_at := Some (rfc3339 now),
             f_updated := rfc3339 now\<rparr>) (files d)\<rparr>))"

definition ListTrash :: "string \<Rightarrow> int \<Rightarrow> int \<Rightarrow> database \<Rightarrow> file_row list" where
  "ListTrash userID limit offset d =
     limit_offset (if limit \<le> 0 then 100 else limit) (if offset < 0 then 0 else offset)
       (desc_sort f_trashed_at (filter (\<lambda>f. f_user f = userID \<and> f_trashed f) (files d)))"

definition CountTrash :: "string \<Rightarrow> database \<Rightarrow> nat" where
  "CountTrash userID d = length (filter (\<lambda>f. f_user f = userID \<and> f_trashed f) (files d))"

definition RestoreFromTrash :: "int \<Rightarrow> string \<Rightarrow> database \<Rightarrow> database result" where
  "RestoreFromTrash now i d =
     (if \<not> has_file i d then Inl ''file not found''
      else Inr (d\<lparr>files := update_row i (\<lambda>f. f\<lparr>f_trashed := False, f_trashed_at := None,
             f_updated := rfc3339 now\<rparr>) (files d)\<rparr>))"

text \<open>
  ON DELETE CASCADE from a set of file ids: the ids of all rows below them.  One round adds the
  children of what is there; as many rounds as there are rows reach everything.
\<close>

fun descend :: "nat \<Rightarrow> file_row list \<Rightarrow> string list \<Rightarrow> string list" where
  "descend 0 fs ids = ids"
| "descend (Suc n) fs ids =
     descend n fs (ids @ map f_id (filter (\<lambda>f. f_id f \<notin> set ids \<and> (\<exists>p \<in> set ids. f_parent f = Some p)) fs))"

definition delete_files :: "string list \<Rightarrow> database \<Rightarrow> database" where
  "delete_files ids d =
     (if fk_on d
      then (let gone = descend (length (files d)) (files d) ids
            in d\<lparr>files := filter (\<lambda>f. f_id f \<notin> set gone) (files d),
                 manifests := filter (\<lambda>m. m_file m \<notin> set gone) (manifests d),
                 sync_states := filter (\<lambda>s. ss_file s \<notin> set gone) (sync_states d)\<rparr>)
      else d\<lparr>files := filter (\<lambda>f. f_id f \<notin> set ids) (files d)\<rparr>)"

definition PermanentDelete :: "string \<Rightarrow> database \<Rightarrow> database result" where
  "PermanentDelete i d = (if \<not> has_file i d then Inl ''file not found'' else Inr (delete_files [i] d))"

text \<open>\<^verbatim>\<open>LIKE\<close> on ASCII text: \<^verbatim>\<open>%\<close> matches any text, \<^verbatim>\<open>_\<close> one character, letters match
  in both cases.\<close>

definition lower :: "char \<Rightarrow> char" where
  "lower c = (if 65 \<le> (of_char c :: nat) \<and> (of_char c :: nat) \<le> 90 then char_of ((of_char c :: nat) + 32) else c)"

function like :: "string \<Rightarrow> string \<Rightarrow> bool" where
  "like [] s = (s = [])"
| "like (p # ps) s =
     (if p = CHR ''%'' then like ps s \<or> (case s of [] \<Rightarrow> False | c # cs \<Rightarrow> like (p # ps) cs)
      else (case s of [] \<Rightarrow> False
            | c # cs \<Rightarrow> (p = CHR ''_'' \<or> lower c = lower p) \<and> like ps cs))"
  by pat_completeness auto
termination
  by (relation "measure (\<lambda>(p, s). length p + length s)") auto

definition SearchFiles :: "string \<Rightarrow> string \<Rightarrow> int \<Rightarrow> database \<Rightarrow> file_row list" where
  "SearchFiles userID q limit d =
     limit_offset (if limit \<le> 0 then 100 else limit) 0
       (sort_key f_name (filter (\<lambda>f. f_user f = userID \<and> \<not> f_trashed f \<and> like (''%'' @ q @ ''%'') (f_name f)) (files d)))"

definition RecentFiles :: "string \<Rightarrow> int \<Rightarrow> database \<Rightarrow> file_row list" where
  "RecentFiles userID limit d =
     limit_offset (if limit \<le> 0 then 100 else limit) 0
       (desc_sort f_updated (filter (\<lambda>f. f_user f = userID \<and> \<not> f_trashed f \<and> f_type f = ''file'') (files d)))"

definition CountFiles :: "database \<Rightarrow> nat" where
  "CountFiles d = length (filter (\<lambda>f. \<not> f_trashed f) (files d))"

text \<open>\<^verbatim>\<open>SUM\<close> fails when the total leaves the range of a 64-bit integer.\<close>

definition SumFileBytes :: "database \<Rightarrow> int result" where
  "SumFileBytes d =
     (let s = sum_list (map f_size (filter (\<lambda>f. \<not> f_trashed f \<and> f_type f = ''file'') (files d)))
      in if wrap64 s = s then Inr s else Inl ''integer overflow'')"

section \<open>manifests.go\<close>

definition CreateManifest :: "manifest \<Rightarrow> database \<Rightarrow> database result" where
  "CreateManifest m d =
     (if (\<exists>n \<in> set (manifests d). m_id n = m_id m \<or> (m_file n = m_file m \<and> m_version n = m_version m))
         \<or> (fk_on d \<and> \<not> has_file (m_file m) d)
      then Inl ''failed to create manifest''
      else Inr (d\<lparr>manifests := manifests d @ [m\<lparr>m_created := rfc3339 (m_created m)\<rparr>]\<rparr>))"

definition GetManifest :: "string \<Rightarrow> database \<Rightarrow> manifest result" where
  "GetManifest i d =
     (case find_row (\<lambda>m. m_id m = i) (manifests d) of None \<Rightarrow> Inl ''manifest not found'' | Some m \<Rightarrow> Inr m)"

definition ListVersions :: "string \<Rightarrow> database \<Rightarrow> manifest list" where
  "ListVersions fileID d = desc_sort m_version (filter (\<lambda>m. m_file m = fileID) (manifests d))"

definition GetLatestManifest :: "string \<Rightarrow> database \<Rightarrow> manifest result" where
  "GetLatestManifest fileID d =
     (case limit_offset 1 0 (desc_sort m_version (filter (\<lambda>m. m_file m = fileID) (manifests d))) of
        [] \<Rightarrow> Inl ''manifest not found'' | m # _ \<Rightarrow> Inr m)"

definition DeleteManifest :: "string \<Rightarrow> database \<Rightarrow> database result" where
  "DeleteManifest i d =
     (if \<forall>m \<in> set (manifests d). m_id m \<noteq> i then Inl ''manifest not found''
      else Inr (d\<lparr>manifests := filter (\<lambda>m. m_id m \<noteq> i) (manifests d)\<rparr>))"

section \<open>chunks.go\<close>

definition CreateChunk :: "chunk \<Rightarrow> database \<Rightarrow> database result" where
  "CreateChunk c d =
     (if \<exists>e \<in> set (chunks d). c_hash e = c_hash c then Inl ''failed to create chunk''
      else Inr (d\<lparr>chunks := chunks d @ [c\<lparr>c_created := rfc3339 (c_created c)\<rparr>]\<rparr>))"

definition GetChunk :: "string \<Rightarrow> database \<Rightarrow> chunk result" where
  "GetChunk h d =
     (case find_row (\<lambda>c. c_hash c = h) (chunks d) of None \<Rightarrow> Inl ''chunk not found'' | Some c \<Rightarrow> Inr c)"

definition ChunkExists :: "string \<Rightarrow> database \<Rightarrow> bool" where
  "ChunkExists h d \<longleftrightarrow> 0 < length (filter (\<lambda>c. c_hash c = h) (chunks d))"

definition IncrementRefCount :: "string \<Rightarrow> database \<Rightarrow> database result" where
  "IncrementRefCount h d =
     (if \<not> ChunkExists h d then Inl ''chunk not found''
      else Inr (d\<lparr>chunks := map (\<lambda>c. if c_hash c = h then c\<lparr>c_ref := c_ref c + 1\<rparr> else c) (chunks d)\<rparr>))"

definition DecrementRefCount :: "string \<Rightarrow> database \<Rightarrow> database result" where
  "DecrementRefCount h d =
     (if \<forall>c \<in> set (chunks d). \<not> (c_hash c = h \<and> c_ref c > 0) then Inl ''chunk not found''
      else Inr (d\<lparr>chunks := map (\<lambda>c. if c_hash c = h \<and> c_ref c > 0 then c\<lparr>c_ref := c_ref c - 1\<rparr> else c) (chunks d)\<rparr>))"

definition ListOrphanedChunks :: "database \<Rightarrow> chunk list" where
  "ListOrphanedChunks d = sort_key c_created (filter (\<lambda>c. c_ref c = 0) (chunks d))"

definition DeleteChunk :: "string \<Rightarrow> database \<Rightarrow> database result" where
  "DeleteChunk h d =
     (if \<not> ChunkExists h d then Inl ''chunk not found''
      else Inr (d\<lparr>chunks := filter (\<lambda>c. c_hash c \<noteq> h) (chunks d)\<rparr>))"

definition GetTotalChunkCount :: "database \<Rightarrow> nat" where
  "GetTotalChunkCount d = length (chunks d)"

definition GetTotalChunkSize :: "database \<Rightarrow> int result" where
  "GetTotalChunkSize d =
     (let s = sum_list (map c_size (chunks d)) in if wrap64 s = s then Inr s else Inl ''failed to get total chunk size'')"

definition UserOwnsChunk :: "string \<Rightarrow> string \<Rightarrow> database \<Rightarrow> bool" where
  "UserOwnsChunk userID h d \<longleftrightarrow>
     (\<exists>m \<in> set (manifests d). \<exists>f \<in> set (files d). f_id f = m_file m \<and> f_user f = userID \<and> h \<in> set (m_chunks m))"


section \<open>Well-formed tables\<close>

definition names_unique :: "file_row list \<Rightarrow> bool" where
  "names_unique fs \<longleftrightarrow> (\<forall>f \<in> set fs. \<forall>g \<in> set fs. name_clash f g \<longrightarrow> f_id f = f_id g)"

definition files_ok :: "file_row list \<Rightarrow> bool" where
  "files_ok fs \<longleftrightarrow> distinct (map f_id fs) \<and> names_unique fs"

definition manifests_ok :: "manifest list \<Rightarrow> bool" where
  "manifests_ok ms \<longleftrightarrow> distinct (map m_id ms) \<and> distinct (map (\<lambda>m. (m_file m, m_version m)) ms)"

definition chunks_ok :: "chunk list \<Rightarrow> bool" where
  "chunks_ok cs \<longleftrightarrow> distinct (map c_hash cs) \<and> (\<forall>c \<in> set cs. 0 \<le> c_ref c)"

definition db_ok :: "database \<Rightarrow> bool" where
  "db_ok d \<longleftrightarrow> files_ok (files d) \<and> manifests_ok (manifests d) \<and> chunks_ok (chunks d)"

lemma name_clash_sym: "name_clash f g \<longleftrightarrow> name_clash g f"
  by (auto simp: name_clash_def)

lemma map_update_row: "(\<And>f. f_id (h f) = f_id f) \<Longrightarrow> map f_id (update_row i h fs) = map f_id fs"
  by (simp add: update_row_def)

lemma files_ok_update:
  assumes ok: "files_ok fs" and id: "\<And>f. f_id (h f) = f_id f" and cl: "\<not> update_clash i h fs"
  shows "files_ok (update_row i h fs)"
proof -
  have clash: "f_id f = f_id g" if "f \<in> set fs" "g \<in> set fs"
    "name_clash (if f_id f = i then h f else f) (if f_id g = i then h g else g)" for f g
  proof (rule ccontr)
    assume ne: "f_id f \<noteq> f_id g"
    then consider (l) "f_id f = i" "f_id g \<noteq> i" | (r) "f_id g = i" "f_id f \<noteq> i" | (n) "f_id f \<noteq> i" "f_id g \<noteq> i" by blast
    then show False
    proof cases
      case l
      then show ?thesis using that cl by (auto simp: update_clash_def)
    next
      case r
      then have "name_clash (h g) f" using that(3) by (simp add: name_clash_sym [of f])
      with r that cl show ?thesis by (auto simp: update_clash_def)
    next
      case n
      then show ?thesis using that ne ok by (auto simp: files_ok_def names_unique_def)
    qed
  qed
  have "f_id f = f_id g" if "f \<in> set (update_row i h fs)" "g \<in> set (update_row i h fs)" "name_clash f g" for f g
  proof -
    from that obtain f' g' where "f' \<in> set fs" "g' \<in> set fs"
      "f = (if f_id f' = i then h f' else f')" "g = (if f_id g' = i then h g' else g')"
      by (auto simp: update_row_def)
    with clash [of f' g'] that(3) id show ?thesis by (auto split: if_splits)
  qed
  then show ?thesis using ok map_update_row [OF id] by (simp add: files_ok_def names_unique_def)
qed

lemma no_clash_same_key:
  assumes "files_ok fs" and "\<And>f. f_id (h f) = f_id f \<and> f_user (h f) = f_user f \<and> f_parent (h f) = f_parent f \<and> f_name (h f) = f_name f"
  shows "\<not> update_clash i h fs"
proof
  assume "update_clash i h fs"
  then obtain f g where fg: "f \<in> set fs" "g \<in> set fs" "f_id f = i" "f_id g \<noteq> i" "name_clash (h f) g"
    by (auto simp: update_clash_def)
  then have "name_clash f g" using assms(2) [of f] by (simp add: name_clash_def)
  with fg assms(1) show False by (auto simp: files_ok_def names_unique_def)
qed

lemma set_columns_id: "f_id (fold set_column us f) = f_id f"
proof (induction us arbitrary: f)
  case (Cons u us)
  have "f_id (set_column u f) = f_id f" by (cases u) auto
  with Cons show ?case by simp
qed simp

lemma files_ok_filter: "files_ok fs \<Longrightarrow> files_ok (filter P fs)"
  by (auto simp: files_ok_def names_unique_def distinct_map_filter)

lemma manifests_ok_filter: "manifests_ok ms \<Longrightarrow> manifests_ok (filter P ms)"
  by (simp add: manifests_ok_def distinct_map_filter)

lemma chunks_ok_filter: "chunks_ok cs \<Longrightarrow> chunks_ok (filter P cs)"
  by (simp add: chunks_ok_def distinct_map_filter)

lemma files_ok_append:
  assumes "files_ok fs" and "\<forall>g \<in> set fs. f_id g \<noteq> f_id f \<and> \<not> name_clash f g"
    and "f_id f' = f_id f" "f_user f' = f_user f" "f_parent f' = f_parent f" "f_name f' = f_name f"
  shows "files_ok (fs @ [f'])"
proof -
  have "name_clash f' g = name_clash f g" for g using assms(3-) by (simp add: name_clash_def)
  then have new: "\<not> name_clash f' g \<and> \<not> name_clash g f'" if "g \<in> set fs" for g
    using assms(2) that name_clash_sym [of g f'] by simp
  have "distinct (map f_id (fs @ [f']))" using assms(1-3) by (auto simp: files_ok_def)
  moreover have "names_unique (fs @ [f'])"
    using assms(1) new by (auto simp: files_ok_def names_unique_def)
  ultimately show ?thesis by (simp add: files_ok_def)
qed

lemma db_ok_files: "db_ok d \<Longrightarrow> files_ok fs \<Longrightarrow> db_ok (d\<lparr>files := fs\<rparr>)"
  by (simp add: db_ok_def)

lemma db_ok_chunks: "db_ok d \<Longrightarrow> chunks_ok cs \<Longrightarrow> db_ok (d\<lparr>chunks := cs\<rparr>)"
  by (simp add: db_ok_def)

lemma db_ok_manifests: "db_ok d \<Longrightarrow> manifests_ok ms \<Longrightarrow> db_ok (d\<lparr>manifests := ms\<rparr>)"
  by (simp add: db_ok_def)

lemma db_okD: "db_ok d \<Longrightarrow> files_ok (files d)" "db_ok d \<Longrightarrow> manifests_ok (manifests d)" "db_ok d \<Longrightarrow> chunks_ok (chunks d)"
  by (simp_all add: db_ok_def)

lemma CreateFile_Inr:
  "CreateFile f d = Inr d' \<Longrightarrow> (\<forall>g \<in> set (files d). f_id g \<noteq> f_id f \<and> \<not> name_clash f g)
   \<and> d' = d\<lparr>files := files d @ [f\<lparr>f_trashed_at := None,
             f_created := rfc3339 (f_created f), f_updated := rfc3339 (f_updated f)\<rparr>]\<rparr>"
  unfolding CreateFile_def by (simp split: if_split_asm)

lemma db_ok_CreateFile: "CreateFile f d = Inr d' \<Longrightarrow> db_ok d \<Longrightarrow> db_ok d'"
  using CreateFile_Inr [of f d d'] files_ok_append [OF db_okD(1), of d f] by (auto intro: db_ok_files)

lemma UpdateFile_Inr:
  assumes "UpdateFile now i us d = Inr d'" and "us \<noteq> []"
  shows "\<not> update_clash i (\<lambda>f. (fold set_column us f)\<lparr>f_updated := rfc3339 now\<rparr>) (files d) \<and> has_file i d
    \<and> (\<forall>u \<in> set us. \<not> invalid_update u)
    \<and> d' = d\<lparr>files := update_row i (\<lambda>f. (fold set_column us f)\<lparr>f_updated := rfc3339 now\<rparr>) (files d)\<rparr>"
  using assms unfolding UpdateFile_def Let_def by (simp split: if_split_asm)

lemma db_ok_UpdateFile:
  assumes "UpdateFile now i us d = Inr d'" and "db_ok d"
  shows "db_ok d'"
proof (cases "us = []")
  case True
  with assms show ?thesis by (simp add: UpdateFile_def)
next
  case False
  with UpdateFile_Inr [OF assms(1)] files_ok_update [OF db_okD(1) [OF assms(2)]] assms(2) show ?thesis
    by (auto intro: db_ok_files simp: set_columns_id)
qed

lemma MoveFile_Inr:
  "MoveFile now i p nm d = Inr d' \<Longrightarrow> has_file i d
   \<and> \<not> update_clash i (\<lambda>f. f\<lparr>f_parent := if p = [] then None else Some p, f_name := nm, f_updated := rfc3339 now\<rparr>) (files d)
   \<and> d' = d\<lparr>files := update_row i (\<lambda>f. f\<lparr>f_parent := if p = [] then None else Some p, f_name := nm,
        f_updated := rfc3339 now\<rparr>) (files d)\<rparr>"
  unfolding MoveFile_def Let_def by (simp split: if_split_asm)

lemma db_ok_MoveFile: "MoveFile now i p nm d = Inr d' \<Longrightarrow> db_ok d \<Longrightarrow> db_ok d'"
  using MoveFile_Inr [of now i p nm d d'] files_ok_update [OF db_okD(1), of d] by (auto intro: db_ok_files)

lemma db_ok_touch:
  assumes "db_ok d" and "\<And>f. f_id (h f) = f_id f \<and> f_user (h f) = f_user f \<and> f_parent (h f) = f_parent f \<and> f_name (h f) = f_name f"
  shows "db_ok (d\<lparr>files := update_row i h (files d)\<rparr>)"
  using assms by (intro db_ok_files files_ok_update no_clash_same_key db_okD) auto

lemma db_ok_SoftDelete: "SoftDelete now i d = Inr d' \<Longrightarrow> db_ok d \<Longrightarrow> db_ok d'"
  unfolding SoftDelete_def by (auto intro!: db_ok_touch split: if_split_asm)

lemma db_ok_Restore: "RestoreFromTrash now i d = Inr d' \<Longrightarrow> db_ok d \<Longrightarrow> db_ok d'"
  unfolding RestoreFromTrash_def by (auto intro!: db_ok_touch split: if_split_asm)

lemma db_ok_delete_files: "db_ok d \<Longrightarrow> db_ok (delete_files ids d)"
  by (simp add: delete_files_def db_ok_def Let_def files_ok_filter manifests_ok_filter)

lemma db_ok_PermanentDelete: "PermanentDelete i d = Inr d' \<Longrightarrow> db_ok d \<Longrightarrow> db_ok d'"
  by (auto simp: PermanentDelete_def db_ok_delete_files split: if_split_asm)

lemma CreateManifest_Inr:
  "CreateManifest m d = Inr d' \<Longrightarrow> m_id m \<notin> m_id ` set (manifests d)
   \<and> (m_file m, m_version m) \<notin> (\<lambda>m. (m_file m, m_version m)) ` set (manifests d)
   \<and> d' = d\<lparr>manifests := manifests d @ [m\<lparr>m_created := rfc3339 (m_created m)\<rparr>]\<rparr>"
  unfolding CreateManifest_def by (force split: if_split_asm)

lemma db_ok_CreateManifest: "CreateManifest m d = Inr d' \<Longrightarrow> db_ok d \<Longrightarrow> db_ok d'"
  using CreateManifest_Inr [of m d d'] by (auto intro!: db_ok_manifests simp: db_ok_def [of d] manifests_ok_def)

lemma db_ok_DeleteManifest: "DeleteManifest i d = Inr d' \<Longrightarrow> db_ok d \<Longrightarrow> db_ok d'"
  by (auto simp: DeleteManifest_def db_okD intro!: db_ok_manifests manifests_ok_filter split: if_split_asm)

lemma CreateChunk_Inr:
  "CreateChunk c d = Inr d' \<Longrightarrow> c_hash c \<notin> c_hash ` set (chunks d)
   \<and> d' = d\<lparr>chunks := chunks d @ [c\<lparr>c_created := rfc3339 (c_created c)\<rparr>]\<rparr>"
  unfolding CreateChunk_def by (force split: if_split_asm)

lemma db_ok_CreateChunk: "CreateChunk c d = Inr d' \<Longrightarrow> 0 \<le> c_ref c \<Longrightarrow> db_ok d \<Longrightarrow> db_ok d'"
  using CreateChunk_Inr [of c d d'] by (auto intro!: db_ok_chunks simp: db_ok_def [of d] chunks_ok_def)

lemma chunks_ok_map:
  "chunks_ok cs \<Longrightarrow> (\<And>c. c \<in> set cs \<Longrightarrow> c_hash (h c) = c_hash c \<and> 0 \<le> c_ref (h c)) \<Longrightarrow> chunks_ok (map h cs)"
  by (simp add: chunks_ok_def comp_def cong: map_cong)

lemma db_ok_Increment: "IncrementRefCount h d = Inr d' \<Longrightarrow> db_ok d \<Longrightarrow> db_ok d'"
  unfolding IncrementRefCount_def
  by (auto intro!: db_ok_chunks chunks_ok_map dest: db_okD(3) split: if_split_asm) (auto simp: chunks_ok_def db_ok_def)

lemma db_ok_Decrement: "DecrementRefCount h d = Inr d' \<Longrightarrow> db_ok d \<Longrightarrow> db_ok d'"
  unfolding DecrementRefCount_def
  by (auto intro!: db_ok_chunks chunks_ok_map dest: db_okD(3) split: if_split_asm) (auto simp: chunks_ok_def db_ok_def)

lemma db_ok_DeleteChunk: "DeleteChunk h d = Inr d' \<Longrightarrow> db_ok d \<Longrightarrow> db_ok d'"
  by (auto simp: DeleteChunk_def intro!: db_ok_chunks chunks_ok_filter dest: db_okD(3) split: if_split_asm)

lemmas db_ok_ops = db_ok_CreateFile db_ok_UpdateFile db_ok_MoveFile db_ok_SoftDelete db_ok_Restore
  db_ok_PermanentDelete db_ok_CreateManifest db_ok_DeleteManifest db_ok_CreateChunk db_ok_Increment
  db_ok_Decrement db_ok_DeleteChunk

section \<open>Lookups\<close>

lemma find_row_Some: "find_row P xs = Some x \<Longrightarrow> x \<in> set xs \<and> P x"
  by (induction xs) (auto split: if_splits)

lemma find_row_None: "find_row P xs = None \<longleftrightarrow> (\<forall>x \<in> set xs. \<not> P x)"
  by (induction xs) auto

lemma find_row_append: "find_row P (xs @ ys) = (case find_row P xs of None \<Rightarrow> find_row P ys | Some x \<Rightarrow> Some x)"
  by (induction xs) auto

lemma find_row_unique:
  assumes "\<forall>y \<in> set xs. P y \<longrightarrow> y = x" and "x \<in> set xs" and "P x"
  shows "find_row P xs = Some x"
proof -
  obtain y where y: "find_row P xs = Some y" using assms(2,3) find_row_None [of P xs] by blast
  with find_row_Some [OF y] assms(1) show ?thesis by blast
qed

lemma GetFileByID_iff: "files_ok (files d) \<Longrightarrow> GetFileByID i d = Inr f \<longleftrightarrow> f \<in> set (files d) \<and> f_id f = i"
proof -
  assume ok: "files_ok (files d)"
  have "find_row (\<lambda>f. f_id f = i) (files d) = Some f" if "f \<in> set (files d)" "f_id f = i"
    using that ok by (intro find_row_unique) (auto simp: files_ok_def distinct_map inj_on_def)
  then show ?thesis
    by (auto simp: GetFileByID_def dest: find_row_Some split: option.splits)
qed

lemma GetFileByID_update:
  assumes "files_ok (files d)" and "\<And>f. f_id (h f) = f_id f"
  shows "GetFileByID j (d\<lparr>files := update_row i h (files d)\<rparr>) =
    (if j = i then map_sum id h (GetFileByID j d) else GetFileByID j d)"
proof -
  have "find_row (\<lambda>f. f_id f = j) (update_row i h fs) =
    map_option (if j = i then h else id) (find_row (\<lambda>f. f_id f = j) fs)" for fs
    using assms(2) by (induction fs) (auto simp: update_row_def)
  then show ?thesis by (auto simp: GetFileByID_def split: option.splits)
qed

lemma GetFileByPath_Inr:
  "GetFileByPath u p nm d = Inr f \<Longrightarrow> f \<in> set (files d) \<and> f_user f = u \<and> at_parent p f \<and> f_name f = nm \<and> \<not> f_trashed f"
  by (auto simp: GetFileByPath_def dest: find_row_Some split: option.splits)

lemma GetFileByPath_Inl:
  "GetFileByPath u p nm d = Inl e \<Longrightarrow> f \<in> set (files d) \<Longrightarrow> f_user f = u \<Longrightarrow> at_parent p f \<Longrightarrow> f_name f = nm \<Longrightarrow> f_trashed f"
  by (auto simp: GetFileByPath_def find_row_None split: option.splits)

lemma set_ListDirectory: "f \<in> set (ListDirectory u p lim off d) \<Longrightarrow>
    f \<in> set (files d) \<and> f_user f = u \<and> at_parent p f \<and> \<not> f_trashed f"
  by (auto simp: ListDirectory_def limit_offset_def desc_sort_def dest!: in_set_takeD in_set_dropD)

lemma ListDirectory_complete:
  assumes "f \<in> set (files d)" "f_user f = u" "at_parent p f" "\<not> f_trashed f" "int (length (files d)) \<le> lim" "0 < lim"
  shows "f \<in> set (ListDirectory u p lim 0 d)"
proof -
  let ?sel = "filter (\<lambda>f. f_user f = u \<and> at_parent p f \<and> \<not> f_trashed f) (files d)"
  have "length ?sel \<le> nat lim" using assms(5) length_filter_le [of _ "files d"] by (metis (no_types, lifting) le_trans nat_int nat_mono)
  then have "take (nat lim) (desc_sort f_type (sort_key f_name ?sel)) = desc_sort f_type (sort_key f_name ?sel)"
    by (simp add: desc_sort_def)
  with assms show ?thesis by (simp add: ListDirectory_def limit_offset_def desc_sort_def)
qed

section \<open>Cascading deletion\<close>

text \<open>The ids below a set of roots, and that the bounded computation finds all of them.\<close>

inductive is_below :: "file_row list \<Rightarrow> string list \<Rightarrow> string \<Rightarrow> bool" for fs roots where
  root: "i \<in> set roots \<Longrightarrow> is_below fs roots i"
| child: "is_below fs roots p \<Longrightarrow> f \<in> set fs \<Longrightarrow> f_parent f = Some p \<Longrightarrow> is_below fs roots (f_id f)"

lemma descend_sound: "i \<in> set (descend n fs ids) \<Longrightarrow> (\<And>j. j \<in> set ids \<Longrightarrow> is_below fs roots j) \<Longrightarrow> is_below fs roots i"
proof (induction n arbitrary: ids)
  case 0
  then show ?case by simp
next
  case (Suc n)
  show ?case
    by (rule Suc.IH [OF Suc.prems(1) [simplified]]) (use Suc.prems(2) in \<open>auto intro: child\<close>)
qed

lemma descend_mono: "set ids \<subseteq> set (descend n fs ids)"
proof (induction n arbitrary: ids)
  case 0
  then show ?case by simp
next
  case (Suc n)
  from Suc [of "ids @ map f_id (filter (\<lambda>f. f_id f \<notin> set ids \<and> (\<exists>p \<in> set ids. f_parent f = Some p)) fs)"]
  show ?case by simp
qed

definition closed_ids :: "file_row list \<Rightarrow> string set \<Rightarrow> bool" where
  "closed_ids fs S \<longleftrightarrow> (\<forall>f \<in> set fs. \<forall>p \<in> S. f_parent f = Some p \<longrightarrow> f_id f \<in> S)"

lemma descend_fix: "closed_ids fs (set ids) \<Longrightarrow> set (descend n fs ids) = set ids"
proof (induction n arbitrary: ids)
  case 0
  then show ?case by simp
next
  case (Suc n)
  have "filter (\<lambda>f. f_id f \<notin> set ids \<and> (\<exists>p \<in> set ids. f_parent f = Some p)) fs = []"
    using Suc.prems by (auto simp: closed_ids_def filter_empty_conv)
  with Suc show ?case by simp
qed

lemma descend_closed:
  "card (f_id ` set fs - set ids) \<le> n \<Longrightarrow> closed_ids fs (set (descend n fs ids))"
proof (induction n arbitrary: ids)
  case 0
  then have "f_id ` set fs \<subseteq> set ids" by auto
  then show ?case by (auto simp: closed_ids_def)
next
  case (Suc n)
  let ?new = "map f_id (filter (\<lambda>f. f_id f \<notin> set ids \<and> (\<exists>p \<in> set ids. f_parent f = Some p)) fs)"
  show ?case
  proof (cases "closed_ids fs (set ids)")
    case True
    then show ?thesis using descend_fix [OF True, of "Suc n"] by metis
  next
    case False
    then obtain f where "f \<in> set fs" "f_id f \<in> set ?new" "f_id f \<notin> set ids" by (auto simp: closed_ids_def)
    then have "f_id ` set fs - set (ids @ ?new) \<subset> f_id ` set fs - set ids" by auto
    then have "card (f_id ` set fs - set (ids @ ?new)) < card (f_id ` set fs - set ids)"
      by (intro psubset_card_mono) auto
    with Suc.prems Suc.IH [of "ids @ ?new"] show ?thesis by simp
  qed
qed

lemma descend_is_below: "set (descend (length fs) fs ids) = {i. is_below fs ids i}"
proof (intro equalityI subsetI CollectI)
  fix i assume "i \<in> set (descend (length fs) fs ids)"
  then show "is_below fs ids i" by (rule descend_sound) (rule root)
next
  fix i assume "i \<in> {i. is_below fs ids i}"
  then have "is_below fs ids i" by simp
  moreover have "card (f_id ` set fs - set ids) \<le> length fs"
    by (meson Diff_subset card_image_le card_mono finite_imageI finite_set le_trans card_length)
  ultimately show "i \<in> set (descend (length fs) fs ids)"
  proof (induction rule: is_below.induct)
    case (root i)
    then show ?case using descend_mono by blast
  next
    case (child p f)
    then show ?case using descend_closed [of fs ids "length fs"] by (auto simp: closed_ids_def)
  qed
qed

section \<open>Reference counts\<close>

text \<open>
  The interface the upload handler, the sync engine and the garbage collector share: a store of
  counted chunk records.  \<open>refs s h\<close> is the count of \<open>h\<close>, or nothing when there is no record.
\<close>

locale ref_store =
  fixes refs :: "'s \<Rightarrow> string \<Rightarrow> int option"
    and ok :: "'s \<Rightarrow> bool"
    and create :: "string \<Rightarrow> 's \<Rightarrow> 's result"
    and incr :: "string \<Rightarrow> 's \<Rightarrow> 's result"
    and decr :: "string \<Rightarrow> 's \<Rightarrow> 's result"
    and del :: "string \<Rightarrow> 's \<Rightarrow> 's result"
  assumes create_new: "ok s \<Longrightarrow> refs s h = None \<Longrightarrow> \<exists>s'. create h s = Inr s' \<and> ok s' \<and> refs s' = (refs s)(h \<mapsto> 1)"
    and incr_Some: "ok s \<Longrightarrow> refs s h = Some n \<Longrightarrow> \<exists>s'. incr h s = Inr s' \<and> ok s' \<and> refs s' = (refs s)(h \<mapsto> n + 1)"
    and decr_Some: "ok s \<Longrightarrow> refs s h = Some n \<Longrightarrow> 0 < n \<Longrightarrow> \<exists>s'. decr h s = Inr s' \<and> ok s' \<and> refs s' = (refs s)(h \<mapsto> n - 1)"
    and decr_None: "ok s \<Longrightarrow> (case refs s h of None \<Rightarrow> True | Some n \<Rightarrow> n \<le> 0) \<Longrightarrow> \<exists>e. decr h s = Inl e"
    and del_Some: "ok s \<Longrightarrow> refs s h = Some n \<Longrightarrow> \<exists>s'. del h s = Inr s' \<and> ok s' \<and> refs s' = (refs s)(h := None)"
    and refs_nonneg: "ok s \<Longrightarrow> refs s h = Some n \<Longrightarrow> 0 \<le> n"

text \<open>Taking one reference to each hash of a list: create the record or count it up.\<close>

definition count_of :: "int option \<Rightarrow> int" where
  "count_of r = (case r of None \<Rightarrow> 0 | Some n \<Rightarrow> n)"

fun take_refs :: "('s \<Rightarrow> string \<Rightarrow> int option) \<Rightarrow> (string \<Rightarrow> 's \<Rightarrow> 's result) \<Rightarrow> (string \<Rightarrow> 's \<Rightarrow> 's result)
    \<Rightarrow> string list \<Rightarrow> 's \<Rightarrow> 's result" where
  "take_refs refs create incr [] s = Inr s"
| "take_refs refs create incr (h # hs) s =
     (case (if refs s h \<noteq> None then incr h s else create h s) of
        Inl e \<Rightarrow> Inl e | Inr s' \<Rightarrow> take_refs refs create incr hs s')"

text \<open>Giving one reference up: count down, and delete the record when the count is used up.\<close>

definition drop_ref :: "('s \<Rightarrow> string \<Rightarrow> int option) \<Rightarrow> (string \<Rightarrow> 's \<Rightarrow> 's result) \<Rightarrow> (string \<Rightarrow> 's \<Rightarrow> 's result)
    \<Rightarrow> string \<Rightarrow> 's \<Rightarrow> 's" where
  "drop_ref refs decr del h s =
     (case decr h s of Inl e \<Rightarrow> s
      | Inr s' \<Rightarrow> if (case refs s' h of None \<Rightarrow> False | Some n \<Rightarrow> n \<le> 0)
                 then (case del h s' of Inl e \<Rightarrow> s' | Inr s'' \<Rightarrow> s'') else s')"

context ref_store
begin

lemma take_one:
  assumes "ok s"
  shows "\<exists>s'. (if refs s h \<noteq> None then incr h s else create h s) = Inr s' \<and> ok s'
    \<and> refs s' = (refs s)(h \<mapsto> count_of (refs s h) + 1)"
  using create_new [OF assms, of h] incr_Some [OF assms, of h] by (cases "refs s h") (auto simp: count_of_def)

lemma take_all:
  assumes "ok s"
  shows "\<exists>s'. take_refs refs create incr hs s = Inr s' \<and> ok s'
    \<and> (\<forall>h. count_of (refs s' h) = count_of (refs s h) + int (count_list hs h)
         \<and> (refs s' h = None \<longleftrightarrow> refs s h = None \<and> h \<notin> set hs))"
  using assms
proof (induction hs arbitrary: s)
  case Nil
  then show ?case by simp
next
  case (Cons a hs)
  from take_one [OF Cons.prems, of a] obtain s1 where
    s1: "(if refs s a \<noteq> None then incr a s else create a s) = Inr s1" "ok s1"
      "refs s1 = (refs s)(a \<mapsto> count_of (refs s a) + 1)" by blast
  from Cons.IH [OF s1(2)] obtain s2 where
    s2: "take_refs refs create incr hs s1 = Inr s2" "ok s2"
      "\<forall>h. count_of (refs s2 h) = count_of (refs s1 h) + int (count_list hs h) \<and> (refs s2 h = None \<longleftrightarrow> refs s1 h = None \<and> h \<notin> set hs)"
    by blast
  have "count_of (refs s2 h) = count_of (refs s h) + int (count_list (a # hs) h)
      \<and> (refs s2 h = None \<longleftrightarrow> refs s h = None \<and> h \<notin> set (a # hs))" for h
    using s2(3) s1(3) by (auto simp: count_of_def)
  with s1(1) s2 show ?case by simp
qed

lemma drop_one:
  assumes "ok s"
  shows "ok (drop_ref refs decr del h s)
    \<and> refs (drop_ref refs decr del h s) =
      (case refs s h of None \<Rightarrow> refs s
       | Some n \<Rightarrow> if n \<le> 0 then refs s else if n = 1 then (refs s)(h := None) else (refs s)(h \<mapsto> n - 1))"
proof (cases "refs s h")
  case None
  with decr_None [OF assms, of h] show ?thesis using assms by (auto simp: drop_ref_def)
next
  case (Some n)
  show ?thesis
  proof (cases "n \<le> 0")
    case True
    with Some decr_None [OF assms, of h] show ?thesis using assms by (auto simp: drop_ref_def)
  next
    case False
    with decr_Some [OF assms Some] obtain s' where
      s': "decr h s = Inr s'" "ok s'" "refs s' = (refs s)(h \<mapsto> n - 1)" by auto
    from del_Some [OF s'(2), of h "n - 1"] s'(3) obtain s'' where
      "del h s' = Inr s''" "ok s''" "refs s'' = (refs s')(h := None)" by auto
    with s' Some False show ?thesis by (auto simp: drop_ref_def)
  qed
qed

lemma drop_all:
  assumes "ok s"
  shows "ok (fold (drop_ref refs decr del) hs s)
    \<and> (\<forall>h. count_of (refs (fold (drop_ref refs decr del) hs s) h) = max 0 (count_of (refs s h) - int (count_list hs h))
        \<and> (count_of (refs (fold (drop_ref refs decr del) hs s) h) > 0 \<longrightarrow> refs s h \<noteq> None))"
  using assms
proof (induction hs arbitrary: s)
  case Nil
  then show ?case using refs_nonneg [OF Nil] by (auto simp: count_of_def split: option.splits)
next
  case (Cons a hs)
  let ?s = "drop_ref refs decr del a s"
  have one: "ok ?s" "count_of (refs ?s h) = max 0 (count_of (refs s h) - (if h = a then 1 else 0))"
      "count_of (refs ?s h) > 0 \<Longrightarrow> refs s h \<noteq> None" for h
    using drop_one [OF Cons.prems, of a] refs_nonneg [OF Cons.prems]
    by (fastforce simp: count_of_def split: option.splits if_splits)+
  note ih = Cons.IH [OF one(1)]
  have "count_of (refs (fold (drop_ref refs decr del) hs ?s) h) = max 0 (count_of (refs s h) - int (count_list (a # hs) h))" for h
    using ih one(2) [of h] by (auto simp: max_def)
  moreover have "count_of (refs (fold (drop_ref refs decr del) hs ?s) h) > 0 \<Longrightarrow> refs s h \<noteq> None" for h
    using ih one(2,3) [of h] by (auto simp: max_def split: if_splits)
  ultimately show ?case using ih by simp
qed

end

text \<open>The chunk table provides the interface.  \<open>new_chunk\<close> is the record a client creates for a
  hash it has not seen.\<close>

definition new_chunk :: "int \<Rightarrow> string \<Rightarrow> int \<Rightarrow> string \<Rightarrow> string \<Rightarrow> chunk" where
  "new_chunk now backend sz pth h = \<lparr>c_hash = h, c_size = sz, c_backend = backend, c_path = pth,
     c_ref = 1, c_encrypted = False, c_created = now\<rparr>"

definition chunk_refs :: "database \<Rightarrow> string \<Rightarrow> int option" where
  "chunk_refs d h = map_option c_ref (find_row (\<lambda>c. c_hash c = h) (chunks d))"

lemma chunk_refs_None: "chunk_refs d h = None \<longleftrightarrow> \<not> ChunkExists h d"
  by (auto simp: chunk_refs_def find_row_None ChunkExists_def filter_empty_conv)

lemma chunk_refs_Some:
  assumes "db_ok d" and "chunk_refs d h = Some n"
  obtains c where "c \<in> set (chunks d)" "c_hash c = h" "c_ref c = n" "\<forall>e \<in> set (chunks d). c_hash e = h \<longrightarrow> e = c"
proof -
  obtain c where c: "find_row (\<lambda>c. c_hash c = h) (chunks d) = Some c" "c_ref c = n"
    using assms(2) by (auto simp: chunk_refs_def)
  from find_row_Some [OF c(1)] have "c \<in> set (chunks d)" "c_hash c = h" by auto
  moreover from this have "\<forall>e \<in> set (chunks d). c_hash e = h \<longrightarrow> e = c"
    using db_okD(3) [OF assms(1)] by (auto simp: chunks_ok_def distinct_map inj_on_def)
  ultimately show thesis using that c(2) by blast
qed

lemma find_row_map:
  "(\<And>x. P (g x) = P x) \<Longrightarrow> find_row P (map g xs) = map_option g (find_row P xs)"
  by (induction xs) auto

lemma find_row_filter_other: "find_row (\<lambda>c. c_hash c = h) (filter (\<lambda>c. c_hash c \<noteq> k) cs) =
    (if h = k then None else find_row (\<lambda>c. c_hash c = h) cs)"
  by (induction cs) auto

lemma chunk_refs_map:
  assumes "\<And>c. c_hash (g c) = c_hash c" and "\<And>c. c_hash c \<noteq> k \<Longrightarrow> c_ref (g c) = c_ref c"
  shows "chunk_refs (d\<lparr>chunks := map g (chunks d)\<rparr>) h =
    (if h = k then map_option (\<lambda>c. c_ref (g c)) (find_row (\<lambda>c. c_hash c = k) (chunks d)) else chunk_refs d h)"
proof -
  have "find_row (\<lambda>c. c_hash c = h) (map g (chunks d)) = map_option g (find_row (\<lambda>c. c_hash c = h) (chunks d))"
    by (rule find_row_map) (simp add: assms(1))
  then show ?thesis
    using assms(2) by (auto simp: chunk_refs_def option.map_comp comp_def dest!: find_row_Some split: option.splits
        intro!: option.map_cong)
qed

lemma Increment_refs:
  assumes "db_ok d" and "chunk_refs d h = Some n"
  shows "\<exists>d'. IncrementRefCount h d = Inr d' \<and> db_ok d' \<and> chunk_refs d' = (chunk_refs d)(h \<mapsto> n + 1)"
proof -
  let ?d = "d\<lparr>chunks := map (\<lambda>c. if c_hash c = h then c\<lparr>c_ref := c_ref c + 1\<rparr> else c) (chunks d)\<rparr>"
  have run: "IncrementRefCount h d = Inr ?d"
    using assms(2) chunk_refs_None [of d h] by (auto simp: IncrementRefCount_def)
  moreover have "chunk_refs ?d k = ((chunk_refs d)(h \<mapsto> n + 1)) k" for k
    using assms(2) by (subst chunk_refs_map [where k = h]) (auto simp: chunk_refs_def dest: find_row_Some)
  ultimately show ?thesis using db_ok_Increment [OF run assms(1)] by blast
qed

lemma Decrement_refs:
  assumes "db_ok d" and "chunk_refs d h = Some n" and "0 < n"
  shows "\<exists>d'. DecrementRefCount h d = Inr d' \<and> db_ok d' \<and> chunk_refs d' = (chunk_refs d)(h \<mapsto> n - 1)"
proof -
  let ?d = "d\<lparr>chunks := map (\<lambda>c. if c_hash c = h \<and> c_ref c > 0 then c\<lparr>c_ref := c_ref c - 1\<rparr> else c) (chunks d)\<rparr>"
  obtain c where c: "c \<in> set (chunks d)" "c_hash c = h" "c_ref c = n" using chunk_refs_Some [OF assms(1,2)] by blast
  then have run: "DecrementRefCount h d = Inr ?d" using assms(3) by (auto simp: DecrementRefCount_def)
  moreover have "chunk_refs ?d k = ((chunk_refs d)(h \<mapsto> n - 1)) k" for k
    using assms(2,3) by (subst chunk_refs_map [where k = h]) (auto simp: chunk_refs_def dest: find_row_Some)
  ultimately show ?thesis using db_ok_Decrement [OF run assms(1)] by blast
qed

lemma Decrement_none:
  assumes "db_ok d" and "case chunk_refs d h of None \<Rightarrow> True | Some n \<Rightarrow> n \<le> 0"
  shows "DecrementRefCount h d = Inl ''chunk not found''"
proof -
  have "\<not> (c_hash c = h \<and> c_ref c > 0)" if "c \<in> set (chunks d)" for c
  proof (cases "chunk_refs d h")
    case None
    with that show ?thesis by (auto simp: chunk_refs_def find_row_None)
  next
    case (Some n)
    obtain e where "c_hash e = h" "c_ref e = n" "\<forall>x \<in> set (chunks d). c_hash x = h \<longrightarrow> x = e"
      using chunk_refs_Some [OF assms(1) Some] by blast
    moreover have "n \<le> 0" using assms(2) Some by simp
    ultimately show ?thesis using that by (metis linorder_not_le)
  qed
  then show ?thesis by (auto simp: DecrementRefCount_def)
qed

lemma Delete_refs:
  assumes "db_ok d" and "chunk_refs d h = Some n"
  shows "\<exists>d'. DeleteChunk h d = Inr d' \<and> db_ok d' \<and> chunk_refs d' = (chunk_refs d)(h := None)"
proof -
  let ?d = "d\<lparr>chunks := filter (\<lambda>c. c_hash c \<noteq> h) (chunks d)\<rparr>"
  have run: "DeleteChunk h d = Inr ?d"
    using assms(2) chunk_refs_None [of d h] by (auto simp: DeleteChunk_def)
  moreover have "chunk_refs ?d k = ((chunk_refs d)(h := None)) k" for k
    by (auto simp: chunk_refs_def find_row_filter_other)
  ultimately show ?thesis using db_ok_DeleteChunk [OF run assms(1)] by blast
qed

lemma Create_refs:
  assumes "db_ok d" and "chunk_refs d (c_hash c) = None" and "c_ref c = n" and "0 \<le> n"
  shows "\<exists>d'. CreateChunk c d = Inr d' \<and> db_ok d' \<and> chunk_refs d' = (chunk_refs d)(c_hash c \<mapsto> n)"
proof -
  let ?d = "d\<lparr>chunks := chunks d @ [c\<lparr>c_created := rfc3339 (c_created c)\<rparr>]\<rparr>"
  have run: "CreateChunk c d = Inr ?d"
    using assms(2) by (auto simp: CreateChunk_def chunk_refs_def find_row_None)
  moreover have "chunk_refs ?d k = ((chunk_refs d)(c_hash c \<mapsto> n)) k" for k
    using assms(2,3) by (auto simp: chunk_refs_def find_row_append split: option.splits)
  ultimately show ?thesis using db_ok_CreateChunk [OF run _ assms(1)] assms(3,4) by blast
qed

interpretation cr: ref_store chunk_refs db_ok "\<lambda>h. CreateChunk (new_chunk now backend (sz h) (pth h) h)"
    IncrementRefCount DecrementRefCount DeleteChunk for now backend sz pth
proof
  fix s h n
  assume ok: "db_ok s"
  show "chunk_refs s h = None \<Longrightarrow> \<exists>s'. CreateChunk (new_chunk now backend (sz h) (pth h) h) s = Inr s' \<and> db_ok s'
      \<and> chunk_refs s' = (chunk_refs s)(h \<mapsto> 1)"
    using Create_refs [OF ok, of "new_chunk now backend (sz h) (pth h) h" 1] by (simp add: new_chunk_def)
  show "chunk_refs s h = Some n \<Longrightarrow> 0 \<le> n"
    using chunk_refs_Some [OF ok, of h n] db_okD(3) [OF ok] by (metis chunks_ok_def)
  show "case chunk_refs s h of None \<Rightarrow> True | Some n \<Rightarrow> n \<le> 0 \<Longrightarrow> \<exists>e. DecrementRefCount h s = Inl e"
    using Decrement_none [OF ok] by blast
qed (rule Increment_refs Decrement_refs Delete_refs; assumption)+

section \<open>Properties\<close>

text \<open>One successful statement on the tables, or a change of the pooled connection.\<close>

inductive db_step :: "database \<Rightarrow> database \<Rightarrow> bool" where
  st_create: "CreateFile f d = Inr d' \<Longrightarrow> db_step d d'"
| st_update: "UpdateFile now i us d = Inr d' \<Longrightarrow> db_step d d'"
| st_move: "MoveFile now i p nm d = Inr d' \<Longrightarrow> db_step d d'"
| st_trash: "SoftDelete now i d = Inr d' \<Longrightarrow> db_step d d'"
| st_restore: "RestoreFromTrash now i d = Inr d' \<Longrightarrow> db_step d d'"
| st_delete: "PermanentDelete i d = Inr d' \<Longrightarrow> db_step d d'"
| st_manifest: "CreateManifest m d = Inr d' \<Longrightarrow> db_step d d'"
| st_unmanifest: "DeleteManifest i d = Inr d' \<Longrightarrow> db_step d d'"
| st_chunk: "CreateChunk c d = Inr d' \<Longrightarrow> 0 \<le> c_ref c \<Longrightarrow> db_step d d'"
| st_incr: "IncrementRefCount h d = Inr d' \<Longrightarrow> db_step d d'"
| st_decr: "DecrementRefCount h d = Inr d' \<Longrightarrow> db_step d d'"
| st_unchunk: "DeleteChunk h d = Inr d' \<Longrightarrow> db_step d d'"
| st_connection: "db_step d (d\<lparr>fk_on := b\<rparr>)"

lemma db_step_ok: "db_step d d' \<Longrightarrow> db_ok d \<Longrightarrow> db_ok d'"
proof (induction rule: db_step.induct)
  case (st_connection d b)
  then show ?case by (simp add: db_ok_def)
qed (simp_all add: db_ok_ops)


definition empty_db :: database where
  "empty_db = \<lparr>files = [], manifests = [], chunks = [], users = [], devices = [], sync_states = [], fk_on = True\<rparr>"

inductive db_reachable :: "database \<Rightarrow> bool" where
  db_start: "db_reachable (empty_db\<lparr>users := us\<rparr>)"
| db_next: "db_reachable d \<Longrightarrow> db_step d d' \<Longrightarrow> db_reachable d'"

lemma db_reachable_ok: "db_reachable d \<Longrightarrow> db_ok d"
proof (induction rule: db_reachable.induct)
  case (db_start us)
  then show ?case
    by (simp add: db_ok_def empty_db_def files_ok_def names_unique_def manifests_ok_def chunks_ok_def)
qed (simp add: db_step_ok)

text \<open>In every state the statements reach, ids, version numbers of a file and chunk hashes
  are unique, no reference count is negative, and below the root a name belongs to one row only:
  a lookup by path there finds the row that any other lookup with that path and owner finds.\<close>

theorem store_keys_unique:
  assumes "db_reachable d"
  shows "distinct (map f_id (files d)) \<and> distinct (map m_id (manifests d))
    \<and> distinct (map (\<lambda>m. (m_file m, m_version m)) (manifests d)) \<and> distinct (map c_hash (chunks d))
    \<and> (\<forall>c \<in> set (chunks d). 0 \<le> c_ref c)
    \<and> (\<forall>f \<in> set (files d). p \<noteq> [] \<and> f_parent f = Some p \<and> \<not> f_trashed f
         \<longrightarrow> GetFileByPath (f_user f) (Some p) (f_name f) d = Inr f)"
proof -
  note ok = db_reachable_ok [OF assms]
  have "GetFileByPath (f_user f) (Some p) (f_name f) d = Inr f"
    if f: "f \<in> set (files d)" "p \<noteq> []" "f_parent f = Some p" "\<not> f_trashed f" for f
  proof (cases "GetFileByPath (f_user f) (Some p) (f_name f) d")
    case (Inl e)
    with GetFileByPath_Inl [OF Inl f(1)] f show ?thesis by simp
  next
    case (Inr g)
    with GetFileByPath_Inr [OF Inr] f have "g \<in> set (files d)" "name_clash f g" by (auto simp: name_clash_def)
    with f(1) db_okD(1) [OF ok] have "f_id f = f_id g" by (auto simp: files_ok_def names_unique_def)
    with f(1) \<open>g \<in> set (files d)\<close> db_okD(1) [OF ok] have "f = g" by (auto simp: files_ok_def distinct_map inj_on_def)
    with Inr show ?thesis by simp
  qed
  with ok show ?thesis by (auto simp: db_ok_def files_ok_def manifests_ok_def chunks_ok_def)
qed

definition sample_file :: "string \<Rightarrow> string option \<Rightarrow> string \<Rightarrow> file_row" where
  "sample_file i p nm = \<lparr>f_id = i, f_user = ''u'', f_parent = p, f_name = nm, f_name_encrypted = [], f_type = ''file'',
     f_size = 0, f_mime = [], f_manifest = None, f_checksum = None, f_encrypted = False, f_key = [],
     f_trashed = False, f_trashed_at = None, f_version = 1, f_created = 0, f_updated = 0\<rparr>"

lemma sample_id [simp]: "f_id (sample_file i p nm) = i"
  by (simp add: sample_file_def)

theorem store_keys_unique_witness:
  "GetFileByPath ''u'' (Some ''d'') ''a'' (empty_db\<lparr>fk_on := False, files := [sample_file ''f'' (Some ''d'') ''a'']\<rparr>)
   = Inr (sample_file ''f'' (Some ''d'') ''a'')"
proof -
  let ?f = "sample_file ''f'' (Some ''d'') ''a''"
  let ?d = "empty_db\<lparr>fk_on := False, files := [?f]\<rparr>"
  have "db_reachable (empty_db\<lparr>users := []\<rparr>)" by (rule db_start)
  then have "db_reachable (empty_db\<lparr>users := [], fk_on := False\<rparr>)" by (rule db_next) (rule st_connection)
  then have "db_reachable ?d"
    by (rule db_next, intro st_create [of ?f])
      (simp add: CreateFile_def empty_db_def sample_file_def rfc3339_def)
  from store_keys_unique [OF this, of "''d''"] show ?thesis by (simp add: sample_file_def)
qed

text \<open>Deleting a row on a connection that enforces references removes exactly the rows below
  it, their manifests and sync states, and leaves no dangling parent when there was none; on
  a connection that does not, only the row itself goes and its children stay behind.\<close>

theorem permanent_delete_cascades:
  assumes "PermanentDelete i d = Inr d'"
  shows "(fk_on d \<longrightarrow>
      set (files d') = {f \<in> set (files d). \<not> is_below (files d) [i] (f_id f)}
      \<and> set (manifests d') = {m \<in> set (manifests d). \<not> is_below (files d) [i] (m_file m)}
      \<and> ((\<forall>f \<in> set (files d). \<forall>p. f_parent f = Some p \<longrightarrow> has_file p d) \<longrightarrow>
         (\<forall>f \<in> set (files d'). \<forall>p. f_parent f = Some p \<longrightarrow> has_file p d')))
    \<and> (\<not> fk_on d \<longrightarrow> set (files d') = {f \<in> set (files d). f_id f \<noteq> i} \<and> manifests d' = manifests d)"
proof -
  have d': "d' = delete_files [i] d" using assms by (simp add: PermanentDelete_def split: if_split_asm)
  have closed: "is_below (files d) [i] (f_id f)" if "f \<in> set (files d)" "f_parent f = Some p" "is_below (files d) [i] p" for f p
    using that by (blast intro: child)
  have "has_file p d'" if "fk_on d" "\<forall>f \<in> set (files d). \<forall>p. f_parent f = Some p \<longrightarrow> has_file p d"
    "f \<in> set (files d')" "f_parent f = Some p" for f p
  proof -
    have f: "f \<in> set (files d)" "\<not> is_below (files d) [i] (f_id f)"
      using that(1,3) by (auto simp: d' delete_files_def Let_def descend_is_below)
    with that(2,4) obtain g where g: "g \<in> set (files d)" "f_id g = p" by (auto simp: has_file_def)
    from closed [OF f(1) that(4)] f(2) have "\<not> is_below (files d) [i] p" by blast
    with g that(1) show ?thesis by (auto simp: d' has_file_def delete_files_def Let_def descend_is_below)
  qed
  then show ?thesis by (auto simp: d' delete_files_def Let_def descend_is_below)
qed

theorem permanent_delete_cascades_witness:
  "set (files (delete_files [''d''] (empty_db\<lparr>files := [sample_file ''d'' None ''d'', sample_file ''f'' (Some ''d'') ''a'',
      sample_file ''g'' None ''b'']\<rparr>))) = {sample_file ''g'' None ''b''}"
proof -
  let ?d = "empty_db\<lparr>files := [sample_file ''d'' None ''d'', sample_file ''f'' (Some ''d'') ''a'', sample_file ''g'' None ''b'']\<rparr>"
  have run: "PermanentDelete ''d'' ?d = Inr (delete_files [''d''] ?d)" by (simp add: PermanentDelete_def has_file_def sample_file_def)
  have "set (files (delete_files [''d''] ?d)) = {f \<in> set (files ?d). \<not> is_below (files ?d) [''d''] (f_id f)}"
    using permanent_delete_cascades [OF run] by (simp add: empty_db_def)
  moreover have "is_below (files ?d) [''d''] i \<longleftrightarrow> i \<in> set (descend 3 (files ?d) [''d''])" for i
    using descend_is_below [of "files ?d" "[''d'']"] by (auto simp: numeral_3_eq_3)
  moreover have "set (descend 3 (files ?d) [''d'']) = {''d'', ''f''}"
    by (simp add: numeral_3_eq_3 sample_file_def)
  ultimately have "set (files (delete_files [''d''] ?d)) = {f \<in> set (files ?d). f_id f \<notin> {''d'', ''f''}}" by simp
  also have "\<dots> = set (filter (\<lambda>f. f_id f \<notin> {''d'', ''f''}) (files ?d))" by auto
  also have "\<dots> = {sample_file ''g'' None ''b''}" by simp
  finally show ?thesis .
qed

text \<open>At the root a path does not name one file: deleting a root file to the trash, creating
  another one with its name and restoring the first leaves two live files with one path,
  and a lookup by that path finds only one of them.\<close>

theorem root_names_not_unique:
  "\<exists>d. db_reachable d \<and> (\<exists>f \<in> set (files d). \<exists>g \<in> set (files d). f_id f \<noteq> f_id g \<and> f_parent f = None \<and> f_parent g = None
     \<and> f_user f = f_user g \<and> f_name f = f_name g \<and> \<not> f_trashed f \<and> \<not> f_trashed g
     \<and> GetFileByPath (f_user g) None (f_name g) d = Inr f)"
proof -
  let ?f = "sample_file ''f'' None ''a''" and ?g = "sample_file ''g'' None ''a''"
  let ?d0 = "empty_db\<lparr>users := [], fk_on := False\<rparr>"
  let ?d1 = "?d0\<lparr>files := [?f]\<rparr>"
  let ?d2 = "?d0\<lparr>files := [?f\<lparr>f_trashed := True, f_trashed_at := Some 0\<rparr>]\<rparr>"
  let ?d3 = "?d0\<lparr>files := [?f\<lparr>f_trashed := True, f_trashed_at := Some 0\<rparr>, ?g]\<rparr>"
  let ?d4 = "?d0\<lparr>files := [?f, ?g]\<rparr>"
  have "db_reachable (empty_db\<lparr>users := []\<rparr>)" by (rule db_start)
  then have r0: "db_reachable ?d0" by (rule db_next) (rule st_connection)
  have "CreateFile ?f ?d0 = Inr ?d1" by (simp add: CreateFile_def empty_db_def sample_file_def rfc3339_def)
  with r0 have r1: "db_reachable ?d1" by (blast intro: db_next st_create)
  have "SoftDelete 0 ''f'' ?d1 = Inr ?d2"
    by (simp add: SoftDelete_def has_file_def update_row_def sample_file_def rfc3339_def empty_db_def)
  with r1 have r2: "db_reachable ?d2" by (blast intro: db_next st_trash)
  have "CreateFile ?g ?d2 = Inr ?d3"
    by (simp add: CreateFile_def empty_db_def sample_file_def rfc3339_def name_clash_def)
  with r2 have r3: "db_reachable ?d3" by (blast intro: db_next st_create)
  have "RestoreFromTrash 0 ''f'' ?d3 = Inr ?d4"
    by (simp add: RestoreFromTrash_def has_file_def update_row_def sample_file_def rfc3339_def empty_db_def)
  with r3 have "db_reachable ?d4" by (blast intro: db_next st_restore)
  moreover have "GetFileByPath ''u'' None ''a'' ?d4 = Inr ?f" by (simp add: GetFileByPath_def sample_file_def)
  ultimately show ?thesis
    by (intro exI [of _ ?d4] conjI bexI [of _ ?f] bexI [of _ ?g]) (simp_all add: sample_file_def)
qed

end
