(* ===== verification/Paths.thy ===== *)
theory Paths
  imports Prelude
begin

text \<open>
  Paths: \<^verbatim>\<open>path.Clean\<close>, \<^verbatim>\<open>path.Dir\<close> and \<^verbatim>\<open>path.Base\<close> of Go's library (on a system whose
  separator is the slash \<^verbatim>\<open>filepath.Clean\<close> is the same function), and the path helpers of the
  virtual file system (\<^verbatim>\<open>src/internal/vfs/path.go\<close>).
\<close>

section \<open>Go's path package\<close>

abbreviation slash :: char where
  "slash \<equiv> CHR ''/''"

text \<open>One component against the stack of kept components, innermost first.\<close>

definition clean_step :: "bool \<Rightarrow> string \<Rightarrow> string list \<Rightarrow> string list" where
  "clean_step rooted cmp stack =
     (if cmp = [] \<or> cmp = ''.'' then stack
      else if cmp = ''..''
      then (case stack of
              [] \<Rightarrow> if rooted then [] else [cmp]
            | s # ss \<Rightarrow> if s = ''..'' then cmp # stack else ss)
      else cmp # stack)"

definition clean_parts :: "bool \<Rightarrow> string \<Rightarrow> string list" where
  "clean_parts rooted p = rev (fold (clean_step rooted) (split_on slash p) [])"

definition path_Clean :: "string \<Rightarrow> string" where
  "path_Clean p =
     (if p = [] then ''.''
      else if hd p = slash then slash # join_with ''/'' (clean_parts True p)
      else (let s = join_with ''/'' (clean_parts False p) in if s = [] then ''.'' else s))"

definition path_Dir :: "string \<Rightarrow> string" where
  "path_Dir p = path_Clean (case last_index_of slash p of None \<Rightarrow> [] | Some i \<Rightarrow> take (Suc i) p)"

definition path_Base :: "string \<Rightarrow> string" where
  "path_Base p =
     (if p = [] then ''.''
      else (let q = rev (dropWhile (\<lambda>c. c = slash) (rev p));
                b = (case last_index_of slash q of None \<Rightarrow> q | Some i \<Rightarrow> drop (Suc i) q)
            in if b = [] then ''/'' else b))"

section \<open>path.go\<close>

definition Normalize :: "string \<Rightarrow> string" where
  "Normalize p =
     (if p = [] then ''/''
      else (let p1 = (if has_prefix p ''/'' then p else slash # p);
                p2 = path_Clean p1
            in if has_prefix p2 ''/'' then p2 else slash # p2))"

definition Split :: "string \<Rightarrow> string \<times> string" where
  "Split p =
     (let q = trim_suffix (Normalize p) ''/''
      in case last_index_of slash q of
           None \<Rightarrow> (''/'', q)
         | Some i \<Rightarrow> if i = 0 then (''/'', drop 1 q) else (take i q, drop (Suc i) q))"

definition Join :: "string list \<Rightarrow> string" where
  "Join elem =
     (case elem of
        [] \<Rightarrow> ''/''
      | e # es \<Rightarrow> Normalize (fold (\<lambda>x r. let t = trim_char slash x in if t \<noteq> [] then r @ ''/'' @ t else r)
          es (Normalize e)))"

definition Dir :: "string \<Rightarrow> string" where
  "Dir p = fst (Split p)"

definition Base :: "string \<Rightarrow> string" where
  "Base p = snd (Split p)"

definition IsRoot :: "string \<Rightarrow> bool" where
  "IsRoot p \<longleftrightarrow> Normalize p = ''/''"

datatype path_error = ErrInvalidPath

definition isValidComponent :: "string \<Rightarrow> bool" where
  "isValidComponent nm \<longleftrightarrow> nm \<noteq> [] \<and> nm \<noteq> ''.'' \<and> nm \<noteq> ''..'' \<and> CHR 0x00 \<notin> set nm \<and> slash \<notin> set nm"

definition path_Validate :: "string \<Rightarrow> path_error option" where
  "path_Validate path =
     (let p = Normalize path
      in if p = [] then Some ErrInvalidPath
         else if CHR 0x00 \<in> set p then Some ErrInvalidPath
         else if \<exists>c \<in> set (split_on slash (trim_char slash p)). c \<noteq> [] \<and> \<not> isValidComponent c
         then Some ErrInvalidPath else None)"

definition GetName :: "string \<Rightarrow> string" where
  "GetName p = Base p"

definition GetParent :: "string \<Rightarrow> string" where
  "GetParent p = Dir p"

definition Ext :: "string \<Rightarrow> string" where
  "Ext p = (let b = Base p in case last_index_of (CHR ''.'') b of None \<Rightarrow> [] | Some i \<Rightarrow> drop i b)"

text \<open>\<^verbatim>\<open>path[:len(path)-len(ext)]\<close> of the path as given; the extension is that of the normalized
  path, so the slice could be out of range.\<close>

definition StripExt :: "string \<Rightarrow> string outcome" where
  "StripExt p =
     (let e = Ext p in if e = [] then Returns p
      else if length e \<le> length p then Returns (take (length p - length e) p) else Panics)"

definition replace_char :: "char \<Rightarrow> string \<Rightarrow> string \<Rightarrow> string" where
  "replace_char c r s = concat (map (\<lambda>x. if x = c then r else [x]) s)"

text \<open>\<^verbatim>\<open>strings.Split(pattern, ".*")\<close>\<close>

fun split_dotstar :: "string \<Rightarrow> string list" where
  "split_dotstar [] = [[]]"
| "split_dotstar [c] = [[c]]"
| "split_dotstar (c # d # s) =
     (if c = CHR ''.'' \<and> d = CHR ''*'' then [] # split_dotstar s
      else (case split_dotstar (d # s) of [] \<Rightarrow> [[c]] | w # ws \<Rightarrow> (c # w) # ws))"

definition matchRegex :: "string \<Rightarrow> string \<Rightarrow> bool" where
  "matchRegex pattern s =
     (if pattern = ''^.*$'' then True
      else (let p1 = (if has_prefix pattern ''^'' then drop 1 pattern else pattern);
                p2 = (if has_suffix p1 ''$'' then take (length p1 - 1) p1 else p1)
            in if p2 = ''.*'' then True
               else (case split_dotstar p2 of
                       [a, b] \<Rightarrow> has_prefix s (trim_suffix a [CHR 0x5C]) \<and> has_suffix s (trim_prefix b [CHR 0x5C])
                     | _ \<Rightarrow> p2 = s)))"

definition MatchPattern :: "string \<Rightarrow> string \<Rightarrow> bool" where
  "MatchPattern pattern path =
     matchRegex (''^'' @ replace_char (CHR ''?'') ''.''
       (replace_char (CHR ''*'') ''.*'' (replace_char (CHR ''.'') [CHR 0x5C, CHR ''.''] pattern)) @ ''$'') path"

text \<open>The first index below the common length where the strings differ.\<close>

fun mismatch :: "string \<Rightarrow> string \<Rightarrow> nat option" where
  "mismatch (a # as) (b # bs) = (if a \<noteq> b then Some 0 else map_option Suc (mismatch as bs))"
| "mismatch _ _ = None"

definition commonPrefix :: "string \<Rightarrow> string \<Rightarrow> string" where
  "commonPrefix a b =
     (let minLen = min (length a) (length b)
      in case mismatch a b of
           Some i \<Rightarrow> (case last_index_of slash (take i a) of Some j \<Rightarrow> take j a | None \<Rightarrow> ''/'')
         | None \<Rightarrow>
             if length a > minLen \<and> a ! minLen = slash then take minLen a
             else if length b > minLen \<and> b ! minLen = slash then take minLen b
             else if minLen = 0 then ''/''
             else (case last_index_of slash (take minLen a) of Some j \<Rightarrow> take j a | None \<Rightarrow> ''/''))"

fun common_loop :: "string \<Rightarrow> string list \<Rightarrow> string" where
  "common_loop first [] = first"
| "common_loop first (p # ps) =
     (let f = commonPrefix first p in if f = ''/'' then f else common_loop f ps)"

definition CommonPath :: "string list \<Rightarrow> string" where
  "CommonPath paths =
     (case paths of
        [] \<Rightarrow> ''/''
      | [p] \<Rightarrow> Dir p
      | p # ps \<Rightarrow> common_loop (Normalize p) (map Normalize ps))"

definition Rel :: "string \<Rightarrow> string \<Rightarrow> path_error + string" where
  "Rel base target =
     (let b = Normalize base; t = Normalize target
      in if \<not> has_prefix t b then Inl ErrInvalidPath
         else (let rel = trim_prefix (trim_prefix t b) ''/'' in if rel = [] then Inr ''.'' else Inr rel))"

section \<open>Clean paths\<close>

text \<open>A component that names an entry: not empty, not a dot name, no slash.\<close>

definition plain :: "string \<Rightarrow> bool" where
  "plain c \<longleftrightarrow> c \<noteq> [] \<and> c \<noteq> ''.'' \<and> c \<noteq> ''..'' \<and> slash \<notin> set c"

lemma clean_step_plain:
  "\<forall>s \<in> set stack. plain s \<Longrightarrow> slash \<notin> set cmp \<Longrightarrow> \<forall>s \<in> set (clean_step True cmp stack). plain s"
proof -
  assume st: "\<forall>s \<in> set stack. plain s" and nosep: "slash \<notin> set cmp"
  consider (skip) "cmp = [] \<or> cmp = ''.''" | (up) "cmp = ''..''" | (keep) "cmp \<noteq> []" "cmp \<noteq> ''.''" "cmp \<noteq> ''..''" by blast
  then show ?thesis
  proof cases
    case up
    then show ?thesis using st by (cases stack) (simp_all add: clean_step_def plain_def)
  qed (use st nosep in \<open>auto simp: clean_step_def plain_def\<close>)
qed

lemma clean_parts_plain: "c \<in> set (clean_parts True p) \<Longrightarrow> plain c"
proof -
  have "\<forall>s \<in> set (fold (clean_step True) (split_on slash p) []). plain s"
  proof (rule fold_invariant [where Q = "\<lambda>cmp. slash \<notin> set cmp"])
    fix x assume "x \<in> set (split_on slash p)"
    then show "slash \<notin> set x" by (rule split_on_no_sep)
  qed (use clean_step_plain in auto)
  then show "c \<in> set (clean_parts True p) \<Longrightarrow> plain c" by (simp add: clean_parts_def)
qed

lemma fold_clean_plain: "\<forall>c \<in> set cs. plain c \<Longrightarrow> fold (clean_step r) cs st = rev cs @ st"
  by (induction cs arbitrary: st) (auto simp: clean_step_def plain_def)

definition abs_path :: "string list \<Rightarrow> string" where
  "abs_path cs = slash # join_with ''/'' cs"

lemma Normalize_abs: "\<exists>cs. Normalize p = abs_path cs \<and> (\<forall>c \<in> set cs. plain c)"
proof (cases "p = []")
  case True
  then show ?thesis by (intro exI [of _ "[]"]) (simp add: Normalize_def abs_path_def)
next
  case False
  let ?p = "if has_prefix p ''/'' then p else slash # p"
  have "?p \<noteq> []" "hd ?p = slash" using False by (cases p; auto)+
  then have "Normalize p = abs_path (clean_parts True ?p)"
    using False by (simp add: Normalize_def path_Clean_def abs_path_def Let_def)
  then show ?thesis using clean_parts_plain by blast
qed

lemma split_abs_path: "\<forall>c \<in> set cs. plain c \<Longrightarrow> split_on slash (abs_path cs) = (if cs = [] then [[], []] else [] # cs)"
  by (auto simp: abs_path_def split_join plain_def)

lemma path_Clean_abs: "\<forall>c \<in> set cs. plain c \<Longrightarrow> path_Clean (abs_path cs) = abs_path cs"
proof -
  assume cs: "\<forall>c \<in> set cs. plain c"
  have "clean_parts True (abs_path cs) = cs"
    using fold_clean_plain [OF cs, of True "[]"]
    by (auto simp: clean_parts_def split_abs_path [OF cs]) (auto simp: clean_step_def)
  then show ?thesis by (simp add: path_Clean_def abs_path_def)
qed

lemma Normalize_abs_path: "\<forall>c \<in> set cs. plain c \<Longrightarrow> Normalize (abs_path cs) = abs_path cs"
  using path_Clean_abs [of cs] by (simp add: Normalize_def abs_path_def Let_def)

lemma join_with_snoc: "cs \<noteq> [] \<Longrightarrow> join_with s (cs @ [c]) = join_with s cs @ s @ c"
  by (induction s cs rule: join_with.induct) auto

lemma last_index_of_snoc_word:
  assumes "c \<notin> set w"
  shows "last_index_of c (s @ c # w) = Some (length s)"
  using assms index_of_append [of c "rev w" "rev s"] by (simp add: last_index_of_def)

lemma last_index_of_abs:
  assumes "\<forall>c \<in> set cs. plain c" and "plain b"
  shows "last_index_of slash (abs_path (cs @ [b])) = Some (length (abs_path cs) - (if cs = [] then 1 else 0))"
proof (cases "cs = []")
  case True
  then show ?thesis using last_index_of_snoc_word [of slash b "[]"] assms(2) by (simp add: abs_path_def plain_def)
next
  case False
  then have "abs_path (cs @ [b]) = abs_path cs @ slash # b" by (simp add: abs_path_def join_with_snoc)
  then show ?thesis using last_index_of_snoc_word [of slash b "abs_path cs"] assms(2) False by (simp add: plain_def)
qed

lemma last_abs_path:
  assumes "\<forall>c \<in> set cs. plain c" and "plain b"
  shows "trim_suffix (abs_path (cs @ [b])) ''/'' = abs_path (cs @ [b])"
proof -
  have "\<exists>x. abs_path (cs @ [b]) = x @ b"
  proof (cases "cs = []")
    case True
    then have "abs_path (cs @ [b]) = [slash] @ b" by (simp add: abs_path_def)
    then show ?thesis by blast
  next
    case False
    then have "abs_path (cs @ [b]) = (abs_path cs @ [slash]) @ b" by (simp add: abs_path_def join_with_snoc)
    then show ?thesis by blast
  qed
  then obtain x where x: "abs_path (cs @ [b]) = x @ b" by blast
  have "last (abs_path (cs @ [b])) \<noteq> slash"
    using assms(2) by (simp add: x plain_def) (metis last_in_set)
  then have "\<not> has_suffix (abs_path (cs @ [b])) ''/''" by (metis has_suffix_iff last_snoc)
  then show ?thesis by (simp add: trim_suffix_def)
qed

lemma Split_abs_path:
  assumes "\<forall>c \<in> set cs. plain c" and "plain b"
  shows "Split (abs_path (cs @ [b])) = (abs_path cs, b)"
proof -
  have all: "\<forall>c \<in> set (cs @ [b]). plain c" using assms by simp
  have "Split (abs_path (cs @ [b])) = (case last_index_of slash (abs_path (cs @ [b])) of
           None \<Rightarrow> (''/'', abs_path (cs @ [b]))
         | Some i \<Rightarrow> if i = 0 then (''/'', drop 1 (abs_path (cs @ [b])))
             else (take i (abs_path (cs @ [b])), drop (Suc i) (abs_path (cs @ [b]))))"
    by (simp add: Split_def Normalize_abs_path [OF all] last_abs_path [OF assms] Let_def)
  also have "\<dots> = (abs_path cs, b)"
    unfolding last_index_of_abs [OF assms]
    by (cases "cs = []") (simp_all add: abs_path_def join_with_snoc)
  finally show ?thesis .
qed

lemma Split_Normalize: "Split (Normalize p) = Split p"
  using Normalize_abs [of p] Normalize_abs_path by (auto simp: Split_def)

lemma trim_plain: "plain b \<Longrightarrow> trim_char slash b = b"
proof -
  assume b: "plain b"
  then have "dropWhile (\<lambda>x. x = slash) b = b" by (cases b) (auto simp: plain_def)
  moreover have "dropWhile (\<lambda>x. x = slash) (rev b) = rev b"
    using b by (cases b rule: rev_cases) (auto simp: plain_def)
  ultimately show ?thesis by (simp add: trim_char_def)
qed

lemma fold_clean_append: "clean_parts r (s @ slash # t) = rev (fold (clean_step r) (split_on slash t) (rev (clean_parts r s)))"
proof -
  have "split_on slash (s @ slash # t) = split_on slash s @ split_on slash t"
    by (induction s) (auto split: list.splits)
  then show ?thesis by (simp add: clean_parts_def)
qed

lemma Normalize_snoc:
  assumes "\<forall>c \<in> set cs. plain c" and "plain b"
  shows "Normalize (abs_path cs @ ''/'' @ b) = abs_path (cs @ [b])"
proof -
  have parts: "clean_parts True (abs_path cs) = cs"
    using fold_clean_plain [OF assms(1), of True "[]"]
    by (auto simp: clean_parts_def split_abs_path [OF assms(1)]) (auto simp: clean_step_def)
  have "split_on slash b = [b]" using assms(2) by (simp add: plain_def split_on_word)
  then have "clean_parts True (abs_path cs @ slash # b) = cs @ [b]"
    using assms(2) by (simp add: fold_clean_append parts) (simp add: clean_step_def plain_def)
  moreover have "hd (abs_path cs @ slash # b) = slash" "has_prefix (abs_path cs @ slash # b) ''/''" by (simp_all add: abs_path_def)
  ultimately show ?thesis by (simp add: Normalize_def path_Clean_def Let_def) (simp add: abs_path_def)
qed

section \<open>Properties\<close>

text \<open>C16: A normalized path is rooted and cannot climb: it is a slash followed by components none of
  which is empty, a dot or a double dot, and normalizing it again changes nothing.\<close>

theorem normalize_contains_traversal:
  "\<exists>cs. Normalize p = slash # join_with ''/'' cs
     \<and> (\<forall>c \<in> set cs. c \<noteq> [] \<and> c \<noteq> ''.'' \<and> c \<noteq> ''..'' \<and> slash \<notin> set c)
     \<and> Normalize (Normalize p) = Normalize p"
  using Normalize_abs [of p] Normalize_abs_path by (auto simp: abs_path_def plain_def)

theorem normalize_contains_traversal_witness:
  "\<exists>cs. Normalize ''a/../../etc/./x'' = slash # join_with ''/'' cs \<and> (\<forall>c \<in> set cs. c \<noteq> ''..'')"
  using normalize_contains_traversal [of "''a/../../etc/./x''"] by blast

text \<open>Splitting and joining are inverse: every path is the root or the join of its directory
  and its base name, and joining a clean directory with a plain name splits into the two again.\<close>

theorem split_join_roundtrip:
  "(IsRoot p \<or> Join [Dir p, Base p] = Normalize p)
   \<and> (plain b \<longrightarrow> Split (Join [d, b]) = (Normalize d, b))"
proof
  obtain cs where cs: "Normalize p = abs_path cs" "\<forall>c \<in> set cs. plain c" using Normalize_abs by blast
  show "IsRoot p \<or> Join [Dir p, Base p] = Normalize p"
  proof (cases cs rule: rev_cases)
    case Nil
    then show ?thesis using cs by (simp add: IsRoot_def abs_path_def)
  next
    case (snoc ds b)
    then have ok: "\<forall>c \<in> set ds. plain c" "plain b" "\<forall>c \<in> set (ds @ [b]). plain c" using cs by auto
    have "Split p = (abs_path ds, b)" using Split_abs_path [OF ok(1,2)] Split_Normalize [of p] cs(1) snoc by simp
    moreover have "Join [abs_path ds, b] = Normalize (abs_path ds @ ''/'' @ b)"
      using ok(2) by (simp add: Join_def Normalize_abs_path [OF ok(1)] trim_plain plain_def)
    moreover have "Normalize (abs_path ds @ ''/'' @ b) = abs_path (ds @ [b])"
      by (rule Normalize_snoc [OF ok(1,2)])
    ultimately show ?thesis using cs(1) snoc by (simp add: Dir_def Base_def)
  qed
next
  obtain cs where cs: "Normalize d = abs_path cs" "\<forall>c \<in> set cs. plain c" using Normalize_abs by blast
  show "plain b \<longrightarrow> Split (Join [d, b]) = (Normalize d, b)"
  proof
    assume b: "plain b"
    then have "Join [d, b] = abs_path (cs @ [b])"
      using Normalize_snoc [OF cs(2) b] by (simp add: Join_def cs(1) trim_plain plain_def)
    then show "Split (Join [d, b]) = (Normalize d, b)" using Split_abs_path [OF cs(2) b] cs(1) by simp
  qed
qed

theorem split_join_roundtrip_witness:
  "Split (Join [''x//y'', ''f.txt'']) = (Normalize ''x//y'', ''f.txt'')"
  using split_join_roundtrip [of "''/''" "''f.txt''" "''x//y''"] by (simp add: plain_def)

text \<open>Helpers that do not do what their comments say: \<^verbatim>\<open>Rel\<close> tests a string prefix, so a
  sibling counts as inside; the common directory of two root entries is the empty string; and a
  pattern without a wildcard but with a dot does not match itself.\<close>

lemma rel_accepts_sibling: "Rel ''/ab'' ''/abc'' = Inr ''c''"
  by code_simp

lemma common_path_of_root_entries: "CommonPath [''/a'', ''/b''] = []"
  by code_simp

lemma pattern_does_not_match_itself: "\<not> MatchPattern ''a.txt'' ''a.txt''"
  by code_simp

end
