(* ===== verification/Vfs.thy ===== *)
theory Vfs
  imports Store Merkle
begin

text \<open>
  The virtual file system (\<^verbatim>\<open>src/internal/vfs\<close>: \<^verbatim>\<open>vfs.go\<close>, \<^verbatim>\<open>trash.go\<close>,
  \<^verbatim>\<open>versioning.go\<close>) over the metadata store.

  The random part of a new id and the clock are parameters: \<open>gen k\<close> is the \<open>k\<close>-th random
  suffix drawn and \<open>clk k\<close> the time read with it.  Loops that follow parent ids or recurse into
  folders take fuel.
\<close>

datatype vfs_error = ErrNotFound | ErrAlreadyExists | ErrInvalidName | ErrPermissionDenied | ErrIsFile
  | Wrapped string

section \<open>Helpers\<close>

definition isValidName :: "string \<Rightarrow> bool" where
  "isValidName nm \<longleftrightarrow> nm \<noteq> [] \<and> nm \<noteq> ''.'' \<and> nm \<noteq> ''..''
     \<and> (\<forall>c \<in> set nm. c \<noteq> CHR ''/'' \<and> \<not> (of_char c :: nat) < 32)"

definition generateID :: "string \<Rightarrow> string \<Rightarrow> string" where
  "generateID pre rnd = pre @ ''_'' @ rnd"

definition joinPath :: "string list \<Rightarrow> string" where
  "joinPath parts = (case parts of [] \<Rightarrow> [] | p # ps \<Rightarrow> fold (\<lambda>x b. b @ ''/'' @ x) ps p)"

definition hashOf :: "(string \<Rightarrow> string) \<Rightarrow> string \<Rightarrow> string" where
  "hashOf sha s = sha s"

definition opt_parent :: "string \<Rightarrow> string option" where
  "opt_parent p = (if p = [] then None else Some p)"

definition blank_file :: "string \<Rightarrow> string \<Rightarrow> string option \<Rightarrow> string \<Rightarrow> string \<Rightarrow> int \<Rightarrow> file_row" where
  "blank_file i u p nm ty now = \<lparr>f_id = i, f_user = u, f_parent = p, f_name = nm, f_name_encrypted = [], f_type = ty,
     f_size = 0, f_mime = [], f_manifest = None, f_checksum = None, f_encrypted = False, f_key = [],
     f_trashed = False, f_trashed_at = None, f_version = 0, f_created = now, f_updated = now\<rparr>"

section \<open>vfs.go\<close>

definition CreateFolder :: "string \<Rightarrow> int \<Rightarrow> string \<Rightarrow> string \<Rightarrow> string \<Rightarrow> database
    \<Rightarrow> vfs_error + file_row \<times> database" where
  "CreateFolder rnd now userID parentID nm d =
     (if \<not> isValidName nm then Inl ErrInvalidName
      else case GetFileByPath userID (Some parentID) nm d of
        Inr _ \<Rightarrow> Inl ErrAlreadyExists
      | Inl _ \<Rightarrow>
          (let folder = blank_file (generateID ''folder'' rnd) userID (opt_parent parentID) nm ''folder'' now
           in case Store.CreateFile folder d of
                Inl e \<Rightarrow> Inl (Wrapped e) | Inr d' \<Rightarrow> Inr (folder, d')))"

definition vfs_CreateFile :: "string \<Rightarrow> int \<Rightarrow> string \<Rightarrow> string \<Rightarrow> string \<Rightarrow> string \<Rightarrow> int \<Rightarrow> database
    \<Rightarrow> vfs_error + file_row \<times> database" where
  "vfs_CreateFile rnd now userID parentID nm mimeType sz d =
     (if \<not> isValidName nm then Inl ErrInvalidName
      else case GetFileByPath userID (Some parentID) nm d of
        Inr _ \<Rightarrow> Inl ErrAlreadyExists
      | Inl _ \<Rightarrow>
          (let f = (blank_file (generateID ''file'' rnd) userID (opt_parent parentID) nm ''file'' now)
                     \<lparr>f_size := sz, f_mime := mimeType, f_version := 1\<rparr>
           in case Store.CreateFile f d of
                Inl e \<Rightarrow> Inl (Wrapped e) | Inr d' \<Rightarrow> Inr (f, d')))"

definition GetFile :: "string \<Rightarrow> database \<Rightarrow> vfs_error + file_row" where
  "GetFile i d = (case GetFileByID i d of Inl _ \<Rightarrow> Inl ErrNotFound | Inr f \<Rightarrow> Inr f)"

definition vfs_GetFileByPath :: "string \<Rightarrow> string \<Rightarrow> string \<Rightarrow> database \<Rightarrow> vfs_error + file_row" where
  "vfs_GetFileByPath userID parentID nm d =
     (case GetFileByPath userID (Some parentID) nm d of Inl _ \<Rightarrow> Inl ErrNotFound | Inr f \<Rightarrow> Inr f)"

definition vfs_ListDirectory :: "string \<Rightarrow> string \<Rightarrow> int \<Rightarrow> int \<Rightarrow> database \<Rightarrow> file_row list" where
  "vfs_ListDirectory userID parentID limit offset d = ListDirectory userID (Some parentID) limit offset d"

definition wrap_db :: "database result \<Rightarrow> vfs_error + database" where
  "wrap_db r = (case r of Inl e \<Rightarrow> Inl (Wrapped e) | Inr d \<Rightarrow> Inr d)"

definition Rename :: "int \<Rightarrow> string \<Rightarrow> string \<Rightarrow> database \<Rightarrow> vfs_error + database" where
  "Rename now fileID newName d =
     (if \<not> isValidName newName then Inl ErrInvalidName
      else wrap_db (UpdateFile now fileID [UName newName] d))"

definition Move :: "int \<Rightarrow> string \<Rightarrow> string \<Rightarrow> string \<Rightarrow> database \<Rightarrow> vfs_error + database" where
  "Move now fileID newParentID newName d =
     (if newName \<noteq> [] \<and> \<not> isValidName newName then Inl ErrInvalidName
      else if newName = []
      then (case GetFileByID fileID d of
              Inl _ \<Rightarrow> Inl ErrNotFound
            | Inr f \<Rightarrow> wrap_db (MoveFile now fileID newParentID (f_name f) d))
      else wrap_db (MoveFile now fileID newParentID newName d))"

definition vfs_Delete :: "int \<Rightarrow> string \<Rightarrow> database \<Rightarrow> vfs_error + database" where
  "vfs_Delete now fileID d = wrap_db (SoftDelete now fileID d)"

definition DeletePermanent :: "string \<Rightarrow> database \<Rightarrow> vfs_error + database" where
  "DeletePermanent fileID d = wrap_db (PermanentDelete fileID d)"

definition Restore :: "int \<Rightarrow> string \<Rightarrow> database \<Rightarrow> vfs_error + database" where
  "Restore now fileID d = wrap_db (RestoreFromTrash now fileID d)"

definition vfs_Search :: "string \<Rightarrow> string \<Rightarrow> int \<Rightarrow> database \<Rightarrow> file_row list" where
  "vfs_Search userID q limit d = SearchFiles userID q (if limit \<le> 0 then 100 else limit) d"

definition vfs_Recent :: "string \<Rightarrow> int \<Rightarrow> database \<Rightarrow> file_row list" where
  "vfs_Recent userID limit d = RecentFiles userID (if limit \<le> 0 then 50 else limit) d"

text \<open>\<^verbatim>\<open>walkDir\<close>: the entries of one directory, and the walk of each folder among them.\<close>

definition entry_info :: "(string \<Rightarrow> string) \<Rightarrow> string \<Rightarrow> file_row \<Rightarrow> file_info" where
  "entry_info sha path e =
     (if f_type e = ''folder''
      then \<lparr>fi_path = path, fi_is_file = False, fi_size = 0, fi_mod_time = unix_seconds (f_updated e), fi_hash = hashOf sha path\<rparr>
      else \<lparr>fi_path = path, fi_is_file = True, fi_size = f_size e, fi_mod_time = unix_seconds (f_updated e),
            fi_hash = (case f_checksum e of None \<Rightarrow> [] | Some c \<Rightarrow> c)\<rparr>)"

fun walkDir :: "nat \<Rightarrow> (string \<Rightarrow> string) \<Rightarrow> string \<Rightarrow> string option \<Rightarrow> string \<Rightarrow> database \<Rightarrow> file_info list outcome" where
  "walkDir 0 sha userID parentID prefix d = Diverges"
| "walkDir (Suc fuel) sha userID parentID prefix d =
     obind (omap (\<lambda>e.
         if f_type e = ''folder''
         then obind (walkDir fuel sha userID (Some (f_id e)) (prefix @ f_name e @ ''/'') d)
                (\<lambda>rest. Returns (entry_info sha (prefix @ f_name e) e # rest))
         else Returns [entry_info sha (prefix @ f_name e) e])
       (ListDirectory userID parentID 10000 0 d))
     (\<lambda>parts. Returns (concat parts))"

definition ListAllFiles :: "nat \<Rightarrow> (string \<Rightarrow> string) \<Rightarrow> string \<Rightarrow> database \<Rightarrow> file_info list outcome" where
  "ListAllFiles fuel sha userID d = walkDir fuel sha userID None ''/'' d"

text \<open>Following parent ids upwards: \<^verbatim>\<open>GetFolderPath\<close> and \<^verbatim>\<open>GetBreadcrumbs\<close>.\<close>

fun climb :: "nat \<Rightarrow> string option \<Rightarrow> database \<Rightarrow> (string \<times> string) list \<Rightarrow> (string \<times> string) list outcome" where
  "climb 0 currentID d parts = Diverges"
| "climb (Suc fuel) currentID d parts =
     (case currentID of
        None \<Rightarrow> Returns parts
      | Some i \<Rightarrow>
          if i = [] then Returns parts
          else (case GetFileByID i d of
                  Inl _ \<Rightarrow> Returns parts
                | Inr p \<Rightarrow> climb fuel (f_parent p) d ((f_id p, f_name p) # parts)))"

definition GetFolderPath :: "nat \<Rightarrow> string \<Rightarrow> database \<Rightarrow> (vfs_error + string) outcome" where
  "GetFolderPath fuel folderID d =
     (if folderID = [] then Returns (Inr ''/'')
      else case GetFileByID folderID d of
        Inl _ \<Rightarrow> Returns (Inl ErrNotFound)
      | Inr folder \<Rightarrow>
          if f_type folder \<noteq> ''folder'' then Returns (Inl ErrIsFile)
          else obind (climb fuel (f_parent folder) d [(f_id folder, f_name folder)])
                 (\<lambda>parts. Returns (Inr (''/'' @ joinPath (map snd parts)))))"

definition GetBreadcrumbs :: "nat \<Rightarrow> string \<Rightarrow> database \<Rightarrow> (string \<times> string) list outcome" where
  "GetBreadcrumbs fuel folderID d =
     obind (climb fuel (Some folderID) d []) (\<lambda>crumbs. Returns (([], ''root'') # crumbs))"

text \<open>Copying.  The state is the number of ids drawn so far and the database; an error leaves what
  was copied before it in place.\<close>

definition copy_row :: "string \<Rightarrow> int \<Rightarrow> string \<Rightarrow> string option \<Rightarrow> string \<Rightarrow> int \<Rightarrow> file_row \<Rightarrow> file_row" where
  "copy_row i now userID p nm ver src = \<lparr>f_id = i, f_user = userID, f_parent = p, f_name = nm, f_name_encrypted = [],
     f_type = f_type src, f_size = f_size src, f_mime = f_mime src, f_manifest = f_manifest src,
     f_checksum = f_checksum src, f_encrypted = f_encrypted src, f_key = f_key src,
     f_trashed = False, f_trashed_at = None, f_version = ver, f_created = now, f_updated = now\<rparr>"

type_synonym copy_state = "nat \<times> database"

fun copyFolderContents :: "nat \<Rightarrow> (nat \<Rightarrow> string) \<Rightarrow> (nat \<Rightarrow> int) \<Rightarrow> string \<Rightarrow> string \<Rightarrow> string \<Rightarrow> copy_state
      \<Rightarrow> (vfs_error option \<times> copy_state) outcome"
  and copy_items :: "nat \<Rightarrow> (nat \<Rightarrow> string) \<Rightarrow> (nat \<Rightarrow> int) \<Rightarrow> string \<Rightarrow> string \<Rightarrow> file_row list \<Rightarrow> copy_state
      \<Rightarrow> (vfs_error option \<times> copy_state) outcome" where
  "copyFolderContents 0 gen clk userID src dst st = Diverges"
| "copyFolderContents (Suc fuel) gen clk userID src dst (k, d) =
     copy_items fuel gen clk userID dst (ListDirectory userID (Some src) 1000 0 d) (k, d)"
| "copy_items fuel gen clk userID dst [] st = Returns (None, st)"
| "copy_items fuel gen clk userID dst (item # items) (k, d) =
     (let i = generateID (f_type item) (gen k)
      in case Store.CreateFile (copy_row i (clk k) userID (Some dst) (f_name item) (f_version item) item) d of
           Inl e \<Rightarrow> Returns (Some (Wrapped e), (Suc k, d))
         | Inr d' \<Rightarrow>
             if f_type item = ''folder''
             then obind (copyFolderContents fuel gen clk userID (f_id item) i (Suc k, d')) (\<lambda>(err, st').
                    if err \<noteq> None then Returns (err, st') else copy_items fuel gen clk userID dst items st')
             else copy_items fuel gen clk userID dst items (Suc k, d'))"

definition Copy :: "nat \<Rightarrow> (nat \<Rightarrow> string) \<Rightarrow> (nat \<Rightarrow> int) \<Rightarrow> string \<Rightarrow> string \<Rightarrow> string \<Rightarrow> string \<Rightarrow> copy_state
    \<Rightarrow> (vfs_error option \<times> copy_state) outcome" where
  "Copy fuel gen clk userID fileID newParentID newName = (\<lambda>(k, d).
     (case GetFileByID fileID d of
        Inl _ \<Rightarrow> Returns (Some ErrNotFound, (k, d))
      | Inr source \<Rightarrow>
          if f_user source \<noteq> userID then Returns (Some ErrPermissionDenied, (k, d))
          else (let nm = (if newName = [] then f_name source else newName)
                in if \<not> isValidName nm then Returns (Some ErrInvalidName, (k, d))
                   else case GetFileByPath userID (Some newParentID) nm d of
                     Inr _ \<Rightarrow> Returns (Some ErrAlreadyExists, (k, d))
                   | Inl _ \<Rightarrow>
                       (let i = generateID (f_type source) (gen k)
                        in case Store.CreateFile (copy_row i (clk k) userID (opt_parent newParentID) nm 1 source) d of
                             Inl e \<Rightarrow> Returns (Some (Wrapped e), (Suc k, d))
                           | Inr d' \<Rightarrow>
                               if f_type source = ''folder''
                               then copyFolderContents fuel gen clk userID fileID i (Suc k, d')
                               else Returns (None, (Suc k, d'))))))"

section \<open>trash.go\<close>

definition trash_List :: "string \<Rightarrow> int \<Rightarrow> int \<Rightarrow> database \<Rightarrow> file_row list" where
  "trash_List userID limit offset d = ListTrash userID limit offset d"

definition delete_quietly :: "string \<Rightarrow> database \<Rightarrow> database" where
  "delete_quietly i d = (case DeletePermanent i d of Inl _ \<Rightarrow> d | Inr d' \<Rightarrow> d')"

definition Empty :: "string \<Rightarrow> database \<Rightarrow> database" where
  "Empty userID d = fold (\<lambda>f. delete_quietly (f_id f)) (ListTrash userID 0 0 d) d"

text \<open>\<^verbatim>\<open>time.Duration(retentionDays) * 24 * time.Hour\<close> is computed in 64 bits.\<close>

definition CleanupExpired :: "int \<Rightarrow> int \<Rightarrow> database \<Rightarrow> database" where
  "CleanupExpired now retentionDays d =
     (let cutoff = rfc3339 (now + wrap64 (wrap64 (- retentionDays * 24) * (3600 * 10 ^ 9)));
          ids = map f_id (filter (\<lambda>f. f_trashed f \<and> (case f_trashed_at f of None \<Rightarrow> False | Some t \<Rightarrow> t < cutoff)) (files d))
      in fold delete_quietly ids d)"

section \<open>versioning.go\<close>

record file_version =
  fv_id :: string
  fv_file :: string
  fv_version :: int
  fv_size :: int
  fv_created :: int
  fv_by :: string
  fv_comment :: string

definition generateVersionID :: "string \<Rightarrow> int \<Rightarrow> string" where
  "generateVersionID fileID v = fileID @ ''_v'' @ dec_int v"

definition CreateVersion :: "int \<Rightarrow> string \<Rightarrow> string \<Rightarrow> int \<Rightarrow> string \<Rightarrow> database \<Rightarrow> vfs_error + file_version \<times> database" where
  "CreateVersion now fileID userID sz comment d =
     (case GetFileByID fileID d of
        Inl _ \<Rightarrow> Inl ErrNotFound
      | Inr f \<Rightarrow>
          (let v = f_version f + 1
           in case UpdateFile now fileID [UVersion v, UInvalid ''updated_at''] d of
                Inl e \<Rightarrow> Inl (Wrapped e)
              | Inr d' \<Rightarrow> Inr (\<lparr>fv_id = generateVersionID fileID v, fv_file = fileID, fv_version = v, fv_size = sz,
                  fv_created = now, fv_by = userID, fv_comment = comment\<rparr>, d')))"

definition GetCurrentVersion :: "string \<Rightarrow> database \<Rightarrow> vfs_error + int" where
  "GetCurrentVersion fileID d = (case GetFileByID fileID d of Inl _ \<Rightarrow> Inl ErrNotFound | Inr f \<Rightarrow> Inr (f_version f))"

definition IncrementVersion :: "int \<Rightarrow> string \<Rightarrow> database \<Rightarrow> vfs_error + int \<times> database" where
  "IncrementVersion now fileID d =
     (case GetFileByID fileID d of
        Inl _ \<Rightarrow> Inl ErrNotFound
      | Inr f \<Rightarrow>
          (let v = f_version f + 1
           in case UpdateFile now fileID [UVersion v] d of Inl e \<Rightarrow> Inl (Wrapped e) | Inr d' \<Rightarrow> Inr (v, d')))"

definition ResetVersion :: "int \<Rightarrow> string \<Rightarrow> database \<Rightarrow> database result" where
  "ResetVersion now fileID d = UpdateFile now fileID [UVersion 1] d"


section \<open>The walk ends\<close>

text \<open>
  The folders a walk is inside of, innermost first: distinct rows, each the parent of the one
  before it, the outermost at the root.
\<close>

fun open_folders :: "database \<Rightarrow> string list \<Rightarrow> bool" where
  "open_folders d [] = True"
| "open_folders d [i] = (\<exists>f \<in> set (files d). f_id f = i \<and> f_parent f = None)"
| "open_folders d (i # j # is) = ((\<exists>f \<in> set (files d). f_id f = i \<and> f_parent f = Some j) \<and> open_folders d (j # is))"

lemma open_folders_nth:
  assumes "open_folders d is" and "k < length is"
  shows "\<exists>f \<in> set (files d). f_id f = is ! k \<and> f_parent f = (if Suc k < length is then Some (is ! Suc k) else None)"
  using assms
proof (induction d "is" arbitrary: k rule: open_folders.induct)
  case (3 d i j js)
  show ?case
  proof (cases k)
    case 0
    with 3 show ?thesis by auto
  next
    case (Suc m)
    with 3(1) [of m] 3(2,3) show ?thesis by (cases "m < length js") simp_all
  qed
qed auto

lemma unique_row: "files_ok fs \<Longrightarrow> f \<in> set fs \<Longrightarrow> g \<in> set fs \<Longrightarrow> f_id f = f_id g \<Longrightarrow> f = g"
  by (auto simp: files_ok_def distinct_map inj_on_def)

lemma open_folders_fresh:
  assumes "files_ok (files d)" and "open_folders d is" and "distinct is" and "e \<in> set (files d)"
    and "f_parent e = (case is of [] \<Rightarrow> None | i # _ \<Rightarrow> Some i)" and "is \<noteq> []"
  shows "f_id e \<notin> set is"
proof
  assume "f_id e \<in> set is"
  then obtain k where k: "k < length is" "is ! k = f_id e" by (auto simp: in_set_conv_nth)
  from open_folders_nth [OF assms(2) k(1)] obtain f where
    f: "f \<in> set (files d)" "f_id f = f_id e" "f_parent f = (if Suc k < length is then Some (is ! Suc k) else None)"
    using k(2) by auto
  from unique_row [OF assms(1) f(1) assms(4) f(2)] f(3) assms(5,6)
  have "Suc k < length is \<and> is ! Suc k = is ! 0" by (cases "is") (auto split: if_splits)
  with assms(3) show False by (metis Zero_not_Suc length_greater_0_conv nth_eq_iff_index_eq assms(6))
qed

lemma open_folders_bound:
  assumes "open_folders d is" and "distinct is"
  shows "length is \<le> length (files d)"
proof -
  have "set is \<subseteq> f_id ` set (files d)"
  proof
    fix i assume "i \<in> set is"
    then obtain k where "k < length is" "i = is ! k" by (auto simp: in_set_conv_nth)
    with open_folders_nth [OF assms(1), of k] show "i \<in> f_id ` set (files d)" by force
  qed
  then have "card (set is) \<le> card (f_id ` set (files d))" by (intro card_mono) auto
  also have "\<dots> \<le> length (files d)" by (meson card_image_le card_length finite_set le_trans)
  finally show ?thesis using assms(2) by (simp add: distinct_card)
qed

definition listed_ok :: "string \<Rightarrow> database \<Rightarrow> file_info \<Rightarrow> bool" where
  "listed_ok u d fi \<longleftrightarrow> has_prefix (fi_path fi) ''/''
     \<and> (\<exists>e \<in> set (files d). f_user e = u \<and> \<not> f_trashed e \<and> fi_is_file fi = (f_type e \<noteq> ''folder''))"

lemma entry_info_path [simp]: "fi_path (entry_info sha path e) = path"
  by (simp add: entry_info_def)

lemma entry_info_kind [simp]: "fi_is_file (entry_info sha path e) = (f_type e \<noteq> ''folder'')"
  by (simp add: entry_info_def)

lemma has_prefix_slash_append: "has_prefix p ''/'' \<Longrightarrow> has_prefix (p @ q) ''/''"
  by (cases p) auto

lemma walkDir_returns:
  assumes "files_ok (files d)" and "open_folders d is" and "distinct is" and "\<forall>f \<in> set (files d). f_id f \<noteq> []"
    and "length (files d) < n + length is" and "has_prefix prefix ''/''"
  shows "\<exists>r. walkDir n sha u (case is of [] \<Rightarrow> None | i # _ \<Rightarrow> Some i) prefix d = Returns r
    \<and> (\<forall>fi \<in> set r. listed_ok u d fi)"
  using assms
proof (induction n arbitrary: "is" prefix)
  case 0
  then show ?case using open_folders_bound [of d "is"] by simp
next
  case (Suc n)
  let ?p = "case is of [] \<Rightarrow> None | i # _ \<Rightarrow> Some i"
  let ?es = "ListDirectory u ?p 10000 0 d"
  let ?step = "\<lambda>e. if f_type e = ''folder''
         then obind (walkDir n sha u (Some (f_id e)) (prefix @ f_name e @ ''/'') d)
                (\<lambda>rest. Returns (entry_info sha (prefix @ f_name e) e # rest))
         else Returns [entry_info sha (prefix @ f_name e) e]"
  have entry: "\<exists>r. ?step e = Returns r \<and> (\<forall>fi \<in> set r. listed_ok u d fi)" if "e \<in> set ?es" for e
  proof -
    have nonempty: "i \<noteq> []" if "i \<in> set is" for i
    proof -
      from that obtain k where "k < length is" "i = is ! k" by (auto simp: in_set_conv_nth)
      with open_folders_nth [OF Suc.prems(2), of k] Suc.prems(4) show ?thesis by force
    qed
    from set_ListDirectory [OF that] nonempty have e: "e \<in> set (files d)" "f_user e = u" "\<not> f_trashed e"
      "f_parent e = ?p" by (auto split: list.splits if_splits)
    have self: "listed_ok u d (entry_info sha (prefix @ f_name e) e)"
      using e Suc.prems(6) has_prefix_slash_append by (auto simp: listed_ok_def)
    show ?thesis
    proof (cases "f_type e = ''folder''")
      case True
      have fresh: "f_id e \<notin> set is"
        using open_folders_fresh [OF Suc.prems(1-3) e(1,4)] by (cases "is") auto
      have "open_folders d (f_id e # is)" using Suc.prems(2) e(1,4) by (cases "is") auto
      with Suc.IH [of "f_id e # is" "prefix @ f_name e @ ''/''"] fresh Suc.prems has_prefix_slash_append
      obtain r where "walkDir n sha u (Some (f_id e)) (prefix @ f_name e @ ''/'') d = Returns r"
        "\<forall>fi \<in> set r. listed_ok u d fi" by auto
      with True self show ?thesis by simp
    next
      case False
      with self show ?thesis by simp
    qed
  qed
  have "returned (omap ?step ?es)"
    unfolding returned_def [of "omap _ _"]
    using omap_returned [of ?es ?step] entry unfolding returned_def by blast
  then obtain parts where parts: "omap ?step ?es = Returns parts" by (auto simp: returned_def)
  have "\<forall>fi \<in> set (concat parts). listed_ok u d fi"
  proof
    fix fi assume "fi \<in> set (concat parts)"
    then obtain r where "r \<in> set parts" "fi \<in> set r" by auto
    then obtain k where k: "k < length parts" "fi \<in> set (parts ! k)" by (metis in_set_conv_nth)
    from parts have all: "list_all2 (\<lambda>e r. ?step e = Returns r) ?es parts" by (simp only: omap_Returns_iff)
    then have "?step (?es ! k) = Returns (parts ! k)" "k < length ?es"
      using k(1) by (simp_all only: list_all2_conv_all_nth)
    with entry [of "?es ! k"] k(2) show "listed_ok u d fi" by auto
  qed
  moreover have "walkDir (Suc n) sha u ?p prefix d = Returns (concat parts)"
    by (simp only: walkDir.simps parts obind.simps)
  ultimately show ?case by blast
qed

section \<open>Cycles\<close>

lemma climb_cycle:
  assumes "GetFileByID a d = Inr fa" and "f_parent fa = Some b" and "GetFileByID b d = Inr fb" and "f_parent fb = Some a"
    and "a \<noteq> []" and "b \<noteq> []"
  shows "climb n (Some a) d parts = Diverges \<and> climb n (Some b) d parts' = Diverges"
  using assms by (induction n arbitrary: parts parts') auto

lemma Move_row:
  assumes "Move now a b nm d = Inr d'" and "files_ok (files d)"
  shows "\<exists>f. GetFileByID a d = Inr f \<and> GetFileByID a d' = Inr (f\<lparr>f_parent := opt_parent b,
      f_name := if nm = [] then f_name f else nm, f_updated := rfc3339 now\<rparr>)
    \<and> (\<forall>i. i \<noteq> a \<longrightarrow> GetFileByID i d' = GetFileByID i d)"
proof -
  obtain nm' where mv: "MoveFile now a b nm' d = Inr d'"
    and nm': "\<And>f. GetFileByID a d = Inr f \<Longrightarrow> nm' = (if nm = [] then f_name f else nm)"
    using assms(1) by (auto simp: Move_def wrap_db_def split: if_split_asm sum.splits)
  let ?h = "\<lambda>f. f\<lparr>f_parent := if b = [] then None else Some b, f_name := nm', f_updated := rfc3339 now\<rparr>"
  from MoveFile_Inr [OF mv] have has: "has_file a d" and d': "d' = d\<lparr>files := update_row a ?h (files d)\<rparr>" by auto
  from has obtain f where f: "GetFileByID a d = Inr f"
    using GetFileByID_iff [OF assms(2), of a] by (auto simp: has_file_def)
  have "GetFileByID j d' = (if j = a then map_sum id ?h (GetFileByID j d) else GetFileByID j d)" for j
    unfolding d' by (rule GetFileByID_update [OF assms(2)]) simp
  with f nm' [OF f] show ?thesis by (simp add: opt_parent_def)
qed

section \<open>Copying a folder into itself\<close>

text \<open>
  What one level of the endless copy starts from: the source folder has exactly one live entry,
  the folder the contents are being copied to, which is still empty; ids to come are unused.
\<close>

definition self_copy :: "(nat \<Rightarrow> string) \<Rightarrow> string \<Rightarrow> string \<Rightarrow> string \<Rightarrow> nat \<Rightarrow> database \<Rightarrow> bool" where
  "self_copy gen u src dst k d \<longleftrightarrow>
     (\<exists>y \<in> set (files d). f_id y = dst \<and> f_type y = ''folder'' \<and> f_user y = u
       \<and> filter (\<lambda>f. f_user f = u \<and> f_parent f = Some src \<and> \<not> f_trashed f) (files d) = [y])
   \<and> src \<noteq> [] \<and> dst \<noteq> []
   \<and> (\<forall>f \<in> set (files d). f_parent f \<noteq> Some dst)
   \<and> (\<forall>j \<ge> k. \<forall>f \<in> set (files d). f_id f \<noteq> generateID ''folder'' (gen j) \<and> f_parent f \<noteq> Some (generateID ''folder'' (gen j)))
   \<and> (fk_on d \<longrightarrow> (\<exists>x \<in> set (users d). u_id x = u))"

lemma self_copy_list:
  assumes "self_copy gen u src dst k d"
  shows "\<exists>y. ListDirectory u (Some src) 1000 0 d = [y] \<and> y \<in> set (files d) \<and> f_id y = dst
    \<and> f_type y = ''folder'' \<and> f_user y = u"
  using assms by (auto simp: self_copy_def ListDirectory_def limit_offset_def desc_sort_def)

lemma self_copy_step:
  assumes "self_copy gen u src dst k d" and "inj gen" and "y \<in> set (files d)" "f_id y = dst" "f_type y = ''folder''"
  shows "\<exists>d'. Store.CreateFile (copy_row (generateID ''folder'' (gen k)) now u (Some dst) (f_name y) v y) d = Inr d'
    \<and> self_copy gen u dst (generateID ''folder'' (gen k)) (Suc k) d'"
proof -
  let ?i = "generateID ''folder'' (gen k)"
  let ?z = "copy_row ?i now u (Some dst) (f_name y) v y"
  let ?z' = "?z\<lparr>f_trashed_at := None, f_created := rfc3339 (f_created ?z), f_updated := rfc3339 (f_updated ?z)\<rparr>"
  let ?d = "d\<lparr>files := files d @ [?z']\<rparr>"
  note sc = assms(1) [unfolded self_copy_def]
  have noclash: "f_id g \<noteq> ?i \<and> \<not> name_clash ?z g" if "g \<in> set (files d)" for g
    using sc that by (auto simp: name_clash_def copy_row_def)
  have "parent_ok d ?z" using assms(3,4) by (auto simp: parent_ok_def copy_row_def)
  with noclash sc have run: "Store.CreateFile ?z d = Inr ?d"
    by (auto simp: CreateFile_def copy_row_def)
  define z where "z = ?z'"
  have z: "f_id z = ?i" "f_type z = ''folder''" "f_user z = u" "f_parent z = Some dst" "\<not> f_trashed z"
    using assms(5) by (simp_all add: z_def copy_row_def)
  have none: "filter (\<lambda>f. f_user f = u \<and> f_parent f = Some dst \<and> \<not> f_trashed f) (files d) = []"
    using sc by (auto simp: filter_empty_conv)
  have inj: "generateID ''folder'' (gen j) \<noteq> ?i" if "Suc k \<le> j" for j
    using that injD [OF assms(2), of j k] by (auto simp: generateID_def)
  have dst: "dst \<noteq> generateID ''folder'' (gen j)" if "k \<le> j" for j
    using sc assms(3,4) that by auto
  have fresh: "f_id f \<noteq> generateID ''folder'' (gen j) \<and> f_parent f \<noteq> Some (generateID ''folder'' (gen j))"
    if "k \<le> j" "f \<in> set (files d)" for j f using sc that by blast
  have "\<exists>y \<in> set (files d @ [z]). f_id y = ?i \<and> f_type y = ''folder'' \<and> f_user y = u
       \<and> filter (\<lambda>f. f_user f = u \<and> f_parent f = Some dst \<and> \<not> f_trashed f) (files d @ [z]) = [y]"
    using z none by simp
  moreover have "\<forall>f \<in> set (files d @ [z]). f_parent f \<noteq> Some ?i" using fresh [of k] z(4) dst [of k] by auto
  moreover have "\<forall>j \<ge> Suc k. \<forall>f \<in> set (files d @ [z]). f_id f \<noteq> generateID ''folder'' (gen j)
      \<and> f_parent f \<noteq> Some (generateID ''folder'' (gen j))"
    using fresh z(1,4) inj dst by (auto simp: eq_commute [of ?i])
  moreover have "?i \<noteq> []" by (simp add: generateID_def)
  ultimately have "self_copy gen u dst ?i (Suc k) (d\<lparr>files := files d @ [z]\<rparr>)"
    using sc z by (simp add: self_copy_def)
  with run show ?thesis unfolding z_def by blast
qed

lemma self_copy_diverges:
  "self_copy gen u src dst k d \<Longrightarrow> inj gen \<Longrightarrow> copyFolderContents n gen clk u src dst (k, d) = Diverges"
proof (induction n arbitrary: src dst k d)
  case 0
  then show ?case by simp
next
  case (Suc n)
  from self_copy_list [OF Suc.prems(1)] obtain y where
    y: "ListDirectory u (Some src) 1000 0 d = [y]" "y \<in> set (files d)" "f_id y = dst" "f_type y = ''folder''" by blast
  from self_copy_step [OF Suc.prems y(2-4)] obtain d' where
    "Store.CreateFile (copy_row (generateID ''folder'' (gen k)) (clk k) u (Some dst) (f_name y) (f_version y) y) d = Inr d'"
    "self_copy gen u dst (generateID ''folder'' (gen k)) (Suc k) d'" by blast
  with Suc.IH [OF _ Suc.prems(2)] y show ?case by simp
qed

section \<open>Emptying the trash\<close>

lemma delete_quietly_off:
  "\<not> fk_on d \<Longrightarrow> delete_quietly i d = d\<lparr>files := filter (\<lambda>f. f_id f \<noteq> i) (files d)\<rparr>"
  by (auto simp: delete_quietly_def DeletePermanent_def wrap_db_def PermanentDelete_def delete_files_def has_file_def
      filter_id_conv)

lemma delete_all_off:
  "\<not> fk_on d \<Longrightarrow> fold delete_quietly ids d = d\<lparr>files := filter (\<lambda>f. f_id f \<notin> set ids) (files d)\<rparr>"
  by (induction ids arbitrary: d) (auto simp: delete_quietly_off intro!: arg_cong [where f = "\<lambda>x. _ x"] filter_cong)

lemma length_filter_ids:
  assumes "distinct (map k xs)" and "set ys \<subseteq> set xs" and "distinct ys"
  shows "length (filter (\<lambda>x. k x \<notin> k ` set ys) xs) + length ys = length xs"
proof -
  have "k x \<in> k ` set ys \<longleftrightarrow> x \<in> set ys" if "x \<in> set xs" for x
    using assms(1,2) that by (auto simp: distinct_map inj_on_def)
  then have "filter (\<lambda>x. k x \<in> k ` set ys) xs = filter (\<lambda>x. x \<in> set ys) xs" by (intro filter_cong) auto
  moreover have "length (filter (\<lambda>x. x \<in> set ys) xs) = card (set xs \<inter> set ys)"
    using assms(1) by (simp add: distinct_map distinct_length_filter Int_commute)
  moreover have "card (set xs \<inter> set ys) = length ys"
    using assms(2,3) by (simp add: Int_absorb1 Int_commute distinct_card)
  ultimately show ?thesis using sum_length_filter_compl [of "\<lambda>x. k x \<in> k ` set ys" xs] by simp
qed

lemma Empty_off:
  assumes "files_ok (files d)" and "\<not> fk_on d"
  shows "CountTrash u (Empty u d) + min 100 (CountTrash u d) = CountTrash u d"
proof -
  let ?T = "filter (\<lambda>f. f_user f = u \<and> f_trashed f) (files d)"
  let ?L = "ListTrash u 0 0 d"
  have L: "?L = take 100 (desc_sort f_trashed_at ?T)" by (simp add: ListTrash_def limit_offset_def)
  have dT: "distinct (map f_id ?T)" using assms(1) by (simp add: files_ok_def distinct_map_filter)
  then have "distinct ?T" by (simp add: distinct_map)
  then have "distinct ?L" unfolding L by (intro distinct_take) (simp add: desc_sort_def)
  moreover have "set ?L \<subseteq> set ?T" unfolding L using set_take_subset [of 100] by (fastforce simp: desc_sort_def)
  ultimately have "length (filter (\<lambda>f. f_id f \<notin> f_id ` set ?L) ?T) + length ?L = length ?T"
    using length_filter_ids [OF dT] by blast
  moreover have "length ?L = min 100 (length ?T)" unfolding L by (simp add: desc_sort_def min.commute)
  moreover have "files (Empty u d) = filter (\<lambda>f. f_id f \<notin> f_id ` set ?L) (files d)"
    using delete_all_off [OF assms(2), of "map f_id ?L"] by (simp add: Empty_def fold_map comp_def)
  ultimately show ?thesis by (simp add: CountTrash_def conj_commute)
qed

section \<open>Names\<close>

definition names_valid :: "database \<Rightarrow> bool" where
  "names_valid d \<longleftrightarrow> (\<forall>f \<in> set (files d). isValidName (f_name f))"

lemma names_valid_create: "Store.CreateFile f d = Inr d' \<Longrightarrow> isValidName (f_name f) \<Longrightarrow> names_valid d \<Longrightarrow> names_valid d'"
  using CreateFile_Inr [of f d d'] by (auto simp: names_valid_def)

lemma names_valid_update:
  assumes "names_valid d" and "\<And>f. f \<in> set (files d) \<Longrightarrow> f_id f = i \<Longrightarrow> isValidName (f_name (h f))"
  shows "names_valid (d\<lparr>files := update_row i h (files d)\<rparr>)"
  using assms by (auto simp: names_valid_def update_row_def)

lemma names_valid_Move: "Move now i p nm d = Inr d' \<Longrightarrow> names_valid d \<Longrightarrow> names_valid d'"
proof -
  assume mv: "Move now i p nm d = Inr d'" and v: "names_valid d"
  then obtain nm' where m: "MoveFile now i p nm' d = Inr d'" "isValidName nm'"
    using GetFileByID_def find_row_Some
    by (fastforce simp: Move_def wrap_db_def names_valid_def GetFileByID_def split: if_split_asm sum.splits option.splits)
  from MoveFile_Inr [OF m(1)] names_valid_update [OF v] m(2) show ?thesis by auto
qed

lemma names_valid_Rename: "Rename now i nm d = Inr d' \<Longrightarrow> names_valid d \<Longrightarrow> names_valid d'"
proof -
  assume r: "Rename now i nm d = Inr d'" and v: "names_valid d"
  then have u: "UpdateFile now i [UName nm] d = Inr d'" "isValidName nm"
    by (auto simp: Rename_def wrap_db_def split: if_split_asm sum.splits)
  from UpdateFile_Inr [OF u(1)] names_valid_update [OF v] u(2) show ?thesis by auto
qed

lemma names_valid_copy_items:
  "(\<forall>st'. copyFolderContents n gen clk u src dst (k, d) = Returns (err, st') \<longrightarrow> names_valid d \<longrightarrow> names_valid (snd st'))"
  "(\<forall>it \<in> set items. isValidName (f_name it)) \<Longrightarrow>
   (\<forall>st'. copy_items n gen clk u dst items (k, d) = Returns (err, st') \<longrightarrow> names_valid d \<longrightarrow> names_valid (snd st'))"
proof (induction n gen clk u src dst "(k, d)" and n gen clk u dst items "(k, d)"
    arbitrary: k d err and k d err rule: copyFolderContents_copy_items.induct)
  case (2 fuel gen clk userID src dst k d)
  have "isValidName (f_name it)" if "names_valid d" "it \<in> set (ListDirectory userID (Some src) 1000 0 d)" for it
    using set_ListDirectory [OF that(2)] that(1) by (auto simp: names_valid_def)
  with 2 show ?case by fastforce
next
  case (4 fuel gen clk userID dst item items k d)
  let ?i = "generateID (f_type item) (gen k)"
  let ?row = "copy_row ?i (clk k) userID (Some dst) (f_name item) (f_version item) item"
  have nm: "f_name ?row = f_name item" by (simp add: copy_row_def)
  show ?case
  proof (cases "Store.CreateFile ?row d")
    case (Inl e)
    then show ?thesis by (auto simp: Let_def)
  next
    case (Inr d')
    have v: "names_valid d \<Longrightarrow> names_valid d'" using names_valid_create [OF Inr] nm 4(4) by simp
    show ?thesis
    proof (cases "f_type item = ''folder''")
      case False
      with 4(3) [OF refl Inr False] 4(4) Inr v show ?thesis by (auto simp: Let_def)
    next
      case True
      show ?thesis
      proof (intro allI impI)
        fix st' assume run: "copy_items fuel gen clk userID dst (item # items) (k, d) = Returns (err, st')" and vd: "names_valid d"
        then obtain e1 k1 d1 where sub: "copyFolderContents fuel gen clk userID (f_id item) ?i (Suc k, d') = Returns (e1, (k1, d1))"
          and rest: "if e1 \<noteq> None then (err, st') = (e1, (k1, d1)) else copy_items fuel gen clk userID dst items (k1, d1) = Returns (err, st')"
          using Inr True by (auto simp: Let_def obind_Returns_iff split: if_split_asm)
        have "names_valid d1" using 4(1) [OF refl Inr True] sub v [OF vd] by fastforce
        then show "names_valid (snd st')"
          using rest 4(2) [OF refl Inr True] 4(4) by (cases e1; cases st') auto
      qed
    qed
  qed
qed auto

section \<open>Properties\<close>

text \<open>Listing all files of a user returns, also when parent ids form cycles: one unit of fuel
  more than there are rows is enough.  Every entry listed stands for a live row of that user
  and its path is absolute.\<close>

theorem list_all_files_returns:
  assumes "db_ok d" and "\<forall>f \<in> set (files d). f_id f \<noteq> []"
  shows "\<exists>r. ListAllFiles (Suc (length (files d))) sha u d = Returns r
    \<and> (\<forall>fi \<in> set r. absolute fi \<and> (\<exists>e \<in> set (files d). f_user e = u \<and> \<not> f_trashed e
         \<and> fi_is_file fi = (f_type e \<noteq> ''folder'')))"
proof -
  from walkDir_returns [OF db_okD(1) [OF assms(1)], of "[]" "Suc (length (files d))" "''/''" sha u] assms(2)
  obtain r where "walkDir (Suc (length (files d))) sha u None ''/'' d = Returns r" "\<forall>fi \<in> set r. listed_ok u d fi"
    by auto
  then show ?thesis by (auto simp: ListAllFiles_def listed_ok_def absolute_def simp del: walkDir.simps)
qed

theorem list_all_files_returns_witness:
  "\<exists>r. ListAllFiles 2 (\<lambda>s. s) ''u'' (empty_db\<lparr>files := [sample_file ''f'' None ''a'']\<rparr>) = Returns r
    \<and> (\<forall>fi \<in> set r. absolute fi)"
  using list_all_files_returns [of "empty_db\<lparr>files := [sample_file ''f'' None ''a'']\<rparr>" "\<lambda>s. s" "''u''"]
  by (auto simp: db_ok_def files_ok_def names_unique_def manifests_ok_def chunks_ok_def empty_db_def numeral_2_eq_2
      simp del: walkDir.simps)

text \<open>Moving a folder below its own child succeeds, since nothing checks it, and makes a cycle:
  from then on the breadcrumbs of both folders are computed for ever.\<close>

theorem move_into_child_hangs:
  assumes "db_ok d" and "a \<noteq> []" and "b \<noteq> []" and "a \<noteq> b"
    and "GetFileByID b d = Inr fb" and "f_parent fb = Some a" and "Move now a b nm d = Inr d'"
  shows "GetBreadcrumbs n a d' = Diverges \<and> GetBreadcrumbs n b d' = Diverges"
proof -
  from Move_row [OF assms(7) db_okD(1) [OF assms(1)]] obtain fa where
    "GetFileByID a d' = Inr fa" "f_parent fa = Some b" "GetFileByID b d' = GetFileByID b d"
    using assms(3,4) by (auto simp: opt_parent_def)
  with assms climb_cycle [of a d' fa b fb n "[]" "[]"] show ?thesis by (simp add: GetBreadcrumbs_def)
qed

theorem move_into_child_hangs_witness:
  "\<exists>d'. Move 0 ''a'' ''b'' [] (empty_db\<lparr>files := [sample_file ''a'' None ''x'', sample_file ''b'' (Some ''a'') ''y'']\<rparr>) = Inr d'
    \<and> GetBreadcrumbs 1000 ''a'' d' = Diverges"
proof -
  let ?d = "empty_db\<lparr>files := [sample_file ''a'' None ''x'', sample_file ''b'' (Some ''a'') ''y'']\<rparr>"
  have ok: "db_ok ?d"
    by (simp add: db_ok_def files_ok_def names_unique_def manifests_ok_def chunks_ok_def empty_db_def)
      (simp add: name_clash_def sample_file_def)
  obtain d' where mv: "Move 0 ''a'' ''b'' [] ?d = Inr d'"
    by (simp add: Move_def GetFileByID_def wrap_db_def MoveFile_def update_clash_def name_clash_def has_file_def
        sample_file_def Let_def)
  have b: "GetFileByID ''b'' ?d = Inr (sample_file ''b'' (Some ''a'') ''y'')" by (simp add: GetFileByID_def)
  have p: "f_parent (sample_file ''b'' (Some ''a'') ''y'') = Some ''a''" by (simp add: sample_file_def)
  from move_into_child_hangs [OF ok _ _ _ b p mv, of 1000] mv show ?thesis by simp
qed

text \<open>Copying an empty folder into itself never returns: the copy is listed as content of the
  folder, so it is copied into itself in turn, without end.\<close>

theorem copy_into_itself_never_returns:
  assumes "GetFileByID a d = Inr f" and "f_type f = ''folder''" and "f_user f = u" and "isValidName (f_name f)" and "a \<noteq> []"
    and "\<forall>g \<in> set (files d). f_parent g \<noteq> Some a" and "inj gen"
    and "\<forall>j \<ge> k. \<forall>g \<in> set (files d). f_id g \<noteq> generateID ''folder'' (gen j) \<and> f_parent g \<noteq> Some (generateID ''folder'' (gen j))"
    and "fk_on d \<longrightarrow> (\<exists>x \<in> set (users d). u_id x = u)"
  shows "Copy n gen clk u a a [] (k, d) = Diverges"
proof -
  let ?i = "generateID ''folder'' (gen k)"
  let ?row = "copy_row ?i (clk k) u (Some a) (f_name f) 1 f"
  have f: "f \<in> set (files d)" "f_id f = a"
    using assms(1) find_row_Some by (fastforce simp: GetFileByID_def split: option.splits)+
  have path: "\<exists>e. GetFileByPath u (Some a) (f_name f) d = Inl e"
    using GetFileByPath_Inr [of u "Some a" "f_name f" d] assms(5,6) by (cases "GetFileByPath u (Some a) (f_name f) d") auto
  define z where "z = ?row\<lparr>f_trashed_at := None, f_created := rfc3339 (f_created ?row), f_updated := rfc3339 (f_updated ?row)\<rparr>"
  have z: "f_id z = ?i" "f_type z = ''folder''" "f_user z = u" "f_parent z = Some a" "\<not> f_trashed z"
    using assms(2) by (simp_all add: z_def copy_row_def)
  have run: "Store.CreateFile ?row d = Inr (d\<lparr>files := files d @ [z]\<rparr>)"
    using assms(6,8,9) f by (auto simp: CreateFile_def name_clash_def parent_ok_def copy_row_def z_def)
  have "?i \<noteq> generateID ''folder'' (gen j)" if "Suc k \<le> j" for j
    using that injD [OF assms(7), of j k] by (auto simp: generateID_def)
  moreover have "a \<noteq> generateID ''folder'' (gen j)" if "k \<le> j" for j using assms(8) f that by auto
  moreover have "filter (\<lambda>g. f_user g = u \<and> f_parent g = Some a \<and> \<not> f_trashed g) (files d) = []"
    using assms(6) by (auto simp: filter_empty_conv)
  ultimately have "self_copy gen u a ?i (Suc k) (d\<lparr>files := files d @ [z]\<rparr>)"
    using assms(5,8,9) z by (simp add: self_copy_def) (auto simp: generateID_def)
  from self_copy_diverges [OF this assms(7)] run path assms(1-5) show ?thesis
    by (auto simp: Copy_def Let_def opt_parent_def)
qed

theorem copy_into_itself_never_returns_witness:
  "Copy 1000 (\<lambda>n. replicate n CHR ''x'') (\<lambda>_. 0) ''u'' ''a'' ''a'' []
     (0, empty_db\<lparr>fk_on := False, files := [(sample_file ''a'' None ''d'')\<lparr>f_type := ''folder''\<rparr>]\<rparr>) = Diverges"
proof (rule copy_into_itself_never_returns [where f = "(sample_file ''a'' None ''d'')\<lparr>f_type := ''folder''\<rparr>"])
  show "inj (\<lambda>n. replicate n CHR ''x'')" by (metis injI length_replicate)
qed (simp_all add: GetFileByID_def sample_file_def isValidName_def generateID_def)

text \<open>Emptying the trash removes at most a hundred entries: asking the listing for zero entries
  to get all of them gives the first hundred.  (On a connection without cascades, where nothing
  else is removed, exactly that many.)\<close>

theorem empty_trash_removes_at_most_100:
  assumes "db_ok d" and "\<not> fk_on d"
  shows "CountTrash u (Empty u d) + min 100 (CountTrash u d) = CountTrash u d"
  using Empty_off [OF db_okD(1) [OF assms(1)] assms(2)] .

theorem empty_trash_removes_at_most_100_witness:
  "CountTrash ''u'' (Empty ''u'' (empty_db\<lparr>fk_on := False, files := [(sample_file ''a'' None ''x'')\<lparr>f_trashed := True\<rparr>]\<rparr>)) = 0"
proof -
  let ?d = "empty_db\<lparr>fk_on := False, files := [(sample_file ''a'' None ''x'')\<lparr>f_trashed := True\<rparr>]\<rparr>"
  have "db_ok ?d" by (simp add: db_ok_def files_ok_def names_unique_def manifests_ok_def chunks_ok_def empty_db_def)
  from empty_trash_removes_at_most_100 [OF this, of "''u''"] show ?thesis by (simp add: CountTrash_def sample_file_def)
qed

text \<open>Every name that the virtual file system gives to a row is a valid single path component,
  and creating, renaming, moving and copying keep that for all rows.\<close>

theorem vfs_keeps_names_valid:
  assumes "names_valid d"
  shows "(CreateFolder r now u p nm d = Inr (f, d') \<longrightarrow> names_valid d' \<and> isValidName (f_name f))
    \<and> (vfs_CreateFile r now u p nm mime sz d = Inr (f, d') \<longrightarrow> names_valid d' \<and> isValidName (f_name f))
    \<and> (Rename now i nm d = Inr d' \<longrightarrow> names_valid d')
    \<and> (Move now i p nm d = Inr d' \<longrightarrow> names_valid d')
    \<and> (Copy n gen clk u i p nm (k, d) = Returns (err, (k', d')) \<longrightarrow> names_valid d')"
proof (intro conjI impI)
  assume "CreateFolder r now u p nm d = Inr (f, d')"
  then have "isValidName nm" "f_name f = nm" "Store.CreateFile f d = Inr d'"
    by (auto simp: CreateFolder_def blank_file_def Let_def split: if_split_asm sum.splits)
  with names_valid_create assms show "names_valid d'" "isValidName (f_name f)" by auto
next
  assume "vfs_CreateFile r now u p nm mime sz d = Inr (f, d')"
  then have "isValidName nm" "f_name f = nm" "Store.CreateFile f d = Inr d'"
    by (auto simp: vfs_CreateFile_def blank_file_def Let_def split: if_split_asm sum.splits)
  with names_valid_create assms show "names_valid d'" "isValidName (f_name f)" by auto
next
  assume "Copy n gen clk u i p nm (k, d) = Returns (err, (k', d'))"
  then show "names_valid d'"
    using assms names_valid_create names_valid_copy_items(1) [of n gen clk u]
    by (fastforce simp: Copy_def Let_def copy_row_def split: if_split_asm sum.splits)
qed (use assms names_valid_Rename names_valid_Move in auto)

theorem vfs_keeps_names_valid_witness:
  "\<exists>f d'. CreateFolder ''r'' 0 ''u'' [] ''docs'' (empty_db\<lparr>fk_on := False\<rparr>) = Inr (f, d') \<and> names_valid d'"
proof -
  have v: "names_valid (empty_db\<lparr>fk_on := False\<rparr>)" by (simp add: names_valid_def empty_db_def)
  obtain f d' where run: "CreateFolder ''r'' 0 ''u'' [] ''docs'' (empty_db\<lparr>fk_on := False\<rparr>) = Inr (f, d')"
    by (simp add: CreateFolder_def isValidName_def GetFileByPath_def CreateFile_def empty_db_def Let_def)
  with vfs_keeps_names_valid [OF v] show ?thesis by blast
qed

text \<open>Creating a version of an existing file always fails: the update names a column that may not be
  set.\<close>

lemma create_version_fails: "\<exists>e. CreateVersion now i u sz cm d = Inl e"
  by (auto simp: CreateVersion_def UpdateFile_def Let_def split: sum.splits)

end
