(* ===== verification/Storage.thy ===== *)
theory Storage
  imports Paths
begin

text \<open>
  The storage layer (\<^verbatim>\<open>src/internal/storage/storage.go\<close>, \<^verbatim>\<open>local.go\<close>): the interface
  \<^verbatim>\<open>Backend\<close> as a record of operations, and the local file system backend.

  A directory tree is the list of its regular files with their contents; directories come and
  go with the files in them.  Every operation may meet an I/O error: the state carries the
  list of the faults still to come, each operation takes the first one, and an exhausted list
  means that nothing fails.  A theorem about every state is thus one about every pattern of faults.
\<close>

section \<open>storage.go\<close>

record 'b backend =
  be_put :: "string \<Rightarrow> byte list \<Rightarrow> 'b \<Rightarrow> string option \<times> 'b"
  be_get :: "string \<Rightarrow> 'b \<Rightarrow> (string + byte list) \<times> 'b"
  be_delete :: "string \<Rightarrow> 'b \<Rightarrow> string option \<times> 'b"
  be_exists :: "string \<Rightarrow> 'b \<Rightarrow> (string + bool) \<times> 'b"
  be_list :: "string \<Rightarrow> 'b \<Rightarrow> (string + string list) \<times> 'b"
  be_type :: string

record storage_stats =
  st_total :: int
  st_used :: int
  st_count :: int
  st_type :: string

section \<open>local.go\<close>

text \<open>
  Where an operation fails: making the directory, writing (with what the temporary file holds
  then, if it exists), renaming (and whether the temporary file could be removed after that).
  Reading, removing, probing and walking fail on every fault but \<open>NoFault\<close>.
\<close>

datatype io_fault = NoFault | DirFault | WriteFault "byte list option" | RenameFault bool

record local_fs =
  lf_files :: "(string \<times> byte list) list"
  lf_faults :: "io_fault list"

definition next_fault :: "local_fs \<Rightarrow> io_fault" where
  "next_fault s = (case lf_faults s of [] \<Rightarrow> NoFault | f # _ \<Rightarrow> f)"

definition tick :: "local_fs \<Rightarrow> local_fs" where
  "tick s = s\<lparr>lf_faults := tl (lf_faults s)\<rparr>"

text \<open>\<^verbatim>\<open>filepath.Join\<close>: the elements that are not empty, joined and cleaned.\<close>

definition filepath_Join :: "string list \<Rightarrow> string" where
  "filepath_Join es = (let ne = filter (\<lambda>e. e \<noteq> []) es in if ne = [] then [] else path_Clean (join_with ''/'' ne))"

definition NewLocalBackend :: "string \<Rightarrow> local_fs \<Rightarrow> string + string" where
  "NewLocalBackend dataDir s =
     (if dataDir = [] then Inl ''data directory is required''
      else if next_fault s \<noteq> NoFault then Inl ''failed to create data directory''
      else Inr dataDir)"

definition keyToPath :: "string \<Rightarrow> string \<Rightarrow> string" where
  "keyToPath dataDir key =
     (if length key < 2 then filepath_Join [dataDir, ''chunks'', key @ ''.chunk'']
      else filepath_Join [dataDir, ''chunks'', take 2 key, drop 2 key @ ''.chunk''])"

definition local_Put :: "string \<Rightarrow> string \<Rightarrow> byte list \<Rightarrow> local_fs \<Rightarrow> string option \<times> local_fs" where
  "local_Put dataDir key data s =
     (let path = keyToPath dataDir key;
          tempPath = path @ ''.tmp'';
          s' = tick s
      in case next_fault s of
           DirFault \<Rightarrow> (Some ''failed to create directory'', s')
         | WriteFault part \<Rightarrow> (Some ''failed to write temp file'',
             (case part of None \<Rightarrow> s' | Some w \<Rightarrow> s'\<lparr>lf_files := al_put (lf_files s) tempPath w\<rparr>))
         | RenameFault removed \<Rightarrow> (Some ''failed to rename file'',
             (let written = al_put (lf_files s) tempPath data
              in s'\<lparr>lf_files := if removed then al_del written tempPath else written\<rparr>))
         | NoFault \<Rightarrow> (None,
             s'\<lparr>lf_files := al_put (al_del (al_put (lf_files s) tempPath data) tempPath) path data\<rparr>))"

definition local_Get :: "string \<Rightarrow> string \<Rightarrow> local_fs \<Rightarrow> (string + byte list) \<times> local_fs" where
  "local_Get dataDir key s =
     ((if next_fault s \<noteq> NoFault then Inl ''failed to read file''
       else case al_get (lf_files s) (keyToPath dataDir key) of
              None \<Rightarrow> Inl ''chunk not found'' | Some data \<Rightarrow> Inr data), tick s)"

definition local_Delete :: "string \<Rightarrow> string \<Rightarrow> local_fs \<Rightarrow> string option \<times> local_fs" where
  "local_Delete dataDir key s =
     (let path = keyToPath dataDir key; s' = tick s
      in if next_fault s \<noteq> NoFault then (Some ''failed to delete file'', s')
         else case al_get (lf_files s) path of
                None \<Rightarrow> (Some ''chunk not found'', s')
              | Some _ \<Rightarrow> (None, s'\<lparr>lf_files := al_del (lf_files s) path\<rparr>))"

definition local_Exists :: "string \<Rightarrow> string \<Rightarrow> local_fs \<Rightarrow> (string + bool) \<times> local_fs" where
  "local_Exists dataDir key s =
     ((if next_fault s \<noteq> NoFault then Inl ''failed to check file''
       else Inr (al_get (lf_files s) (keyToPath dataDir key) \<noteq> None)), tick s)"

text \<open>\<^verbatim>\<open>filepath.Walk\<close> visits the files below a directory in lexical order of the components.\<close>

definition walk_files :: "string \<Rightarrow> local_fs \<Rightarrow> (string \<times> byte list) list" where
  "walk_files dir s = sort_key (\<lambda>(p, _). split_on slash p)
     (filter (\<lambda>(p, _). has_prefix p (dir @ ''/'')) (lf_files s))"

definition key_of_path :: "string \<Rightarrow> string \<Rightarrow> string" where
  "key_of_path chunksDir path =
     trim_suffix (filter (\<lambda>c. c \<noteq> slash) (trim_prefix path (chunksDir @ ''/''))) ''.chunk''"

definition local_List :: "string \<Rightarrow> string \<Rightarrow> local_fs \<Rightarrow> (string + string list) \<times> local_fs" where
  "local_List dataDir prefix s =
     (let chunksDir = filepath_Join [dataDir, ''chunks'']
      in ((if next_fault s \<noteq> NoFault then Inl ''failed to walk directory''
           else Inr (filter (\<lambda>k. has_prefix k prefix) (map (\<lambda>(p, _). key_of_path chunksDir p)
             (filter (\<lambda>(p, _). has_suffix p ''.chunk'') (walk_files chunksDir s))))), tick s))"

definition local_Stats :: "string \<Rightarrow> local_fs \<Rightarrow> (string + storage_stats) \<times> local_fs" where
  "local_Stats dataDir s =
     (let found = filter (\<lambda>(p, _). has_suffix p ''.chunk'') (walk_files (filepath_Join [dataDir, ''chunks'']) s)
      in ((if next_fault s \<noteq> NoFault then Inl ''failed to walk directory''
           else Inr \<lparr>st_total = 0, st_used = wrap64 (sum_list (map (\<lambda>(_, w). int (length w)) found)),
                     st_count = wrap64 (int (length found)), st_type = ''local''\<rparr>), tick s))"

definition local_backend :: "string \<Rightarrow> local_fs backend" where
  "local_backend dataDir = \<lparr>be_put = local_Put dataDir, be_get = local_Get dataDir, be_delete = local_Delete dataDir,
     be_exists = local_Exists dataDir, be_list = local_List dataDir, be_type = ''local''\<rparr>"

section \<open>The backend contract\<close>

text \<open>
  What the clients of a backend rely on.  \<open>blob s k\<close> is the content stored under a key.  An
  operation that reports an error has changed no content: a store and a removal are atomic.
\<close>

locale blob_store =
  fixes B :: "'b backend"
    and blob :: "'b \<Rightarrow> string \<Rightarrow> byte list option"
    and key_ok :: "string \<Rightarrow> bool"
  assumes put_law: "key_ok k \<Longrightarrow> be_put B k w s = (e, s') \<Longrightarrow> key_ok k' \<Longrightarrow>
        blob s' k' = (if e = None \<and> k' = k then Some w else blob s k')"
    and delete_law: "key_ok k \<Longrightarrow> be_delete B k s = (e, s') \<Longrightarrow> key_ok k' \<Longrightarrow>
        blob s' k' = (if e = None \<and> k' = k then None else blob s k')"
    and get_law: "be_get B k s = (r, s') \<Longrightarrow> blob s' = blob s \<and> (\<forall>w. r = Inr w \<longrightarrow> blob s k = Some w)"
    and exists_law: "be_exists B k s = (x, s') \<Longrightarrow> blob s' = blob s \<and> (\<forall>b. x = Inr b \<longrightarrow> b = (blob s k \<noteq> None))"

text \<open>Every blob under a valid key is the content the key names.\<close>

definition content_ok :: "('b \<Rightarrow> string \<Rightarrow> byte list option) \<Rightarrow> (string \<Rightarrow> bool) \<Rightarrow> (byte list \<Rightarrow> string) \<Rightarrow> 'b \<Rightarrow> bool" where
  "content_ok blob key_ok sha s \<longleftrightarrow> (\<forall>k w. key_ok k \<longrightarrow> blob s k = Some w \<longrightarrow> sha w = k)"

context blob_store
begin

lemma put_content:
  assumes "content_ok blob key_ok sha s" and "key_ok (sha w)" and "be_put B (sha w) w s = (e, s')"
  shows "content_ok blob key_ok sha s'"
  using assms put_law [OF assms(2,3)] by (auto simp: content_ok_def split: if_splits)

lemma delete_content:
  assumes "content_ok blob key_ok sha s" and "key_ok k" and "be_delete B k s = (e, s')"
  shows "content_ok blob key_ok sha s'"
  using assms delete_law [OF assms(2,3)] by (auto simp: content_ok_def split: if_splits)

lemma put_keeps: "key_ok k \<Longrightarrow> key_ok k' \<Longrightarrow> be_put B k w s = (e, s') \<Longrightarrow> blob s k' \<noteq> None \<Longrightarrow> blob s' k' \<noteq> None"
  using put_law [of k w s e s' k'] by auto

lemma put_stores: "key_ok k \<Longrightarrow> be_put B k w s = (None, s') \<Longrightarrow> blob s' k = Some w"
  using put_law [of k w s None s' k] by auto

lemma delete_others: "key_ok k \<Longrightarrow> key_ok k' \<Longrightarrow> k' \<noteq> k \<Longrightarrow> blob (snd (be_delete B k s)) k' = blob s k'"
  using delete_law [of k s _ _ k'] by (metis prod.collapse)

end

section \<open>The local backend meets the contract\<close>

text \<open>A key without slashes and dots, as a hexadecimal digest is.\<close>

definition plain_key :: "string \<Rightarrow> bool" where
  "plain_key k \<longleftrightarrow> 2 \<le> length k \<and> slash \<notin> set k \<and> CHR ''.'' \<notin> set k"

definition local_blob :: "string \<Rightarrow> local_fs \<Rightarrow> string \<Rightarrow> byte list option" where
  "local_blob dataDir s k = al_get (lf_files s) (keyToPath dataDir k)"

definition clean_base :: "string \<Rightarrow> string" where
  "clean_base dir = (let rooted = (dir \<noteq> [] \<and> hd dir = slash)
     in (if rooted then ''/'' else []) @
        join_with ''/'' ((if dir = [] then [] else clean_parts rooted dir) @ [''chunks'']))"

lemma clean_parts_plain_tail:
  assumes "\<forall>c \<in> set cs. plain c" and "cs \<noteq> []"
  shows "clean_parts r (dir @ ''/'' @ join_with ''/'' cs) = clean_parts r dir @ cs"
proof -
  have "split_on slash (join_with ''/'' cs) = cs" using assms split_join [of cs slash] by (auto simp: plain_def)
  then show ?thesis using fold_clean_append [of r dir "join_with ''/'' cs"] fold_clean_plain [OF assms(1)] by simp
qed

lemma Join_plain_tail:
  assumes "plain a" and "plain b"
  shows "filepath_Join [dir, ''chunks'', a, b] = clean_base dir @ ''/'' @ a @ ''/'' @ b"
proof -
  let ?cs = "[''chunks'', a, b]"
  have cs: "\<forall>c \<in> set ?cs. plain c" using assms by (simp add: plain_def)
  have join3: "join_with ''/'' (ps @ ?cs) = join_with ''/'' (ps @ [''chunks'']) @ ''/'' @ a @ ''/'' @ b" for ps
    using join_with_snoc [of "ps @ [''chunks'', a]" "''/''" b] join_with_snoc [of "ps @ [''chunks'']" "''/''" a] by simp
  have ne: "a \<noteq> []" "b \<noteq> []" using assms by (auto simp: plain_def)
  show ?thesis
  proof (cases "dir = []")
    case True
    have "clean_parts False (join_with ''/'' ?cs) = ?cs"
      using cs split_join [of ?cs slash] fold_clean_plain [OF cs, of False "[]"] by (auto simp: clean_parts_def plain_def)
    then show ?thesis using True ne by (simp add: filepath_Join_def path_Clean_def clean_base_def Let_def)
  next
    case False
    then have "filepath_Join [dir, ''chunks'', a, b] = path_Clean (dir @ ''/'' @ join_with ''/'' ?cs)"
      using ne by (simp add: filepath_Join_def)
    also have "\<dots> = clean_base dir @ ''/'' @ a @ ''/'' @ b"
      using False clean_parts_plain_tail [OF cs, of _ dir] join3
      by (cases "hd dir = slash") (simp_all add: path_Clean_def clean_base_def Let_def)
    finally show ?thesis .
  qed
qed

lemma keyToPath_plain:
  assumes "plain_key k"
  shows "keyToPath dir k = clean_base dir @ ''/'' @ take 2 k @ ''/'' @ drop 2 k @ ''.chunk''"
proof -
  have "take 2 k \<noteq> []" "slash \<notin> set (take 2 k)" "CHR ''.'' \<notin> set (take 2 k)" "slash \<notin> set (drop 2 k)"
    using assms by (auto simp: plain_key_def dest: in_set_takeD in_set_dropD)
  moreover from this have "plain (take 2 k)" by (auto simp: plain_def)
  moreover have "plain (drop 2 k @ ''.chunk'')" using calculation(4) by (auto simp: plain_def Cons_eq_append_conv append_eq_Cons_conv)
  ultimately show ?thesis using assms Join_plain_tail [of "take 2 k" "drop 2 k @ ''.chunk''" dir]
    by (simp add: keyToPath_def plain_key_def)
qed

lemma keyToPath_inj: "plain_key k \<Longrightarrow> plain_key k' \<Longrightarrow> keyToPath dir k = keyToPath dir k' \<longleftrightarrow> k = k'"
proof -
  assume k: "plain_key k" "plain_key k'"
  have "k = k'" if "take 2 k @ ''/'' @ drop 2 k @ ''.chunk'' = take 2 k' @ ''/'' @ drop 2 k' @ ''.chunk''"
  proof -
    have "length (take 2 k) = length (take 2 k')" using k by (simp add: plain_key_def)
    with that have "take 2 k = take 2 k'" "drop 2 k = drop 2 k'" by (simp_all add: append_eq_append_conv)
    then show ?thesis by (metis append_take_drop_id)
  qed
  then show ?thesis using k by (auto simp: keyToPath_plain)
qed

lemma temp_not_chunk: "plain_key k \<Longrightarrow> plain_key k' \<Longrightarrow> keyToPath dir k' \<noteq> keyToPath dir k @ ''.tmp''"
proof
  assume k: "plain_key k" "plain_key k'" and eq: "keyToPath dir k' = keyToPath dir k @ ''.tmp''"
  have "last (keyToPath dir k') = CHR ''k''" using k by (simp add: keyToPath_plain)
  with eq show False by simp
qed

interpretation lb: blob_store "local_backend dir" "local_blob dir" plain_key for dir
proof
  fix k w s e s' k'
  assume k: "plain_key k" "plain_key k'"
  show "be_put (local_backend dir) k w s = (e, s') \<Longrightarrow>
      local_blob dir s' k' = (if e = None \<and> k' = k then Some w else local_blob dir s k')"
    using keyToPath_inj [OF k(2,1), of dir] temp_not_chunk [OF k] temp_not_chunk [OF k(2,1)]
    by (auto simp: local_backend_def local_Put_def local_blob_def tick_def Let_def al_simps
        split: io_fault.splits option.splits)
  show "be_delete (local_backend dir) k s = (e, s') \<Longrightarrow>
      local_blob dir s' k' = (if e = None \<and> k' = k then None else local_blob dir s k')"
    using keyToPath_inj [OF k(2,1), of dir]
    by (auto simp: local_backend_def local_Delete_def local_blob_def tick_def Let_def al_simps
        split: if_splits option.splits)
next
  fix k s r s'
  show "be_get (local_backend dir) k s = (r, s') \<Longrightarrow>
      local_blob dir s' = local_blob dir s \<and> (\<forall>w. r = Inr w \<longrightarrow> local_blob dir s k = Some w)"
    by (auto simp: local_backend_def local_Get_def local_blob_def tick_def fun_eq_iff split: if_splits option.splits)
next
  fix k s x s'
  show "be_exists (local_backend dir) k s = (x, s') \<Longrightarrow>
      local_blob dir s' = local_blob dir s \<and> (\<forall>b. x = Inr b \<longrightarrow> b = (local_blob dir s k \<noteq> None))"
    by (auto simp: local_backend_def local_Exists_def local_blob_def tick_def fun_eq_iff split: if_splits option.splits)
qed

section \<open>Listing\<close>

lemma Join_chunks: "filepath_Join [dir, ''chunks''] = clean_base dir"
proof (cases "dir = []")
  case True
  then show ?thesis by (simp add: filepath_Join_def path_Clean_def clean_base_def clean_parts_def clean_step_def)
next
  case False
  have "clean_parts r (dir @ ''/'' @ ''chunks'') = clean_parts r dir @ [''chunks'']" for r
    using clean_parts_plain_tail [of "[''chunks'']" r dir] by (simp add: plain_def)
  then have c: "clean_parts r (dir @ ''/chunks'') = clean_parts r dir @ [''chunks'']" for r by simp
  have "join_with ''/'' (ps @ [''chunks'']) \<noteq> []" for ps
    using join_with_snoc [of ps "''/''" "''chunks''"] by (cases ps) simp_all
  then show ?thesis using False c by (cases "hd dir = slash") (simp_all add: filepath_Join_def path_Clean_def clean_base_def Let_def)
qed

lemma key_roundtrip:
  assumes "plain_key k"
  shows "key_of_path (clean_base dir) (keyToPath dir k) = k"
proof -
  have nosep: "slash \<notin> set (take 2 k)" "slash \<notin> set (drop 2 k)"
    using assms by (auto simp: plain_key_def dest: in_set_takeD in_set_dropD)
  have "keyToPath dir k = (clean_base dir @ ''/'') @ (take 2 k @ ''/'' @ drop 2 k @ ''.chunk'')"
    using assms by (simp add: keyToPath_plain)
  then have tp: "trim_prefix (keyToPath dir k) (clean_base dir @ ''/'') = take 2 k @ ''/'' @ drop 2 k @ ''.chunk''"
    by (simp only: trim_prefix_append)
  have fl: "filter (\<lambda>c. c \<noteq> slash) (take 2 k @ ''/'' @ drop 2 k @ ''.chunk'') = k @ ''.chunk''"
  proof -
    have "filter (\<lambda>c. c \<noteq> slash) (take 2 k) = take 2 k" "filter (\<lambda>c. c \<noteq> slash) (drop 2 k) = drop 2 k"
      using nosep by (auto simp: filter_id_conv)
    then show ?thesis using append_take_drop_id [of 2 k] by simp
  qed
  have "has_suffix (k @ ''.chunk'') ''.chunk''" by (auto simp: has_suffix_iff)
  then show ?thesis unfolding key_of_path_def trim_suffix_def tp fl by simp
qed

text \<open>The chunk directory holds only what the backend put there under plain keys, and the
  temporary files of writes that failed.\<close>

definition fs_ok :: "string \<Rightarrow> local_fs \<Rightarrow> bool" where
  "fs_ok dir s \<longleftrightarrow> al_ok (lf_files s) \<and>
     (\<forall>(p, w) \<in> set (lf_files s). has_prefix p (clean_base dir @ ''/'') \<and> has_suffix p ''.chunk''
        \<longrightarrow> (\<exists>k. plain_key k \<and> p = keyToPath dir k))"

lemma temp_no_suffix: "\<not> has_suffix (p @ ''.tmp'') ''.chunk''"
  by (auto simp: has_suffix_iff)

lemma set_al_put: "set (al_put m k v) \<subseteq> insert (k, v) (set m)"
  by (induction m k v rule: al_put.induct) auto

lemma set_al_del: "set (al_del m k) \<subseteq> set m"
  by (auto simp: al_del_def)

lemma fs_ok_put_path:
  assumes "fs_ok dir s" and "(\<exists>k. plain_key k \<and> p = keyToPath dir k) \<or> \<not> has_suffix p ''.chunk''"
  shows "fs_ok dir (s\<lparr>lf_files := al_put (lf_files s) p w\<rparr>)"
  using assms set_al_put [of "lf_files s" p w] by (fastforce simp: fs_ok_def)

lemma fs_ok_del_path: "fs_ok dir s \<Longrightarrow> fs_ok dir (s\<lparr>lf_files := al_del (lf_files s) p\<rparr>)"
  using set_al_del [of "lf_files s" p] by (fastforce simp: fs_ok_def)

lemma fs_ok_tick [simp]: "fs_ok dir (tick s) = fs_ok dir s" "lf_files (tick s) = lf_files s"
  by (simp_all add: fs_ok_def tick_def)

lemma fs_ok_Put: "fs_ok dir s \<Longrightarrow> plain_key k \<Longrightarrow> fs_ok dir (snd (local_Put dir k w s))"
proof -
  assume ok: "fs_ok dir s" and k: "plain_key k"
  let ?p = "keyToPath dir k"
  let ?written = "(tick s)\<lparr>lf_files := al_put (lf_files s) (?p @ ''.tmp'') v\<rparr>"
  have tmp: "fs_ok dir ((tick s)\<lparr>lf_files := al_put (lf_files s) (?p @ ''.tmp'') v\<rparr>)" for v
    using fs_ok_put_path [of dir "tick s" "?p @ ''.tmp''" v] ok temp_no_suffix by simp
  from fs_ok_del_path [OF tmp] have del: "fs_ok dir ((tick s)\<lparr>lf_files := al_del (al_put (lf_files s) (?p @ ''.tmp'') v) (?p @ ''.tmp'')\<rparr>)" for v
    by simp
  from fs_ok_put_path [OF del, of ?p] k
  have "fs_ok dir ((tick s)\<lparr>lf_files := al_put (al_del (al_put (lf_files s) (?p @ ''.tmp'') w) (?p @ ''.tmp'')) ?p w\<rparr>)" by auto
  with tmp del ok show ?thesis by (auto simp: local_Put_def Let_def split: io_fault.split option.split)
qed

lemma fs_ok_Delete: "fs_ok dir s \<Longrightarrow> fs_ok dir (snd (local_Delete dir k s))"
  using fs_ok_del_path [of dir "tick s" "keyToPath dir k"]
  by (auto simp: local_Delete_def Let_def split: option.split)

lemma List_keys:
  assumes "fs_ok dir s" and "next_fault s = NoFault"
  shows "\<exists>ks. fst (local_List dir prefix s) = Inr ks
    \<and> set ks = {k. plain_key k \<and> local_blob dir s k \<noteq> None \<and> has_prefix k prefix}"
proof -
  let ?found = "{(p, w) \<in> set (lf_files s). has_prefix p (clean_base dir @ ''/'') \<and> has_suffix p ''.chunk''}"
  have under: "has_prefix (keyToPath dir k) (clean_base dir @ ''/'')" "has_suffix (keyToPath dir k) ''.chunk''"
    if "plain_key k" for k using that by (auto simp: keyToPath_plain has_prefix_iff has_suffix_iff)
  have "(\<lambda>(p, w). key_of_path (clean_base dir) p) ` ?found = {k. plain_key k \<and> local_blob dir s k \<noteq> None}"
  proof (intro equalityI subsetI)
    fix k assume "k \<in> (\<lambda>(p, w). key_of_path (clean_base dir) p) ` ?found"
    then obtain p w where pw: "(p, w) \<in> ?found" "k = key_of_path (clean_base dir) p" by auto
    with assms(1) obtain k' where k': "plain_key k'" "p = keyToPath dir k'" by (auto simp: fs_ok_def)
    with pw have "k = k'" by (simp add: key_roundtrip)
    moreover have "local_blob dir s k' = Some w"
      using pw(1) k'(2) assms(1) by (auto simp: local_blob_def fs_ok_def al_get_iff_set)
    ultimately show "k \<in> {k. plain_key k \<and> local_blob dir s k \<noteq> None}" using k' by simp
  next
    fix k assume "k \<in> {k. plain_key k \<and> local_blob dir s k \<noteq> None}"
    then obtain w where k: "plain_key k" "local_blob dir s k = Some w" by auto
    then have "(keyToPath dir k, w) \<in> ?found" using under [OF k(1)] by (auto simp: local_blob_def dest: al_get_Some_set)
    then show "k \<in> (\<lambda>(p, w). key_of_path (clean_base dir) p) ` ?found" 
      using key_roundtrip [OF k(1), of dir] by (intro image_eqI [of _ _ "(keyToPath dir k, w)"]) simp_all
  qed
  moreover have "set (filter (\<lambda>(p, _). has_suffix p ''.chunk'') (walk_files (clean_base dir) s)) = ?found"
    by (auto simp: walk_files_def)
  ultimately have "set (map (\<lambda>(p, _). key_of_path (clean_base dir) p) (filter (\<lambda>(p, _). has_suffix p ''.chunk'') (walk_files (clean_base dir) s)))
      = {k. plain_key k \<and> local_blob dir s k \<noteq> None}" by simp
  then show ?thesis using assms(2) by (auto simp: local_List_def Join_chunks Let_def)
qed

section \<open>Properties\<close>

text \<open>C5: The local backend stores atomically whatever fails.  A store that reports success makes
  exactly the given content readable under the key; one that reports an error, and a removal that
  does, leave every content as it was; no operation touches another key.  A listing returns
  exactly the stored keys with the given prefix, and leftovers of failed writes are never listed.\<close>

theorem local_store_atomic:
  assumes "fs_ok dir s" and "plain_key k"
    and put: "local_Put dir k w s = (e, s')" and del: "local_Delete dir k s = (e2, s2)"
  shows "fs_ok dir s' \<and> fs_ok dir s2
    \<and> (\<forall>k'. plain_key k' \<longrightarrow> local_blob dir s' k' = (if e = None \<and> k' = k then Some w else local_blob dir s k'))
    \<and> (\<forall>k'. plain_key k' \<longrightarrow> local_blob dir s2 k' = (if e2 = None \<and> k' = k then None else local_blob dir s k'))
    \<and> (next_fault s' = NoFault \<and> e = None \<longrightarrow> fst (local_Get dir k s') = Inr w
        \<and> (\<exists>ks. fst (local_List dir prefix s') = Inr ks
            \<and> set ks = {k'. plain_key k' \<and> (k' = k \<or> local_blob dir s k' \<noteq> None) \<and> has_prefix k' prefix}))"
proof -
  have p: "be_put (local_backend dir) k w s = (e, s')" and d: "be_delete (local_backend dir) k s = (e2, s2)"
    using put del by (simp_all add: local_backend_def)
  note laws = lb.put_law [OF assms(2) p] lb.delete_law [OF assms(2) d]
  have ok: "fs_ok dir s'" "fs_ok dir s2"
    using fs_ok_Put [OF assms(1,2), of w] fs_ok_Delete [OF assms(1), of k] put del by simp_all
  have "fst (local_Get dir k s') = Inr w \<and> (\<exists>ks. fst (local_List dir prefix s') = Inr ks
            \<and> set ks = {k'. plain_key k' \<and> (k' = k \<or> local_blob dir s k' \<noteq> None) \<and> has_prefix k' prefix})"
    if nf: "next_fault s' = NoFault" and e: "e = None"
  proof
    show "fst (local_Get dir k s') = Inr w"
      using laws(1) [OF assms(2)] nf e by (simp add: local_Get_def local_blob_def)
    from List_keys [OF ok(1) nf, of prefix] obtain ks where
      ks: "fst (local_List dir prefix s') = Inr ks"
        "set ks = {k. plain_key k \<and> local_blob dir s' k \<noteq> None \<and> has_prefix k prefix}" by blast
    moreover have "local_blob dir s' k' \<noteq> None \<longleftrightarrow> k' = k \<or> local_blob dir s k' \<noteq> None" if "plain_key k'" for k'
      using laws(1) [OF that] e by simp
    ultimately show "\<exists>ks. fst (local_List dir prefix s') = Inr ks
            \<and> set ks = {k'. plain_key k' \<and> (k' = k \<or> local_blob dir s k' \<noteq> None) \<and> has_prefix k' prefix}" by blast
  qed
  with ok laws show ?thesis by blast
qed

theorem local_store_atomic_witness:
  "fst (local_Get ''/data'' ''abcd'' (snd (local_Put ''/data'' ''abcd'' [1, 2]
     (snd (local_Put ''/data'' ''abcd'' [9] \<lparr>lf_files = [], lf_faults = [WriteFault (Some [7])]\<rparr>))))) = Inr [1, 2]"
proof -
  let ?s0 = "\<lparr>lf_files = [], lf_faults = [WriteFault (Some [7])]\<rparr>"
  let ?s1 = "snd (local_Put ''/data'' ''abcd'' [9] ?s0)"
  have k: "plain_key ''abcd''" by (simp add: plain_key_def)
  have ok0: "fs_ok ''/data'' ?s0" by (simp add: fs_ok_def al_ok_def)
  have fs1: "lf_faults ?s1 = []" by (simp add: local_Put_def next_fault_def tick_def Let_def)
  then have ok1: "fs_ok ''/data'' ?s1" "fst (local_Put ''/data'' ''abcd'' [1, 2] ?s1) = None"
    "next_fault (snd (local_Put ''/data'' ''abcd'' [1, 2] ?s1)) = NoFault"
    using fs_ok_Put [OF ok0 k] by (simp_all add: local_Put_def next_fault_def tick_def Let_def)
  have run: "local_Put ''/data'' ''abcd'' [1, 2] ?s1 = (None, snd (local_Put ''/data'' ''abcd'' [1, 2] ?s1))"
    using ok1(2) by (metis prod.collapse)
  show ?thesis
    using local_store_atomic [OF ok1(1) k run prod.collapse [symmetric]] ok1(3) by blast
qed

end
 
