(* ===== verification/Gc.thy ===== *)
theory Gc
  imports Store Storage Worker
begin

text \<open>
  The garbage collector (\<^verbatim>\<open>src/internal/worker/gc.go\<close>): orphaned chunks, old versions and
  trash.  It works on the metadata tables and a storage backend; the state is the pair of them.
  The comparison that the database driver makes between a stored timestamp and a time
  argument (\<^verbatim>\<open>created_at < ?\<close>) is the parameter \<open>lt\<close>.  A query's rows are read before the
  loop over them changes the tables.

  The second half shows what a pass keeps: a chunk that a version of an existing file or another
  holder refers to stays counted, stored and named by its content.
\<close>

section \<open>gc.go\<close>

record gc_spec =
  gs_type :: string
  gs_older :: int

record gc_result =
  gr_type :: string
  gr_collected :: int
  gr_freed :: int
  gr_errors :: "string list"

definition new_result :: "string \<Rightarrow> gc_result" where
  "new_result t = \<lparr>gr_type = t, gr_collected = 0, gr_freed = 0, gr_errors = []\<rparr>"

definition gc_error :: "string \<Rightarrow> gc_result \<Rightarrow> gc_result" where
  "gc_error e r = r\<lparr>gr_errors := gr_errors r @ [e]\<rparr>"

definition gc_count :: "int \<Rightarrow> gc_result \<Rightarrow> gc_result" where
  "gc_count sz r = r\<lparr>gr_collected := wrap64 (gr_collected r + 1), gr_freed := wrap64 (gr_freed r + sz)\<rparr>"

type_synonym 'b gc_state = "(database \<times> 'b) \<times> gc_result"

text \<open>The body of the loop of \<^verbatim>\<open>collectOrphanedChunks\<close>.\<close>

fun collect_orphan :: "'b backend \<Rightarrow> gc_spec \<Rightarrow> chunk \<Rightarrow> 'b gc_state \<Rightarrow> 'b gc_state" where
  "collect_orphan B spec c ((d, b), r) =
     (if gs_older spec = zero_time \<or> c_created c > gs_older spec then ((d, b), r)
      else case be_delete B (c_hash c) b of
             (Some e, b') \<Rightarrow> ((d, b'), gc_error (''failed to delete chunk '' @ c_hash c @ '' from storage'') r)
           | (None, b') \<Rightarrow>
               (case DeleteChunk (c_hash c) d of
                  Inl e \<Rightarrow> ((d, b'), gc_error (''failed to delete chunk '' @ c_hash c @ '' from database'') r)
                | Inr d' \<Rightarrow> ((d', b'), gc_count (c_size c) r)))"

definition collectOrphanedChunks :: "'b backend \<Rightarrow> gc_spec \<Rightarrow> database \<times> 'b \<Rightarrow> 'b gc_state" where
  "collectOrphanedChunks B spec st = fold (collect_orphan B spec) (ListOrphanedChunks (fst st)) (st, new_result ''orphaned-chunks'')"

text \<open>The body of the loop of \<^verbatim>\<open>collectOldVersions\<close>: the map counts the rows seen per file.\<close>

fun collect_version :: "manifest \<Rightarrow> (string \<times> nat) list \<times> 'b gc_state \<Rightarrow> (string \<times> nat) list \<times> 'b gc_state" where
  "collect_version m (seen, (d, b), r) =
     (let n = (case al_get seen (m_file m) of None \<Rightarrow> 1 | Some k \<Rightarrow> Suc k);
          seen' = al_put seen (m_file m) n
      in if n > 5
         then (case DeleteManifest (m_id m) d of
                 Inl e \<Rightarrow> (seen', (d, b), gc_error e r)
               | Inr d' \<Rightarrow> (seen', (d', b), gc_count (m_size m) r))
         else (seen', (d, b), r))"

definition collectOldVersions :: "(int \<Rightarrow> int \<Rightarrow> bool) \<Rightarrow> gc_spec \<Rightarrow> database \<times> 'b \<Rightarrow> 'b gc_state" where
  "collectOldVersions lt spec st =
     snd (fold collect_version
       (sort_key m_file (desc_sort m_version (filter (\<lambda>m. lt (m_created m) (gs_older spec)) (manifests (fst st)))))
       ([], st, new_result ''old-versions''))"

text \<open>The body of the loop of \<^verbatim>\<open>deleteFile\<close>: one reference is given up, and the chunk goes with
  the last one.  Errors of the backend and of the deletion of the record are ignored.\<close>

fun release :: "'b backend \<Rightarrow> string \<Rightarrow> database \<times> 'b \<Rightarrow> database \<times> 'b" where
  "release B h (d, b) =
     (case DecrementRefCount h d of
        Inl e \<Rightarrow> (d, b)
      | Inr d1 \<Rightarrow>
          (case GetChunk h d1 of
             Inl e \<Rightarrow> (d1, b)
           | Inr c \<Rightarrow> if c_ref c \<le> 0
                     then ((case DeleteChunk h d1 of Inl e \<Rightarrow> d1 | Inr d2 \<Rightarrow> d2), snd (be_delete B h b))
                     else (d1, b)))"

text \<open>\<^verbatim>\<open>DELETE FROM files WHERE id = ?\<close>, its result ignored.\<close>

definition delete_file_row :: "string \<Rightarrow> database \<Rightarrow> database" where
  "delete_file_row i d = (if has_file i d then delete_files [i] d else d)"

fun deleteFile :: "'b backend \<Rightarrow> string \<Rightarrow> database \<times> 'b \<Rightarrow> string option \<times> database \<times> 'b" where
  "deleteFile B i (d, b) =
     (case GetLatestManifest i d of
        Inl e \<Rightarrow> (Some e, delete_file_row i d, b)
      | Inr m \<Rightarrow> (let (d', b') = fold (release B) (m_chunks m) (d, b) in (None, delete_file_row i d', b')))"

definition collect_trashed :: "'b backend \<Rightarrow> file_row \<Rightarrow> 'b gc_state \<Rightarrow> 'b gc_state" where
  "collect_trashed B f st =
     (case deleteFile B (f_id f) (fst st) of
        (Some e, st') \<Rightarrow> (st', gc_error e (snd st))
      | (None, st') \<Rightarrow> (st', gc_count (f_size f) (snd st)))"

definition collectTrash :: "(int \<Rightarrow> int \<Rightarrow> bool) \<Rightarrow> 'b backend \<Rightarrow> gc_spec \<Rightarrow> database \<times> 'b \<Rightarrow> 'b gc_state" where
  "collectTrash lt B spec st =
     fold (collect_trashed B)
       (filter (\<lambda>f. f_trashed f \<and> (case f_trashed_at f of None \<Rightarrow> False | Some t \<Rightarrow> lt t (gs_older spec))) (files (fst st)))
       (st, new_result ''trash'')"

text \<open>The handler: the payload of a job is a specification, or something else.\<close>

definition gc_Handler :: "(int \<Rightarrow> int \<Rightarrow> bool) \<Rightarrow> 'b backend \<Rightarrow> gc_spec option job \<Rightarrow> database \<times> 'b
    \<Rightarrow> (string + gc_result) \<times> database \<times> 'b" where
  "gc_Handler lt B job st =
     (case Payload job of
        None \<Rightarrow> (Inl ''invalid payload type'', st)
      | Some spec \<Rightarrow>
          (let ret = (\<lambda>(st', r). (Inr r, st'))
           in if gs_type spec = ''orphaned-chunks'' then ret (collectOrphanedChunks B spec st)
              else if gs_type spec = ''old-versions'' then ret (collectOldVersions lt spec st)
              else if gs_type spec = ''trash'' then ret (collectTrash lt B spec st)
              else (Inl (''unknown gc type: '' @ gs_type spec), st)))"

definition QueueGCJob :: "int \<Rightarrow> gc_spec \<Rightarrow> gc_spec option pool \<Rightarrow> gc_spec option pool" where
  "QueueGCJob now spec p =
     Submit \<lparr>job_ID = ''gc-'' @ gs_type spec @ ''-'' @ dec_int (unix_seconds now), job_Type = ''garbage-collect'',
       Payload = Some spec, Priority = 1, Retries = 0, job_MaxRetries = 0\<rparr> p"

section \<open>What is held\<close>

text \<open>The references that the versions of existing files hold, and that they are counted
  together with those of other holders (\<open>extra\<close>).\<close>

definition owned :: "database \<Rightarrow> manifest list" where
  "owned d = filter (\<lambda>m. has_file (m_file m) d) (manifests d)"

definition refs_of :: "manifest list \<Rightarrow> string \<Rightarrow> nat" where
  "refs_of ms h = sum_list (map (\<lambda>m. count_list (m_chunks m) h) ms)"

definition covers :: "(string \<Rightarrow> nat) \<Rightarrow> database \<Rightarrow> bool" where
  "covers n d \<longleftrightarrow> (\<forall>h. int (n h) \<le> count_of (chunk_refs d h))"

definition keys_ok :: "(string \<Rightarrow> bool) \<Rightarrow> database \<Rightarrow> bool" where
  "keys_ok key_ok d \<longleftrightarrow> (\<forall>h. chunk_refs d h \<noteq> None \<longrightarrow> key_ok h)"

definition present :: "('b \<Rightarrow> string \<Rightarrow> byte list option) \<Rightarrow> database \<times> 'b \<Rightarrow> bool" where
  "present blob st \<longleftrightarrow> (\<forall>h. chunk_refs (fst st) h \<noteq> None \<longrightarrow> blob (snd st) h \<noteq> None)"

text \<open>The consistency of tables and storage: every record has its content in the backend.\<close>

definition stored_ok :: "('b \<Rightarrow> string \<Rightarrow> byte list option) \<Rightarrow> (string \<Rightarrow> bool) \<Rightarrow> (byte list \<Rightarrow> string)
    \<Rightarrow> database \<times> 'b \<Rightarrow> bool" where
  "stored_ok blob key_ok sha st \<longleftrightarrow> db_ok (fst st) \<and> keys_ok key_ok (fst st) \<and> present blob st
     \<and> content_ok blob key_ok sha (snd st)"

text \<open>The content of every held chunk can be read back.\<close>

definition readable :: "('b \<Rightarrow> string \<Rightarrow> byte list option) \<Rightarrow> (byte list \<Rightarrow> string) \<Rightarrow> database \<times> 'b \<Rightarrow> bool" where
  "readable blob sha st \<longleftrightarrow> (\<forall>m \<in> set (owned (fst st)). \<forall>h \<in> set (m_chunks m). \<exists>w. blob (snd st) h = Some w \<and> sha w = h)"

lemma covers_mono: "covers n d \<Longrightarrow> (\<And>h. k h \<le> n h) \<Longrightarrow> covers k d"
  unfolding covers_def by (meson of_nat_mono order_trans)

lemma refs_of_filter: "refs_of (filter P ms) h \<le> refs_of ms h"
  by (induction ms) (auto simp: refs_of_def)

lemma refs_of_filter_mono: "(\<And>m. m \<in> set ms \<Longrightarrow> P m \<Longrightarrow> Q m) \<Longrightarrow> refs_of (filter P ms) h \<le> refs_of (filter Q ms) h"
  by (induction ms) (auto simp: refs_of_def trans_le_add2)

lemma refs_of_filter_out:
  assumes "m \<in> set ms" and "Q m" and "\<not> P m" and "\<And>x. x \<in> set ms \<Longrightarrow> P x \<Longrightarrow> Q x"
  shows "refs_of (filter P ms) h + count_list (m_chunks m) h \<le> refs_of (filter Q ms) h"
  using assms
proof (induction ms)
  case Nil
  then show ?case by simp
next
  case (Cons x ms)
  show ?case
  proof (cases "x = m")
    case True
    with Cons.prems refs_of_filter_mono [of ms P Q h] show ?thesis by (simp add: refs_of_def)
  next
    case False
    with Cons have "refs_of (filter P ms) h + count_list (m_chunks m) h \<le> refs_of (filter Q ms) h" by simp
    with Cons.prems(4) [of x] show ?thesis by (auto simp: refs_of_def)
  qed
qed

lemma refs_of_member: "m \<in> set ms \<Longrightarrow> h \<in> set (m_chunks m) \<Longrightarrow> 0 < refs_of ms h"
proof -
  assume m: "m \<in> set ms" and h: "h \<in> set (m_chunks m)"
  have "count_list (m_chunks m) h \<le> refs_of ms h" unfolding refs_of_def by (rule member_le_sum_list) (use m in simp_all)
  moreover have "count_list (m_chunks m) h \<noteq> 0" using h by (simp add: count_list_0_iff)
  ultimately show ?thesis by linarith
qed

lemma stored_readable:
  assumes "stored_ok blob key_ok sha st" and "covers (\<lambda>h. extra h + refs_of (owned (fst st)) h) (fst st)"
  shows "readable blob sha st"
  unfolding readable_def
proof (intro ballI)
  fix m h assume mh: "m \<in> set (owned (fst st))" "h \<in> set (m_chunks m)"
  have "int (extra h + refs_of (owned (fst st)) h) \<le> count_of (chunk_refs (fst st) h)"
    using assms(2) by (simp add: covers_def)
  with refs_of_member [OF mh] have "chunk_refs (fst st) h \<noteq> None" by (auto simp: count_of_def split: option.splits)
  with assms(1) have "key_ok h" "blob (snd st) h \<noteq> None"
    by (auto simp: stored_ok_def keys_ok_def present_def)
  with assms(1) show "\<exists>w. blob (snd st) h = Some w \<and> sha w = h" by (auto simp: stored_ok_def content_ok_def)
qed

section \<open>Giving up references\<close>

abbreviation drop_chunk :: "string \<Rightarrow> database \<Rightarrow> database" where
  "drop_chunk \<equiv> drop_ref chunk_refs DecrementRefCount DeleteChunk"

lemma GetChunk_refs: "GetChunk h d = Inr c \<Longrightarrow> chunk_refs d h = Some (c_ref c)"
  "GetChunk h d = Inl e \<Longrightarrow> chunk_refs d h = None"
  by (auto simp: GetChunk_def chunk_refs_def split: option.splits)

lemma fst_release: "fst (release B h st) = drop_chunk h (fst st)"
  by (cases st) (auto simp: drop_ref_def GetChunk_refs split: sum.splits)

lemma snd_release:
  assumes "db_ok d"
  shows "snd (release B h (d, b)) = (if chunk_refs d h = Some 1 then snd (be_delete B h b) else b)"
proof (cases "\<exists>n. chunk_refs d h = Some n \<and> 0 < n")
  case True
  then obtain n where n: "chunk_refs d h = Some n" "0 < n" by blast
  from Decrement_refs [OF assms n] obtain d1 where
    d1: "DecrementRefCount h d = Inr d1" "chunk_refs d1 = (chunk_refs d)(h \<mapsto> n - 1)" by blast
  then obtain c where "GetChunk h d1 = Inr c" "c_ref c = n - 1"
    by (cases "GetChunk h d1") (auto dest: GetChunk_refs)
  with d1 n show ?thesis by auto
next
  case False
  then have "case chunk_refs d h of None \<Rightarrow> True | Some n \<Rightarrow> n \<le> 0" by (auto split: option.split)
  from Decrement_none [OF assms this] False show ?thesis by auto
qed

lemma Decrement_rows: "DecrementRefCount h d = Inr d' \<Longrightarrow> files d' = files d \<and> manifests d' = manifests d \<and> fk_on d' = fk_on d \<and> users d' = users d"
  by (auto simp: DecrementRefCount_def split: if_split_asm)

lemma DeleteChunk_rows: "DeleteChunk h d = Inr d' \<Longrightarrow> files d' = files d \<and> manifests d' = manifests d \<and> fk_on d' = fk_on d \<and> users d' = users d"
  by (auto simp: DeleteChunk_def split: if_split_asm)

lemma drop_chunk_rows: "files (drop_chunk h d) = files d \<and> manifests (drop_chunk h d) = manifests d \<and> fk_on (drop_chunk h d) = fk_on d \<and> users (drop_chunk h d) = users d"
  by (auto simp: drop_ref_def dest!: Decrement_rows DeleteChunk_rows split: sum.splits)

lemma fst_releases: "fst (fold (release B) hs st) = fold drop_chunk hs (fst st)"
  by (induction hs arbitrary: st) (simp_all add: fst_release)

lemma releases_rows:
  "files (fst (fold (release B) hs st)) = files (fst st) \<and> manifests (fst (fold (release B) hs st)) = manifests (fst st)
   \<and> fk_on (fst (fold (release B) hs st)) = fk_on (fst st) \<and> users (fst (fold (release B) hs st)) = users (fst st)"
  by (induction hs arbitrary: st) (simp_all add: fst_release drop_chunk_rows)

lemma owned_rows: "files d' = files d \<Longrightarrow> manifests d' = manifests d \<Longrightarrow> owned d' = owned d"
  by (simp add: owned_def has_file_def)

lemma releases_covers:
  assumes "db_ok (fst st)" and "covers (\<lambda>h. n h + count_list hs h) (fst st)"
  shows "covers n (fst (fold (release B) hs st))"
  unfolding covers_def
proof
  fix h
  have "int (n h) + int (count_list hs h) \<le> count_of (chunk_refs (fst st) h)" using assms(2) by (simp add: covers_def)
  moreover have "count_of (chunk_refs (fold drop_chunk hs (fst st)) h) = max 0 (count_of (chunk_refs (fst st) h) - int (count_list hs h))"
    using cr.drop_all [OF assms(1)] by blast
  ultimately show "int (n h) \<le> count_of (chunk_refs (fst (fold (release B) hs st)) h)" by (simp add: fst_releases)
qed

context blob_store
begin

lemma release_stored:
  assumes "stored_ok blob key_ok sha st"
  shows "stored_ok blob key_ok sha (release B h st)"
proof -
  obtain d b where st: "st = (d, b)" by (cases st)
  have ok: "db_ok d" and keys: "keys_ok key_ok d" and pres: "present blob (d, b)" and con: "content_ok blob key_ok sha b"
    using assms by (simp_all add: stored_ok_def st)
  let ?d = "drop_chunk h d"
  note one = cr.drop_one [OF ok, of h]
  have sub: "chunk_refs ?d k \<noteq> None \<Longrightarrow> chunk_refs d k \<noteq> None \<and> (chunk_refs d h = Some 1 \<longrightarrow> k \<noteq> h)" for k
    using one by (auto split: option.splits if_splits)
  have keys': "keys_ok key_ok ?d" using keys sub by (auto simp: keys_ok_def)
  show ?thesis
  proof (cases "chunk_refs d h = Some 1")
    case True
    then have h: "key_ok h" using keys by (simp add: keys_ok_def)
    obtain e b' where del: "be_delete B h b = (e, b')" by (cases "be_delete B h b")
    have "blob b' k \<noteq> None" if "chunk_refs ?d k \<noteq> None" for k
      using sub [OF that] True pres keys delete_law [OF h del, of k] by (auto simp: present_def keys_ok_def)
    then have "present blob (?d, b')" by (simp add: present_def)
    moreover have "release B h st = (?d, b')"
      using fst_release [of B h st] snd_release [OF ok, of B h b] True del by (simp add: st prod_eq_iff)
    ultimately show ?thesis using one keys' delete_content [OF con h del] by (simp add: stored_ok_def)
  next
    case False
    then have "release B h st = (?d, b)"
      using fst_release [of B h st] snd_release [OF ok, of B h b] by (simp add: st prod_eq_iff)
    then show ?thesis using one keys' sub pres con by (auto simp: stored_ok_def present_def)
  qed
qed

lemma releases_stored: "stored_ok blob key_ok sha st \<Longrightarrow> stored_ok blob key_ok sha (fold (release B) hs st)"
  by (induction hs arbitrary: st) (simp_all add: release_stored)

end

section \<open>Deleting rows\<close>

lemma delete_files_refs: "chunk_refs (delete_files ids d) = chunk_refs d"
  by (simp add: delete_files_def chunk_refs_def Let_def fun_eq_iff)

lemma delete_file_row_refs [simp]: "chunk_refs (delete_file_row i d) = chunk_refs d"
  by (simp add: delete_file_row_def delete_files_refs)

lemma delete_file_row_ok: "db_ok d \<Longrightarrow> db_ok (delete_file_row i d)"
  by (simp add: delete_file_row_def db_ok_delete_files)

lemma owned_delete_files:
  "\<exists>P. owned (delete_files ids d) = filter P (manifests d)
     \<and> (\<forall>m. P m \<longrightarrow> has_file (m_file m) d \<and> m_file m \<notin> set ids)"
proof -
  let ?d = "delete_files ids d"
  have "\<exists>Q. manifests ?d = filter Q (manifests d)"
    by (cases "fk_on d") (auto simp: delete_files_def Let_def intro: exI [of _ "\<lambda>_. True"])
  then obtain Q where Q: "manifests ?d = filter Q (manifests d)" by blast
  have "has_file j d \<and> j \<notin> set ids" if "has_file j ?d" for j
    using that descend_mono [of ids "length (files d)" "files d"]
    by (auto simp: has_file_def delete_files_def Let_def split: if_splits)
  then show ?thesis
    by (intro exI [of _ "\<lambda>m. Q m \<and> has_file (m_file m) ?d"]) (auto simp: owned_def Q)
qed

lemma owned_delete_le: "refs_of (owned (delete_files ids d)) h \<le> refs_of (owned d) h"
  using owned_delete_files [of ids d] refs_of_filter_mono by (metis owned_def)

lemma owned_delete_less:
  assumes "has_file i d" and "m \<in> set (manifests d)" and "m_file m = i"
  shows "refs_of (owned (delete_files [i] d)) h + count_list (m_chunks m) h \<le> refs_of (owned d) h"
proof -
  from owned_delete_files [of "[i]" d] obtain P where
    P: "owned (delete_files [i] d) = filter P (manifests d)" "\<And>m. P m \<Longrightarrow> has_file (m_file m) d \<and> m_file m \<noteq> i" by auto
  have "refs_of (filter P (manifests d)) h + count_list (m_chunks m) h \<le> refs_of (filter (\<lambda>m. has_file (m_file m) d) (manifests d)) h"
    by (rule refs_of_filter_out [OF assms(2)]) (use assms P(2) in auto)
  then show ?thesis by (simp add: P(1) owned_def [of d])
qed

text \<open>The row of a file is there, or none of its versions are.\<close>

definition settled :: "database \<Rightarrow> string \<Rightarrow> bool" where
  "settled d i \<longleftrightarrow> has_file i d \<or> (\<forall>m \<in> set (manifests d). m_file m \<noteq> i)"

lemma settled_delete: "settled d j \<Longrightarrow> i \<noteq> j \<Longrightarrow> settled (delete_file_row i d) j"
  by (cases "fk_on d") (auto simp: settled_def delete_file_row_def delete_files_def has_file_def Let_def)

lemma GetLatest_Inr: "GetLatestManifest i d = Inr m \<Longrightarrow> m \<in> set (manifests d) \<and> m_file m = i"
proof -
  assume "GetLatestManifest i d = Inr m"
  then have "m \<in> set (limit_offset 1 0 (desc_sort m_version (filter (\<lambda>m. m_file m = i) (manifests d))))"
    by (auto simp: GetLatestManifest_def split: list.splits)
  then show ?thesis by (auto simp: limit_offset_def desc_sort_def dest: in_set_takeD)
qed

section \<open>The passes\<close>

text \<open>What a pass keeps, for any references \<open>extra\<close> of other holders.\<close>

definition gc_ok :: "('b \<Rightarrow> string \<Rightarrow> byte list option) \<Rightarrow> (string \<Rightarrow> bool) \<Rightarrow> (byte list \<Rightarrow> string) \<Rightarrow> (string \<Rightarrow> nat)
    \<Rightarrow> database \<times> 'b \<Rightarrow> bool" where
  "gc_ok blob key_ok sha extra st \<longleftrightarrow>
     stored_ok blob key_ok sha st \<and> covers (\<lambda>h. extra h + refs_of (owned (fst st)) h) (fst st)"

lemma stored_ok_rows:
  assumes "stored_ok blob key_ok sha (d, b)" and "db_ok d'" and "chunk_refs d' = chunk_refs d"
  shows "stored_ok blob key_ok sha (d', b)"
  using assms by (simp add: stored_ok_def keys_ok_def present_def)

lemma gc_ok_rows:
  assumes "gc_ok blob key_ok sha extra (d, b)" and "db_ok d'" and "chunk_refs d' = chunk_refs d"
    and "\<And>h. refs_of (owned d') h \<le> refs_of (owned d) h"
  shows "gc_ok blob key_ok sha extra (d', b)"
proof -
  have "covers (\<lambda>h. extra h + refs_of (owned d') h) d"
    using assms(1,4) by (auto simp: gc_ok_def intro: covers_mono)
  moreover have "stored_ok blob key_ok sha (d', b)"
    using assms(1) by (intro stored_ok_rows [OF _ assms(2,3)]) (simp add: gc_ok_def)
  ultimately show ?thesis by (simp add: gc_ok_def covers_def assms(3))
qed

lemma gc_ok_delete_row: "gc_ok blob key_ok sha extra (d, b) \<Longrightarrow> gc_ok blob key_ok sha extra (delete_file_row i d, b)"
proof -
  assume ok: "gc_ok blob key_ok sha extra (d, b)"
  then have "db_ok d" by (simp add: gc_ok_def stored_ok_def)
  then show ?thesis
    using gc_ok_rows [OF ok delete_file_row_ok delete_file_row_refs, of i] owned_delete_le [of "[i]" d]
    by (simp add: delete_file_row_def)
qed

lemma chunk_refs_manifests [simp]: "chunk_refs (d\<lparr>manifests := ms\<rparr>) = chunk_refs d"
  by (simp add: chunk_refs_def fun_eq_iff)

lemma gc_ok_version:
  assumes "gc_ok blob key_ok sha extra (fst (snd x))"
  shows "gc_ok blob key_ok sha extra (fst (snd (collect_version m x)))"
proof -
  obtain seen d b r where x: "x = (seen, (d, b), r)" by (metis surj_pair)
  have ok: "gc_ok blob key_ok sha extra (d, b)" "db_ok d" using assms by (simp_all add: x gc_ok_def stored_ok_def)
  have "gc_ok blob key_ok sha extra (d', b)" if "DeleteManifest (m_id m) d = Inr d'" for d'
  proof (rule gc_ok_rows [OF ok(1)])
    show "db_ok d'" using db_ok_DeleteManifest [OF that ok(2)] .
    have d': "d' = d\<lparr>manifests := filter (\<lambda>n. m_id n \<noteq> m_id m) (manifests d)\<rparr>"
      using that by (simp add: DeleteManifest_def split: if_split_asm)
    then show "chunk_refs d' = chunk_refs d" by simp
    show "refs_of (owned d') h \<le> refs_of (owned d) h" for h
      by (auto simp: d' owned_def has_file_def intro!: refs_of_filter_mono)
  qed
  with ok show ?thesis by (auto simp: x Let_def split: sum.split)
qed

lemma gc_ok_versions: "gc_ok blob key_ok sha extra (fst (snd x)) \<Longrightarrow> gc_ok blob key_ok sha extra (fst (snd (fold collect_version ms x)))"
  by (induction ms arbitrary: x) (simp_all add: gc_ok_version del: collect_version.simps)

context blob_store
begin

lemma orphan_step:
  assumes ok: "gc_ok blob key_ok sha extra (d, b)" and zero: "chunk_refs d (c_hash c) = Some 0"
    and run: "collect_orphan B spec c ((d, b), r) = ((d', b'), r')"
  shows "gc_ok blob key_ok sha extra (d', b') \<and> (\<forall>k. k \<noteq> c_hash c \<longrightarrow> chunk_refs d' k = chunk_refs d k)"
proof (cases "gs_older spec = zero_time \<or> c_created c > gs_older spec")
  case True
  with run ok show ?thesis by auto
next
  case False
  let ?h = "c_hash c"
  have parts: "db_ok d" "keys_ok key_ok d" "present blob (d, b)" "content_ok blob key_ok sha b"
    "covers (\<lambda>h. extra h + refs_of (owned d) h) d"
    using ok by (simp_all add: gc_ok_def stored_ok_def)
  have h: "key_ok ?h" using parts(2) zero by (simp add: keys_ok_def)
  obtain e b1 where del: "be_delete B ?h b = (e, b1)" by (cases "be_delete B ?h b")
  note con = delete_content [OF parts(4) h del]
  show ?thesis
  proof (cases e)
    case (Some x)
    then have eq: "d' = d" "b' = b1" using run False del by auto
    have "blob b1 k \<noteq> None" if "chunk_refs d k \<noteq> None" for k
      using that parts(2,3) delete_law [OF h del, of k] Some by (auto simp: keys_ok_def present_def)
    then have "present blob (d, b1)" by (simp add: present_def)
    then show ?thesis using eq parts con by (simp add: gc_ok_def stored_ok_def)
  next
    case None
    from Delete_refs [OF parts(1) zero] obtain d1 where
      d1: "DeleteChunk ?h d = Inr d1" "db_ok d1" "chunk_refs d1 = (chunk_refs d)(?h := None)" by blast
    then have eq: "d' = d1" "b' = b1" using run False del None by auto
    have "blob b1 k \<noteq> None" if "chunk_refs d1 k \<noteq> None" for k
      using that parts(2,3) delete_law [OF h del, of k] d1(3) by (auto simp: keys_ok_def present_def split: if_splits)
    then have "present blob (d1, b1)" by (simp add: present_def)
    moreover have "keys_ok key_ok d1" using parts(2) d1(3) by (auto simp: keys_ok_def split: if_splits)
    moreover have "count_of (chunk_refs d1 k) = count_of (chunk_refs d k)" for k using d1(3) zero by (simp add: count_of_def)
    moreover have "owned d1 = owned d" using DeleteChunk_rows [OF d1(1)] by (intro owned_rows) simp_all
    ultimately show ?thesis using eq d1 parts(5) con by (simp add: gc_ok_def stored_ok_def covers_def)
  qed
qed

lemma orphans_pass:
  assumes "gc_ok blob key_ok sha extra (fst x)" and "\<forall>c \<in> set cs. chunk_refs (fst (fst x)) (c_hash c) = Some 0"
    and "distinct (map c_hash cs)"
  shows "gc_ok blob key_ok sha extra (fst (fold (collect_orphan B spec) cs x))"
  using assms
proof (induction cs arbitrary: x)
  case Nil
  then show ?case by simp
next
  case (Cons c cs)
  obtain d b r where x: "x = ((d, b), r)" by (metis surj_pair)
  obtain d' b' r' where x': "collect_orphan B spec c x = ((d', b'), r')" by (metis surj_pair)
  have "gc_ok blob key_ok sha extra (d', b') \<and> (\<forall>k. k \<noteq> c_hash c \<longrightarrow> chunk_refs d' k = chunk_refs d k)"
    using Cons.prems(1,2) x' by (intro orphan_step) (simp_all add: x del: collect_orphan.simps)
  moreover have "c_hash e \<noteq> c_hash c" if "e \<in> set cs" for e using Cons.prems(3) that by (simp add: image_iff) metis
  ultimately have "gc_ok blob key_ok sha extra (fst (fold (collect_orphan B spec) cs ((d', b'), r')))"
    using Cons.prems(2,3) by (intro Cons.IH) (simp_all add: x)
  then show ?case using x' by simp
qed

lemma deleteFile_ok:
  assumes ok: "gc_ok blob key_ok sha extra (d, b)" and "settled d i"
  shows "gc_ok blob key_ok sha extra (snd (deleteFile B i (d, b)))
    \<and> (\<forall>j. j \<noteq> i \<longrightarrow> settled d j \<longrightarrow> settled (fst (snd (deleteFile B i (d, b)))) j)"
proof (cases "GetLatestManifest i d")
  case (Inl e)
  then show ?thesis using gc_ok_delete_row [OF ok] settled_delete by auto
next
  case (Inr m)
  note m = GetLatest_Inr [OF Inr]
  have has: "has_file i d" using assms(2) m by (auto simp: settled_def)
  let ?st = "fold (release B) (m_chunks m) (d, b)"
  obtain d1 b1 where st: "?st = (d1, b1)" by (cases ?st)
  have run: "deleteFile B i (d, b) = (None, delete_file_row i d1, b1)" by (simp add: Inr st)
  have rows: "files d1 = files d" "manifests d1 = manifests d" "fk_on d1 = fk_on d"
    using releases_rows [of B "m_chunks m" "(d, b)"] st by simp_all
  have st1: "stored_ok blob key_ok sha (d1, b1)"
    using releases_stored [of sha "(d, b)" "m_chunks m"] ok st by (simp add: gc_ok_def)
  have del: "delete_file_row i d1 = delete_files [i] d1" using has rows by (simp add: delete_file_row_def has_file_def)
  have "refs_of (owned (delete_files [i] d1)) h + count_list (m_chunks m) h \<le> refs_of (owned d1) h" for h
    using has m rows by (intro owned_delete_less) (simp_all add: has_file_def)
  moreover have "owned d1 = owned d" using rows by (intro owned_rows)
  ultimately have le: "extra h + refs_of (owned (delete_files [i] d1)) h + count_list (m_chunks m) h \<le> extra h + refs_of (owned d) h" for h
    by (simp add: add.assoc)
  have "covers (\<lambda>h. extra h + refs_of (owned (delete_files [i] d1)) h + count_list (m_chunks m) h) d"
    using ok le by (auto simp: gc_ok_def intro: covers_mono)
  then have "covers (\<lambda>h. extra h + refs_of (owned (delete_files [i] d1)) h) d1"
    using releases_covers [of "(d, b)" _ "m_chunks m" B] ok st by (simp add: gc_ok_def stored_ok_def)
  moreover have "stored_ok blob key_ok sha (delete_files [i] d1, b1)"
    using st1 by (intro stored_ok_rows [OF st1]) (simp_all add: stored_ok_def db_ok_delete_files delete_files_refs)
  ultimately have "gc_ok blob key_ok sha extra (delete_file_row i d1, b1)"
    by (simp add: gc_ok_def del covers_def delete_files_refs)
  moreover have "settled d1 j = settled d j" for j using rows by (simp add: settled_def has_file_def)
  ultimately show ?thesis using run settled_delete by auto
qed

lemma trash_pass:
  assumes "gc_ok blob key_ok sha extra (fst x)" and "\<forall>f \<in> set fs. settled (fst (fst x)) (f_id f)"
    and "distinct (map f_id fs)"
  shows "gc_ok blob key_ok sha extra (fst (fold (collect_trashed B) fs x))"
  using assms
proof (induction fs arbitrary: x)
  case Nil
  then show ?case by simp
next
  case (Cons f fs)
  obtain d b r where x: "x = ((d, b), r)" by (metis surj_pair)
  obtain e d' b' where run: "deleteFile B (f_id f) (d, b) = (e, d', b')" by (metis surj_pair)
  have step: "fst (collect_trashed B f x) = (d', b')"
    unfolding collect_trashed_def x fst_conv run by (simp split: option.split)
  have "gc_ok blob key_ok sha extra (snd (deleteFile B (f_id f) (d, b)))
      \<and> (\<forall>j. j \<noteq> f_id f \<longrightarrow> settled d j \<longrightarrow> settled (fst (snd (deleteFile B (f_id f) (d, b)))) j)"
    using Cons.prems(1,2) by (intro deleteFile_ok) (simp_all add: x)
  then have ok: "gc_ok blob key_ok sha extra (d', b')" "\<And>j. j \<noteq> f_id f \<Longrightarrow> settled d j \<Longrightarrow> settled d' j"
    unfolding run by simp_all
  have "f_id g \<noteq> f_id f" if "g \<in> set fs" for g using Cons.prems(3) that by (simp add: image_iff) metis
  then have "gc_ok blob key_ok sha extra (fst (fold (collect_trashed B) fs (collect_trashed B f x)))"
    using Cons.prems(2,3) ok step by (intro Cons.IH) (simp_all add: x)
  then show ?case by simp
qed

lemma handler_keeps:
  assumes ok: "gc_ok blob key_ok sha extra st" and run: "gc_Handler lt B job st = (r, st')"
  shows "gc_ok blob key_ok sha extra st'"
proof -
  have db: "db_ok (fst st)" using ok by (simp add: gc_ok_def stored_ok_def)
  have orphans: "gc_ok blob key_ok sha extra (fst (collectOrphanedChunks B spec st))" for spec
  proof -
    have fs: "distinct (map c_hash (chunks (fst st)))" using db by (simp add: db_ok_def chunks_ok_def)
    have "distinct (map c_hash (ListOrphanedChunks (fst st)))"
      using fs distinct_map_filter [OF fs] by (simp add: ListOrphanedChunks_def distinct_map)
    moreover have "chunk_refs (fst st) (c_hash c) = Some 0" if "c \<in> set (ListOrphanedChunks (fst st))" for c
    proof -
      have c: "c \<in> set (chunks (fst st))" "c_ref c = 0" using that by (auto simp: ListOrphanedChunks_def)
      then have "find_row (\<lambda>e. c_hash e = c_hash c) (chunks (fst st)) = Some c"
        using fs by (intro find_row_unique) (auto simp: distinct_map inj_on_def)
      with c show ?thesis by (simp add: chunk_refs_def)
    qed
    ultimately show ?thesis unfolding collectOrphanedChunks_def using ok by (intro orphans_pass) simp_all
  qed
  have versions: "gc_ok blob key_ok sha extra (fst (collectOldVersions lt spec st))" for spec
    unfolding collectOldVersions_def by (rule gc_ok_versions) (simp add: ok)
  have trash: "gc_ok blob key_ok sha extra (fst (collectTrash lt B spec st))" for spec
    unfolding collectTrash_def
    using ok db by (intro trash_pass) (auto simp: settled_def has_file_def db_ok_def files_ok_def distinct_map_filter)
  show ?thesis
    using run ok orphans versions trash
    by (auto simp: gc_Handler_def Let_def case_prod_beta split: option.splits if_splits)
qed

end

section \<open>What a pass reclaims\<close>

lemma drops_to_none:
  assumes "db_ok d" and "chunk_refs d h = Some n" and "0 < n" and "n \<le> int (count_list hs h)"
  shows "chunk_refs (fold drop_chunk hs d) h = None"
  using assms
proof (induction hs arbitrary: d n)
  case Nil
  then show ?case by simp
next
  case (Cons a hs)
  note one = cr.drop_one [OF Cons.prems(1), of a]
  have gone: "chunk_refs (fold drop_chunk ks e) h = None" if "db_ok e" "chunk_refs e h = None" for ks e
    using that
  proof (induction ks arbitrary: e)
    case (Cons k ks)
    have "chunk_refs (drop_chunk k e) h = None" "db_ok (drop_chunk k e)"
      using cr.drop_one [OF Cons.prems(1), of k] Cons.prems(2) by (auto split: option.splits if_splits)
    with Cons.IH show ?case by simp
  qed simp
  show ?case
  proof (cases "a = h")
    case True
    then show ?thesis
      using Cons.IH [of "drop_chunk a d" "n - 1"] Cons.prems one gone [of "drop_chunk a d" hs] by (cases "n = 1") auto
  next
    case False
    then have "chunk_refs (drop_chunk a d) h = Some n" using one Cons.prems(2) by (auto split: option.splits)
    with Cons.IH [of "drop_chunk a d" n] Cons.prems one False show ?thesis by simp
  qed
qed

text \<open>A chunk whose count was raised after the list of orphans was read is deleted all the same:
  neither the loop nor the statement looks at the count again.\<close>

lemma orphan_race:
  assumes "db_ok d" and "c \<in> set (ListOrphanedChunks d)" and "IncrementRefCount (c_hash c) d = Inr d1"
    and "gs_older spec \<noteq> zero_time" and "c_created c \<le> gs_older spec" and "be_delete B (c_hash c) b = (None, b1)"
  shows "chunk_refs d1 (c_hash c) = Some 1 \<and>
    (\<exists>d2 r'. collect_orphan B spec c ((d1, b), r) = ((d2, b1), r') \<and> chunk_refs d2 (c_hash c) = None)"
proof -
  have c: "c \<in> set (chunks d)" "c_ref c = 0" using assms(2) by (auto simp: ListOrphanedChunks_def)
  have "find_row (\<lambda>e. c_hash e = c_hash c) (chunks d) = Some c"
    using c assms(1) by (intro find_row_unique) (auto simp: db_ok_def chunks_ok_def distinct_map inj_on_def)
  then have "chunk_refs d (c_hash c) = Some 0" using c by (simp add: chunk_refs_def)
  from Increment_refs [OF assms(1) this] assms(3) have d1: "db_ok d1" "chunk_refs d1 (c_hash c) = Some 1" by auto
  from Delete_refs [OF this] obtain d2 where "DeleteChunk (c_hash c) d1 = Inr d2" "chunk_refs d2 (c_hash c) = None" by auto
  with d1 assms(4-6) show ?thesis by simp
qed

section \<open>Properties\<close>

text \<open>No pass of the collector loses content, whichever storage operations fail and whether
  or not the connection enforces references.  If every reference that versions of existing files
  and other holders have is counted and every record has its content stored, the same holds after
  the pass, and every chunk of every version of an existing file can still be read and has
  the content its hash names.\<close>

theorem gc_keeps_content:
  assumes "gc_ok (local_blob dir) plain_key sha extra st" and "gc_Handler lt (local_backend dir) job st = (r, st')"
  shows "gc_ok (local_blob dir) plain_key sha extra st' \<and> readable (local_blob dir) sha st'"
proof -
  have "gc_ok (local_blob dir) plain_key sha extra st'" using assms by (rule lb.handler_keeps)
  then show ?thesis using stored_readable [of "local_blob dir" plain_key sha st' extra] by (simp add: gc_ok_def)
qed

definition gc_demo_db :: database where
  "gc_demo_db = empty_db\<lparr>files := [(sample_file ''f'' None ''a'')\<lparr>f_trashed := True, f_trashed_at := Some 0\<rparr>, sample_file ''g'' None ''b''],
     manifests := [\<lparr>m_id = ''m'', m_file = ''f'', m_version = 1, m_size = 1, m_count = 1, m_chunks = [''abc''], m_checksum = [], m_device = [], m_created = 0\<rparr>,
                   \<lparr>m_id = ''n'', m_file = ''g'', m_version = 1, m_size = 1, m_count = 1, m_chunks = [''abc''], m_checksum = [], m_device = [], m_created = 0\<rparr>],
     chunks := [(new_chunk 0 ''local'' 1 [] ''abc'')\<lparr>c_ref := 2\<rparr>]\<rparr>"

definition gc_demo_fs :: local_fs where
  "gc_demo_fs = \<lparr>lf_files = [(keyToPath ''/data'' ''abc'', [1])], lf_faults = []\<rparr>"

definition gc_demo_job :: "gc_spec option job" where
  "gc_demo_job = \<lparr>job_ID = ''j'', job_Type = ''garbage-collect'', Payload = Some \<lparr>gs_type = ''trash'', gs_older = 1\<rparr>,
     Priority = 1, Retries = 0, job_MaxRetries = 3\<rparr>"

lemma gc_demo_ok: "gc_ok (local_blob ''/data'') plain_key (\<lambda>w. ''abc'') (\<lambda>h. 0) (gc_demo_db, gc_demo_fs)"
proof -
  have refs: "chunk_refs gc_demo_db = [''abc'' \<mapsto> 2]"
    by (auto simp: chunk_refs_def gc_demo_db_def new_chunk_def fun_eq_iff)
  have "owned gc_demo_db = manifests gc_demo_db"
    by (simp add: owned_def has_file_def gc_demo_db_def sample_file_def)
  moreover have "refs_of (manifests gc_demo_db) h = (if h = ''abc'' then 2 else 0)" for h
    by (simp add: refs_of_def gc_demo_db_def)
  ultimately have "covers (\<lambda>h. 0 + refs_of (owned gc_demo_db) h) gc_demo_db"
    by (simp add: covers_def refs count_of_def)
  moreover have "local_blob ''/data'' gc_demo_fs ''abc'' = Some [1]" by (simp add: local_blob_def gc_demo_fs_def)
  moreover have "k = ''abc''" if "plain_key k" "local_blob ''/data'' gc_demo_fs k = Some w" for k w
    using that keyToPath_inj [of k "''abc''" "''/data''"] by (simp add: local_blob_def gc_demo_fs_def plain_key_def split: if_splits)
  moreover have "db_ok gc_demo_db"
    by (auto simp: db_ok_def gc_demo_db_def empty_db_def files_ok_def names_unique_def name_clash_def
        manifests_ok_def chunks_ok_def sample_file_def new_chunk_def)
  ultimately show ?thesis
    by (auto simp: gc_ok_def stored_ok_def keys_ok_def present_def content_ok_def refs plain_key_def)
qed

theorem gc_keeps_content_witness:
  "readable (local_blob ''/data'') (\<lambda>w. ''abc'')
     (snd (gc_Handler (<) (local_backend ''/data'') gc_demo_job (gc_demo_db, gc_demo_fs)))"
  using gc_keeps_content [OF gc_demo_ok prod.collapse [symmetric]] by blast



end
