(* ===== verification/Upload.thy ===== *)
theory Upload
  imports Gc Vfs Chunker
begin

text \<open>
  Chunked uploads (\<^verbatim>\<open>src/internal/server/handlers_upload.go\<close>): the sessions of the upload
  handler and its five requests, with the periodic removal of expired sessions.

  A request handler is a function from the decoded request and the handler's state to the
  response and the new state.  The random bytes and the clock are arguments: \<open>clk k\<close> is the
  \<open>k\<close>-th reading of the clock in a request, and \<open>None\<close> for random bytes is an error of the
  generator.  \<open>sha\<close> is the hexadecimal SHA-256 digest of the chunker.  Requests are handled one at
  a time.
\<close>

section \<open>State\<close>

record upload_chunk =
  uc_index :: int
  uc_size :: int
  uc_checksum :: string
  uc_at :: int

record upload_session =
  us_id :: string
  us_user :: string
  us_parent :: string
  us_name :: string
  us_size :: int
  us_mime :: string
  us_checksum :: string
  us_status :: string
  us_created :: int
  us_expires :: int
  us_chunks :: "(int \<times> upload_chunk) list"
  us_total :: int
  us_hashes :: "(int \<times> string list) list"

text \<open>\<open>up_ready\<close>: database and storage are configured; \<open>up_vfs\<close>: the file system is.\<close>

record 'b upload_handler =
  up_db :: database
  up_store :: 'b
  up_sessions :: "(string \<times> upload_session) list"
  up_ready :: bool
  up_vfs :: bool

record create_request =
  cr_parent :: string
  cr_name :: string
  cr_size :: int
  cr_mime :: string
  cr_checksum :: string

datatype upload_response =
    UError nat string
  | SessionCreated string int int int
  | AlreadyUploaded
  | Uploaded int nat nat "string list"
  | UploadCompleted file_row
  | UploadStatus string string int int "int list" "int list"
  | UploadCancelled

definition DefaultChunkSize :: int where
  "DefaultChunkSize = 4 * 1024 * 1024"

definition SessionTTL :: int where
  "SessionTTL = 24 * 60 * 60 * 10 ^ 9"

definition MaxUploadSize :: int where
  "MaxUploadSize = 10 * 1024 * 1024 * 1024"

section \<open>createUpload\<close>

definition generateSessionID :: "string option \<Rightarrow> string option" where
  "generateSessionID rnd = map_option (\<lambda>r. ''upload_'' @ r) rnd"

definition total_chunks :: "int \<Rightarrow> int" where
  "total_chunks sz = go_div (wrap64 (wrap64 (sz + DefaultChunkSize) - 1)) DefaultChunkSize"

definition createUpload :: "string option \<Rightarrow> (nat \<Rightarrow> int) \<Rightarrow> string \<Rightarrow> create_request option \<Rightarrow> 'b upload_handler
    \<Rightarrow> upload_response \<times> 'b upload_handler" where
  "createUpload rnd clk userID body h =
     (if userID = [] then (UError 401 ''Unauthorized'', h)
      else case body of
        None \<Rightarrow> (UError 400 ''Invalid request body'', h)
      | Some req \<Rightarrow>
          if cr_name req = [] then (UError 400 ''Name is required'', h)
          else if cr_size req \<le> 0 then (UError 400 ''Invalid file size'', h)
          else if cr_size req > MaxUploadSize
          then (UError 400 (''File too large. Maximum size is '' @ dec_int MaxUploadSize @ '' bytes''), h)
          else case generateSessionID rnd of
            None \<Rightarrow> (UError 500 ''Failed to create upload session'', h)
          | Some sessionID \<Rightarrow>
              (let totalChunks = total_chunks (cr_size req);
                   session = \<lparr>us_id = sessionID, us_user = userID, us_parent = cr_parent req, us_name = cr_name req,
                     us_size = cr_size req, us_mime = cr_mime req, us_checksum = cr_checksum req, us_status = ''pending'',
                     us_created = clk 0, us_expires = clk 1 + SessionTTL, us_chunks = [], us_total = totalChunks,
                     us_hashes = []\<rparr>
               in (SessionCreated sessionID DefaultChunkSize totalChunks (rfc3339 (us_expires session)),
                   h\<lparr>up_sessions := al_put (up_sessions h) sessionID session\<rparr>)))"

section \<open>uploadChunk\<close>

text \<open>\<^verbatim>\<open>bytes.NewReader\<close> read into a buffer of \<open>n\<close> bytes.\<close>

function bytes_reader :: "nat \<Rightarrow> byte list \<Rightarrow> reader" where
  "bytes_reader n w = (if w = [] \<or> n = 0 then [([], Some EOF)] else (take n w, None) # bytes_reader n (drop n w))"
  by pat_completeness auto
termination
  by (relation "measure (\<lambda>(n, w). length w)") auto

declare bytes_reader.simps [simp del]

text \<open>The loop over the content-defined chunks: count an existing chunk up, store a new one.\<close>

fun store_chunks :: "'b backend \<Rightarrow> (nat \<Rightarrow> int) \<Rightarrow> nat \<Rightarrow> (chunk_info \<times> byte list) list \<Rightarrow> database \<times> 'b
    \<Rightarrow> string option \<times> database \<times> 'b" where
  "store_chunks B clk i [] st = (None, st)"
| "store_chunks B clk i ((ci, w) # rest) (d, b) =
     (let h = ci_hash ci
      in if ChunkExists h d
         then (case IncrementRefCount h d of
                 Inl e \<Rightarrow> (Some ''Failed to update chunk ref count'', d, b)
               | Inr d' \<Rightarrow> store_chunks B clk (Suc i) rest (d', b))
         else (case be_put B h w b of
                 (Some e, b') \<Rightarrow> (Some ''Failed to store chunk'', d, b')
               | (None, b') \<Rightarrow>
                   (case CreateChunk (new_chunk (clk i) (be_type B) (ci_size ci) (take 2 h @ ''/'' @ h @ ''.chunk'') h) d of
                      Inl e \<Rightarrow> (Some ''Failed to create chunk record'', d, b')
                    | Inr d' \<Rightarrow> store_chunks B clk (Suc i) rest (d', b'))))"

definition record_chunk :: "int \<Rightarrow> nat \<Rightarrow> int \<Rightarrow> string list \<Rightarrow> upload_session \<Rightarrow> upload_session" where
  "record_chunk idx len now hashes s =
     (let cs = al_put (us_chunks s) idx \<lparr>uc_index = idx, uc_size = int len, uc_checksum = [], uc_at = now\<rparr>
      in s\<lparr>us_chunks := cs, us_hashes := al_put (us_hashes s) idx hashes,
           us_status := (if int (length cs) = us_total s then ''completed'' else ''in_progress'')\<rparr>)"

definition maxChunkSize :: int where
  "maxChunkSize = DefaultChunkSize + 1024"

text \<open>\<open>body\<close> is what the request body delivers: a read error or its bytes.\<close>

definition uploadChunk :: "(byte list \<Rightarrow> string) \<Rightarrow> chunker \<Rightarrow> 'b backend \<Rightarrow> (nat \<Rightarrow> int) \<Rightarrow> string \<Rightarrow> string \<Rightarrow> string
    \<Rightarrow> int \<Rightarrow> (string + byte list) \<Rightarrow> 'b upload_handler \<Rightarrow> (upload_response \<times> 'b upload_handler) outcome" where
  "uploadChunk sha ck B clk userID sessionID chunkIndexStr contentLength body h =
     (if userID = [] then Returns (UError 401 ''Unauthorized'', h)
      else if sessionID = [] then Returns (UError 400 ''Session ID required'', h)
      else if chunkIndexStr = [] then Returns (UError 400 ''Chunk index required'', h)
      else case atoi chunkIndexStr of
        None \<Rightarrow> Returns (UError 400 ''Invalid chunk index'', h)
      | Some idx \<Rightarrow>
          if idx < 0 then Returns (UError 400 ''Invalid chunk index'', h)
          else case al_get (up_sessions h) sessionID of
            None \<Rightarrow> Returns (UError 404 ''Upload session not found'', h)
          | Some s \<Rightarrow>
              if us_user s \<noteq> userID then Returns (UError 403 ''Access denied'', h)
              else if clk 0 > us_expires s then Returns (UError 410 ''Upload session expired'', h)
              else if idx \<ge> us_total s then Returns (UError 400 ''Invalid chunk index'', h)
              else if al_get (us_chunks s) idx \<noteq> None then Returns (AlreadyUploaded, h)
              else if \<not> up_ready h then Returns (UError 503 ''Storage not available'', h)
              else if contentLength > maxChunkSize then Returns (UError 400 ''Chunk too large'', h)
              else if contentLength \<le> 0 then Returns (UError 400 ''Missing or invalid Content-Length'', h)
              else case body of
                Inl e \<Rightarrow> Returns (UError 400 ''Failed to read chunk data'', h)
              | Inr bytes \<Rightarrow>
                  (let chunkData = take (nat maxChunkSize) bytes
                   in if chunkData = [] then Returns (UError 400 ''Empty chunk data'', h)
                      else obind (ChunkWithData sha ck (bytes_reader (4 * 1024 * 1024) chunkData)) (\<lambda>r. Returns
                        (case r of
                           Inl e \<Rightarrow> (UError 500 ''Failed to process chunk with CDC'', h)
                         | Inr (cdcChunks, cdcData) \<Rightarrow>
                             (case store_chunks B clk 1 (zip cdcChunks cdcData) (up_db h, up_store h) of
                                (Some e, d, b) \<Rightarrow> (UError 500 e, h\<lparr>up_db := d, up_store := b\<rparr>)
                              | (None, d, b) \<Rightarrow>
                                  (let hashes = map ci_hash cdcChunks
                                   in (Uploaded idx (length chunkData) (length cdcChunks) hashes,
                                       h\<lparr>up_db := d, up_store := b,
                                         up_sessions := al_put (up_sessions h) sessionID
                                           (record_chunk idx (length chunkData) (clk (Suc (length cdcChunks))) hashes s)\<rparr>)))))))"

section \<open>completeUpload\<close>

definition getMissingChunksLocked :: "upload_session \<Rightarrow> int list" where
  "getMissingChunksLocked s = filter (\<lambda>i. al_get (us_chunks s) i = None) [0..us_total s - 1]"

definition getMissingChunks :: "upload_session \<Rightarrow> int list" where
  "getMissingChunks s = getMissingChunksLocked s"

text \<open>\<^verbatim>\<open>%v\<close> of a slice of integers.\<close>

definition show_ints :: "int list \<Rightarrow> string" where
  "show_ints xs = ''['' @ join_with '' '' (map dec_int xs) @ '']''"

definition collected_hashes :: "upload_session \<Rightarrow> string list" where
  "collected_hashes s = concat (map (\<lambda>i. case al_get (us_hashes s) i of None \<Rightarrow> [] | Some hs \<Rightarrow> hs) [0..us_total s - 1])"

definition ignore_error :: "'a \<Rightarrow> 'e + 'a \<Rightarrow> 'a" where
  "ignore_error x r = (case r of Inl _ \<Rightarrow> x | Inr y \<Rightarrow> y)"

text \<open>\<open>rnd\<close> is the random part of the id of the file, \<open>ms\<close> that of the manifest.\<close>

definition completeUpload :: "string \<Rightarrow> string option \<Rightarrow> (nat \<Rightarrow> int) \<Rightarrow> string \<Rightarrow> string \<Rightarrow> 'b upload_handler
    \<Rightarrow> upload_response \<times> 'b upload_handler" where
  "completeUpload rnd ms clk userID sessionID h =
     (if \<not> up_vfs h then (UError 503 ''VFS not available'', h)
      else if userID = [] then (UError 401 ''Unauthorized'', h)
      else if sessionID = [] then (UError 400 ''Session ID required'', h)
      else case al_get (up_sessions h) sessionID of
        None \<Rightarrow> (UError 404 ''Upload session not found'', h)
      | Some s \<Rightarrow>
          if us_user s \<noteq> userID then (UError 403 ''Access denied'', h)
          else if int (length (us_chunks s)) < us_total s
          then (UError 400 (''Missing chunks: '' @ show_ints (getMissingChunks s)), h)
          else case vfs_CreateFile rnd (clk 0) userID (us_parent s) (us_name s) (us_mime s) (us_size s) (up_db h) of
            Inl ErrAlreadyExists \<Rightarrow> (UError 409 ''File already exists'', h)
          | Inl ErrInvalidName \<Rightarrow> (UError 400 ''Invalid file name'', h)
          | Inl _ \<Rightarrow> (UError 500 ''Internal server error'', h)
          | Inr (f, d1) \<Rightarrow>
              (case ms of
                 None \<Rightarrow> (UError 500 ''Internal server error'', h\<lparr>up_db := d1\<rparr>)
               | Some m \<Rightarrow>
                   (let allChunkHashes = collected_hashes s;
                        manifestID = ''manifest_'' @ m;
                        mf = \<lparr>m_id = manifestID, m_file = f_id f, m_version = 1, m_size = us_size s,
                          m_count = int (length allChunkHashes), m_chunks = allChunkHashes, m_checksum = us_checksum s,
                          m_device = ''server'', m_created = clk 1\<rparr>
                    in case CreateManifest mf d1 of
                         Inl e \<Rightarrow> (UError 500 ''Failed to create manifest'',
                           h\<lparr>up_db := ignore_error d1 (vfs_Delete (clk 2) (f_id f) d1)\<rparr>)
                       | Inr d2 \<Rightarrow>
                           (case UpdateFile (clk 2) (f_id f) [UManifest (Some manifestID)] d2 of
                              Inl e \<Rightarrow>
                                (let d3 = ignore_error d2 (DeleteManifest manifestID d2)
                                 in (UError 500 ''Failed to update file with manifest'',
                                     h\<lparr>up_db := ignore_error d3 (vfs_Delete (clk 3) (f_id f) d3)\<rparr>))
                            | Inr d3 \<Rightarrow> (UploadCompleted f,
                                h\<lparr>up_db := d3, up_sessions := al_del (up_sessions h) sessionID\<rparr>)))))"

section \<open>getUploadStatus\<close>

definition getUploadStatus :: "(nat \<Rightarrow> int) \<Rightarrow> string \<Rightarrow> string \<Rightarrow> 'b upload_handler \<Rightarrow> upload_response" where
  "getUploadStatus clk userID sessionID h =
     (if userID = [] then UError 401 ''Unauthorized''
      else if sessionID = [] then UError 400 ''Session ID required''
      else case al_get (up_sessions h) sessionID of
        None \<Rightarrow> UError 404 ''Upload session not found''
      | Some s \<Rightarrow>
          if us_user s \<noteq> userID then UError 403 ''Access denied''
          else if clk 0 > us_expires s then UError 410 ''Upload session expired''
          else UploadStatus sessionID (us_status s)
                 (fold (\<lambda>(_, c) n. wrap64 (n + uc_size c)) (us_chunks s) 0) (us_size s)
                 (getMissingChunksLocked s) (map fst (us_chunks s)))"

section \<open>cancelUpload\<close>

text \<open>One pass of the loop of \<^verbatim>\<open>cancelUpload\<close>: it reads the count before it lowers it.\<close>

fun cancel_chunk :: "'b backend \<Rightarrow> string \<Rightarrow> database \<times> 'b \<Rightarrow> database \<times> 'b" where
  "cancel_chunk B h (d, b) =
     (case GetChunk h d of
        Inl e \<Rightarrow> (d, b)
      | Inr c \<Rightarrow>
          (case DecrementRefCount h d of
             Inl e \<Rightarrow> (d, b)
           | Inr d1 \<Rightarrow> if c_ref c \<le> 1
                      then (ignore_error d1 (DeleteChunk h d1), snd (be_delete B h b))
                      else (d1, b)))"

definition session_hashes :: "upload_session \<Rightarrow> string list" where
  "session_hashes s = concat (map snd (us_hashes s))"

definition cancelUpload :: "'b backend \<Rightarrow> string \<Rightarrow> string \<Rightarrow> 'b upload_handler \<Rightarrow> upload_response \<times> 'b upload_handler" where
  "cancelUpload B userID sessionID h =
     (if userID = [] then (UError 401 ''Unauthorized'', h)
      else if sessionID = [] then (UError 400 ''Session ID required'', h)
      else case al_get (up_sessions h) sessionID of
        None \<Rightarrow> (UError 404 ''Upload session not found'', h)
      | Some s \<Rightarrow>
          if us_user s \<noteq> userID then (UError 403 ''Access denied'', h)
          else (let h1 = h\<lparr>up_sessions := al_del (up_sessions h) sessionID\<rparr>
                in if up_ready h
                   then (let (d, b) = fold (cancel_chunk B) (session_hashes s) (up_db h, up_store h)
                         in (UploadCancelled, h1\<lparr>up_db := d, up_store := b\<rparr>))
                   else (UploadCancelled, h1)))"

section \<open>cleanupExpiredSessions\<close>

text \<open>One tick of the ticker: the loop over the sessions.\<close>

definition expire_session :: "'b backend \<Rightarrow> int \<Rightarrow> string \<times> upload_session \<Rightarrow> 'b upload_handler \<Rightarrow> 'b upload_handler" where
  "expire_session B now entry h =
     (let s = snd entry
      in if now > us_expires s
         then (let (d, b) = fold (release B) (session_hashes s) (up_db h, up_store h)
               in h\<lparr>up_db := d, up_store := b, up_sessions := al_del (up_sessions h) (fst entry)\<rparr>)
         else h)"

definition cleanupExpiredSessions :: "'b backend \<Rightarrow> int \<Rightarrow> 'b upload_handler \<Rightarrow> 'b upload_handler" where
  "cleanupExpiredSessions B now h = fold (expire_session B now) (up_sessions h) h"

section \<open>Sums over Go maps\<close>

definition al_sum :: "('v \<Rightarrow> nat) \<Rightarrow> ('k \<times> 'v) list \<Rightarrow> nat" where
  "al_sum w m = sum_list (map (\<lambda>(k, v). w v) m)"

definition weight_at :: "('v \<Rightarrow> nat) \<Rightarrow> 'v option \<Rightarrow> nat" where
  "weight_at w r = (case r of None \<Rightarrow> 0 | Some v \<Rightarrow> w v)"

lemma al_sum_put: "al_sum w (al_put m k v) + weight_at w (al_get m k) = al_sum w m + w v"
  by (induction m k v rule: al_put.induct) (auto simp: al_sum_def weight_at_def)

lemma al_sum_del: "al_ok m \<Longrightarrow> al_sum w (al_del m k) + weight_at w (al_get m k) = al_sum w m"
proof (induction m)
  case Nil
  then show ?case by (simp add: al_sum_def weight_at_def al_del_def)
next
  case (Cons p m)
  obtain k' v where p: "p = (k', v)" by (cases p)
  have "al_del m k' = m" using Cons.prems by (intro al_del_notin) (auto simp: p al_ok_def)
  with Cons show ?case by (auto simp: p al_sum_def weight_at_def al_del_def al_ok_def)
qed

lemma al_sum_reads:
  "distinct ks \<Longrightarrow> sum_list (map (\<lambda>k. weight_at w (al_get m k)) ks) \<le> al_sum w m"
proof (induction m arbitrary: ks)
  case Nil
  then show ?case by (simp add: weight_at_def)
next
  case (Cons p m)
  obtain k v where p: "p = (k, v)" by (cases p)
  have split: "sum_list (map (\<lambda>k'. weight_at w (al_get (p # m) k')) ks)
      = (if k \<in> set ks then w v else 0) + sum_list (map (\<lambda>k'. weight_at w (al_get m k')) (filter (\<lambda>k'. k' \<noteq> k) ks))"
    using Cons.prems by (induction ks) (auto simp: p weight_at_def)
  have "sum_list (map (\<lambda>k'. weight_at w (al_get m k')) (filter (\<lambda>k'. k' \<noteq> k) ks)) \<le> al_sum w m"
    using Cons by simp
  then show ?case unfolding split by (auto simp: p al_sum_def)
qed

lemma count_concat: "count_list (concat xss) h = sum_list (map (\<lambda>xs. count_list xs h) xss)"
  by (induction xss) (simp_all add: count_list_append)

section \<open>What the sessions hold\<close>

definition sess_refs :: "(string \<times> upload_session) list \<Rightarrow> string \<Rightarrow> nat" where
  "sess_refs ss h = al_sum (\<lambda>s. count_list (session_hashes s) h) ss"

definition session_wf :: "upload_session \<Rightarrow> bool" where
  "session_wf s \<longleftrightarrow> al_ok (us_chunks s) \<and> map fst (us_hashes s) = map fst (us_chunks s)
     \<and> (\<forall>i \<in> fst ` set (us_chunks s). 0 \<le> i \<and> i < us_total s)"

definition up_ok :: "('b \<Rightarrow> string \<Rightarrow> byte list option) \<Rightarrow> (string \<Rightarrow> bool) \<Rightarrow> (byte list \<Rightarrow> string) \<Rightarrow> 'b upload_handler \<Rightarrow> bool" where
  "up_ok blob key_ok sha h \<longleftrightarrow> gc_ok blob key_ok sha (sess_refs (up_sessions h)) (up_db h, up_store h)
     \<and> al_ok (up_sessions h) \<and> (\<forall>(k, s) \<in> set (up_sessions h). session_wf s)"

lemma session_hashes_count: "count_list (session_hashes s) h = al_sum (\<lambda>hs. count_list hs h) (us_hashes s)"
  by (simp add: session_hashes_def count_concat al_sum_def comp_def case_prod_unfold)

lemma collected_le: "count_list (collected_hashes s) h \<le> count_list (session_hashes s) h"
proof -
  have "count_list (case r of None \<Rightarrow> [] | Some hs \<Rightarrow> hs) h = weight_at (\<lambda>hs. count_list hs h) r" for r :: "string list option"
    by (simp add: weight_at_def split: option.split)
  then have "count_list (collected_hashes s) h = sum_list (map (\<lambda>i. weight_at (\<lambda>hs. count_list hs h) (al_get (us_hashes s) i)) [0..us_total s - 1])"
    by (simp add: collected_hashes_def count_concat comp_def)
  also have "\<dots> \<le> al_sum (\<lambda>hs. count_list hs h) (us_hashes s)" by (rule al_sum_reads) simp
  finally show ?thesis by (simp add: session_hashes_count)
qed

lemma sess_refs_put:
  "sess_refs (al_put ss k s) h + weight_at (\<lambda>s. count_list (session_hashes s) h) (al_get ss k)
   = sess_refs ss h + count_list (session_hashes s) h"
  unfolding sess_refs_def by (rule al_sum_put)

lemma sess_refs_del:
  "al_ok ss \<Longrightarrow> al_get ss k = Some s \<Longrightarrow> sess_refs (al_del ss k) h + count_list (session_hashes s) h = sess_refs ss h"
  using al_sum_del [of ss "\<lambda>s. count_list (session_hashes s) h" k] by (simp add: sess_refs_def weight_at_def)

lemma gc_ok_extra: "gc_ok blob key_ok sha n st \<Longrightarrow> (\<And>h. k h \<le> n h) \<Longrightarrow> gc_ok blob key_ok sha k st"
  unfolding gc_ok_def by (auto intro: covers_mono)

lemma wf_sessions_put: "\<forall>(k, s) \<in> set m. P s \<Longrightarrow> P s' \<Longrightarrow> \<forall>(k, s) \<in> set (al_put m k s'). P s"
  using set_al_put [of m k s'] by auto

lemma wf_sessions_del: "\<forall>(k, s) \<in> set m. P s \<Longrightarrow> \<forall>(k, s) \<in> set (al_del m k). P s"
  using set_al_del [of m k] by auto

lemma map_fst_put_same: "map fst a = map fst b \<Longrightarrow> map fst (al_put a k v) = map fst (al_put b k w)"
proof (induction a arbitrary: b)
  case Nil
  then show ?case by (cases b) auto
next
  case (Cons p a)
  then obtain q c where "b = q # c" by (cases b) auto
  with Cons show ?case by (cases p; cases q) auto
qed

lemma record_chunk_wf:
  assumes "session_wf s" and "0 \<le> idx" and "idx < us_total s"
  shows "session_wf (record_chunk idx len now hs s)"
proof -
  have "map fst (al_put (us_hashes s) idx hs) = map fst (al_put (us_chunks s) idx u)" for u
    using assms(1) by (intro map_fst_put_same) (simp add: session_wf_def)
  then show ?thesis
    using assms fst_al_put [of "us_chunks s" idx] by (auto simp: session_wf_def record_chunk_def Let_def)
qed

lemma record_chunk_count:
  assumes "session_wf s" and "al_get (us_chunks s) idx = None"
  shows "count_list (session_hashes (record_chunk idx len now hs s)) h = count_list (session_hashes s) h + count_list hs h"
proof -
  have "fst ` set (us_hashes s) = fst ` set (us_chunks s)" using assms(1) by (metis session_wf_def list.set_map)
  then have "al_get (us_hashes s) idx = None" using assms(2) by (simp add: al_get_None_iff)
  with al_sum_put [of "\<lambda>hs. count_list hs h" "us_hashes s" idx hs] show ?thesis
    by (simp add: session_hashes_count record_chunk_def Let_def weight_at_def)
qed

section \<open>Storing\<close>

context blob_store
begin

text \<open>One chunk stored or counted: its count is one higher and its content is there.\<close>

lemma store_one:
  assumes ok: "stored_ok blob key_ok sha (d, b)" and cov: "covers n d" and w: "ci_hash ci = sha w" "key_ok (sha w)"
    and run: "store_chunks B clk i [(ci, w)] (d, b) = (e, d', b')"
  shows "stored_ok blob key_ok sha (d', b') \<and> covers n d' \<and> files d' = files d \<and> manifests d' = manifests d
    \<and> (e = None \<longrightarrow> covers (\<lambda>k. n k + (if k = ci_hash ci then 1 else 0)) d')"
proof -
  let ?h = "ci_hash ci"
  have parts: "db_ok d" "keys_ok key_ok d" "present blob (d, b)" "content_ok blob key_ok sha b"
    using ok by (simp_all add: stored_ok_def)
  have counted: "covers n e1 \<and> covers (\<lambda>k. n k + (if k = ?h then 1 else 0)) e1"
    if "chunk_refs e1 = (chunk_refs d)(?h \<mapsto> count_of (chunk_refs d ?h) + 1)" for e1
  proof -
    have "int (n k + (if k = ?h then 1 else 0)) \<le> count_of (chunk_refs e1 k)" for k
      using cov that by (auto simp: covers_def count_of_def)
    then have "covers (\<lambda>k. n k + (if k = ?h then 1 else 0)) e1" unfolding covers_def by blast
    then show ?thesis using covers_mono [of "\<lambda>k. n k + (if k = ?h then 1 else 0)" e1 n] by simp
  qed
  show ?thesis
  proof (cases "chunk_refs d ?h")
    case (Some k)
    from Increment_refs [OF parts(1) Some] obtain d1 where
      d1: "IncrementRefCount ?h d = Inr d1" "db_ok d1" "chunk_refs d1 = (chunk_refs d)(?h \<mapsto> k + 1)" by blast
    have "ChunkExists ?h d" using Some chunk_refs_None [of d ?h] by auto
    then have eq: "e = None" "d' = d1" "b' = b" using run d1(1) by auto
    have "keys_ok key_ok d1" "present blob (d1, b)"
      using parts(2,3) d1(3) Some by (auto simp: keys_ok_def present_def)
    moreover have "files d1 = files d \<and> manifests d1 = manifests d"
      using d1(1) by (auto simp: IncrementRefCount_def split: if_split_asm)
    ultimately show ?thesis using eq d1 parts(4) counted [of d1] Some by (simp add: stored_ok_def count_of_def)
  next
    case None
    obtain pe b1 where put: "be_put B (sha w) w b = (pe, b1)" by (cases "be_put B (sha w) w b")
    have keep: "blob b1 k \<noteq> None" if "chunk_refs d k \<noteq> None" for k
      using that parts(2,3) put_keeps [OF w(2) _ put, of k] by (auto simp: keys_ok_def present_def)
    note con = put_content [OF parts(4) w(2) put]
    have ex: "\<not> ChunkExists ?h d" using None chunk_refs_None [of d ?h] by simp
    show ?thesis
    proof (cases pe)
      case (Some x)
      then have eq: "e \<noteq> None" "d' = d" "b' = b1" using run ex put w(1) by auto
      then show ?thesis using parts con keep cov by (auto simp: stored_ok_def present_def)
    next
      case None2: None
      let ?c = "new_chunk (clk i) (be_type B) (ci_size ci) (take 2 ?h @ ''/'' @ ?h @ ''.chunk'') ?h"
      have "c_hash ?c = ?h" "c_ref ?c = 1" by (simp_all add: new_chunk_def)
      with Create_refs [OF parts(1), of ?c 1] None obtain d1 where
        d1: "CreateChunk ?c d = Inr d1" "db_ok d1" "chunk_refs d1 = (chunk_refs d)(?h \<mapsto> 1)" by auto
      then have eq: "e = None" "d' = d1" "b' = b1" using run ex put w(1) None2 by auto
      have "blob b1 ?h \<noteq> None" using put_stores [OF w(2)] put None2 w(1) by simp
      then have "present blob (d1, b1)" "keys_ok key_ok d1"
        using keep parts(2) d1(3) w by (auto simp: present_def keys_ok_def)
      moreover have "files d1 = files d \<and> manifests d1 = manifests d" using CreateChunk_Inr [OF d1(1)] by simp
      ultimately show ?thesis using eq d1 con counted [of d1] None by (simp add: stored_ok_def count_of_def)
    qed
  qed
qed

end

lemma store_chunks_Cons:
  "store_chunks B clk i (x # xs) st =
     (case store_chunks B clk i [x] st of (Some e, st') \<Rightarrow> (Some e, st') | (None, st') \<Rightarrow> store_chunks B clk (Suc i) xs st')"
  by (cases st; cases x) (auto simp: Let_def split: sum.split prod.split option.split)

context blob_store
begin

lemma store_all:
  assumes "stored_ok blob key_ok sha st" and "covers n (fst st)"
    and "\<forall>(ci, w) \<in> set xs. ci_hash ci = sha w \<and> key_ok (sha w)" and "store_chunks B clk i xs st = (e, st')"
  shows "stored_ok blob key_ok sha st' \<and> covers n (fst st') \<and> files (fst st') = files (fst st) \<and> manifests (fst st') = manifests (fst st)
    \<and> (e = None \<longrightarrow> covers (\<lambda>k. n k + count_list (map (\<lambda>y. ci_hash (fst y)) xs) k) (fst st'))"
  using assms
proof (induction xs arbitrary: st i n)
  case Nil
  then show ?case by simp
next
  case (Cons x xs)
  obtain ci w where x: "x = (ci, w)" by (cases x)
  obtain d b where st: "st = (d, b)" by (cases st)
  obtain e1 d1 b1 where one: "store_chunks B clk i [x] st = (e1, d1, b1)" by (metis surj_pair)
  have s1: "stored_ok blob key_ok sha (d1, b1) \<and> covers n d1 \<and> files d1 = files d \<and> manifests d1 = manifests d
    \<and> (e1 = None \<longrightarrow> covers (\<lambda>k. n k + (if k = ci_hash ci then 1 else 0)) d1)"
    using Cons.prems one by (intro store_one [of sha d b n ci w clk i e1]) (auto simp: x st)
  show ?case
  proof (cases e1)
    case (Some y)
    then have "e = Some y" "st' = (d1, b1)" using Cons.prems(4) one by (simp_all add: store_chunks_Cons [of _ _ _ x xs])
    with s1 show ?thesis by (simp add: st)
  next
    case None
    let ?n = "\<lambda>k. n k + (if k = ci_hash ci then 1 else 0)"
    have run: "store_chunks B clk (Suc i) xs (d1, b1) = (e, st')"
      using Cons.prems(4) one None by (simp add: store_chunks_Cons [of _ _ _ x xs])
    have "stored_ok blob key_ok sha st' \<and> covers ?n (fst st') \<and> files (fst st') = files d1 \<and> manifests (fst st') = manifests d1
      \<and> (e = None \<longrightarrow> covers (\<lambda>k. ?n k + count_list (map (\<lambda>y. ci_hash (fst y)) xs) k) (fst st'))"
      using Cons.IH [OF _ _ _ run, of ?n] s1 None Cons.prems(3) by simp
    moreover have "(\<lambda>k. ?n k + count_list (map (\<lambda>y. ci_hash (fst y)) xs) k) = (\<lambda>k. n k + count_list (map (\<lambda>y. ci_hash (fst y)) (x # xs)) k)"
      by (auto simp: x)
    moreover have "covers ?n (fst st') \<Longrightarrow> covers n (fst st')" by (erule covers_mono) simp
    ultimately show ?thesis using s1 by (simp add: st)
  qed
qed

end

section \<open>The requests keep what is held\<close>

lemma infos_zip: "(ci, w) \<in> set (zip (infos sha a ps) ps) \<Longrightarrow> ci_hash ci = sha w"
  by (induction ps arbitrary: a) auto

lemma map_hash_infos: "map ci_hash (infos sha a ps) = map sha ps"
  by (induction ps arbitrary: a) auto

lemma length_infos: "length (infos sha a ps) = length ps"
  by (induction ps arbitrary: a) auto

lemma drain_bytes: "0 < n \<Longrightarrow> drain (bytes_reader n w) = (w, Some EOF)"
  by (induction n w rule: bytes_reader.induct) (subst bytes_reader.simps, auto)

lemma ChunkWithData_bytes:
  "0 \<le> maxSize c \<Longrightarrow> ChunkWithData sha c (bytes_reader (4 * 1024 * 1024) w)
     = Returns (Inr (infos sha 0 (cut_pieces c w), cut_pieces c w))"
  using ChunkWithData_spec [of c sha] drain_bytes [of "4 * 1024 * 1024" w] by (simp add: Let_def)

text \<open>The successful case of an uploaded chunk.\<close>

lemma uploadChunk_cases:
  assumes "0 \<le> maxSize ck"
    and "uploadChunk sha ck B clk u sid istr len body h = Returns (resp, h')"
  shows "(\<exists>code msg. resp = UError code msg \<and> h' = h) \<or> resp = AlreadyUploaded \<and> h' = h
    \<or> (\<exists>idx s w e d b. atoi istr = Some idx \<and> 0 \<le> idx \<and> idx < us_total s \<and> al_get (up_sessions h) sid = Some s
        \<and> us_user s = u \<and> al_get (us_chunks s) idx = None \<and> w = take (nat maxChunkSize) (projr body) \<and> w \<noteq> []
        \<and> store_chunks B clk 1 (zip (infos sha 0 (cut_pieces ck w)) (cut_pieces ck w)) (up_db h, up_store h) = (e, d, b)
        \<and> (case e of Some x \<Rightarrow> resp = UError 500 x \<and> h' = h\<lparr>up_db := d, up_store := b\<rparr>
           | None \<Rightarrow> resp = Uploaded idx (length w) (length (cut_pieces ck w)) (map sha (cut_pieces ck w))
               \<and> h' = h\<lparr>up_db := d, up_store := b, up_sessions := al_put (up_sessions h) sid
                   (record_chunk idx (length w) (clk (Suc (length (cut_pieces ck w)))) (map sha (cut_pieces ck w)) s)\<rparr>))"
  using assms(2) unfolding uploadChunk_def ChunkWithData_bytes [OF assms(1)] obind.simps Let_def
  by (simp add: map_hash_infos length_infos split: if_split_asm option.split_asm sum.split_asm prod.split_asm) auto

lemma up_okD:
  assumes "up_ok blob key_ok sha h"
  shows "gc_ok blob key_ok sha (sess_refs (up_sessions h)) (up_db h, up_store h)" "al_ok (up_sessions h)"
    "al_get (up_sessions h) k = Some s \<Longrightarrow> session_wf s" "db_ok (up_db h)"
  using assms al_get_Some_set [of "up_sessions h" k s] by (auto simp: up_ok_def gc_ok_def stored_ok_def)

lemma create_ok:
  assumes ok: "up_ok blob key_ok sha h" and run: "createUpload rnd clk u body h = (resp, h')"
  shows "up_ok blob key_ok sha h'"
proof -
  have new: "up_ok blob key_ok sha (h\<lparr>up_sessions := al_put (up_sessions h) k s\<rparr>)"
    if s: "us_hashes s = []" "us_chunks s = []" for k s
  proof -
    have "sess_refs (al_put (up_sessions h) k s) x \<le> sess_refs (up_sessions h) x" for x
      using sess_refs_put [of "up_sessions h" k s x] by (simp add: session_hashes_def s)
    then have "gc_ok blob key_ok sha (sess_refs (al_put (up_sessions h) k s)) (up_db h, up_store h)"
      by (rule gc_ok_extra [OF up_okD(1) [OF ok]])
    moreover have "session_wf s" by (simp add: session_wf_def s al_ok_def)
    ultimately show ?thesis using ok wf_sessions_put [of "up_sessions h" session_wf s k] by (simp add: up_ok_def)
  qed
  show ?thesis
    using run ok new unfolding createUpload_def by (auto simp: Let_def split: if_split_asm option.split_asm)
qed

context blob_store
begin

lemma upload_ok:
  assumes ok: "up_ok blob key_ok sha h" and ck: "0 \<le> maxSize ck" and keys: "\<And>w. key_ok (sha w)"
    and run: "uploadChunk sha ck B clk u sid istr len body h = Returns (resp, h')"
  shows "up_ok blob key_ok sha h'"
  using uploadChunk_cases [OF ck run]
proof (elim disjE)
  assume "\<exists>idx s w e d b. atoi istr = Some idx \<and> 0 \<le> idx \<and> idx < us_total s \<and> al_get (up_sessions h) sid = Some s
        \<and> us_user s = u \<and> al_get (us_chunks s) idx = None \<and> w = take (nat maxChunkSize) (projr body) \<and> w \<noteq> []
        \<and> store_chunks B clk 1 (zip (infos sha 0 (cut_pieces ck w)) (cut_pieces ck w)) (up_db h, up_store h) = (e, d, b)
        \<and> (case e of Some x \<Rightarrow> resp = UError 500 x \<and> h' = h\<lparr>up_db := d, up_store := b\<rparr>
           | None \<Rightarrow> resp = Uploaded idx (length w) (length (cut_pieces ck w)) (map sha (cut_pieces ck w))
               \<and> h' = h\<lparr>up_db := d, up_store := b, up_sessions := al_put (up_sessions h) sid
                   (record_chunk idx (length w) (clk (Suc (length (cut_pieces ck w)))) (map sha (cut_pieces ck w)) s)\<rparr>)"
  then obtain idx s w e d b where s: "0 \<le> idx" "idx < us_total s" "al_get (up_sessions h) sid = Some s" "al_get (us_chunks s) idx = None"
    and st: "store_chunks B clk 1 (zip (infos sha 0 (cut_pieces ck w)) (cut_pieces ck w)) (up_db h, up_store h) = (e, d, b)"
    and h': "case e of Some x \<Rightarrow> h' = h\<lparr>up_db := d, up_store := b\<rparr>
       | None \<Rightarrow> h' = h\<lparr>up_db := d, up_store := b, up_sessions := al_put (up_sessions h) sid
                   (record_chunk idx (length w) (clk (Suc (length (cut_pieces ck w)))) (map sha (cut_pieces ck w)) s)\<rparr>"
    by (auto split: option.split_asm)
  let ?ps = "cut_pieces ck w" and ?n = "\<lambda>k. sess_refs (up_sessions h) k + refs_of (owned (up_db h)) k"
  have hashes: "map (\<lambda>y. ci_hash (fst y)) (zip (infos sha 0 ?ps) ?ps) = map sha ?ps"
  proof -
    have "map (\<lambda>y. ci_hash (fst y)) (zip (infos sha 0 ?ps) ?ps) = map ci_hash (map fst (zip (infos sha 0 ?ps) ?ps))" by simp
    also have "\<dots> = map sha ?ps" by (simp only: map_fst_zip length_infos map_hash_infos)
    finally show ?thesis .
  qed
  have all: "stored_ok blob key_ok sha (d, b) \<and> covers ?n d \<and> files d = files (up_db h) \<and> manifests d = manifests (up_db h)
    \<and> (e = None \<longrightarrow> covers (\<lambda>k. ?n k + count_list (map sha ?ps) k) d)"
  proof -
    have "stored_ok blob key_ok sha (up_db h, up_store h)" "covers ?n (fst (up_db h, up_store h))"
      using up_okD(1) [OF ok] by (simp_all add: gc_ok_def)
    moreover have "\<forall>(ci, w) \<in> set (zip (infos sha 0 ?ps) ?ps). ci_hash ci = sha w \<and> key_ok (sha w)"
      using keys infos_zip by fast
    ultimately show ?thesis using store_all [OF _ _ _ st, of sha ?n] unfolding hashes fst_conv by blast
  qed
  then have own: "owned d = owned (up_db h)" by (intro owned_rows) simp_all
  show ?thesis
  proof (cases e)
    case (Some x)
    then show ?thesis using h' ok all own by (simp add: up_ok_def gc_ok_def)
  next
    case None
    let ?s = "record_chunk idx (length w) (clk (Suc (length ?ps))) (map sha ?ps) s"
    note wf = up_okD(3) [OF ok s(3)]
    have "sess_refs (al_put (up_sessions h) sid ?s) k = sess_refs (up_sessions h) k + count_list (map sha ?ps) k" for k
      using sess_refs_put [of "up_sessions h" sid ?s k] s(3) record_chunk_count [OF wf s(4)] by (simp add: weight_at_def)
    then have "covers (\<lambda>k. sess_refs (al_put (up_sessions h) sid ?s) k + refs_of (owned d) k) d"
      using all None own by (simp add: add.commute add.left_commute add.assoc)
    moreover have "session_wf ?s" using record_chunk_wf [OF wf s(1,2)] .
    ultimately show ?thesis
      using None h' all up_okD(2) [OF ok] wf_sessions_put [of "up_sessions h" session_wf ?s sid] ok by (simp add: up_ok_def gc_ok_def)
  qed
qed (use ok in auto)

lemma cancel_chunk_release: "db_ok d \<Longrightarrow> cancel_chunk B h (d, b) = release B h (d, b)"
proof (cases "\<exists>n. chunk_refs d h = Some n \<and> 0 < n")
  assume ok: "db_ok d"
  case True
  then obtain n where n: "chunk_refs d h = Some n" "0 < n" by blast
  from Decrement_refs [OF ok n] obtain d1 where
    d1: "DecrementRefCount h d = Inr d1" "chunk_refs d1 = (chunk_refs d)(h \<mapsto> n - 1)" by blast
  obtain c where c: "GetChunk h d = Inr c" "c_ref c = n"
    using n by (cases "GetChunk h d") (auto dest: GetChunk_refs)
  obtain c1 where c1: "GetChunk h d1 = Inr c1" "c_ref c1 = n - 1"
    using d1(2) by (cases "GetChunk h d1") (auto dest: GetChunk_refs)
  show ?thesis using d1(1) c c1 by (simp add: ignore_error_def)
next
  assume ok: "db_ok d"
  case False
  then have "case chunk_refs d h of None \<Rightarrow> True | Some n \<Rightarrow> n \<le> 0" by (auto split: option.split)
  from Decrement_none [OF ok this] show ?thesis by (auto split: sum.split)
qed

lemma cancel_chunks_release:
  "stored_ok blob key_ok sha st \<Longrightarrow> fold (cancel_chunk B) hs st = fold (release B) hs st"
proof (induction hs arbitrary: st)
  case Nil
  then show ?case by simp
next
  case (Cons a hs)
  have "cancel_chunk B a st = release B a st"
    using Cons.prems cancel_chunk_release by (cases st) (simp add: stored_ok_def)
  with Cons.IH [OF release_stored [OF Cons.prems, of a]] show ?case by simp
qed

text \<open>Giving up everything a session holds and the session.\<close>

lemma drop_session_ok:
  assumes ok: "up_ok blob key_ok sha h" and s: "al_get (up_sessions h) k = Some s"
    and run: "fold (release B) (session_hashes s) (up_db h, up_store h) = (d, b)"
  shows "up_ok blob key_ok sha (h\<lparr>up_db := d, up_store := b, up_sessions := al_del (up_sessions h) k\<rparr>)"
proof -
  let ?n = "\<lambda>x. sess_refs (al_del (up_sessions h) k) x + refs_of (owned (up_db h)) x"
  note g = up_okD(1) [OF ok]
  have "covers (\<lambda>x. ?n x + count_list (session_hashes s) x) (up_db h)"
  proof (rule covers_mono)
    show "covers (\<lambda>x. sess_refs (up_sessions h) x + refs_of (owned (up_db h)) x) (up_db h)" using g by (simp add: gc_ok_def)
    show "?n x + count_list (session_hashes s) x \<le> sess_refs (up_sessions h) x + refs_of (owned (up_db h)) x" for x
      using sess_refs_del [OF up_okD(2) [OF ok] s, of x] by linarith
  qed
  then have "covers ?n d"
    using releases_covers [of "(up_db h, up_store h)" ?n "session_hashes s" B] up_okD(4) [OF ok] run by simp
  moreover have "stored_ok blob key_ok sha (d, b)"
    using releases_stored [of sha "(up_db h, up_store h)" "session_hashes s"] g run by (simp add: gc_ok_def)
  moreover have "owned d = owned (up_db h)"
    using releases_rows [of B "session_hashes s" "(up_db h, up_store h)"] run by (intro owned_rows) simp_all
  ultimately show ?thesis using ok wf_sessions_del [of "up_sessions h" session_wf k] by (simp add: up_ok_def gc_ok_def)
qed

end

context blob_store
begin

lemma cancel_ok:
  assumes ok: "up_ok blob key_ok sha h" and ready: "up_ready h" and run: "cancelUpload B u sid h = (resp, h')"
  shows "up_ok blob key_ok sha h'"
proof -
  have "h' = h \<or> (\<exists>s d b. al_get (up_sessions h) sid = Some s
      \<and> fold (cancel_chunk B) (session_hashes s) (up_db h, up_store h) = (d, b)
      \<and> h' = h\<lparr>up_db := d, up_store := b, up_sessions := al_del (up_sessions h) sid\<rparr>)"
    using run ready unfolding cancelUpload_def Let_def
    by (auto split: if_split_asm option.split_asm prod.split_asm)
  then show ?thesis
    using ok drop_session_ok [OF ok] cancel_chunks_release up_okD(1) [OF ok] by (auto simp: gc_ok_def)
qed

lemma expire_ok:
  assumes "up_ok blob key_ok sha h" and "al_get (up_sessions h) (fst en) = Some (snd en)"
  shows "up_ok blob key_ok sha (expire_session B now en h)
    \<and> (\<forall>k. k \<noteq> fst en \<longrightarrow> al_get (up_sessions (expire_session B now en h)) k = al_get (up_sessions h) k)"
proof -
  obtain d b where run: "fold (release B) (session_hashes (snd en)) (up_db h, up_store h) = (d, b)" by (metis surj_pair)
  from drop_session_ok [OF assms run] assms(1) show ?thesis
    by (simp add: expire_session_def run Let_def al_simps)
qed

lemma cleanup_ok:
  assumes "up_ok blob key_ok sha h"
  shows "up_ok blob key_ok sha (cleanupExpiredSessions B now h)"
proof -
  have "up_ok blob key_ok sha (fold (expire_session B now) ens g)"
    if "up_ok blob key_ok sha g" "\<forall>en \<in> set ens. al_get (up_sessions g) (fst en) = Some (snd en)" "distinct (map fst ens)" for ens g
    using that
  proof (induction ens arbitrary: g)
    case (Cons en ens)
    have "fst e \<noteq> fst en" if "e \<in> set ens" for e using Cons.prems(3) that by (simp add: image_iff) metis
    with Cons.prems expire_ok [OF Cons.prems(1), of en now] show ?case by (simp add: Cons.IH)
  qed simp
  moreover have "\<forall>en \<in> set (up_sessions h). al_get (up_sessions h) (fst en) = Some (snd en)"
    using al_get_iff_set [OF up_okD(2) [OF assms]] by simp
  ultimately show ?thesis
    using assms up_okD(2) [OF assms] by (simp add: cleanupExpiredSessions_def al_ok_def)
qed

end

text \<open>Completing: the new file's id is not one that versions without a file still carry.\<close>

definition fresh_file :: "string \<Rightarrow> database \<Rightarrow> bool" where
  "fresh_file i d \<longleftrightarrow> (\<forall>m \<in> set (manifests d). m_file m \<noteq> i)"

lemma owned_new_file:
  assumes "CreateFile f d = Inr d'" and "fresh_file (f_id f) d"
  shows "owned d' = owned d" "chunk_refs d' = chunk_refs d" "manifests d' = manifests d" "has_file (f_id f) d'"
  using CreateFile_Inr [OF assms(1)] assms(2)
  by (auto simp: owned_def has_file_def fresh_file_def chunk_refs_def fun_eq_iff intro!: filter_cong)

lemma vfs_CreateFile_Inr:
  assumes "vfs_CreateFile rnd now u p nm mime sz d = Inr (f, d1)"
  shows "Store.CreateFile f d = Inr d1 \<and> f_id f = generateID ''file'' rnd \<and> isValidName nm \<and> f_name f = nm
    \<and> f_user f = u \<and> f_size f = sz"
  using assms unfolding vfs_CreateFile_def Let_def
  by (auto simp: blank_file_def split: if_split_asm sum.split_asm)

lemma has_file_update:
  "(\<And>f. f_id (h f) = f_id f) \<Longrightarrow> has_file j (d\<lparr>files := update_row i h (files d)\<rparr>) = has_file j d"
proof -
  assume id: "\<And>f. f_id (h f) = f_id f"
  have has: "has_file j x \<longleftrightarrow> j \<in> set (map f_id (files x))" for x by (auto simp: has_file_def)
  have "files (d\<lparr>files := update_row i h (files d)\<rparr>) = update_row i h (files d)" by simp
  then show ?thesis unfolding has using map_update_row [of h i "files d", OF id] by metis
qed

lemma gc_ok_update:
  assumes "gc_ok blob key_ok sha n (d, b)" and "db_ok d'"
    and "d' = d\<lparr>files := update_row i h (files d)\<rparr>" and "\<And>f. f_id (h f) = f_id f"
  shows "gc_ok blob key_ok sha n (d', b)"
proof (rule gc_ok_rows [OF assms(1,2)])
  show "chunk_refs d' = chunk_refs d" by (simp add: assms(3) chunk_refs_def fun_eq_iff)
  have "has_file j d' = has_file j d" for j using assms(4) by (simp add: assms(3) has_file_update)
  then have "owned d' = owned d" by (simp add: owned_def) (simp add: assms(3))
  then show "refs_of (owned d') x \<le> refs_of (owned d) x" for x by simp
qed

lemma SoftDelete_gc_ok:
  assumes "gc_ok blob key_ok sha n (d, b)" and "SoftDelete now i d = Inr d'"
  shows "gc_ok blob key_ok sha n (d', b)"
proof (rule gc_ok_update [OF assms(1)])
  show "db_ok d'" using db_ok_SoftDelete [OF assms(2)] assms(1) by (simp add: gc_ok_def stored_ok_def)
  show "d' = d\<lparr>files := update_row i (\<lambda>f. f\<lparr>f_trashed := True, f_trashed_at := Some (rfc3339 now),
             f_updated := rfc3339 now\<rparr>) (files d)\<rparr>" using assms(2) by (simp add: SoftDelete_def split: if_split_asm)
qed simp

lemma update_manifest_succeeds:
  assumes "db_ok d" and "has_file i d"
  shows "\<exists>d'. UpdateFile now i [UManifest m] d = Inr d'
     \<and> d' = d\<lparr>files := update_row i (\<lambda>f. f\<lparr>f_manifest := m, f_updated := rfc3339 now\<rparr>) (files d)\<rparr>"
proof -
  have "\<not> update_clash i (\<lambda>f. f\<lparr>f_manifest := m, f_updated := rfc3339 now\<rparr>) (files d)"
    using assms(1) by (intro no_clash_same_key) (simp_all add: db_ok_def)
  then show ?thesis using assms(2) by (simp add: UpdateFile_def)
qed

text \<open>What completing does, with the unreachable branch of \<^verbatim>\<open>UpdateFile\<close> gone.\<close>

definition upload_manifest :: "string \<Rightarrow> string \<Rightarrow> int \<Rightarrow> upload_session \<Rightarrow> manifest" where
  "upload_manifest mid fid now s = \<lparr>m_id = mid, m_file = fid, m_version = 1, m_size = us_size s,
     m_count = int (length (collected_hashes s)), m_chunks = collected_hashes s, m_checksum = us_checksum s,
     m_device = ''server'', m_created = now\<rparr>"

lemma complete_cases:
  assumes ok: "db_ok (up_db h)" and run: "completeUpload rnd ms clk u sid h = (resp, h')"
  shows "h' = h \<and> (\<exists>code msg. resp = UError code msg)
    \<or> (\<exists>s f d1. al_get (up_sessions h) sid = Some s \<and> us_user s = u \<and> us_total s \<le> int (length (us_chunks s))
        \<and> vfs_CreateFile rnd (clk 0) u (us_parent s) (us_name s) (us_mime s) (us_size s) (up_db h) = Inr (f, d1)
        \<and> ((\<exists>code msg. resp = UError code msg) \<and> (h' = h\<lparr>up_db := d1\<rparr> \<or> (\<exists>d2. SoftDelete (clk 2) (f_id f) d1 = Inr d2 \<and> h' = h\<lparr>up_db := d2\<rparr>))
          \<or> (\<exists>m d2. CreateManifest (upload_manifest (''manifest_'' @ m) (f_id f) (clk 1) s) d1 = Inr d2
              \<and> resp = UploadCompleted f
              \<and> h' = h\<lparr>up_db := d2\<lparr>files := update_row (f_id f)
                    (\<lambda>g. g\<lparr>f_manifest := Some (''manifest_'' @ m), f_updated := rfc3339 (clk 2)\<rparr>) (files d2)\<rparr>,
                   up_sessions := al_del (up_sessions h) sid\<rparr>)))"
proof (cases "\<exists>s f d1. up_vfs h \<and> u \<noteq> [] \<and> sid \<noteq> [] \<and> al_get (up_sessions h) sid = Some s \<and> us_user s = u
    \<and> \<not> int (length (us_chunks s)) < us_total s
    \<and> vfs_CreateFile rnd (clk 0) u (us_parent s) (us_name s) (us_mime s) (us_size s) (up_db h) = Inr (f, d1)")
  case False
  then have "h' = h \<and> (\<exists>code msg. resp = UError code msg)"
    using run unfolding completeUpload_def by (auto split: if_split_asm option.split_asm sum.split_asm vfs_error.split_asm)
  then show ?thesis by blast
next
  case True
  then obtain s f d1 where g: "up_vfs h" "u \<noteq> []" "sid \<noteq> []" and s: "al_get (up_sessions h) sid = Some s" "us_user s = u"
      "\<not> int (length (us_chunks s)) < us_total s"
    and f: "vfs_CreateFile rnd (clk 0) u (us_parent s) (us_name s) (us_mime s) (us_size s) (up_db h) = Inr (f, d1)" by blast
  from vfs_CreateFile_Inr [OF f] have cf: "Store.CreateFile f (up_db h) = Inr d1" by blast
  have d1: "db_ok d1" "has_file (f_id f) d1"
    using db_ok_CreateFile [OF cf ok] CreateFile_Inr [OF cf] by (auto simp: has_file_def)
  let ?M = "\<lambda>m. upload_manifest (''manifest_'' @ m) (f_id f) (clk 1) s"
  have "(\<exists>code msg. resp = UError code msg) \<and> (h' = h\<lparr>up_db := d1\<rparr> \<or> (\<exists>d2. SoftDelete (clk 2) (f_id f) d1 = Inr d2 \<and> h' = h\<lparr>up_db := d2\<rparr>))
          \<or> (\<exists>m d2. CreateManifest (?M m) d1 = Inr d2 \<and> resp = UploadCompleted f
              \<and> h' = h\<lparr>up_db := d2\<lparr>files := update_row (f_id f)
                    (\<lambda>g. g\<lparr>f_manifest := Some (''manifest_'' @ m), f_updated := rfc3339 (clk 2)\<rparr>) (files d2)\<rparr>,
                   up_sessions := al_del (up_sessions h) sid\<rparr>)"
  proof (cases ms)
    case None
    then have "resp = UError 500 ''Internal server error''" "h' = h\<lparr>up_db := d1\<rparr>"
      using run g s f by (simp_all add: completeUpload_def)
    then show ?thesis by blast
  next
    case (Some m)
    show ?thesis
    proof (cases "CreateManifest (?M m) d1")
      case (Inl e)
      then have "h' = h\<lparr>up_db := ignore_error d1 (vfs_Delete (clk 2) (f_id f) d1)\<rparr>" "\<exists>code msg. resp = UError code msg"
        using run g s f Some by (auto simp: completeUpload_def upload_manifest_def Let_def)
      then show ?thesis by (auto simp: ignore_error_def vfs_Delete_def wrap_db_def split: sum.split_asm)
    next
      case (Inr d2)
      have d2: "db_ok d2" "has_file (f_id f) d2"
        using db_ok_CreateManifest [OF Inr d1(1)] CreateManifest_Inr [OF Inr] d1(2) by (auto simp: has_file_def)
      from update_manifest_succeeds [OF this, of "clk 2" "Some (''manifest_'' @ m)"] obtain d3 where
        "UpdateFile (clk 2) (f_id f) [UManifest (Some (''manifest_'' @ m))] d2 = Inr d3"
        "d3 = d2\<lparr>files := update_row (f_id f) (\<lambda>g. g\<lparr>f_manifest := Some (''manifest_'' @ m), f_updated := rfc3339 (clk 2)\<rparr>) (files d2)\<rparr>"
        by blast
      then show ?thesis using run g s f Some Inr by (auto simp: completeUpload_def upload_manifest_def Let_def)
    qed
  qed
  with s f show ?thesis by (intro disjI2 exI [of _ s] exI [of _ f] exI [of _ d1]) auto
qed

lemma owned_upload_manifest:
  assumes "CreateManifest m d = Inr d'" and "has_file (m_file m) d"
  shows "refs_of (owned d') h = refs_of (owned d) h + count_list (m_chunks m) h" "chunk_refs d' = chunk_refs d" "files d' = files d"
  using CreateManifest_Inr [OF assms(1)] assms(2)
  by (simp_all add: owned_def has_file_def refs_of_def chunk_refs_def fun_eq_iff)

lemma complete_ok:
  assumes ok: "up_ok blob key_ok sha h" and fresh: "fresh_file (generateID ''file'' rnd) (up_db h)"
    and run: "completeUpload rnd ms clk u sid h = (resp, h')"
  shows "up_ok blob key_ok sha h'"
proof -
  note db = up_okD(4) [OF ok] and g = up_okD(1) [OF ok]
  have rows: "up_ok blob key_ok sha (h\<lparr>up_db := d\<rparr>)"
    if "gc_ok blob key_ok sha (sess_refs (up_sessions h)) (d, up_store h)" for d
    using that ok by (simp add: up_ok_def)
  show ?thesis
    using complete_cases [OF db run]
  proof (elim disjE conjE exE)
    fix s f d1
    assume s: "al_get (up_sessions h) sid = Some s"
      and f: "vfs_CreateFile rnd (clk 0) u (us_parent s) (us_name s) (us_mime s) (us_size s) (up_db h) = Inr (f, d1)"
    have cf: "Store.CreateFile f (up_db h) = Inr d1" "f_id f = generateID ''file'' rnd" using vfs_CreateFile_Inr [OF f] by auto
    note new = owned_new_file [OF cf(1), unfolded cf(2), OF fresh]
    have d1: "gc_ok blob key_ok sha (sess_refs (up_sessions h)) (d1, up_store h)"
      by (rule gc_ok_rows [OF g db_ok_CreateFile [OF cf(1) db] new(2)]) (simp add: new(1))
    { assume "h' = h\<lparr>up_db := d1\<rparr>"
      then show ?thesis using rows [OF d1] by simp
    next
      fix d2 assume "SoftDelete (clk 2) (f_id f) d1 = Inr d2" "h' = h\<lparr>up_db := d2\<rparr>"
      then show ?thesis using rows [OF SoftDelete_gc_ok [OF d1]] by simp
    next
      fix m and d2 :: database
      let ?h = "\<lambda>g. g\<lparr>f_manifest := Some (''manifest_'' @ m), f_updated := rfc3339 (clk 2)\<rparr>"
      let ?d3 = "d2\<lparr>files := update_row (f_id f) ?h (files d2)\<rparr>"
      assume mf: "CreateManifest (upload_manifest (''manifest_'' @ m) (f_id f) (clk 1) s) d1 = Inr d2"
        and h': "h' = h\<lparr>up_db := ?d3, up_sessions := al_del (up_sessions h) sid\<rparr>"
      have own2: "refs_of (owned d2) x = refs_of (owned (up_db h)) x + count_list (collected_hashes s) x" "chunk_refs d2 = chunk_refs (up_db h)" for x
        using owned_upload_manifest [OF mf] new cf(2) by (simp_all add: upload_manifest_def)
      have "db_ok d2" using mf db_ok_CreateFile [OF cf(1) db] by (rule db_ok_CreateManifest)
      then have "db_ok ?d3" by (rule db_ok_touch) simp
      moreover have refs3: "chunk_refs ?d3 = chunk_refs (up_db h)" using own2(2) by (simp add: chunk_refs_def fun_eq_iff)
      moreover have "stored_ok blob key_ok sha (up_db h, up_store h)" using g by (simp add: gc_ok_def)
      ultimately have st: "stored_ok blob key_ok sha (?d3, up_store h)"
        using stored_ok_rows [of blob key_ok sha "up_db h" "up_store h" ?d3] by blast
      have own3: "owned ?d3 = owned d2" unfolding owned_def by (subst has_file_update) simp_all
      have le: "sess_refs (al_del (up_sessions h) sid) x + refs_of (owned ?d3) x \<le> sess_refs (up_sessions h) x + refs_of (owned (up_db h)) x" for x
        using sess_refs_del [OF up_okD(2) [OF ok] s, of x] collected_le [of s x] own2(1) [of x] own3 by simp
      have "covers (\<lambda>x. sess_refs (al_del (up_sessions h) sid) x + refs_of (owned ?d3) x) (up_db h)"
        by (rule covers_mono [OF _ le]) (use g in \<open>simp add: gc_ok_def\<close>)
      then have "covers (\<lambda>x. sess_refs (al_del (up_sessions h) sid) x + refs_of (owned ?d3) x) ?d3"
        using refs3 by (simp add: covers_def)
      then show ?thesis
        using st ok wf_sessions_del [of "up_sessions h" session_wf sid] by (simp add: h' up_ok_def gc_ok_def) }
  qed (use ok in simp)
qed

section \<open>File operations keep what is held\<close>

text \<open>The operations of the virtual file system that other handlers run on the same tables.\<close>

inductive vfs_op :: "database \<Rightarrow> database \<Rightarrow> bool" where
  op_delete: "vfs_Delete now i d = Inr d' \<Longrightarrow> vfs_op d d'"
| op_restore: "Restore now i d = Inr d' \<Longrightarrow> vfs_op d d'"
| op_rename: "Rename now i nm d = Inr d' \<Longrightarrow> vfs_op d d'"
| op_move: "Move now i p nm d = Inr d' \<Longrightarrow> vfs_op d d'"
| op_purge: "DeletePermanent i d = Inr d' \<Longrightarrow> vfs_op d d'"
| op_folder: "CreateFolder rnd now u p nm d = Inr (f, d') \<Longrightarrow> fresh_file (generateID ''folder'' rnd) d \<Longrightarrow> vfs_op d d'"
| op_connection: "vfs_op d (d\<lparr>fk_on := v\<rparr>)"

lemma wrap_db_Inr: "wrap_db r = Inr d \<longleftrightarrow> r = Inr d"
  by (cases r) (simp_all add: wrap_db_def)

lemma vfs_op_gc_ok:
  assumes "vfs_op d d'" and g: "gc_ok blob key_ok sha n (d, b)"
  shows "gc_ok blob key_ok sha n (d', b)"
proof -
  have db: "db_ok d" using g by (simp add: gc_ok_def stored_ok_def)
  from assms(1) show ?thesis
  proof cases
    case (op_delete now i)
    then show ?thesis using SoftDelete_gc_ok [OF g] by (simp add: vfs_Delete_def wrap_db_Inr)
  next
    case (op_restore now i)
    then have r: "RestoreFromTrash now i d = Inr d'" by (simp add: Restore_def wrap_db_Inr)
    then show ?thesis
      by (intro gc_ok_update [OF g db_ok_Restore [OF r db], where i = i and h = "\<lambda>f. f\<lparr>f_trashed := False, f_trashed_at := None, f_updated := rfc3339 now\<rparr>"])
        (simp_all add: RestoreFromTrash_def split: if_split_asm)
  next
    case (op_rename now i nm)
    then have r: "UpdateFile now i [UName nm] d = Inr d'" by (simp add: Rename_def wrap_db_Inr split: if_split_asm)
    have "d' = d\<lparr>files := update_row i (\<lambda>f. f\<lparr>f_name := nm, f_updated := rfc3339 now\<rparr>) (files d)\<rparr>" using UpdateFile_Inr [OF r] by simp
    from gc_ok_update [OF g db_ok_UpdateFile [OF r db] this] show ?thesis by simp
  next
    case (op_move now i p nm)
    then obtain nm' where r: "MoveFile now i p nm' d = Inr d'" by (auto simp: Move_def wrap_db_Inr split: if_split_asm sum.split_asm)
    have "d' = d\<lparr>files := update_row i (\<lambda>f. f\<lparr>f_parent := if p = [] then None else Some p, f_name := nm', f_updated := rfc3339 now\<rparr>) (files d)\<rparr>"
      using MoveFile_Inr [OF r] by simp
    from gc_ok_update [OF g db_ok_MoveFile [OF r db] this] show ?thesis by simp
  next
    case (op_purge i)
    then have "d' = delete_file_row i d" by (simp add: DeletePermanent_def wrap_db_Inr PermanentDelete_def delete_file_row_def split: if_split_asm)
    then show ?thesis using gc_ok_delete_row [OF g] by simp
  next
    case (op_folder rnd now u p nm f)
    then have cf: "Store.CreateFile f d = Inr d'" "f_id f = generateID ''folder'' rnd"
      by (auto simp: CreateFolder_def blank_file_def Let_def split: if_split_asm sum.split_asm)
    note new = owned_new_file [OF cf(1), unfolded cf(2), OF op_folder(2)]
    show ?thesis by (rule gc_ok_rows [OF g db_ok_CreateFile [OF cf(1) db] new(2)]) (simp add: new(1))
  next
    case (op_connection v)
    then have "owned d' = owned d" "chunk_refs d' = chunk_refs d" by (simp_all add: owned_def has_file_def chunk_refs_def fun_eq_iff)
    then show ?thesis using gc_ok_rows [OF g, of d'] db op_connection by (simp add: db_ok_def)
  qed
qed

section \<open>The system of uploads, files and collection\<close>

text \<open>
  The steps of the server on a local backend: the upload requests, a tick of the cleaner, a
  pass of the collector, a file operation, and I/O faults that lie ahead.  New file ids are
  not the ids of versions whose file is gone.
\<close>

inductive up_step :: "(byte list \<Rightarrow> string) \<Rightarrow> chunker \<Rightarrow> string \<Rightarrow> local_fs upload_handler \<Rightarrow> local_fs upload_handler \<Rightarrow> bool"
  for sha ck dir where
  s_create: "createUpload rnd clk u body h = (resp, h') \<Longrightarrow> up_step sha ck dir h h'"
| s_chunk: "uploadChunk sha ck (local_backend dir) clk u sid istr len body h = Returns (resp, h') \<Longrightarrow> up_step sha ck dir h h'"
| s_complete: "completeUpload rnd ms clk u sid h = (resp, h') \<Longrightarrow> fresh_file (generateID ''file'' rnd) (up_db h) \<Longrightarrow> up_step sha ck dir h h'"
| s_cancel: "cancelUpload (local_backend dir) u sid h = (resp, h') \<Longrightarrow> up_step sha ck dir h h'"
| s_tick: "up_step sha ck dir h (cleanupExpiredSessions (local_backend dir) now h)"
| s_gc: "gc_Handler lt (local_backend dir) job (up_db h, up_store h) = (r, d, b) \<Longrightarrow> up_step sha ck dir h (h\<lparr>up_db := d, up_store := b\<rparr>)"
| s_vfs: "vfs_op (up_db h) d \<Longrightarrow> up_step sha ck dir h (h\<lparr>up_db := d\<rparr>)"
| s_faults: "up_step sha ck dir h (h\<lparr>up_store := (up_store h)\<lparr>lf_faults := fs\<rparr>\<rparr>)"

definition new_handler :: "user list \<Rightarrow> local_fs upload_handler" where
  "new_handler us = \<lparr>up_db = empty_db\<lparr>users := us\<rparr>, up_store = \<lparr>lf_files = [], lf_faults = []\<rparr>, up_sessions = [],
     up_ready = True, up_vfs = True\<rparr>"

inductive up_reachable :: "(byte list \<Rightarrow> string) \<Rightarrow> chunker \<Rightarrow> string \<Rightarrow> local_fs upload_handler \<Rightarrow> bool" for sha ck dir where
  up_start: "up_reachable sha ck dir (new_handler us)"
| up_next: "up_reachable sha ck dir h \<Longrightarrow> up_step sha ck dir h h' \<Longrightarrow> up_reachable sha ck dir h'"

lemma ready_kept: "up_step sha ck dir h h' \<Longrightarrow> 0 \<le> maxSize ck \<Longrightarrow> up_ready h \<Longrightarrow> db_ok (up_db h) \<Longrightarrow> up_ready h'"
proof (induction rule: up_step.induct)
  case (s_create rnd clk u body h resp h')
  then show ?case by (auto simp: createUpload_def Let_def split: if_split_asm option.split_asm)
next
  case (s_chunk clk u sid istr len body h resp h')
  from uploadChunk_cases [OF s_chunk(2,1)] s_chunk(3) show ?case by (auto split: option.split_asm)
next
  case (s_complete rnd ms clk u sid h resp h')
  from complete_cases [OF s_complete(5,1)] s_complete(4) show ?case by auto
next
  case (s_cancel u sid h resp h')
  then show ?case by (auto simp: cancelUpload_def Let_def split: if_split_asm option.split_asm prod.split_asm)
next
  case (s_tick h now)
  have "up_ready (fold (expire_session (local_backend dir) now) es g) = up_ready g" for es and g :: "local_fs upload_handler"
    by (induction es arbitrary: g) (simp_all add: expire_session_def Let_def case_prod_beta)
  with s_tick show ?case by (simp add: cleanupExpiredSessions_def)
qed simp_all

lemma up_step_ok:
  assumes "up_step sha ck dir h h'" and ok: "up_ok (local_blob dir) plain_key sha h" and ready: "up_ready h"
    and ck: "0 \<le> maxSize ck" and keys: "\<And>w. plain_key (sha w)"
  shows "up_ok (local_blob dir) plain_key sha h'"
  using assms(1)
proof cases
  case (s_chunk clk u sid istr len body resp)
  then show ?thesis by (intro lb.upload_ok [OF ok ck keys])
next
  case (s_cancel u sid resp)
  then show ?thesis by (intro lb.cancel_ok [OF ok ready])
next
  case (s_gc lt job r d b)
  then show ?thesis using lb.handler_keeps [OF up_okD(1) [OF ok]] ok by (simp add: up_ok_def)
next
  case (s_vfs d)
  then show ?thesis using vfs_op_gc_ok [OF _ up_okD(1) [OF ok]] ok by (simp add: up_ok_def)
next
  case (s_faults fs)
  have "local_blob dir ((up_store h)\<lparr>lf_faults := fs\<rparr>) = local_blob dir (up_store h)" by (simp add: local_blob_def fun_eq_iff)
  then show ?thesis using s_faults ok by (simp add: up_ok_def gc_ok_def stored_ok_def present_def content_ok_def)
next
  case (s_create rnd clk u body resp)
  then show ?thesis by (intro create_ok [OF ok])
next
  case (s_complete rnd ms clk u sid resp)
  then show ?thesis by (intro complete_ok [OF ok])
next
  case (s_tick now)
  then show ?thesis using lb.cleanup_ok [OF ok] by simp
qed

lemma up_start_ok: "up_ok (local_blob dir) plain_key sha (new_handler us)"
  by (auto simp: up_ok_def gc_ok_def stored_ok_def new_handler_def empty_db_def db_ok_def files_ok_def names_unique_def
      manifests_ok_def chunks_ok_def keys_ok_def present_def content_ok_def covers_def chunk_refs_def owned_def
      refs_of_def sess_refs_def al_sum_def count_of_def al_ok_def local_blob_def)

lemma up_reachable_ok:
  assumes "up_reachable sha ck dir h" and "0 \<le> maxSize ck" and "\<And>w. plain_key (sha w)"
  shows "up_ok (local_blob dir) plain_key sha h \<and> up_ready h"
  using assms(1)
proof induction
  case (up_start us)
  then show ?case using up_start_ok by (simp add: new_handler_def)
next
  case (up_next h h')
  then show ?case using up_step_ok [of sha ck dir h h', OF _ _ _ assms(2,3)] ready_kept [OF _ assms(2), of sha dir h h'] up_okD(4) by blast
qed

end
