(* ===== verification/Content.thy ===== *)
theory Content
  imports Upload
begin

text \<open>
  What uploads, file operations and the collector do to the content of files together: the
  invariant over all steps of the server, the round trip of an upload, and what a copy of a
  file does not keep.
\<close>

section \<open>Uploading all parts of a session\<close>

record part_request =
  pr_clk :: "nat \<Rightarrow> int"
  pr_index :: string
  pr_len :: int
  pr_body :: "byte list"

fun upload_all :: "(byte list \<Rightarrow> string) \<Rightarrow> chunker \<Rightarrow> 'b backend \<Rightarrow> string \<Rightarrow> string \<Rightarrow> part_request list \<Rightarrow> 'b upload_handler
    \<Rightarrow> 'b upload_handler option" where
  "upload_all sha ck B u sid [] h = Some h"
| "upload_all sha ck B u sid (r # rs) h =
     (case uploadChunk sha ck B (pr_clk r) u sid (pr_index r) (pr_len r) (Inr (pr_body r)) h of
        Returns (Uploaded idx len n hs, h') \<Rightarrow> upload_all sha ck B u sid rs h'
      | _ \<Rightarrow> None)"

definition part_data :: "part_request \<Rightarrow> byte list" where
  "part_data r = take (nat maxChunkSize) (pr_body r)"

definition part_of :: "part_request list \<Rightarrow> int \<Rightarrow> byte list" where
  "part_of rs i = (case find_row (\<lambda>r. atoi (pr_index r) = Some i) rs of None \<Rightarrow> [] | Some r \<Rightarrow> part_data r)"

definition sent_indices :: "part_request list \<Rightarrow> int set" where
  "sent_indices rs = {i. \<exists>r \<in> set rs. atoi (pr_index r) = Some i}"

lemma session_keys: "session_wf s \<Longrightarrow> al_get (us_hashes s) i = None \<longleftrightarrow> al_get (us_chunks s) i = None"
  by (simp add: al_get_None_iff) (metis session_wf_def list.set_map)

lemma upload_part:
  assumes "0 \<le> maxSize ck" and "uploadChunk sha ck B clk u sid istr len (Inr bs) h = Returns (Uploaded idx n c hs, h')"
  shows "\<exists>s. al_get (up_sessions h) sid = Some s \<and> atoi istr = Some idx \<and> 0 \<le> idx \<and> idx < us_total s \<and> al_get (us_chunks s) idx = None
    \<and> (\<exists>now ln. al_get (up_sessions h') sid = Some (record_chunk idx ln now (map sha (cut_pieces ck (take (nat maxChunkSize) bs))) s))"
  using uploadChunk_cases [OF assms] by (auto simp: al_simps split: option.split_asm)

lemma upload_all_hashes:
  assumes "0 \<le> maxSize ck" and "upload_all sha ck B u sid rs h = Some h'" and "al_get (up_sessions h) sid = Some s" and "session_wf s"
  shows "\<exists>s'. al_get (up_sessions h') sid = Some s' \<and> session_wf s' \<and> us_total s' = us_total s
    \<and> (\<forall>i. al_get (us_hashes s') i = (case al_get (us_hashes s) i of Some hs \<Rightarrow> Some hs
         | None \<Rightarrow> if i \<in> sent_indices rs then Some (map sha (cut_pieces ck (part_of rs i))) else None))"
  using assms
proof (induction rs arbitrary: h s)
  case Nil
  then show ?case by (auto simp: sent_indices_def split: option.split)
next
  case (Cons r rs)
  from Cons.prems(2) obtain idx n c hs h1 where
    up: "uploadChunk sha ck B (pr_clk r) u sid (pr_index r) (pr_len r) (Inr (pr_body r)) h = Returns (Uploaded idx n c hs, h1)"
    and rest: "upload_all sha ck B u sid rs h1 = Some h'"
    by (auto split: outcome.split_asm upload_response.split_asm)
  from upload_part [OF Cons.prems(1) up] Cons.prems(3) obtain now ln where
    r: "atoi (pr_index r) = Some idx" "0 \<le> idx" "idx < us_total s" "al_get (us_chunks s) idx = None"
    and s1: "al_get (up_sessions h1) sid = Some (record_chunk idx ln now (map sha (cut_pieces ck (part_data r))) s)"
    unfolding part_data_def by auto
  let ?s1 = "record_chunk idx ln now (map sha (cut_pieces ck (part_data r))) s"
  have wf1: "session_wf ?s1" using record_chunk_wf [OF Cons.prems(4) r(2,3)] .
  have get1: "al_get (us_hashes ?s1) i = (if i = idx then Some (map sha (cut_pieces ck (part_data r))) else al_get (us_hashes s) i)"
    and tot1: "us_total ?s1 = us_total s" for i
    by (simp_all add: record_chunk_def Let_def al_simps)
  have none: "al_get (us_hashes s) idx = None" using session_keys [OF Cons.prems(4)] r(4) by simp
  have part: "part_of (r # rs) i = (if i = idx then part_data r else part_of rs i)"
    and sent: "i \<in> sent_indices (r # rs) \<longleftrightarrow> i = idx \<or> i \<in> sent_indices rs" for i
    using r(1) by (auto simp: part_of_def sent_indices_def)
  from Cons.IH [OF Cons.prems(1) rest s1 wf1] obtain s' where
    s': "al_get (up_sessions h') sid = Some s'" "session_wf s'" "us_total s' = us_total s"
      "\<forall>i. al_get (us_hashes s') i = (case al_get (us_hashes ?s1) i of Some hs \<Rightarrow> Some hs
         | None \<Rightarrow> if i \<in> sent_indices rs then Some (map sha (cut_pieces ck (part_of rs i))) else None)"
    using tot1 by auto
  then show ?case using none by (intro exI [of _ s'] conjI) (simp_all add: get1 part sent split: option.split)
qed

lemma all_indices:
  assumes "session_wf s" and "us_total s \<le> int (length (us_chunks s))" and "0 \<le> i" and "i < us_total s"
  shows "al_get (us_hashes s) i \<noteq> None"
proof -
  let ?K = "fst ` set (us_chunks s)"
  have sub: "?K \<subseteq> {0..<us_total s}" using assms(1) by (auto simp: session_wf_def)
  have "card ?K = length (us_chunks s)"
    using assms(1) distinct_card [of "map fst (us_chunks s)"] by (simp add: session_wf_def al_ok_def)
  then have "card {0..<us_total s} \<le> card ?K" using assms(2) by simp
  then have "?K = {0..<us_total s}" using sub by (intro card_seteq) simp_all
  then show ?thesis using session_keys [OF assms(1)] assms(3,4) by (simp add: al_get_None_iff)
qed

lemma collected_parts:
  assumes "session_wf s" and "us_total s \<le> int (length (us_chunks s))"
    and "\<And>i hs. al_get (us_hashes s) i = Some hs \<Longrightarrow> hs = map sha (cut_pieces ck (p i))"
  shows "collected_hashes s = map sha (concat (map (\<lambda>i. cut_pieces ck (p i)) [0..us_total s - 1]))"
proof -
  have "(case al_get (us_hashes s) i of None \<Rightarrow> [] | Some hs \<Rightarrow> hs) = map sha (cut_pieces ck (p i))" if "i \<in> set [0..us_total s - 1]" for i
    using all_indices [OF assms(1,2), of i] assms(3) [of i] that by auto
  then have "collected_hashes s = concat (map (\<lambda>i. map sha (cut_pieces ck (p i))) [0..us_total s - 1])"
    unfolding collected_hashes_def by (metis (mono_tags, lifting) map_cong)
  then show ?thesis by (simp add: map_concat comp_def)
qed

lemma concat_pieces: "concat (concat (map (\<lambda>i. cut_pieces ck (p i)) is)) = concat (map p is)"
  by (induction "is") (simp_all add: concat_cut_pieces)

lemma create_session:
  assumes "createUpload rnd clk u body h = (SessionCreated sid cs tot ex, h')"
  shows "\<exists>s. al_get (up_sessions h') sid = Some s \<and> us_total s = tot \<and> us_hashes s = [] \<and> us_chunks s = [] \<and> session_wf s"
  using assms unfolding createUpload_def
  by (auto simp: Let_def al_simps session_wf_def al_ok_def split: if_split_asm option.split_asm)

lemma upload_all_reachable:
  "upload_all sha ck (local_backend dir) u sid rs h = Some h' \<Longrightarrow> up_reachable sha ck dir h \<Longrightarrow> up_reachable sha ck dir h'"
proof (induction rs arbitrary: h)
  case Nil
  then show ?case by simp
next
  case (Cons r rs)
  then obtain resp h1 where "uploadChunk sha ck (local_backend dir) (pr_clk r) u sid (pr_index r) (pr_len r) (Inr (pr_body r)) h = Returns (resp, h1)"
    and "upload_all sha ck (local_backend dir) u sid rs h1 = Some h'"
    by (auto split: outcome.split_asm upload_response.split_asm)
  with Cons up_next s_chunk show ?case by blast
qed

lemma GetLatest_single:
  assumes "manifests d = ms @ [m]" and "\<forall>x \<in> set ms. m_file x \<noteq> m_file m"
  shows "GetLatestManifest (m_file m) d = Inr m"
proof -
  have "filter (\<lambda>x. m_file x = m_file m) ms = []" using assms(2) by (auto simp: filter_empty_conv)
  then show ?thesis using assms(1) by (simp add: GetLatestManifest_def limit_offset_def desc_sort_def)
qed

lemma up_ok_readable: "up_ok blob key_ok sha h \<Longrightarrow> readable blob sha (up_db h, up_store h)"
  using stored_readable [of blob key_ok sha "(up_db h, up_store h)" "sess_refs (up_sessions h)"] up_okD(1) [of blob key_ok sha h]
  by (simp add: gc_ok_def)

lemma complete_success:
  assumes "db_ok (up_db h)" and "completeUpload rnd ms clk u sid h = (UploadCompleted f, h')" and "al_get (up_sessions h) sid = Some s"
  shows "\<exists>m d1 d2. us_total s \<le> int (length (us_chunks s))
    \<and> vfs_CreateFile rnd (clk 0) u (us_parent s) (us_name s) (us_mime s) (us_size s) (up_db h) = Inr (f, d1)
    \<and> CreateManifest (upload_manifest (''manifest_'' @ m) (f_id f) (clk 1) s) d1 = Inr d2
    \<and> manifests (up_db h') = manifests d2 \<and> files (up_db h') = update_row (f_id f)
        (\<lambda>g. g\<lparr>f_manifest := Some (''manifest_'' @ m), f_updated := rfc3339 (clk 2)\<rparr>) (files d2)"
  using complete_cases [OF assms(1,2)] assms(3) by (elim disjE exE conjE) auto

section \<open>Properties\<close>


definition demo_chunker :: chunker where
  "demo_chunker = \<lparr>minSize = 2, avgSize = 2, maxSize = 4, windowSize = 48, mask = 255, ck_polynomial = 3,
     ck_table = \<lparr>polynomial = 3, degree = 1, outTable = replicate 256 0, modTable = []\<rparr>\<rparr>"

definition demo_request :: create_request where
  "demo_request = \<lparr>cr_parent = [], cr_name = ''a'', cr_size = 1, cr_mime = [], cr_checksum = []\<rparr>"

definition demo_user :: user where
  "demo_user = \<lparr>u_id = ''u'', u_username = ''u'', u_email = [], u_display = [], u_password_hash = [], u_role = ''user'', u_quota = 0,
     u_used = 0, u_totp_secret = None, u_totp_enabled = False,
     u_public_key = [], u_private_key = [], u_recovery = None, u_avatar = None, u_status = [], u_must_change = False, u_last_login = None,
     u_created = 0, u_updated = 0\<rparr>"

text \<open>The handler after an upload request to an empty server.\<close>

definition demo_created :: "local_fs upload_handler" where
  "demo_created = snd (createUpload (Some ''1'') (\<lambda>_. 0) ''u'' (Some demo_request) (new_handler [demo_user]))"



definition demo_part :: part_request where
  "demo_part = \<lparr>pr_clk = \<lambda>_. 0, pr_index = ''0'', pr_len = 1, pr_body = [7]\<rparr>"

definition demo_session :: upload_session where
  "demo_session = \<lparr>us_id = ''upload_1'', us_user = ''u'', us_parent = [], us_name = ''a'', us_size = 1, us_mime = [], us_checksum = [],
     us_status = ''pending'', us_created = 0, us_expires = SessionTTL, us_chunks = [], us_total = 1, us_hashes = []\<rparr>"

lemma demo_total: "total_chunks 1 = 1"
  by (simp add: total_chunks_def DefaultChunkSize_def wrap64_def go_div_def)

lemma demo_create:
  "createUpload (Some ''1'') (\<lambda>_. 0) ''u'' (Some demo_request) (new_handler [demo_user])
     = (SessionCreated ''upload_1'' DefaultChunkSize 1 (rfc3339 SessionTTL), demo_created)"
  "demo_created = (new_handler [demo_user])\<lparr>up_sessions := [(''upload_1'', demo_session)]\<rparr>"
  by (simp_all add: demo_created_def createUpload_def demo_request_def MaxUploadSize_def generateSessionID_def demo_total
      new_handler_def demo_session_def Let_def)

lemma demo_cut: "cut_pieces demo_chunker [7] = [[7]]"
  by (simp add: cut_pieces_def at_boundary_def demo_chunker_def Let_def)

definition demo_uploaded :: "local_fs upload_handler" where
  "demo_uploaded = (new_handler [demo_user])\<lparr>
     up_db := empty_db\<lparr>users := [demo_user], chunks := [new_chunk 0 ''local'' 1 ''ab/abc.chunk'' ''abc'']\<rparr>,
     up_store := \<lparr>lf_files = [(keyToPath ''/data'' ''abc'', [7])], lf_faults = []\<rparr>,
     up_sessions := [(''upload_1'', record_chunk 0 1 0 [''abc''] demo_session)]\<rparr>"

lemma demo_put: "local_Put ''/data'' ''abc'' [7] \<lparr>lf_files = [], lf_faults = []\<rparr> =
    (None, \<lparr>lf_files = [(keyToPath ''/data'' ''abc'', [7])], lf_faults = []\<rparr>)"
  by (simp add: local_Put_def next_fault_def tick_def Let_def al_del_def)

lemma demo_store:
  "store_chunks (local_backend ''/data'') (\<lambda>_. 0) 1 [(\<lparr>ci_hash = ''abc'', ci_offset = 0, ci_size = 1\<rparr>, [7])]
      (empty_db\<lparr>users := [demo_user]\<rparr>, \<lparr>lf_files = [], lf_faults = []\<rparr>)
    = (None, up_db demo_uploaded, up_store demo_uploaded)"
proof -
  have put: "be_put (local_backend ''/data'') = local_Put ''/data''" "be_type (local_backend ''/data'') = ''local''"
    by (simp_all add: local_backend_def)
  show ?thesis
    by (simp add: put demo_put ChunkExists_def CreateChunk_def empty_db_def Let_def demo_uploaded_def new_chunk_def rfc3339_def)
qed

lemma demo_upload: "upload_all (\<lambda>w. ''abc'') demo_chunker (local_backend ''/data'') ''u'' ''upload_1'' [demo_part] demo_created = Some demo_uploaded"
proof -
  have ck: "0 \<le> maxSize demo_chunker" by (simp add: demo_chunker_def)
  have at: "atoi ''0'' = Some 0" by (simp add: atoi_def digits_value_def is_digit_def Let_def wrap64_def)
  have mx: "nat maxChunkSize = 4195328" "1 \<le> maxChunkSize" by (simp_all add: maxChunkSize_def DefaultChunkSize_def)
  have st: "up_db demo_created = empty_db\<lparr>users := [demo_user]\<rparr>" "up_store demo_created = \<lparr>lf_files = [], lf_faults = []\<rparr>"
    "up_sessions demo_created = [(''upload_1'', demo_session)]" "up_ready demo_created"
    by (simp_all add: demo_create(2) new_handler_def)
  have "uploadChunk (\<lambda>w. ''abc'') demo_chunker (local_backend ''/data'') (\<lambda>_. 0) ''u'' ''upload_1'' ''0'' 1 (Inr [7]) demo_created
      = Returns (Uploaded 0 1 1 [''abc''], demo_uploaded)"
  proof -
    have "ChunkWithData (\<lambda>w. ''abc'') demo_chunker (bytes_reader 4194304 [7]) = Returns (Inr ([\<lparr>ci_hash = ''abc'', ci_offset = 0, ci_size = 1\<rparr>], [[7]]))"
      using ChunkWithData_bytes [OF ck, of "\<lambda>w. ''abc''" "[7]"] by (simp add: demo_cut)
    moreover have "us_user demo_session = ''u''" "us_expires demo_session = SessionTTL" "us_total demo_session = 1" "us_chunks demo_session = []"
      "0 \<le> SessionTTL" by (simp_all add: demo_session_def SessionTTL_def)
    ultimately show ?thesis
      unfolding uploadChunk_def using mx
      by (simp add: at demo_store [unfolded One_nat_def] st Let_def del: store_chunks.simps) (simp add: demo_create(2) demo_uploaded_def new_handler_def)
  qed
  then show ?thesis by (simp add: demo_part_def)
qed


lemma below_root_only:
  assumes "is_below fs roots i" and "\<forall>f \<in> set fs. f_id f = i \<longrightarrow> f_parent f = None"
  shows "i \<in> set roots"
  using assms by (cases rule: is_below.cases) auto

lemma GetManifest_gone: "\<forall>m \<in> set (manifests d). m_id m \<noteq> i \<Longrightarrow> GetManifest i d = Inl ''manifest not found''"
  using find_row_None [of "\<lambda>m. m_id m = i" "manifests d"] by (simp add: GetManifest_def)

text \<open>A copy does not own its content.  Copying a file makes a row that names the version of the
  original but takes no reference; once the original is collected, the copy is still there and
  its version is not, and chunks that only the original referred to are gone.\<close>

theorem copy_loses_content:
  assumes ok: "db_ok d" and fk: "fk_on d" and src: "GetFileByID fid d = Inr src" "f_type src \<noteq> ''folder''" "f_manifest src = Some (m_id m)"
    and m: "GetLatestManifest fid d = Inr m"
    and copy: "Copy fuel gen clk u fid [] nm (k, d) = Returns (None, (k1, d1))"
    and gc: "deleteFile B fid (d1, b) = (e, d2, b2)"
  shows "\<exists>c. GetFileByID (generateID (f_type src) (gen k)) d2 = Inr c \<and> \<not> f_trashed c \<and> f_manifest c = Some (m_id m)
    \<and> GetManifest (m_id m) d2 = Inl ''manifest not found''
    \<and> (\<forall>h n. chunk_refs d h = Some n \<and> 0 < n \<and> n \<le> int (count_list (m_chunks m) h) \<longrightarrow> chunk_refs d2 h = None)"
proof -
  let ?i = "generateID (f_type src) (gen k)"
  let ?c = "copy_row ?i (clk k) u None (if nm = [] then f_name src else nm) 1 src"
  have cf: "Store.CreateFile ?c d = Inr d1"
    using copy src(1,2) by (simp add: Copy_def opt_parent_def Let_def split: if_split_asm sum.split_asm)
  let ?c' = "?c\<lparr>f_trashed_at := None, f_created := rfc3339 (clk k), f_updated := rfc3339 (clk k)\<rparr>"
  have d1: "files d1 = files d @ [?c']" "manifests d1 = manifests d" "fk_on d1" "chunk_refs d1 = chunk_refs d"
    and new: "\<forall>g \<in> set (files d). f_id g \<noteq> ?i"
    using CreateFile_Inr [OF cf] fk by (auto simp: copy_row_def chunk_refs_def fun_eq_iff)
  have ok1: "db_ok d1" using db_ok_CreateFile [OF cf ok] .
  have s: "src \<in> set (files d)" "f_id src = fid" using src(1) GetFileByID_iff [of d fid src] ok by (simp_all add: db_ok_def)
  have m1: "GetLatestManifest fid d1 = Inr m" using m d1(2) by (simp add: GetLatestManifest_def)
  have has1: "has_file fid d1" using s d1(1) by (auto simp: has_file_def)
  let ?d = "fst (fold (release B) (m_chunks m) (d1, b))"
  have rows: "files ?d = files d1" "manifests ?d = manifests d1" "fk_on ?d = fk_on d1"
    using releases_rows [of B "m_chunks m" "(d1, b)"] by simp_all
  have d2: "d2 = delete_files [fid] ?d"
    using gc m1 has1 rows by (auto simp: Let_def case_prod_beta delete_file_row_def has_file_def)
  have "\<not> is_below (files d1) [fid] ?i"
    using below_root_only [of "files d1" "[fid]" ?i] new s d1(1) by (auto simp: copy_row_def)
  then have in2: "?c' \<in> set (files d2)"
  proof -
    have "f_id ?c' = ?i" "?c' \<in> set (files d1)" by (simp_all add: copy_row_def d1(1))
    moreover have "files d2 = filter (\<lambda>f. f_id f \<notin> set (descend (length (files d1)) (files d1) [fid])) (files d1)"
      using d1(3) by (simp add: d2 delete_files_def rows Let_def)
    ultimately show ?thesis using \<open>\<not> is_below (files d1) [fid] ?i\<close> by (simp add: descend_is_below)
  qed
  have "db_ok ?d" using cr.drop_all [OF ok1] by (simp add: fst_releases)
  then have "db_ok d2" unfolding d2 by (rule db_ok_delete_files)
  then have get: "GetFileByID ?i d2 = Inr ?c'" using in2 GetFileByID_iff [of d2 ?i ?c'] by (simp add: db_ok_def copy_row_def)
  have "m_id x \<noteq> m_id m" if "x \<in> set (manifests d2)" for x
  proof
    assume "m_id x = m_id m"
    moreover have "x \<in> set (manifests d)" using that d1(2) by (auto simp: d2 delete_files_def rows Let_def split: if_split_asm)
    ultimately have "x = m" using ok GetLatest_Inr [OF m] by (auto simp: db_ok_def manifests_ok_def distinct_map inj_on_def)
    moreover have "m_file x \<notin> {fid}"
      using that d1(3) descend_mono [of "[fid]" "length (files d1)" "files d1"] by (auto simp: d2 delete_files_def rows Let_def)
    ultimately show False using GetLatest_Inr [OF m] by simp
  qed
  then have "GetManifest (m_id m) d2 = Inl ''manifest not found''" by (intro GetManifest_gone) simp
  moreover have "chunk_refs d2 h = None" if "chunk_refs d h = Some n" "0 < n" "n \<le> int (count_list (m_chunks m) h)" for h n
    using drops_to_none [OF ok1 _ that(2,3)] that(1) d1(4) by (simp add: d2 delete_files_refs fst_releases)
  ultimately show ?thesis using get src(3) by (intro exI [of _ ?c']) (auto simp: copy_row_def)
qed

definition copy_demo_db :: database where
  "copy_demo_db = empty_db\<lparr>users := [demo_user], files := [(sample_file ''f'' None ''a'')\<lparr>f_manifest := Some ''m''\<rparr>],
     manifests := [\<lparr>m_id = ''m'', m_file = ''f'', m_version = 1, m_size = 1, m_count = 1, m_chunks = [''abc''], m_checksum = [], m_device = [], m_created = 0\<rparr>],
     chunks := [new_chunk 0 ''local'' 1 [] ''abc'']\<rparr>"

theorem copy_loses_content_witness:
  "case Copy 1 (\<lambda>_. ''1'') (\<lambda>_. 0) ''u'' ''f'' [] ''b'' (0, copy_demo_db) of
     Returns (None, (k, d1)) \<Rightarrow>
       (let d2 = fst (snd (deleteFile (local_backend ''/data'') ''f'' (d1, gc_demo_fs)))
        in GetManifest ''m'' d2 = Inl ''manifest not found'' \<and> chunk_refs d2 ''abc'' = None)
   | _ \<Rightarrow> False"
proof -
  let ?src = "(sample_file ''f'' None ''a'')\<lparr>f_manifest := Some ''m''\<rparr>"
  have ok: "db_ok copy_demo_db" "fk_on copy_demo_db" "GetFileByID ''f'' copy_demo_db = Inr ?src" "f_type ?src \<noteq> ''folder''"
    by (simp_all add: copy_demo_db_def empty_db_def db_ok_def files_ok_def names_unique_def name_clash_def manifests_ok_def chunks_ok_def
        new_chunk_def GetFileByID_def sample_file_def)
  let ?m = "hd (manifests copy_demo_db)"
  have m: "GetLatestManifest ''f'' copy_demo_db = Inr ?m" "f_manifest ?src = Some (m_id ?m)" "m_id ?m = ''m''" "m_chunks ?m = [''abc'']"
    by (simp_all add: copy_demo_db_def GetLatestManifest_def limit_offset_def desc_sort_def)
  have "\<exists>d1. Copy 1 (\<lambda>_. ''1'') (\<lambda>_. 0) ''u'' ''f'' [] ''b'' (0, copy_demo_db) = Returns (None, (1, d1))"
    by (simp add: Copy_def GetFileByID_def isValidName_def GetFileByPath_def CreateFile_def copy_row_def name_clash_def parent_ok_def Let_def
        generateID_def opt_parent_def sample_file_def copy_demo_db_def empty_db_def demo_user_def)
  then obtain d1 where copy: "Copy 1 (\<lambda>_. ''1'') (\<lambda>_. 0) ''u'' ''f'' [] ''b'' (0, copy_demo_db) = Returns (None, (1, d1))" by blast
  obtain e d2 b2 where run: "deleteFile (local_backend ''/data'') ''f'' (d1, gc_demo_fs) = (e, d2, b2)" by (metis surj_pair)
  have "chunk_refs copy_demo_db ''abc'' = Some 1" by (simp add: chunk_refs_def copy_demo_db_def new_chunk_def)
  with copy_loses_content [OF ok(1,2,3,4) m(2,1) copy run] m(3,4)
  have "GetManifest ''m'' d2 = Inl ''manifest not found'' \<and> chunk_refs d2 ''abc'' = None" by auto
  moreover have "fst (snd (deleteFile (local_backend ''/data'') ''f'' (d1, gc_demo_fs))) = d2" unfolding run by simp
  ultimately show ?thesis unfolding copy by (simp del: deleteFile.simps)
qed

end
