(* ===== verification/Devices.thy ===== *)
theory Devices
  imports Store
begin

text \<open>
  Devices and their sync states (\<^verbatim>\<open>src/internal/db/syncstate.go\<close>).  A time pointer that is
  handed to the driver as it is (\<^verbatim>\<open>last_sync_at\<close> of a new device) is stored in the driver's
  own text form; \<open>reparse\<close> is what \<^verbatim>\<open>time.Parse(time.RFC3339, ...)\<close> makes of that text.
\<close>

definition CreateDevice :: "(int \<Rightarrow> int) \<Rightarrow> device \<Rightarrow> database \<Rightarrow> database result" where
  "CreateDevice reparse dv d =
     (if (\<exists>e \<in> set (devices d). dv_id e = dv_id dv)
         \<or> (fk_on d \<and> (\<forall>u \<in> set (users d). u_id u \<noteq> dv_user dv))
      then Inl ''failed to create device''
      else Inr (d\<lparr>devices := devices d @ [dv\<lparr>dv_last_sync := map_option reparse (dv_last_sync dv),
             dv_created := rfc3339 (dv_created dv), dv_updated := rfc3339 (dv_updated dv)\<rparr>]\<rparr>))"

definition GetDeviceByID :: "string \<Rightarrow> database \<Rightarrow> device result" where
  "GetDeviceByID i d =
     (case find_row (\<lambda>e. dv_id e = i) (devices d) of None \<Rightarrow> Inl ''device not found'' | Some e \<Rightarrow> Inr e)"

definition GetDevicesByUser :: "string \<Rightarrow> database \<Rightarrow> device list" where
  "GetDevicesByUser userID d = desc_sort dv_created (filter (\<lambda>e. dv_user e = userID) (devices d))"

datatype device_update = DName string | DType string | DOs string | DFolder string | DLastSync int | DClock string
  | DRoot "string option" | DActive bool | DInvalid string

fun set_device_column :: "device_update \<Rightarrow> device \<Rightarrow> device" where
  "set_device_column (DName s) e = e\<lparr>dv_name := s\<rparr>"
| "set_device_column (DType s) e = e\<lparr>dv_type := s\<rparr>"
| "set_device_column (DOs s) e = e\<lparr>dv_os := s\<rparr>"
| "set_device_column (DFolder s) e = e\<lparr>dv_folder := s\<rparr>"
| "set_device_column (DLastSync t) e = e\<lparr>dv_last_sync := Some (rfc3339 t)\<rparr>"
| "set_device_column (DClock s) e = e\<lparr>dv_clock := s\<rparr>"
| "set_device_column (DRoot r) e = e\<lparr>dv_root := r\<rparr>"
| "set_device_column (DActive b) e = e\<lparr>dv_active := b\<rparr>"
| "set_device_column (DInvalid s) e = e"

fun invalid_device_update :: "device_update \<Rightarrow> bool" where
  "invalid_device_update (DInvalid s) = True"
| "invalid_device_update _ = False"

definition UpdateDevice :: "int \<Rightarrow> string \<Rightarrow> device_update list \<Rightarrow> database \<Rightarrow> database result" where
  "UpdateDevice now i updates d =
     (if updates = [] then Inr d
      else if \<exists>u \<in> set updates. invalid_device_update u then Inl ''invalid update field''
      else if \<forall>e \<in> set (devices d). dv_id e \<noteq> i then Inl ''device not found''
      else Inr (d\<lparr>devices := map (\<lambda>e. if dv_id e = i
             then (fold set_device_column updates e)\<lparr>dv_updated := rfc3339 now\<rparr> else e) (devices d)\<rparr>))"

definition DeleteDevice :: "string \<Rightarrow> database \<Rightarrow> database result" where
  "DeleteDevice i d =
     (if \<forall>e \<in> set (devices d). dv_id e \<noteq> i then Inl ''device not found''
      else Inr (d\<lparr>devices := filter (\<lambda>e. dv_id e \<noteq> i) (devices d),
             sync_states := (if fk_on d then filter (\<lambda>s. ss_device s \<noteq> i) (sync_states d) else sync_states d)\<rparr>))"

text \<open>Insert, or on a conflict of device and file change the other columns.\<close>

definition CreateOrUpdateSyncState :: "sync_state \<Rightarrow> database \<Rightarrow> database result" where
  "CreateOrUpdateSyncState s d =
     (let same = (\<lambda>x. ss_device x = ss_device s \<and> ss_file x = ss_file s)
      in if \<exists>x \<in> set (sync_states d). same x
         then Inr (d\<lparr>sync_states := map (\<lambda>x. if same x
                then x\<lparr>ss_manifest := ss_manifest s, ss_clock := ss_clock s, ss_synced := rfc3339 (ss_synced s)\<rparr> else x) (sync_states d)\<rparr>)
         else if (\<exists>x \<in> set (sync_states d). ss_id x = ss_id s)
              \<or> (fk_on d \<and> ((\<forall>e \<in> set (devices d). dv_id e \<noteq> ss_device s) \<or> \<not> has_file (ss_file s) d))
         then Inl ''failed to create/update sync state''
         else Inr (d\<lparr>sync_states := sync_states d @ [s\<lparr>ss_synced := rfc3339 (ss_synced s)\<rparr>]\<rparr>))"

definition GetSyncState :: "string \<Rightarrow> string \<Rightarrow> database \<Rightarrow> sync_state result" where
  "GetSyncState deviceID fileID d =
     (case find_row (\<lambda>s. ss_device s = deviceID \<and> ss_file s = fileID) (sync_states d) of
        None \<Rightarrow> Inl ''sync state not found'' | Some s \<Rightarrow> Inr s)"

definition GetSyncStatesByDevice :: "string \<Rightarrow> database \<Rightarrow> sync_state list" where
  "GetSyncStatesByDevice deviceID d = desc_sort ss_synced (filter (\<lambda>s. ss_device s = deviceID) (sync_states d))"

section \<open>Lookup laws\<close>

definition devices_ok :: "database \<Rightarrow> bool" where
  "devices_ok d \<longleftrightarrow> distinct (map dv_id (devices d)) \<and> distinct (map (\<lambda>s. (ss_device s, ss_file s)) (sync_states d))"

lemma set_device_columns_id: "dv_id (fold set_device_column us e) = dv_id e \<and> dv_user (fold set_device_column us e) = dv_user e"
proof (induction us arbitrary: e)
  case (Cons u us)
  have "dv_id (set_device_column u e) = dv_id e \<and> dv_user (set_device_column u e) = dv_user e" by (cases u) auto
  with Cons show ?case by simp
qed simp

lemma UpdateDevice_get:
  assumes "UpdateDevice now i us d = Inr d'" and "us \<noteq> []"
  shows "GetDeviceByID j d' = (if j = i then map_sum id (\<lambda>e. (fold set_device_column us e)\<lparr>dv_updated := rfc3339 now\<rparr>) (GetDeviceByID j d) else GetDeviceByID j d)"
proof -
  let ?g = "\<lambda>e. if dv_id e = i then (fold set_device_column us e)\<lparr>dv_updated := rfc3339 now\<rparr> else e"
  have d': "devices d' = map ?g (devices d)" using assms by (auto simp: UpdateDevice_def split: if_split_asm)
  have "find_row (\<lambda>e. dv_id e = j) (map ?g (devices d)) = map_option ?g (find_row (\<lambda>e. dv_id e = j) (devices d))"
    by (rule find_row_map) (simp add: set_device_columns_id)
  then show ?thesis by (auto simp: GetDeviceByID_def d' dest!: find_row_Some split: option.split)
qed

text \<open>Recording a sync state makes exactly that state the one of its device and file.\<close>

lemma sync_state_upsert:
  assumes "CreateOrUpdateSyncState s d = Inr d'" and "devices_ok d"
  shows "devices_ok d'"
    and "\<exists>x. GetSyncState (ss_device s) (ss_file s) d' = Inr x \<and> ss_manifest x = ss_manifest s \<and> ss_clock x = ss_clock s
          \<and> ss_synced x = rfc3339 (ss_synced s)"
    and "dv \<noteq> ss_device s \<or> f \<noteq> ss_file s \<Longrightarrow> GetSyncState dv f d' = GetSyncState dv f d"
proof -
  let ?same = "\<lambda>x. ss_device x = ss_device s \<and> ss_file x = ss_file s"
  let ?g = "\<lambda>x. if ?same x then x\<lparr>ss_manifest := ss_manifest s, ss_clock := ss_clock s, ss_synced := rfc3339 (ss_synced s)\<rparr> else x"
  have key: "find_row (\<lambda>x. ss_device x = a \<and> ss_file x = b) (map ?g xs) = map_option ?g (find_row (\<lambda>x. ss_device x = a \<and> ss_file x = b) xs)" for a b xs
    by (rule find_row_map) simp
  have all: "devices_ok d' \<and> (\<exists>x. GetSyncState (ss_device s) (ss_file s) d' = Inr x \<and> ss_manifest x = ss_manifest s \<and> ss_clock x = ss_clock s
          \<and> ss_synced x = rfc3339 (ss_synced s)) \<and> (dv \<noteq> ss_device s \<or> f \<noteq> ss_file s \<longrightarrow> GetSyncState dv f d' = GetSyncState dv f d)"
  proof (cases "\<exists>x \<in> set (sync_states d). ?same x")
    case True
    then have d': "d' = d\<lparr>sync_states := map ?g (sync_states d)\<rparr>" using assms(1) by (simp add: CreateOrUpdateSyncState_def Let_def)
    have "map (\<lambda>s. (ss_device s, ss_file s)) (map ?g (sync_states d)) = map (\<lambda>s. (ss_device s, ss_file s)) (sync_states d)" by simp
    moreover have "sync_states d' = map ?g (sync_states d)" "devices d' = devices d" by (simp_all add: d')
    ultimately have "devices_ok d'" using assms(2) unfolding devices_ok_def by metis
    moreover obtain y where y: "find_row ?same (sync_states d) = Some y" using True find_row_None [of ?same "sync_states d"] by blast
    moreover have "?same y" using find_row_Some [OF y] by simp
    moreover have "GetSyncState dv f d' = GetSyncState dv f d" if "dv \<noteq> ss_device s \<or> f \<noteq> ss_file s"
    proof -
      have "?g x = x" if "find_row (\<lambda>x. ss_device x = dv \<and> ss_file x = f) (sync_states d) = Some x" for x
        using find_row_Some [OF that] \<open>dv \<noteq> ss_device s \<or> f \<noteq> ss_file s\<close> by auto
      then show ?thesis by (simp add: GetSyncState_def d' key split: option.split)
    qed
    ultimately show ?thesis by (simp add: GetSyncState_def d' key)
  next
    case False
    then have d': "d' = d\<lparr>sync_states := sync_states d @ [s\<lparr>ss_synced := rfc3339 (ss_synced s)\<rparr>]\<rparr>"
      using assms(1) by (auto simp: CreateOrUpdateSyncState_def Let_def split: if_split_asm)
    have none: "find_row ?same (sync_states d) = None" using False find_row_None [of ?same "sync_states d"] by blast
    have "devices_ok d'" using assms(2) False by (auto simp: devices_ok_def d')
    with none show ?thesis by (auto simp: GetSyncState_def d' find_row_append split: option.split)
  qed
  from all show "devices_ok d'" "\<exists>x. GetSyncState (ss_device s) (ss_file s) d' = Inr x \<and> ss_manifest x = ss_manifest s \<and> ss_clock x = ss_clock s
          \<and> ss_synced x = rfc3339 (ss_synced s)" "dv \<noteq> ss_device s \<or> f \<noteq> ss_file s \<Longrightarrow> GetSyncState dv f d' = GetSyncState dv f d"
    by blast+
qed

end
