(* ===== verification/Engine.thy ===== *)
theory Engine
  imports Upload Devices Vector_Clock
begin

text \<open>
  The sync engine (\<^verbatim>\<open>src/internal/sync/engine.go\<close>) and the requests that call it
  (\<^verbatim>\<open>src/internal/server/handlers_sync.go\<close>): negotiation, commit, push and pull of chunks.

  \<open>enc\<close> and \<open>dec\<close> are the JSON encoder and decoder of a vector clock (\<open>None\<close> for an error of
  the decoder), \<open>gen i k\<close> and \<open>clk i k\<close> the \<open>k\<close>-th random suffix and clock reading while change
  \<open>i\<close> of a commit is applied.  Listing and tree building take fuel.
\<close>

section \<open>Requests and responses\<close>

record file_change =
  fc_path :: string
  fc_action :: string
  fc_size :: int
  fc_mime :: string
  fc_hashes :: "string list"
  fc_manifest :: string
  fc_clock :: vector_clock

record commit_request =
  cq_device :: string
  cq_clock :: vector_clock
  cq_changes :: "file_change list"

record conflict_info =
  cf_path :: string
  cf_local :: int
  cf_remote :: int
  cf_resolution :: string

record commit_response =
  cm_status :: string
  cm_root :: string
  cm_clock :: vector_clock
  cm_conflicts :: "conflict_info list"
  cm_applied :: int

record sync_status =
  sy_device :: string
  sy_last :: "int option"
  sy_root :: string
  sy_clock :: vector_clock

record negotiate_request =
  nq_device :: string
  nq_root :: string
  nq_clock :: vector_clock
  nq_files :: "file_info list"

record negotiate_response =
  ng_status :: string
  ng_root :: string
  ng_clock :: vector_clock
  ng_diff :: "diff_result option"
  ng_needed :: "string list"
  ng_have :: "string list"

section \<open>Resolving paths\<close>

fun resolve_segs :: "string \<Rightarrow> string list \<Rightarrow> string option \<Rightarrow> database \<Rightarrow> string option result" where
  "resolve_segs userID [] parentID d = Inr parentID"
| "resolve_segs userID (seg # segs) parentID d =
     (if seg = [] then resolve_segs userID segs parentID d
      else case GetFileByPath userID parentID seg d of
             Inl e \<Rightarrow> Inl ''folder not found''
           | Inr f \<Rightarrow> resolve_segs userID segs (Some (f_id f)) d)"

definition resolveParentID :: "string \<Rightarrow> string \<Rightarrow> database \<Rightarrow> string option result" where
  "resolveParentID userID dirPath d =
     (let p = trim_prefix dirPath ''/''
      in if p = [] \<or> p = ''.'' then Inr None else resolve_segs userID (split_on slash p) None d)"

definition resolveFileByPath :: "string \<Rightarrow> string \<Rightarrow> database \<Rightarrow> file_row result" where
  "resolveFileByPath userID filePath d =
     (case resolveParentID userID (path_Dir filePath) d of
        Inl e \<Rightarrow> Inl e
      | Inr p \<Rightarrow> (case GetFileByPath userID p (path_Base filePath) d of
                   Inl e \<Rightarrow> Inl ''file not found'' | Inr f \<Rightarrow> Inr f))"

definition collectChunkHashesForPath :: "string \<Rightarrow> string \<Rightarrow> database \<Rightarrow> string list result" where
  "collectChunkHashesForPath userID filePath d =
     (case resolveParentID userID (path_Dir filePath) d of
        Inl e \<Rightarrow> Inl ''resolve parent''
      | Inr p \<Rightarrow>
          (case GetFileByPath userID p (path_Base filePath) d of
             Inl e \<Rightarrow> Inl ''file not found''
           | Inr f \<Rightarrow> (case GetLatestManifest (f_id f) d of
                        Inl e \<Rightarrow> Inl ''manifest not found'' | Inr m \<Rightarrow> Inr (m_chunks m))))"

text \<open>The inner loop of the two functions below: the hashes not seen before whose presence in
  storage is \<open>want\<close>; a failed probe skips the hash.\<close>

fun probe_hashes :: "'b backend \<Rightarrow> bool \<Rightarrow> string list \<Rightarrow> string list \<times> string list \<times> 'b \<Rightarrow> string list \<times> string list \<times> 'b" where
  "probe_hashes B want [] st = st"
| "probe_hashes B want (h # hs) (seen, found, b) =
     (if h \<in> set seen then probe_hashes B want hs (seen, found, b)
      else case be_exists B h b of
             (Inl e, b') \<Rightarrow> probe_hashes B want hs (h # seen, found, b')
           | (Inr ex, b') \<Rightarrow> probe_hashes B want hs (h # seen, (if ex = want then found @ [h] else found), b'))"

fun probe_paths :: "'b backend \<Rightarrow> bool \<Rightarrow> string \<Rightarrow> database \<Rightarrow> string list \<Rightarrow> string list \<times> string list \<times> 'b \<Rightarrow> string list \<times> string list \<times> 'b" where
  "probe_paths B want userID d [] st = st"
| "probe_paths B want userID d (p # ps) st =
     (case collectChunkHashesForPath userID p d of
        Inl e \<Rightarrow> probe_paths B want userID d ps st
      | Inr hs \<Rightarrow> probe_paths B want userID d ps (probe_hashes B want hs st))"

definition findNeededChunks :: "'b backend \<Rightarrow> string \<Rightarrow> string list \<Rightarrow> database \<Rightarrow> 'b \<Rightarrow> string list \<times> 'b" where
  "findNeededChunks B userID paths d b = snd (probe_paths B False userID d paths ([], [], b))"

definition findAvailableChunks :: "'b backend \<Rightarrow> string \<Rightarrow> string list \<Rightarrow> string list \<Rightarrow> database \<Rightarrow> 'b \<Rightarrow> string list \<times> 'b" where
  "findAvailableChunks B userID added_paths modified_paths d b =
     snd (probe_paths B True userID d (added_paths @ modified_paths) ([], [], b))"

section \<open>Negotiate\<close>

definition threaded :: "'a outcome \<Rightarrow> 'b \<Rightarrow> ('a \<Rightarrow> 'c outcome \<times> 'b) \<Rightarrow> 'c outcome \<times> 'b" where
  "threaded r b k = (case r of Diverges \<Rightarrow> (Diverges, b) | Panics \<Rightarrow> (Panics, b) | Returns x \<Rightarrow> k x)"

definition root_hash :: "merkle_node option \<Rightarrow> string" where
  "root_hash t = (case t of None \<Rightarrow> [] | Some n \<Rightarrow> mn_hash n)"

definition negotiate_diff :: "merkle_node option \<Rightarrow> merkle_node option \<Rightarrow> diff_result" where
  "negotiate_diff client server =
     (case (client, server) of
        (Some c, Some s) \<Rightarrow> Diff client server
      | (None, Some s) \<Rightarrow> \<lparr>added = collectAllPaths server, modified = [], deleted = []\<rparr>
      | (_, None) \<Rightarrow> \<lparr>added = [], modified = [], deleted = []\<rparr>)"

definition merged_clock :: "(string \<Rightarrow> vector_clock option) \<Rightarrow> negotiate_request \<Rightarrow> database \<Rightarrow> vector_clock outcome" where
  "merged_clock dec req d =
     (case GetDeviceByID (nq_device req) d of
        Inl e \<Rightarrow> Returns (Vector_Clock.Copy (nq_clock req))
      | Inr dv \<Rightarrow> if dv_clock dv = [] then Returns (Vector_Clock.Copy (nq_clock req))
                 else (case dec (dv_clock dv) of
                         None \<Rightarrow> Returns (Vector_Clock.Copy (nq_clock req))
                       | Some sc \<Rightarrow> Merge (Vector_Clock.Copy (nq_clock req)) sc))"

definition Negotiate :: "nat \<Rightarrow> (string \<Rightarrow> string) \<Rightarrow> (string \<Rightarrow> vector_clock option) \<Rightarrow> 'b backend \<Rightarrow> string \<Rightarrow> negotiate_request
    \<Rightarrow> database \<Rightarrow> 'b \<Rightarrow> negotiate_response outcome \<times> 'b" where
  "Negotiate fuel sha dec B userID req d b =
     threaded (ListAllFiles fuel sha userID d) b (\<lambda>serverFiles.
     threaded (Build fuel sha serverFiles) b (\<lambda>serverRoot.
       let serverRootHash = root_hash serverRoot
       in if serverRootHash = nq_root req \<and> nq_root req \<noteq> []
          then (Returns \<lparr>ng_status = ''synced'', ng_root = serverRootHash, ng_clock = nq_clock req, ng_diff = None,
                  ng_needed = [], ng_have = []\<rparr>, b)
          else threaded (Build fuel sha (nq_files req)) b (\<lambda>clientRoot.
            let diff = negotiate_diff clientRoot serverRoot;
                (needed, b1) = findNeededChunks B userID (modified diff) d b;
                (have_chunks, b2) = findAvailableChunks B userID (added diff) (modified diff) d b1
            in threaded (merged_clock dec req d) b2 (\<lambda>clock.
                 (Returns \<lparr>ng_status = ''diff'', ng_root = serverRootHash, ng_clock = clock, ng_diff = Some diff,
                    ng_needed = needed, ng_have = have_chunks\<rparr>, b2)))))"

section \<open>Commit\<close>

definition generateSyncID :: "string \<Rightarrow> string \<Rightarrow> string" where
  "generateSyncID prefix rnd = prefix @ ''_'' @ rnd"

fun ensureChunkRefs :: "'b backend \<Rightarrow> (nat \<Rightarrow> int) \<Rightarrow> nat \<Rightarrow> string list \<Rightarrow> database \<Rightarrow> string option \<times> database" where
  "ensureChunkRefs B clk i [] d = (None, d)"
| "ensureChunkRefs B clk i (h # hs) d =
     (if ChunkExists h d
      then (case IncrementRefCount h d of
              Inl e \<Rightarrow> (Some ''increment ref for chunk'', d)
            | Inr d' \<Rightarrow> ensureChunkRefs B clk (Suc i) hs d')
      else (case CreateChunk (new_chunk (clk i) (be_type B) 0 h h) d of
              Inl e \<Rightarrow> (Some ''create chunk'', d)
            | Inr d' \<Rightarrow> ensureChunkRefs B clk (Suc i) hs d'))"

definition change_manifest :: "string \<Rightarrow> string \<Rightarrow> int \<Rightarrow> int \<Rightarrow> file_change \<Rightarrow> manifest" where
  "change_manifest rnd fileID version now c = \<lparr>m_id = generateSyncID ''manifest'' rnd, m_file = fileID, m_version = version,
     m_size = fc_size c, m_count = int (length (fc_hashes c)), m_chunks = fc_hashes c, m_checksum = fc_manifest c,
     m_device = firstDeviceID (fc_clock c), m_created = now\<rparr>"

definition applyAdd :: "'b backend \<Rightarrow> (nat \<Rightarrow> string) \<Rightarrow> (nat \<Rightarrow> int) \<Rightarrow> string \<Rightarrow> file_change \<Rightarrow> database \<Rightarrow> string option \<times> database" where
  "applyAdd B gen clk userID c d =
     (case resolveParentID userID (path_Dir (fc_path c)) d of
        Inl e \<Rightarrow> (Some ''resolve parent'', d)
      | Inr parentID \<Rightarrow>
          (let f = (blank_file (generateSyncID ''file'' (gen 0)) userID parentID (path_Base (fc_path c)) ''file'' (clk 0))
                     \<lparr>f_size := fc_size c, f_mime := fc_mime c, f_version := 1\<rparr>
           in case Store.CreateFile f d of
                Inl e \<Rightarrow> (Some ''create file'', d)
              | Inr d1 \<Rightarrow>
                  if fc_hashes c = [] then (None, d1)
                  else (let m = change_manifest (gen 1) (f_id f) 1 (clk 0) c
                        in case CreateManifest m d1 of
                             Inl e \<Rightarrow> (Some ''create manifest'', d1)
                           | Inr d2 \<Rightarrow>
                               (case UpdateFile (clk 1) (f_id f) [UManifest (Some (m_id m)), UVersion 1] d2 of
                                  Inl e \<Rightarrow> (Some ''link manifest to file'', d2)
                                | Inr d3 \<Rightarrow> ensureChunkRefs B clk 2 (fc_hashes c) d3))))"

definition applyModify :: "'b backend \<Rightarrow> (nat \<Rightarrow> string) \<Rightarrow> (nat \<Rightarrow> int) \<Rightarrow> string \<Rightarrow> file_change \<Rightarrow> database \<Rightarrow> string option \<times> database" where
  "applyModify B gen clk userID c d =
     (case resolveFileByPath userID (fc_path c) d of
        Inl e \<Rightarrow> (Some ''resolve file'', d)
      | Inr f \<Rightarrow>
          (let newVersion = wrap64 (f_version f + 1);
               m = change_manifest (gen 0) (f_id f) newVersion (clk 0) c
           in case CreateManifest m d of
                Inl e \<Rightarrow> (Some ''create manifest'', d)
              | Inr d1 \<Rightarrow>
                  (case UpdateFile (clk 1) (f_id f) [UManifest (Some (m_id m)), USize (fc_size c), UMime (fc_mime c), UVersion newVersion] d1 of
                     Inl e \<Rightarrow> (Some ''update file'', d1)
                   | Inr d2 \<Rightarrow> ensureChunkRefs B clk 2 (fc_hashes c) d2)))"

definition applyDelete :: "(nat \<Rightarrow> int) \<Rightarrow> string \<Rightarrow> file_change \<Rightarrow> database \<Rightarrow> string option \<times> database" where
  "applyDelete clk userID c d =
     (case resolveFileByPath userID (fc_path c) d of
        Inl e \<Rightarrow> (Some ''resolve file'', d)
      | Inr f \<Rightarrow> (case SoftDelete (clk 0) (f_id f) d of Inl e \<Rightarrow> (Some ''soft delete'', d) | Inr d' \<Rightarrow> (None, d')))"

definition applyChange :: "'b backend \<Rightarrow> (nat \<Rightarrow> string) \<Rightarrow> (nat \<Rightarrow> int) \<Rightarrow> string \<Rightarrow> file_change \<Rightarrow> database \<Rightarrow> string option \<times> database" where
  "applyChange B gen clk userID c d =
     (if fc_action c = ''add'' then applyAdd B gen clk userID c d
      else if fc_action c = ''modify'' then applyModify B gen clk userID c d
      else if fc_action c = ''delete'' then applyDelete clk userID c d
      else (Some ''unknown action'', d))"

definition detectConflict :: "string \<Rightarrow> file_change \<Rightarrow> database \<Rightarrow> conflict_info option" where
  "detectConflict userID c d = None"

text \<open>The loop over the changes: the number applied, the conflicts and the tables.\<close>

fun apply_changes :: "'b backend \<Rightarrow> (nat \<Rightarrow> nat \<Rightarrow> string) \<Rightarrow> (nat \<Rightarrow> nat \<Rightarrow> int) \<Rightarrow> string \<Rightarrow> nat \<Rightarrow> file_change list
    \<Rightarrow> int \<times> conflict_info list \<times> database \<Rightarrow> int \<times> conflict_info list \<times> database" where
  "apply_changes B gen clk userID i [] st = st"
| "apply_changes B gen clk userID i (c # cs) (n, confs, d) =
     (let confs' = (case detectConflict userID c d of None \<Rightarrow> confs | Some x \<Rightarrow> confs @ [x])
      in if detectConflict userID c d \<noteq> None \<and> fc_action c = ''modify''
         then apply_changes B gen clk userID (Suc i) cs (n, confs', d)
         else case applyChange B (gen i) (clk i) userID c d of
                (Some e, d') \<Rightarrow> apply_changes B gen clk userID (Suc i) cs (n, confs', d')
              | (None, d') \<Rightarrow> apply_changes B gen clk userID (Suc i) cs (wrap64 (n + 1), confs', d'))"

definition updateDeviceState :: "(vector_clock \<Rightarrow> string) \<Rightarrow> int \<Rightarrow> string \<Rightarrow> vector_clock \<Rightarrow> database \<Rightarrow> database" where
  "updateDeviceState enc now deviceID vc d = ignore_error d (UpdateDevice now deviceID [DClock (enc vc), DLastSync now] d)"

definition Commit :: "nat \<Rightarrow> (string \<Rightarrow> string) \<Rightarrow> (vector_clock \<Rightarrow> string) \<Rightarrow> 'b backend \<Rightarrow> (nat \<Rightarrow> nat \<Rightarrow> string) \<Rightarrow> (nat \<Rightarrow> nat \<Rightarrow> int)
    \<Rightarrow> int \<Rightarrow> string \<Rightarrow> commit_request \<Rightarrow> database \<Rightarrow> commit_response outcome \<times> database" where
  "Commit fuel sha enc B gen clk now userID req d =
     (let (n, confs, d1) = apply_changes B gen clk userID 0 (cq_changes req) (0, [], d);
          d2 = updateDeviceState enc now (cq_device req) (cq_clock req) d1
      in threaded (ListAllFiles fuel sha userID d2) d2 (\<lambda>serverFiles.
         threaded (Build fuel sha serverFiles) d2 (\<lambda>newRoot.
         threaded (Increment (cq_clock req) (cq_device req)) d2 (\<lambda>clock.
           (Returns \<lparr>cm_status = (if confs \<noteq> [] then ''partial'' else ''committed''), cm_root = root_hash newRoot,
              cm_clock = clock, cm_conflicts = confs, cm_applied = n\<rparr>, d2)))))"

section \<open>Status and devices\<close>

definition GetStatus :: "(string \<Rightarrow> vector_clock option) \<Rightarrow> string \<Rightarrow> database \<Rightarrow> sync_status result" where
  "GetStatus dec deviceID d =
     (case GetDeviceByID deviceID d of
        Inl e \<Rightarrow> Inl ''device not found''
      | Inr dv \<Rightarrow> Inr \<lparr>sy_device = deviceID, sy_last = dv_last_sync dv,
          sy_root = (case dv_root dv of None \<Rightarrow> [] | Some r \<Rightarrow> r),
          sy_clock = (if dv_clock dv = [] then None else case dec (dv_clock dv) of None \<Rightarrow> None | Some v \<Rightarrow> v)\<rparr>)"

definition RegisterDevice :: "(int \<Rightarrow> int) \<Rightarrow> (vector_clock \<Rightarrow> string) \<Rightarrow> int \<Rightarrow> device \<Rightarrow> database \<Rightarrow> database result" where
  "RegisterDevice reparse enc now dv d =
     (case GetDeviceByID (dv_id dv) d of
        Inr _ \<Rightarrow> UpdateDevice now (dv_id dv) [DName (dv_name dv), DType (dv_type dv), DOs (dv_os dv), DFolder (dv_folder dv), DActive True] d
      | Inl _ \<Rightarrow> CreateDevice reparse (dv\<lparr>dv_clock := enc NewVectorClock, dv_active := True\<rparr>) d)"

section \<open>handlers_sync.go\<close>

datatype sync_response =
    SError nat string
  | DeviceRegistered string
  | DeviceList "device list"
  | DeviceRemoved
  | Negotiated negotiate_response
  | ChunkStored string
  | ChunkBody string "byte list"
  | Committed nat commit_response
  | OverallStatus string
  | DeviceStatus sync_status
  | SessionList "(string \<times> string \<times> sync_state list) list"

record register_request =
  rq_device :: string
  rq_name :: string
  rq_type :: string
  rq_os :: string
  rq_folder :: string

definition registerDevice :: "(int \<Rightarrow> int) \<Rightarrow> (vector_clock \<Rightarrow> string) \<Rightarrow> int \<Rightarrow> string \<Rightarrow> register_request option \<Rightarrow> database
    \<Rightarrow> sync_response \<times> database" where
  "registerDevice reparse enc now userID body d =
     (if userID = [] then (SError 401 ''Unauthorized'', d)
      else case body of
        None \<Rightarrow> (SError 400 ''Invalid request body'', d)
      | Some req \<Rightarrow>
          if rq_device req = [] \<or> rq_name req = [] then (SError 400 ''device_id and name are required'', d)
          else (let dv = \<lparr>dv_id = rq_device req, dv_user = userID, dv_name = rq_name req, dv_type = rq_type req, dv_os = rq_os req,
                  dv_folder = rq_folder req, dv_last_sync = None, dv_clock = [], dv_root = None, dv_active = False,
                  dv_created = zero_time, dv_updated = zero_time\<rparr>
                in case RegisterDevice reparse enc now dv d of
                     Inl e \<Rightarrow> (SError 500 ''Failed to register device'', d)
                   | Inr d' \<Rightarrow> (DeviceRegistered (rq_device req), d')))"

definition listDevices :: "string \<Rightarrow> database \<Rightarrow> sync_response" where
  "listDevices userID d = (if userID = [] then SError 401 ''Unauthorized'' else DeviceList (GetDevicesByUser userID d))"

definition verifyDeviceOwnership :: "string \<Rightarrow> string \<Rightarrow> database \<Rightarrow> string option" where
  "verifyDeviceOwnership userID deviceID d =
     (case GetDeviceByID deviceID d of
        Inl e \<Rightarrow> Some ''device not owned by user''
      | Inr dv \<Rightarrow> if dv_user dv \<noteq> userID then Some ''device not owned by user'' else None)"

definition removeDevice :: "string \<Rightarrow> string \<Rightarrow> database \<Rightarrow> sync_response \<times> database" where
  "removeDevice userID deviceID d =
     (if userID = [] then (SError 401 ''Unauthorized'', d)
      else if deviceID = [] then (SError 400 ''Device ID required'', d)
      else if (case GetDeviceByID deviceID d of Inl e \<Rightarrow> True | Inr dv \<Rightarrow> dv_user dv \<noteq> userID)
      then (SError 404 ''Device not found'', d)
      else case DeleteDevice deviceID d of
             Inl e \<Rightarrow> (SError 500 ''Failed to remove device'', d)
           | Inr d' \<Rightarrow> (DeviceRemoved, d'))"

definition negotiate :: "nat \<Rightarrow> (string \<Rightarrow> string) \<Rightarrow> (string \<Rightarrow> vector_clock option) \<Rightarrow> 'b backend \<Rightarrow> string \<Rightarrow> negotiate_request option
    \<Rightarrow> database \<Rightarrow> 'b \<Rightarrow> sync_response outcome \<times> 'b" where
  "negotiate fuel sha dec B userID body d b =
     (if userID = [] then (Returns (SError 401 ''Unauthorized''), b)
      else case body of
        None \<Rightarrow> (Returns (SError 400 ''Invalid request body''), b)
      | Some req \<Rightarrow>
          if nq_device req = [] then (Returns (SError 400 ''device_id is required''), b)
          else if verifyDeviceOwnership userID (nq_device req) d \<noteq> None then (Returns (SError 403 ''Access denied''), b)
          else (let (r, b') = Negotiate fuel sha dec B userID req d b
                in (obind r (\<lambda>resp. Returns (Negotiated resp)), b')))"

text \<open>The multipart form: a parse error, or the hash field and the chunk (\<open>Inl None\<close> when the
  field is missing, \<open>Inl (Some e)\<close> for a read error).\<close>

definition push :: "(byte list \<Rightarrow> string) \<Rightarrow> 'b backend \<Rightarrow> string \<Rightarrow> (string \<times> (string option + byte list)) option \<Rightarrow> 'b
    \<Rightarrow> sync_response \<times> 'b" where
  "push sha256 B userID form b =
     (if userID = [] then (SError 401 ''Unauthorized'', b)
      else case form of
        None \<Rightarrow> (SError 400 ''Failed to parse upload'', b)
      | Some (hash, part) \<Rightarrow>
          if hash = [] then (SError 400 ''Chunk hash required'', b)
          else case part of
            Inl None \<Rightarrow> (SError 400 ''Chunk data required'', b)
          | Inl (Some e) \<Rightarrow> (SError 500 ''Failed to read chunk data'', b)
          | Inr w \<Rightarrow>
              if sha256 w \<noteq> hash then (SError 400 ''Chunk hash mismatch'', b)
              else case be_put B hash w b of
                     (Some e, b') \<Rightarrow> (SError 500 ''Failed to store chunk'', b')
                   | (None, b') \<Rightarrow> (ChunkStored hash, b'))"

definition pullChunk :: "'b backend \<Rightarrow> string \<Rightarrow> string \<Rightarrow> database \<Rightarrow> 'b \<Rightarrow> sync_response \<times> 'b" where
  "pullChunk B userID hash d b =
     (if userID = [] then (SError 401 ''Unauthorized'', b)
      else if hash = [] then (SError 400 ''Chunk hash required'', b)
      else if \<not> UserOwnsChunk userID hash d then (SError 403 ''Access denied'', b)
      else case be_get B hash b of
             (Inl e, b') \<Rightarrow> (SError 404 ''Chunk not found'', b')
           | (Inr w, b') \<Rightarrow> (ChunkBody hash w, b'))"

definition commit :: "nat \<Rightarrow> (string \<Rightarrow> string) \<Rightarrow> (vector_clock \<Rightarrow> string) \<Rightarrow> 'b backend \<Rightarrow> (nat \<Rightarrow> nat \<Rightarrow> string) \<Rightarrow> (nat \<Rightarrow> nat \<Rightarrow> int)
    \<Rightarrow> int \<Rightarrow> string \<Rightarrow> commit_request option \<Rightarrow> database \<Rightarrow> sync_response outcome \<times> database" where
  "commit fuel sha enc B gen clk now userID body d =
     (if userID = [] then (Returns (SError 401 ''Unauthorized''), d)
      else case body of
        None \<Rightarrow> (Returns (SError 400 ''Invalid request body''), d)
      | Some req \<Rightarrow>
          if cq_device req = [] then (Returns (SError 400 ''device_id is required''), d)
          else if verifyDeviceOwnership userID (cq_device req) d \<noteq> None then (Returns (SError 403 ''Access denied''), d)
          else (let (r, d') = Commit fuel sha enc B gen clk now userID req d
                in (obind r (\<lambda>resp. Returns (Committed (if cm_status resp = ''partial'' then 409 else 200) resp)), d')))"

definition getStatus :: "(string \<Rightarrow> vector_clock option) \<Rightarrow> string \<Rightarrow> string \<Rightarrow> database \<Rightarrow> sync_response" where
  "getStatus dec userID deviceID d =
     (if userID = [] then SError 401 ''Unauthorized''
      else if deviceID = [] then OverallStatus userID
      else if verifyDeviceOwnership userID deviceID d \<noteq> None then SError 404 ''Device not found''
      else case GetStatus dec deviceID d of Inl e \<Rightarrow> SError 404 ''Device not found'' | Inr st \<Rightarrow> DeviceStatus st)"

definition listSessions :: "string \<Rightarrow> database \<Rightarrow> sync_response" where
  "listSessions userID d =
     (if userID = [] then SError 401 ''Unauthorized''
      else SessionList (map (\<lambda>dv. (dv_id dv, dv_name dv, GetSyncStatesByDevice (dv_id dv) d)) (GetDevicesByUser userID d)))"

section \<open>References of a commit\<close>

lemma ensure_take_refs:
  assumes "db_ok d"
  shows "\<exists>d'. ensureChunkRefs B clk i hs d = (None, d') \<and> db_ok d' \<and> files d' = files d \<and> manifests d' = manifests d
    \<and> (\<forall>h. count_of (chunk_refs d' h) = count_of (chunk_refs d h) + int (count_list hs h)
         \<and> (chunk_refs d' h = None \<longleftrightarrow> chunk_refs d h = None \<and> h \<notin> set hs))"
  using assms
proof (induction hs arbitrary: d i)
  case Nil
  then show ?case by simp
next
  case (Cons a hs)
  from cr.take_one [OF Cons.prems, of a "clk i" "be_type B" "\<lambda>_. 0" "\<lambda>h. h"] obtain d1 where
    d1: "(if chunk_refs d a \<noteq> None then IncrementRefCount a d else CreateChunk (new_chunk (clk i) (be_type B) 0 a a) d) = Inr d1"
      "db_ok d1" "chunk_refs d1 = (chunk_refs d)(a \<mapsto> count_of (chunk_refs d a) + 1)" by blast
  have rows: "files d1 = files d \<and> manifests d1 = manifests d"
    using d1(1) CreateChunk_Inr [of "new_chunk (clk i) (be_type B) 0 a a" d d1]
    by (auto simp: IncrementRefCount_def split: if_split_asm)
  from Cons.IH [OF d1(2), of "Suc i"] obtain d2 where
    d2: "ensureChunkRefs B clk (Suc i) hs d1 = (None, d2)" "db_ok d2" "files d2 = files d1" "manifests d2 = manifests d1"
      "\<forall>h. count_of (chunk_refs d2 h) = count_of (chunk_refs d1 h) + int (count_list hs h)
         \<and> (chunk_refs d2 h = None \<longleftrightarrow> chunk_refs d1 h = None \<and> h \<notin> set hs)" by blast
  have "ensureChunkRefs B clk i (a # hs) d = (None, d2)"
    using d1(1) d2(1) chunk_refs_None [of d a] by (auto split: if_split_asm)
  moreover have "count_of (chunk_refs d2 h) = count_of (chunk_refs d h) + int (count_list (a # hs) h)
      \<and> (chunk_refs d2 h = None \<longleftrightarrow> chunk_refs d h = None \<and> h \<notin> set (a # hs))" for h
    using d2(5) d1(3) by (auto simp: count_of_def)
  ultimately show ?case using d2 rows by simp
qed

end
