(* ===== verification/Sync_Server.thy ===== *)
theory Sync_Server
  imports Engine Content
begin

text \<open>
  What the sync requests do to a running server: when negotiation and commit return, which
  invariants of the tables a commit keeps, and what its unchecked hashes do to storage and access.
\<close>

section \<open>Negotiation and commit of a user with files\<close>

text \<open>An entry at the root of a user's tree that is not in the trash.\<close>

definition live_root :: "string \<Rightarrow> database \<Rightarrow> bool" where
  "live_root u d \<longleftrightarrow> (\<exists>f \<in> set (files d). f_user f = u \<and> f_parent f = None \<and> \<not> f_trashed f)"

lemma sort_key_Nil: "sort_key k xs = [] \<longleftrightarrow> xs = []"
  by (metis length_0_conv length_sort)

lemma live_root_listed: "live_root u d \<longleftrightarrow> ListDirectory u None 10000 0 d \<noteq> []"
proof -
  have "set (ListDirectory u None 10000 0 d) = {} \<longleftrightarrow> filter (\<lambda>f. f_user f = u \<and> at_parent None f \<and> \<not> f_trashed f) (files d) = []"
    by (simp add: ListDirectory_def limit_offset_def desc_sort_def sort_key_Nil)
  then show ?thesis by (auto simp: live_root_def filter_empty_conv)
qed

lemma omap_cases:
  assumes "\<And>x. x \<in> set xs \<Longrightarrow> f x = Diverges \<or> (\<exists>r. f x = Returns r \<and> P r)"
  shows "omap f xs = Diverges \<or> (\<exists>rs. omap f xs = Returns rs \<and> length rs = length xs \<and> (\<forall>r \<in> set rs. P r))"
  using assms
proof (induction xs)
  case (Cons x xs)
  from Cons.IH [OF Cons.prems] Cons.prems [of x] show ?case by (auto split: outcome.splits)
qed simp

lemma walkDir_cases:
  assumes "has_prefix prefix ''/''"
  shows "walkDir n sha u p prefix d = Diverges \<or> (\<exists>r. walkDir n sha u p prefix d = Returns r \<and> (\<forall>fi \<in> set r. absolute fi)
    \<and> (r = [] \<longleftrightarrow> ListDirectory u p 10000 0 d = []))"
  using assms
proof (induction n arbitrary: p prefix)
  case (Suc n)
  let ?step = "\<lambda>e. if f_type e = ''folder''
         then obind (walkDir n sha u (Some (f_id e)) (prefix @ f_name e @ ''/'') d)
                (\<lambda>rest. Returns (entry_info sha (prefix @ f_name e) e # rest))
         else Returns [entry_info sha (prefix @ f_name e) e]"
  let ?es = "ListDirectory u p 10000 0 d"
  have self: "absolute (entry_info sha (prefix @ f_name e) e)" for e
    using Suc.prems has_prefix_slash_append by (simp add: absolute_def)
  have entry: "?step e = Diverges \<or> (\<exists>r. ?step e = Returns r \<and> (\<forall>fi \<in> set r. absolute fi) \<and> r \<noteq> [])" for e
    using Suc.IH [of "prefix @ f_name e @ ''/''" "Some (f_id e)"] Suc.prems self [of e] has_prefix_slash_append by auto
  from omap_cases [of ?es ?step "\<lambda>r. (\<forall>fi \<in> set r. absolute fi) \<and> r \<noteq> []", OF entry]
  show ?case
  proof
    assume "\<exists>rs. omap ?step ?es = Returns rs \<and> length rs = length ?es \<and> (\<forall>r \<in> set rs. (\<forall>fi \<in> set r. absolute fi) \<and> r \<noteq> [])"
    then obtain rs where rs: "omap ?step ?es = Returns rs" "length rs = length ?es"
      "\<forall>r \<in> set rs. (\<forall>fi \<in> set r. absolute fi) \<and> r \<noteq> []" by blast
    have "walkDir (Suc n) sha u p prefix d = Returns (concat rs)" by (simp only: walkDir.simps rs obind.simps)
    moreover have "concat rs = [] \<longleftrightarrow> ?es = []" using rs(2,3) by (cases rs) auto
    ultimately show ?thesis using rs(3) by auto
  next
    assume "omap ?step ?es = Diverges"
    then show ?thesis by (simp only: walkDir.simps obind.simps) simp
  qed
qed simp

lemma threaded_simps [simp]:
  "threaded Diverges b k = (Diverges, b)" "threaded Panics b k = (Panics, b)" "threaded (Returns x) b k = k x"
  by (simp_all add: threaded_def)

lemma tree_of_files_diverges:
  assumes "live_root u d"
  shows "threaded (ListAllFiles n sha u d) b (\<lambda>fs. threaded (Build n sha fs) b k) = (Diverges, b)"
proof -
  have "Build n sha fs = Diverges" if "f \<in> set fs" "absolute f" for f fs
  proof -
    have "f \<in> set (sort_key fi_path fs)" and "fs \<noteq> []" using that by auto
    with that(2) buildNode_absolute_diverges show ?thesis by (simp add: Build_def)
  qed
  then have div: "Build n sha fs = Diverges" if "fs \<noteq> []" "\<forall>f \<in> set fs. absolute f" for fs
    using that by (metis list.set_intros(1) neq_Nil_conv)
  from walkDir_cases [of "''/''" n sha u None d] show ?thesis
    unfolding ListAllFiles_def using assms div by (auto simp: live_root_listed simp del: walkDir.simps)
qed

lemma empty_tree_returns:
  assumes "\<not> live_root u d"
  shows "threaded (ListAllFiles (Suc n) sha u d) b (\<lambda>fs. threaded (Build (Suc n) sha fs) b k) = k None"
  using assms by (simp add: ListAllFiles_def live_root_listed Build_def)

text \<open>The tables a commit leaves behind.\<close>

definition committed :: "(vector_clock \<Rightarrow> string) \<Rightarrow> 'b backend \<Rightarrow> (nat \<Rightarrow> nat \<Rightarrow> string) \<Rightarrow> (nat \<Rightarrow> nat \<Rightarrow> int) \<Rightarrow> int
    \<Rightarrow> string \<Rightarrow> commit_request \<Rightarrow> database \<Rightarrow> database" where
  "committed enc B gen clk now u req d =
     updateDeviceState enc now (cq_device req) (cq_clock req) (snd (snd (apply_changes B gen clk u 0 (cq_changes req) (0, [], d))))"

lemma updateDeviceState_rows [simp]:
  "files (updateDeviceState enc now dev vc d) = files d" "manifests (updateDeviceState enc now dev vc d) = manifests d"
  "chunks (updateDeviceState enc now dev vc d) = chunks d"
  by (simp_all add: updateDeviceState_def ignore_error_def UpdateDevice_def)

lemma no_conflicts: "fst (snd (apply_changes B gen clk u i cs (n, confs, d))) = confs"
  by (induction cs arbitrary: i n d) (auto simp: detectConflict_def Let_def split: option.split prod.split)

lemma Commit_committed:
  "Commit fuel sha enc B gen clk now u req d =
     (let d' = committed enc B gen clk now u req d
      in threaded (ListAllFiles fuel sha u d') d' (\<lambda>fs. threaded (Build fuel sha fs) d' (\<lambda>newRoot.
         threaded (Increment (cq_clock req) (cq_device req)) d' (\<lambda>clock.
           (Returns \<lparr>cm_status = ''committed'', cm_root = root_hash newRoot, cm_clock = clock, cm_conflicts = [],
              cm_applied = fst (apply_changes B gen clk u 0 (cq_changes req) (0, [], d))\<rparr>, d')))))"
  using no_conflicts [of B gen clk u 0 "cq_changes req" 0 "[]" d]
  by (simp add: Commit_def committed_def Let_def case_prod_unfold)


definition demo_device :: device where
  "demo_device = \<lparr>dv_id = ''dev'', dv_user = ''u'', dv_name = ''n'', dv_type = [], dv_os = [], dv_folder = [], dv_last_sync = None,
     dv_clock = [], dv_root = None, dv_active = True, dv_created = 0, dv_updated = 0\<rparr>"

definition sync_demo_db :: database where
  "sync_demo_db = empty_db\<lparr>users := [demo_user], devices := [demo_device]\<rparr>"

definition demo_change :: "string list \<Rightarrow> file_change" where
  "demo_change hs = \<lparr>fc_path = ''/a'', fc_action = ''add'', fc_size = 1, fc_mime = [], fc_hashes = hs, fc_manifest = [], fc_clock = None\<rparr>"

definition demo_commit :: "string list \<Rightarrow> commit_request" where
  "demo_commit hs = \<lparr>cq_device = ''dev'', cq_clock = Some [], cq_changes = [demo_change hs]\<rparr>"

definition demo_gen :: "nat \<Rightarrow> nat \<Rightarrow> string" where
  "demo_gen i k = replicate (Suc k) CHR ''x''"

lemma demo_paths: "path_Dir ''/a'' = ''/''" "path_Base ''/a'' = ''a''"
  by code_simp+

lemma demo_parent: "resolveParentID u ''/'' d = Inr None"
  by (simp add: resolveParentID_def trim_prefix_def)

lemma demo_add_file:
  "applyAdd B (demo_gen 0) (\<lambda>_. 0) ''u'' (demo_change []) sync_demo_db =
     (None, sync_demo_db\<lparr>files := [(blank_file ''file_x'' ''u'' None ''a'' ''file'' 0)\<lparr>f_size := 1, f_mime := [], f_version := 1\<rparr>]\<rparr>)"
  by (simp add: applyAdd_def demo_change_def demo_paths demo_parent Let_def generateSyncID_def demo_gen_def Store.CreateFile_def
      blank_file_def sync_demo_db_def empty_db_def demo_user_def parent_ok_def rfc3339_def)


section \<open>Reference counts under commits\<close>

text \<open>Tables whose versions all belong to a file and whose counts cover the references of the
  versions and \<open>n\<close> more.\<close>

definition refs_ok :: "(string \<Rightarrow> nat) \<Rightarrow> database \<Rightarrow> bool" where
  "refs_ok n d \<longleftrightarrow> db_ok d \<and> (\<forall>m \<in> set (manifests d). has_file (m_file m) d) \<and> covers (\<lambda>h. n h + refs_of (manifests d) h) d"

lemma refs_ok_rows:
  assumes "refs_ok n d" and "db_ok d'" and "manifests d' = manifests d" and "chunk_refs d' = chunk_refs d"
    and "\<And>j. has_file j d \<Longrightarrow> has_file j d'"
  shows "refs_ok n d'"
  using assms unfolding refs_ok_def covers_def by simp

lemma refs_ok_update:
  assumes "refs_ok n d" and "db_ok d'" and "d' = d\<lparr>files := update_row i g (files d)\<rparr>" and "\<And>f. f_id (g f) = f_id f"
  shows "refs_ok n d'"
proof (rule refs_ok_rows [OF assms(1,2)])
  show "has_file j d'" if "has_file j d" for j using that assms(4) by (simp add: assms(3) has_file_update)
qed (simp_all add: assms(3) chunk_refs_def fun_eq_iff)

lemma update_succeeds:
  assumes "db_ok d" and "has_file i d" and "us \<noteq> []" and "\<forall>u \<in> set us. \<not> invalid_update u"
    and "\<And>f. f_user (fold set_column us f) = f_user f \<and> f_parent (fold set_column us f) = f_parent f \<and> f_name (fold set_column us f) = f_name f"
  shows "\<exists>d'. UpdateFile now i us d = Inr d' \<and> db_ok d'
     \<and> d' = d\<lparr>files := update_row i (\<lambda>f. (fold set_column us f)\<lparr>f_updated := rfc3339 now\<rparr>) (files d)\<rparr>"
proof -
  have "\<not> update_clash i (\<lambda>f. (fold set_column us f)\<lparr>f_updated := rfc3339 now\<rparr>) (files d)"
    using assms(1,5) by (intro no_clash_same_key) (simp_all add: db_ok_def set_columns_id)
  then have "\<exists>d'. UpdateFile now i us d = Inr d'
     \<and> d' = d\<lparr>files := update_row i (\<lambda>f. (fold set_column us f)\<lparr>f_updated := rfc3339 now\<rparr>) (files d)\<rparr>"
    using assms(2-4) by (simp add: UpdateFile_def)
  then show ?thesis using db_ok_UpdateFile [OF _ assms(1)] by blast
qed

text \<open>A version is created, linked and its references are taken: nothing can fail after the first step.\<close>

lemma new_version_refs:
  assumes "refs_ok n d" and "has_file (m_file m) d" and "CreateManifest m d = Inr d1"
    and us: "us \<noteq> []" "\<forall>u \<in> set us. \<not> invalid_update u"
      "\<And>f. f_user (fold set_column us f) = f_user f \<and> f_parent (fold set_column us f) = f_parent f \<and> f_name (fold set_column us f) = f_name f"
  shows "\<exists>d2 d3. UpdateFile now (m_file m) us d1 = Inr d2 \<and> ensureChunkRefs B clk i (m_chunks m) d2 = (None, d3) \<and> refs_ok n d3
    \<and> manifests d3 = manifests d @ [m\<lparr>m_created := rfc3339 (m_created m)\<rparr>]
    \<and> (\<forall>h \<in> set (m_chunks m). ChunkExists h d3) \<and> (\<forall>f \<in> set (files d). \<exists>g \<in> set (files d3). f_id g = f_id f \<and> f_user g = f_user f)"
proof -
  have ok: "db_ok d" and old: "\<forall>m \<in> set (manifests d). has_file (m_file m) d"
    and cov: "covers (\<lambda>h. n h + refs_of (manifests d) h) d" using assms(1) by (simp_all add: refs_ok_def)
  have d1: "db_ok d1" "files d1 = files d" "manifests d1 = manifests d @ [m\<lparr>m_created := rfc3339 (m_created m)\<rparr>]" "chunk_refs d1 = chunk_refs d"
    using db_ok_CreateManifest [OF assms(3) ok] CreateManifest_Inr [OF assms(3)] by (simp_all add: chunk_refs_def fun_eq_iff)
  have has1: "has_file (m_file m) d1" using assms(2) d1(2) by (simp add: has_file_def)
  from update_succeeds [OF d1(1) has1 us, of now] obtain d2 where
    d2: "UpdateFile now (m_file m) us d1 = Inr d2" "db_ok d2"
      "d2 = d1\<lparr>files := update_row (m_file m) (\<lambda>f. (fold set_column us f)\<lparr>f_updated := rfc3339 now\<rparr>) (files d1)\<rparr>" by blast
  have rows2: "manifests d2 = manifests d1" "chunk_refs d2 = chunk_refs d1" "\<And>j. has_file j d2 = has_file j d1"
    unfolding d2(3) by (simp_all add: chunk_refs_def fun_eq_iff has_file_update set_columns_id)
  from ensure_take_refs [OF d2(2), of B clk i "m_chunks m"] obtain d3 where
    d3: "ensureChunkRefs B clk i (m_chunks m) d2 = (None, d3)" "db_ok d3" "files d3 = files d2" "manifests d3 = manifests d2"
      "\<forall>h. count_of (chunk_refs d3 h) = count_of (chunk_refs d2 h) + int (count_list (m_chunks m) h)"
      "\<forall>h. chunk_refs d3 h = None \<longleftrightarrow> chunk_refs d2 h = None \<and> h \<notin> set (m_chunks m)" by blast
  have "\<forall>f \<in> set (files d). \<exists>g \<in> set (files d3). f_id g = f_id f \<and> f_user g = f_user f"
  proof
    fix f assume f: "f \<in> set (files d)"
    let ?g = "\<lambda>f. if f_id f = m_file m then (fold set_column us f)\<lparr>f_updated := rfc3339 now\<rparr> else f"
    have "files d3 = map ?g (files d)" by (simp add: d3(3) d2(3) d1(2) update_row_def)
    then have "?g f \<in> set (files d3)" "f_id (?g f) = f_id f" "f_user (?g f) = f_user f" using f us(3) [of f] by (simp_all add: set_columns_id)
    then show "\<exists>g \<in> set (files d3). f_id g = f_id f \<and> f_user g = f_user f" by blast
  qed
  moreover have "\<forall>h \<in> set (m_chunks m). ChunkExists h d3" using d3(6) chunk_refs_None [of d3] by blast
  moreover have "covers (\<lambda>h. n h + refs_of (manifests d3) h) d3"
    using cov unfolding covers_def by (simp add: d3 rows2 d1 refs_of_def)
  moreover have "has_file (m_file x) d3" if "x \<in> set (manifests d3)" for x
  proof -
    have "has_file (m_file x) d1" using that has1 old by (auto simp: d3(4) rows2 d1(2,3) has_file_def)
    then show ?thesis using rows2(3) [of "m_file x"] by (simp add: has_file_def d3(3))
  qed
  ultimately show ?thesis using d2(1) d3 rows2(1) d1(3) by (auto simp: refs_ok_def)
qed

lemma blank_id [simp]: "f_id (blank_file i u p nm ty now) = i" "f_user (blank_file i u p nm ty now) = u"
  by (simp_all add: blank_file_def)

text \<open>What an add leaves behind: the rows, and for a change with hashes a version that holds them.\<close>

lemma applyAdd_refs:
  assumes "refs_ok n d" and "applyAdd B gen clk u c d = (e, d')"
  shows "refs_ok n d'" and "e = None \<Longrightarrow> h \<in> set (fc_hashes c) \<Longrightarrow> UserOwnsChunk u h d' \<and> ChunkExists h d'"
proof -
  note ok = assms(1) [unfolded refs_ok_def, THEN conjunct1]
  have "refs_ok n d' \<and> (e = None \<and> h \<in> set (fc_hashes c) \<longrightarrow> UserOwnsChunk u h d' \<and> ChunkExists h d')"
  proof (cases "resolveParentID u (path_Dir (fc_path c)) d")
    case (Inl x)
    with assms show ?thesis by (auto simp: applyAdd_def)
  next
    case (Inr p)
    let ?f = "(blank_file (generateSyncID ''file'' (gen 0)) u p (path_Base (fc_path c)) ''file'' (clk 0))
                     \<lparr>f_size := fc_size c, f_mime := fc_mime c, f_version := 1\<rparr>"
    show ?thesis
    proof (cases "Store.CreateFile ?f d")
      case (Inl x)
      with assms Inr show ?thesis by (auto simp: applyAdd_def Let_def)
    next
      case cf: (Inr d1)
      have rows1: "manifests d1 = manifests d" "chunk_refs d1 = chunk_refs d" "has_file (f_id ?f) d1"
        "\<exists>g \<in> set (files d1). f_id g = f_id ?f \<and> f_user g = u" "\<And>j. has_file j d \<Longrightarrow> has_file j d1"
        using CreateFile_Inr [OF cf] by (auto simp: chunk_refs_def fun_eq_iff has_file_def)
      have ok1: "refs_ok n d1" by (rule refs_ok_rows [OF assms(1) db_ok_CreateFile [OF cf ok]]) (use rows1 in simp_all)
      let ?m = "change_manifest (gen 1) (f_id ?f) 1 (clk 0) c"
      show ?thesis
      proof (cases "fc_hashes c = [] \<or> (\<exists>x. CreateManifest ?m d1 = Inl x)")
        case True
        then show ?thesis using assms(2) Inr cf ok1
          by (auto simp: applyAdd_def Let_def simp del: One_nat_def split: if_split_asm)
      next
        case False
        then obtain d2 where cm: "CreateManifest ?m d1 = Inr d2" by (meson sum.exhaust)
        from new_version_refs [OF ok1 _ cm, of "[UManifest (Some (m_id ?m)), UVersion 1]" "clk 1" B clk 2] rows1(3)
        obtain d3 d4 where "UpdateFile (clk 1) (f_id ?f) [UManifest (Some (m_id ?m)), UVersion 1] d2 = Inr d3"
          "ensureChunkRefs B clk 2 (fc_hashes c) d3 = (None, d4)" "refs_ok n d4"
          "manifests d4 = manifests d1 @ [?m\<lparr>m_created := rfc3339 (m_created ?m)\<rparr>]"
          "\<forall>h \<in> set (fc_hashes c). ChunkExists h d4" "\<forall>f \<in> set (files d1). \<exists>g \<in> set (files d4). f_id g = f_id f \<and> f_user g = f_user f"
          by (auto simp: change_manifest_def)
        moreover from this(4,6) rows1(4) have "UserOwnsChunk u h d4" if "h \<in> set (fc_hashes c)"
          using that by (force simp: UserOwnsChunk_def change_manifest_def)
        ultimately show ?thesis using assms(2) Inr cf cm False
          by (auto simp: applyAdd_def Let_def simp del: One_nat_def)
      qed
    qed
  qed
  then show "refs_ok n d'" and "e = None \<Longrightarrow> h \<in> set (fc_hashes c) \<Longrightarrow> UserOwnsChunk u h d' \<and> ChunkExists h d'"
    by blast+
qed

lemma applyModify_refs:
  assumes "refs_ok n d" and "applyModify B gen clk u c d = (e, d')"
  shows "refs_ok n d'"
proof (cases "resolveFileByPath u (fc_path c) d")
  case (Inl x)
  with assms show ?thesis by (simp add: applyModify_def)
next
  case (Inr f)
  then have has: "has_file (f_id f) d"
    by (auto simp: resolveFileByPath_def has_file_def split: sum.split_asm dest: GetFileByPath_Inr)
  let ?v = "wrap64 (f_version f + 1)"
  let ?m = "change_manifest (gen 0) (f_id f) ?v (clk 0) c"
  show ?thesis
  proof (cases "CreateManifest ?m d")
    case (Inl x)
    with assms Inr show ?thesis by (simp add: applyModify_def Let_def)
  next
    case cm: (Inr d1)
    from new_version_refs [OF assms(1) _ cm, of "[UManifest (Some (m_id ?m)), USize (fc_size c), UMime (fc_mime c), UVersion ?v]" "clk 1" B clk 2] has
    obtain d2 d3 where "UpdateFile (clk 1) (f_id f) [UManifest (Some (m_id ?m)), USize (fc_size c), UMime (fc_mime c), UVersion ?v] d1 = Inr d2"
      "ensureChunkRefs B clk 2 (fc_hashes c) d2 = (None, d3)" "refs_ok n d3" by (auto simp: change_manifest_def)
    then show ?thesis using assms(2) Inr cm by (simp add: applyModify_def Let_def)
  qed
qed

lemma applyDelete_refs:
  assumes "refs_ok n d" and "applyDelete clk u c d = (e, d')"
  shows "refs_ok n d'"
proof (cases "resolveFileByPath u (fc_path c) d")
  case (Inl x)
  with assms show ?thesis by (simp add: applyDelete_def)
next
  case (Inr f)
  show ?thesis
  proof (cases "SoftDelete (clk 0) (f_id f) d")
    case (Inl x)
    with assms Inr show ?thesis by (simp add: applyDelete_def)
  next
    case sd: (Inr d1)
    have "refs_ok n d1"
    proof (rule refs_ok_update [OF assms(1)])
      show "db_ok d1" using db_ok_SoftDelete [OF sd] assms(1) by (simp add: refs_ok_def)
      show "d1 = d\<lparr>files := update_row (f_id f) (\<lambda>f. f\<lparr>f_trashed := True, f_trashed_at := Some (rfc3339 (clk 0)),
             f_updated := rfc3339 (clk 0)\<rparr>) (files d)\<rparr>" using sd by (simp add: SoftDelete_def split: if_split_asm)
    qed simp
    then show ?thesis using assms(2) Inr sd by (simp add: applyDelete_def)
  qed
qed

lemma applyChange_refs: "refs_ok n d \<Longrightarrow> applyChange B gen clk u c d = (e, d') \<Longrightarrow> refs_ok n d'"
  unfolding applyChange_def
  by (simp split: if_split_asm) (blast intro: applyAdd_refs(1) applyModify_refs applyDelete_refs)+

lemma apply_changes_refs: "refs_ok n d \<Longrightarrow> refs_ok n (snd (snd (apply_changes B gen clk u i cs (k, confs, d))))"
proof (induction cs arbitrary: i k d)
  case (Cons c cs)
  obtain e d1 where e: "applyChange B (gen i) (clk i) u c d = (e, d1)" by (metis surj_pair)
  with applyChange_refs [OF Cons.prems e] Cons.IH show ?case by (cases e) (simp_all add: detectConflict_def Let_def)
qed simp



section \<open>Hashes a client names\<close>

text \<open>A commit believes the hashes it is given.  Once an added file names a chunk, whoever stored
  it, the committing user may download it: the answer to the pull is what the backend has.  And
  the row the commit makes stands for content that need not exist: a later upload of a chunk with
  that hash reports success, counts the row up and stores nothing.\<close>

theorem commit_hashes_unchecked:
  assumes "refs_ok n d" and "applyAdd B gen clk u c d = (None, d')" and "ci_hash ci \<in> set (fc_hashes c)"
    and "u \<noteq> []" and "ci_hash ci \<noteq> []"
  shows "pullChunk B u (ci_hash ci) d' b =
      (case be_get B (ci_hash ci) b of (Inl e, b') \<Rightarrow> (SError 404 ''Chunk not found'', b') | (Inr w, b') \<Rightarrow> (ChunkBody (ci_hash ci) w, b'))
    \<and> (\<exists>d''. store_chunks B clk' i [(ci, w)] (d', b) = (None, d'', b))"
proof -
  from applyAdd_refs(2) [OF assms(1,2) refl assms(3)] have own: "UserOwnsChunk u (ci_hash ci) d'" "ChunkExists (ci_hash ci) d'" by simp_all
  then have "\<exists>d''. IncrementRefCount (ci_hash ci) d' = Inr d''" by (simp add: IncrementRefCount_def ChunkExists_def)
  with own assms(4,5) show ?thesis by (auto simp: pullChunk_def Let_def)
qed

theorem commit_hashes_unchecked_witness:
  "\<exists>d'. applyAdd (local_backend ''/data'') (demo_gen 0) (\<lambda>_. 0) ''u'' (demo_change [''abc'']) sync_demo_db = (None, d')
     \<and> (\<exists>d''. store_chunks (local_backend ''/data'') (\<lambda>_. 0) 0 [(\<lparr>ci_hash = ''abc'', ci_offset = 0, ci_size = 1\<rparr>, [7])]
          (d', \<lparr>lf_files = [], lf_faults = []\<rparr>) = (None, d'', \<lparr>lf_files = [], lf_faults = []\<rparr>))"
proof -
  have ok: "refs_ok (\<lambda>_. 0) sync_demo_db"
    by (simp add: refs_ok_def db_ok_def files_ok_def names_unique_def manifests_ok_def chunks_ok_def covers_def refs_of_def count_of_def
      chunk_refs_def sync_demo_db_def empty_db_def)
  have "\<exists>d'. applyAdd (local_backend ''/data'') (demo_gen 0) (\<lambda>_. 0) ''u'' (demo_change [''abc'']) sync_demo_db = (None, d')"
    by (simp add: applyAdd_def demo_change_def demo_paths demo_parent Let_def generateSyncID_def demo_gen_def Store.CreateFile_def
      blank_file_def sync_demo_db_def empty_db_def demo_user_def parent_ok_def rfc3339_def CreateManifest_def change_manifest_def
      has_file_def UpdateFile_def update_clash_def name_clash_def update_row_def ChunkExists_def CreateChunk_def new_chunk_def)
  then obtain d' where d': "applyAdd (local_backend ''/data'') (demo_gen 0) (\<lambda>_. 0) ''u'' (demo_change [''abc'']) sync_demo_db = (None, d')" by blast
  from commit_hashes_unchecked [OF ok d', of "\<lparr>ci_hash = ''abc'', ci_offset = 0, ci_size = 1\<rparr>" _ "\<lambda>_. 0" 0 "[7]"] d'
  show ?thesis by (simp add: demo_change_def del: store_chunks.simps)
qed

end
