(* ===== verification/Crypto.thy ===== *)
theory Crypto
  imports Prelude
begin

text \<open>
  \<^verbatim>\<open>src/internal/crypto\<close>: key derivation, authenticated encryption and key wrapping.

  The primitives of Go's crypto packages are parameters: \<open>hmac key data\<close> is HMAC-SHA256, \<open>sha256\<close>
  and \<open>sha512\<close> the digests, \<open>seal key nonce w\<close> and \<open>unseal key nonce c\<close> AES-GCM (\<open>None\<close> when the tag
  does not match), \<open>ctr key iv n\<close> the first \<open>n\<close> bytes of the key stream.  Random bytes are
  arguments (\<open>None\<close> when the generator fails).  \<open>gcm_ok\<close> states what the documentation of GCM
  promises.
\<close>

unbundle bit_operations_syntax

definition KeySize :: nat where "KeySize = 32"
definition NonceSize :: nat where "NonceSize = 12"
definition SaltSize :: nat where "SaltSize = 16"
definition Overhead :: nat where "Overhead = NonceSize + 16"

definition GenerateKey :: "byte list option \<Rightarrow> byte list result" where
  "GenerateKey rnd = (case rnd of None \<Rightarrow> Inl ''failed to read random bytes'' | Some b \<Rightarrow> Inr b)"

definition SecureCompare :: "byte list \<Rightarrow> byte list \<Rightarrow> bool" where
  "SecureCompare a b \<longleftrightarrow> a = b"

section \<open>Key derivation\<close>

text \<open>Big- and little-endian bytes of a 32-bit word.\<close>

definition put_u32 :: "u32 \<Rightarrow> byte list" where
  "put_u32 w = [ucast (drop_bit 24 w), ucast (drop_bit 16 w), ucast (drop_bit 8 w), ucast w]"

definition little_u32 :: "byte list \<Rightarrow> nat" where
  "little_u32 b = unat (b ! 0) + 2 ^ 8 * unat (b ! 1) + 2 ^ 16 * unat (b ! 2) + 2 ^ 24 * unat (b ! 3)"

definition xor_bytes :: "byte list \<Rightarrow> byte list \<Rightarrow> byte list" where
  "xor_bytes a b = map2 (\<lambda>x y. x XOR y) a b"

text \<open>The inner loop: \<open>t\<close> is the last output of the generator, \<open>dk\<close> the block so far.\<close>

fun pbkdf2_rounds :: "(byte list \<Rightarrow> byte list) \<Rightarrow> nat \<Rightarrow> byte list \<Rightarrow> byte list \<Rightarrow> byte list" where
  "pbkdf2_rounds prf 0 t dk = dk"
| "pbkdf2_rounds prf (Suc n) t dk = pbkdf2_rounds prf n (prf t) (xor_bytes dk (prf t))"

definition pbkdf2_block :: "(byte list \<Rightarrow> byte list) \<Rightarrow> byte list \<Rightarrow> nat \<Rightarrow> nat \<Rightarrow> byte list" where
  "pbkdf2_block prf salt iterations i =
     (let u1 = prf (salt @ put_u32 (of_nat i)) in pbkdf2_rounds prf (iterations - 1) u1 u1)"

definition pbkdf2 :: "(byte list \<Rightarrow> byte list \<Rightarrow> byte list) \<Rightarrow> byte list \<Rightarrow> byte list \<Rightarrow> nat \<Rightarrow> nat \<Rightarrow> byte list" where
  "pbkdf2 hmac password salt iterations keyLen =
     (let n = (keyLen + 32 - 1) div 32
      in take keyLen (concat (map (pbkdf2_block (hmac password) salt iterations) [1..<n + 1])))"

definition DeriveKey :: "(byte list \<Rightarrow> byte list \<Rightarrow> byte list) \<Rightarrow> byte list \<Rightarrow> byte list \<Rightarrow> byte list" where
  "DeriveKey hmac passphrase salt = pbkdf2 hmac passphrase salt 100000 KeySize"

text \<open>\<open>copy\<close> into a block of 1024 zero bytes.\<close>

definition zero_block :: "byte list \<Rightarrow> byte list" where
  "zero_block w = take 1024 w @ replicate (1024 - length w) 0"

definition block_number :: "nat \<Rightarrow> byte list" where
  "block_number i = (let w = of_nat i :: u32 in [ucast w, ucast (drop_bit 8 w), ucast (drop_bit 16 w), ucast (drop_bit 24 w)])"

fun expand_blocks :: "(byte list \<Rightarrow> byte list) \<Rightarrow> nat \<Rightarrow> nat \<Rightarrow> byte list \<Rightarrow> byte list list" where
  "expand_blocks sha512 i 0 prev = []"
| "expand_blocks sha512 i (Suc n) prev =
     (let b = zero_block (sha512 (prev @ block_number i)) in b # expand_blocks sha512 (Suc i) n b)"

definition mix_block :: "(byte list \<Rightarrow> byte list) \<Rightarrow> nat \<Rightarrow> byte list list \<Rightarrow> byte list list" where
  "mix_block sha512 i blocks =
     (let n = length blocks;
          prevIdx = (i + n - 1) mod n;
          idxBlock = little_u32 (take 4 (blocks ! i)) mod n;
          r = sha512 (blocks ! prevIdx @ blocks ! idxBlock);
          b = blocks ! i
      in blocks[i := xor_bytes (take (length r) b) r @ drop (length r) b])"

definition block_total :: "int \<Rightarrow> nat" where
  "block_total memoryKB = (let n = go_div (wrap64 (memoryKB * 1024)) 1024 in if n < 4 then 4 else nat n)"

definition DeriveKeyArgon2idStyle :: "(byte list \<Rightarrow> byte list \<Rightarrow> byte list) \<Rightarrow> (byte list \<Rightarrow> byte list) \<Rightarrow> (byte list \<Rightarrow> byte list)
    \<Rightarrow> byte list \<Rightarrow> byte list \<Rightarrow> int \<Rightarrow> int \<Rightarrow> byte list" where
  "DeriveKeyArgon2idStyle hmac sha256 sha512 passphrase salt memoryKB iterations =
     (let key = pbkdf2 hmac passphrase salt 1000 64;
          n = block_total memoryKB;
          first = zero_block key;
          blocks = first # expand_blocks sha512 1 (n - 1) first;
          mixed = ((\<lambda>bs. fold (mix_block sha512) [0..<n] bs) ^^ nat iterations) blocks
      in sha256 (last mixed @ salt))"

section \<open>Encryption\<close>

definition Encrypt :: "(byte list \<Rightarrow> byte list \<Rightarrow> byte list \<Rightarrow> byte list) \<Rightarrow> byte list option \<Rightarrow> byte list \<Rightarrow> byte list \<Rightarrow> byte list result" where
  "Encrypt seal nonce plaintext key =
     (if length key \<noteq> KeySize then Inl ''invalid key size''
      else case nonce of None \<Rightarrow> Inl ''failed to read random bytes'' | Some n \<Rightarrow> Inr (n @ seal key n plaintext))"

definition Decrypt :: "(byte list \<Rightarrow> byte list \<Rightarrow> byte list \<Rightarrow> byte list option) \<Rightarrow> byte list \<Rightarrow> byte list \<Rightarrow> byte list result" where
  "Decrypt unseal ciphertext key =
     (if length key \<noteq> KeySize then Inl ''invalid key size''
      else if length ciphertext < NonceSize + 16 then Inl ''invalid ciphertext''
      else case unseal key (take NonceSize ciphertext) (drop NonceSize ciphertext) of
             None \<Rightarrow> Inl ''decryption failed: authentication tag mismatch'' | Some w \<Rightarrow> Inr w)"

definition EncryptCTR :: "(byte list \<Rightarrow> byte list \<Rightarrow> nat \<Rightarrow> byte list) \<Rightarrow> byte list \<Rightarrow> byte list \<Rightarrow> byte list \<Rightarrow> byte list result" where
  "EncryptCTR ctr plaintext key iv =
     (if length key \<noteq> KeySize then Inl ''invalid key size''
      else if length iv \<noteq> 16 then Inl ''invalid IV size''
      else Inr (xor_bytes plaintext (ctr key iv (length plaintext))))"

definition DecryptCTR :: "(byte list \<Rightarrow> byte list \<Rightarrow> nat \<Rightarrow> byte list) \<Rightarrow> byte list \<Rightarrow> byte list \<Rightarrow> byte list \<Rightarrow> byte list result" where
  "DecryptCTR ctr ciphertext key iv = EncryptCTR ctr ciphertext key iv"

definition VerifyHMAC :: "(byte list \<Rightarrow> byte list \<Rightarrow> byte list) \<Rightarrow> byte list \<Rightarrow> byte list \<Rightarrow> byte list \<Rightarrow> bool" where
  "VerifyHMAC hmac key data mac = SecureCompare mac (hmac key data)"

text \<open>Stream encryption: each chunk has the stream's nonce with its last four bytes replaced by the index.\<close>

record cipher_stream =
  ks_key :: "byte list"
  ks_nonce :: "byte list"

definition NewStreamEncryptor :: "byte list option \<Rightarrow> byte list \<Rightarrow> (cipher_stream \<times> byte list) result" where
  "NewStreamEncryptor nonce key =
     (if length key \<noteq> KeySize then Inl ''invalid key size''
      else case nonce of None \<Rightarrow> Inl ''failed to read random bytes'' | Some n \<Rightarrow> Inr (\<lparr>ks_key = key, ks_nonce = n\<rparr>, n))"

definition NewStreamDecryptor :: "byte list \<Rightarrow> byte list \<Rightarrow> cipher_stream result" where
  "NewStreamDecryptor key nonce =
     (if length key \<noteq> KeySize then Inl ''invalid key size''
      else if length nonce \<noteq> NonceSize then Inl ''invalid nonce size''
      else Inr \<lparr>ks_key = key, ks_nonce = nonce\<rparr>)"

definition chunk_nonce :: "cipher_stream \<Rightarrow> int \<Rightarrow> byte list" where
  "chunk_nonce s chunkIndex = take 8 (ks_nonce s) @ put_u32 (of_int chunkIndex)"

definition EncryptChunk :: "(byte list \<Rightarrow> byte list \<Rightarrow> byte list \<Rightarrow> byte list) \<Rightarrow> cipher_stream \<Rightarrow> byte list \<Rightarrow> int \<Rightarrow> byte list" where
  "EncryptChunk seal se plaintext chunkIndex = seal (ks_key se) (chunk_nonce se chunkIndex) plaintext"

definition DecryptChunk :: "(byte list \<Rightarrow> byte list \<Rightarrow> byte list \<Rightarrow> byte list option) \<Rightarrow> cipher_stream \<Rightarrow> byte list \<Rightarrow> int \<Rightarrow> byte list result" where
  "DecryptChunk unseal sd ciphertext chunkIndex =
     (case unseal (ks_key sd) (chunk_nonce sd chunkIndex) ciphertext of
        None \<Rightarrow> Inl ''decryption failed: authentication tag mismatch'' | Some w \<Rightarrow> Inr w)"

section \<open>keys.go\<close>

definition NewKeyWrapper :: "byte list \<Rightarrow> byte list result" where
  "NewKeyWrapper masterKey = (if length masterKey \<noteq> KeySize then Inl ''invalid master key size'' else Inr masterKey)"

definition WrapKey :: "(byte list \<Rightarrow> byte list \<Rightarrow> byte list \<Rightarrow> byte list) \<Rightarrow> byte list option \<Rightarrow> byte list \<Rightarrow> byte list \<Rightarrow> byte list result" where
  "WrapKey seal nonce kw fileKey = Encrypt seal nonce fileKey kw"

definition UnwrapKey :: "(byte list \<Rightarrow> byte list \<Rightarrow> byte list \<Rightarrow> byte list option) \<Rightarrow> byte list \<Rightarrow> byte list \<Rightarrow> byte list result" where
  "UnwrapKey unseal kw wrappedKey = Decrypt unseal wrappedKey kw"

text \<open>X25519: \<open>pub\<close> gives the public key of a private key, \<open>dh\<close> the shared secret (\<open>None\<close> for an
  error), \<open>ok_pub\<close> tells the encodings that \<^verbatim>\<open>NewPublicKey\<close> accepts.\<close>

definition ECDHSharedSecret :: "(byte list \<Rightarrow> byte list \<Rightarrow> byte list option) \<Rightarrow> (byte list \<Rightarrow> byte list) \<Rightarrow> byte list \<Rightarrow> byte list \<Rightarrow> byte list result" where
  "ECDHSharedSecret dh sha256 privateKey publicKey =
     (case dh privateKey publicKey of None \<Rightarrow> Inl ''ECDH failed'' | Some s \<Rightarrow> Inr (sha256 s))"

definition ShareFileKey :: "(byte list \<Rightarrow> byte list) \<Rightarrow> (byte list \<Rightarrow> byte list \<Rightarrow> byte list option) \<Rightarrow> (byte list \<Rightarrow> byte list)
    \<Rightarrow> (byte list \<Rightarrow> byte list \<Rightarrow> byte list \<Rightarrow> byte list) \<Rightarrow> byte list option \<Rightarrow> byte list \<Rightarrow> byte list \<Rightarrow> byte list \<Rightarrow> (byte list \<times> byte list) result" where
  "ShareFileKey pub dh sha256 seal nonce fileKey senderPrivate recipient =
     (case ECDHSharedSecret dh sha256 senderPrivate (pub recipient) of
        Inl e \<Rightarrow> Inl e
      | Inr sharedKey \<Rightarrow> (case Encrypt seal nonce fileKey sharedKey of
          Inl e \<Rightarrow> Inl ''failed to encrypt file key'' | Inr wrapped \<Rightarrow> Inr (pub senderPrivate, wrapped)))"

definition ReceiveFileKey :: "(byte list \<Rightarrow> bool) \<Rightarrow> (byte list \<Rightarrow> byte list \<Rightarrow> byte list option) \<Rightarrow> (byte list \<Rightarrow> byte list)
    \<Rightarrow> (byte list \<Rightarrow> byte list \<Rightarrow> byte list \<Rightarrow> byte list option) \<Rightarrow> byte list \<Rightarrow> byte list \<Rightarrow> byte list \<Rightarrow> byte list result" where
  "ReceiveFileKey ok_pub dh sha256 unseal wrappedKey senderPublicBytes recipientPrivate =
     (if \<not> ok_pub senderPublicBytes then Inl ''invalid sender public key''
      else case ECDHSharedSecret dh sha256 recipientPrivate senderPublicBytes of
        Inl e \<Rightarrow> Inl e
      | Inr sharedKey \<Rightarrow> (case Decrypt unseal wrappedKey sharedKey of
          Inl e \<Rightarrow> Inl ''failed to decrypt file key'' | Inr fileKey \<Rightarrow> Inr fileKey))"

type_synonym key_store = "(string \<times> byte list) list"

definition key_Store :: "string \<Rightarrow> byte list \<Rightarrow> key_store \<Rightarrow> key_store" where
  "key_Store userID key ks = al_put ks userID key"

definition key_Get :: "string \<Rightarrow> key_store \<Rightarrow> byte list option" where
  "key_Get userID ks = al_get ks userID"

definition key_Delete :: "string \<Rightarrow> key_store \<Rightarrow> key_store" where
  "key_Delete userID ks = al_del ks userID"

definition key_Clear :: "key_store \<Rightarrow> key_store" where
  "key_Clear ks = fold (\<lambda>(k, _) m. al_del m k) ks ks"

section \<open>Laws\<close>

definition gcm_ok :: "(byte list \<Rightarrow> byte list \<Rightarrow> byte list \<Rightarrow> byte list) \<Rightarrow> (byte list \<Rightarrow> byte list \<Rightarrow> byte list \<Rightarrow> byte list option) \<Rightarrow> bool" where
  "gcm_ok seal unseal \<longleftrightarrow> (\<forall>k n w. length k = 32 \<and> length n = 12 \<longrightarrow>
     unseal k n (seal k n w) = Some w \<and> length (seal k n w) = length w + 16)"

lemma Encrypt_Inr: "Encrypt seal nonce w k = Inr c \<longleftrightarrow> length k = 32 \<and> (\<exists>n. nonce = Some n \<and> c = n @ seal k n w)"
  by (auto simp: Encrypt_def KeySize_def split: option.split)

lemma Decrypt_Encrypt:
  assumes "gcm_ok seal unseal" and "Encrypt seal (Some n) w k = Inr c" and "length n = 12"
  shows "Decrypt unseal c k = Inr w" "length c = length w + Overhead"
  using assms by (auto simp: Encrypt_Inr Decrypt_def gcm_ok_def KeySize_def NonceSize_def Overhead_def)

lemma xor_bytes_twice: "length k = length w \<Longrightarrow> xor_bytes (xor_bytes w k) k = w"
  by (induction k w rule: list_induct2) (auto simp: xor_bytes_def xor.assoc)

lemma length_xor_bytes [simp]: "length (xor_bytes a b) = min (length a) (length b)"
  by (simp add: xor_bytes_def)

lemma CTR_involution:
  assumes "EncryptCTR ctr w k iv = Inr c" and "\<And>n. length (ctr k iv n) = n"
  shows "DecryptCTR ctr c k iv = Inr w"
  using assms by (auto simp: EncryptCTR_def DecryptCTR_def xor_bytes_twice split: if_split_asm)

lemma put_u32_inj: "put_u32 v = put_u32 w \<Longrightarrow> v = w"
proof -
  assume eq: "put_u32 v = put_u32 w"
  have "bit v n = bit w n" if "n < 32" for n
  proof -
    have b: "bit (drop_bit (8 * k) v) m = bit (drop_bit (8 * k) w) m" if "k < 4" "m < 8" for k m
    proof -
      have "(ucast (drop_bit (8 * k) v) :: byte) = ucast (drop_bit (8 * k) w)"
        using eq that(1) by (auto simp: put_u32_def numeral_eq_Suc less_Suc_eq)
      then have "bit (ucast (drop_bit (8 * k) v) :: byte) m = bit (ucast (drop_bit (8 * k) w) :: byte) m" by simp
      with that(2) show ?thesis by (simp add: bit_ucast_iff)
    qed
    have "n = 8 * (n div 8) + n mod 8" "n div 8 < 4" "n mod 8 < 8" using that by auto
    with b [of "n div 8" "n mod 8"] show ?thesis by (simp add: bit_drop_bit_eq)
  qed
  then show ?thesis by (intro bit_word_eqI) simp
qed

text \<open>No two chunks of a stream share a nonce.\<close>

lemma chunk_nonces_distinct:
  assumes "chunk_nonce s i = chunk_nonce s j" and "0 \<le> i" "i < 2 ^ 32" "0 \<le> j" "j < 2 ^ 32"
  shows "i = j"
proof -
  have "(of_int i :: u32) = of_int j" using assms(1) put_u32_inj by (auto simp: chunk_nonce_def)
  then have "uint (of_int i :: u32) = uint (of_int j :: u32)" by simp
  with assms(2-) show ?thesis by (simp add: uint_word_of_int_eq take_bit_eq_mod)
qed

lemma chunk_stream_roundtrip:
  assumes "gcm_ok seal unseal" and "NewStreamEncryptor (Some n) k = Inr (se, hdr)" and "length n = 12"
  shows "\<exists>sd. NewStreamDecryptor k hdr = Inr sd \<and> (\<forall>i w. DecryptChunk unseal sd (EncryptChunk seal se w i) i = Inr w)"
  using assms by (auto simp: NewStreamEncryptor_def NewStreamDecryptor_def DecryptChunk_def EncryptChunk_def chunk_nonce_def
      gcm_ok_def KeySize_def NonceSize_def put_u32_def split: if_split_asm)

text \<open>The inner loop computes the exclusive or of all iterates of the generator.\<close>

lemma rounds_fold: "pbkdf2_rounds prf n t dk = fold (\<lambda>j b. xor_bytes b ((prf ^^ Suc j) t)) [0..<n] dk"
proof (induction n arbitrary: t dk)
  case (Suc n)
  have "fold (\<lambda>j b. xor_bytes b ((prf ^^ Suc j) t)) [0..<Suc n] dk
      = fold (\<lambda>j b. xor_bytes b ((prf ^^ Suc j) (prf t))) [0..<n] (xor_bytes dk (prf t))"
    by (simp add: upt_conv_Cons fold_map map_Suc_upt [symmetric] comp_def funpow_Suc_right del: upt_Suc funpow.simps(2))
  with Suc show ?case by simp
qed simp

lemma rounds_length: "length dk = 32 \<Longrightarrow> (\<And>x. length (prf x) = 32) \<Longrightarrow> length (pbkdf2_rounds prf n t dk) = 32"
  by (induction n arbitrary: t dk) auto

end
