(* ===== verification/Encrypted.thy ===== *)
theory Encrypted
  imports Crypto Chunker Storage "HOL-Library.Sublist"
begin

text \<open>
  Encrypted files (\<^verbatim>\<open>src/internal/chunk/encrypted.go\<close>): a file is cut into chunks, each is
  encrypted under the file key and stored under the hash of its plaintext, and reassembled from a
  manifest.  \<open>nonces i\<close> is the i-th nonce of the random generator; \<open>writes i\<close> is \<open>None\<close> when
  the i-th write to the output succeeds and otherwise the number of bytes written before its error.
\<close>

section \<open>Definitions\<close>

fun encrypt_chunks :: "(byte list \<Rightarrow> byte list \<Rightarrow> byte list \<Rightarrow> byte list) \<Rightarrow> (nat \<Rightarrow> byte list option) \<Rightarrow> byte list \<Rightarrow> nat
    \<Rightarrow> byte list list \<Rightarrow> byte list list result" where
  "encrypt_chunks seal nonces fileKey i [] = Inr []"
| "encrypt_chunks seal nonces fileKey i (w # ws) =
     (case Encrypt seal (nonces i) w fileKey of
        Inl e \<Rightarrow> Inl ''failed to encrypt chunk''
      | Inr c \<Rightarrow> (case encrypt_chunks seal nonces fileKey (Suc i) ws of Inl e \<Rightarrow> Inl e | Inr cs \<Rightarrow> Inr (c # cs)))"

definition ChunkEncrypted :: "(byte list \<Rightarrow> string) \<Rightarrow> (byte list \<Rightarrow> byte list \<Rightarrow> byte list \<Rightarrow> byte list) \<Rightarrow> (nat \<Rightarrow> byte list option)
    \<Rightarrow> chunker \<Rightarrow> reader \<Rightarrow> byte list \<Rightarrow> (chunk_info list \<times> byte list list) result outcome" where
  "ChunkEncrypted sha seal nonces ck r fileKey =
     obind (ChunkWithData sha ck r) (\<lambda>res. Returns
       (case res of
          Inl e \<Rightarrow> Inl ''chunking failed''
        | Inr (chunkInfos, chunkData) \<Rightarrow>
            (case encrypt_chunks seal nonces fileKey 0 chunkData of Inl e \<Rightarrow> Inl e | Inr cs \<Rightarrow> Inr (chunkInfos, cs))))"

definition EncryptManifest :: "(manifest_doc \<Rightarrow> byte list option) \<Rightarrow> (byte list \<Rightarrow> byte list \<Rightarrow> byte list \<Rightarrow> byte list) \<Rightarrow> byte list option
    \<Rightarrow> manifest_doc \<Rightarrow> byte list \<Rightarrow> byte list result" where
  "EncryptManifest serialize seal nonce m fileKey =
     (case serialize m of None \<Rightarrow> Inl ''failed to serialize manifest''
      | Some w \<Rightarrow> (case Encrypt seal nonce w fileKey of Inl e \<Rightarrow> Inl ''failed to encrypt manifest'' | Inr c \<Rightarrow> Inr c))"

definition DecryptManifest :: "(byte list \<Rightarrow> manifest_doc option) \<Rightarrow> (byte list \<Rightarrow> byte list \<Rightarrow> byte list \<Rightarrow> byte list option)
    \<Rightarrow> byte list \<Rightarrow> byte list \<Rightarrow> manifest_doc result" where
  "DecryptManifest deserialize unseal c fileKey =
     (case Decrypt unseal c fileKey of Inl e \<Rightarrow> Inl ''failed to decrypt manifest''
      | Inr w \<Rightarrow> (case deserialize w of None \<Rightarrow> Inl ''failed to deserialize manifest'' | Some m \<Rightarrow> Inr m))"

text \<open>The loop over the chunks: an error, the bytes written, and the backend.\<close>

fun reassemble :: "(byte list \<Rightarrow> byte list \<Rightarrow> byte list \<Rightarrow> byte list option) \<Rightarrow> 'b backend \<Rightarrow> (nat \<Rightarrow> nat option) \<Rightarrow> byte list
    \<Rightarrow> nat \<Rightarrow> chunk_info list \<Rightarrow> byte list \<times> 'b \<Rightarrow> string option \<times> byte list \<times> 'b" where
  "reassemble unseal B writes fileKey i [] (out, b) = (None, out, b)"
| "reassemble unseal B writes fileKey i (c # cs) (out, b) =
     (case be_get B (ci_hash c) b of
        (Inl e, b') \<Rightarrow> (Some ''failed to get chunk'', out, b')
      | (Inr encrypted, b') \<Rightarrow>
          (case Decrypt unseal encrypted fileKey of
             Inl e \<Rightarrow> (Some ''failed to decrypt chunk'', out, b')
           | Inr w \<Rightarrow>
               if int (length w) \<noteq> ci_size c then (Some ''chunk size mismatch'', out, b')
               else case writes i of
                      Some k \<Rightarrow> (Some ''failed to write chunk'', out @ take k w, b')
                    | None \<Rightarrow> reassemble unseal B writes fileKey (Suc i) cs (out @ w, b')))"

definition ReassembleDecrypt :: "(byte list \<Rightarrow> byte list \<Rightarrow> byte list \<Rightarrow> byte list option) \<Rightarrow> 'b backend \<Rightarrow> (nat \<Rightarrow> nat option)
    \<Rightarrow> manifest_doc \<Rightarrow> byte list \<Rightarrow> 'b \<Rightarrow> string option \<times> byte list \<times> 'b" where
  "ReassembleDecrypt unseal B writes m fileKey b =
     (if Validate m \<noteq> None then (Some ''invalid manifest'', [], b)
      else reassemble unseal B writes fileKey 0 (md_chunks m) ([], b))"

fun store_encrypted :: "'b backend \<Rightarrow> (chunk_info \<times> byte list) list \<Rightarrow> 'b \<Rightarrow> string option \<times> 'b" where
  "store_encrypted B [] b = (None, b)"
| "store_encrypted B ((ci, c) # rest) b =
     (case be_put B (ci_hash ci) c b of
        (Some e, b') \<Rightarrow> (Some ''failed to store chunk'', b')
      | (None, b') \<Rightarrow> store_encrypted B rest b')"

definition generateManifestID :: "string option \<Rightarrow> string result" where
  "generateManifestID rnd = (case rnd of None \<Rightarrow> Inl ''failed to read random bytes'' | Some h \<Rightarrow> Inr h)"

text \<open>\<open>rnd\<close> is the hexadecimal text of 16 random bytes, \<open>tables\<close> the cache of Rabin tables.\<close>

definition EncryptAndStore :: "(byte list \<Rightarrow> string) \<Rightarrow> (byte list \<Rightarrow> byte list \<Rightarrow> byte list \<Rightarrow> byte list) \<Rightarrow> (nat \<Rightarrow> byte list option)
    \<Rightarrow> string option \<Rightarrow> int \<Rightarrow> (u64 \<times> rabin_table) list \<Rightarrow> 'b backend \<Rightarrow> reader \<Rightarrow> string \<Rightarrow> string \<Rightarrow> byte list \<Rightarrow> 'b
    \<Rightarrow> (manifest_doc result \<times> 'b) outcome" where
  "EncryptAndStore sha seal nonces rnd now tables B r fileID deviceID fileKey b =
     obind (DefaultChunker tables) (\<lambda>(ck, _).
     obind (ChunkEncrypted sha seal nonces ck r fileKey) (\<lambda>res. Returns
       (case res of
          Inl e \<Rightarrow> (Inl ''chunk encryption failed'', b)
        | Inr (chunkInfos, encryptedData) \<Rightarrow>
            (case store_encrypted B (zip chunkInfos encryptedData) b of
               (Some e, b') \<Rightarrow> (Inl e, b')
             | (None, b') \<Rightarrow>
                 (case generateManifestID rnd of
                    Inl e \<Rightarrow> (Inl ''failed to generate manifest ID'', b')
                  | Inr i \<Rightarrow> (Inr (NewManifest now i fileID deviceID chunkInfos), b'))))))"

definition WrapFileKey :: "(byte list \<Rightarrow> byte list \<Rightarrow> byte list \<Rightarrow> byte list) \<Rightarrow> byte list option \<Rightarrow> byte list \<Rightarrow> byte list \<Rightarrow> byte list result" where
  "WrapFileKey seal nonce fileKey masterKey =
     (case NewKeyWrapper masterKey of Inl e \<Rightarrow> Inl e | Inr kw \<Rightarrow> WrapKey seal nonce kw fileKey)"

definition UnwrapFileKey :: "(byte list \<Rightarrow> byte list \<Rightarrow> byte list \<Rightarrow> byte list option) \<Rightarrow> byte list \<Rightarrow> byte list \<Rightarrow> byte list result" where
  "UnwrapFileKey unseal wrappedKey masterKey =
     (case NewKeyWrapper masterKey of Inl e \<Rightarrow> Inl e | Inr kw \<Rightarrow> UnwrapKey unseal kw wrappedKey)"

definition GenerateAndWrapFileKey :: "(byte list \<Rightarrow> byte list \<Rightarrow> byte list \<Rightarrow> byte list) \<Rightarrow> byte list option \<Rightarrow> byte list option \<Rightarrow> byte list
    \<Rightarrow> (byte list \<times> byte list) result" where
  "GenerateAndWrapFileKey seal rnd nonce masterKey =
     (case GenerateKey rnd of Inl e \<Rightarrow> Inl ''failed to generate file key''
      | Inr fileKey \<Rightarrow> (case WrapFileKey seal nonce fileKey masterKey of
          Inl e \<Rightarrow> Inl ''failed to wrap file key'' | Inr w \<Rightarrow> Inr (fileKey, w)))"

definition DecryptKeyAndReassemble :: "(byte list \<Rightarrow> byte list \<Rightarrow> byte list \<Rightarrow> byte list option) \<Rightarrow> 'b backend \<Rightarrow> (nat \<Rightarrow> nat option)
    \<Rightarrow> manifest_doc \<Rightarrow> byte list \<Rightarrow> byte list \<Rightarrow> 'b \<Rightarrow> string option \<times> byte list \<times> 'b" where
  "DecryptKeyAndReassemble unseal B writes m wrappedKey masterKey b =
     (case UnwrapFileKey unseal wrappedKey masterKey of
        Inl e \<Rightarrow> (Some ''failed to unwrap file key'', [], b)
      | Inr fileKey \<Rightarrow> ReassembleDecrypt unseal B writes m fileKey b)"

section \<open>A backend without faults\<close>

text \<open>While a backend is \<open>ready\<close>, stores succeed and what is stored can be read.\<close>

locale ready_store = blob_store B blob key_ok
  for B :: "'b backend" and blob :: "'b \<Rightarrow> string \<Rightarrow> byte list option" and key_ok :: "string \<Rightarrow> bool" +
  fixes ready :: "'b \<Rightarrow> bool"
  assumes ready_put: "ready s \<Longrightarrow> key_ok k \<Longrightarrow> \<exists>s'. be_put B k w s = (None, s') \<and> ready s'"
    and ready_get: "ready s \<Longrightarrow> key_ok k \<Longrightarrow> blob s k = Some w \<Longrightarrow> \<exists>s'. be_get B k s = (Inr w, s') \<and> ready s'"
begin

lemma store_encrypted_stores:
  assumes "ready s" and "\<forall>(ci, c) \<in> set xs. key_ok (ci_hash ci)"
  shows "\<exists>s'. store_encrypted B xs s = (None, s') \<and> ready s'
    \<and> (\<forall>k. key_ok k \<longrightarrow> (k \<in> (\<lambda>(ci, c). ci_hash ci) ` set xs \<longrightarrow> (\<exists>ci c. (ci, c) \<in> set xs \<and> ci_hash ci = k \<and> blob s' k = Some c))
        \<and> (k \<notin> (\<lambda>(ci, c). ci_hash ci) ` set xs \<longrightarrow> blob s' k = blob s k))"
  using assms
proof (induction xs arbitrary: s)
  case Nil
  then show ?case by simp
next
  case (Cons x xs)
  obtain ci c where x: "x = (ci, c)" by (cases x)
  with Cons.prems have ok: "key_ok (ci_hash ci)" by simp
  with ready_put [OF Cons.prems(1), of "ci_hash ci" c] obtain s1 where
    s1: "be_put B (ci_hash ci) c s = (None, s1)" "ready s1" by blast
  from Cons.IH [OF s1(2)] Cons.prems(2) obtain s2 where
    s2: "store_encrypted B xs s1 = (None, s2)" "ready s2"
      "\<And>k. key_ok k \<Longrightarrow> k \<in> (\<lambda>(ci, c). ci_hash ci) ` set xs \<Longrightarrow> \<exists>ci c. (ci, c) \<in> set xs \<and> ci_hash ci = k \<and> blob s2 k = Some c"
      "\<And>k. key_ok k \<Longrightarrow> k \<notin> (\<lambda>(ci, c). ci_hash ci) ` set xs \<Longrightarrow> blob s2 k = blob s1 k" by auto
  have "store_encrypted B (x # xs) s = (None, s2)" using s1(1) s2(1) by (simp add: x)
  moreover have "(k \<in> (\<lambda>(ci, c). ci_hash ci) ` set (x # xs) \<longrightarrow> (\<exists>ci c. (ci, c) \<in> set (x # xs) \<and> ci_hash ci = k \<and> blob s2 k = Some c))
        \<and> (k \<notin> (\<lambda>(ci, c). ci_hash ci) ` set (x # xs) \<longrightarrow> blob s2 k = blob s k)" if "key_ok k" for k
  proof (cases "k \<in> (\<lambda>(ci, c). ci_hash ci) ` set xs")
    case True
    with s2(3) [OF that] show ?thesis by (auto simp: x)
  next
    case False
    with s2(4) [OF that] put_law [OF ok s1(1) that] show ?thesis by (auto simp: x)
  qed
  ultimately show ?case using s2(2) by blast
qed

text \<open>Reassembling finds the pieces when every hash holds a ciphertext of its piece.\<close>

lemma reassemble_pieces:
  assumes "ready s" and "\<forall>c \<in> set cs. key_ok (ci_hash c)"
    and "list_all2 (\<lambda>c p. \<exists>e. blob s (ci_hash c) = Some e \<and> Decrypt unseal e key = Inr p \<and> ci_size c = int (length p)) cs ps"
  shows "\<exists>s'. reassemble unseal B (\<lambda>_. None) key i cs (out, s) = (None, out @ concat ps, s') \<and> ready s'"
  using assms
proof (induction cs arbitrary: i ps out s)
  case Nil
  then show ?case by simp
next
  case (Cons c cs)
  then obtain p qs e where ps: "ps = p # qs" "blob s (ci_hash c) = Some e" "Decrypt unseal e key = Inr p" "ci_size c = int (length p)"
    "list_all2 (\<lambda>c p. \<exists>e. blob s (ci_hash c) = Some e \<and> Decrypt unseal e key = Inr p \<and> ci_size c = int (length p)) cs qs"
    by (auto simp: list_all2_Cons1)
  from ready_get [OF Cons.prems(1) _ ps(2)] Cons.prems(2) obtain s1 where
    s1: "be_get B (ci_hash c) s = (Inr e, s1)" "ready s1" by auto
  then have "blob s1 = blob s" using get_law by blast
  with Cons.IH [OF s1(2), of qs "Suc i" "out @ p"] Cons.prems(2) ps(5) s1(1) ps show ?case by simp
qed

lemma reassemble_fails:
  assumes "ready s" and "key_ok (ci_hash c)" and "blob s (ci_hash c) = Some e" and "Decrypt unseal e key = Inl x"
  shows "\<exists>s'. reassemble unseal B writes key i (c # cs) (out, s) = (Some ''failed to decrypt chunk'', out, s')"
  using ready_get [OF assms(1-3)] assms(4) by auto

end

interpretation ls: ready_store "local_backend dir" "local_blob dir" plain_key "\<lambda>s. lf_faults s = []" for dir
proof
  fix s :: local_fs and k w assume s: "lf_faults s = []"
  then show "\<exists>s'. be_put (local_backend dir) k w s = (None, s') \<and> lf_faults s' = []"
    by (simp add: local_backend_def local_Put_def next_fault_def tick_def Let_def)
  show "\<exists>s'. be_get (local_backend dir) k s = (Inr w, s') \<and> lf_faults s' = []" if "local_blob dir s k = Some w"
    using s that by (simp add: local_backend_def local_Get_def local_blob_def next_fault_def tick_def)
qed

lemma encrypt_chunks_Inr:
  assumes "gcm_ok seal unseal" and "length key = 32" and "\<forall>i. \<exists>n. nonces i = Some n \<and> length n = 12"
  shows "\<exists>cs. encrypt_chunks seal nonces key i ws = Inr cs
    \<and> list_all2 (\<lambda>c w. (\<exists>n. length n = 12 \<and> c = n @ seal key n w) \<and> Decrypt unseal c key = Inr w) cs ws"
proof (induction ws arbitrary: i)
  case (Cons w ws)
  from assms(3) obtain n where n: "nonces i = Some n" "length n = 12" by blast
  have e: "Encrypt seal (Some n) w key = Inr (n @ seal key n w)" using assms(2) by (simp add: Encrypt_Inr)
  with Decrypt_Encrypt [OF assms(1) e n(2)] Cons.IH [of "Suc i"] n show ?case by auto
qed simp

lemma default_chunker:
  "\<exists>ck tb. DefaultChunker [] = Returns (ck, tb) \<and> minSize ck = 256 * 1024 \<and> maxSize ck = 4 * 1024 * 1024"
  unfolding DefaultChunker_def using NewChunker_spec [of "256 * 1024" "1024 * 1024" "4 * 1024 * 1024"] by blast

lemma infos_pieces:
  assumes "i < length ps"
  shows "ci_hash (infos sha a ps ! i) = sha (ps ! i)" "ci_size (infos sha a ps ! i) = int (length (ps ! i))" "length (infos sha a ps) = length ps"
proof -
  have "\<forall>i < length ps. ci_hash (infos sha a ps ! i) = sha (ps ! i) \<and> ci_size (infos sha a ps ! i) = int (length (ps ! i))"
    by (induction ps arbitrary: a) (auto simp: nth_Cons split: nat.split)
  moreover have "length (infos sha a ps) = length ps" by (induction ps arbitrary: a) auto
  ultimately show "ci_hash (infos sha a ps ! i) = sha (ps ! i)" "ci_size (infos sha a ps ! i) = int (length (ps ! i))"
    "length (infos sha a ps) = length ps" using assms by simp_all
qed

lemma length_infos_pieces [simp]: "length (infos sha a ps) = length ps"
  by (induction ps arbitrary: a) auto

lemma infos_valid: "\<forall>p \<in> set ps. p \<noteq> [] \<and> sha p \<noteq> [] \<Longrightarrow> validate_chunks k (infos sha a ps) = None"
  by (induction ps arbitrary: k a) auto

definition default_pieces :: "byte list \<Rightarrow> byte list list" where
  "default_pieces bs = (case DefaultChunker [] of Returns (ck, _) \<Rightarrow> cut_pieces ck bs | _ \<Rightarrow> [])"

text \<open>What storing an encrypted file leaves behind: every chunk's hash holds a ciphertext, made by
  this call, of one of its pieces with that hash.\<close>

lemma EncryptAndStore_stores:
  assumes gcm: "gcm_ok seal unseal" and key: "length key = 32" and nonces: "\<forall>i. \<exists>n. nonces i = Some n \<and> length n = 12"
    and drain: "drain rs = (bs, Some EOF)" and len: "int (length bs) < 2 ^ 63" "bs \<noteq> []"
    and hash: "\<forall>w. plain_key (sha w) \<and> sha w \<noteq> []" and ids: "mid \<noteq> []" "fid \<noteq> []" and ready: "lf_faults s = []"
  shows "\<exists>ps m s'. ps = default_pieces bs \<and> concat ps = bs \<and> ps \<noteq> []
    \<and> EncryptAndStore sha seal nonces (Some mid) now [] (local_backend dir) rs fid dev key s = Returns (Inr m, s')
    \<and> lf_faults s' = [] \<and> Validate m = None \<and> md_chunks m = infos sha 0 ps \<and> md_size m = int (length bs)
    \<and> (\<forall>p \<in> set ps. \<exists>q n. q \<in> set ps \<and> sha q = sha p \<and> length n = 12 \<and> local_blob dir s' (sha p) = Some (n @ seal key n q))"
proof -
  have sha: "\<And>w. plain_key (sha w)" "\<And>w. sha w \<noteq> []" using hash by simp_all
  obtain ck tb where ck: "DefaultChunker [] = Returns (ck, tb)" "minSize ck = 256 * 1024" "maxSize ck = 4 * 1024 * 1024"
    using default_chunker by blast
  let ?ps = "cut_pieces ck bs"
  have "default_pieces bs = ?ps" by (simp add: default_pieces_def ck(1))
  let ?infos = "infos sha 0 ?ps"
  have run: "ChunkWithData sha ck rs = Returns (Inr (?infos, ?ps))"
    using ChunkWithData_spec [of ck sha rs] ck drain by (simp add: Let_def)
  from encrypt_chunks_Inr [OF gcm key nonces, of 0 ?ps] obtain cs where
    cs: "encrypt_chunks seal nonces key 0 ?ps = Inr cs" "list_all2 (\<lambda>c w. (\<exists>n. length n = 12 \<and> c = n @ seal key n w) \<and> Decrypt unseal c key = Inr w) cs ?ps"
    by blast
  let ?xs = "zip ?infos cs"
  have lcs: "length cs = length ?ps" using list_all2_lengthD [OF cs(2)] .
  have mem: "\<exists>i < length ?ps. ci = ?infos ! i \<and> c = cs ! i \<and> ci_hash ci = sha (?ps ! i) \<and> (\<exists>n. length n = 12 \<and> c = n @ seal key n (?ps ! i))"
    if "(ci, c) \<in> set ?xs" for ci c
    using that lcs list_all2_nthD [OF cs(2)] by (auto simp: in_set_zip infos_pieces)
  then have "\<forall>(ci, c) \<in> set ?xs. plain_key (ci_hash ci)" using sha(1) by fastforce
  from ls.store_encrypted_stores [OF ready this, of dir] obtain s' where
    s': "store_encrypted (local_backend dir) ?xs s = (None, s')" "lf_faults s' = []"
      "\<And>k. plain_key k \<Longrightarrow> k \<in> (\<lambda>(ci, c). ci_hash ci) ` set ?xs \<Longrightarrow> \<exists>ci c. (ci, c) \<in> set ?xs \<and> ci_hash ci = k \<and> local_blob dir s' k = Some c"
    by blast
  let ?m = "NewManifest now mid fid dev ?infos"
  have ne: "\<forall>p \<in> set ?ps. p \<noteq> []" using cut_pieces_nonempty [of ck bs] ck(2,3) by simp
  have "?ps \<noteq> []" using len(2) concat_cut_pieces [of ck bs] by auto
  moreover have "?infos \<noteq> []" using calculation by (cases ?ps) auto
  moreover have "md_size ?m = int (length bs)"
    using manifest_size [of sha 0 ?ps 0] len(1) by (simp add: NewManifest_def concat_cut_pieces wrap64_id)
  moreover have "Validate ?m = None"
    using ids ne sha(2) calculation(2,3) infos_valid [of ?ps sha 0 0] by (simp add: Validate_def) (simp add: NewManifest_def)
  moreover have "\<exists>q n. q \<in> set ?ps \<and> sha q = sha p \<and> length n = 12 \<and> local_blob dir s' (sha p) = Some (n @ seal key n q)" if "p \<in> set ?ps" for p
  proof -
    from that obtain i where i: "i < length ?ps" "p = ?ps ! i" by (metis in_set_conv_nth)
    then have "(?infos ! i, cs ! i) \<in> set ?xs" using lcs by (metis (no_types, lifting) in_set_zip length_infos_pieces fst_conv snd_conv)
    then have "sha p \<in> (\<lambda>(ci, c). ci_hash ci) ` set ?xs" using i infos_pieces(1) [OF i(1), of sha 0] by force
    from s'(3) [OF sha(1) this] obtain ci c where "(ci, c) \<in> set ?xs" "ci_hash ci = sha p" "local_blob dir s' (sha p) = Some c" by blast
    with mem [of ci c] show ?thesis by (metis nth_mem)
  qed
  moreover have "EncryptAndStore sha seal nonces (Some mid) now [] (local_backend dir) rs fid dev key s = Returns (Inr ?m, s')"
    by (simp add: EncryptAndStore_def ck(1) ChunkEncrypted_def run cs(1) s'(1) generateManifestID_def)
  moreover have "md_chunks ?m = ?infos" by (simp add: NewManifest_def)
  ultimately show ?thesis using s'(2) concat_cut_pieces [of ck bs] \<open>default_pieces bs = ?ps\<close> by metis
qed

section \<open>Properties\<close>

text \<open>C10: An encrypted file comes back.  On a backend without faults, when different
  parts of the file have different hashes, storing a file that is not empty under a 32 byte key succeeds, and reassembling
  from the manifest with the same key writes exactly the bytes that were read.\<close>

theorem encrypted_file_roundtrip:
  assumes "gcm_ok seal unseal" and "length key = 32" and "\<forall>i. \<exists>n. nonces i = Some n \<and> length n = 12"
    and "drain rs = (bs, Some EOF)" and "int (length bs) < 2 ^ 63" and "bs \<noteq> []"
    and "\<forall>w. plain_key (sha w) \<and> sha w \<noteq> []" and "mid \<noteq> []" and "fid \<noteq> []" and "lf_faults s = []"
    and no_collision: "\<And>v w. sublist v bs \<Longrightarrow> sublist w bs \<Longrightarrow> sha v = sha w \<Longrightarrow> v = w"
  shows "\<exists>m s' s''. EncryptAndStore sha seal nonces (Some mid) now [] (local_backend dir) rs fid dev key s = Returns (Inr m, s')
    \<and> ReassembleDecrypt unseal (local_backend dir) (\<lambda>_. None) m key s' = (None, bs, s'')"
proof -
  from EncryptAndStore_stores [OF assms(1-10), where now = now and dir = dir and dev = dev] obtain ps m s' where
    st: "concat ps = bs" "EncryptAndStore sha seal nonces (Some mid) now [] (local_backend dir) rs fid dev key s = Returns (Inr m, s')"
      "lf_faults s' = []" "Validate m = None" "md_chunks m = infos sha 0 ps"
      "\<forall>p \<in> set ps. \<exists>q n. q \<in> set ps \<and> sha q = sha p \<and> length n = 12 \<and> local_blob dir s' (sha p) = Some (n @ seal key n q)" by blast
  have short: "sublist p bs" if "p \<in> set ps" for p
    using split_list [OF that] by (auto simp: st(1) [symmetric] intro: sublist_appendI)
  have piece: "\<exists>e. local_blob dir s' (sha p) = Some e \<and> Decrypt unseal e key = Inr p" if "p \<in> set ps" for p
  proof -
    from st(6) that obtain q n where q: "q \<in> set ps" "sha q = sha p" "length n = 12" "local_blob dir s' (sha p) = Some (n @ seal key n q)" by blast
    then have "q = p" using no_collision short that by blast
    moreover have "Decrypt unseal (n @ seal key n q) key = Inr q"
      using Decrypt_Encrypt(1) [OF assms(1) _ q(3), of q key "n @ seal key n q"] assms(2) by (simp add: Encrypt_Inr)
    ultimately show ?thesis using q(4) by blast
  qed
  have "list_all2 (\<lambda>c p. \<exists>e. local_blob dir s' (ci_hash c) = Some e \<and> Decrypt unseal e key = Inr p \<and> ci_size c = int (length p)) (infos sha 0 ps) ps"
    using piece by (simp add: list_all2_conv_all_nth infos_pieces)
  moreover have "\<forall>c \<in> set (infos sha 0 ps). plain_key (ci_hash c)" using assms(7) by (auto simp: in_set_conv_nth infos_pieces)
  ultimately show ?thesis
    using ls.reassemble_pieces [OF st(3), of "infos sha 0 ps" dir unseal key ps 0 "[]"] st by (auto simp: ReassembleDecrypt_def)
qed

definition demo_seal :: "byte list \<Rightarrow> byte list \<Rightarrow> byte list \<Rightarrow> byte list" where
  "demo_seal k n w = w @ take 16 k"

definition demo_unseal :: "byte list \<Rightarrow> byte list \<Rightarrow> byte list \<Rightarrow> byte list option" where
  "demo_unseal k n c = (if drop (length c - 16) c = take 16 k then Some (take (length c - 16) c) else None)"

lemma demo_gcm: "gcm_ok demo_seal demo_unseal"
  by (simp add: gcm_ok_def demo_seal_def demo_unseal_def)

theorem encrypted_file_roundtrip_witness:
  "\<exists>m s' s''. EncryptAndStore (\<lambda>w. if w = [] then ''xx'' else replicate (2 + unat (hd w)) CHR ''a'') demo_seal (\<lambda>_. Some (replicate 12 0))
       (Some ''m'') 0 [] (local_backend ''/data'') [([7], Some EOF)] ''f'' ''d'' (replicate 32 1) \<lparr>lf_files = [], lf_faults = []\<rparr> = Returns (Inr m, s')
    \<and> ReassembleDecrypt demo_unseal (local_backend ''/data'') (\<lambda>_. None) m (replicate 32 1) s' = (None, [7], s'')"
proof (rule encrypted_file_roundtrip [OF demo_gcm, where nonces = "\<lambda>_. Some (replicate 12 0)"])
  let ?sha = "\<lambda>w :: byte list. if w = [] then ''xx'' else replicate (2 + unat (hd w)) CHR ''a''"
  show "\<forall>w. plain_key (?sha w) \<and> ?sha w \<noteq> []" by (auto simp: plain_key_def)
  fix v w :: "byte list"
  assume "sublist v [7 :: byte]" "sublist w [7 :: byte]" "?sha v = ?sha w"
  then show "v = w" using sublist_length_le [of v "[7]"] sublist_length_le [of w "[7]"]
    by (cases v; cases w) (auto simp: word_unat_eq_iff split: if_split_asm)
qed simp_all

text \<open>Encrypted files that share a chunk destroy each other.  A chunk is stored under the hash of its
  plaintext whatever its key.  When the same bytes are stored a second time under another key, both
  calls succeed, and reassembling the first file fails to decrypt; so does a reader with the
  first key for every file that contains the chunk.\<close>

theorem encrypted_dedup_breaks:
  assumes "gcm_ok seal unseal" and "length key1 = 32" and "length key2 = 32"
    and "\<forall>i. \<exists>n. nonces_a i = Some n \<and> length n = 12" and "\<forall>i. \<exists>n. nonces_b i = Some n \<and> length n = 12"
    and "drain rs = (bs, Some EOF)" and "int (length bs) < 2 ^ 63" and "bs \<noteq> []"
    and "\<forall>w. plain_key (sha w) \<and> sha w \<noteq> []" and "mid1 \<noteq> []" "mid2 \<noteq> []" and "fid1 \<noteq> []" "fid2 \<noteq> []" and "lf_faults s = []"
    and wrong_key: "\<And>n w. unseal key1 n (seal key2 n w) = None"
  shows "\<exists>m1 s1 m2 s2 s3. EncryptAndStore sha seal nonces_a (Some mid1) now1 [] (local_backend dir) rs fid1 dev key1 s = Returns (Inr m1, s1)
    \<and> EncryptAndStore sha seal nonces_b (Some mid2) now2 [] (local_backend dir) rs fid2 dev key2 s1 = Returns (Inr m2, s2)
    \<and> ReassembleDecrypt unseal (local_backend dir) writes m1 key1 s2 = (Some ''failed to decrypt chunk'', [], s3)"
proof -
  from EncryptAndStore_stores [OF assms(1,2,4,6,7,8,9,10,12,14), where now = now1 and dir = dir and dev = dev] obtain ps m1 s1 where
    st1: "ps = default_pieces bs" "ps \<noteq> []" "EncryptAndStore sha seal nonces_a (Some mid1) now1 [] (local_backend dir) rs fid1 dev key1 s = Returns (Inr m1, s1)"
      "lf_faults s1 = []" "Validate m1 = None" "md_chunks m1 = infos sha 0 ps" by blast
  from EncryptAndStore_stores [OF assms(1,3,5,6,7,8,9,11,13) st1(4), where now = now2 and dir = dir and dev = dev] obtain m2 s2 where
    st2: "EncryptAndStore sha seal nonces_b (Some mid2) now2 [] (local_backend dir) rs fid2 dev key2 s1 = Returns (Inr m2, s2)"
      "lf_faults s2 = []"
      "\<forall>p \<in> set ps. \<exists>q n. q \<in> set ps \<and> sha q = sha p \<and> length n = 12 \<and> local_blob dir s2 (sha p) = Some (n @ seal key2 n q)"
    using st1(1) by blast
  obtain p qs where ps: "ps = p # qs" using st1(2) by (cases ps) auto
  with st2(3) obtain q n where q: "length n = 12" "local_blob dir s2 (sha p) = Some (n @ seal key2 n q)" by auto
  have "length (seal key2 n q) = length q + 16" using assms(1,3) q(1) by (simp add: gcm_ok_def)
  then have "Decrypt unseal (n @ seal key2 n q) key1 = Inl ''decryption failed: authentication tag mismatch''"
    using assms(2) q(1) wrong_key by (simp add: Decrypt_def KeySize_def NonceSize_def)
  moreover obtain c cs where c: "infos sha 0 ps = c # cs" "ci_hash c = sha p" by (simp add: ps)
  ultimately obtain s3 where "reassemble unseal (local_backend dir) writes key1 0 (infos sha 0 ps) ([], s2) = (Some ''failed to decrypt chunk'', [], s3)"
    using ls.reassemble_fails [OF st2(2), of c dir "n @ seal key2 n q" unseal key1 _ writes 0 cs "[]"] q(2) assms(9)
    by (auto simp del: reassemble.simps)
  then show ?thesis using st1 st2(1) by (auto simp: ReassembleDecrypt_def)
qed

theorem encrypted_dedup_breaks_witness:
  "\<exists>m1 s1 m2 s2 s3. EncryptAndStore (\<lambda>w. ''abc'') demo_seal (\<lambda>_. Some (replicate 12 0)) (Some ''m'') 0 [] (local_backend ''/data'')
       [([7], Some EOF)] ''f'' ''d'' (replicate 32 1) \<lparr>lf_files = [], lf_faults = []\<rparr> = Returns (Inr m1, s1)
    \<and> EncryptAndStore (\<lambda>w. ''abc'') demo_seal (\<lambda>_. Some (replicate 12 0)) (Some ''n'') 0 [] (local_backend ''/data'')
       [([7], Some EOF)] ''g'' ''d'' (replicate 32 2) s1 = Returns (Inr m2, s2)
    \<and> ReassembleDecrypt demo_unseal (local_backend ''/data'') (\<lambda>_. None) m1 (replicate 32 1) s2 = (Some ''failed to decrypt chunk'', [], s3)"
  by (rule encrypted_dedup_breaks [OF demo_gcm, where nonces_a = "\<lambda>_. Some (replicate 12 0)" and nonces_b = "\<lambda>_. Some (replicate 12 0)" and bs = "[7]"])
    (simp_all add: plain_key_def demo_unseal_def demo_seal_def replicate_eq_replicate)

end
