(* ===== verification/Users.thy ===== *)
theory Users
  imports Devices
begin

text \<open>
  Accounts: the tables of users, sessions, API tokens and shares beside those of \<open>Store\<close>, and
  the statements of \<^verbatim>\<open>src/internal/db/users.go\<close>, \<^verbatim>\<open>sessions.go\<close> and \<^verbatim>\<open>apitokens.go\<close>.
  Timestamps compared as text by a statement are in UTC, where the order of the texts is the order
  of the whole seconds.  Deleting a user cascades to everything that refers to the user.
\<close>

section \<open>Rows\<close>

record session =
  se_id :: string
  se_user :: string
  se_refresh :: string
  se_device :: string
  se_dtype :: string
  se_ip :: string
  se_agent :: string
  se_active :: int
  se_expires :: int
  se_created :: int

record api_token =
  at_id :: string
  at_user :: string
  at_name :: string
  at_hash :: string
  at_perms :: "string list"
  at_last :: "int option"
  at_expires :: "int option"
  at_created :: int

record share =
  sh_id :: string
  sh_file :: string
  sh_by :: string
  sh_type :: string
  sh_token :: "string option"
  sh_password :: "string option"
  sh_expires :: "int option"
  sh_max :: "int option"
  sh_count :: int
  sh_upload :: bool
  sh_preview :: bool
  sh_with :: "string option"
  sh_perm :: string
  sh_key :: "byte list"
  sh_active :: bool
  sh_views :: int
  sh_created :: int
  sh_updated :: int

record tables =
  t_db :: database
  t_sessions :: "session list"
  t_tokens :: "api_token list"
  t_shares :: "share list"

text \<open>LIMIT and OFFSET: a negative limit is no limit.\<close>

definition sql_page :: "int \<Rightarrow> int \<Rightarrow> 'a list \<Rightarrow> 'a list" where
  "sql_page limit offset xs = (if limit < 0 then drop (nat offset) xs else limit_offset limit offset xs)"

section \<open>users.go\<close>

text \<open>\<open>rnd\<close> is a fresh id; \<open>email_first\<close> says which of two violated constraints the driver reports.\<close>

definition CreateUser :: "string \<Rightarrow> bool \<Rightarrow> user \<Rightarrow> database \<Rightarrow> database result" where
  "CreateUser rnd email_first u0 d =
     (let u = (if u_id u0 = [] then u0\<lparr>u_id := rnd\<rparr> else u0);
          name = (\<exists>v \<in> set (users d). u_username v = u_username u);
          mail = (\<exists>v \<in> set (users d). u_email v = u_email u)
      in if mail \<and> (email_first \<or> \<not> name) then Inl ''email already exists''
         else if name then Inl ''username already exists''
         else if \<exists>v \<in> set (users d). u_id v = u_id u then Inl ''failed to create user''
         else Inr (d\<lparr>users := users d @ [u\<lparr>u_must_change := False, u_last_login := map_option rfc3339 (u_last_login u),
                u_created := rfc3339 (u_created u), u_updated := rfc3339 (u_updated u)\<rparr>]\<rparr>))"

definition GetUserByID :: "string \<Rightarrow> database \<Rightarrow> user result" where
  "GetUserByID i d = (case find_row (\<lambda>u. u_id u = i) (users d) of None \<Rightarrow> Inl ''user not found'' | Some u \<Rightarrow> Inr u)"

definition GetUserByUsername :: "string \<Rightarrow> database \<Rightarrow> user result" where
  "GetUserByUsername nm d = (case find_row (\<lambda>u. u_username u = nm) (users d) of None \<Rightarrow> Inl ''user not found'' | Some u \<Rightarrow> Inr u)"

definition GetUserByEmail :: "string \<Rightarrow> database \<Rightarrow> user result" where
  "GetUserByEmail mail d = (case find_row (\<lambda>u. u_email u = mail) (users d) of None \<Rightarrow> Inl ''user not found'' | Some u \<Rightarrow> Inr u)"

datatype user_update = PUsername string | PEmail string | PDisplay string | PHash string | PRole string | PQuota int | PUsed int
  | PTotpSecret "string option" | PTotpEnabled bool | PPublicKey "byte list" | PPrivateKey "byte list" | PRecovery "string option"
  | PAvatar "string option" | PStatus string | PLastLogin int | PInvalid string

fun set_user_column :: "user_update \<Rightarrow> user \<Rightarrow> user" where
  "set_user_column (PUsername s) u = u\<lparr>u_username := s\<rparr>"
| "set_user_column (PEmail s) u = u\<lparr>u_email := s\<rparr>"
| "set_user_column (PDisplay s) u = u\<lparr>u_display := s\<rparr>"
| "set_user_column (PHash s) u = u\<lparr>u_password_hash := s\<rparr>"
| "set_user_column (PRole s) u = u\<lparr>u_role := s\<rparr>"
| "set_user_column (PQuota n) u = u\<lparr>u_quota := n\<rparr>"
| "set_user_column (PUsed n) u = u\<lparr>u_used := n\<rparr>"
| "set_user_column (PTotpSecret s) u = u\<lparr>u_totp_secret := s\<rparr>"
| "set_user_column (PTotpEnabled b) u = u\<lparr>u_totp_enabled := b\<rparr>"
| "set_user_column (PPublicKey k) u = u\<lparr>u_public_key := k\<rparr>"
| "set_user_column (PPrivateKey k) u = u\<lparr>u_private_key := k\<rparr>"
| "set_user_column (PRecovery s) u = u\<lparr>u_recovery := s\<rparr>"
| "set_user_column (PAvatar s) u = u\<lparr>u_avatar := s\<rparr>"
| "set_user_column (PStatus s) u = u\<lparr>u_status := s\<rparr>"
| "set_user_column (PLastLogin t) u = u\<lparr>u_last_login := Some (rfc3339 t)\<rparr>"
| "set_user_column (PInvalid s) u = u"

fun invalid_user_update :: "user_update \<Rightarrow> bool" where
  "invalid_user_update (PInvalid s) = True"
| "invalid_user_update _ = False"

definition has_user :: "string \<Rightarrow> database \<Rightarrow> bool" where
  "has_user i d \<longleftrightarrow> (\<exists>u \<in> set (users d). u_id u = i)"

definition update_user :: "string \<Rightarrow> (user \<Rightarrow> user) \<Rightarrow> database \<Rightarrow> database" where
  "update_user i g d = d\<lparr>users := map (\<lambda>u. if u_id u = i then g u else u) (users d)\<rparr>"

definition user_keys_ok :: "user list \<Rightarrow> bool" where
  "user_keys_ok us \<longleftrightarrow> distinct (map u_id us) \<and> distinct (map u_username us) \<and> distinct (map u_email us)"

definition UpdateUser :: "int \<Rightarrow> string \<Rightarrow> user_update list \<Rightarrow> database \<Rightarrow> database result" where
  "UpdateUser now i updates d =
     (let d' = update_user i (\<lambda>u. (fold set_user_column updates u)\<lparr>u_updated := rfc3339 now\<rparr>) d
      in if updates = [] then Inr d
         else if \<exists>x \<in> set updates. invalid_user_update x then Inl ''invalid update field''
         else if \<not> has_user i d then Inl ''user not found''
         else if \<not> user_keys_ok (users d') then Inl ''failed to update user''
         else Inr d')"

text \<open>The rows that go with a user: files with everything below them, devices and their states.\<close>

definition delete_user_rows :: "string \<Rightarrow> database \<Rightarrow> database" where
  "delete_user_rows i d =
     (if fk_on d
      then (let d1 = delete_files (map f_id (filter (\<lambda>f. f_user f = i) (files d))) d;
                gone = map dv_id (filter (\<lambda>e. dv_user e = i) (devices d))
            in d1\<lparr>users := filter (\<lambda>u. u_id u \<noteq> i) (users d), devices := filter (\<lambda>e. dv_user e \<noteq> i) (devices d),
                  sync_states := filter (\<lambda>s. ss_device s \<notin> set gone) (sync_states d1)\<rparr>)
      else d\<lparr>users := filter (\<lambda>u. u_id u \<noteq> i) (users d)\<rparr>)"

text \<open>Shares go with their file.\<close>

definition share_cascade :: "database \<Rightarrow> share list \<Rightarrow> share list" where
  "share_cascade d shs = (if fk_on d then filter (\<lambda>s. has_file (sh_file s) d) shs else shs)"

definition DeleteUser :: "string \<Rightarrow> tables \<Rightarrow> tables result" where
  "DeleteUser i t =
     (if \<not> has_user i (t_db t) then Inl ''user not found''
      else (let d' = delete_user_rows i (t_db t)
            in Inr (if fk_on d'
               then t\<lparr>t_db := d', t_sessions := filter (\<lambda>s. se_user s \<noteq> i) (t_sessions t),
                      t_tokens := filter (\<lambda>k. at_user k \<noteq> i) (t_tokens t),
                      t_shares := share_cascade d' (filter (\<lambda>s. sh_by s \<noteq> i \<and> sh_with s \<noteq> Some i) (t_shares t))\<rparr>
               else t\<lparr>t_db := d'\<rparr>)))"

record user_filter =
  uf_role :: string
  uf_status :: string
  uf_query :: string

definition user_matches :: "user_filter \<Rightarrow> user \<Rightarrow> bool" where
  "user_matches flt u \<longleftrightarrow> (uf_role flt = [] \<or> u_role u = uf_role flt) \<and> (uf_status flt = [] \<or> u_status u = uf_status flt)
     \<and> (uf_query flt = [] \<or> (let q = ''%'' @ uf_query flt @ ''%'' in like q (u_username u) \<or> like q (u_email u) \<or> like q (u_display u)))"

definition ListUsers :: "int \<Rightarrow> int \<Rightarrow> user_filter \<Rightarrow> database \<Rightarrow> user list \<times> nat" where
  "ListUsers offset limit flt d =
     (let sel = filter (user_matches flt) (users d) in (sql_page limit offset (desc_sort u_created sel), length sel))"

text \<open>Storage counts stay in the range of \<^verbatim>\<open>int64\<close>.\<close>

definition UpdateUsedBytes :: "int \<Rightarrow> string \<Rightarrow> int \<Rightarrow> database \<Rightarrow> database result" where
  "UpdateUsedBytes now i delta d =
     (if \<not> has_user i d then Inl ''user not found''
      else Inr (update_user i (\<lambda>u. u\<lparr>u_used := u_used u + delta, u_updated := rfc3339 now\<rparr>) d))"

definition UpdatePassword :: "int \<Rightarrow> string \<Rightarrow> string \<Rightarrow> database \<Rightarrow> database result" where
  "UpdatePassword now i hash d =
     (if \<not> has_user i d then Inl ''user not found''
      else Inr (update_user i (\<lambda>u. u\<lparr>u_password_hash := hash, u_must_change := False, u_updated := rfc3339 now\<rparr>) d))"

definition GetUserCount :: "database \<Rightarrow> nat" where
  "GetUserCount d = length (users d)"

definition GetUserCountByStatus :: "string \<Rightarrow> database \<Rightarrow> nat" where
  "GetUserCountByStatus st d = length (filter (\<lambda>u. u_status u = st) (users d))"

definition CountUsersByStatus :: "string \<Rightarrow> database \<Rightarrow> nat" where
  "CountUsersByStatus st d = (if st = [] then GetUserCount d else GetUserCountByStatus st d)"

section \<open>sessions.go\<close>

definition CreateSession :: "session \<Rightarrow> tables \<Rightarrow> tables result" where
  "CreateSession s t =
     (if (\<exists>x \<in> set (t_sessions t). se_id x = se_id s \<or> se_refresh x = se_refresh s)
         \<or> (fk_on (t_db t) \<and> \<not> has_user (se_user s) (t_db t))
      then Inl ''failed to create session''
      else Inr (t\<lparr>t_sessions := t_sessions t @ [s\<lparr>se_active := rfc3339 (se_active s), se_expires := rfc3339 (se_expires s),
             se_created := rfc3339 (se_created s)\<rparr>]\<rparr>))"

definition GetSessionByRefreshToken :: "string \<Rightarrow> tables \<Rightarrow> session result" where
  "GetSessionByRefreshToken r t =
     (case find_row (\<lambda>s. se_refresh s = r) (t_sessions t) of None \<Rightarrow> Inl ''session not found'' | Some s \<Rightarrow> Inr s)"

definition GetSessionsByUser :: "string \<Rightarrow> tables \<Rightarrow> session list" where
  "GetSessionsByUser i t = desc_sort se_created (filter (\<lambda>s. se_user s = i) (t_sessions t))"

definition UpdateSessionActivity :: "int \<Rightarrow> string \<Rightarrow> tables \<Rightarrow> tables" where
  "UpdateSessionActivity now i t =
     t\<lparr>t_sessions := map (\<lambda>s. if se_id s = i then s\<lparr>se_active := rfc3339 now\<rparr> else s) (t_sessions t)\<rparr>"

definition DeleteSession :: "string \<Rightarrow> tables \<Rightarrow> tables result" where
  "DeleteSession i t =
     (if \<forall>s \<in> set (t_sessions t). se_id s \<noteq> i then Inl ''session not found''
      else Inr (t\<lparr>t_sessions := filter (\<lambda>s. se_id s \<noteq> i) (t_sessions t)\<rparr>))"

definition DeleteSessionsByUser :: "string \<Rightarrow> tables \<Rightarrow> tables" where
  "DeleteSessionsByUser i t = t\<lparr>t_sessions := filter (\<lambda>s. se_user s \<noteq> i) (t_sessions t)\<rparr>"

definition CleanupExpiredSessions :: "int \<Rightarrow> tables \<Rightarrow> nat \<times> tables" where
  "CleanupExpiredSessions now t =
     (length (filter (\<lambda>s. se_expires s < rfc3339 now) (t_sessions t)),
      t\<lparr>t_sessions := filter (\<lambda>s. \<not> se_expires s < rfc3339 now) (t_sessions t)\<rparr>)"

section \<open>apitokens.go\<close>

definition CreateAPIToken :: "api_token \<Rightarrow> tables \<Rightarrow> tables result" where
  "CreateAPIToken k t =
     (if (\<exists>x \<in> set (t_tokens t). at_id x = at_id k \<or> at_hash x = at_hash k) \<or> (fk_on (t_db t) \<and> \<not> has_user (at_user k) (t_db t))
      then Inl ''failed to create API token''
      else Inr (t\<lparr>t_tokens := t_tokens t @ [k\<lparr>at_last := map_option rfc3339 (at_last k), at_expires := map_option rfc3339 (at_expires k),
             at_created := rfc3339 (at_created k)\<rparr>]\<rparr>))"

definition GetAPITokenByHash :: "string \<Rightarrow> tables \<Rightarrow> api_token result" where
  "GetAPITokenByHash h t =
     (case find_row (\<lambda>k. at_hash k = h) (t_tokens t) of None \<Rightarrow> Inl ''token not found'' | Some k \<Rightarrow> Inr k)"

definition GetAPITokenByID :: "string \<Rightarrow> tables \<Rightarrow> api_token result" where
  "GetAPITokenByID i t =
     (case find_row (\<lambda>k. at_id k = i) (t_tokens t) of None \<Rightarrow> Inl ''token not found'' | Some k \<Rightarrow> Inr k)"

definition ListAPITokensByUser :: "string \<Rightarrow> tables \<Rightarrow> api_token list" where
  "ListAPITokensByUser i t = desc_sort at_created (filter (\<lambda>k. at_user k = i) (t_tokens t))"

definition UpdateAPITokenLastUsed :: "string \<Rightarrow> int \<Rightarrow> tables \<Rightarrow> tables" where
  "UpdateAPITokenLastUsed i now t =
     t\<lparr>t_tokens := map (\<lambda>k. if at_id k = i then k\<lparr>at_last := Some (rfc3339 now)\<rparr> else k) (t_tokens t)\<rparr>"

definition DeleteAPIToken :: "string \<Rightarrow> tables \<Rightarrow> tables result" where
  "DeleteAPIToken i t =
     (if \<forall>k \<in> set (t_tokens t). at_id k \<noteq> i then Inl ''token not found''
      else Inr (t\<lparr>t_tokens := filter (\<lambda>k. at_id k \<noteq> i) (t_tokens t)\<rparr>))"

definition DeleteAPITokensByUser :: "string \<Rightarrow> tables \<Rightarrow> tables" where
  "DeleteAPITokensByUser i t = t\<lparr>t_tokens := filter (\<lambda>k. at_user k \<noteq> i) (t_tokens t)\<rparr>"

definition CleanupExpiredAPITokens :: "int \<Rightarrow> tables \<Rightarrow> nat \<times> tables" where
  "CleanupExpiredAPITokens now t =
     (let old = (\<lambda>k. case at_expires k of None \<Rightarrow> False | Some e \<Rightarrow> e < rfc3339 now)
      in (length (filter old (t_tokens t)), t\<lparr>t_tokens := filter (\<lambda>k. \<not> old k) (t_tokens t)\<rparr>))"

end
