(* ===== verification/Ids.thy ===== *)
theory Ids
  imports Prelude
begin

text \<open>
  Identifiers, tokens and text encodings (\<^verbatim>\<open>src/internal/util\<close>: \<^verbatim>\<open>id.go\<close>, \<^verbatim>\<open>encoding.go\<close>,
  \<^verbatim>\<open>hash.go\<close>).  Random bytes are arguments, \<open>None\<close> when the generator fails.  The base64 and
  hexadecimal codecs of the standard library are written out; decoding of base64 ignores line breaks
  and the unused low bits of the last digit, as Go's does.  The human-readable sizes of
  \<^verbatim>\<open>size.go\<close> are floating point and not modelled.
\<close>

unbundle bit_operations_syntax

section \<open>encoding.go\<close>

definition hex_digit :: "nat \<Rightarrow> char" where
  "hex_digit n = ''0123456789abcdef'' ! n"

definition HexEncode :: "byte list \<Rightarrow> string" where
  "HexEncode w = concat (map (\<lambda>b. [hex_digit (unat b div 16), hex_digit (unat b mod 16)]) w)"

definition hex_value :: "char \<Rightarrow> nat option" where
  "hex_value c = (let n = of_char c :: nat
     in if 48 \<le> n \<and> n \<le> 57 then Some (n - 48) else if 97 \<le> n \<and> n \<le> 102 then Some (n - 87)
        else if 65 \<le> n \<and> n \<le> 70 then Some (n - 55) else None)"

fun HexDecode :: "string \<Rightarrow> byte list option" where
  "HexDecode [] = Some []"
| "HexDecode [c] = None"
| "HexDecode (c # d # s) =
     (case (hex_value c, hex_value d, HexDecode s) of
        (Some x, Some y, Some w) \<Rightarrow> Some (of_nat (16 * x + y) # w) | _ \<Rightarrow> None)"

definition url_alphabet :: string where
  "url_alphabet = ''ABCDEFGHIJKLMNOPQRSTUVWXYZabcdefghijklmnopqrstuvwxyz0123456789-_''"

fun b64_digits :: "nat list \<Rightarrow> nat list" where
  "b64_digits [] = []"
| "b64_digits [a] = [a div 4, a mod 4 * 16]"
| "b64_digits [a, b] = [a div 4, a mod 4 * 16 + b div 16, b mod 16 * 4]"
| "b64_digits (a # b # c # r) = a div 4 # (a mod 4 * 16 + b div 16) # (b mod 16 * 4 + c div 64) # c mod 64 # b64_digits r"

fun b64_bytes :: "nat list \<Rightarrow> nat list option" where
  "b64_bytes [] = Some []"
| "b64_bytes [x] = None"
| "b64_bytes [x, y] = Some [x * 4 + y div 16]"
| "b64_bytes [x, y, z] = Some [x * 4 + y div 16, y mod 16 * 16 + z div 4]"
| "b64_bytes (x # y # z # w # r) =
     map_option (\<lambda>bs. (x * 4 + y div 16) # (y mod 16 * 16 + z div 4) # (z mod 4 * 64 + w) # bs) (b64_bytes r)"

fun digit_values :: "string \<Rightarrow> string \<Rightarrow> nat list option" where
  "digit_values alphabet [] = Some []"
| "digit_values alphabet (c # s) =
     (case (index_of c alphabet, digit_values alphabet s) of (Some n, Some ns) \<Rightarrow> Some (n # ns) | _ \<Rightarrow> None)"

definition raw_encode :: "string \<Rightarrow> byte list \<Rightarrow> string" where
  "raw_encode alphabet w = map (\<lambda>n. alphabet ! n) (b64_digits (map unat w))"

definition raw_decode :: "string \<Rightarrow> string \<Rightarrow> byte list option" where
  "raw_decode alphabet s =
     (case digit_values alphabet (filter (\<lambda>c. c \<noteq> CHR 0x0A \<and> c \<noteq> CHR 0x0D) s) of
        None \<Rightarrow> None | Some ns \<Rightarrow> map_option (map of_nat) (b64_bytes ns))"

definition Base64URLEncode :: "byte list \<Rightarrow> string" where
  "Base64URLEncode data = raw_encode url_alphabet data"

text \<open>Decoding with padding: at most two equals signs, at the end, that fill the last group of four.\<close>

definition padded_decode :: "string \<Rightarrow> string \<Rightarrow> byte list option" where
  "padded_decode alphabet s =
     (let t = filter (\<lambda>c. c \<noteq> CHR 0x0A \<and> c \<noteq> CHR 0x0D) s;
          k = length (takeWhile (\<lambda>c. c = CHR ''='') (rev t))
      in if length t mod 4 \<noteq> 0 \<or> 2 < k then None else raw_decode alphabet (take (length t - k) t))"

definition Base64URLDecode :: "string \<Rightarrow> byte list option" where
  "Base64URLDecode s =
     padded_decode url_alphabet (if length s mod 4 \<noteq> 0 then s @ replicate (4 - length s mod 4) CHR ''='' else s)"

definition EscapeJSON :: "string \<Rightarrow> string" where
  "EscapeJSON s = concat (map (\<lambda>c.
     let n = of_char c :: nat in
     if n = 34 then [CHR 0x5C, CHR 0x22] else if n = 92 then [CHR 0x5C, CHR 0x5C]
     else if n = 8 then [CHR 0x5C, CHR ''b''] else if n = 12 then [CHR 0x5C, CHR ''f'']
     else if n = 10 then [CHR 0x5C, CHR ''n''] else if n = 13 then [CHR 0x5C, CHR ''r'']
     else if n = 9 then [CHR 0x5C, CHR ''t'']
     else if n < 32 then CHR 0x5C # ''u00'' @ [hex_digit (n div 16), hex_digit (n mod 16)] else [c]) s)"

section \<open>hash.go\<close>

definition HashEqual :: "string \<Rightarrow> string \<Rightarrow> bool" where
  "HashEqual a b \<longleftrightarrow> length a = 64 \<and> length b = 64 \<and> a = b"

definition ValidateHash :: "string \<Rightarrow> bool" where
  "ValidateHash h \<longleftrightarrow> length h = 64 \<and> HexDecode h \<noteq> None"

section \<open>id.go\<close>

text \<open>The two package variables: the last timestamp and the sequence number.\<close>

record uuid_state =
  lastTimestamp :: int
  uuid_sequence :: u32

text \<open>The loop over the timestamp for one caller: the compare-and-swap succeeds at once.\<close>

definition uuid_tick :: "int \<Rightarrow> uuid_state \<Rightarrow> int \<times> u32 \<times> uuid_state" where
  "uuid_tick now st =
     (if now > lastTimestamp st then (now, 0, \<lparr>lastTimestamp = now, uuid_sequence = 0\<rparr>)
      else (let q = uuid_sequence st + 1 in (lastTimestamp st, q AND 0x0FFF, st\<lparr>uuid_sequence := q\<rparr>)))"

definition time_byte :: "int \<Rightarrow> nat \<Rightarrow> byte" where
  "time_byte timestamp k = word_of_int (drop_bit k timestamp)"

definition uuid_bytes :: "int \<Rightarrow> u32 \<Rightarrow> byte list \<Rightarrow> byte list" where
  "uuid_bytes timestamp q randomBytes =
     map (time_byte timestamp) [40, 32, 24, 16, 8, 0] @ [0x70 OR ucast (drop_bit 8 q), ucast (q AND 0xFF)] @ randomBytes"

definition formatUUID :: "byte list \<Rightarrow> string" where
  "formatUUID u = HexEncode (take 4 u) @ ''-'' @ HexEncode (take 2 (drop 4 u)) @ ''-'' @ HexEncode (take 2 (drop 6 u)) @ ''-''
     @ HexEncode (take 2 (drop 8 u)) @ ''-'' @ HexEncode (drop 10 u)"

definition GenerateUUIDv7 :: "int \<Rightarrow> byte list option \<Rightarrow> uuid_state \<Rightarrow> string result \<times> uuid_state" where
  "GenerateUUIDv7 now rnd st =
     (case uuid_tick now st of (timestamp, q, st') \<Rightarrow>
        (case rnd of None \<Rightarrow> Inl ''failed to generate random bytes''
         | Some randomBytes \<Rightarrow> Inr (formatUUID (uuid_bytes timestamp q randomBytes)), st'))"

definition GenerateUUID :: "int \<Rightarrow> byte list option \<Rightarrow> uuid_state \<Rightarrow> string outcome \<times> uuid_state" where
  "GenerateUUID now rnd st =
     (case GenerateUUIDv7 now rnd st of (Inl e, st') \<Rightarrow> (Panics, st') | (Inr s, st') \<Rightarrow> (Returns s, st'))"

definition ValidateUUID :: "string \<Rightarrow> bool" where
  "ValidateUUID s \<longleftrightarrow> length s = 36 \<and> (\<forall>i \<in> {8, 13, 18, 23}. s ! i = CHR ''-'')
     \<and> (\<forall>i < 36. i \<in> {8, 13, 18, 23} \<or> hex_value (s ! i) \<noteq> None)"

definition id_alphabet :: string where
  "id_alphabet = ''abcdefghijklmnopqrstuvwxyzABCDEFGHIJKLMNOPQRSTUVWXYZ0123456789''"

definition RandomID :: "byte list option \<Rightarrow> string result" where
  "RandomID rnd = (case rnd of None \<Rightarrow> Inl ''failed to generate random bytes''
     | Some w \<Rightarrow> Inr (map (\<lambda>b. id_alphabet ! (unat b mod 62)) w))"

definition RandomToken :: "byte list option \<Rightarrow> string result" where
  "RandomToken rnd = (case rnd of None \<Rightarrow> Inl ''failed to generate random bytes''
     | Some w \<Rightarrow> Inr (map (\<lambda>b. url_alphabet ! (unat b mod 64)) w))"

text \<open>One or four random bytes.\<close>

definition SecureRandomInt :: "int \<Rightarrow> byte list option \<Rightarrow> int result" where
  "SecureRandomInt mx rnd =
     (if mx \<le> 0 then Inl ''max must be positive''
      else case rnd of None \<Rightarrow> Inl ''failed to generate random bytes''
      | Some w \<Rightarrow> if mx \<le> 256 then Inr (uint (w ! 0) mod mx)
                  else Inr ((uint (w ! 0) * 2 ^ 24 + uint (w ! 1) * 2 ^ 16 + uint (w ! 2) * 2 ^ 8 + uint (w ! 3)) mod mx))"

definition SanitizeFileID :: "string \<Rightarrow> string result" where
  "SanitizeFileID fileID =
     (if fileID = [] \<or> fileID = ''.'' \<or> fileID = ''..'' then Inl ''invalid file ID''
      else if \<exists>c \<in> set fileID. c = CHR ''/'' \<or> c = CHR 0x5C \<or> c = CHR 0x00 then Inl ''invalid file ID: contains path separator''
      else Inr fileID)"

section \<open>The base64 codec\<close>

lemma b64_bytes_digits: "\<forall>x \<in> set xs. x < 256 \<Longrightarrow> b64_bytes (b64_digits xs) = Some xs"
proof (induction xs rule: b64_digits.induct)
  case (3 a b)
  have "(a mod 4 * 16 + b div 16) div 16 = a mod 4" "(a mod 4 * 16 + b div 16) mod 16 = b div 16" using 3 by auto
  then show ?case by (simp add: mult.commute)
next
  case (4 a b c r)
  have "(a mod 4 * 16 + b div 16) div 16 = a mod 4" "(a mod 4 * 16 + b div 16) mod 16 = b div 16"
    "(b mod 16 * 4 + c div 64) div 4 = b mod 16" "(b mod 16 * 4 + c div 64) mod 4 = c div 64" using 4 by auto
  then show ?case using 4 by (simp add: mult.commute)
qed simp_all

lemma b64_digits_below: "\<forall>x \<in> set xs. x < 256 \<Longrightarrow> \<forall>d \<in> set (b64_digits xs). d < 64"
proof (induction xs rule: b64_digits.induct)
  case (3 a b)
  then show ?case by auto
next
  case (4 a b c r)
  then show ?case by auto
qed auto

lemma b64_digits_length: "length (b64_digits xs) = (4 * length xs + 2) div 3"
  by (induction xs rule: b64_digits.induct) auto

text \<open>An alphabet of 64 different characters without line breaks.\<close>

definition alphabet_ok :: "string \<Rightarrow> bool" where
  "alphabet_ok al \<longleftrightarrow> (\<forall>n \<in> set [0..<64]. index_of (al ! n) al = Some n \<and> al ! n \<noteq> CHR 0x0A \<and> al ! n \<noteq> CHR 0x0D)"

lemma url_alphabet_ok: "alphabet_ok url_alphabet"
  by code_simp

lemma url_chars: "n < 64 \<Longrightarrow> url_alphabet ! n \<noteq> CHR ''='' \<and> url_alphabet ! n \<noteq> CHR ''.''"
proof -
  have "\<forall>n \<in> set [0..<64]. url_alphabet ! n \<noteq> CHR ''='' \<and> url_alphabet ! n \<noteq> CHR ''.''" by code_simp
  then show "n < 64 \<Longrightarrow> url_alphabet ! n \<noteq> CHR ''='' \<and> url_alphabet ! n \<noteq> CHR ''.''" by auto
qed

lemma digit_values_map: "alphabet_ok al \<Longrightarrow> \<forall>n \<in> set ns. n < 64 \<Longrightarrow> digit_values al (map (\<lambda>n. al ! n) ns) = Some ns"
  by (induction ns) (auto simp: alphabet_ok_def)

lemma byte_below: "unat (b :: byte) < 256"
  using unsigned_less [of b, where 'a = nat] by simp

lemma unat_bytes: "\<forall>x \<in> set (map unat w). x < 256" for w :: "byte list"
  using byte_below by auto

lemma encode_chars: "c \<in> set (raw_encode al w) \<Longrightarrow> \<exists>n < 64. c = al ! n"
  using b64_digits_below [OF unat_bytes, of w] by (auto simp: raw_encode_def)

lemma encode_filter: "alphabet_ok al \<Longrightarrow> filter (\<lambda>c. c \<noteq> CHR 0x0A \<and> c \<noteq> CHR 0x0D) (raw_encode al w) = raw_encode al w"
  by (intro filter_True) (auto simp: alphabet_ok_def dest!: encode_chars)

lemma raw_roundtrip:
  assumes "alphabet_ok al"
  shows "raw_decode al (raw_encode al w) = Some w"
proof -
  have "raw_decode al (raw_encode al w) = map_option (map of_nat) (b64_bytes (b64_digits (map unat w)))"
    unfolding raw_decode_def encode_filter [OF assms]
    using digit_values_map [OF assms b64_digits_below [OF unat_bytes [of w]]] by (simp add: raw_encode_def)
  then show ?thesis using b64_bytes_digits [OF unat_bytes [of w]] by (simp add: comp_def)
qed

lemma encode_no_dot: "CHR ''.'' \<notin> set (raw_encode url_alphabet w)"
  using encode_chars url_chars by metis

lemma raw_encode_length: "length (raw_encode alphabet w) = (4 * length w + 2) div 3"
  by (simp add: raw_encode_def b64_digits_length)

lemma takeWhile_replicate_eq: "(\<forall>c. xs \<noteq> [] \<longrightarrow> last xs \<noteq> CHR ''='') \<Longrightarrow>
    length (takeWhile (\<lambda>c. c = CHR ''='') (rev (xs @ replicate k CHR ''=''))) = k"
proof -
  assume l: "\<forall>c. xs \<noteq> [] \<longrightarrow> last xs \<noteq> CHR ''=''"
  have "takeWhile (\<lambda>c. c = CHR ''='') (rev xs) = []" using l by (cases xs rule: rev_cases) auto
  moreover have "takeWhile (\<lambda>c. c = CHR ''='') (replicate k CHR ''='' @ rev xs) = replicate k CHR ''='' @ takeWhile (\<lambda>c. c = CHR ''='') (rev xs)"
    by (rule takeWhile_append2) simp
  ultimately show ?thesis by simp
qed

lemma Base64URL_roundtrip: "Base64URLDecode (Base64URLEncode w) = Some w"
proof -
  let ?s = "raw_encode url_alphabet w"
  have noeq: "?s \<noteq> [] \<Longrightarrow> last ?s \<noteq> CHR ''=''" using encode_chars [of "last ?s" url_alphabet w] url_chars by (metis last_in_set)
  have len: "length ?s mod 4 \<noteq> 1"
  proof
    assume "length ?s mod 4 = 1"
    then have "((4 * length w + 2) div 3) mod 4 = 1" by (simp add: raw_encode_length)
    then show False by presburger
  qed
  obtain k where k: "k \<le> 2" "(length ?s + k) mod 4 = 0"
    "(if length ?s mod 4 \<noteq> 0 then ?s @ replicate (4 - length ?s mod 4) CHR ''='' else ?s) = ?s @ replicate k CHR ''=''"
  proof (cases "length ?s mod 4 = 0")
    case True
    with that [of 0] show ?thesis by simp
  next
    case False
    moreover from this len have "4 - length ?s mod 4 \<le> 2" by auto
    moreover have "(length ?s + (4 - length ?s mod 4)) mod 4 = 0" by presburger
    ultimately show ?thesis using that [of "4 - length ?s mod 4"] by simp
  qed
  have flt: "filter (\<lambda>c. c \<noteq> CHR 0x0A \<and> c \<noteq> CHR 0x0D) (?s @ replicate k CHR ''='') = ?s @ replicate k CHR ''=''"
    using encode_filter [OF url_alphabet_ok, of w] by simp
  have "length (takeWhile (\<lambda>c. c = CHR ''='') (rev (?s @ replicate k CHR ''=''))) = k"
    using noeq by (intro takeWhile_replicate_eq) blast
  then have "padded_decode url_alphabet (?s @ replicate k CHR ''='') = raw_decode url_alphabet ?s"
    using k(1,2) unfolding padded_decode_def flt by simp
  then show ?thesis using k(3) raw_roundtrip [OF url_alphabet_ok] by (simp add: Base64URLDecode_def Base64URLEncode_def)
qed

section \<open>Generated identifiers\<close>

lemma hex_digit_value: "n < 16 \<Longrightarrow> hex_value (hex_digit n) = Some n"
proof -
  have "\<forall>n \<in> set [0..<16]. hex_value (hex_digit n) = Some n" by code_simp
  then show "n < 16 \<Longrightarrow> hex_value (hex_digit n) = Some n" by auto
qed

lemma HexEncode_length [simp]: "length (HexEncode w) = 2 * length w"
  by (induction w) (auto simp: HexEncode_def)

lemma HexEncode_chars: "c \<in> set (HexEncode w) \<Longrightarrow> hex_value c \<noteq> None"
  using hex_digit_value byte_below by (fastforce simp: HexEncode_def less_mult_imp_div_less)

lemma Hex_roundtrip: "HexDecode (HexEncode w) = Some w"
proof (induction w)
  case (Cons b w)
  have "unat b div 16 < 16" "unat b mod 16 < 16" using byte_below [of b] by auto
  moreover have "(of_nat (16 * (unat b div 16) + unat b mod 16) :: byte) = b" by simp
  ultimately show ?case using Cons by (simp add: HexEncode_def hex_digit_value del: of_nat_add of_nat_mult)
qed (simp add: HexEncode_def)

lemma generated_id_valid:
  assumes "GenerateUUIDv7 now rnd st = (Inr s, st')" and "length (the rnd) = 8"
  shows "ValidateUUID s"
proof -
  obtain timestamp q w where s: "s = formatUUID (uuid_bytes timestamp q w)" "length w = 8"
    using assms by (auto simp: GenerateUUIDv7_def split: prod.split_asm option.split_asm)
  let ?u = "uuid_bytes timestamp q w"
  have len: "length ?u = 16" using s(2) by (simp add: uuid_bytes_def)
  have hex: "i < length (HexEncode v) \<Longrightarrow> hex_value (HexEncode v ! i) \<noteq> None" for i v using HexEncode_chars nth_mem by blast
  show ?thesis
    unfolding ValidateUUID_def s(1) formatUUID_def using len hex
    by (auto simp: nth_append nth_Cons' )
qed

end
