(* ===== verification/Tokens.thy ===== *)
theory Tokens
  imports Ids Crypto
begin

text \<open>
  Signed tokens, password hashes and one-time codes (\<^verbatim>\<open>src/internal/auth/jwt.go\<close>,
  \<^verbatim>\<open>password.go\<close>, \<^verbatim>\<open>totp.go\<close>).

  \<open>mac p\<close> is the HMAC-SHA256 of a payload under the server's secret.  JSON is a datatype; \<open>enc\<close> and
  \<open>dec\<close> are the text encoder and parser, with \<open>json_ok\<close> their documented round trip on the values in use; which member
  of an object goes to which field of a struct is modelled as \<^verbatim>\<open>encoding/json\<close> does it (the
  names compare without ASCII case, \<^verbatim>\<open>null\<close> leaves a field alone, another type is an error, unknown
  members are ignored).  An empty and a nil list of roles are the same.  Instants are nanoseconds.
\<close>

section \<open>JSON\<close>

datatype json = JStr string | JNum int | JBool bool | JArr "json list" | JObj "(string \<times> json) list" | JNull | JOther

definition json_ok :: "(json \<Rightarrow> byte list) \<Rightarrow> (byte list \<Rightarrow> json option) \<Rightarrow> json list \<Rightarrow> bool" where
  "json_ok enc dec js \<longleftrightarrow> (\<forall>j \<in> set js. dec (enc j) = Some j)"

definition lower_char :: "char \<Rightarrow> char" where
  "lower_char c = (if 65 \<le> (of_char c :: nat) \<and> (of_char c :: nat) \<le> 90 then char_of ((of_char c :: nat) + 32) else c)"

text \<open>A field of a struct after the members of an object; \<open>None\<close> is a type error.\<close>

definition json_field :: "(json \<Rightarrow> 'a option) \<Rightarrow> string \<Rightarrow> (string \<times> json) list \<Rightarrow> 'a \<Rightarrow> 'a option" where
  "json_field read key members zero =
     fold (\<lambda>(k, v) acc. if map lower_char k \<noteq> key then acc
        else case acc of None \<Rightarrow> None | Some x \<Rightarrow> if v = JNull then Some x else read v) members (Some zero)"

fun read_string :: "json \<Rightarrow> string option" where
  "read_string (JStr s) = Some s"
| "read_string _ = None"

fun read_int64 :: "json \<Rightarrow> int option" where
  "read_int64 (JNum n) = (if wrap64 n = n then Some n else None)"
| "read_int64 _ = None"

fun read_strings :: "json \<Rightarrow> string list option" where
  "read_strings (JArr vs) = (if \<exists>v \<in> set vs. v \<noteq> JNull \<and> read_string v = None then None
     else Some (map (\<lambda>v. case read_string v of None \<Rightarrow> [] | Some s \<Rightarrow> s) vs))"
| "read_strings _ = None"

section \<open>jwt.go\<close>

definition AccessTokenTTL :: int where "AccessTokenTTL = 15 * 60 * 10 ^ 9"
definition RefreshTokenTTL :: int where "RefreshTokenTTL = 7 * 24 * 3600 * 10 ^ 9"

datatype token_error = ErrInvalidToken | ErrTokenExpired | ErrInvalidSignature

record access_claims =
  ac_user :: string
  ac_username :: string
  ac_roles :: "string list"
  ac_device :: string
  ac_session :: string
  ac_exp :: int
  ac_iat :: int
  ac_jti :: string

record refresh_claims =
  rc_user :: string
  rc_device :: string
  rc_session :: string
  rc_exp :: int
  rc_iat :: int
  rc_jti :: string

record token_pair =
  tp_access :: string
  tp_refresh :: string
  tp_expires :: int

definition access_json :: "access_claims \<Rightarrow> json" where
  "access_json c = JObj [(''user_id'', JStr (ac_user c)), (''username'', JStr (ac_username c)),
     (''roles'', JArr (map JStr (ac_roles c))), (''device_id'', JStr (ac_device c)), (''session_id'', JStr (ac_session c)),
     (''exp'', JNum (ac_exp c)), (''iat'', JNum (ac_iat c)), (''jti'', JStr (ac_jti c))]"

definition refresh_json :: "refresh_claims \<Rightarrow> json" where
  "refresh_json c = JObj [(''user_id'', JStr (rc_user c)), (''device_id'', JStr (rc_device c)), (''session_id'', JStr (rc_session c)),
     (''exp'', JNum (rc_exp c)), (''iat'', JNum (rc_iat c)), (''jti'', JStr (rc_jti c))]"

fun read_access :: "json \<Rightarrow> access_claims option" where
  "read_access (JObj ms) =
     (case (json_field read_string ''user_id'' ms [], json_field read_string ''username'' ms [], json_field read_strings ''roles'' ms [],
            json_field read_string ''device_id'' ms [], json_field read_string ''session_id'' ms [], json_field read_int64 ''exp'' ms 0,
            json_field read_int64 ''iat'' ms 0, json_field read_string ''jti'' ms []) of
        (Some u, Some nm, Some rs, Some dv, Some se, Some ex, Some ia, Some jt) \<Rightarrow>
          Some \<lparr>ac_user = u, ac_username = nm, ac_roles = rs, ac_device = dv, ac_session = se, ac_exp = ex, ac_iat = ia, ac_jti = jt\<rparr>
      | _ \<Rightarrow> None)"
| "read_access JNull = Some \<lparr>ac_user = [], ac_username = [], ac_roles = [], ac_device = [], ac_session = [], ac_exp = 0, ac_iat = 0, ac_jti = []\<rparr>"
| "read_access _ = None"

fun read_refresh :: "json \<Rightarrow> refresh_claims option" where
  "read_refresh (JObj ms) =
     (case (json_field read_string ''user_id'' ms [], json_field read_string ''device_id'' ms [], json_field read_string ''session_id'' ms [],
            json_field read_int64 ''exp'' ms 0, json_field read_int64 ''iat'' ms 0, json_field read_string ''jti'' ms []) of
        (Some u, Some dv, Some se, Some ex, Some ia, Some jt) \<Rightarrow>
          Some \<lparr>rc_user = u, rc_device = dv, rc_session = se, rc_exp = ex, rc_iat = ia, rc_jti = jt\<rparr>
      | _ \<Rightarrow> None)"
| "read_refresh JNull = Some \<lparr>rc_user = [], rc_device = [], rc_session = [], rc_exp = 0, rc_iat = 0, rc_jti = []\<rparr>"
| "read_refresh _ = None"

text \<open>A payload and its signature.\<close>

definition jwt_sign :: "(string \<Rightarrow> byte list) \<Rightarrow> string \<Rightarrow> string" where
  "jwt_sign mac payload = Base64URLEncode (mac payload)"

definition jwt_verify :: "(string \<Rightarrow> byte list) \<Rightarrow> string \<Rightarrow> string \<Rightarrow> bool" where
  "jwt_verify mac payload signature \<longleftrightarrow> signature = jwt_sign mac payload"

definition sign_json :: "(json \<Rightarrow> byte list) \<Rightarrow> (string \<Rightarrow> byte list) \<Rightarrow> json \<Rightarrow> string" where
  "sign_json enc mac claims =
     (let payload = Base64URLEncode (enc (JObj [(''alg'', JStr ''HS256''), (''typ'', JStr ''JWT'')])) @ ''.'' @ Base64URLEncode (enc claims)
      in payload @ ''.'' @ jwt_sign mac payload)"

definition unix_time :: "int \<Rightarrow> int" where
  "unix_time now = now div 10 ^ 9"

definition GenerateAccessToken :: "(json \<Rightarrow> byte list) \<Rightarrow> (string \<Rightarrow> byte list) \<Rightarrow> int \<Rightarrow> access_claims \<Rightarrow> string" where
  "GenerateAccessToken enc mac now c =
     sign_json enc mac (access_json (c\<lparr>ac_iat := unix_time now, ac_exp := unix_time (now + AccessTokenTTL)\<rparr>))"

definition GenerateRefreshToken :: "(json \<Rightarrow> byte list) \<Rightarrow> (string \<Rightarrow> byte list) \<Rightarrow> int \<Rightarrow> refresh_claims \<Rightarrow> string" where
  "GenerateRefreshToken enc mac now c =
     sign_json enc mac (refresh_json (c\<lparr>rc_iat := unix_time now, rc_exp := unix_time (now + RefreshTokenTTL)\<rparr>))"

text \<open>The checks the two validators share; \<open>read\<close> fills the struct and \<open>expiry\<close> is its expiry.\<close>

definition validate_token :: "(json \<Rightarrow> 'c option) \<Rightarrow> ('c \<Rightarrow> int) \<Rightarrow> (byte list \<Rightarrow> json option) \<Rightarrow> (string \<Rightarrow> byte list) \<Rightarrow> int \<Rightarrow> string
    \<Rightarrow> token_error + 'c" where
  "validate_token read expiry dec mac now token =
     (case split_on CHR ''.'' token of
        [a, b, s] \<Rightarrow>
          if \<not> jwt_verify mac (a @ ''.'' @ b) s then Inl ErrInvalidSignature
          else (case raw_decode url_alphabet b of
             None \<Rightarrow> Inl ErrInvalidToken
           | Some w \<Rightarrow> (case dec w of
               None \<Rightarrow> Inl ErrInvalidToken
             | Some j \<Rightarrow> (case read j of
                 None \<Rightarrow> Inl ErrInvalidToken
               | Some c \<Rightarrow> if unix_time now > expiry c then Inl ErrTokenExpired else Inr c)))
      | _ \<Rightarrow> Inl ErrInvalidToken)"

definition ValidateAccessToken :: "(byte list \<Rightarrow> json option) \<Rightarrow> (string \<Rightarrow> byte list) \<Rightarrow> int \<Rightarrow> string \<Rightarrow> token_error + access_claims" where
  "ValidateAccessToken dec mac now token = validate_token read_access ac_exp dec mac now token"

definition ValidateRefreshToken :: "(byte list \<Rightarrow> json option) \<Rightarrow> (string \<Rightarrow> byte list) \<Rightarrow> int \<Rightarrow> string \<Rightarrow> token_error + refresh_claims" where
  "ValidateRefreshToken dec mac now token = validate_token read_refresh rc_exp dec mac now token"

definition generateJTI :: "byte list option \<Rightarrow> int \<Rightarrow> int \<Rightarrow> string" where
  "generateJTI rnd now1 now2 =
     (case rnd of Some w \<Rightarrow> HexEncode w | None \<Rightarrow> dec_int now1 @ ''-'' @ dec_int (unix_time now2))"

definition GenerateTokenPair :: "(json \<Rightarrow> byte list) \<Rightarrow> (string \<Rightarrow> byte list) \<Rightarrow> (nat \<Rightarrow> int) \<Rightarrow> string \<Rightarrow> string \<Rightarrow> string
    \<Rightarrow> string list \<Rightarrow> string \<Rightarrow> string \<Rightarrow> token_pair" where
  "GenerateTokenPair enc mac clk jti userID username roles deviceID sessionID =
     \<lparr>tp_access = GenerateAccessToken enc mac (clk 0) \<lparr>ac_user = userID, ac_username = username, ac_roles = roles, ac_device = deviceID,
        ac_session = sessionID, ac_exp = 0, ac_iat = 0, ac_jti = jti\<rparr>,
      tp_refresh = GenerateRefreshToken enc mac (clk 1) \<lparr>rc_user = userID, rc_device = deviceID, rc_session = sessionID,
        rc_exp = 0, rc_iat = 0, rc_jti = jti @ '':refresh''\<rparr>,
      tp_expires = clk 2 + AccessTokenTTL\<rparr>"

section \<open>password.go\<close>

definition std_alphabet :: string where
  "std_alphabet = ''ABCDEFGHIJKLMNOPQRSTUVWXYZabcdefghijklmnopqrstuvwxyz0123456789+/''"

definition string_bytes :: "string \<Rightarrow> byte list" where
  "string_bytes s = map of_char s"

definition DefaultMemoryKB :: int where "DefaultMemoryKB = 65536"
definition DefaultIterations :: int where "DefaultIterations = 3"

definition HashPassword :: "(byte list \<Rightarrow> byte list \<Rightarrow> byte list) \<Rightarrow> (byte list \<Rightarrow> byte list) \<Rightarrow> (byte list \<Rightarrow> byte list) \<Rightarrow> byte list option
    \<Rightarrow> string \<Rightarrow> string result" where
  "HashPassword hmac sha256 sha512 rnd password =
     (case rnd of None \<Rightarrow> Inl ''failed to generate salt''
      | Some salt \<Rightarrow>
          (let h = DeriveKeyArgon2idStyle hmac sha256 sha512 (string_bytes password) salt DefaultMemoryKB DefaultIterations
           in Inr (''$argon2id$v=19$m='' @ dec_int DefaultMemoryKB @ '',t='' @ dec_int DefaultIterations @ '',p=1$''
                @ raw_encode std_alphabet salt @ ''$'' @ raw_encode std_alphabet h)))"

definition parsePHC :: "string \<Rightarrow> (byte list \<times> byte list \<times> int \<times> int) option" where
  "parsePHC phc =
     (case split_on CHR ''$'' phc of
        [p0, p1, p2, p3, p4, p5] \<Rightarrow>
          if p1 \<noteq> ''argon2id'' then None
          else (case split_on CHR '','' p3 of
             [m, t, p] \<Rightarrow>
               (case (split_on CHR ''='' m, split_on CHR ''='' t) of
                  ([m0, m1], [t0, t1]) \<Rightarrow>
                    if m0 \<noteq> ''m'' \<or> t0 \<noteq> ''t'' then None
                    else (case (atoi m1, atoi t1, raw_decode std_alphabet p4, raw_decode std_alphabet p5) of
                       (Some memoryKB, Some iterations, Some salt, Some h) \<Rightarrow> Some (salt, h, memoryKB, iterations)
                     | _ \<Rightarrow> None)
                | _ \<Rightarrow> None)
           | _ \<Rightarrow> None)
      | _ \<Rightarrow> None)"

definition VerifyPassword :: "(byte list \<Rightarrow> byte list \<Rightarrow> byte list) \<Rightarrow> (byte list \<Rightarrow> byte list) \<Rightarrow> (byte list \<Rightarrow> byte list) \<Rightarrow> string \<Rightarrow> string
    \<Rightarrow> bool result" where
  "VerifyPassword hmac sha256 sha512 password h =
     (case parsePHC h of None \<Rightarrow> Inl ''invalid password hash format''
      | Some (salt, storedHash, memoryKB, iterations) \<Rightarrow>
          Inr (SecureCompare (DeriveKeyArgon2idStyle hmac sha256 sha512 (string_bytes password) salt memoryKB iterations) storedHash))"

section \<open>totp.go\<close>

text \<open>\<open>b32dec\<close> decodes base32; \<open>hmac_sha1\<close> is HMAC-SHA1, with 20 bytes of output.\<close>

definition put_u64 :: "int \<Rightarrow> byte list" where
  "put_u64 n = map (\<lambda>k. word_of_int (drop_bit k n)) [56, 48, 40, 32, 24, 16, 8, 0]"

definition zero_padded :: "nat \<Rightarrow> nat \<Rightarrow> string" where
  "zero_padded width n = (let s = dec_nat n in replicate (width - length s) CHR ''0'' @ s)"

definition generateTOTP :: "(byte list \<Rightarrow> byte list \<Rightarrow> byte list) \<Rightarrow> byte list \<Rightarrow> int \<Rightarrow> string" where
  "generateTOTP hmac_sha1 secret timeStep =
     (let h = hmac_sha1 secret (put_u64 (max 0 timeStep));
          offset = unat (last h AND 0x0F);
          code = unat (h ! offset) * 2 ^ 24 + unat (h ! (offset + 1)) * 2 ^ 16 + unat (h ! (offset + 2)) * 2 ^ 8 + unat (h ! (offset + 3))
      in zero_padded 6 (code mod 2 ^ 31 mod 10 ^ 6))"

definition upper_char :: "char \<Rightarrow> char" where
  "upper_char c = (if 97 \<le> (of_char c :: nat) \<and> (of_char c :: nat) \<le> 122 then char_of ((of_char c :: nat) - 32) else c)"

definition ValidateCode :: "(string \<Rightarrow> byte list option) \<Rightarrow> (byte list \<Rightarrow> byte list \<Rightarrow> byte list) \<Rightarrow> int \<Rightarrow> int \<Rightarrow> string \<Rightarrow> string \<Rightarrow> bool" where
  "ValidateCode b32dec hmac_sha1 skew now secret code0 =
     (let code = filter (\<lambda>c. c \<noteq> CHR '' '') code0
      in length code = 6
       \<and> (case b32dec (map upper_char secret) of None \<Rightarrow> False
          | Some key \<Rightarrow> \<exists>i \<in> set [- skew..skew]. code = generateTOTP hmac_sha1 key (go_div (unix_time now) 30 + i)))"

definition GenerateCode :: "(string \<Rightarrow> byte list option) \<Rightarrow> (byte list \<Rightarrow> byte list \<Rightarrow> byte list) \<Rightarrow> int \<Rightarrow> string \<Rightarrow> string option" where
  "GenerateCode b32dec hmac_sha1 now secret =
     map_option (\<lambda>key. generateTOTP hmac_sha1 key (go_div (unix_time now) 30)) (b32dec (map upper_char secret))"

record backup_code =
  bc_code :: string
  bc_used :: bool
  bc_used_at :: "int option"

definition backup_text :: "byte list \<Rightarrow> string" where
  "backup_text w = (let h = HexEncode w in take 4 h @ ''-'' @ take 4 (drop 4 h) @ ''-'' @ take 4 (drop 8 h) @ ''-'' @ take 4 (drop 12 h))"

text \<open>Ten draws of eight random bytes.\<close>

fun draw_codes :: "nat \<Rightarrow> (nat \<Rightarrow> byte list option) \<Rightarrow> string list result" where
  "draw_codes 0 rnd = Inr []"
| "draw_codes (Suc n) rnd =
     (case draw_codes n rnd of Inl e \<Rightarrow> Inl e
      | Inr cs \<Rightarrow> (case rnd n of None \<Rightarrow> Inl ''failed to read random bytes'' | Some w \<Rightarrow> Inr (cs @ [backup_text w])))"

definition GenerateBackupCodes :: "(nat \<Rightarrow> byte list option) \<Rightarrow> string list result" where
  "GenerateBackupCodes rnd = draw_codes 10 rnd"

definition plain_code :: "string \<Rightarrow> string" where
  "plain_code s = filter (\<lambda>c. c \<noteq> CHR ''-'') (map upper_char s)"

fun find_index_of :: "('a \<Rightarrow> bool) \<Rightarrow> 'a list \<Rightarrow> nat option" where
  "find_index_of P [] = None"
| "find_index_of P (x # xs) = (if P x then Some 0 else map_option Suc (find_index_of P xs))"

definition ValidateBackupCode :: "string \<Rightarrow> backup_code list \<Rightarrow> int" where
  "ValidateBackupCode code codes =
     (case find_index_of (\<lambda>bc. \<not> bc_used bc \<and> filter (\<lambda>c. c \<noteq> CHR '' '') (plain_code code) = plain_code (bc_code bc)) codes of
        None \<Rightarrow> -1 | Some i \<Rightarrow> int i)"

section \<open>Signed tokens\<close>

lemma split_on_none: "c \<notin> set a \<Longrightarrow> split_on c a = [a]"
  by (induction a) auto

lemma split_on_first: "c \<notin> set a \<Longrightarrow> split_on c (a @ c # b) = a # split_on c b"
  by (induction a) auto

lemma Base64URL_no_dot: "CHR ''.'' \<notin> set (Base64URLEncode w)"
  by (simp add: Base64URLEncode_def encode_no_dot)

text \<open>What a validator does with a token the server signed.\<close>

lemma validate_signed:
  assumes "dec (enc j) = Some j"
  shows "validate_token read expiry dec mac now (sign_json enc mac j) =
    (case read j of None \<Rightarrow> Inl ErrInvalidToken | Some c \<Rightarrow> if unix_time now > expiry c then Inl ErrTokenExpired else Inr c)"
proof -
  have "split_on CHR ''.'' (sign_json enc mac j) =
      [Base64URLEncode (enc (JObj [(''alg'', JStr ''HS256''), (''typ'', JStr ''JWT'')])), Base64URLEncode (enc j),
       jwt_sign mac (Base64URLEncode (enc (JObj [(''alg'', JStr ''HS256''), (''typ'', JStr ''JWT'')])) @ ''.'' @ Base64URLEncode (enc j))]"
    using Base64URL_no_dot by (simp add: sign_json_def Let_def jwt_sign_def split_on_first split_on_none)
  moreover have "raw_decode url_alphabet (Base64URLEncode (enc j)) = Some (enc j)" by (simp add: Base64URLEncode_def raw_roundtrip [OF url_alphabet_ok])
  ultimately show ?thesis using assms by (simp add: validate_token_def jwt_verify_def)
qed

text \<open>Only a payload with the server's signature passes.\<close>

lemma validate_authentic:
  assumes "validate_token read expiry dec mac now token = Inr c"
  shows "\<exists>a b. token = a @ ''.'' @ b @ ''.'' @ jwt_sign mac (a @ ''.'' @ b) \<and> unix_time now \<le> expiry c"
proof -
  from assms obtain a b s where p: "split_on CHR ''.'' token = [a, b, s]" "jwt_verify mac (a @ ''.'' @ b) s" "unix_time now \<le> expiry c"
    by (auto simp: validate_token_def split: list.splits if_split_asm option.splits)
  from join_split [of "CHR ''.''" token] p show ?thesis by (auto simp: jwt_verify_def)
qed

lemma lower_keys: "map lower_char ''user_id'' = ''user_id''" "map lower_char ''username'' = ''username''" "map lower_char ''roles'' = ''roles''"
  "map lower_char ''device_id'' = ''device_id''" "map lower_char ''session_id'' = ''session_id''" "map lower_char ''exp'' = ''exp''"
  "map lower_char ''iat'' = ''iat''" "map lower_char ''jti'' = ''jti''"
  by code_simp+

lemma field_Cons: "json_field read key ((k, v) # ms) z =
    (if map lower_char k \<noteq> key then json_field read key ms z
     else if v = JNull then json_field read key ms z
     else case read v of None \<Rightarrow> None | Some x \<Rightarrow> json_field read key ms x)"
proof -
  let ?f = "\<lambda>(k, v) acc. if map lower_char k \<noteq> key then acc
        else case acc of None \<Rightarrow> None | Some x \<Rightarrow> if v = JNull then Some x else read v"
  have none: "fold ?f ms None = None" for ms by (induction ms) auto
  show ?thesis by (simp add: json_field_def none split: option.split)
qed

lemma field_Nil: "json_field read key [] z = Some z"
  by (simp add: json_field_def)

lemma read_strings_map: "read_strings (JArr (map JStr rs)) = Some rs"
  by (induction rs) auto

lemma read_access_access: "wrap64 (ac_exp c) = ac_exp c \<Longrightarrow> wrap64 (ac_iat c) = ac_iat c \<Longrightarrow> read_access (access_json c) = Some c"
  unfolding access_json_def by (simp only: read_access.simps field_Cons field_Nil lower_keys read_strings_map) simp

lemma read_access_refresh: "wrap64 (rc_exp c) = rc_exp c \<Longrightarrow> wrap64 (rc_iat c) = rc_iat c \<Longrightarrow> read_access (refresh_json c) =
    Some \<lparr>ac_user = rc_user c, ac_username = [], ac_roles = [], ac_device = rc_device c, ac_session = rc_session c, ac_exp = rc_exp c,
      ac_iat = rc_iat c, ac_jti = rc_jti c\<rparr>"
  unfolding refresh_json_def by (simp only: read_access.simps field_Cons field_Nil lower_keys) simp

lemma read_refresh_refresh: "wrap64 (rc_exp c) = rc_exp c \<Longrightarrow> wrap64 (rc_iat c) = rc_iat c \<Longrightarrow> read_refresh (refresh_json c) = Some c"
  unfolding refresh_json_def by (simp only: read_refresh.simps field_Cons field_Nil lower_keys) simp

lemma read_refresh_access: "wrap64 (ac_exp c) = ac_exp c \<Longrightarrow> wrap64 (ac_iat c) = ac_iat c \<Longrightarrow> read_refresh (access_json c) =
    Some \<lparr>rc_user = ac_user c, rc_device = ac_device c, rc_session = ac_session c, rc_exp = ac_exp c, rc_iat = ac_iat c, rc_jti = ac_jti c\<rparr>"
  unfolding access_json_def by (simp only: read_refresh.simps field_Cons field_Nil lower_keys) simp

lemma wrap64_unix: "0 \<le> t \<Longrightarrow> t < 2 ^ 63 \<Longrightarrow> wrap64 (unix_time t) = unix_time t"
proof -
  assume t: "0 \<le> t" "t < 2 ^ 63"
  have "unix_time t \<le> t" using t(1) by (simp add: unix_time_def)
  then show ?thesis using t by (intro wrap64_id) (auto simp: unix_time_def pos_imp_zdiv_nonneg_iff)
qed

definition pair_payloads :: "(nat \<Rightarrow> int) \<Rightarrow> string \<Rightarrow> string \<Rightarrow> string \<Rightarrow> string list \<Rightarrow> string \<Rightarrow> string \<Rightarrow> json list" where
  "pair_payloads clk jti u nm rs dv se =
     [access_json \<lparr>ac_user = u, ac_username = nm, ac_roles = rs, ac_device = dv, ac_session = se,
        ac_exp = unix_time (clk 0 + AccessTokenTTL), ac_iat = unix_time (clk 0), ac_jti = jti\<rparr>,
      refresh_json \<lparr>rc_user = u, rc_device = dv, rc_session = se,
        rc_exp = unix_time (clk 1 + RefreshTokenTTL), rc_iat = unix_time (clk 1), rc_jti = jti @ '':refresh''\<rparr>]"

text \<open>C8: What the two tokens of a pair are good for.  The access token is accepted with exactly its claims
  until 15 minutes after it was made and as expired after that.  But nothing tells the two kinds
  apart: the refresh token is accepted as an access token of the same user for seven days (without
  roles), and the access token as a refresh token.  A token that is accepted carries the
  signature of its payload.\<close>

theorem tokens_interchangeable:
  assumes "json_ok enc dec (pair_payloads clk jti u nm rs dv se)" and "0 \<le> clk 0" "clk 0 < 2 ^ 62" "0 \<le> clk 1" "clk 1 < 2 ^ 62"
    and "p = GenerateTokenPair enc mac clk jti u nm rs dv se"
  shows "ValidateAccessToken dec mac now (tp_access p) =
      (if unix_time now > unix_time (clk 0 + AccessTokenTTL) then Inl ErrTokenExpired
       else Inr \<lparr>ac_user = u, ac_username = nm, ac_roles = rs, ac_device = dv, ac_session = se,
              ac_exp = unix_time (clk 0 + AccessTokenTTL), ac_iat = unix_time (clk 0), ac_jti = jti\<rparr>)
    \<and> ValidateAccessToken dec mac now (tp_refresh p) =
      (if unix_time now > unix_time (clk 1 + RefreshTokenTTL) then Inl ErrTokenExpired
       else Inr \<lparr>ac_user = u, ac_username = [], ac_roles = [], ac_device = dv, ac_session = se,
              ac_exp = unix_time (clk 1 + RefreshTokenTTL), ac_iat = unix_time (clk 1), ac_jti = jti @ '':refresh''\<rparr>)
    \<and> (unix_time now \<le> unix_time (clk 0 + AccessTokenTTL) \<longrightarrow>
        (\<exists>c. ValidateRefreshToken dec mac now (tp_access p) = Inr c \<and> rc_user c = u \<and> rc_session c = se))
    \<and> (\<forall>token c. ValidateAccessToken dec mac now token = Inr c \<longrightarrow> (\<exists>a b. token = a @ ''.'' @ b @ ''.'' @ jwt_sign mac (a @ ''.'' @ b)))"
proof -
  have w: "wrap64 (unix_time (clk 0 + AccessTokenTTL)) = unix_time (clk 0 + AccessTokenTTL)" "wrap64 (unix_time (clk 0)) = unix_time (clk 0)"
    "wrap64 (unix_time (clk 1 + RefreshTokenTTL)) = unix_time (clk 1 + RefreshTokenTTL)" "wrap64 (unix_time (clk 1)) = unix_time (clk 1)"
    using assms(2-5) by (intro wrap64_unix; simp add: AccessTokenTTL_def RefreshTokenTTL_def)+
  have "dec (enc j) = Some j" if "j \<in> set (pair_payloads clk jti u nm rs dv se)" for j using assms(1) that by (simp add: json_ok_def)
  then show ?thesis
    using w validate_authentic [of read_access ac_exp dec mac now]
    by (simp add: assms(6) pair_payloads_def GenerateTokenPair_def GenerateAccessToken_def GenerateRefreshToken_def ValidateAccessToken_def ValidateRefreshToken_def
        validate_signed read_access_access read_access_refresh read_refresh_access del: One_nat_def)
qed

theorem tokens_interchangeable_witness:
  "let j1 = hd (pair_payloads (\<lambda>_. 0) ''j'' ''u'' ''n'' [''user''] ''d'' ''s'');
       j2 = last (pair_payloads (\<lambda>_. 0) ''j'' ''u'' ''n'' [''user''] ''d'' ''s'');
       enc = (\<lambda>j. if j = j1 then [1] else if j = j2 then [2] else []);
       dec = (\<lambda>w. if w = [1] then Some j1 else if w = [2] then Some j2 else None);
       p = GenerateTokenPair enc (\<lambda>_. []) (\<lambda>_. 0) ''j'' ''u'' ''n'' [''user''] ''d'' ''s''
   in ValidateAccessToken dec (\<lambda>_. []) (10 ^ 9) (tp_refresh p) = Inr \<lparr>ac_user = ''u'', ac_username = [], ac_roles = [], ac_device = ''d'',
        ac_session = ''s'', ac_exp = unix_time RefreshTokenTTL, ac_iat = 0, ac_jti = ''j:refresh''\<rparr>"
proof -
  let ?js = "pair_payloads (\<lambda>_. 0) ''j'' ''u'' ''n'' [''user''] ''d'' ''s''"
  let ?enc = "\<lambda>j. if j = hd ?js then [1] else if j = last ?js then [2] else [] :: byte list"
  let ?dec = "\<lambda>w. if w = [1 :: byte] then Some (hd ?js) else if w = [2] then Some (last ?js) else None"
  have ok: "json_ok ?enc ?dec ?js" by (simp add: json_ok_def) (simp add: pair_payloads_def)
  from tokens_interchangeable [OF ok _ _ _ _ refl, of "\<lambda>_. []" "10 ^ 9"] show ?thesis
    by (simp add: Let_def unix_time_def RefreshTokenTTL_def)
qed

section \<open>Password hashes\<close>

lemma std_alphabet_ok: "alphabet_ok std_alphabet"
  by code_simp

lemma std_chars: "n < 64 \<Longrightarrow> std_alphabet ! n \<noteq> CHR ''$''"
proof -
  have "\<forall>n \<in> set [0..<64]. std_alphabet ! n \<noteq> CHR ''$''" by code_simp
  then show "n < 64 \<Longrightarrow> std_alphabet ! n \<noteq> CHR ''$''" by auto
qed

lemma phc_params: "split_on CHR '','' ''m=65536,t=3,p=1'' = [''m=65536'', ''t=3'', ''p=1'']"
  "split_on CHR ''='' ''m=65536'' = [''m'', ''65536'']" "split_on CHR ''='' ''t=3'' = [''t'', ''3'']"
  by code_simp+

lemma phc_digits: "char_of (54 :: nat) = CHR ''6''" "char_of (53 :: nat) = CHR ''5''" "char_of (51 :: nat) = CHR ''3''"
  by code_simp+

lemma phc_numbers: "atoi ''65536'' = Some 65536" "atoi ''3'' = Some 3" "dec_int 65536 = ''65536''" "dec_int 3 = ''3''"
  by (simp_all add: atoi_def digits_value_def is_digit_def Let_def wrap64_def dec_int_def dec_nat.simps phc_digits)

lemma parsePHC_hash:
  assumes "HashPassword hmac sha256 sha512 (Some salt) pw = Inr h"
  shows "parsePHC h = Some (salt, DeriveKeyArgon2idStyle hmac sha256 sha512 (string_bytes pw) salt DefaultMemoryKB DefaultIterations,
    DefaultMemoryKB, DefaultIterations)"
proof -
  let ?d = "DeriveKeyArgon2idStyle hmac sha256 sha512 (string_bytes pw) salt 65536 3"
  have no: "CHR ''$'' \<notin> set (raw_encode std_alphabet w)" for w using encode_chars std_chars by metis
  have h: "h = [] @ CHR ''$'' # ''argon2id'' @ CHR ''$'' # ''v=19'' @ CHR ''$'' # ''m=65536,t=3,p=1'' @ CHR ''$''
      # raw_encode std_alphabet salt @ CHR ''$'' # raw_encode std_alphabet ?d"
    using assms by (simp add: HashPassword_def DefaultMemoryKB_def DefaultIterations_def phc_numbers Let_def)
  have "split_on CHR ''$'' h = [[], ''argon2id'', ''v=19'', ''m=65536,t=3,p=1'', raw_encode std_alphabet salt, raw_encode std_alphabet ?d]"
    unfolding h by (subst split_on_first, simp)+ (simp add: split_on_first split_on_none no)
  then show ?thesis
    by (simp add: parsePHC_def phc_params phc_numbers raw_roundtrip [OF std_alphabet_ok] DefaultMemoryKB_def DefaultIterations_def)
qed

text \<open>A password verifies against its own hash, and another one exactly when it derives the same key.\<close>

lemma password_verifies:
  assumes "HashPassword hmac sha256 sha512 (Some salt) pw = Inr h"
  shows "VerifyPassword hmac sha256 sha512 pw' h = Inr
    (DeriveKeyArgon2idStyle hmac sha256 sha512 (string_bytes pw') salt DefaultMemoryKB DefaultIterations
     = DeriveKeyArgon2idStyle hmac sha256 sha512 (string_bytes pw) salt DefaultMemoryKB DefaultIterations)"
  by (simp add: VerifyPassword_def parsePHC_hash [OF assms] SecureCompare_def)

section \<open>One-time codes\<close>

lemma zero_padded_length: "n < 10 ^ 6 \<Longrightarrow> length (zero_padded 6 n) = 6 \<and> CHR '' '' \<notin> set (zero_padded 6 n)"
proof -
  have len: "length (dec_nat n) \<le> k" if "n < 10 ^ k" "0 < k" for n k
    using that
  proof (induction n arbitrary: k rule: dec_nat.induct)
    case (1 n)
    show ?case
    proof (cases "n < 10")
      case False
      with "1.prems" obtain k' where k': "k = Suc k'" "0 < k'" by (cases k) (auto, cases "k - 1", auto)
      with "1.IH" [OF False, of k'] "1.prems" False show ?thesis by (subst dec_nat.simps) auto
    qed (use 1 in \<open>subst dec_nat.simps, simp\<close>)
  qed
  have dig: "c \<in> set (dec_nat n) \<Longrightarrow> c \<noteq> CHR '' ''" for c n
  proof (induction n rule: dec_nat.induct)
    case (1 n)
    have d: "char_of (48 + m) \<noteq> CHR '' ''" if "m < 10" for m :: nat
    proof
      assume "char_of (48 + m) = CHR '' ''"
      then have "of_char (char_of (48 + m) :: char) = (of_char CHR '' '' :: nat)" by simp
      then show False using that by simp
    qed
    show ?case
    proof (cases "n < 10")
      case True
      with 1(2) d [of n] show ?thesis by (subst (asm) dec_nat.simps) auto
    next
      case False
      with 1 d [of "n mod 10"] show ?thesis by (subst (asm) (2) dec_nat.simps) auto
    qed
  qed
  assume "n < 10 ^ 6"
  with len [of n 6] dig [of _ n] show ?thesis by (auto simp: zero_padded_def Let_def)
qed

text \<open>A code made at one time is accepted up to one step before and after, as often as it is sent.\<close>

lemma code_window:
  assumes "GenerateCode b32dec hmac t secret = Some code" and "\<bar>go_div (unix_time now) 30 - go_div (unix_time t) 30\<bar> \<le> skew"
  shows "ValidateCode b32dec hmac skew now secret code"
proof -
  from assms(1) obtain key where key: "b32dec (map upper_char secret) = Some key" "code = generateTOTP hmac key (go_div (unix_time t) 30)"
    by (auto simp: GenerateCode_def)
  have "length code = 6 \<and> CHR '' '' \<notin> set code" unfolding key(2) generateTOTP_def Let_def by (rule zero_padded_length) simp
  moreover from this have "filter (\<lambda>c. c \<noteq> CHR '' '') code = code" by (intro filter_True) auto
  moreover have "\<exists>i \<in> {- skew..skew}. code = generateTOTP hmac key (go_div (unix_time now) 30 + i)"
    using assms(2) key(2) by (intro bexI [of _ "go_div (unix_time t) 30 - go_div (unix_time now) 30"]) auto
  ultimately show ?thesis using key(1) by (simp add: ValidateCode_def Let_def)
qed

end
