(* ===== verification/Auth.thy ===== *)
theory Auth
  imports Users Tokens
begin

text \<open>
  The authentication service (\<^verbatim>\<open>src/internal/auth/auth.go\<close>) and API tokens (\<^verbatim>\<open>token.go\<close>).

  The state is the tables, the map of failed attempts and the map of pending second factors.  \<open>gen k\<close>
  is the k-th identifier a call generates, \<open>clk k\<close> its k-th clock reading, \<open>P\<close> the primitives.
  A login first sleeps for the delay that \<open>checkBruteForce\<close> computes.  Durations are nanoseconds.
\<close>

record primitives =
  p_hmac :: "byte list \<Rightarrow> byte list \<Rightarrow> byte list"
  p_sha256 :: "byte list \<Rightarrow> byte list"
  p_sha512 :: "byte list \<Rightarrow> byte list"
  p_hmac_sha1 :: "byte list \<Rightarrow> byte list \<Rightarrow> byte list"
  p_b32 :: "string \<Rightarrow> byte list option"
  p_mac :: "string \<Rightarrow> byte list"
  p_enc :: "json \<Rightarrow> byte list"
  p_dec :: "byte list \<Rightarrow> json option"

section \<open>State\<close>

datatype auth_error = ErrInvalidCredentials | ErrUserDisabled | ErrUserLocked | ErrInvalidTOTP | ErrInvalidSession
  | ErrSessionExpired | ErrPasswordChangeRequired | ErrAuth string

record brute_config =
  MaxAttempts :: int
  LockoutDuration :: int
  ProgressiveDelay :: bool

definition DefaultBruteForceConfig :: brute_config where
  "DefaultBruteForceConfig = \<lparr>MaxAttempts = 5, LockoutDuration = 15 * 60 * 10 ^ 9, ProgressiveDelay = True\<rparr>"

record failed_attempt =
  fa_count :: int
  fa_last :: int
  fa_locked :: "int option"

record totp_session =
  ts_user :: string
  ts_created :: int

record auth_state =
  as_tabs :: tables
  as_failed :: "(string \<times> failed_attempt) list"
  as_totp :: "(string \<times> totp_session) list"

record login_result =
  lr_tokens :: "token_pair option"
  lr_session :: string
  lr_requires_totp :: bool
  lr_totp_session :: string

section \<open>Brute-force protection\<close>

text \<open>A shift by 64 or more is 0.\<close>

definition shift_one :: "int \<Rightarrow> int" where
  "shift_one n = (if n \<ge> 64 then 0 else wrap64 (2 ^ nat n))"

definition checkBruteForce :: "brute_config \<Rightarrow> int \<Rightarrow> string \<Rightarrow> (string \<times> failed_attempt) list \<Rightarrow> int" where
  "checkBruteForce cfg now username failed =
     (case al_get failed username of
        None \<Rightarrow> 0
      | Some a \<Rightarrow>
          if fa_count a = 0 then 0
          else if (case fa_locked a of None \<Rightarrow> False | Some t \<Rightarrow> now < t) then LockoutDuration cfg
          else if ProgressiveDelay cfg
          then (let delay = wrap64 (shift_one (fa_count a) * 10 ^ 9) in if delay > 30 * 10 ^ 9 then 30 * 10 ^ 9 else delay)
          else 0)"

definition recordFailedAttempt :: "brute_config \<Rightarrow> (nat \<Rightarrow> int) \<Rightarrow> string \<Rightarrow> (string \<times> failed_attempt) list \<Rightarrow> (string \<times> failed_attempt) list" where
  "recordFailedAttempt cfg clk username failed =
     (let a = (case al_get failed username of None \<Rightarrow> \<lparr>fa_count = 0, fa_last = zero_time, fa_locked = None\<rparr> | Some a \<Rightarrow> a);
          n = wrap64 (fa_count a + 1);
          a' = a\<lparr>fa_count := n, fa_last := clk 0\<rparr>
      in al_put failed username (if n \<ge> MaxAttempts cfg then a'\<lparr>fa_locked := Some (clk 1 + LockoutDuration cfg)\<rparr> else a'))"

definition clearFailedAttempts :: "string \<Rightarrow> (string \<times> failed_attempt) list \<Rightarrow> (string \<times> failed_attempt) list" where
  "clearFailedAttempts username failed = al_del failed username"

text \<open>One tick of the hourly cleanup.\<close>

definition cleanupFailedAttempts :: "int \<Rightarrow> (string \<times> failed_attempt) list \<Rightarrow> (string \<times> failed_attempt) list" where
  "cleanupFailedAttempts now failed = filter (\<lambda>(u, a). \<not> fa_last a < now - 24 * 3600 * 10 ^ 9) failed"

section \<open>Pending second factors\<close>

definition createTOTPSession :: "string \<Rightarrow> int \<Rightarrow> string \<Rightarrow> (string \<times> totp_session) list \<Rightarrow> (string \<times> totp_session) list" where
  "createTOTPSession sessionID now userID ts = al_put ts sessionID \<lparr>ts_user = userID, ts_created = now\<rparr>"

definition verifyTOTPSession :: "int \<Rightarrow> string \<Rightarrow> (string \<times> totp_session) list \<Rightarrow> string option \<times> (string \<times> totp_session) list" where
  "verifyTOTPSession now sessionID ts =
     (case al_get ts sessionID of
        None \<Rightarrow> (None, ts)
      | Some s \<Rightarrow> if time_sub now (ts_created s) > 5 * 60 * 10 ^ 9 then (None, al_del ts sessionID) else (Some (ts_user s), ts))"

definition clearTOTPSession :: "string \<Rightarrow> (string \<times> totp_session) list \<Rightarrow> (string \<times> totp_session) list" where
  "clearTOTPSession sessionID ts = al_del ts sessionID"

definition cleanupTOTPSessions :: "int \<Rightarrow> (string \<times> totp_session) list \<Rightarrow> (string \<times> totp_session) list" where
  "cleanupTOTPSessions now ts = filter (\<lambda>(k, s). \<not> ts_created s < now - 10 * 60 * 10 ^ 9) ts"

section \<open>Login\<close>

record client_info =
  ci_device :: string
  ci_dtype :: string
  ci_ip :: string
  ci_agent :: string

definition new_session :: "string \<Rightarrow> string \<Rightarrow> string \<Rightarrow> int \<Rightarrow> (nat \<Rightarrow> int) \<Rightarrow> client_info \<Rightarrow> session" where
  "new_session sid userID refresh ttl clk c = \<lparr>se_id = sid, se_user = userID, se_refresh = refresh, se_device = ci_device c,
     se_dtype = ci_dtype c, se_ip = ci_ip c, se_agent = ci_agent c, se_active = clk 0, se_expires = clk 1 + ttl, se_created = clk 2\<rparr>"

text \<open>The session row, the time of the login (an error is only logged) and the tokens.\<close>

definition open_session :: "primitives \<Rightarrow> int \<Rightarrow> (nat \<Rightarrow> int) \<Rightarrow> string \<Rightarrow> string \<Rightarrow> string \<Rightarrow> user \<Rightarrow> client_info \<Rightarrow> tables
    \<Rightarrow> (auth_error + login_result) \<times> tables" where
  "open_session P ttl clk sid refresh jti u c t =
     (case CreateSession (new_session sid (u_id u) refresh ttl clk c) t of
        Inl e \<Rightarrow> (Inl (ErrAuth ''failed to create session''), t)
      | Inr t1 \<Rightarrow>
          (let t2 = (case UpdateUser (clk 4) (u_id u) [PLastLogin (clk 3)] (t_db t1) of Inl e \<Rightarrow> t1 | Inr d \<Rightarrow> t1\<lparr>t_db := d\<rparr>);
               tokens = GenerateTokenPair (p_enc P) (p_mac P) (\<lambda>k. clk (5 + k)) jti (u_id u) (u_username u) [u_role u] (ci_device c) sid
           in (Inr \<lparr>lr_tokens = Some tokens, lr_session = sid, lr_requires_totp = False, lr_totp_session = []\<rparr>, t2)))"

definition Login :: "primitives \<Rightarrow> brute_config \<Rightarrow> int \<Rightarrow> (nat \<Rightarrow> int) \<Rightarrow> (nat \<Rightarrow> string) \<Rightarrow> string \<Rightarrow> string \<Rightarrow> client_info \<Rightarrow> auth_state
    \<Rightarrow> (auth_error + login_result) \<times> auth_state" where
  "Login P cfg ttl clk gen username password c st =
     (case GetUserByUsername username (t_db (as_tabs st)) of
        Inl e \<Rightarrow> (Inl ErrInvalidCredentials, st\<lparr>as_failed := recordFailedAttempt cfg clk username (as_failed st)\<rparr>)
      | Inr u \<Rightarrow>
          if u_status u = ''disabled'' then (Inl ErrUserDisabled, st)
          else if u_status u = ''locked'' then (Inl ErrUserLocked, st)
          else if VerifyPassword (p_hmac P) (p_sha256 P) (p_sha512 P) password (u_password_hash u) \<noteq> Inr True
          then (Inl ErrInvalidCredentials, st\<lparr>as_failed := recordFailedAttempt cfg clk username (as_failed st)\<rparr>)
          else (let st1 = st\<lparr>as_failed := clearFailedAttempts username (as_failed st)\<rparr>
                in if u_must_change u then (Inl ErrPasswordChangeRequired, st1)
                   else if u_totp_enabled u \<and> u_totp_secret u \<noteq> None
                   then (Inr \<lparr>lr_tokens = None, lr_session = [], lr_requires_totp = True, lr_totp_session = gen 0\<rparr>,
                         st1\<lparr>as_totp := createTOTPSession (gen 0) (clk 0) (u_id u) (as_totp st1)\<rparr>)
                   else (case open_session P ttl clk (gen 0) (gen 1) (gen 2) u c (as_tabs st1) of
                           (r, t) \<Rightarrow> (r, st1\<lparr>as_tabs := t\<rparr>))))"

definition login_delay :: "brute_config \<Rightarrow> int \<Rightarrow> string \<Rightarrow> auth_state \<Rightarrow> int" where
  "login_delay cfg now username st = (let delay = checkBruteForce cfg now username (as_failed st) in if delay > 0 then delay else 0)"

text \<open>A user without a secret is a nil dereference.\<close>

definition LoginWithTOTP :: "primitives \<Rightarrow> int \<Rightarrow> int \<Rightarrow> (nat \<Rightarrow> int) \<Rightarrow> (nat \<Rightarrow> string) \<Rightarrow> string \<Rightarrow> string \<Rightarrow> client_info \<Rightarrow> auth_state
    \<Rightarrow> ((auth_error + login_result) \<times> auth_state) outcome" where
  "LoginWithTOTP P skew ttl clk gen tempSessionID totpCode c st =
     (case verifyTOTPSession (clk 0) tempSessionID (as_totp st) of
        (None, ts) \<Rightarrow> Returns (Inl ErrInvalidSession, st\<lparr>as_totp := ts\<rparr>)
      | (Some userID, ts) \<Rightarrow>
          (case GetUserByID userID (t_db (as_tabs st)) of
             Inl e \<Rightarrow> Returns (Inl ErrInvalidSession, st\<lparr>as_totp := ts\<rparr>)
           | Inr u \<Rightarrow>
               (case u_totp_secret u of
                  None \<Rightarrow> Panics
                | Some secret \<Rightarrow>
                    if \<not> ValidateCode (p_b32 P) (p_hmac_sha1 P) skew (clk 1) secret totpCode
                    then Returns (Inl ErrInvalidTOTP, st\<lparr>as_totp := ts\<rparr>)
                    else (case open_session P ttl (\<lambda>k. clk (2 + k)) (gen 0) (gen 1) (gen 2) u c (as_tabs st) of
                            (r, t) \<Rightarrow> Returns (r, st\<lparr>as_tabs := t, as_totp := clearTOTPSession tempSessionID ts\<rparr>)))))"

section \<open>Refresh and logout\<close>

definition Refresh :: "primitives \<Rightarrow> int \<Rightarrow> (nat \<Rightarrow> int) \<Rightarrow> (nat \<Rightarrow> string) \<Rightarrow> string \<Rightarrow> tables \<Rightarrow> (auth_error + token_pair) \<times> tables" where
  "Refresh P ttl clk gen refreshToken t =
     (case ValidateRefreshToken (p_dec P) (p_mac P) (clk 0) refreshToken of
        Inl e \<Rightarrow> (Inl (ErrAuth ''invalid refresh token''), t)
      | Inr claims \<Rightarrow>
          (case GetSessionByRefreshToken (rc_session claims) t of
             Inl e \<Rightarrow> (Inl ErrInvalidSession, t)
           | Inr s \<Rightarrow>
               if clk 1 > se_expires s then (Inl ErrSessionExpired, t)
               else (case GetUserByID (rc_user claims) (t_db t) of
                  Inl e \<Rightarrow> (Inl ErrInvalidSession, t)
                | Inr u \<Rightarrow>
                    (case DeleteSession (se_id s) t of
                       Inl e \<Rightarrow> (Inl (ErrAuth ''failed to invalidate old session''), t)
                     | Inr t1 \<Rightarrow>
                         (case CreateSession (new_session (gen 0) (u_id u) (gen 1) ttl (\<lambda>k. clk (2 + k))
                              \<lparr>ci_device = se_device s, ci_dtype = se_dtype s, ci_ip = se_ip s, ci_agent = se_agent s\<rparr>) t1 of
                            Inl e \<Rightarrow> (Inl (ErrAuth ''failed to create new session''), t1)
                          | Inr t2 \<Rightarrow> (Inr (GenerateTokenPair (p_enc P) (p_mac P) (\<lambda>k. clk (5 + k)) (gen 2) (u_id u) (u_username u) [u_role u]
                                (se_device s) (gen 0)), t2))))))"

definition Logout :: "string \<Rightarrow> tables \<Rightarrow> tables result" where
  "Logout sessionID t = DeleteSession sessionID t"

definition LogoutAll :: "string \<Rightarrow> tables \<Rightarrow> tables" where
  "LogoutAll userID t = DeleteSessionsByUser userID t"

section \<open>token.go\<close>

definition APITokenPrefix :: string where "APITokenPrefix = ''vd_''"
definition APITokenLength :: nat where "APITokenLength = 48"

datatype api_error = ErrInvalidAPIToken | ErrAPITokenExpired | ErrAPI string

definition generateRawToken :: "byte list option \<Rightarrow> string result" where
  "generateRawToken rnd =
     (case rnd of
        None \<Rightarrow> Inl ''failed to read random bytes''
      | Some randomBytes \<Rightarrow>
          (let tokenPart = Base64URLEncode randomBytes; want = APITokenLength - length APITokenPrefix
           in if length tokenPart < want then Inl ''token generation failed''
              else Inr (APITokenPrefix @ (if length tokenPart > want then take want tokenPart else tokenPart))))"

definition hashToken :: "primitives \<Rightarrow> string \<Rightarrow> string" where
  "hashToken P token = HexEncode (p_sha256 P (string_bytes token))"

definition getUserAvailablePermissions :: "user \<Rightarrow> string list" where
  "getUserAvailablePermissions u =
     (if u_role u = ''admin'' then
        [''file:read:all'', ''file:write:all'', ''file:delete:all'', ''folder:read:all'', ''folder:write:all'', ''folder:delete:all'',
         ''share:read:all'', ''share:write:all'', ''share:delete:all'', ''user:read:all'', ''user:write:all'', ''user:delete:all'',
         ''system:manage:all'']
      else if u_role u = ''user'' then
        [''file:read:own'', ''file:write:own'', ''file:delete:own'', ''file:read:group'', ''folder:read:own'', ''folder:write:own'',
         ''folder:delete:own'', ''folder:read:group'', ''share:read:own'', ''share:write:own'', ''share:delete:own'', ''share:read:group'',
         ''user:read:own'', ''user:write:own'']
      else if u_role u = ''guest'' then [''file:read:group'', ''folder:read:group'']
      else [])"

definition filterValidPermissions :: "string list \<Rightarrow> string list \<Rightarrow> string list" where
  "filterValidPermissions requested available = (if requested = [] then available else filter (\<lambda>p. p \<in> set available) requested)"

record generated_token =
  gt_token :: string
  gt_id :: string
  gt_name :: string
  gt_user :: string
  gt_perms :: "string list"
  gt_expires :: "int option"

definition GenerateToken :: "primitives \<Rightarrow> string \<Rightarrow> byte list option \<Rightarrow> int \<Rightarrow> string \<Rightarrow> string \<Rightarrow> string list \<Rightarrow> tables
    \<Rightarrow> (string + generated_token) \<times> tables" where
  "GenerateToken P tokenID rnd now userID nm permissions t =
     (if nm = [] then (Inl ''token name is required'', t)
      else case GetUserByID userID (t_db t) of
        Inl e \<Rightarrow> (Inl ''user not found'', t)
      | Inr u \<Rightarrow>
          (let validPerms = filterValidPermissions permissions (getUserAvailablePermissions u)
           in if validPerms = [] \<and> permissions \<noteq> [] then (Inl ''no valid permissions requested'', t)
              else case generateRawToken rnd of
                Inl e \<Rightarrow> (Inl ''failed to generate token'', t)
              | Inr rawToken \<Rightarrow>
                  (case CreateAPIToken \<lparr>at_id = tokenID, at_user = userID, at_name = nm, at_hash = hashToken P rawToken,
                        at_perms = validPerms, at_last = None, at_expires = None, at_created = now\<rparr> t of
                     Inl e \<Rightarrow> (Inl ''failed to store token'', t)
                   | Inr t' \<Rightarrow> (Inr \<lparr>gt_token = rawToken, gt_id = tokenID, gt_name = nm, gt_user = userID, gt_perms = validPerms,
                        gt_expires = None\<rparr>, t'))))"

definition ValidateToken :: "primitives \<Rightarrow> (nat \<Rightarrow> int) \<Rightarrow> string \<Rightarrow> tables \<Rightarrow> (api_error + user \<times> string list) \<times> tables" where
  "ValidateToken P clk token t =
     (if \<not> has_prefix token APITokenPrefix then (Inl ErrInvalidAPIToken, t)
      else case GetAPITokenByHash (hashToken P token) t of
        Inl e \<Rightarrow> (Inl ErrInvalidAPIToken, t)
      | Inr k \<Rightarrow>
          if (case at_expires k of None \<Rightarrow> False | Some e \<Rightarrow> clk 0 > e) then (Inl ErrAPITokenExpired, t)
          else case GetUserByID (at_user k) (t_db t) of
            Inl e \<Rightarrow> (Inl (ErrAPI ''token user not found''), t)
          | Inr u \<Rightarrow> (Inr (u, at_perms k), UpdateAPITokenLastUsed (at_id k) (clk 1) t))"

definition RevokeToken :: "string \<Rightarrow> tables \<Rightarrow> tables result" where
  "RevokeToken tokenID t = DeleteAPIToken tokenID t"

definition RevokeAllUserTokens :: "string \<Rightarrow> tables \<Rightarrow> tables" where
  "RevokeAllUserTokens userID t = DeleteAPITokensByUser userID t"

definition ListUserTokens :: "string \<Rightarrow> tables \<Rightarrow> api_token list" where
  "ListUserTokens userID t = ListAPITokensByUser userID t"

definition ParsePermission :: "string \<Rightarrow> (string \<times> string \<times> string) option" where
  "ParsePermission perm = (case split_on CHR '':'' perm of [r, a, s] \<Rightarrow> Some (r, a, s) | _ \<Rightarrow> None)"

definition FormatPermission :: "string \<Rightarrow> string \<Rightarrow> string \<Rightarrow> string" where
  "FormatPermission resource action scope = resource @ '':'' @ action @ '':'' @ scope"

definition HasPermission :: "string list \<Rightarrow> string \<Rightarrow> string \<Rightarrow> string \<Rightarrow> bool" where
  "HasPermission permissions resource action scope \<longleftrightarrow>
     (let requested = FormatPermission resource action scope
      in \<exists>p \<in> set permissions. p = requested
           \<or> ((has_suffix p '':*'' \<or> has_suffix p '':manage:*'') \<and> has_prefix requested (trim_suffix p ''*'')))"

section \<open>Opening sessions\<close>

lemma GetUserByUsername_Inr: "GetUserByUsername nm d = Inr u \<Longrightarrow> u \<in> set (users d) \<and> u_username u = nm"
  by (auto simp: GetUserByUsername_def dest: find_row_Some split: option.split_asm)

lemma open_session_cases:
  "open_session P ttl clk sid refresh jti u c t = (r, t') \<Longrightarrow>
     (\<exists>e. r = Inl (ErrAuth e)) \<and> t' = t \<and> (\<exists>e. CreateSession (new_session sid (u_id u) refresh ttl clk c) t = Inl e)
   \<or> (\<exists>t1. CreateSession (new_session sid (u_id u) refresh ttl clk c) t = Inr t1 \<and> t_sessions t' = t_sessions t1 \<and> t_tokens t' = t_tokens t
        \<and> r = Inr \<lparr>lr_tokens = Some (GenerateTokenPair (p_enc P) (p_mac P) (\<lambda>k. clk (5 + k)) jti (u_id u) (u_username u) [u_role u] (ci_device c) sid),
             lr_session = sid, lr_requires_totp = False, lr_totp_session = []\<rparr>)"
  by (auto simp: open_session_def Let_def CreateSession_def split: sum.split_asm if_split_asm)

lemma CreateSession_succeeds:
  "\<forall>x \<in> set (t_sessions t). se_id x \<noteq> se_id s \<and> se_refresh x \<noteq> se_refresh s \<Longrightarrow> has_user (se_user s) (t_db t) \<Longrightarrow> \<exists>t'. CreateSession s t = Inr t'"
  by (auto simp: CreateSession_def)

lemma new_session_fields [simp]: "se_id (new_session sid u r ttl clk c) = sid" "se_refresh (new_session sid u r ttl clk c) = r"
  "se_user (new_session sid u r ttl clk c) = u"
  by (simp_all add: new_session_def)

text \<open>C7: Who gets in.  With fresh identifiers a login hands out tokens exactly when the name belongs to a
  user that is neither disabled nor locked, the password verifies, no change of the password is due and
  no second factor is set up.  The record of failed attempts never refuses anybody: with any other
  record of attempts the answer is the same, so the lockout only delays.  Every other outcome leaves the
  tables as they were.\<close>

theorem login_decides:
  assumes "\<forall>x \<in> set (t_sessions (as_tabs st)). se_id x \<noteq> gen 0 \<and> se_refresh x \<noteq> gen 1"
  shows "((\<exists>r. fst (Login P cfg ttl clk gen nm pw c st) = Inr r \<and> lr_tokens r \<noteq> None) \<longleftrightarrow>
      (\<exists>u. GetUserByUsername nm (t_db (as_tabs st)) = Inr u \<and> u_status u \<notin> {''disabled'', ''locked''}
        \<and> VerifyPassword (p_hmac P) (p_sha256 P) (p_sha512 P) pw (u_password_hash u) = Inr True
        \<and> \<not> u_must_change u \<and> \<not> (u_totp_enabled u \<and> u_totp_secret u \<noteq> None)))
    \<and> fst (Login P cfg ttl clk gen nm pw c (st\<lparr>as_failed := attempts\<rparr>)) = fst (Login P cfg ttl clk gen nm pw c st)
    \<and> ((\<nexists>r. fst (Login P cfg ttl clk gen nm pw c st) = Inr r \<and> lr_tokens r \<noteq> None)
        \<longrightarrow> as_tabs (snd (Login P cfg ttl clk gen nm pw c st)) = as_tabs st)"
proof (cases "GetUserByUsername nm (t_db (as_tabs st))")
  case (Inl e)
  then show ?thesis by (simp add: Login_def)
next
  case (Inr u)
  obtain r t where o: "open_session P ttl clk (gen 0) (gen 1) (gen 2) u c (as_tabs st) = (r, t)" by (metis surj_pair)
  have "has_user (u_id u) (t_db (as_tabs st))" using GetUserByUsername_Inr [OF Inr] by (auto simp: has_user_def)
  then have "\<exists>t1. CreateSession (new_session (gen 0) (u_id u) (gen 1) ttl clk c) (as_tabs st) = Inr t1"
    using assms by (intro CreateSession_succeeds) simp_all
  with open_session_cases [OF o] have "\<exists>l. r = Inr l \<and> lr_tokens l \<noteq> None" by auto
  with Inr o show ?thesis by (auto simp: Login_def Let_def)
qed

definition login_demo :: "primitives \<Rightarrow> auth_state" where
  "login_demo P = \<lparr>as_tabs = \<lparr>t_db = empty_db\<lparr>users := [\<lparr>u_id = ''u'', u_username = ''n'', u_email = [], u_display = [],
      u_password_hash = projr (HashPassword (p_hmac P) (p_sha256 P) (p_sha512 P) (Some []) ''pw''), u_role = ''user'', u_quota = 0,
      u_used = 0, u_totp_secret = None, u_totp_enabled = False, u_public_key = [], u_private_key = [], u_recovery = None, u_avatar = None,
      u_status = ''active'', u_must_change = False, u_last_login = None, u_created = 0, u_updated = 0\<rparr>]\<rparr>,
      t_sessions = [], t_tokens = [], t_shares = []\<rparr>, as_failed = [(''n'', \<lparr>fa_count = 9, fa_last = 0, fa_locked = Some (10 ^ 30)\<rparr>)], as_totp = []\<rparr>"

definition demo_prims :: primitives where
  "demo_prims = \<lparr>p_hmac = (\<lambda>_ _. replicate 32 0), p_sha256 = (\<lambda>_. []), p_sha512 = (\<lambda>_. []), p_hmac_sha1 = (\<lambda>_ _. replicate 20 0),
     p_b32 = (\<lambda>_. Some []), p_mac = (\<lambda>_. []), p_enc = (\<lambda>_. []), p_dec = (\<lambda>_. None)\<rparr>"

theorem login_decides_witness:
  "\<exists>r. fst (Login demo_prims DefaultBruteForceConfig 0 (\<lambda>_. 0) (\<lambda>k. [char_of k]) ''n'' ''pw'' \<lparr>ci_device = [], ci_dtype = [], ci_ip = [], ci_agent = []\<rparr> (login_demo demo_prims)) = Inr r
     \<and> lr_tokens r \<noteq> None"
proof -
  let ?P = demo_prims
  obtain h where h: "HashPassword (p_hmac ?P) (p_sha256 ?P) (p_sha512 ?P) (Some []) ''pw'' = Inr h" by (simp add: HashPassword_def Let_def)
  let ?c = "\<lparr>ci_device = [], ci_dtype = [], ci_ip = [], ci_agent = []\<rparr>"
  have "\<exists>u. GetUserByUsername ''n'' (t_db (as_tabs (login_demo ?P))) = Inr u \<and> u_status u \<notin> {''disabled'', ''locked''}
        \<and> VerifyPassword (p_hmac ?P) (p_sha256 ?P) (p_sha512 ?P) ''pw'' (u_password_hash u) = Inr True
        \<and> \<not> u_must_change u \<and> \<not> (u_totp_enabled u \<and> u_totp_secret u \<noteq> None)"
    using password_verifies [OF h, of "''pw''"] by (simp add: login_demo_def GetUserByUsername_def h)
  then show ?thesis using login_decides [of "login_demo ?P" "\<lambda>k. [char_of k]" ?P DefaultBruteForceConfig 0 "\<lambda>_. 0" "''n''" "''pw''" ?c "[]"]
    by (simp add: login_demo_def)
qed

section \<open>Runs of the service\<close>

text \<open>The service with the session ids that are in tokens it has handed out and the number of identifiers
  generated so far: every generated identifier is new.\<close>

inductive auth_step :: "primitives \<Rightarrow> (nat \<Rightarrow> string) \<Rightarrow> auth_state \<times> string set \<times> nat \<Rightarrow> auth_state \<times> string set \<times> nat \<Rightarrow> bool"
  for P gen where
  as_login: "Login P cfg ttl clk (\<lambda>i. gen (k + i)) nm pw c st = (r, st') \<Longrightarrow>
    auth_step P gen (st, sids, k) (st', (case r of Inl e \<Rightarrow> sids | Inr l \<Rightarrow> if lr_tokens l = None then sids else insert (lr_session l) sids), k + 3)"
| as_second: "LoginWithTOTP P skew ttl clk (\<lambda>i. gen (k + i)) tmp code c st = Returns (r, st') \<Longrightarrow>
    auth_step P gen (st, sids, k) (st', (case r of Inl e \<Rightarrow> sids | Inr l \<Rightarrow> insert (lr_session l) sids), k + 3)"
| as_refresh: "Refresh P ttl clk (\<lambda>i. gen (k + i)) token (as_tabs st) = (r, t') \<Longrightarrow>
    auth_step P gen (st, sids, k) (st\<lparr>as_tabs := t'\<rparr>, (case r of Inl e \<Rightarrow> sids | Inr p \<Rightarrow> insert (gen k) sids), k + 3)"
| as_logout: "Logout sid (as_tabs st) = Inr t' \<Longrightarrow> auth_step P gen (st, sids, k) (st\<lparr>as_tabs := t'\<rparr>, sids, k)"
| as_logout_all: "auth_step P gen (st, sids, k) (st\<lparr>as_tabs := LogoutAll u (as_tabs st)\<rparr>, sids, k)"
| as_expired: "auth_step P gen (st, sids, k) (st\<lparr>as_tabs := snd (CleanupExpiredSessions now (as_tabs st))\<rparr>, sids, k)"
| as_activity: "auth_step P gen (st, sids, k) (st\<lparr>as_tabs := UpdateSessionActivity now sid (as_tabs st)\<rparr>, sids, k)"
| as_delete_user: "DeleteUser u (as_tabs st) = Inr t' \<Longrightarrow> auth_step P gen (st, sids, k) (st\<lparr>as_tabs := t'\<rparr>, sids, k)"
| as_other: "auth_step P gen (st, sids, k) (st\<lparr>as_tabs := (as_tabs st)\<lparr>t_db := d\<rparr>, as_failed := f, as_totp := ts\<rparr>, sids, k)"

inductive auth_run :: "primitives \<Rightarrow> (nat \<Rightarrow> string) \<Rightarrow> auth_state \<times> string set \<times> nat \<Rightarrow> bool" for P gen where
  run_start: "t_sessions (as_tabs st) = [] \<Longrightarrow> auth_run P gen (st, {}, 0)"
| run_step: "auth_run P gen s \<Longrightarrow> auth_step P gen s s' \<Longrightarrow> auth_run P gen s'"

text \<open>No refresh token in a row is a session id in a token.\<close>

definition apart :: "(nat \<Rightarrow> string) \<Rightarrow> tables \<Rightarrow> string set \<Rightarrow> nat \<Rightarrow> bool" where
  "apart gen t sids k \<longleftrightarrow> sids \<subseteq> gen ` {..<k} \<and> (\<forall>s \<in> set (t_sessions t). se_refresh s \<in> gen ` {..<k} - sids)"

lemma apart_fewer: "apart gen t sids k \<Longrightarrow> se_refresh ` set (t_sessions t') \<subseteq> se_refresh ` set (t_sessions t) \<Longrightarrow> k \<le> k' \<Longrightarrow> apart gen t' sids k'"
  unfolding apart_def by (force simp: image_subset_iff)

lemma apart_open:
  assumes "apart gen t sids k" and "inj gen" and "CreateSession (new_session (gen k) u (gen (Suc k)) ttl clk c) t = Inr t'"
  shows "apart gen t' (insert (gen k) sids) (k + 3)"
proof -
  have t': "\<forall>s \<in> set (t_sessions t'). s \<in> set (t_sessions t) \<or> se_refresh s = gen (Suc k)"
    using assms(3) by (auto simp: CreateSession_def split: if_split_asm)
  have new: "gen k \<noteq> gen (Suc k)" "gen j \<noteq> gen k" "gen (Suc k) \<notin> sids" if "j < k" for j
    using assms(1,2) that by (auto simp: apart_def inj_eq)
  have "gen (Suc k) \<notin> sids" "gen k \<noteq> gen (Suc k)" using assms(1,2) by (auto simp: apart_def inj_eq)
  moreover have "se_refresh s \<noteq> gen k" if "s \<in> set (t_sessions t)" for s
    using assms(1,2) that by (fastforce simp: apart_def inj_eq)
  ultimately show ?thesis using assms(1) t' unfolding apart_def by fastforce
qed

lemma apart_open_session:
  assumes "apart gen t sids k" and "inj gen" and "open_session P ttl clk (gen k) (gen (Suc k)) jti u c t = (r, t')"
  shows "apart gen t' (case r of Inl e \<Rightarrow> sids | Inr l \<Rightarrow> if lr_tokens l = None then sids else insert (lr_session l) sids) (k + 3)"
  using open_session_cases [OF assms(3)]
proof
  assume "(\<exists>e. r = Inl (ErrAuth e)) \<and> t' = t \<and> (\<exists>e. CreateSession (new_session (gen k) (u_id u) (gen (Suc k)) ttl clk c) t = Inl e)"
  then show ?thesis using apart_fewer [OF assms(1), of t "k + 3"] by auto
next
  assume "\<exists>t1. CreateSession (new_session (gen k) (u_id u) (gen (Suc k)) ttl clk c) t = Inr t1 \<and> t_sessions t' = t_sessions t1 \<and> t_tokens t' = t_tokens t
        \<and> r = Inr \<lparr>lr_tokens = Some (GenerateTokenPair (p_enc P) (p_mac P) (\<lambda>k. clk (5 + k)) jti (u_id u) (u_username u) [u_role u] (ci_device c) (gen k)),
             lr_session = gen k, lr_requires_totp = False, lr_totp_session = []\<rparr>"
  then obtain t1 where "CreateSession (new_session (gen k) (u_id u) (gen (Suc k)) ttl clk c) t = Inr t1" "t_sessions t' = t_sessions t1"
    "lr_tokens (projr r) \<noteq> None" "lr_session (projr r) = gen k" "r = Inr (projr r)" by fastforce
  with apart_open [OF assms(1,2) this(1)] show ?thesis
    by (cases r) (auto simp: apart_def)
qed

lemma DeleteSession_refreshes: "DeleteSession i t = Inr t' \<Longrightarrow> se_refresh ` set (t_sessions t') \<subseteq> se_refresh ` set (t_sessions t)"
  by (auto simp: DeleteSession_def split: if_split_asm)

lemma auth_step_apart:
  assumes "auth_step P gen s s'" and "inj gen" and "case s of (st, sids, k) \<Rightarrow> apart gen (as_tabs st) sids k"
  shows "case s' of (st, sids, k) \<Rightarrow> apart gen (as_tabs st) sids k"
  using assms
proof cases
  case (as_login cfg ttl clk k nm pw c st r st' sids)
  then have a: "apart gen (as_tabs st) sids k" using assms(3) by simp
  have stay: "apart gen (as_tabs st) sids (k + 3)" using apart_fewer [OF a, of "as_tabs st" "k + 3"] by simp
  show ?thesis
  proof (cases "\<exists>u x. GetUserByUsername nm (t_db (as_tabs st)) = Inr u
      \<and> open_session P ttl clk (gen k) (gen (Suc k)) (gen (k + 2)) u c (as_tabs st) = (r, as_tabs st')")
    case True
    with apart_open_session [OF a assms(2)] as_login(2) show ?thesis by auto
  next
    case False
    with as_login(3) have "as_tabs st' = as_tabs st \<and> (\<forall>l. r = Inr l \<longrightarrow> lr_tokens l = None)"
      by (auto simp: Login_def Let_def split: sum.split_asm if_split_asm prod.split_asm)
    with stay as_login(2) show ?thesis by (auto split: sum.split)
  qed
next
  case (as_second skew ttl clk k tmp code c st r st' sids)
  then have a: "apart gen (as_tabs st) sids k" using assms(3) by simp
  have stay: "apart gen (as_tabs st) sids (k + 3)" using apart_fewer [OF a, of "as_tabs st" "k + 3"] by simp
  show ?thesis
  proof (cases "\<exists>u cl. open_session P ttl cl (gen k) (gen (Suc k)) (gen (k + 2)) u c (as_tabs st) = (r, as_tabs st')")
    case True
    then obtain u cl where o: "open_session P ttl cl (gen k) (gen (Suc k)) (gen (k + 2)) u c (as_tabs st) = (r, as_tabs st')" by blast
    then have "\<forall>l. r = Inr l \<longrightarrow> lr_tokens l \<noteq> None" using open_session_cases by fastforce
    with apart_open_session [OF a assms(2) o] as_second(2) show ?thesis by (auto split: sum.splits)
  next
    case False
    with as_second(3) have "as_tabs st' = as_tabs st \<and> (\<exists>e. r = Inl e)"
      by (auto simp: LoginWithTOTP_def split: sum.split_asm if_split_asm prod.split_asm option.split_asm)
    with stay as_second(2) show ?thesis by auto
  qed
next
  case (as_refresh ttl clk k token st r t' sids)
  then have a: "apart gen (as_tabs st) sids k" using assms(3) by simp
  show ?thesis
  proof (cases "\<exists>t1 u cl c. se_refresh ` set (t_sessions t1) \<subseteq> se_refresh ` set (t_sessions (as_tabs st))
      \<and> CreateSession (new_session (gen k) u (gen (Suc k)) ttl cl c) t1 = Inr t' \<and> (\<exists>p. r = Inr p)")
    case True
    then obtain t1 u cl c where t1: "se_refresh ` set (t_sessions t1) \<subseteq> se_refresh ` set (t_sessions (as_tabs st))"
      "CreateSession (new_session (gen k) u (gen (Suc k)) ttl cl c) t1 = Inr t'" "\<exists>p. r = Inr p" by blast
    from apart_open [OF apart_fewer [OF a t1(1) order_refl] assms(2) t1(2)] t1(3) as_refresh(2) show ?thesis by auto
  next
    case False
    with as_refresh(3) have "se_refresh ` set (t_sessions t') \<subseteq> se_refresh ` set (t_sessions (as_tabs st)) \<and> (\<exists>e. r = Inl e)"
      using DeleteSession_refreshes
      by (fastforce simp: Refresh_def split: sum.split_asm if_split_asm)
    with apart_fewer [OF a, of t' "k + 3"] as_refresh(2) show ?thesis by auto
  qed
next
  case (as_logout sid st t' sids k)
  with DeleteSession_refreshes [of sid "as_tabs st" t'] apart_fewer [of gen "as_tabs st" sids k t' k] assms(3) show ?thesis by (simp add: Logout_def)
next
  case (as_logout_all st sids k u)
  with apart_fewer [of gen "as_tabs st" sids k "LogoutAll u (as_tabs st)" k] assms(3) show ?thesis
    by (auto simp: LogoutAll_def DeleteSessionsByUser_def)
next
  case (as_expired st sids k now)
  with apart_fewer [of gen "as_tabs st" sids k "snd (CleanupExpiredSessions now (as_tabs st))" k] assms(3) show ?thesis
    by (auto simp: CleanupExpiredSessions_def)
next
  case (as_activity st sids k now sid)
  have "se_refresh ` set (t_sessions (UpdateSessionActivity now sid (as_tabs st))) \<subseteq> se_refresh ` set (t_sessions (as_tabs st))"
    by (auto simp: UpdateSessionActivity_def)
  with as_activity apart_fewer [of gen "as_tabs st" sids k "UpdateSessionActivity now sid (as_tabs st)" k] assms(3) show ?thesis by simp
next
  case (as_delete_user u st t' sids k)
  then have "set (t_sessions t') \<subseteq> set (t_sessions (as_tabs st))" by (auto simp: DeleteUser_def Let_def split: if_split_asm)
  with as_delete_user apart_fewer [of gen "as_tabs st" sids k t' k] assms(3) show ?thesis by auto
next
  case (as_other st sids k d f ts)
  with assms(3) show ?thesis by (simp add: apart_def)
qed

lemma auth_run_apart: "auth_run P gen s \<Longrightarrow> inj gen \<Longrightarrow> case s of (st, sids, k) \<Rightarrow> apart gen (as_tabs st) sids k"
proof (induction rule: auth_run.induct)
  case (run_start st)
  then show ?case by (simp add: apart_def)
next
  case (run_step s s')
  with auth_step_apart show ?case by blast
qed

section \<open>Properties of refresh and API tokens\<close>

text \<open>No session is ever refreshed.  Refresh looks for the row whose refresh token equals the session id
  of the token, but rows carry an identifier of their own in that column.  In every state the service
  reaches, when identifiers do not repeat, a token for a session that the service has opened is answered
  with an invalid session (or token), and nothing changes.\<close>

theorem no_session_is_refreshed:
  assumes "auth_run P gen (st, sids, k)" and "inj gen"
    and "\<forall>claims. ValidateRefreshToken (p_dec P) (p_mac P) (clk 0) token = Inr claims \<longrightarrow> rc_session claims \<in> sids"
  shows "Refresh P ttl clk gen' token (as_tabs st) =
    (Inl (case ValidateRefreshToken (p_dec P) (p_mac P) (clk 0) token of Inl e \<Rightarrow> ErrAuth ''invalid refresh token'' | Inr claims \<Rightarrow> ErrInvalidSession),
     as_tabs st)"
proof (cases "ValidateRefreshToken (p_dec P) (p_mac P) (clk 0) token")
  case (Inl e)
  then show ?thesis by (simp add: Refresh_def)
next
  case (Inr claims)
  with auth_run_apart [OF assms(1,2)] assms(3) have "\<forall>s \<in> set (t_sessions (as_tabs st)). se_refresh s \<noteq> rc_session claims"
    by (auto simp: apart_def)
  then have "GetSessionByRefreshToken (rc_session claims) (as_tabs st) = Inl ''session not found''"
    using find_row_None [of "\<lambda>s. se_refresh s = rc_session claims" "t_sessions (as_tabs st)"] by (simp add: GetSessionByRefreshToken_def)
  with Inr show ?thesis by (simp add: Refresh_def)
qed

definition refresh_prims :: primitives where
  "refresh_prims = (let c = refresh_json \<lparr>rc_user = ''u'', rc_device = [], rc_session = replicate 0 CHR ''x'',
       rc_exp = unix_time RefreshTokenTTL, rc_iat = 0, rc_jti = replicate 2 CHR ''x'' @ '':refresh''\<rparr>
     in demo_prims\<lparr>p_enc := (\<lambda>j. if j = c then [1] else []), p_dec := (\<lambda>w. if w = [1] then Some c else None)\<rparr>)"

theorem no_session_is_refreshed_witness:
  "case Login refresh_prims DefaultBruteForceConfig 0 (\<lambda>_. 0) (\<lambda>i. replicate i CHR ''x'') ''n'' ''pw''
       \<lparr>ci_device = [], ci_dtype = [], ci_ip = [], ci_agent = []\<rparr> (login_demo refresh_prims) of
     (Inr l, st) \<Rightarrow> ValidateRefreshToken (p_dec refresh_prims) (p_mac refresh_prims) 0 (tp_refresh (the (lr_tokens l))) \<noteq> Inl ErrInvalidToken
        \<and> fst (Refresh refresh_prims 0 (\<lambda>_. 0) (\<lambda>i. replicate (i + 3) CHR ''x'') (tp_refresh (the (lr_tokens l))) (as_tabs st)) = Inl ErrInvalidSession
   | _ \<Rightarrow> False"
proof -
  let ?P = refresh_prims
  let ?gen = "\<lambda>i. replicate i CHR ''x''"
  let ?c = "\<lparr>ci_device = [], ci_dtype = [], ci_ip = [], ci_agent = []\<rparr>"
  let ?st = "login_demo ?P"
  let ?u = "hd (users (t_db (as_tabs ?st)))"
  obtain h where h: "HashPassword (p_hmac ?P) (p_sha256 ?P) (p_sha512 ?P) (Some []) ''pw'' = Inr h" by (simp add: HashPassword_def Let_def)
  have u: "GetUserByUsername ''n'' (t_db (as_tabs ?st)) = Inr ?u" "u_status ?u = ''active''" "\<not> u_must_change ?u" "\<not> u_totp_enabled ?u"
    "u_id ?u = ''u''" "u_password_hash ?u = h" "t_sessions (as_tabs ?st) = []" "has_user ''u'' (t_db (as_tabs ?st))"
    by (simp_all add: login_demo_def GetUserByUsername_def h has_user_def)
  obtain r t where o: "open_session ?P 0 (\<lambda>_. 0) (?gen 0) (?gen 1) (?gen 2) ?u ?c (as_tabs ?st) = (r, t)" by (metis surj_pair)
  have "\<exists>t1. CreateSession (new_session (?gen 0) (u_id ?u) (?gen 1) 0 (\<lambda>_. 0) ?c) (as_tabs ?st) = Inr t1"
    using u by (intro CreateSession_succeeds) simp_all
  with open_session_cases [OF o] have r: "r = Inr \<lparr>lr_tokens = Some (GenerateTokenPair (p_enc ?P) (p_mac ?P) (\<lambda>k. 0) (?gen 2) ''u'' (u_username ?u)
      [u_role ?u] [] (?gen 0)), lr_session = ?gen 0, lr_requires_totp = False, lr_totp_session = []\<rparr>" using u(5) by auto
  have login: "Login ?P DefaultBruteForceConfig 0 (\<lambda>_. 0) ?gen ''n'' ''pw'' ?c ?st
      = (r, (?st\<lparr>as_failed := clearFailedAttempts ''n'' (as_failed ?st)\<rparr>)\<lparr>as_tabs := t\<rparr>)"
    using u o password_verifies [OF h, of "''pw''"] by (simp add: Login_def del: replicate.simps One_nat_def)
  let ?st' = "(?st\<lparr>as_failed := clearFailedAttempts ''n'' (as_failed ?st)\<rparr>)\<lparr>as_tabs := t\<rparr>"
  let ?tok = "tp_refresh (the (lr_tokens (projr r)))"
  let ?cl = "\<lparr>rc_user = ''u'', rc_device = [], rc_session = replicate 0 CHR ''x'', rc_exp = unix_time RefreshTokenTTL, rc_iat = 0,
     rc_jti = replicate 2 CHR ''x'' @ '':refresh''\<rparr>"
  have tok: "?tok = sign_json (p_enc ?P) (p_mac ?P) (refresh_json ?cl)"
    by (simp add: r GenerateTokenPair_def GenerateRefreshToken_def unix_time_def del: replicate.simps)
  have "p_dec ?P (p_enc ?P (refresh_json ?cl)) = Some (refresh_json ?cl)"
    by (simp add: refresh_prims_def Let_def del: replicate.simps)
  note signed = validate_signed [where dec = "p_dec ?P" and enc = "p_enc ?P" and j = "refresh_json ?cl", OF this, of read_refresh rc_exp "p_mac ?P" 0]
  have val: "ValidateRefreshToken (p_dec ?P) (p_mac ?P) 0 ?tok = Inr ?cl"
    unfolding tok ValidateRefreshToken_def
    using signed read_refresh_refresh [of ?cl] by (simp add: RefreshTokenTTL_def unix_time_def wrap64_def del: replicate.simps)
  have "auth_run ?P ?gen (?st, {}, 0)" by (rule run_start) (rule u(7))
  then have "auth_run ?P ?gen (?st', insert (lr_session (projr r)) {}, 0 + 3)"
  proof (rule run_step)
    have "auth_step ?P ?gen (?st, {}, 0) (?st', (case r of Inl e \<Rightarrow> {} | Inr l \<Rightarrow> if lr_tokens l = None then {} else insert (lr_session l) {}), 0 + 3)"
      by (rule as_login [of ?P DefaultBruteForceConfig 0 "\<lambda>_. 0" ?gen 0 "''n''" "''pw''" ?c]) (use login in simp)
    then show "auth_step ?P ?gen (?st, {}, 0) (?st', insert (lr_session (projr r)) {}, 0 + 3)" by (simp add: r)
  qed
  moreover have "inj ?gen" by (rule injI) (metis length_replicate)
  ultimately have "Refresh ?P 0 (\<lambda>_. 0) (\<lambda>i. ?gen (i + 3)) ?tok (as_tabs ?st') =
    (Inl (case ValidateRefreshToken (p_dec ?P) (p_mac ?P) 0 ?tok of Inl e \<Rightarrow> ErrAuth ''invalid refresh token'' | Inr claims \<Rightarrow> ErrInvalidSession), as_tabs ?st')"
    by (rule no_session_is_refreshed) (use val in \<open>simp add: r\<close>)
  then have "fst (Refresh ?P 0 (\<lambda>_. 0) (\<lambda>i. ?gen (i + 3)) ?tok t) = Inl ErrInvalidSession" using val by simp
  then show ?thesis using val by (simp add: login r del: replicate.simps)
qed

text \<open>No API token can be made.  The generator draws 32 bytes, whose text has 43 characters, and asks for
  at least 45; so every request with a valid name and user and permissions fails, and no token is stored.\<close>

theorem api_tokens_cannot_be_made:
  assumes "rnd = None \<or> length (the rnd) = 32"
  shows "\<exists>e. GenerateToken P tokenID rnd now userID nm permissions t = (Inl e, t)"
proof -
  have "\<exists>e. generateRawToken rnd = Inl e"
    using assms by (auto simp: generateRawToken_def Base64URLEncode_def raw_encode_length APITokenLength_def APITokenPrefix_def Let_def split: option.split)
  then show ?thesis by (auto simp: GenerateToken_def Let_def split: sum.split)
qed

theorem api_tokens_cannot_be_made_witness:
  "\<exists>e. GenerateToken demo_prims ''t'' (Some (replicate 32 7)) 0 ''u'' ''name'' [''file:read:own''] (as_tabs (login_demo demo_prims))
     = (Inl e, as_tabs (login_demo demo_prims))"
  by (rule api_tokens_cannot_be_made) simp

end
