(* ===== verification/Rbac.thy ===== *)
theory Rbac
  imports Auth
begin

text \<open>
  Role-based access control (\<^verbatim>\<open>src/internal/auth/rbac.go\<close>) and the request middleware that
  uses it (\<^verbatim>\<open>src/internal/server/middleware_auth.go\<close>).  A role that is added is not
  shared with its creator afterwards.  A context is the user id and the scope it carries.
\<close>

section \<open>Permissions and roles\<close>

record permission =
  pm_resource :: string
  pm_action :: string
  pm_scope :: string

definition scope_level :: "string \<Rightarrow> nat" where
  "scope_level s = (if s = ''own'' then 1 else if s = ''group'' then 2 else if s = ''all'' then 3 else 0)"

definition Matches :: "permission \<Rightarrow> string \<Rightarrow> string \<Rightarrow> string \<Rightarrow> bool" where
  "Matches p resource action scope \<longleftrightarrow>
     (if pm_resource p \<noteq> resource then False
      else if pm_action p \<noteq> action \<and> pm_action p \<noteq> ''manage'' then False
      else scope_level (pm_scope p) \<ge> scope_level scope)"

record role =
  r_id :: string
  r_name :: string
  r_description :: string
  r_system :: bool
  r_perms :: "permission list"

record rbac =
  rb_roles :: "(string \<times> role) list"
  rb_perms :: "(string \<times> permission list) list"

definition perm :: "string \<Rightarrow> string \<Rightarrow> string \<Rightarrow> permission" where
  "perm r a s = \<lparr>pm_resource = r, pm_action = a, pm_scope = s\<rparr>"

definition seedDefaultRoles :: "(string \<times> role) list \<Rightarrow> (string \<times> role) list" where
  "seedDefaultRoles roles =
     (let adminRole = \<lparr>r_id = ''role_admin'', r_name = ''admin'', r_description = ''Full system access'', r_system = True,
            r_perms = [perm ''file'' ''manage'' ''all'', perm ''folder'' ''manage'' ''all'', perm ''share'' ''manage'' ''all'',
              perm ''user'' ''manage'' ''all'', perm ''system'' ''manage'' ''all'']\<rparr>;
          userRole = \<lparr>r_id = ''role_user'', r_name = ''user'', r_description = ''Standard user access'', r_system = True,
            r_perms = [perm ''file'' ''read'' ''group'', perm ''file'' ''write'' ''own'', perm ''file'' ''delete'' ''own'',
              perm ''folder'' ''read'' ''group'', perm ''folder'' ''write'' ''own'', perm ''folder'' ''delete'' ''own'',
              perm ''share'' ''read'' ''group'', perm ''share'' ''write'' ''own'', perm ''share'' ''delete'' ''own'',
              perm ''user'' ''read'' ''own'', perm ''user'' ''write'' ''own'']\<rparr>;
          guestRole = \<lparr>r_id = ''role_guest'', r_name = ''guest'', r_description = ''Limited read-only access'', r_system = True,
            r_perms = [perm ''file'' ''read'' ''group'', perm ''folder'' ''read'' ''group'']\<rparr>
      in al_put (al_put (al_put roles ''admin'' adminRole) ''user'' userRole) ''guest'' guestRole)"

definition NewRBAC :: rbac where
  "NewRBAC = \<lparr>rb_roles = seedDefaultRoles [], rb_perms = []\<rparr>"

definition GetRole :: "string \<Rightarrow> rbac \<Rightarrow> role option" where
  "GetRole nm rb = al_get (rb_roles rb) nm"

section \<open>Authorization\<close>

datatype rbac_error = ErrPermissionDenied | ErrInvalidResource | ErrRbac string

definition getUserPermissions :: "string \<Rightarrow> database \<Rightarrow> rbac \<Rightarrow> (rbac_error + permission list) \<times> rbac" where
  "getUserPermissions userID d rb =
     (case al_get (rb_perms rb) userID of
        Some cached \<Rightarrow> (Inr cached, rb)
      | None \<Rightarrow>
          (case GetUserByID userID d of
             Inl e \<Rightarrow> (Inl (ErrRbac ''user not found''), rb)
           | Inr u \<Rightarrow>
               (case al_get (rb_roles rb) (u_role u) of
                  None \<Rightarrow> (Inl (ErrRbac ''role not found''), rb)
                | Some role \<Rightarrow> (Inr (r_perms role), rb\<lparr>rb_perms := al_put (rb_perms rb) userID (r_perms role)\<rparr>))))"

definition Authorize :: "string \<Rightarrow> string \<Rightarrow> string \<Rightarrow> string \<Rightarrow> database \<Rightarrow> rbac \<Rightarrow> rbac_error option \<times> rbac" where
  "Authorize userID resource action scope d rb =
     (if resource = [] \<or> action = [] then (Some ErrInvalidResource, rb)
      else (let scope' = (if scope = [] then ''own'' else scope)
            in case getUserPermissions userID d rb of
                 (Inl e, rb') \<Rightarrow> (Some (ErrRbac ''failed to get user permissions''), rb')
               | (Inr permissions, rb') \<Rightarrow>
                   (if \<exists>p \<in> set permissions. Matches p resource action scope' then None else Some ErrPermissionDenied, rb')))"

definition AuthorizeOwn :: "string \<Rightarrow> string \<Rightarrow> string \<Rightarrow> database \<Rightarrow> rbac \<Rightarrow> rbac_error option \<times> rbac" where
  "AuthorizeOwn userID resource action d rb = Authorize userID resource action ''own'' d rb"

definition AuthorizeGroup :: "string \<Rightarrow> string \<Rightarrow> string \<Rightarrow> database \<Rightarrow> rbac \<Rightarrow> rbac_error option \<times> rbac" where
  "AuthorizeGroup userID resource action d rb = Authorize userID resource action ''group'' d rb"

definition AuthorizeAny :: "string \<Rightarrow> string \<Rightarrow> string \<Rightarrow> database \<Rightarrow> rbac \<Rightarrow> rbac_error option \<times> rbac" where
  "AuthorizeAny userID resource action d rb = Authorize userID resource action ''all'' d rb"

definition InvalidateUserCache :: "string \<Rightarrow> rbac \<Rightarrow> rbac" where
  "InvalidateUserCache userID rb = rb\<lparr>rb_perms := al_del (rb_perms rb) userID\<rparr>"

definition InvalidateAllCache :: "rbac \<Rightarrow> rbac" where
  "InvalidateAllCache rb = rb\<lparr>rb_perms := []\<rparr>"

definition HasRole :: "string \<Rightarrow> string \<Rightarrow> database \<Rightarrow> bool result" where
  "HasRole userID roleName d = (case GetUserByID userID d of Inl e \<Rightarrow> Inl e | Inr u \<Rightarrow> Inr (u_role u = roleName))"

definition rbac_IsAdmin :: "string \<Rightarrow> database \<Rightarrow> bool result" where
  "rbac_IsAdmin userID d = HasRole userID ''admin'' d"

definition Can :: "string \<Rightarrow> string \<Rightarrow> string \<Rightarrow> database \<Rightarrow> rbac \<Rightarrow> bool \<times> rbac" where
  "Can userID action resource d rb = (case Authorize userID resource action ''own'' d rb of (e, rb') \<Rightarrow> (e = None, rb'))"

definition CanInScope :: "string \<Rightarrow> string \<Rightarrow> string \<Rightarrow> string \<Rightarrow> database \<Rightarrow> rbac \<Rightarrow> bool \<times> rbac" where
  "CanInScope userID action resource scope d rb = (case Authorize userID resource action scope d rb of (e, rb') \<Rightarrow> (e = None, rb'))"

definition ListPermissions :: "string \<Rightarrow> database \<Rightarrow> rbac \<Rightarrow> (rbac_error + permission list) \<times> rbac" where
  "ListPermissions userID d rb = getUserPermissions userID d rb"

definition AddRole :: "role \<Rightarrow> rbac \<Rightarrow> rbac result" where
  "AddRole r rb =
     (if al_get (rb_roles rb) (r_name r) \<noteq> None then Inl ''role already exists''
      else Inr (rb\<lparr>rb_roles := al_put (rb_roles rb) (r_name r) r\<rparr>))"

definition UpdateRole :: "string \<Rightarrow> permission list \<Rightarrow> rbac \<Rightarrow> rbac result" where
  "UpdateRole roleName permissions rb =
     (case al_get (rb_roles rb) roleName of
        None \<Rightarrow> Inl ''role not found''
      | Some r \<Rightarrow>
          if r_system r then Inl ''cannot modify system role''
          else Inr \<lparr>rb_roles = al_put (rb_roles rb) roleName (r\<lparr>r_perms := permissions\<rparr>), rb_perms = []\<rparr>)"

text \<open>The middlewares: the error, or \<open>None\<close> when the next handler is called.\<close>

definition RequirePermission :: "string \<Rightarrow> string \<Rightarrow> string \<Rightarrow> string \<Rightarrow> database \<Rightarrow> rbac \<Rightarrow> rbac_error option \<times> rbac" where
  "RequirePermission resource action userID scope d rb =
     (if userID = [] then (Some ErrPermissionDenied, rb)
      else Authorize userID resource action (if scope = [] then ''own'' else scope) d rb)"

definition RequireRole :: "string \<Rightarrow> string \<Rightarrow> database \<Rightarrow> rbac_error option" where
  "RequireRole roleName userID d =
     (if userID = [] then Some ErrPermissionDenied
      else case HasRole userID roleName d of
             Inl e \<Rightarrow> Some (ErrRbac e) | Inr has \<Rightarrow> if has then None else Some ErrPermissionDenied)"

definition RequireAdmin :: "string \<Rightarrow> database \<Rightarrow> rbac_error option" where
  "RequireAdmin userID d = RequireRole ''admin'' userID d"

section \<open>Request middleware\<close>

record request_user =
  ru_user :: string
  ru_name :: string
  ru_roles :: "string list"
  ru_device :: string

definition nobody :: request_user where
  "nobody = \<lparr>ru_user = [], ru_name = [], ru_roles = [], ru_device = []\<rparr>"

definition header_token :: "string \<Rightarrow> string \<Rightarrow> string" where
  "header_token prefix authorization = (if has_prefix authorization prefix then drop (length prefix) authorization else [])"

definition extractBearerToken :: "string \<Rightarrow> string" where
  "extractBearerToken authorization = header_token ''Bearer '' authorization"

definition extractAPIToken :: "string \<Rightarrow> string" where
  "extractAPIToken authorization = header_token ''Token '' authorization"

definition Authenticate :: "primitives \<Rightarrow> (nat \<Rightarrow> int) \<Rightarrow> string \<Rightarrow> tables \<Rightarrow> request_user \<times> tables" where
  "Authenticate P clk authorization t =
     (let bearer = extractBearerToken authorization;
          jwt = (if bearer = [] then Inl ErrInvalidToken else ValidateAccessToken (p_dec P) (p_mac P) (clk 0) bearer)
      in case jwt of
           Inr c \<Rightarrow> (\<lparr>ru_user = ac_user c, ru_name = ac_username c, ru_roles = ac_roles c, ru_device = ac_device c\<rparr>, t)
         | Inl _ \<Rightarrow>
             (let api = extractAPIToken authorization
              in if api = [] then (nobody, t)
                 else case ValidateToken P (\<lambda>k. clk (Suc k)) api t of
                        (Inr (u, permissions), t') \<Rightarrow> (\<lparr>ru_user = u_id u, ru_name = u_username u, ru_roles = permissions, ru_device = []\<rparr>, t')
                      | (Inl _, t') \<Rightarrow> (nobody, t')))"

definition RequireAuth :: "request_user \<Rightarrow> (nat \<times> string) option" where
  "RequireAuth ru = (if ru_user ru = [] then Some (401, ''Unauthorized'') else None)"

definition mw_RequirePermission :: "string \<Rightarrow> string \<Rightarrow> string \<Rightarrow> request_user \<Rightarrow> database \<Rightarrow> rbac \<Rightarrow> (nat \<times> string) option \<times> rbac" where
  "mw_RequirePermission resource action queryScope ru d rb =
     (if ru_user ru = [] then (Some (401, ''Unauthorized''), rb)
      else case Authorize (ru_user ru) resource action (if queryScope \<noteq> [] then queryScope else ''own'') d rb of
             (Some e, rb') \<Rightarrow> (Some (403, ''Permission denied''), rb') | (None, rb') \<Rightarrow> (None, rb'))"

definition mw_RequireAdmin :: "request_user \<Rightarrow> database \<Rightarrow> (nat \<times> string) option" where
  "mw_RequireAdmin ru d =
     (if ru_user ru = [] then Some (401, ''Unauthorized'')
      else case rbac_IsAdmin (ru_user ru) d of Inr True \<Rightarrow> None | _ \<Rightarrow> Some (403, ''Admin access required''))"

definition IsAuthenticated :: "request_user \<Rightarrow> bool" where
  "IsAuthenticated ru \<longleftrightarrow> ru_user ru \<noteq> []"

definition mw_IsAdmin :: "request_user \<Rightarrow> bool" where
  "mw_IsAdmin ru \<longleftrightarrow> ''admin'' \<in> set (ru_roles ru)"

section \<open>The cache\<close>

text \<open>Every cached list is the list of the role the user has now.\<close>

definition cache_ok :: "database \<Rightarrow> rbac \<Rightarrow> bool" where
  "cache_ok d rb \<longleftrightarrow> (\<forall>u ps. al_get (rb_perms rb) u = Some ps \<longrightarrow>
     (\<exists>usr r. GetUserByID u d = Inr usr \<and> al_get (rb_roles rb) (u_role usr) = Some r \<and> ps = r_perms r))"

definition allowed :: "database \<Rightarrow> (string \<times> role) list \<Rightarrow> string \<Rightarrow> string \<Rightarrow> string \<Rightarrow> string \<Rightarrow> bool" where
  "allowed d roles u resource action scope \<longleftrightarrow> (\<exists>usr r p. GetUserByID u d = Inr usr \<and> al_get roles (u_role usr) = Some r \<and> p \<in> set (r_perms r)
     \<and> pm_resource p = resource \<and> pm_action p \<in> {action, ''manage''} \<and> scope_level scope \<le> scope_level (pm_scope p))"

inductive rbac_step :: "database \<Rightarrow> rbac \<Rightarrow> rbac \<Rightarrow> bool" for d where
  rs_authorize: "Authorize u res act sc d rb = (e, rb') \<Longrightarrow> rbac_step d rb rb'"
| rs_list: "ListPermissions u d rb = (r, rb') \<Longrightarrow> rbac_step d rb rb'"
| rs_add: "AddRole r rb = Inr rb' \<Longrightarrow> rbac_step d rb rb'"
| rs_update: "UpdateRole nm ps rb = Inr rb' \<Longrightarrow> rbac_step d rb rb'"
| rs_user: "rbac_step d rb (InvalidateUserCache u rb)"
| rs_all: "rbac_step d rb (InvalidateAllCache rb)"

inductive rbac_run :: "database \<Rightarrow> rbac \<Rightarrow> bool" for d where
  rbac_start: "rbac_run d NewRBAC"
| rbac_next: "rbac_run d rb \<Longrightarrow> rbac_step d rb rb' \<Longrightarrow> rbac_run d rb'"

lemma permissions_cases:
  assumes "getUserPermissions u d rb = (r, rb')" and "cache_ok d rb"
  shows "cache_ok d rb' \<and> rb_roles rb' = rb_roles rb
    \<and> (case r of Inl e \<Rightarrow> \<nexists>usr x. GetUserByID u d = Inr usr \<and> al_get (rb_roles rb) (u_role usr) = Some x
       | Inr ps \<Rightarrow> \<exists>usr x. GetUserByID u d = Inr usr \<and> al_get (rb_roles rb) (u_role usr) = Some x \<and> ps = r_perms x)"
  using assms by (auto simp: getUserPermissions_def cache_ok_def al_simps split: option.split_asm sum.split_asm if_split_asm)

lemma authorize_allowed:
  assumes "Authorize u res act sc d rb = (e, rb')" and "cache_ok d rb"
  shows "cache_ok d rb' \<and> rb_roles rb' = rb_roles rb
    \<and> (e = None \<longleftrightarrow> res \<noteq> [] \<and> act \<noteq> [] \<and> allowed d (rb_roles rb) u res act (if sc = [] then ''own'' else sc))"
proof -
  obtain r rb1 where g: "getUserPermissions u d rb = (r, rb1)" by (metis surj_pair)
  note c = permissions_cases [OF g assms(2)]
  show ?thesis
  proof (cases r)
    case (Inl x)
    with g c assms show ?thesis by (auto simp: Authorize_def allowed_def Let_def split: if_split_asm)
  next
    case (Inr ps)
    with g c assms show ?thesis by (auto simp: Authorize_def allowed_def Matches_def Let_def split: if_split_asm)
  qed
qed

lemma rbac_step_ok: "rbac_step d rb rb' \<Longrightarrow> cache_ok d rb \<Longrightarrow> cache_ok d rb'"
proof (induction rule: rbac_step.induct)
  case (rs_authorize u res act sc rb e rb')
  then show ?case using authorize_allowed by blast
next
  case (rs_list u rb r rb')
  then show ?case using permissions_cases by (fastforce simp: ListPermissions_def)
next
  case (rs_add r rb rb')
  then show ?case by (fastforce simp: AddRole_def cache_ok_def al_simps split: if_split_asm)
next
  case (rs_update nm ps rb rb')
  then show ?case by (auto simp: UpdateRole_def cache_ok_def split: option.split_asm if_split_asm)
next
  case (rs_user rb u)
  then show ?case by (auto simp: InvalidateUserCache_def cache_ok_def al_simps split: if_split_asm)
next
  case (rs_all rb)
  then show ?case by (simp add: InvalidateAllCache_def cache_ok_def)
qed

lemma rbac_run_ok: "rbac_run d rb \<Longrightarrow> cache_ok d rb"
proof (induction rule: rbac_run.induct)
  case rbac_start
  show ?case by (simp add: cache_ok_def NewRBAC_def)
next
  case (rbac_next rb rb')
  then show ?case using rbac_step_ok by blast
qed

text \<open>
  The cache does not see the user table: once the permissions of a user are cached, the decision
  is the same whatever the row of the user becomes (a role taken away, the user deleted).
\<close>

lemma cached_user_ignores_database:
  assumes "al_get (rb_perms rb) u = Some ps"
  shows "Authorize u res act sc d rb = Authorize u res act sc d' rb"
    and "getUserPermissions u d rb = (Inr ps, rb)"
  using assms by (simp_all add: Authorize_def getUserPermissions_def)

lemma authorize_caches:
  assumes "Authorize u res act sc d rb = (None, rb')"
  shows "\<exists>ps. al_get (rb_perms rb') u = Some ps \<and> (\<exists>p \<in> set ps. Matches p res act (if sc = [] then ''own'' else sc))"
  using assms by (auto simp: Authorize_def getUserPermissions_def Let_def al_simps
      split: if_split_asm option.split_asm sum.split_asm prod.split_asm)

definition role_demo :: "string \<Rightarrow> database" where
  "role_demo r = empty_db\<lparr>users := [\<lparr>u_id = ''u'', u_username = ''n'', u_email = [], u_display = [], u_password_hash = [],
      u_role = r, u_quota = 0, u_used = 0, u_totp_secret = None, u_totp_enabled = False, u_public_key = [], u_private_key = [],
      u_recovery = None, u_avatar = None, u_status = ''active'', u_must_change = False, u_last_login = None, u_created = 0, u_updated = 0\<rparr>]\<rparr>"

text \<open>C9:
  Authorization decides by the role table.  After any run of the access-control operations over
  a user table that does not change (authorizations, listings, roles added and redefined, caches
  dropped), a request is granted exactly when it names a resource and an action and the role the
  user has now contains a permission for the resource whose action is the requested one or manage
  and whose scope is at least the requested one, own when none is given.  The cache is never
  visible: redefining a role drops every cached list.
\<close>

theorem authorize_decides:
  assumes "rbac_run d rb"
  shows "fst (Authorize u res act sc d rb) = None \<longleftrightarrow>
    res \<noteq> [] \<and> act \<noteq> [] \<and> allowed d (rb_roles rb) u res act (if sc = [] then ''own'' else sc)"
  using authorize_allowed [OF prod.collapse [symmetric] rbac_run_ok [OF assms]] by blast

lemma seeded_roles:
  "al_get (rb_roles NewRBAC) ''admin'' \<noteq> None"
  "perm ''file'' ''manage'' ''all'' \<in> set (r_perms (the (al_get (rb_roles NewRBAC) ''admin'')))"
  "\<forall>p \<in> set (r_perms (the (al_get (rb_roles NewRBAC) ''user''))). pm_scope p \<noteq> ''all''"
  by (simp_all add: NewRBAC_def seedDefaultRoles_def Let_def al_simps perm_def)

theorem authorize_decides_witness:
  "fst (Authorize ''u'' ''file'' ''delete'' ''all'' (role_demo ''admin'') NewRBAC) = None
   \<and> fst (Authorize ''u'' ''file'' ''delete'' ''all'' (role_demo ''user'') NewRBAC) \<noteq> None"
proof -
  have "allowed (role_demo ''admin'') (rb_roles NewRBAC) ''u'' ''file'' ''delete'' ''all''"
    using seeded_roles(1,2) by (fastforce simp: allowed_def role_demo_def GetUserByID_def perm_def scope_level_def)
  moreover have "\<not> allowed (role_demo ''user'') (rb_roles NewRBAC) ''u'' ''file'' ''delete'' ''all''"
    using seeded_roles(3) by (auto simp: allowed_def role_demo_def GetUserByID_def scope_level_def split: if_split_asm)
  ultimately show ?thesis
    using authorize_decides [OF rbac_start, of "''u''" "''file''" "''delete''" "''all''" "role_demo ''admin''"]
      authorize_decides [OF rbac_start, of "''u''" "''file''" "''delete''" "''all''" "role_demo ''user''"] by simp
qed

text \<open>A role that is taken away keeps its rights.  If a request of a user was granted once, the same
  request is granted again over every later user table, without the user's row being read: also
  when the role was changed or the user was deleted in between, because neither
  invalidates the cached permissions.
\<close>

theorem granted_stays_granted:
  assumes "Authorize u res act sc d rb = (None, rb')"
  shows "Authorize u res act sc d' rb' = (None, rb')"
proof -
  from authorize_caches [OF assms] obtain ps p
    where c: "al_get (rb_perms rb') u = Some ps" "p \<in> set ps" "Matches p res act (if sc = [] then ''own'' else sc)" by blast
  have "res \<noteq> [] \<and> act \<noteq> []" using assms by (auto simp: Authorize_def split: if_split_asm)
  with c show ?thesis by (auto simp: Authorize_def getUserPermissions_def Let_def)
qed

theorem granted_stays_granted_witness:
  "\<exists>rb. Authorize ''u'' ''user'' ''write'' ''all'' (role_demo ''admin'') NewRBAC = (None, rb)
     \<and> Authorize ''u'' ''user'' ''write'' ''all'' (role_demo ''guest'') rb = (None, rb)
     \<and> fst (Authorize ''u'' ''user'' ''write'' ''all'' (role_demo ''guest'') NewRBAC) = Some ErrPermissionDenied"
proof -
  have a: "fst (Authorize ''u'' ''user'' ''write'' ''all'' (role_demo ''admin'') NewRBAC) = None"
    by (simp add: Authorize_def getUserPermissions_def role_demo_def GetUserByID_def NewRBAC_def seedDefaultRoles_def Let_def al_simps
        perm_def Matches_def scope_level_def)
  have b: "fst (Authorize ''u'' ''user'' ''write'' ''all'' (role_demo ''guest'') NewRBAC) = Some ErrPermissionDenied"
    by (simp add: Authorize_def getUserPermissions_def role_demo_def GetUserByID_def NewRBAC_def seedDefaultRoles_def Let_def al_simps
        perm_def Matches_def scope_level_def)
  from a obtain rb where rb: "Authorize ''u'' ''user'' ''write'' ''all'' (role_demo ''admin'') NewRBAC = (None, rb)"
    by (metis prod.collapse)
  show ?thesis using granted_stays_granted [OF rb, of "role_demo ''guest''"] rb b by blast
qed

end
