(* ===== verification/Http.thy ===== *)
theory Http
  imports Prelude
begin

text \<open>
  Replies of request handlers (\<^verbatim>\<open>src/internal/server/context.go\<close>, \<^verbatim>\<open>helpers.go\<close>).  A reply is a
  status, the headers the handler set and a body.  Bodies that the code encodes as JSON are kept
  as the value that is encoded.  A short answer is used by the handlers that set no headers.
\<close>

section \<open>Short answers\<close>

datatype 'a answer = Refused nat string | Answered nat 'a

fun answer_status :: "'a answer \<Rightarrow> nat" where
  "answer_status (Refused n e) = n"
| "answer_status (Answered n x) = n"

definition unauthorized :: "'a answer" where
  "unauthorized = Refused 401 ''Unauthorized''"

definition internal_error :: "'a answer" where
  "internal_error = Refused 500 ''Internal server error''"

section \<open>Replies with headers\<close>

type_synonym headers = "(string \<times> string) list"

datatype 'a body = ErrorBody string | TextBody string | JsonBody 'a | BytesBody "byte list" | NoBody

record 'a reply =
  rp_status :: nat
  rp_headers :: headers
  rp_body :: "'a body"

definition JSONResponse :: "headers \<Rightarrow> nat \<Rightarrow> 'a \<Rightarrow> 'a reply" where
  "JSONResponse hs n x = \<lparr>rp_status = n, rp_headers = al_put hs ''Content-Type'' ''application/json'', rp_body = JsonBody x\<rparr>"

definition ErrorResponse :: "headers \<Rightarrow> nat \<Rightarrow> string \<Rightarrow> 'a reply" where
  "ErrorResponse hs n e = \<lparr>rp_status = n, rp_headers = al_put hs ''Content-Type'' ''application/json'', rp_body = ErrorBody e\<rparr>"

definition SuccessResponse :: "headers \<Rightarrow> 'a \<Rightarrow> 'a reply" where
  "SuccessResponse hs x = JSONResponse hs 200 x"

text \<open>\<^verbatim>\<open>http.Error\<close> drops the length the handler has announced.\<close>

definition http_Error :: "headers \<Rightarrow> nat \<Rightarrow> string \<Rightarrow> 'a reply" where
  "http_Error hs n e = \<lparr>rp_status = n,
     rp_headers = al_put (al_del hs ''Content-Length'') ''Content-Type'' ''text/plain; charset=utf-8'', rp_body = TextBody e\<rparr>"

section \<open>helpers.go\<close>

text \<open>The characters stand for the runes up to 255.\<close>

definition sanitize_char :: "char \<Rightarrow> char" where
  "sanitize_char r =
     (let n = (of_char r :: nat)
      in if n < 32 then CHR ''_''
         else if n = 34 then CHR 0x27
         else if r = CHR 0x5C \<or> r = CHR ''/'' then CHR ''_''
         else if 127 \<le> n \<and> n < 160 then CHR ''_''
         else r)"

definition sanitizeFilename :: "string \<Rightarrow> string" where
  "sanitizeFilename nm = map sanitize_char nm"

text \<open>A sanitized name cannot close the quotes of the header or start a new line, and names no other directory.\<close>

lemma sanitize_char_safe:
  "of_char (sanitize_char c) \<ge> (32 :: nat) \<and> of_char (sanitize_char c) \<noteq> (34 :: nat) \<and> sanitize_char c \<noteq> CHR ''/'' \<and> sanitize_char c \<noteq> CHR 0x5C"
proof -
  have "of_char c \<noteq> (34 :: nat) \<Longrightarrow> of_char c \<ge> (32 :: nat) \<Longrightarrow> ?thesis"
    by (auto simp: sanitize_char_def Let_def)
  then show ?thesis by (auto simp: sanitize_char_def Let_def)
qed

lemma sanitizeFilename_safe:
  assumes "c \<in> set (sanitizeFilename nm)"
  shows "of_char c \<ge> (32 :: nat)" "of_char c \<noteq> (34 :: nat)" "c \<noteq> CHR ''/''" "c \<noteq> CHR 0x5C"
  using assms sanitize_char_safe by (auto simp: sanitizeFilename_def)

section \<open>Slices\<close>

text \<open>\<^verbatim>\<open>data[a:b]\<close> panics when the bounds cross.\<close>

definition go_slice :: "int \<Rightarrow> int \<Rightarrow> 'a list \<Rightarrow> 'a list outcome" where
  "go_slice a b xs = (if 0 \<le> a \<and> a \<le> b \<and> b \<le> int (length xs) then Returns (take (nat (b - a)) (drop (nat a) xs)) else Panics)"

text \<open>The bytes from \<open>start\<close> to \<open>stop\<close>, both included.\<close>

definition byte_range :: "int \<Rightarrow> int \<Rightarrow> 'a list \<Rightarrow> 'a list" where
  "byte_range start stop xs = take (nat (stop + 1) - nat start) (drop (nat start) xs)"

lemma length_byte_range: "0 \<le> start \<Longrightarrow> start \<le> stop \<Longrightarrow> stop < int (length xs) \<Longrightarrow> int (length (byte_range start stop xs)) = stop - start + 1"
  by (simp add: byte_range_def)

section \<open>Numbers in headers\<close>

lemma of_char_digit:
  assumes "k < 10"
  shows "of_char (char_of (48 + k)) = (48 + int k)"
proof -
  have "(of_char (char_of (48 + k)) :: int) = int (of_char (char_of (48 + k)))" by (simp only: of_nat_of_char)
  also have "\<dots> = 48 + int k" using assms by simp
  finally show ?thesis .
qed

lemma dec_nat_digits: "c \<in> set (dec_nat n) \<Longrightarrow> is_digit c"
proof (induction n rule: dec_nat.induct)
  case (1 n)
  show ?case
  proof (cases "n < 10")
    case True
    then have "dec_nat n = [char_of (48 + n)]" by (subst dec_nat.simps) simp
    then show ?thesis using "1.prems" True by (auto simp: is_digit_def)
  next
    case False
    then have "set (dec_nat n) = insert (char_of (48 + n mod 10)) (set (dec_nat (n div 10)))" by (subst dec_nat.simps) simp
    then show ?thesis using "1" False by (auto simp: is_digit_def)
  qed
qed

lemma dec_nat_nonempty [simp]: "dec_nat n \<noteq> []"
  by (subst dec_nat.simps) simp

lemma digits_value_snoc: "digits_value (s @ [c]) = digits_value s * 10 + (of_char c - 48)"
  by (simp add: digits_value_def)

lemma digits_value_dec_nat: "digits_value (dec_nat n) = int n"
proof (induction n rule: dec_nat.induct)
  case (1 n)
  have digit: "digits_value (s @ [char_of (48 + k)]) = digits_value s * 10 + int k" if "k < 10" for s and k :: nat
    using of_char_digit [OF that] by (simp only: digits_value_snoc)
  show ?case
  proof (cases "n < 10")
    case True
    with digit [of n "[]"] show ?thesis by (subst dec_nat.simps) (simp add: digits_value_def)
  next
    case False
    have "int (n div 10) * 10 + int (n mod 10) = int n" by presburger
    with False "1" digit [of "n mod 10" "dec_nat (n div 10)"] show ?thesis by (subst dec_nat.simps) (simp del: dec_nat.simps)
  qed
qed

lemma atoi_dec_nat: "int n < 2 ^ 63 \<Longrightarrow> atoi (dec_nat n) = Some (int n)"
proof -
  assume n: "int n < 2 ^ 63"
  obtain c cs where c: "dec_nat n = c # cs" by (cases "dec_nat n") auto
  then have "is_digit c" using dec_nat_digits [of c n] by simp
  then have "c \<noteq> CHR ''-''" "c \<noteq> CHR ''+''" by (auto simp: is_digit_def)
  then have sign: "\<not> has_prefix (dec_nat n) ''-''" "\<not> has_prefix (dec_nat n) ''+''" by (auto simp: c)
  have "wrap64 (int n) = int n" using n by (intro wrap64_id) auto
  then show ?thesis using sign dec_nat_digits by (auto simp: atoi_def digits_value_dec_nat Let_def simp del: dec_nat.simps)
qed

lemma atoi_dec_int: "0 \<le> i \<Longrightarrow> i < 2 ^ 63 \<Longrightarrow> atoi (dec_int i) = Some i"
  using atoi_dec_nat [of "nat i"] by (simp add: dec_int_def del: dec_nat.simps)

lemma dec_int_digits: "0 \<le> i \<Longrightarrow> c \<in> set (dec_int i) \<Longrightarrow> is_digit c"
  using dec_nat_digits by (simp add: dec_int_def del: dec_nat.simps)

lemma dec_int_nonempty [simp]: "dec_int i \<noteq> []"
  by (simp add: dec_int_def del: dec_nat.simps)

lemma dec_int_plain: "0 \<le> i \<Longrightarrow> CHR ''-'' \<notin> set (dec_int i)" "0 \<le> i \<Longrightarrow> CHR '','' \<notin> set (dec_int i)"
  using dec_int_digits [of i "CHR ''-''"] dec_int_digits [of i "CHR '',''"] by (auto simp: is_digit_def)

end
