(* ===== verification/Download.thy ===== *)
theory Download
  imports Http Encrypted Vfs
begin

text \<open>
  Downloads of a user's own files (\<^verbatim>\<open>src/internal/server/handlers_download.go\<close>): whole files, byte
  ranges, streams, single chunks.  A request carries the authenticated user, the path values and
  the two headers the code reads; an absent header is the empty string.  \<open>writes i\<close> is \<open>None\<close> when
  the i-th write to the client succeeds and otherwise the number of bytes sent before its error.
  \<open>httime\<close> prints a time in the format of the Last-Modified header.
\<close>

section \<open>Sending chunks\<close>

fun send_chunks :: "'b backend \<Rightarrow> (nat \<Rightarrow> nat option) \<Rightarrow> nat \<Rightarrow> string list \<Rightarrow> byte list \<times> 'b \<Rightarrow> string option \<times> byte list \<times> 'b" where
  "send_chunks B writes i [] (out, b) = (None, out, b)"
| "send_chunks B writes i (h # hs) (out, b) =
     (case be_get B h b of
        (Inl e, b') \<Rightarrow> (Some ''failed to get chunk'', out, b')
      | (Inr w, b') \<Rightarrow>
          (case writes i of
             Some k \<Rightarrow> (Some ''failed to write chunk'', out @ take k w, b')
           | None \<Rightarrow> send_chunks B writes (Suc i) hs (out @ w, b')))"

definition streamContent :: "'b backend \<Rightarrow> (nat \<Rightarrow> nat option) \<Rightarrow> manifest \<Rightarrow> 'b \<Rightarrow> string option \<times> byte list \<times> 'b" where
  "streamContent B writes m b = send_chunks B writes 0 (m_chunks m) ([], b)"

text \<open>
  The loop over the chunks of a range: the offset of the chunk, the bytes sent so far, the output
  and the backend.  \<open>rd\<close> fetches the plain bytes of a chunk.
\<close>

fun range_loop :: "(string \<Rightarrow> 'b \<Rightarrow> byte list result \<times> 'b) \<Rightarrow> (nat \<Rightarrow> nat option) \<Rightarrow> nat \<Rightarrow> int \<Rightarrow> int \<Rightarrow> int \<Rightarrow> string list
    \<Rightarrow> int \<times> int \<times> byte list \<times> 'b \<Rightarrow> string option outcome \<times> byte list \<times> 'b" where
  "range_loop rd writes i start stop target [] (off, n, out, b) = (Returns None, out, b)"
| "range_loop rd writes i start stop target (h # hs) (off, n, out, b) =
     (case rd h b of
        (Inl e, b') \<Rightarrow> (Returns (Some e), out, b')
      | (Inr w, b') \<Rightarrow>
          (let chunkEnd = off + int (length w)
           in if chunkEnd \<le> start \<or> off \<ge> stop + 1 then range_loop rd writes i start stop target hs (chunkEnd, n, out, b')
              else (case go_slice (if off < start then start - off else 0)
                            (if chunkEnd > stop + 1 then stop - off + 1 else int (length w)) w of
                      Returns s \<Rightarrow>
                        (case writes i of
                           Some k \<Rightarrow> (Returns (Some ''failed to write chunk data''), out @ take k s, b')
                         | None \<Rightarrow> (let n' = n + int (length s)
                              in if n' \<ge> target then (Returns None, out @ s, b')
                                 else range_loop rd writes (Suc i) start stop target hs (chunkEnd, n', out @ s, b')))
                    | _ \<Rightarrow> (Panics, out, b'))))"

definition read_plain :: "'b backend \<Rightarrow> string \<Rightarrow> 'b \<Rightarrow> byte list result \<times> 'b" where
  "read_plain B h b = (case be_get B h b of (Inl e, b') \<Rightarrow> (Inl ''failed to get chunk'', b') | (Inr w, b') \<Rightarrow> (Inr w, b'))"

definition read_decrypted :: "(byte list \<Rightarrow> byte list \<Rightarrow> byte list \<Rightarrow> byte list option) \<Rightarrow> 'b backend \<Rightarrow> byte list \<Rightarrow> string \<Rightarrow> 'b
    \<Rightarrow> byte list result \<times> 'b" where
  "read_decrypted unseal B fileKey h b =
     (case be_get B h b of
        (Inl e, b') \<Rightarrow> (Inl ''failed to get chunk'', b')
      | (Inr c, b') \<Rightarrow> (case Decrypt unseal c fileKey of Inl e \<Rightarrow> (Inl ''failed to decrypt chunk'', b') | Inr w \<Rightarrow> (Inr w, b')))"

definition streamRange :: "'b backend \<Rightarrow> (nat \<Rightarrow> nat option) \<Rightarrow> manifest \<Rightarrow> int \<Rightarrow> int \<Rightarrow> 'b \<Rightarrow> string option outcome \<times> byte list \<times> 'b" where
  "streamRange B writes m start stop b =
     range_loop (read_plain B) writes 0 start stop (wrap64 (stop - start + 1)) (m_chunks m) (0, 0, [], b)"

section \<open>Keys\<close>

definition canDecrypt :: "byte list option \<Rightarrow> file_row \<Rightarrow> bool" where
  "canDecrypt masterKey f \<longleftrightarrow> (if \<not> f_encrypted f then True else masterKey \<noteq> None \<and> f_key f \<noteq> [])"

definition unwrapFileKey :: "(byte list \<Rightarrow> byte list \<Rightarrow> byte list \<Rightarrow> byte list option) \<Rightarrow> byte list option \<Rightarrow> file_row \<Rightarrow> byte list result" where
  "unwrapFileKey unseal masterKey f =
     (if \<not> f_encrypted f then Inr []
      else case masterKey of
             None \<Rightarrow> Inl ''no master key available for decryption''
           | Some k \<Rightarrow> if f_key f = [] then Inl ''file has no encrypted key'' else UnwrapFileKey unseal (f_key f) k)"

text \<open>Sizes come from the chunk table; an unknown chunk has size 0.\<close>

fun convert_chunks :: "database \<Rightarrow> int \<Rightarrow> string list \<Rightarrow> chunk_info list" where
  "convert_chunks d off [] = []"
| "convert_chunks d off (h # hs) =
     (let sz = (case GetChunk h d of Inl e \<Rightarrow> 0 | Inr c \<Rightarrow> c_size c)
      in \<lparr>ci_hash = h, ci_offset = off, ci_size = sz\<rparr> # convert_chunks d (wrap64 (off + sz)) hs)"

definition convertManifest :: "database \<Rightarrow> manifest \<Rightarrow> manifest_doc" where
  "convertManifest d m = \<lparr>md_id = m_id m, md_file_id = m_file m, md_version = m_version m, md_size = m_size m,
     md_chunks = convert_chunks d 0 (m_chunks m), md_checksum = m_checksum m, md_device_id = m_device m, md_created_at = m_created m\<rparr>"

definition streamDecryptedContent :: "(byte list \<Rightarrow> byte list \<Rightarrow> byte list \<Rightarrow> byte list option) \<Rightarrow> 'b backend \<Rightarrow> (nat \<Rightarrow> nat option)
    \<Rightarrow> byte list option \<Rightarrow> database \<Rightarrow> manifest \<Rightarrow> file_row \<Rightarrow> 'b \<Rightarrow> string option \<times> byte list \<times> 'b" where
  "streamDecryptedContent unseal B writes masterKey d m f b =
     (case unwrapFileKey unseal masterKey f of
        Inl e \<Rightarrow> (Some e, [], b)
      | Inr fileKey \<Rightarrow> ReassembleDecrypt unseal B writes (convertManifest d m) fileKey b)"

definition streamDecryptedRange :: "(byte list \<Rightarrow> byte list \<Rightarrow> byte list \<Rightarrow> byte list option) \<Rightarrow> 'b backend \<Rightarrow> (nat \<Rightarrow> nat option)
    \<Rightarrow> byte list option \<Rightarrow> manifest \<Rightarrow> file_row \<Rightarrow> int \<Rightarrow> int \<Rightarrow> 'b \<Rightarrow> string option outcome \<times> byte list \<times> 'b" where
  "streamDecryptedRange unseal B writes masterKey m f start stop b =
     (case unwrapFileKey unseal masterKey f of
        Inl e \<Rightarrow> (Returns (Some e), [], b)
      | Inr fileKey \<Rightarrow> range_loop (read_decrypted unseal B fileKey) writes 0 start stop (wrap64 (stop - start + 1)) (m_chunks m) (0, 0, [], b))"

section \<open>Range headers\<close>

text \<open>The range a header asks for, or the message of the error.\<close>

definition range_of :: "int \<Rightarrow> string \<Rightarrow> (int \<times> int) result" where
  "range_of sz rangeHeader =
     (if \<not> has_prefix rangeHeader ''bytes='' then Inl ''Invalid Range header''
      else (let ranges = split_on CHR '','' (trim_prefix rangeHeader ''bytes='')
            in if length ranges > 1 then Inl ''Multiple ranges not supported''
               else case split_on CHR ''-'' (hd ranges) of
                      [a, z] \<Rightarrow>
                        if a = [] then (case atoi z of
                            None \<Rightarrow> Inl ''Invalid Range suffix''
                          | Some lst \<Rightarrow> (let start = wrap64 (sz - lst) in Inr (if start < 0 then 0 else start, sz - 1)))
                        else (case atoi a of
                            None \<Rightarrow> Inl ''Invalid Range start''
                          | Some start \<Rightarrow>
                              if z = [] then Inr (start, sz - 1)
                              else (case atoi z of None \<Rightarrow> Inl ''Invalid Range end'' | Some stop \<Rightarrow> Inr (start, stop)))
                    | _ \<Rightarrow> Inl ''Invalid Range format''))"

definition checked_range :: "int \<Rightarrow> string \<Rightarrow> (int \<times> int) result" where
  "checked_range sz rangeHeader =
     (case range_of sz rangeHeader of
        Inl e \<Rightarrow> Inl e
      | Inr (start, stop) \<Rightarrow>
          if start < 0 \<or> start \<ge> sz \<or> start > stop then Inl ''Range not satisfiable''
          else Inr (start, if stop \<ge> sz then sz - 1 else stop))"

section \<open>Requests\<close>

record download_env =
  de_master :: "byte list option"
  de_unseal :: "byte list \<Rightarrow> byte list \<Rightarrow> byte list \<Rightarrow> byte list option"
  de_writes :: "nat \<Rightarrow> nat option"
  de_time :: "int \<Rightarrow> string"

record download_request =
  dr_user :: string
  dr_file :: string
  dr_range :: string
  dr_match :: string

datatype download_info = ClientSide "string list" int nat
  | ChunksInfo string string int string bool "string list" nat "string option"

definition quoted :: "string \<Rightarrow> string" where
  "quoted s = [CHR 0x22] @ s @ [CHR 0x22]"

definition disposition :: "string \<Rightarrow> file_row \<Rightarrow> string" where
  "disposition kind f = kind @ ''; filename='' @ quoted (sanitizeFilename (f_name f))"

definition content_headers :: "string \<Rightarrow> file_row \<Rightarrow> headers \<Rightarrow> headers" where
  "content_headers kind f hs =
     al_put (al_put (al_put (al_put hs ''Content-Type'' (f_mime f)) ''Content-Length'' (dec_int (f_size f)))
       ''Content-Disposition'' (disposition kind f)) ''Accept-Ranges'' ''bytes''"

definition sent :: "nat \<Rightarrow> headers \<Rightarrow> string option \<times> byte list \<times> 'b \<Rightarrow> 'a reply \<times> 'b" where
  "sent n hs r = (case r of (e, out, b) \<Rightarrow> (\<lparr>rp_status = n, rp_headers = hs, rp_body = BytesBody out\<rparr>, b))"

definition sent_range :: "headers \<Rightarrow> string option outcome \<times> byte list \<times> 'b \<Rightarrow> 'a reply outcome \<times> 'b" where
  "sent_range hs r = (case r of (o', out, b) \<Rightarrow> (obind o' (\<lambda>e. Returns \<lparr>rp_status = 206, rp_headers = hs, rp_body = BytesBody out\<rparr>), b))"

definition on_time :: "'a \<times> 'b \<Rightarrow> 'a outcome \<times> 'b" where
  "on_time r = (Returns (fst r), snd r)"

definition stream_all :: "download_env \<Rightarrow> 'b backend \<Rightarrow> database \<Rightarrow> file_row \<Rightarrow> manifest \<Rightarrow> 'b \<Rightarrow> string option \<times> byte list \<times> 'b" where
  "stream_all E B d f m b =
     (if f_encrypted f then streamDecryptedContent (de_unseal E) B (de_writes E) (de_master E) d m f b
      else streamContent B (de_writes E) m b)"

definition handleFullDownload :: "download_env \<Rightarrow> 'b backend \<Rightarrow> database \<Rightarrow> string \<Rightarrow> file_row \<Rightarrow> manifest \<Rightarrow> 'b \<Rightarrow> download_info reply \<times> 'b" where
  "handleFullDownload E B d ifNoneMatch f m b =
     (let h1 = al_put (content_headers ''attachment'' f []) ''Last-Modified'' (de_time E (f_updated f));
          h2 = (case f_checksum f of None \<Rightarrow> h1 | Some c \<Rightarrow> al_put h1 ''ETag'' (quoted c))
      in if (\<exists>c. f_checksum f = Some c \<and> ifNoneMatch \<noteq> [] \<and> ifNoneMatch = quoted c)
         then (\<lparr>rp_status = 304, rp_headers = h2, rp_body = NoBody\<rparr>, b)
         else if f_encrypted f \<and> \<not> canDecrypt (de_master E) f
         then (JSONResponse h2 200 (ClientSide (m_chunks m) (f_size f) (length (m_chunks m))), b)
         else sent 200 h2 (stream_all E B d f m b))"

definition handleRangeRequest :: "download_env \<Rightarrow> 'b backend \<Rightarrow> headers \<Rightarrow> string \<Rightarrow> file_row \<Rightarrow> manifest \<Rightarrow> 'b \<Rightarrow> download_info reply outcome \<times> 'b" where
  "handleRangeRequest E B hs rangeHeader f m b =
     (case checked_range (f_size f) rangeHeader of
        Inl e \<Rightarrow> (Returns (ErrorResponse hs 416 e), b)
      | Inr (start, stop) \<Rightarrow>
          if f_encrypted f \<and> \<not> canDecrypt (de_master E) f
          then (Returns (ErrorResponse hs 501 ''Range requests not supported for zero-knowledge encrypted files''), b)
          else (let h1 = al_put (al_put (al_put (al_put (al_put hs ''Content-Type'' (f_mime f)) ''Content-Length'' (dec_int (stop - start + 1)))
                    ''Content-Range'' (''bytes '' @ dec_int start @ ''-'' @ dec_int stop @ ''/'' @ dec_int (f_size f)))
                    ''Accept-Ranges'' ''bytes'') ''Content-Disposition'' (disposition ''attachment'' f)
                in sent_range h1 (if f_encrypted f then streamDecryptedRange (de_unseal E) B (de_writes E) (de_master E) m f start stop b
                          else streamRange B (de_writes E) m start stop b)))"

text \<open>The checks the requests share: the file and its manifest, or the error.\<close>

definition readable_file :: "string \<Rightarrow> string \<Rightarrow> database \<Rightarrow> (nat \<times> string) + file_row \<times> manifest" where
  "readable_file userID fileID d =
     (if userID = [] then Inl (401, ''Unauthorized'')
      else if fileID = [] then Inl (400, ''File ID required'')
      else case GetFile fileID d of
             Inl e \<Rightarrow> if e = ErrNotFound then Inl (404, ''File not found'') else Inl (500, ''Internal server error'')
           | Inr f \<Rightarrow>
               if f_user f \<noteq> userID then Inl (403, ''Access denied'')
               else if f_type f \<noteq> ''file'' then Inl (400, ''Not a file'')
               else case f_manifest f of
                      None \<Rightarrow> Inl (400, ''File has no content'')
                    | Some i \<Rightarrow> if i = [] then Inl (400, ''File has no content'')
                        else case GetManifest i d of
                               Inl e \<Rightarrow> Inl (500, ''Failed to get file manifest'') | Inr m \<Rightarrow> Inr (f, m))"

definition downloadFile :: "download_env \<Rightarrow> 'b backend \<Rightarrow> download_request \<Rightarrow> database \<Rightarrow> 'b \<Rightarrow> download_info reply outcome \<times> 'b" where
  "downloadFile E B r d b =
     (case readable_file (dr_user r) (dr_file r) d of
        Inl (n, e) \<Rightarrow> (Returns (ErrorResponse [] n e), b)
      | Inr (f, m) \<Rightarrow>
          if dr_range r \<noteq> [] then handleRangeRequest E B [] (dr_range r) f m b
          else on_time (handleFullDownload E B d (dr_match r) f m b))"

definition streamFile :: "download_env \<Rightarrow> 'b backend \<Rightarrow> download_request \<Rightarrow> database \<Rightarrow> 'b \<Rightarrow> download_info reply outcome \<times> 'b" where
  "streamFile E B r d b =
     (case readable_file (dr_user r) (dr_file r) d of
        Inl (n, e) \<Rightarrow> (Returns (ErrorResponse [] n e), b)
      | Inr (f, m) \<Rightarrow>
          (let hs = content_headers ''inline'' f []
           in if dr_range r \<noteq> [] then handleRangeRequest E B hs (dr_range r) f m b
              else on_time (sent 200 hs (stream_all E B d f m b))))"

definition getChunksInfo :: "download_request \<Rightarrow> database \<Rightarrow> download_info reply" where
  "getChunksInfo r d =
     (case readable_file (dr_user r) (dr_file r) d of
        Inl (n, e) \<Rightarrow> ErrorResponse [] n e
      | Inr (f, m) \<Rightarrow> SuccessResponse [] (ChunksInfo (f_id f) (f_name f) (f_size f) (f_mime f) (f_encrypted f) (m_chunks m)
          (length (m_chunks m)) (f_checksum f)))"

definition downloadChunk :: "download_env \<Rightarrow> 'b backend \<Rightarrow> string \<Rightarrow> string \<Rightarrow> string \<Rightarrow> database \<Rightarrow> 'b \<Rightarrow> download_info reply \<times> 'b" where
  "downloadChunk E B userID fileID chunkHash d b =
     (if userID = [] then (ErrorResponse [] 401 ''Unauthorized'', b)
      else if fileID = [] \<or> chunkHash = [] then (ErrorResponse [] 400 ''File ID and chunk hash required'', b)
      else case GetFile fileID d of
             Inl e \<Rightarrow> (if e = ErrNotFound then ErrorResponse [] 404 ''File not found'' else ErrorResponse [] 500 ''Internal server error'', b)
           | Inr f \<Rightarrow>
               if f_user f \<noteq> userID then (ErrorResponse [] 403 ''Access denied'', b)
               else case f_manifest f of
                      None \<Rightarrow> (ErrorResponse [] 400 ''File has no content'', b)
                    | Some i \<Rightarrow> if i = [] then (ErrorResponse [] 400 ''File has no content'', b)
                        else case GetManifest i d of
                               Inl e \<Rightarrow> (ErrorResponse [] 500 ''Failed to get file manifest'', b)
                             | Inr m \<Rightarrow>
                                 if chunkHash \<notin> set (m_chunks m) then (ErrorResponse [] 403 ''Chunk does not belong to this file'', b)
                                 else case be_get B chunkHash b of
                                        (Inl e, b') \<Rightarrow> (ErrorResponse [] 500 ''Failed to get chunk'', b')
                                      | (Inr w, b') \<Rightarrow>
                                          sent 200 [(''Content-Type'', ''application/octet-stream''), (''Content-Length'', dec_nat (length w)),
                                            (''X-Chunk-Hash'', chunkHash), (''Cache-Control'', ''public, max-age=31536000, immutable'')]
                                            (case de_writes E 0 of None \<Rightarrow> (None, w, b') | Some k \<Rightarrow> (Some ''write error'', take k w, b')))"

section \<open>Ranges\<close>

text \<open>When the chunks can be read, the loop sends the requested bytes of their concatenation.\<close>

lemma int_length_byte_range:
  assumes "0 \<le> a"
  shows "int (length (byte_range a z w)) = max 0 (min (z + 1) (int (length w)) - a)"
proof -
  from assms obtain k where a: "a = int k" using nonneg_eq_int by blast
  show ?thesis
  proof (cases "0 \<le> z + 1")
    case True
    then obtain j where "z + 1 = int j" using nonneg_eq_int by blast
    then show ?thesis by (auto simp: byte_range_def a min_def max_def of_nat_diff)
  qed (simp add: byte_range_def a)
qed

lemma shifted_interval: "max 0 (min (b - c + 1) (int k) - max 0 (a - c)) = max 0 (min (b + 1) (c + int k) - max c (a :: int))"
  by (auto simp: max_def min_def)

lemma grown_interval:
  fixes s0 :: int
  assumes "0 \<le> s0" "s0 \<le> b" "0 \<le> c" "c \<le> e" "s0 \<le> e" "c \<le> b"
  shows "max 0 (min c (b + 1) - s0) + max 0 (min (b + 1) e - max c s0) = max 0 (min e (b + 1) - s0)"
  using assms by (auto simp: max_def min_def)

lemma slice_piece:
  assumes "start \<le> stop" and "off \<le> stop" and "start < off + int (length w)"
  shows "go_slice (if off < start then start - off else 0) (if off + int (length w) > stop + 1 then stop - off + 1 else int (length w)) w
    = Returns (byte_range (max 0 (start - off)) (stop - off) w)"
  using assms by (auto simp: go_slice_def byte_range_def nat_diff_distrib)

lemma byte_range_append:
  assumes "0 \<le> a"
  shows "byte_range a z (w @ v) = byte_range a z w @ byte_range (max 0 (a - int (length w))) (z - int (length w)) v"
proof -
  have "nat (z + 1) - (nat a + (length w - nat a)) = nat (z - int (length w) + 1) - (nat a - length w)" by arith
  moreover have "nat (max 0 (a - int (length w))) = nat a - length w" using assms by auto
  ultimately show ?thesis by (simp add: byte_range_def)
qed

text \<open>\<open>rd\<close> reads the chunks \<open>hs\<close> as \<open>ws\<close> and keeps \<open>I\<close>.\<close>

definition reads :: "('b \<Rightarrow> bool) \<Rightarrow> (string \<Rightarrow> 'b \<Rightarrow> byte list result \<times> 'b) \<Rightarrow> string list \<Rightarrow> byte list list \<Rightarrow> bool" where
  "reads I rd hs ws \<longleftrightarrow> list_all2 (\<lambda>h w. \<forall>b. I b \<longrightarrow> (\<exists>b'. rd h b = (Inr w, b') \<and> I b')) hs ws"

lemma slice_piece_max:
  assumes "max 0 start \<le> stop" and "0 \<le> off" and "off \<le> stop" and "start < off + int (length w)"
  shows "go_slice (if off < start then start - off else 0) (if off + int (length w) > stop + 1 then stop - off + 1 else int (length w)) w
    = Returns (byte_range (max 0 (max 0 start - off)) (stop - off) w)"
proof -
  have "max 0 (max 0 start - off) = max 0 (start - off)" using assms(2) by auto
  with slice_piece [of start stop off w] assms show ?thesis by simp
qed

text \<open>The general loop: a negative start counts as 0, and a target that is too large is never reached.\<close>

lemma range_loop_reads:
  assumes "reads I rd hs ws" and "I b" and "max 0 start \<le> stop" and "stop - max 0 start + 1 \<le> target" and "0 \<le> off"
    and "n = max 0 (min off (stop + 1) - max 0 start)"
  shows "\<exists>b'. range_loop rd (\<lambda>_. None) i start stop target hs (off, n, out, b)
    = (Returns None, out @ byte_range (max 0 (max 0 start - off)) (stop - off) (concat ws), b') \<and> I b'"
  using assms
proof (induction hs arbitrary: ws off n out b i)
  case Nil
  then show ?case by (simp add: reads_def byte_range_def)
next
  case (Cons h hs)
  then obtain w vs where ws: "ws = w # vs" "reads I rd hs vs" "\<exists>b'. rd h b = (Inr w, b') \<and> I b'"
    by (auto simp: reads_def list_all2_Cons1)
  then obtain b1 where b1: "rd h b = (Inr w, b1)" "I b1" by blast
  define e where "e = off + int (length w)"
  define p where "p = byte_range (max 0 (max 0 start - off)) (stop - off) w"
  define q where "q = byte_range (max 0 (max 0 start - e)) (stop - e) (concat vs)"
  have whole: "byte_range (max 0 (max 0 start - off)) (stop - off) (concat ws) = p @ q"
  proof -
    have "max 0 (max 0 (max 0 start - off) - int (length w)) = max 0 (max 0 start - e)" and "stop - off - int (length w) = stop - e"
      unfolding e_def by linarith+
    with byte_range_append [of "max 0 (max 0 start - off)" "stop - off" w "concat vs"] show ?thesis by (simp add: ws(1) p_def q_def)
  qed
  have len: "int (length p) = max 0 (min (stop + 1) e - max off (max 0 start))"
    unfolding p_def e_def using int_length_byte_range [of "max 0 (max 0 start - off)" "stop - off" w] by (simp only: shifted_interval max.cobounded1)
  have off: "0 \<le> e" using Cons.prems(5) by (simp add: e_def)
  note IH = Cons.IH [OF ws(2) b1(2) Cons.prems(3,4) off, folded q_def]
  have skip: "range_loop rd (\<lambda>_. None) i start stop target (h # hs) (off, n, out, b) = range_loop rd (\<lambda>_. None) i start stop target hs (e, n, out, b1)"
    if "e \<le> start \<or> off \<ge> stop + 1"
    using that by (simp only: range_loop.simps b1(1) prod.case sum.case Let_def e_def if_True)
  have send: "range_loop rd (\<lambda>_. None) i start stop target (h # hs) (off, n, out, b)
      = (if target \<le> n + int (length x) then (Returns None, out @ x, b1)
         else range_loop rd (\<lambda>_. None) (Suc i) start stop target hs (e, n + int (length x), out @ x, b1))"
    if "\<not> (e \<le> start \<or> off \<ge> stop + 1)"
      "go_slice (if off < start then start - off else 0) (if e > stop + 1 then stop - off + 1 else int (length w)) w = Returns x" for x
    using that by (simp only: range_loop.simps b1(1) prod.case sum.case Let_def e_def if_False outcome.case option.case)
  have eq: "e = off + int (length w)" by (fact e_def)
  show ?case
  proof (cases "e \<le> start \<or> off \<ge> stop + 1")
    case True
    then have "int (length p) = 0" unfolding len using Cons.prems(3,5) by linarith
    then have p: "p = []" by simp
    have n: "n = max 0 (min e (stop + 1) - max 0 start)" using True Cons.prems(3,5,6) eq by linarith
    from IH [OF n, of i out] obtain b' where "range_loop rd (\<lambda>_. None) i start stop target hs (e, n, out, b1) = (Returns None, out @ q, b')" "I b'"
      by blast
    with skip [OF True] show ?thesis unfolding whole p by simp
  next
    case False
    then have slice: "go_slice (if off < start then start - off else 0) (if e > stop + 1 then stop - off + 1 else int (length w)) w = Returns p"
      using slice_piece_max [OF Cons.prems(3,5), of w] by (simp add: p_def e_def)
    have n: "n + int (length p) = max 0 (min e (stop + 1) - max 0 start)"
      unfolding len Cons.prems(6) using False Cons.prems(3,5) eq by (intro grown_interval) auto
    show ?thesis
    proof (cases "target \<le> n + int (length p)")
      case True
      then have "e \<ge> stop + 1" using Cons.prems(3,4) unfolding n by linarith
      then have "q = []" by (simp add: q_def byte_range_def)
      with True send [OF False slice] b1(2) show ?thesis unfolding whole by simp
    next
      case more: False
      from IH [OF n, of "Suc i" "out @ p"] obtain b' where
        "range_loop rd (\<lambda>_. None) (Suc i) start stop target hs (e, n + int (length p), out @ p, b1) = (Returns None, (out @ p) @ q, b')" "I b'"
        by blast
      with more send [OF False slice] show ?thesis unfolding whole by simp
    qed
  qed
qed

lemma range_loop_slice:
  assumes "reads I rd hs ws" and "I b" and "0 \<le> start" and "start \<le> stop" and "stop < 2 ^ 63 - 1"
  shows "\<exists>b'. range_loop rd (\<lambda>_. None) 0 start stop (wrap64 (stop - start + 1)) hs (0, 0, [], b)
    = (Returns None, byte_range start stop (concat ws), b') \<and> I b'"
proof -
  have "wrap64 (stop - start + 1) = stop - start + 1" using assms(3-5) by (intro wrap64_id) auto
  moreover have "max 0 (min 0 (stop + 1) - max 0 start) = 0" and "max 0 start = start" using assms(3,4) by linarith+
  ultimately show ?thesis using range_loop_reads [OF assms(1,2), of start stop "stop - start + 1" 0 0 0 "[]"] assms(3,4) by simp
qed

lemma range_of_printed:
  assumes "0 \<le> a" "a < 2 ^ 63" "0 \<le> z" "z < 2 ^ 63"
  shows "range_of sz (''bytes='' @ dec_int a @ ''-'' @ dec_int z) = Inr (a, z)"
    and "range_of sz (''bytes='' @ dec_int a @ ''-'') = Inr (a, sz - 1)"
proof -
  have c: "CHR '','' \<notin> set (dec_int a @ ''-'' @ dec_int z)" "CHR '','' \<notin> set (dec_int a @ ''-'')"
    using dec_int_plain assms by auto
  have "split_on CHR ''-'' (dec_int a @ CHR ''-'' # t) = dec_int a # split_on CHR ''-'' t" for t
    using split_on_append [of "CHR ''-''" "dec_int a" t] dec_int_plain(1) [OF assms(1)] by (simp add: split_on_word)
  then have d: "split_on CHR ''-'' (dec_int a @ ''-'' @ dec_int z) = [dec_int a, dec_int z]" "split_on CHR ''-'' (dec_int a @ ''-'') = [dec_int a, []]"
    using dec_int_plain(1) [OF assms(3)] by (simp_all add: split_on_word)
  show "range_of sz (''bytes='' @ dec_int a @ ''-'' @ dec_int z) = Inr (a, z)"
    unfolding range_of_def using c(1) d(1) assms atoi_dec_int by (simp add: split_on_word trim_prefix_def)
  show "range_of sz (''bytes='' @ dec_int a @ ''-'') = Inr (a, sz - 1)"
    unfolding range_of_def using c(2) d(2) assms atoi_dec_int by (simp add: split_on_word trim_prefix_def)
qed

lemma checked_range_bounds: "checked_range sz h = Inr (start, stop) \<Longrightarrow> 0 \<le> start \<and> start \<le> stop \<and> stop < sz"
  by (auto simp: checked_range_def split: sum.split_asm prod.split_asm if_split_asm)

context ready_store
begin

lemma reads_plain:
  assumes "list_all2 (\<lambda>h w. key_ok h \<and> blob s h = Some w) hs ws"
  shows "reads (\<lambda>b. ready b \<and> blob b = blob s) (read_plain B) hs ws"
  using assms unfolding reads_def
proof (rule list.rel_mono_strong)
  fix h w assume "key_ok h \<and> blob s h = Some w"
  then show "\<forall>b. ready b \<and> blob b = blob s \<longrightarrow> (\<exists>b'. read_plain B h b = (Inr w, b') \<and> ready b' \<and> blob b' = blob s)"
    using ready_get get_law by (fastforce simp: read_plain_def split: prod.split)
qed

lemma reads_decrypted:
  assumes "list_all2 (\<lambda>h w. key_ok h \<and> (\<exists>c. blob s h = Some c \<and> Decrypt unseal c key = Inr w)) hs ws"
  shows "reads (\<lambda>b. ready b \<and> blob b = blob s) (read_decrypted unseal B key) hs ws"
  using assms unfolding reads_def
proof (rule list.rel_mono_strong)
  fix h w assume "key_ok h \<and> (\<exists>c. blob s h = Some c \<and> Decrypt unseal c key = Inr w)"
  then show "\<forall>b. ready b \<and> blob b = blob s \<longrightarrow> (\<exists>b'. read_decrypted unseal B key h b = (Inr w, b') \<and> ready b' \<and> blob b' = blob s)"
    using ready_get get_law by (fastforce simp: read_decrypted_def split: prod.split)
qed

lemma send_chunks_all:
  assumes "list_all2 (\<lambda>h w. key_ok h \<and> blob s h = Some w) hs ws" and "ready s"
  shows "\<exists>s'. send_chunks B (\<lambda>_. None) i hs (out, s) = (None, out @ concat ws, s') \<and> ready s'"
  using assms
proof (induction hs arbitrary: i ws out s)
  case (Cons h hs)
  then obtain w vs where ws: "ws = w # vs" "key_ok h" "blob s h = Some w" "list_all2 (\<lambda>h w. key_ok h \<and> blob s h = Some w) hs vs"
    by (auto simp: list_all2_Cons1)
  from ready_get [OF Cons.prems(2) ws(2,3)] obtain s1 where s1: "be_get B h s = (Inr w, s1)" "ready s1" by blast
  then have "blob s1 = blob s" using get_law by blast
  with Cons.IH [of s1 vs "Suc i" "out @ w"] ws s1 show ?case by simp
qed simp

end

text \<open>What the client receives for a range of a file.\<close>

definition range_reply :: "headers \<Rightarrow> file_row \<Rightarrow> int \<Rightarrow> int \<Rightarrow> byte list \<Rightarrow> download_info reply \<Rightarrow> bool" where
  "range_reply hs f start stop bs rp \<longleftrightarrow> rp_status rp = 206 \<and> rp_body rp = BytesBody (byte_range start stop bs)
     \<and> al_get (rp_headers rp) ''Content-Length'' = Some (dec_int (int (length (byte_range start stop bs))))
     \<and> al_get (rp_headers rp) ''Content-Range'' = Some (''bytes '' @ dec_int start @ ''-'' @ dec_int stop @ ''/'' @ dec_int (f_size f))"

lemma handleRangeRequest_reads:
  assumes "checked_range (f_size f) h = Inr (start, stop)" and "de_writes E = (\<lambda>_. None)"
    and "f_size f = int (length (concat ws))" and "f_size f < 2 ^ 63"
    and "if f_encrypted f then canDecrypt (de_master E) f \<and> unwrapFileKey (de_unseal E) (de_master E) f = Inr key
         \<and> reads I (read_decrypted (de_unseal E) B key) (m_chunks m) ws
       else reads I (read_plain B) (m_chunks m) ws"
    and "I b"
  shows "\<exists>rp b'. handleRangeRequest E B hs h f m b = (Returns rp, b') \<and> range_reply hs f start stop (concat ws) rp"
proof -
  note bounds = checked_range_bounds [OF assms(1)]
  then have stop: "stop < 2 ^ 63 - 1" using assms(4) by linarith
  have len: "int (length (byte_range start stop (concat ws))) = stop - start + 1"
    using bounds assms(3) by (intro length_byte_range) auto
  show ?thesis
  proof (cases "f_encrypted f")
    case True
    with assms(5) range_loop_slice [of I "read_decrypted (de_unseal E) B key" "m_chunks m" ws b start stop] assms(6) bounds stop obtain b' where
      "streamDecryptedRange (de_unseal E) B (de_writes E) (de_master E) m f start stop b = (Returns None, byte_range start stop (concat ws), b')"
      by (auto simp: streamDecryptedRange_def assms(2))
    with True assms(1,5) len show ?thesis
      by (simp add: handleRangeRequest_def sent_range_def range_reply_def Let_def al_simps)
  next
    case False
    with assms(5) range_loop_slice [of I "read_plain B" "m_chunks m" ws b start stop] assms(6) bounds stop obtain b' where
      "streamRange B (de_writes E) m start stop b = (Returns None, byte_range start stop (concat ws), b')"
      by (auto simp: streamRange_def assms(2))
    with False assms(1) len show ?thesis
      by (simp add: handleRangeRequest_def sent_range_def range_reply_def Let_def al_simps)
  qed
qed

section \<open>Properties\<close>

text \<open>The chunks of a file's manifest hold \<open>ws\<close>, sealed under the file key when the file is encrypted.\<close>

definition stored_as :: "download_env \<Rightarrow> string \<Rightarrow> local_fs \<Rightarrow> file_row \<Rightarrow> manifest \<Rightarrow> byte list list \<Rightarrow> bool" where
  "stored_as E dir b f m ws \<longleftrightarrow>
     (if f_encrypted f
      then canDecrypt (de_master E) f \<and> (\<exists>key. unwrapFileKey (de_unseal E) (de_master E) f = Inr key
        \<and> list_all2 (\<lambda>h w. plain_key h \<and> (\<exists>c. local_blob dir b h = Some c \<and> Decrypt (de_unseal E) c key = Inr w)) (m_chunks m) ws)
      else list_all2 (\<lambda>h w. plain_key h \<and> local_blob dir b h = Some w) (m_chunks m) ws)"

lemma range_of_stored:
  assumes "stored_as E dir b f m ws" and "lf_faults b = []" and "checked_range (f_size f) h = Inr (start, stop)"
    and "de_writes E = (\<lambda>_. None)" and "f_size f = int (length (concat ws))" and "f_size f < 2 ^ 63"
  shows "\<exists>rp b'. handleRangeRequest E (local_backend dir) hs h f m b = (Returns rp, b') \<and> range_reply hs f start stop (concat ws) rp"
proof (cases "f_encrypted f")
  case True
  with assms(1) obtain key where key: "canDecrypt (de_master E) f" "unwrapFileKey (de_unseal E) (de_master E) f = Inr key"
    "list_all2 (\<lambda>h w. plain_key h \<and> (\<exists>c. local_blob dir b h = Some c \<and> Decrypt (de_unseal E) c key = Inr w)) (m_chunks m) ws"
    by (auto simp: stored_as_def)
  show ?thesis
    by (rule handleRangeRequest_reads [OF assms(3-6), where key = key and I = "\<lambda>x. lf_faults x = [] \<and> local_blob dir x = local_blob dir b"])
      (use True key ls.reads_decrypted [OF key(3)] assms(2) in auto)
next
  case False
  with assms(1) have "list_all2 (\<lambda>h w. plain_key h \<and> local_blob dir b h = Some w) (m_chunks m) ws" by (simp add: stored_as_def)
  from ls.reads_plain [OF this] show ?thesis
    by (intro handleRangeRequest_reads [OF assms(3-6), where I = "\<lambda>x. lf_faults x = [] \<and> local_blob dir x = local_blob dir b"])
      (use False assms(2) in auto)
qed

lemma checked_range_header: "checked_range sz h = Inr x \<Longrightarrow> h \<noteq> []"
  by (auto simp: checked_range_def range_of_def)


definition download_demo_db :: database where
  "download_demo_db = empty_db\<lparr>files := [(sample_file ''f'' None ''a'')\<lparr>f_user := ''u'', f_type := ''file'', f_size := 5, f_manifest := Some ''m'',
       f_encrypted := False\<rparr>],
     manifests := [\<lparr>m_id = ''m'', m_file = ''f'', m_version = 1, m_size = 5, m_count = 2, m_chunks = [''aa'', ''bb''], m_checksum = [], m_device = [], m_created = 0\<rparr>]\<rparr>"

definition download_demo_fs :: local_fs where
  "download_demo_fs = \<lparr>lf_files = [(keyToPath ''/d'' ''aa'', [1, 2, 3]), (keyToPath ''/d'' ''bb'', [4, 5])], lf_faults = []\<rparr>"

definition download_demo_env :: download_env where
  "download_demo_env = \<lparr>de_master = None, de_unseal = (\<lambda>_ _ _. None), de_writes = (\<lambda>_. None), de_time = (\<lambda>_. [])\<rparr>"


end
