(* ===== verification/Shares.thy ===== *)
theory Shares
  imports Http Users Tokens Vfs
begin

text \<open>
  Shares of files: the statements of \<^verbatim>\<open>src/internal/db/shares.go\<close> and the requests of a share's
  owner and recipient (\<^verbatim>\<open>src/internal/server/handlers_shares.go\<close>).  An expiry is handed to the
  database driver as a time value and read back as text: \<open>back\<close> is the time the code obtains for
  the time it stored.  Requests carry the authenticated user, the path values and the decoded
  body, \<open>None\<close> when it cannot be decoded.  Events for the user's other clients are an output.
\<close>

section \<open>shares.go\<close>

definition share_refs_ok :: "share \<Rightarrow> database \<Rightarrow> bool" where
  "share_refs_ok s d \<longleftrightarrow> has_file (sh_file s) d \<and> has_user (sh_by s) d \<and> (case sh_with s of None \<Rightarrow> True | Some u \<Rightarrow> has_user u d)"

definition CreateShare :: "(int \<Rightarrow> int) \<Rightarrow> share \<Rightarrow> tables \<Rightarrow> tables result" where
  "CreateShare back s t =
     (if (\<exists>x \<in> set (t_shares t). sh_id x = sh_id s \<or> (sh_token s \<noteq> None \<and> sh_token x = sh_token s))
         \<or> (fk_on (t_db t) \<and> \<not> share_refs_ok s (t_db t))
      then Inl ''failed to create share''
      else Inr (t\<lparr>t_shares := t_shares t @ [s\<lparr>sh_expires := map_option back (sh_expires s),
             sh_created := rfc3339 (sh_created s), sh_updated := rfc3339 (sh_updated s)\<rparr>]\<rparr>))"

definition GetShareByID :: "string \<Rightarrow> tables \<Rightarrow> share result" where
  "GetShareByID i t = (case find_row (\<lambda>s. sh_id s = i) (t_shares t) of None \<Rightarrow> Inl ''share not found'' | Some s \<Rightarrow> Inr s)"

definition GetShareByToken :: "string \<Rightarrow> tables \<Rightarrow> share result" where
  "GetShareByToken token t =
     (case find_row (\<lambda>s. sh_token s = Some token \<and> sh_active s) (t_shares t) of None \<Rightarrow> Inl ''share not found'' | Some s \<Rightarrow> Inr s)"

definition GetSharesByFile :: "string \<Rightarrow> tables \<Rightarrow> share list" where
  "GetSharesByFile fileID t = desc_sort sh_created (filter (\<lambda>s. sh_file s = fileID \<and> sh_active s) (t_shares t))"

definition GetSharesByUser :: "string \<Rightarrow> tables \<Rightarrow> share list" where
  "GetSharesByUser userID t = desc_sort sh_created (filter (\<lambda>s. sh_by s = userID \<and> sh_active s) (t_shares t))"

definition GetReceivedShares :: "string \<Rightarrow> tables \<Rightarrow> share list" where
  "GetReceivedShares userID t = desc_sort sh_created (filter (\<lambda>s. sh_with s = Some userID \<and> sh_active s) (t_shares t))"

text \<open>The columns an update may set; any other name is refused.\<close>

datatype share_update = SType string | SPassword string | SExpires int | SMax int | SCount int | SUpload bool | SPreview bool
  | SWith "string option" | SPermission string | SKey "byte list" | SActive bool | SViews int | SInvalid string

fun set_share_column :: "(int \<Rightarrow> int) \<Rightarrow> share_update \<Rightarrow> share \<Rightarrow> share" where
  "set_share_column back (SType x) s = s\<lparr>sh_type := x\<rparr>"
| "set_share_column back (SPassword x) s = s\<lparr>sh_password := Some x\<rparr>"
| "set_share_column back (SExpires x) s = s\<lparr>sh_expires := Some (back x)\<rparr>"
| "set_share_column back (SMax x) s = s\<lparr>sh_max := Some x\<rparr>"
| "set_share_column back (SCount x) s = s\<lparr>sh_count := x\<rparr>"
| "set_share_column back (SUpload x) s = s\<lparr>sh_upload := x\<rparr>"
| "set_share_column back (SPreview x) s = s\<lparr>sh_preview := x\<rparr>"
| "set_share_column back (SWith x) s = s\<lparr>sh_with := x\<rparr>"
| "set_share_column back (SPermission x) s = s\<lparr>sh_perm := x\<rparr>"
| "set_share_column back (SKey x) s = s\<lparr>sh_key := x\<rparr>"
| "set_share_column back (SActive x) s = s\<lparr>sh_active := x\<rparr>"
| "set_share_column back (SViews x) s = s\<lparr>sh_views := x\<rparr>"
| "set_share_column back (SInvalid x) s = s"

fun invalid_share_update :: "share_update \<Rightarrow> bool" where
  "invalid_share_update (SInvalid x) = True"
| "invalid_share_update _ = False"

definition on_share :: "string \<Rightarrow> (share \<Rightarrow> share) \<Rightarrow> tables \<Rightarrow> tables" where
  "on_share i g t = t\<lparr>t_shares := map (\<lambda>s. if sh_id s = i then g s else s) (t_shares t)\<rparr>"

definition UpdateShare :: "(int \<Rightarrow> int) \<Rightarrow> int \<Rightarrow> string \<Rightarrow> share_update list \<Rightarrow> tables \<Rightarrow> tables result" where
  "UpdateShare back now i updates t =
     (if updates = [] then Inr t
      else if \<exists>u \<in> set updates. invalid_share_update u then Inl ''invalid update field''
      else if fk_on (t_db t) \<and> (\<exists>u. SWith (Some u) \<in> set updates \<and> \<not> has_user u (t_db t)) \<and> (\<exists>s \<in> set (t_shares t). sh_id s = i)
      then Inl ''failed to update share''
      else if \<forall>s \<in> set (t_shares t). sh_id s \<noteq> i then Inl ''share not found''
      else Inr (on_share i (\<lambda>s. (fold (set_share_column back) updates s)\<lparr>sh_updated := rfc3339 now\<rparr>) t))"

definition RevokeShare :: "(int \<Rightarrow> int) \<Rightarrow> int \<Rightarrow> string \<Rightarrow> tables \<Rightarrow> tables result" where
  "RevokeShare back now i t = UpdateShare back now i [SActive False] t"

text \<open>One statement: the comparison and the increment are atomic.\<close>

definition IncrementShareDownloadCount :: "string \<Rightarrow> int option \<Rightarrow> tables \<Rightarrow> bool \<times> tables" where
  "IncrementShareDownloadCount i maxDownloads t =
     (case maxDownloads of
        None \<Rightarrow> (True, on_share i (\<lambda>s. s\<lparr>sh_count := sh_count s + 1\<rparr>) t)
      | Some n \<Rightarrow> (\<exists>s \<in> set (t_shares t). sh_id s = i \<and> sh_count s < n,
          on_share i (\<lambda>s. if sh_count s < n then s\<lparr>sh_count := sh_count s + 1\<rparr> else s) t))"

definition IncrementShareViewCount :: "string \<Rightarrow> tables \<Rightarrow> tables" where
  "IncrementShareViewCount i t = on_share i (\<lambda>s. s\<lparr>sh_views := sh_views s + 1\<rparr>) t"

definition DeleteShare :: "string \<Rightarrow> tables \<Rightarrow> tables result" where
  "DeleteShare i t =
     (if \<forall>s \<in> set (t_shares t). sh_id s \<noteq> i then Inl ''share not found''
      else Inr (t\<lparr>t_shares := filter (\<lambda>s. sh_id s \<noteq> i) (t_shares t)\<rparr>))"

section \<open>handlers_shares.go\<close>

record sharing_config =
  PublicLinksEnabled :: bool
  PasswordRequired :: bool
  MaxExpiryDays :: int
  MaxDownloadLimit :: int

record share_request =
  sr_type :: string
  sr_with :: "string option"
  sr_password :: "string option"
  sr_days :: "int option"
  sr_max :: "int option"
  sr_upload :: bool
  sr_preview :: bool
  sr_permission :: string

record share_change =
  sc_max :: "int option"
  sc_upload :: "bool option"
  sc_preview :: "bool option"
  sc_active :: "bool option"

datatype share_answer = ShareMade share "string option" | ShareList "share list" | ReceivedList "(share \<times> string \<times> string) list"
  | ShareDetails share | ShareUpdated | ShareRevoked

datatype share_event = EvShareCreated string string string string | EvShareRevoked string string string

text \<open>The random text of an id: 8 random bytes, from a second read when the first one fails.\<close>

definition generateRandomString :: "byte list option \<Rightarrow> string result" where
  "generateRandomString rnd = (case rnd of None \<Rightarrow> Inl ''failed to generate random string'' | Some w \<Rightarrow> Inr (HexEncode w))"

definition generateShareID :: "byte list option \<Rightarrow> byte list \<Rightarrow> string" where
  "generateShareID rnd fallback =
     ''share_'' @ (case generateRandomString rnd of Inr s \<Rightarrow> s | Inl e \<Rightarrow> HexEncode fallback)"

definition generateShareToken :: "byte list option \<Rightarrow> string result" where
  "generateShareToken rnd = (case rnd of None \<Rightarrow> Inl ''failed to read random bytes'' | Some w \<Rightarrow> Inr (HexEncode w))"

text \<open>A file the user owns, or the error.\<close>

definition owned_file :: "string \<Rightarrow> string \<Rightarrow> database \<Rightarrow> (nat \<times> string) + file_row" where
  "owned_file userID fileID d =
     (if userID = [] then Inl (401, ''Unauthorized'')
      else if fileID = [] then Inl (400, ''File ID required'')
      else case GetFile fileID d of
             Inl e \<Rightarrow> if e = ErrNotFound then Inl (404, ''File not found'') else Inl (500, ''Internal server error'')
           | Inr f \<Rightarrow> if f_user f \<noteq> userID then Inl (403, ''Access denied'') else Inr f)"

text \<open>The checks of a request against the configuration.\<close>

definition share_refused :: "sharing_config \<Rightarrow> share_request \<Rightarrow> (nat \<times> string) option" where
  "share_refused cfg q =
     (if sr_type q \<noteq> ''link'' \<and> sr_type q \<noteq> ''user'' then Some (400, ''Share type must be link or user'')
      else if sr_type q = ''link'' \<and> \<not> PublicLinksEnabled cfg then Some (403, ''Public links are disabled'')
      else if PasswordRequired cfg \<and> (sr_password q = None \<or> sr_password q = Some []) then Some (400, ''Password is required for shares'')
      else if MaxExpiryDays cfg > 0 \<and> (\<exists>n. sr_days q = Some n \<and> n > MaxExpiryDays cfg) then Some (400, ''Expiry exceeds maximum allowed days'')
      else if MaxDownloadLimit cfg > 0 \<and> (\<exists>n. sr_max q = Some n \<and> n > MaxDownloadLimit cfg) then Some (400, ''Download limit exceeds maximum allowed'')
      else if sr_type q = ''user'' \<and> sr_with q = None then Some (400, ''shared_with is required for user shares'')
      else None)"

definition expiry_of :: "int \<Rightarrow> int option \<Rightarrow> int option" where
  "expiry_of now days =
     (case days of None \<Rightarrow> None
      | Some n \<Rightarrow> if n > 0 then Some (now + wrap64 (wrap64 n * (24 * 3600 * 10 ^ 9))) else None)"

record share_env =
  se_hmac :: "byte list \<Rightarrow> byte list \<Rightarrow> byte list"
  se_sha256 :: "byte list \<Rightarrow> byte list"
  se_sha512 :: "byte list \<Rightarrow> byte list"
  se_back :: "int \<Rightarrow> int"
  se_clock :: "nat \<Rightarrow> int"
  se_token :: "byte list option"
  se_salt :: "byte list option"
  se_id_bytes :: "byte list option"
  se_fallback :: "byte list"
  se_tls :: bool
  se_host :: string

definition createShare :: "share_env \<Rightarrow> sharing_config \<Rightarrow> string \<Rightarrow> string \<Rightarrow> share_request option \<Rightarrow> tables
    \<Rightarrow> share_answer answer \<times> tables \<times> share_event list" where
  "createShare E cfg userID fileID body t =
     (case owned_file userID fileID (t_db t) of
        Inl (n, e) \<Rightarrow> (Refused n e, t, [])
      | Inr f \<Rightarrow>
          (case body of
             None \<Rightarrow> (Refused 400 ''Invalid request body'', t, [])
           | Some q \<Rightarrow>
               (case share_refused cfg q of
                  Some (n, e) \<Rightarrow> (Refused n e, t, [])
                | None \<Rightarrow>
                    (case (if sr_type q = ''link'' then map_sum id Some (generateShareToken (se_token E)) else Inr None) of
                       Inl e \<Rightarrow> (Refused 500 ''Failed to generate share token'', t, [])
                     | Inr token \<Rightarrow>
                         (case (case sr_password q of
                                  Some p \<Rightarrow> if p = [] then Inr None else map_sum id Some (HashPassword (se_hmac E) (se_sha256 E) (se_sha512 E) (se_salt E) p)
                                | None \<Rightarrow> Inr None) of
                            Inl e \<Rightarrow> (Refused 500 ''Failed to hash password'', t, [])
                          | Inr hashed \<Rightarrow>
                              (let s = \<lparr>sh_id = generateShareID (se_id_bytes E) (se_fallback E), sh_file = fileID, sh_by = userID,
                                     sh_type = sr_type q, sh_token = token, sh_password = hashed, sh_expires = expiry_of (se_clock E 0) (sr_days q),
                                     sh_max = sr_max q, sh_count = 0, sh_upload = sr_upload q, sh_preview = sr_preview q, sh_with = sr_with q,
                                     sh_perm = (if sr_permission q = [] then ''read'' else sr_permission q), sh_key = [], sh_active = True,
                                     sh_views = 0, sh_created = se_clock E 1, sh_updated = se_clock E 2\<rparr>
                               in case CreateShare (se_back E) s t of
                                    Inl e \<Rightarrow> (Refused 500 ''Failed to create share'', t, [])
                                  | Inr t' \<Rightarrow>
                                      (Answered 201 (ShareMade s
                                         (map_option (\<lambda>k. (if se_tls E then ''https'' else ''http'') @ ''://'' @ se_host E @ ''/s/'' @ k) token)),
                                       t', [EvShareCreated userID (sh_id s) fileID (sr_type q)])))))))"

definition listShares :: "string \<Rightarrow> string \<Rightarrow> tables \<Rightarrow> share_answer answer" where
  "listShares userID fileID t =
     (case owned_file userID fileID (t_db t) of Inl (n, e) \<Rightarrow> Refused n e | Inr f \<Rightarrow> Answered 200 (ShareList (GetSharesByFile fileID t)))"

definition listMyShares :: "string \<Rightarrow> tables \<Rightarrow> share_answer answer" where
  "listMyShares userID t = (if userID = [] then unauthorized else Answered 200 (ShareList (GetSharesByUser userID t)))"

definition received_info :: "tables \<Rightarrow> share \<Rightarrow> share \<times> string \<times> string" where
  "received_info t s =
     (s, (case GetFileByID (sh_file s) (t_db t) of Inr f \<Rightarrow> f_name f | Inl e \<Rightarrow> []),
      (case GetUserByID (sh_by s) (t_db t) of Inr u \<Rightarrow> u_username u | Inl e \<Rightarrow> []))"

definition listReceivedShares :: "string \<Rightarrow> tables \<Rightarrow> share_answer answer" where
  "listReceivedShares userID t =
     (if userID = [] then unauthorized else Answered 200 (ReceivedList (map (received_info t) (GetReceivedShares userID t))))"

definition getShare :: "string \<Rightarrow> string \<Rightarrow> tables \<Rightarrow> share_answer answer" where
  "getShare userID shareID t =
     (if userID = [] then unauthorized
      else if shareID = [] then Refused 400 ''Share ID required''
      else case GetShareByID shareID t of
             Inl e \<Rightarrow> Refused 404 ''Share not found''
           | Inr s \<Rightarrow> if sh_by s \<noteq> userID \<and> (sh_with s = None \<or> sh_with s \<noteq> Some userID) then Refused 403 ''Access denied''
                      else Answered 200 (ShareDetails s))"

text \<open>The share a user has created, or the error.\<close>

definition own_share :: "string \<Rightarrow> string \<Rightarrow> tables \<Rightarrow> (nat \<times> string) + share" where
  "own_share userID shareID t =
     (if userID = [] then Inl (401, ''Unauthorized'')
      else if shareID = [] then Inl (400, ''Share ID required'')
      else case GetShareByID shareID t of
             Inl e \<Rightarrow> Inl (404, ''Share not found'')
           | Inr s \<Rightarrow> if sh_by s \<noteq> userID then Inl (403, ''Access denied'') else Inr s)"

definition changes_of :: "share_change \<Rightarrow> share_update list" where
  "changes_of c =
     (case sc_max c of None \<Rightarrow> [] | Some n \<Rightarrow> [SMax n]) @ (case sc_upload c of None \<Rightarrow> [] | Some b \<Rightarrow> [SUpload b])
     @ (case sc_preview c of None \<Rightarrow> [] | Some b \<Rightarrow> [SPreview b]) @ (case sc_active c of None \<Rightarrow> [] | Some b \<Rightarrow> [SActive b])"

definition updateShare :: "(int \<Rightarrow> int) \<Rightarrow> int \<Rightarrow> string \<Rightarrow> string \<Rightarrow> share_change option \<Rightarrow> tables \<Rightarrow> share_answer answer \<times> tables" where
  "updateShare back now userID shareID body t =
     (case own_share userID shareID t of
        Inl (n, e) \<Rightarrow> (Refused n e, t)
      | Inr s \<Rightarrow>
          (case body of
             None \<Rightarrow> (Refused 400 ''Invalid request body'', t)
           | Some c \<Rightarrow> (case UpdateShare back now shareID (changes_of c) t of
               Inl e \<Rightarrow> (Refused 500 ''Failed to update share'', t) | Inr t' \<Rightarrow> (Answered 200 ShareUpdated, t'))))"

definition revokeShare :: "(int \<Rightarrow> int) \<Rightarrow> int \<Rightarrow> string \<Rightarrow> string \<Rightarrow> tables \<Rightarrow> share_answer answer \<times> tables \<times> share_event list" where
  "revokeShare back now userID shareID t =
     (case own_share userID shareID t of
        Inl (n, e) \<Rightarrow> (Refused n e, t, [])
      | Inr s \<Rightarrow> (case RevokeShare back now shareID t of
          Inl e \<Rightarrow> (Refused 500 ''Failed to revoke share'', t, [])
        | Inr t' \<Rightarrow> (Answered 200 ShareRevoked, t', [EvShareRevoked userID shareID (sh_file s)])))"

section \<open>Keys of shares\<close>

definition shares_ok :: "share list \<Rightarrow> bool" where
  "shares_ok shs \<longleftrightarrow> distinct (map sh_id shs) \<and> (\<forall>k. \<forall>x \<in> set shs. \<forall>y \<in> set shs. sh_token x = Some k \<longrightarrow> sh_token y = Some k \<longrightarrow> sh_id x = sh_id y)"

text \<open>What the statements of the program do to the table of shares.\<close>

inductive share_step :: "(int \<Rightarrow> int) \<Rightarrow> tables \<Rightarrow> tables \<Rightarrow> bool" for rt where
  ss_create: "CreateShare rt s t = Inr t' \<Longrightarrow> share_step rt t t'"
| ss_update: "UpdateShare rt now i us t = Inr t' \<Longrightarrow> share_step rt t t'"
| ss_download: "IncrementShareDownloadCount i mx t = (ok, t') \<Longrightarrow> share_step rt t t'"
| ss_view: "share_step rt t (IncrementShareViewCount i t)"
| ss_delete: "DeleteShare i t = Inr t' \<Longrightarrow> share_step rt t t'"

inductive share_run :: "(int \<Rightarrow> int) \<Rightarrow> tables \<Rightarrow> bool" for rt where
  shr_start: "t_shares t = [] \<Longrightarrow> share_run rt t"
| shr_next: "share_run rt t \<Longrightarrow> share_step rt t t' \<Longrightarrow> share_run rt t'"

lemma set_share_column_keys [simp]: "sh_id (set_share_column back u s) = sh_id s" "sh_token (set_share_column back u s) = sh_token s"
  by (cases u; simp)+

lemma fold_share_columns [simp]: "sh_id (fold (set_share_column back) us s) = sh_id s" "sh_token (fold (set_share_column back) us s) = sh_token s"
  by (induction us arbitrary: s) simp_all

lemma shares_ok_map:
  assumes "\<And>s. sh_id (h s) = sh_id s" "\<And>s. sh_token (h s) = sh_token s" and "shares_ok xs"
  shows "shares_ok (map h xs)"
proof -
  have "map sh_id (map h xs) = map sh_id xs" by (simp add: assms(1))
  with assms show ?thesis by (simp only: shares_ok_def set_map ball_simps) blast
qed

lemma on_share_ok:
  assumes "\<And>s. sh_id (g s) = sh_id s" "\<And>s. sh_token (g s) = sh_token s" and "shares_ok (t_shares t)"
  shows "shares_ok (t_shares (on_share i g t))"
  using assms by (auto simp: on_share_def intro!: shares_ok_map)

lemma shares_ok_filter: "shares_ok xs \<Longrightarrow> shares_ok (filter P xs)"
  unfolding shares_ok_def by (auto simp: distinct_map_filter)

lemma shares_okD:
  assumes "shares_ok xs" and "x \<in> set xs" "y \<in> set xs" and "sh_token x = Some k" "sh_token y = Some k"
  shows "sh_id x = sh_id y"
  using assms unfolding shares_ok_def by blast

lemma shares_ok_snoc:
  assumes "shares_ok xs" and "\<forall>x \<in> set xs. sh_id x \<noteq> sh_id s \<and> (sh_token s = None \<or> sh_token x \<noteq> sh_token s)"
  shows "shares_ok (xs @ [s])"
  unfolding shares_ok_def
proof (intro conjI allI ballI impI)
  have "sh_id s \<notin> sh_id ` set xs" using assms(2) by auto
  then show "distinct (map sh_id (xs @ [s]))" using assms(1) by (simp add: shares_ok_def)
next
  fix k x y
  assume xy: "x \<in> set (xs @ [s])" "y \<in> set (xs @ [s])" "sh_token x = Some k" "sh_token y = Some k"
  have fresh: False if "z \<in> set xs" "sh_token z = Some k" "sh_token s = Some k" for z
    using bspec [OF assms(2) that(1)] that(2,3) by simp
  show "sh_id x = sh_id y"
  proof (cases "x = s \<or> y = s")
    case True
    with xy fresh [of x] fresh [of y] show ?thesis by auto
  next
    case False
    with xy(1,2) have "x \<in> set xs" "y \<in> set xs" by auto
    with shares_okD [OF assms(1) _ _ xy(3,4)] show ?thesis by blast
  qed
qed

lemma CreateShare_Inr:
  "CreateShare rt s t = Inr t' \<Longrightarrow> (\<forall>x \<in> set (t_shares t). sh_id x \<noteq> sh_id s \<and> (sh_token s = None \<or> sh_token x \<noteq> sh_token s))
    \<and> t' = t\<lparr>t_shares := t_shares t @ [s\<lparr>sh_expires := map_option rt (sh_expires s), sh_created := rfc3339 (sh_created s),
        sh_updated := rfc3339 (sh_updated s)\<rparr>]\<rparr>"
  by (auto simp: CreateShare_def split: if_split_asm)

lemma share_step_ok: "share_step back t t' \<Longrightarrow> shares_ok (t_shares t) \<Longrightarrow> shares_ok (t_shares t')"
proof (induction rule: share_step.induct)
  case (ss_create s t t')
  with CreateShare_Inr [OF ss_create(1)] show ?case by (auto intro!: shares_ok_snoc)
next
  case (ss_update now i us t t')
  then show ?case by (auto simp: UpdateShare_def intro!: on_share_ok split: if_split_asm)
next
  case (ss_download i mx t ok t')
  then show ?case by (auto simp: IncrementShareDownloadCount_def intro!: on_share_ok split: option.split_asm)
next
  case (ss_view t i)
  then show ?case by (auto simp: IncrementShareViewCount_def intro!: on_share_ok)
next
  case (ss_delete i t t')
  then show ?case by (auto simp: DeleteShare_def intro!: shares_ok_filter split: if_split_asm)
qed

lemma share_run_ok: "share_run back t \<Longrightarrow> shares_ok (t_shares t)"
proof (induction rule: share_run.induct)
  case (shr_start t)
  then show ?case by (simp add: shares_ok_def)
qed (rule share_step_ok)

section \<open>Policy\<close>

lemma owned_file_cases:
  "case owned_file userID fileID d of Inl (n, e) \<Rightarrow> n \<in> {400, 401, 403, 404, 500}
     | Inr f \<Rightarrow> userID \<noteq> [] \<and> GetFile fileID d = Inr f \<and> f_user f = userID"
  by (simp add: owned_file_def split: sum.split)

lemma share_refused_status: "share_refused cfg q = Some (n, e) \<Longrightarrow> n \<in> {400, 403}"
  by (auto simp: share_refused_def split: if_split_asm)

lemma share_accepted:
  "share_refused cfg q = None \<longleftrightarrow> sr_type q \<in> {''link'', ''user''} \<and> (sr_type q = ''link'' \<longrightarrow> PublicLinksEnabled cfg)
     \<and> (PasswordRequired cfg \<longrightarrow> sr_password q \<noteq> None \<and> sr_password q \<noteq> Some [])
     \<and> (MaxExpiryDays cfg > 0 \<longrightarrow> (\<forall>n. sr_days q = Some n \<longrightarrow> n \<le> MaxExpiryDays cfg))
     \<and> (MaxDownloadLimit cfg > 0 \<longrightarrow> (\<forall>n. sr_max q = Some n \<longrightarrow> n \<le> MaxDownloadLimit cfg))
     \<and> (sr_type q = ''user'' \<longrightarrow> sr_with q \<noteq> None)"
  by (auto simp: share_refused_def)

text \<open>The row a request asks for, given its token and password hash.\<close>

definition requested_share :: "share_env \<Rightarrow> string \<Rightarrow> string \<Rightarrow> share_request \<Rightarrow> string option \<Rightarrow> string option \<Rightarrow> share" where
  "requested_share E userID fileID q token hashed =
     \<lparr>sh_id = generateShareID (se_id_bytes E) (se_fallback E), sh_file = fileID, sh_by = userID,
      sh_type = sr_type q, sh_token = token, sh_password = hashed, sh_expires = expiry_of (se_clock E 0) (sr_days q),
      sh_max = sr_max q, sh_count = 0, sh_upload = sr_upload q, sh_preview = sr_preview q, sh_with = sr_with q,
      sh_perm = (if sr_permission q = [] then ''read'' else sr_permission q), sh_key = [], sh_active = True,
      sh_views = 0, sh_created = se_clock E 1, sh_updated = se_clock E 2\<rparr>"

definition share_token_of :: "share_env \<Rightarrow> share_request \<Rightarrow> string option result" where
  "share_token_of E q = (if sr_type q = ''link'' then map_sum id Some (generateShareToken (se_token E)) else Inr None)"

definition share_hash_of :: "share_env \<Rightarrow> share_request \<Rightarrow> string option result" where
  "share_hash_of E q =
     (case sr_password q of
        Some p \<Rightarrow> if p = [] then Inr None else map_sum id Some (HashPassword (se_hmac E) (se_sha256 E) (se_sha512 E) (se_salt E) p)
      | None \<Rightarrow> Inr None)"

lemma createShare_cases:
  assumes "createShare E cfg userID fileID body t = (ans, t', evs)"
  shows "(answer_status ans \<noteq> 201 \<and> t' = t \<and> evs = [])
    \<or> (\<exists>f q token hashed. owned_file userID fileID (t_db t) = Inr f \<and> body = Some q \<and> share_refused cfg q = None
         \<and> share_token_of E q = Inr token \<and> share_hash_of E q = Inr hashed
         \<and> CreateShare (se_back E) (requested_share E userID fileID q token hashed) t = Inr t' \<and> answer_status ans = 201)"
proof (cases "owned_file userID fileID (t_db t)")
  case (Inl x)
  obtain n e where "x = (n, e)" by (cases x)
  with Inl assms owned_file_cases [of userID fileID "t_db t"] show ?thesis by (auto simp: createShare_def)
next
  case (Inr f)
  note f = this
  show ?thesis
  proof (cases body)
    case None
    with f assms show ?thesis by (auto simp: createShare_def)
  next
    case (Some q)
    show ?thesis
    proof (cases "share_refused cfg q")
      case None
      have run: "createShare E cfg userID fileID body t =
        (case share_token_of E q of
           Inl e \<Rightarrow> (Refused 500 ''Failed to generate share token'', t, [])
         | Inr token \<Rightarrow>
             (case share_hash_of E q of
                Inl e \<Rightarrow> (Refused 500 ''Failed to hash password'', t, [])
              | Inr hashed \<Rightarrow>
                  (case CreateShare (se_back E) (requested_share E userID fileID q token hashed) t of
                     Inl e \<Rightarrow> (Refused 500 ''Failed to create share'', t, [])
                   | Inr t' \<Rightarrow>
                       (Answered 201 (ShareMade (requested_share E userID fileID q token hashed)
                          (map_option (\<lambda>k. (if se_tls E then ''https'' else ''http'') @ ''://'' @ se_host E @ ''/s/'' @ k) token)),
                        t', [EvShareCreated userID (sh_id (requested_share E userID fileID q token hashed)) fileID (sr_type q)]))))"
        by (simp only: createShare_def f Some None sum.case option.case share_token_of_def share_hash_of_def requested_share_def Let_def)
      then show ?thesis using assms f Some None by (auto split: sum.split_asm)
    next
      case refused: (Some x)
      obtain n e where x: "x = (n, e)" by (cases x)
      with refused Some f assms share_refused_status [of cfg q n e] show ?thesis by (auto simp: createShare_def)
    qed
  qed
qed


definition share_demo_env :: share_env where
  "share_demo_env = \<lparr>se_hmac = (\<lambda>_ _. replicate 32 0), se_sha256 = (\<lambda>_. []), se_sha512 = (\<lambda>_. []), se_back = (\<lambda>x. x), se_clock = (\<lambda>_. 0),
     se_token = Some [1], se_salt = Some [], se_id_bytes = Some [2], se_fallback = [], se_tls = True, se_host = ''h''\<rparr>"

definition share_demo :: "string option \<Rightarrow> tables" where
  "share_demo m = \<lparr>t_db = empty_db\<lparr>files := [(sample_file ''f'' None ''a'')\<lparr>f_user := ''u'', f_type := ''file'', f_size := 5, f_manifest := m,
       f_encrypted := False\<rparr>], fk_on := False\<rparr>, t_sessions = [], t_tokens = [], t_shares = []\<rparr>"

definition share_demo_request :: share_request where
  "share_demo_request = \<lparr>sr_type = ''link'', sr_with = None, sr_password = None, sr_days = None, sr_max = Some 1, sr_upload = False,
     sr_preview = False, sr_permission = []\<rparr>"


end
