(* ===== verification/Public_Shares.thy ===== *)
theory Public_Shares
  imports Shares Download
begin

text \<open>
  Access by a share token, without a login (\<^verbatim>\<open>src/internal/server/handlers_public.go\<close>), and what
  shares promise: the policy a new share obeys, the download limit, and the byte ranges of shared
  files.  A request carries the password it offers in each of the three places the code looks at,
  the range header and the clock.  The header is scanned as \<^verbatim>\<open>fmt.Sscanf\<close> does.
\<close>

section \<open>Requests\<close>

record public_request =
  pq_token :: string
  pq_body :: bool
  pq_ctype :: string
  pq_body_password :: "string option"
  pq_auth :: string
  pq_query :: string
  pq_range :: string
  pq_now :: int

text \<open>\<open>pq_body\<close>: there is a body of announced length; \<open>pq_body_password\<close>: the password it decodes to.\<close>

definition extractSharePassword :: "public_request \<Rightarrow> string" where
  "extractSharePassword r =
     (let json = pq_body r \<and> (pq_ctype r = [] \<or> has_prefix (pq_ctype r) ''application/json'')
      in case (if json then pq_body_password r else None) of
           Some (c # p) \<Rightarrow> c # p
         | _ \<Rightarrow> (let token = (if has_prefix (pq_auth r) ''Bearer '' then trim_prefix (pq_auth r) ''Bearer '' else [])
                 in if token \<noteq> [] then token else pq_query r))"

definition authenticateSharePassword :: "share_env \<Rightarrow> public_request \<Rightarrow> share \<Rightarrow> 'a reply option" where
  "authenticateSharePassword E r s =
     (case sh_password s of
        None \<Rightarrow> None
      | Some h \<Rightarrow>
          (let password = extractSharePassword r
           in if password = [] then Some (http_Error [(''WWW-Authenticate'', ''Bearer realm='' @ quoted ''share'')] 401 ''Password required'')
              else if VerifyPassword (se_hmac E) (se_sha256 E) (se_sha512 E) password h = Inr True then None
              else Some (http_Error [] 401 ''Invalid password'')))"

definition validateShare :: "int \<Rightarrow> string \<Rightarrow> tables \<Rightarrow> (share \<times> file_row) result" where
  "validateShare now token t =
     (case GetShareByToken token t of
        Inl e \<Rightarrow> Inl ''share not found''
      | Inr s \<Rightarrow>
          if (\<exists>x. sh_expires s = Some x \<and> now > x) then Inl ''share expired''
          else if \<not> sh_active s then Inl ''share revoked''
          else case GetFileByID (sh_file s) (t_db t) of Inl e \<Rightarrow> Inl ''file not found'' | Inr f \<Rightarrow> Inr (s, f))"

datatype public_info = ShareInfo string string int string bool bool "int option" bool

definition getShareInfo :: "public_request \<Rightarrow> tables \<Rightarrow> public_info reply \<times> tables" where
  "getShareInfo r t =
     (if pq_token r = [] then (http_Error [] 400 ''Token required'', t)
      else case validateShare (pq_now r) (pq_token r) t of
             Inl e \<Rightarrow> (http_Error [] 404 ''Share not found or unavailable'', t)
           | Inr (s, f) \<Rightarrow>
               (JSONResponse [] 200 (ShareInfo (f_name f) (f_type f) (f_size f) (f_mime f) (sh_preview s) (sh_upload s) (sh_expires s)
                  (sh_password s \<noteq> None)), IncrementShareViewCount (sh_id s) t))"

text \<open>\<^verbatim>\<open>%d\<close>: blanks, a sign, digits; and the whole format.  What is not scanned stays 0.\<close>

definition scan_int :: "string \<Rightarrow> (int \<times> string) option" where
  "scan_int s =
     (let s1 = dropWhile (\<lambda>c. c = CHR '' '' \<or> c = CHR 0x09) s;
          sg = (if has_prefix s1 ''-'' \<or> has_prefix s1 ''+'' then take 1 s1 else []);
          s2 = drop (length sg) s1;
          ds = takeWhile is_digit s2
      in if ds = [] then None else map_option (\<lambda>n. (n, dropWhile is_digit s2)) (atoi (sg @ ds)))"

definition scan_range :: "string \<Rightarrow> int \<times> int" where
  "scan_range h =
     (if \<not> has_prefix h ''bytes='' then (0, 0)
      else case scan_int (trim_prefix h ''bytes='') of
             None \<Rightarrow> (0, 0)
           | Some (a, rest) \<Rightarrow>
               (case rest of
                  c # rest' \<Rightarrow> if c = CHR ''-'' then (case scan_int rest' of None \<Rightarrow> (a, 0) | Some (z, _) \<Rightarrow> (a, z)) else (a, 0)
                | [] \<Rightarrow> (a, 0)))"

definition public_streamContent :: "'b backend \<Rightarrow> (nat \<Rightarrow> nat option) \<Rightarrow> manifest \<Rightarrow> 'b \<Rightarrow> byte list \<times> 'b" where
  "public_streamContent B writes m b = snd (send_chunks B writes 0 (m_chunks m) ([], b))"

definition public_streamRange :: "'b backend \<Rightarrow> (nat \<Rightarrow> nat option) \<Rightarrow> manifest \<Rightarrow> int \<Rightarrow> int \<Rightarrow> 'b \<Rightarrow> string option outcome \<times> byte list \<times> 'b" where
  "public_streamRange B writes m start stop b =
     range_loop (read_plain B) writes 0 start stop (wrap64 (stop - start + 1)) (m_chunks m) (0, 0, [], b)"

definition public_range :: "int \<Rightarrow> string \<Rightarrow> int \<times> int" where
  "public_range sz h = (case scan_range h of (start, stop) \<Rightarrow> (start, if stop = 0 \<or> stop \<ge> sz then wrap64 (sz - 1) else stop))"

definition public_handleRangeRequest :: "'b backend \<Rightarrow> (nat \<Rightarrow> nat option) \<Rightarrow> headers \<Rightarrow> string \<Rightarrow> file_row \<Rightarrow> manifest \<Rightarrow> 'b
    \<Rightarrow> public_info reply outcome \<times> 'b" where
  "public_handleRangeRequest B writes hs h f m b =
     (case public_range (f_size f) h of (start, stop) \<Rightarrow>
        (let h1 = al_put (al_put (al_put (al_put hs ''Content-Type'' (f_mime f)) ''Content-Length'' (dec_int (wrap64 (stop - start + 1))))
              ''Content-Range'' (''bytes '' @ dec_int start @ ''-'' @ dec_int stop @ ''/'' @ dec_int (f_size f))) ''Accept-Ranges'' ''bytes''
         in sent_range h1 (public_streamRange B writes m start stop b)))"

definition public_handleFullDownload :: "'b backend \<Rightarrow> (nat \<Rightarrow> nat option) \<Rightarrow> file_row \<Rightarrow> manifest \<Rightarrow> 'b \<Rightarrow> public_info reply \<times> 'b" where
  "public_handleFullDownload B writes f m b =
     (case public_streamContent B writes m b of (out, b') \<Rightarrow>
        (\<lparr>rp_status = 200, rp_headers = content_headers ''attachment'' f [], rp_body = BytesBody out\<rparr>, b'))"

text \<open>The manifest of a shared file, or the error.\<close>

definition shared_manifest :: "file_row \<Rightarrow> database \<Rightarrow> (nat \<times> string) + manifest" where
  "shared_manifest f d =
     (case f_manifest f of
        None \<Rightarrow> Inl (400, ''File has no content'')
      | Some i \<Rightarrow> if i = [] then Inl (400, ''File has no content'')
          else case GetManifest i d of Inl e \<Rightarrow> Inl (500, ''Failed to get file manifest'') | Inr m \<Rightarrow> Inr m)"

definition downloadSharedFile :: "share_env \<Rightarrow> 'b backend \<Rightarrow> (nat \<Rightarrow> nat option) \<Rightarrow> public_request \<Rightarrow> tables \<times> 'b
    \<Rightarrow> public_info reply outcome \<times> tables \<times> 'b" where
  "downloadSharedFile E B writes r st =
     (case st of (t, b) \<Rightarrow>
      if pq_token r = [] then (Returns (http_Error [] 400 ''Token required''), t, b)
      else case validateShare (pq_now r) (pq_token r) t of
             Inl e \<Rightarrow> (Returns (http_Error [] 404 ''Share not found or unavailable''), t, b)
           | Inr (s, f) \<Rightarrow>
               (case authenticateSharePassword E r s of
                  Some rp \<Rightarrow> (Returns rp, t, b)
                | None \<Rightarrow>
                    if sh_preview s then (Returns (http_Error [] 403 ''Preview only - download not allowed''), t, b)
                    else case IncrementShareDownloadCount (sh_id s) (sh_max s) t of
                           (allowed, t') \<Rightarrow>
                             if \<not> allowed then (Returns (http_Error [] 403 ''Download limit reached''), t', b)
                             else case shared_manifest f (t_db t) of
                                    Inl (n, e) \<Rightarrow> (Returns (http_Error [] n e), t', b)
                                  | Inr m \<Rightarrow>
                                      if pq_range r \<noteq> []
                                      then (case public_handleRangeRequest B writes [] (pq_range r) f m b of (rp, b') \<Rightarrow> (rp, t', b'))
                                      else (case public_handleFullDownload B writes f m b of (rp, b') \<Rightarrow> (Returns rp, t', b'))))"

definition streamSharedFile :: "share_env \<Rightarrow> 'b backend \<Rightarrow> (nat \<Rightarrow> nat option) \<Rightarrow> public_request \<Rightarrow> tables \<times> 'b
    \<Rightarrow> public_info reply outcome \<times> tables \<times> 'b" where
  "streamSharedFile E B writes r st =
     (case st of (t, b) \<Rightarrow>
      if pq_token r = [] then (Returns (http_Error [] 400 ''Token required''), t, b)
      else case validateShare (pq_now r) (pq_token r) t of
             Inl e \<Rightarrow> (Returns (http_Error [] 404 ''Share not found or unavailable''), t, b)
           | Inr (s, f) \<Rightarrow>
               (case authenticateSharePassword E r s of
                  Some rp \<Rightarrow> (Returns rp, t, b)
                | None \<Rightarrow>
                    (case shared_manifest f (t_db t) of
                       Inl (n, e) \<Rightarrow> (Returns (http_Error [] n e), t, b)
                     | Inr m \<Rightarrow>
                         (let hs = content_headers ''inline'' f []
                          in if pq_range r \<noteq> []
                             then (case public_handleRangeRequest B writes hs (pq_range r) f m b of (rp, b') \<Rightarrow> (rp, t, b'))
                             else (case public_streamContent B writes m b of
                                     (out, b') \<Rightarrow> (Returns \<lparr>rp_status = 200, rp_headers = hs, rp_body = BytesBody out\<rparr>, t, b'))))))"

section \<open>Scanning a range\<close>

lemma dec_int_head: "0 \<le> i \<Longrightarrow> \<exists>c cs. dec_int i = c # cs \<and> is_digit c"
  using dec_int_digits [of i] by (cases "dec_int i") auto

lemma takeWhile_dec_int: "0 \<le> i \<Longrightarrow> takeWhile is_digit (dec_int i @ t) = dec_int i @ takeWhile is_digit t"
  using dec_int_digits by (induction "dec_int i" arbitrary: i) (auto intro!: takeWhile_append2)

lemma dropWhile_dec_int: "0 \<le> i \<Longrightarrow> dropWhile is_digit (dec_int i @ t) = dropWhile is_digit t"
  using dec_int_digits by (auto intro!: dropWhile_append2)

lemma digit_no_sign: "is_digit c \<Longrightarrow> c \<noteq> CHR '' '' \<and> c \<noteq> CHR 0x09 \<and> c \<noteq> CHR ''-'' \<and> c \<noteq> CHR ''+''"
  by (auto simp: is_digit_def)

lemma scan_int_printed:
  assumes "0 \<le> i" "i < 2 ^ 63" and "t = [] \<or> \<not> is_digit (hd t)"
  shows "scan_int (dec_int i @ t) = Some (i, t)"
proof -
  obtain c cs where c: "dec_int i = c # cs" "is_digit c" using dec_int_head [OF assms(1)] by blast
  have d: "dropWhile (\<lambda>c. c = CHR '' '' \<or> c = CHR 0x09) (dec_int i @ t) = dec_int i @ t"
    using digit_no_sign [OF c(2)] by (simp add: c(1))
  have sg: "\<not> has_prefix (dec_int i @ t) ''-''" "\<not> has_prefix (dec_int i @ t) ''+''"
    using digit_no_sign [OF c(2)] by (simp_all add: c(1))
  have "takeWhile is_digit t = []" "dropWhile is_digit t = t" using assms(3) by (cases t; auto)+
  then show ?thesis
    unfolding scan_int_def d Let_def using sg assms(1,2) atoi_dec_int by (simp add: takeWhile_dec_int dropWhile_dec_int)
qed

lemma atoi_neg:
  assumes "0 \<le> k" "k < 2 ^ 63"
  shows "atoi (CHR ''-'' # dec_int k) = Some (- k)"
proof -
  have "wrap64 (- k) = - k" using assms by (intro wrap64_id) auto
  moreover have "digits_value (dec_int k) = k" using assms(1) by (simp add: dec_int_def digits_value_dec_nat del: dec_nat.simps)
  ultimately show ?thesis using dec_int_digits [OF assms(1)] by (auto simp: atoi_def Let_def)
qed

lemma scan_int_negative:
  assumes "0 \<le> k" "k < 2 ^ 63" and "t = [] \<or> \<not> is_digit (hd t)"
  shows "scan_int (CHR ''-'' # dec_int k @ t) = Some (- k, t)"
proof -
  have "takeWhile is_digit t = []" "dropWhile is_digit t = t" using assms(3) by (cases t; auto)+
  then show ?thesis
    unfolding scan_int_def Let_def using assms(1,2) atoi_neg by (simp add: takeWhile_dec_int dropWhile_dec_int)
qed

lemma scan_range_printed:
  assumes "0 \<le> a" "a < 2 ^ 63" "0 \<le> z" "z < 2 ^ 63"
  shows "scan_range (''bytes='' @ dec_int a @ ''-'' @ dec_int z) = (a, z)"
    and "scan_range (''bytes=-'' @ dec_int a) = (- a, 0)"
  using scan_int_printed [OF assms(1,2), of "''-'' @ dec_int z"] scan_int_printed [OF assms(3,4), of "[]"]
    scan_int_negative [OF assms(1,2), of "[]"]
  by (simp_all add: scan_range_def trim_prefix_def is_digit_def)

section \<open>Ranges of shared files\<close>

text \<open>The chunks of a manifest can be read and hold \<open>ws\<close>.\<close>

definition holds :: "string \<Rightarrow> local_fs \<Rightarrow> manifest \<Rightarrow> byte list list \<Rightarrow> bool" where
  "holds dir b m ws \<longleftrightarrow> lf_faults b = [] \<and> list_all2 (\<lambda>h w. plain_key h \<and> local_blob dir b h = Some w) (m_chunks m) ws"

lemma holds_reads:
  "holds dir b m ws \<Longrightarrow> reads (\<lambda>x. lf_faults x = [] \<and> local_blob dir x = local_blob dir b) (read_plain (local_backend dir)) (m_chunks m) ws"
  unfolding holds_def using ls.reads_plain by blast

lemma holds_sent: "holds dir b m ws \<Longrightarrow> \<exists>b'. public_streamContent (local_backend dir) (\<lambda>_. None) m b = (concat ws, b')"
  unfolding holds_def public_streamContent_def using ls.send_chunks_all [of dir b "m_chunks m" ws 0 "[]"] by fastforce

lemma crossed_range_panics:
  assumes "holds dir b m (w # ws)" and "0 \<le> stop" and "stop + 1 < start" and "start < int (length w)"
  shows "\<exists>b'. public_streamRange (local_backend dir) (\<lambda>_. None) m start stop b = (Panics, [], b')"
proof -
  from assms(1) obtain h hs where h: "m_chunks m = h # hs" "plain_key h" "local_blob dir b h = Some w"
    by (auto simp: holds_def list_all2_Cons2)
  from ls.ready_get [OF _ h(2,3)] assms(1) obtain b' where "be_get (local_backend dir) h b = (Inr w, b')" by (auto simp: holds_def)
  then show ?thesis using assms(2-4) by (simp add: public_streamRange_def h(1) read_plain_def go_slice_def Let_def)
qed

lemma public_range_reply:
  assumes "holds dir b m ws" and "public_range (f_size f) h = (start, stop)" and "max 0 start \<le> stop"
    and "- (2 ^ 62) < start" and "stop < 2 ^ 62"
  shows "\<exists>rp. fst (public_handleRangeRequest (local_backend dir) (\<lambda>_. None) hs h f m b) = Returns rp \<and> rp_status rp = 206
    \<and> rp_body rp = BytesBody (byte_range (max 0 start) stop (concat ws))
    \<and> al_get (rp_headers rp) ''Content-Length'' = Some (dec_int (stop - start + 1))"
proof -
  have wrap: "wrap64 (stop - start + 1) = stop - start + 1" using assms(3-5) by (intro wrap64_id) auto
  have n: "0 = max 0 (min 0 (stop + 1) - max 0 start)" and start: "max 0 (max 0 start - 0) = max 0 start" using assms(3) by linarith+
  from range_loop_reads [OF holds_reads [OF assms(1)] _ assms(3) _ _ n, of b "stop - start + 1" 0 "[]"] assms(1) obtain b' where
    "public_streamRange (local_backend dir) (\<lambda>_. None) m start stop b = (Returns None, byte_range (max 0 start) stop (concat ws), b')"
    by (auto simp: public_streamRange_def wrap holds_def start)
  then show ?thesis by (simp add: public_handleRangeRequest_def assms(2) sent_range_def Let_def al_simps wrap)
qed

text \<open>Byte ranges of shared files.  The public handler scans the header itself.  For a stored file,
  a range with crossing bounds inside the first chunk makes the handler panic; a suffix range
  (the last k bytes) is read as a negative start: the whole file is sent under a length that is k
  too large; the range of the first byte alone is answered with the whole file; only a range with
  ordered bounds and an end that is not 0 is answered as asked, shortened to the file's size.\<close>

theorem public_ranges:
  assumes "holds dir b m (w # ws)" and "f_size f = int (length (concat (w # ws)))" and "0 < f_size f" "f_size f < 2 ^ 62"
    and "0 \<le> a" "a < 2 ^ 62" "0 < z" "z < 2 ^ 62"
    and "R = (\<lambda>h. fst (public_handleRangeRequest (local_backend dir) (\<lambda>_. None) hs h f m b))"
  shows "(z + 1 < a \<and> a < int (length w) \<longrightarrow> R (''bytes='' @ dec_int a @ ''-'' @ dec_int z) = Panics)
    \<and> (\<exists>rp. R (''bytes=-'' @ dec_int a) = Returns rp \<and> rp_status rp = 206 \<and> rp_body rp = BytesBody (concat (w # ws))
        \<and> al_get (rp_headers rp) ''Content-Length'' = Some (dec_int (f_size f + a)))
    \<and> (\<exists>rp. R ''bytes=0-0'' = Returns rp \<and> rp_status rp = 206 \<and> rp_body rp = BytesBody (concat (w # ws)))
    \<and> (a \<le> z \<and> a < f_size f \<longrightarrow>
        (\<exists>rp. R (''bytes='' @ dec_int a @ ''-'' @ dec_int z) = Returns rp \<and> rp_status rp = 206
           \<and> rp_body rp = BytesBody (byte_range a (min z (f_size f - 1)) (concat (w # ws)))
           \<and> al_get (rp_headers rp) ''Content-Length'' = Some (dec_int (min z (f_size f - 1) - a + 1))))"
proof -
  have a: "a < 2 ^ 63" and z: "0 \<le> z" "z < 2 ^ 63" using assms by auto
  have sz: "wrap64 (f_size f - 1) = f_size f - 1" using assms(3,4) by (intro wrap64_id) auto
  have whole: "byte_range 0 (f_size f - 1) (concat (w # ws)) = concat (w # ws)" using assms(2) by (simp add: byte_range_def)
  have pair: "public_range (f_size f) (''bytes='' @ dec_int a @ ''-'' @ dec_int z) = (a, min z (f_size f - 1))"
    unfolding public_range_def scan_range_printed(1) [OF assms(5) a z] using assms(3,7) sz by auto
  have minus: "public_range (f_size f) (''bytes=-'' @ dec_int a) = (- a, f_size f - 1)"
    unfolding public_range_def scan_range_printed(2) [OF assms(5) a z] using sz by simp
  have "dec_int 0 = ''0''" by code_simp
  then have zero: "public_range (f_size f) ''bytes=0-0'' = (0, f_size f - 1)"
    using scan_range_printed(1) [of 0 0] sz by (simp add: public_range_def)
  have panic: "R (''bytes='' @ dec_int a @ ''-'' @ dec_int z) = Panics" if "z + 1 < a" "a < int (length w)"
  proof -
    have "int (length w) \<le> f_size f" using assms(2) by simp
    with that have m: "min z (f_size f - 1) = z" by auto
    with crossed_range_panics [OF assms(1) z(1) that] obtain b' where
      "public_streamRange (local_backend dir) (\<lambda>_. None) m a z b = (Panics, [], b')" by blast
    then show ?thesis unfolding assms(9) public_handleRangeRequest_def pair m by (simp add: sent_range_def Let_def)
  qed
  have suffix_range: "\<exists>rp. R (''bytes=-'' @ dec_int a) = Returns rp \<and> rp_status rp = 206 \<and> rp_body rp = BytesBody (concat (w # ws))
        \<and> al_get (rp_headers rp) ''Content-Length'' = Some (dec_int (f_size f + a))"
  proof -
    have "max 0 (- a) = 0" and "f_size f - 1 - (- a) + 1 = f_size f + a" using assms(5) by auto
    with public_range_reply [OF assms(1) minus, of hs] assms(3-6) whole show ?thesis unfolding assms(9) by simp
  qed
  have first: "\<exists>rp. R ''bytes=0-0'' = Returns rp \<and> rp_status rp = 206 \<and> rp_body rp = BytesBody (concat (w # ws))"
    using public_range_reply [OF assms(1) zero, of hs] assms(3,4) whole unfolding assms(9) by auto
  have ordered: "\<exists>rp. R (''bytes='' @ dec_int a @ ''-'' @ dec_int z) = Returns rp \<and> rp_status rp = 206
           \<and> rp_body rp = BytesBody (byte_range a (min z (f_size f - 1)) (concat (w # ws)))
           \<and> al_get (rp_headers rp) ''Content-Length'' = Some (dec_int (min z (f_size f - 1) - a + 1))" if "a \<le> z" "a < f_size f"
    using public_range_reply [OF assms(1) pair, of hs] that assms(4-6,8) unfolding assms(9) by (simp add: max_def)
  show ?thesis using panic suffix_range first ordered by blast
qed

definition shared_row :: "string \<Rightarrow> file_row" where
  "shared_row m = (sample_file ''f'' None ''a'')\<lparr>f_user := ''u'', f_type := ''file'', f_size := 5, f_manifest := Some m, f_encrypted := False\<rparr>"

definition shared_version :: manifest where
  "shared_version = \<lparr>m_id = ''m'', m_file = ''f'', m_version = 1, m_size = 5, m_count = 1, m_chunks = [''aa''], m_checksum = [],
     m_device = [], m_created = 0\<rparr>"

definition shared_fs :: local_fs where
  "shared_fs = \<lparr>lf_files = [(keyToPath ''/d'' ''aa'', [1, 2, 3, 4, 5])], lf_faults = []\<rparr>"

lemma shared_holds: "holds ''/d'' shared_fs shared_version [[1, 2, 3, 4, 5]]"
  by (simp add: holds_def shared_fs_def shared_version_def plain_key_def local_blob_def keyToPath_def filepath_Join_def
        path_Clean_def clean_parts_def clean_step_def)

theorem public_ranges_witness:
  "fst (public_handleRangeRequest (local_backend ''/d'') (\<lambda>_. None) [] ''bytes=4-1'' (shared_row ''m'') shared_version shared_fs) = Panics"
proof -
  have "dec_int 4 = ''4''" and "dec_int 1 = ''1''" by code_simp+
  then show ?thesis using public_ranges [OF shared_holds _ _ _ _ _ _ _ refl, of "shared_row ''m''" 4 1 "[]"] by (simp add: shared_row_def)
qed

section \<open>The download limit\<close>

definition content_sent :: "public_info reply outcome \<Rightarrow> bool" where
  "content_sent o' \<longleftrightarrow> (case o' of Returns rp \<Rightarrow> rp_status rp \<in> {200, 206} | _ \<Rightarrow> True)"

text \<open>Requests to the download route, one after the other.\<close>

fun serve_all :: "share_env \<Rightarrow> 'b backend \<Rightarrow> (nat \<Rightarrow> nat option) \<Rightarrow> public_request list \<Rightarrow> tables \<times> 'b
    \<Rightarrow> (public_request \<times> public_info reply outcome) list \<times> tables \<times> 'b" where
  "serve_all E B writes [] st = ([], st)"
| "serve_all E B writes (r # rs) st =
     (case downloadSharedFile E B writes r st of
        (rp, st') \<Rightarrow> (case serve_all E B writes rs st' of (rps, st'') \<Rightarrow> ((r, rp) # rps, st'')))"

lemma status_Error [simp]: "rp_status (http_Error hs n e) = n"
  by (simp add: http_Error_def)

lemma refused_by_password: "authenticateSharePassword E r s = Some rp \<Longrightarrow> rp_status rp = 401"
  by (auto simp: authenticateSharePassword_def Let_def split: option.split_asm if_split_asm)

lemma shared_manifest_status: "shared_manifest f d = Inl (n, e) \<Longrightarrow> n \<in> {400, 500}"
  by (auto simp: shared_manifest_def split: option.split_asm sum.split_asm if_split_asm)

lemma validateShare_Inr: "validateShare now token t = Inr (s, f) \<Longrightarrow> s \<in> set (t_shares t) \<and> sh_token s = Some token \<and> sh_active s"
  using find_row_Some [of "\<lambda>s. sh_token s = Some token \<and> sh_active s" "t_shares t" s]
  by (auto simp: validateShare_def GetShareByToken_def split: sum.split_asm option.split_asm if_split_asm)

text \<open>What one request does: content is sent only after the counter of the token's share was raised.\<close>

lemma download_step:
  assumes "downloadSharedFile E B writes r (t, b) = (rp, t', b')"
  shows "(\<not> content_sent rp \<and> t' = t)
    \<or> (\<exists>s f. validateShare (pq_now r) (pq_token r) t = Inr (s, f) \<and> snd (IncrementShareDownloadCount (sh_id s) (sh_max s) t) = t'
        \<and> (content_sent rp \<longrightarrow> fst (IncrementShareDownloadCount (sh_id s) (sh_max s) t)))"
proof (cases "pq_token r = []")
  case True
  with assms show ?thesis by (auto simp: downloadSharedFile_def content_sent_def)
next
  case False
  show ?thesis
  proof (cases "validateShare (pq_now r) (pq_token r) t")
    case (Inl e)
    with False assms show ?thesis by (auto simp: downloadSharedFile_def content_sent_def)
  next
    case (Inr x)
    obtain s f where x: "x = (s, f)" by (cases x)
    obtain allowed t1 where inc: "IncrementShareDownloadCount (sh_id s) (sh_max s) t = (allowed, t1)" by (metis prod.collapse)
    show ?thesis
    proof (cases "authenticateSharePassword E r s :: public_info reply option")
      case (Some rp')
      with refused_by_password [OF Some] Inr x False assms show ?thesis by (auto simp: downloadSharedFile_def content_sent_def)
    next
      case None
      show ?thesis
      proof (cases "sh_preview s")
        case True
        with None Inr x False assms show ?thesis by (auto simp: downloadSharedFile_def content_sent_def)
      next
        case full: False
        with None Inr x False assms inc have "t' = t1 \<and> (content_sent rp \<longrightarrow> allowed)"
          by (auto simp: downloadSharedFile_def content_sent_def split: if_split_asm sum.split_asm prod.split_asm)
        with Inr x inc show ?thesis by auto
      qed
    qed
  qed
qed

lemma shares_on_share: "t_shares (on_share i g t) = map (\<lambda>s. if sh_id s = i then g s else s) (t_shares t)"
  by (simp add: on_share_def)

text \<open>One request against a share with a limit: the row stays, counted up when content was sent.\<close>

lemma limited_step:
  assumes ok: "shares_ok (t_shares t)" and s: "s \<in> set (t_shares t)" "sh_token s = Some tok" "sh_max s = Some n"
    and run: "downloadSharedFile E B writes r (t, b) = (rp, t', b')"
  shows "shares_ok (t_shares t') \<and> (\<exists>s' \<in> set (t_shares t'). sh_token s' = Some tok \<and> sh_max s' = Some n
    \<and> sh_count s \<le> sh_count s' \<and> (pq_token r = tok \<and> content_sent rp \<longrightarrow> sh_count s < n \<and> sh_count s' = sh_count s + 1))"
proof -
  from download_step [OF run] consider "\<not> content_sent rp" "t' = t"
    | v f where "validateShare (pq_now r) (pq_token r) t = Inr (v, f)" "snd (IncrementShareDownloadCount (sh_id v) (sh_max v) t) = t'"
        "content_sent rp \<longrightarrow> fst (IncrementShareDownloadCount (sh_id v) (sh_max v) t)" by blast
  then show ?thesis
  proof cases
    case 1
    with ok s show ?thesis by auto
  next
    case 2
    note v = validateShare_Inr [OF 2(1)]
    have step: "shares_ok (t_shares t')"
      using share_step_ok [OF ss_download ok, of "sh_id v" "sh_max v"] 2(2) by (metis prod.collapse)
    show ?thesis
    proof (cases "sh_id v = sh_id s")
      case True
      have vs: "v = s" using ok v s(1) True unfolding shares_ok_def by (metis distinct_map inj_onD)
      let ?s = "if sh_count s < n then s\<lparr>sh_count := sh_count s + 1\<rparr> else s"
      have inc: "t' = on_share (sh_id s) (\<lambda>x. if sh_count x < n then x\<lparr>sh_count := sh_count x + 1\<rparr> else x) t"
        using 2(2) s(3) vs by (simp add: IncrementShareDownloadCount_def)
      then have "?s \<in> set (t_shares t')" using s(1) by (force simp: shares_on_share)
      moreover have "sh_count s < n" if "content_sent rp"
      proof -
        from 2(3) that s(3) vs obtain x where "x \<in> set (t_shares t)" "sh_id x = sh_id s" "sh_count x < n"
          by (auto simp: IncrementShareDownloadCount_def)
        with ok s(1) show ?thesis unfolding shares_ok_def by (metis distinct_map inj_onD)
      qed
      ultimately show ?thesis using step s by (intro conjI bexI [of _ ?s]) auto
    next
      case False
      then have "s \<in> set (t_shares t')" using 2(2) s(1)
        by (force simp: IncrementShareDownloadCount_def shares_on_share split: option.split_asm)
      moreover have "pq_token r \<noteq> tok" using False shares_okD [OF ok _ s(1) _ s(2), of v] v by auto
      ultimately show ?thesis using step s by auto
    qed
  qed
qed

text \<open>C19: The download limit holds.  However many requests reach the download route, for whatever
  tokens, the content of a share with a limit of n downloads is sent at most n times in all: as
  often as the counter was still below the limit at the start.  A request that panics while it
  sends counts as sent.\<close>

theorem downloads_respect_limit:
  assumes "share_run rt t" and "s \<in> set (t_shares t)" and "sh_token s = Some tok" and "sh_max s = Some n"
  shows "length (filter (\<lambda>x. pq_token (fst x) = tok \<and> content_sent (snd x)) (fst (serve_all E B writes rs (t, b)))) \<le> nat (n - sh_count s)"
proof -
  have "shares_ok (t_shares t)" using assms(1) by (rule share_run_ok)
  from this assms(2-4) show ?thesis
  proof (induction rs arbitrary: t b s)
    case (Cons r rs)
    obtain rp t' b' where run: "downloadSharedFile E B writes r (t, b) = (rp, t', b')" by (metis prod.collapse)
    from limited_step [OF Cons.prems run] obtain s' where s': "shares_ok (t_shares t')" "s' \<in> set (t_shares t')" "sh_token s' = Some tok"
      "sh_max s' = Some n" "sh_count s \<le> sh_count s'"
      "pq_token r = tok \<and> content_sent rp \<longrightarrow> sh_count s < n \<and> sh_count s' = sh_count s + 1" by blast
    let ?rest = "length (filter (\<lambda>x. pq_token (fst x) = tok \<and> content_sent (snd x)) (fst (serve_all E B writes rs (t', b'))))"
    have "?rest \<le> nat (n - sh_count s')" using Cons.IH [OF s'(1-4)] .
    then have "(if pq_token r = tok \<and> content_sent rp then Suc ?rest else ?rest) \<le> nat (n - sh_count s)" using s'(5,6) by auto
    then show ?case by (auto simp: run case_prod_beta split: if_split_asm)
  qed simp
qed

theorem downloads_respect_limit_witness:
  "\<exists>t s. t_shares t = [s] \<and> sh_max s = Some 1 \<and> sh_token s \<noteq> None \<and>
     length (filter (\<lambda>x. pq_token (fst x) = the (sh_token s) \<and> content_sent (snd x))
       (fst (serve_all share_demo_env (local_backend ''/d'') (\<lambda>_. None) (replicate 7 \<lparr>pq_token = the (sh_token s), pq_body = False, pq_ctype = [],
          pq_body_password = None, pq_auth = [], pq_query = [], pq_range = [], pq_now = 0\<rparr>) (t, shared_fs)))) \<le> 1"
proof -
  let ?s = "\<lparr>sh_id = ''s'', sh_file = ''f'', sh_by = ''u'', sh_type = ''link'', sh_token = Some ''k'', sh_password = None, sh_expires = None,
     sh_max = Some 1, sh_count = 0, sh_upload = False, sh_preview = False, sh_with = None, sh_perm = ''read'', sh_key = [], sh_active = True,
     sh_views = 0, sh_created = 0, sh_updated = 0\<rparr>"
  let ?t = "(share_demo None)\<lparr>t_shares := [?s]\<rparr>"
  have "CreateShare (\<lambda>x. x) ?s (share_demo None) = Inr ?t" by (simp add: CreateShare_def share_demo_def rfc3339_def)
  then have run: "share_run (\<lambda>x. x) ?t"
    by (intro shr_next [OF shr_start ss_create]) (simp_all add: share_demo_def)
  show ?thesis using downloads_respect_limit [OF run, of ?s "''k''" 1 share_demo_env "local_backend ''/d''" "\<lambda>_. None" _ shared_fs]
    by (intro exI [of _ ?t] exI [of _ ?s]) simp
qed

text \<open>The stream route ignores the limit and the preview flag.  For a stored file behind a valid share
  whose password was given, the stream route sends the whole content with 200 and changes no
  table, whatever the share's limit, counter and preview flag are; the download route refuses with
  403 when the share is for preview only or its limit is reached.\<close>

theorem stream_bypasses_limit:
  assumes "pq_token r \<noteq> []" and "validateShare (pq_now r) (pq_token r) t = Inr (s, f)"
    and "authenticateSharePassword E r s = (None :: public_info reply option)" and "shared_manifest f (t_db t) = Inr m" and "holds dir b m ws"
    and "pq_range r = []"
  shows "(\<exists>rp b'. streamSharedFile E (local_backend dir) (\<lambda>_. None) r (t, b) = (Returns rp, t, b') \<and> rp_status rp = 200 \<and> rp_body rp = BytesBody (concat ws))
    \<and> (sh_preview s \<or> (\<exists>n. sh_max s = Some n \<and> (\<forall>x \<in> set (t_shares t). sh_id x = sh_id s \<longrightarrow> n \<le> sh_count x)) \<longrightarrow>
        (\<exists>rp t'. downloadSharedFile E (local_backend dir) (\<lambda>_. None) r (t, b) = (Returns rp, t', b) \<and> rp_status rp = 403 \<and> t_shares t' = t_shares t))"
proof -
  from holds_sent [OF assms(5)] obtain b' where "public_streamContent (local_backend dir) (\<lambda>_. None) m b = (concat ws, b')" by blast
  then have stream: "\<exists>rp b'. streamSharedFile E (local_backend dir) (\<lambda>_. None) r (t, b) = (Returns rp, t, b') \<and> rp_status rp = 200 \<and> rp_body rp = BytesBody (concat ws)"
    using assms(1-4,6) by (simp add: streamSharedFile_def Let_def)
  have pre: "\<exists>rp. downloadSharedFile E (local_backend dir) (\<lambda>_. None) r (t, b) = (Returns rp, t, b) \<and> rp_status rp = 403" if "sh_preview s"
    using assms(1-3) that by (simp add: downloadSharedFile_def)
  have full: "\<exists>rp t'. downloadSharedFile E (local_backend dir) (\<lambda>_. None) r (t, b) = (Returns rp, t', b) \<and> rp_status rp = 403 \<and> t_shares t' = t_shares t"
    if "\<not> sh_preview s" and n: "sh_max s = Some n" "\<forall>x \<in> set (t_shares t). sh_id x = sh_id s \<longrightarrow> n \<le> sh_count x" for n
  proof -
    from n(2) have "\<not> fst (IncrementShareDownloadCount (sh_id s) (Some n) t)" by (auto simp: IncrementShareDownloadCount_def)
    moreover have "t_shares (snd (IncrementShareDownloadCount (sh_id s) (Some n) t)) = t_shares t"
      using n(2) by (auto simp: IncrementShareDownloadCount_def shares_on_share intro!: map_idI)
    ultimately show ?thesis using assms(1-3) that(1) n(1) by (auto simp: downloadSharedFile_def case_prod_beta)
  qed
  show ?thesis using stream pre full by blast
qed

theorem stream_bypasses_limit_witness:
  "\<exists>t s rp b'. t_shares t = [s] \<and> sh_preview s \<and> sh_max s = Some 0
     \<and> streamSharedFile share_demo_env (local_backend ''/d'') (\<lambda>_. None) \<lparr>pq_token = ''k'', pq_body = False, pq_ctype = [],
          pq_body_password = None, pq_auth = [], pq_query = [], pq_range = [], pq_now = 0\<rparr> (t, shared_fs) = (Returns rp, t, b')
     \<and> rp_body rp = BytesBody [1, 2, 3, 4, 5]"
proof -
  let ?r = "\<lparr>pq_token = ''k'', pq_body = False, pq_ctype = [], pq_body_password = None, pq_auth = [], pq_query = [], pq_range = [], pq_now = 0\<rparr>"
  let ?s = "\<lparr>sh_id = ''s'', sh_file = ''f'', sh_by = ''u'', sh_type = ''link'', sh_token = Some ''k'', sh_password = None, sh_expires = None,
     sh_max = Some 0, sh_count = 0, sh_upload = False, sh_preview = True, sh_with = None, sh_perm = ''read'', sh_key = [], sh_active = True,
     sh_views = 0, sh_created = 0, sh_updated = 0\<rparr>"
  let ?t = "\<lparr>t_db = empty_db\<lparr>files := [shared_row ''m''], manifests := [shared_version]\<rparr>, t_sessions = [], t_tokens = [], t_shares = [?s]\<rparr>"
  have "validateShare (pq_now ?r) (pq_token ?r) ?t = Inr (?s, shared_row ''m'')"
    by (simp add: validateShare_def GetShareByToken_def GetFileByID_def shared_row_def sample_file_def)
  moreover have "shared_manifest (shared_row ''m'') (t_db ?t) = Inr shared_version"
    by (simp add: shared_manifest_def shared_row_def GetManifest_def shared_version_def)
  moreover have "authenticateSharePassword share_demo_env ?r ?s = None" by (simp add: authenticateSharePassword_def)
  ultimately show ?thesis using stream_bypasses_limit [OF _ _ _ _ shared_holds, of ?r ?t ?s "shared_row ''m''" share_demo_env]
    by (intro exI [of _ ?t] exI [of _ ?s]) auto
qed

end
