(* ===== verification/Events.thy ===== *)
theory Events
  imports Shares
begin

text \<open>
  Events for the clients of a user (\<^verbatim>\<open>src/internal/server/events.go\<close>).  Subscribers are objects
  shared by the registry and the event loop: they live in \<open>nt_objects\<close> and are named by their
  position there.  The operations of the clients and the moves of the loop interleave: the loop
  takes an event, checks one subscriber (under its lock) and sends to it (without the lock), so a
  subscriber can be closed in between.
\<close>

section \<open>State\<close>

record 'd event =
  ev_type :: string
  ev_user :: string
  ev_folder :: string
  ev_file :: string
  ev_data :: 'd
  ev_time :: int

definition SSEventFileCreated :: string where "SSEventFileCreated = ''file:created''"
definition SSEventFileUpdated :: string where "SSEventFileUpdated = ''file:updated''"
definition SSEventFileDeleted :: string where "SSEventFileDeleted = ''file:deleted''"
definition SSEventFileMoved :: string where "SSEventFileMoved = ''file:moved''"
definition SSEventFolderCreated :: string where "SSEventFolderCreated = ''folder:created''"
definition SSEventFolderUpdated :: string where "SSEventFolderUpdated = ''folder:updated''"
definition SSEventFolderDeleted :: string where "SSEventFolderDeleted = ''folder:deleted''"

record 'd subscriber =
  sub_id :: string
  sub_user :: string
  sub_folders :: "string list"
  sub_events :: "'d event list"
  sub_closed :: bool

datatype 'd loop_state = Waiting | Sending "'d event" "nat list" | Checked "'d event" nat "nat list" | Stopped | Crashed

record 'd notifier =
  nt_objects :: "'d subscriber list"
  nt_subs :: "(string \<times> nat) list"
  nt_queue :: "'d event list"
  nt_loop :: "'d loop_state"

definition NewEventNotifier :: "'d notifier" where
  "NewEventNotifier = \<lparr>nt_objects = [], nt_subs = [], nt_queue = [], nt_loop = Waiting\<rparr>"

section \<open>Operations of the clients\<close>

definition generateSubscriberID :: "byte list option \<Rightarrow> byte list \<Rightarrow> string" where
  "generateSubscriberID rnd fallback =
     ''sub_'' @ (case generateRandomString rnd of Inr s \<Rightarrow> s | Inl e \<Rightarrow> HexEncode fallback)"

definition Subscribe :: "string \<Rightarrow> string \<Rightarrow> 'd notifier \<Rightarrow> nat \<times> 'd notifier" where
  "Subscribe sid userID n =
     (length (nt_objects n),
      n\<lparr>nt_objects := nt_objects n @ [\<lparr>sub_id = sid, sub_user = userID, sub_folders = [], sub_events = [], sub_closed = False\<rparr>],
        nt_subs := al_put (nt_subs n) sid (length (nt_objects n))\<rparr>)"

definition at_object :: "nat \<Rightarrow> ('d subscriber \<Rightarrow> 'd subscriber) \<Rightarrow> 'd notifier \<Rightarrow> 'd notifier" where
  "at_object p h n = n\<lparr>nt_objects := (nt_objects n)[p := h (nt_objects n ! p)]\<rparr>"

definition Unsubscribe :: "string \<Rightarrow> 'd notifier \<Rightarrow> 'd notifier" where
  "Unsubscribe sid n =
     (case al_get (nt_subs n) sid of
        None \<Rightarrow> n
      | Some p \<Rightarrow> at_object p (\<lambda>s. s\<lparr>sub_closed := True\<rparr>) (n\<lparr>nt_subs := al_del (nt_subs n) sid\<rparr>))"

definition SubscribeFolder :: "string \<Rightarrow> string \<Rightarrow> 'd notifier \<Rightarrow> 'd notifier" where
  "SubscribeFolder sid folderID n =
     (case al_get (nt_subs n) sid of
        None \<Rightarrow> n
      | Some p \<Rightarrow> at_object p (\<lambda>s. s\<lparr>sub_folders := List.insert folderID (sub_folders s)\<rparr>) n)"

definition UnsubscribeFolder :: "string \<Rightarrow> string \<Rightarrow> 'd notifier \<Rightarrow> 'd notifier" where
  "UnsubscribeFolder sid folderID n =
     (case al_get (nt_subs n) sid of
        None \<Rightarrow> n
      | Some p \<Rightarrow> at_object p (\<lambda>s. s\<lparr>sub_folders := filter (\<lambda>x. x \<noteq> folderID) (sub_folders s)\<rparr>) n)"

text \<open>The channel of the loop holds 256 events; a full channel drops the event.\<close>

definition Notify :: "int \<Rightarrow> 'd event \<Rightarrow> 'd notifier \<Rightarrow> 'd notifier" where
  "Notify now ev n =
     (let ev' = (if ev_time ev = 0 then ev\<lparr>ev_time := unix_seconds now\<rparr> else ev)
      in if length (nt_queue n) < 256 then n\<lparr>nt_queue := nt_queue n @ [ev']\<rparr> else n)"

definition NotifyUser :: "int \<Rightarrow> string \<Rightarrow> string \<Rightarrow> 'd \<Rightarrow> 'd notifier \<Rightarrow> 'd notifier" where
  "NotifyUser now userID eventType x n =
     Notify now \<lparr>ev_type = eventType, ev_user = userID, ev_folder = [], ev_file = [], ev_data = x, ev_time = 0\<rparr> n"

definition file_change :: "string \<Rightarrow> string \<Rightarrow> string \<Rightarrow> string \<Rightarrow> 'd \<Rightarrow> 'd event" where
  "file_change userID folderID fileID eventType x =
     \<lparr>ev_type = eventType, ev_user = userID, ev_folder = folderID, ev_file = fileID, ev_data = x, ev_time = 0\<rparr>"

definition NotifyFileChange :: "int \<Rightarrow> string \<Rightarrow> string \<Rightarrow> string \<Rightarrow> string \<Rightarrow> 'd \<Rightarrow> 'd notifier \<Rightarrow> 'd notifier" where
  "NotifyFileChange now userID folderID fileID eventType x n = Notify now (file_change userID folderID fileID eventType x) n"

section \<open>The event loop\<close>

definition wants :: "'d event \<Rightarrow> 'd subscriber \<Rightarrow> bool" where
  "wants ev s \<longleftrightarrow> sub_user s = ev_user ev
     \<and> (ev_folder ev \<noteq> [] \<longrightarrow> ev_folder ev \<in> set (sub_folders s) \<or> ''*'' \<in> set (sub_folders s))"

definition targets :: "'d event \<Rightarrow> 'd notifier \<Rightarrow> nat list" where
  "targets ev n = filter (\<lambda>p. wants ev (nt_objects n ! p)) (map snd (nt_subs n))"

text \<open>A subscriber's channel holds 64 events.  Sending on a closed channel panics, also inside a
  \<^verbatim>\<open>select\<close> with a default.\<close>

definition send_event :: "'d event \<Rightarrow> nat \<Rightarrow> 'd notifier \<Rightarrow> 'd notifier" where
  "send_event ev p n =
     (if length (sub_events (nt_objects n ! p)) < 64 then at_object p (\<lambda>s. s\<lparr>sub_events := sub_events s @ [ev]\<rparr>) n else n)"

text \<open>One call of \<^verbatim>\<open>processEvent\<close> that nothing interrupts.\<close>

definition deliver :: "'d event \<Rightarrow> nat \<Rightarrow> 'd notifier \<Rightarrow> 'd notifier" where
  "deliver ev p n = (if sub_closed (nt_objects n ! p) then n else send_event ev p n)"

definition processEvent :: "'d event \<Rightarrow> 'd notifier \<Rightarrow> 'd notifier" where
  "processEvent ev n = fold (deliver ev) (targets ev n) n"

text \<open>The moves of the loop, one lock or channel operation each.\<close>

fun loop_move :: "'d notifier \<Rightarrow> 'd notifier option" where
  "loop_move n =
     (case nt_loop n of
        Waiting \<Rightarrow> (case nt_queue n of [] \<Rightarrow> None | ev # q \<Rightarrow> Some (n\<lparr>nt_queue := q, nt_loop := Sending ev (targets ev n)\<rparr>))
      | Sending ev [] \<Rightarrow> Some (n\<lparr>nt_loop := Waiting\<rparr>)
      | Sending ev (p # ps) \<Rightarrow>
          Some (n\<lparr>nt_loop := (if sub_closed (nt_objects n ! p) then Sending ev ps else Checked ev p ps)\<rparr>)
      | Checked ev p ps \<Rightarrow>
          Some (if sub_closed (nt_objects n ! p) then n\<lparr>nt_loop := Crashed\<rparr> else send_event ev p (n\<lparr>nt_loop := Sending ev ps\<rparr>))
      | Stopped \<Rightarrow> None
      | Crashed \<Rightarrow> None)"

text \<open>\<^verbatim>\<open>close(n.stop)\<close> is seen the next time the loop waits.\<close>

definition notifier_Close :: "'d notifier \<Rightarrow> 'd notifier" where
  "notifier_Close n = (if nt_loop n = Waiting then n\<lparr>nt_loop := Stopped\<rparr> else n)"

section \<open>Requests\<close>

definition receive_event :: "nat \<Rightarrow> 'd notifier \<Rightarrow> 'd event option \<times> 'd notifier" where
  "receive_event p n =
     (case sub_events (nt_objects n ! p) of
        [] \<Rightarrow> (None, n)
      | ev # evs \<Rightarrow> (Some ev, at_object p (\<lambda>s. s\<lparr>sub_events := evs\<rparr>) n))"

definition newline :: string where "newline = [CHR 0x0A]"

definition sse_headers :: headers where
  "sse_headers = [(''Content-Type'', ''text/event-stream''), (''Cache-Control'', ''no-cache''), (''Connection'', ''keep-alive'')]"

definition sse_frame :: "('d event \<Rightarrow> string) \<Rightarrow> 'd event \<Rightarrow> string" where
  "sse_frame json ev = ''event: '' @ ev_type ev @ newline @ ''id: '' @ dec_int (ev_time ev) @ newline
     @ ''data: '' @ json ev @ newline @ newline"

definition quote :: string where "quote = [CHR 0x22]"

definition connected_frame :: "string \<Rightarrow> string" where
  "connected_frame sid = ''event: connected'' @ newline @ ''data: {'' @ quote @ ''status'' @ quote @ '':'' @ quote @ ''connected'' @ quote
     @ '','' @ quote @ ''subscriber_id'' @ quote @ '':'' @ quote @ sid @ quote @ ''}'' @ newline @ newline"

definition ping_frame :: string where
  "ping_frame = ''event: ping'' @ newline @ ''data: {}'' @ newline @ newline"

definition subscribe_to :: "string \<Rightarrow> string \<Rightarrow> string \<Rightarrow> 'd notifier \<Rightarrow> nat \<times> 'd notifier" where
  "subscribe_to sid userID folderID n =
     (let (p, n1) = Subscribe sid userID n in (p, if folderID = [] then n1 else SubscribeFolder sid folderID n1))"

text \<open>\<^verbatim>\<open>HandleSSE\<close> up to its loop: the error reply, or the object it listens to and the first frame.\<close>

definition HandleSSE :: "bool \<Rightarrow> string \<Rightarrow> string \<Rightarrow> string \<Rightarrow> 'd notifier \<Rightarrow> (unit reply + nat \<times> string) \<times> 'd notifier" where
  "HandleSSE flusher sid userID folderID n =
     (if userID = [] then (Inl (http_Error [] 401 ''Unauthorized''), n)
      else if \<not> flusher then (Inl (http_Error sse_headers 500 ''Streaming not supported''), n)
      else (let (p, n') = subscribe_to sid userID folderID n in (Inr (p, connected_frame sid), n')))"

text \<open>The loop of \<^verbatim>\<open>HandleSSE\<close>: what its select sees, and the text it writes; \<open>None\<close> when it ends.\<close>

datatype 'd sse_input = ClientGone | Tick | Incoming "'d event option"

fun sse_round :: "('d event \<Rightarrow> string) \<Rightarrow> 'd sse_input \<Rightarrow> string option" where
  "sse_round json ClientGone = None"
| "sse_round json Tick = Some ping_frame"
| "sse_round json (Incoming None) = None"
| "sse_round json (Incoming (Some ev)) = Some (sse_frame json ev)"

text \<open>\<^verbatim>\<open>HandleLongPoll\<close>: its subscription, and its answer when an event or the timeout comes.\<close>

definition HandleLongPoll :: "string \<Rightarrow> string \<Rightarrow> string \<Rightarrow> 'd notifier \<Rightarrow> (unit reply + nat) \<times> 'd notifier" where
  "HandleLongPoll sid userID folderID n =
     (if userID = [] then (Inl (http_Error [] 401 ''Unauthorized''), n)
      else (let (p, n') = subscribe_to sid userID folderID n in (Inr p, n')))"

definition poll_answer :: "string \<Rightarrow> nat \<Rightarrow> 'd notifier \<Rightarrow> 'd event option reply \<times> 'd notifier" where
  "poll_answer sid p n =
     (let (ev, n') = receive_event p n
      in (\<lparr>rp_status = 200, rp_headers = [(''Content-Type'', ''application/json'')], rp_body = JsonBody ev\<rparr>, Unsubscribe sid n'))"

section \<open>Runs\<close>

inductive notifier_step :: "'d notifier \<Rightarrow> 'd notifier \<Rightarrow> bool" where
  ns_subscribe: "notifier_step n (snd (Subscribe sid u n))"
| ns_unsubscribe: "notifier_step n (Unsubscribe sid n)"
| ns_folder: "notifier_step n (SubscribeFolder sid k n)"
| ns_unfolder: "notifier_step n (UnsubscribeFolder sid k n)"
| ns_notify: "notifier_step n (Notify now ev n)"
| ns_loop: "loop_move n = Some n' \<Longrightarrow> notifier_step n n'"
| ns_receive: "p < length (nt_objects n) \<Longrightarrow> notifier_step n (snd (receive_event p n))"
| ns_close: "notifier_step n (notifier_Close n)"

inductive notifier_run :: "'d notifier \<Rightarrow> bool" where
  nr_start: "notifier_run NewEventNotifier"
| nr_next: "notifier_run n \<Longrightarrow> notifier_step n n' \<Longrightarrow> notifier_run n'"

text \<open>What holds in every state: pointers are valid, channels are within their capacity, and an event
  is only ever on its way to a subscriber of its user.\<close>

fun loop_targets :: "'d loop_state \<Rightarrow> ('d event \<times> nat) list" where
  "loop_targets (Sending ev ps) = map (Pair ev) ps"
| "loop_targets (Checked ev p ps) = map (Pair ev) (p # ps)"
| "loop_targets _ = []"

definition subscriber_ok :: "'d subscriber \<Rightarrow> bool" where
  "subscriber_ok s \<longleftrightarrow> length (sub_events s) \<le> 64 \<and> (\<forall>ev \<in> set (sub_events s). ev_user ev = sub_user s)"

definition notifier_ok :: "'d notifier \<Rightarrow> bool" where
  "notifier_ok n \<longleftrightarrow> (\<forall>p \<in> snd ` set (nt_subs n). p < length (nt_objects n))
     \<and> (\<forall>s \<in> set (nt_objects n). subscriber_ok s) \<and> length (nt_queue n) \<le> 256
     \<and> distinct (map snd (nt_subs n))
     \<and> (\<forall>x \<in> set (loop_targets (nt_loop n)). snd x < length (nt_objects n) \<and> sub_user (nt_objects n ! snd x) = ev_user (fst x))"

lemma notifier_ok_loop:
  assumes "notifier_ok n"
    and "\<And>x. x \<in> set (loop_targets l) \<Longrightarrow> snd x < length (nt_objects n) \<and> sub_user (nt_objects n ! snd x) = ev_user (fst x)"
  shows "notifier_ok (n\<lparr>nt_loop := l\<rparr>)"
  using assms by (simp add: notifier_ok_def)

lemma at_object_fields [simp]: "nt_subs (at_object p h n) = nt_subs n" "nt_queue (at_object p h n) = nt_queue n"
  "nt_loop (at_object p h n) = nt_loop n" "nt_objects (at_object p h n) = (nt_objects n)[p := h (nt_objects n ! p)]"
  by (simp_all add: at_object_def)

lemma at_object_ok:
  assumes "notifier_ok n" and "\<And>s. subscriber_ok s \<Longrightarrow> s = nt_objects n ! p \<Longrightarrow> subscriber_ok (h s)" and "\<And>s. sub_user (h s) = sub_user s"
  shows "notifier_ok (at_object p h n)"
proof (cases "p < length (nt_objects n)")
  case True
  have u: "sub_user ((nt_objects n)[p := h (nt_objects n ! p)] ! q) = sub_user (nt_objects n ! q)" for q
    using assms(3) True by (cases "q = p") simp_all
  have "\<forall>s \<in> set ((nt_objects n)[p := h (nt_objects n ! p)]). subscriber_ok s"
    using assms True set_update_subset_insert [of "nt_objects n" p "h (nt_objects n ! p)"] by (force simp: notifier_ok_def)
  with assms(1) u show ?thesis by (simp add: notifier_ok_def)
next
  case False
  with assms(1) show ?thesis by (simp add: notifier_ok_def list_update_beyond)
qed

lemma al_put_values: "snd ` set (al_put m k v) \<subseteq> insert v (snd ` set m)"
  by (induction m k v rule: al_put.induct) auto

lemma al_get_value: "al_get m k = Some v \<Longrightarrow> v \<in> snd ` set m"
  using al_get_Some_set by force

lemma targets_ok: "notifier_ok n \<Longrightarrow> p \<in> set (targets ev n) \<Longrightarrow> p < length (nt_objects n) \<and> sub_user (nt_objects n ! p) = ev_user ev"
  by (auto simp: targets_def wants_def notifier_ok_def)

lemma al_put_distinct: "distinct (map snd m) \<Longrightarrow> v \<notin> snd ` set m \<Longrightarrow> distinct (map snd (al_put m k v))"
proof (induction m k v rule: al_put.induct)
  case (2 k' v' m k v)
  then show ?case using al_put_values [of m k v] by auto
qed simp

lemma Subscribe_ok: "notifier_ok n \<Longrightarrow> notifier_ok (snd (Subscribe sid u n))"
proof -
  assume ok: "notifier_ok n"
  let ?l = "length (nt_objects n)" and ?n = "snd (Subscribe sid u n)"
  have fresh: "?l \<notin> snd ` set (nt_subs n)" using ok by (fastforce simp: notifier_ok_def)
  have "\<forall>p \<in> snd ` set (nt_subs ?n). p < length (nt_objects ?n)"
    using ok al_put_values [of "nt_subs n" sid ?l] by (fastforce simp: Subscribe_def notifier_ok_def)
  moreover have "distinct (map snd (nt_subs ?n))"
    using ok al_put_distinct [OF _ fresh] by (simp add: Subscribe_def notifier_ok_def)
  ultimately show ?thesis using ok by (auto simp: Subscribe_def notifier_ok_def subscriber_ok_def nth_append less_SucI)
qed

lemma Unsubscribe_ok: "notifier_ok n \<Longrightarrow> notifier_ok (Unsubscribe sid n)"
proof (cases "al_get (nt_subs n) sid")
  case (Some p)
  assume "notifier_ok n"
  then have "notifier_ok (n\<lparr>nt_subs := al_del (nt_subs n) sid\<rparr>)" by (auto simp: notifier_ok_def al_del_def distinct_map_filter)
  then have "notifier_ok (at_object p (\<lambda>s. s\<lparr>sub_closed := True\<rparr>) (n\<lparr>nt_subs := al_del (nt_subs n) sid\<rparr>))"
    by (rule at_object_ok) (simp_all add: subscriber_ok_def)
  with Some show ?thesis by (simp add: Unsubscribe_def)
qed (simp add: Unsubscribe_def)

lemma SubscribeFolder_ok: "notifier_ok n \<Longrightarrow> notifier_ok (SubscribeFolder sid k n)"
  "notifier_ok n \<Longrightarrow> notifier_ok (UnsubscribeFolder sid k n)"
  by (auto simp: SubscribeFolder_def UnsubscribeFolder_def subscriber_ok_def intro!: at_object_ok split: option.split)

lemma send_event_ok:
  assumes "notifier_ok n" and "sub_user (nt_objects n ! p) = ev_user ev"
  shows "notifier_ok (send_event ev p n)"
  using assms by (auto simp: send_event_def subscriber_ok_def intro!: at_object_ok)

lemma loop_move_ok:
  assumes "loop_move n = Some n'" and ok: "notifier_ok n"
  shows "notifier_ok n'"
proof (cases "nt_loop n")
  case Waiting
  with assms(1) obtain ev q where q: "nt_queue n = ev # q" "n' = n\<lparr>nt_queue := q, nt_loop := Sending ev (targets ev n)\<rparr>"
    by (auto split: list.split_asm)
  have "notifier_ok (n\<lparr>nt_queue := q\<rparr>)" using ok q(1) by (simp add: notifier_ok_def)
  from notifier_ok_loop [OF this, of "Sending ev (targets ev n)"] have "notifier_ok (n\<lparr>nt_queue := q, nt_loop := Sending ev (targets ev n)\<rparr>)"
    using targets_ok [OF ok, of _ ev] by fastforce
  then show ?thesis unfolding q(2) by simp
next
  case (Sending ev ps)
  with ok have t: "x \<in> set ps \<Longrightarrow> x < length (nt_objects n) \<and> sub_user (nt_objects n ! x) = ev_user ev" for x
    by (auto simp: notifier_ok_def)
  show ?thesis
  proof (cases ps)
    case Nil
    with assms(1) Sending notifier_ok_loop [OF ok, of Waiting] show ?thesis by simp
  next
    case (Cons p qs)
    with assms(1) Sending have n': "n' = n\<lparr>nt_loop := (if sub_closed (nt_objects n ! p) then Sending ev qs else Checked ev p qs)\<rparr>" by simp
    show ?thesis unfolding n' by (rule notifier_ok_loop [OF ok]) (use t Cons in \<open>auto split: if_split_asm\<close>)
  qed
next
  case (Checked ev p ps)
  with ok have u: "sub_user (nt_objects n ! p) = ev_user ev" by (simp add: notifier_ok_def)
  have "notifier_ok (n\<lparr>nt_loop := Sending ev ps\<rparr>)" "notifier_ok (n\<lparr>nt_loop := Crashed\<rparr>)"
    by (rule notifier_ok_loop [OF ok]; use ok Checked in \<open>auto simp: notifier_ok_def\<close>)+
  with send_event_ok [of "n\<lparr>nt_loop := Sending ev ps\<rparr>" p ev] u assms(1) Checked show ?thesis by (auto split: if_split_asm)
qed (use assms in auto)

lemma receive_event_ok: "notifier_ok n \<Longrightarrow> notifier_ok (snd (receive_event p n))"
proof (cases "sub_events (nt_objects n ! p)")
  case (Cons ev evs)
  assume "notifier_ok n"
  then have "notifier_ok (at_object p (\<lambda>s. s\<lparr>sub_events := evs\<rparr>) n)"
    by (rule at_object_ok) (use Cons in \<open>simp_all add: subscriber_ok_def\<close>)
  with Cons show ?thesis by (simp add: receive_event_def)
qed (simp add: receive_event_def)

lemma notifier_step_ok: "notifier_step n n' \<Longrightarrow> notifier_ok n \<Longrightarrow> notifier_ok n'"
proof (induction rule: notifier_step.induct)
  case (ns_notify n now ev)
  then show ?case by (auto simp: Notify_def notifier_ok_def Let_def)
next
  case (ns_loop n n')
  then show ?case using loop_move_ok by blast
next
  case (ns_close n)
  then show ?case by (auto simp: notifier_Close_def notifier_ok_def)
qed (simp_all add: Subscribe_ok Unsubscribe_ok SubscribeFolder_ok receive_event_ok)

lemma notifier_run_ok: "notifier_run n \<Longrightarrow> notifier_ok n"
proof (induction rule: notifier_run.induct)
  case nr_start
  then show ?case by (simp add: NewEventNotifier_def notifier_ok_def)
qed (rule notifier_step_ok)

section \<open>A delivery that nothing interrupts\<close>

fun loop_moves :: "nat \<Rightarrow> 'd notifier \<Rightarrow> 'd notifier option" where
  "loop_moves 0 n = Some n"
| "loop_moves (Suc k) n = (case loop_move n of None \<Rightarrow> None | Some n' \<Rightarrow> loop_moves k n')"

lemma send_event_loop [simp]: "nt_loop (send_event ev p n) = nt_loop n" "nt_queue (send_event ev p n) = nt_queue n"
  "send_event ev p (n\<lparr>nt_loop := l\<rparr>) = (send_event ev p n)\<lparr>nt_loop := l\<rparr>"
  by (simp_all add: send_event_def at_object_def)

lemma Sending_runs:
  "\<exists>k. loop_moves k (n\<lparr>nt_loop := Sending ev ps\<rparr>) = Some ((fold (deliver ev) ps n)\<lparr>nt_loop := Waiting\<rparr>)"
proof (induction ps arbitrary: n)
  case Nil
  have "loop_moves 1 (n\<lparr>nt_loop := Sending ev []\<rparr>) = Some (n\<lparr>nt_loop := Waiting\<rparr>)" by simp
  then show ?case unfolding fold_simps id_apply by blast
next
  case (Cons p ps)
  show ?case
  proof (cases "sub_closed (nt_objects n ! p)")
    case True
    then have d: "deliver ev p n = n" by (simp add: deliver_def)
    from Cons [of n] obtain k where "loop_moves k (n\<lparr>nt_loop := Sending ev ps\<rparr>) = Some ((fold (deliver ev) ps n)\<lparr>nt_loop := Waiting\<rparr>)" ..
    with True have "loop_moves (Suc k) (n\<lparr>nt_loop := Sending ev (p # ps)\<rparr>) = Some ((fold (deliver ev) (p # ps) n)\<lparr>nt_loop := Waiting\<rparr>)"
      by (simp add: d)
    then show ?thesis ..
  next
    case False
    then have d: "deliver ev p n = send_event ev p n" by (simp add: deliver_def)
    from Cons [of "send_event ev p n"] obtain k where
      "loop_moves k ((send_event ev p n)\<lparr>nt_loop := Sending ev ps\<rparr>) = Some ((fold (deliver ev) ps (send_event ev p n))\<lparr>nt_loop := Waiting\<rparr>)" ..
    with False have "loop_moves (Suc (Suc k)) (n\<lparr>nt_loop := Sending ev (p # ps)\<rparr>) = Some ((fold (deliver ev) (p # ps) n)\<lparr>nt_loop := Waiting\<rparr>)"
      by (simp add: d)
    then show ?thesis ..
  qed
qed

lemma deliver_length [simp]: "length (nt_objects (deliver ev p n)) = length (nt_objects n)"
  by (simp add: deliver_def send_event_def)

lemma fold_deliver_queue: "nt_queue (fold (deliver ev) ps n) = nt_queue n \<and> nt_loop (fold (deliver ev) ps n) = nt_loop n"
  by (induction ps arbitrary: n) (simp_all add: deliver_def)

definition receives :: "'d event \<Rightarrow> 'd subscriber \<Rightarrow> 'd subscriber" where
  "receives ev s = (if sub_closed s \<or> 64 \<le> length (sub_events s) then s else s\<lparr>sub_events := sub_events s @ [ev]\<rparr>)"

lemma deliver_at: "p < length (nt_objects n) \<Longrightarrow> nt_objects (deliver ev p n) ! q = (if q = p then receives ev (nt_objects n ! q) else nt_objects n ! q)"
  by (simp add: deliver_def send_event_def receives_def)

lemma fold_deliver_at:
  assumes "distinct ps" and "\<forall>p \<in> set ps. p < length (nt_objects n)"
  shows "nt_objects (fold (deliver ev) ps n) ! q = (if q \<in> set ps then receives ev (nt_objects n ! q) else nt_objects n ! q)"
  using assms
proof (induction ps arbitrary: n)
  case (Cons p ps)
  then have "p < length (nt_objects n)" by simp
  with Cons show ?case by (auto simp: deliver_at)
qed simp

section \<open>Properties\<close>

text \<open>C20: However the requests of clients and the moves of the event loop interleave, an event is only
  ever buffered for a subscriber of the user it is about, a subscriber's buffer holds at most 64
  events and the loop's channel at most 256.\<close>

theorem events_stay_with_their_user:
  assumes "notifier_run n"
  shows "length (nt_queue n) \<le> 256
    \<and> (\<forall>s \<in> set (nt_objects n). length (sub_events s) \<le> 64 \<and> (\<forall>ev \<in> set (sub_events s). ev_user ev = sub_user s))"
  using notifier_run_ok [OF assms] by (simp add: notifier_ok_def subscriber_ok_def)

definition demo_event :: "nat event" where
  "demo_event = \<lparr>ev_type = ''share:created'', ev_user = ''u'', ev_folder = [], ev_file = ''f'', ev_data = 0, ev_time = 7\<rparr>"

definition demo_notifier :: "nat notifier" where
  "demo_notifier = Notify 0 demo_event (snd (Subscribe ''s'' ''u'' NewEventNotifier))"

lemma demo_notifier_run: "notifier_run demo_notifier"
  unfolding demo_notifier_def by (blast intro: nr_start nr_next ns_notify ns_subscribe)

lemma loop_moves_run: "loop_moves k n = Some n' \<Longrightarrow> notifier_run n \<Longrightarrow> notifier_run n'"
  by (induction k arbitrary: n) (auto split: option.split_asm intro: nr_next ns_loop simp del: loop_move.simps)

theorem events_stay_with_their_user_witness:
  "length (nt_queue demo_notifier) \<le> 256 \<and> (length o sub_events) ` set (nt_objects demo_notifier) \<subseteq> {..64}"
  using events_stay_with_their_user [OF demo_notifier_run] by auto

text \<open>When nothing interrupts it, the loop takes the first event of its channel, appends it to the
  buffer of every registered subscriber of the event's user that is open, has room and follows the
  event's folder (or all folders, or the event has none), leaves every other buffer as it was and
  waits for the next event.  A subscriber without folders thus gets no event about a folder.\<close>

theorem loop_delivers:
  assumes "notifier_run n" and "nt_loop n = Waiting" and "nt_queue n = ev # q"
  shows "\<exists>k n'. loop_moves k n = Some n' \<and> nt_loop n' = Waiting \<and> nt_queue n' = q
    \<and> (\<forall>p < length (nt_objects n). nt_objects n' ! p =
         (if p \<in> snd ` set (nt_subs n) \<and> wants ev (nt_objects n ! p) then receives ev (nt_objects n ! p) else nt_objects n ! p))"
proof -
  have ok: "notifier_ok n" by (rule notifier_run_ok [OF assms(1)])
  let ?n = "n\<lparr>nt_queue := q\<rparr>"
  obtain k where k: "loop_moves k (?n\<lparr>nt_loop := Sending ev (targets ev n)\<rparr>) = Some ((fold (deliver ev) (targets ev n) ?n)\<lparr>nt_loop := Waiting\<rparr>)"
    using Sending_runs by blast
  then have "loop_moves (Suc k) n = Some ((fold (deliver ev) (targets ev n) ?n)\<lparr>nt_loop := Waiting\<rparr>)" using assms(2,3) by simp
  moreover have "distinct (targets ev n)" "\<forall>p \<in> set (targets ev n). p < length (nt_objects ?n)"
    using ok by (auto simp: targets_def notifier_ok_def)
  note fold_deliver_at [OF this]
  ultimately show ?thesis using fold_deliver_queue [of ev "targets ev n" ?n]
    by (intro exI [of _ "Suc k"] exI [of _ "(fold (deliver ev) (targets ev n) ?n)\<lparr>nt_loop := Waiting\<rparr>"]) (auto simp: targets_def)
qed

theorem loop_delivers_witness:
  "\<exists>k n'. loop_moves k demo_notifier = Some n' \<and> nt_queue n' = [] \<and> sub_events (nt_objects n' ! 0) = [demo_event]"
proof -
  have q: "nt_loop demo_notifier = Waiting" "nt_queue demo_notifier = demo_event # []"
    by (simp_all add: demo_notifier_def Notify_def NewEventNotifier_def Subscribe_def demo_event_def)
  have o: "0 < length (nt_objects demo_notifier)" "0 \<in> snd ` set (nt_subs demo_notifier)" "wants demo_event (nt_objects demo_notifier ! 0)"
    "sub_events (receives demo_event (nt_objects demo_notifier ! 0)) = [demo_event]"
    by (simp_all add: demo_notifier_def Notify_def NewEventNotifier_def Subscribe_def demo_event_def receives_def wants_def)
  from loop_delivers [OF demo_notifier_run q] obtain k n' where k: "loop_moves k demo_notifier = Some n'" "nt_queue n' = []"
    "nt_objects n' ! 0 = receives demo_event (nt_objects demo_notifier ! 0)" using o by metis
  have "sub_events (nt_objects n' ! 0) = [demo_event]" using k(3) o(4) by simp
  with k(1,2) show ?thesis by blast
qed

text \<open>The loop checks that a subscriber is open under its lock and sends after releasing it.  When
  the client disconnects in between, the loop sends on a closed channel and panics; it runs in a
  goroutine of its own where nothing recovers, so the server process ends.\<close>

theorem disconnect_crashes_loop:
  assumes "notifier_run n" and "nt_loop n = Checked ev p ps" and "al_get (nt_subs n) sid = Some p"
  shows "\<exists>n'. loop_move (Unsubscribe sid n) = Some n' \<and> notifier_run n' \<and> nt_loop n' = Crashed \<and> loop_move n' = None"
proof -
  have "p < length (nt_objects n)" using notifier_run_ok [OF assms(1)] al_get_value [OF assms(3)] by (auto simp: notifier_ok_def)
  with assms(2,3) have m: "loop_move (Unsubscribe sid n) = Some ((Unsubscribe sid n)\<lparr>nt_loop := Crashed\<rparr>)"
    by (simp add: Unsubscribe_def)
  moreover have "notifier_run ((Unsubscribe sid n)\<lparr>nt_loop := Crashed\<rparr>)"
    using assms(1) m by (blast intro: nr_next ns_unsubscribe ns_loop)
  ultimately show ?thesis by simp
qed

theorem disconnect_crashes_loop_witness:
  "\<exists>n n'. loop_moves 2 demo_notifier = Some n \<and> loop_move (Unsubscribe ''s'' n) = Some n' \<and> nt_loop n' = Crashed"
proof -
  have "\<exists>n. loop_moves 2 demo_notifier = Some n \<and> nt_loop n = Checked demo_event 0 [] \<and> al_get (nt_subs n) ''s'' = Some 0"
    by (simp add: numeral_2_eq_2 demo_notifier_def Notify_def NewEventNotifier_def Subscribe_def demo_event_def targets_def wants_def)
  then obtain n where n: "loop_moves 2 demo_notifier = Some n" "nt_loop n = Checked demo_event 0 []" "al_get (nt_subs n) ''s'' = Some 0" by blast
  from disconnect_crashes_loop [OF loop_moves_run [OF n(1) demo_notifier_run] n(2,3)] n(1) show ?thesis by blast
qed

end
