(* ===== verification/Middleware.thy ===== *)
theory Middleware
  imports Events
begin

text \<open>
  The middleware around every request (\<^verbatim>\<open>src/internal/server/middleware.go\<close> and \<^verbatim>\<open>wrapMiddleware\<close> of
  \<^verbatim>\<open>server.go\<close>): recovery, logging, CORS, security headers and rate limiting.  A handler takes a
  request, the response writer and the state of the server; its reply, or a panic, and the new
  state are the result.  A writer is the headers set so far and whether it can flush and be
  taken over (\<^verbatim>\<open>http.Flusher\<close>, \<^verbatim>\<open>http.Hijacker\<close>).  The reply of
  a handler that panics after it has written is not modelled.
\<close>

section \<open>Handlers\<close>

record mw_request =
  q_method :: string
  q_path :: string
  q_origin :: string
  q_remote :: string
  q_user :: string
  q_tls :: bool
  q_proto :: string

record writer =
  wr_headers :: headers
  wr_flusher :: bool
  wr_hijacker :: bool

type_synonym ('s, 'b) handler = "mw_request \<Rightarrow> writer \<Rightarrow> 's \<Rightarrow> 'b reply outcome \<times> 's"

definition set_header :: "string \<Rightarrow> string \<Rightarrow> writer \<Rightarrow> writer" where
  "set_header k v w = w\<lparr>wr_headers := al_put (wr_headers w) k v\<rparr>"

definition json_error :: "string \<Rightarrow> string" where
  "json_error e = ''{'' @ quote @ ''error'' @ quote @ '':'' @ quote @ e @ quote @ ''}''"

definition RecoveryMiddleware :: "('s, 'b) handler \<Rightarrow> ('s, 'b) handler" where
  "RecoveryMiddleware h q w s =
     (case h q w s of
        (Panics, s') \<Rightarrow> (Returns (http_Error (wr_headers w) 500 (json_error ''Internal server error'')), s')
      | r \<Rightarrow> r)"

text \<open>The log: method, path without line breaks, remote address and status.  The wrapped writer has
  the methods of \<^verbatim>\<open>http.ResponseWriter\<close> only.\<close>

definition responseWriter :: "writer \<Rightarrow> writer" where
  "responseWriter w = w\<lparr>wr_flusher := False, wr_hijacker := False\<rparr>"

definition log_path :: "string \<Rightarrow> string" where
  "log_path p = filter (\<lambda>c. c \<noteq> CHR 0x0D) (filter (\<lambda>c. c \<noteq> CHR 0x0A) p)"

type_synonym log_line = "string \<times> string \<times> string \<times> nat"

definition LoggingMiddleware :: "('s, 'b) handler \<Rightarrow> (log_line list \<times> 's, 'b) handler" where
  "LoggingMiddleware h q w st =
     (let (r, s') = h q (responseWriter w) (snd st)
      in (r, (case r of Returns x \<Rightarrow> fst st @ [(q_method q, log_path (q_path q), q_remote q, rp_status x)] | _ \<Rightarrow> fst st), s'))"

definition isOriginAllowed :: "string \<Rightarrow> string list \<Rightarrow> bool" where
  "isOriginAllowed origin allowed \<longleftrightarrow> origin = [] \<or> allowed = [] \<or> allowed = [''*'']
     \<or> (\<exists>a \<in> set allowed. a = origin \<or> (has_prefix a ''*.'' \<and> has_suffix origin (tl a)))"

definition CORSMiddleware :: "string list \<Rightarrow> ('s, 'b) handler \<Rightarrow> ('s, 'b) handler" where
  "CORSMiddleware allowed h q w s =
     (let w' = (if isOriginAllowed (q_origin q) allowed
                then set_header ''Access-Control-Max-Age'' ''86400''
                      (set_header ''Access-Control-Allow-Headers'' ''Content-Type, Authorization, X-Requested-With''
                      (set_header ''Access-Control-Allow-Methods'' ''GET, POST, PUT, DELETE, OPTIONS, PATCH''
                      (set_header ''Access-Control-Allow-Credentials'' ''true''
                      (set_header ''Access-Control-Allow-Origin'' (q_origin q) w))))
                else w)
      in if q_method q = ''OPTIONS'' then (Returns \<lparr>rp_status = 200, rp_headers = wr_headers w', rp_body = NoBody\<rparr>, s)
         else h q w' s)"

definition SecurityHeadersMiddleware :: "('s, 'b) handler \<Rightarrow> ('s, 'b) handler" where
  "SecurityHeadersMiddleware h q w s =
     (let w1 = set_header ''Content-Security-Policy''
                 (''default-src '' @ [CHR 0x27] @ ''self'' @ [CHR 0x27] @ ''; style-src '' @ [CHR 0x27] @ ''self'' @ [CHR 0x27] @ '' ''
                  @ [CHR 0x27] @ ''unsafe-inline'' @ [CHR 0x27] @ ''; script-src '' @ [CHR 0x27] @ ''self'' @ [CHR 0x27])
               (set_header ''Referrer-Policy'' ''strict-origin-when-cross-origin''
               (set_header ''X-XSS-Protection'' ''1; mode=block''
               (set_header ''X-Frame-Options'' ''DENY''
               (set_header ''X-Content-Type-Options'' ''nosniff'' w))));
          w2 = (if q_tls q \<or> q_proto q = ''https''
                then set_header ''Strict-Transport-Security'' ''max-age=31536000; includeSubDomains; preload'' w1 else w1)
      in h q w2 s)"

section \<open>Rate limiting\<close>

record limiter =
  rl_requests :: "(string \<times> int list) list"
  rl_limit :: int
  rl_window :: int
  rl_clean :: int

definition NewRateLimitMiddleware :: "int \<Rightarrow> int \<Rightarrow> int \<Rightarrow> limiter" where
  "NewRateLimitMiddleware now limit window = \<lparr>rl_requests = [], rl_limit = limit, rl_window = window, rl_clean = now\<rparr>"

definition getRateLimitClientID :: "mw_request \<Rightarrow> string" where
  "getRateLimitClientID q = (if q_user q \<noteq> [] then ''user:'' @ q_user q else q_remote q)"

definition cleanupOldClients :: "int \<Rightarrow> limiter \<Rightarrow> limiter" where
  "cleanupOldClients now rl = rl\<lparr>rl_requests := filter (\<lambda>(c, ts). \<exists>t \<in> set ts. t > now - rl_window rl) (rl_requests rl)\<rparr>"

definition requests_of :: "limiter \<Rightarrow> string \<Rightarrow> int list" where
  "requests_of rl c = (case al_get (rl_requests rl) c of None \<Rightarrow> [] | Some ts \<Rightarrow> ts)"

text \<open>The part of \<^verbatim>\<open>Limit\<close> before the handler runs: whether the request is let through.\<close>

definition rl_admit :: "int \<Rightarrow> string \<Rightarrow> limiter \<Rightarrow> bool \<times> limiter" where
  "rl_admit now c rl =
     (let rl1 = (if time_sub now (rl_clean rl) > 60 * 10 ^ 9 then (cleanupOldClients now rl)\<lparr>rl_clean := now\<rparr> else rl);
          count = int (length (filter (\<lambda>t. t > now - rl_window rl1) (requests_of rl1 c)))
      in if count \<ge> rl_limit rl1 then (False, rl1)
         else (True, rl1\<lparr>rl_requests := al_put (rl_requests rl1) c (requests_of rl1 c @ [now])\<rparr>))"

definition Limit :: "int \<Rightarrow> ('s, 'b) handler \<Rightarrow> (limiter \<times> 's, 'b) handler" where
  "Limit now h q w st =
     (let (ok, rl) = rl_admit now (getRateLimitClientID q) (fst st)
      in if \<not> ok then (Returns (http_Error (wr_headers w) 429 (json_error ''Rate limit exceeded'')), rl, snd st)
         else (let (r, s') = h q w (snd st) in (r, rl, s')))"

text \<open>The mutex of the limiter is held from the check to the end of the handler: the moves of
  requests at the limiter, with the request that is inside.\<close>

inductive limit_step :: "limiter \<times> mw_request option \<Rightarrow> limiter \<times> mw_request option \<Rightarrow> bool" where
  ls_enter: "rl_admit now (getRateLimitClientID q) rl = (True, rl') \<Longrightarrow> limit_step (rl, None) (rl', Some q)"
| ls_refuse: "rl_admit now (getRateLimitClientID q) rl = (False, rl') \<Longrightarrow> limit_step (rl, None) (rl', None)"
| ls_leave: "limit_step (rl, Some q) (rl, None)"

inductive_cases limit_step_inside: "limit_step (rl, Some q) st"

section \<open>The chain\<close>

definition unlimited :: "('s, 'b) handler \<Rightarrow> (limiter \<times> 's, 'b) handler" where
  "unlimited h q w st = (let (r, s') = h q w (snd st) in (r, fst st, s'))"

text \<open>\<open>limited\<close> is \<^verbatim>\<open>config.RateLimit.Enabled\<close>.  Authentication happens behind the router, so the
  request that reaches the limiter carries no user.\<close>

definition wrapMiddleware :: "bool \<Rightarrow> string list \<Rightarrow> int \<Rightarrow> ('s, 'b) handler \<Rightarrow> (log_line list \<times> limiter \<times> 's, 'b) handler" where
  "wrapMiddleware limited allowed now router =
     SecurityHeadersMiddleware (CORSMiddleware allowed (LoggingMiddleware
       ((if limited then Limit now else unlimited) (RecoveryMiddleware router))))"

section \<open>The limit holds\<close>

text \<open>The requests that were let through, oldest first, beside the limiter and the last time seen.\<close>

inductive limiter_run :: "int \<Rightarrow> int \<Rightarrow> limiter \<Rightarrow> (string \<times> int) list \<Rightarrow> int \<Rightarrow> bool" for limit window where
  lr_start: "limiter_run limit window (NewRateLimitMiddleware now limit window) [] now"
| lr_next: "limiter_run limit window rl tr t \<Longrightarrow> t \<le> now \<Longrightarrow> rl_admit now c rl = (ok, rl')
    \<Longrightarrow> limiter_run limit window rl' (if ok then tr @ [(c, now)] else tr) now"

definition times_of :: "string \<Rightarrow> (string \<times> int) list \<Rightarrow> int list" where
  "times_of c tr = map snd (filter (\<lambda>x. fst x = c) tr)"

definition within :: "int \<Rightarrow> int \<Rightarrow> int list \<Rightarrow> nat" where
  "within window x ts = length (filter (\<lambda>s. x - window < s \<and> s \<le> x) ts)"

text \<open>What the limiter has forgotten is older than the window.\<close>

definition remembers :: "limiter \<Rightarrow> (string \<times> int) list \<Rightarrow> int \<Rightarrow> bool" where
  "remembers rl tr t \<longleftrightarrow> al_ok (rl_requests rl)
     \<and> (\<forall>c. \<exists>old. times_of c tr = old @ requests_of rl c \<and> (\<forall>s \<in> set old. s \<le> t - rl_window rl))
     \<and> (\<forall>x \<in> set tr. snd x \<le> t)"

lemma al_get_filter:
  "al_ok m \<Longrightarrow> al_get (filter (\<lambda>(c, ts). P ts) m) c = (case al_get m c of None \<Rightarrow> None | Some ts \<Rightarrow> if P ts then Some ts else None)"
proof (induction m)
  case (Cons p m)
  obtain k v where p: "p = (k, v)" by (cases p)
  have "al_get (filter (\<lambda>(c, ts). P ts) m) k = None" if "al_ok (p # m)"
    using that by (auto simp: al_get_None_iff al_ok_def p)
  with Cons show ?case by (auto simp: p al_ok_def)
qed simp

lemma requests_of_cleanup:
  "al_ok (rl_requests rl) \<Longrightarrow> requests_of (cleanupOldClients now rl) c
     = (if \<exists>t \<in> set (requests_of rl c). t > now - rl_window rl then requests_of rl c else [])"
  by (cases "al_get (rl_requests rl) c") (auto simp: cleanupOldClients_def requests_of_def al_get_filter)

lemma remembers_cleanup:
  assumes "remembers rl tr t" and "t \<le> now"
  shows "remembers (cleanupOldClients now rl) tr now"
proof -
  have "\<exists>old. times_of c tr = old @ requests_of (cleanupOldClients now rl) c \<and> (\<forall>s \<in> set old. s \<le> now - rl_window rl)" for c
  proof -
    from assms(1) obtain old where old: "times_of c tr = old @ requests_of rl c" "\<forall>s \<in> set old. s \<le> t - rl_window rl"
      unfolding remembers_def by blast
    have o': "s \<in> set old \<Longrightarrow> s \<le> now - rl_window rl" for s using old(2) assms(2) by force
    show ?thesis
    proof (cases "\<exists>s \<in> set (requests_of rl c). s > now - rl_window rl")
      case True
      with old(1) o' assms(1) show ?thesis by (auto simp: requests_of_cleanup remembers_def)
    next
      case False
      then have "requests_of (cleanupOldClients now rl) c = []" using assms(1) by (simp add: requests_of_cleanup remembers_def)
      moreover have "\<forall>s \<in> set (times_of c tr). s \<le> now - rl_window rl" using False old(1) o' by fastforce
      ultimately show ?thesis by auto
    qed
  qed
  moreover have "al_ok (rl_requests (cleanupOldClients now rl))"
    using assms(1) by (auto simp: remembers_def cleanupOldClients_def al_ok_def distinct_map_filter)
  moreover have "rl_window (cleanupOldClients now rl) = rl_window rl" by (simp add: cleanupOldClients_def)
  ultimately show ?thesis using assms by (fastforce simp: remembers_def)
qed

lemma remembers_later: "remembers rl tr t \<Longrightarrow> t \<le> now \<Longrightarrow> remembers rl tr now"
  unfolding remembers_def by (fastforce intro: order_trans)

lemma remembers_clean [simp]: "remembers (rl\<lparr>rl_clean := n\<rparr>) tr t = remembers rl tr t"
  by (simp add: remembers_def requests_of_def)

definition limiter_ok :: "int \<Rightarrow> int \<Rightarrow> limiter \<Rightarrow> (string \<times> int) list \<Rightarrow> int \<Rightarrow> bool" where
  "limiter_ok limit window rl tr t \<longleftrightarrow> rl_limit rl = limit \<and> rl_window rl = window \<and> remembers rl tr t
     \<and> (\<forall>c x. int (within window x (times_of c tr)) \<le> max 0 limit)"

lemma times_of_snoc: "times_of c (tr @ [(c', n)]) = (if c' = c then times_of c tr @ [n] else times_of c tr)"
  by (simp add: times_of_def)

lemma within_snoc: "within w x (ts @ [n]) = within w x ts + (if x - w < n \<and> n \<le> x then 1 else 0)"
  by (simp add: within_def)

lemma within_shift:
  assumes "now \<le> x"
  shows "within w x ts \<le> length (filter (\<lambda>s. s > now - w) ts)"
proof -
  have "filter (\<lambda>s. x - w < s \<and> s \<le> x) ts = filter (\<lambda>s. x - w < s \<and> s \<le> x) (filter (\<lambda>s. s > now - w) ts)"
    using assms by (auto intro!: filter_cong)
  then show ?thesis by (metis length_filter_le within_def)
qed

lemma rl_admit_ok:
  assumes "limiter_ok limit window rl tr t" and "t \<le> now" and "rl_admit now c rl = (ok, rl')"
  shows "limiter_ok limit window rl' (if ok then tr @ [(c, now)] else tr) now"
proof -
  define rl1 where "rl1 = (if time_sub now (rl_clean rl) > 60 * 10 ^ 9 then (cleanupOldClients now rl)\<lparr>rl_clean := now\<rparr> else rl)"
  have fields: "rl_limit rl1 = limit" "rl_window rl1 = window"
    using assms(1) by (auto simp: rl1_def limiter_ok_def cleanupOldClients_def)
  have rem: "remembers rl1 tr now"
    using assms(1,2) remembers_cleanup remembers_later by (auto simp: rl1_def limiter_ok_def)
  have bound: "int (within window x (times_of k tr)) \<le> max 0 limit" for k x using assms(1) by (simp add: limiter_ok_def)
  let ?recent = "filter (\<lambda>s. s > now - window)"
  have run: "rl_admit now c rl = (let count = int (length (?recent (requests_of rl1 c)))
      in if count \<ge> limit then (False, rl1) else (True, rl1\<lparr>rl_requests := al_put (rl_requests rl1) c (requests_of rl1 c @ [now])\<rparr>))"
    unfolding rl_admit_def rl1_def [symmetric] using fields by (simp add: Let_def)
  show ?thesis
  proof (cases "int (length (?recent (requests_of rl1 c))) \<ge> limit")
    case True
    with run assms(3) have "ok = False" "rl' = rl1" by (auto simp: Let_def)
    with fields rem bound show ?thesis by (simp add: limiter_ok_def)
  next
    case False
    with run assms(3) have ok: "ok = True" "rl' = rl1\<lparr>rl_requests := al_put (rl_requests rl1) c (requests_of rl1 c @ [now])\<rparr>" by (auto simp: Let_def)
    have req: "requests_of rl' k = (if k = c then requests_of rl1 c @ [now] else requests_of rl1 k)" for k
      by (simp add: ok(2) requests_of_def [of "_\<lparr>rl_requests := _\<rparr>"] al_simps) (simp add: requests_of_def)
    obtain old where old: "times_of c tr = old @ requests_of rl1 c" "\<forall>s \<in> set old. s \<le> now - window"
      using rem fields unfolding remembers_def by blast
    have "?recent old = []" using old(2) by (auto simp: filter_empty_conv)
    then have recent: "int (length (?recent (times_of c tr))) < limit" using False old(1) by simp
    have "int (within window x (times_of c tr @ [now])) \<le> max 0 limit" for x
    proof (cases "x - window < now \<and> now \<le> x")
      case True
      then have "within window x (times_of c tr) \<le> length (?recent (times_of c tr))" by (intro within_shift) simp
      with recent True show ?thesis by (simp add: within_snoc)
    next
      case False
      with bound [of x c] show ?thesis by (auto simp: within_snoc)
    qed
    moreover have "\<exists>old. times_of k (tr @ [(c, now)]) = old @ requests_of rl' k \<and> (\<forall>s \<in> set old. s \<le> now - window)" for k
      using old rem fields by (cases "k = c") (auto simp: req times_of_snoc remembers_def)
    ultimately show ?thesis using fields rem bound
      by (auto simp: limiter_ok_def ok times_of_snoc remembers_def)
  qed
qed

lemma limiter_run_ok: "limiter_run limit window rl tr t \<Longrightarrow> limiter_ok limit window rl tr t"
proof (induction rule: limiter_run.induct)
  case (lr_start now)
  then show ?case by (simp add: limiter_ok_def remembers_def NewRateLimitMiddleware_def al_ok_def requests_of_def times_of_def within_def)
qed (rule rl_admit_ok)

text \<open>A GET request that a handler refuses whenever the writer is the wrapped one is refused.\<close>

lemma refused_behind_middleware:
  assumes "q_method q = ''GET''" and "\<And>w. \<exists>r. h q (responseWriter w) n = (Returns r, n) \<and> rp_status r \<in> S"
  shows "\<exists>r log' rl'. wrapMiddleware limited allowed now h q w (log, rl, n) = (Returns r, log', rl', n)
    \<and> rp_status r \<in> insert 429 S"
proof -
  have rec: "\<exists>r. RecoveryMiddleware h q (responseWriter w) n = (Returns r, n) \<and> rp_status r \<in> S" for w
    using assms(2) [of w] by (auto simp: RecoveryMiddleware_def)
  have lim: "\<exists>r rl'. (if limited then Limit now else unlimited) (RecoveryMiddleware h) q (responseWriter w) (rl, n)
      = (Returns r, rl', n) \<and> rp_status r \<in> insert 429 S" for w
    using rec [of w] by (auto simp: Limit_def unlimited_def http_Error_def split: prod.split)
  have logged: "\<exists>r log' rl'. LoggingMiddleware ((if limited then Limit now else unlimited) (RecoveryMiddleware h))
      q w (log, rl, n) = (Returns r, log', rl', n) \<and> rp_status r \<in> insert 429 S" for w
    using lim [of w] by (fastforce simp: LoggingMiddleware_def)
  show ?thesis using assms(1) logged by (simp add: wrapMiddleware_def SecurityHeadersMiddleware_def CORSMiddleware_def Let_def)
qed

section \<open>Properties\<close>



text \<open>While a request is inside, the limiter does nothing but wait for its end: requests are served one
  at a time, and a request that does not return stops the server.\<close>

lemma one_request_at_a_time: "limit_step (rl, Some q) st \<Longrightarrow> st = (rl, None)"
  by (erule limit_step_inside) simp

text \<open>The endpoint of server-sent events behind the router.\<close>

definition sse_endpoint :: "string \<Rightarrow> string \<Rightarrow> string \<Rightarrow> ('d notifier, unit) handler" where
  "sse_endpoint sid userID folderID q w n =
     (case HandleSSE (wr_flusher w) sid userID folderID n of
        (Inl e, n') \<Rightarrow> (Returns e, n')
      | (Inr (p, frame), n') \<Rightarrow> (Returns \<lparr>rp_status = 200, rp_headers = sse_headers, rp_body = TextBody frame\<rparr>, n'))"

text \<open>The logging middleware wraps the writer in a type that cannot flush, so behind the server's
  middleware the endpoint of server-sent events never streams: every request for it is answered
  with an error and no subscriber is registered.\<close>

theorem sse_never_streams:
  assumes "q_method q = ''GET''"
  shows "\<exists>r log' rl'. wrapMiddleware limited allowed now (sse_endpoint sid userID folderID) q w (log, rl, n) = (Returns r, log', rl', n)
    \<and> rp_status r \<in> {401, 429, 500}"
proof -
  let ?r = "if userID = [] then http_Error [] 401 ''Unauthorized'' else http_Error sse_headers 500 ''Streaming not supported'' :: unit reply"
  have sse: "sse_endpoint sid userID folderID q (responseWriter w) n = (Returns ?r, n)" for w
    by (simp add: sse_endpoint_def HandleSSE_def responseWriter_def)
  have st: "rp_status ?r \<in> {401, 500}" by (simp add: http_Error_def)
  show ?thesis using refused_behind_middleware [OF assms, of "sse_endpoint sid userID folderID" n "{401, 500}"] sse st
    by (simp add: insert_commute)
qed

theorem sse_never_streams_witness:
  "\<exists>r log' rl'. wrapMiddleware True [] 0 (sse_endpoint ''s'' ''u'' ''f'')
      \<lparr>q_method = ''GET'', q_path = ''/api/v1/events'', q_origin = [], q_remote = ''h:1'', q_user = [], q_tls = True, q_proto = []\<rparr>
      \<lparr>wr_headers = [], wr_flusher = True, wr_hijacker = True\<rparr> ([], NewRateLimitMiddleware 0 60 60, demo_notifier) = (Returns r, log', rl', demo_notifier)
    \<and> rp_status r \<in> {401, 429, 500}"
  by (rule sse_never_streams) simp

text \<open>Without configured origins every origin is reflected, with credentials.\<close>

lemma cors_reflects_any_origin:
  assumes "q_method q = ''OPTIONS''"
  shows "\<exists>r. CORSMiddleware [] h q w s = (Returns r, s) \<and> al_get (rp_headers r) ''Access-Control-Allow-Origin'' = Some (q_origin q)
    \<and> al_get (rp_headers r) ''Access-Control-Allow-Credentials'' = Some ''true''"
  using assms by (simp add: CORSMiddleware_def isOriginAllowed_def set_header_def al_simps)

end
