(* ===== verification/Files_Api.thy ===== *)
theory Files_Api
  imports Events
begin

text \<open>
  The requests on files, folders, the trash and versions (\<^verbatim>\<open>src/internal/server\<close>:
  \<^verbatim>\<open>handlers_files.go\<close>, \<^verbatim>\<open>handlers_folders.go\<close>, \<^verbatim>\<open>handlers_trash.go\<close>,
  \<^verbatim>\<open>handlers_versions.go\<close>).  A request is the authenticated user, its path and query values and
  its decoded body, \<open>None\<close> when it cannot be decoded.  The result is the answer, the new database
  and the events handed to the notifier; \<open>live\<close> says whether there is one.  A handler can panic
  after it has answered: a flag of the result.
\<close>

section \<open>Parameters and answers\<close>

definition page_limit :: "int \<Rightarrow> string \<Rightarrow> int" where
  "page_limit dflt s =
     (if s = [] then dflt else case atoi s of None \<Rightarrow> dflt | Some n \<Rightarrow> if n \<le> 0 \<or> n > 100 then dflt else n)"

definition page_offset :: "string \<Rightarrow> int" where
  "page_offset s = (if s = [] then 0 else case atoi s of None \<Rightarrow> 0 | Some n \<Rightarrow> if n < 0 then 0 else n)"

lemma page_limit_range: "0 < dflt \<Longrightarrow> dflt \<le> 100 \<Longrightarrow> 0 < page_limit dflt s \<and> page_limit dflt s \<le> 100"
  by (simp add: page_limit_def split: option.split)

lemma page_offset_range: "0 \<le> page_offset s"
  by (simp add: page_offset_def split: option.split)

datatype file_data = FileData file_row | FolderData file_row | ChangedData string string string | RemovedData string string

datatype file_answer = FileDetails file_row | FileList "file_row list" int int | FolderList "file_row list" int int
  | FoundFiles "file_row list" string | RecentList "file_row list" | FileStatus string | Breadcrumbs "(string \<times> string) list"
  | TrashList "file_row list" nat int int | Emptied nat nat | VersionInfo string int string
  | VersionBumped string int int string

record new_file =
  nf_parent :: string
  nf_name :: string
  nf_size :: int
  nf_mime :: string

record entry_change =
  ec_name :: string
  ec_parent :: string

type_synonym file_effect = "file_answer answer \<times> database \<times> file_data event list"

text \<open>The row a request names, owned by the user, or the error.  \<open>what\<close> is the word of the messages.\<close>

definition owned_item :: "string \<Rightarrow> string \<Rightarrow> string \<Rightarrow> database \<Rightarrow> (nat \<times> string) + file_row" where
  "owned_item what userID i d =
     (if userID = [] then Inl (401, ''Unauthorized'')
      else if i = [] then Inl (400, what @ '' ID required'')
      else case GetFile i d of
             Inl e \<Rightarrow> if e = ErrNotFound then Inl (404, what @ '' not found'') else Inl (500, ''Internal server error'')
           | Inr f \<Rightarrow> if f_user f \<noteq> userID then Inl (403, ''Access denied'') else Inr f)"

definition owned_folder :: "string \<Rightarrow> string \<Rightarrow> database \<Rightarrow> (nat \<times> string) + file_row" where
  "owned_folder userID i d =
     (case owned_item ''Folder'' userID i d of
        Inl e \<Rightarrow> Inl e
      | Inr f \<Rightarrow> if f_type f \<noteq> ''folder'' then Inl (400, ''Not a folder'') else Inr f)"

definition refused :: "nat \<times> string \<Rightarrow> 'a answer" where
  "refused e = Refused (fst e) (snd e)"

section \<open>handlers_files.go\<close>

definition listFiles :: "string \<Rightarrow> string \<Rightarrow> string \<Rightarrow> string \<Rightarrow> database \<Rightarrow> file_answer answer" where
  "listFiles userID parentID limit offset d =
     (if userID = [] then unauthorized
      else Answered 200 (FileList (vfs_ListDirectory userID parentID (page_limit 50 limit) (page_offset offset) d)
             (page_limit 50 limit) (page_offset offset)))"

definition getFile :: "string \<Rightarrow> string \<Rightarrow> database \<Rightarrow> file_answer answer" where
  "getFile userID fileID d =
     (case owned_item ''File'' userID fileID d of Inl e \<Rightarrow> refused e | Inr f \<Rightarrow> Answered 200 (FileDetails f))"

definition createFile :: "bool \<Rightarrow> string \<Rightarrow> int \<Rightarrow> string \<Rightarrow> new_file option \<Rightarrow> database \<Rightarrow> file_effect" where
  "createFile live rnd now userID body d =
     (if userID = [] then (unauthorized, d, [])
      else case body of
        None \<Rightarrow> (Refused 400 ''Invalid request body'', d, [])
      | Some q \<Rightarrow>
          (if nf_name q = [] then (Refused 400 ''Name is required'', d, [])
           else case vfs_CreateFile rnd now userID (nf_parent q) (nf_name q) (nf_mime q) (nf_size q) d of
             Inl e \<Rightarrow> (if e = ErrAlreadyExists then Refused 409 ''File already exists''
                        else if e = ErrInvalidName then Refused 400 ''Invalid file name'' else internal_error, d, [])
           | Inr (f, d') \<Rightarrow>
               (Answered 201 (FileDetails f), d',
                if live then [file_change userID (if nf_parent q = [] then ''root'' else nf_parent q) (f_id f) SSEventFileCreated (FileData f)]
                else [])))"

text \<open>Renaming or moving.  The folder a file goes to has to be the user's.\<close>

definition change_file :: "int \<Rightarrow> string \<Rightarrow> string \<Rightarrow> entry_change \<Rightarrow> database \<Rightarrow> (nat \<times> string) + database" where
  "change_file now userID fileID q d =
     (if ec_parent q \<noteq> []
      then (case GetFile (ec_parent q) d of
              Inl e \<Rightarrow> Inl (403, ''Access denied to target folder'')
            | Inr p \<Rightarrow>
                if f_user p \<noteq> userID then Inl (403, ''Access denied to target folder'')
                else case Move now fileID (ec_parent q) (ec_name q) d of
                       Inl e \<Rightarrow> Inl (500, ''Internal server error'') | Inr d' \<Rightarrow> Inr d')
      else if ec_name q \<noteq> []
      then (case Rename now fileID (ec_name q) d of Inl e \<Rightarrow> Inl (500, ''Internal server error'') | Inr d' \<Rightarrow> Inr d')
      else Inr d)"

text \<open>The event names the old parent, read through a pointer that is nil at the root.\<close>

definition updateFile :: "bool \<Rightarrow> int \<Rightarrow> string \<Rightarrow> string \<Rightarrow> entry_change option \<Rightarrow> database \<Rightarrow> bool \<times> file_effect" where
  "updateFile live now userID fileID body d =
     (case owned_item ''File'' userID fileID d of
        Inl e \<Rightarrow> (False, refused e, d, [])
      | Inr f \<Rightarrow>
          (case body of
             None \<Rightarrow> (False, Refused 400 ''Invalid request body'', d, [])
           | Some q \<Rightarrow>
               (case change_file now userID fileID q d of
                  Inl e \<Rightarrow> (False, refused e, d, [])
                | Inr d' \<Rightarrow>
                    if \<not> live then (False, Answered 200 (FileStatus ''updated''), d', [])
                    else (case f_parent f of
                            None \<Rightarrow> (True, Answered 200 (FileStatus ''updated''), d', [])
                          | Some p \<Rightarrow>
                              (False, Answered 200 (FileStatus ''updated''), d',
                               [file_change userID p fileID
                                  (if ec_parent q \<noteq> [] \<and> ec_parent q \<noteq> p then SSEventFileMoved else SSEventFileUpdated)
                                  (ChangedData fileID (ec_name q) (ec_parent q))])))))"

definition deleteFile :: "bool \<Rightarrow> int \<Rightarrow> string \<Rightarrow> string \<Rightarrow> database \<Rightarrow> bool \<times> file_effect" where
  "deleteFile live now userID fileID d =
     (case owned_item ''File'' userID fileID d of
        Inl e \<Rightarrow> (False, refused e, d, [])
      | Inr f \<Rightarrow>
          (case vfs_Delete now fileID d of
             Inl e \<Rightarrow> (False, internal_error, d, [])
           | Inr d' \<Rightarrow>
               if \<not> live then (False, Answered 200 (FileStatus ''deleted''), d', [])
               else (case f_parent f of
                       None \<Rightarrow> (True, Answered 200 (FileStatus ''deleted''), d', [])
                     | Some p \<Rightarrow> (False, Answered 200 (FileStatus ''deleted''), d',
                         [file_change userID p fileID SSEventFileDeleted (RemovedData fileID (f_name f))]))))"

definition searchFiles :: "string \<Rightarrow> string \<Rightarrow> string \<Rightarrow> database \<Rightarrow> file_answer answer" where
  "searchFiles userID q limit d =
     (if userID = [] then unauthorized
      else if q = [] then Refused 400 ''Query required''
      else Answered 200 (FoundFiles (vfs_Search userID q (page_limit 50 limit) d) q))"

definition recentFiles :: "string \<Rightarrow> string \<Rightarrow> database \<Rightarrow> file_answer answer" where
  "recentFiles userID limit d =
     (if userID = [] then unauthorized else Answered 200 (RecentList (vfs_Recent userID (page_limit 20 limit) d)))"

section \<open>handlers_folders.go\<close>

definition listFolders :: "string \<Rightarrow> string \<Rightarrow> string \<Rightarrow> string \<Rightarrow> database \<Rightarrow> file_answer answer" where
  "listFolders userID parentID limit offset d =
     (if userID = [] then unauthorized
      else Answered 200 (FolderList (filter (\<lambda>f. f_type f = ''folder'')
             (vfs_ListDirectory userID parentID (page_limit 50 limit) (page_offset offset) d))
             (page_limit 50 limit) (page_offset offset)))"

definition getFolder :: "string \<Rightarrow> string \<Rightarrow> database \<Rightarrow> file_answer answer" where
  "getFolder userID folderID d =
     (case owned_folder userID folderID d of Inl e \<Rightarrow> refused e | Inr f \<Rightarrow> Answered 200 (FileDetails f))"

definition folder_event :: "string \<Rightarrow> string \<Rightarrow> string \<Rightarrow> string \<Rightarrow> file_data \<Rightarrow> file_data event" where
  "folder_event eventType userID folderID fileID x =
     \<lparr>ev_type = eventType, ev_user = userID, ev_folder = folderID, ev_file = fileID, ev_data = x, ev_time = 0\<rparr>"

definition createFolder :: "bool \<Rightarrow> string \<Rightarrow> int \<Rightarrow> string \<Rightarrow> entry_change option \<Rightarrow> database \<Rightarrow> file_effect" where
  "createFolder live rnd now userID body d =
     (if userID = [] then (unauthorized, d, [])
      else case body of
        None \<Rightarrow> (Refused 400 ''Invalid request body'', d, [])
      | Some q \<Rightarrow>
          (if ec_name q = [] then (Refused 400 ''Name is required'', d, [])
           else case CreateFolder rnd now userID (ec_parent q) (ec_name q) d of
             Inl e \<Rightarrow> (if e = ErrAlreadyExists then Refused 409 ''Folder already exists''
                        else if e = ErrInvalidName then Refused 400 ''Invalid folder name'' else internal_error, d, [])
           | Inr (f, d') \<Rightarrow>
               (Answered 201 (FileDetails f), d',
                if live then [folder_event SSEventFolderCreated userID (if ec_parent q = [] then ''root'' else ec_parent q) (f_id f) (FolderData f)]
                else [])))"

text \<open>Here the folder it goes to is not looked at.\<close>

definition change_folder :: "int \<Rightarrow> string \<Rightarrow> entry_change \<Rightarrow> database \<Rightarrow> vfs_error + database" where
  "change_folder now folderID q d =
     (if ec_parent q \<noteq> [] then Move now folderID (ec_parent q) (ec_name q) d
      else if ec_name q \<noteq> [] then Rename now folderID (ec_name q) d
      else Inr d)"

definition updateFolder :: "bool \<Rightarrow> int \<Rightarrow> string \<Rightarrow> string \<Rightarrow> entry_change option \<Rightarrow> database \<Rightarrow> file_effect" where
  "updateFolder live now userID folderID body d =
     (case owned_folder userID folderID d of
        Inl e \<Rightarrow> (refused e, d, [])
      | Inr f \<Rightarrow>
          (case body of
             None \<Rightarrow> (Refused 400 ''Invalid request body'', d, [])
           | Some q \<Rightarrow>
               (case change_folder now folderID q d of
                  Inl e \<Rightarrow> (internal_error, d, [])
                | Inr d' \<Rightarrow>
                    (Answered 200 (FileStatus ''updated''), d',
                     if live then [folder_event
                         (if ec_parent q \<noteq> [] \<and> f_parent f \<noteq> None \<and> f_parent f \<noteq> Some (ec_parent q) then SSEventFileMoved else SSEventFolderUpdated)
                         userID folderID [] (ChangedData folderID (ec_name q) (ec_parent q))]
                     else []))))"

definition deleteFolder :: "bool \<Rightarrow> int \<Rightarrow> string \<Rightarrow> string \<Rightarrow> database \<Rightarrow> file_effect" where
  "deleteFolder live now userID folderID d =
     (case owned_folder userID folderID d of
        Inl e \<Rightarrow> (refused e, d, [])
      | Inr f \<Rightarrow>
          (case vfs_Delete now folderID d of
             Inl e \<Rightarrow> (internal_error, d, [])
           | Inr d' \<Rightarrow> (Answered 200 (FileStatus ''deleted''), d',
               if live then [folder_event SSEventFolderDeleted userID folderID [] (RemovedData folderID (f_name f))] else [])))"

definition getBreadcrumbs :: "nat \<Rightarrow> string \<Rightarrow> string \<Rightarrow> database \<Rightarrow> file_answer answer outcome" where
  "getBreadcrumbs fuel userID folderID d =
     (case owned_folder userID folderID d of
        Inl e \<Rightarrow> Returns (refused e)
      | Inr f \<Rightarrow> obind (GetBreadcrumbs fuel folderID d) (\<lambda>crumbs. Returns (Answered 200 (Breadcrumbs crumbs))))"

section \<open>handlers_trash.go\<close>

definition listTrash :: "string \<Rightarrow> string \<Rightarrow> string \<Rightarrow> database \<Rightarrow> file_answer answer" where
  "listTrash userID limit offset d =
     (if userID = [] then unauthorized
      else Answered 200 (TrashList (ListTrash userID (page_limit 50 limit) (page_offset offset) d) (CountTrash userID d)
             (page_limit 50 limit) (page_offset offset)))"

definition restoreItem :: "int \<Rightarrow> string \<Rightarrow> string \<Rightarrow> database \<Rightarrow> file_answer answer \<times> database" where
  "restoreItem now userID itemID d =
     (case owned_item ''Item'' userID itemID d of
        Inl e \<Rightarrow> (refused e, d)
      | Inr f \<Rightarrow> (case Restore now itemID d of
          Inl e \<Rightarrow> (internal_error, d) | Inr d' \<Rightarrow> (Answered 200 (FileStatus ''restored''), d')))"

definition permanentDelete :: "string \<Rightarrow> string \<Rightarrow> database \<Rightarrow> file_answer answer \<times> database" where
  "permanentDelete userID itemID d =
     (case owned_item ''Item'' userID itemID d of
        Inl e \<Rightarrow> (refused e, d)
      | Inr f \<Rightarrow> (case DeletePermanent itemID d of
          Inl e \<Rightarrow> (internal_error, d) | Inr d' \<Rightarrow> (Answered 200 (FileStatus ''deleted''), d')))"

text \<open>The loop of \<^verbatim>\<open>emptyTrash\<close>: batches of a hundred, counting what was deleted and what failed.\<close>

definition delete_item :: "file_row \<Rightarrow> nat \<times> nat \<times> database \<Rightarrow> nat \<times> nat \<times> database" where
  "delete_item f = (\<lambda>(deleted, failed, d).
     case DeletePermanent (f_id f) d of Inl e \<Rightarrow> (deleted, failed + 1, d) | Inr d' \<Rightarrow> (deleted + 1, failed, d'))"

fun empty_batches :: "nat \<Rightarrow> string \<Rightarrow> int \<Rightarrow> nat \<times> nat \<times> database \<Rightarrow> (nat \<times> nat \<times> database) outcome" where
  "empty_batches 0 userID offset st = Diverges"
| "empty_batches (Suc fuel) userID offset st =
     (let items = ListTrash userID 100 offset (snd (snd st))
      in if items = [] then Returns st
         else (let st' = fold delete_item items st
               in if length items < 100 then Returns st' else empty_batches fuel userID (offset + 100) st'))"

definition emptyTrash :: "nat \<Rightarrow> string \<Rightarrow> database \<Rightarrow> (file_answer answer \<times> database) outcome" where
  "emptyTrash fuel userID d =
     (if userID = [] then Returns (unauthorized, d)
      else obind (empty_batches fuel userID 0 (0, 0, d))
             (\<lambda>(deleted, failed, d'). Returns (Answered 200 (Emptied deleted failed), d')))"

section \<open>handlers_versions.go\<close>

definition getVersion :: "string \<Rightarrow> string \<Rightarrow> database \<Rightarrow> file_answer answer" where
  "getVersion userID fileID d =
     (case owned_item ''File'' userID fileID d of
        Inl e \<Rightarrow> refused e | Inr f \<Rightarrow> Answered 200 (VersionInfo (f_id f) (f_version f) (f_name f)))"

text \<open>A body that cannot be decoded counts as an empty comment.\<close>

definition incrementVersion :: "int \<Rightarrow> string \<Rightarrow> string \<Rightarrow> string option \<Rightarrow> database \<Rightarrow> file_answer answer \<times> database" where
  "incrementVersion now userID fileID body d =
     (case owned_item ''File'' userID fileID d of
        Inl e \<Rightarrow> (refused e, d)
      | Inr f \<Rightarrow> (case IncrementVersion now fileID d of
          Inl e \<Rightarrow> (internal_error, d)
        | Inr (v, d') \<Rightarrow> (Answered 200 (VersionBumped fileID v (f_version f) (case body of None \<Rightarrow> [] | Some c \<Rightarrow> c)), d')))"

section \<open>Rows of other users\<close>

definition others :: "string \<Rightarrow> database \<Rightarrow> file_row list" where
  "others u d = filter (\<lambda>f. f_user f \<noteq> u) (files d)"

text \<open>The requests that change rows one at a time.\<close>

inductive file_call :: "string \<Rightarrow> database \<Rightarrow> file_effect \<Rightarrow> bool" for u d where
  fc_create: "file_call u d (createFile live rnd now u body d)"
| fc_update: "file_call u d (snd (updateFile live now u i change d))"
| fc_delete: "file_call u d (snd (deleteFile live now u i d))"
| fc_folder: "file_call u d (createFolder live rnd now u change d)"
| fc_change: "file_call u d (updateFolder live now u i change d)"
| fc_remove: "file_call u d (deleteFolder live now u i d)"
| fc_restore: "restoreItem now u i d = (ans, d') \<Longrightarrow> file_call u d (ans, d', [])"
| fc_version: "incrementVersion now u i cm d = (ans, d') \<Longrightarrow> file_call u d (ans, d', [])"

definition effect_ok :: "string \<Rightarrow> database \<Rightarrow> file_effect \<Rightarrow> bool" where
  "effect_ok u d = (\<lambda>(ans, d', evs). db_ok d' \<and> others u d' = others u d \<and> (\<forall>ev \<in> set evs. ev_user ev = u)
     \<and> (400 \<le> answer_status ans \<longrightarrow> d' = d \<and> evs = []))"

lemma effect_ok_refused [simp]: "db_ok d \<Longrightarrow> effect_ok u d (ans, d, [])"
  by (simp add: effect_ok_def)

lemma owned_item_cases:
  "owned_item what u i d = Inr f \<Longrightarrow> u \<noteq> [] \<and> i \<noteq> [] \<and> GetFileByID i d = Inr f \<and> f_user f = u"
  by (auto simp: owned_item_def GetFile_def split: if_split_asm sum.split_asm)

lemma owned_folder_cases: "owned_folder u i d = Inr f \<Longrightarrow> owned_item ''Folder'' u i d = Inr f \<and> f_type f = ''folder''"
  by (auto simp: owned_folder_def split: if_split_asm sum.split_asm)

lemma GetFileByID_has: "GetFileByID i d = Inr f \<Longrightarrow> has_file i d"
  using find_row_Some by (fastforce simp: GetFileByID_def has_file_def split: option.split_asm)

lemma others_update:
  assumes "files_ok (files d)" and "GetFileByID i d = Inr f" and "f_user f = u" and "\<And>g. f_user (h g) = f_user g"
  shows "others u (d\<lparr>files := update_row i h (files d)\<rparr>) = others u d"
proof -
  have "f_id g = i \<Longrightarrow> g \<in> set (files d) \<Longrightarrow> f_user g = u" for g
    using assms(1-3) GetFileByID_iff [OF assms(1)] unique_row [OF assms(1)] by blast
  then have "filter (\<lambda>f. f_user f \<noteq> u) (map (\<lambda>g. if f_id g = i then h g else g) xs) = filter (\<lambda>f. f_user f \<noteq> u) xs"
    if "set xs \<subseteq> set (files d)" for xs using that by (induction xs) (auto simp: assms(4))
  from this [of "files d"] show ?thesis by (simp add: others_def update_row_def)
qed

lemma set_columns_user: "f_user (fold set_column us f) = f_user f"
proof (induction us arbitrary: f)
  case (Cons x us)
  have "f_user (set_column x f) = f_user f" by (cases x) simp_all
  with Cons show ?case by simp
qed simp

lemma others_UpdateFile:
  assumes "UpdateFile now i us d = Inr d'" and "db_ok d" and "GetFileByID i d = Inr f" and "f_user f = u"
  shows "others u d' = others u d"
proof (cases "us = []")
  case True
  with assms(1) show ?thesis by (simp add: UpdateFile_def)
next
  case False
  with UpdateFile_Inr [OF assms(1)] others_update [OF db_okD(1) [OF assms(2)] assms(3,4)] show ?thesis by (simp add: set_columns_user)
qed

lemma others_MoveFile:
  assumes "MoveFile now i p nm d = Inr d'" and "db_ok d" and "GetFileByID i d = Inr f" and "f_user f = u"
  shows "others u d' = others u d"
  using MoveFile_Inr [OF assms(1)] others_update [OF db_okD(1) [OF assms(2)] assms(3,4)] by auto

lemma moved_db_Inr [simp]: "wrap_db r = Inr d \<longleftrightarrow> r = Inr d"
  by (simp add: wrap_db_def split: sum.split)

text \<open>What one operation on an owned row keeps.\<close>

definition keeps_others :: "string \<Rightarrow> database \<Rightarrow> database \<Rightarrow> bool" where
  "keeps_others u d d' \<longleftrightarrow> db_ok d' \<and> others u d' = others u d"

lemma Move_keeps:
  assumes "Move now i p nm d = Inr d'" and "db_ok d" and "GetFileByID i d = Inr f" and "f_user f = u"
  shows "keeps_others u d d'"
proof -
  obtain nm' where "MoveFile now i p nm' d = Inr d'"
    using assms(1) by (auto simp: Move_def split: if_split_asm sum.split_asm)
  with others_MoveFile [OF _ assms(2-4)] db_ok_MoveFile assms(2) show ?thesis by (auto simp: keeps_others_def)
qed

lemma Rename_keeps:
  assumes "Rename now i nm d = Inr d'" and "db_ok d" and "GetFileByID i d = Inr f" and "f_user f = u"
  shows "keeps_others u d d'"
  using assms others_UpdateFile [OF _ assms(2-4)] db_ok_UpdateFile [OF _ assms(2)]
  by (auto simp: Rename_def keeps_others_def split: if_split_asm)

lemma Trash_keeps:
  assumes "vfs_Delete now i d = Inr d' \<or> Restore now i d = Inr d'" and "db_ok d" and "GetFileByID i d = Inr f" and "f_user f = u"
  shows "keeps_others u d d'"
proof -
  have run: "SoftDelete now i d = Inr d' \<or> RestoreFromTrash now i d = Inr d'" using assms(1) by (simp add: vfs_Delete_def Restore_def)
  then have "db_ok d'" using db_ok_SoftDelete db_ok_Restore assms(2) by blast
  moreover from run obtain h where "d' = d\<lparr>files := update_row i h (files d)\<rparr>" "\<And>g. f_user (h g) = f_user g"
    by (fastforce simp: SoftDelete_def RestoreFromTrash_def split: if_split_asm)
  ultimately show ?thesis using others_update [OF db_okD(1) [OF assms(2)] assms(3,4)] by (simp add: keeps_others_def)
qed

lemma Version_keeps:
  assumes "IncrementVersion now i d = Inr (v, d')" and "db_ok d" and "GetFileByID i d = Inr f" and "f_user f = u"
  shows "keeps_others u d d'"
  using assms others_UpdateFile [OF _ assms(2-4)] db_ok_UpdateFile [OF _ assms(2)]
  by (auto simp: IncrementVersion_def keeps_others_def Let_def split: sum.split_asm)

lemma Create_keeps:
  assumes "Store.CreateFile f d = Inr d'" and "db_ok d" and "f_user f = u"
  shows "keeps_others u d d'"
  using CreateFile_Inr [OF assms(1)] db_ok_CreateFile [OF assms(1,2)] assms(3) by (auto simp: keeps_others_def others_def)

lemma file_call_ok:
  assumes "file_call u d r" and "db_ok d"
  shows "effect_ok u d r"
  using assms(1)
proof cases
  case (fc_create live rnd now body)
  then show ?thesis using assms(2) Create_keeps [OF _ assms(2)]
    by (auto simp: createFile_def vfs_CreateFile_def effect_ok_def keeps_others_def file_change_def blank_file_def Let_def
        split: option.split sum.split)
next
  case (fc_update live now i change)
  show ?thesis
  proof (cases "owned_item ''File'' u i d")
    case (Inr f)
    then have o: "GetFileByID i d = Inr f" "f_user f = u" using owned_item_cases by blast+
    have "keeps_others u d d'" if "change_file now u i q d = Inr d'" for q d'
      using that Move_keeps [OF _ assms(2) o] Rename_keeps [OF _ assms(2) o] assms(2)
      by (auto simp: change_file_def keeps_others_def split: if_split_asm sum.split_asm)
    with fc_update Inr assms(2) show ?thesis
      by (auto simp: updateFile_def effect_ok_def keeps_others_def file_change_def refused_def split: option.split sum.split)
  qed (use fc_update assms(2) in \<open>simp add: updateFile_def\<close>)
next
  case (fc_delete live now i)
  show ?thesis
  proof (cases "owned_item ''File'' u i d")
    case (Inr f)
    then have o: "GetFileByID i d = Inr f" "f_user f = u" using owned_item_cases by blast+
    with fc_delete Inr Trash_keeps [OF _ assms(2) o] assms(2) show ?thesis
      by (auto simp: deleteFile_def effect_ok_def keeps_others_def file_change_def split: option.split sum.split)
  qed (use fc_delete assms(2) in \<open>simp add: deleteFile_def\<close>)
next
  case (fc_folder live rnd now change)
  then show ?thesis using assms(2) Create_keeps [OF _ assms(2)]
    by (auto simp: createFolder_def CreateFolder_def effect_ok_def keeps_others_def folder_event_def blank_file_def Let_def
        split: option.split sum.split)
next
  case (fc_change live now i change)
  show ?thesis
  proof (cases "owned_folder u i d")
    case (Inr f)
    then have o: "GetFileByID i d = Inr f" "f_user f = u" using owned_folder_cases owned_item_cases by blast+
    have "keeps_others u d d'" if "change_folder now i q d = Inr d'" for q d'
      using that Move_keeps [OF _ assms(2) o] Rename_keeps [OF _ assms(2) o] assms(2)
      by (auto simp: change_folder_def keeps_others_def split: if_split_asm)
    with fc_change Inr assms(2) show ?thesis
      by (auto simp: updateFolder_def effect_ok_def keeps_others_def folder_event_def split: option.split sum.split)
  qed (use fc_change assms(2) in \<open>simp add: updateFolder_def\<close>)
next
  case (fc_remove live now i)
  show ?thesis
  proof (cases "owned_folder u i d")
    case (Inr f)
    then have o: "GetFileByID i d = Inr f" "f_user f = u" using owned_folder_cases owned_item_cases by blast+
    with fc_remove Inr Trash_keeps [OF _ assms(2) o] assms(2) show ?thesis
      by (auto simp: deleteFolder_def effect_ok_def keeps_others_def folder_event_def split: option.split sum.split)
  qed (use fc_remove assms(2) in \<open>simp add: deleteFolder_def\<close>)
next
  case (fc_restore now i ans d')
  show ?thesis
  proof (cases "owned_item ''Item'' u i d")
    case (Inr f)
    then have o: "GetFileByID i d = Inr f" "f_user f = u" using owned_item_cases by blast+
    with fc_restore Inr Trash_keeps [OF _ assms(2) o] assms(2) show ?thesis
      by (auto simp: restoreItem_def effect_ok_def keeps_others_def internal_error_def split: sum.split_asm)
  qed (use fc_restore assms(2) in \<open>simp add: restoreItem_def\<close>)
next
  case (fc_version now i cm ans d')
  show ?thesis
  proof (cases "owned_item ''File'' u i d")
    case (Inr f)
    then have o: "GetFileByID i d = Inr f" "f_user f = u" using owned_item_cases by blast+
    with fc_version Inr Version_keeps [OF _ assms(2) o] assms(2) show ?thesis
      by (auto simp: incrementVersion_def effect_ok_def keeps_others_def internal_error_def split: sum.split_asm)
  qed (use fc_version assms(2) in \<open>simp add: incrementVersion_def\<close>)
qed

section \<open>Emptying the trash in batches\<close>

definition trash_list :: "string \<Rightarrow> database \<Rightarrow> file_row list" where
  "trash_list u d = desc_sort f_trashed_at (filter (\<lambda>f. f_user f = u \<and> f_trashed f) (files d))"

text \<open>What is in the trash holds no other rows.\<close>

definition trash_flat :: "string \<Rightarrow> database \<Rightarrow> bool" where
  "trash_flat u d \<longleftrightarrow> (\<forall>f \<in> set (files d). f_user f = u \<and> f_trashed f \<longrightarrow> (\<forall>g \<in> set (files d). f_parent g \<noteq> Some (f_id f)))"

text \<open>Every second hundred of a list.\<close>

function survivors :: "'a list \<Rightarrow> 'a list" where
  "survivors xs = (if length xs \<le> 100 then [] else take 100 (drop 100 xs) @ survivors (drop 200 xs))"
  by pat_completeness auto
termination by (relation "measure length") auto

declare survivors.simps [simp del]

lemma survivors_short [simp]: "length xs \<le> 100 \<Longrightarrow> survivors xs = []"
  by (simp add: survivors.simps)

lemma length_survivors: "length (survivors xs) \<le> length xs"
proof (induction xs rule: survivors.induct)
  case (1 xs)
  then show ?case by (subst survivors.simps) auto
qed

lemma ListTrash_100: "0 \<le> off \<Longrightarrow> ListTrash u 100 off d = take 100 (drop (nat off) (trash_list u d))"
  by (simp add: ListTrash_def limit_offset_def trash_list_def)

lemma desc_sort_filter: "filter P (desc_sort k xs) = desc_sort k (filter P xs)"
proof -
  have "filter P (rev (sort_key k (rev xs))) = rev (sort_key k (filter P (rev xs)))" by (simp only: filter_sort rev_filter [symmetric])
  then show ?thesis by (simp add: desc_sort_def rev_filter)
qed

lemma delete_leaf:
  assumes "\<forall>g \<in> set (files d). f_parent g \<noteq> Some i"
  shows "files (delete_files [i] d) = filter (\<lambda>f. f_id f \<noteq> i) (files d)"
proof -
  have "closed_ids (files d) (set [i])" using assms by (simp add: closed_ids_def)
  from descend_fix [OF this] show ?thesis by (simp add: delete_files_def Let_def)
qed

lemma delete_items:
  assumes "\<forall>f \<in> set items. f \<in> set (files d) \<and> f_user f = u \<and> f_trashed f" and "distinct (map f_id items)" and "trash_flat u d"
  shows "\<exists>d'. fold delete_item items (a, b, d) = (a + length items, b, d')
    \<and> files d' = filter (\<lambda>f. f_id f \<notin> f_id ` set items) (files d)"
  using assms
proof (induction items arbitrary: a d)
  case (Cons x items)
  let ?d = "delete_files [f_id x] d"
  have fs: "files ?d = filter (\<lambda>f. f_id f \<noteq> f_id x) (files d)"
    by (rule delete_leaf) (use Cons.prems(1,3) in \<open>auto simp: trash_flat_def\<close>)
  have "has_file (f_id x) d" using Cons.prems(1) by (auto simp: has_file_def)
  then have step: "delete_item x (a, b, d) = (a + 1, b, ?d)"
    by (simp add: delete_item_def DeletePermanent_def PermanentDelete_def wrap_db_def)
  have "f_id f \<noteq> f_id x" if "f \<in> set items" for f
    using Cons.prems(2) that by (metis distinct.simps(2) image_eqI list.simps(9) set_map)
  then have "\<forall>f \<in> set items. f \<in> set (files ?d) \<and> f_user f = u \<and> f_trashed f" using Cons.prems(1) by (simp add: fs)
  moreover have "trash_flat u ?d" using Cons.prems(3) by (auto simp: trash_flat_def fs)
  ultimately obtain d' where d': "fold delete_item items (a + 1, b, ?d) = (a + 1 + length items, b, d')"
    "files d' = filter (\<lambda>f. f_id f \<notin> f_id ` set items) (files ?d)"
    using Cons.IH [of ?d "a + 1"] Cons.prems(2) by auto
  have "files d' = filter (\<lambda>f. f_id f \<notin> f_id ` set (x # items)) (files d)"
    unfolding d'(2) fs filter_filter by (rule filter_cong) auto
  with d'(1) step show ?case by simp
qed simp

lemma distinct_trash_list: "files_ok (files d) \<Longrightarrow> distinct (map f_id (trash_list u d))"
proof -
  assume "files_ok (files d)"
  then have "distinct (map f_id (files d))" by (simp add: files_ok_def)
  then have "inj_on f_id (set (trash_list u d))" "distinct (trash_list u d)"
    by (auto simp: trash_list_def desc_sort_def distinct_map intro: inj_on_subset)
  then show ?thesis by (simp add: distinct_map)
qed

lemma filter_middle:
  assumes "distinct (map k (pre @ mid @ post))"
  shows "filter (\<lambda>x. k x \<notin> k ` set mid) (pre @ mid @ post) = pre @ post"
proof -
  have "filter (\<lambda>x. k x \<notin> k ` set mid) pre = pre" "filter (\<lambda>x. k x \<notin> k ` set mid) post = post"
    using assms by (auto simp: filter_id_conv)
  then show ?thesis by simp
qed

lemma trash_batch:
  assumes "files_ok (files d)" and "trash_flat u d" and "trash_list u d = pre @ mid @ post"
  shows "\<exists>d'. fold delete_item mid (a, b, d) = (a + length mid, b, d') \<and> trash_list u d' = pre @ post \<and> files_ok (files d') \<and> trash_flat u d'"
proof -
  have dis: "distinct (map f_id (pre @ mid @ post))" using distinct_trash_list [OF assms(1), of u] assms(3) by simp
  have "set mid \<subseteq> set (trash_list u d)" using assms(3) by auto
  then have mem: "\<forall>f \<in> set mid. f \<in> set (files d) \<and> f_user f = u \<and> f_trashed f" by (auto simp: trash_list_def desc_sort_def)
  obtain d' where d': "fold delete_item mid (a, b, d) = (a + length mid, b, d')" "files d' = filter (\<lambda>f. f_id f \<notin> f_id ` set mid) (files d)"
    using delete_items [OF mem _ assms(2), of a b] dis by (simp only: map_append distinct_append) blast
  have "trash_list u d' = filter (\<lambda>f. f_id f \<notin> f_id ` set mid) (trash_list u d)"
    by (simp add: trash_list_def d'(2) desc_sort_filter conj_commute)
  then have "trash_list u d' = pre @ post" using filter_middle [OF dis] assms(3) by simp
  moreover have "files_ok (files d')" unfolding d'(2) by (intro files_ok_filter assms(1))
  moreover have "trash_flat u d'" using assms(2) by (auto simp: trash_flat_def d'(2))
  ultimately show ?thesis using d'(1) by blast
qed

lemma empty_batches_survivors:
  assumes "files_ok (files d)" and "trash_flat u d" and "trash_list u d = pre @ xs"
    and "length pre = off \<or> (length pre \<le> off \<and> xs = [])" and "length xs < fuel"
  shows "\<exists>d'. empty_batches fuel u (int off) (a, b, d) = Returns (a + (length xs - length (survivors xs)), b, d')
    \<and> trash_list u d' = pre @ survivors xs"
  using assms
proof (induction fuel arbitrary: a d pre xs off)
  case (Suc fuel)
  have items: "ListTrash u 100 (int off) d = take 100 xs" using Suc.prems(3,4) by (auto simp: ListTrash_100)
  show ?case
  proof (cases "xs = []")
    case True
    with items Suc.prems(3) show ?thesis by simp
  next
    case False
    with Suc.prems(4) have off: "length pre = off" by simp
    have split: "trash_list u d = pre @ take 100 xs @ drop 100 xs" using Suc.prems(3) by simp
    obtain d1 where d1: "fold delete_item (take 100 xs) (a, b, d) = (a + length (take 100 xs), b, d1)"
      "trash_list u d1 = pre @ drop 100 xs" "files_ok (files d1)" "trash_flat u d1"
      using trash_batch [OF Suc.prems(1,2) split] by blast
    show ?thesis
    proof (cases "length xs < 100")
      case True
      with d1 items False show ?thesis by (auto simp: Let_def)
    next
      case big: False
      let ?ys = "drop 200 xs" and ?keep = "take 100 (drop 100 xs)"
      have "drop 100 xs = ?keep @ ?ys" using append_take_drop_id [of 100 "drop 100 xs"] by simp
      with d1(2) have t: "trash_list u d1 = (pre @ ?keep) @ ?ys" by simp
      have o: "length (pre @ ?keep) = off + 100 \<or> (length (pre @ ?keep) \<le> off + 100 \<and> ?ys = [])"
        using off by (cases "length xs \<le> 200") auto
      have f: "length ?ys < fuel" using Suc.prems(5) False big by (cases xs) auto
      from Suc.IH [OF d1(3,4) t o f, of "a + 100"] obtain d' where d':
        "empty_batches fuel u (int (off + 100)) (a + 100, b, d1) = Returns (a + 100 + (length ?ys - length (survivors ?ys)), b, d')"
        "trash_list u d' = (pre @ ?keep) @ survivors ?ys" by blast
      have sv: "survivors xs = ?keep @ survivors ?ys" using big by (subst survivors.simps) (auto simp: survivors_short)
      have "100 + (length ?ys - length (survivors ?ys)) = length xs - length (survivors xs)"
        using length_survivors [of ?ys] big by (simp add: sv)
      with d' d1(1) items big False sv show ?thesis by (simp add: Let_def add.commute add.left_commute)
    qed
  qed
qed simp

section \<open>Properties\<close>

text \<open>C22: A request that creates, renames, moves, trashes or restores an entry or bumps a version leaves
  every row of other users as it was and keeps the constraints of the database; its events go to
  its own user; and when it is answered with an error nothing has changed and no event is sent.\<close>

theorem file_calls_touch_own_rows:
  assumes "file_call u d (ans, d', evs)" and "db_ok d"
  shows "filter (\<lambda>f. f_user f \<noteq> u) (files d') = filter (\<lambda>f. f_user f \<noteq> u) (files d) \<and> db_ok d'
    \<and> (\<forall>ev \<in> set evs. ev_user ev = u) \<and> (400 \<le> answer_status ans \<longrightarrow> d' = d \<and> evs = [])"
  using file_call_ok [OF assms] by (simp add: effect_ok_def others_def)

definition demo_files :: database where
  "demo_files = empty_db\<lparr>files := [sample_file ''f'' None ''a'', (sample_file ''g'' None ''b'')\<lparr>f_user := ''v''\<rparr>]\<rparr>"

lemma demo_files_ok: "db_ok demo_files"
  by (simp add: demo_files_def db_ok_def files_ok_def names_unique_def manifests_ok_def chunks_ok_def empty_db_def sample_file_def name_clash_def)

theorem file_calls_touch_own_rows_witness:
  "\<exists>ans d' evs. snd (deleteFile False 0 ''u'' ''f'' demo_files) = (ans, d', evs)
    \<and> filter (\<lambda>f. f_user f \<noteq> ''u'') (files d') = [(sample_file ''g'' None ''b'')\<lparr>f_user := ''v''\<rparr>]"
proof -
  obtain ans d' evs where r: "snd (deleteFile False 0 ''u'' ''f'' demo_files) = (ans, d', evs)"
    by (cases "snd (deleteFile False 0 ''u'' ''f'' demo_files)") auto
  have "file_call ''u'' demo_files (ans, d', evs)" unfolding r [symmetric] by (rule fc_delete)
  from file_calls_touch_own_rows [OF this demo_files_ok] r show ?thesis by (auto simp: demo_files_def sample_file_def)
qed



lemma change_file_status: "change_file now u i q d = Inl e \<Longrightarrow> fst e \<in> {403, 500}"
  by (auto simp: change_file_def split: if_split_asm sum.split_asm)

lemma update_row_all:
  assumes "\<And>f. P (h f)"
  shows "\<forall>g \<in> set (update_row i h fs). f_id g = i \<longrightarrow> P g"
  using assms by (induction fs) (simp_all add: update_row_def)

lemma updateFolder_Answered:
  assumes "updateFolder live now u i (Some q) d = (Answered n x, d', evs)"
  shows "change_folder now i q d = Inr d'"
  using assms by (cases "owned_folder u i d"; cases "change_folder now i q d") (simp_all add: updateFolder_def refused_def internal_error_def)

lemma permanentDelete_Answered:
  assumes "permanentDelete v i d = (Answered n x, d')"
  shows "d' = delete_files [i] d"
  using assms by (cases "owned_item ''Item'' v i d"; cases "has_file i d")
    (simp_all add: permanentDelete_def refused_def internal_error_def DeletePermanent_def PermanentDelete_def wrap_db_def)

lemma Move_Inr: "Move now i p nm d = Inr d' \<Longrightarrow> \<exists>nm. MoveFile now i p nm d = Inr d'"
  by (auto simp: Move_def split: if_split_asm sum.split_asm)

text \<open>Deleting or changing a file that lies at the root takes effect and then panics: the event
  would name the parent folder, which is read through a nil pointer.  No event is sent, and the
  row stays deleted.\<close>

theorem root_file_change_panics:
  assumes "owned_item ''File'' u i d = Inr f" and "f_parent f = None"
  shows "\<exists>d'. deleteFile True now u i d = (True, Answered 200 (FileStatus ''deleted''), d', [])
    \<and> (\<forall>g \<in> set (files d'). f_id g = i \<longrightarrow> f_trashed g)
    \<and> (\<forall>q. answer_status (fst (snd (updateFile True now u i (Some q) d))) = 200 \<longrightarrow>
         fst (updateFile True now u i (Some q) d) \<and> snd (snd (snd (updateFile True now u i (Some q) d))) = [])"
proof -
  have h: "has_file i d" using owned_item_cases [OF assms(1)] GetFileByID_has by blast
  let ?h = "\<lambda>f. f\<lparr>f_trashed := True, f_trashed_at := Some (rfc3339 now), f_updated := rfc3339 now\<rparr>"
  have trashed: "\<forall>g \<in> set (update_row i ?h (files d)). f_id g = i \<longrightarrow> f_trashed g"
    by (rule update_row_all) simp
  then have "vfs_Delete now i d = Inr (d\<lparr>files := update_row i (\<lambda>f. f\<lparr>f_trashed := True, f_trashed_at := Some (rfc3339 now),
             f_updated := rfc3339 now\<rparr>) (files d)\<rparr>)"
    using h by (simp add: vfs_Delete_def SoftDelete_def)
  then have "\<exists>d'. deleteFile True now u i d = (True, Answered 200 (FileStatus ''deleted''), d', [])
      \<and> (\<forall>g \<in> set (files d'). f_id g = i \<longrightarrow> f_trashed g)"
    using assms trashed by (simp add: deleteFile_def)
  moreover have "answer_status (fst (snd (updateFile True now u i (Some q) d))) = 200 \<longrightarrow>
         fst (updateFile True now u i (Some q) d) \<and> snd (snd (snd (updateFile True now u i (Some q) d))) = []" for q
  proof (cases "change_file now u i q d")
    case (Inl e)
    with change_file_status [OF Inl] assms show ?thesis by (auto simp: updateFile_def refused_def)
  next
    case (Inr d')
    with assms show ?thesis by (simp add: updateFile_def)
  qed
  ultimately show ?thesis by blast
qed

theorem root_file_change_panics_witness:
  "\<exists>d'. deleteFile True 7 ''u'' ''f'' demo_files = (True, Answered 200 (FileStatus ''deleted''), d', [])"
proof -
  have "owned_item ''File'' ''u'' ''f'' demo_files = Inr (sample_file ''f'' None ''a'')"
    by (simp add: owned_item_def GetFile_def GetFileByID_def demo_files_def sample_file_def)
  from root_file_change_panics [OF this, of 7] show ?thesis by (auto simp: sample_file_def)
qed

text \<open>A file can be moved only into a folder of its owner; a folder can be moved into a folder of
  anybody.  When the owner of that folder deletes it permanently, on a connection that enforces the
  references, the moved folder is gone with it.\<close>

theorem folder_moves_into_foreign_folder:
  assumes "db_ok d" and "fk_on d" and "GetFileByID (ec_parent q) d = Inr p" and "f_user p \<noteq> u" and "ec_parent q \<noteq> []"
  shows "(owned_item ''File'' u i d = Inr f \<longrightarrow>
      updateFile live now u i (Some q) d = (False, Refused 403 ''Access denied to target folder'', d, []))
    \<and> (updateFolder live now u i (Some q) d = (Answered 200 x, d1, evs) \<longrightarrow>
      permanentDelete v (ec_parent q) d1 = (Answered 200 y, d2) \<longrightarrow> \<not> has_file i d2)"
proof (intro conjI impI)
  assume "owned_item ''File'' u i d = Inr f"
  then show "updateFile live now u i (Some q) d = (False, Refused 403 ''Access denied to target folder'', d, [])"
    using assms(3-5) by (simp add: updateFile_def change_file_def GetFile_def refused_def)
next
  assume up: "updateFolder live now u i (Some q) d = (Answered 200 x, d1, evs)"
    and del: "permanentDelete v (ec_parent q) d1 = (Answered 200 y, d2)"
  from updateFolder_Answered [OF up] have "Move now i (ec_parent q) (ec_name q) d = Inr d1" using assms(5) by (simp add: change_folder_def)
  then obtain nm where "MoveFile now i (ec_parent q) nm d = Inr d1" using Move_Inr by blast
  with MoveFile_Inr assms(5) have d1: "d1 = d\<lparr>files := update_row i (\<lambda>f. f\<lparr>f_parent := Some (ec_parent q), f_name := nm,
        f_updated := rfc3339 now\<rparr>) (files d)\<rparr>" by fastforce
  have d2: "d2 = delete_files [ec_parent q] d1" by (rule permanentDelete_Answered [OF del])
  have "is_below (files d1) [ec_parent q] (f_id g)" if "g \<in> set (files d1)" "f_id g = i" for g
  proof -
    let ?h = "\<lambda>f. f\<lparr>f_parent := Some (ec_parent q), f_name := nm, f_updated := rfc3339 now\<rparr>"
    have "\<forall>g \<in> set (update_row i ?h (files d)). f_id g = i \<longrightarrow> f_parent g = Some (ec_parent q)"
      by (rule update_row_all) simp
    then have "f_parent g = Some (ec_parent q)" using that by (simp add: d1)
    moreover have "is_below (files d1) [ec_parent q] (ec_parent q)" by (simp add: is_below.root)
    ultimately show ?thesis using that(1) by (blast intro: is_below.child)
  qed
  moreover have "fk_on d1" using assms(2) by (simp add: d1)
  ultimately show "\<not> has_file i d2" by (auto simp: has_file_def d2 delete_files_def Let_def descend_is_below)
qed

definition demo_folders :: database where
  "demo_folders = empty_db\<lparr>fk_on := True, files := [(sample_file ''f'' None ''a'')\<lparr>f_type := ''folder''\<rparr>,
     (sample_file ''g'' None ''b'')\<lparr>f_user := ''v'', f_type := ''folder''\<rparr>]\<rparr>"

theorem folder_moves_into_foreign_folder_witness:
  "\<exists>x y d1 d2. updateFolder False 0 ''u'' ''f'' (Some \<lparr>ec_name = ''a'', ec_parent = ''g''\<rparr>) demo_folders = (Answered 200 x, d1, [])
    \<and> permanentDelete ''v'' ''g'' d1 = (Answered 200 y, d2) \<and> \<not> has_file ''f'' d2"
proof -
  let ?q = "\<lparr>ec_name = ''a'', ec_parent = ''g''\<rparr>"
  have ok: "db_ok demo_folders"
    by (simp add: demo_folders_def db_ok_def files_ok_def names_unique_def manifests_ok_def chunks_ok_def empty_db_def sample_file_def name_clash_def)
  have p: "GetFileByID (ec_parent ?q) demo_folders = Inr ((sample_file ''g'' None ''b'')\<lparr>f_user := ''v'', f_type := ''folder''\<rparr>)"
    by (simp add: GetFileByID_def demo_folders_def sample_file_def)
  have "\<exists>d1. updateFolder False 0 ''u'' ''f'' (Some ?q) demo_folders = (Answered 200 (FileStatus ''updated''), d1, [])
      \<and> has_file ''g'' d1 \<and> owned_item ''Item'' ''v'' ''g'' d1 = Inr ((sample_file ''g'' None ''b'')\<lparr>f_user := ''v'', f_type := ''folder''\<rparr>)"
    by (simp add: updateFolder_def owned_folder_def owned_item_def GetFile_def GetFileByID_def change_folder_def Move_def MoveFile_def
        isValidName_def wrap_db_def update_clash_def name_clash_def update_row_def has_file_def demo_folders_def sample_file_def empty_db_def Let_def)
  then obtain d1 where d1: "updateFolder False 0 ''u'' ''f'' (Some ?q) demo_folders = (Answered 200 (FileStatus ''updated''), d1, [])"
    "has_file ''g'' d1" "owned_item ''Item'' ''v'' ''g'' d1 = Inr ((sample_file ''g'' None ''b'')\<lparr>f_user := ''v'', f_type := ''folder''\<rparr>)" by blast
  then obtain d2 where d2: "permanentDelete ''v'' ''g'' d1 = (Answered 200 (FileStatus ''deleted''), d2)"
    by (simp add: permanentDelete_def DeletePermanent_def PermanentDelete_def wrap_db_def)
  have "\<not> has_file ''f'' d2"
    using folder_moves_into_foreign_folder [OF ok _ p, of "''u''"] d1(1) d2 by (simp add: demo_folders_def sample_file_def)
  with d1(1) d2 show ?thesis by blast
qed

end
