(* ===== verification/Maintenance.thy ===== *)
theory Maintenance
  imports Gc Rbac
begin

text \<open>
  The audit log, the settings, the seed data and the counts for administrators
  (\<^verbatim>\<open>src/internal/db\<close>: \<^verbatim>\<open>audit.go\<close>, \<^verbatim>\<open>settings.go\<close>, \<^verbatim>\<open>seed.go\<close>,
  \<^verbatim>\<open>stats_helpers.go\<close>) and the manager of the background workers
  (\<^verbatim>\<open>src/internal/worker/manager.go\<close>).
\<close>

section \<open>audit.go\<close>

record audit_entry =
  ae_id :: string
  ae_user :: "string option"
  ae_action :: string
  ae_rtype :: string
  ae_resource :: "string option"
  ae_details :: string
  ae_ip :: string
  ae_agent :: string
  ae_created :: int

definition CreateAuditEntry :: "audit_entry \<Rightarrow> audit_entry list \<Rightarrow> audit_entry list result" where
  "CreateAuditEntry e log =
     (if \<exists>x \<in> set log. ae_id x = ae_id e then Inl ''failed to create audit entry''
      else Inr (log @ [e\<lparr>ae_created := rfc3339 (ae_created e)\<rparr>]))"

definition audit_matches :: "string option \<Rightarrow> string \<Rightarrow> string \<Rightarrow> int \<Rightarrow> int \<Rightarrow> audit_entry \<Rightarrow> bool" where
  "audit_matches userID action resourceType start stop e \<longleftrightarrow>
     (userID \<noteq> None \<longrightarrow> ae_user e = userID) \<and> (action \<noteq> [] \<longrightarrow> ae_action e = action)
     \<and> (resourceType \<noteq> [] \<longrightarrow> ae_rtype e = resourceType)
     \<and> (start \<noteq> zero_time \<longrightarrow> rfc3339 start \<le> ae_created e) \<and> (stop \<noteq> zero_time \<longrightarrow> ae_created e \<le> rfc3339 stop)"

definition GetAuditEntries :: "string option \<Rightarrow> string \<Rightarrow> string \<Rightarrow> int \<Rightarrow> int \<Rightarrow> int \<Rightarrow> int \<Rightarrow> audit_entry list
    \<Rightarrow> audit_entry list \<times> nat" where
  "GetAuditEntries userID action resourceType start stop limit offset log =
     (let sel = filter (audit_matches userID action resourceType start stop) log
      in (sql_page limit offset (desc_sort ae_created sel), length sel))"

definition CleanupOldAuditEntries :: "int \<Rightarrow> int \<Rightarrow> audit_entry list \<Rightarrow> nat \<times> audit_entry list" where
  "CleanupOldAuditEntries now olderThan log =
     (length (filter (\<lambda>e. ae_created e < rfc3339 (now - olderThan)) log),
      filter (\<lambda>e. \<not> ae_created e < rfc3339 (now - olderThan)) log)"

lemma cleanup_keeps_recent:
  "set (snd (CleanupOldAuditEntries now age log)) = {e \<in> set log. rfc3339 (now - age) \<le> ae_created e}"
  by (auto simp: CleanupOldAuditEntries_def)

section \<open>settings.go\<close>

type_synonym settings = "(string \<times> string) list"

definition GetSetting :: "string \<Rightarrow> settings \<Rightarrow> string result" where
  "GetSetting key st = (case al_get st key of None \<Rightarrow> Inl ''setting not found'' | Some v \<Rightarrow> Inr v)"

definition GetSettingOrDefault :: "string \<Rightarrow> string \<Rightarrow> settings \<Rightarrow> string" where
  "GetSettingOrDefault key defaultValue st = (case GetSetting key st of Inl e \<Rightarrow> defaultValue | Inr v \<Rightarrow> v)"

definition SetSetting :: "string \<Rightarrow> string \<Rightarrow> settings \<Rightarrow> settings" where
  "SetSetting key v st = al_put st key v"

definition DeleteSetting :: "string \<Rightarrow> settings \<Rightarrow> settings result" where
  "DeleteSetting key st = (if al_get st key = None then Inl ''setting not found'' else Inr (al_del st key))"

definition GetAllSettings :: "settings \<Rightarrow> settings" where
  "GetAllSettings st = st"

lemma setting_lookup: "GetSettingOrDefault k dflt (SetSetting j v st) = (if k = j then v else GetSettingOrDefault k dflt st)"
  by (simp add: GetSettingOrDefault_def GetSetting_def SetSetting_def al_simps)

section \<open>seed.go\<close>

text \<open>The rows of the tables \<^verbatim>\<open>roles\<close> and \<^verbatim>\<open>permissions\<close>, without the generated ids.\<close>

definition seeded_roles :: "(string \<times> string \<times> string \<times> bool) list" where
  "seeded_roles = [(''role_admin'', ''admin'', ''Full system control'', True), (''role_user'', ''user'', ''Standard user'', True),
     (''role_guest'', ''guest'', ''Guest user with limited access'', True)]"

definition adminPerms :: "permission list" where
  "adminPerms = [perm ''file'' ''read'' ''all'', perm ''file'' ''write'' ''all'', perm ''file'' ''delete'' ''all'', perm ''file'' ''share'' ''all'',
     perm ''folder'' ''read'' ''all'', perm ''folder'' ''write'' ''all'', perm ''folder'' ''delete'' ''all'', perm ''folder'' ''share'' ''all'',
     perm ''user'' ''read'' ''all'', perm ''user'' ''write'' ''all'', perm ''user'' ''delete'' ''all'', perm ''user'' ''manage'' ''all'',
     perm ''share'' ''read'' ''all'', perm ''share'' ''write'' ''all'', perm ''share'' ''delete'' ''all'',
     perm ''system'' ''read'' ''all'', perm ''system'' ''write'' ''all'', perm ''system'' ''manage'' ''all'']"

definition userPerms :: "permission list" where
  "userPerms = [perm ''file'' ''read'' ''own'', perm ''file'' ''write'' ''own'', perm ''file'' ''delete'' ''own'', perm ''file'' ''share'' ''own'',
     perm ''file'' ''read'' ''group'', perm ''folder'' ''read'' ''own'', perm ''folder'' ''write'' ''own'', perm ''folder'' ''delete'' ''own'',
     perm ''folder'' ''share'' ''own'', perm ''folder'' ''read'' ''group'', perm ''share'' ''read'' ''own'', perm ''share'' ''write'' ''own'',
     perm ''share'' ''delete'' ''own'']"

definition guestPerms :: "permission list" where
  "guestPerms = [perm ''file'' ''read'' ''group'', perm ''folder'' ''read'' ''group'']"

definition adminPasswordHash :: string where
  "adminPasswordHash = ''$argon2id$v=19$m=65536,t=3,p=1$6IOdsT/ZB3Yc39wdhST32A$0psObWN9M9SCF1zLWMsE9lef9JFfK2pqsY1o2M3x2zg''"

record role_tables =
  rt_roles :: "(string \<times> string \<times> string \<times> bool) list"
  rt_perms :: "(string \<times> permission) list"

definition seeded_admin :: "string \<Rightarrow> int \<Rightarrow> user" where
  "seeded_admin uid now = \<lparr>u_id = uid, u_username = ''admin'', u_email = ''admin@localhost'', u_display = ''Administrator'',
     u_password_hash = adminPasswordHash, u_role = ''admin'', u_quota = 10737418240, u_used = 0, u_totp_secret = None,
     u_totp_enabled = False, u_public_key = [], u_private_key = [], u_recovery = None, u_avatar = None, u_status = ''active'',
     u_must_change = True, u_last_login = None, u_created = rfc3339 now, u_updated = rfc3339 now\<rparr>"

definition seed :: "string \<Rightarrow> int \<Rightarrow> role_tables \<times> database \<Rightarrow> role_tables \<times> database" where
  "seed uid now st =
     (if rt_roles (fst st) \<noteq> [] then st
      else (\<lparr>rt_roles = seeded_roles, rt_perms = map (Pair ''role_admin'') adminPerms @ map (Pair ''role_user'') userPerms
               @ map (Pair ''role_guest'') guestPerms\<rparr>,
            (snd st)\<lparr>users := users (snd st) @ [seeded_admin uid now]\<rparr>))"

text \<open>The seeded permissions are not the ones that are enforced: the tables are never read.\<close>

lemma seeded_roles_differ:
  "list_ex (\<lambda>p. Matches p ''file'' ''share'' ''own'') userPerms
   \<and> (\<exists>r. al_get (seedDefaultRoles []) ''user'' = Some r \<and> \<not> list_ex (\<lambda>p. Matches p ''file'' ''share'' ''own'') (r_perms r)
        \<and> list_ex (\<lambda>p. Matches p ''share'' ''read'' ''group'') (r_perms r))
   \<and> \<not> list_ex (\<lambda>p. Matches p ''share'' ''read'' ''group'') userPerms"
  by (simp add: userPerms_def perm_def Matches_def scope_level_def seedDefaultRoles_def Let_def)

section \<open>stats\<close>

text \<open>\<open>live\<close> is the comparison of the stored expiry with the present, made by the driver on texts.\<close>

definition CountActiveShares :: "(share \<Rightarrow> bool) \<Rightarrow> tables \<Rightarrow> nat" where
  "CountActiveShares live t = length (filter (\<lambda>s. sh_active s \<and> (sh_expires s = None \<or> live s)) (t_shares t))"

section \<open>manager.go\<close>

record manager =
  wm_pool :: "gc_spec option pool"
  wm_size :: nat
  wm_tasks :: "gc_spec option tasks"

definition NewManager :: "int \<Rightarrow> manager" where
  "NewManager numCPU =
     (let (n, p) = NewWorkerPool numCPU NewMemoryQueue 4
      in \<lparr>wm_pool = RegisterHandler ''garbage-collect'' p, wm_size = n, wm_tasks = []\<rparr>)"

text \<open>A day in nanoseconds.\<close>

definition day :: int where "day = 24 * 3600 * 10 ^ 9"

definition manager_Start :: "int \<Rightarrow> manager \<Rightarrow> manager" where
  "manager_Start now m =
     m\<lparr>wm_pool := pool_Start (wm_size m) (wm_pool m),
       wm_tasks := AddTask ''trash-cleanup'' ''garbage-collect'' (Some \<lparr>gs_type = ''trash'', gs_older = now - 30 * day\<rparr>) day (wm_tasks m)\<rparr>"

definition manager_Stop :: "manager \<Rightarrow> manager" where
  "manager_Stop m = m\<lparr>wm_pool := pool_Stop (wm_pool m)\<rparr>"

definition QueueGC :: "int \<Rightarrow> gc_spec \<Rightarrow> manager \<Rightarrow> manager" where
  "QueueGC now spec m = m\<lparr>wm_pool := QueueGCJob now spec (wm_pool m)\<rparr>"

definition scheduler_tick :: "int \<Rightarrow> manager \<Rightarrow> manager" where
  "scheduler_tick now m = (let (ts, p) = checkAndRunTasks now (wm_tasks m) (wm_pool m) in m\<lparr>wm_tasks := ts, wm_pool := p\<rparr>)"

definition runSessionCleanup :: "int \<Rightarrow> tables \<Rightarrow> tables" where
  "runSessionCleanup now t = snd (CleanupExpiredSessions now t)"

fun cleanupSessionsLoop :: "int list \<Rightarrow> tables \<Rightarrow> tables" where
  "cleanupSessionsLoop [] t = t"
| "cleanupSessionsLoop (now # ticks) t = cleanupSessionsLoop ticks (runSessionCleanup now t)"

lemma cleanup_sessions_loop:
  "t_sessions (cleanupSessionsLoop ticks t) = filter (\<lambda>s. \<forall>now \<in> set ticks. rfc3339 now \<le> se_expires s) (t_sessions t)"
proof (induction ticks arbitrary: t)
  case (Cons now ticks)
  have "t_sessions (runSessionCleanup now t) = filter (\<lambda>s. rfc3339 now \<le> se_expires s) (t_sessions t)"
    by (simp add: runSessionCleanup_def CleanupExpiredSessions_def not_less)
  with Cons show ?case by (simp add: conj_commute)
qed simp

text \<open>The jobs in the queue of a pool, and the specifications they carry.\<close>

definition queued_specs :: "manager \<Rightarrow> gc_spec option list" where
  "queued_specs m = map Payload (queue (wm_pool m))"

lemma set_Push: "set (Push j q) = insert j (set q)"
  by (induction q) auto

definition trash_only :: "int \<Rightarrow> manager \<Rightarrow> bool" where
  "trash_only t0 m \<longleftrightarrow> (\<exists>t. wm_tasks m = [(''trash-cleanup'', t)] \<and> task_payload t = Some \<lparr>gs_type = ''trash'', gs_older = t0 - 30 * day\<rparr>)
     \<and> (\<forall>job \<in> set (queue (wm_pool m)). Payload job = Some \<lparr>gs_type = ''trash'', gs_older = t0 - 30 * day\<rparr>)"

lemma trash_only_tick: "trash_only t0 m \<Longrightarrow> trash_only t0 (scheduler_tick now m)"
  by (auto simp: trash_only_def scheduler_tick_def checkAndRunTasks_def run_task_def queued_specs_def Submit_def task_job_def set_Push split: if_split_asm)

lemma trash_only_start: "trash_only t0 (manager_Start t0 (NewManager n))"
  by (simp add: trash_only_def manager_Start_def NewManager_def NewWorkerPool_def AddTask_def queued_specs_def RegisterHandler_def
      pool_Start_def NewMemoryQueue_def)

lemma trash_only_ticks: "trash_only t0 m \<Longrightarrow> trash_only t0 (fold scheduler_tick ticks m)"
  by (induction ticks arbitrary: m) (simp_all add: trash_only_tick)

section \<open>Properties\<close>

text \<open>The daily job that empties the trash is made once, when the server starts: however long the
  server runs, every such job asks for the entries that were older than thirty days at the start,
  so what is trashed afterwards stays until a restart.\<close>

theorem trash_threshold_is_fixed:
  assumes "spec \<in> set (queued_specs (fold scheduler_tick ticks (manager_Start t0 (NewManager n))))"
  shows "spec = Some \<lparr>gs_type = ''trash'', gs_older = t0 - 30 * day\<rparr>"
  using assms trash_only_ticks [OF trash_only_start, of t0 ticks n] by (auto simp: trash_only_def queued_specs_def)

theorem trash_threshold_is_fixed_witness:
  "\<exists>spec \<in> set (queued_specs (fold scheduler_tick [90 * day] (manager_Start 0 (NewManager 4)))). spec = Some \<lparr>gs_type = ''trash'', gs_older = - (30 * day)\<rparr>"
proof -
  let ?m = "fold scheduler_tick [90 * day] (manager_Start 0 (NewManager 4))"
  have "queued_specs ?m \<noteq> []"
    by (simp add: scheduler_tick_def checkAndRunTasks_def run_task_def manager_Start_def NewManager_def NewWorkerPool_def AddTask_def
        RegisterHandler_def pool_Start_def NewMemoryQueue_def queued_specs_def Submit_def task_due_def time_sub_def zero_time_def day_def)
  then obtain spec where s: "spec \<in> set (queued_specs ?m)" by fastforce
  from trash_threshold_is_fixed [OF s] s show ?thesis by auto
qed

end
