(* ===== verification/Accounts_Api.thy ===== *)
theory Accounts_Api
  imports Maintenance Http
begin

text \<open>
  The requests on accounts (\<^verbatim>\<open>src/internal/server\<close>: \<^verbatim>\<open>handlers_auth.go\<close>,
  \<^verbatim>\<open>handlers_user.go\<close>, \<^verbatim>\<open>handlers_admin.go\<close>).  A request is its decoded body
  (\<open>None\<close> when it cannot be decoded), its query values and, behind the authentication middleware,
  the user it established.  \<open>gen\<close>, \<open>clk\<close> and \<open>P\<close> are as in the authentication service.
\<close>

datatype account_answer = LoggedIn token_pair string string | TotpRequired string | TotpLoggedIn token_pair string
  | Refreshed token_pair | AccountStatus string | Profile user | UserPage "user list" nat int int | UserMade string
  | UserDetails user | AuditPage "audit_entry list" nat int int | Health string string string
  | Stats nat nat nat int nat int nat int

section \<open>handlers_auth.go\<close>

definition web_client :: "string \<Rightarrow> string \<Rightarrow> client_info" where
  "web_client ip agent = \<lparr>ci_device = [], ci_dtype = ''web'', ci_ip = ip, ci_agent = agent\<rparr>"

fun login_refusal :: "auth_error \<Rightarrow> account_answer answer" where
  "login_refusal ErrInvalidCredentials = Refused 401 ''Invalid username or password''"
| "login_refusal ErrUserDisabled = Refused 403 ''Account is disabled''"
| "login_refusal ErrUserLocked = Refused 403 ''Account is locked''"
| "login_refusal ErrPasswordChangeRequired = Refused 403 ''Password change required''"
| "login_refusal _ = internal_error"

definition login :: "primitives \<Rightarrow> brute_config \<Rightarrow> int \<Rightarrow> (nat \<Rightarrow> int) \<Rightarrow> (nat \<Rightarrow> string) \<Rightarrow> string \<Rightarrow> string
    \<Rightarrow> (string \<times> string) option \<Rightarrow> auth_state \<Rightarrow> account_answer answer outcome \<times> auth_state" where
  "login P cfg ttl clk gen ip agent body st =
     (case body of
        None \<Rightarrow> (Returns (Refused 400 ''Invalid request body''), st)
      | Some (username, password) \<Rightarrow>
          if username = [] \<or> password = [] then (Returns (Refused 400 ''Username and password required''), st)
          else (case Login P cfg ttl clk gen username password (web_client ip agent) st of
                  (Inl e, st') \<Rightarrow> (Returns (login_refusal e), st')
                | (Inr r, st') \<Rightarrow>
                    if lr_requires_totp r then (Returns (Answered 200 (TotpRequired (lr_totp_session r))), st')
                    else (case lr_tokens r of
                            None \<Rightarrow> (Panics, st')
                          | Some tk \<Rightarrow> (Returns (Answered 200 (LoggedIn tk (lr_session r) username)), st'))))"

definition verifyTOTP :: "primitives \<Rightarrow> int \<Rightarrow> int \<Rightarrow> (nat \<Rightarrow> int) \<Rightarrow> (nat \<Rightarrow> string) \<Rightarrow> string \<Rightarrow> string
    \<Rightarrow> (string \<times> string) option \<Rightarrow> auth_state \<Rightarrow> (account_answer answer \<times> auth_state) outcome" where
  "verifyTOTP P skew ttl clk gen ip agent body st =
     (case body of
        None \<Rightarrow> Returns (Refused 400 ''Invalid request body'', st)
      | Some (tmp, totpCode) \<Rightarrow>
          if tmp = [] \<or> totpCode = [] then Returns (Refused 400 ''Session and code required'', st)
          else obind (LoginWithTOTP P skew ttl clk gen tmp totpCode (web_client ip agent) st) (\<lambda>(r, st').
                 (case r of
                    Inl e \<Rightarrow> Returns ((if e = ErrInvalidSession then Refused 401 ''Invalid or expired TOTP session''
                               else if e = ErrInvalidTOTP then Refused 401 ''Invalid TOTP code'' else internal_error), st')
                  | Inr l \<Rightarrow> (case lr_tokens l of None \<Rightarrow> Panics | Some tk \<Rightarrow> Returns (Answered 200 (TotpLoggedIn tk (lr_session l)), st')))))"

text \<open>The token of the header: a prefix \<^verbatim>\<open>Bearer\<close> is cut off when something follows it.\<close>

definition cut_bearer :: "string \<Rightarrow> string" where
  "cut_bearer authorization =
     (if length authorization > 7 \<and> take 7 authorization = ''Bearer '' then drop 7 authorization else authorization)"

definition logout :: "primitives \<Rightarrow> int \<Rightarrow> string \<Rightarrow> tables \<Rightarrow> account_answer answer \<times> tables" where
  "logout P now authorization t =
     (case ValidateAccessToken (p_dec P) (p_mac P) now (cut_bearer authorization) of
        Inl e \<Rightarrow> (Refused 401 ''Invalid token'', t)
      | Inr c \<Rightarrow> (case Logout (ac_session c) t of
          Inl e \<Rightarrow> (Refused 500 ''Failed to logout'', t) | Inr t' \<Rightarrow> (Answered 200 (AccountStatus ''logged out''), t')))"

definition requireAuth :: "primitives \<Rightarrow> int \<Rightarrow> string \<Rightarrow> ('s \<Rightarrow> account_answer answer \<times> 's) \<Rightarrow> 's \<Rightarrow> account_answer answer \<times> 's" where
  "requireAuth P now authorization h s =
     (if authorization = [] then (Refused 401 ''Authorization required'', s)
      else case ValidateAccessToken (p_dec P) (p_mac P) now (cut_bearer authorization) of
             Inl e \<Rightarrow> (Refused 401 ''Invalid token'', s) | Inr c \<Rightarrow> h s)"

definition refresh :: "primitives \<Rightarrow> int \<Rightarrow> (nat \<Rightarrow> int) \<Rightarrow> (nat \<Rightarrow> string) \<Rightarrow> string option \<Rightarrow> tables \<Rightarrow> account_answer answer \<times> tables" where
  "refresh P ttl clk gen body t =
     (case body of
        None \<Rightarrow> (Refused 400 ''Invalid request body'', t)
      | Some tk \<Rightarrow>
          if tk = [] then (Refused 400 ''Refresh token required'', t)
          else (case Refresh P ttl clk gen tk t of
                  (Inl e, t') \<Rightarrow> ((if e = ErrInvalidSession then Refused 401 ''Invalid session''
                     else if e = ErrSessionExpired then Refused 401 ''Session expired'' else internal_error), t')
                | (Inr p, t') \<Rightarrow> (Answered 200 (Refreshed p), t')))"

section \<open>handlers_user.go\<close>

definition getProfile :: "string \<Rightarrow> database \<Rightarrow> account_answer answer" where
  "getProfile userID d =
     (if userID = [] then unauthorized
      else case GetUserByID userID d of Inl e \<Rightarrow> Refused 404 ''User not found'' | Inr u \<Rightarrow> Answered 200 (Profile u))"

text \<open>The body: the new display name and the new address, each optional.\<close>

definition updateProfile :: "int \<Rightarrow> string \<Rightarrow> (string option \<times> string option) option \<Rightarrow> database \<Rightarrow> account_answer answer \<times> database" where
  "updateProfile now userID body d =
     (if userID = [] then (unauthorized, d)
      else case body of
        None \<Rightarrow> (Refused 400 ''Invalid request body'', d)
      | Some (display, mail) \<Rightarrow>
          (let updates = (case display of None \<Rightarrow> [] | Some s \<Rightarrow> [PDisplay s]) @ (case mail of None \<Rightarrow> [] | Some s \<Rightarrow> [PEmail s])
           in if updates = [] then (Refused 400 ''No fields to update'', d)
              else case UpdateUser now userID updates d of
                     Inl e \<Rightarrow> (Refused 500 ''Failed to update profile'', d)
                   | Inr d' \<Rightarrow> (Answered 200 (AccountStatus ''updated''), d')))"

definition changePassword :: "primitives \<Rightarrow> byte list option \<Rightarrow> int \<Rightarrow> string \<Rightarrow> (string \<times> string) option \<Rightarrow> database
    \<Rightarrow> account_answer answer \<times> database" where
  "changePassword P salt now userID body d =
     (if userID = [] then (unauthorized, d)
      else case body of
        None \<Rightarrow> (Refused 400 ''Invalid request body'', d)
      | Some (current, new) \<Rightarrow>
          if current = [] \<or> new = [] then (Refused 400 ''Current and new password required'', d)
          else if length new < 8 then (Refused 400 ''New password must be at least 8 characters'', d)
          else (case GetUserByID userID d of
                  Inl e \<Rightarrow> (Refused 404 ''User not found'', d)
                | Inr u \<Rightarrow>
                    if VerifyPassword (p_hmac P) (p_sha256 P) (p_sha512 P) current (u_password_hash u) \<noteq> Inr True
                    then (Refused 401 ''Current password is incorrect'', d)
                    else (case HashPassword (p_hmac P) (p_sha256 P) (p_sha512 P) salt new of
                            Inl e \<Rightarrow> (Refused 500 ''Failed to hash password'', d)
                          | Inr h \<Rightarrow>
                              (case UpdatePassword now userID h d of
                                 Inl e \<Rightarrow> (Refused 500 ''Failed to update password'', d)
                               | Inr d' \<Rightarrow> (Answered 200 (AccountStatus ''password changed''), d')))))"

section \<open>handlers_admin.go\<close>

definition admin_required :: "'a answer" where
  "admin_required = Refused 403 ''Admin access required''"

text \<open>The check of every handler: the roles the authentication middleware found in the token.\<close>

definition isAdmin :: "request_user \<Rightarrow> bool" where
  "isAdmin ru = mw_IsAdmin ru"

definition requireAdmin :: "('s \<Rightarrow> 'a answer \<times> 's) \<Rightarrow> request_user \<Rightarrow> 's \<Rightarrow> 'a answer \<times> 's" where
  "requireAdmin h ru s = (if \<not> isAdmin ru then (admin_required, s) else h s)"

definition getSystemHealth :: "bool \<Rightarrow> bool \<Rightarrow> request_user \<Rightarrow> account_answer answer" where
  "getSystemHealth ping stats ru =
     (if \<not> isAdmin ru then admin_required
      else (let word = (\<lambda>b. if b then ''healthy'' else ''unhealthy'')
            in Answered 200 (Health (if ping \<and> stats then ''healthy'' else ''degraded'') (word ping) (word stats))))"

text \<open>Counts that fail are logged and reported as 0; \<open>used\<close> is what the storage backend reports.\<close>

definition getSystemStats :: "(share \<Rightarrow> bool) \<Rightarrow> int option \<Rightarrow> request_user \<Rightarrow> tables \<Rightarrow> account_answer answer" where
  "getSystemStats live used ru t =
     (if \<not> isAdmin ru then admin_required
      else (let d = t_db t; known = (\<lambda>r. case r of Inl e \<Rightarrow> 0 | Inr n \<Rightarrow> n)
            in Answered 200 (Stats (CountUsersByStatus [] d) (CountUsersByStatus ''active'' d) (CountFiles d) (known (SumFileBytes d))
                 (GetTotalChunkCount d) (known (GetTotalChunkSize d)) (CountActiveShares live t)
                 (case used of None \<Rightarrow> 0 | Some n \<Rightarrow> n))))"

text \<open>A number that cannot be parsed is 0.\<close>

definition query_number :: "string \<Rightarrow> int" where
  "query_number s = (case atoi s of None \<Rightarrow> 0 | Some n \<Rightarrow> n)"

definition admin_limit :: "int \<Rightarrow> int \<Rightarrow> string \<Rightarrow> int" where
  "admin_limit most dflt s = (if query_number s < 1 \<or> query_number s > most then dflt else query_number s)"

definition admin_offset :: "string \<Rightarrow> int" where
  "admin_offset s = (if query_number s < 0 then 0 else query_number s)"

definition listUsers :: "string \<Rightarrow> string \<Rightarrow> request_user \<Rightarrow> database \<Rightarrow> account_answer answer" where
  "listUsers limit offset ru d =
     (if \<not> isAdmin ru then admin_required
      else (let (us, n) = ListUsers (admin_offset offset) (admin_limit 100 20 limit) \<lparr>uf_role = [], uf_status = [], uf_query = []\<rparr> d
            in Answered 200 (UserPage us n (admin_limit 100 20 limit) (admin_offset offset))))"

record new_account =
  na_username :: string
  na_email :: string
  na_password :: string
  na_role :: string

definition account_row :: "new_account \<Rightarrow> string \<Rightarrow> user" where
  "account_row q h = \<lparr>u_id = [], u_username = na_username q, u_email = na_email q, u_display = [], u_password_hash = h, u_role = na_role q,
     u_quota = 0, u_used = 0, u_totp_secret = None, u_totp_enabled = False, u_public_key = [], u_private_key = [], u_recovery = None,
     u_avatar = None, u_status = ''active'', u_must_change = False, u_last_login = None, u_created = zero_time, u_updated = zero_time\<rparr>"

definition createUser :: "primitives \<Rightarrow> byte list option \<Rightarrow> string \<Rightarrow> bool \<Rightarrow> request_user \<Rightarrow> new_account option \<Rightarrow> database
    \<Rightarrow> account_answer answer \<times> database" where
  "createUser P salt rnd email_first ru body d =
     (if \<not> isAdmin ru then (admin_required, d)
      else case body of
        None \<Rightarrow> (Refused 400 ''Invalid request body'', d)
      | Some q \<Rightarrow>
          if na_username q = [] \<or> na_email q = [] \<or> na_password q = []
          then (Refused 400 ''Username, email and password required'', d)
          else (case HashPassword (p_hmac P) (p_sha256 P) (p_sha512 P) salt (na_password q) of
                  Inl e \<Rightarrow> (Refused 500 ''Failed to hash password'', d)
                | Inr h \<Rightarrow> (case CreateUser rnd email_first (account_row q h) d of
                    Inl e \<Rightarrow> (Refused 500 ''Failed to create user'', d) | Inr d' \<Rightarrow> (Answered 201 (UserMade rnd), d'))))"

definition getUser :: "request_user \<Rightarrow> string \<Rightarrow> database \<Rightarrow> account_answer answer" where
  "getUser ru userID d =
     (if \<not> isAdmin ru then admin_required
      else if userID = [] then Refused 400 ''User ID required''
      else case GetUserByID userID d of Inl e \<Rightarrow> Refused 404 ''User not found'' | Inr u \<Rightarrow> Answered 200 (UserDetails u))"

record account_change =
  cg_email :: string
  cg_role :: string
  cg_status :: string
  cg_quota :: int
  cg_password :: string

definition account_updates :: "account_change \<Rightarrow> user_update list" where
  "account_updates q =
     (if cg_email q \<noteq> [] then [PEmail (cg_email q)] else []) @ (if cg_role q \<noteq> [] then [PRole (cg_role q)] else [])
     @ (if cg_status q \<noteq> [] then [PStatus (cg_status q)] else []) @ (if cg_quota q > 0 then [PQuota (cg_quota q)] else [])"

definition updateUser :: "primitives \<Rightarrow> byte list option \<Rightarrow> (nat \<Rightarrow> int) \<Rightarrow> request_user \<Rightarrow> string \<Rightarrow> account_change option \<Rightarrow> database
    \<Rightarrow> account_answer answer \<times> database" where
  "updateUser P salt clk ru userID body d =
     (if \<not> isAdmin ru then (admin_required, d)
      else if userID = [] then (Refused 400 ''User ID required'', d)
      else case body of
        None \<Rightarrow> (Refused 400 ''Invalid request body'', d)
      | Some q \<Rightarrow>
          (case (if account_updates q = [] then Inr d else UpdateUser (clk 0) userID (account_updates q) d) of
             Inl e \<Rightarrow> (Refused 500 ''Failed to update user'', d)
           | Inr d1 \<Rightarrow>
               if cg_password q = [] then (Answered 200 (AccountStatus ''User updated successfully''), d1)
               else (case HashPassword (p_hmac P) (p_sha256 P) (p_sha512 P) salt (cg_password q) of
                       Inl e \<Rightarrow> (Refused 500 ''Failed to hash password'', d1)
                     | Inr h \<Rightarrow>
                         (case UpdatePassword (clk 1) userID h d1 of
                            Inl e \<Rightarrow> (Refused 500 ''Failed to reset password'', d1)
                          | Inr d2 \<Rightarrow> (Answered 200 (AccountStatus ''User updated successfully''), d2)))))"

definition deleteUser :: "request_user \<Rightarrow> string \<Rightarrow> tables \<Rightarrow> account_answer answer \<times> tables" where
  "deleteUser ru userID t =
     (if \<not> isAdmin ru then (admin_required, t)
      else if userID = [] then (Refused 400 ''User ID required'', t)
      else if userID = ru_user ru then (Refused 400 ''Cannot delete yourself'', t)
      else case DeleteUser userID t of
             Inl e \<Rightarrow> (Refused 500 ''Failed to delete user'', t)
           | Inr t' \<Rightarrow> (Answered 200 (AccountStatus ''User deleted successfully''), t'))"

definition getAuditLogs :: "int \<Rightarrow> string \<Rightarrow> string \<Rightarrow> string \<Rightarrow> string \<Rightarrow> string \<Rightarrow> request_user \<Rightarrow> audit_entry list \<Rightarrow> account_answer answer" where
  "getAuditLogs now userID action resourceType limit offset ru log =
     (if \<not> isAdmin ru then admin_required
      else (let (es, n) = GetAuditEntries (if userID = [] then None else Some userID) action resourceType zero_time now
              (admin_limit 1000 100 limit) (admin_offset offset) log
            in Answered 200 (AuditPage es n (admin_limit 1000 100 limit) (admin_offset offset))))"

text \<open>The server passes no worker manager to the handler.\<close>

definition queue_gc :: "int \<Rightarrow> gc_spec \<Rightarrow> manager option \<Rightarrow> manager option" where
  "queue_gc now spec w = map_option (QueueGC now spec) w"

definition runGC :: "int \<Rightarrow> request_user \<Rightarrow> manager option \<Rightarrow> account_answer answer \<times> manager option" where
  "runGC now ru w =
     (if \<not> isAdmin ru then (admin_required, w)
      else (Answered 200 (AccountStatus ''GC triggered''), queue_gc now \<lparr>gs_type = ''orphaned-chunks'', gs_older = now - day\<rparr> w))"

definition runCleanup :: "int \<Rightarrow> request_user \<Rightarrow> manager option \<Rightarrow> account_answer answer \<times> manager option" where
  "runCleanup now ru w =
     (if \<not> isAdmin ru then (admin_required, w)
      else (Answered 200 (AccountStatus ''Cleanup triggered''), queue_gc now \<lparr>gs_type = ''trash'', gs_older = now - 30 * day\<rparr> w))"

definition server_workers :: "manager option" where
  "server_workers = None"

text \<open>Maintenance requests are answered as done and do nothing.\<close>

lemma maintenance_does_nothing:
  "isAdmin ru \<Longrightarrow> runGC now ru server_workers = (Answered 200 (AccountStatus ''GC triggered''), None)
    \<and> runCleanup now ru server_workers = (Answered 200 (AccountStatus ''Cleanup triggered''), None)"
  by (simp add: runGC_def runCleanup_def server_workers_def queue_gc_def)

section \<open>A fresh installation\<close>

text \<open>The requests that need no account, from a state with the seeded account only.\<close>

definition fresh_state :: "string \<Rightarrow> int \<Rightarrow> auth_state \<Rightarrow> bool" where
  "fresh_state uid now st \<longleftrightarrow> users (t_db (as_tabs st)) = [seeded_admin uid now] \<and> t_sessions (as_tabs st) = [] \<and> as_totp st = []"

inductive public_call :: "auth_state \<Rightarrow> auth_state \<Rightarrow> bool" where
  pc_login: "public_call st (snd (login P cfg ttl clk gen ip agent body st))"
| pc_totp: "verifyTOTP P skew ttl clk gen ip agent body st = Returns (ans, st') \<Longrightarrow> public_call st st'"
| pc_refresh: "public_call st (st\<lparr>as_tabs := snd (refresh P ttl clk gen tk (as_tabs st))\<rparr>)"
| pc_logout: "public_call st (st\<lparr>as_tabs := snd (requireAuth P now authorization (logout P now authorization) (as_tabs st))\<rparr>)"

inductive public_run :: "string \<Rightarrow> int \<Rightarrow> auth_state \<Rightarrow> bool" for uid now where
  pr_start: "fresh_state uid now st \<Longrightarrow> public_run uid now st"
| pr_next: "public_run uid now st \<Longrightarrow> public_call st st' \<Longrightarrow> public_run uid now st'"

lemma Login_fresh:
  assumes "fresh_state uid now st"
  shows "\<exists>e st'. Login P cfg ttl clk gen nm pw c st = (Inl e, st') \<and> fresh_state uid now st'"
  using assms by (auto simp: Login_def GetUserByUsername_def fresh_state_def seeded_admin_def Let_def)

lemma login_refusal_Refused: "\<exists>n m. login_refusal e = Refused n m"
  by (cases e) (simp_all add: internal_error_def)

lemma login_fresh:
  assumes "fresh_state uid now st"
  shows "(\<exists>n e. fst (login P cfg ttl clk gen ip agent body st) = Returns (Refused n e))
    \<and> fresh_state uid now (snd (login P cfg ttl clk gen ip agent body st))"
proof (cases body)
  case None
  with assms show ?thesis by (simp add: login_def)
next
  case (Some a)
  obtain nm pw where a: "a = (nm, pw)" by (cases a)
  obtain e st' where "Login P cfg ttl clk gen nm pw (web_client ip agent) st = (Inl e, st')" "fresh_state uid now st'"
    using Login_fresh [OF assms] by blast
  with Some a assms login_refusal_Refused [of e] show ?thesis by (simp add: login_def)
qed

lemma verifyTOTP_fresh:
  assumes "fresh_state uid now st"
  shows "\<exists>n e. verifyTOTP P skew ttl clk gen ip agent body st = Returns (Refused n e, st)"
proof -
  have "LoginWithTOTP P skew ttl clk gen tmp totpCode c st = Returns (Inl ErrInvalidSession, st)" for tmp totpCode c
    using assms by (simp add: LoginWithTOTP_def verifyTOTPSession_def fresh_state_def)
  then show ?thesis by (auto simp: verifyTOTP_def split: option.split)
qed

lemma refresh_fresh:
  assumes "fresh_state uid now st"
  shows "\<exists>n e. refresh P ttl clk gen body (as_tabs st) = (Refused n e, as_tabs st)"
proof (cases body)
  case None
  then show ?thesis by (simp add: refresh_def)
next
  case (Some tk)
  have "\<exists>e. Refresh P ttl clk gen tk (as_tabs st) = (Inl e, as_tabs st)"
    using assms by (auto simp: Refresh_def GetSessionByRefreshToken_def fresh_state_def split: sum.split)
  then obtain e where "Refresh P ttl clk gen tk (as_tabs st) = (Inl e, as_tabs st)" ..
  with Some show ?thesis by (simp add: refresh_def internal_error_def)
qed

lemma logout_fresh:
  assumes "fresh_state uid now st"
  shows "snd (requireAuth P k a (logout P k a) (as_tabs st)) = as_tabs st"
  using assms by (simp add: requireAuth_def logout_def Logout_def DeleteSession_def fresh_state_def split: sum.split)

lemma public_call_fresh: "public_call st st' \<Longrightarrow> fresh_state uid now st \<Longrightarrow> fresh_state uid now st'"
proof (induction rule: public_call.induct)
  case (pc_login st P cfg ttl clk gen ip agent body)
  then show ?case using login_fresh by blast
next
  case (pc_totp P skew ttl clk gen ip agent body st ans st')
  with verifyTOTP_fresh [of uid now st P skew ttl clk gen ip agent body] show ?case by auto
next
  case (pc_refresh st P ttl clk gen tk)
  with refresh_fresh [of uid now st P ttl clk gen tk] show ?case by auto
next
  case (pc_logout st P k a)
  then show ?case by (simp add: logout_fresh)
qed

lemma public_run_fresh: "public_run uid now st \<Longrightarrow> fresh_state uid now st"
  by (induction rule: public_run.induct) (auto intro: public_call_fresh)

section \<open>Properties\<close>



text \<open>An access token carries the roles its user had when it was issued, and the administrator's
  requests look at nothing else: with such a token accounts are deleted whatever has become of the
  user's own account, also when it was demoted, disabled or deleted.\<close>

theorem admin_token_outlives_account:
  assumes "ValidateAccessToken (p_dec P) (p_mac P) (clk 0) tk = Inr c" and "tk \<noteq> []" and "''admin'' \<in> set (ac_roles c)"
    and "has_user victim (t_db t)" and "victim \<noteq> []" and "victim \<noteq> ac_user c"
  shows "\<exists>t'. deleteUser (fst (Authenticate P clk (''Bearer '' @ tk) t)) victim t = (Answered 200 (AccountStatus ''User deleted successfully''), t')
    \<and> \<not> has_user victim (t_db t')"
proof -
  have bearer: "extractBearerToken (''Bearer '' @ tk) = tk"
    unfolding extractBearerToken_def header_token_def by (simp only: has_prefix_append if_True append_eq_conv_conj) simp
  then have ru: "fst (Authenticate P clk (''Bearer '' @ tk) t) = \<lparr>ru_user = ac_user c, ru_name = ac_username c, ru_roles = ac_roles c, ru_device = ac_device c\<rparr>"
    using assms(1,2) by (simp add: Authenticate_def del: append.simps)
  obtain t' where t': "DeleteUser victim t = Inr t'" using assms(4) by (simp add: DeleteUser_def Let_def)
  then have "\<not> has_user victim (t_db t')"
    by (auto simp: DeleteUser_def Let_def has_user_def delete_user_rows_def split: if_split_asm)
  with t' assms(3,5,6) show ?thesis unfolding ru by (simp add: deleteUser_def isAdmin_def mw_IsAdmin_def)
qed

definition admin_claims :: access_claims where
  "admin_claims = \<lparr>ac_user = ''a'', ac_username = ''a'', ac_roles = [''admin''], ac_device = [], ac_session = ''s'', ac_exp = 900, ac_iat = 0, ac_jti = ''j''\<rparr>"

text \<open>The account of the token does not exist.\<close>

theorem admin_token_outlives_account_witness:
  "\<exists>P tk t t'. \<not> has_user ''a'' (t_db t)
    \<and> deleteUser (fst (Authenticate P (\<lambda>k. 0) (''Bearer '' @ tk) t)) ''v'' t = (Answered 200 (AccountStatus ''User deleted successfully''), t')"
proof -
  let ?P = "demo_prims\<lparr>p_dec := \<lambda>_. Some (access_json admin_claims)\<rparr>"
  let ?tk = "sign_json (\<lambda>_. []) (p_mac ?P) (access_json admin_claims)"
  let ?t = "\<lparr>t_db = empty_db\<lparr>users := [(seeded_admin ''v'' 0)]\<rparr>, t_sessions = [], t_tokens = [], t_shares = []\<rparr>"
  have "read_access (access_json admin_claims) = Some admin_claims"
    by (rule read_access_access) (simp_all add: admin_claims_def wrap64_def)
  then have v: "ValidateAccessToken (p_dec ?P) (p_mac ?P) 0 ?tk = Inr admin_claims"
    by (simp add: ValidateAccessToken_def validate_signed) (simp add: admin_claims_def unix_time_def)
  have n: "?tk \<noteq> []" by (simp add: sign_json_def Let_def)
  have h: "''admin'' \<in> set (ac_roles admin_claims)" "has_user ''v'' (t_db ?t)" "''v'' \<noteq> []" "''v'' \<noteq> ac_user admin_claims" "\<not> has_user ''a'' (t_db ?t)"
    by (simp_all add: admin_claims_def has_user_def seeded_admin_def)
  from admin_token_outlives_account [OF v n h(1-4)] h(5) show ?thesis by blast
qed

text \<open>A password is changed only against the current one and for one of at least eight characters:
  afterwards exactly the passwords that derive the new one's key verify, the demand to change it is
  gone, every other account is as it was, and a refused request changes nothing.\<close>

theorem change_password_spec:
  assumes "changePassword P (Some salt) now userID body d = (ans, d')"
  shows "(answer_status ans \<noteq> 200 \<longrightarrow> d' = d)
    \<and> (answer_status ans = 200 \<longrightarrow> (\<exists>current new u h. body = Some (current, new) \<and> 8 \<le> length new \<and> GetUserByID userID d = Inr u
        \<and> VerifyPassword (p_hmac P) (p_sha256 P) (p_sha512 P) current (u_password_hash u) = Inr True
        \<and> d' = update_user userID (\<lambda>u. u\<lparr>u_password_hash := h, u_must_change := False, u_updated := rfc3339 now\<rparr>) d
        \<and> (\<forall>pw. VerifyPassword (p_hmac P) (p_sha256 P) (p_sha512 P) pw h = Inr
             (DeriveKeyArgon2idStyle (p_hmac P) (p_sha256 P) (p_sha512 P) (string_bytes pw) salt DefaultMemoryKB DefaultIterations
              = DeriveKeyArgon2idStyle (p_hmac P) (p_sha256 P) (p_sha512 P) (string_bytes new) salt DefaultMemoryKB DefaultIterations))))"
proof (cases "\<exists>current new u. userID \<noteq> [] \<and> body = Some (current, new) \<and> current \<noteq> [] \<and> 8 \<le> length new \<and> GetUserByID userID d = Inr u
    \<and> VerifyPassword (p_hmac P) (p_sha256 P) (p_sha512 P) current (u_password_hash u) = Inr True")
  case True
  then obtain current new u where b: "userID \<noteq> []" "body = Some (current, new)" "current \<noteq> []" "8 \<le> length new" "GetUserByID userID d = Inr u"
    "VerifyPassword (p_hmac P) (p_sha256 P) (p_sha512 P) current (u_password_hash u) = Inr True" by blast
  obtain h where h: "HashPassword (p_hmac P) (p_sha256 P) (p_sha512 P) (Some salt) new = Inr h" by (simp add: HashPassword_def Let_def)
  have "new \<noteq> []" using b(4) by auto
  with b h assms have "(ans, d') = (case UpdatePassword now userID h d of
      Inl e \<Rightarrow> (Refused 500 ''Failed to update password'', d) | Inr d' \<Rightarrow> (Answered 200 (AccountStatus ''password changed''), d'))"
    by (simp add: changePassword_def)
  then have "(answer_status ans \<noteq> 200 \<and> d' = d) \<or> (answer_status ans = 200 \<and> UpdatePassword now userID h d = Inr d')"
    by (cases "UpdatePassword now userID h d") simp_all
  then show ?thesis
  proof
    assume "answer_status ans = 200 \<and> UpdatePassword now userID h d = Inr d'"
    then have "d' = update_user userID (\<lambda>u. u\<lparr>u_password_hash := h, u_must_change := False, u_updated := rfc3339 now\<rparr>) d"
      by (auto simp: UpdatePassword_def split: if_split_asm)
    with b password_verifies [OF h] \<open>answer_status ans = 200 \<and> _\<close> show ?thesis by blast
  qed simp
next
  case False
  with assms show ?thesis
    by (auto simp: changePassword_def unauthorized_def split: option.split_asm if_split_asm sum.split_asm)
qed

theorem change_password_spec_witness:
  "\<exists>d'. changePassword demo_prims (Some []) 0 ''v'' None (empty_db\<lparr>users := [seeded_admin ''v'' 0]\<rparr>) = (Refused 400 ''Invalid request body'', d')
    \<and> d' = empty_db\<lparr>users := [seeded_admin ''v'' 0]\<rparr>"
proof -
  let ?d = "empty_db\<lparr>users := [seeded_admin ''v'' 0]\<rparr>"
  have "changePassword demo_prims (Some []) 0 ''v'' None ?d = (Refused 400 ''Invalid request body'', ?d)" by (simp add: changePassword_def)
  from change_password_spec [OF this] this show ?thesis by auto
qed

end
