(* ===== verification/Webdav.thy ===== *)
theory Webdav
  imports Download Upload Rbac
begin

text \<open>
  The WebDAV server (\<^verbatim>\<open>src/internal/webdav/handler.go\<close>, \<^verbatim>\<open>xml.go\<close>, and the credentials check of
  \<^verbatim>\<open>server.go\<close>).  The state is the metadata, the blobs and the locks.  A request is its method, its
  decoded path, the headers the code reads (an absent one is the empty string) and its body.
  \<open>httime\<close> and \<open>rfctime\<close> print a time for headers and properties.  The body of a multi-status
  reply and of a lock reply is the value that is encoded as XML.
\<close>

section \<open>Locks\<close>

record lock =
  lk_token :: string
  lk_user :: string
  lk_expires :: int
  lk_null :: bool

type_synonym lock_store = "(string \<times> lock) list"

definition lock_Lock :: "int \<Rightarrow> string \<Rightarrow> string \<Rightarrow> string \<Rightarrow> int \<Rightarrow> bool \<Rightarrow> lock_store \<Rightarrow> lock_store" where
  "lock_Lock now resourceID token userID duration isNull s =
     al_put s resourceID \<lparr>lk_token = token, lk_user = userID, lk_expires = now + duration, lk_null = isNull\<rparr>"

text \<open>The first entry met with that token and user.\<close>

fun lock_Unlock :: "string \<Rightarrow> string \<Rightarrow> lock_store \<Rightarrow> bool \<times> lock_store" where
  "lock_Unlock token userID [] = (False, [])"
| "lock_Unlock token userID ((r, k) # s) =
     (if lk_token k = token \<and> lk_user k = userID then (True, s)
      else (let (ok, s') = lock_Unlock token userID s in (ok, (r, k) # s')))"

definition IsLocked :: "int \<Rightarrow> string \<Rightarrow> lock_store \<Rightarrow> bool" where
  "IsLocked now resourceID s = (case al_get s resourceID of None \<Rightarrow> False | Some k \<Rightarrow> now < lk_expires k)"

definition GetLockToken :: "int \<Rightarrow> string \<Rightarrow> lock_store \<Rightarrow> string \<times> bool" where
  "GetLockToken now resourceID s = (case al_get s resourceID of None \<Rightarrow> ([], False) | Some k \<Rightarrow> (lk_token k, now < lk_expires k))"

definition lock_cleanup :: "int \<Rightarrow> lock_store \<Rightarrow> lock_store" where
  "lock_cleanup now s = filter (\<lambda>(r, k). \<not> now > lk_expires k) s"

section \<open>Requests\<close>

text \<open>A context maps keys to values; keys of different types are different.\<close>

datatype ctx_key = StringKey string | ServerKey string | AuthKey string

type_synonym context_values = "(ctx_key \<times> string) list"

definition server_context :: "request_user \<Rightarrow> context_values" where
  "server_context ru = (if ru_user ru = [] then [] else
     [(ServerKey ''user_id'', ru_user ru), (ServerKey ''username'', ru_name ru), (ServerKey ''device_id'', ru_device ru)])"

record dav_request =
  wq_method :: string
  wq_url :: string
  wq_context :: context_values
  wq_basic :: "(string \<times> string) option"
  wq_none_match :: string
  wq_depth :: string
  wq_destination :: string
  wq_overwrite :: string
  wq_if :: string
  wq_lock_token :: string
  wq_length :: int
  wq_body :: "byte list result"
  wq_timeout :: string

text \<open>What one call draws and reads: times, random ids, the writes to the client.\<close>

record dav_env =
  we_clk :: "nat \<Rightarrow> int"
  we_gen :: "nat \<Rightarrow> string"
  we_manifest :: "byte list option"
  we_lock :: "byte list option"
  we_writes :: "nat \<Rightarrow> nat option"
  we_httime :: "int \<Rightarrow> string"
  we_rfctime :: "int \<Rightarrow> string"
  we_sha :: "byte list \<Rightarrow> string"
  we_chunker :: chunker
  we_validate :: "string \<Rightarrow> string \<Rightarrow> string option"
  we_base :: string

record 'b dav_state =
  wd_db :: database
  wd_store :: 'b
  wd_locks :: lock_store

record dav_property =
  dp_name :: string
  dp_value :: string
  dp_collection :: bool

record lock_discovery =
  ld_type :: string
  ld_scope :: string
  ld_depth :: string
  ld_timeout :: string
  ld_token :: string

datatype dav_body = MultiStatus "(string \<times> dav_property list) list" | LockDiscovery lock_discovery

text \<open>The validator the server installs: active users without a second factor.\<close>

definition credential_validator :: "primitives \<Rightarrow> database \<Rightarrow> string \<Rightarrow> string \<Rightarrow> string option" where
  "credential_validator P d username password =
     (case GetUserByUsername username d of
        Inl e \<Rightarrow> None
      | Inr u \<Rightarrow>
          if u_status u \<noteq> ''active'' then None
          else if u_totp_enabled u then None
          else if VerifyPassword (p_hmac P) (p_sha256 P) (p_sha512 P) password (u_password_hash u) \<noteq> Inr True then None
          else Some (u_id u))"

definition dav_getUserID :: "dav_env \<Rightarrow> dav_request \<Rightarrow> string" where
  "dav_getUserID E q =
     (case al_get (wq_context q) (StringKey ''user_id'') of
        Some u \<Rightarrow> if u \<noteq> [] then u
          else (case wq_basic q of None \<Rightarrow> [] | Some (n, p) \<Rightarrow> (case we_validate E n p of None \<Rightarrow> [] | Some i \<Rightarrow> i))
      | None \<Rightarrow> (case wq_basic q of None \<Rightarrow> [] | Some (n, p) \<Rightarrow> (case we_validate E n p of None \<Rightarrow> [] | Some i \<Rightarrow> i)))"

section \<open>Helpers\<close>

definition root_folder :: "dav_env \<Rightarrow> string \<Rightarrow> file_row" where
  "root_folder E userID = (blank_file [] userID None ''root'' ''folder'' 0)\<lparr>f_created := we_clk E 0, f_updated := we_clk E 1\<rparr>"

text \<open>The walk along the components of a path; all but the last have to be folders.\<close>

fun walk_path :: "string \<Rightarrow> string \<Rightarrow> string list \<Rightarrow> database \<Rightarrow> vfs_error + file_row" where
  "walk_path userID parentID [] d = Inl ErrNotFound"
| "walk_path userID parentID (part # parts) d =
     (case vfs_GetFileByPath userID parentID part d of
        Inl e \<Rightarrow> Inl e
      | Inr f \<Rightarrow> if parts = [] then Inr f
          else if f_type f \<noteq> ''folder'' then Inl ErrNotFound
          else walk_path userID (f_id f) parts d)"

definition getFileByPath :: "dav_env \<Rightarrow> string \<Rightarrow> string \<Rightarrow> database \<Rightarrow> vfs_error + file_row" where
  "getFileByPath E userID p d =
     (if p = ''/'' \<or> p = [] then Inr (root_folder E userID)
      else walk_path userID [] (split_on CHR ''/'' (trim_char CHR ''/'' p)) d)"

text \<open>What follows the host of an absolute URL; the prefix of the server is not taken off.\<close>

fun after_scheme :: "string \<Rightarrow> string option" where
  "after_scheme [] = None"
| "after_scheme (c # s) = (if has_prefix (c # s) ''://'' then Some (drop 3 (c # s)) else after_scheme s)"

definition parseDestination :: "string \<Rightarrow> string" where
  "parseDestination dest =
     (case after_scheme dest of
        None \<Rightarrow> []
      | Some r \<Rightarrow> (case index_of CHR ''/'' r of None \<Rightarrow> [] | Some i \<Rightarrow> ''/'' @ drop (Suc i) r))"

definition dav_headers :: headers where
  "dav_headers = [(''DAV'', ''1, 2''), (''MS-Author-Via'', ''DAV'')]"

definition sendError :: "headers \<Rightarrow> nat \<Rightarrow> string \<Rightarrow> dav_body reply" where
  "sendError hs n message = \<lparr>rp_status = n, rp_headers = al_put hs ''Content-Type'' ''text/plain; charset=utf-8'',
     rp_body = TextBody (filter (\<lambda>c. c \<noteq> CHR ''<'' \<and> c \<noteq> CHR ''>'') message)\<rparr>"

definition sendMultiStatus :: "(string \<times> dav_property list) list \<Rightarrow> dav_body reply" where
  "sendMultiStatus rs = \<lparr>rp_status = 207, rp_headers = al_put dav_headers ''Content-Type'' ''application/xml; charset=utf-8'',
     rp_body = JsonBody (MultiStatus rs)\<rparr>"

definition empty_reply :: "nat \<Rightarrow> dav_body reply" where
  "empty_reply n = \<lparr>rp_status = n, rp_headers = dav_headers, rp_body = NoBody\<rparr>"

definition dav_error :: "nat \<Rightarrow> string \<Rightarrow> dav_body reply" where
  "dav_error n e = sendError dav_headers n e"

definition prop_value :: "string \<Rightarrow> string \<Rightarrow> dav_property" where
  "prop_value nm v = \<lparr>dp_name = nm, dp_value = v, dp_collection = False\<rparr>"

definition buildPropResponse :: "dav_env \<Rightarrow> lock_store \<Rightarrow> file_row \<Rightarrow> string \<Rightarrow> string \<times> dav_property list" where
  "buildPropResponse E locks f href =
     (href,
      [prop_value ''displayname'' (f_name f), prop_value ''getlastmodified'' (we_httime E (f_updated f)),
       prop_value ''creationdate'' (we_rfctime E (f_created f))]
      @ (case f_checksum f of None \<Rightarrow> [] | Some c \<Rightarrow> [prop_value ''getetag'' (quoted c)])
      @ (if f_type f = ''file''
         then [prop_value ''getcontentlength'' (dec_int (f_size f)), prop_value ''getcontenttype'' (f_mime f), prop_value ''resourcetype'' []]
         else [\<lparr>dp_name = ''resourcetype'', dp_value = [], dp_collection = True\<rparr>])
      @ (if IsLocked (we_clk E 2) (f_id f) locks
         then [prop_value ''lockdiscovery'' (fst (GetLockToken (we_clk E 3) (f_id f) locks))] else []))"

definition buildLockDiscovery :: "string \<Rightarrow> int \<Rightarrow> lock_discovery" where
  "buildLockDiscovery token timeout = \<lparr>ld_type = ''write'', ld_scope = ''exclusive'', ld_depth = ''0'',
     ld_timeout = ''Second-'' @ dec_int (go_div timeout (10 ^ 9)), ld_token = token\<rparr>"

text \<open>\<^verbatim>\<open>path.Ext\<close>: from the last dot after the last slash.\<close>

definition path_Ext :: "string \<Rightarrow> string" where
  "path_Ext p =
     (let lst = takeWhile (\<lambda>c. c \<noteq> CHR ''/'') (rev p)
      in case index_of CHR ''.'' lst of None \<Rightarrow> [] | Some i \<Rightarrow> rev (take (Suc i) lst))"

definition detectContentType :: "string \<Rightarrow> string" where
  "detectContentType filename =
     (let ext = map lower (path_Ext filename)
      in if ext = ''.txt'' then ''text/plain''
         else if ext = ''.html'' \<or> ext = ''.htm'' then ''text/html''
         else if ext = ''.css'' then ''text/css''
         else if ext = ''.js'' then ''application/javascript''
         else if ext = ''.json'' then ''application/json''
         else if ext = ''.xml'' then ''application/xml''
         else if ext = ''.pdf'' then ''application/pdf''
         else if ext = ''.png'' then ''image/png''
         else if ext = ''.jpg'' \<or> ext = ''.jpeg'' then ''image/jpeg''
         else if ext = ''.gif'' then ''image/gif''
         else if ext = ''.svg'' then ''image/svg+xml''
         else if ext = ''.zip'' then ''application/zip''
         else ''application/octet-stream'')"

text \<open>\<^verbatim>\<open>base64.URLEncoding\<close> pads; without random bytes every byte is the low byte of the time.\<close>

definition padded_base64url :: "byte list \<Rightarrow> string" where
  "padded_base64url w = Base64URLEncode w @ replicate ((3 - length w mod 3) mod 3) CHR ''=''"

definition generateLockToken :: "byte list option \<Rightarrow> int \<Rightarrow> string" where
  "generateLockToken rnd now =
     ''opaquelocktoken:'' @ padded_base64url (case rnd of Some w \<Rightarrow> w | None \<Rightarrow> replicate 16 (word_of_int (now mod 256)))"

text \<open>Nanoseconds; \<^verbatim>\<open>None\<close> is an error.\<close>

definition parseTimeout :: "string \<Rightarrow> int option" where
  "parseTimeout s =
     (if has_prefix s ''Second-'' then map_option (\<lambda>n. wrap64 (n * 10 ^ 9)) (atoi (drop 7 s)) else Some (30 * 60 * 10 ^ 9))"

section \<open>Handlers\<close>

definition handleOptions :: "dav_body reply" where
  "handleOptions = \<lparr>rp_status = 200, rp_headers = al_put dav_headers ''Allow''
     ''OPTIONS, GET, HEAD, PUT, DELETE, PROPFIND, PROPPATCH, MKCOL, COPY, MOVE, LOCK, UNLOCK'', rp_body = NoBody\<rparr>"

text \<open>A chunk that cannot be read adds the text of an error to the body that has begun.\<close>

fun streamChunks :: "'b backend \<Rightarrow> (nat \<Rightarrow> nat option) \<Rightarrow> nat \<Rightarrow> string list \<Rightarrow> byte list \<times> 'b \<Rightarrow> string option \<times> byte list \<times> 'b" where
  "streamChunks B writes i [] (out, b) = (None, out, b)"
| "streamChunks B writes i (h # hs) (out, b) =
     (case be_get B h b of
        (Inl e, b') \<Rightarrow> (Some ''failed to get chunk'', out @ string_bytes (''Failed to read file data'' @ [CHR 0x0A]), b')
      | (Inr w, b') \<Rightarrow>
          (case writes i of
             Some k \<Rightarrow> (Some ''failed to write chunk data'', out @ take k w, b')
           | None \<Rightarrow> streamChunks B writes (Suc i) hs (out @ w, b')))"

definition get_headers :: "dav_env \<Rightarrow> file_row \<Rightarrow> headers" where
  "get_headers E f =
     (let h1 = al_put (al_put (al_put dav_headers ''Content-Type'' (f_mime f)) ''Content-Length'' (dec_int (f_size f)))
                 ''Last-Modified'' (we_httime E (f_updated f))
      in case f_checksum f of None \<Rightarrow> h1 | Some c \<Rightarrow> al_put h1 ''ETag'' (quoted c))"

definition handleGet :: "'b backend \<Rightarrow> dav_env \<Rightarrow> dav_request \<Rightarrow> string \<Rightarrow> 'b dav_state \<Rightarrow> dav_body reply \<times> 'b dav_state" where
  "handleGet B E q p st =
     (let userID = dav_getUserID E q
      in if userID = [] then (dav_error 401 ''Authentication required'', st)
         else case getFileByPath E userID p (wd_db st) of
           Inl e \<Rightarrow> (if e = ErrNotFound then dav_error 404 ''Resource not found'' else dav_error 500 ''Internal error'', st)
         | Inr f \<Rightarrow>
             if f_type f = ''folder'' then (dav_error 405 ''Cannot GET a folder'', st)
             else (let hs = get_headers E f
                   in if wq_none_match q \<noteq> [] \<and> f_checksum f \<noteq> None \<and> wq_none_match q = quoted (the (f_checksum f))
                      then (\<lparr>rp_status = 304, rp_headers = hs, rp_body = NoBody\<rparr>, st)
                      else if f_manifest f = None \<or> f_manifest f = Some [] then (sendError hs 400 ''File has no content'', st)
                      else case GetManifest (the (f_manifest f)) (wd_db st) of
                             Inl e \<Rightarrow> (sendError hs 500 ''Failed to get file manifest'', st)
                           | Inr m \<Rightarrow>
                               (case streamChunks B (we_writes E) 0 (m_chunks m) ([], wd_store st) of
                                  (e, out, b) \<Rightarrow> (\<lparr>rp_status = 200, rp_headers = hs, rp_body = BytesBody out\<rparr>, st\<lparr>wd_store := b\<rparr>))))"

text \<open>The folder a path lies in: the root, or what is found there, whatever its type.\<close>

definition parent_of :: "dav_env \<Rightarrow> string \<Rightarrow> string \<Rightarrow> database \<Rightarrow> vfs_error + string" where
  "parent_of E userID p d =
     (let dirPath = path_Dir p
      in if dirPath \<noteq> ''/'' \<and> dirPath \<noteq> ''.'' then map_sum id f_id (getFileByPath E userID dirPath d) else Inr [])"

definition max_put :: int where
  "max_put = 10 * 1024 * 1024 * 1024"

definition dav_manifest :: "string \<Rightarrow> string \<Rightarrow> int \<Rightarrow> string list \<Rightarrow> string \<Rightarrow> int \<Rightarrow> manifest" where
  "dav_manifest i fileID sz hashes checksum now = \<lparr>m_id = i, m_file = fileID, m_version = 1, m_size = sz,
     m_count = int (length hashes), m_chunks = hashes, m_checksum = checksum, m_device = ''webdav'', m_created = now\<rparr>"

text \<open>What \<^verbatim>\<open>handlePut\<close> does after the chunks are stored.\<close>

definition put_file :: "dav_env \<Rightarrow> string \<Rightarrow> string \<Rightarrow> string \<Rightarrow> file_row option \<Rightarrow> byte list \<Rightarrow> string list \<Rightarrow> database
    \<Rightarrow> dav_body reply \<times> database" where
  "put_file E userID parentID fileName existing w hashes d =
     (case (case existing of
              Some f \<Rightarrow> Inr (f_id f, d)
            | None \<Rightarrow> map_sum id (\<lambda>(f, d'). (f_id f, d'))
                (vfs_CreateFile (we_gen E 0) (we_clk E 0) userID parentID fileName (detectContentType fileName) (int (length w)) d)) of
        Inl e \<Rightarrow> (dav_error 500 ''Failed to create file'', d)
      | Inr (fileID, d1) \<Rightarrow>
          (case we_manifest E of
             None \<Rightarrow> (dav_error 500 ''Failed to generate manifest ID'', d1)
           | Some rnd \<Rightarrow>
               (let manifestID = ''manifest_'' @ HexEncode rnd; checksum = we_sha E w
                in case CreateManifest (dav_manifest manifestID fileID (int (length w)) hashes checksum (we_clk E 1)) d1 of
                     Inl e \<Rightarrow> (dav_error 500 ''Failed to create manifest'', d1)
                   | Inr d2 \<Rightarrow>
                       (case UpdateFile (we_clk E 2) fileID [UManifest (Some manifestID), USize (int (length w)), UChecksum (Some checksum),
                              UMime (detectContentType fileName)] d2 of
                          Inl e \<Rightarrow> (dav_error 500 ''Failed to update file'', d2)
                        | Inr d3 \<Rightarrow> (empty_reply (if existing = None then 201 else 204), d3)))))"

definition handlePut :: "'b backend \<Rightarrow> dav_env \<Rightarrow> dav_request \<Rightarrow> string \<Rightarrow> 'b dav_state \<Rightarrow> (dav_body reply \<times> 'b dav_state) outcome" where
  "handlePut B E q p st =
     (let userID = dav_getUserID E q
      in if userID = [] then Returns (dav_error 401 ''Authentication required'', st)
         else case parent_of E userID p (wd_db st) of
           Inl e \<Rightarrow> Returns (if e = ErrNotFound then dav_error 409 ''Parent directory does not exist'' else dav_error 500 ''Internal error'', st)
         | Inr parentID \<Rightarrow>
             (let existing = (case getFileByPath E userID p (wd_db st) of Inl e \<Rightarrow> None | Inr f \<Rightarrow> Some f)
              in if wq_length q > max_put then Returns (dav_error 413 ''File too large'', st)
                 else case wq_body q of
                   Inl e \<Rightarrow> Returns (dav_error 500 ''Failed to read upload'', st)
                 | Inr body \<Rightarrow>
                     (let w = take (nat max_put) body
                      in obind (ChunkWithData (we_sha E) (we_chunker E) (bytes_reader (4 * 1024 * 1024) w)) (\<lambda>r. Returns
                           (case r of
                              Inl e \<Rightarrow> (dav_error 500 ''Failed to chunk data'', st)
                            | Inr (cis, pieces) \<Rightarrow>
                                (case store_chunks B (\<lambda>k. we_clk E (3 + k)) 0 (zip cis pieces) (wd_db st, wd_store st) of
                                   (Some e, d, b) \<Rightarrow> (dav_error 500 e, st\<lparr>wd_db := d, wd_store := b\<rparr>)
                                 | (None, d, b) \<Rightarrow>
                                     (let (rep, d') = put_file E userID parentID (path_Base p) existing w (map ci_hash cis) d
                                      in (rep, st\<lparr>wd_db := d', wd_store := b\<rparr>))))))))"

definition handleDelete :: "dav_env \<Rightarrow> dav_request \<Rightarrow> string \<Rightarrow> 'b dav_state \<Rightarrow> dav_body reply \<times> 'b dav_state" where
  "handleDelete E q p st =
     (let userID = dav_getUserID E q
      in if userID = [] then (dav_error 401 ''Authentication required'', st)
         else case getFileByPath E userID p (wd_db st) of
           Inl e \<Rightarrow> (if e = ErrNotFound then dav_error 404 ''Resource not found'' else dav_error 500 ''Internal error'', st)
         | Inr f \<Rightarrow>
             if IsLocked (we_clk E 2) (f_id f) (wd_locks st) then (dav_error 423 ''Resource is locked'', st)
             else (case vfs_Delete (we_clk E 3) (f_id f) (wd_db st) of
                     Inl e \<Rightarrow> (dav_error 500 ''Failed to delete'', st) | Inr d \<Rightarrow> (empty_reply 204, st\<lparr>wd_db := d\<rparr>)))"

text \<open>\<open>join\<close> is \<^verbatim>\<open>path.Join\<close> of the request's path and a name.\<close>

definition join_url :: "string \<Rightarrow> string \<Rightarrow> string" where
  "join_url p nm = path_Clean (p @ ''/'' @ nm)"

definition handlePropFind :: "dav_env \<Rightarrow> dav_request \<Rightarrow> string \<Rightarrow> 'b dav_state \<Rightarrow> dav_body reply" where
  "handlePropFind E q p st =
     (let userID = dav_getUserID E q; depth = (if wq_depth q = [] then ''infinity'' else wq_depth q)
      in if userID = [] then dav_error 401 ''Authentication required''
         else case getFileByPath E userID p (wd_db st) of
           Inl e \<Rightarrow> (if e = ErrNotFound then sendMultiStatus [] else dav_error 500 ''Internal error'')
         | Inr f \<Rightarrow>
             sendMultiStatus (buildPropResponse E (wd_locks st) f (wq_url q) #
               (if f_type f = ''folder'' \<and> depth \<noteq> ''0''
                then map (\<lambda>c. buildPropResponse E (wd_locks st) c (join_url (wq_url q) (f_name c)))
                       (vfs_ListDirectory userID (f_id f) 1000 0 (wd_db st))
                else [])))"

definition handlePropPatch :: "dav_env \<Rightarrow> dav_request \<Rightarrow> string \<Rightarrow> 'b dav_state \<Rightarrow> dav_body reply" where
  "handlePropPatch E q p st =
     (let userID = dav_getUserID E q
      in if userID = [] then dav_error 401 ''Authentication required''
         else case getFileByPath E userID p (wd_db st) of
           Inl e \<Rightarrow> (if e = ErrNotFound then dav_error 404 ''Resource not found'' else dav_error 500 ''Internal error'')
         | Inr f \<Rightarrow> sendMultiStatus [buildPropResponse E (wd_locks st) f (wq_url q)])"

definition handleMkCol :: "dav_env \<Rightarrow> dav_request \<Rightarrow> string \<Rightarrow> 'b dav_state \<Rightarrow> dav_body reply \<times> 'b dav_state" where
  "handleMkCol E q p st =
     (let userID = dav_getUserID E q
      in if userID = [] then (dav_error 401 ''Authentication required'', st)
         else case getFileByPath E userID p (wd_db st) of
           Inr f \<Rightarrow> (dav_error 405 ''Resource already exists'', st)
         | Inl e0 \<Rightarrow>
             (case parent_of E userID p (wd_db st) of
                Inl e \<Rightarrow> (dav_error 409 ''Parent directory does not exist'', st)
              | Inr parentID \<Rightarrow>
                  (case CreateFolder (we_gen E 0) (we_clk E 2) userID parentID (path_Base p) (wd_db st) of
                     Inl e \<Rightarrow> (if e = ErrAlreadyExists then dav_error 405 ''Resource already exists'' else dav_error 500 ''Failed to create folder'', st)
                   | Inr (f, d) \<Rightarrow> (empty_reply 201, st\<lparr>wd_db := d\<rparr>))))"

text \<open>The checks COPY and MOVE share: the source, the parent and the name of the destination.\<close>

definition dav_target :: "dav_env \<Rightarrow> string \<Rightarrow> dav_request \<Rightarrow> string \<Rightarrow> database \<Rightarrow> dav_body reply + file_row \<times> string" where
  "dav_target E userID q p d =
     (if userID = [] then Inl (dav_error 401 ''Authentication required'')
      else if wq_destination q = [] then Inl (dav_error 400 ''Destination header required'')
      else if parseDestination (wq_destination q) = [] then Inl (dav_error 400 ''Invalid destination'')
      else case getFileByPath E userID p d of
             Inl e \<Rightarrow> Inl (if e = ErrNotFound then dav_error 404 ''Source not found'' else dav_error 500 ''Internal error'')
           | Inr f \<Rightarrow> Inr (f, parseDestination (wq_destination q)))"

definition handleCopy :: "nat \<Rightarrow> dav_env \<Rightarrow> dav_request \<Rightarrow> string \<Rightarrow> 'b dav_state \<Rightarrow> (dav_body reply \<times> 'b dav_state) outcome" where
  "handleCopy fuel E q p st =
     (let userID = dav_getUserID E q
      in case dav_target E userID q p (wd_db st) of
           Inl r \<Rightarrow> Returns (r, st)
         | Inr (source, destPath) \<Rightarrow>
             (case parent_of E userID destPath (wd_db st) of
                Inl e \<Rightarrow> Returns (dav_error 409 ''Destination parent does not exist'', st)
              | Inr destParentID \<Rightarrow>
                  obind (Copy fuel (we_gen E) (we_clk E) userID (f_id source) destParentID (path_Base destPath) (0, wd_db st)) (\<lambda>(err, k, d).
                    Returns ((case err of
                       None \<Rightarrow> empty_reply 201
                     | Some e \<Rightarrow> if e = ErrAlreadyExists then dav_error 412 ''Destination already exists''
                         else if e = ErrInvalidName then dav_error 400 ''Invalid destination name''
                         else if e = vfs_error.ErrPermissionDenied then dav_error 403 ''Access denied'' else dav_error 500 ''Copy failed''),
                     st\<lparr>wd_db := d\<rparr>))))"

definition handleMove :: "dav_env \<Rightarrow> dav_request \<Rightarrow> string \<Rightarrow> 'b dav_state \<Rightarrow> dav_body reply \<times> 'b dav_state" where
  "handleMove E q p st =
     (let userID = dav_getUserID E q
      in case dav_target E userID q p (wd_db st) of
           Inl r \<Rightarrow> (r, st)
         | Inr (source, destPath) \<Rightarrow>
             if IsLocked (we_clk E 2) (f_id source) (wd_locks st) then (dav_error 423 ''Resource is locked'', st)
             else (case parent_of E userID destPath (wd_db st) of
                     Inl e \<Rightarrow> (dav_error 409 ''Destination parent does not exist'', st)
                   | Inr destParentID \<Rightarrow>
                       (case Move (we_clk E 3) (f_id source) destParentID (path_Base destPath) (wd_db st) of
                          Inl e \<Rightarrow> (dav_error 500 ''Move failed'', st)
                        | Inr d \<Rightarrow> (empty_reply (if wq_overwrite q \<noteq> ''F'' then 204 else 201), st\<lparr>wd_db := d\<rparr>))))"

text \<open>The value of the If header is taken as the token.  What was locked before is not looked at.\<close>

definition handleLock :: "dav_env \<Rightarrow> dav_request \<Rightarrow> string \<Rightarrow> 'b dav_state \<Rightarrow> dav_body reply \<times> 'b dav_state" where
  "handleLock E q p st =
     (let userID = dav_getUserID E q
      in if userID = [] then (dav_error 401 ''Authentication required'', st)
         else (let token = (if wq_if q = [] then generateLockToken (we_lock E) (we_clk E 4) else wq_if q);
                   timeout = (if wq_timeout q = [] then 30 * 60 * 10 ^ 9
                              else case parseTimeout (wq_timeout q) of None \<Rightarrow> 30 * 60 * 10 ^ 9 | Some t \<Rightarrow> t);
                   rep = \<lparr>rp_status = 200, rp_headers = al_put (al_put dav_headers ''Lock-Token'' (''<'' @ token @ ''>''))
                     ''Content-Type'' ''application/xml; charset=utf-8'', rp_body = JsonBody (LockDiscovery (buildLockDiscovery token timeout))\<rparr>
               in case getFileByPath E userID p (wd_db st) of
                    Inl e \<Rightarrow> if e = ErrNotFound
                      then (rep, st\<lparr>wd_locks := lock_Lock (we_clk E 5) p token userID timeout True (wd_locks st)\<rparr>)
                      else (dav_error 500 ''Internal error'', st)
                  | Inr f \<Rightarrow> (rep, st\<lparr>wd_locks := lock_Lock (we_clk E 5) (f_id f) token userID timeout False (wd_locks st)\<rparr>)))"

definition trim_brackets :: "string \<Rightarrow> string" where
  "trim_brackets s = (let P = (\<lambda>c. c = CHR ''<'' \<or> c = CHR ''>'') in rev (dropWhile P (rev (dropWhile P s))))"

definition handleUnlock :: "dav_env \<Rightarrow> dav_request \<Rightarrow> 'b dav_state \<Rightarrow> dav_body reply \<times> 'b dav_state" where
  "handleUnlock E q st =
     (let userID = dav_getUserID E q
      in if userID = [] then (dav_error 401 ''Authentication required'', st)
         else if wq_lock_token q = [] then (dav_error 400 ''Lock-Token header required'', st)
         else (case lock_Unlock (trim_brackets (wq_lock_token q)) userID (wd_locks st) of
                 (False, s) \<Rightarrow> (dav_error 403 ''Unlock failed'', st)
               | (True, s) \<Rightarrow> (empty_reply 204, st\<lparr>wd_locks := s\<rparr>)))"

definition dav_ServeHTTP :: "nat \<Rightarrow> 'b backend \<Rightarrow> dav_env \<Rightarrow> dav_request \<Rightarrow> 'b dav_state \<Rightarrow> (dav_body reply \<times> 'b dav_state) outcome" where
  "dav_ServeHTTP fuel B E q st =
     (let p0 = trim_prefix (wq_url q) (we_base E); p = (if p0 = [] then ''/'' else p0)
      in if wq_method q = ''OPTIONS'' then Returns (handleOptions, st)
         else if wq_method q = ''GET'' \<or> wq_method q = ''HEAD'' then Returns (handleGet B E q p st)
         else if wq_method q = ''PUT'' then handlePut B E q p st
         else if wq_method q = ''DELETE'' then Returns (handleDelete E q p st)
         else if wq_method q = ''PROPFIND'' then Returns (handlePropFind E q p st, st)
         else if wq_method q = ''PROPPATCH'' then Returns (handlePropPatch E q p st, st)
         else if wq_method q = ''MKCOL'' then Returns (handleMkCol E q p st)
         else if wq_method q = ''COPY'' then handleCopy fuel E q p st
         else if wq_method q = ''MOVE'' then Returns (handleMove E q p st)
         else if wq_method q = ''LOCK'' then Returns (handleLock E q p st)
         else if wq_method q = ''UNLOCK'' then Returns (handleUnlock E q st)
         else Returns (dav_error 501 (''Method '' @ wq_method q @ '' not implemented''), st))"

section \<open>Lemmas\<close>

lemma store_chunks_files:
  "store_chunks B clk i ps (d, b) = (e, d', b') \<Longrightarrow> files d' = files d \<and> manifests d' = manifests d"
proof (induction ps arbitrary: i d b)
  case (Cons x ps)
  obtain ci w where x: "x = (ci, w)" by (cases x)
  have cut: "\<And>d1. IncrementRefCount (ci_hash ci) d = Inr d1 \<Longrightarrow> files d1 = files d \<and> manifests d1 = manifests d"
    by (auto simp: IncrementRefCount_def split: if_split_asm)
  have new: "\<And>c d1. CreateChunk c d = Inr d1 \<Longrightarrow> files d1 = files d \<and> manifests d1 = manifests d"
    using CreateChunk_Inr by fastforce
  show ?case
    using Cons.prems by (auto simp: x Let_def split: if_split_asm sum.splits option.splits prod.splits dest!: Cons.IH cut new)
qed simp

lemma put_file_taken:
  assumes "m \<in> set (manifests d)" and "m_file m = f_id f" and "m_version m = 1"
    and "put_file E u parent nm (Some f) w hs d = (r, d')"
  shows "500 \<le> rp_status r \<and> d' = d"
proof -
  have "CreateManifest (dav_manifest i (f_id f) sz hs ck now) d = Inl ''failed to create manifest''" for i sz ck now
    using assms(1-3) by (auto simp: CreateManifest_def dav_manifest_def)
  then show ?thesis using assms(4)
    by (auto simp: put_file_def dav_error_def sendError_def Let_def split: option.split_asm)
qed

lemma walk_path_NotFound: "walk_path u i ps d = Inl e \<Longrightarrow> e = ErrNotFound"
  by (induction u i ps d rule: walk_path.induct)
    (auto simp: vfs_GetFileByPath_def split: if_split_asm sum.split_asm)

lemma getFileByPath_NotFound: "getFileByPath E u p d = Inl e \<Longrightarrow> e = ErrNotFound"
  by (auto simp: getFileByPath_def split: if_split_asm dest: walk_path_NotFound)

lemma path_Dir_abs:
  assumes "\<forall>c \<in> set cs. plain c" and "plain b"
  shows "path_Dir (abs_path (cs @ [b])) = abs_path cs"
proof (cases "cs = []")
  case True
  then show ?thesis using last_index_of_abs [OF assms]
    by (simp add: path_Dir_def abs_path_def path_Clean_def clean_parts_def clean_step_def)
next
  case False
  have t: "take (Suc (length (abs_path cs))) (abs_path (cs @ [b])) = abs_path cs @ [slash]"
    using False by (simp add: abs_path_def join_with_snoc)
  have "clean_parts True (abs_path cs) = cs"
    using fold_clean_plain [OF assms(1), of True "[]"]
    by (auto simp: clean_parts_def split_abs_path [OF assms(1)]) (auto simp: clean_step_def)
  then have "clean_parts True (abs_path cs @ [slash]) = cs"
    using fold_clean_append [of True "abs_path cs" "[]"] by (simp add: clean_step_def)
  then have "path_Clean (abs_path cs @ [slash]) = abs_path cs" by (simp add: path_Clean_def abs_path_def)
  then show ?thesis using last_index_of_abs [OF assms] False by (simp add: path_Dir_def t)
qed

lemma trim_abs_path:
  assumes "\<forall>c \<in> set cs. plain c" and "plain b"
  shows "trim_char slash (abs_path (b # cs)) = join_with ''/'' (b # cs)"
proof -
  let ?j = "join_with ''/'' (b # cs)"
  have "\<exists>x y. b = x # y \<and> x \<noteq> slash" using assms(2) by (cases b) (auto simp: plain_def)
  then have front: "dropWhile (\<lambda>x. x = slash) (abs_path (b # cs)) = ?j" by (cases cs) (auto simp: abs_path_def)
  obtain c where c: "plain c" "\<exists>x. ?j = x @ c"
  proof (cases cs rule: rev_cases)
    case Nil
    then have "?j = [] @ b" by simp
    with assms(2) show ?thesis by (blast intro: that)
  next
    case (snoc ds c)
    then have "?j = (join_with ''/'' (b # ds) @ ''/'') @ c" using join_with_snoc [of "b # ds" "''/''" c] by simp
    with assms(1) snoc show ?thesis by (intro that [of c]) auto
  qed
  then have "last ?j \<noteq> slash \<and> ?j \<noteq> []" by (auto simp: plain_def) (metis last_in_set)+
  then have "dropWhile (\<lambda>x. x = slash) (rev ?j) = rev ?j" by (cases ?j rule: rev_cases) auto
  then show ?thesis unfolding trim_char_def front by simp
qed

text \<open>A path whose first component the user has no live root entry for is not found.\<close>

lemma first_component_missing:
  assumes "\<forall>c \<in> set cs. plain c" and "plain b"
    and "\<forall>f \<in> set (files d). \<not> (f_user f = u \<and> f_parent f = None \<and> f_name f = b \<and> \<not> f_trashed f)"
  shows "getFileByPath E u (abs_path (b # cs)) d = Inl ErrNotFound"
proof -
  have "find_row (\<lambda>f. f_user f = u \<and> at_parent (Some []) f \<and> f_name f = b \<and> \<not> f_trashed f) (files d) = None"
    using assms(3) by (simp add: find_row_None)
  then have none: "vfs_GetFileByPath u [] b d = Inl ErrNotFound" by (simp add: vfs_GetFileByPath_def GetFileByPath_def)
  have all: "\<forall>w \<in> set (b # cs). slash \<notin> set w" using assms(1,2) by (simp add: plain_def)
  have "abs_path (b # cs) \<noteq> ''/'' \<and> abs_path (b # cs) \<noteq> []"
    using assms(2) by (cases cs) (auto simp: abs_path_def plain_def)
  moreover have "split_on slash (trim_char slash (abs_path (b # cs))) = b # cs"
    unfolding trim_abs_path [OF assms(1,2)] using split_join [OF _ all] by simp
  ultimately show ?thesis by (simp add: getFileByPath_def none)
qed

lemma parse_https:
  assumes "slash \<notin> set host"
  shows "parseDestination (''https://'' @ host @ slash # t) = slash # t"
  using index_of_append [OF assms, of t] by (simp add: parseDestination_def)

text \<open>The parent of a destination under the base path is not found.\<close>

lemma based_parent_missing:
  assumes "\<forall>c \<in> set cs. plain c" and "plain b" and "plain base"
    and "\<forall>f \<in> set (files d). \<not> (f_user f = u \<and> f_parent f = None \<and> f_name f = base \<and> \<not> f_trashed f)"
  shows "parent_of E u (abs_path (base # cs @ [b])) d = Inl ErrNotFound"
proof -
  have all: "\<forall>c \<in> set (base # cs). plain c" using assms(1,3) by simp
  have "abs_path (base # cs) \<noteq> ''/'' \<and> abs_path (base # cs) \<noteq> ''.''"
    using assms(3) by (cases cs) (auto simp: abs_path_def plain_def)
  then show ?thesis
    using path_Dir_abs [OF all assms(2)] first_component_missing [OF assms(1,3,4), of E] by (simp add: parent_of_def)
qed

lemma put_over_existing:
  assumes "getFileByPath E (dav_getUserID E q) p (wd_db st) = Inr f"
    and "m \<in> set (manifests (wd_db st))" and "m_file m = f_id f" and "m_version m = 1"
    and "handlePut B E q p st = Returns (r, st')"
  shows "400 \<le> rp_status r \<and> files (wd_db st') = files (wd_db st) \<and> manifests (wd_db st') = manifests (wd_db st)"
proof -
  let ?u = "dav_getUserID E q" and ?ok = "\<lambda>r s. 400 \<le> rp_status r \<and> files (wd_db s) = files (wd_db st) \<and> manifests (wd_db s) = manifests (wd_db st)"
  have stored: "?ok (fst (put_file E ?u i nm (Some f) w hs d)) (st\<lparr>wd_db := snd (put_file E ?u i nm (Some f) w hs d), wd_store := b'\<rparr>)"
    if "store_chunks B clk 0 ps (wd_db st, wd_store st) = (e, d, b)" for clk ps e d b i nm w hs b'
    using put_file_taken [of m d f E ?u i nm w hs, OF _ assms(3,4) prod.collapse [symmetric]] store_chunks_files [OF that] assms(2)
    by simp
  have err: "\<And>n e. rp_status (dav_error n e) = n" by (simp add: dav_error_def sendError_def)
  show ?thesis
  proof (cases "?u = []")
    case True
    then show ?thesis using assms(5) by (auto simp: handlePut_def Let_def err)
  next
    case False
    note u = False
    show ?thesis
    proof (cases "parent_of E ?u p (wd_db st)")
      case (Inl e)
      then show ?thesis using assms(5) u by (auto simp: handlePut_def Let_def err split: if_split_asm)
    next
      case (Inr i)
      note par = Inr
      show ?thesis
      proof (cases "wq_length q > max_put \<or> (\<exists>e. wq_body q = Inl e)")
        case True
        then show ?thesis using assms(5) u par by (auto simp: handlePut_def Let_def err split: if_split_asm)
      next
        case False
        then obtain body where body: "wq_body q = Inr body" "\<not> wq_length q > max_put" by (cases "wq_body q") auto
        let ?c = "ChunkWithData (we_sha E) (we_chunker E) (bytes_reader (4 * 1024 * 1024) (take (nat max_put) body))"
        obtain x where x: "?c = Returns x" using assms(5) u par body assms(1) by (cases ?c) (simp_all add: handlePut_def Let_def)
        show ?thesis
        proof (cases x)
          case (Inl e)
          then show ?thesis using assms(5) u par body x by (auto simp: handlePut_def Let_def err)
        next
          case (Inr y)
          obtain cis ps where y: "y = (cis, ps)" by (cases y)
          obtain e d b where sc: "store_chunks B (\<lambda>k. we_clk E (3 + k)) 0 (zip cis ps) (wd_db st, wd_store st) = (e, d, b)"
            by (metis prod_cases3)
          show ?thesis
            using assms(5) u par body x Inr y sc stored [OF sc] store_chunks_files [OF sc]
            by (cases e) (auto simp: handlePut_def Let_def assms(1) split_beta err)
        qed
      qed
    qed
  qed
qed

lemma handlePut_returns:
  assumes "0 \<le> maxSize (we_chunker E)"
  shows "\<exists>r st'. handlePut B E q p st = Returns (r, st')"
proof -
  let ?u = "dav_getUserID E q"
  have "\<exists>y. handlePut B E q p st = Returns y"
  proof (cases "?u = [] \<or> (\<exists>e. parent_of E ?u p (wd_db st) = Inl e) \<or> wq_length q > max_put \<or> (\<exists>e. wq_body q = Inl e)")
    case True
    then show ?thesis by (auto simp: handlePut_def Let_def split: sum.split)
  next
    case False
    then obtain i body where "parent_of E ?u p (wd_db st) = Inr i" "wq_body q = Inr body"
      by (cases "parent_of E ?u p (wd_db st)"; cases "wq_body q") auto
    moreover note ChunkWithData_bytes [OF assms, of "we_sha E" "take (nat max_put) body", simplified]
    ultimately show ?thesis using False by (simp add: handlePut_def Let_def)
  qed
  then show ?thesis by auto
qed

section \<open>Properties\<close>

text \<open>A PUT that replaces a file fails.  The manifest of a PUT always has version 1, and a file
  has one manifest of each version: when the file at the path has one of version 1 already, the
  request is answered with an error and neither the file nor its versions change.\<close>

theorem put_over_existing_fails:
  assumes "getFileByPath E (dav_getUserID E q) p (wd_db st) = Inr f"
    and "m \<in> set (manifests (wd_db st))" and "m_file m = f_id f" and "m_version m = 1"
    and "0 \<le> maxSize (we_chunker E)"
  shows "\<exists>r st'. handlePut B E q p st = Returns (r, st') \<and> 400 \<le> rp_status r
    \<and> files (wd_db st') = files (wd_db st) \<and> manifests (wd_db st') = manifests (wd_db st)"
  using handlePut_returns [OF assms(5)] put_over_existing [OF assms(1-4)] by blast

text \<open>C25: The base path is not taken off the Destination.  Below the base path \<^verbatim>\<open>/webdav\<close>, a MOVE or COPY
  to a URL of the server is refused and changes nothing, unless the user's root happens to hold an
  entry of the name \<^verbatim>\<open>webdav\<close>.\<close>

theorem destination_keeps_base_path:
  assumes "we_base E = abs_path [base]" and "plain base" and "plain b" and "\<forall>c \<in> set cs. plain c" and "slash \<notin> set host"
    and "wq_method q = ''MOVE'' \<or> wq_method q = ''COPY''"
    and "wq_destination q = ''https://'' @ host @ we_base E @ abs_path (cs @ [b])"
    and "\<forall>f \<in> set (files (wd_db st)). \<not> (f_user f = dav_getUserID E q \<and> f_parent f = None \<and> f_name f = base \<and> \<not> f_trashed f)"
  shows "\<exists>r. dav_ServeHTTP fuel B E q st = Returns (r, st) \<and> rp_status r \<in> {401, 404, 409, 423}"
proof -
  let ?dest = "abs_path (base # cs @ [b])"
  have dest: "we_base E @ abs_path (cs @ [b]) = ?dest"
    using assms(1) by (cases cs) (simp_all add: abs_path_def)
  have parsed: "parseDestination (wq_destination q) = ?dest"
    unfolding assms(7) dest using parse_https [OF assms(5)] by (simp add: abs_path_def)
  have gone: "parent_of E (dav_getUserID E q) ?dest (wd_db st) = Inl ErrNotFound"
    by (rule based_parent_missing [OF assms(4,3,2,8)])
  have ne: "wq_destination q \<noteq> []" "?dest \<noteq> []" unfolding assms(7) by (simp_all add: abs_path_def)
  have err: "\<And>n e. rp_status (dav_error n e) = n" by (simp add: dav_error_def sendError_def)
  show ?thesis
  proof (cases "dav_getUserID E q = []")
    case True
    then show ?thesis using assms(6) by (auto simp: dav_ServeHTTP_def Let_def handleMove_def handleCopy_def dav_target_def err)
  next
    case False
    let ?p = "if trim_prefix (wq_url q) (we_base E) = [] then ''/'' else trim_prefix (wq_url q) (we_base E)"
    have copy: "\<exists>r. handleCopy fuel E q p st = Returns (r, st) \<and> rp_status r \<in> {401, 404, 409, 423}" for p
      using False getFileByPath_NotFound [of E "dav_getUserID E q" p "wd_db st"]
      by (cases "getFileByPath E (dav_getUserID E q) p (wd_db st)")
        (simp_all add: handleCopy_def Let_def dav_target_def parsed ne gone err)
    have move: "\<exists>r. handleMove E q p st = (r, st) \<and> rp_status r \<in> {401, 404, 409, 423}" for p
      using False getFileByPath_NotFound [of E "dav_getUserID E q" p "wd_db st"]
      by (cases "getFileByPath E (dav_getUserID E q) p (wd_db st)")
        (simp_all add: handleMove_def Let_def dav_target_def parsed ne gone err)
    from assms(6) show ?thesis
    proof
      assume "wq_method q = ''MOVE''"
      then show ?thesis using move [of ?p] by (auto simp: dav_ServeHTTP_def Let_def simp del: split_paired_Ex)
    next
      assume "wq_method q = ''COPY''"
      then show ?thesis using copy [of ?p] by (auto simp: dav_ServeHTTP_def Let_def)
    qed
  qed
qed

text \<open>The key the server puts into the context is of another type than the one looked up.\<close>

lemma server_context_unread: "wq_context q = server_context ru \<Longrightarrow> wq_basic q = None \<Longrightarrow> dav_getUserID E q = []"
  by (simp add: dav_getUserID_def server_context_def)

lemma validator_ignores_password_change:
  "users d = [u] \<Longrightarrow> credential_validator P d n w = credential_validator P (d\<lparr>users := [u\<lparr>u_must_change := v\<rparr>]\<rparr>) n w"
  by (auto simp: credential_validator_def GetUserByUsername_def split: option.split sum.split)

lemma unlock_unknown_token:
  "token \<notin> (\<lambda>(r, k). lk_token k) ` set s \<Longrightarrow> lock_Unlock token u s = (False, s)"
  by (induction s) (auto split: prod.split)

lemma al_put_again: "al_put (al_put s i k) i k' = al_put s i k'"
  by (induction s) auto

lemma al_put_tokens: "(\<lambda>(r, k). lk_token k) ` set (al_put s i k) \<subseteq> insert (lk_token k) ((\<lambda>(r, k). lk_token k) ` set s)"
proof (induction s)
  case (Cons x s)
  then show ?case by (cases x) auto
qed simp

lemma lock_Lock_again:
  "lock_Lock now' i t' u dur' n' (lock_Lock now i t u dur n s) = lock_Lock now' i t' u dur' n' s"
  by (simp add: lock_Lock_def al_put_again)

lemma getFileByPath_env: "p \<noteq> ''/'' \<Longrightarrow> p \<noteq> [] \<Longrightarrow> getFileByPath E u p d = getFileByPath E' u p d"
  by (simp add: getFileByPath_def)

lemma handleLock_new:
  assumes "dav_getUserID E q \<noteq> []" and "wq_if q = []" and "wq_timeout q = []" and "getFileByPath E (dav_getUserID E q) p (wd_db st) = Inr f"
    and "handleLock E q p st = (r, st')"
  shows "rp_status r = 200 \<and> st' = st\<lparr>wd_locks := lock_Lock (we_clk E 5) (f_id f) (generateLockToken (we_lock E) (we_clk E 4))
           (dav_getUserID E q) (30 * 60 * 10 ^ 9) False (wd_locks st)\<rparr>"
  using assms by (auto simp: handleLock_def Let_def)

text \<open>A lock does not keep other clients out, and keeps its holder out.  A second client of the user
  that asks for a lock of a locked file gets one, and then the token of the first client, whose
  lock has not expired, does not unlock the file any more.  Whoever holds the lock, and whatever
  token the request shows, a DELETE before the lock expires is refused.\<close>

theorem lock_taken_over:
  assumes "u \<noteq> []" and "dav_getUserID E1 q1 = u" and "dav_getUserID E2 q2 = u" and "dav_getUserID E3 q3 = u"
    and "p \<noteq> ''/''" and "p \<noteq> []" and "getFileByPath E1 u p (wd_db st) = Inr f"
    and "wq_if q1 = []" and "wq_timeout q1 = []" and "wq_if q2 = []" and "wq_timeout q2 = []"
    and "handleLock E1 q1 p st = (r1, st1)" and "handleLock E2 q2 p st1 = (r2, st2)"
    and "t = generateLockToken (we_lock E1) (we_clk E1 4)" and "t \<noteq> generateLockToken (we_lock E2) (we_clk E2 4)"
    and "t \<notin> (\<lambda>(r, k). lk_token k) ` set (wd_locks st)"
    and "wq_lock_token q3 \<noteq> []" and "trim_brackets (wq_lock_token q3) = t"
  shows "rp_status r1 = 200 \<and> rp_status r2 = 200 \<and> handleUnlock E3 q3 st2 = (dav_error 403 ''Unlock failed'', st2)
    \<and> (\<forall>E q. dav_getUserID E q = u \<and> we_clk E 2 < we_clk E2 5 + 30 * 60 * 10 ^ 9
        \<longrightarrow> handleDelete E q p st2 = (dav_error 423 ''Resource is locked'', st2))"
proof -
  have here: "getFileByPath E u p (wd_db st) = Inr f" for E using getFileByPath_env [OF assms(5,6)] assms(7) by metis
  note one = handleLock_new [OF _ assms(8,9) _ assms(12), unfolded assms(2), OF assms(1,7)]
  let ?l = "lock_Lock (we_clk E2 5) (f_id f) (generateLockToken (we_lock E2) (we_clk E2 4)) u (30 * 60 * 10 ^ 9) False (wd_locks st)"
  have "getFileByPath E2 u p (wd_db st1) = Inr f" using one here by simp
  from handleLock_new [OF _ assms(10,11) _ assms(13), unfolded assms(3), OF assms(1) this] one
  have "rp_status r2 = 200 \<and> st2 = st1\<lparr>wd_locks := ?l\<rparr>" using lock_Lock_again by simp
  with one have two: "rp_status r2 = 200" "st2 = st\<lparr>wd_locks := ?l\<rparr>" by simp_all
  have "t \<notin> (\<lambda>(r, k). lk_token k) ` set ?l"
    unfolding lock_Lock_def using assms(15,16) by (intro notI) (drule subsetD [OF al_put_tokens], simp)
  from unlock_unknown_token [OF this] have unlock: "handleUnlock E3 q3 st2 = (dav_error 403 ''Unlock failed'', st2)"
    using assms(1,4,17,18) two(2) by (simp add: handleUnlock_def Let_def)
  have "al_get ?l (f_id f) = Some \<lparr>lk_token = generateLockToken (we_lock E2) (we_clk E2 4), lk_user = u,
      lk_expires = we_clk E2 5 + 30 * 60 * 10 ^ 9, lk_null = False\<rparr>"
    by (simp add: lock_Lock_def al_simps)
  then have "handleDelete E q p st2 = (dav_error 423 ''Resource is locked'', st2)"
    if "dav_getUserID E q = u" "we_clk E 2 < we_clk E2 5 + 30 * 60 * 10 ^ 9" for E q
    using that assms(1) here [of E] unfolding two(2) handleDelete_def Let_def IsLocked_def by simp
  with one two(1) unlock show ?thesis by blast
qed

section \<open>Witnesses\<close>

definition demo_dav :: "nat \<Rightarrow> dav_env" where
  "demo_dav n = \<lparr>we_clk = (\<lambda>_. 0), we_gen = (\<lambda>_. ''1''), we_manifest = Some [], we_lock = Some [of_nat n], we_writes = (\<lambda>_. None),
     we_httime = (\<lambda>_. []), we_rfctime = (\<lambda>_. []), we_sha = (\<lambda>_. ''h''),
     we_chunker = \<lparr>minSize = 2, avgSize = 2, maxSize = 4, windowSize = 48, mask = 255, ck_polynomial = 3,
       ck_table = \<lparr>polynomial = 3, degree = 1, outTable = replicate 256 0, modTable = []\<rparr>\<rparr>,
     we_validate = (\<lambda>_ _. Some ''u''), we_base = ''/webdav''\<rparr>"

definition demo_dav_request :: "string \<Rightarrow> dav_request" where
  "demo_dav_request m = \<lparr>wq_method = m, wq_url = ''/webdav/a'', wq_context = [], wq_basic = Some (''u'', ''w''), wq_none_match = [],
     wq_depth = [], wq_destination = ''https://h/webdav/b'', wq_overwrite = [], wq_if = [],
     wq_lock_token = ''<opaquelocktoken:AQ==>'', wq_length = 0, wq_body = Inr [], wq_timeout = []\<rparr>"

definition demo_dav_state :: "local_fs dav_state" where
  "demo_dav_state = \<lparr>wd_db = empty_db\<lparr>files := [sample_file ''f'' None ''a''],
     manifests := [\<lparr>m_id = ''m'', m_file = ''f'', m_version = 1, m_size = 0, m_count = 0, m_chunks = [], m_checksum = [], m_device = [], m_created = 0\<rparr>]\<rparr>,
     wd_store = \<lparr>lf_files = [], lf_faults = []\<rparr>, wd_locks = []\<rparr>"

lemma demo_dav_user: "dav_getUserID (demo_dav n) (demo_dav_request m) = ''u''"
  by (simp add: dav_getUserID_def demo_dav_def demo_dav_request_def)

lemma demo_dav_file: "getFileByPath (demo_dav n) ''u'' ''/a'' (wd_db demo_dav_state) = Inr (sample_file ''f'' None ''a'')"
  by (simp add: getFileByPath_def trim_char_def demo_dav_state_def vfs_GetFileByPath_def GetFileByPath_def sample_file_def)

lemma demo_tokens: "generateLockToken (Some [1]) 0 = ''opaquelocktoken:AQ=='' \<and> generateLockToken (Some [2]) 0 = ''opaquelocktoken:Ag==''"
  by code_simp

lemma demo_token: "generateLockToken (we_lock (demo_dav (Suc 0))) 0 = ''opaquelocktoken:AQ==''"
  "generateLockToken (we_lock (demo_dav 2)) 0 = ''opaquelocktoken:Ag==''"
  using demo_tokens by (simp_all add: demo_dav_def)

theorem lock_taken_over_witness:
  "\<exists>st2. handleUnlock (demo_dav 3) (demo_dav_request ''UNLOCK'') st2 = (dav_error 403 ''Unlock failed'', st2 :: local_fs dav_state)"
proof -
  obtain r1 st1 where 1: "handleLock (demo_dav (Suc 0)) (demo_dav_request ''LOCK'') ''/a'' demo_dav_state = (r1, st1)" by (cases "handleLock (demo_dav (Suc 0)) (demo_dav_request ''LOCK'') ''/a'' demo_dav_state")
  obtain r2 st2 where 2: "handleLock (demo_dav 2) (demo_dav_request ''LOCK'') ''/a'' st1 = (r2, st2)" by (cases "handleLock (demo_dav 2) (demo_dav_request ''LOCK'') ''/a'' st1")
  have clk: "we_clk (demo_dav n) k = 0" for n k by (simp add: demo_dav_def)
  have q: "wq_if (demo_dav_request m) = []" "wq_timeout (demo_dav_request m) = []" "wq_lock_token (demo_dav_request m) = ''<opaquelocktoken:AQ==>''" for m
    by (simp_all add: demo_dav_request_def)
  have "t = ''opaquelocktoken:AQ=='' \<Longrightarrow> handleUnlock (demo_dav 3) (demo_dav_request ''UNLOCK'') st2 = (dav_error 403 ''Unlock failed'', st2)" for t
    using lock_taken_over [OF _ demo_dav_user demo_dav_user demo_dav_user [of 3 "''UNLOCK''"] _ _ demo_dav_file q(1,2) q(1,2) 1 2, of t]
    by (simp add: clk demo_token q demo_dav_state_def trim_brackets_def)
  then show ?thesis by blast
qed

theorem put_over_existing_fails_witness:
  "\<exists>r st'. handlePut (local_backend ''/data'') (demo_dav 1) (demo_dav_request ''PUT'') ''/a'' demo_dav_state = Returns (r, st')
     \<and> 400 \<le> rp_status r \<and> files (wd_db st') = files (wd_db demo_dav_state) \<and> manifests (wd_db st') = manifests (wd_db demo_dav_state)"
  by (rule put_over_existing_fails [OF demo_dav_file [folded demo_dav_user [of 1 "''PUT''"]]])
    (auto simp: demo_dav_state_def sample_file_def demo_dav_def)

theorem destination_keeps_base_path_witness:
  "\<exists>r. dav_ServeHTTP 9 (local_backend ''/data'') (demo_dav 1) (demo_dav_request ''MOVE'') demo_dav_state = Returns (r, demo_dav_state)
     \<and> rp_status r \<in> {401, 404, 409, 423}"
  by (rule destination_keeps_base_path [where base = "''webdav''" and host = "''h''" and cs = "[]" and b = "''b''"])
    (simp_all add: demo_dav_def demo_dav_request_def demo_dav_state_def abs_path_def plain_def sample_file_def)

end
