(* ===== verification/Websocket.thy ===== *)
theory Websocket
  imports Middleware Auth Vfs
begin

text \<open>
  The WebSocket server (\<^verbatim>\<open>src/internal/server/websocket.go\<close>): the handshake, the registry of clients
  with its index by user, the broadcast of events and the messages of clients.  The record of a
  client holds the channel of messages on their way to it; the writer goroutine takes them out.
  A send to a full channel blocks the sender: \<open>None\<close>.  The decoded payloads of a message are
  parameters, the JSON of a reply is the value that is encoded.
\<close>

section \<open>Data\<close>

record 'd ws_event =
  wv_type :: string
  wv_user :: string
  wv_file :: string
  wv_folder :: string
  wv_data :: 'd
  wv_time :: int

datatype 'd ws_payload = DeviceIs string | EventIs "'d ws_event" | Subscription string string
  | Changes string "file_row list" bool int

record 'd ws_message =
  ms_type :: string
  ms_id :: string
  ms_payload :: "'d ws_payload option"
  ms_error :: string
  ms_time :: int

record 'd ws_client =
  wc_id :: string
  wc_user :: string
  wc_device :: string
  wc_send :: "'d ws_message list"
  wc_folders :: "string list"

record 'd ws_server =
  ws_clients :: "(string \<times> 'd ws_client) list"
  ws_index :: "(string \<times> string list) list"
  ws_broadcast :: "'d ws_event list"

text \<open>A message from a client, with what the decoder makes of its payload for each type.\<close>

record ws_request =
  wq_type :: string
  wq_id :: string
  wq_folder :: "string option"
  wq_sync :: "(string \<times> int \<times> bool) option"

definition NewWebSocketServer :: "'d ws_server" where
  "NewWebSocketServer = \<lparr>ws_clients = [], ws_index = [], ws_broadcast = []\<rparr>"

definition CheckOrigin :: "string list \<Rightarrow> string \<Rightarrow> bool" where
  "CheckOrigin allowedOrigins origin \<longleftrightarrow>
     (if origin = [] then True
      else if allowedOrigins = [] \<or> allowedOrigins = [''*''] then True
      else \<exists>a \<in> set allowedOrigins. a = origin \<or> (has_prefix a ''*.'' \<and> has_suffix origin (tl a)))"

section \<open>The registry\<close>

definition index_of_user :: "'d ws_server \<Rightarrow> string \<Rightarrow> string list" where
  "index_of_user s u = (case al_get (ws_index s) u of None \<Rightarrow> [] | Some is \<Rightarrow> is)"

definition ws_register :: "'d ws_client \<Rightarrow> 'd ws_server \<Rightarrow> 'd ws_server" where
  "ws_register c s = s\<lparr>ws_clients := al_put (ws_clients s) (wc_id c) c,
     ws_index := al_put (ws_index s) (wc_user c) (index_of_user s (wc_user c) @ [wc_id c])\<rparr>"

definition ws_unregister :: "string \<Rightarrow> string \<Rightarrow> 'd ws_server \<Rightarrow> 'd ws_server" where
  "ws_unregister i u s = s\<lparr>ws_clients := al_del (ws_clients s) i,
     ws_index := (case al_get (ws_index s) u of None \<Rightarrow> ws_index s | Some is \<Rightarrow> al_put (ws_index s) u (remove1 i is))\<rparr>"

definition send_capacity :: nat where
  "send_capacity = 256"

text \<open>A send that is dropped when the channel is full.\<close>

definition try_send :: "'d ws_message \<Rightarrow> 'd ws_client \<Rightarrow> 'd ws_client" where
  "try_send m c = (if length (wc_send c) < send_capacity then c\<lparr>wc_send := wc_send c @ [m]\<rparr> else c)"

definition ws_subscribed :: "string \<Rightarrow> 'd ws_client \<Rightarrow> bool" where
  "ws_subscribed folder c \<longleftrightarrow> folder = [] \<or> folder \<in> set (wc_folders c) \<or> [] \<in> set (wc_folders c)"

definition send_to :: "'d ws_message \<Rightarrow> string \<Rightarrow> string \<Rightarrow> 'd ws_server \<Rightarrow> 'd ws_server" where
  "send_to m folder i s =
     (case al_get (ws_clients s) i of
        None \<Rightarrow> s
      | Some c \<Rightarrow> if ws_subscribed folder c then s\<lparr>ws_clients := al_put (ws_clients s) i (try_send m c)\<rparr> else s)"

definition event_message :: "int \<Rightarrow> 'd ws_event \<Rightarrow> 'd ws_message" where
  "event_message now ev = \<lparr>ms_type = ''event'', ms_id = [], ms_payload = Some (EventIs ev), ms_error = [], ms_time = now\<rparr>"

definition broadcastEvent :: "int \<Rightarrow> 'd ws_event \<Rightarrow> 'd ws_server \<Rightarrow> 'd ws_server" where
  "broadcastEvent now ev s = fold (send_to (event_message now ev) (wv_folder ev)) (index_of_user s (wv_user ev)) s"

definition Broadcast :: "'d ws_event \<Rightarrow> 'd ws_server \<Rightarrow> 'd ws_server" where
  "Broadcast ev s = (if length (ws_broadcast s) < 256 then s\<lparr>ws_broadcast := ws_broadcast s @ [ev]\<rparr> else s)"

definition BroadcastToUser :: "int \<Rightarrow> string \<Rightarrow> string \<Rightarrow> 'd \<Rightarrow> 'd ws_server \<Rightarrow> 'd ws_server" where
  "BroadcastToUser now userID eventType x =
     Broadcast \<lparr>wv_type = eventType, wv_user = userID, wv_file = [], wv_folder = [], wv_data = x, wv_time = now\<rparr>"

definition BroadcastFileEvent :: "int \<Rightarrow> string \<Rightarrow> string \<Rightarrow> string \<Rightarrow> string \<Rightarrow> 'd \<Rightarrow> 'd ws_server \<Rightarrow> 'd ws_server" where
  "BroadcastFileEvent now userID folderID fileID eventType x =
     Broadcast \<lparr>wv_type = eventType, wv_user = userID, wv_file = fileID, wv_folder = folderID, wv_data = x, wv_time = now\<rparr>"

section \<open>Messages of a client\<close>

text \<open>A send that waits for room.\<close>

definition ws_send :: "'d ws_message \<Rightarrow> 'd ws_client \<Rightarrow> 'd ws_client option" where
  "ws_send m c = (if length (wc_send c) < send_capacity then Some (c\<lparr>wc_send := wc_send c @ [m]\<rparr>) else None)"

definition ws_reply :: "int \<Rightarrow> string \<Rightarrow> string \<Rightarrow> 'd ws_payload option \<Rightarrow> 'd ws_message" where
  "ws_reply now ty i p = \<lparr>ms_type = ty, ms_id = i, ms_payload = p, ms_error = [], ms_time = now\<rparr>"

definition ws_sendError :: "int \<Rightarrow> string \<Rightarrow> string \<Rightarrow> string \<Rightarrow> 'd ws_client \<Rightarrow> 'd ws_client option" where
  "ws_sendError now i code message =
     ws_send \<lparr>ms_type = ''error'', ms_id = i, ms_payload = None, ms_error = code @ '': '' @ message, ms_time = now\<rparr>"

definition handleSubscribe :: "int \<Rightarrow> ws_request \<Rightarrow> 'd ws_client \<Rightarrow> 'd ws_client option" where
  "handleSubscribe now q c =
     (case wq_folder q of
        None \<Rightarrow> ws_sendError now (wq_id q) ''invalid_payload'' ''Invalid subscription payload'' c
      | Some f \<Rightarrow> ws_send (ws_reply now ''subscribe'' (wq_id q) (Some (Subscription ''subscribed'' f)))
                   (c\<lparr>wc_folders := List.insert f (wc_folders c)\<rparr>))"

definition handleUnsubscribe :: "int \<Rightarrow> ws_request \<Rightarrow> 'd ws_client \<Rightarrow> 'd ws_client option" where
  "handleUnsubscribe now q c =
     (case wq_folder q of
        None \<Rightarrow> ws_sendError now (wq_id q) ''invalid_payload'' ''Invalid unsubscription payload'' c
      | Some f \<Rightarrow> ws_send (ws_reply now ''unsubscribe'' (wq_id q) (Some (Subscription ''unsubscribed'' f)))
                   (c\<lparr>wc_folders := removeAll f (wc_folders c)\<rparr>))"

text \<open>The first thousand entries of a folder, those changed since a time in seconds.\<close>

definition sync_changes :: "int \<Rightarrow> bool \<Rightarrow> file_row list \<Rightarrow> file_row list" where
  "sync_changes since fullSync items =
     filter (\<lambda>f. \<not> (\<not> fullSync \<and> since > 0 \<and> unix_seconds (f_updated f) < since)) items"

definition handleSyncRequest :: "int \<Rightarrow> ws_request \<Rightarrow> database \<Rightarrow> 'd ws_client \<Rightarrow> 'd ws_client option" where
  "handleSyncRequest now q d c =
     (case wq_sync q of
        None \<Rightarrow> ws_sendError now (wq_id q) ''invalid_payload'' ''Invalid sync request payload'' c
      | Some (folder, since, fullSync) \<Rightarrow>
          ws_send (ws_reply now ''sync_response'' (wq_id q) (Some (Changes folder
              (sync_changes since fullSync (vfs_ListDirectory (wc_user c) folder 1000 0 d)) fullSync now))) c)"

text \<open>A message that cannot be decoded is \<open>None\<close>.\<close>

definition handleMessage :: "int \<Rightarrow> ws_request option \<Rightarrow> database \<Rightarrow> 'd ws_client \<Rightarrow> 'd ws_client option" where
  "handleMessage now msg d c =
     (case msg of
        None \<Rightarrow> ws_sendError now [] ''invalid_message'' ''Failed to parse message'' c
      | Some q \<Rightarrow>
          if wq_type q = ''ping'' then ws_send (ws_reply now ''pong'' (wq_id q) None) c
          else if wq_type q = ''subscribe'' then handleSubscribe now q c
          else if wq_type q = ''unsubscribe'' then handleUnsubscribe now q c
          else if wq_type q = ''sync_request'' then handleSyncRequest now q d c
          else ws_sendError now (wq_id q) ''unknown_type'' (''Unknown message type: '' @ wq_type q) c)"

section \<open>The handshake\<close>

record ws_handshake =
  wh_token :: string
  wh_authorization :: string
  wh_device :: string
  wh_random :: "byte list option"
  wh_fallback :: "byte list"

definition handshake_token :: "ws_handshake \<Rightarrow> string" where
  "handshake_token h =
     (if wh_token h \<noteq> [] then wh_token h
      else if length (wh_authorization h) > 7 \<and> take 7 (wh_authorization h) = ''Bearer '' then drop 7 (wh_authorization h)
      else wh_authorization h)"

definition handshake_device :: "ws_handshake \<Rightarrow> string" where
  "handshake_device h =
     (if wh_device h \<noteq> [] then wh_device h
      else case wh_random h of Some w \<Rightarrow> HexEncode w | None \<Rightarrow> HexEncode (wh_fallback h))"

definition generateClientID :: "byte list option \<Rightarrow> byte list \<Rightarrow> string" where
  "generateClientID rnd fallback = ''ws_'' @ (case rnd of Some w \<Rightarrow> HexEncode w | None \<Rightarrow> HexEncode fallback)"

definition new_ws_client :: "string \<Rightarrow> string \<Rightarrow> string \<Rightarrow> 'd ws_client" where
  "new_ws_client i userID deviceID = \<lparr>wc_id = i, wc_user = userID, wc_device = deviceID, wc_send = [], wc_folders = []\<rparr>"

text \<open>The first message of the server; \<open>None\<close> when the channel has filled up in the meantime.\<close>

definition ws_greet :: "int \<Rightarrow> string \<Rightarrow> 'd ws_client \<Rightarrow> 'd ws_client option" where
  "ws_greet now deviceID = ws_send (ws_reply now ''auth_success'' [] (Some (DeviceIs deviceID)))"

text \<open>\<open>failure\<close> is the outcome of \<^verbatim>\<open>Upgrader.Upgrade\<close> of the WebSocket package: \<open>None\<close>, or the status and
  the text it has already answered with.  The result is the answer, or the registered client.\<close>

definition handleWebSocket :: "primitives \<Rightarrow> (nat \<times> string) option \<Rightarrow> int \<Rightarrow> string \<Rightarrow> ws_handshake \<Rightarrow> 'd ws_server
    \<Rightarrow> (unit reply + 'd ws_client) \<times> 'd ws_server" where
  "handleWebSocket P failure now i h s =
     (let token = handshake_token h
      in if token = [] then (Inl (http_Error [] 401 ''Unauthorized: token required''), s)
         else case ValidateAccessToken (p_dec P) (p_mac P) now token of
                Inl e \<Rightarrow> (Inl (http_Error [] 401 ''Unauthorized: invalid token''), s)
              | Inr cl \<Rightarrow>
                  (case failure of
                     Some (n, e) \<Rightarrow> (Inl (http_Error [] n (e @ ''WebSocket upgrade failed'')), s)
                   | None \<Rightarrow> (let c = new_ws_client i (ac_user cl) (handshake_device h) in (Inr c, ws_register c s))))"

section \<open>Runs\<close>

text \<open>
  The moves of the server and its clients.  A new client has an id that no registered client has.
  Its reader unregisters it once, at the end.  \<open>ws_update\<close> is a message of a client that is
  handled, or the greeting; \<open>ws_written\<close> is the writer taking a message.
\<close>

definition put_client :: "'d ws_client \<Rightarrow> 'd ws_server \<Rightarrow> 'd ws_server" where
  "put_client c s = s\<lparr>ws_clients := al_put (ws_clients s) (wc_id c) c\<rparr>"

inductive ws_run :: "'d ws_server \<Rightarrow> bool" where
  ws_start: "ws_run NewWebSocketServer"
| ws_joined: "ws_run s \<Longrightarrow> handleWebSocket P None now i h s = (Inr c, s') \<Longrightarrow> i \<notin> fst ` set (ws_clients s) \<Longrightarrow> ws_run s'"
| ws_left: "ws_run s \<Longrightarrow> al_get (ws_clients s) i = Some c \<Longrightarrow> ws_run (ws_unregister i (wc_user c) s)"
| ws_notified: "ws_run s \<Longrightarrow> ws_run (Broadcast ev s)"
| ws_event_taken: "ws_run s \<Longrightarrow> ws_broadcast s = ev # evs \<Longrightarrow> ws_run (broadcastEvent now ev (s\<lparr>ws_broadcast := evs\<rparr>))"
| ws_greeted: "ws_run s \<Longrightarrow> al_get (ws_clients s) i = Some c \<Longrightarrow> ws_greet now deviceID c = Some c' \<Longrightarrow> ws_run (put_client c' s)"
| ws_handled: "ws_run s \<Longrightarrow> al_get (ws_clients s) i = Some c \<Longrightarrow> handleMessage now msg d c = Some c' \<Longrightarrow> ws_run (put_client c' s)"
| ws_written: "ws_run s \<Longrightarrow> al_get (ws_clients s) i = Some c \<Longrightarrow> wc_send c = m # ms \<Longrightarrow> ws_run (put_client (c\<lparr>wc_send := ms\<rparr>) s)"

text \<open>The index names the registered clients of a user, and a client's channel holds events of its user only.\<close>

definition client_ok :: "string \<Rightarrow> 'd ws_client \<Rightarrow> bool" where
  "client_ok i c \<longleftrightarrow> wc_id c = i \<and> length (wc_send c) \<le> send_capacity
     \<and> (\<forall>m \<in> set (wc_send c). \<forall>ev. ms_payload m = Some (EventIs ev) \<longrightarrow> wv_user ev = wc_user c)"

definition ws_ok :: "'d ws_server \<Rightarrow> bool" where
  "ws_ok s \<longleftrightarrow> al_ok (ws_clients s) \<and> (\<forall>i c. al_get (ws_clients s) i = Some c \<longrightarrow> client_ok i c)
     \<and> (\<forall>u. distinct (index_of_user s u) \<and> (\<forall>i. i \<in> set (index_of_user s u) \<longleftrightarrow> (\<exists>c. al_get (ws_clients s) i = Some c \<and> wc_user c = u)))"

lemma ws_okD:
  assumes "ws_ok s"
  shows "al_ok (ws_clients s)" and "al_get (ws_clients s) i = Some c \<Longrightarrow> client_ok i c" and "distinct (index_of_user s u)"
    and "i \<in> set (index_of_user s u) \<longleftrightarrow> (\<exists>c. al_get (ws_clients s) i = Some c \<and> wc_user c = u)"
  using assms by (auto simp: ws_ok_def)

lemma index_of_user_same [simp]: "index_of_user (s\<lparr>ws_clients := x\<rparr>) u = index_of_user s u" "index_of_user (s\<lparr>ws_broadcast := q\<rparr>) u = index_of_user s u"
  by (simp_all add: index_of_user_def)

lemma ws_ok_put:
  assumes "ws_ok s" and "al_get (ws_clients s) i = Some c" and "client_ok i c'" and "wc_user c' = wc_user c"
  shows "ws_ok (put_client c' s)"
proof -
  have i: "wc_id c' = i" using assms(3) by (simp add: client_ok_def)
  show ?thesis
    unfolding ws_ok_def
  proof (intro conjI allI impI)
    show "al_ok (ws_clients (put_client c' s))" using ws_okD(1) [OF assms(1)] by (simp add: put_client_def)
    show "client_ok j x" if "al_get (ws_clients (put_client c' s)) j = Some x" for j x
      using that assms(3) ws_okD(2) [OF assms(1)] by (auto simp: put_client_def i al_simps split: if_split_asm)
    show "distinct (index_of_user (put_client c' s) u)" for u using ws_okD(3) [OF assms(1)] by (simp add: put_client_def)
    show "j \<in> set (index_of_user (put_client c' s) u) \<longleftrightarrow> (\<exists>x. al_get (ws_clients (put_client c' s)) j = Some x \<and> wc_user x = u)" for j u
      using ws_okD(4) [OF assms(1), of j u] assms(2,4) by (auto simp: put_client_def i al_simps)
  qed
qed

lemma ws_ok_register:
  assumes "ws_ok s" and "client_ok (wc_id c) c" and "wc_id c \<notin> fst ` set (ws_clients s)"
  shows "ws_ok (ws_register c s)"
proof -
  have new: "al_get (ws_clients s) (wc_id c) = None" using assms(3) by (simp add: al_get_None_iff)
  have idx: "index_of_user (ws_register c s) u = index_of_user s u @ (if u = wc_user c then [wc_id c] else [])" for u
    by (simp add: index_of_user_def ws_register_def al_simps)
  have cl: "ws_clients (ws_register c s) = al_put (ws_clients s) (wc_id c) c" by (simp add: ws_register_def)
  have fresh: "wc_id c \<notin> set (index_of_user s u)" for u using ws_okD(4) [OF assms(1)] new by simp
  show ?thesis
    unfolding ws_ok_def
  proof (intro conjI allI impI)
    show "al_ok (ws_clients (ws_register c s))" using ws_okD(1) [OF assms(1)] by (simp add: ws_register_def)
    show "client_ok j x" if "al_get (ws_clients (ws_register c s)) j = Some x" for j x
      using that assms(2) ws_okD(2) [OF assms(1)] by (auto simp: ws_register_def al_simps split: if_split_asm)
    show "distinct (index_of_user (ws_register c s) u)" for u using ws_okD(3) [OF assms(1)] fresh by (simp add: idx)
    show "j \<in> set (index_of_user (ws_register c s) u) \<longleftrightarrow> (\<exists>x. al_get (ws_clients (ws_register c s)) j = Some x \<and> wc_user x = u)" for j u
      using ws_okD(4) [OF assms(1), of j u] new by (auto simp: idx cl al_simps)
  qed
qed

lemma ws_ok_unregister:
  assumes "ws_ok s" and "al_get (ws_clients s) i = Some c"
  shows "ws_ok (ws_unregister i (wc_user c) s)"
proof -
  have idx: "index_of_user (ws_unregister i (wc_user c) s) u = (if u = wc_user c then remove1 i (index_of_user s u) else index_of_user s u)" for u
    by (simp add: index_of_user_def ws_unregister_def al_simps split: option.split)
  have cl: "ws_clients (ws_unregister i (wc_user c) s) = al_del (ws_clients s) i" by (simp add: ws_unregister_def)
  show ?thesis
    unfolding ws_ok_def
  proof (intro conjI allI impI)
    show "al_ok (ws_clients (ws_unregister i (wc_user c) s))" using ws_okD(1) [OF assms(1)] by (simp add: ws_unregister_def)
    show "client_ok j x" if "al_get (ws_clients (ws_unregister i (wc_user c) s)) j = Some x" for j x
      using that ws_okD(2) [OF assms(1)] by (auto simp: ws_unregister_def al_simps split: if_split_asm)
    show "distinct (index_of_user (ws_unregister i (wc_user c) s) u)" for u using ws_okD(3) [OF assms(1)] by (simp add: idx)
    show "j \<in> set (index_of_user (ws_unregister i (wc_user c) s) u) \<longleftrightarrow>
        (\<exists>x. al_get (ws_clients (ws_unregister i (wc_user c) s)) j = Some x \<and> wc_user x = u)" for j u
      using ws_okD(4) [OF assms(1), of j u] ws_okD(3) [OF assms(1), of u] assms(2) by (auto simp: idx cl al_simps)
  qed
qed

text \<open>The broadcast over the index is the same as looking at every client.\<close>

definition delivered :: "int \<Rightarrow> 'd ws_event \<Rightarrow> 'd ws_client \<Rightarrow> 'd ws_client" where
  "delivered now ev c =
     (if wc_user c = wv_user ev \<and> ws_subscribed (wv_folder ev) c then try_send (event_message now ev) c else c)"

lemma send_to_get:
  "al_get (ws_clients (send_to m folder i s)) j =
     (if j = i then map_option (\<lambda>c. if ws_subscribed folder c then try_send m c else c) (al_get (ws_clients s) i) else al_get (ws_clients s) j)"
  by (auto simp: send_to_def al_simps split: option.split)

lemma fold_send_to_get:
  "distinct is \<Longrightarrow> al_get (ws_clients (fold (send_to m folder) is s)) j =
     (if j \<in> set is then map_option (\<lambda>c. if ws_subscribed folder c then try_send m c else c) (al_get (ws_clients s) j) else al_get (ws_clients s) j)"
  by (induction "is" arbitrary: s) (auto simp: send_to_get)

lemma fold_send_to_index: "ws_index (fold (send_to m folder) is s) = ws_index s"
  by (induction "is" arbitrary: s) (simp_all add: send_to_def split: option.split)

lemma fold_send_to_ok: "al_ok (ws_clients s) \<Longrightarrow> al_ok (ws_clients (fold (send_to m folder) is s))"
  by (induction "is" arbitrary: s) (simp_all add: send_to_def split: option.split)

lemma broadcast_get:
  assumes "ws_ok s"
  shows "al_get (ws_clients (broadcastEvent now ev s)) i = map_option (delivered now ev) (al_get (ws_clients s) i)"
  using ws_okD(3,4) [OF assms] by (cases "al_get (ws_clients s) i") (auto simp: broadcastEvent_def fold_send_to_get delivered_def)

lemma delivered_ok: "client_ok i c \<Longrightarrow> client_ok i (delivered now ev c)"
  by (auto simp: client_ok_def delivered_def try_send_def event_message_def)

lemma delivered_user [simp]: "wc_user (delivered now ev c) = wc_user c"
  by (simp add: delivered_def try_send_def)

lemma ws_ok_broadcast:
  assumes "ws_ok s"
  shows "ws_ok (broadcastEvent now ev s)"
proof -
  have idx: "index_of_user (broadcastEvent now ev s) u = index_of_user s u" for u
    by (simp add: index_of_user_def broadcastEvent_def fold_send_to_index)
  show ?thesis
    unfolding ws_ok_def
  proof (intro conjI allI impI)
    show "al_ok (ws_clients (broadcastEvent now ev s))" using fold_send_to_ok ws_okD(1) [OF assms] by (simp add: broadcastEvent_def)
    show "client_ok i c" if "al_get (ws_clients (broadcastEvent now ev s)) i = Some c" for i c
      using that ws_okD(2) [OF assms] by (auto simp: broadcast_get [OF assms] intro: delivered_ok)
    show "distinct (index_of_user (broadcastEvent now ev s) u)" for u using ws_okD(3) [OF assms] by (simp add: idx)
    show "i \<in> set (index_of_user (broadcastEvent now ev s) u) \<longleftrightarrow>
        (\<exists>c. al_get (ws_clients (broadcastEvent now ev s)) i = Some c \<and> wc_user c = u)" for i u
      using ws_okD(4) [OF assms, of i u] by (auto simp: idx broadcast_get [OF assms])
  qed
qed

lemma ws_send_ok:
  assumes "ws_send m c = Some c'" and "client_ok i c" and "\<forall>ev. ms_payload m \<noteq> Some (EventIs ev)"
  shows "client_ok i c' \<and> wc_user c' = wc_user c"
  using assms by (auto simp: ws_send_def client_ok_def split: if_split_asm)

lemma client_ok_folders: "client_ok i (c\<lparr>wc_folders := x\<rparr>) = client_ok i c"
  by (simp add: client_ok_def)

lemma ws_sendError_ok: "ws_sendError now j e t c = Some c' \<Longrightarrow> client_ok i c \<Longrightarrow> client_ok i c' \<and> wc_user c' = wc_user c"
  unfolding ws_sendError_def by (erule ws_send_ok) simp_all

lemma ws_reply_ok:
  "ws_send (ws_reply now ty j p) c = Some c' \<Longrightarrow> client_ok i c \<Longrightarrow> \<forall>ev. p \<noteq> Some (EventIs ev) \<Longrightarrow> client_ok i c' \<and> wc_user c' = wc_user c"
  by (erule ws_send_ok) (simp_all add: ws_reply_def)

lemma handleSubscribe_ok: "handleSubscribe now q c = Some c' \<Longrightarrow> client_ok i c \<Longrightarrow> client_ok i c' \<and> wc_user c' = wc_user c"
  by (cases "wq_folder q") (auto simp: handleSubscribe_def client_ok_folders dest: ws_sendError_ok ws_reply_ok)

lemma handleUnsubscribe_ok: "handleUnsubscribe now q c = Some c' \<Longrightarrow> client_ok i c \<Longrightarrow> client_ok i c' \<and> wc_user c' = wc_user c"
  by (cases "wq_folder q") (auto simp: handleUnsubscribe_def client_ok_folders dest: ws_sendError_ok ws_reply_ok)

lemma handleSyncRequest_ok: "handleSyncRequest now q d c = Some c' \<Longrightarrow> client_ok i c \<Longrightarrow> client_ok i c' \<and> wc_user c' = wc_user c"
  by (cases "wq_sync q") (auto simp: handleSyncRequest_def dest: ws_sendError_ok ws_reply_ok)

lemma handleMessage_ok:
  assumes "handleMessage now msg d c = Some c'" and "client_ok i c"
  shows "client_ok i c' \<and> wc_user c' = wc_user c"
proof (cases msg)
  case None
  then show ?thesis using assms(1) ws_sendError_ok [OF _ assms(2)] by (simp add: handleMessage_def)
next
  case (Some q)
  consider "ws_send (ws_reply now ''pong'' (wq_id q) None) c = Some c'" | "handleSubscribe now q c = Some c'" | "handleUnsubscribe now q c = Some c'"
    | "handleSyncRequest now q d c = Some c'" | e t where "ws_sendError now (wq_id q) e t c = Some c'"
    using assms(1) by (simp add: handleMessage_def Some split: if_split_asm)
  then show ?thesis
    by cases (auto dest: ws_reply_ok [OF _ assms(2)] handleSubscribe_ok [OF _ assms(2)] handleUnsubscribe_ok [OF _ assms(2)]
        handleSyncRequest_ok [OF _ assms(2)] ws_sendError_ok [OF _ assms(2)])
qed

lemma ws_run_ok: "ws_run s \<Longrightarrow> ws_ok s"
proof (induction rule: ws_run.induct)
  case ws_start
  show ?case by (simp add: ws_ok_def NewWebSocketServer_def al_ok_def index_of_user_def)
next
  case (ws_joined s P now i h c s')
  then have c: "s' = ws_register c s" "wc_id c = i" "client_ok i c"
    by (auto simp: handleWebSocket_def Let_def new_ws_client_def client_ok_def split: if_split_asm sum.split_asm)
  with ws_ok_register [OF ws_joined.IH, of c] ws_joined.hyps show ?case by simp
next
  case (ws_left s i c)
  with ws_ok_unregister show ?case by blast
next
  case (ws_notified s ev)
  then show ?case by (simp add: Broadcast_def ws_ok_def)
next
  case (ws_event_taken s ev evs now)
  have "ws_ok (s\<lparr>ws_broadcast := evs\<rparr>)" using ws_event_taken.IH by (simp add: ws_ok_def)
  then show ?case by (rule ws_ok_broadcast)
next
  case (ws_greeted s i c now deviceID c')
  have "client_ok i c' \<and> wc_user c' = wc_user c"
    using ws_greeted.hyps(3) ws_okD(2) [OF ws_greeted.IH ws_greeted.hyps(2)] ws_reply_ok unfolding ws_greet_def by fastforce
  with ws_ok_put [OF ws_greeted.IH ws_greeted.hyps(2)] show ?case by blast
next
  case (ws_handled s i c now msg d c')
  with handleMessage_ok ws_okD(2) ws_ok_put show ?case by metis
next
  case (ws_written s i c m ms)
  have "client_ok i (c\<lparr>wc_send := ms\<rparr>)"
    using ws_okD(2) [OF ws_written.IH ws_written.hyps(2)] ws_written.hyps(3) by (auto simp: client_ok_def)
  with ws_ok_put [OF ws_written.IH ws_written.hyps(2)] show ?case by simp
qed

section \<open>Properties\<close>

text \<open>C26: The broadcast goes over the index of clients by user, kept up by joining and leaving clients.
  In every state of a run it does what looking at all registered clients would do: exactly those
  of the event's user that subscribed to its folder get the message, if their channel has room, and
  the others keep what they have; and no channel ever holds an event of another user.\<close>

theorem ws_broadcast_exact:
  assumes "ws_run s"
  shows "al_get (ws_clients (broadcastEvent now ev s)) i = map_option (delivered now ev) (al_get (ws_clients s) i)
    \<and> (\<forall>c m e. al_get (ws_clients s) i = Some c \<and> m \<in> set (wc_send c) \<and> ms_payload m = Some (EventIs e) \<longrightarrow> wv_user e = wc_user c)"
  using broadcast_get [OF ws_run_ok [OF assms]] ws_okD(2) [OF ws_run_ok [OF assms]] by (auto simp: client_ok_def)

definition demo_client :: "unit ws_client" where
  "demo_client = new_ws_client ''ws_1'' ''u'' ''d''"

lemma demo_ws_run: "ws_run (ws_register demo_client NewWebSocketServer)"
proof -
  let ?P = "\<lparr>p_hmac = (\<lambda>_ _. []), p_sha256 = (\<lambda>_. []), p_sha512 = (\<lambda>_. []), p_hmac_sha1 = (\<lambda>_ _. []), p_b32 = (\<lambda>_. None), p_mac = (\<lambda>_. []),
     p_enc = (\<lambda>_. []), p_dec = (\<lambda>_. Some (JObj [(''user_id'', JStr ''u''), (''exp'', JNum 9)]))\<rparr>"
  let ?h = "\<lparr>wh_token = ''..'', wh_authorization = [], wh_device = ''d'', wh_random = None, wh_fallback = []\<rparr>"
  have "(case ValidateAccessToken (p_dec ?P) (p_mac ?P) 0 ''..'' of Inl e \<Rightarrow> False | Inr cl \<Rightarrow> ac_user cl = ''u'')" by code_simp
  then obtain cl where "ValidateAccessToken (p_dec ?P) (p_mac ?P) 0 ''..'' = Inr cl" "ac_user cl = ''u''" by (auto split: sum.split_asm)
  then have "handleWebSocket ?P None 0 ''ws_1'' ?h NewWebSocketServer = (Inr demo_client, ws_register demo_client NewWebSocketServer)"
    by (auto simp: handleWebSocket_def Let_def handshake_token_def handshake_device_def demo_client_def)
  from ws_joined [OF ws_start this] show ?thesis by (simp add: NewWebSocketServer_def)
qed

theorem ws_broadcast_exact_witness:
  "al_get (ws_clients (broadcastEvent 0 \<lparr>wv_type = ''t'', wv_user = ''u'', wv_file = [], wv_folder = [], wv_data = (), wv_time = 0\<rparr>
      (ws_register demo_client NewWebSocketServer))) ''ws_1'' \<noteq> Some demo_client"
  using ws_broadcast_exact [OF demo_ws_run, of 0 "\<lparr>wv_type = ''t'', wv_user = ''u'', wv_file = [], wv_folder = [], wv_data = (), wv_time = 0\<rparr>" "''ws_1''"]
  by (simp add: ws_register_def NewWebSocketServer_def demo_client_def new_ws_client_def delivered_def try_send_def ws_subscribed_def
      send_capacity_def)

definition ws_endpoint :: "primitives \<Rightarrow> (mw_request \<Rightarrow> writer \<Rightarrow> (nat \<times> string) option) \<Rightarrow> int \<Rightarrow> string \<Rightarrow> ws_handshake
    \<Rightarrow> ('d ws_server, unit) handler" where
  "ws_endpoint P upgrade now i h q w s =
     (case handleWebSocket P (upgrade q w) now i h s of
        (Inl r, s') \<Rightarrow> (Returns r, s')
      | (Inr c, s') \<Rightarrow> (Returns \<lparr>rp_status = 101, rp_headers = [], rp_body = NoBody\<rparr>, s'))"

text \<open>No WebSocket is ever opened.  An upgrade needs to take the connection over, which the writer of the
  logging middleware does not offer: as long as the package's upgrade fails on such a writer, as it
  documents, every request at the endpoint is answered with an error and no client is registered.\<close>

theorem websocket_never_opens:
  assumes "q_method q = ''GET''" and "\<And>q w. \<not> wr_hijacker w \<Longrightarrow> \<exists>n e. upgrade q w = Some (n, e) \<and> 400 \<le> n"
  shows "\<exists>r log' rl'. wrapMiddleware limited allowed now (ws_endpoint P upgrade t i h) q w (log, rl, s) = (Returns r, log', rl', s)
    \<and> 400 \<le> rp_status r"
proof -
  have "\<exists>r. ws_endpoint P upgrade t i h q (responseWriter w) s = (Returns r, s) \<and> rp_status r \<in> {n. 400 \<le> n}" for w
  proof -
    obtain n e where "upgrade q (responseWriter w) = Some (n, e)" "400 \<le> n" using assms(2) [of "responseWriter w" q] by (auto simp: responseWriter_def)
    then show ?thesis by (auto simp: ws_endpoint_def handleWebSocket_def Let_def http_Error_def split: sum.split)
  qed
  from refused_behind_middleware [of q "ws_endpoint P upgrade t i h" s "{n. 400 \<le> n}", OF assms(1) this, of limited allowed now w log rl]
  show ?thesis by auto
qed

theorem websocket_never_opens_witness:
  "\<exists>r log' rl'. wrapMiddleware True [] 0
      (ws_endpoint P (\<lambda>q w. if wr_hijacker w then None else Some (500, ''response does not implement http.Hijacker'')) 0 ''ws_1''
         \<lparr>wh_token = ''t'', wh_authorization = [], wh_device = ''d'', wh_random = None, wh_fallback = []\<rparr>)
      \<lparr>q_method = ''GET'', q_path = ''/ws'', q_origin = [], q_remote = ''h:1'', q_user = [], q_tls = True, q_proto = []\<rparr>
      \<lparr>wr_headers = [], wr_flusher = True, wr_hijacker = True\<rparr> ([], NewRateLimitMiddleware 0 60 60, NewWebSocketServer :: unit ws_server)
      = (Returns r, log', rl', NewWebSocketServer) \<and> 400 \<le> rp_status r"
  by (rule websocket_never_opens) simp_all

text \<open>The origins accepted here are those of the CORS middleware.\<close>

lemma CheckOrigin_eq: "CheckOrigin allowed origin = isOriginAllowed origin allowed"
  by (auto simp: CheckOrigin_def isOriginAllowed_def)

text \<open>An incremental reply lists live entries of the folder only: what was removed is never reported.\<close>

lemma sync_reports_live_entries:
  "f \<in> set (sync_changes since fullSync (vfs_ListDirectory u folder 1000 0 d)) \<Longrightarrow> f \<in> set (files d) \<and> \<not> f_trashed f \<and> f_user f = u"
  using set_ListDirectory [of f u "Some folder" 1000 0 d] by (simp add: sync_changes_def vfs_ListDirectory_def)

end
