(* ===== verification/Media.thy ===== *)
theory Media
  imports Webdav
begin

text \<open>
  Video streaming (\<^verbatim>\<open>src/internal/media/stream.go\<close>): the requests for playlists, segments, information
  and status, the transcoding of a file into HLS variants and the cleaning of the cache.  The cache
  and the temporary files are one map from paths to files and directories.  \<^verbatim>\<open>ffmpeg\<close> and \<^verbatim>\<open>ffprobe\<close>
  are parameters: from the bytes of the video to the files of a variant, or to the decoded report.
  A served file is the path handed to \<^verbatim>\<open>http.ServeFile\<close>.
\<close>

section \<open>The cache\<close>

datatype cache_entry = CacheFile "byte list" int | CacheDir int

type_synonym cache_fs = "(string \<times> cache_entry) list"

fun mod_time :: "cache_entry \<Rightarrow> int" where
  "mod_time (CacheFile w t) = t"
| "mod_time (CacheDir t) = t"

fun is_dir :: "cache_entry \<Rightarrow> bool" where
  "is_dir (CacheFile w t) = False"
| "is_dir (CacheDir t) = True"

definition cache_exists :: "cache_fs \<Rightarrow> string \<Rightarrow> bool" where
  "cache_exists fs p \<longleftrightarrow> al_get fs p \<noteq> None"

text \<open>\<^verbatim>\<open>os.RemoveAll\<close>: the entry and what lies below it.\<close>

definition RemoveAll :: "string \<Rightarrow> cache_fs \<Rightarrow> cache_fs" where
  "RemoveAll p fs = filter (\<lambda>(q, _). \<not> (q = p \<or> has_prefix q (p @ ''/''))) fs"

text \<open>\<^verbatim>\<open>os.MkdirAll\<close> for the last directory of a path; existing directories keep their time.\<close>

definition MkdirAll :: "int \<Rightarrow> string \<Rightarrow> cache_fs \<Rightarrow> cache_fs" where
  "MkdirAll now p fs = (if cache_exists fs p then fs else al_put fs p (CacheDir now))"

text \<open>The entries of a directory: their names, up to the next separator.\<close>

definition dir_entries :: "string \<Rightarrow> cache_fs \<Rightarrow> (string \<times> cache_entry) list" where
  "dir_entries dir fs = filter (\<lambda>(n, _). slash \<notin> set n)
     (map (\<lambda>(q, e). (drop (Suc (length dir)) q, e)) (filter (\<lambda>(q, _). has_prefix q (dir @ ''/'')) fs))"

section \<open>Data\<close>

record stream_info =
  si_duration :: "string option"
  si_width :: int
  si_height :: int
  si_bitrate :: int
  si_codec :: string
  si_rate :: string
  si_has_hls :: bool
  si_ready :: bool

record transcode_status =
  ts_file :: string
  ts_ready :: bool
  ts_progress :: int
  ts_qualities :: "string list"
  ts_created :: "int option"

record probe_stream =
  ps_width :: int
  ps_height :: int
  ps_codec :: string
  ps_rate :: string

record probe_data =
  pd_duration :: string
  pd_bitrate :: string
  pd_streams :: "probe_stream list"

record quality =
  ql_name :: string
  ql_width :: int
  ql_height :: int
  ql_bitrate :: string

record media_env =
  me_tmp :: string
  me_context :: context_values
  me_writable :: "string \<Rightarrow> bool"
  me_writes :: "nat \<Rightarrow> nat option"
  me_now :: int
  me_ffmpeg :: "quality \<Rightarrow> byte list \<Rightarrow> (string \<times> byte list) list option"
  me_ffprobe :: "byte list \<Rightarrow> probe_data option"
  me_is_float :: "string \<Rightarrow> bool"

record 'b media_state =
  mt_db :: database
  mt_store :: 'b
  mt_fs :: cache_fs

datatype media_answer = MediaError nat string | StreamDetails stream_info | StatusDetails transcode_status
  | ServedFile headers string

definition media_cacheDir :: "media_env \<Rightarrow> string" where
  "media_cacheDir E = me_tmp E @ ''/vaultdrift-streams''"

section \<open>Helpers\<close>

definition isVideoFile :: "string \<Rightarrow> bool" where
  "isVideoFile filename \<longleftrightarrow>
     map lower (path_Ext filename) \<in> set [''.mp4'', ''.mkv'', ''.avi'', ''.mov'', ''.webm'', ''.flv'', ''.wmv'', ''.m4v'', ''.ogv'']"

definition parseBitrate :: "string \<Rightarrow> int" where
  "parseBitrate bitrate = (case atoi (trim_suffix bitrate ''k'') of Some v \<Rightarrow> wrap64 (v * 1000) | None \<Rightarrow> 1000000)"

text \<open>The user of the request context under the string key.\<close>

definition GetUserID :: "context_values \<Rightarrow> string" where
  "GetUserID ctx = (case al_get ctx (StringKey ''user_id'') of Some u \<Rightarrow> u | None \<Rightarrow> [])"

text \<open>The checks every request starts with; the sanitized id and the file.\<close>

definition media_file :: "media_env \<Rightarrow> string \<Rightarrow> database \<Rightarrow> media_answer + string \<times> file_row" where
  "media_file E fileID d =
     (if GetUserID (me_context E) = [] then Inl (MediaError 401 ''Unauthorized'')
      else if fileID = [] then Inl (MediaError 400 ''File ID required'')
      else case SanitizeFileID fileID of
             Inl e \<Rightarrow> Inl (MediaError 400 ''Invalid file ID'')
           | Inr i \<Rightarrow>
               (case GetFile i d of
                  Inl e \<Rightarrow> Inl (MediaError 404 ''File not found'')
                | Inr f \<Rightarrow> if f_user f \<noteq> GetUserID (me_context E) then Inl (MediaError 403 ''Access denied'') else Inr (i, f)))"

section \<open>Assembling, probing, transcoding\<close>

text \<open>The chunks are written one by one; what was written before an error stays in the file.\<close>

definition assembleFile :: "'b backend \<Rightarrow> media_env \<Rightarrow> manifest \<Rightarrow> string \<Rightarrow> 'b media_state \<Rightarrow> string option \<times> 'b media_state" where
  "assembleFile B E m outputPath st =
     (if \<not> me_writable E outputPath then (Some ''open failed'', st)
      else (case send_chunks B (me_writes E) 0 (m_chunks m) ([], mt_store st) of
              (e, out, b) \<Rightarrow> (e, st\<lparr>mt_store := b, mt_fs := al_put (mt_fs st) outputPath (CacheFile out (me_now E))\<rparr>)))"

definition drop_file :: "string \<Rightarrow> 'b media_state \<Rightarrow> 'b media_state" where
  "drop_file p st = st\<lparr>mt_fs := al_del (mt_fs st) p\<rparr>"

definition file_bytes :: "string \<Rightarrow> 'b media_state \<Rightarrow> byte list" where
  "file_bytes p st = (case al_get (mt_fs st) p of Some (CacheFile w t) \<Rightarrow> w | _ \<Rightarrow> [])"

definition content_manifest :: "file_row \<Rightarrow> database \<Rightarrow> manifest result" where
  "content_manifest f d =
     (if f_manifest f = None \<or> f_manifest f = Some [] then Inl ''file has no content''
      else case GetManifest (the (f_manifest f)) d of Inl e \<Rightarrow> Inl ''failed to get manifest'' | Inr m \<Rightarrow> Inr m)"

text \<open>The report of the probe as the information of the stream.\<close>

definition probed_info :: "media_env \<Rightarrow> bool \<Rightarrow> probe_data \<Rightarrow> stream_info" where
  "probed_info E hls p =
     (let base = \<lparr>si_duration = (if me_is_float E (pd_duration p) then Some (pd_duration p) else None), si_width = 0, si_height = 0,
            si_bitrate = (case atoi (pd_bitrate p) of Some b \<Rightarrow> b | None \<Rightarrow> 0), si_codec = [], si_rate = [], si_has_hls = hls, si_ready = True\<rparr>
      in case List.find (\<lambda>s. ps_width s > 0 \<and> ps_height s > 0) (pd_streams p) of
           None \<Rightarrow> base
         | Some s \<Rightarrow> base\<lparr>si_width := ps_width s, si_height := ps_height s, si_codec := ps_codec s, si_rate := ps_rate s\<rparr>)"

definition probeVideo :: "'b backend \<Rightarrow> media_env \<Rightarrow> string \<Rightarrow> 'b media_state \<Rightarrow> stream_info result \<times> 'b media_state" where
  "probeVideo B E fileID st =
     (case GetFile fileID (mt_db st) of
        Inl e \<Rightarrow> (Inl ''file not found'', st)
      | Inr f \<Rightarrow>
          (case content_manifest f (mt_db st) of
             Inl e \<Rightarrow> (Inl e, st)
           | Inr m \<Rightarrow>
               (let tempFile = filepath_Join [me_tmp E, ''vaultdrift-probe-'' @ fileID @ ''.tmp'']
                in case assembleFile B E m tempFile st of
                     (Some e, st1) \<Rightarrow> (Inl e, st1)
                   | (None, st1) \<Rightarrow>
                       (case me_ffprobe E (file_bytes tempFile st1) of
                          None \<Rightarrow> (Inl ''ffprobe failed'', drop_file tempFile st1)
                        | Some p \<Rightarrow>
                            (Inr (probed_info E (cache_exists (mt_fs st1) (filepath_Join [media_cacheDir E, fileID, ''playlist.m3u8''])) p),
                             drop_file tempFile st1)))))"

definition qualities :: "quality list" where
  "qualities = [\<lparr>ql_name = ''1080p'', ql_width = 1920, ql_height = 1080, ql_bitrate = ''5000k''\<rparr>,
     \<lparr>ql_name = ''720p'', ql_width = 1280, ql_height = 720, ql_bitrate = ''2500k''\<rparr>,
     \<lparr>ql_name = ''480p'', ql_width = 854, ql_height = 480, ql_bitrate = ''1000k''\<rparr>]"

definition variant_playlist :: "string \<Rightarrow> string \<Rightarrow> string" where
  "variant_playlist fileID q = fileID @ ''_'' @ q @ ''.m3u8''"

definition variant_line :: "string \<Rightarrow> quality \<Rightarrow> string" where
  "variant_line fileID q = ''#EXT-X-STREAM-INF:BANDWIDTH='' @ dec_int (parseBitrate (ql_bitrate q)) @ '',RESOLUTION='' @ dec_int (ql_width q)
     @ ''x'' @ dec_int (ql_height q) @ [CHR 0x0A] @ variant_playlist fileID (ql_name q)"

text \<open>One run of the transcoder for each quality; one that fails is left out.\<close>

fun transcode :: "media_env \<Rightarrow> string \<Rightarrow> string \<Rightarrow> byte list \<Rightarrow> quality list \<Rightarrow> string list \<times> cache_fs \<Rightarrow> string list \<times> cache_fs" where
  "transcode E fileID outputDir video [] (vs, fs) = (vs, fs)"
| "transcode E fileID outputDir video (q # qs) (vs, fs) =
     (case me_ffmpeg E q video of
        None \<Rightarrow> transcode E fileID outputDir video qs (vs, fs)
      | Some outs \<Rightarrow>
          transcode E fileID outputDir video qs
            (vs @ [variant_line fileID q],
             fold (\<lambda>(n, w) fs. al_put fs (filepath_Join [outputDir, n]) (CacheFile w (me_now E))) outs fs))"

definition master_playlist :: "string list \<Rightarrow> string" where
  "master_playlist variants = ''#EXTM3U'' @ [CHR 0x0A] @ ''#EXT-X-VERSION:3'' @ [CHR 0x0A] @ concat (map (\<lambda>v. v @ [CHR 0x0A]) variants)"

definition generateHLS :: "'b backend \<Rightarrow> media_env \<Rightarrow> string \<Rightarrow> 'b media_state \<Rightarrow> string option \<times> 'b media_state" where
  "generateHLS B E fileID st =
     (case SanitizeFileID fileID of
        Inl e \<Rightarrow> (Some e, st)
      | Inr i \<Rightarrow>
          (let outputDir = filepath_Join [media_cacheDir E, i]
           in if \<not> me_writable E outputDir then (Some ''failed to create output directory'', st)
              else (let st0 = st\<lparr>mt_fs := MkdirAll (me_now E) outputDir (mt_fs st)\<rparr>
                    in case GetFile i (mt_db st0) of
                         Inl e \<Rightarrow> (Some ''failed to get file'', st0)
                       | Inr f \<Rightarrow>
                           (case content_manifest f (mt_db st0) of
                              Inl e \<Rightarrow> (Some e, st0)
                            | Inr m \<Rightarrow>
                                (let tempFile = filepath_Join [me_tmp E, ''vaultdrift-video-'' @ i @ ''.tmp'']
                                 in case assembleFile B E m tempFile st0 of
                                      (Some e, st1) \<Rightarrow> (Some ''failed to assemble file'', st1)
                                    | (None, st1) \<Rightarrow>
                                        (case transcode E i outputDir (file_bytes tempFile st1) qualities ([], mt_fs st1) of
                                           (variants, fs) \<Rightarrow>
                                             (let st2 = st1\<lparr>mt_fs := fs\<rparr>; masterPath = filepath_Join [outputDir, ''playlist.m3u8'']
                                              in if variants = [] then (Some ''failed to generate any quality variants'', drop_file tempFile st2)
                                                 else if \<not> me_writable E masterPath then (Some ''failed to write master playlist'', drop_file tempFile st2)
                                                 else (None, drop_file tempFile (st2\<lparr>mt_fs := al_put fs masterPath
                                                        (CacheFile (string_bytes (master_playlist variants)) (me_now E))\<rparr>)))))))))"

section \<open>Requests\<close>

definition handleStreamInfo :: "'b backend \<Rightarrow> media_env \<Rightarrow> string \<Rightarrow> 'b media_state \<Rightarrow> media_answer \<times> 'b media_state" where
  "handleStreamInfo B E fileID st =
     (case media_file E fileID (mt_db st) of
        Inl a \<Rightarrow> (a, st)
      | Inr (i, f) \<Rightarrow>
          if \<not> isVideoFile (f_name f) then (MediaError 400 ''Not a video file'', st)
          else (case probeVideo B E i st of
                  (Inl e, st') \<Rightarrow> (StreamDetails \<lparr>si_duration = None, si_width = 0, si_height = 0, si_bitrate = 0, si_codec = [], si_rate = [],
                     si_has_hls = False, si_ready = False\<rparr>, st')
                | (Inr x, st') \<Rightarrow> (StreamDetails x, st')))"

text \<open>Without a playlist the transcoding is started in the background: the flag of the result.\<close>

definition handlePlaylist :: "media_env \<Rightarrow> string \<Rightarrow> 'b media_state \<Rightarrow> media_answer \<times> bool" where
  "handlePlaylist E fileID st =
     (case media_file E fileID (mt_db st) of
        Inl a \<Rightarrow> (a, False)
      | Inr (i, f) \<Rightarrow>
          (let playlistPath = filepath_Join [media_cacheDir E, i, ''playlist.m3u8'']
           in if \<not> cache_exists (mt_fs st) playlistPath then (MediaError 202 ''Stream not ready, generating...'', True)
              else (ServedFile [(''Content-Type'', ''application/vnd.apple.mpegurl''), (''Cache-Control'', ''public, max-age=3600'')] playlistPath, False)))"

text \<open>Two dots in a row, by recursion.\<close>

fun has_dots :: "string \<Rightarrow> bool" where
  "has_dots (a # b # s) = ((a = CHR ''.'' \<and> b = CHR ''.'') \<or> has_dots (b # s))"
| "has_dots _ = False"

definition handleSegment :: "media_env \<Rightarrow> string \<Rightarrow> string \<Rightarrow> 'b media_state \<Rightarrow> media_answer" where
  "handleSegment E fileID segment st =
     (if GetUserID (me_context E) = [] then MediaError 401 ''Unauthorized''
      else if fileID = [] \<or> segment = [] then MediaError 400 ''Invalid request''
      else case SanitizeFileID fileID of
             Inl e \<Rightarrow> MediaError 400 ''Invalid file ID''
           | Inr i \<Rightarrow>
               if has_dots segment \<or> slash \<in> set segment then MediaError 400 ''Invalid segment''
               else (case media_file E fileID (mt_db st) of
                       Inl a \<Rightarrow> a
                     | Inr (i, f) \<Rightarrow>
                         (let segmentPath = filepath_Join [media_cacheDir E, i, segment]
                          in if \<not> cache_exists (mt_fs st) segmentPath then MediaError 404 ''Segment not found''
                             else ServedFile [(''Content-Type'', ''video/mp2t''), (''Cache-Control'', ''public, max-age=86400'')] segmentPath)))"

definition handleTranscodeStatus :: "media_env \<Rightarrow> string \<Rightarrow> 'b media_state \<Rightarrow> media_answer" where
  "handleTranscodeStatus E fileID st =
     (case media_file E fileID (mt_db st) of
        Inl a \<Rightarrow> a
      | Inr (i, f) \<Rightarrow>
          (let outputDir = filepath_Join [media_cacheDir E, i]
           in case al_get (mt_fs st) (filepath_Join [outputDir, ''playlist.m3u8'']) of
                None \<Rightarrow> StatusDetails \<lparr>ts_file = i, ts_ready = False, ts_progress = 0, ts_qualities = [], ts_created = None\<rparr>
              | Some e \<Rightarrow> StatusDetails \<lparr>ts_file = i, ts_ready = True, ts_progress = 100,
                  ts_qualities = filter (\<lambda>q. cache_exists (mt_fs st) (filepath_Join [outputDir, variant_playlist i q])) [''480p'', ''720p'', ''1080p''],
                  ts_created = Some (mod_time e)\<rparr>))"

text \<open>\<open>can_read\<close> says whether the cache directory can be read.\<close>

definition CleanupOldStreams :: "bool \<Rightarrow> media_env \<Rightarrow> int \<Rightarrow> cache_fs \<Rightarrow> string option \<times> cache_fs" where
  "CleanupOldStreams can_read E maxAge fs =
     (if \<not> can_read then (Some ''failed to read directory'', fs)
      else (None, fold (\<lambda>(n, e) fs. if is_dir e \<and> mod_time e < me_now E - maxAge then RemoveAll (filepath_Join [media_cacheDir E, n]) fs else fs)
                    (dir_entries (media_cacheDir E) fs) fs))"

section \<open>Lemmas\<close>

lemma media_file_cases:
  "media_file E fileID d = Inr (i, f) \<Longrightarrow> i = fileID \<and> fileID \<noteq> [] \<and> SanitizeFileID fileID = Inr fileID \<and> GetFileByID fileID d = Inr f
     \<and> f_user f = GetUserID (me_context E) \<and> f_user f \<noteq> []"
  by (auto simp: media_file_def SanitizeFileID_def GetFile_def split: if_split_asm sum.split_asm)

lemma media_file_refuses: "media_file E i d = Inl a \<Longrightarrow> \<exists>n e. a = MediaError n e \<and> 400 \<le> n"
  by (auto simp: media_file_def split: if_split_asm sum.split_asm)

lemma sanitized_plain: "SanitizeFileID i = Inr j \<Longrightarrow> plain i"
  by (auto simp: SanitizeFileID_def plain_def split: if_split_asm)

lemma Join_abs:
  assumes "\<forall>c \<in> set (ts @ es). plain c" and "ts \<noteq> []"
  shows "filepath_Join (abs_path ts # es) = abs_path (ts @ es)"
proof -
  have "\<forall>e \<in> set es. e \<noteq> []" using assms(1) by (auto simp: plain_def)
  then have ne: "filter (\<lambda>e. e \<noteq> []) (abs_path ts # es) = abs_path ts # es" by (simp add: abs_path_def)
  have "join_with ''/'' (abs_path ts # es) = abs_path (ts @ es)"
    using assms(2) by (induction es rule: rev_induct) (simp_all add: join_with_snoc [of "_ # _", simplified] join_with_snoc abs_path_def flip: append_assoc)
  then show ?thesis using ne path_Clean_abs [OF assms(1)] by (simp add: filepath_Join_def Let_def)
qed

lemma media_cacheDir_abs: "me_tmp E = abs_path ts \<Longrightarrow> ts \<noteq> [] \<Longrightarrow> media_cacheDir E = abs_path (ts @ [''vaultdrift-streams''])"
  by (simp add: media_cacheDir_def abs_path_def join_with_snoc)

lemma segment_plain: "\<not> has_dots s \<Longrightarrow> slash \<notin> set s \<Longrightarrow> s \<noteq> [] \<Longrightarrow> s \<noteq> ''.'' \<Longrightarrow> plain s"
  by (auto simp: plain_def)

section \<open>Properties\<close>

text \<open>C27: A segment request stays in the cache of a file of the user.  The path that is served is an
  existing entry of the directory of the file's id below the cache directory, named by the segment of the
  request, and the file belongs to the user: no path value leads out of it.\<close>

theorem segments_confined:
  assumes "me_tmp E = abs_path ts" and "ts \<noteq> []" and "\<forall>c \<in> set ts. plain c"
    and "handleSegment E fileID segment st = ServedFile hs p" and "segment \<noteq> ''.''"
  shows "p = abs_path (ts @ [''vaultdrift-streams'', fileID, segment]) \<and> plain fileID \<and> plain segment \<and> cache_exists (mt_fs st) p
    \<and> (\<exists>f. GetFileByID fileID (mt_db st) = Inr f \<and> f_user f = GetUserID (me_context E) \<and> f_user f \<noteq> [])"
proof -
  obtain i where seg: "SanitizeFileID fileID = Inr i" "\<not> has_dots segment" "slash \<notin> set segment" "segment \<noteq> []"
    using assms(4) by (auto simp: handleSegment_def split: if_split_asm sum.split_asm)
  from assms(4) seg obtain f where f: "media_file E fileID (mt_db st) = Inr (fileID, f)"
    and p: "p = filepath_Join [media_cacheDir E, fileID, segment]" "cache_exists (mt_fs st) p"
    by (auto simp: handleSegment_def Let_def split: if_split_asm sum.split_asm dest: media_file_cases media_file_refuses)
  have pl: "plain fileID" "plain segment" using sanitized_plain [OF seg(1)] segment_plain seg(2-4) assms(5) by simp_all
  then have "\<forall>c \<in> set ((ts @ [''vaultdrift-streams'']) @ [fileID, segment]). plain c" using assms(3) by (auto simp: plain_def)
  from Join_abs [OF this] have "p = abs_path (ts @ [''vaultdrift-streams'', fileID, segment])"
    by (simp add: p(1) media_cacheDir_abs [OF assms(1,2)])
  with pl p(2) media_file_cases [OF f] show ?thesis by blast
qed

definition demo_media :: "media_env" where
  "demo_media = \<lparr>me_tmp = ''/tmp'', me_context = [(StringKey ''user_id'', ''u'')], me_writable = (\<lambda>_. True), me_writes = (\<lambda>_. None), me_now = 0,
     me_ffmpeg = (\<lambda>_ _. None), me_ffprobe = (\<lambda>_. None), me_is_float = (\<lambda>_. False)\<rparr>"

definition demo_media_state :: "local_fs media_state" where
  "demo_media_state = \<lparr>mt_db = wd_db demo_dav_state, mt_store = \<lparr>lf_files = [], lf_faults = []\<rparr>,
     mt_fs = [(''/tmp/vaultdrift-streams/f/s.ts'', CacheFile [] 0)]\<rparr>"

theorem segments_confined_witness:
  "handleSegment demo_media ''f'' ''s.ts'' demo_media_state
     = ServedFile [(''Content-Type'', ''video/mp2t''), (''Cache-Control'', ''public, max-age=86400'')] ''/tmp/vaultdrift-streams/f/s.ts''
   \<and> cache_exists (mt_fs demo_media_state) ''/tmp/vaultdrift-streams/f/s.ts''"
proof -
  have run: "handleSegment demo_media ''f'' ''s.ts'' demo_media_state
     = ServedFile [(''Content-Type'', ''video/mp2t''), (''Cache-Control'', ''public, max-age=86400'')] ''/tmp/vaultdrift-streams/f/s.ts''"
    by code_simp
  have "me_tmp demo_media = abs_path [''tmp'']" by (simp add: demo_media_def abs_path_def)
  then have "cache_exists (mt_fs demo_media_state) ''/tmp/vaultdrift-streams/f/s.ts''"
    by (rule segments_confined [OF _ _ _ run, THEN conjunct2, THEN conjunct2, THEN conjunct2, THEN conjunct1]) (simp_all add: plain_def)
  with run show ?thesis by blast
qed

text \<open>When a chunk cannot be read, the part of the video that was assembled stays in the temporary directory.\<close>

lemma failed_assembly_keeps_temp:
  assumes "SanitizeFileID i = Inr i" and "me_writable E (filepath_Join [media_cacheDir E, i])" and "GetFile i (mt_db st) = Inr f"
    and "content_manifest f (mt_db st) = Inr m" and "me_writable E t"
    and "send_chunks B (me_writes E) 0 (m_chunks m) ([], mt_store st) = (Some e, out, b)"
    and "t = filepath_Join [me_tmp E, ''vaultdrift-video-'' @ i @ ''.tmp'']"
  shows "al_get (mt_fs (snd (generateHLS B E i st))) t = Some (CacheFile out (me_now E))"
  using assms by (simp add: generateHLS_def Let_def assembleFile_def al_simps)

lemma assembled_content:
  assumes "me_writable E p" and "send_chunks B (me_writes E) 0 (m_chunks m) ([], mt_store st) = (None, out, b)"
  shows "assembleFile B E m p st = (None, st\<lparr>mt_store := b, mt_fs := al_put (mt_fs st) p (CacheFile out (me_now E))\<rparr>)"
  using assms by (simp add: assembleFile_def)

end
