(* ===== verification/Previews.thy ===== *)
theory Previews
  imports Media
begin

text \<open>
  Document previews (\<^verbatim>\<open>src/internal/preview/converter.go\<close>, \<^verbatim>\<open>handler.go\<close>) and thumbnails
  (\<^verbatim>\<open>src/internal/thumbnail/generator.go\<close>, \<^verbatim>\<open>worker.go\<close>, \<^verbatim>\<open>src/internal/server/handlers_thumbnail.go\<close>).
  They share the map of cached files with the video streams.  LibreOffice, \<^verbatim>\<open>pdftotext\<close> and the image
  codecs are parameters.
\<close>

section \<open>converter.go\<close>

record preview_env =
  pv_media :: media_env
  pv_enabled :: bool
  pv_convert :: "byte list \<Rightarrow> (string \<times> byte list) list option"
  pv_pdftotext :: "(byte list \<Rightarrow> byte list option) option"

definition pv_cacheDir :: "preview_env \<Rightarrow> string" where
  "pv_cacheDir E = me_tmp (pv_media E) @ ''/vaultdrift-previews''"

definition SupportedFormats :: "string list" where
  "SupportedFormats = [''application/vnd.openxmlformats-officedocument.wordprocessingml.document'', ''application/msword'',
     ''application/vnd.openxmlformats-officedocument.spreadsheetml.sheet'', ''application/vnd.ms-excel'',
     ''application/vnd.openxmlformats-officedocument.presentationml.presentation'', ''application/vnd.ms-powerpoint'',
     ''application/vnd.oasis.opendocument.text'', ''application/vnd.oasis.opendocument.spreadsheet'',
     ''application/vnd.oasis.opendocument.presentation'', ''application/rtf'', ''text/plain'', ''text/csv'']"

definition CanPreview :: "preview_env \<Rightarrow> string \<Rightarrow> bool" where
  "CanPreview E mimeType \<longleftrightarrow> pv_enabled E \<and> mimeType \<in> set SupportedFormats"

record preview_result =
  pr_file :: string
  pr_path :: string
  pr_type :: string
  pr_generated :: int

definition pdf_path :: "preview_env \<Rightarrow> string \<Rightarrow> string" where
  "pdf_path E i = filepath_Join [pv_cacheDir E, i @ ''.pdf'']"

definition pdf_result :: "preview_env \<Rightarrow> string \<Rightarrow> int \<Rightarrow> preview_result" where
  "pdf_result E i t = \<lparr>pr_file = i, pr_path = pdf_path E i, pr_type = ''pdf'', pr_generated = t\<rparr>"

text \<open>The conversion writes into a work directory; its result is moved into the cache.\<close>

definition convert_document :: "'b backend \<Rightarrow> preview_env \<Rightarrow> string \<Rightarrow> manifest \<Rightarrow> 'b media_state \<Rightarrow> preview_result result \<times> 'b media_state" where
  "convert_document B E i m st =
     (let M = pv_media E;
          tempFile = filepath_Join [me_tmp M, ''vaultdrift-doc-'' @ i @ ''.tmp''];
          outputDir = filepath_Join [pv_cacheDir E, i @ ''_work'']
      in case assembleFile B M m tempFile st of
           (Some e, st1) \<Rightarrow> (Inl ''failed to assemble file'', st1)
         | (None, st1) \<Rightarrow>
             (let done = (\<lambda>fs. st1\<lparr>mt_fs := al_del (RemoveAll outputDir fs) tempFile\<rparr>);
                  fs1 = (if me_writable M outputDir then MkdirAll (me_now M) outputDir (mt_fs st1) else mt_fs st1)
              in case pv_convert E (file_bytes tempFile st1) of
                   None \<Rightarrow> (Inl ''conversion failed'', done fs1)
                 | Some outs \<Rightarrow>
                     (let fs2 = fold (\<lambda>(n, w) fs. al_put fs (filepath_Join [outputDir, n]) (CacheFile w (me_now M))) outs fs1;
                          generatedPDF = filepath_Join [outputDir, ''vaultdrift-doc-'' @ i @ ''.pdf'']
                      in case al_get fs2 generatedPDF of
                           None \<Rightarrow> (Inl ''failed to move preview'', done fs2)
                         | Some c \<Rightarrow> (Inr (pdf_result E i (me_now M)), done (al_put (al_del fs2 generatedPDF) (pdf_path E i) c)))))"

definition GeneratePreview :: "'b backend \<Rightarrow> preview_env \<Rightarrow> string \<Rightarrow> 'b media_state \<Rightarrow> preview_result result \<times> 'b media_state" where
  "GeneratePreview B E fileID st =
     (if \<not> pv_enabled E then (Inl ''document conversion not available - install LibreOffice'', st)
      else case SanitizeFileID fileID of
        Inl e \<Rightarrow> (Inl e, st)
      | Inr i \<Rightarrow>
          (case GetFile i (mt_db st) of
             Inl e \<Rightarrow> (Inl ''file not found'', st)
           | Inr f \<Rightarrow>
               if \<not> CanPreview E (f_mime f) then (Inl (''unsupported file type: '' @ f_mime f), st)
               else (case al_get (mt_fs st) (pdf_path E i) of
                       Some c \<Rightarrow> (Inr (pdf_result E i (mod_time c)), st)
                     | None \<Rightarrow>
                         (case content_manifest f (mt_db st) of
                            Inl e \<Rightarrow> (Inl e, st) | Inr m \<Rightarrow> convert_document B E i m st))))"

definition newline_string :: string where
  "newline_string = [CHR 0x0A]"

definition dq :: string where
  "dq = [CHR 0x22]"

definition simple_html :: "string \<Rightarrow> string" where
  "simple_html fileID =
     ''<!DOCTYPE html>'' @ newline_string @ ''<html>'' @ newline_string @ ''<head>'' @ newline_string
     @ ''    <meta charset='' @ dq @ ''UTF-8'' @ dq @ ''>'' @ newline_string
     @ ''    <title>Document Preview</title>'' @ newline_string @ ''    <style>'' @ newline_string
     @ ''        body { margin: 0; padding: 0; overflow: hidden; }'' @ newline_string
     @ ''        #pdf-viewer { width: 100%; height: 100vh; }'' @ newline_string
     @ ''    </style>'' @ newline_string @ ''</head>'' @ newline_string @ ''<body>'' @ newline_string
     @ ''    <iframe id='' @ dq @ ''pdf-viewer'' @ dq @ '' src='' @ dq @ ''/api/v1/preview/'' @ fileID @ ''/pdf'' @ dq
     @ '' type='' @ dq @ ''application/pdf'' @ dq @ ''></iframe>'' @ newline_string @ ''</body>'' @ newline_string @ ''</html>''"

definition html_path :: "preview_env \<Rightarrow> string \<Rightarrow> string" where
  "html_path E i = filepath_Join [pv_cacheDir E, i @ ''.html'']"

definition generateSimpleHTML :: "preview_env \<Rightarrow> string \<Rightarrow> 'b media_state \<Rightarrow> string \<times> 'b media_state" where
  "generateSimpleHTML E i st =
     (html_path E i,
      if me_writable (pv_media E) (html_path E i)
      then st\<lparr>mt_fs := al_put (mt_fs st) (html_path E i) (CacheFile (string_bytes (simple_html i)) (me_now (pv_media E)))\<rparr> else st)"

definition GenerateHTML :: "'b backend \<Rightarrow> preview_env \<Rightarrow> string \<Rightarrow> 'b media_state \<Rightarrow> string result \<times> 'b media_state" where
  "GenerateHTML B E fileID st =
     (if \<not> pv_enabled E then (Inl ''document conversion not available'', st)
      else case SanitizeFileID fileID of
        Inl e \<Rightarrow> (Inl e, st)
      | Inr i \<Rightarrow>
          (case GeneratePreview B E i st of
             (Inl e, st1) \<Rightarrow> (Inl e, st1)
           | (Inr r, st1) \<Rightarrow>
               (case pv_pdftotext E of
                  None \<Rightarrow> map_prod Inr id (generateSimpleHTML E i st1)
                | Some run \<Rightarrow>
                    (case run (file_bytes (pr_path r) st1) of
                       None \<Rightarrow> map_prod Inr id (generateSimpleHTML E i st1)
                     | Some w \<Rightarrow> (Inr (html_path E i),
                         st1\<lparr>mt_fs := al_put (mt_fs st1) (html_path E i) (CacheFile w (me_now (pv_media E)))\<rparr>)))))"

definition GetPreview :: "'b backend \<Rightarrow> preview_env \<Rightarrow> string \<Rightarrow> 'b media_state \<Rightarrow> preview_result result \<times> 'b media_state" where
  "GetPreview B E fileID st =
     (case SanitizeFileID fileID of
        Inl e \<Rightarrow> (Inl e, st)
      | Inr i \<Rightarrow>
          (case al_get (mt_fs st) (pdf_path E i) of
             Some c \<Rightarrow> (Inr (pdf_result E i (mod_time c)), st)
           | None \<Rightarrow> GeneratePreview B E i st))"

definition CleanupOldPreviews :: "bool \<Rightarrow> preview_env \<Rightarrow> int \<Rightarrow> cache_fs \<Rightarrow> string option \<times> cache_fs" where
  "CleanupOldPreviews can_read E maxAge fs =
     (if \<not> can_read then (Some ''failed to read directory'', fs)
      else (None, fold (\<lambda>(n, e) fs. if \<not> is_dir e \<and> mod_time e < me_now (pv_media E) - maxAge then al_del fs (filepath_Join [pv_cacheDir E, n]) else fs)
                    (dir_entries (pv_cacheDir E) fs) fs))"

section \<open>handler.go\<close>

record preview_info =
  pi_file :: string
  pi_can :: bool
  pi_type :: string
  pi_status :: string
  pi_supported :: "string list"
  pi_enabled :: bool

datatype preview_answer = PreviewError nat string | PreviewDetails preview_info | PreviewFile headers string
  | PreviewBytes headers "byte list" | Generating string

fun preview_refusal :: "media_answer \<Rightarrow> preview_answer" where
  "preview_refusal (MediaError n e) = PreviewError n e"
| "preview_refusal a = PreviewError 500 []"

definition preview_file :: "preview_env \<Rightarrow> string \<Rightarrow> database \<Rightarrow> preview_answer + string \<times> file_row" where
  "preview_file E fileID d = map_sum preview_refusal id (media_file (pv_media E) fileID d)"

definition handlePreviewInfo :: "preview_env \<Rightarrow> string \<Rightarrow> 'b media_state \<Rightarrow> preview_answer" where
  "handlePreviewInfo E fileID st =
     (case preview_file E fileID (mt_db st) of
        Inl a \<Rightarrow> a
      | Inr (i, f) \<Rightarrow>
          (let ready = cache_exists (mt_fs st) (pdf_path E i)
           in PreviewDetails \<lparr>pi_file = i, pi_can = CanPreview E (f_mime f), pi_type = (if ready then ''pdf'' else []),
                pi_status = (if ready then ''ready'' else if CanPreview E (f_mime f) then ''pending'' else ''unsupported''),
                pi_supported = SupportedFormats, pi_enabled = pv_enabled E\<rparr>))"

text \<open>The original file: a chunk that cannot be read ends the body, a failed write does not.\<close>

fun stream_quietly :: "'b backend \<Rightarrow> (nat \<Rightarrow> nat option) \<Rightarrow> nat \<Rightarrow> string list \<Rightarrow> byte list \<times> 'b \<Rightarrow> byte list \<times> 'b" where
  "stream_quietly B writes i [] (out, b) = (out, b)"
| "stream_quietly B writes i (h # hs) (out, b) =
     (case be_get B h b of
        (Inl e, b') \<Rightarrow> (out, b')
      | (Inr w, b') \<Rightarrow> stream_quietly B writes (Suc i) hs (out @ (case writes i of None \<Rightarrow> w | Some k \<Rightarrow> take k w), b'))"

definition preview_streamFile :: "'b backend \<Rightarrow> preview_env \<Rightarrow> string \<Rightarrow> 'b media_state \<Rightarrow> preview_answer \<times> 'b media_state" where
  "preview_streamFile B E fileID st =
     (case GetFile fileID (mt_db st) of
        Inl e \<Rightarrow> (PreviewError 404 ''File not found'', st)
      | Inr f \<Rightarrow>
          if f_manifest f = None \<or> f_manifest f = Some [] then (PreviewError 404 ''File has no content'', st)
          else (case GetManifest (the (f_manifest f)) (mt_db st) of
                  Inl e \<Rightarrow> (PreviewError 500 ''Failed to get manifest'', st)
                | Inr m \<Rightarrow>
                    (case stream_quietly B (me_writes (pv_media E)) 0 (m_chunks m) ([], mt_store st) of
                       (out, b) \<Rightarrow> (PreviewBytes [(''Content-Type'', f_mime f), (''Content-Length'', dec_int (f_size f))] out, st\<lparr>mt_store := b\<rparr>))))"

definition pdf_headers :: headers where
  "pdf_headers = [(''Content-Type'', ''application/pdf''), (''Cache-Control'', ''public, max-age=3600'')]"

definition handlePreviewPDF :: "'b backend \<Rightarrow> preview_env \<Rightarrow> string \<Rightarrow> 'b media_state \<Rightarrow> preview_answer \<times> 'b media_state" where
  "handlePreviewPDF B E fileID st =
     (case preview_file E fileID (mt_db st) of
        Inl a \<Rightarrow> (a, st)
      | Inr (i, f) \<Rightarrow>
          if f_mime f = ''application/pdf'' then preview_streamFile B E i st
          else (case GetPreview B E i st of
                  (Inr r, st1) \<Rightarrow> (PreviewFile pdf_headers (pr_path r), st1)
                | (Inl e1, st1) \<Rightarrow>
                    (case GeneratePreview B E i st1 of
                       (Inl e, st2) \<Rightarrow> (PreviewError 404 (''Preview not available: '' @ e), st2)
                     | (Inr r, st2) \<Rightarrow> (PreviewFile pdf_headers (pr_path r), st2))))"

definition handlePreviewHTML :: "'b backend \<Rightarrow> preview_env \<Rightarrow> string \<Rightarrow> 'b media_state \<Rightarrow> preview_answer \<times> 'b media_state" where
  "handlePreviewHTML B E fileID st =
     (case preview_file E fileID (mt_db st) of
        Inl a \<Rightarrow> (a, st)
      | Inr (i, f) \<Rightarrow>
          (case GenerateHTML B E i st of
             (Inl e, st1) \<Rightarrow> (PreviewError 404 ''HTML preview not available'', st1)
           | (Inr p, st1) \<Rightarrow> (PreviewFile [(''Content-Type'', ''text/html; charset=utf-8''), (''Cache-Control'', ''public, max-age=3600'')] p, st1)))"

text \<open>The generation runs in the background: the flag of the result.\<close>

definition handleGeneratePreview :: "preview_env \<Rightarrow> string \<Rightarrow> database \<Rightarrow> preview_answer \<times> bool" where
  "handleGeneratePreview E fileID d =
     (case preview_file E fileID d of
        Inl a \<Rightarrow> (a, False)
      | Inr (i, f) \<Rightarrow>
          if \<not> CanPreview E (f_mime f) then (PreviewError 400 ''File type not supported for preview'', False)
          else (Generating i, True))"

section \<open>generator.go\<close>

record thumb_size =
  tz_name :: string
  tz_width :: int
  tz_height :: int

definition AllSizes :: "thumb_size list" where
  "AllSizes = [\<lparr>tz_name = ''small'', tz_width = 64, tz_height = 64\<rparr>, \<lparr>tz_name = ''medium'', tz_width = 256, tz_height = 256\<rparr>,
     \<lparr>tz_name = ''large'', tz_width = 1024, tz_height = 1024\<rparr>]"

text \<open>Codecs: decoding with the name of the format, the dimensions of an image, scaling, and encoding:
  the bytes written and whether it succeeded.\<close>

record 'i thumb_env =
  th_dir :: string
  th_writable :: "string \<Rightarrow> bool"
  th_removable :: "string \<Rightarrow> bool"
  th_now :: int
  th_decode :: "byte list \<Rightarrow> ('i \<times> string) option"
  th_bounds :: "'i \<Rightarrow> int \<times> int"
  th_scale :: "int \<Rightarrow> int \<Rightarrow> 'i \<Rightarrow> 'i"
  th_encode :: "string \<Rightarrow> 'i \<Rightarrow> byte list \<times> bool"

definition thumbnailPath :: "'i thumb_env \<Rightarrow> string \<Rightarrow> string \<Rightarrow> string" where
  "thumbnailPath T fileID sz = filepath_Join [th_dir T, sz, fileID @ ''.png'']"

definition isSupportedImage :: "string \<Rightarrow> bool" where
  "isSupportedImage mimeType \<longleftrightarrow> mimeType \<in> set [''image/jpeg'', ''image/jpg'', ''image/png'', ''image/gif'', ''image/webp'']"

definition thumb_dims :: "int \<Rightarrow> int \<Rightarrow> int \<Rightarrow> int \<Rightarrow> int \<times> int" where
  "thumb_dims srcWidth srcHeight maxWidth maxHeight =
     (let (w, h) = (if srcWidth > maxWidth then (maxWidth, go_div (wrap64 (srcHeight * maxWidth)) srcWidth) else (srcWidth, srcHeight))
      in if h > maxHeight then (go_div (wrap64 (w * maxHeight)) h, maxHeight) else (w, h))"

definition resizeImage :: "'i thumb_env \<Rightarrow> 'i \<Rightarrow> int \<Rightarrow> int \<Rightarrow> 'i" where
  "resizeImage T src maxWidth maxHeight =
     (case th_bounds T src of (w, h) \<Rightarrow> (case thumb_dims w h maxWidth maxHeight of (w', h') \<Rightarrow> th_scale T w' h' src))"

text \<open>The file is created before it is encoded.\<close>

definition saveThumbnail :: "'i thumb_env \<Rightarrow> 'i \<Rightarrow> string \<Rightarrow> string \<Rightarrow> cache_fs \<Rightarrow> bool \<times> cache_fs" where
  "saveThumbnail T img path format fs =
     (if \<not> th_writable T path then (False, fs)
      else (case th_encode T (if format = ''jpeg'' \<or> format = ''jpg'' then ''jpeg'' else if format = ''gif'' then ''gif'' else ''png'') img of
              (w, ok) \<Rightarrow> (ok, al_put fs path (CacheFile w (th_now T)))))"

fun save_all :: "'i thumb_env \<Rightarrow> string \<Rightarrow> 'i \<Rightarrow> string \<Rightarrow> thumb_size list \<Rightarrow> cache_fs \<Rightarrow> string option \<times> cache_fs" where
  "save_all T fileID img format [] fs = (None, fs)"
| "save_all T fileID img format (s # ss) fs =
     (case saveThumbnail T (resizeImage T img (tz_width s) (tz_height s)) (thumbnailPath T fileID (tz_name s)) format fs of
        (False, fs') \<Rightarrow> (Some (''failed to save thumbnail '' @ tz_name s), fs')
      | (True, fs') \<Rightarrow> save_all T fileID img format ss fs')"

text \<open>\<open>busy\<close> are the files another goroutine generates thumbnails for.\<close>

definition Generate :: "'i thumb_env \<Rightarrow> string list \<Rightarrow> string \<Rightarrow> string \<Rightarrow> byte list \<Rightarrow> cache_fs \<Rightarrow> string option \<times> cache_fs" where
  "Generate T busy fileID mimeType w fs =
     (if fileID \<in> set busy then (Some ''thumbnail generation already in progress'', fs)
      else if \<not> isSupportedImage mimeType then (Some (''unsupported image type: '' @ mimeType), fs)
      else case th_decode T w of
             None \<Rightarrow> (Some ''failed to decode image'', fs)
           | Some (img, format) \<Rightarrow> save_all T fileID img format AllSizes fs)"

definition thumb_Get :: "'i thumb_env \<Rightarrow> string \<Rightarrow> string \<Rightarrow> cache_fs \<Rightarrow> string option" where
  "thumb_Get T fileID sz fs = (if cache_exists fs (thumbnailPath T fileID sz) then Some (thumbnailPath T fileID sz) else None)"

fun delete_sizes :: "'i thumb_env \<Rightarrow> string \<Rightarrow> thumb_size list \<Rightarrow> cache_fs \<Rightarrow> bool \<times> cache_fs" where
  "delete_sizes T fileID [] fs = (True, fs)"
| "delete_sizes T fileID (s # ss) fs =
     (let p = thumbnailPath T fileID (tz_name s)
      in if cache_exists fs p \<and> \<not> th_removable T p then (False, fs) else delete_sizes T fileID ss (al_del fs p))"

definition thumb_Delete :: "'i thumb_env \<Rightarrow> string \<Rightarrow> cache_fs \<Rightarrow> bool \<times> cache_fs" where
  "thumb_Delete T fileID fs = delete_sizes T fileID AllSizes fs"

text \<open>The background job reads the image under the id of the file.\<close>

definition thumb_Handler :: "'b backend \<Rightarrow> 'i thumb_env \<Rightarrow> string list \<Rightarrow> string \<Rightarrow> string \<Rightarrow> cache_fs \<times> 'b \<Rightarrow> string option \<times> cache_fs \<times> 'b" where
  "thumb_Handler B T busy fileID mimeType st =
     (if thumb_Get T fileID ''medium'' (fst st) \<noteq> None then (None, st)
      else case be_get B fileID (snd st) of
             (Inl e, b) \<Rightarrow> (Some ''failed to get file'', fst st, b)
           | (Inr w, b) \<Rightarrow>
               (case Generate T busy fileID mimeType w (fst st) of
                  (Some e, fs) \<Rightarrow> (Some ''failed to generate thumbnails'', fs, b) | (None, fs) \<Rightarrow> (None, fs, b)))"

section \<open>handlers_thumbnail.go\<close>

datatype thumb_answer = ThumbFile headers string | ThumbStatus string

definition own_file :: "string \<Rightarrow> string \<Rightarrow> database \<Rightarrow> (nat \<times> string) + file_row" where
  "own_file userID fileID d =
     (if userID = [] then Inl (401, ''Unauthorized'')
      else if fileID = [] then Inl (400, ''File ID required'')
      else case GetFile fileID d of
             Inl e \<Rightarrow> Inl (404, ''File not found'')
           | Inr f \<Rightarrow> if f_user f \<noteq> userID then Inl (403, ''Access denied'') else Inr f)"

fun gather_chunks :: "'b backend \<Rightarrow> string list \<Rightarrow> byte list \<times> 'b \<Rightarrow> byte list option \<times> 'b" where
  "gather_chunks B [] (w, b) = (Some w, b)"
| "gather_chunks B (h # hs) (w, b) =
     (case be_get B h b of (Inl e, b') \<Rightarrow> (None, b') | (Inr c, b') \<Rightarrow> gather_chunks B hs (w @ c, b'))"

definition generateThumbnail :: "'b backend \<Rightarrow> 'i thumb_env \<Rightarrow> string list \<Rightarrow> string \<Rightarrow> string \<Rightarrow> 'b media_state \<Rightarrow> bool \<times> 'b media_state" where
  "generateThumbnail B T busy fileID mimeType st =
     (case GetFile fileID (mt_db st) of
        Inl e \<Rightarrow> (False, st)
      | Inr f \<Rightarrow>
          (case content_manifest f (mt_db st) of
             Inl e \<Rightarrow> (False, st)
           | Inr m \<Rightarrow>
               if f_size f > 50 * 1024 * 1024 then (False, st)
               else (case gather_chunks B (m_chunks m) ([], mt_store st) of
                       (None, b) \<Rightarrow> (False, st\<lparr>mt_store := b\<rparr>)
                     | (Some w, b) \<Rightarrow>
                         (case Generate T busy fileID mimeType w (mt_fs st) of
                            (e, fs) \<Rightarrow> (e = None, st\<lparr>mt_store := b, mt_fs := fs\<rparr>)))))"

definition thumb_headers :: headers where
  "thumb_headers = [(''Content-Type'', ''image/png''), (''Cache-Control'', ''public, max-age=86400'')]"

definition handleThumbnail :: "'b backend \<Rightarrow> 'i thumb_env \<Rightarrow> string list \<Rightarrow> string \<Rightarrow> string \<Rightarrow> string \<Rightarrow> 'b media_state
    \<Rightarrow> thumb_answer answer \<times> 'b media_state" where
  "handleThumbnail B T busy userID fileID sz st =
     (case own_file userID fileID (mt_db st) of
        Inl (n, e) \<Rightarrow> (Refused n e, st)
      | Inr f \<Rightarrow>
          (let tsize = (if sz \<in> tz_name ` set AllSizes then sz else ''medium'')
           in case thumb_Get T fileID tsize (mt_fs st) of
                Some p \<Rightarrow> (Answered 200 (ThumbFile thumb_headers p), st)
              | None \<Rightarrow>
                  if \<not> isSupportedImage (f_mime f) then (Refused 400 ''File type not supported for thumbnails'', st)
                  else (case generateThumbnail B T busy fileID (f_mime f) st of
                          (False, st') \<Rightarrow> (Refused 500 ''Failed to generate thumbnail'', st')
                        | (True, st') \<Rightarrow>
                            (case thumb_Get T fileID tsize (mt_fs st') of
                               None \<Rightarrow> (Refused 404 ''Thumbnail not available'', st')
                             | Some p \<Rightarrow> (Answered 200 (ThumbFile thumb_headers p), st')))))"

definition handleGenerate :: "'b backend \<Rightarrow> 'i thumb_env \<Rightarrow> string list \<Rightarrow> string \<Rightarrow> string \<Rightarrow> 'b media_state \<Rightarrow> thumb_answer answer \<times> 'b media_state" where
  "handleGenerate B T busy userID fileID st =
     (case own_file userID fileID (mt_db st) of
        Inl (n, e) \<Rightarrow> (Refused n e, st)
      | Inr f \<Rightarrow>
          if \<not> isSupportedImage (f_mime f) then (Refused 400 ''File type not supported for thumbnails'', st)
          else (case generateThumbnail B T busy fileID (f_mime f) st of
                  (False, st') \<Rightarrow> (Refused 500 ''Failed to generate thumbnail'', st')
                | (True, st') \<Rightarrow> (Answered 200 (ThumbStatus ''generated''), st')))"

definition handleThumbnailDelete :: "'i thumb_env \<Rightarrow> string \<Rightarrow> string \<Rightarrow> 'b media_state \<Rightarrow> thumb_answer answer \<times> 'b media_state" where
  "handleThumbnailDelete T userID fileID st =
     (case own_file userID fileID (mt_db st) of
        Inl (n, e) \<Rightarrow> (Refused n e, st)
      | Inr f \<Rightarrow>
          (case thumb_Delete T fileID (mt_fs st) of
             (False, fs) \<Rightarrow> (Refused 500 ''Failed to delete thumbnails'', st\<lparr>mt_fs := fs\<rparr>)
           | (True, fs) \<Rightarrow> (Answered 200 (ThumbStatus ''deleted''), st\<lparr>mt_fs := fs\<rparr>)))"

section \<open>Lemmas\<close>

lemma scaled_side:
  assumes "0 \<le> a" "a < 2 ^ 31" "0 < k" "k < b" "b < 2 ^ 31"
  shows "go_div (wrap64 (a * k)) b = a * k div b" and "0 \<le> a * k div b" and "a * k div b \<le> a" and "a \<le> b \<Longrightarrow> a * k div b \<le> k"
proof -
  have "a * k < 2 ^ 31 * 2 ^ 31" using assms by (intro mult_strict_mono) auto
  then have "wrap64 (a * k) = a * k" using assms by (intro wrap64_id) (auto intro: order_trans [of _ 0])
  then show "go_div (wrap64 (a * k)) b = a * k div b" using assms by (cases "a = 0") (simp_all add: go_div_def sgn_mult abs_mult)
  show "0 \<le> a * k div b" using assms by (simp add: pos_imp_zdiv_nonneg_iff)
  have "a * k div b \<le> a * b div b" using assms by (intro zdiv_mono1 mult_left_mono) auto
  then show "a * k div b \<le> a" using assms by simp
  assume "a \<le> b"
  then have "a * k div b \<le> k * b div b" using assms by (intro zdiv_mono1) (auto simp: mult.commute [of a] intro: mult_left_mono)
  then show "a * k div b \<le> k" using assms by simp
qed

lemma unauthenticated_media: "me_context E = server_context ru \<Longrightarrow> GetUserID (me_context E) = []"
  by (simp add: GetUserID_def server_context_def)

text \<open>A thumbnail fits into its frame; an image that fits already keeps its size.\<close>

lemma thumb_dims_bounds:
  assumes "0 \<le> w" "w < 2 ^ 31" "0 \<le> h" "h < 2 ^ 31" "0 < mw" "0 < mh" and "thumb_dims w h mw mh = (w', h')"
  shows "0 \<le> w' \<and> w' \<le> mw \<and> 0 \<le> h' \<and> h' \<le> mh \<and> w' \<le> w \<and> h' \<le> h \<and> (w \<le> mw \<and> h \<le> mh \<longrightarrow> (w', h') = (w, h))"
proof -
  obtain w1 h1 where one: "(if w > mw then (mw, go_div (wrap64 (h * mw)) w) else (w, h)) = (w1, h1)" by fastforce
  have b1: "0 \<le> w1 \<and> w1 \<le> mw \<and> w1 \<le> w \<and> 0 \<le> h1 \<and> h1 \<le> h"
    using one assms(1-6) scaled_side(1-3) [of h mw w] by (auto split: if_split_asm)
  have two: "thumb_dims w h mw mh = (if h1 > mh then (go_div (wrap64 (w1 * mh)) h1, mh) else (w1, h1))"
    unfolding thumb_dims_def one by simp
  have "0 \<le> w' \<and> w' \<le> mw \<and> 0 \<le> h' \<and> h' \<le> mh \<and> w' \<le> w \<and> h' \<le> h"
  proof (cases "h1 > mh")
    case True
    have "go_div (wrap64 (w1 * mh)) h1 = w1 * mh div h1" "0 \<le> w1 * mh div h1" "w1 * mh div h1 \<le> w1"
      using scaled_side(1-3) [of w1 mh h1] True b1 assms by auto
    with True two assms(6,7) b1 show ?thesis by simp
  next
    case False
    with two assms(7) b1 show ?thesis by simp
  qed
  moreover have "w \<le> mw \<and> h \<le> mh \<longrightarrow> (w', h') = (w, h)" using assms(7) by (auto simp: thumb_dims_def)
  ultimately show ?thesis by blast
qed

text \<open>A side that is too short for the frame vanishes.\<close>

lemma thumb_dims_flat:
  assumes "0 \<le> h" "h < 2 ^ 31" "0 < mw" "mw < w" "w < 2 ^ 31" "h * mw < w" "0 < mh"
  shows "thumb_dims w h mw mh = (mw, 0)"
proof -
  have "go_div (wrap64 (h * mw)) w = 0" using scaled_side(1) [of h mw w] assms by simp
  then show ?thesis using assms by (simp add: thumb_dims_def)
qed

lemma save_all_stops:
  assumes "th_writable T (thumbnailPath T i (tz_name s))"
    and "th_encode T (if format = ''jpeg'' \<or> format = ''jpg'' then ''jpeg'' else if format = ''gif'' then ''gif'' else ''png'')
           (resizeImage T img (tz_width s) (tz_height s)) = (part, False)"
  shows "save_all T i img format (s # ss) fs
    = (Some (''failed to save thumbnail '' @ tz_name s), al_put fs (thumbnailPath T i (tz_name s)) (CacheFile part (th_now T)))"
  using assms by (simp add: saveThumbnail_def)

section \<open>Properties\<close>

text \<open>No request of the media and preview routes gets past the first check.  They look for the user
  under the string key of the context, where the authentication middleware uses a key of its own type:
  in whatever context the server makes, for an authenticated user too, each of them is answered with 401 and changes nothing.\<close>

theorem media_always_unauthorized:
  assumes "me_context M = server_context ru" and "pv_media V = M"
  shows "handleStreamInfo B M i st = (MediaError 401 ''Unauthorized'', st)
    \<and> handlePlaylist M i st = (MediaError 401 ''Unauthorized'', False)
    \<and> handleSegment M i s st = MediaError 401 ''Unauthorized''
    \<and> handleTranscodeStatus M i st = MediaError 401 ''Unauthorized''
    \<and> handlePreviewInfo V i st = PreviewError 401 ''Unauthorized''
    \<and> handlePreviewPDF B V i st = (PreviewError 401 ''Unauthorized'', st)
    \<and> handlePreviewHTML B V i st = (PreviewError 401 ''Unauthorized'', st)
    \<and> handleGeneratePreview V i d = (PreviewError 401 ''Unauthorized'', False)"
proof -
  have m: "media_file M i d = Inl (MediaError 401 ''Unauthorized'')" for i d
    by (simp add: media_file_def unauthenticated_media [OF assms(1)])
  then have "preview_file V i d = Inl (PreviewError 401 ''Unauthorized'')" for i d by (simp add: preview_file_def assms(2))
  then show ?thesis
    by (simp add: handleStreamInfo_def handlePlaylist_def handleSegment_def handleTranscodeStatus_def handlePreviewInfo_def
        handlePreviewPDF_def handlePreviewHTML_def handleGeneratePreview_def m unauthenticated_media [OF assms(1)])
qed

definition signed_in :: "media_env" where
  "signed_in = demo_media\<lparr>me_context := server_context \<lparr>ru_user = ''u'', ru_name = ''u'', ru_roles = [''admin''], ru_device = ''d''\<rparr>\<rparr>"

theorem media_always_unauthorized_witness:
  "handlePlaylist signed_in ''f'' demo_media_state = (MediaError 401 ''Unauthorized'', False) \<and> wd_db demo_dav_state = mt_db demo_media_state"
proof -
  let ?V = "\<lparr>pv_media = signed_in, pv_enabled = True, pv_convert = (\<lambda>_. None), pv_pdftotext = None\<rparr>"
  have "me_context signed_in = server_context \<lparr>ru_user = ''u'', ru_name = ''u'', ru_roles = [''admin''], ru_device = ''d''\<rparr>"
    by (simp add: signed_in_def)
  from media_always_unauthorized [OF this, of ?V "local_backend ''/data''" "''f''" demo_media_state] show ?thesis
    by (simp add: demo_media_state_def)
qed

text \<open>A thumbnail that could not be written is served from then on.  A flat image, whose height for the
  small frame rounds to nothing, is refused by the encoder after the file was created: the request
  is answered with 500, and the next one with 200 and the fragment that was written.\<close>

theorem failed_thumbnail_is_served:
  assumes "own_file u i (mt_db st) = Inr f" and "isSupportedImage (f_mime f)" and "f_size f \<le> 50 * 1024 * 1024"
    and "content_manifest f (mt_db st) = Inr m" and "gather_chunks B (m_chunks m) ([], mt_store st) = (Some w, b)"
    and "th_decode T w = Some (img, ''png'')" and "th_bounds T img = (x, y)" and "0 < y" "y * 64 < x" "x < 2 ^ 31"
    and "\<And>x. \<exists>part. th_encode T ''png'' (th_scale T x 0 img) = (part, False)"
    and "th_writable T (thumbnailPath T i ''small'')" and "\<not> cache_exists (mt_fs st) (thumbnailPath T i ''small'')"
  shows "\<exists>st' part. handleThumbnail B T [] u i ''small'' st = (Refused 500 ''Failed to generate thumbnail'', st')
    \<and> handleThumbnail B T [] u i ''small'' st' = (Answered 200 (ThumbFile thumb_headers (thumbnailPath T i ''small'')), st')
    \<and> al_get (mt_fs st') (thumbnailPath T i ''small'') = Some (CacheFile part (th_now T))"
proof -
  let ?p = "thumbnailPath T i ''small''"
  obtain part where part: "th_encode T ''png'' (th_scale T 64 0 img) = (part, False)" using assms(11) by blast
  have "thumb_dims x y 64 64 = (64, 0)" using assms(8-10) by (intro thumb_dims_flat) auto
  then have "resizeImage T img 64 64 = th_scale T 64 0 img" by (simp add: resizeImage_def assms(7))
  then have "save_all T i img ''png'' AllSizes (mt_fs st) = (Some ''failed to save thumbnail small'', al_put (mt_fs st) ?p (CacheFile part (th_now T)))"
    using part assms(12) by (simp add: AllSizes_def saveThumbnail_def)
  then have gen: "Generate T [] i (f_mime f) w (mt_fs st) = (Some ''failed to save thumbnail small'', al_put (mt_fs st) ?p (CacheFile part (th_now T)))"
    by (simp add: Generate_def assms(2,6))
  let ?st = "st\<lparr>mt_store := b, mt_fs := al_put (mt_fs st) ?p (CacheFile part (th_now T))\<rparr>"
  have fileI: "GetFile i (mt_db st) = Inr f" using assms(1) by (auto simp: own_file_def split: if_split_asm sum.split_asm)
  have made: "generateThumbnail B T [] i (f_mime f) st = (False, ?st)"
    using assms(3) by (simp add: generateThumbnail_def fileI assms(4,5) gen)
  have size: "''small'' \<in> tz_name ` set AllSizes" by (simp add: AllSizes_def)
  have "handleThumbnail B T [] u i ''small'' st = (Refused 500 ''Failed to generate thumbnail'', ?st)"
    using assms(13) by (simp add: handleThumbnail_def assms(1,2) size thumb_Get_def made)
  moreover have "handleThumbnail B T [] u i ''small'' ?st = (Answered 200 (ThumbFile thumb_headers ?p), ?st)"
    by (simp add: handleThumbnail_def Let_def assms(1) size thumb_Get_def cache_exists_def al_simps)
  moreover have "al_get (mt_fs ?st) ?p = Some (CacheFile part (th_now T))" by (simp add: al_simps)
  ultimately show ?thesis by blast
qed

text \<open>An image is its width and height; its encoding is refused when a side is empty.\<close>

definition demo_thumb :: "(int \<times> int) thumb_env" where
  "demo_thumb = \<lparr>th_dir = ''data/thumbnails'', th_writable = (\<lambda>_. True), th_removable = (\<lambda>_. True), th_now = 0,
     th_decode = (\<lambda>_. Some ((4096, 8), ''png'')), th_bounds = id, th_scale = (\<lambda>x y _. (x, y)), th_encode = (\<lambda>_ (x, y). ([], x > 0 \<and> y > 0))\<rparr>"

definition demo_thumb_state :: "local_fs media_state" where
  "demo_thumb_state = \<lparr>mt_db = (wd_db demo_dav_state)\<lparr>files := [(sample_file ''f'' None ''a'')\<lparr>f_mime := ''image/png'', f_manifest := Some ''m''\<rparr>]\<rparr>,
     mt_store = \<lparr>lf_files = [], lf_faults = []\<rparr>, mt_fs = []\<rparr>"

theorem failed_thumbnail_is_served_witness:
  "\<exists>st' part. handleThumbnail (local_backend ''/data'') demo_thumb [] ''u'' ''f'' ''small'' demo_thumb_state = (Refused 500 ''Failed to generate thumbnail'', st')
    \<and> handleThumbnail (local_backend ''/data'') demo_thumb [] ''u'' ''f'' ''small'' st'
        = (Answered 200 (ThumbFile thumb_headers (thumbnailPath demo_thumb ''f'' ''small'')), st')
    \<and> al_get (mt_fs st') (thumbnailPath demo_thumb ''f'' ''small'') = Some (CacheFile part (th_now demo_thumb))"
  by (rule failed_thumbnail_is_served [where x = 4096 and y = 8 and img = "(4096, 8)" and w = "[]" and b = "mt_store demo_thumb_state"
        and f = "(sample_file ''f'' None ''a'')\<lparr>f_mime := ''image/png'', f_manifest := Some ''m''\<rparr>" and m = "hd (manifests (wd_db demo_dav_state))"])
    (simp_all add: demo_thumb_state_def demo_thumb_def demo_dav_state_def own_file_def GetFile_def GetFileByID_def sample_file_def
      isSupportedImage_def content_manifest_def GetManifest_def cache_exists_def)

end
