(* ===== verification/Federation.thy ===== *)
theory Federation
  imports Accounts_Api
begin

text \<open>
  Servers that know each other (\<^verbatim>\<open>src/internal/federation/types.go\<close>, \<^verbatim>\<open>manager.go\<close>,
  \<^verbatim>\<open>src/internal/db/federation.go\<close>, \<^verbatim>\<open>src/internal/server/handlers_federation.go\<close>): the three tables, the
  manager with its map of peers, and every request handler.  Ed25519 is a parameter, and so is what the
  database driver makes of a time that it reads back from a text column; other servers are functions
  from a request to its answer.
\<close>

section \<open>types.go\<close>

record fed_config =
  fc_enabled :: bool
  fc_server :: string
  fc_url :: string
  fc_private :: string
  fc_public :: string
  fc_trusted :: "string list"
  fc_auto :: bool

record fed_message =
  fg_id :: string
  fg_from :: string
  fg_to :: string
  fg_type :: string
  fg_payload :: "byte list"
  fg_signature :: "byte list"
  fg_time :: int

record announcement =
  an_server :: string
  an_name :: string
  an_url :: string
  an_key :: string
  an_caps :: "string list"
  an_signature :: string
  an_time :: int

text \<open>
  The environment of a call: the clock, \<open>fx_scan\<close> for a stored time that is read back, \<open>fx_rank\<close> for
  the order of the stored texts, and signing and verification with the raw keys.
\<close>

record fed_env =
  fx_now :: int
  fx_scan :: "int \<Rightarrow> int option"
  fx_rank :: "int \<Rightarrow> int"
  fx_sign :: "byte list \<Rightarrow> byte list \<Rightarrow> byte list"
  fx_verify :: "byte list \<Rightarrow> byte list \<Rightarrow> byte list \<Rightarrow> bool"

definition std_alphabet :: string where
  "std_alphabet = ''ABCDEFGHIJKLMNOPQRSTUVWXYZabcdefghijklmnopqrstuvwxyz0123456789+/''"

definition padded_encode :: "string \<Rightarrow> byte list \<Rightarrow> string" where
  "padded_encode alphabet w =
     (let s = raw_encode alphabet w in s @ replicate ((4 - length s mod 4) mod 4) CHR ''='')"

definition GenerateKeyPair :: "(byte list \<times> byte list) option \<Rightarrow> (string \<times> string) result" where
  "GenerateKeyPair keys =
     (case keys of
        None \<Rightarrow> Inl ''failed to generate key pair''
      | Some (pub, priv) \<Rightarrow> Inr (padded_encode std_alphabet pub, padded_encode std_alphabet priv))"

definition SignMessage :: "fed_env \<Rightarrow> string \<Rightarrow> byte list \<Rightarrow> byte list result" where
  "SignMessage F privateKeyBase64 message =
     (case padded_decode std_alphabet privateKeyBase64 of
        None \<Rightarrow> Inl ''failed to decode private key''
      | Some key \<Rightarrow> if length key \<noteq> 64 then Inl ''invalid private key size'' else Inr (fx_sign F key message))"

text \<open>The error, if the signature is not one of the key's owner.\<close>

definition VerifyMessage :: "fed_env \<Rightarrow> string \<Rightarrow> byte list \<Rightarrow> byte list \<Rightarrow> string option" where
  "VerifyMessage F publicKeyBase64 message signature =
     (case padded_decode std_alphabet publicKeyBase64 of
        None \<Rightarrow> Some ''failed to decode public key''
      | Some key \<Rightarrow> if length key \<noteq> 32 then Some ''invalid public key size''
                    else if \<not> fx_verify F key message signature then Some ''invalid signature'' else None)"

definition DefaultCapabilities :: "string list" where
  "DefaultCapabilities = [''file_share'', ''user_sync'', ''health_check'', ''peer_discovery'']"

definition joined_caps :: "string list \<Rightarrow> string" where
  "joined_caps cs = join_with '','' cs"

section \<open>db/federation.go\<close>

record fed_peer =
  fp_id :: string
  fp_name :: string
  fp_url :: string
  fp_key :: string
  fp_status :: string
  fp_seen :: int
  fp_created :: int
  fp_caps :: string

record fed_invite =
  fi_id :: string
  fi_from :: string
  fi_token :: string
  fi_expires :: int
  fi_used :: bool
  fi_created :: int

record fed_share =
  fs_id :: string
  fs_file :: string
  fs_peer :: string
  fs_user :: string
  fs_permission :: string
  fs_token :: string
  fs_expires :: "int option"
  fs_created :: int

record fed_tables =
  fd_peers :: "fed_peer list"
  fd_invites :: "fed_invite list"
  fd_shares :: "fed_share list"

text \<open>The id is the primary key and the URL is unique; a conflict on the id keeps the time of creation.\<close>

definition AddFederationPeer :: "fed_peer \<Rightarrow> fed_tables \<Rightarrow> fed_tables result" where
  "AddFederationPeer p d =
     (if \<exists>q \<in> set (fd_peers d). fp_id q \<noteq> fp_id p \<and> fp_url q = fp_url p
      then Inl ''UNIQUE constraint failed: federation_peers.public_url''
      else if \<exists>q \<in> set (fd_peers d). fp_id q = fp_id p
      then Inr (d\<lparr>fd_peers := map (\<lambda>q. if fp_id q = fp_id p then p\<lparr>fp_created := fp_created q\<rparr> else q) (fd_peers d)\<rparr>)
      else Inr (d\<lparr>fd_peers := fd_peers d @ [p]\<rparr>))"

definition scan_peer :: "fed_env \<Rightarrow> fed_peer \<Rightarrow> fed_peer option" where
  "scan_peer F p =
     (case (fx_scan F (fp_seen p), fx_scan F (fp_created p)) of
        (Some s, Some c) \<Rightarrow> Some (p\<lparr>fp_seen := s, fp_created := c\<rparr>) | _ \<Rightarrow> None)"

fun scan_peers :: "fed_env \<Rightarrow> fed_peer list \<Rightarrow> fed_peer list option" where
  "scan_peers F [] = Some []"
| "scan_peers F (p # ps) =
     (case scan_peer F p of None \<Rightarrow> None | Some q \<Rightarrow> map_option ((#) q) (scan_peers F ps))"

definition GetFederationPeers :: "fed_env \<Rightarrow> fed_tables \<Rightarrow> fed_peer list result" where
  "GetFederationPeers F d =
     (case scan_peers F (sort_key (\<lambda>p. - fx_rank F (fp_created p)) (filter (\<lambda>p. fp_status p \<noteq> ''blocked'') (fd_peers d))) of
        None \<Rightarrow> Inl ''Scan error'' | Some ps \<Rightarrow> Inr ps)"

definition GetFederationPeer :: "fed_env \<Rightarrow> string \<Rightarrow> fed_tables \<Rightarrow> fed_peer result" where
  "GetFederationPeer F i d =
     (case find_row (\<lambda>p. fp_id p = i) (fd_peers d) of
        None \<Rightarrow> Inl ''sql: no rows in result set''
      | Some p \<Rightarrow> (case scan_peer F p of None \<Rightarrow> Inl ''Scan error'' | Some q \<Rightarrow> Inr q))"

definition RemoveFederationPeer :: "string \<Rightarrow> fed_tables \<Rightarrow> fed_tables" where
  "RemoveFederationPeer i d = d\<lparr>fd_peers := filter (\<lambda>p. fp_id p \<noteq> i) (fd_peers d)\<rparr>"

definition UpdateFederationPeerStatus :: "int \<Rightarrow> string \<Rightarrow> string \<Rightarrow> fed_tables \<Rightarrow> fed_tables" where
  "UpdateFederationPeerStatus now i st d =
     d\<lparr>fd_peers := map (\<lambda>p. if fp_id p = i then p\<lparr>fp_status := st, fp_seen := now\<rparr> else p) (fd_peers d)\<rparr>"

definition CreateFederationInvite :: "fed_invite \<Rightarrow> fed_tables \<Rightarrow> fed_tables result" where
  "CreateFederationInvite v d =
     (if \<exists>w \<in> set (fd_invites d). fi_id w = fi_id v then Inl ''UNIQUE constraint failed: federation_invites.id''
      else if \<exists>w \<in> set (fd_invites d). fi_token w = fi_token v then Inl ''UNIQUE constraint failed: federation_invites.token''
      else Inr (d\<lparr>fd_invites := fd_invites d @ [v]\<rparr>))"

definition GetFederationInvite :: "fed_env \<Rightarrow> string \<Rightarrow> fed_tables \<Rightarrow> fed_invite result" where
  "GetFederationInvite F token d =
     (case find_row (\<lambda>v. fi_token v = token) (fd_invites d) of
        None \<Rightarrow> Inl ''sql: no rows in result set''
      | Some v \<Rightarrow>
          (case (fx_scan F (fi_expires v), fx_scan F (fi_created v)) of
             (Some e, Some c) \<Rightarrow> Inr (v\<lparr>fi_expires := e, fi_created := c\<rparr>) | _ \<Rightarrow> Inl ''Scan error''))"

definition UseFederationInvite :: "string \<Rightarrow> fed_tables \<Rightarrow> fed_tables" where
  "UseFederationInvite i d =
     d\<lparr>fd_invites := map (\<lambda>v. if fi_id v = i then v\<lparr>fi_used := True\<rparr> else v) (fd_invites d)\<rparr>"

text \<open>The local file must exist.\<close>

definition AddFederatedShare :: "(string \<Rightarrow> bool) \<Rightarrow> fed_share \<Rightarrow> fed_tables \<Rightarrow> fed_tables result" where
  "AddFederatedShare file_exists s d =
     (if \<exists>t \<in> set (fd_shares d). fs_id t = fs_id s then Inl ''UNIQUE constraint failed: federated_shares.id''
      else if \<exists>t \<in> set (fd_shares d). fs_token t = fs_token s then Inl ''UNIQUE constraint failed: federated_shares.token''
      else if \<not> file_exists (fs_file s) then Inl ''FOREIGN KEY constraint failed''
      else Inr (d\<lparr>fd_shares := fd_shares d @ [s]\<rparr>))"

definition GetFederatedShare :: "fed_env \<Rightarrow> string \<Rightarrow> fed_tables \<Rightarrow> fed_share result" where
  "GetFederatedShare F token d =
     (case find_row (\<lambda>s. fs_token s = token
          \<and> (case fs_expires s of None \<Rightarrow> True | Some e \<Rightarrow> fx_rank F e > fx_rank F (fx_now F))) (fd_shares d) of
        None \<Rightarrow> Inl ''sql: no rows in result set''
      | Some s \<Rightarrow>
          (case (Option.bind (fs_expires s) (fx_scan F), fx_scan F (fs_created s)) of
             (Some e, Some c) \<Rightarrow> Inr (s\<lparr>fs_expires := Some e, fs_created := c\<rparr>) | _ \<Rightarrow> Inl ''Scan error''))"

section \<open>manager.go\<close>

record fed_manager =
  fm_config :: fed_config
  fm_db :: fed_tables
  fm_peers :: "(string \<times> fed_peer) list"
  fm_stopped :: bool

text \<open>\<open>rnd\<close> are the sixteen random bytes of an id, \<open>keys\<close> a new pair of keys.\<close>

definition random_id :: "byte list \<Rightarrow> string" where
  "random_id rnd = padded_encode url_alphabet rnd"

definition NewManager :: "byte list \<Rightarrow> (byte list \<times> byte list) option \<Rightarrow> fed_config \<Rightarrow> fed_tables \<Rightarrow> fed_manager result" where
  "NewManager rnd keys cfg d =
     (let c1 = (if fc_server cfg = [] then cfg\<lparr>fc_server := random_id rnd\<rparr> else cfg);
          manager = (\<lambda>c. Inr \<lparr>fm_config = c, fm_db = d, fm_peers = [], fm_stopped = False\<rparr>)
      in if fc_private c1 = [] \<or> fc_public c1 = []
         then (case GenerateKeyPair keys of
                 Inl e \<Rightarrow> Inl ''failed to generate federation keys''
               | Inr (pub, priv) \<Rightarrow> manager (c1\<lparr>fc_public := pub, fc_private := priv\<rparr>))
         else manager c1)"

definition loadPeers :: "fed_env \<Rightarrow> fed_manager \<Rightarrow> string option \<times> fed_manager" where
  "loadPeers F M =
     (case GetFederationPeers F (fm_db M) of
        Inl e \<Rightarrow> (Some e, M)
      | Inr ps \<Rightarrow> (None, M\<lparr>fm_peers := fold (\<lambda>p m. al_put m (fp_id p) p) ps (fm_peers M)\<rparr>))"

text \<open>\<open>post url x\<close> is the status another server answers with, \<open>None\<close> when it is not reached.\<close>

definition sendHTTPRequest :: "(string \<Rightarrow> 'a \<Rightarrow> nat option) \<Rightarrow> string \<Rightarrow> 'a \<Rightarrow> string option" where
  "sendHTTPRequest post url payload =
     (case post url payload of
        None \<Rightarrow> Some ''request failed''
      | Some n \<Rightarrow> if n \<ge> 400 then Some (''peer returned error: '' @ dec_nat n) else None)"

definition own_announcement :: "fed_config \<Rightarrow> announcement" where
  "own_announcement c = \<lparr>an_server = fc_server c, an_name = fc_server c, an_url = fc_url c, an_key = fc_public c,
     an_caps = DefaultCapabilities, an_signature = [], an_time = 0\<rparr>"

definition discoverPeer :: "(string \<Rightarrow> announcement \<Rightarrow> nat option) \<Rightarrow> string \<Rightarrow> fed_manager \<Rightarrow> string option" where
  "discoverPeer post peerURL M =
     sendHTTPRequest post (peerURL @ ''/federation/v1/discover'') (own_announcement (fm_config M))"

text \<open>The start loads the peers and announces the server; the result are the outcomes of the announcements.\<close>

definition fed_Start :: "fed_env \<Rightarrow> (string \<Rightarrow> announcement \<Rightarrow> nat option) \<Rightarrow> fed_manager \<Rightarrow> string option list \<times> fed_manager" where
  "fed_Start F post M =
     (if \<not> fc_enabled (fm_config M) then ([], M)
      else (let M1 = snd (loadPeers F M) in (map (\<lambda>u. discoverPeer post u M1) (fc_trusted (fm_config M1)), M1)))"

definition fed_Stop :: "fed_manager \<Rightarrow> fed_manager outcome" where
  "fed_Stop M = (if fm_stopped M then Panics else Returns (M\<lparr>fm_stopped := True\<rparr>))"

definition GetPeer :: "string \<Rightarrow> fed_manager \<Rightarrow> fed_peer result" where
  "GetPeer peerID M = (case al_get (fm_peers M) peerID of None \<Rightarrow> Inl (''peer not found: '' @ peerID) | Some p \<Rightarrow> Inr p)"

definition GetPeers :: "fed_manager \<Rightarrow> fed_peer list" where
  "GetPeers M = map snd (fm_peers M)"

text \<open>The peer as it is stored, or the error.\<close>

definition stamped :: "int \<Rightarrow> fed_peer \<Rightarrow> fed_peer" where
  "stamped now p =
     (let q = p\<lparr>fp_seen := now, fp_created := now\<rparr>
      in if fp_caps q = [] then q\<lparr>fp_caps := joined_caps DefaultCapabilities\<rparr> else q)"

definition AddPeer :: "fed_env \<Rightarrow> fed_peer \<Rightarrow> fed_manager \<Rightarrow> fed_peer result \<times> fed_manager" where
  "AddPeer F peer M =
     (if fp_id peer = fc_server (fm_config M) then (Inl ''cannot add self as peer'', M)
      else (let p = stamped (fx_now F) peer
            in case AddFederationPeer p (fm_db M) of
                 Inl e \<Rightarrow> (Inl (''failed to save peer: '' @ e), M)
               | Inr d \<Rightarrow> (Inr p, M\<lparr>fm_db := d, fm_peers := al_put (fm_peers M) (fp_id p) p\<rparr>)))"

definition RemovePeer :: "string \<Rightarrow> fed_manager \<Rightarrow> fed_manager" where
  "RemovePeer peerID M = M\<lparr>fm_db := RemoveFederationPeer peerID (fm_db M), fm_peers := al_del (fm_peers M) peerID\<rparr>"

definition CreateInvite :: "fed_env \<Rightarrow> byte list \<Rightarrow> byte list \<Rightarrow> int \<Rightarrow> fed_manager \<Rightarrow> fed_invite result \<times> fed_manager" where
  "CreateInvite F rnd secret expiresIn M =
     (let v = \<lparr>fi_id = random_id rnd, fi_from = fc_server (fm_config M), fi_token = padded_encode url_alphabet secret,
               fi_expires = fx_now F + expiresIn, fi_used = False, fi_created = fx_now F\<rparr>
      in case CreateFederationInvite v (fm_db M) of Inl e \<Rightarrow> (Inl e, M) | Inr d \<Rightarrow> (Inr v, M\<lparr>fm_db := d\<rparr>))"

definition VerifyInvite :: "fed_env \<Rightarrow> string \<Rightarrow> fed_manager \<Rightarrow> fed_invite result" where
  "VerifyInvite F token M =
     (case GetFederationInvite F token (fm_db M) of
        Inl e \<Rightarrow> Inl e
      | Inr v \<Rightarrow> if fi_used v then Inl ''invite already used''
                 else if fx_now F > fi_expires v then Inl ''invite expired'' else Inr v)"

definition peer_of :: "string \<Rightarrow> announcement \<Rightarrow> fed_peer" where
  "peer_of st a = \<lparr>fp_id = an_server a, fp_name = an_name a, fp_url = an_url a, fp_key = an_key a, fp_status = st,
     fp_seen = zero_time, fp_created = zero_time, fp_caps = joined_caps (an_caps a)\<rparr>"

text \<open>An invitation that was verified is used up before the peer is added.\<close>

definition admit :: "fed_env \<Rightarrow> fed_invite \<Rightarrow> announcement \<Rightarrow> fed_manager \<Rightarrow> fed_peer result \<times> fed_manager" where
  "admit F v info M = AddPeer F (peer_of ''active'' info) (M\<lparr>fm_db := UseFederationInvite (fi_id v) (fm_db M)\<rparr>)"

definition AcceptInvite :: "fed_env \<Rightarrow> string \<Rightarrow> announcement \<Rightarrow> fed_manager \<Rightarrow> fed_peer result \<times> fed_manager" where
  "AcceptInvite F token info M =
     (case VerifyInvite F token M of Inl e \<Rightarrow> (Inl e, M) | Inr v \<Rightarrow> admit F v info M)"

definition SendMessage :: "fed_env \<Rightarrow> (string \<Rightarrow> fed_message \<Rightarrow> nat option) \<Rightarrow> byte list \<Rightarrow> string \<Rightarrow> string \<Rightarrow> byte list option
    \<Rightarrow> fed_manager \<Rightarrow> string option" where
  "SendMessage F post rnd peerID msgType payload M =
     (case GetPeer peerID M of
        Inl e \<Rightarrow> Some e
      | Inr p \<Rightarrow>
          (case payload of
             None \<Rightarrow> Some ''failed to marshal payload''
           | Some w \<Rightarrow>
               (case SignMessage F (fc_private (fm_config M)) w of
                  Inl e \<Rightarrow> Some ''failed to sign message''
                | Inr sig \<Rightarrow>
                    sendHTTPRequest post (fp_url p @ ''/federation/v1/message'')
                      \<lparr>fg_id = random_id rnd, fg_from = fc_server (fm_config M), fg_to = peerID, fg_type = msgType,
                       fg_payload = w, fg_signature = sig, fg_time = fx_now F\<rparr>)))"

definition VerifyIncomingMessage :: "fed_env \<Rightarrow> fed_message \<Rightarrow> fed_manager \<Rightarrow> string option" where
  "VerifyIncomingMessage F msg M =
     (case GetPeer (fg_from msg) M of
        Inl e \<Rightarrow> Some ''unknown peer''
      | Inr p \<Rightarrow> if fp_status p \<noteq> ''active'' then Some ''peer is not active''
                 else VerifyMessage F (fp_key p) (fg_payload msg) (fg_signature msg))"

definition set_peer :: "string \<Rightarrow> (fed_peer \<Rightarrow> fed_peer) \<Rightarrow> fed_manager \<Rightarrow> fed_manager" where
  "set_peer peerID g M =
     (case al_get (fm_peers M) peerID of None \<Rightarrow> M | Some p \<Rightarrow> M\<lparr>fm_peers := al_put (fm_peers M) peerID (g p)\<rparr>)"

definition updatePeerStatus :: "int \<Rightarrow> string \<Rightarrow> string \<Rightarrow> fed_manager \<Rightarrow> fed_manager" where
  "updatePeerStatus now peerID st M =
     (let M1 = set_peer peerID (\<lambda>p. p\<lparr>fp_status := st\<rparr>) M
      in M1\<lparr>fm_db := UpdateFederationPeerStatus now peerID st (fm_db M1)\<rparr>)"

definition updatePeerLastSeen :: "int \<Rightarrow> string \<Rightarrow> fed_manager \<Rightarrow> fed_manager" where
  "updatePeerLastSeen now peerID M = set_peer peerID (\<lambda>p. p\<lparr>fp_seen := now\<rparr>) M"

text \<open>\<open>answer\<close> is the status of the peer's health endpoint, \<open>None\<close> when there is none.\<close>

definition checkPeerHealth :: "fed_env \<Rightarrow> nat option \<Rightarrow> fed_peer \<Rightarrow> fed_manager \<Rightarrow> fed_manager" where
  "checkPeerHealth F answer p M =
     (if answer = Some 200
      then updatePeerLastSeen (fx_now F) (fp_id p) (updatePeerStatus (fx_now F) (fp_id p) ''active'' M)
      else updatePeerStatus (fx_now F) (fp_id p) ''inactive'' M)"

text \<open>One goroutine for each peer; here they run one after the other.\<close>

definition checkPeersHealth :: "fed_env \<Rightarrow> (string \<Rightarrow> nat option) \<Rightarrow> fed_manager \<Rightarrow> fed_manager" where
  "checkPeersHealth F get M =
     fold (\<lambda>p. checkPeerHealth F (get (fp_url p @ ''/federation/v1/health'')) p) (GetPeers M) M"

definition add_listed :: "fed_env \<Rightarrow> announcement \<Rightarrow> fed_manager \<Rightarrow> fed_manager" where
  "add_listed F a M =
     (if an_server a = fc_server (fm_config M) then M
      else case GetPeer (an_server a) M of Inr p \<Rightarrow> M | Inl e \<Rightarrow> snd (AddPeer F (peer_of ''pending'' a) M))"

text \<open>\<open>answer\<close> is the status with the decoded list of peers.\<close>

definition requestPeerList :: "fed_env \<Rightarrow> (nat \<times> announcement list option) option \<Rightarrow> fed_manager \<Rightarrow> fed_manager" where
  "requestPeerList F answer M =
     (case answer of Some (n, Some as) \<Rightarrow> if n = 200 then fold (add_listed F) as M else M | _ \<Rightarrow> M)"

definition discoverViaPeers :: "fed_env \<Rightarrow> (string \<Rightarrow> (nat \<times> announcement list option) option) \<Rightarrow> fed_manager \<Rightarrow> fed_manager" where
  "discoverViaPeers F get M =
     fold (\<lambda>p. requestPeerList F (get (fp_url p @ ''/federation/v1/peers'')))
       (filter (\<lambda>p. fp_status p = ''active'') (GetPeers M)) M"

section \<open>handlers_federation.go\<close>

datatype fed_answer = FedOff | FedOn string string string "string list" bool | PeerList "fed_peer list" | PeerAdded fed_peer
  | FedStatus string | InviteMade string int string string | FedHealth string bool | Announced announcement

definition fed_enabled :: "(fed_manager \<Rightarrow> fed_answer answer \<times> fed_manager) \<Rightarrow> fed_manager \<Rightarrow> fed_answer answer \<times> fed_manager" where
  "fed_enabled h M = (if \<not> fc_enabled (fm_config M) then (Refused 503 ''Federation not enabled'', M) else h M)"

definition server_error :: "'a answer" where
  "server_error = Refused 500 ''Internal Server Error''"

definition handleGetConfig :: "request_user \<Rightarrow> fed_manager \<Rightarrow> fed_answer answer \<times> fed_manager" where
  "handleGetConfig = requireAdmin (\<lambda>M.
     let c = fm_config M
     in (Answered 200 (if \<not> fc_enabled c then FedOff else FedOn (fc_server c) (fc_url c) (fc_public c) (fc_trusted c) (fc_auto c)), M))"

definition handleListPeers :: "request_user \<Rightarrow> fed_manager \<Rightarrow> fed_answer answer \<times> fed_manager" where
  "handleListPeers = requireAdmin (fed_enabled (\<lambda>M. (Answered 200 (PeerList (GetPeers M)), M)))"

text \<open>A body that cannot be decoded is \<open>None\<close>; of an announcement only the fields of the request count.\<close>

definition handleAddPeer :: "fed_env \<Rightarrow> announcement option \<Rightarrow> request_user \<Rightarrow> fed_manager \<Rightarrow> fed_answer answer \<times> fed_manager" where
  "handleAddPeer F req = requireAdmin (fed_enabled (\<lambda>M.
     case req of
       None \<Rightarrow> (Refused 400 ''Invalid request'', M)
     | Some a \<Rightarrow>
         if an_server a = [] \<or> an_url a = [] \<or> an_key a = [] then (Refused 400 ''Missing required fields'', M)
         else (case AddPeer F (peer_of ''active'' a) M of
                 (Inl e, M') \<Rightarrow> (server_error, M') | (Inr p, M') \<Rightarrow> (Answered 201 (PeerAdded p), M'))))"

definition handleRemovePeer :: "string \<Rightarrow> request_user \<Rightarrow> fed_manager \<Rightarrow> fed_answer answer \<times> fed_manager" where
  "handleRemovePeer peerID = requireAdmin (fed_enabled (\<lambda>M.
     if peerID = [] then (Refused 400 ''Peer ID required'', M)
     else (Answered 200 (FedStatus ''removed''), RemovePeer peerID M)))"

definition invite_hours :: "int option \<Rightarrow> int" where
  "invite_hours req = (let h = (case req of None \<Rightarrow> 24 | Some h \<Rightarrow> h); h1 = (if h < 1 then 1 else h) in if h1 > 168 then 168 else h1)"

definition hour :: int where
  "hour = 3600 * 10 ^ 9"

definition handleCreateInvite :: "fed_env \<Rightarrow> byte list \<Rightarrow> byte list \<Rightarrow> int option \<Rightarrow> request_user \<Rightarrow> fed_manager
    \<Rightarrow> fed_answer answer \<times> fed_manager" where
  "handleCreateInvite F rnd secret req = requireAdmin (fed_enabled (\<lambda>M.
     case CreateInvite F rnd secret (invite_hours req * hour) M of
       (Inl e, M') \<Rightarrow> (server_error, M')
     | (Inr v, M') \<Rightarrow> (Answered 201 (InviteMade (fi_token v) (fi_expires v) (fc_server (fm_config M)) (fc_url (fm_config M))), M')))"

definition fed_handleHealth :: "fed_manager \<Rightarrow> fed_answer answer" where
  "fed_handleHealth M = Answered 200 (FedHealth (fc_server (fm_config M)) (fc_enabled (fm_config M)))"

definition signed_part :: "announcement \<Rightarrow> byte list" where
  "signed_part a = string_bytes (an_server a @ '':'' @ an_url a @ '':'' @ dec_int (an_time a))"

definition maxSkew :: int where
  "maxSkew = 300"

text \<open>The checks on an announcement, in their order; the answer that refuses it.\<close>

definition discover_refused :: "fed_env \<Rightarrow> announcement \<Rightarrow> fed_config \<Rightarrow> fed_answer answer option" where
  "discover_refused F a c =
     (let now = unix_seconds (fx_now F)
      in if an_server a = [] \<or> an_url a = [] \<or> an_key a = [] then Some (Refused 400 ''Missing required fields'')
         else if an_signature a = [] \<or> an_time a = 0 then Some (Refused 400 ''Missing signature or timestamp'')
         else if an_time a > now + maxSkew \<or> an_time a < now - maxSkew then Some (Refused 400 ''Stale or future timestamp'')
         else case padded_decode std_alphabet (an_signature a) of
                None \<Rightarrow> Some (Refused 400 ''Invalid signature encoding'')
              | Some sig \<Rightarrow>
                  if VerifyMessage F (an_key a) (signed_part a) sig \<noteq> None then Some (Refused 401 ''Invalid signature'')
                  else if an_server a = fc_server c then Some (Refused 400 ''Cannot add self'')
                  else if \<not> fc_auto c then Some (Refused 403 ''Auto-discovery not enabled'') else None)"

definition handleDiscover :: "fed_env \<Rightarrow> announcement option \<Rightarrow> fed_manager \<Rightarrow> fed_answer answer \<times> fed_manager" where
  "handleDiscover F req = fed_enabled (\<lambda>M.
     case req of
       None \<Rightarrow> (Refused 400 ''Invalid request'', M)
     | Some a \<Rightarrow>
         (case discover_refused F a (fm_config M) of
            Some r \<Rightarrow> (r, M)
          | None \<Rightarrow> (Answered 200 (Announced (own_announcement (fm_config M))), snd (AddPeer F (peer_of ''active'' a) M))))"

definition handleShareRequest :: "fed_answer answer" where
  "handleShareRequest = Answered 501 (FedStatus ''not_implemented'')"

definition fed_handleSyncRequest :: "fed_answer answer" where
  "fed_handleSyncRequest = Answered 501 (FedStatus ''not_implemented'')"

definition fed_handleMessage :: "fed_env \<Rightarrow> fed_message option \<Rightarrow> fed_manager \<Rightarrow> fed_answer answer \<times> fed_manager" where
  "fed_handleMessage F req = fed_enabled (\<lambda>M.
     case req of
       None \<Rightarrow> (Refused 400 ''Invalid request'', M)
     | Some msg \<Rightarrow>
         if VerifyIncomingMessage F msg M \<noteq> None then (Refused 401 ''Invalid signature'', M)
         else (if fg_type msg = ''share_request'' then handleShareRequest
               else if fg_type msg = ''sync_request'' then fed_handleSyncRequest
               else Answered 200 (FedStatus ''acknowledged''), M))"

definition handleJoin :: "fed_env \<Rightarrow> (string \<times> announcement) option \<Rightarrow> fed_manager \<Rightarrow> fed_answer answer \<times> fed_manager" where
  "handleJoin F req = fed_enabled (\<lambda>M.
     case req of
       None \<Rightarrow> (Refused 400 ''Invalid request'', M)
     | Some (token, info) \<Rightarrow>
         (case AcceptInvite F token info M of
            (Inl e, M') \<Rightarrow> (Refused 401 ''Unauthorized'', M') | (Inr p, M') \<Rightarrow> (Answered 200 (FedStatus ''joined''), M')))"

section \<open>Runs\<close>

text \<open>
  The requests and the background work of a manager, one after the other; each names its own
  environment, so that the clock and the driver may answer differently each time.
\<close>

datatype fed_event = CallAdd fed_env "announcement option" request_user | CallRemove string request_user
  | CallInvite fed_env "byte list" "byte list" "int option" request_user | CallDiscover fed_env "announcement option"
  | CallMessage fed_env "fed_message option" | CallJoin fed_env "(string \<times> announcement) option"
  | CallHealth fed_env "nat option" fed_peer | CallPeerList fed_env "(nat \<times> announcement list option) option"
  | CallStart fed_env "string \<Rightarrow> announcement \<Rightarrow> nat option"

fun fed_call :: "fed_event \<Rightarrow> fed_manager \<Rightarrow> fed_manager" where
  "fed_call (CallAdd F a ru) M = snd (handleAddPeer F a ru M)"
| "fed_call (CallRemove i ru) M = snd (handleRemovePeer i ru M)"
| "fed_call (CallInvite F r k h ru) M = snd (handleCreateInvite F r k h ru M)"
| "fed_call (CallDiscover F a) M = snd (handleDiscover F a M)"
| "fed_call (CallMessage F m) M = snd (fed_handleMessage F m M)"
| "fed_call (CallJoin F r) M = snd (handleJoin F r M)"
| "fed_call (CallHealth F n p) M = checkPeerHealth F n p M"
| "fed_call (CallPeerList F as) M = requestPeerList F as M"
| "fed_call (CallStart F post) M = snd (fed_Start F post M)"

definition fed_calls :: "fed_event list \<Rightarrow> fed_manager \<Rightarrow> fed_manager" where
  "fed_calls cs M = fold fed_call cs M"

section \<open>What the operations keep\<close>

lemma AddFederationPeer_keeps:
  "AddFederationPeer p d = Inr d' \<Longrightarrow> fd_invites d' = fd_invites d"
  by (auto simp: AddFederationPeer_def split: if_split_asm)

lemma AddFederationPeer_rows:
  "AddFederationPeer p d = Inr d' \<Longrightarrow> q \<in> set (fd_peers d') \<Longrightarrow> q \<in> set (fd_peers d) \<or> fp_url q = fp_url p"
  by (auto simp: AddFederationPeer_def split: if_split_asm)

lemma AddPeer_rows:
  assumes "q \<in> set (fd_peers (fm_db (snd (AddPeer F p M))))"
  shows "q \<in> set (fd_peers (fm_db M)) \<or> fp_url q = fp_url p"
proof -
  have "fp_url (stamped (fx_now F) p) = fp_url p" by (simp add: stamped_def Let_def)
  with assms show ?thesis
    using AddFederationPeer_rows [of "stamped (fx_now F) p" "fm_db M" _ q] by (auto simp: AddPeer_def Let_def split: sum.split_asm if_split_asm)
qed

lemma AddPeer_keeps [simp]:
  "fm_config (snd (AddPeer F p M)) = fm_config M" "fd_invites (fm_db (snd (AddPeer F p M))) = fd_invites (fm_db M)"
  by (auto simp: AddPeer_def Let_def dest: AddFederationPeer_keeps split: sum.split)

lemma AddPeer_added:
  assumes "fst (AddPeer F p M) = Inr q"
  shows "al_get (fm_peers (snd (AddPeer F p M))) (fp_id p) = Some q \<and> fp_key q = fp_key p \<and> fp_url q = fp_url p \<and> fp_status q = fp_status p
    \<and> fp_id p \<noteq> fc_server (fm_config M)"
proof -
  have st: "fp_id (stamped (fx_now F) p) = fp_id p" "fp_url (stamped (fx_now F) p) = fp_url p" "fp_key (stamped (fx_now F) p) = fp_key p"
    "fp_status (stamped (fx_now F) p) = fp_status p" by (simp_all add: stamped_def Let_def)
  have "fp_id p \<noteq> fc_server (fm_config M)" using assms by (auto simp: AddPeer_def)
  moreover from this assms obtain d where "AddFederationPeer (stamped (fx_now F) p) (fm_db M) = Inr d" "q = stamped (fx_now F) p"
    by (cases "AddFederationPeer (stamped (fx_now F) p) (fm_db M)") (auto simp: AddPeer_def Let_def)
  ultimately show ?thesis by (simp add: AddPeer_def Let_def al_simps st)
qed

lemma AddPeer_adds:
  assumes "fp_id p \<noteq> fc_server (fm_config M)" and "\<And>q. q \<in> set (fd_peers (fm_db M)) \<Longrightarrow> fp_id q \<noteq> fp_id p \<Longrightarrow> fp_url q \<noteq> fp_url p"
  obtains q where "fst (AddPeer F p M) = Inr q"
proof -
  have "fp_id (stamped (fx_now F) p) = fp_id p" "fp_url (stamped (fx_now F) p) = fp_url p" by (simp_all add: stamped_def Let_def)
  moreover have "\<not> (\<exists>q \<in> set (fd_peers (fm_db M)). fp_id q \<noteq> fp_id p \<and> fp_url q = fp_url p)" using assms(2) by blast
  ultimately obtain d where "AddFederationPeer (stamped (fx_now F) p) (fm_db M) = Inr d"
    by (cases "\<exists>q \<in> set (fd_peers (fm_db M)). fp_id q = fp_id p") (simp_all add: AddFederationPeer_def)
  then show ?thesis using assms(1) that by (simp add: AddPeer_def Let_def)
qed

lemma loadPeers_keeps [simp]: "fm_config (snd (loadPeers F M)) = fm_config M" "fm_db (snd (loadPeers F M)) = fm_db M"
  by (simp_all add: loadPeers_def split: sum.split)

lemma updates_keep [simp]:
  "fm_config (updatePeerStatus now i st M) = fm_config M" "fd_invites (fm_db (updatePeerStatus now i st M)) = fd_invites (fm_db M)"
  "fm_config (updatePeerLastSeen now i M) = fm_config M" "fd_invites (fm_db (updatePeerLastSeen now i M)) = fd_invites (fm_db M)"
  by (auto simp: updatePeerStatus_def updatePeerLastSeen_def set_peer_def UpdateFederationPeerStatus_def Let_def split: option.split)

lemma add_listed_keeps [simp]:
  "fm_config (add_listed F a M) = fm_config M" "fd_invites (fm_db (add_listed F a M)) = fd_invites (fm_db M)"
  by (auto simp: add_listed_def split: sum.split)

lemma fold_add_listed_keeps [simp]:
  "fm_config (fold (add_listed F) as M) = fm_config M" "fd_invites (fm_db (fold (add_listed F) as M)) = fd_invites (fm_db M)"
  by (induction as arbitrary: M) simp_all

lemma requestPeerList_keeps [simp]:
  "fm_config (requestPeerList F answer M) = fm_config M" "fd_invites (fm_db (requestPeerList F answer M)) = fd_invites (fm_db M)"
  by (auto simp: requestPeerList_def split: option.split)

text \<open>An invitation is spent when its row is marked; nothing takes the mark away.\<close>

definition spent :: "string \<Rightarrow> fed_manager \<Rightarrow> bool" where
  "spent t M \<longleftrightarrow> (case find_row (\<lambda>v. fi_token v = t) (fd_invites (fm_db M)) of None \<Rightarrow> False | Some v \<Rightarrow> fi_used v)"

lemma spent_cong: "fd_invites (fm_db M') = fd_invites (fm_db M) \<Longrightarrow> spent t M' = spent t M"
  by (simp add: spent_def)

lemma spent_UseFederationInvite: "spent t M \<Longrightarrow> spent t (M\<lparr>fm_db := UseFederationInvite i (fm_db M)\<rparr>)"
  by (auto simp: spent_def UseFederationInvite_def find_row_map split: option.splits)

lemma spent_AcceptInvite: "spent t M \<Longrightarrow> spent t (snd (AcceptInvite F k info M))"
  using spent_UseFederationInvite [of t M] by (auto simp: AcceptInvite_def admit_def spent_def split: sum.split)

lemma spent_CreateInvite: "spent t M \<Longrightarrow> spent t (snd (CreateInvite F r k h M))"
  by (auto simp: spent_def CreateInvite_def CreateFederationInvite_def Let_def find_row_append split: option.splits sum.split)

lemma config_AcceptInvite: "fm_config (snd (AcceptInvite F k info M)) = fm_config M"
  by (auto simp: AcceptInvite_def admit_def split: sum.split)

lemma config_CreateInvite: "fm_config (snd (CreateInvite F r k h M)) = fm_config M"
  by (auto simp: CreateInvite_def Let_def split: sum.split)

lemmas fed_handler_defs = requireAdmin_def fed_enabled_def handleAddPeer_def handleRemovePeer_def handleCreateInvite_def handleDiscover_def
  fed_handleMessage_def handleJoin_def fed_Start_def checkPeerHealth_def

lemma snd_case_sum: "snd (case x of (Inl e, M') \<Rightarrow> (f e M', M') | (Inr y, M') \<Rightarrow> (g y M', M')) = snd x"
  by (auto split: prod.split sum.split)

lemma fed_call_config: "fm_config (fed_call c M) = fm_config M"
proof (cases c)
  case (CallInvite F r k h ru)
  then show ?thesis using config_CreateInvite [of F r k _ M] by (auto simp: fed_handler_defs snd_case_sum)
next
  case (CallJoin F r)
  then show ?thesis using config_AcceptInvite [of F _ _ M] by (auto simp: fed_handler_defs snd_case_sum split: option.split)
qed (auto simp: fed_handler_defs snd_case_sum RemovePeer_def Let_def split: option.split)

lemma spent_fed_call: "spent t M \<Longrightarrow> spent t (fed_call c M)"
proof (cases c)
  case (CallInvite F r k h ru)
  assume "spent t M"
  with CallInvite show ?thesis using spent_CreateInvite [of t M F r k] by (auto simp: fed_handler_defs snd_case_sum)
next
  case (CallJoin F r)
  assume "spent t M"
  with CallJoin show ?thesis using spent_AcceptInvite [of t M F] by (auto simp: fed_handler_defs snd_case_sum split: option.split)
qed (auto simp: fed_handler_defs snd_case_sum RemovePeer_def RemoveFederationPeer_def Let_def spent_def split: option.split)

lemma fed_calls_keep: "spent t M \<Longrightarrow> spent t (fed_calls cs M)" "fm_config (fed_calls cs M) = fm_config M"
  unfolding fed_calls_def by (induction cs arbitrary: M) (simp_all add: spent_fed_call fed_call_config)

lemma spent_refused: "spent t M \<Longrightarrow> \<exists>e. VerifyInvite F t M = Inl e"
  by (auto simp: spent_def VerifyInvite_def GetFederationInvite_def split: option.splits)

lemma VerifyInvite_row:
  assumes "VerifyInvite F t M = Inr v"
  shows "\<exists>w e. find_row (\<lambda>v. fi_token v = t) (fd_invites (fm_db M)) = Some w \<and> \<not> fi_used w \<and> fx_scan F (fi_expires w) = Some e
    \<and> fx_now F \<le> e \<and> fi_id v = fi_id w"
  using assms by (auto simp: VerifyInvite_def GetFederationInvite_def split: option.split_asm sum.split_asm if_split_asm)

lemma admit_spends:
  assumes "find_row (\<lambda>v. fi_token v = t) (fd_invites (fm_db M)) = Some w" and "fi_id v = fi_id w"
  shows "spent t (snd (admit F v info M))"
  using assms by (simp add: admit_def spent_def UseFederationInvite_def find_row_map)

section \<open>Invitations\<close>

lemma AcceptInvite_added:
  assumes "AcceptInvite F t info M = (Inr p, M1)"
  obtains v where "VerifyInvite F t M = Inr v" and "admit F v info M = (Inr p, M1)"
  using assms by (auto simp: AcceptInvite_def split: sum.split_asm)

lemma join_refused_when_spent:
  assumes "fc_enabled (fm_config M)" and "spent t M"
  shows "handleJoin F (Some (t, info)) M = (Refused 401 ''Unauthorized'', M)"
  using spent_refused [OF assms(2), of F] assms(1) by (auto simp: handleJoin_def fed_enabled_def AcceptInvite_def)


definition demo_fed_env :: fed_env where
  "demo_fed_env = \<lparr>fx_now = 1000 * 10 ^ 9, fx_scan = Some, fx_rank = (\<lambda>t. t), fx_sign = (\<lambda>k w. take 2 k @ w),
     fx_verify = (\<lambda>k w s. s = take 2 k @ w)\<rparr>"

definition demo_fed :: fed_manager where
  "demo_fed = \<lparr>fm_config = \<lparr>fc_enabled = True, fc_server = ''home'', fc_url = ''https://home'', fc_private = [], fc_public = [],
       fc_trusted = [], fc_auto = True\<rparr>,
     fm_db = \<lparr>fd_peers = [], fd_invites = [\<lparr>fi_id = ''i'', fi_from = ''home'', fi_token = ''t'', fi_expires = 2000 * 10 ^ 9,
       fi_used = False, fi_created = 0\<rparr>], fd_shares = []\<rparr>,
     fm_peers = [], fm_stopped = False\<rparr>"

definition demo_guest :: announcement where
  "demo_guest = \<lparr>an_server = ''guest'', an_name = ''Guest'', an_url = ''https://guest'', an_key = ''K'', an_caps = [], an_signature = [], an_time = 0\<rparr>"

lemmas demo_fed_defs = demo_fed_env_def demo_fed_def demo_guest_def

lemma demo_join: "fst (handleJoin demo_fed_env (Some (''t'', demo_guest)) demo_fed) = Answered 200 (FedStatus ''joined'')"
  by (simp add: demo_fed_defs handleJoin_def fed_enabled_def AcceptInvite_def VerifyInvite_def GetFederationInvite_def admit_def AddPeer_def
      AddFederationPeer_def UseFederationInvite_def peer_of_def stamped_def Let_def)


text \<open>Checking and marking are two statements: requests that overlap both pass the check.\<close>

lemma overlapping_joins_share_an_invite:
  assumes "VerifyInvite F t M = Inr v" and "an_server a \<noteq> fc_server (fm_config M)" and "an_server b \<noteq> fc_server (fm_config M)"
    and "an_url a \<noteq> an_url b" and "\<forall>q \<in> set (fd_peers (fm_db M)). fp_url q \<notin> {an_url a, an_url b}"
  shows "\<exists>p q. fst (admit F v a M) = Inr p \<and> fst (admit F v b (snd (admit F v a M))) = Inr q"
proof -
  let ?N = "M\<lparr>fm_db := UseFederationInvite (fi_id v) (fm_db M)\<rparr>" and ?a = "peer_of ''active'' a" and ?b = "peer_of ''active'' b"
  have N: "fm_config ?N = fm_config M" "fd_peers (fm_db ?N) = fd_peers (fm_db M)" by (simp_all add: UseFederationInvite_def)
  obtain p where p: "fst (AddPeer F ?a ?N) = Inr p"
  proof (rule AddPeer_adds [of ?a ?N F])
    show "fp_url q \<noteq> fp_url ?a" if "q \<in> set (fd_peers (fm_db ?N))" for q
      using that assms(5) N by (simp add: peer_of_def)
  qed (use assms(2) in \<open>simp add: peer_of_def\<close>)
  let ?M = "snd (AddPeer F ?a ?N)" let ?O = "?M\<lparr>fm_db := UseFederationInvite (fi_id v) (fm_db ?M)\<rparr>"
  have url: "fp_url q \<noteq> an_url b" if "q \<in> set (fd_peers (fm_db ?M))" for q
    using AddPeer_rows [OF that] N(2) assms(4,5) by (auto simp: peer_of_def)
  obtain q where "fst (AddPeer F ?b ?O) = Inr q"
  proof (rule AddPeer_adds [of ?b ?O F])
    show "fp_url q \<noteq> fp_url ?b" if "q \<in> set (fd_peers (fm_db ?O))" for q
      using url that by (simp add: peer_of_def UseFederationInvite_def)
  qed (use assms(3) in \<open>simp add: peer_of_def\<close>)
  with p show ?thesis by (simp add: admit_def)
qed

text \<open>
  The times of an invitation and of a peer are stored in text columns and read back into \<^verbatim>\<open>time.Time\<close>
  fields.  The driver yields a text column as a string, which \<^verbatim>\<open>database/sql\<close> does not convert to a
  \<^verbatim>\<open>time.Time\<close>: that the reading fails is the hypothesis on \<open>fx_scan\<close>.
\<close>

lemma scan_peers_fails: "(\<And>t. fx_scan F t = None) \<Longrightarrow> scan_peers F ps = (if ps = [] then Some [] else None)"
  by (cases ps) (simp_all add: scan_peer_def)

text \<open>Neither invitations nor peers survive the way through the database.  As the stored times cannot
  be read back, every request to join is refused, whatever invitation it presents, and a server that
  is started knows no peer, whatever peers are stored.\<close>

theorem invitations_never_accepted:
  assumes "\<And>t. fx_scan F t = None" and "NewManager rnd keys cfg d = Inr N"
  shows "(\<exists>n e. handleJoin F req M = (Refused n e, M) \<and> 400 \<le> n) \<and> fm_peers (snd (fed_Start F post N)) = []"
proof
  have "\<exists>e. GetFederationInvite F t (fm_db M) = Inl e" for t using assms(1) by (auto simp: GetFederationInvite_def split: option.split)
  then have acc: "\<exists>e. AcceptInvite F t info M = (Inl e, M)" for t info
    by (metis (no_types, lifting) AcceptInvite_def VerifyInvite_def old.sum.simps(5))
  show "\<exists>n e. handleJoin F req M = (Refused n e, M) \<and> 400 \<le> n"
  proof (cases req)
    case (Some r)
    with acc [of "fst r" "snd r"] show ?thesis by (cases r) (auto simp: handleJoin_def fed_enabled_def)
  qed (simp add: handleJoin_def fed_enabled_def)
  have "fm_peers N = []" using assms(2) by (auto simp: NewManager_def Let_def split: if_split_asm sum.split_asm prod.split_asm)
  then show "fm_peers (snd (fed_Start F post N)) = []"
    by (simp add: fed_Start_def loadPeers_def GetFederationPeers_def scan_peers_fails [OF assms(1)] Let_def)
qed

theorem invitations_never_accepted_witness:
  "\<exists>n e. handleJoin (demo_fed_env\<lparr>fx_scan := Map.empty\<rparr>) (Some (''t'', demo_guest)) demo_fed = (Refused n e, demo_fed) \<and> 400 \<le> n"
proof -
  let ?c = "(fm_config demo_fed)\<lparr>fc_private := ''p'', fc_public := ''q''\<rparr>"
  have "NewManager [] None ?c (fm_db demo_fed)
      = Inr \<lparr>fm_config = ?c, fm_db = fm_db demo_fed, fm_peers = [], fm_stopped = False\<rparr>"
    by (simp add: NewManager_def demo_fed_def)
  from invitations_never_accepted [of "demo_fed_env\<lparr>fx_scan := Map.empty\<rparr>", OF _ this, of "Some (''t'', demo_guest)" demo_fed "\<lambda>u a. None"]
  show ?thesis by simp
qed

section \<open>Discovery\<close>

text \<open>Two servers cannot discover each other.  The announcement a server sends carries neither a
  signature nor a timestamp, which every server requires: whatever the other one's state is, it answers
  with an error and learns nothing, and all announcements of a starting server fail.\<close>

theorem announcements_are_refused:
  "snd (handleDiscover G (Some (own_announcement (fm_config A))) B) = B
   \<and> None \<notin> set (fst (fed_Start F (\<lambda>url a. Some (answer_status (fst (handleDiscover G (Some a) (servers url))))) A))"
proof -
  have "\<exists>n e. handleDiscover G (Some (own_announcement c)) B = (Refused n e, B) \<and> 400 \<le> n" for c B
    by (auto simp: handleDiscover_def fed_enabled_def discover_refused_def own_announcement_def Let_def)
  then have "snd (handleDiscover G (Some (own_announcement c)) B) = B"
    "400 \<le> answer_status (fst (handleDiscover G (Some (own_announcement c)) B))" for c B by (metis snd_conv, metis answer_status.simps(1) fst_conv)
  then show ?thesis by (auto simp: fed_Start_def discoverPeer_def sendHTTPRequest_def Let_def)
qed

text \<open>An announcement takes over the identity of a peer.  It is checked with the key it contains, and
  nothing compares this key with the one a known peer has: once such an announcement under the name of
  any other server has passed the checks, at a URL no third server uses, its key is the one by which all
  messages of that server are verified.\<close>

theorem discovery_takes_over_identity:
  assumes "fc_enabled (fm_config M)" and "discover_refused F a (fm_config M) = None"
    and "\<And>q. q \<in> set (fd_peers (fm_db M)) \<Longrightarrow> fp_id q \<noteq> an_server a \<Longrightarrow> fp_url q \<noteq> an_url a"
  shows "\<exists>M'. handleDiscover F (Some a) M = (Answered 200 (Announced (own_announcement (fm_config M))), M')
    \<and> (fg_from msg = an_server a \<longrightarrow>
         VerifyIncomingMessage G msg M' = VerifyMessage G (an_key a) (fg_payload msg) (fg_signature msg))"
proof -
  have self: "an_server a \<noteq> fc_server (fm_config M)"
    using assms(2) by (auto simp: discover_refused_def Let_def split: if_split_asm option.split_asm)
  let ?p = "peer_of ''active'' a"
  have f: "fp_id ?p = an_server a" "fp_url ?p = an_url a" "fp_key ?p = an_key a" "fp_status ?p = ''active''" by (simp_all add: peer_of_def)
  obtain q where "fst (AddPeer F ?p M) = Inr q" using AddPeer_adds [of ?p M F] self assms(3) f by auto
  from AddPeer_added [OF this] f have "GetPeer (an_server a) (snd (AddPeer F ?p M)) = Inr q" "fp_key q = an_key a" "fp_status q = ''active''"
    by (simp_all add: GetPeer_def)
  then have "fg_from msg = an_server a \<longrightarrow>
      VerifyIncomingMessage G msg (snd (AddPeer F ?p M)) = VerifyMessage G (an_key a) (fg_payload msg) (fg_signature msg)"
    by (simp add: VerifyIncomingMessage_def)
  then show ?thesis using assms(1,2) by (simp add: handleDiscover_def fed_enabled_def)
qed

text \<open>A signature of the demonstration: the first byte of the key and the length of the message.\<close>

definition demo_rogue :: announcement where
  "demo_rogue = demo_guest\<lparr>an_key := replicate 43 CHR ''A'' @ ''='', an_signature := ''ABg='', an_time := 1000\<rparr>"

definition demo_rogue_env :: fed_env where
  "demo_rogue_env = demo_fed_env\<lparr>fx_verify := (\<lambda>k w s. s = [k ! 0, of_nat (length w)])\<rparr>"

lemma demo_rogue_passes: "discover_refused demo_rogue_env demo_rogue (fm_config demo_fed) = None"
  by code_simp

theorem discovery_takes_over_identity_witness:
  "fst (handleDiscover demo_rogue_env (Some demo_rogue) demo_fed) = Answered 200 (Announced (own_announcement (fm_config demo_fed)))"
proof -
  have "fc_enabled (fm_config demo_fed)" "fd_peers (fm_db demo_fed) = []" by (simp_all add: demo_fed_def)
  with discovery_takes_over_identity [of demo_fed demo_rogue_env demo_rogue, OF _ demo_rogue_passes] show ?thesis by (metis empty_iff empty_set fst_conv)
qed

text \<open>Only the payload is signed: a message is as good under another id, type, receiver and time.\<close>

lemma messages_can_be_relabelled:
  "VerifyIncomingMessage F (msg\<lparr>fg_id := i, fg_to := r, fg_type := ty, fg_time := t\<rparr>) M = VerifyIncomingMessage F msg M"
  by (cases msg) (simp add: VerifyIncomingMessage_def split: sum.split)

text \<open>A peer that waits for approval becomes active as soon as its health endpoint answers.\<close>

lemma health_check_activates:
  assumes "al_get (fm_peers M) (fp_id p) = Some q"
  shows "\<exists>r. GetPeer (fp_id p) (checkPeerHealth F (Some 200) p M) = Inr r \<and> fp_status r = ''active'' \<and> fp_key r = fp_key q"
  using assms by (simp add: checkPeerHealth_def updatePeerStatus_def updatePeerLastSeen_def set_peer_def GetPeer_def al_simps Let_def)

end
