(* ===== verification/Backup.thy ===== *)
theory Backup
  imports Media Accounts_Api
begin

text \<open>
  Backups of the database (\<^verbatim>\<open>src/internal/server/handlers_backup.go\<close>): an archive of the database file
  in the backup directory, its listing, download, removal, and the restore.  The file system is a map
  from the paths the code builds to files and directories, with faults of creating and writing.  The
  archive format is a pair of parameters: packing the members, and reading them back with what could
  be read of each.
\<close>

section \<open>Files\<close>

text \<open>
  \<open>bk_fail\<close> says after how many bytes writing to a path fails, and \<open>bk_noticed\<close> whether a failed write
  of an archive is seen before the writers are closed, whose errors are ignored.
\<close>

record bk_env =
  bk_now :: int
  bk_stamp :: string
  bk_cwd :: "string option"
  bk_data :: string
  bk_db :: string
  bk_create :: "string \<Rightarrow> bool"
  bk_fail :: "string \<Rightarrow> nat option"
  bk_noticed :: bool
  bk_remove :: "string \<Rightarrow> bool"
  bk_readdir :: bool
  bk_pack :: "(string \<times> byte list) list \<Rightarrow> byte list"
  bk_unpack :: "byte list \<Rightarrow> ((string \<times> byte list \<times> bool) list \<times> bool) option"

definition create_ok :: "bk_env \<Rightarrow> string \<Rightarrow> cache_fs \<Rightarrow> bool" where
  "create_ok E p fs \<longleftrightarrow> bk_create E p \<and> (case al_get fs p of Some (CacheDir t) \<Rightarrow> False | _ \<Rightarrow> True)"

text \<open>The file is truncated first; a failed write leaves what was written.\<close>

definition write_new :: "bk_env \<Rightarrow> string \<Rightarrow> byte list \<Rightarrow> cache_fs \<Rightarrow> bool \<times> cache_fs" where
  "write_new E p w fs =
     (case bk_fail E p of
        None \<Rightarrow> (True, al_put fs p (CacheFile w (bk_now E)))
      | Some n \<Rightarrow> (False, al_put fs p (CacheFile (take n w) (bk_now E))))"

definition containsPathTraversal :: "string \<Rightarrow> bool" where
  "containsPathTraversal nm \<longleftrightarrow> has_dots nm \<or> slash \<in> set nm \<or> CHR 0x5C \<in> set nm"

definition copyFile :: "bk_env \<Rightarrow> string \<Rightarrow> string \<Rightarrow> cache_fs \<Rightarrow> bool \<times> cache_fs" where
  "copyFile E src dst fs =
     (case al_get fs src of
        Some (CacheFile w t) \<Rightarrow> if create_ok E dst fs then write_new E dst w fs else (False, fs)
      | _ \<Rightarrow> (False, fs))"

definition filepath_Abs :: "string option \<Rightarrow> string \<Rightarrow> string option" where
  "filepath_Abs cwd p = (if has_prefix p ''/'' then Some (path_Clean p) else map_option (\<lambda>d. filepath_Join [d, p]) cwd)"

section \<open>Archives\<close>

definition backups_dir :: "bk_env \<Rightarrow> string" where
  "backups_dir E = filepath_Join [bk_data E, ''backups'']"

definition backup_path :: "bk_env \<Rightarrow> string \<Rightarrow> string" where
  "backup_path E nm = filepath_Join [bk_data E, ''backups'', nm]"

text \<open>The error, if any.  An error after the creation leaves an archive without members.\<close>

definition write_archive :: "bk_env \<Rightarrow> string \<Rightarrow> (string \<times> byte list) list \<Rightarrow> cache_fs \<Rightarrow> string option \<times> cache_fs" where
  "write_archive E p ms fs =
     (case write_new E p (bk_pack E ms) fs of
        (ok, fs') \<Rightarrow> (if ok \<or> \<not> bk_noticed E then None else Some ''failed to write database to archive'', fs'))"

definition createBackupArchive :: "bk_env \<Rightarrow> string \<Rightarrow> cache_fs \<Rightarrow> string option \<times> cache_fs" where
  "createBackupArchive E p fs =
     (if \<not> create_ok E p fs then (Some ''failed to create backup file'', fs)
      else if bk_db E = [] then (Some ''database path not available'', snd (write_archive E p [] fs))
      else (case al_get (al_put fs p (CacheFile [] (bk_now E))) (bk_db E) of
              Some (CacheFile w t) \<Rightarrow> write_archive E p [(''vaultdrift.db'', w)] fs
            | _ \<Rightarrow> (Some ''failed to stat database'', snd (write_archive E p [] fs))))"

text \<open>The members up to the first one of the name; its bytes and whether all of them could be read.\<close>

fun find_member :: "(string \<times> byte list \<times> bool) list \<Rightarrow> bool \<Rightarrow> (byte list \<times> bool) result" where
  "find_member [] ok = Inl (if ok then ''vaultdrift.db not found in archive'' else ''failed to read tar'')"
| "find_member ((n, w, c) # ms) ok = (if n = ''vaultdrift.db'' then Inr (w, c) else find_member ms ok)"

definition extractDatabaseFromArchive :: "bk_env \<Rightarrow> string \<Rightarrow> string \<Rightarrow> cache_fs \<Rightarrow> string option \<times> cache_fs" where
  "extractDatabaseFromArchive E p dbPath fs =
     (case al_get fs p of
        None \<Rightarrow> (Some ''failed to open archive'', fs)
      | Some (CacheDir t) \<Rightarrow> (Some ''failed to create gzip reader'', fs)
      | Some (CacheFile a t) \<Rightarrow>
          (case bk_unpack E a of
             None \<Rightarrow> (Some ''failed to create gzip reader'', fs)
           | Some (ms, ok) \<Rightarrow>
               (case find_member ms ok of
                  Inl e \<Rightarrow> (Some e, fs)
                | Inr (w, complete) \<Rightarrow>
                    if \<not> create_ok E dbPath fs then (Some ''failed to create db file'', fs)
                    else (case write_new E dbPath w fs of
                            (ok', fs') \<Rightarrow> (if ok' \<and> complete then None else Some ''failed to write db file'', fs')))))"

section \<open>Handlers\<close>

datatype bk_answer = BackupMade string int int | BackupList "(string \<times> int \<times> int) list" | BackupFile headers "byte list"
  | BackupMessage string | Restored string

definition entry_size :: "cache_entry \<Rightarrow> int" where
  "entry_size e = (case e of CacheFile w t \<Rightarrow> int (length w) | CacheDir t \<Rightarrow> 4096)"

definition createBackup :: "bk_env \<Rightarrow> request_user \<Rightarrow> cache_fs \<Rightarrow> bk_answer answer \<times> cache_fs" where
  "createBackup E = requireAdmin (\<lambda>fs.
     if \<not> bk_create E (backups_dir E) then (Refused 500 ''Failed to create backup directory'', fs)
     else (let nm = ''vaultdrift_backup_'' @ bk_stamp E @ ''.tar.gz'';
               p = filepath_Join [backups_dir E, nm]
           in case createBackupArchive E p (MkdirAll (bk_now E) (backups_dir E) fs) of
                (Some e, fs') \<Rightarrow> (internal_error, fs')
              | (None, fs') \<Rightarrow>
                  (case al_get fs' p of
                     None \<Rightarrow> (Refused 500 ''Failed to get backup info'', fs')
                   | Some e \<Rightarrow> (Answered 200 (BackupMade nm (entry_size e) (bk_now E)), fs'))))"

definition listBackups :: "bk_env \<Rightarrow> request_user \<Rightarrow> cache_fs \<Rightarrow> bk_answer answer \<times> cache_fs" where
  "listBackups E = requireAdmin (\<lambda>fs.
     if \<not> bk_create E (backups_dir E) then (Answered 200 (BackupList []), fs)
     else (let fs' = MkdirAll (bk_now E) (backups_dir E) fs
           in if \<not> bk_readdir E then (Refused 500 ''Failed to read backup directory'', fs')
              else (Answered 200 (BackupList (map (\<lambda>(n, e). (n, entry_size e, mod_time e))
                      (filter (\<lambda>(n, e). \<not> is_dir e) (dir_entries (backups_dir E) fs')))), fs')))"

text \<open>The checks on a file name, in their order: the answer that refuses it.\<close>

definition name_refused :: "bk_env \<Rightarrow> string \<Rightarrow> bk_answer answer option" where
  "name_refused E nm =
     (if nm = [] then Some (Refused 400 ''Filename required'')
      else if containsPathTraversal nm then Some (Refused 400 ''Invalid filename'')
      else case filepath_Abs (bk_cwd E) (backup_path E nm) of
             None \<Rightarrow> Some (Refused 500 ''Invalid path'')
           | Some p \<Rightarrow>
               (case filepath_Abs (bk_cwd E) (backups_dir E) of
                  None \<Rightarrow> Some (Refused 500 ''Invalid backup directory path'')
                | Some d \<Rightarrow> if \<not> has_prefix p d then Some (Refused 403 ''Access denied'') else None))"

definition downloadBackup :: "bk_env \<Rightarrow> string \<Rightarrow> request_user \<Rightarrow> cache_fs \<Rightarrow> bk_answer answer \<times> cache_fs" where
  "downloadBackup E nm = requireAdmin (\<lambda>fs.
     case name_refused E nm of
       Some r \<Rightarrow> (r, fs)
     | None \<Rightarrow>
         (case al_get fs (backup_path E nm) of
            None \<Rightarrow> (Refused 404 ''Backup not found'', fs)
          | Some e \<Rightarrow>
              (Answered 200 (BackupFile
                 [(''Content-Type'', ''application/gzip''),
                  (''Content-Disposition'', ''attachment; filename='' @ [CHR 0x22] @ sanitizeFilename nm @ [CHR 0x22]),
                  (''Content-Length'', dec_int (entry_size e))]
                 (case e of CacheFile w t \<Rightarrow> w | CacheDir t \<Rightarrow> [])), fs)))"

text \<open>A directory is removed when it is empty.\<close>

definition removable :: "bk_env \<Rightarrow> string \<Rightarrow> cache_fs \<Rightarrow> bool" where
  "removable E p fs \<longleftrightarrow> bk_remove E p
     \<and> (case al_get fs p of None \<Rightarrow> False | Some e \<Rightarrow> \<not> is_dir e \<or> \<not> list_ex (\<lambda>(q, _). has_prefix q (p @ ''/'')) fs)"

definition deleteBackup :: "bk_env \<Rightarrow> string \<Rightarrow> request_user \<Rightarrow> cache_fs \<Rightarrow> bk_answer answer \<times> cache_fs" where
  "deleteBackup E nm = requireAdmin (\<lambda>fs.
     case name_refused E nm of
       Some r \<Rightarrow> (r, fs)
     | None \<Rightarrow>
         if \<not> removable E (backup_path E nm) fs then (Refused 500 ''Failed to delete backup'', fs)
         else (Answered 200 (BackupMessage ''Backup deleted successfully''), al_del fs (backup_path E nm)))"

text \<open>The safety copy is made first; when the extraction fails it is copied back.\<close>

definition restore_from :: "bk_env \<Rightarrow> string \<Rightarrow> cache_fs \<Rightarrow> bk_answer answer \<times> cache_fs" where
  "restore_from E p fs =
     (let db = bk_db E; safety = db @ ''.pre-restore''
      in if db = [] then (Refused 500 ''Cannot determine database path'', fs)
         else (case copyFile E db safety fs of
                 (False, fs1) \<Rightarrow> (Refused 500 ''Failed to create safety backup before restore'', fs1)
               | (True, fs1) \<Rightarrow>
                   (case extractDatabaseFromArchive E p db fs1 of
                      (None, fs2) \<Rightarrow> (Answered 200 (Restored safety), fs2)
                    | (Some e, fs2) \<Rightarrow> (internal_error, snd (copyFile E safety db fs2)))))"

definition restoreBackup :: "bk_env \<Rightarrow> string option \<Rightarrow> request_user \<Rightarrow> cache_fs \<Rightarrow> bk_answer answer \<times> cache_fs" where
  "restoreBackup E req = requireAdmin (\<lambda>fs.
     case req of
       None \<Rightarrow> (Refused 400 ''Invalid request body'', fs)
     | Some nm \<Rightarrow>
         (case name_refused E nm of
            Some r \<Rightarrow> (r, fs)
          | None \<Rightarrow>
              if \<not> cache_exists fs (backup_path E nm) then (Refused 404 ''Backup not found'', fs)
              else restore_from E (backup_path E nm) fs))"

section \<open>Names\<close>

lemma backup_fold_plain: "\<forall>c \<in> set cs. plain c \<Longrightarrow> fold (clean_step r) cs st = rev cs @ st"
  by (induction cs arbitrary: st) (simp_all add: clean_step_def plain_def)

lemma backup_parts_plain:
  assumes "\<forall>c \<in> set cs. plain c" and "cs \<noteq> []"
  shows "clean_parts r (join_with ''/'' cs) = cs"
  using assms by (simp add: clean_parts_def split_join plain_def backup_fold_plain)

lemma path_Clean_relative:
  assumes "\<forall>c \<in> set cs. plain c" and "cs \<noteq> []"
  shows "path_Clean (join_with ''/'' cs) = join_with ''/'' cs"
proof -
  obtain c cs' where cs: "cs = c # cs'" using assms(2) by (cases cs) simp_all
  then have "c \<noteq> []" "slash \<notin> set c" using assms(1) by (simp_all add: plain_def)
  then have "join_with ''/'' cs \<noteq> []" "hd (join_with ''/'' cs) \<noteq> slash"
    by (cases c; cases cs'; auto simp: cs)+
  then show ?thesis using backup_parts_plain [OF assms] by (simp add: path_Clean_def Let_def)
qed

text \<open>A generated name, and every name that is accepted, stays in the backup directory.\<close>

lemma accepted_plain: "\<not> containsPathTraversal nm \<Longrightarrow> nm \<noteq> [] \<Longrightarrow> nm \<noteq> ''.'' \<Longrightarrow> plain nm"
  by (simp add: containsPathTraversal_def segment_plain)

lemma relative_paths:
  assumes "bk_data E = ''data''"
  shows "backups_dir E = ''data/backups''" and "plain nm \<Longrightarrow> backup_path E nm = ''data/backups/'' @ nm"
    and "plain nm \<Longrightarrow> filepath_Join [backups_dir E, nm] = ''data/backups/'' @ nm"
proof -
  have d: "path_Clean (join_with ''/'' [''data'', ''backups'']) = join_with ''/'' [''data'', ''backups'']"
    by (rule path_Clean_relative) (simp_all add: plain_def)
  then show 1: "backups_dir E = ''data/backups''" by (simp add: backups_dir_def filepath_Join_def assms)
  assume nm: "plain nm"
  have e: "path_Clean (join_with ''/'' [''data'', ''backups'', nm]) = join_with ''/'' [''data'', ''backups'', nm]"
    using nm by (intro path_Clean_relative) (simp_all add: plain_def)
  from nm have "nm \<noteq> []" by (simp add: plain_def)
  with e show "backup_path E nm = ''data/backups/'' @ nm" "filepath_Join [backups_dir E, nm] = ''data/backups/'' @ nm"
    by (simp_all add: backup_path_def 1 filepath_Join_def assms)
qed

lemma join_with_append: "xs \<noteq> [] \<Longrightarrow> ys \<noteq> [] \<Longrightarrow> join_with s (xs @ ys) = join_with s xs @ s @ join_with s ys"
proof (induction xs)
  case (Cons x xs)
  then show ?case by (cases xs; cases ys) auto
qed simp

lemma plain_name_accepted:
  assumes "bk_data E = ''data''" and "bk_cwd E = Some (abs_path cs)" and "\<forall>c \<in> set cs. plain c" and "cs \<noteq> []"
    and "plain nm" and "\<not> containsPathTraversal nm"
  shows "name_refused E nm = None"
proof -
  have j: "filepath_Join [abs_path cs, join_with ''/'' es] = abs_path (cs @ es)" if "\<forall>e \<in> set es. plain e" "es \<noteq> []" for es
  proof -
    have "abs_path cs @ ''/'' @ join_with ''/'' es = abs_path (cs @ es)"
      using that(2) assms(4) by (simp add: abs_path_def join_with_append)
    moreover have "join_with ''/'' es \<noteq> []" using that by (cases es rule: list.exhaust; cases "tl es"; auto simp: plain_def)
    ultimately show ?thesis using path_Clean_abs [of "cs @ es"] assms(3) that(1) by (auto simp: filepath_Join_def abs_path_def)
  qed
  have n: "nm \<noteq> []" using assms(5) by (simp add: plain_def)
  have "filepath_Abs (bk_cwd E) (backup_path E nm) = Some (abs_path (cs @ [''data'', ''backups'', nm]))"
    "filepath_Abs (bk_cwd E) (backups_dir E) = Some (abs_path (cs @ [''data'', ''backups'']))"
    using j [of "[''data'', ''backups'', nm]"] j [of "[''data'', ''backups'']"] relative_paths [OF assms(1)] assms(2,5)
    by (simp_all add: filepath_Abs_def plain_def)
  moreover have "has_prefix (abs_path (cs @ [''data'', ''backups'', nm])) (abs_path (cs @ [''data'', ''backups'']))"
    using assms(4) by (simp add: has_prefix_iff abs_path_def join_with_snoc [of "cs @ [''data'', ''backups'']", simplified])
  ultimately show ?thesis using n assms(6) by (simp add: name_refused_def)
qed

section \<open>Restoring\<close>

lemma write_ok: "bk_fail E p = None \<Longrightarrow> write_new E p w fs = (True, al_put fs p (CacheFile w (bk_now E)))"
  by (simp add: write_new_def)

lemma safety_differs [simp]: "db @ ''.pre-restore'' \<noteq> db" "db \<noteq> db @ ''.pre-restore''"
  by simp_all

text \<open>The extraction, when no write fails: it puts the member into the database file, or leaves it or a part of the member.\<close>

lemma extract_cases:
  assumes "bk_fail E db = None"
  shows "(\<exists>e fs'. extractDatabaseFromArchive E p db fs = (Some e, fs') \<and> (fs' = fs \<or> (\<exists>x. fs' = al_put fs db (CacheFile x (bk_now E)))))
    \<or> (\<exists>arch u ms ok x. al_get fs p = Some (CacheFile arch u) \<and> bk_unpack E arch = Some (ms, ok) \<and> find_member ms ok = Inr (x, True)
        \<and> extractDatabaseFromArchive E p db fs = (None, al_put fs db (CacheFile x (bk_now E))))"
proof (cases "al_get fs p")
  case None
  then show ?thesis by (simp add: extractDatabaseFromArchive_def)
next
  case (Some c)
  show ?thesis
  proof (cases c)
    case (CacheDir t)
    then show ?thesis using Some by (simp add: extractDatabaseFromArchive_def)
  next
    case (CacheFile arch u)
    show ?thesis
    proof (cases "bk_unpack E arch")
      case None
      then show ?thesis using Some CacheFile by (simp add: extractDatabaseFromArchive_def)
    next
      case (Some m)
      then obtain ms ok where m: "bk_unpack E arch = Some (ms, ok)" by (cases m) simp
      show ?thesis
      proof (cases "find_member ms ok")
        case (Inl e)
        then show ?thesis using \<open>al_get fs p = Some c\<close> CacheFile m by (simp add: extractDatabaseFromArchive_def)
      next
        case (Inr xc)
        then obtain x complete where x: "find_member ms ok = Inr (x, complete)" by (cases xc) simp
        show ?thesis using \<open>al_get fs p = Some c\<close> CacheFile m x write_ok [OF assms]
          by (cases "create_ok E db fs"; cases complete) (auto simp: extractDatabaseFromArchive_def)
      qed
    qed
  qed
qed

text \<open>The demonstration packs the bytes of the only member behind a marker.\<close>

definition demo_backup :: bk_env where
  "demo_backup = \<lparr>bk_now = 5, bk_stamp = ''20240101_000000'', bk_cwd = Some (abs_path [''srv'']), bk_data = ''data'', bk_db = ''data/v.db'',
     bk_create = (\<lambda>p. True), bk_fail = Map.empty, bk_noticed = True, bk_remove = (\<lambda>p. True), bk_readdir = True,
     bk_pack = (\<lambda>ms. case ms of [(n, w)] \<Rightarrow> 1 # w | _ \<Rightarrow> [0]),
     bk_unpack = (\<lambda>a. case a of [] \<Rightarrow> None | b # w \<Rightarrow> Some (if b = 1 then [(''vaultdrift.db'', w, True)] else [], True))\<rparr>"

definition demo_admin :: request_user where
  "demo_admin = \<lparr>ru_user = ''a'', ru_name = ''admin'', ru_roles = [''admin''], ru_device = []\<rparr>"

definition demo_disk :: cache_fs where
  "demo_disk = [(''data/v.db'', CacheFile [7] 1)]"

definition demo_backed_up :: cache_fs where
  "demo_backed_up = [(''data/v.db'', CacheFile [7] 1), (''data/backups'', CacheDir 5),
     (''data/backups/vaultdrift_backup_20240101_000000.tar.gz'', CacheFile [1, 7] 5)]"

definition demo_damaged :: cache_fs where
  "demo_damaged = al_put demo_backed_up ''data/v.db'' (CacheFile [8, 9] 6)"

definition demo_bad_archive :: cache_fs where
  "demo_bad_archive = [(''data/v.db'', CacheFile [7] 1), (''data/backups/x.tar.gz'', CacheFile [0] 1)]"

text \<open>C30: A restore is all or nothing.  As long as writes succeed, either it answers with success, the
  database file is the complete member of the chosen archive and the safety copy is the database file
  of before; or it answers with an error and the database file has the content it had.\<close>

theorem restore_all_or_nothing:
  assumes "\<And>p. bk_fail E p = None" and "al_get fs (bk_db E) = Some (CacheFile w t)"
    and "backup_path E nm \<noteq> bk_db E @ ''.pre-restore''"
  shows "case restoreBackup E (Some nm) ru fs of
      (Answered n a, fs') \<Rightarrow> (\<exists>arch u ms ok x v v'. al_get fs (backup_path E nm) = Some (CacheFile arch u)
        \<and> bk_unpack E arch = Some (ms, ok) \<and> find_member ms ok = Inr (x, True)
        \<and> al_get fs' (bk_db E) = Some (CacheFile x v) \<and> al_get fs' (bk_db E @ ''.pre-restore'') = Some (CacheFile w v'))
    | (Refused n e, fs') \<Rightarrow> (\<exists>v. al_get fs' (bk_db E) = Some (CacheFile w v))"
proof (cases "mw_IsAdmin ru \<and> name_refused E nm = None \<and> cache_exists fs (backup_path E nm) \<and> bk_db E \<noteq> []
    \<and> create_ok E (bk_db E @ ''.pre-restore'') fs")
  case True
  let ?s = "bk_db E @ ''.pre-restore''" and ?p = "backup_path E nm"
  let ?fs1 = "al_put fs ?s (CacheFile w (bk_now E))"
  have c1: "copyFile E (bk_db E) ?s fs = (True, ?fs1)"
    using True assms(1,2) by (simp add: copyFile_def write_ok)
  have r: "restoreBackup E (Some nm) ru fs = (case extractDatabaseFromArchive E ?p (bk_db E) ?fs1 of
      (None, fs2) \<Rightarrow> (Answered 200 (Restored ?s), fs2) | (Some e, fs2) \<Rightarrow> (internal_error, snd (copyFile E ?s (bk_db E) fs2)))"
    using True c1 by (simp add: restoreBackup_def requireAdmin_def isAdmin_def restore_from_def Let_def)
  from extract_cases [where db = "bk_db E" and p = ?p and fs = ?fs1, OF assms(1)] show ?thesis
  proof (elim disjE exE conjE)
    fix e fs' assume ex: "extractDatabaseFromArchive E ?p (bk_db E) ?fs1 = (Some e, fs')" and f: "fs' = ?fs1"
    then show ?thesis using assms(1,2)
      by (auto simp: r internal_error_def copyFile_def write_ok al_simps create_ok_def)
  next
    fix e fs' x assume ex: "extractDatabaseFromArchive E ?p (bk_db E) ?fs1 = (Some e, fs')" and f: "fs' = al_put ?fs1 (bk_db E) (CacheFile x (bk_now E))"
    show ?thesis
    proof (cases "bk_create E (bk_db E)")
      case True
      then show ?thesis using assms(1) by (simp add: r ex f internal_error_def copyFile_def write_ok al_simps create_ok_def)
    next
      case False
      then have "extractDatabaseFromArchive E ?p (bk_db E) ?fs1 = (Some e, ?fs1)"
        using ex by (auto simp: extractDatabaseFromArchive_def create_ok_def split: option.splits cache_entry.splits sum.splits prod.splits)
      then show ?thesis using assms(2) False by (simp add: r internal_error_def copyFile_def create_ok_def al_simps)
    qed
  next
    fix arch u ms ok x
    assume "al_get ?fs1 ?p = Some (CacheFile arch u)" "bk_unpack E arch = Some (ms, ok)" "find_member ms ok = Inr (x, True)"
      "extractDatabaseFromArchive E ?p (bk_db E) ?fs1 = (None, al_put ?fs1 (bk_db E) (CacheFile x (bk_now E)))"
    then show ?thesis using assms(3) by (simp add: r al_simps)
  qed
next
  case False
  then show ?thesis using assms(2)
    by (auto simp: restoreBackup_def requireAdmin_def isAdmin_def admin_required_def restore_from_def copyFile_def Let_def name_refused_def
        split: option.split)
qed

theorem restore_all_or_nothing_witness:
  "\<exists>v. al_get (snd (restoreBackup demo_backup (Some ''x.tar.gz'') demo_admin demo_bad_archive)) ''data/v.db'' = Some (CacheFile [7] v)"
proof -
  have "fst (restoreBackup demo_backup (Some ''x.tar.gz'') demo_admin demo_bad_archive) = Refused 500 ''Internal server error''"
    "backup_path demo_backup ''x.tar.gz'' = ''data/backups/x.tar.gz''" by code_simp+
  moreover have "\<And>p. bk_fail demo_backup p = None" "bk_db demo_backup = ''data/v.db''"
    "al_get demo_bad_archive ''data/v.db'' = Some (CacheFile [7] 1)" by (simp_all add: demo_backup_def demo_bad_archive_def)
  ultimately show ?thesis
    using restore_all_or_nothing [of demo_backup demo_bad_archive "[7]" 1 "''x.tar.gz''" demo_admin]
    by (cases "restoreBackup demo_backup (Some ''x.tar.gz'') demo_admin demo_bad_archive") simp
qed

definition backup_name :: "string \<Rightarrow> string" where
  "backup_name stamp = ''vaultdrift_backup_'' @ stamp @ ''.tar.gz''"

lemma has_dots_digits: "\<forall>c \<in> set s. c \<noteq> CHR ''.'' \<Longrightarrow> has_dots (s @ ''.tar.gz'') = False"
  by (induction s rule: has_dots.induct) auto

lemma backup_name_ok:
  assumes "\<forall>c \<in> set stamp. is_digit c \<or> c = CHR ''_''"
  shows "plain (backup_name stamp)" and "\<not> containsPathTraversal (backup_name stamp)"
proof -
  have no: "\<forall>c \<in> set stamp. c \<noteq> CHR ''.'' \<and> c \<noteq> slash \<and> c \<noteq> CHR 0x5C" using assms by (auto simp: is_digit_def)
  have "has_dots ((''vaultdrift_backup_'' @ stamp) @ ''.tar.gz'') = False" using no by (intro has_dots_digits) auto
  then show "\<not> containsPathTraversal (backup_name stamp)" using no by (auto simp: backup_name_def containsPathTraversal_def)
  then show "plain (backup_name stamp)" by (intro accepted_plain) (auto simp: backup_name_def)
qed

text \<open>C29: What is backed up is what a restore brings back.  A backup that was answered with success, when no
  write failed, holds the database file of that time: as long as the archive stays where it is, an
  administrator restores exactly this file later, whatever the database file has become, and its last
  content is kept in the safety copy.  The archive format gives back the members that were packed.\<close>

theorem backup_roundtrip:
  assumes "createBackup E ru fs = (Answered 200 a, fs1)" and "al_get fs (bk_db E) = Some (CacheFile w t)" and "\<And>p. bk_fail E p = None"
    and "backup_path E (backup_name (bk_stamp E)) \<notin> {bk_db E, bk_db E @ ''.pre-restore''}" and "backups_dir E \<noteq> bk_db E"
    and "\<forall>c \<in> set (bk_stamp E). is_digit c \<or> c = CHR ''_''" and "bk_data E = ''data''"
    and "bk_data R = ''data''" and "bk_db R = bk_db E" and "bk_cwd R = Some (abs_path cs)" and "\<forall>c \<in> set cs. plain c" and "cs \<noteq> []"
    and "bk_unpack R (bk_pack E [(''vaultdrift.db'', w)]) = Some ([(''vaultdrift.db'', w, True)], True)"
    and "\<And>p. bk_fail R p = None" and "\<And>p. bk_create R p" and "mw_IsAdmin rv"
    and "al_get fs2 (backup_path E (backup_name (bk_stamp E))) = al_get fs1 (backup_path E (backup_name (bk_stamp E)))"
    and "al_get fs2 (bk_db E) = Some (CacheFile w2 t2)" and "\<And>t. al_get fs2 (bk_db E @ ''.pre-restore'') \<noteq> Some (CacheDir t)"
  shows "\<exists>fs3 v v'. restoreBackup R (Some (backup_name (bk_stamp E))) rv fs2 = (Answered 200 (Restored (bk_db E @ ''.pre-restore'')), fs3)
    \<and> al_get fs3 (bk_db E) = Some (CacheFile w v) \<and> al_get fs3 (bk_db E @ ''.pre-restore'') = Some (CacheFile w2 v')"
proof -
  let ?n = "backup_name (bk_stamp E)" let ?p = "backup_path E ?n" and ?s = "bk_db E @ ''.pre-restore''"
  note nm = backup_name_ok [OF assms(6)]
  have p: "filepath_Join [backups_dir E, ?n] = ?p" "backup_path R ?n = ?p"
    using relative_paths [OF assms(7)] relative_paths [OF assms(8)] nm(1) by simp_all
  have "al_get fs1 ?p = Some (CacheFile (bk_pack E [(''vaultdrift.db'', w)]) (bk_now E)) \<and> bk_db E \<noteq> []"
    using assms(1-5) p(1) unfolding backup_name_def [symmetric]
    by (auto simp: createBackup_def requireAdmin_def admin_required_def createBackupArchive_def write_archive_def write_ok MkdirAll_def al_simps
        internal_error_def Let_def backup_name_def split: if_split_asm option.split_asm)
  then have arch: "al_get fs2 ?p = Some (CacheFile (bk_pack E [(''vaultdrift.db'', w)]) (bk_now E))" and db: "bk_db E \<noteq> []"
    using assms(17) by simp_all
  let ?g = "al_put fs2 ?s (CacheFile w2 (bk_now R))"
  have "copyFile R (bk_db E) ?s fs2 = (True, ?g)"
    using assms(14,15,18,19) by (auto simp: copyFile_def create_ok_def write_ok split: option.split cache_entry.split)
  moreover have "extractDatabaseFromArchive R ?p (bk_db E) ?g = (None, al_put ?g (bk_db E) (CacheFile w (bk_now R)))"
    using arch assms(4,13,14,15,18) by (simp add: extractDatabaseFromArchive_def al_simps create_ok_def write_ok)
  moreover have "name_refused R ?n = None" using plain_name_accepted [OF assms(8,10-12)] nm by simp
  ultimately have "restoreBackup R (Some ?n) rv fs2 = (Answered 200 (Restored ?s), al_put ?g (bk_db E) (CacheFile w (bk_now R)))"
    using assms(9,16) db arch p(2) by (simp add: restoreBackup_def requireAdmin_def isAdmin_def restore_from_def Let_def cache_exists_def)
  then show ?thesis by (simp add: al_simps)
qed

theorem backup_roundtrip_witness:
  "\<exists>fs3 v. restoreBackup demo_backup (Some (backup_name ''20240101_000000'')) demo_admin demo_damaged = (Answered 200 (Restored ''data/v.db.pre-restore''), fs3)
    \<and> al_get fs3 ''data/v.db'' = Some (CacheFile [7] v)"
proof -
  have c: "createBackup demo_backup demo_admin demo_disk = (Answered 200 (BackupMade (backup_name ''20240101_000000'') 2 5), demo_backed_up)"
    by code_simp
  have p: "backup_path demo_backup (backup_name ''20240101_000000'') = ''data/backups/vaultdrift_backup_20240101_000000.tar.gz''"
    "backups_dir demo_backup = ''data/backups''" by code_simp+
  have s: "bk_stamp demo_backup = ''20240101_000000''" "bk_db demo_backup = ''data/v.db''" "bk_data demo_backup = ''data''"
    "bk_fail demo_backup = Map.empty" "bk_cwd demo_backup = Some (abs_path [''srv''])" "bk_create demo_backup = (\<lambda>p. True)"
    by (simp_all add: demo_backup_def)
  have "\<exists>fs3 v v'. restoreBackup demo_backup (Some (backup_name (bk_stamp demo_backup))) demo_admin demo_damaged
      = (Answered 200 (Restored (bk_db demo_backup @ ''.pre-restore'')), fs3)
    \<and> al_get fs3 (bk_db demo_backup) = Some (CacheFile [7] v) \<and> al_get fs3 (bk_db demo_backup @ ''.pre-restore'') = Some (CacheFile [8, 9] v')"
    by (rule backup_roundtrip [OF c, where t = 1 and cs = "[''srv'']" and ?t2.0 = 6])
      (simp_all add: s p demo_disk_def demo_backed_up_def demo_damaged_def demo_admin_def mw_IsAdmin_def plain_def is_digit_def,
        simp_all add: demo_backup_def)
  then show ?thesis by (auto simp: s)
qed

text \<open>Errors of closing an archive are ignored: a backup that could not be written is reported as made.\<close>

lemma truncated_backup_is_reported:
  assumes "bk_fail E p = Some n" and "\<not> bk_noticed E" and "create_ok E p fs" and "bk_db E \<noteq> []" and "p \<noteq> bk_db E"
    and "al_get fs (bk_db E) = Some (CacheFile w t)"
  shows "createBackupArchive E p fs = (None, al_put fs p (CacheFile (take n (bk_pack E [(''vaultdrift.db'', w)])) (bk_now E)))"
  using assms by (simp add: createBackupArchive_def write_archive_def write_new_def al_simps)

end
