(* ===== verification/Config.thy ===== *)
theory Config
  imports Shares Federation
begin

text \<open>
  Configuration (\<^verbatim>\<open>src/internal/config\<close>): the defaults, the minimal YAML reader, the environment
  variables, the writer, the validation, the interactive set-up and the choice of a configuration at the
  start (\<^verbatim>\<open>src/cmd/vaultdrift/main.go\<close>).  The loader walks the struct by reflection, so a
  configuration is a tree: a struct is the list of its fields with their Go names and YAML names.  Text is
  a sequence of bytes; white space and case are those of ASCII.
\<close>

section \<open>Strings\<close>

definition is_space :: "char \<Rightarrow> bool" where
  "is_space c \<longleftrightarrow> of_char c \<in> {9 :: nat, 10, 11, 12, 13, 32}"

definition TrimSpace :: "string \<Rightarrow> string" where
  "TrimSpace s = rev (dropWhile is_space (rev (dropWhile is_space s)))"

definition lower_char :: "char \<Rightarrow> char" where
  "lower_char c = (if 65 \<le> (of_char c :: nat) \<and> (of_char c :: nat) \<le> 90 then char_of (of_char c + 32 :: nat) else c)"

text \<open>The same on the bits of a character, for evaluation.\<close>

lemma lower_char_code [code]:
  "lower_char (Char b0 b1 b2 b3 b4 b5 b6 b7) =
     (if \<not> b7 \<and> b6 \<and> \<not> b5 \<and> (b0 \<or> b1 \<or> b2 \<or> b3 \<or> b4) \<and> \<not> (b4 \<and> b3 \<and> (b2 \<or> b1 \<and> b0))
      then Char b0 b1 b2 b3 b4 True b6 b7 else Char b0 b1 b2 b3 b4 b5 b6 b7)"
  unfolding lower_char_def
  by (cases b0; cases b1; cases b2; cases b3; cases b4; cases b5; cases b6; cases b7; simp add: char_of_def bit_0 bit_Suc)

definition ToLower :: "string \<Rightarrow> string" where
  "ToLower s = map lower_char s"

definition EqualFold :: "string \<Rightarrow> string \<Rightarrow> bool" where
  "EqualFold a b \<longleftrightarrow> ToLower a = ToLower b"

text \<open>\<^verbatim>\<open>strings.SplitN\<close> with two parts; \<open>None\<close> when the separator is missing.\<close>

definition split_two :: "char \<Rightarrow> string \<Rightarrow> (string \<times> string) option" where
  "split_two c s = (if c \<in> set s then Some (takeWhile (\<lambda>x. x \<noteq> c) s, tl (dropWhile (\<lambda>x. x \<noteq> c) s)) else None)"

fun has_sub :: "string \<Rightarrow> string \<Rightarrow> bool" where
  "has_sub s [] = True"
| "has_sub [] w = False"
| "has_sub (c # s) w = (has_prefix (c # s) w \<or> has_sub s w)"

section \<open>config.go\<close>

datatype cfg = CfString string | CfInt int | CfDuration int | CfUint nat nat | CfBool bool | CfFloat string
  | CfStrings "string list" | CfStruct "(string \<times> string \<times> cfg) list"

definition seconds :: "int \<Rightarrow> int" where
  "seconds n = n * 10 ^ 9"

definition minutes :: "int \<Rightarrow> int" where
  "minutes n = n * 60 * 10 ^ 9"

definition sharing_fields :: "bool \<Rightarrow> int \<Rightarrow> int \<Rightarrow> bool \<Rightarrow> int \<Rightarrow> cfg" where
  "sharing_fields links maxdays defdays pw limit = CfStruct
     [(''PublicLinksEnabled'', ''public_links_enabled'', CfBool links), (''MaxExpiryDays'', ''max_expiry_days'', CfInt maxdays),
      (''DefaultExpiryDays'', ''default_expiry_days'', CfInt defdays), (''PasswordRequired'', ''password_required'', CfBool pw),
      (''MaxDownloadLimit'', ''max_download_limit'', CfInt limit)]"

definition default_server :: cfg where
  "default_server = CfStruct
     [(''Host'', ''host'', CfString ''0.0.0.0''), (''Port'', ''port'', CfInt 8443),
      (''TLS'', ''tls'', CfStruct [(''Enabled'', ''enabled'', CfBool True), (''AutoCert'', ''auto_cert'', CfBool False),
         (''CertFile'', ''cert_file'', CfString []), (''KeyFile'', ''key_file'', CfString [])]),
      (''BaseURL'', ''base_url'', CfString ''https://localhost:8443''),
      (''RateLimit'', ''rate_limit'', CfStruct [(''Enabled'', ''enabled'', CfBool True), (''Requests'', ''requests'', CfInt 100),
         (''Window'', ''window'', CfDuration (minutes 1)), (''Burst'', ''burst'', CfInt 20)]),
      (''ReadTimeout'', ''read_timeout'', CfDuration (seconds 30)),
      (''Sharing'', ''sharing'', sharing_fields False 0 0 False 0),
      (''WriteTimeout'', ''write_timeout'', CfDuration (seconds 30)), (''IdleTimeout'', ''idle_timeout'', CfDuration (seconds 120)),
      (''AllowedOrigins'', ''allowed_origins'', CfStrings [])]"

definition default_storage :: cfg where
  "default_storage = CfStruct
     [(''Backend'', ''backend'', CfString ''local''),
      (''Local'', ''local'', CfStruct [(''DataDir'', ''data_dir'', CfString ''/var/lib/vaultdrift/data'')]),
      (''S3'', ''s3'', CfStruct [(''Endpoint'', ''endpoint'', CfString []), (''Bucket'', ''bucket'', CfString []),
         (''Region'', ''region'', CfString ''us-east-1''), (''AccessKey'', ''access_key'', CfString []),
         (''SecretKey'', ''secret_key'', CfString []), (''UsePathStyle'', ''use_path_style'', CfBool False)]),
      (''IPFS'', ''ipfs'', CfStruct [(''APIAddr'', ''api_addr'', CfString []), (''Gateway'', ''gateway'', CfString []),
         (''PinFiles'', ''pin_files'', CfBool False)])]"

definition default_auth :: cfg where
  "default_auth = CfStruct
     [(''JWTSecret'', ''jwt_secret'', CfString []), (''AccessTokenTTL'', ''access_token_ttl'', CfDuration (minutes 15)),
      (''RefreshTokenTTL'', ''refresh_token_ttl'', CfDuration (minutes (7 * 24 * 60))), (''TOTPEnabled'', ''totp_enabled'', CfBool True),
      (''MaxLoginAttempts'', ''max_login_attempts'', CfInt 5), (''LockoutDuration'', ''lockout_duration'', CfDuration (minutes 15))]"

definition default_sync :: cfg where
  "default_sync = CfStruct
     [(''ChunkSizeMin'', ''chunk_size_min'', CfInt (256 * 1024)), (''ChunkSizeAvg'', ''chunk_size_avg'', CfInt (1024 * 1024)),
      (''ChunkSizeMax'', ''chunk_size_max'', CfInt (4 * 1024 * 1024)), (''MaxConcurrentTransfers'', ''max_concurrent_transfers'', CfInt 4),
      (''WebSocketEnabled'', ''websocket_enabled'', CfBool True), (''DesktopSyncFolder'', ''desktop_sync_folder'', CfString [])]"

definition default_encryption :: cfg where
  "default_encryption = CfStruct
     [(''Enabled'', ''enabled'', CfBool True), (''ZeroKnowledge'', ''zero_knowledge'', CfBool True), (''Argon2Time'', ''argon2_time'', CfUint 32 3),
      (''Argon2Memory'', ''argon2_memory'', CfUint 32 (64 * 1024)), (''Argon2Threads'', ''argon2_threads'', CfUint 8 4)]"

definition default_users :: cfg where
  "default_users = CfStruct
     [(''RegistrationEnabled'', ''registration_enabled'', CfBool False), (''DefaultQuota'', ''default_quota'', CfInt (10 * 1024 * 1024 * 1024)),
      (''MaxQuota'', ''max_quota'', CfInt 0)]"

definition default_smtp :: cfg where
  "default_smtp = CfStruct
     [(''Enabled'', ''enabled'', CfBool False), (''Host'', ''host'', CfString []), (''Port'', ''port'', CfInt 587),
      (''Username'', ''username'', CfString []), (''Password'', ''password'', CfString []), (''From'', ''from'', CfString []), (''TLS'', ''tls'', CfBool True)]"

definition default_logging :: cfg where
  "default_logging = CfStruct
     [(''Level'', ''level'', CfString ''info''), (''File'', ''file'', CfString ''/var/lib/vaultdrift/logs/vaultdrift.log''),
      (''Audit'', ''audit'', CfBool True), (''Format'', ''format'', CfString ''json'')]"

definition default_tracing :: cfg where
  "default_tracing = CfStruct
     [(''Enabled'', ''enabled'', CfBool False), (''Exporter'', ''exporter'', CfString ''stdout''),
      (''OTLPEndpoint'', ''otlp_endpoint'', CfString ''http://localhost:4318''), (''ServiceName'', ''service_name'', CfString ''vaultdrift''),
      (''SampleRate'', ''sample_rate'', CfFloat ''1'')]"

definition default_federation :: cfg where
  "default_federation = CfStruct
     [(''Enabled'', ''enabled'', CfBool False), (''ServerID'', ''server_id'', CfString []), (''PublicURL'', ''public_url'', CfString []),
      (''PrivateKey'', ''private_key'', CfString []), (''PublicKey'', ''public_key'', CfString []),
      (''TrustedPeers'', ''trusted_peers'', CfStrings []), (''AutoDiscovery'', ''auto_discovery'', CfBool False)]"

definition DefaultConfig :: cfg where
  "DefaultConfig = CfStruct
     [(''Server'', ''server'', default_server), (''Storage'', ''storage'', default_storage),
      (''Database'', ''database'', CfStruct [(''Path'', ''path'', CfString ''/var/lib/vaultdrift/db/vaultdrift.cdb'')]),
      (''Auth'', ''auth'', default_auth), (''Sync'', ''sync'', default_sync), (''Encryption'', ''encryption'', default_encryption),
      (''Sharing'', ''sharing'', sharing_fields True 90 7 False 1000), (''Users'', ''users'', default_users),
      (''SMTP'', ''smtp'', default_smtp), (''Logging'', ''logging'', default_logging), (''Tracing'', ''tracing'', default_tracing),
      (''Federation'', ''federation'', default_federation)]"

text \<open>A field selected by its Go name, as in \<^verbatim>\<open>cfg.Server.Port\<close>, and its value.\<close>

fun fld :: "cfg \<Rightarrow> string \<Rightarrow> cfg" where
  "fld (CfStruct es) g = (case find_row (\<lambda>(g', y, c). g' = g) es of Some (g', y, c) \<Rightarrow> c | None \<Rightarrow> CfString [])"
| "fld c g = CfString []"

fun str_of :: "cfg \<Rightarrow> string" where
  "str_of (CfString s) = s"
| "str_of c = []"

fun int_of :: "cfg \<Rightarrow> int" where
  "int_of (CfInt n) = n"
| "int_of (CfDuration n) = n"
| "int_of (CfUint w n) = int n"
| "int_of c = 0"

fun bool_of :: "cfg \<Rightarrow> bool" where
  "bool_of (CfBool b) = b"
| "bool_of c = False"

section \<open>loader.go: values\<close>

definition ParseUint :: "string \<Rightarrow> nat option" where
  "ParseUint s = (if s = [] \<or> (\<exists>c \<in> set s. \<not> is_digit c) \<or> digits_value s \<ge> 2 ^ 64 then None else Some (nat (digits_value s)))"

definition strconv_ParseBool :: "string \<Rightarrow> bool option" where
  "strconv_ParseBool s =
     (if s \<in> {''1'', ''t'', ''T'', ''TRUE'', ''true'', ''True''} then Some True
      else if s \<in> {''0'', ''f'', ''F'', ''FALSE'', ''false'', ''False''} then Some False else None)"

text \<open>Nanoseconds of a unit.\<close>

definition unit_nanos :: "char \<Rightarrow> int option" where
  "unit_nanos c =
     (if c = CHR ''s'' then Some (10 ^ 9) else if c = CHR ''m'' then Some (60 * 10 ^ 9)
      else if c = CHR ''h'' then Some (60 * 60 * 10 ^ 9) else if c = CHR ''d'' then Some (24 * 60 * 60 * 10 ^ 9) else None)"

fun go_duration :: "string \<Rightarrow> string \<Rightarrow> int \<Rightarrow> int result" where
  "go_duration [] numStr acc = (if numStr \<noteq> [] then Inl ''incomplete duration'' else Inr acc)"
| "go_duration (c # s) numStr acc =
     (if is_digit c then go_duration s (numStr @ [c]) acc
      else case unit_nanos c of
             None \<Rightarrow> Inl ''invalid duration unit''
           | Some u \<Rightarrow>
               if numStr = [] then Inl ''invalid duration''
               else (case atoi numStr of
                       None \<Rightarrow> Inl ''invalid number in duration''
                     | Some n \<Rightarrow> go_duration s [] (wrap64 (acc + wrap64 (n * u)))))"

definition parseGoDuration :: "string \<Rightarrow> int result" where
  "parseGoDuration s = go_duration s [] 0"

definition parseDuration :: "string \<Rightarrow> int result" where
  "parseDuration s =
     (case parseGoDuration s of
        Inr d \<Rightarrow> Inr d
      | Inl e \<Rightarrow> (case atoi s of None \<Rightarrow> Inl ''invalid duration'' | Some n \<Rightarrow> Inr (wrap64 (n * 10 ^ 9))))"

text \<open>\<^verbatim>\<open>strings.Trim(value, "[]")\<close>.\<close>

definition trim_brackets :: "string \<Rightarrow> string" where
  "trim_brackets s =
     (let b = (\<lambda>c. c = CHR ''['' \<or> c = CHR '']'') in rev (dropWhile b (rev (dropWhile b s))))"

text \<open>\<open>float\<close> parses a floating point number.\<close>

definition setValue :: "(string \<Rightarrow> string option) \<Rightarrow> cfg \<Rightarrow> string \<Rightarrow> cfg result" where
  "setValue float field value =
     (case field of
        CfString s \<Rightarrow> Inr (CfString value)
      | CfDuration d \<Rightarrow> map_sum id CfDuration (parseDuration value)
      | CfInt n \<Rightarrow> (case atoi value of None \<Rightarrow> Inl ''invalid integer'' | Some n \<Rightarrow> Inr (CfInt n))
      | CfUint w n \<Rightarrow> (case ParseUint value of None \<Rightarrow> Inl ''invalid unsigned integer'' | Some n \<Rightarrow> Inr (CfUint w (n mod 2 ^ w)))
      | CfBool b \<Rightarrow> (case strconv_ParseBool value of None \<Rightarrow> Inl ''invalid boolean'' | Some b \<Rightarrow> Inr (CfBool b))
      | CfFloat f \<Rightarrow> (case float value of None \<Rightarrow> Inl ''invalid float'' | Some f \<Rightarrow> Inr (CfFloat f))
      | CfStrings ss \<Rightarrow>
          (let cleaned = trim_brackets value
           in Inr (CfStrings (if cleaned = [] then [] else map TrimSpace (split_on CHR '','' cleaned))))
      | CfStruct es \<Rightarrow> Inl ''unsupported type'')"

text \<open>The first field that has the name.\<close>

definition field_matches :: "string \<Rightarrow> string \<times> string \<times> cfg \<Rightarrow> bool" where
  "field_matches nm e = (case e of (g, y, c) \<Rightarrow> EqualFold g nm \<or> y = nm)"

fun findField :: "string \<Rightarrow> (string \<times> string \<times> cfg) list \<Rightarrow> nat option" where
  "findField nm [] = None"
| "findField nm (e # es) = (if field_matches nm e then Some 0 else map_option Suc (findField nm es))"

text \<open>The value of the entry at a position is replaced.\<close>

definition put_field :: "nat \<Rightarrow> cfg \<Rightarrow> (string \<times> string \<times> cfg) list \<Rightarrow> (string \<times> string \<times> cfg) list" where
  "put_field i c es = es[i := (fst (es ! i), fst (snd (es ! i)), c)]"

fun is_struct :: "cfg \<Rightarrow> bool" where
  "is_struct (CfStruct es) = True"
| "is_struct c = False"

fun setField :: "(string \<Rightarrow> string option) \<Rightarrow> cfg \<Rightarrow> string list \<Rightarrow> string \<Rightarrow> cfg result" where
  "setField float v [] value = Inr v"
| "setField float (CfStruct es) (nm # path) value =
     (case findField nm es of
        None \<Rightarrow> Inl ''unknown field''
      | Some i \<Rightarrow>
          (let field = snd (snd (es ! i))
           in if path = [] then map_sum id (\<lambda>c. CfStruct (put_field i c es)) (setValue float field value)
              else if \<not> is_struct field then Inl ''cannot navigate into non-struct''
              else map_sum id (\<lambda>c. CfStruct (put_field i c es)) (setField float field path value)))"
| "setField float v (nm # path) value = Inl ''unknown field''"

section \<open>loader.go: reading\<close>

record yaml_state =
  ym_cfg :: cfg
  ym_path :: "string list"
  ym_indent :: nat

definition indent_of :: "string \<Rightarrow> nat" where
  "indent_of line = length (takeWhile (\<lambda>c. c = CHR '' '' \<or> c = CHR 0x09) line)"

definition outdent :: "nat \<Rightarrow> nat \<Rightarrow> string list \<Rightarrow> string list" where
  "outdent indent lastIndent path =
     (if indent \<le> lastIndent \<and> path \<noteq> []
      then (let levels = (lastIndent - indent) div 2
            in if levels \<ge> length path then [] else take (length path - levels - 1) path)
      else path)"

text \<open>One line; a field that cannot be set is skipped.\<close>

definition yaml_line :: "(string \<Rightarrow> string option) \<Rightarrow> string \<Rightarrow> yaml_state \<Rightarrow> yaml_state" where
  "yaml_line float line st =
     (let trimmed = TrimSpace line
      in if trimmed = [] \<or> has_prefix trimmed ''#'' then st
         else case split_two CHR '':'' trimmed of
                None \<Rightarrow> st
              | Some (k, v) \<Rightarrow>
                  (let key = TrimSpace k; val = TrimSpace v;
                       path = outdent (indent_of line) (ym_indent st) (ym_path st)
                   in if val = [] then st\<lparr>ym_path := path @ [key], ym_indent := indent_of line\<rparr>
                      else (case setField float (ym_cfg st) (path @ [key]) val of
                              Inl e \<Rightarrow> st\<lparr>ym_path := path\<rparr>
                            | Inr c \<Rightarrow> st\<lparr>ym_cfg := c, ym_path := path, ym_indent := indent_of line\<rparr>)))"

definition unmarshalYAML :: "(string \<Rightarrow> string option) \<Rightarrow> string \<Rightarrow> cfg \<Rightarrow> cfg" where
  "unmarshalYAML float text_data c =
     ym_cfg (fold (yaml_line float) (split_on CHR 0x0A text_data) \<lparr>ym_cfg = c, ym_path = [], ym_indent = 0\<rparr>)"

definition env_prefix :: string where
  "env_prefix = ''VAULTDRIFT_''"

fun loadFromEnv :: "(string \<Rightarrow> string option) \<Rightarrow> string list \<Rightarrow> cfg \<Rightarrow> cfg result" where
  "loadFromEnv float [] c = Inr c"
| "loadFromEnv float (e # es) c =
     (case split_two CHR ''='' e of
        None \<Rightarrow> loadFromEnv float es c
      | Some (k, v) \<Rightarrow>
          if \<not> has_prefix k env_prefix then loadFromEnv float es c
          else (case setField float c (split_on CHR ''_'' (ToLower (trim_prefix k env_prefix))) v of
                  Inl e \<Rightarrow> Inl ''failed to set''
                | Inr c' \<Rightarrow> loadFromEnv float es c'))"

datatype config_file = Missing | Unreadable | Contents string

definition Load :: "(string \<Rightarrow> string option) \<Rightarrow> string list \<Rightarrow> (string \<Rightarrow> config_file) \<Rightarrow> string \<Rightarrow> cfg result" where
  "Load float env disk path =
     (case (if path = [] then Missing else disk path) of
        Unreadable \<Rightarrow> Inl ''failed to read config file''
      | Missing \<Rightarrow> loadFromEnv float env DefaultConfig
      | Contents w \<Rightarrow> loadFromEnv float env (unmarshalYAML float w DefaultConfig))"

section \<open>loader.go: writing\<close>

definition bool_text :: "bool \<Rightarrow> string" where
  "bool_text b = (if b then ''true'' else ''false'')"

text \<open>The values of the file; a duration is none of the types the formatting knows.\<close>

definition formatDuration :: "int option \<Rightarrow> string" where
  "formatDuration d =
     (case d of
        Some v \<Rightarrow>
          (let secs = go_div v (10 ^ 9)
           in if secs \<ge> 86400 then dec_int (go_div secs 86400) @ ''d'' else if secs \<ge> 3600 then dec_int (go_div secs 3600) @ ''h''
              else if secs \<ge> 60 then dec_int (go_div secs 60) @ ''m'' else dec_int secs @ ''s'')
      | None \<Rightarrow> ''15m'')"

definition duration_text :: "cfg \<Rightarrow> string" where
  "duration_text c = formatDuration None"

definition marshal_server :: "cfg \<Rightarrow> string list" where
  "marshal_server c =
     (let s = fld c ''Server''; t = fld s ''TLS''
      in [''server:'', ''  host: '' @ str_of (fld s ''Host''), ''  port: '' @ dec_int (int_of (fld s ''Port'')),
          ''  base_url: '' @ str_of (fld s ''BaseURL''), ''  tls:'', ''    enabled: '' @ bool_text (bool_of (fld t ''Enabled'')),
          ''    auto_cert: '' @ bool_text (bool_of (fld t ''AutoCert''))]
         @ (if str_of (fld t ''CertFile'') \<noteq> [] then [''    cert_file: '' @ str_of (fld t ''CertFile'')] else [])
         @ (if str_of (fld t ''KeyFile'') \<noteq> [] then [''    key_file: '' @ str_of (fld t ''KeyFile'')] else []))"

definition marshal_storage :: "cfg \<Rightarrow> string list" where
  "marshal_storage c =
     (let s = fld c ''Storage''; b = str_of (fld s ''Backend''); x = fld s ''S3''
      in [[], ''storage:'', ''  backend: '' @ b, ''  local:'', ''    data_dir: '' @ str_of (fld (fld s ''Local'') ''DataDir'')]
         @ (if b = ''s3''
            then [''  s3:'', ''    endpoint: '' @ str_of (fld x ''Endpoint''), ''    bucket: '' @ str_of (fld x ''Bucket''),
                  ''    region: '' @ str_of (fld x ''Region''), ''    access_key: '' @ str_of (fld x ''AccessKey'')]
                 @ (if str_of (fld x ''SecretKey'') \<noteq> [] then [''    secret_key: *****''] else [])
            else []))"

definition marshal_auth :: "cfg \<Rightarrow> string list" where
  "marshal_auth c =
     (let a = fld c ''Auth''
      in [[], ''auth:'', ''  jwt_secret: *****'', ''  access_token_ttl: '' @ duration_text (fld a ''AccessTokenTTL''),
          ''  refresh_token_ttl: '' @ duration_text (fld a ''RefreshTokenTTL''), ''  totp_enabled: '' @ bool_text (bool_of (fld a ''TOTPEnabled'')),
          ''  max_login_attempts: '' @ dec_int (int_of (fld a ''MaxLoginAttempts'')),
          ''  lockout_duration: '' @ duration_text (fld a ''LockoutDuration'')])"

definition marshal_sync :: "cfg \<Rightarrow> string list" where
  "marshal_sync c =
     (let s = fld c ''Sync''; e = fld c ''Encryption''
      in [[], ''sync:'', ''  chunk_size_min: '' @ dec_int (int_of (fld s ''ChunkSizeMin'')), ''  chunk_size_avg: '' @ dec_int (int_of (fld s ''ChunkSizeAvg'')),
          ''  chunk_size_max: '' @ dec_int (int_of (fld s ''ChunkSizeMax'')),
          ''  max_concurrent_transfers: '' @ dec_int (int_of (fld s ''MaxConcurrentTransfers'')),
          ''  websocket_enabled: '' @ bool_text (bool_of (fld s ''WebSocketEnabled'')),
          [], ''encryption:'', ''  enabled: '' @ bool_text (bool_of (fld e ''Enabled'')),
          ''  zero_knowledge: '' @ bool_text (bool_of (fld e ''ZeroKnowledge'')), ''  argon2_time: '' @ dec_int (int_of (fld e ''Argon2Time'')),
          ''  argon2_memory: '' @ dec_int (int_of (fld e ''Argon2Memory'')), ''  argon2_threads: '' @ dec_int (int_of (fld e ''Argon2Threads''))])"

definition marshal_rest :: "cfg \<Rightarrow> string list" where
  "marshal_rest c =
     (let h = fld c ''Sharing''; u = fld c ''Users''; l = fld c ''Logging''
      in [[], ''sharing:'', ''  public_links_enabled: '' @ bool_text (bool_of (fld h ''PublicLinksEnabled'')),
          ''  max_expiry_days: '' @ dec_int (int_of (fld h ''MaxExpiryDays'')), ''  default_expiry_days: '' @ dec_int (int_of (fld h ''DefaultExpiryDays'')),
          [], ''users:'', ''  registration_enabled: '' @ bool_text (bool_of (fld u ''RegistrationEnabled'')),
          ''  default_quota: '' @ dec_int (int_of (fld u ''DefaultQuota'')),
          [], ''logging:'', ''  level: '' @ str_of (fld l ''Level''), ''  file: '' @ str_of (fld l ''File''),
          ''  format: '' @ str_of (fld l ''Format''), ''  audit: '' @ bool_text (bool_of (fld l ''Audit'')),
          [], ''federation:'', ''  enabled: '' @ bool_text (bool_of (fld (fld c ''Federation'') ''Enabled''))])"

definition marshal_lines :: "cfg \<Rightarrow> string list" where
  "marshal_lines c =
     [''# VaultDrift Configuration File'', ''# Generated by interactive setup'', []] @ marshal_server c @ marshal_storage c
     @ [[], ''database:'', ''  path: '' @ str_of (fld (fld c ''Database'') ''Path'')] @ marshal_auth c @ marshal_sync c @ marshal_rest c"

definition marshalYAML :: "cfg \<Rightarrow> string" where
  "marshalYAML c = join_with [CHR 0x0A] (marshal_lines c)"

section \<open>validate.go\<close>

definition check :: "bool \<Rightarrow> string \<Rightarrow> string list" where
  "check bad e = (if bad then [e] else [])"

definition validate_server :: "cfg \<Rightarrow> string list" where
  "validate_server c =
     (let s = fld c ''Server''; t = fld s ''TLS''; u = str_of (fld s ''BaseURL'')
      in check (int_of (fld s ''Port'') < 1 \<or> int_of (fld s ''Port'') > 65535) ''server.port must be between 1 and 65535''
         @ check (u = []) ''server.base_url is required''
         @ check (\<not> has_prefix u ''http://'' \<and> \<not> has_prefix u ''https://'') ''server.base_url must start with http:// or https://''
         @ check (bool_of (fld t ''Enabled'') \<and> \<not> bool_of (fld t ''AutoCert'') \<and> (str_of (fld t ''CertFile'') = [] \<or> str_of (fld t ''KeyFile'') = []))
             ''server.tls.cert_file and server.tls.key_file are required when auto_cert is disabled'')"

definition validate_storage :: "cfg \<Rightarrow> string list" where
  "validate_storage c =
     (let s = fld c ''Storage''; b = str_of (fld s ''Backend'')
      in check (b \<noteq> ''local'' \<and> b \<noteq> ''s3'') ''storage.backend must be local or s3''
         @ check (b = ''local'' \<and> str_of (fld (fld s ''Local'') ''DataDir'') = []) ''storage.local.data_dir is required''
         @ check (b = ''s3'' \<and> str_of (fld (fld s ''S3'') ''Bucket'') = []) ''storage.s3.bucket is required''
         @ check (b = ''s3'' \<and> str_of (fld (fld s ''S3'') ''Region'') = []) ''storage.s3.region is required''
         @ check (str_of (fld (fld c ''Database'') ''Path'') = []) ''database.path is required'')"

definition secret_error :: string where
  "secret_error = ''auth.jwt_secret must be at least 32 characters''"

definition validate_auth :: "cfg \<Rightarrow> string list" where
  "validate_auth c =
     (let a = fld c ''Auth''
      in check (length (str_of (fld a ''JWTSecret'')) < 32) secret_error
         @ check (int_of (fld a ''AccessTokenTTL'') \<le> 0) ''auth.access_token_ttl must be positive''
         @ check (int_of (fld a ''RefreshTokenTTL'') \<le> 0) ''auth.refresh_token_ttl must be positive''
         @ check (int_of (fld a ''MaxLoginAttempts'') < 1) ''auth.max_login_attempts must be at least 1'')"

definition validate_sync :: "cfg \<Rightarrow> string list" where
  "validate_sync c =
     (let s = fld c ''Sync''; e = fld c ''Encryption''
      in check (int_of (fld s ''ChunkSizeMin'') < 1024) ''sync.chunk_size_min must be at least 1KB''
         @ check (int_of (fld s ''ChunkSizeAvg'') < int_of (fld s ''ChunkSizeMin'')) ''sync.chunk_size_avg must be >= chunk_size_min''
         @ check (int_of (fld s ''ChunkSizeMax'') < int_of (fld s ''ChunkSizeAvg'')) ''sync.chunk_size_max must be >= chunk_size_avg''
         @ check (int_of (fld s ''MaxConcurrentTransfers'') < 1) ''sync.max_concurrent_transfers must be at least 1''
         @ check (int_of (fld e ''Argon2Time'') < 1) ''encryption.argon2_time must be at least 1''
         @ check (int_of (fld e ''Argon2Memory'') < 8 * 1024) ''encryption.argon2_memory must be at least 8MB''
         @ check (int_of (fld e ''Argon2Threads'') < 1) ''encryption.argon2_threads must be at least 1'')"

definition validate_sharing :: "cfg \<Rightarrow> string list" where
  "validate_sharing c =
     (let h = fld c ''Sharing''; u = fld c ''Users''; q = int_of (fld u ''DefaultQuota''); x = int_of (fld u ''MaxQuota'')
      in check (int_of (fld h ''MaxExpiryDays'') < 1) ''sharing.max_expiry_days must be at least 1''
         @ check (int_of (fld h ''DefaultExpiryDays'') < 1) ''sharing.default_expiry_days must be at least 1''
         @ check (int_of (fld h ''DefaultExpiryDays'') > int_of (fld h ''MaxExpiryDays'')) ''sharing.default_expiry_days must be <= max_expiry_days''
         @ check (q < 0) ''users.default_quota must be non-negative''
         @ check (x < 0) ''users.max_quota must be non-negative (0 = unlimited)''
         @ check (x > 0 \<and> q > x) ''users.default_quota must be <= max_quota'')"

definition validate_smtp :: "cfg \<Rightarrow> string list" where
  "validate_smtp c =
     (let m = fld c ''SMTP''; l = fld c ''Logging'';
          on = bool_of (fld m ''Enabled'')
      in check (on \<and> str_of (fld m ''Host'') = []) ''smtp.host is required when smtp is enabled''
         @ check (on \<and> (int_of (fld m ''Port'') < 1 \<or> int_of (fld m ''Port'') > 65535)) ''smtp.port must be between 1 and 65535''
         @ check (on \<and> str_of (fld m ''From'') = []) ''smtp.from is required when smtp is enabled''
         @ check (str_of (fld l ''Level'') \<notin> {''debug'', ''info'', ''warn'', ''error''}) ''logging.level must be one of: debug, info, warn, error''
         @ check (str_of (fld l ''Format'') \<notin> {''json'', ''text''}) ''logging.format must be one of: json, text'')"

definition Validate :: "cfg \<Rightarrow> string list" where
  "Validate c = validate_server c @ validate_storage c @ validate_auth c @ validate_sync c @ validate_sharing c @ validate_smtp c"

definition IsDevelopment :: "cfg \<Rightarrow> bool" where
  "IsDevelopment c \<longleftrightarrow>
     (let u = str_of (fld (fld c ''Server'') ''BaseURL'') in u = [] \<or> has_sub u ''localhost'' \<or> has_sub u ''127.0.0.1'')"

text \<open>The directories in their order, up to the first that cannot be made: the ones made, and the error.\<close>

definition dir_list :: "cfg \<Rightarrow> string list" where
  "dir_list c =
     (let s = fld c ''Storage''; d = str_of (fld (fld s ''Local'') ''DataDir'');
          dbDir = path_Dir (str_of (fld (fld c ''Database'') ''Path'')); logDir = path_Dir (str_of (fld (fld c ''Logging'') ''File''))
      in (if str_of (fld s ''Backend'') = ''local'' then [d, filepath_Join [d, ''chunks'']] else [])
         @ (if dbDir \<noteq> [] \<and> dbDir \<noteq> ''.'' then [dbDir] else []) @ (if logDir \<noteq> [] \<and> logDir \<noteq> ''.'' then [logDir] else []))"

definition EnsureDirs :: "(string \<Rightarrow> bool) \<Rightarrow> cfg \<Rightarrow> string list \<times> string option" where
  "EnsureDirs mk c =
     (let ds = dir_list c; made = takeWhile mk ds
      in (made, if length made < length ds then Some (''failed to create directory '' @ ds ! length made) else None))"

section \<open>setup.go\<close>

text \<open>What the terminal delivers: the lines for the questions and, for each password, what the hidden
  reading returns, if it succeeds.\<close>

record terminal =
  tm_lines :: "string list"
  tm_hidden :: "string option list"

fun next_line :: "terminal \<Rightarrow> string \<times> terminal" where
  "next_line t = (case tm_lines t of [] \<Rightarrow> ([], t) | l # ls \<Rightarrow> (TrimSpace l, t\<lparr>tm_lines := ls\<rparr>))"

definition prompt :: "string \<Rightarrow> terminal \<Rightarrow> string \<times> terminal" where
  "prompt defaultValue t = (case next_line t of (input, t') \<Rightarrow> (if input = [] then defaultValue else input, t'))"

definition promptYN :: "bool \<Rightarrow> terminal \<Rightarrow> bool \<times> terminal" where
  "promptYN defaultValue t =
     (case next_line t of (input, t') \<Rightarrow>
        (if input = [] then defaultValue else ToLower input = ''y'' \<or> ToLower input = ''yes'', t'))"

definition promptSelect :: "string list \<Rightarrow> string \<Rightarrow> terminal \<Rightarrow> string \<times> terminal" where
  "promptSelect options defaultValue t =
     (case next_line t of (input, t') \<Rightarrow>
        (case atoi input of
           Some i \<Rightarrow> if 0 < i \<and> i \<le> int (length options) then (options ! nat (i - 1), t') else (defaultValue, t')
         | None \<Rightarrow> (defaultValue, t')))"

definition promptPassword :: "terminal \<Rightarrow> string \<times> terminal" where
  "promptPassword t =
     (case tm_hidden t of
        Some p # hs \<Rightarrow> if p \<noteq> [] then (p, t\<lparr>tm_hidden := hs\<rparr>) else next_line (t\<lparr>tm_hidden := hs\<rparr>)
      | None # hs \<Rightarrow> next_line (t\<lparr>tm_hidden := hs\<rparr>)
      | [] \<Rightarrow> next_line t)"

definition generateRandomSecret :: "byte list option \<Rightarrow> string" where
  "generateRandomSecret rnd =
     (case rnd of None \<Rightarrow> ''vaultdrift-fallback-secret-do-not-use-in-production'' | Some w \<Rightarrow> padded_encode std_alphabet w)"

text \<open>An assignment to a field of the struct.\<close>

fun assign :: "string list \<Rightarrow> cfg \<Rightarrow> cfg \<Rightarrow> cfg" where
  "assign [] x v = x"
| "assign (g # p) x (CfStruct es) = CfStruct (map (\<lambda>(g', y, c). (g', y, if g' = g then assign p x c else c)) es)"
| "assign (g # p) x v = v"

definition ask :: "string list \<Rightarrow> cfg \<times> terminal \<Rightarrow> cfg \<times> terminal" where
  "ask path ct = (case ct of (c, t) \<Rightarrow> (case prompt (str_of (foldl fld c path)) t of (x, t') \<Rightarrow> (assign path (CfString x) c, t')))"

definition setup_server :: "cfg \<times> terminal \<Rightarrow> cfg \<times> terminal" where
  "setup_server ct =
     (case ask [''Server'', ''Host''] ct of (c1, t1) \<Rightarrow>
      case prompt (dec_int (int_of (fld (fld c1 ''Server'') ''Port''))) t1 of (portStr, t2) \<Rightarrow>
      let c2 = (case atoi portStr of
                  Some n \<Rightarrow> if n > 0 \<and> n < 65536 then assign [''Server'', ''Port''] (CfInt n) c1 else c1
                | None \<Rightarrow> c1)
      in case ask [''Server'', ''BaseURL''] (c2, t2) of (c3, t3) \<Rightarrow>
      case promptYN (bool_of (fld (fld (fld c3 ''Server'') ''TLS'') ''Enabled'')) t3 of (tls, t4) \<Rightarrow>
      let c4 = assign [''Server'', ''TLS'', ''Enabled''] (CfBool tls) c3
      in if \<not> tls then (c4, t4)
         else (case promptYN False t4 of (auto, t5) \<Rightarrow>
           let c5 = assign [''Server'', ''TLS'', ''AutoCert''] (CfBool auto) c4
           in if auto then (c5, t5)
              else ask [''Server'', ''TLS'', ''KeyFile''] (ask [''Server'', ''TLS'', ''CertFile''] (c5, t5))))"

definition setup_storage :: "cfg \<times> terminal \<Rightarrow> cfg \<times> terminal" where
  "setup_storage ct =
     (case ct of (c, t) \<Rightarrow>
      case promptSelect [''local'', ''s3''] (str_of (fld (fld c ''Storage'') ''Backend'')) t of (b, t1) \<Rightarrow>
      let c1 = assign [''Storage'', ''Backend''] (CfString b) c
      in if b = ''local'' then ask [''Storage'', ''Local'', ''DataDir''] (c1, t1)
         else if b = ''s3''
         then (case ask [''Storage'', ''S3'', ''Region''] (ask [''Storage'', ''S3'', ''Bucket''] (ask [''Storage'', ''S3'', ''Endpoint''] (c1, t1))) of (c2, t2) \<Rightarrow>
               case prompt [] t2 of (key, t3) \<Rightarrow>
               case promptPassword t3 of (secret, t4) \<Rightarrow>
                 (assign [''Storage'', ''S3'', ''SecretKey''] (CfString secret) (assign [''Storage'', ''S3'', ''AccessKey''] (CfString key) c2), t4))
         else (c1, t1))"

text \<open>The name, the address and the password of the administrator are asked for and printed.\<close>

definition setup_auth :: "byte list option \<Rightarrow> cfg \<times> terminal \<Rightarrow> cfg \<times> terminal" where
  "setup_auth rnd ct =
     (case ask [''Database'', ''Path''] ct of (c, t) \<Rightarrow>
      case promptPassword t of (secret, t1) \<Rightarrow>
      let c1 = assign [''Auth'', ''JWTSecret''] (CfString (if secret \<noteq> [] then secret else generateRandomSecret rnd)) c
      in case promptYN (bool_of (fld (fld c1 ''Auth'') ''TOTPEnabled'')) t1 of (totp, t2) \<Rightarrow>
      let c2 = assign [''Auth'', ''TOTPEnabled''] (CfBool totp) c1
      in case promptYN True t2 of (admin, t3) \<Rightarrow>
      if \<not> admin then (c2, t3)
      else (assign [''Users'', ''RegistrationEnabled''] (CfBool True) c2,
            snd (promptPassword (snd (prompt ''admin@localhost'' (snd (prompt ''admin'' t3)))))))"

definition Save :: "(string \<Rightarrow> bool) \<Rightarrow> cfg \<Rightarrow> string \<Rightarrow> (string \<Rightarrow> config_file) \<Rightarrow> bool \<times> (string \<Rightarrow> config_file)" where
  "Save writes c path disk = (if writes path then (True, disk(path := Contents (marshalYAML c))) else (False, disk))"

definition InteractiveSetup :: "(string \<Rightarrow> bool) \<Rightarrow> (string \<Rightarrow> bool) \<Rightarrow> byte list option \<Rightarrow> string \<Rightarrow> terminal \<Rightarrow> (string \<Rightarrow> config_file)
    \<Rightarrow> cfg result \<times> (string \<Rightarrow> config_file)" where
  "InteractiveSetup mk writes rnd dataVar tm disk =
     (case setup_auth rnd (setup_storage (setup_server (DefaultConfig, tm))) of (c, t) \<Rightarrow>
      case prompt (if dataVar \<noteq> [] then dataVar else ''./data'') t of (dataDir, t1) \<Rightarrow>
      let c1 = assign [''Database'', ''Path''] (CfString (filepath_Join [dataDir, ''vaultdrift.db''])) c;
          c2 = assign [''Storage'', ''Local'', ''DataDir''] (CfString (filepath_Join [dataDir, ''storage''])) c1;
          c3 = assign [''Logging'', ''File''] (CfString (filepath_Join [dataDir, ''logs'', ''vaultdrift.log''])) c2
      in if \<not> mk dataDir then (Inl ''failed to create data directory'', disk)
         else if \<not> mk (filepath_Join [dataDir, ''logs'']) then (Inl ''failed to create logs directory'', disk)
         else if \<not> mk (filepath_Join [dataDir, ''storage'']) then (Inl ''failed to create storage directory'', disk)
         else (case prompt (filepath_Join [dataDir, ''config.yaml'']) t1 of (path, t2) \<Rightarrow>
           case Save writes c3 path disk of
             (False, d) \<Rightarrow> (Inl ''failed to save config'', d)
           | (True, d) \<Rightarrow> (Inr c3, d)))"

section \<open>main.go\<close>

text \<open>The configuration of a start: the given file, the one in the data directory, or the set-up.\<close>

definition loadConfig :: "(string \<Rightarrow> string option) \<Rightarrow> string list \<Rightarrow> (string \<Rightarrow> bool) \<Rightarrow> (string \<Rightarrow> bool) \<Rightarrow> byte list option \<Rightarrow> string
    \<Rightarrow> string \<Rightarrow> string \<Rightarrow> terminal \<Rightarrow> (string \<Rightarrow> config_file) \<Rightarrow> cfg result \<times> (string \<Rightarrow> config_file)" where
  "loadConfig float env mk writes rnd dataVar configPath dataDir tm disk =
     (if configPath \<noteq> [] then (Load float env disk configPath, disk)
      else if disk (dataDir @ ''/config.yaml'') \<noteq> Missing then (Load float env disk (dataDir @ ''/config.yaml''), disk)
      else InteractiveSetup mk writes rnd dataVar tm disk)"

definition starts :: "cfg result \<Rightarrow> bool" where
  "starts r = (case r of Inl e \<Rightarrow> False | Inr c \<Rightarrow> Validate c = [])"

text \<open>The sharing policy the server is built with: that of its own section.\<close>

definition server_sharing :: "cfg \<Rightarrow> sharing_config" where
  "server_sharing c =
     (let h = fld (fld c ''Server'') ''Sharing''
      in \<lparr>PublicLinksEnabled = bool_of (fld h ''PublicLinksEnabled''), PasswordRequired = bool_of (fld h ''PasswordRequired''),
          MaxExpiryDays = int_of (fld h ''MaxExpiryDays''), MaxDownloadLimit = int_of (fld h ''MaxDownloadLimit'')\<rparr>)"

section \<open>The shape of a configuration\<close>

text \<open>The tree with the values taken out.\<close>

fun shape :: "cfg \<Rightarrow> cfg" where
  "shape (CfString s) = CfString []"
| "shape (CfInt n) = CfInt 0"
| "shape (CfDuration d) = CfDuration 0"
| "shape (CfUint w n) = CfUint w 0"
| "shape (CfBool b) = CfBool False"
| "shape (CfFloat f) = CfFloat []"
| "shape (CfStrings ss) = CfStrings []"
| "shape (CfStruct es) = CfStruct (map (\<lambda>(g, y, c). (g, y, shape c)) es)"

lemma findField_bound: "findField nm es = Some i \<Longrightarrow> i < length es \<and> field_matches nm (es ! i)"
  by (induction es arbitrary: i) (auto split: if_split_asm)

lemma setValue_shape: "setValue float c x = Inr c' \<Longrightarrow> shape c' = shape c \<and> \<not> is_struct c"
  by (cases c; cases "parseDuration x") (auto simp: setValue_def Let_def split: option.split_asm)

lemma shape_put_field:
  assumes "i < length es" and "shape c = shape (snd (snd (es ! i)))"
  shows "shape (CfStruct (put_field i c es)) = shape (CfStruct es)"
proof -
  have "map (\<lambda>(g, y, c). (g, y, shape c)) (put_field i c es) = (map (\<lambda>(g, y, c). (g, y, shape c)) es)[i := (fst (es ! i), fst (snd (es ! i)), shape c)]"
    by (simp add: put_field_def map_update)
  also have "(fst (es ! i), fst (snd (es ! i)), shape c) = map (\<lambda>(g, y, c). (g, y, shape c)) es ! i"
    using assms by (simp add: case_prod_beta)
  finally show ?thesis by simp
qed

text \<open>What a successful assignment along a path does.\<close>

lemma setField_cases:
  assumes "setField float v (nm # path) x = Inr v'"
  obtains es i c where "v = CfStruct es" and "findField nm es = Some i" and "v' = CfStruct (put_field i c es)"
    and "if path = [] then setValue float (snd (snd (es ! i))) x = Inr c
         else is_struct (snd (snd (es ! i))) \<and> setField float (snd (snd (es ! i))) path x = Inr c"
proof (cases v)
  case (CfStruct es)
  with assms obtain i where i: "findField nm es = Some i" by (auto split: option.split_asm)
  show ?thesis
  proof (cases "path = []")
    case True
    with assms CfStruct i obtain c where "setValue float (snd (snd (es ! i))) x = Inr c" "v' = CfStruct (put_field i c es)"
      by (auto simp: Let_def map_sum_def split: sum.split_asm)
    with True CfStruct i that show ?thesis by simp
  next
    case False
    with assms CfStruct i obtain c where "setField float (snd (snd (es ! i))) path x = Inr c" "v' = CfStruct (put_field i c es)"
        "is_struct (snd (snd (es ! i)))"
      by (auto simp: Let_def map_sum_def split: sum.split_asm if_split_asm)
    with False CfStruct i that show ?thesis by simp
  qed
qed (use assms in simp_all)

lemma setField_shape: "setField float v path x = Inr v' \<Longrightarrow> shape v' = shape v"
proof (induction path arbitrary: v v')
  case (Cons nm path)
  from Cons.prems obtain es i c where d: "v = CfStruct es" "findField nm es = Some i" "v' = CfStruct (put_field i c es)"
      "if path = [] then setValue float (snd (snd (es ! i))) x = Inr c
       else is_struct (snd (snd (es ! i))) \<and> setField float (snd (snd (es ! i))) path x = Inr c"
    by (rule setField_cases)
  have "shape c = shape (snd (snd (es ! i)))"
  proof (cases "path = []")
    case True
    with d(4) have "setValue float (snd (snd (es ! i))) x = Inr c" by simp
    then show ?thesis using setValue_shape by blast
  next
    case False
    with d(4) Cons.IH [of "snd (snd (es ! i))" c] show ?thesis by simp
  qed
  then have "shape (CfStruct (put_field i c es)) = shape (CfStruct es)"
    using findField_bound [OF d(2)] by (intro shape_put_field) simp_all
  then show ?case unfolding d(1,3) .
qed simp

lemma yaml_line_shape: "shape (ym_cfg (yaml_line float line st)) = shape (ym_cfg st)"
  by (auto simp: yaml_line_def Let_def dest: setField_shape split: option.split sum.split)

lemma fold_yaml_shape: "shape (ym_cfg (fold (yaml_line float) ls st)) = shape (ym_cfg st)"
  by (induction ls arbitrary: st) (simp_all add: yaml_line_shape)

lemma loadFromEnv_shape: "loadFromEnv float es c = Inr c' \<Longrightarrow> shape c' = shape c"
  by (induction es arbitrary: c) (auto dest: setField_shape split: option.split_asm if_split_asm sum.split_asm)



section \<open>Environment variables\<close>

text \<open>Whether a path leads to a field: this depends on the shape only.\<close>

fun path_known :: "cfg \<Rightarrow> string list \<Rightarrow> bool" where
  "path_known v [] = True"
| "path_known (CfStruct es) (nm # path) =
     (case findField nm es of None \<Rightarrow> False
      | Some i \<Rightarrow> path = [] \<or> is_struct (snd (snd (es ! i))) \<and> path_known (snd (snd (es ! i))) path)"
| "path_known v (nm # path) = False"

lemma setField_known: "setField float v path x = Inr v' \<Longrightarrow> path_known v path"
proof (induction path arbitrary: v v')
  case (Cons nm path)
  from Cons.prems obtain es i c where d: "v = CfStruct es" "findField nm es = Some i"
      "if path = [] then setValue float (snd (snd (es ! i))) x = Inr c
       else is_struct (snd (snd (es ! i))) \<and> setField float (snd (snd (es ! i))) path x = Inr c"
    by (rule setField_cases)
  with Cons.IH [of "snd (snd (es ! i))" c] show ?case by (cases "path = []") simp_all
qed simp

lemma findField_shape: "findField nm (map (\<lambda>(g, y, c). (g, y, h c)) es) = findField nm es"
  by (induction es) (auto simp: field_matches_def)

lemma is_struct_shape [simp]: "is_struct (shape c) = is_struct c"
  by (cases c) simp_all

lemma path_known_shape: "path_known (shape v) path = path_known v path"
proof (induction path arbitrary: v)
  case (Cons nm path)
  show ?case
  proof (cases v)
    case (CfStruct es)
    have "path_known (snd (snd (map (\<lambda>(g, y, c). (g, y, shape c)) es ! i))) path = path_known (snd (snd (es ! i))) path
        \<and> is_struct (snd (snd (map (\<lambda>(g, y, c). (g, y, shape c)) es ! i))) = is_struct (snd (snd (es ! i)))"
      if "findField nm es = Some i" for i
      using findField_bound [OF that] Cons.IH [of "snd (snd (es ! i))"] by (simp add: case_prod_beta)
    then show ?thesis by (auto simp: CfStruct findField_shape split: option.split)
  qed simp_all
qed simp

text \<open>Variables of the documentation and of the examples (\<^verbatim>\<open>README.md\<close>, \<^verbatim>\<open>docs/DEPLOYMENT.md\<close>, \<^verbatim>\<open>.env.example\<close>).\<close>

definition documented_variables :: "string list" where
  "documented_variables = [''AUTH_JWT_SECRET'', ''STORAGE_S3_ACCESS_KEY'', ''STORAGE_S3_SECRET_KEY'', ''STORAGE_LOCAL_PATH'', ''LOG_LEVEL'', ''SERVER_BASE_URL'']"

lemmas cfg_eval = DefaultConfig_def default_server_def default_storage_def default_auth_def default_sync_def default_encryption_def
  default_users_def default_smtp_def default_logging_def default_tracing_def default_federation_def sharing_fields_def
  field_matches_def EqualFold_def ToLower_def lower_char_code Let_def

lemma documented_unknown:
  "\<not> path_known DefaultConfig (split_on CHR ''_'' (ToLower ''AUTH_JWT_SECRET''))"
  "\<not> path_known DefaultConfig (split_on CHR ''_'' (ToLower ''STORAGE_S3_ACCESS_KEY''))"
  "\<not> path_known DefaultConfig (split_on CHR ''_'' (ToLower ''STORAGE_S3_SECRET_KEY''))"
  "\<not> path_known DefaultConfig (split_on CHR ''_'' (ToLower ''STORAGE_LOCAL_PATH''))"
  "\<not> path_known DefaultConfig (split_on CHR ''_'' (ToLower ''LOG_LEVEL''))"
  "\<not> path_known DefaultConfig (split_on CHR ''_'' (ToLower ''SERVER_BASE_URL''))"
  by (simp_all add: cfg_eval)

lemma documented_no_equals: "k \<in> set documented_variables \<Longrightarrow> CHR ''='' \<notin> set (env_prefix @ k)"
  by (auto simp: documented_variables_def env_prefix_def)

lemma split_two_append: "c \<notin> set k \<Longrightarrow> split_two c (k @ c # x) = Some (k, x)"
  by (simp add: split_two_def takeWhile_append dropWhile_append)

lemma unknown_variable_fails:
  assumes "shape c = shape DefaultConfig" and "\<not> path_known DefaultConfig (split_on CHR ''_'' (ToLower k))"
    and "CHR ''='' \<notin> set (env_prefix @ k)" and "env_prefix @ k @ ''='' @ x \<in> set env"
  shows "\<exists>e. loadFromEnv float env c = Inl e"
  using assms(1,4)
proof (induction env arbitrary: c)
  case (Cons v env)
  show ?case
  proof (cases "v = env_prefix @ k @ ''='' @ x")
    case True
    have "split_two CHR ''='' v = Some (env_prefix @ k, x)"
      using split_two_append [OF assms(3), of x] by (simp add: True)
    moreover have "\<not> path_known c (split_on CHR ''_'' (ToLower k))"
      using assms(2) Cons.prems(1) path_known_shape by metis
    then have "\<exists>e. setField float c (split_on CHR ''_'' (ToLower k)) x = Inl e"
      using setField_known by (metis Inl_Inr_False obj_sumE)
    ultimately show ?thesis by (auto simp: trim_prefix_append)
  next
    case False
    then have m: "env_prefix @ k @ ''='' @ x \<in> set env" using Cons.prems(2) by simp
    show ?thesis using Cons.IH [OF Cons.prems(1) m] Cons.IH [OF _ m] setField_shape [of float c] Cons.prems(1)
      by (auto split: option.split sum.split)
  qed
qed simp



section \<open>The saved file\<close>

definition secret :: "cfg \<Rightarrow> string" where
  "secret c = str_of (fld (fld c ''Auth'') ''JWTSecret'')"

text \<open>Whether the last name of a path can stand for the secret.\<close>

definition is_secret :: "string \<Rightarrow> bool" where
  "is_secret nm \<longleftrightarrow> EqualFold ''JWTSecret'' nm \<or> ''jwt_secret'' = nm"

text \<open>What the shape says about the place of the secret.\<close>

definition auth_entry_ok :: "string \<times> string \<times> cfg \<Rightarrow> bool" where
  "auth_entry_ok e \<longleftrightarrow> (case e of (g, y, c) \<Rightarrow> g = ''Auth'' \<longrightarrow> (case c of CfStruct as \<Rightarrow> distinct (map fst as)
     \<and> (\<forall>(g, y, c) \<in> set as. g = ''JWTSecret'' \<longrightarrow> y = ''jwt_secret'' \<and> \<not> is_struct c) | _ \<Rightarrow> False))"

definition config_ok :: "cfg \<Rightarrow> bool" where
  "config_ok c \<longleftrightarrow> (case c of CfStruct es \<Rightarrow> distinct (map fst es) \<and> (\<forall>e \<in> set es. is_struct (snd (snd e)) \<and> auth_entry_ok e) | _ \<Rightarrow> False)"

lemma auth_entry_shape: "auth_entry_ok (g, y, shape c) \<Longrightarrow> auth_entry_ok (g, y, c)"
  by (cases c) (auto simp: auth_entry_ok_def o_def case_prod_beta)

lemma config_ok_shape: "config_ok (shape c) \<Longrightarrow> config_ok c"
proof (cases c)
  case (CfStruct es)
  assume "config_ok (shape c)"
  then have d: "distinct (map fst es)" and e: "\<forall>(g, y, x) \<in> set es. is_struct x \<and> auth_entry_ok (g, y, shape x)"
    by (auto simp: CfStruct config_ok_def o_def case_prod_beta)
  with auth_entry_shape show ?thesis by (fastforce simp: CfStruct config_ok_def)
qed (simp_all add: config_ok_def)

lemma config_ok_default: "config_ok (shape DefaultConfig)"
  unfolding config_ok_def DefaultConfig_def by (simp add: auth_entry_ok_def default_server_def default_storage_def default_auth_def default_sync_def
    default_encryption_def default_users_def default_smtp_def default_logging_def default_tracing_def default_federation_def sharing_fields_def)

lemma config_ok_loaded: "shape c = shape DefaultConfig \<Longrightarrow> config_ok c"
  using config_ok_shape [of c] config_ok_default by metis

text \<open>Reading a field after one has been replaced.\<close>

lemma fld_put_other: "fst (es ! i) \<noteq> g \<Longrightarrow> i < length es \<Longrightarrow> fld (CfStruct (put_field i c es)) g = fld (CfStruct es) g"
proof (induction es arbitrary: i)
  case (Cons e es)
  then show ?case by (cases i; cases e) (simp_all add: put_field_def)
qed simp

lemma fld_put_same: "fst (es ! i) = g \<Longrightarrow> i < length es \<Longrightarrow> distinct (map fst es) \<Longrightarrow>
    fld (CfStruct (put_field i c es)) g = c \<and> fld (CfStruct es) g = snd (snd (es ! i))"
proof (induction es arbitrary: i)
  case (Cons e es)
  show ?case
  proof (cases i)
    case 0
    with Cons.prems show ?thesis by (cases e) (simp add: put_field_def)
  next
    case (Suc j)
    with Cons.prems have "g \<in> fst ` set es" by auto
    with Cons.prems(3) have "fst e \<noteq> g" by auto
    with Suc Cons show ?thesis by (cases e) (simp add: put_field_def)
  qed
qed simp

lemma setValue_str: "setValue float c x = Inr c' \<Longrightarrow> str_of c' = str_of c \<or> str_of c' = x"
  by (cases c; cases "parseDuration x") (auto simp: setValue_def Let_def split: option.split_asm)

lemma setField_auth:
  assumes "setField float (CfStruct as) path x = Inr a'" and "path \<noteq> []" and "distinct (map fst as)"
    and "\<forall>(g, y, c) \<in> set as. g = ''JWTSecret'' \<longrightarrow> y = ''jwt_secret'' \<and> \<not> is_struct c"
  shows "str_of (fld a' ''JWTSecret'') = str_of (fld (CfStruct as) ''JWTSecret'')
    \<or> is_secret (last path) \<and> str_of (fld a' ''JWTSecret'') = x"
proof -
  obtain nm p where path: "path = nm # p" using assms(2) by (cases path) auto
  from assms(1) [unfolded path] obtain es i c where d: "CfStruct as = CfStruct es" "findField nm es = Some i" "a' = CfStruct (put_field i c es)"
      "if p = [] then setValue float (snd (snd (es ! i))) x = Inr c
       else is_struct (snd (snd (es ! i))) \<and> setField float (snd (snd (es ! i))) p x = Inr c"
    by (rule setField_cases)
  have as: "es = as" using d(1) by simp
  obtain g y f where e: "as ! i = (g, y, f)" by (cases "as ! i") auto
  have b: "i < length as" "field_matches nm (as ! i)" using findField_bound [OF d(2)] as by simp_all
  show ?thesis
  proof (cases "g = ''JWTSecret''")
    case False
    with fld_put_other [of as i "''JWTSecret''" c] b(1) e show ?thesis by (simp add: d(3) as)
  next
    case True
    have "(g, y, f) \<in> set as" using b(1) e by (metis nth_mem)
    with assms(4) True have y: "y = ''jwt_secret''" "\<not> is_struct f" by auto
    then have p: "p = []" using d(4) by (auto simp: as e split: if_split_asm)
    have v: "setValue float f x = Inr c" using d(4) by (simp add: as e p)
    have s: "is_secret nm" using b(2) y(1) True by (auto simp: e field_matches_def is_secret_def)
    have "fld a' ''JWTSecret'' = c \<and> fld (CfStruct as) ''JWTSecret'' = f"
      using fld_put_same [of as i "''JWTSecret''" c] b(1) True assms(3) by (simp add: d(3) as e)
    with setValue_str [OF v] s show ?thesis by (auto simp: path p)
  qed
qed

lemma setField_secret:
  assumes "setField float v path x = Inr v'" and "path \<noteq> []" and "config_ok v"
  shows "secret v' = secret v \<or> is_secret (last path) \<and> secret v' = x"
proof -
  obtain nm p where path: "path = nm # p" using assms(2) by (cases path) auto
  from assms(1) [unfolded path] obtain es i c where d: "v = CfStruct es" "findField nm es = Some i" "v' = CfStruct (put_field i c es)"
      "if p = [] then setValue float (snd (snd (es ! i))) x = Inr c
       else is_struct (snd (snd (es ! i))) \<and> setField float (snd (snd (es ! i))) p x = Inr c"
    by (rule setField_cases)
  obtain g y f where e: "es ! i = (g, y, f)" by (cases "es ! i") auto
  have b: "i < length es" using findField_bound [OF d(2)] by simp
  have ok: "distinct (map fst es)" "is_struct f" "auth_entry_ok (g, y, f)"
    using assms(3) b e nth_mem [OF b] by (auto simp: d(1) config_ok_def)
  then have p: "p \<noteq> []" using d(4) by (auto simp: e dest: setValue_shape)
  have i: "setField float f p x = Inr c" using d(4) by (simp add: e p)
  show ?thesis
  proof (cases "g = ''Auth''")
    case False
    with fld_put_other [of es i "''Auth''" c] b e show ?thesis by (simp add: secret_def d(1,3))
  next
    case True
    with ok(3) obtain as where as: "f = CfStruct as" "distinct (map fst as)"
        "\<forall>(g, y, c) \<in> set as. g = ''JWTSecret'' \<longrightarrow> y = ''jwt_secret'' \<and> \<not> is_struct c"
      by (auto simp: auth_entry_ok_def split: cfg.split_asm)
    have "fld v' ''Auth'' = c \<and> fld v ''Auth'' = f"
      using fld_put_same [of es i "''Auth''" c] b e True ok(1) by (simp add: d(1,3))
    with setField_auth [OF i [unfolded as(1)] p as(2,3)] show ?thesis
      by (simp add: secret_def path p as(1))
  qed
qed

text \<open>The key of a line; the lines that are saved and their keys.\<close>

definition key_of :: "string \<Rightarrow> string" where
  "key_of line = TrimSpace (takeWhile (\<lambda>c. c \<noteq> CHR '':'') (dropWhile is_space line))"

definition masked_line :: string where
  "masked_line = ''  jwt_secret: *****''"

lemma key_of_split: "split_two CHR '':'' (TrimSpace line) = Some (k, v) \<Longrightarrow> TrimSpace k = key_of line"
proof -
  assume s: "split_two CHR '':'' (TrimSpace line) = Some (k, v)"
  define d where "d = dropWhile is_space line"
  have "d = rev (takeWhile is_space (rev d) @ dropWhile is_space (rev d))" by simp
  then have d: "d = TrimSpace line @ rev (takeWhile is_space (rev d))" unfolding rev_append by (simp add: TrimSpace_def d_def)
  from s have m: "CHR '':'' \<in> set (TrimSpace line)" "k = takeWhile (\<lambda>c. c \<noteq> CHR '':'') (TrimSpace line)"
    by (auto simp: split_two_def split: if_split_asm)
  have "takeWhile (\<lambda>c. c \<noteq> CHR '':'') d = k"
    using m by (subst d) (simp add: takeWhile_append1 [of "CHR '':''"])
  then show ?thesis by (simp add: key_of_def d_def)
qed

lemma masked_value: "split_two CHR '':'' (TrimSpace masked_line) = Some (k, v) \<Longrightarrow> TrimSpace v = ''*****''"
  by (auto simp: masked_line_def split_two_def TrimSpace_def is_space_def)

lemma yaml_line_secret:
  assumes "\<not> is_secret (key_of line) \<or> line = masked_line" and "config_ok (ym_cfg st)" and "length (secret (ym_cfg st)) < 32"
  shows "length (secret (ym_cfg (yaml_line float line st))) < 32"
proof (cases "split_two CHR '':'' (TrimSpace line)")
  case None
  with assms(3) show ?thesis by (simp add: yaml_line_def Let_def)
next
  case (Some kv)
  obtain k v where kv: "kv = (k, v)" by (cases kv)
  let ?p = "outdent (indent_of line) (ym_indent st) (ym_path st) @ [TrimSpace k]"
  have k: "TrimSpace k = key_of line" using Some kv key_of_split by simp
  have "length (secret c) < 32" if c: "setField float (ym_cfg st) ?p (TrimSpace v) = Inr c" for c
  proof -
    have "secret c = secret (ym_cfg st) \<or> is_secret (key_of line) \<and> secret c = TrimSpace v"
      using setField_secret [OF c _ assms(2)] k by simp
    moreover have "TrimSpace v = ''*****''" if "line = masked_line"
      using masked_value [of k v] Some kv that by simp
    ultimately show ?thesis using assms(1,3) by auto
  qed
  with assms(3) Some kv show ?thesis by (auto simp: yaml_line_def Let_def split: sum.split)
qed

lemma fold_yaml_secret:
  assumes "\<forall>line \<in> set ls. \<not> is_secret (key_of line) \<or> line = masked_line"
    and "shape (ym_cfg st) = shape DefaultConfig" and "length (secret (ym_cfg st)) < 32"
  shows "length (secret (ym_cfg (fold (yaml_line float) ls st))) < 32"
  using assms
proof (induction ls arbitrary: st)
  case (Cons l ls)
  have "length (secret (ym_cfg (yaml_line float l st))) < 32"
    using Cons.prems config_ok_loaded [OF Cons.prems(2)] by (intro yaml_line_secret) auto
  with Cons.IH [of "yaml_line float l st"] Cons.prems show ?case by (simp add: yaml_line_shape)
qed simp

lemmas key_eval = key_of_def TrimSpace_def is_space_def is_secret_def EqualFold_def ToLower_def lower_char_code masked_line_def

definition safe_line :: "string \<Rightarrow> bool" where
  "safe_line line \<longleftrightarrow> \<not> is_secret (key_of line) \<or> line = masked_line"

lemma safe_server: "list_all safe_line (marshal_server c)"
  unfolding marshal_server_def Let_def by (simp add: safe_line_def key_eval)

lemma safe_storage: "list_all safe_line (marshal_storage c)"
  unfolding marshal_storage_def Let_def by (simp add: safe_line_def key_eval)

lemma safe_auth: "list_all safe_line (marshal_auth c)"
  unfolding marshal_auth_def Let_def by (simp add: safe_line_def key_eval)

lemma safe_sync: "list_all safe_line (marshal_sync c)"
  unfolding marshal_sync_def Let_def by (simp add: safe_line_def key_eval)

lemma safe_rest: "list_all safe_line (marshal_rest c)"
  unfolding marshal_rest_def Let_def by (simp add: safe_line_def key_eval)

lemma saved_keys: "line \<in> set (marshal_lines c) \<Longrightarrow> safe_line line"
proof -
  have "list_all safe_line (marshal_lines c)"
    using safe_server safe_storage safe_auth safe_sync safe_rest
    unfolding marshal_lines_def by (simp add: safe_line_def key_eval)
  then show "line \<in> set (marshal_lines c) \<Longrightarrow> safe_line line" by (simp add: list_all_iff)
qed

lemma dec_nat_newline: "CHR 0x0A \<notin> set (dec_nat n)"
proof
  assume "CHR 0x0A \<in> set (dec_nat n)"
  then have "is_digit (CHR 0x0A)" by (rule dec_nat_digits)
  then show False by (simp add: is_digit_def)
qed

lemma loadFromEnv_foreign:
  "\<forall>e \<in> set env. \<not> has_prefix e env_prefix \<Longrightarrow> loadFromEnv float env c = Inr c"
proof (induction env)
  case (Cons e env)
  have "\<not> has_prefix k env_prefix" if "split_two CHR ''='' e = Some (k, v)" for k v
  proof
    assume "has_prefix k env_prefix"
    moreover have "has_prefix e k"
      using that takeWhile_dropWhile_id [of "\<lambda>c. c \<noteq> CHR ''=''" e]
      by (auto simp: split_two_def has_prefix_iff simp del: takeWhile_dropWhile_id split: if_split_asm intro: sym)
    ultimately have "has_prefix e env_prefix" unfolding has_prefix_iff by auto
    with Cons.prems show False by simp
  qed
  with Cons show ?case by (auto split: option.split)
qed simp

lemma secret_default: "secret DefaultConfig = []"
  by (simp add: secret_def DefaultConfig_def default_auth_def)

text \<open>A saved configuration does not start the server again.  The writer masks the secret that signs the
  tokens, and the reader takes the mask for the secret: it has five characters, so the validation
  refuses the configuration, whatever was saved.\<close>

theorem saved_configuration_never_starts:
  assumes "\<forall>line \<in> set (marshal_lines c). CHR 0x0A \<notin> set line" and "\<forall>e \<in> set env. \<not> has_prefix e ''VAULTDRIFT_''"
    and "disk path = Contents (marshalYAML c)" and "path \<noteq> []"
  shows "\<exists>c'. Load float env disk path = Inr c' \<and> ''auth.jwt_secret must be at least 32 characters'' \<in> set (Validate c')"
proof -
  let ?c = "unmarshalYAML float (marshalYAML c) DefaultConfig"
  have "split_on CHR 0x0A (marshalYAML c) = marshal_lines c"
    unfolding marshalYAML_def using assms(1) by (intro split_join) (simp_all add: marshal_lines_def)
  then have "length (secret ?c) < 32"
    unfolding unmarshalYAML_def using saved_keys [of _ c] by (simp add: fold_yaml_secret safe_line_def secret_default)
  then have "secret_error \<in> set (Validate ?c)"
    by (simp add: Validate_def validate_auth_def Let_def secret_def check_def)
  moreover have "Load float env disk path = Inr ?c"
    using assms(2-4) by (simp add: Load_def loadFromEnv_foreign env_prefix_def)
  ultimately show ?thesis by (simp add: secret_error_def)
qed

theorem saved_configuration_never_starts_witness:
  "\<exists>c'. Load Some [''HOME=/root''] (\<lambda>p. Contents (marshalYAML DefaultConfig)) ''config.yaml'' = Inr c'
     \<and> ''auth.jwt_secret must be at least 32 characters'' \<in> set (Validate c')"
proof (rule saved_configuration_never_starts)
  show "\<forall>line \<in> set (marshal_lines DefaultConfig). CHR 0x0A \<notin> set line"
    unfolding marshal_lines_def marshal_server_def marshal_storage_def marshal_auth_def marshal_sync_def marshal_rest_def
    by (simp add: cfg_eval seconds_def minutes_def dec_int_def bool_text_def duration_text_def formatDuration_def
        dec_nat_newline del: dec_nat.simps)
qed simp_all

section \<open>The sharing policy\<close>

text \<open>The policy depends on the section of the server only.\<close>

lemma server_sharing_default: "PublicLinksEnabled (server_sharing (assign [''Sharing''] h DefaultConfig)) = False"
  by (simp add: server_sharing_def DefaultConfig_def default_server_def sharing_fields_def)

text \<open>The sharing section does not switch links on.  The server is built with the sharing policy of its
  own section, which no default sets, and not with the documented, saved and validated section
  \<open>sharing\<close>: whatever that section says, the request for a link to a file of one's own is refused as
  disabled, and nothing changes.\<close>

theorem sharing_section_is_ignored:
  assumes "owned_file userID fileID (t_db t) = Inr f" and "sr_type q = ''link''"
  shows "createShare E (server_sharing (assign [''Sharing''] h DefaultConfig)) userID fileID (Some q) t =
    (Refused 403 ''Public links are disabled'', t, [])"
  using assms by (simp add: createShare_def share_refused_def server_sharing_default)

theorem sharing_section_is_ignored_witness:
  "createShare share_demo_env (server_sharing (assign [''Sharing''] (sharing_fields True 90 7 False 1000) DefaultConfig)) ''u'' ''f''
     (Some share_demo_request) (share_demo None) = (Refused 403 ''Public links are disabled'', share_demo None, [])"
proof -
  obtain f where "owned_file ''u'' ''f'' (t_db (share_demo None)) = Inr f"
    by (auto simp: owned_file_def GetFile_def GetFileByID_def share_demo_def sample_file_def)
  then show ?thesis by (rule sharing_section_is_ignored) (simp add: share_demo_request_def)
qed

end
