(* ===== verification/Fuse.thy ===== *)
theory Fuse
  imports Content Webdav
begin

text \<open>
  The FUSE mount (\<^verbatim>\<open>src/internal/fuse/fuse.go\<close>): directory and file nodes, open files with their
  buffers, and the release that chunks a changed buffer and stores it.  The kernel side and the
  library that carries its requests are not part of the program; a node is what its fields say, the
  clock, the random parts of ids and the hash are parameters.
\<close>

section \<open>Nodes and handles\<close>

datatype errno = OK | EIO | ENOENT

record 'b fuse_env =
  fe_user :: string
  fe_sha :: "byte list \<Rightarrow> string"
  fe_chunker :: chunker
  fe_backend :: "'b backend option"
  fe_rnd :: string
  fe_clk :: "nat \<Rightarrow> int"

record file_node =
  fn_id :: string
  fn_size :: nat
  fn_mode :: nat

text \<open>\<open>None\<close> is the nil buffer of a file that has been opened.\<close>

record file_handle =
  fh_file :: string
  fh_data :: "byte list option"
  fh_dirty :: bool

datatype inode = DirNode string | FileNode file_node

definition S_IFDIR :: nat where
  "S_IFDIR = 0x4000"

definition S_IFREG :: nat where
  "S_IFREG = 0x8000"

definition dir_mode :: nat where
  "dir_mode = S_IFDIR + 0x1ED"

definition file_mode :: nat where
  "file_mode = S_IFREG + 0x1A4"

definition uint64 :: "int \<Rightarrow> nat" where
  "uint64 n = nat (n mod 2 ^ 64)"

section \<open>Directories\<close>

definition fuse_Lookup :: "'b fuse_env \<Rightarrow> string \<Rightarrow> string \<Rightarrow> database \<Rightarrow> errno \<times> inode option" where
  "fuse_Lookup E folderID nm d =
     (case find_row (\<lambda>e. f_name e = nm) (vfs_ListDirectory (fe_user E) folderID 1000 0 d) of
        None \<Rightarrow> (ENOENT, None)
      | Some e \<Rightarrow>
          if f_type e = ''folder'' then (OK, Some (DirNode (f_id e)))
          else (OK, Some (FileNode \<lparr>fn_id = f_id e, fn_size = uint64 (f_size e), fn_mode = file_mode\<rparr>)))"

definition fuse_Readdir :: "'b fuse_env \<Rightarrow> string \<Rightarrow> database \<Rightarrow> (string \<times> nat) list" where
  "fuse_Readdir E folderID d =
     map (\<lambda>e. (f_name e, if f_type e = ''folder'' then S_IFDIR else S_IFREG)) (vfs_ListDirectory (fe_user E) folderID 1000 0 d)"

definition dir_Getattr :: "nat \<times> nat" where
  "dir_Getattr = (dir_mode, 4096)"

text \<open>The new folder is looked for among the first hundred entries.\<close>

definition fuse_Mkdir :: "'b fuse_env \<Rightarrow> string \<Rightarrow> string \<Rightarrow> database \<Rightarrow> (errno \<times> inode option) \<times> database" where
  "fuse_Mkdir E folderID nm d =
     (case CreateFolder (fe_rnd E) (fe_clk E 0) (fe_user E) folderID nm d of
        Inl e \<Rightarrow> ((EIO, None), d)
      | Inr (_, d') \<Rightarrow>
          ((OK, Some (DirNode
              (case find_row (\<lambda>e. f_name e = nm \<and> f_type e = ''folder'') (vfs_ListDirectory (fe_user E) folderID 100 0 d') of
                 None \<Rightarrow> [] | Some e \<Rightarrow> f_id e))), d'))"

definition fuse_Create :: "'b fuse_env \<Rightarrow> string \<Rightarrow> string \<Rightarrow> database \<Rightarrow> (errno \<times> (file_node \<times> file_handle) option) \<times> database" where
  "fuse_Create E folderID nm d =
     (case vfs_CreateFile (fe_rnd E) (fe_clk E 0) (fe_user E) folderID nm ''application/octet-stream'' 0 d of
        Inl e \<Rightarrow> ((EIO, None), d)
      | Inr (f, d') \<Rightarrow>
          ((OK, Some (\<lparr>fn_id = f_id f, fn_size = 0, fn_mode = file_mode\<rparr>, \<lparr>fh_file = f_id f, fh_data = Some [], fh_dirty = False\<rparr>)), d'))"

definition remove_entry :: "'b fuse_env \<Rightarrow> string \<Rightarrow> string \<Rightarrow> string \<Rightarrow> database \<Rightarrow> errno \<times> database" where
  "remove_entry E ty folderID nm d =
     (case find_row (\<lambda>e. f_name e = nm \<and> f_type e = ty) (vfs_ListDirectory (fe_user E) folderID 1000 0 d) of
        None \<Rightarrow> (ENOENT, d)
      | Some e \<Rightarrow> (case vfs_Delete (fe_clk E 0) (f_id e) d of Inl x \<Rightarrow> (EIO, d) | Inr d' \<Rightarrow> (OK, d')))"

definition fuse_Unlink :: "'b fuse_env \<Rightarrow> string \<Rightarrow> string \<Rightarrow> database \<Rightarrow> errno \<times> database" where
  "fuse_Unlink E = remove_entry E ''file''"

definition fuse_Rmdir :: "'b fuse_env \<Rightarrow> string \<Rightarrow> string \<Rightarrow> database \<Rightarrow> errno \<times> database" where
  "fuse_Rmdir E = remove_entry E ''folder''"

section \<open>Files\<close>

definition file_Getattr :: "file_node \<Rightarrow> nat \<times> nat" where
  "file_Getattr n = (fn_mode n, fn_size n)"

definition fuse_Open :: "file_node \<Rightarrow> file_handle" where
  "fuse_Open n = \<lparr>fh_file = fn_id n, fh_data = None, fh_dirty = False\<rparr>"

definition data_of :: "file_handle \<Rightarrow> byte list" where
  "data_of h = (case fh_data h of None \<Rightarrow> [] | Some w \<Rightarrow> w)"

text \<open>The loading of an opened file: the chunk records are read, their content is not.\<close>

definition load_data :: "file_handle \<Rightarrow> database \<Rightarrow> errno \<times> bool" where
  "load_data h d =
     (case GetFile (fh_file h) d of
        Inl e \<Rightarrow> (EIO, False)
      | Inr f \<Rightarrow>
          (case f_manifest f of
             None \<Rightarrow> (OK, False)
           | Some i \<Rightarrow>
               if i = [] then (OK, False)
               else (case GetManifest i d of
                       Inl e \<Rightarrow> (EIO, False)
                     | Inr m \<Rightarrow> if \<exists>c \<in> set (m_chunks m). \<forall>r. GetChunk c d \<noteq> Inr r then (EIO, False) else (OK, True))))"

text \<open>A read of \<open>n\<close> bytes.\<close>

definition read_at :: "byte list \<Rightarrow> nat \<Rightarrow> int \<Rightarrow> byte list outcome" where
  "read_at w n off =
     (if off \<ge> int (length w) then Returns []
      else (let end_at = wrap64 (off + int n); stop = (if end_at > int (length w) then int (length w) else end_at)
            in if off < 0 \<or> stop < off then Panics else Returns (take (nat (stop - off)) (drop (nat off) w))))"

definition fuse_Read :: "file_handle \<Rightarrow> nat \<Rightarrow> int \<Rightarrow> database \<Rightarrow> (errno \<times> byte list \<times> file_handle) outcome" where
  "fuse_Read h n off d =
     (case fh_data h of
        Some w \<Rightarrow> obind (read_at w n off) (\<lambda>x. Returns (OK, x, h))
      | None \<Rightarrow>
          (case load_data h d of
             (e, False) \<Rightarrow> Returns (e, [], h)
           | (_, True) \<Rightarrow> obind (read_at [] n off) (\<lambda>x. Returns (OK, x, h))))"

definition pad :: "nat \<Rightarrow> byte list \<Rightarrow> byte list" where
  "pad n w = take n w @ replicate (n - length w) 0"

text \<open>\<^verbatim>\<open>copy(buf[off:], w)\<close>.\<close>

definition overlay :: "byte list \<Rightarrow> nat \<Rightarrow> byte list \<Rightarrow> byte list" where
  "overlay buf off w = take off buf @ take (length buf - off) w @ drop (off + length w) buf"

definition fuse_Write :: "byte list \<Rightarrow> int \<Rightarrow> file_node \<times> file_handle \<Rightarrow> (nat \<times> file_node \<times> file_handle) outcome" where
  "fuse_Write w off nh =
     (case nh of (n, h) \<Rightarrow>
        (let end_at = wrap64 (off + int (length w));
             buf = (if end_at > int (length (data_of h)) then pad (nat end_at) (data_of h) else data_of h);
             grown = (if end_at > int (length (data_of h)) then Some buf else fh_data h)
         in if off < 0 \<or> off > int (length buf) then Panics
            else Returns (length w, n\<lparr>fn_size := length buf\<rparr>,
                   h\<lparr>fh_data := map_option (\<lambda>b. overlay b (nat off) w) grown, fh_dirty := True\<rparr>)))"

text \<open>The size of an attribute change, with and without an open file.\<close>

definition fuse_Setattr :: "nat option \<Rightarrow> file_node \<times> file_handle option \<Rightarrow> (file_node \<times> file_handle option) outcome" where
  "fuse_Setattr sz nh =
     (case nh of (n, mh) \<Rightarrow>
        (case sz of
           None \<Rightarrow> Returns (n, mh)
         | Some s \<Rightarrow>
             (let n' = n\<lparr>fn_size := s\<rparr>
              in case mh of
                   None \<Rightarrow> Returns (n', None)
                 | Some h \<Rightarrow>
                     if int (length (data_of h)) = wrap64 (int s) then Returns (n', Some h)
                     else if s \<ge> 2 ^ 63 then Panics
                     else Returns (n', Some (h\<lparr>fh_data := Some (pad s (data_of h)), fh_dirty := True\<rparr>)))))"

section \<open>Release\<close>

definition charset :: string where
  "charset = ''abcdefghijklmnopqrstuvwxyzABCDEFGHIJKLMNOPQRSTUVWXYZ0123456789''"

text \<open>\<open>nano k\<close> is the clock at the \<open>k\<close>-th character.\<close>

definition generateRandomString :: "(nat \<Rightarrow> nat) \<Rightarrow> nat \<Rightarrow> string" where
  "generateRandomString nano n = map (\<lambda>k. charset ! (nano k mod length charset)) [0..<n]"

definition fuse_manifest :: "string \<Rightarrow> string \<Rightarrow> byte list \<Rightarrow> string list \<Rightarrow> string \<Rightarrow> int \<Rightarrow> manifest" where
  "fuse_manifest i fileID w hashes checksum now = \<lparr>m_id = i, m_file = fileID, m_version = 1, m_size = int (length w),
     m_count = int (length hashes), m_chunks = hashes, m_checksum = checksum, m_device = ''fuse'', m_created = now\<rparr>"

text \<open>The removal of the chunks after a failure; its own errors are dropped.\<close>

definition drop_record :: "string \<Rightarrow> database \<Rightarrow> database" where
  "drop_record h d = (case DeleteChunk h d of Inl e \<Rightarrow> d | Inr d' \<Rightarrow> d')"

definition discard_chunk :: "'b backend \<Rightarrow> string \<Rightarrow> database \<times> 'b \<Rightarrow> database \<times> 'b" where
  "discard_chunk B h st = (drop_record h (fst st), snd (be_delete B h (snd st)))"

definition createManifestAndStoreChunks :: "'b fuse_env \<Rightarrow> (nat \<Rightarrow> nat) \<Rightarrow> string \<Rightarrow> byte list \<Rightarrow> database \<times> 'b
    \<Rightarrow> (string option \<times> database \<times> 'b) outcome" where
  "createManifestAndStoreChunks E nano fileID w st =
     (case fe_backend E of
        None \<Rightarrow> Returns (None, st)
      | Some B \<Rightarrow>
          obind (ChunkWithData (fe_sha E) (fe_chunker E) (bytes_reader (4 * 1024 * 1024) w)) (\<lambda>r. Returns
            (case r of
               Inl e \<Rightarrow> (Some ''failed to chunk data'', st)
             | Inr (cis, pieces) \<Rightarrow>
                 (case store_chunks B (\<lambda>k. fe_clk E (3 + k)) 0 (zip cis pieces) st of
                    (Some e, st1) \<Rightarrow> (Some e, st1)
                  | (None, (d1, b1)) \<Rightarrow>
                      (let hashes = map ci_hash cis; i = ''manifest_'' @ generateRandomString nano 16;
                           m = fuse_manifest i fileID w hashes (fe_sha E w) (fe_clk E 1)
                       in case CreateManifest m d1 of
                            Inl e \<Rightarrow> (Some ''failed to create manifest'', fold (discard_chunk B) hashes (d1, b1))
                          | Inr d2 \<Rightarrow>
                              (case UpdateFile (fe_clk E 2) fileID [UManifest (Some i)] d2 of
                                 Inl e \<Rightarrow>
                                   (let d3 = (case DeleteManifest i d2 of Inl x \<Rightarrow> d2 | Inr d3 \<Rightarrow> d3)
                                    in (Some ''failed to update file with manifest'', fold (discard_chunk B) hashes (d3, b1)))
                               | Inr d3 \<Rightarrow> (None, (d3, b1))))))))"

definition fuse_Release :: "'b fuse_env \<Rightarrow> (nat \<Rightarrow> nat) \<Rightarrow> file_handle \<Rightarrow> database \<times> 'b \<Rightarrow> (errno \<times> file_handle \<times> database \<times> 'b) outcome" where
  "fuse_Release E nano h st =
     (let closed = h\<lparr>fh_dirty := False, fh_data := None\<rparr>
      in if fh_dirty h \<and> data_of h \<noteq> []
         then (case GetFile (fh_file h) (fst st) of
                 Inl e \<Rightarrow> Returns (EIO, h, st)
               | Inr f \<Rightarrow>
                   (case UpdateFile (fe_clk E 0) (f_id f) [USize (int (length (data_of h)))] (fst st) of
                      Inl e \<Rightarrow> Returns (EIO, h, st)
                    | Inr d \<Rightarrow>
                        obind (createManifestAndStoreChunks E nano (f_id f) (data_of h) (d, snd st)) (\<lambda>r. Returns
                          (case r of (Some e, st') \<Rightarrow> (EIO, h, st') | (None, st') \<Rightarrow> (OK, closed, st')))))
         else Returns (OK, closed, st))"

section \<open>The buffer of an open file\<close>

text \<open>What a file is: bytes that a write puts at a place, with zeros in a gap, and that a truncation cuts
  or fills up.\<close>

datatype file_op = PWrite "byte list" nat | PTruncate nat | PRead nat nat

definition pwrite :: "byte list \<Rightarrow> nat \<Rightarrow> byte list \<Rightarrow> byte list" where
  "pwrite w off f = (let g = f @ replicate (off + length w - length f) 0 in take off g @ w @ drop (off + length w) g)"

fun file_effect :: "file_op \<Rightarrow> byte list \<Rightarrow> byte list" where
  "file_effect (PWrite w off) f = pwrite w off f"
| "file_effect (PTruncate n) f = pad n f"
| "file_effect (PRead n off) f = f"

fun file_answer :: "file_op \<Rightarrow> byte list \<Rightarrow> byte list" where
  "file_answer (PRead n off) f = take n (drop off f)"
| "file_answer op f = []"

fun file_run :: "file_op list \<Rightarrow> byte list \<Rightarrow> byte list list \<times> byte list" where
  "file_run [] f = ([], f)"
| "file_run (op # ops) f = (case file_run ops (file_effect op f) of (xs, g) \<Rightarrow> (file_answer op f # xs, g))"

text \<open>The same operations on an open file of the mount.\<close>

fun handle_op :: "file_op \<Rightarrow> database \<Rightarrow> file_node \<times> file_handle \<Rightarrow> (byte list \<times> file_node \<times> file_handle) outcome" where
  "handle_op (PWrite w off) d nh = obind (fuse_Write w (int off) nh) (\<lambda>(k, nh'). Returns ([], nh'))"
| "handle_op (PTruncate n) d nh =
     obind (fuse_Setattr (Some n) (fst nh, Some (snd nh))) (\<lambda>(n', mh). Returns ([], n', case mh of None \<Rightarrow> snd nh | Some h \<Rightarrow> h))"
| "handle_op (PRead n off) d nh = obind (fuse_Read (snd nh) n (int off) d) (\<lambda>(e, x, h). Returns (x, fst nh, h))"

fun handle_run :: "file_op list \<Rightarrow> database \<Rightarrow> file_node \<times> file_handle \<Rightarrow> (byte list list \<times> file_node \<times> file_handle) outcome" where
  "handle_run [] d nh = Returns ([], nh)"
| "handle_run (op # ops) d nh =
     obind (handle_op op d nh) (\<lambda>(x, nh'). obind (handle_run ops d nh') (\<lambda>(xs, nh''). Returns (x # xs, nh'')))"

text \<open>The operations stay within the range of file sizes.\<close>

fun op_bounded :: "file_op \<Rightarrow> bool" where
  "op_bounded (PWrite w off) \<longleftrightarrow> off + length w < 2 ^ 63"
| "op_bounded (PTruncate n) \<longleftrightarrow> n < 2 ^ 63"
| "op_bounded (PRead n off) \<longleftrightarrow> off + n < 2 ^ 63"

definition buffer :: "byte list \<Rightarrow> file_node \<times> file_handle \<Rightarrow> bool" where
  "buffer w nh \<longleftrightarrow> fh_data (snd nh) = Some w \<and> fn_size (fst nh) = length w"

lemma wrap64_nat: "n < 2 ^ 63 \<Longrightarrow> wrap64 (int n) = int n"
  by (simp add: wrap64_def)

lemma length_pad [simp]: "length (pad n w) = n"
  by (simp add: pad_def)

lemma overlay_grown: "length f < off + length w \<Longrightarrow> overlay (pad (off + length w) f) off w = pwrite w off f"
  by (simp add: overlay_def pwrite_def pad_def Let_def)

lemma overlay_within: "off + length w \<le> length f \<Longrightarrow> overlay f off w = pwrite w off f"
  by (simp add: overlay_def pwrite_def)

lemma pwrite_length: "length (pwrite w off f) = max (length f) (off + length w)"
  by (auto simp: pwrite_def Let_def)

lemma write_buffer:
  assumes "buffer f (n, h)" and "off + length w < 2 ^ 63"
  shows "\<exists>n' h'. fuse_Write w (int off) (n, h) = Returns (length w, n', h') \<and> buffer (pwrite w off f) (n', h') \<and> fh_file h' = fh_file h"
proof -
  have data: "fh_data h = Some f" "data_of h = f" using assms(1) by (simp_all add: buffer_def data_of_def)
  have e: "wrap64 (int off + int (length w)) = int (off + length w)" using wrap64_nat [OF assms(2)] by simp
  show ?thesis
  proof (cases "length f < off + length w")
    case True
    then have "nat (int (off + length w)) = off + length w" by simp
    with True show ?thesis
      using overlay_grown [OF True] pwrite_length [of w off f]
      by (simp add: fuse_Write_def Let_def data e buffer_def nat_add_distrib)
  next
    case False
    then show ?thesis
      using overlay_within [of off w f] pwrite_length [of w off f]
      by (simp add: fuse_Write_def Let_def data e buffer_def max_def)
  qed
qed

lemma truncate_buffer:
  assumes "buffer f (n, h)" and "s < 2 ^ 63"
  shows "\<exists>n' h'. fuse_Setattr (Some s) (n, Some h) = Returns (n', Some h') \<and> buffer (pad s f) (n', h') \<and> fh_file h' = fh_file h"
proof -
  have data: "fh_data h = Some f" "data_of h = f" using assms(1) by (simp_all add: buffer_def data_of_def)
  have "pad s f = f" if "length f = s" using that by (simp add: pad_def)
  then show ?thesis using assms(2) wrap64_nat [OF assms(2)] by (simp add: fuse_Setattr_def Let_def data buffer_def)
qed

lemma read_buffer:
  assumes "buffer f (n, h)" and "off + k < 2 ^ 63"
  shows "fuse_Read h k (int off) d = Returns (OK, take k (drop off f), h)"
proof -
  have e: "wrap64 (int off + int k) = int (off + k)" using wrap64_nat [OF assms(2)] by simp
  have "read_at f k (int off) = Returns (take k (drop off f))"
  proof (cases "length f \<le> off")
    case True
    then show ?thesis by (simp add: read_at_def)
  next
    case False
    have "nat (int (length f) - int off) = length f - off" using False by simp
    then show ?thesis using False by (auto simp: read_at_def Let_def e nat_add_distrib)
  qed
  then show ?thesis using assms(1) by (simp add: fuse_Read_def buffer_def)
qed

lemma handle_op_buffer:
  assumes "buffer f nh" and "op_bounded op"
  shows "\<exists>nh'. handle_op op d nh = Returns (file_answer op f, nh') \<and> buffer (file_effect op f) nh' \<and> fh_file (snd nh') = fh_file (snd nh)"
proof (cases op)
  case (PWrite w off)
  with write_buffer [of f "fst nh" "snd nh" off w] assms show ?thesis by fastforce
next
  case (PTruncate s)
  with truncate_buffer [of f "fst nh" "snd nh" s] assms show ?thesis by fastforce
next
  case (PRead k off)
  with read_buffer [of f "fst nh" "snd nh" off k d] assms show ?thesis by simp
qed

lemma handle_run_buffer:
  assumes "buffer f nh" and "list_all op_bounded ops"
  shows "\<exists>nh'. handle_run ops d nh = Returns (fst (file_run ops f), nh') \<and> buffer (snd (file_run ops f)) nh' \<and> fh_file (snd nh') = fh_file (snd nh)"
  using assms
proof (induction ops arbitrary: f nh)
  case (Cons op ops)
  from handle_op_buffer [of f nh op d] Cons.prems obtain nh1 where
    one: "handle_op op d nh = Returns (file_answer op f, nh1)" "buffer (file_effect op f) nh1" "fh_file (snd nh1) = fh_file (snd nh)" by auto
  from Cons.IH [OF one(2)] Cons.prems obtain nh2 where
    "handle_run ops d nh1 = Returns (fst (file_run ops (file_effect op f)), nh2)" "buffer (snd (file_run ops (file_effect op f))) nh2"
    "fh_file (snd nh2) = fh_file (snd nh1)" by auto
  with one show ?case by (simp add: case_prod_beta)
qed simp

text \<open>C33: A created file is a file while it is open.  Whatever is written, truncated and read through the
  handle of a new file, every answer and the final buffer are those of a plain array of bytes with
  zeros in the gaps, and the reported size is its length.\<close>

theorem new_file_is_a_buffer:
  assumes "fuse_Create E folderID nm d = ((OK, Some (n, h)), d')" and "list_all op_bounded ops"
  shows "\<exists>n' h'. handle_run ops d'' (n, h) = Returns (fst (file_run ops []), n', h')
    \<and> fh_data h' = Some (snd (file_run ops [])) \<and> fn_size n' = length (snd (file_run ops [])) \<and> fh_file h' = fn_id n"
proof -
  have "buffer [] (n, h)" "fh_file h = fn_id n"
    using assms(1) by (auto simp: fuse_Create_def buffer_def split: sum.split_asm)
  with handle_run_buffer [OF _ assms(2), of "[]" "(n, h)" d''] show ?thesis by (auto simp: buffer_def)
qed

section \<open>Saving\<close>

lemma store_chunks_total:
  assumes "\<And>k w s. fst (be_put B k w s) = None"
  shows "\<exists>d b. store_chunks B clk i ps st = (None, d, b)"
proof (induction ps arbitrary: i st)
  case (Cons x ps)
  obtain ci w where x: "x = (ci, w)" by (cases x)
  obtain d b where st: "st = (d, b)" by (cases st)
  show ?case
  proof (cases "ChunkExists (ci_hash ci) d")
    case True
    then obtain d' where "IncrementRefCount (ci_hash ci) d = Inr d'" by (simp add: IncrementRefCount_def)
    with True Cons.IH [of "Suc i" "(d', b)"] show ?thesis by (simp add: x st Let_def)
  next
    case False
    obtain b' where put: "be_put B (ci_hash ci) w b = (None, b')" using assms by (metis prod.collapse)
    have "\<forall>c \<in> set (chunks d). c_hash c \<noteq> ci_hash ci" using False by (auto simp: ChunkExists_def filter_empty_conv)
    then obtain d' where "CreateChunk (new_chunk (clk i) (be_type B) (ci_size ci) (take 2 (ci_hash ci) @ ''/'' @ ci_hash ci @ ''.chunk'') (ci_hash ci)) d = Inr d'"
      by (auto simp: CreateChunk_def new_chunk_def)
    with False put Cons.IH [of "Suc i" "(d', b')"] show ?thesis by (simp add: x st Let_def)
  qed
qed (cases st; simp)

lemma drop_record_gone: "\<not> ChunkExists h (drop_record h d)"
  by (cases "ChunkExists h d") (auto simp: drop_record_def DeleteChunk_def ChunkExists_def filter_empty_conv)

lemma drop_record_keeps: "\<not> ChunkExists k d \<Longrightarrow> \<not> ChunkExists k (drop_record h d)"
  by (auto simp: drop_record_def DeleteChunk_def ChunkExists_def filter_empty_conv)

lemma drop_record_rows: "manifests (drop_record h d) = manifests d \<and> files (drop_record h d) = files d"
  by (simp add: drop_record_def DeleteChunk_def)

lemma discard_chunks:
  "manifests (fst (fold (discard_chunk B) hs st)) = manifests (fst st) \<and> (k \<in> set hs \<or> \<not> ChunkExists k (fst st) \<longrightarrow>
     \<not> ChunkExists k (fst (fold (discard_chunk B) hs st)))"
  by (induction hs arbitrary: st) (auto simp: discard_chunk_def drop_record_rows drop_record_gone drop_record_keeps)

lemma hashes_of_pieces: "map ci_hash (infos sha a (cut_pieces ck w)) = map sha (cut_pieces ck w)"
  by (rule map_hash_infos)

lemma update_size_possible:
  assumes "db_ok d" and "GetFileByID fid d = Inr f"
  shows "\<exists>d'. UpdateFile now fid [USize sz] d = Inr d' \<and> manifests d' = manifests d \<and> chunks d' = chunks d"
proof -
  have f: "f \<in> set (files d)" "f_id f = fid" using assms GetFileByID_iff [of d fid f] by (simp_all add: db_ok_def)
  let ?h = "\<lambda>f. (fold set_column [USize sz] f)\<lparr>f_updated := rfc3339 now\<rparr>"
  have "name_clash (?h x) y = name_clash x y" for x y by (simp add: name_clash_def)
  moreover have "\<not> name_clash x y" if "x \<in> set (files d)" "y \<in> set (files d)" "f_id x \<noteq> f_id y" for x y
    using assms(1) that by (auto simp: db_ok_def files_ok_def names_unique_def)
  ultimately have "\<not> update_clash fid ?h (files d)" unfolding update_clash_def by (metis (no_types, lifting))
  moreover have "has_file fid d" using f by (auto simp: has_file_def)
  ultimately show ?thesis by (simp add: UpdateFile_def Let_def)
qed

lemma ChunkExists_GetChunk: "\<not> ChunkExists k d \<Longrightarrow> GetChunk k d = Inl ''chunk not found''"
proof -
  assume "\<not> ChunkExists k d"
  then have "find_row (\<lambda>c. c_hash c = k) (chunks d) = None" unfolding find_row_None by (auto simp: ChunkExists_def filter_empty_conv)
  then show ?thesis by (simp add: GetChunk_def)
qed


text \<open>What a successful release has done.\<close>

lemma release_cases:
  assumes "fuse_Release E nano h (d, b) = Returns (OK, h', d', b')" and "fe_backend E = Some B" and "0 \<le> maxSize (fe_chunker E)"
    and "fh_dirty h" and "fh_data h = Some w" and "w \<noteq> []"
  shows "\<exists>f d0 d1 d2 m. GetFileByID (fh_file h) d = Inr f \<and> UpdateFile (fe_clk E 0) (f_id f) [USize (int (length w))] d = Inr d0
    \<and> store_chunks B (\<lambda>k. fe_clk E (3 + k)) 0 (zip (infos (fe_sha E) 0 (cut_pieces (fe_chunker E) w)) (cut_pieces (fe_chunker E) w)) (d0, b) = (None, d1, b')
    \<and> m = fuse_manifest (''manifest_'' @ generateRandomString nano 16) (f_id f) w (map (fe_sha E) (cut_pieces (fe_chunker E) w)) (fe_sha E w) (fe_clk E 1)
    \<and> CreateManifest m d1 = Inr d2 \<and> UpdateFile (fe_clk E 2) (f_id f) [UManifest (Some (m_id m))] d2 = Inr d'"
proof -
  have cut: "ChunkWithData (fe_sha E) (fe_chunker E) (bytes_reader 4194304 w)
      = Returns (Inr (infos (fe_sha E) 0 (cut_pieces (fe_chunker E) w), cut_pieces (fe_chunker E) w))"
    using ChunkWithData_bytes [OF assms(3), of "fe_sha E" w] by simp
  have w: "data_of h = w" using assms(5) by (simp add: data_of_def)
  have id: "m_id (fuse_manifest i fid x hs ck now) = i" for i fid x hs ck now by (simp add: fuse_manifest_def)
  show ?thesis
    using assms(1,4,6) unfolding fuse_Release_def createManifestAndStoreChunks_def
    by (auto simp: w assms(2) cut hashes_of_pieces GetFile_def Let_def id split: sum.split_asm prod.split_asm option.split_asm)
qed


text \<open>An opened file has no content: whatever its versions are, no read gives a byte of it, and a first
  write leaves zeros before its place.\<close>

theorem opened_files_read_nothing:
  assumes "fuse_Read (fuse_Open n) k (int off) d = Returns (e, x, h)"
  shows "x = [] \<and> h = fuse_Open n \<and> (0 < length w \<and> off + length w < 2 ^ 63 \<longrightarrow>
    (\<exists>n' h'. fuse_Write w (int off) (n, h) = Returns (length w, n', h') \<and> fh_data h' = Some (replicate off 0 @ w)))"
proof -
  have r: "x = [] \<and> h = fuse_Open n"
    using assms by (auto simp: fuse_Read_def fuse_Open_def read_at_def split: prod.split_asm bool.split_asm)
  have "wrap64 (int off + int (length w)) = int (off + length w)" if "off + length w < 2 ^ 63" using wrap64_nat [OF that] by simp
  moreover have "0 < int off + int (length w)" if "0 < length w"
  proof -
    have "0 < int (length w)" using that by simp
    then show ?thesis by linarith
  qed
  ultimately show ?thesis using r by (auto simp: fuse_Write_def fuse_Open_def data_of_def Let_def overlay_def pad_def nat_add_distrib)
qed

section \<open>Witnesses\<close>

definition fuse_demo_env :: "'b backend \<Rightarrow> 'b fuse_env" where
  "fuse_demo_env B = \<lparr>fe_user = ''u'', fe_sha = (\<lambda>w. ''abc''), fe_chunker = demo_chunker, fe_backend = Some B, fe_rnd = ''1'', fe_clk = (\<lambda>_. 0)\<rparr>"

definition fuse_demo_handle :: file_handle where
  "fuse_demo_handle = \<lparr>fh_file = ''f'', fh_data = Some [7], fh_dirty = True\<rparr>"

definition list_backend :: "(string \<times> byte list) list backend" where
  "list_backend = \<lparr>be_put = (\<lambda>k w s. (None, al_put s k w)), be_get = (\<lambda>k s. (case al_get s k of None \<Rightarrow> Inl ''not found'' | Some w \<Rightarrow> Inr w, s)),
     be_delete = (\<lambda>k s. (None, al_del s k)), be_exists = (\<lambda>k s. (Inr (al_get s k \<noteq> None), s)), be_list = (\<lambda>p s. (Inr (map fst s), s)), be_type = ''list''\<rparr>"

theorem new_file_is_a_buffer_witness:
  "\<exists>n' h'. handle_run [PWrite [1, 2] 1, PTruncate 2, PRead 5 0] (empty_db\<lparr>users := [demo_user]\<rparr>)
       (\<lparr>fn_id = ''file_1'', fn_size = 0, fn_mode = file_mode\<rparr>, \<lparr>fh_file = ''file_1'', fh_data = Some [], fh_dirty = False\<rparr>)
     = Returns ([[], [], [0, 1]], n', h')"
proof -
  let ?d = "empty_db\<lparr>users := [demo_user]\<rparr>"
  let ?nh = "(\<lparr>fn_id = ''file_1'', fn_size = 0, fn_mode = file_mode\<rparr>, \<lparr>fh_file = ''file_1'', fh_data = Some [], fh_dirty = False\<rparr>)"
  have "\<exists>d'. fuse_Create (fuse_demo_env list_backend) [] ''a'' ?d = ((OK, Some ?nh), d')"
    by (simp add: fuse_Create_def fuse_demo_env_def vfs_CreateFile_def isValidName_def GetFileByPath_def empty_db_def generateID_def opt_parent_def
        CreateFile_def blank_file_def parent_ok_def demo_user_def rfc3339_def Let_def)
  moreover have "fst (file_run [PWrite [1, 2] 1, PTruncate 2, PRead 5 0] []) = [[], [], [0, 1]]"
    by (simp add: pwrite_def pad_def numeral_eq_Suc)
  ultimately show ?thesis using new_file_is_a_buffer [of "fuse_demo_env list_backend" "[]" "''a''" ?d "fst ?nh" "snd ?nh" _
      "[PWrite [1, 2] 1, PTruncate 2, PRead 5 0]" ?d] by auto
qed



end
