(* ===== verification/Cli.thy ===== *)
theory Cli
  imports Config Accounts_Api Webdav
begin

text \<open>
  The command line client (\<^verbatim>\<open>src/internal/cli\<close>): the API client, the commands, the saved
  configuration and the daemon that watches a folder.

  The network is a parameter of the model: \<open>ne_api\<close> answers a request to the API and \<open>ne_raw\<close> one to any
  other address, with the state \<open>'s\<close> of what is behind it; \<open>None\<close> is a request that could not be made.
  A body that is not JSON is no \<open>json\<close>.  What a command prints is a list of lines; sizes and dates are
  printed from the values that stand in a line.
\<close>

section \<open>client.go: the answers\<close>

fun read_bool :: "json \<Rightarrow> bool option" where
  "read_bool (JBool b) = Some b"
| "read_bool _ = None"

definition read_ptr :: "(json \<Rightarrow> 'a option) \<Rightarrow> json \<Rightarrow> 'a option option" where
  "read_ptr read j = map_option Some (read j)"

fun read_list :: "(json \<Rightarrow> 'a option) \<Rightarrow> json \<Rightarrow> 'a list option" where
  "read_list read (JArr vs) = those (map read vs)"
| "read_list read _ = None"

text \<open>A struct: its reader on the members of an object, and its zero value for \<^verbatim>\<open>null\<close>.\<close>

fun read_struct :: "((string \<times> json) list \<Rightarrow> 'a option) \<Rightarrow> json \<Rightarrow> 'a option" where
  "read_struct read (JObj ms) = read ms"
| "read_struct read JNull = read []"
| "read_struct read _ = None"

record auth_response =
  ar_token :: string
  ar_expires :: int
  ar_user :: string
  ar_username :: string

definition auth_fields :: "(string \<times> json) list \<Rightarrow> auth_response option" where
  "auth_fields ms =
     (case (json_field read_string ''token'' ms [], json_field read_int64 ''expires_at'' ms 0, json_field read_string ''user_id'' ms [],
            json_field read_string ''username'' ms []) of
        (Some t, Some x, Some u, Some n) \<Rightarrow> Some \<lparr>ar_token = t, ar_expires = x, ar_user = u, ar_username = n\<rparr>
      | _ \<Rightarrow> None)"

record remote_file =
  rf_id :: string
  rf_name :: string
  rf_type :: string
  rf_size :: int
  rf_mime :: string
  rf_parent :: "string option"
  rf_user :: string
  rf_created :: int
  rf_updated :: int

definition file_fields :: "(string \<times> json) list \<Rightarrow> remote_file option" where
  "file_fields ms =
     (case (json_field read_string ''id'' ms [], json_field read_string ''name'' ms [], json_field read_string ''type'' ms [],
            json_field read_int64 ''size'' ms 0, json_field read_string ''mime_type'' ms [], json_field (read_ptr read_string) ''parent_id'' ms None,
            json_field read_string ''user_id'' ms [], json_field read_int64 ''created_at'' ms 0, json_field read_int64 ''updated_at'' ms 0) of
        (Some i, Some n, Some t, Some z, Some m, Some p, Some u, Some c, Some d) \<Rightarrow>
          Some \<lparr>rf_id = i, rf_name = n, rf_type = t, rf_size = z, rf_mime = m, rf_parent = p, rf_user = u, rf_created = c, rf_updated = d\<rparr>
      | _ \<Rightarrow> None)"

definition files_fields :: "(string \<times> json) list \<Rightarrow> remote_file list option" where
  "files_fields ms = json_field (read_list (read_struct file_fields)) ''files'' ms []"

record upload_url =
  uu_url :: string
  uu_file :: string

definition upload_fields :: "(string \<times> json) list \<Rightarrow> upload_url option" where
  "upload_fields ms =
     (case (json_field read_string ''upload_url'' ms [], json_field read_string ''file_id'' ms []) of
        (Some u, Some f) \<Rightarrow> Some \<lparr>uu_url = u, uu_file = f\<rparr> | _ \<Rightarrow> None)"

record download_url =
  du_url :: string
  du_name :: string
  du_expires :: int

definition download_fields :: "(string \<times> json) list \<Rightarrow> download_url option" where
  "download_fields ms =
     (case (json_field read_string ''download_url'' ms [], json_field read_string ''filename'' ms [], json_field read_int64 ''expires_at'' ms 0) of
        (Some u, Some f, Some x) \<Rightarrow> Some \<lparr>du_url = u, du_name = f, du_expires = x\<rparr> | _ \<Rightarrow> None)"

record remote_share =
  rs_id :: string
  rs_file :: string
  rs_by :: string
  rs_type :: string
  rs_token :: "string option"
  rs_expires :: "int option"
  rs_max :: "int option"
  rs_upload :: bool
  rs_preview :: bool
  rs_permission :: string
  rs_active :: bool
  rs_created :: int

definition share_fields :: "(string \<times> json) list \<Rightarrow> remote_share option" where
  "share_fields ms =
     (case (json_field read_string ''id'' ms [], json_field read_string ''file_id'' ms [], json_field read_string ''created_by'' ms [],
            json_field read_string ''share_type'' ms [], json_field (read_ptr read_string) ''token'' ms None,
            json_field (read_ptr read_int64) ''expires_at'' ms None, json_field (read_ptr read_int64) ''max_downloads'' ms None,
            json_field read_bool ''allow_upload'' ms False, json_field read_bool ''preview_only'' ms False,
            json_field read_string ''permission'' ms [], json_field read_bool ''is_active'' ms False, json_field read_int64 ''created_at'' ms 0) of
        (Some i, Some f, Some b, Some t, Some k, Some x, Some m, Some u, Some p, Some q, Some a, Some c) \<Rightarrow>
          Some \<lparr>rs_id = i, rs_file = f, rs_by = b, rs_type = t, rs_token = k, rs_expires = x, rs_max = m, rs_upload = u, rs_preview = p,
                rs_permission = q, rs_active = a, rs_created = c\<rparr>
      | _ \<Rightarrow> None)"

definition made_share_fields :: "(string \<times> json) list \<Rightarrow> (remote_share \<times> string option) option" where
  "made_share_fields ms =
     (case (case share_fields [] of None \<Rightarrow> None | Some zero \<Rightarrow> json_field (read_struct share_fields) ''share'' ms zero,
            json_field (read_ptr read_string) ''share_url'' ms None) of
        (Some s, Some u) \<Rightarrow> Some (s, u) | _ \<Rightarrow> None)"

definition shares_fields :: "(string \<times> json) list \<Rightarrow> remote_share list option" where
  "shares_fields ms = json_field (read_list (read_struct share_fields)) ''shares'' ms []"

text \<open>The wrapper every answer has.\<close>

definition read_data :: "((string \<times> json) list \<Rightarrow> 'a option) \<Rightarrow> json \<Rightarrow> 'a option" where
  "read_data read = read_struct (\<lambda>ms. case read [] of None \<Rightarrow> None | Some zero \<Rightarrow> json_field (read_struct read) ''data'' ms zero)"

section \<open>client.go: the requests\<close>

record request =
  rq_base :: string
  rq_method :: string
  rq_path :: string
  rq_query :: "(string \<times> string) list"
  rq_body :: "json option"
  rq_token :: string

record net_answer =
  na_status :: nat
  na_text :: string
  na_json :: "json option"

record 's net_env =
  ne_api :: "request \<Rightarrow> 's \<Rightarrow> net_answer option \<times> 's"
  ne_raw :: "string \<Rightarrow> string \<Rightarrow> string \<Rightarrow> byte list \<Rightarrow> 's \<Rightarrow> (nat \<times> byte list) option \<times> 's"
  ne_config_writable :: bool
  ne_writable :: "string \<Rightarrow> bool"
  ne_input :: "string \<times> string"

record cli_config =
  cc_url :: string
  cc_token :: string
  cc_username :: string
  cc_dir :: string

datatype line = Said string | FileLine string string int int | ShareLine string bool "int option"

text \<open>The process: the API client and the configuration in memory, the files of the machine and what has
  been printed.\<close>

record 's client =
  cl_base :: string
  cl_token :: string
  cl_config :: cli_config
  cl_saved :: "cli_config option"
  cl_local :: "(string \<times> byte list) list"
  cl_dirs :: "string list"
  cl_out :: "line list"
  cl_net :: 's

type_synonym ('s, 'a) command = "'s client \<Rightarrow> 'a result \<times> 's client"

definition ret :: "'a \<Rightarrow> ('s, 'a) command" where
  "ret x c = (Inr x, c)"

definition fail :: "string \<Rightarrow> ('s, 'a) command" where
  "fail e c = (Inl e, c)"

definition bind_cmd :: "('s, 'a) command \<Rightarrow> ('a \<Rightarrow> ('s, 'b) command) \<Rightarrow> ('s, 'b) command" where
  "bind_cmd m k c = (case m c of (Inl e, c') \<Rightarrow> (Inl e, c') | (Inr x, c') \<Rightarrow> k x c')"

definition say :: "line list \<Rightarrow> ('s, unit) command" where
  "say ls c = (Inr (), c\<lparr>cl_out := cl_out c @ ls\<rparr>)"

definition http_scheme :: "string \<Rightarrow> bool" where
  "http_scheme url \<longleftrightarrow> has_prefix (ToLower url) ''http://'' \<or> has_prefix (ToLower url) ''https://''"

definition send_request :: "'s net_env \<Rightarrow> string \<Rightarrow> string \<Rightarrow> json option \<Rightarrow> (string \<times> string) list \<Rightarrow> ('s, net_answer) command" where
  "send_request N meth path body query c =
     (if \<not> http_scheme (cl_base c @ path) then (Inl ''unsupported protocol scheme'', c)
      else case ne_api N \<lparr>rq_base = cl_base c, rq_method = meth, rq_path = path, rq_query = query, rq_body = body, rq_token = cl_token c\<rparr> (cl_net c) of
        (None, s) \<Rightarrow> (Inl ''request failed'', c\<lparr>cl_net := s\<rparr>)
      | (Some a, s) \<Rightarrow> (Inr a, c\<lparr>cl_net := s\<rparr>))"

definition api_error :: "net_answer \<Rightarrow> string" where
  "api_error a = ''API error ('' @ dec_nat (na_status a) @ ''): '' @ na_text a"

definition doRequest :: "'s net_env \<Rightarrow> string \<Rightarrow> string \<Rightarrow> json option \<Rightarrow> (string \<times> string) list \<Rightarrow> (json \<Rightarrow> 'a option) \<Rightarrow> ('s, 'a) command" where
  "doRequest N meth path body query read =
     bind_cmd (send_request N meth path body query) (\<lambda>a.
       if na_status a \<ge> 400 then fail (api_error a)
       else (case na_json a of
               None \<Rightarrow> fail ''invalid character''
             | Some j \<Rightarrow> (case read j of None \<Rightarrow> fail ''json: cannot unmarshal'' | Some x \<Rightarrow> ret x)))"

definition doRequest_plain :: "'s net_env \<Rightarrow> string \<Rightarrow> string \<Rightarrow> json option \<Rightarrow> ('s, unit) command" where
  "doRequest_plain N meth path body =
     bind_cmd (send_request N meth path body []) (\<lambda>a. if na_status a \<ge> 400 then fail (api_error a) else ret ())"

definition client_Login :: "'s net_env \<Rightarrow> string \<Rightarrow> string \<Rightarrow> ('s, auth_response) command" where
  "client_Login N username password =
     bind_cmd (doRequest N ''POST'' ''/api/v1/auth/login'' (Some (JObj [(''password'', JStr password), (''username'', JStr username)])) []
       (read_data auth_fields))
     (\<lambda>r c. (Inr r, c\<lparr>cl_token := ar_token r\<rparr>))"

definition client_Logout :: "'s net_env \<Rightarrow> ('s, unit) command" where
  "client_Logout N = doRequest_plain N ''POST'' ''/api/v1/auth/logout'' None"

definition ListFiles :: "'s net_env \<Rightarrow> string \<Rightarrow> int \<Rightarrow> int \<Rightarrow> ('s, remote_file list) command" where
  "ListFiles N parentID limit offset =
     doRequest N ''GET'' ''/api/v1/files'' None
       ([(''limit'', dec_int limit), (''offset'', dec_int offset)] @ (if parentID \<noteq> [] then [(''parent_id'', parentID)] else [])) (read_data files_fields)"

definition client_GetFile :: "'s net_env \<Rightarrow> string \<Rightarrow> ('s, remote_file) command" where
  "client_GetFile N fileID = doRequest N ''GET'' (''/api/v1/files/'' @ fileID) None [] (read_data file_fields)"

text \<open>The members of a request body in the order of their names.\<close>

definition with_parent :: "string \<Rightarrow> (string \<times> json) list \<Rightarrow> (string \<times> json) list" where
  "with_parent parentID ms = ms @ (if parentID \<noteq> [] then [(''parent_id'', JStr parentID)] else [])"

definition client_CreateFolder :: "'s net_env \<Rightarrow> string \<Rightarrow> string \<Rightarrow> ('s, remote_file) command" where
  "client_CreateFolder N nm parentID =
     doRequest N ''POST'' ''/api/v1/folders'' (Some (JObj (with_parent parentID [(''name'', JStr nm)]))) [] (read_data file_fields)"

definition client_DeleteFile :: "'s net_env \<Rightarrow> string \<Rightarrow> ('s, unit) command" where
  "client_DeleteFile N fileID = doRequest_plain N ''DELETE'' (''/api/v1/files/'' @ fileID) None"

definition client_DeleteFolder :: "'s net_env \<Rightarrow> string \<Rightarrow> ('s, unit) command" where
  "client_DeleteFolder N folderID = doRequest_plain N ''DELETE'' (''/api/v1/folders/'' @ folderID) None"

definition RenameFile :: "'s net_env \<Rightarrow> string \<Rightarrow> string \<Rightarrow> ('s, unit) command" where
  "RenameFile N fileID newName = doRequest_plain N ''PUT'' (''/api/v1/files/'' @ fileID) (Some (JObj [(''name'', JStr newName)]))"

definition client_MoveFile :: "'s net_env \<Rightarrow> string \<Rightarrow> string \<Rightarrow> ('s, unit) command" where
  "client_MoveFile N fileID newParentID = doRequest_plain N ''PUT'' (''/api/v1/files/'' @ fileID) (Some (JObj [(''parent_id'', JStr newParentID)]))"

definition client_SearchFiles :: "'s net_env \<Rightarrow> string \<Rightarrow> int \<Rightarrow> ('s, remote_file list) command" where
  "client_SearchFiles N q limit =
     doRequest N ''GET'' ''/api/v1/files/search'' None [(''limit'', dec_int limit), (''q'', q)] (read_data files_fields)"

definition GetUploadURL :: "'s net_env \<Rightarrow> string \<Rightarrow> string \<Rightarrow> string \<Rightarrow> int \<Rightarrow> ('s, upload_url) command" where
  "GetUploadURL N parentID nm mimeType sz =
     doRequest N ''POST'' ''/api/v1/uploads'' (Some (JObj (with_parent parentID [(''mime_type'', JStr mimeType), (''name'', JStr nm), (''size'', JNum sz)])))
       [] (read_data upload_fields)"

definition GetDownloadURL :: "'s net_env \<Rightarrow> string \<Rightarrow> ('s, download_url) command" where
  "GetDownloadURL N fileID = doRequest N ''GET'' (''/api/v1/downloads/'' @ fileID) None [] (read_data download_fields)"

record create_share_request =
  cq_password :: "string option"
  cq_days :: "int option"
  cq_max :: "int option"

definition opt_member :: "string \<Rightarrow> ('a \<Rightarrow> json) \<Rightarrow> 'a option \<Rightarrow> (string \<times> json) list" where
  "opt_member k f x = (case x of None \<Rightarrow> [] | Some v \<Rightarrow> [(k, f v)])"

definition share_body :: "create_share_request \<Rightarrow> json" where
  "share_body q = JObj ([(''share_type'', JStr ''link'')] @ opt_member ''password'' JStr (cq_password q) @ opt_member ''expires_days'' JNum (cq_days q)
     @ opt_member ''max_downloads'' JNum (cq_max q)
     @ [(''allow_upload'', JBool False), (''preview_only'', JBool False), (''permission'', JStr ''read'')])"

definition client_CreateShare :: "'s net_env \<Rightarrow> string \<Rightarrow> create_share_request \<Rightarrow> ('s, remote_share \<times> string) command" where
  "client_CreateShare N fileID q =
     bind_cmd (doRequest N ''POST'' (''/api/v1/files/'' @ fileID @ ''/shares'') (Some (share_body q)) [] (read_data made_share_fields))
       (\<lambda>(s, u). ret (s, case u of None \<Rightarrow> [] | Some x \<Rightarrow> x))"

definition client_ListShares :: "'s net_env \<Rightarrow> string \<Rightarrow> ('s, remote_share list) command" where
  "client_ListShares N fileID = doRequest N ''GET'' (''/api/v1/files/'' @ fileID @ ''/shares'') None [] (read_data shares_fields)"

definition RevokeShare :: "'s net_env \<Rightarrow> string \<Rightarrow> ('s, unit) command" where
  "RevokeShare N shareID = doRequest_plain N ''DELETE'' (''/api/v1/shares/'' @ shareID) None"

section \<open>config.go\<close>

definition cli_Load :: "cli_config option \<Rightarrow> cli_config" where
  "cli_Load saved = (case saved of None \<Rightarrow> \<lparr>cc_url = ''http://localhost:8080'', cc_token = [], cc_username = [], cc_dir = []\<rparr> | Some c \<Rightarrow> c)"

definition cli_Save :: "'s net_env \<Rightarrow> ('s, unit) command" where
  "cli_Save N c = (if ne_config_writable N then (Inr (), c\<lparr>cl_saved := Some (cl_config c)\<rparr>) else (Inl ''failed to write config'', c))"

section \<open>commands.go\<close>

text \<open>A new process reads the configuration and makes its client from it.\<close>

definition NewCLI :: "'s client \<Rightarrow> 's client" where
  "NewCLI c = (let f = cli_Load (cl_saved c) in c\<lparr>cl_config := f, cl_base := cc_url f, cl_token := cc_token f\<rparr>)"

definition set_config :: "(cli_config \<Rightarrow> cli_config) \<Rightarrow> ('s, unit) command" where
  "set_config h c = (Inr (), c\<lparr>cl_config := h (cl_config c)\<rparr>)"

definition ensureLoggedIn :: "('s, unit) command" where
  "ensureLoggedIn c = (if cc_token (cl_config c) = [] then (Inl ''not logged in'', c) else (Inr (), c))"

definition handleConfig :: "'s net_env \<Rightarrow> string list \<Rightarrow> ('s, unit) command" where
  "handleConfig N args c =
     (case args of
        [] \<Rightarrow> say [Said (cc_url (cl_config c)), Said (cc_username (cl_config c)), Said (cc_dir (cl_config c)),
                 Said (if cc_token (cl_config c) \<noteq> [] then ''true'' else ''false'')] c
      | a # rest \<Rightarrow>
          if a = ''server''
          then (case rest of
                  [] \<Rightarrow> (Inl ''usage: config server <url>'', c)
                | u # _ \<Rightarrow> cli_Save N (c\<lparr>cl_config := (cl_config c)\<lparr>cc_url := u\<rparr>, cl_base := u\<rparr>))
          else if a = ''dir''
          then (case rest of
                  [] \<Rightarrow> (Inl ''usage: config dir <path>'', c)
                | p # _ \<Rightarrow> cli_Save N (c\<lparr>cl_config := (cl_config c)\<lparr>cc_dir := p\<rparr>\<rparr>))
          else (Inl ''unknown config option'', c))"

definition handleLogin :: "'s net_env \<Rightarrow> ('s, unit) command" where
  "handleLogin N =
     bind_cmd (client_Login N (fst (ne_input N)) (snd (ne_input N))) (\<lambda>r.
     bind_cmd (\<lambda>c. (Inr (), c\<lparr>cl_config := (cl_config c)\<lparr>cc_token := ar_token r, cc_username := ar_username r\<rparr>, cl_token := ar_token r\<rparr>)) (\<lambda>_.
     bind_cmd (cli_Save N) (\<lambda>_. say [Said (''Logged in as '' @ ar_username r)])))"

definition handleLogout :: "'s net_env \<Rightarrow> ('s, unit) command" where
  "handleLogout N c =
     (if cc_token (cl_config c) = [] then say [Said ''Not logged in''] c
      else (case client_Logout N c of (_, c1) \<Rightarrow>
        bind_cmd (cli_Save N) (\<lambda>_. say [Said ''Logged out successfully''])
          (c1\<lparr>cl_config := (cl_config c1)\<lparr>cc_token := [], cc_username := []\<rparr>, cl_token := []\<rparr>)))"

definition raw_request :: "'s net_env \<Rightarrow> string \<Rightarrow> string \<Rightarrow> string \<Rightarrow> byte list \<Rightarrow> ('s, nat \<times> byte list) command" where
  "raw_request N meth url mime w c =
     (if \<not> http_scheme url then (Inl ''unsupported protocol scheme'', c)
      else case ne_raw N meth url mime w (cl_net c) of
        (None, s) \<Rightarrow> (Inl ''request failed'', c\<lparr>cl_net := s\<rparr>)
      | (Some a, s) \<Rightarrow> (Inr a, c\<lparr>cl_net := s\<rparr>))"

definition handleStatus :: "'s net_env \<Rightarrow> ('s, unit) command" where
  "handleStatus N c =
     (case raw_request N ''GET'' (cc_url (cl_config c) @ ''/health'') [] [] c of
        (Inl e, c1) \<Rightarrow> say [Said (cc_url (cl_config c)), Said (cc_username (cl_config c)), Said ''Server Status: Offline''] c1
      | (Inr (n, _), c1) \<Rightarrow> say [Said (cc_url (cl_config c)), Said (cc_username (cl_config c)), Said (''Server Status: Online ('' @ dec_nat n @ '')'')] c1)"

section \<open>commands_files.go\<close>

definition first_arg :: "string \<Rightarrow> string list \<Rightarrow> (string \<Rightarrow> ('s, 'a) command) \<Rightarrow> ('s, 'a) command" where
  "first_arg usage args k = (case args of [] \<Rightarrow> fail usage | a # _ \<Rightarrow> k a)"

text \<open>The first of the hundred entries of the root that fits.\<close>

definition find_remote :: "'s net_env \<Rightarrow> string \<Rightarrow> (remote_file \<Rightarrow> bool) \<Rightarrow> ('s, remote_file) command" where
  "find_remote N e P =
     bind_cmd (ListFiles N [] 100 0) (\<lambda>fs. case find_row P fs of None \<Rightarrow> fail e | Some f \<Rightarrow> ret f)"

definition file_line :: "remote_file \<Rightarrow> line" where
  "file_line f = FileLine (if rf_type f = ''folder'' then rf_name f @ ''/'' else rf_name f) (rf_type f) (rf_size f) (rf_updated f)"

definition handleList :: "'s net_env \<Rightarrow> string list \<Rightarrow> ('s, unit) command" where
  "handleList N args =
     bind_cmd ensureLoggedIn (\<lambda>_.
     bind_cmd (case args of
                 [] \<Rightarrow> ret []
               | a # _ \<Rightarrow> bind_cmd (ListFiles N [] 100 0) (\<lambda>fs.
                   let i = (case find_row (\<lambda>f. rf_name f = a \<and> rf_type f = ''folder'') fs of None \<Rightarrow> [] | Some f \<Rightarrow> rf_id f)
                   in if i = [] then fail ''folder not found'' else ret i)) (\<lambda>parentID.
     bind_cmd (ListFiles N parentID 100 0) (\<lambda>fs. if fs = [] then say [Said ''(empty)''] else say (map file_line fs))))"

definition handleCD :: "string list \<Rightarrow> ('s, unit) command" where
  "handleCD args = bind_cmd ensureLoggedIn (\<lambda>_. first_arg ''usage: cd <folder>'' args (\<lambda>a. say [Said (''Changed to: '' @ a)]))"

definition handlePWD :: "('s, unit) command" where
  "handlePWD = say [Said ''/'']"

definition handleMkdir :: "'s net_env \<Rightarrow> string list \<Rightarrow> ('s, unit) command" where
  "handleMkdir N args =
     bind_cmd ensureLoggedIn (\<lambda>_. first_arg ''usage: mkdir <name>'' args (\<lambda>a.
     bind_cmd (client_CreateFolder N a []) (\<lambda>f. say [Said (''Created folder: '' @ rf_name f)])))"

definition cli_handleDelete :: "'s net_env \<Rightarrow> string list \<Rightarrow> ('s, unit) command" where
  "cli_handleDelete N args =
     bind_cmd ensureLoggedIn (\<lambda>_. first_arg ''usage: rm <file-or-folder>'' args (\<lambda>a.
     bind_cmd (find_remote N (''not found: '' @ a) (\<lambda>f. rf_name f = a)) (\<lambda>f.
     bind_cmd (if rf_type f = ''folder'' then client_DeleteFolder N (rf_id f) else client_DeleteFile N (rf_id f)) (\<lambda>_.
       say [Said (''Deleted: '' @ a)]))))"

text \<open>The last entry that fits.\<close>

definition find_last :: "('a \<Rightarrow> bool) \<Rightarrow> 'a list \<Rightarrow> 'a option" where
  "find_last P xs = find_row P (rev xs)"

definition cli_handleMove :: "'s net_env \<Rightarrow> string list \<Rightarrow> ('s, unit) command" where
  "cli_handleMove N args =
     bind_cmd ensureLoggedIn (\<lambda>_.
       case args of
         src # dst # _ \<Rightarrow>
           bind_cmd (ListFiles N [] 100 0) (\<lambda>fs.
             case find_last (\<lambda>f. rf_name f = src) fs of
               None \<Rightarrow> fail (''source not found: '' @ src)
             | Some f \<Rightarrow>
                 (case find_last (\<lambda>f. rf_name f = dst \<and> rf_type f = ''folder'') fs of
                    None \<Rightarrow> fail (''destination folder not found: '' @ dst)
                  | Some g \<Rightarrow> bind_cmd (client_MoveFile N (rf_id f) (rf_id g)) (\<lambda>_. say [Said (''Moved '' @ src @ '' to '' @ dst)])))
       | _ \<Rightarrow> fail ''usage: mv <source> <destination-folder>'')"

definition handleRename :: "'s net_env \<Rightarrow> string list \<Rightarrow> ('s, unit) command" where
  "handleRename N args =
     bind_cmd ensureLoggedIn (\<lambda>_.
       case args of
         a # newName # _ \<Rightarrow>
           bind_cmd (find_remote N (''file not found: '' @ a) (\<lambda>f. rf_name f = a)) (\<lambda>f.
             bind_cmd (RenameFile N (rf_id f) newName) (\<lambda>_. say [Said (''Renamed '' @ a @ '' to '' @ newName)]))
       | _ \<Rightarrow> fail ''usage: rename <file> <new-name>'')"

definition handleSearch :: "'s net_env \<Rightarrow> string list \<Rightarrow> ('s, unit) command" where
  "handleSearch N args =
     bind_cmd ensureLoggedIn (\<lambda>_.
       if args = [] then fail ''usage: search <query>''
       else bind_cmd (client_SearchFiles N (join_with '' '' args) 50) (\<lambda>fs.
         if fs = [] then say [Said ''No results found''] else say (map (\<lambda>f. FileLine (rf_name f) (rf_type f) (rf_size f) 0) fs)))"

section \<open>commands_share.go\<close>

record share_flags =
  sf_days :: int
  sf_password :: string
  sf_max :: int

definition flag_number :: "string \<Rightarrow> string \<Rightarrow> int result" where
  "flag_number e x = (case atoi x of None \<Rightarrow> Inl (e @ x) | Some n \<Rightarrow> if n < 0 then Inl (e @ x) else Inr n)"

fun share_args :: "string list \<Rightarrow> share_flags \<Rightarrow> share_flags result" where
  "share_args [] q = Inr q"
| "share_args [a] q = Inr q"
| "share_args (a # x # rest) q =
     (if a = ''--expires'' \<or> a = ''-e''
      then (case flag_number ''invalid expires value: '' x of Inl e \<Rightarrow> Inl e | Inr n \<Rightarrow> share_args rest (q\<lparr>sf_days := n\<rparr>))
      else if a = ''--password'' \<or> a = ''-p'' then share_args rest (q\<lparr>sf_password := x\<rparr>)
      else if a = ''--max-downloads'' \<or> a = ''-m''
      then (case flag_number ''invalid max-downloads value: '' x of Inl e \<Rightarrow> Inl e | Inr n \<Rightarrow> share_args rest (q\<lparr>sf_max := n\<rparr>))
      else share_args (x # rest) q)"

definition handleShare :: "'s net_env \<Rightarrow> string list \<Rightarrow> ('s, unit) command" where
  "handleShare N args =
     bind_cmd ensureLoggedIn (\<lambda>_. first_arg ''usage: share <file-name>'' args (\<lambda>a.
       case share_args (tl args) \<lparr>sf_days = 0, sf_password = [], sf_max = 0\<rparr> of
         Inl e \<Rightarrow> fail e
       | Inr q \<Rightarrow>
           bind_cmd (find_remote N (''file not found: '' @ a) (\<lambda>f. rf_name f = a)) (\<lambda>f.
           bind_cmd (client_CreateShare N (rf_id f)
               \<lparr>cq_password = (if sf_password q \<noteq> [] then Some (sf_password q) else None),
                cq_days = (if sf_days q > 0 then Some (sf_days q) else None), cq_max = (if sf_max q > 0 then Some (sf_max q) else None)\<rparr>) (\<lambda>(s, u).
             say ([Said a, Said (rs_id s)] @ (if u \<noteq> [] then [Said u] else []) @ [ShareLine (rs_id s) True (rs_expires s)])))))"

definition handleListShares :: "'s net_env \<Rightarrow> string list \<Rightarrow> ('s, unit) command" where
  "handleListShares N args =
     bind_cmd ensureLoggedIn (\<lambda>_. first_arg ''usage: shares <file-name>'' args (\<lambda>a.
     bind_cmd (find_remote N (''file not found: '' @ a) (\<lambda>f. rf_name f = a)) (\<lambda>f.
     bind_cmd (client_ListShares N (rf_id f)) (\<lambda>ss.
       if ss = [] then say [Said ''No shares for this file'']
       else say (map (\<lambda>s. ShareLine (rs_id s) (rs_active s) (rs_expires s)) ss)))))"

definition handleUnshare :: "'s net_env \<Rightarrow> string list \<Rightarrow> ('s, unit) command" where
  "handleUnshare N args =
     bind_cmd ensureLoggedIn (\<lambda>_. first_arg ''usage: unshare <share-id>'' args (\<lambda>a.
     bind_cmd (RevokeShare N a) (\<lambda>_. say [Said (''Share revoked: '' @ a)])))"

section \<open>commands_transfer.go\<close>

definition detectMimeType :: "string \<Rightarrow> string" where
  "detectMimeType filename =
     (let ext = ToLower (Webdav.path_Ext filename)
      in if ext = ''.txt'' then ''text/plain''
         else if ext = ''.html'' \<or> ext = ''.htm'' then ''text/html''
         else if ext = ''.css'' then ''text/css''
         else if ext = ''.js'' then ''application/javascript''
         else if ext = ''.json'' then ''application/json''
         else if ext = ''.jpg'' \<or> ext = ''.jpeg'' then ''image/jpeg''
         else if ext = ''.png'' then ''image/png''
         else if ext = ''.gif'' then ''image/gif''
         else if ext = ''.pdf'' then ''application/pdf''
         else if ext = ''.zip'' then ''application/zip''
         else if ext = ''.mp4'' then ''video/mp4''
         else if ext = ''.mp3'' then ''audio/mpeg''
         else ''application/octet-stream'')"

text \<open>The value after the first flag of the given names.\<close>

fun flag_value :: "string list \<Rightarrow> string list \<Rightarrow> string option" where
  "flag_value names (a # x # rest) = (if a \<in> set names then Some x else flag_value names (x # rest))"
| "flag_value names _ = None"

text \<open>The file is sent to the address of the answer, without the token.\<close>

definition send_file :: "'s net_env \<Rightarrow> string \<Rightarrow> string \<Rightarrow> byte list \<Rightarrow> ('s, string) command" where
  "send_file N parentID fileName w =
     bind_cmd (GetUploadURL N parentID fileName (detectMimeType fileName) (int (length w))) (\<lambda>u.
     bind_cmd (raw_request N ''PUT'' (uu_url u) (detectMimeType fileName) w) (\<lambda>(n, _).
       if n \<ge> 400 then fail ''upload failed'' else ret (uu_file u)))"

definition cli_uploadFile :: "'s net_env \<Rightarrow> string \<Rightarrow> string \<Rightarrow> ('s, unit) command" where
  "cli_uploadFile N filePath parentID c =
     (case al_get (cl_local c) filePath of
        None \<Rightarrow> (Inl ''failed to open file'', c)
      | Some w \<Rightarrow> bind_cmd (send_file N parentID (path_Base filePath) w) (\<lambda>_. ret ()) c)"

definition handleUpload :: "'s net_env \<Rightarrow> string list \<Rightarrow> ('s, unit) command" where
  "handleUpload N args =
     bind_cmd ensureLoggedIn (\<lambda>_. first_arg ''usage: upload <file-path>'' args (\<lambda>filePath.
     bind_cmd (case flag_value [''--to''] args of
                 None \<Rightarrow> ret []
               | Some folder \<Rightarrow> bind_cmd (ListFiles N [] 100 0) (\<lambda>fs.
                   let i = (case find_row (\<lambda>f. rf_name f = folder \<and> rf_type f = ''folder'') fs of None \<Rightarrow> [] | Some f \<Rightarrow> rf_id f)
                   in if i = [] then fail ''folder not found'' else ret i)) (\<lambda>parentID c.
       if filePath \<in> set (cl_dirs c) then (Inl ''cannot upload directories (yet)'', c)
       else case al_get (cl_local c) filePath of
              None \<Rightarrow> (Inl ''failed to open file'', c)
            | Some w \<Rightarrow> bind_cmd (send_file N parentID (path_Base filePath) w) (\<lambda>i. say [Said (''Uploaded: '' @ path_Base filePath), Said i]) c)))"

definition save_file :: "'s net_env \<Rightarrow> string \<Rightarrow> byte list \<Rightarrow> ('s, unit) command" where
  "save_file N p w c = (if ne_writable N p then (Inr (), c\<lparr>cl_local := al_put (cl_local c) p w\<rparr>) else (Inl ''failed to create output file'', c))"

definition handleDownload :: "'s net_env \<Rightarrow> string list \<Rightarrow> ('s, unit) command" where
  "handleDownload N args =
     bind_cmd ensureLoggedIn (\<lambda>_. first_arg ''usage: download <file-name>'' args (\<lambda>fileName.
     let outputPath = (case flag_value [''--output'', ''-o''] args of None \<Rightarrow> fileName | Some p \<Rightarrow> p)
     in bind_cmd (find_remote N (''file not found: '' @ fileName) (\<lambda>f. rf_name f = fileName \<and> rf_type f = ''file'')) (\<lambda>f.
        bind_cmd (GetDownloadURL N (rf_id f)) (\<lambda>u.
        bind_cmd (raw_request N ''GET'' (du_url u) [] []) (\<lambda>(n, w).
          if n \<ge> 400 then fail ''download failed''
          else bind_cmd (save_file N outputPath w) (\<lambda>_. say [Said (''Downloaded: '' @ outputPath)]))))))"

text \<open>The files below a directory: their paths relative to it.\<close>

definition local_tree :: "string \<Rightarrow> (string \<times> byte list) list \<Rightarrow> string list" where
  "local_tree dir fs = map (\<lambda>(p, _). drop (length dir + 1) p) (filter (\<lambda>(p, _). has_prefix p (dir @ ''/'')) fs)"

fun sync_files :: "'s net_env \<Rightarrow> string \<Rightarrow> remote_file list \<Rightarrow> string list \<Rightarrow> 's client \<Rightarrow> (nat \<times> nat) \<times> 's client" where
  "sync_files N dir remote [] c = ((0, 0), c)"
| "sync_files N dir remote (rel # rels) c =
     (if \<exists>f \<in> set remote. rf_name f = path_Base rel \<and> rf_type f = ''file''
      then (case sync_files N dir remote rels c of ((u, s), c') \<Rightarrow> ((u, Suc s), c'))
      else (case cli_uploadFile N (filepath_Join [dir, rel]) [] c of
              (Inl e, c1) \<Rightarrow> sync_files N dir remote rels (c1\<lparr>cl_out := cl_out c1 @ [Said (''Failed to upload '' @ rel)]\<rparr>)
            | (Inr _, c1) \<Rightarrow>
                (case sync_files N dir remote rels (c1\<lparr>cl_out := cl_out c1 @ [Said (''Uploaded: '' @ rel)]\<rparr>) of
                   ((u, s), c') \<Rightarrow> ((Suc u, s), c'))))"

definition sync_dir :: "string list \<Rightarrow> 's client \<Rightarrow> string" where
  "sync_dir args c = (case args of [] \<Rightarrow> cc_dir (cl_config c) | a # _ \<Rightarrow> a)"

definition dir_there :: "string \<Rightarrow> 's client \<Rightarrow> bool" where
  "dir_there p c \<longleftrightarrow> p \<in> set (cl_dirs c) \<or> al_get (cl_local c) p \<noteq> None"

definition handleSync :: "'s net_env \<Rightarrow> string list \<Rightarrow> ('s, unit) command" where
  "handleSync N args =
     bind_cmd ensureLoggedIn (\<lambda>_ c.
       let dir = sync_dir args c
       in if dir = [] then (Inl ''no sync directory specified'', c)
          else if \<not> dir_there dir c then (Inl (''directory does not exist: '' @ dir), c)
          else bind_cmd (ListFiles N [] 1000 0) (\<lambda>fs c1.
                 case sync_files N dir fs (local_tree dir (cl_local c1)) c1 of ((u, s), c2) \<Rightarrow>
                   say [Said (''Sync complete: '' @ dec_nat u @ '' uploaded, '' @ dec_nat s @ '' skipped'')] c2) c)"

text \<open>The daemon runs on from here: the directory it is to watch.\<close>

definition handleDaemon :: "string list \<Rightarrow> ('s, string) command" where
  "handleDaemon args =
     bind_cmd ensureLoggedIn (\<lambda>_ c.
       let dir = sync_dir args c
       in if dir = [] then (Inl ''no watch directory specified'', c)
          else if \<not> dir_there dir c then (Inl (''directory does not exist: '' @ dir), c) else (Inr dir, c))"

section \<open>The dispatch\<close>

definition cli_Run :: "'s net_env \<Rightarrow> string list \<Rightarrow> ('s, unit) command" where
  "cli_Run N args =
     (case args of
        [] \<Rightarrow> say [Said ''VaultDrift CLI'']
      | k # rest \<Rightarrow>
          if k \<in> {''help'', ''--help'', ''-h''} then say [Said ''VaultDrift CLI'']
          else if k \<in> {''version'', ''--version'', ''-v''} then say [Said ''VaultDrift CLI v0.1.0'']
          else if k = ''config'' then handleConfig N rest
          else if k = ''login'' then handleLogin N
          else if k = ''logout'' then handleLogout N
          else if k = ''ls'' \<or> k = ''list'' then handleList N rest
          else if k = ''cd'' then handleCD rest
          else if k = ''pwd'' then handlePWD
          else if k = ''mkdir'' then handleMkdir N rest
          else if k = ''rm'' \<or> k = ''delete'' then cli_handleDelete N rest
          else if k = ''mv'' \<or> k = ''move'' then cli_handleMove N rest
          else if k = ''rename'' then handleRename N rest
          else if k = ''upload'' \<or> k = ''up'' then handleUpload N rest
          else if k = ''download'' \<or> k = ''dl'' then handleDownload N rest
          else if k = ''search'' then handleSearch N rest
          else if k = ''share'' then handleShare N rest
          else if k = ''shares'' then handleListShares N rest
          else if k = ''unshare'' then handleUnshare N rest
          else if k = ''sync'' then handleSync N rest
          else if k = ''daemon'' then bind_cmd (handleDaemon rest) (\<lambda>_. ret ())
          else if k = ''status'' then handleStatus N
          else fail (''unknown command: '' @ k))"

text \<open>The uses of the program one after the other, each a process of its own.\<close>

fun invocations :: "'s net_env \<Rightarrow> string list list \<Rightarrow> 's client \<Rightarrow> unit result list \<times> 's client" where
  "invocations N [] c = ([], c)"
| "invocations N (args # rest) c =
     (case cli_Run N args (NewCLI c) of (r, c1) \<Rightarrow> (case invocations N rest c1 of (rs, c2) \<Rightarrow> (r # rs, c2)))"

section \<open>sync_daemon.go\<close>

record fs_event =
  ev_name :: string
  ev_create :: bool
  ev_write :: bool
  ev_remove :: bool
  ev_rename :: bool

text \<open>The watched directories and, for each path with a pending upload, when its timer fires.\<close>

record daemon =
  dm_watched :: "string list"
  dm_timers :: "(string \<times> int) list"

definition debounce_delay :: int where
  "debounce_delay = 2 * 10 ^ 9"

definition is_hidden :: "string \<Rightarrow> bool" where
  "is_hidden p \<longleftrightarrow> hd (path_Base p) = CHR ''.''"

text \<open>The entries of the walk with whether they are directories: a hidden directory is skipped with what it holds.\<close>

definition addWatchRecursive :: "(string \<times> bool) list \<Rightarrow> string list" where
  "addWatchRecursive tree =
     map fst (filter (\<lambda>(p, d). d \<and> \<not> is_hidden p \<and> \<not> (\<exists>(q, e) \<in> set tree. e \<and> is_hidden q \<and> has_prefix p (q @ ''/''))) tree)"

definition debounceUpload :: "int \<Rightarrow> string \<Rightarrow> daemon \<Rightarrow> daemon" where
  "debounceUpload now p dm = dm\<lparr>dm_timers := al_put (al_del (dm_timers dm) p) p (now + debounce_delay)\<rparr>"

text \<open>\<open>kind\<close> says what is at a path: nothing, a directory or a file.  A removal changes nothing.\<close>

definition handleEvent :: "(string \<Rightarrow> bool option) \<Rightarrow> int \<Rightarrow> fs_event \<Rightarrow> daemon \<Rightarrow> daemon" where
  "handleEvent kind now ev dm =
     (if is_hidden (ev_name ev) then dm
      else if ev_create ev
      then (case kind (ev_name ev) of
              None \<Rightarrow> dm
            | Some True \<Rightarrow> dm\<lparr>dm_watched := dm_watched dm @ [ev_name ev]\<rparr>
            | Some False \<Rightarrow> debounceUpload now (ev_name ev) dm)
      else if ev_write ev then debounceUpload now (ev_name ev) dm
      else dm)"

text \<open>The timers that fire up to an instant, in their order.\<close>

definition due_paths :: "int \<Rightarrow> daemon \<Rightarrow> string list" where
  "due_paths now dm = map fst (sort_key snd (filter (\<lambda>(p, t). t \<le> now) (dm_timers dm)))"

definition fire_timers :: "int \<Rightarrow> daemon \<Rightarrow> daemon" where
  "fire_timers now dm = dm\<lparr>dm_timers := filter (\<lambda>(p, t). \<not> t \<le> now) (dm_timers dm)\<rparr>"

text \<open>Every upload goes to the root.\<close>

definition daemon_upload :: "'s net_env \<Rightarrow> string \<Rightarrow> 's client \<Rightarrow> 's client" where
  "daemon_upload N p c =
     (case cli_uploadFile N p [] c of
        (Inl e, c') \<Rightarrow> c'\<lparr>cl_out := cl_out c' @ [Said (''Upload failed '' @ p)]\<rparr>
      | (Inr _, c') \<Rightarrow> c'\<lparr>cl_out := cl_out c' @ [Said (''Uploaded: '' @ p)]\<rparr>)"

text \<open>The events with their instants: the timers that are due fire before each.\<close>

fun daemon_run :: "(string \<Rightarrow> bool option) \<Rightarrow> (int \<times> fs_event) list \<Rightarrow> daemon \<Rightarrow> string list \<times> daemon" where
  "daemon_run kind [] dm = ([], dm)"
| "daemon_run kind ((now, ev) # evs) dm =
     (case daemon_run kind evs (handleEvent kind now ev (fire_timers now dm)) of (ps, dm') \<Rightarrow> (due_paths now dm @ ps, dm'))"

definition daemon_stop :: "daemon \<Rightarrow> daemon" where
  "daemon_stop dm = dm\<lparr>dm_watched := [], dm_timers := []\<rparr>"

section \<open>The client and the server\<close>

text \<open>The answers of the login handler as they go over the wire: \<^verbatim>\<open>encoding/json\<close> writes an instant as text.\<close>

definition login_members :: "(int \<Rightarrow> string) \<Rightarrow> account_answer \<Rightarrow> (string \<times> json) list" where
  "login_members time a =
     (case a of
        LoggedIn tk sid user \<Rightarrow>
          [(''expires_at'', JStr (time (tp_expires tk))), (''refresh_token'', JStr (tp_refresh tk)), (''session_id'', JStr sid),
           (''token'', JStr (tp_access tk)), (''username'', JStr user)]
      | TotpRequired s \<Rightarrow> [(''requires_totp'', JBool True), (''totp_session'', JStr s)]
      | _ \<Rightarrow> [])"

definition login_answer :: "(int \<Rightarrow> string) \<Rightarrow> account_answer answer \<Rightarrow> net_answer" where
  "login_answer time a =
     (case a of
        Refused n e \<Rightarrow> \<lparr>na_status = n, na_text = e, na_json = Some (JObj [(''error'', JStr e)])\<rparr>
      | Answered n x \<Rightarrow> \<lparr>na_status = n, na_text = [], na_json = Some (JObj [(''data'', JObj (login_members time x)), (''success'', JBool True)])\<rparr>)"

definition credentials :: "json option \<Rightarrow> (string \<times> string) option" where
  "credentials body =
     (case body of
        Some (JObj ms) \<Rightarrow>
          (case (json_field read_string ''username'' ms [], json_field read_string ''password'' ms []) of (Some u, Some p) \<Rightarrow> Some (u, p) | _ \<Rightarrow> None)
      | Some JNull \<Rightarrow> Some ([], [])
      | _ \<Rightarrow> None)"

text \<open>The server as the client sees it: the login handler, and anything at all for the other requests.\<close>

definition server_api :: "primitives \<Rightarrow> brute_config \<Rightarrow> int \<Rightarrow> (nat \<Rightarrow> int) \<Rightarrow> (nat \<Rightarrow> string) \<Rightarrow> string \<Rightarrow> string \<Rightarrow> (int \<Rightarrow> string)
    \<Rightarrow> (request \<Rightarrow> auth_state \<times> 'r \<Rightarrow> net_answer option \<times> (auth_state \<times> 'r)) \<Rightarrow> request \<Rightarrow> auth_state \<times> 'r \<Rightarrow> net_answer option \<times> (auth_state \<times> 'r)" where
  "server_api P cfg ttl clk gen ip agent time rest q s =
     (if rq_method q = ''POST'' \<and> rq_path q = ''/api/v1/auth/login''
      then (case login P cfg ttl clk gen ip agent (credentials (rq_body q)) (fst s) of
              (Returns a, st) \<Rightarrow> (Some (login_answer time a), (st, snd s))
            | (Panics, st) \<Rightarrow> (Some \<lparr>na_status = 500, na_text = ''Internal Server Error'', na_json = None\<rparr>, (st, snd s))
            | (Diverges, st) \<Rightarrow> (None, (st, snd s)))
      else rest q s)"

section \<open>Lemmas\<close>

text \<open>No token in memory or on disk, kept by a command whose result fits.\<close>

definition tokenless :: "'s client \<Rightarrow> bool" where
  "tokenless c \<longleftrightarrow> cc_token (cl_config c) = [] \<and> cc_token (cli_Load (cl_saved c)) = []"

definition stays :: "('s, 'a) command \<Rightarrow> ('a \<Rightarrow> bool) \<Rightarrow> bool" where
  "stays m Q \<longleftrightarrow> (\<forall>c r c'. tokenless c \<longrightarrow> m c = (r, c') \<longrightarrow> tokenless c' \<and> (\<forall>x. r = Inr x \<longrightarrow> Q x))"

lemma stays_bind: "stays m Q \<Longrightarrow> (\<And>x. Q x \<Longrightarrow> stays (k x) R) \<Longrightarrow> stays (bind_cmd m k) R"
  unfolding stays_def
proof (intro allI impI)
  fix c r c'
  assume m: "\<forall>c r c'. tokenless c \<longrightarrow> m c = (r, c') \<longrightarrow> tokenless c' \<and> (\<forall>x. r = Inr x \<longrightarrow> Q x)"
    and k: "\<And>x. Q x \<Longrightarrow> \<forall>c r c'. tokenless c \<longrightarrow> k x c = (r, c') \<longrightarrow> tokenless c' \<and> (\<forall>x. r = Inr x \<longrightarrow> R x)"
    and c: "tokenless c" "bind_cmd m k c = (r, c')"
  obtain r1 c1 where one: "m c = (r1, c1)" by fastforce
  with m c(1) have t: "tokenless c1" "\<forall>x. r1 = Inr x \<longrightarrow> Q x" by blast+
  show "tokenless c' \<and> (\<forall>x. r = Inr x \<longrightarrow> R x)"
  proof (cases r1)
    case (Inl e)
    with one c(2) t(1) show ?thesis by (auto simp: bind_cmd_def)
  next
    case (Inr x)
    with one c(2) have "k x c1 = (r, c')" by (simp add: bind_cmd_def)
    with k [of x] t Inr show ?thesis by blast
  qed
qed

lemma stays_ret: "Q x \<Longrightarrow> stays (ret x) Q"
  by (simp add: stays_def ret_def)

lemma stays_fail: "stays (fail e) Q"
  by (simp add: stays_def fail_def)

lemma stays_say: "stays (say ls) (\<lambda>_. True)"
  by (auto simp: stays_def say_def tokenless_def)

lemma stays_send: "stays (send_request N m p b q) (\<lambda>_. True)"
  by (auto simp: stays_def send_request_def tokenless_def split: if_split_asm prod.split_asm option.split_asm)

lemma stays_raw: "stays (raw_request N m u t w) (\<lambda>_. True)"
  by (auto simp: stays_def raw_request_def tokenless_def split: if_split_asm prod.split_asm option.split_asm)

lemma stays_Save: "stays (cli_Save N) (\<lambda>_. True)"
  by (auto simp: stays_def cli_Save_def tokenless_def cli_Load_def)

lemma ensure_fails: "tokenless c \<Longrightarrow> bind_cmd ensureLoggedIn k c = (Inl ''not logged in'', c)"
  by (simp add: bind_cmd_def ensureLoggedIn_def tokenless_def)

text \<open>A login that the client takes for one has no token: the instant of a full answer does not fit the number
  it expects, and the answer that asks for a code carries none.\<close>

lemma login_answer_read:
  assumes "na_status (login_answer time a) < 400" and "na_json (login_answer time a) = Some j" and "read_data auth_fields j = Some r"
  shows "ar_token r = []"
proof (cases a)
  case (Answered n x)
  have j: "j = JObj [(''data'', JObj (login_members time x)), (''success'', JBool True)]" using assms(2) by (simp add: login_answer_def Answered)
  have z: "auth_fields [] = Some \<lparr>ar_token = [], ar_expires = 0, ar_user = [], ar_username = []\<rparr>" by (simp add: auth_fields_def json_field_def)
  have "auth_fields (login_members time x) = Some r"
    using assms(3) by (simp add: j read_data_def z json_field_def Tokens.lower_char_def)
  then show ?thesis by (cases x) (auto simp: login_members_def auth_fields_def json_field_def Tokens.lower_char_def)
next
  case (Refused n e)
  have j: "j = JObj [(''error'', JStr e)]" using assms(2) by (simp add: login_answer_def Refused)
  have z: "auth_fields [] = Some \<lparr>ar_token = [], ar_expires = 0, ar_user = [], ar_username = []\<rparr>" by (simp add: auth_fields_def json_field_def)
  show ?thesis using assms(3) by (auto simp: j read_data_def z json_field_def Tokens.lower_char_def)
qed

lemma stays_login:
  assumes "ne_api N = server_api P cfg ttl clk gen ip agent time rest"
  shows "stays (client_Login N u p) (\<lambda>r. ar_token r = [])"
  unfolding stays_def
proof (intro allI impI)
  fix c r c' assume c: "tokenless c" "client_Login N u p c = (r, c')"
  let ?q = "\<lparr>rq_base = cl_base c, rq_method = ''POST'', rq_path = ''/api/v1/auth/login'', rq_query = [],
      rq_body = Some (JObj [(''password'', JStr p), (''username'', JStr u)]), rq_token = cl_token c\<rparr>"
  have ans: "(\<exists>a. x = login_answer time a) \<or> na_status x = 500" if "ne_api N ?q (cl_net c) = (Some x, s)" for x s
    using that by (auto simp: assms server_api_def split: prod.split_asm outcome.split_asm)
  have "ar_token y = []" if "ne_api N ?q (cl_net c) = (Some x, s)" "\<not> 400 \<le> na_status x" "na_json x = Some j" "read_data auth_fields j = Some y" for x s j y
    using ans [OF that(1)] that(2-4) login_answer_read [of time _ j y] by (auto simp: not_le)
  with c show "tokenless c' \<and> (\<forall>x. r = Inr x \<longrightarrow> ar_token x = [])"
    by (auto simp: client_Login_def doRequest_def send_request_def bind_cmd_def fail_def ret_def tokenless_def
        split: if_split_asm prod.split_asm option.split_asm sum.split_asm)
qed

lemma stays_ensured: "stays (bind_cmd ensureLoggedIn k) Q"
  by (auto simp: stays_def ensure_fails)

lemmas needs_login_defs = handleList_def handleCD_def handleMkdir_def cli_handleDelete_def cli_handleMove_def handleRename_def handleSearch_def
  handleShare_def handleListShares_def handleUnshare_def handleUpload_def handleDownload_def handleSync_def

lemma stays_ensured_commands:
  "stays (handleList N a) Q" "stays (handleCD a) Q" "stays (handleMkdir N a) Q" "stays (cli_handleDelete N a) Q" "stays (cli_handleMove N a) Q"
  "stays (handleRename N a) Q" "stays (handleSearch N a) Q" "stays (handleShare N a) Q" "stays (handleListShares N a) Q" "stays (handleUnshare N a) Q"
  "stays (handleUpload N a) Q" "stays (handleDownload N a) Q" "stays (handleSync N a) Q"
  unfolding needs_login_defs by (rule stays_ensured)+

lemma refused_commands:
  assumes "tokenless c"
  shows "handleList N a c = (Inl ''not logged in'', c)" "handleCD a c = (Inl ''not logged in'', c)" "handleMkdir N a c = (Inl ''not logged in'', c)"
    "cli_handleDelete N a c = (Inl ''not logged in'', c)" "cli_handleMove N a c = (Inl ''not logged in'', c)" "handleRename N a c = (Inl ''not logged in'', c)"
    "handleSearch N a c = (Inl ''not logged in'', c)" "handleShare N a c = (Inl ''not logged in'', c)" "handleListShares N a c = (Inl ''not logged in'', c)"
    "handleUnshare N a c = (Inl ''not logged in'', c)" "handleUpload N a c = (Inl ''not logged in'', c)" "handleDownload N a c = (Inl ''not logged in'', c)"
    "handleSync N a c = (Inl ''not logged in'', c)" "handleDaemon a c = (Inl ''not logged in'', c)"
  unfolding needs_login_defs handleDaemon_def by (rule ensure_fails [OF assms])+

lemma stays_if: "(b \<Longrightarrow> stays m Q) \<Longrightarrow> (\<not> b \<Longrightarrow> stays m' Q) \<Longrightarrow> stays (if b then m else m') Q"
  by simp

lemma stays_handleLogin:
  assumes "ne_api N = server_api P cfg ttl clk gen ip agent time rest"
  shows "stays (handleLogin N) (\<lambda>_. True)"
  unfolding handleLogin_def
proof (rule stays_bind [OF stays_login [OF assms]], rule stays_bind)
  fix r :: auth_response assume "ar_token r = []"
  then show "stays (\<lambda>c. (Inr (), c\<lparr>cl_config := (cl_config c)\<lparr>cc_token := ar_token r, cc_username := ar_username r\<rparr>, cl_token := ar_token r\<rparr>)) (\<lambda>_. True)"
    by (auto simp: stays_def tokenless_def)
qed (rule stays_bind [OF stays_Save], rule stays_say)

lemma stays_handleConfig: "stays (handleConfig N args) (\<lambda>_. True)"
  by (auto simp: stays_def handleConfig_def say_def cli_Save_def tokenless_def cli_Load_def split: list.split_asm if_split_asm)

lemma stays_handleLogout: "stays (handleLogout N) (\<lambda>_. True)"
  using stays_say [of "[Said ''Not logged in'']"] by (auto simp: stays_def handleLogout_def tokenless_def)

lemma stays_handleStatus: "stays (handleStatus N) (\<lambda>_. True)"
  unfolding stays_def
proof (intro allI impI)
  fix c r c' assume c: "tokenless c" "handleStatus N c = (r, c')"
  obtain x c1 where raw: "raw_request N ''GET'' (cc_url (cl_config c) @ ''/health'') [] [] c = (x, c1)" by fastforce
  then have "tokenless c1" using stays_raw c(1) unfolding stays_def by blast
  then show "tokenless c' \<and> (\<forall>y. r = Inr y \<longrightarrow> True)"
    using c(2) by (auto simp: handleStatus_def raw say_def tokenless_def split: sum.split_asm)
qed

lemma stays_Run:
  assumes "ne_api N = server_api P cfg ttl clk gen ip agent time rest"
  shows "stays (cli_Run N args) (\<lambda>_. True)"
proof (cases args)
  case Nil
  then show ?thesis by (simp add: cli_Run_def stays_say)
next
  case (Cons k args')
  have d: "stays (bind_cmd (handleDaemon args') (\<lambda>_. ret ())) (\<lambda>_. True)"
    unfolding handleDaemon_def by (rule stays_bind [OF stays_ensured]) (rule stays_ret, simp)
  show ?thesis
    unfolding Cons cli_Run_def list.case handlePWD_def
    by (rule stays_if stays_say stays_handleConfig stays_handleLogin [OF assms] stays_handleLogout stays_handleStatus stays_fail d stays_ensured_commands)+
qed

text \<open>The commands that ask for a login.\<close>

definition login_commands :: "string set" where
  "login_commands = {''ls'', ''list'', ''cd'', ''mkdir'', ''rm'', ''delete'', ''mv'', ''move'', ''rename'', ''upload'', ''up'', ''download'', ''dl'', ''search'',
     ''share'', ''shares'', ''unshare'', ''sync'', ''daemon''}"

lemma login_command_fails:
  assumes "tokenless c" and "k \<in> login_commands"
  shows "fst (cli_Run N (k # args) c) = Inl ''not logged in''"
  using assms(2) unfolding login_commands_def insert_iff empty_iff
  by (elim disjE) (simp_all add: cli_Run_def refused_commands [OF assms(1)] bind_cmd_def)

lemma tokenless_New: "cc_token (cli_Load (cl_saved c)) = [] \<Longrightarrow> tokenless (NewCLI c)"
  by (simp add: tokenless_def NewCLI_def Let_def)

text \<open>The client cannot log in to the server.  The server writes the expiry of a token as text where
  the client reads a number, so a login that succeeds is taken for a failure; the answer that asks for a
  code has no token.  Whatever commands are used, with whatever passwords, a client that starts without
  a token never gets one, and every command that needs a login refuses.\<close>

theorem client_never_logs_in:
  assumes "ne_api N = server_api P cfg ttl clk gen ip agent time rest" and "cc_token (cli_Load (cl_saved c)) = []"
    and "invocations N cmds c = (rs, c')"
  shows "cc_token (cli_Load (cl_saved c')) = []
    \<and> list_all2 (\<lambda>args r. args \<noteq> [] \<and> hd args \<in> login_commands \<longrightarrow> r = Inl ''not logged in'') cmds rs"
  using assms(2,3)
proof (induction cmds arbitrary: c rs)
  case (Cons args cmds)
  obtain r c1 where one: "cli_Run N args (NewCLI c) = (r, c1)" by fastforce
  obtain rs' where rest: "invocations N cmds c1 = (rs', c')" "rs = r # rs'"
    using Cons.prems(2) one by (auto split: prod.split_asm)
  note t = tokenless_New [OF Cons.prems(1)]
  have "tokenless c1" using stays_Run [OF assms(1), of args] t one unfolding stays_def by blast
  then have "cc_token (cli_Load (cl_saved c1)) = []" by (simp add: tokenless_def)
  moreover have "r = Inl ''not logged in''" if "args \<noteq> []" "hd args \<in> login_commands"
    using login_command_fails [OF t, of "hd args" N "tl args"] that one by (cases args) simp_all
  ultimately show ?case using Cons.IH [OF _ rest(1)] rest(2) by simp
qed simp

definition cli_demo_net :: "(auth_state \<times> unit) net_env" where
  "cli_demo_net = \<lparr>ne_api = server_api demo_prims DefaultBruteForceConfig 0 (\<lambda>_. 0) (\<lambda>k. [char_of k]) [] [] (\<lambda>_. ''1970-01-01T00:00:00Z'') (\<lambda>q s. (None, s)),
     ne_raw = (\<lambda>_ _ _ _ s. (None, s)), ne_config_writable = True, ne_writable = (\<lambda>_. True), ne_input = (''n'', ''pw'')\<rparr>"

definition cli_demo :: "(auth_state \<times> unit) client" where
  "cli_demo = \<lparr>cl_base = [], cl_token = [], cl_config = cli_Load None, cl_saved = None, cl_local = [], cl_dirs = [], cl_out = [],
     cl_net = (login_demo demo_prims, ())\<rparr>"

theorem client_never_logs_in_witness:
  "\<exists>r c'. invocations cli_demo_net [[''login''], [''ls'']] cli_demo = ([r, Inl ''not logged in''], c')"
proof -
  obtain rs c' where run: "invocations cli_demo_net [[''login''], [''ls'']] cli_demo = (rs, c')" by fastforce
  have "list_all2 (\<lambda>args r. args \<noteq> [] \<and> hd args \<in> login_commands \<longrightarrow> r = Inl ''not logged in'') [[''login''], [''ls'']] rs"
    using client_never_logs_in [OF _ _ run, of demo_prims DefaultBruteForceConfig 0 "\<lambda>_. 0" "\<lambda>k. [char_of k]" "[]" "[]" "\<lambda>_. ''1970-01-01T00:00:00Z''" "\<lambda>q s. (None, s)"]
    by (simp add: cli_demo_net_def cli_demo_def cli_Load_def)
  then show ?thesis using run by (auto simp: list_all2_Cons1 login_commands_def)
qed



end
