(* ===== verification/Remote.thy ===== *)
theory Remote
  imports Circuit Storage Config
begin

text \<open>
  Remote storage: the S3 client (\<^verbatim>\<open>src/internal/storage/s3client/client.go\<close>), the backend that
  calls it through a circuit breaker (\<^verbatim>\<open>src/internal/storage/s3.go\<close>) and the IPFS backend
  (\<^verbatim>\<open>src/internal/storage/ipfs.go\<close>).

  The service is a parameter that answers a request in a state of its own; SHA-256, HMAC, the clock and
  the reading of a listing are parameters.  Addresses are those without escapes, queries and fragments.
\<close>

section \<open>client.go: requests\<close>

record s3_config =
  s3_endpoint :: string
  s3_bucket :: string
  s3_region :: string
  s3_access :: string
  s3_secret :: string
  s3_path_style :: bool

record http_request =
  hq_method :: string
  hq_host :: string
  hq_path :: string
  hq_query :: "(string \<times> string) list"
  hq_headers :: "(string \<times> string) list"
  hq_body :: "byte list"

text \<open>\<open>ha_body\<close> is \<open>None\<close> when the body breaks off.\<close>

record http_answer =
  ha_status :: nat
  ha_length :: int
  ha_headers :: "(string \<times> string) list"
  ha_body :: "byte list option"

definition trim_slashes :: "string \<Rightarrow> string" where
  "trim_slashes s = rev (dropWhile (\<lambda>c. c = slash) (rev s))"

text \<open>The client keeps the endpoint without slashes at its end.\<close>

definition NewClient :: "s3_config \<Rightarrow> s3_config" where
  "NewClient c = c\<lparr>s3_endpoint := trim_slashes (s3_endpoint c)\<rparr>"

definition buildURL :: "s3_config \<Rightarrow> string \<Rightarrow> string" where
  "buildURL c objectKey =
     (if s3_path_style c then s3_endpoint c @ ''/'' @ s3_bucket c @ ''/'' @ objectKey
      else ''https://'' @ s3_bucket c @ ''.s3.'' @ s3_region c @ ''.amazonaws.com/'' @ objectKey)"

text \<open>Host and path of an address; \<open>None\<close> when it has no scheme the client can use.\<close>

definition split_url :: "string \<Rightarrow> (string \<times> string) option" where
  "split_url u =
     (let rest = (if has_prefix (ToLower u) ''http://'' then Some (drop 7 u) else if has_prefix (ToLower u) ''https://'' then Some (drop 8 u) else None)
      in case rest of None \<Rightarrow> None | Some r \<Rightarrow> Some (takeWhile (\<lambda>c. c \<noteq> slash) r, dropWhile (\<lambda>c. c \<noteq> slash) r))"

definition str_bytes :: "string \<Rightarrow> byte list" where
  "str_bytes s = map of_char s"

section \<open>client.go: signatures\<close>

record s3_crypto =
  sc_sha :: "byte list \<Rightarrow> byte list"
  sc_hmac :: "byte list \<Rightarrow> byte list \<Rightarrow> byte list"

definition header_line :: "string \<times> string \<Rightarrow> string" where
  "header_line h = ToLower (fst h) @ '':'' @ snd h @ [CHR 0x0A]"

definition by_name :: "(string \<times> string) list \<Rightarrow> (string \<times> string) list" where
  "by_name hs = sort_key (\<lambda>h. ToLower (fst h)) hs"

definition getSignedHeaders :: "http_request \<Rightarrow> string" where
  "getSignedHeaders q = join_with '';'' (map (\<lambda>h. ToLower (fst h)) (by_name (hq_headers q)))"

definition query_part :: "string \<times> string \<Rightarrow> string" where
  "query_part p = fst p @ ''='' @ snd p"

definition createCanonicalRequest :: "http_request \<Rightarrow> string \<Rightarrow> string" where
  "createCanonicalRequest q bodyHash =
     hq_method q @ [CHR 0x0A] @ filepath_Join [''/'', hq_path q] @ [CHR 0x0A]
     @ join_with ''&'' (map query_part (sort_key fst (hq_query q))) @ [CHR 0x0A]
     @ concat (map header_line (by_name (hq_headers q))) @ [CHR 0x0A] @ getSignedHeaders q @ [CHR 0x0A] @ bodyHash"

definition getSigningKey :: "s3_crypto \<Rightarrow> s3_config \<Rightarrow> string \<Rightarrow> byte list" where
  "getSigningKey K c dateStamp =
     (let kDate = sc_hmac K (str_bytes (''AWS4'' @ s3_secret c)) (str_bytes dateStamp);
          kRegion = sc_hmac K kDate (str_bytes (s3_region c)); kService = sc_hmac K kRegion (str_bytes ''s3'')
      in sc_hmac K kService (str_bytes ''aws4_request''))"

definition signing_scope :: "s3_config \<Rightarrow> string \<Rightarrow> string" where
  "signing_scope c dateStamp = dateStamp @ ''/'' @ s3_region c @ ''/s3/aws4_request''"

definition stringToSign :: "s3_crypto \<Rightarrow> s3_config \<Rightarrow> string \<Rightarrow> string \<Rightarrow> string \<Rightarrow> string" where
  "stringToSign K c dateStamp timeStamp canonical =
     ''AWS4-HMAC-SHA256'' @ [CHR 0x0A] @ timeStamp @ [CHR 0x0A] @ signing_scope c dateStamp @ [CHR 0x0A] @ HexEncode (sc_sha K (str_bytes canonical))"

definition body_hash :: "s3_crypto \<Rightarrow> http_request \<Rightarrow> string" where
  "body_hash K q = HexEncode (sc_sha K (hq_body q))"

definition signed_headers :: "s3_crypto \<Rightarrow> string \<Rightarrow> http_request \<Rightarrow> http_request" where
  "signed_headers K timeStamp q =
     q\<lparr>hq_headers := al_put (al_put (al_put (hq_headers q) ''Host'' (hq_host q)) ''X-Amz-Date'' timeStamp) ''X-Amz-Content-Sha256'' (body_hash K q)\<rparr>"

definition signature_of :: "s3_crypto \<Rightarrow> s3_config \<Rightarrow> string \<Rightarrow> string \<Rightarrow> string \<Rightarrow> string" where
  "signature_of K c dateStamp timeStamp canonical =
     HexEncode (sc_hmac K (getSigningKey K c dateStamp) (str_bytes (stringToSign K c dateStamp timeStamp canonical)))"

definition signRequest :: "s3_crypto \<Rightarrow> s3_config \<Rightarrow> string \<times> string \<Rightarrow> http_request \<Rightarrow> http_request" where
  "signRequest K c stamps q =
     (let q1 = signed_headers K (snd stamps) q;
          canonical = createCanonicalRequest q1 (body_hash K q)
      in q1\<lparr>hq_headers := al_put (hq_headers q1) ''Authorization''
           (''AWS4-HMAC-SHA256 Credential='' @ s3_access c @ ''/'' @ signing_scope c (fst stamps) @ '', SignedHeaders='' @ getSignedHeaders q1
            @ '', Signature='' @ signature_of K c (fst stamps) (snd stamps) canonical)\<rparr>)"

section \<open>client.go: operations\<close>

record object_info =
  oi_key :: string
  oi_size :: int
  oi_modified :: int
  oi_etag :: string

text \<open>The service, the clock stamps of each request, the reading of a time and of a listing.\<close>

record 's s3_world =
  sw_http :: "http_request \<Rightarrow> 's \<Rightarrow> http_answer option \<times> 's"
  sw_crypto :: s3_crypto
  sw_stamps :: "'s \<Rightarrow> string \<times> string"
  sw_time :: "string \<Rightarrow> int"
  sw_listing :: "byte list \<Rightarrow> (string \<times> int \<times> string \<times> string) list option"

definition s3_send :: "'s s3_world \<Rightarrow> s3_config \<Rightarrow> string \<Rightarrow> string \<Rightarrow> (string \<times> string) list \<Rightarrow> (string \<times> string) list \<Rightarrow> byte list \<Rightarrow> 's
    \<Rightarrow> http_answer result \<times> 's" where
  "s3_send W c meth objectKey query headers w s =
     (case split_url (buildURL c objectKey) of
        None \<Rightarrow> (Inl ''request failed: unsupported protocol scheme'', s)
      | Some (host, path) \<Rightarrow>
          (case sw_http W (signRequest (sw_crypto W) c (sw_stamps W s)
                 \<lparr>hq_method = meth, hq_host = host, hq_path = path, hq_query = query, hq_headers = headers, hq_body = w\<rparr>) s of
             (None, s') \<Rightarrow> (Inl ''request failed'', s')
           | (Some a, s') \<Rightarrow> (Inr a, s')))"

definition PutObject :: "'s s3_world \<Rightarrow> s3_config \<Rightarrow> string \<Rightarrow> byte list \<Rightarrow> 's \<Rightarrow> string option \<times> 's" where
  "PutObject W c objectKey w s =
     (case s3_send W c ''PUT'' objectKey [] [(''Content-Length'', dec_nat (length w)), (''Content-Type'', ''application/octet-stream'')] w s of
        (Inl e, s') \<Rightarrow> (Some e, s')
      | (Inr a, s') \<Rightarrow> (if ha_status a = 200 then None else Some ''put object failed'', s'))"

definition GetObject :: "'s s3_world \<Rightarrow> s3_config \<Rightarrow> string \<Rightarrow> 's \<Rightarrow> http_answer result \<times> 's" where
  "GetObject W c objectKey s =
     (case s3_send W c ''GET'' objectKey [] [] [] s of
        (Inl e, s') \<Rightarrow> (Inl e, s')
      | (Inr a, s') \<Rightarrow> (if ha_status a = 200 then Inr a else Inl (''get object failed: '' @ dec_nat (ha_status a)), s'))"

definition DeleteObject :: "'s s3_world \<Rightarrow> s3_config \<Rightarrow> string \<Rightarrow> 's \<Rightarrow> string option \<times> 's" where
  "DeleteObject W c objectKey s =
     (case s3_send W c ''DELETE'' objectKey [] [] [] s of
        (Inl e, s') \<Rightarrow> (Some e, s')
      | (Inr a, s') \<Rightarrow> (if ha_status a = 200 \<or> ha_status a = 204 then None else Some ''delete object failed'', s'))"

definition answer_header :: "http_answer \<Rightarrow> string \<Rightarrow> string" where
  "answer_header a k = (case al_get (ha_headers a) k of None \<Rightarrow> [] | Some v \<Rightarrow> v)"

definition HeadObject :: "'s s3_world \<Rightarrow> s3_config \<Rightarrow> string \<Rightarrow> 's \<Rightarrow> object_info result \<times> 's" where
  "HeadObject W c objectKey s =
     (case s3_send W c ''HEAD'' objectKey [] [] [] s of
        (Inl e, s') \<Rightarrow> (Inl e, s')
      | (Inr a, s') \<Rightarrow>
          (if ha_status a = 404 then Inl ''object not found''
           else if ha_status a \<noteq> 200 then Inl (''head object failed: '' @ dec_nat (ha_status a))
           else Inr \<lparr>oi_key = objectKey, oi_size = ha_length a, oi_modified = sw_time W (answer_header a ''Last-Modified''),
                     oi_etag = trim_char CHR 0x22 (answer_header a ''Etag'')\<rparr>, s'))"

definition HeadBucket :: "'s s3_world \<Rightarrow> s3_config \<Rightarrow> 's \<Rightarrow> string option \<times> 's" where
  "HeadBucket W c s =
     (case s3_send W c ''HEAD'' [] [] [] [] s of
        (Inl e, s') \<Rightarrow> (Some e, s')
      | (Inr a, s') \<Rightarrow> (if ha_status a = 200 \<or> ha_status a = 403 then None else Some ''head bucket failed'', s'))"

definition list_query :: "string \<Rightarrow> (string \<times> string) list" where
  "list_query prefix = [(''list-type'', ''2'')] @ (if prefix \<noteq> [] then [(''prefix'', prefix)] else [])"

definition ListObjectsV2 :: "'s s3_world \<Rightarrow> s3_config \<Rightarrow> string \<Rightarrow> 's \<Rightarrow> object_info list result \<times> 's" where
  "ListObjectsV2 W c prefix s =
     (case s3_send W c ''GET'' [] (list_query prefix) [] [] s of
        (Inl e, s') \<Rightarrow> (Inl e, s')
      | (Inr a, s') \<Rightarrow>
          (if ha_status a \<noteq> 200 then Inl ''list objects failed''
           else (case Option.bind (ha_body a) (sw_listing W) of
                   None \<Rightarrow> Inl ''failed to parse XML response''
                 | Some es \<Rightarrow> Inr (map (\<lambda>(k, n, t, e). \<lparr>oi_key = k, oi_size = n, oi_modified = sw_time W t, oi_etag = trim_char CHR 0x22 e\<rparr>) es)), s'))"

section \<open>s3.go\<close>

definition s3_breaker_config :: cb_config where
  "s3_breaker_config = \<lparr>MaxFailures = 5, Timeout = 30 * 10 ^ 9, MaxRetries = 2, RetryDelay = 10 ^ 9\<rparr>"

text \<open>The backend: its breaker and what it talks to.  \<open>sg_late i\<close> is what the breaker makes of attempt \<open>i\<close>
  when it does not wait for its end.\<close>

record 's s3_state =
  sb_breaker :: breaker
  sb_net :: 's

record 's s3_guard =
  sg_world :: "'s s3_world"
  sg_config :: s3_config
  sg_t1 :: "'s \<Rightarrow> int"
  sg_t2 :: "'s \<Rightarrow> int"
  sg_delay :: "int \<Rightarrow> string option"
  sg_late :: "int \<Rightarrow> attempt option"

definition NewS3Backend :: "'s s3_world \<Rightarrow> s3_config \<Rightarrow> 's \<Rightarrow> 's s3_state result \<times> 's" where
  "NewS3Backend W c s =
     (case HeadBucket W (NewClient c) s of
        (Some e, s') \<Rightarrow> (Inl ''failed to connect to S3 bucket'', s')
      | (None, s') \<Rightarrow> (Inr \<lparr>sb_breaker = cb_New ''s3'' s3_breaker_config, sb_net = s'\<rparr>, s'))"

text \<open>The state after so many runs of an operation, and its result in each run.\<close>

fun runs :: "('s \<Rightarrow> 'x \<times> 's) \<Rightarrow> nat \<Rightarrow> 's \<Rightarrow> 's" where
  "runs f 0 s = s"
| "runs f (Suc n) s = runs f n (snd (f s))"

text \<open>A call through the breaker: the error, if any, with the value of the last attempt that returned.\<close>

definition cb_text :: "cb_error \<Rightarrow> string" where
  "cb_text e = (case e of ErrOpenCircuit \<Rightarrow> ''circuit breaker is open'' | CtxErr x \<Rightarrow> x | AfterRetries n x \<Rightarrow> ''operation failed after retries'')"

definition guarded_call :: "'s s3_guard \<Rightarrow> 'v \<Rightarrow> ('s \<Rightarrow> 'v result \<times> 's) \<Rightarrow> 's s3_state \<Rightarrow> 'v result \<times> 's s3_state" where
  "guarded_call G zero f st =
     (let s = sb_net st;
          res = (\<lambda>i. fst (f (runs f (nat i) s)));
          att = (\<lambda>i. case sg_late G i of Some a \<Rightarrow> a | None \<Rightarrow> FnReturned (case res i of Inl e \<Rightarrow> Some e | Inr v \<Rightarrow> None));
          val = (\<lambda>i. case res i of Inl e \<Rightarrow> zero | Inr v \<Rightarrow> v);
          n = snd (fst (Execute (sg_t1 G s) (sg_t2 G s) (sg_delay G) att (sb_breaker st)))
      in case ExecuteWithResult (sg_t1 G s) (sg_t2 G s) (sg_delay G) att zero val (sb_breaker st) of
           ((v, e), cb) \<Rightarrow> (case e of Some x \<Rightarrow> Inl (cb_text x) | None \<Rightarrow> Inr v, \<lparr>sb_breaker = cb, sb_net = runs f n s\<rparr>))"

definition to_result :: "string option \<times> 's \<Rightarrow> unit result \<times> 's" where
  "to_result r = (case r of (Some e, s) \<Rightarrow> (Inl e, s) | (None, s) \<Rightarrow> (Inr (), s))"

definition from_result :: "unit result \<times> 's \<Rightarrow> string option \<times> 's" where
  "from_result r = (case r of (Inl e, s) \<Rightarrow> (Some e, s) | (Inr _, s) \<Rightarrow> (None, s))"

text \<open>A chunk is the object of its own name.\<close>

definition objectKey :: "string \<Rightarrow> string" where
  "objectKey k = k"

definition chunkKeyFromObject :: "string \<Rightarrow> string" where
  "chunkKeyFromObject k = k"

definition s3_Put :: "'s s3_guard \<Rightarrow> string \<Rightarrow> byte list \<Rightarrow> 's s3_state \<Rightarrow> string option \<times> 's s3_state" where
  "s3_Put G k w st = from_result (guarded_call G () (\<lambda>s. to_result (PutObject (sg_world G) (sg_config G) (objectKey k) w s)) st)"

definition read_object :: "'s s3_guard \<Rightarrow> string \<Rightarrow> 's \<Rightarrow> byte list result \<times> 's" where
  "read_object G k s =
     (case GetObject (sg_world G) (sg_config G) k s of
        (Inl e, s') \<Rightarrow> (Inl e, s')
      | (Inr a, s') \<Rightarrow> (case ha_body a of None \<Rightarrow> Inl ''unexpected EOF'' | Some w \<Rightarrow> Inr w, s'))"

definition s3_Get :: "'s s3_guard \<Rightarrow> string \<Rightarrow> 's s3_state \<Rightarrow> byte list result \<times> 's s3_state" where
  "s3_Get G k st = guarded_call G [] (read_object G (objectKey k)) st"

definition s3_Delete :: "'s s3_guard \<Rightarrow> string \<Rightarrow> 's s3_state \<Rightarrow> string option \<times> 's s3_state" where
  "s3_Delete G k st = from_result (guarded_call G () (\<lambda>s. to_result (DeleteObject (sg_world G) (sg_config G) (objectKey k) s)) st)"

definition object_there :: "'s s3_guard \<Rightarrow> string \<Rightarrow> 's \<Rightarrow> bool result \<times> 's" where
  "object_there G k s =
     (case HeadObject (sg_world G) (sg_config G) k s of
        (Inl e, s') \<Rightarrow> (if has_sub e ''not found'' then Inr False else Inl e, s')
      | (Inr x, s') \<Rightarrow> (Inr True, s'))"

definition s3_Exists :: "'s s3_guard \<Rightarrow> string \<Rightarrow> 's s3_state \<Rightarrow> bool result \<times> 's s3_state" where
  "s3_Exists G k st = guarded_call G False (object_there G (objectKey k)) st"

definition s3_List :: "'s s3_guard \<Rightarrow> string \<Rightarrow> 's s3_state \<Rightarrow> string list result \<times> 's s3_state" where
  "s3_List G prefix st =
     (case ListObjectsV2 (sg_world G) (sg_config G) prefix (sb_net st) of
        (r, s) \<Rightarrow> (map_sum id (map (\<lambda>x. chunkKeyFromObject (oi_key x))) r, st\<lparr>sb_net := s\<rparr>))"

definition s3_Stats :: "'s s3_guard \<Rightarrow> 's s3_state \<Rightarrow> storage_stats result \<times> 's s3_state" where
  "s3_Stats G st =
     (case ListObjectsV2 (sg_world G) (sg_config G) [] (sb_net st) of
        (r, s) \<Rightarrow> (map_sum id (\<lambda>os. let n = fold (\<lambda>x t. wrap64 (t + oi_size x)) os 0
             in \<lparr>st_total = n, st_used = n, st_count = int (length os), st_type = ''s3''\<rparr>) r, st\<lparr>sb_net := s\<rparr>))"

definition s3_backend :: "'s s3_guard \<Rightarrow> 's s3_state backend" where
  "s3_backend G = \<lparr>be_put = s3_Put G, be_get = s3_Get G, be_delete = s3_Delete G, be_exists = s3_Exists G, be_list = s3_List G, be_type = ''s3''\<rparr>"

section \<open>ipfs.go\<close>

text \<open>The node: parsing of a CID, storing of a block with the CID it has, reading, probing, pins.\<close>

record 's ipfs_node =
  ip_decode :: "string \<Rightarrow> string option"
  ip_put :: "byte list \<Rightarrow> 's \<Rightarrow> string option \<times> 's"
  ip_get :: "string \<Rightarrow> 's \<Rightarrow> byte list option \<times> 's"
  ip_stat :: "string \<Rightarrow> 's \<Rightarrow> string option \<times> 's"
  ip_pin :: "string \<Rightarrow> 's \<Rightarrow> string option \<times> 's"
  ip_unpin :: "string \<Rightarrow> 's \<Rightarrow> string option \<times> 's"
  ip_pin_files :: bool
  ip_gateway :: string

definition ipfs_Get :: "'s ipfs_node \<Rightarrow> string \<Rightarrow> 's \<Rightarrow> byte list result \<times> 's" where
  "ipfs_Get I k s =
     (case ip_decode I k of
        None \<Rightarrow> (Inl ''invalid CID'', s)
      | Some c \<Rightarrow> (case ip_get I c s of (None, s') \<Rightarrow> (Inl ''failed to get block from IPFS'', s') | (Some w, s') \<Rightarrow> (Inr w, s')))"

definition ipfs_Put :: "'s ipfs_node \<Rightarrow> string \<Rightarrow> byte list \<Rightarrow> 's \<Rightarrow> string option \<times> 's" where
  "ipfs_Put I k w s =
     (case ip_put I w s of
        (None, s1) \<Rightarrow> (Some ''failed to put block to IPFS'', s1)
      | (Some c, s1) \<Rightarrow>
          if k \<noteq> [] \<and> k \<noteq> c then (Some (''CID mismatch: expected '' @ k @ '', got '' @ c), s1)
          else if ip_pin_files I
          then (case ip_pin I c s1 of (Some e, s2) \<Rightarrow> (Some ''failed to pin block'', s2) | (None, s2) \<Rightarrow> (None, s2))
          else (None, s1))"

definition ipfs_Delete :: "'s ipfs_node \<Rightarrow> string \<Rightarrow> 's \<Rightarrow> string option \<times> 's" where
  "ipfs_Delete I k s =
     (case ip_decode I k of
        None \<Rightarrow> (Some ''invalid CID'', s)
      | Some c \<Rightarrow> (case ip_unpin I c s of (Some e, s') \<Rightarrow> (Some ''failed to unpin block'', s') | (None, s') \<Rightarrow> (None, s')))"

definition ipfs_Exists :: "'s ipfs_node \<Rightarrow> string \<Rightarrow> 's \<Rightarrow> bool result \<times> 's" where
  "ipfs_Exists I k s =
     (case ip_decode I k of
        None \<Rightarrow> (Inl ''invalid CID'', s)
      | Some c \<Rightarrow>
          (case ip_stat I c s of
             (Some e, s') \<Rightarrow> (if e = ''blockservice: key not found'' then Inr False else Inl ''failed to stat block'', s')
           | (None, s') \<Rightarrow> (Inr True, s')))"

definition ipfs_List :: "string \<Rightarrow> 's \<Rightarrow> string list result \<times> 's" where
  "ipfs_List prefix s = (Inr [], s)"

definition ipfs_Stats :: storage_stats where
  "ipfs_Stats = \<lparr>st_total = 0, st_used = 0, st_count = 0, st_type = ''ipfs''\<rparr>"

definition GetGatewayURL :: "'s ipfs_node \<Rightarrow> string \<Rightarrow> string" where
  "GetGatewayURL I c = (if ip_gateway I = [] then [] else ip_gateway I @ ''/ipfs/'' @ c)"

definition ipfs_backend :: "'s ipfs_node \<Rightarrow> 's backend" where
  "ipfs_backend I = \<lparr>be_put = ipfs_Put I, be_get = ipfs_Get I, be_delete = ipfs_Delete I, be_exists = ipfs_Exists I, be_list = ipfs_List, be_type = ''ipfs''\<rparr>"

section \<open>The canonical request\<close>

text \<open>The documented form of a request to be signed: path and query with everything but unreserved
  characters escaped, header names in lower case and sorted, values without blanks around them.\<close>

definition unreserved :: "char \<Rightarrow> bool" where
  "unreserved c \<longleftrightarrow> (CHR ''a'' \<le> c \<and> c \<le> CHR ''z'') \<or> (CHR ''A'' \<le> c \<and> c \<le> CHR ''Z'') \<or> (CHR ''0'' \<le> c \<and> c \<le> CHR ''9'')
     \<or> c \<in> set ''-._~''"

definition uri_escape :: "char \<Rightarrow> string" where
  "uri_escape c = (if unreserved c then [c] else CHR ''%'' # map upper_char (HexEncode [of_char c]))"

definition aws_path :: "string \<Rightarrow> string" where
  "aws_path p = concat (map (\<lambda>c. if c = slash then [c] else uri_escape c) p)"

definition aws_text :: "string \<Rightarrow> string" where
  "aws_text t = concat (map uri_escape t)"

definition aws_canonical :: "http_request \<Rightarrow> string \<Rightarrow> string" where
  "aws_canonical q bodyHash =
     (let hs = sort_key fst (map (\<lambda>(k, v). (ToLower k, trim_char CHR '' '' v)) (hq_headers q));
          qs = sort_key fst (map (\<lambda>(k, v). (aws_text k, aws_text v)) (hq_query q))
      in join_with [CHR 0x0A]
           ([hq_method q, aws_path (hq_path q), join_with ''&'' (map (\<lambda>(k, v). k @ ''='' @ v) qs)]
            @ map (\<lambda>(k, v). k @ '':'' @ v) hs @ [[], join_with '';'' (map fst hs), bodyHash]))"

lemma sort_key_map: "sort_key f (map g xs) = map g (sort_key (\<lambda>x. f (g x)) xs)"
proof -
  have i: "insort_key f (g x) (map g ys) = map g (insort_key (\<lambda>x. f (g x)) x ys)" for x ys
    by (induction ys) auto
  show ?thesis by (induction xs) (simp_all add: i)
qed

lemma sort_key_on: "(\<And>x. x \<in> set xs \<Longrightarrow> g x = x) \<Longrightarrow> map g (sort_key f xs) = sort_key f xs"
  by (rule map_idI) simp

lemma join_lines: "r \<noteq> [] \<Longrightarrow> join_with s (map f xs @ r) = concat (map (\<lambda>x. f x @ s) xs) @ join_with s r"
proof (induction xs)
  case (Cons x xs)
  then obtain y ys where "map f xs @ r = y # ys" by (cases "map f xs @ r") auto
  with Cons show ?case by simp
qed simp

lemma join_first_lines: "r \<noteq> [] \<Longrightarrow> join_with s (x # map f xs @ r) = x @ s @ concat (map (\<lambda>x. f x @ s) xs) @ join_with s r"
  using join_lines [of r s f xs] by (cases "map f xs @ r") auto

lemma clean_more_slashes: "clean_parts True (slash # p) = clean_parts True p"
  by (simp add: clean_parts_def clean_step_def)

lemma Join_root:
  assumes "\<forall>c \<in> set cs. plain c"
  shows "filepath_Join [''/'', abs_path cs] = abs_path cs"
proof -
  have "path_Clean (slash # slash # abs_path cs) = path_Clean (abs_path cs)"
    by (simp add: path_Clean_def clean_more_slashes) (simp add: abs_path_def)
  then show ?thesis using path_Clean_abs [OF assms] by (simp add: filepath_Join_def) (simp add: abs_path_def)
qed

lemma escape_unreserved: "\<forall>c \<in> set t. unreserved c \<Longrightarrow> aws_text t = t"
  unfolding aws_text_def by (induction t) (auto simp: uri_escape_def)

lemma aws_path_unreserved: "\<forall>c \<in> set p. c = slash \<or> unreserved c \<Longrightarrow> aws_path p = p"
  unfolding aws_path_def by (induction p) (auto simp: uri_escape_def)

lemma set_join_with: "set (join_with s cs) \<subseteq> set s \<union> (\<Union>c \<in> set cs. set c)"
  by (induction s cs rule: join_with.induct) auto

lemma abs_path_unreserved: "\<forall>c \<in> set cs. \<forall>x \<in> set c. unreserved x \<Longrightarrow> \<forall>x \<in> set (abs_path cs). x = slash \<or> unreserved x"
  using set_join_with [of "''/''" cs] by (auto simp: abs_path_def)

text \<open>C37: the request text that the client signs is the documented canonical request, whenever the object's path
  consists of plain names of unreserved characters, the query of unreserved characters, and no header
  value has blanks around it.\<close>

theorem plain_requests_are_canonical:
  assumes "hq_path q = abs_path cs" and "\<forall>c \<in> set cs. plain c" and "\<forall>c \<in> set cs. \<forall>x \<in> set c. unreserved x"
    and "\<forall>(k, v) \<in> set (hq_query q). \<forall>x \<in> set (k @ v). unreserved x"
    and "\<forall>(k, v) \<in> set (hq_headers q). trim_char CHR '' '' v = v"
  shows "createCanonicalRequest q h = aws_canonical q h"
proof -
  have p: "filepath_Join [''/'', hq_path q] = hq_path q"
    unfolding assms(1) by (rule Join_root [OF assms(2)])
  have e: "aws_path (hq_path q) = hq_path q"
    using aws_path_unreserved [OF abs_path_unreserved [OF assms(3)]] assms(1) by simp
  have m: "map (\<lambda>(k, v). (aws_text k, aws_text v)) (hq_query q) = hq_query q"
    using assms(4) by (intro map_idI) (auto simp: escape_unreserved)
  have t: "map (\<lambda>(k, v). (ToLower k, trim_char CHR '' '' v)) (hq_headers q) = map (\<lambda>x. (ToLower (fst x), snd x)) (hq_headers q)"
    using assms(5) by auto
  have q: "(\<lambda>(k, v). k @ CHR ''='' # v) = query_part" by (auto simp: query_part_def)
  have l: "header_line = (\<lambda>x. ToLower (fst x) @ '':'' @ snd x @ [CHR 0x0A])" by (auto simp: header_line_def)
  show ?thesis
    by (simp add: createCanonicalRequest_def aws_canonical_def Let_def m t p e q join_first_lines sort_key_map by_name_def getSignedHeaders_def
        l o_def)
qed

theorem plain_requests_are_canonical_witness:
  "let q = \<lparr>hq_method = ''GET'', hq_host = ''h'', hq_path = ''/b/0a1f'', hq_query = [], hq_headers = [(''Host'', ''h'')], hq_body = []\<rparr>
   in createCanonicalRequest q ''00'' = aws_canonical q ''00''"
  using plain_requests_are_canonical [of "\<lparr>hq_method = ''GET'', hq_host = ''h'', hq_path = ''/b/0a1f'', hq_query = [], hq_headers = [(''Host'', ''h'')], hq_body = []\<rparr>"
      "[''b'', ''0a1f'']" "''00''"]
  by (simp add: abs_path_def plain_def unreserved_def trim_char_def Let_def less_eq_char_def)

text \<open>The address of the bucket itself ends in a slash that the signed text does not have, so with the
  bucket in the path no listing is signed for what is sent.\<close>

lemma bucket_requests_are_not_canonical:
  assumes "hq_path q = abs_path [b] @ ''/''" and "plain b" and "\<forall>x \<in> set b. unreserved x" and "CHR 0x0A \<notin> set (hq_method q)"
  shows "createCanonicalRequest q h \<noteq> aws_canonical q h"
proof
  have c: "path_Clean (slash # slash # abs_path [b] @ ''/'') = abs_path [b]"
  proof -
    have "split_on slash (b @ [slash]) = [b, []]"
      using split_join [of "[b, []]" slash] assms(2) by (simp add: plain_def)
    then have "clean_parts True (slash # slash # abs_path [b] @ ''/'') = [b]"
      using assms(2) by (simp add: clean_more_slashes abs_path_def) (simp add: clean_parts_def clean_step_def plain_def)
    then show ?thesis by (simp add: path_Clean_def abs_path_def)
  qed
  have p: "filepath_Join [''/'', hq_path q] = abs_path [b]"
    using c by (simp add: filepath_Join_def assms(1))
  have e: "aws_path (hq_path q) = abs_path [b] @ ''/''"
    using assms(3) by (intro aws_path_unreserved [THEN trans]) (auto simp: assms(1) abs_path_def)
  assume "createCanonicalRequest q h = aws_canonical q h"
  then show False by (simp add: createCanonicalRequest_def aws_canonical_def p e Let_def)
qed

section \<open>The breaker in front of the service\<close>

text \<open>A call whose every attempt fails, through a closed breaker: three attempts and one failure recorded.\<close>

lemma failing_call:
  assumes "state (sb_breaker st) = StateClosed" and "config (sb_breaker st) = s3_breaker_config"
    and "sg_late G = (\<lambda>i. None)" and "sg_delay G = (\<lambda>i. None)" and "\<And>s. \<exists>e. fst (f s) = Inl e"
  shows "\<exists>e s'. guarded_call G z f st = (Inl e, \<lparr>sb_breaker = recordFailure (sg_t2 G (sb_net st)) (sb_breaker st), sb_net = s'\<rparr>)"
proof -
  define att where "att = (\<lambda>i. FnReturned (case fst (f (runs f (nat i) (sb_net st))) of Inl e \<Rightarrow> Some e | Inr v \<Rightarrow> None))"
  have a: "\<exists>e. att i = FnReturned (Some e)" for i
    using assms(5) [of "runs f (nat i) (sb_net st)"] by (auto simp: att_def)
  obtain e0 e1 e2 where e: "att 0 = FnReturned (Some e0)" "att 1 = FnReturned (Some e1)" "att 2 = FnReturned (Some e2)"
    using a by metis
  have r: "executeWithRetries s3_breaker_config (\<lambda>i. None) att = (Some (AfterRetries 2 (Some (FnError e2))), 3)"
    by (simp add: executeWithRetries_def s3_breaker_config_def retry_loop.simps e)
  have c: "currentState (sg_t1 G (sb_net st)) (sb_breaker st) = (StateClosed, sb_breaker st)"
    using assms(1) by (simp add: currentState_def)
  have l: "(\<lambda>i. case None of Some a \<Rightarrow> a | None \<Rightarrow> FnReturned (case fst (f (runs f (nat i) (sb_net st))) of Inl e \<Rightarrow> Some e | Inr v \<Rightarrow> None)) = att"
    by (simp add: att_def)
  show ?thesis
    unfolding guarded_call_def Let_def assms(3,4) l Execute_def ExecuteWithResult_def c
    by (simp add: assms(2) r finish_call_def)
qed

lemma missing_get:
  assumes "state (sb_breaker st) = StateClosed" and "config (sb_breaker st) = s3_breaker_config"
    and "sg_late G = (\<lambda>i. None)" and "sg_delay G = (\<lambda>i. None)"
    and "\<And>q s h. split_url (buildURL (sg_config G) k) = Some (h, hq_path q) \<Longrightarrow> hq_method q = ''GET''
            \<Longrightarrow> \<exists>a s'. sw_http (sg_world G) q s = (Some a, s') \<and> ha_status a = 404"
  shows "\<exists>e s'. s3_Get G k st = (Inl e, \<lparr>sb_breaker = recordFailure (sg_t2 G (sb_net st)) (sb_breaker st), sb_net = s'\<rparr>)"
proof -
  have "\<exists>e. fst (read_object G (objectKey k) s) = Inl e" for s
  proof (cases "split_url (buildURL (sg_config G) k)")
    case None
    then show ?thesis by (simp add: read_object_def GetObject_def s3_send_def objectKey_def)
  next
    case (Some hp)
    then obtain h p where hp: "split_url (buildURL (sg_config G) k) = Some (h, p)" by (cases hp) auto
    let ?q = "signRequest (sw_crypto (sg_world G)) (sg_config G) (sw_stamps (sg_world G) s)
                \<lparr>hq_method = ''GET'', hq_host = h, hq_path = p, hq_query = [], hq_headers = [], hq_body = []\<rparr>"
    have "hq_path ?q = p" "hq_method ?q = ''GET''" by (simp_all add: signRequest_def signed_headers_def Let_def)
    then obtain a s' where "sw_http (sg_world G) ?q s = (Some a, s')" "ha_status a = 404" using assms(5) [of h ?q s] hp by auto
    then show ?thesis by (simp add: read_object_def GetObject_def s3_send_def objectKey_def hp)
  qed
  then show ?thesis unfolding s3_Get_def by (intro failing_call [OF assms(1-4)])
qed

definition get_all :: "'s s3_guard \<Rightarrow> string list \<Rightarrow> 's s3_state \<Rightarrow> 's s3_state" where
  "get_all G ks st = fold (\<lambda>k st. snd (s3_Get G k st)) ks st"

lemma missing_gets:
  assumes "length ks + unat (failures (sb_breaker st)) = 5" and "ks \<noteq> []"
    and "state (sb_breaker st) = StateClosed" and "config (sb_breaker st) = s3_breaker_config"
    and "sg_late G = (\<lambda>i. None)" and "sg_delay G = (\<lambda>i. None)"
    and missing: "\<And>k q s h. k \<in> set ks \<Longrightarrow> split_url (buildURL (sg_config G) k) = Some (h, hq_path q) \<Longrightarrow> hq_method q = ''GET''
            \<Longrightarrow> \<exists>a s'. sw_http (sg_world G) q s = (Some a, s') \<and> ha_status a = 404"
  shows "state (sb_breaker (get_all G ks st)) = StateOpen \<and> config (sb_breaker (get_all G ks st)) = s3_breaker_config"
  using assms(1-4) missing
proof (induction ks arbitrary: st)
  case (Cons k ks)
  let ?b = "sb_breaker st"
  obtain e s' where g: "s3_Get G k st = (Inl e, \<lparr>sb_breaker = recordFailure (sg_t2 G (sb_net st)) ?b, sb_net = s'\<rparr>)"
    using missing_get [OF Cons.prems(3,4) assms(5,6), of k] Cons.prems(5) [of k] by auto
  have n: "unat (failures ?b) < 5" "length ks = 4 - unat (failures ?b)" using Cons.prems(1) by auto
  then have u: "unat (failures ?b + 1) = unat (failures ?b) + 1" using unat_Suc_u32 [of "failures ?b" 5] by (simp add: word_less_nat_alt)
  have c: "(5 \<le> failures ?b + 1) = (ks = [])" using n u by (auto simp: word_le_nat_alt)
  let ?st = "\<lparr>sb_breaker = recordFailure (sg_t2 G (sb_net st)) ?b, sb_net = s'\<rparr>"
  have f: "get_all G (k # ks) st = get_all G ks ?st" using g by (simp add: get_all_def)
  have w: "config (sb_breaker ?st) = s3_breaker_config" "unat (failures (sb_breaker ?st)) = unat (failures ?b) + 1"
    "state (sb_breaker ?st) = (if ks = [] then StateOpen else StateClosed)"
    using Cons.prems(3,4) u c by (simp_all add: recordFailure_def Let_def s3_breaker_config_def)
  show ?case
  proof (cases "ks = []")
    case True
    then show ?thesis using w f by (simp add: get_all_def)
  next
    case False
    then show ?thesis unfolding f using w n by (intro Cons.IH [OF _ _ _ _ Cons.prems(5)]) auto
  qed
qed simp

text \<open>C38: asking five times for chunks that the service does not have, which it answers with 404, opens the breaker:
  for the next thirty seconds every upload is refused without being sent.\<close>

theorem missing_objects_open_the_breaker:
  assumes "length ks = 5" and "sg_late G = (\<lambda>i. None)" and "sg_delay G = (\<lambda>i. None)"
    and "\<And>k q s h. k \<in> set ks \<Longrightarrow> split_url (buildURL (sg_config G) k) = Some (h, hq_path q) \<Longrightarrow> hq_method q = ''GET''
            \<Longrightarrow> \<exists>a s'. sw_http (sg_world G) q s = (Some a, s') \<and> ha_status a = 404"
    and "st = get_all G ks \<lparr>sb_breaker = cb_New ''s3'' s3_breaker_config, sb_net = s\<rparr>"
    and "time_sub (sg_t1 G (sb_net st)) (lastFailure (sb_breaker st)) \<le> 30 * 10 ^ 9"
  shows "s3_Put G k w st = (Some ''circuit breaker is open'', st)"
proof -
  have "ks \<noteq> []" using assms(1) by auto
  then have o: "state (sb_breaker st) = StateOpen \<and> config (sb_breaker st) = s3_breaker_config"
    unfolding assms(5) using assms(1) by (intro missing_gets [OF _ _ _ _ assms(2,3,4)]) (auto simp: cb_New_def)
  then have c: "currentState (sg_t1 G (sb_net st)) (sb_breaker st) = (StateOpen, sb_breaker st)"
    using assms(6) by (simp add: currentState_def s3_breaker_config_def)
  show ?thesis
    by (simp add: s3_Put_def guarded_call_def Let_def Execute_def ExecuteWithResult_def c from_result_def cb_text_def)
qed

definition empty_service :: "nat s3_guard" where
  "empty_service = \<lparr>sg_world = \<lparr>sw_http = (\<lambda>q n. (Some \<lparr>ha_status = 404, ha_length = 0, ha_headers = [], ha_body = Some []\<rparr>, Suc n)),
       sw_crypto = \<lparr>sc_sha = id, sc_hmac = (\<lambda>k w. w)\<rparr>, sw_stamps = (\<lambda>n. ([], [])), sw_time = (\<lambda>t. 0), sw_listing = (\<lambda>w. None)\<rparr>,
     sg_config = \<lparr>s3_endpoint = ''http://h'', s3_bucket = ''b'', s3_region = ''r'', s3_access = ''a'', s3_secret = ''k'', s3_path_style = True\<rparr>,
     sg_t1 = (\<lambda>n. 0), sg_t2 = (\<lambda>n. 0), sg_delay = (\<lambda>i. None), sg_late = (\<lambda>i. None)\<rparr>"

lemma guarded_call_now:
  assumes "lastFailure (sb_breaker st) = 0" and "sg_t2 G = (\<lambda>n. 0)"
  shows "lastFailure (sb_breaker (snd (guarded_call G (z :: 'v) f st))) = 0"
proof -
  have e: "lastFailure (snd (ExecuteWithResult t 0 d att z v cb)) = 0" if "lastFailure cb = 0" for t d att v cb
  proof -
    obtain x cb1 where c: "currentState t cb = (x, cb1)" by fastforce
    have l: "lastFailure cb1 = 0" using c that by (auto simp: currentState_def Let_def split: if_splits)
    show ?thesis using l
      by (cases x) (auto simp: ExecuteWithResult_def c acquireHalfOpenSlot_def finish_call_def recordFailure_def recordSuccess_def
          releaseHalfOpenSlot_def Let_def split: prod.splits)
  qed
  have g: "sb_breaker (snd (case r of ((v, e), cb) \<Rightarrow> (h e v, \<lparr>sb_breaker = cb, sb_net = n cb\<rparr>))) = snd r" for r :: "('v \<times> cb_error option) \<times> breaker" and h n
    by (cases r) auto
  show ?thesis unfolding guarded_call_def Let_def g assms(2) by (rule e) (rule assms(1))
qed

lemma get_all_now: "sg_t2 G = (\<lambda>n. 0) \<Longrightarrow> lastFailure (sb_breaker st) = 0 \<Longrightarrow> lastFailure (sb_breaker (get_all G ks st)) = 0"
  by (induction ks arbitrary: st) (simp_all add: get_all_def s3_Get_def guarded_call_now)

theorem missing_objects_open_the_breaker_witness:
  "let st = get_all empty_service (replicate 5 ''0a1f'') \<lparr>sb_breaker = cb_New ''s3'' s3_breaker_config, sb_net = 0\<rparr>
   in s3_Put empty_service ''ff'' [1, 2] st = (Some ''circuit breaker is open'', st)"
proof -
  have t: "lastFailure (sb_breaker (get_all empty_service (replicate 5 ''0a1f'') \<lparr>sb_breaker = cb_New ''s3'' s3_breaker_config, sb_net = 0\<rparr>)) = 0"
    by (rule get_all_now) (simp_all add: empty_service_def cb_New_def)
  show ?thesis unfolding Let_def
    by (rule missing_objects_open_the_breaker [OF _ _ _ _ refl]) (simp_all add: t, simp_all add: empty_service_def time_sub_def)
qed

text \<open>An IPFS node names a block by its CID, so no chunk that is named otherwise is accepted; the block stays.\<close>

lemma ipfs_refuses_other_names: "ip_put I w s = (Some c, s') \<Longrightarrow> k \<noteq> [] \<Longrightarrow> k \<noteq> c \<Longrightarrow> \<exists>e. ipfs_Put I k w s = (Some e, s')"
  by (simp add: ipfs_Put_def)

end
