(* ===== verification/Schema.thy ===== *)
theory Schema
  imports Maintenance
begin

text \<open>
  The opening of the database (\<^verbatim>\<open>src/internal/db/db.go\<close>) and its schema
  (\<^verbatim>\<open>src/internal/db/schema.go\<close>): the statements as data, what they do to the tables and
  indexes of the file, the migrations and the seeding, one statement at a time, each of which can fail.

  SQLite fills an omitted \<^verbatim>\<open>INTEGER PRIMARY KEY\<close> with the next free number, whatever its
  \<^verbatim>\<open>DEFAULT\<close> says, and reads a table in the order of these numbers.
\<close>

section \<open>Statements\<close>

datatype col_type = TText | TInt | TBlob

datatype col_default = NoDefault | DNull | DText string | DInt int

record column =
  co_name :: string
  co_type :: col_type
  co_notnull :: bool
  co_default :: col_default
  co_unique :: bool
  co_primary :: bool
  co_refs :: "string option"

record table =
  tb_name :: string
  tb_cols :: "column list"
  tb_key :: "string list"
  tb_unique :: "string list list"

definition needed :: "col_type \<Rightarrow> string \<Rightarrow> column" where
  "needed ty n = \<lparr>co_name = n, co_type = ty, co_notnull = True, co_default = NoDefault, co_unique = False, co_primary = False, co_refs = None\<rparr>"

definition optional :: "col_type \<Rightarrow> string \<Rightarrow> column" where
  "optional ty n = (needed ty n)\<lparr>co_notnull := False, co_default := DNull\<rparr>"

definition preset :: "col_type \<Rightarrow> string \<Rightarrow> col_default \<Rightarrow> column" where
  "preset ty n d = (needed ty n)\<lparr>co_default := d\<rparr>"

definition key :: "col_type \<Rightarrow> string \<Rightarrow> column" where
  "key ty n = (needed ty n)\<lparr>co_notnull := False, co_primary := True\<rparr>"

definition uniq :: "column \<Rightarrow> column" where
  "uniq c = c\<lparr>co_unique := True\<rparr>"

text \<open>Every reference is to the column \<^verbatim>\<open>id\<close> and deletes the row with the one it refers to.\<close>

definition refs :: "string \<Rightarrow> column \<Rightarrow> column" where
  "refs t c = c\<lparr>co_refs := Some t\<rparr>"

definition make_table :: "string \<Rightarrow> column list \<Rightarrow> string list \<Rightarrow> string list list \<Rightarrow> table" where
  "make_table n cs k us = \<lparr>tb_name = n, tb_cols = cs, tb_key = k, tb_unique = us\<rparr>"

datatype statement =
    MakeTable table
  | MakeIndex bool string string "string list"
  | AddColumn string column

section \<open>schema.go: the tables\<close>

text \<open>The table as \<^verbatim>\<open>migrate\<close> makes it, before the one of the first migration can.\<close>

definition first_table :: table where
  "first_table = make_table ''schema_version''
    [(key TInt ''id'')\<lparr>co_default := DInt 1\<rparr>, preset TInt ''version'' (DInt 0), preset TText ''applied_at'' (DText '''')] [] []"

definition schema_version_table :: table where
  "schema_version_table = make_table ''schema_version''
    [(key TInt ''id'')\<lparr>co_default := DInt 1\<rparr>, needed TInt ''version'', needed TText ''applied_at'']
    [] []"

definition users_table :: table where
  "users_table = make_table ''users''
    [key TText ''id'', uniq (needed TText ''username''), uniq (needed TText ''email''), preset TText ''display_name'' (DText ''''),
     needed TText ''password_hash'', preset TText ''role'' (DText ''user''), preset TInt ''quota_bytes'' (DInt 10737418240),
     preset TInt ''used_bytes'' (DInt 0), optional TText ''totp_secret'', preset TInt ''totp_enabled'' (DInt 0), optional TBlob ''public_key'',
     optional TBlob ''encrypted_private_key'', optional TText ''recovery_key_hash'', optional TText ''avatar_chunk_hash'',
     preset TText ''status'' (DText ''active''), optional TText ''last_login_at'', needed TText ''created_at'', needed TText ''updated_at'']
    [] []"

definition sessions_table :: table where
  "sessions_table = make_table ''sessions''
    [key TText ''id'', refs ''users'' (needed TText ''user_id''), uniq (needed TText ''refresh_token''),
     preset TText ''device_name'' (DText ''Unknown''), preset TText ''device_type'' (DText ''web''), needed TText ''ip_address'',
     preset TText ''user_agent'' (DText ''''), needed TText ''last_active_at'', needed TText ''expires_at'', needed TText ''created_at'']
    [] []"

definition api_tokens_table :: table where
  "api_tokens_table = make_table ''api_tokens''
    [key TText ''id'', refs ''users'' (needed TText ''user_id''), needed TText ''name'', uniq (needed TText ''token_hash''),
     preset TText ''permissions'' (DText ''[]''), optional TText ''last_used_at'', optional TText ''expires_at'', needed TText ''created_at'']
    [] []"

definition files_table :: table where
  "files_table = make_table ''files''
    [key TText ''id'', refs ''users'' (needed TText ''user_id''), refs ''files'' (optional TText ''parent_id''), needed TText ''name'',
     optional TBlob ''name_encrypted'', needed TText ''type'', preset TInt ''size_bytes'' (DInt 0),
     preset TText ''mime_type'' (DText ''application/octet-stream''), optional TText ''manifest_id'', optional TText ''checksum'',
     preset TInt ''is_encrypted'' (DInt 0), optional TBlob ''encrypted_key'', preset TInt ''is_trashed'' (DInt 0), optional TText ''trashed_at'',
     preset TInt ''version'' (DInt 1), needed TText ''created_at'', needed TText ''updated_at'']
    [] [[''user_id'', ''parent_id'', ''name'']]"

definition manifests_table :: table where
  "manifests_table = make_table ''manifests''
    [key TText ''id'', refs ''files'' (needed TText ''file_id''), needed TInt ''version'', needed TInt ''size_bytes'', needed TInt ''chunk_count'',
     needed TText ''chunks'', needed TText ''checksum'', needed TText ''device_id'', needed TText ''created_at'']
    [] [[''file_id'', ''version'']]"

definition chunks_table :: table where
  "chunks_table = make_table ''chunks''
    [key TText ''hash'', needed TInt ''size_bytes'', needed TText ''storage_backend'', needed TText ''storage_path'',
     preset TInt ''ref_count'' (DInt 1), preset TInt ''is_encrypted'' (DInt 0), needed TText ''created_at'']
    [] []"

definition shares_table :: table where
  "shares_table = make_table ''shares''
    [key TText ''id'', refs ''files'' (needed TText ''file_id''), refs ''users'' (needed TText ''created_by''), needed TText ''share_type'',
     uniq (optional TText ''token''), optional TText ''password_hash'', optional TText ''expires_at'', optional TInt ''max_downloads'',
     preset TInt ''download_count'' (DInt 0), preset TInt ''allow_upload'' (DInt 0), preset TInt ''preview_only'' (DInt 0),
     refs ''users'' (optional TText ''shared_with''), preset TText ''permission'' (DText ''read''), optional TBlob ''encrypted_key'',
     preset TInt ''is_active'' (DInt 1), preset TInt ''view_count'' (DInt 0), needed TText ''created_at'', needed TText ''updated_at'']
    [] []"

definition devices_table :: table where
  "devices_table = make_table ''devices''
    [key TText ''id'', refs ''users'' (needed TText ''user_id''), needed TText ''name'', needed TText ''device_type'',
     preset TText ''os'' (DText ''''), preset TText ''sync_folder'' (DText ''''), optional TText ''last_sync_at'',
     preset TText ''vector_clock'' (DText ''{}''), optional TText ''merkle_root'', preset TInt ''is_active'' (DInt 1), needed TText ''created_at'',
     needed TText ''updated_at'']
    [] []"

definition sync_state_table :: table where
  "sync_state_table = make_table ''sync_state''
    [key TText ''id'', refs ''devices'' (needed TText ''device_id''), refs ''files'' (needed TText ''file_id''), needed TText ''manifest_id'',
     needed TText ''vector_clock'', needed TText ''synced_at'']
    [] [[''device_id'', ''file_id'']]"

definition roles_table :: table where
  "roles_table = make_table ''roles''
    [key TText ''id'', uniq (needed TText ''name''), preset TText ''description'' (DText ''''), preset TInt ''is_system'' (DInt 0),
     needed TText ''created_at'']
    [] []"

definition permissions_table :: table where
  "permissions_table = make_table ''permissions''
    [key TText ''id'', refs ''roles'' (needed TText ''role_id''), needed TText ''resource'', needed TText ''action'',
     preset TText ''scope'' (DText ''own'')]
    [] [[''role_id'', ''resource'', ''action'', ''scope'']]"

definition user_roles_table :: table where
  "user_roles_table = make_table ''user_roles''
    [refs ''users'' (needed TText ''user_id''), refs ''roles'' (needed TText ''role_id'')]
    [''user_id'', ''role_id''] []"

definition audit_log_table :: table where
  "audit_log_table = make_table ''audit_log''
    [key TText ''id'', optional TText ''user_id'', needed TText ''action'', needed TText ''resource_type'', optional TText ''resource_id'',
     preset TText ''details'' (DText ''{}''), preset TText ''ip_address'' (DText ''''), preset TText ''user_agent'' (DText ''''),
     needed TText ''created_at'']
    [] []"

definition settings_table :: table where
  "settings_table = make_table ''settings''
    [key TText ''key'', needed TText ''value'', needed TText ''updated_at'']
    [] []"

definition federation_peers_table :: table where
  "federation_peers_table = make_table ''federation_peers''
    [key TText ''id'', needed TText ''name'', needed TText ''public_url'', needed TText ''public_key'', preset TText ''status'' (DText ''active''),
     needed TText ''last_seen'', needed TText ''created_at'', preset TText ''capabilities'' (DText '''')]
    [] []"

definition federation_invites_table :: table where
  "federation_invites_table = make_table ''federation_invites''
    [key TText ''id'', needed TText ''from_peer_id'', uniq (needed TText ''token''), needed TText ''expires_at'', preset TInt ''used'' (DInt 0),
     needed TText ''created_at'']
    [] []"

definition federated_shares_table :: table where
  "federated_shares_table = make_table ''federated_shares''
    [key TText ''id'', refs ''files'' (needed TText ''local_file_id''), needed TText ''peer_id'', needed TText ''remote_user_id'',
     preset TText ''permission'' (DText ''read''), uniq (needed TText ''token''), optional TText ''expires_at'', needed TText ''created_at'']
    [] []"

definition schema_v1 :: "statement list" where
  "schema_v1 =
    [MakeTable schema_version_table,
     MakeTable users_table,
     MakeIndex False ''idx_users_username'' ''users'' [''username''],
     MakeIndex False ''idx_users_email'' ''users'' [''email''],
     MakeIndex False ''idx_users_status'' ''users'' [''status''],
     MakeTable sessions_table,
     MakeIndex False ''idx_sessions_user'' ''sessions'' [''user_id''],
     MakeIndex False ''idx_sessions_refresh'' ''sessions'' [''refresh_token''],
     MakeIndex False ''idx_sessions_expires'' ''sessions'' [''expires_at''],
     MakeTable api_tokens_table,
     MakeIndex False ''idx_api_tokens_user'' ''api_tokens'' [''user_id''],
     MakeIndex False ''idx_api_tokens_hash'' ''api_tokens'' [''token_hash''],
     MakeTable files_table,
     MakeIndex False ''idx_files_user'' ''files'' [''user_id''],
     MakeIndex False ''idx_files_parent'' ''files'' [''parent_id''],
     MakeIndex False ''idx_files_user_parent'' ''files'' [''user_id'', ''parent_id''],
     MakeIndex False ''idx_files_name'' ''files'' [''name''],
     MakeIndex False ''idx_files_type'' ''files'' [''type''],
     MakeIndex False ''idx_files_trashed'' ''files'' [''is_trashed''],
     MakeIndex False ''idx_files_updated'' ''files'' [''updated_at''],
     MakeIndex False ''idx_files_mime'' ''files'' [''mime_type''],
     MakeTable manifests_table,
     MakeIndex False ''idx_manifests_file'' ''manifests'' [''file_id''],
     MakeIndex False ''idx_manifests_file_version'' ''manifests'' [''file_id'', ''version''],
     MakeTable chunks_table,
     MakeIndex False ''idx_chunks_backend'' ''chunks'' [''storage_backend''],
     MakeIndex False ''idx_chunks_refcount'' ''chunks'' [''ref_count''],
     MakeTable shares_table,
     MakeIndex False ''idx_shares_file'' ''shares'' [''file_id''],
     MakeIndex False ''idx_shares_token'' ''shares'' [''token''],
     MakeIndex False ''idx_shares_created_by'' ''shares'' [''created_by''],
     MakeIndex False ''idx_shares_shared_with'' ''shares'' [''shared_with''],
     MakeIndex False ''idx_shares_active'' ''shares'' [''is_active''],
     MakeTable devices_table,
     MakeIndex False ''idx_devices_user'' ''devices'' [''user_id''],
     MakeIndex False ''idx_devices_active'' ''devices'' [''is_active''],
     MakeTable sync_state_table,
     MakeIndex False ''idx_sync_state_device'' ''sync_state'' [''device_id''],
     MakeIndex False ''idx_sync_state_file'' ''sync_state'' [''file_id''],
     MakeTable roles_table,
     MakeTable permissions_table,
     MakeIndex False ''idx_permissions_role'' ''permissions'' [''role_id''],
     MakeTable user_roles_table,
     MakeTable audit_log_table,
     MakeIndex False ''idx_audit_user'' ''audit_log'' [''user_id''],
     MakeIndex False ''idx_audit_action'' ''audit_log'' [''action''],
     MakeIndex False ''idx_audit_resource'' ''audit_log'' [''resource_type'', ''resource_id''],
     MakeIndex False ''idx_audit_created'' ''audit_log'' [''created_at''],
     MakeTable settings_table,
     MakeTable federation_peers_table,
     MakeIndex False ''idx_federation_peers_status'' ''federation_peers'' [''status''],
     MakeIndex True ''idx_federation_peers_url'' ''federation_peers'' [''public_url''],
     MakeTable federation_invites_table,
     MakeIndex False ''idx_federation_invites_token'' ''federation_invites'' [''token''],
     MakeIndex False ''idx_federation_invites_expires'' ''federation_invites'' [''expires_at''],
     MakeTable federated_shares_table,
     MakeIndex False ''idx_federated_shares_file'' ''federated_shares'' [''local_file_id''],
     MakeIndex False ''idx_federated_shares_token'' ''federated_shares'' [''token''],
     MakeIndex False ''idx_federated_shares_peer'' ''federated_shares'' [''peer_id'']]"

definition added_column :: statement where
  "added_column = AddColumn ''users'' (preset TInt ''password_change_required'' (DInt 0))"

definition schema_v3 :: "statement list" where
  "schema_v3 =
    [MakeIndex False ''idx_files_user_trashed'' ''files'' [''user_id'', ''is_trashed''],
     MakeIndex False ''idx_files_user_trashed_trashed_at'' ''files'' [''user_id'', ''is_trashed'', ''trashed_at''],
     MakeIndex False ''idx_files_user_type_updated'' ''files'' [''user_id'', ''is_trashed'', ''type'', ''updated_at''],
     MakeIndex False ''idx_shares_created_by_active'' ''shares'' [''created_by'', ''is_active''],
     MakeIndex False ''idx_shares_shared_with_active'' ''shares'' [''shared_with'', ''is_active''],
     MakeIndex False ''idx_shares_file_active'' ''shares'' [''file_id'', ''is_active''],
     MakeIndex False ''idx_audit_user_created'' ''audit_log'' [''user_id'', ''created_at'']]"

section \<open>Execution\<close>

text \<open>The tables and indexes of the file; a statement that makes what is there does nothing.  The rows are
  not looked at: the only unique index is made with its table.\<close>

type_synonym catalog = "table list \<times> (string \<times> string \<times> string list \<times> bool) list"

definition find_table :: "string \<Rightarrow> catalog \<Rightarrow> table option" where
  "find_table n c = find (\<lambda>t. tb_name t = n) (fst c)"

definition has_column :: "string \<Rightarrow> table \<Rightarrow> bool" where
  "has_column n t = list_ex (\<lambda>c. co_name c = n) (tb_cols t)"

fun run_ddl :: "statement \<Rightarrow> catalog \<Rightarrow> catalog option" where
  "run_ddl (MakeTable t) c = (case find_table (tb_name t) c of Some _ \<Rightarrow> Some c | None \<Rightarrow> Some (fst c @ [t], snd c))"
| "run_ddl (MakeIndex u n t cols) c =
     (if list_ex (\<lambda>i. fst i = n) (snd c) then Some c
      else case find_table t c of
        None \<Rightarrow> None
      | Some tb \<Rightarrow> if list_all (\<lambda>x. has_column x tb) cols then Some (fst c, snd c @ [(n, t, cols, u)]) else None)"
| "run_ddl (AddColumn t col) c =
     (case find_table t c of
        None \<Rightarrow> None
      | Some tb \<Rightarrow>
          if has_column (co_name col) tb then None
          else Some (map (\<lambda>x. if tb_name x = t then x\<lparr>tb_cols := tb_cols x @ [col]\<rparr> else x) (fst c), snd c))"

text \<open>The file: its catalog, the rows of \<open>schema_version\<close> (number, version, time), the rows that
  are seeded and those of the other tables; \<open>dk_faults\<close> says of each statement to come whether it fails.\<close>

record disk =
  dk_faults :: "bool list"
  dk_catalog :: catalog
  dk_versions :: "(int \<times> int \<times> int) list"
  dk_rows :: "role_tables \<times> database"

definition faulty :: "disk \<Rightarrow> bool \<times> disk" where
  "faulty d = (case dk_faults d of [] \<Rightarrow> (False, d) | b # bs \<Rightarrow> (b, d\<lparr>dk_faults := bs\<rparr>))"

definition exec_ddl :: "statement \<Rightarrow> disk \<Rightarrow> string option \<times> disk" where
  "exec_ddl q d =
     (case faulty d of
        (True, d1) \<Rightarrow> (Some ''disk I/O error'', d1)
      | (False, d1) \<Rightarrow>
          (case run_ddl q (dk_catalog d1) of None \<Rightarrow> (Some ''SQL logic error'', d1) | Some c \<Rightarrow> (None, d1\<lparr>dk_catalog := c\<rparr>)))"

fun exec_each :: "('q \<Rightarrow> disk \<Rightarrow> string option \<times> disk) \<Rightarrow> 'q list \<Rightarrow> disk \<Rightarrow> string option \<times> disk" where
  "exec_each f [] d = (None, d)"
| "exec_each f (q # qs) d = (case f q d of (Some e, d1) \<Rightarrow> (Some e, d1) | (None, d1) \<Rightarrow> exec_each f qs d1)"

section \<open>db.go and schema.go: versions and migrations\<close>

definition GetVersion :: "disk \<Rightarrow> int result \<times> disk" where
  "GetVersion d =
     (case faulty d of
        (True, d1) \<Rightarrow> (Inl ''disk I/O error'', d1)
      | (False, d1) \<Rightarrow> (Inr (case dk_versions d1 of [] \<Rightarrow> 0 | (i, v, t) # _ \<Rightarrow> v), d1))"

definition next_rowid :: "(int \<times> 'a) list \<Rightarrow> int" where
  "next_rowid rs = fold (\<lambda>r m. max m (fst r)) rs 0 + 1"

definition SetVersion :: "int \<Rightarrow> int \<Rightarrow> disk \<Rightarrow> string option \<times> disk" where
  "SetVersion now v d =
     (case faulty d of
        (True, d1) \<Rightarrow> (Some ''disk I/O error'', d1)
      | (False, d1) \<Rightarrow> (None, d1\<lparr>dk_versions := dk_versions d1 @ [(next_rowid (dk_versions d1), v, rfc3339 now)]\<rparr>))"

definition migrationV1 :: "disk \<Rightarrow> string option \<times> disk" where
  "migrationV1 d = exec_each exec_ddl schema_v1 d"

definition migrationV2 :: "disk \<Rightarrow> string option \<times> disk" where
  "migrationV2 d = (None, snd (exec_ddl added_column d))"

definition migrationV3 :: "disk \<Rightarrow> string option \<times> disk" where
  "migrationV3 d = exec_each exec_ddl schema_v3 d"

definition runMigration :: "int \<Rightarrow> disk \<Rightarrow> string option \<times> disk" where
  "runMigration v d =
     (if v = 1 then migrationV1 d else if v = 2 then migrationV2 d else if v = 3 then migrationV3 d
      else (Some ''unknown migration version'', d))"

definition CurrentSchemaVersion :: int where
  "CurrentSchemaVersion = 3"

definition migration_step :: "int \<Rightarrow> int \<Rightarrow> disk \<Rightarrow> string option \<times> disk" where
  "migration_step now v d =
     (case runMigration v d of (Some e, d1) \<Rightarrow> (Some ''failed to run migration'', d1)
      | (None, d1) \<Rightarrow> (case SetVersion now v d1 of (Some e, d2) \<Rightarrow> (Some ''failed to set schema version'', d2) | (None, d2) \<Rightarrow> (None, d2)))"

definition migrate :: "int \<Rightarrow> disk \<Rightarrow> string option \<times> disk" where
  "migrate now d =
     (case exec_ddl (MakeTable first_table) d of
        (Some e, d1) \<Rightarrow> (Some ''failed to create schema_version table'', d1)
      | (None, d1) \<Rightarrow>
          (case GetVersion d1 of
             (Inl e, d2) \<Rightarrow> (Some ''failed to get schema version'', d2)
           | (Inr v, d2) \<Rightarrow> if CurrentSchemaVersion \<le> v then (None, d2) else exec_each (migration_step now) [v + 1..CurrentSchemaVersion] d2))"

section \<open>seed.go, one row at a time\<close>

datatype seed_row = RoleRow "string \<times> string \<times> string \<times> bool" | PermRow string permission | AdminRow

definition seed_rows :: "seed_row list" where
  "seed_rows = map RoleRow seeded_roles @ map (PermRow ''role_admin'') adminPerms @ map (PermRow ''role_user'') userPerms
     @ map (PermRow ''role_guest'') guestPerms @ [AdminRow]"

text \<open>Names are unique among the roles, the permissions and the accounts, and a permission has a role.\<close>

fun insert_seed :: "string \<Rightarrow> int \<Rightarrow> seed_row \<Rightarrow> role_tables \<times> database \<Rightarrow> (role_tables \<times> database) option" where
  "insert_seed uid now (RoleRow r) (rt, db) =
     (if list_ex (\<lambda>x. fst x = fst r \<or> fst (snd x) = fst (snd r)) (rt_roles rt) then None
      else Some (rt\<lparr>rt_roles := rt_roles rt @ [r]\<rparr>, db))"
| "insert_seed uid now (PermRow r p) (rt, db) =
     (if (r, p) \<in> set (rt_perms rt) \<or> \<not> list_ex (\<lambda>x. fst x = r) (rt_roles rt) then None
      else Some (rt\<lparr>rt_perms := rt_perms rt @ [(r, p)]\<rparr>, db))"
| "insert_seed uid now AdminRow (rt, db) =
     (if list_ex (\<lambda>u. u_id u = uid \<or> u_username u = ''admin'' \<or> u_email u = ''admin@localhost'') (users db) then None
      else Some (rt, db\<lparr>users := users db @ [seeded_admin uid now]\<rparr>))"

text \<open>The account is written with the column that the second migration adds.\<close>

definition account_column :: "catalog \<Rightarrow> bool" where
  "account_column c \<longleftrightarrow> (case find_table ''users'' c of None \<Rightarrow> False | Some t \<Rightarrow> has_column ''password_change_required'' t)"

definition exec_insert :: "string \<Rightarrow> int \<Rightarrow> seed_row \<Rightarrow> disk \<Rightarrow> string option \<times> disk" where
  "exec_insert uid now r d =
     (case faulty d of
        (True, d1) \<Rightarrow> (Some ''disk I/O error'', d1)
      | (False, d1) \<Rightarrow>
          if r = AdminRow \<and> \<not> account_column (dk_catalog d1) then (Some ''SQL logic error'', d1)
          else (case insert_seed uid now r (dk_rows d1) of
             None \<Rightarrow> (Some ''constraint failed'', d1) | Some rs \<Rightarrow> (None, d1\<lparr>dk_rows := rs\<rparr>)))"

definition seed_disk :: "string \<Rightarrow> int \<Rightarrow> disk \<Rightarrow> string option \<times> disk" where
  "seed_disk uid now d =
     (case faulty d of
        (True, d1) \<Rightarrow> (Some ''disk I/O error'', d1)
      | (False, d1) \<Rightarrow> if rt_roles (fst (dk_rows d1)) \<noteq> [] then (None, d1) else exec_each (exec_insert uid now) seed_rows d1)"

section \<open>db.go: the manager\<close>

text \<open>Five pragmas and a ping, each a statement that can fail.\<close>

definition pragmas :: "string list" where
  "pragmas = [''PRAGMA journal_mode=WAL'', ''PRAGMA busy_timeout=5000'', ''PRAGMA synchronous=NORMAL'', ''PRAGMA foreign_keys=ON'',
     ''PRAGMA cache_size=-64000'']"

definition exec_pragma :: "string \<Rightarrow> disk \<Rightarrow> string option \<times> disk" where
  "exec_pragma p d = (case faulty d of (True, d1) \<Rightarrow> (Some ''failed to set pragma'', d1) | (False, d1) \<Rightarrow> (None, d1))"

definition Ping :: "disk \<Rightarrow> string option \<times> disk" where
  "Ping d = (case faulty d of (True, d1) \<Rightarrow> (Some ''disk I/O error'', d1) | (False, d1) \<Rightarrow> (None, d1))"

record db_manager =
  dm_path :: string
  dm_closed :: bool

text \<open>\<open>mk\<close> says whether the directory can be made, \<open>uid\<close> is the fresh id for the administrator.\<close>

definition Open :: "bool \<Rightarrow> string \<Rightarrow> string \<Rightarrow> int \<Rightarrow> disk \<Rightarrow> db_manager result \<times> disk" where
  "Open mk path uid now d =
     (if \<not> mk then (Inl ''failed to create database directory'', d)
      else case exec_each exec_pragma pragmas d of
        (Some e, d1) \<Rightarrow> (Inl e, d1)
      | (None, d1) \<Rightarrow>
          (case Ping d1 of
             (Some e, d2) \<Rightarrow> (Inl ''failed to ping database'', d2)
           | (None, d2) \<Rightarrow>
               (case migrate now d2 of
                  (Some e, d3) \<Rightarrow> (Inl ''failed to migrate database'', d3)
                | (None, d3) \<Rightarrow>
                    (case seed_disk uid now d3 of
                       (Some e, d4) \<Rightarrow> (Inl ''failed to seed database'', d4)
                     | (None, d4) \<Rightarrow> (Inr \<lparr>dm_path = path, dm_closed = False\<rparr>, d4)))))"

definition Close :: "db_manager \<Rightarrow> bool \<times> db_manager" where
  "Close m = (if dm_closed m then (False, m) else (True, m\<lparr>dm_closed := True\<rparr>))"

text \<open>A transaction: the state is what the function made of it, or unchanged.\<close>

definition Transaction :: "bool \<Rightarrow> bool \<Rightarrow> ('s \<Rightarrow> string option \<times> 's) \<Rightarrow> 's \<Rightarrow> string option \<times> 's" where
  "Transaction begins commits f s =
     (if \<not> begins then (Some ''failed to begin transaction'', s)
      else case f s of
        (Some e, _) \<Rightarrow> (Some e, s)
      | (None, s') \<Rightarrow> if commits then (None, s') else (Some ''failed to commit transaction'', s))"

section \<open>The schema\<close>

fun run_all :: "statement list \<Rightarrow> catalog \<Rightarrow> catalog option" where
  "run_all [] c = Some c"
| "run_all (q # qs) c = (case run_ddl q c of None \<Rightarrow> None | Some c' \<Rightarrow> run_all qs c')"

text \<open>The catalog that the migrations make of an empty file.\<close>

definition full_catalog :: catalog where
  "full_catalog = (case run_all ([MakeTable first_table] @ schema_v1 @ [added_column] @ schema_v3) ([], []) of None \<Rightarrow> ([], []) | Some c \<Rightarrow> c)"

lemmas schema_defs = first_table_def schema_v1_def added_column_def schema_v3_def schema_version_table_def users_table_def sessions_table_def
  api_tokens_table_def files_table_def manifests_table_def chunks_table_def shares_table_def devices_table_def sync_state_table_def
  roles_table_def permissions_table_def user_roles_table_def audit_log_table_def settings_table_def federation_peers_table_def
  federation_invites_table_def federated_shares_table_def

lemma all_runs: "run_all ([MakeTable first_table] @ schema_v1 @ [added_column] @ schema_v3) ([], []) \<noteq> None"
  by code_simp

text \<open>Tables, columns and indexes stay, so what was executed once has nothing left to do.\<close>

definition column_in :: "string \<Rightarrow> string \<Rightarrow> catalog \<Rightarrow> bool" where
  "column_in n x c \<longleftrightarrow> (case find_table n c of None \<Rightarrow> False | Some t \<Rightarrow> has_column x t)"

definition index_in :: "string \<Rightarrow> catalog \<Rightarrow> bool" where
  "index_in i c \<longleftrightarrow> list_ex (\<lambda>x. fst x = i) (snd c)"

lemma find_append: "find P (xs @ ys) = (case find P xs of None \<Rightarrow> find P ys | Some x \<Rightarrow> Some x)"
  by (induction xs) auto

lemma find_map: "(\<And>x. P (g x) = P x) \<Longrightarrow> find P (map g xs) = map_option g (find P xs)"
  by (induction xs) auto

lemma find_table_add:
  "find_table n (map (\<lambda>x. if tb_name x = t then x\<lparr>tb_cols := tb_cols x @ [col]\<rparr> else x) ts, is)
     = map_option (\<lambda>x. if tb_name x = t then x\<lparr>tb_cols := tb_cols x @ [col]\<rparr> else x) (find_table n (ts, is))"
  unfolding find_table_def by (simp add: find_map)

lemma find_table_index: "find_table n (fst c, i) = find_table n c"
  by (simp add: find_table_def)

lemma run_ddl_keeps:
  assumes "run_ddl q c = Some c'"
  shows "find_table n c \<noteq> None \<Longrightarrow> find_table n c' \<noteq> None" and "index_in i c \<Longrightarrow> index_in i c'" and "column_in n x c \<Longrightarrow> column_in n x c'"
proof -
  have "(find_table n c \<noteq> None \<longrightarrow> find_table n c' \<noteq> None) \<and> (index_in i c \<longrightarrow> index_in i c') \<and> (column_in n x c \<longrightarrow> column_in n x c')"
  proof (cases q)
    case (MakeTable t)
    then show ?thesis using assms
      by (auto simp: find_table_def index_in_def column_in_def find_append split: option.splits)
  next
    case (MakeIndex u m t cs)
    then show ?thesis using assms
      by (auto simp: index_in_def column_in_def find_table_index split: option.splits if_splits)
  next
    case (AddColumn t col)
    then obtain tb where "c' = (map (\<lambda>x. if tb_name x = t then x\<lparr>tb_cols := tb_cols x @ [col]\<rparr> else x) (fst c), snd c)"
      using assms by (auto split: option.splits if_splits)
    then show ?thesis
      by (auto simp: index_in_def column_in_def find_table_add has_column_def split: option.splits)
  qed
  then show "find_table n c \<noteq> None \<Longrightarrow> find_table n c' \<noteq> None" "index_in i c \<Longrightarrow> index_in i c'" "column_in n x c \<Longrightarrow> column_in n x c'" by auto
qed

text \<open>What a statement leaves behind.\<close>

fun done_in :: "statement \<Rightarrow> catalog \<Rightarrow> bool" where
  "done_in (MakeTable t) c = (find_table (tb_name t) c \<noteq> None)"
| "done_in (MakeIndex u n t cs) c = index_in n c"
| "done_in (AddColumn t col) c = column_in t (co_name col) c"

lemma run_ddl_done: "run_ddl q c = Some c' \<Longrightarrow> done_in q c'"
proof (cases q)
  case (AddColumn t col)
  assume "run_ddl q c = Some c'"
  then obtain tb where "find_table t c = Some tb" "c' = (map (\<lambda>x. if tb_name x = t then x\<lparr>tb_cols := tb_cols x @ [col]\<rparr> else x) (fst c), snd c)"
    using AddColumn by (auto split: option.splits if_splits)
  moreover from this(1) have "tb_name tb = t" by (auto simp: find_table_def find_Some_iff)
  ultimately show ?thesis using AddColumn by (simp add: column_in_def find_table_add has_column_def)
qed (auto simp: find_table_def find_append index_in_def split: option.splits if_splits)

lemma done_stays: "run_all qs c = Some c' \<Longrightarrow> done_in q c \<Longrightarrow> done_in q c'"
proof (induction qs arbitrary: c)
  case (Cons p qs)
  then obtain c1 where "run_ddl p c = Some c1" "run_all qs c1 = Some c'" by (auto split: option.splits)
  with Cons show ?case using run_ddl_keeps [of p c c1] by (cases q) auto
qed simp

lemma run_all_done: "run_all qs c = Some c' \<Longrightarrow> q \<in> set qs \<Longrightarrow> done_in q c'"
proof (induction qs arbitrary: c)
  case (Cons p qs)
  then obtain c1 where "run_ddl p c = Some c1" "run_all qs c1 = Some c'" by (auto split: option.splits)
  with Cons show ?case using run_ddl_done done_stays by (cases "q = p") auto
qed simp

lemma done_again:
  "done_in (MakeTable t) c \<Longrightarrow> run_ddl (MakeTable t) c = Some c"
  "done_in (MakeIndex u n t' cs) c \<Longrightarrow> run_ddl (MakeIndex u n t' cs) c = Some c"
  "done_in (AddColumn t' col) c \<Longrightarrow> run_ddl (AddColumn t' col) c = None"
  by (auto simp: index_in_def column_in_def split: option.splits)

lemma full_done: "q \<in> set ([MakeTable first_table] @ schema_v1 @ [added_column] @ schema_v3) \<Longrightarrow> done_in q full_catalog"
  using all_runs run_all_done unfolding full_catalog_def by (metis not_None_eq option.simps(5))

lemma remake: "run_ddl (MakeTable first_table) full_catalog = Some full_catalog"
  by (rule done_again, rule full_done) simp

lemma reruns: "run_all schema_v3 full_catalog = Some full_catalog"
proof -
  have "run_all qs full_catalog = Some full_catalog" if "set qs \<subseteq> set schema_v3" for qs
    using that
  proof (induction qs)
    case (Cons q qs)
    then have "q \<in> set schema_v3" by simp
    moreover from this have "done_in q full_catalog" by (intro full_done) simp
    moreover from \<open>q \<in> set schema_v3\<close> obtain u n t cs where "q = MakeIndex u n t cs"
      by (auto simp: schema_v3_def)
    ultimately have "run_ddl q full_catalog = Some full_catalog" using done_again(2) by simp
    with Cons show ?case by simp
  qed simp
  then show ?thesis by simp
qed

lemma column_stays: "run_ddl added_column full_catalog = None"
  using full_done [of added_column] done_again(3) by (simp add: added_column_def)

text \<open>What SQLite does not check: references to missing tables, keys over missing columns.\<close>

definition table_ok :: "catalog \<Rightarrow> table \<Rightarrow> bool" where
  "table_ok c t \<longleftrightarrow> distinct (map co_name (tb_cols t)) \<and> list_all (\<lambda>k. has_column k t) (tb_key t)
     \<and> list_all (list_all (\<lambda>k. has_column k t)) (tb_unique t)
     \<and> list_all (\<lambda>x. case co_refs x of None \<Rightarrow> True
          | Some r \<Rightarrow> (case find_table r c of None \<Rightarrow> False | Some u \<Rightarrow> list_ex (\<lambda>y. co_name y = ''id'' \<and> co_primary y) (tb_cols u))) (tb_cols t)"

definition index_ok :: "catalog \<Rightarrow> string \<times> string \<times> string list \<times> bool \<Rightarrow> bool" where
  "index_ok c i = (case i of (n, t, cols, u) \<Rightarrow> (case find_table t c of None \<Rightarrow> False | Some tb \<Rightarrow> list_all (\<lambda>x. has_column x tb) cols))"

definition catalog_ok :: "catalog \<Rightarrow> bool" where
  "catalog_ok c \<longleftrightarrow> distinct (map tb_name (fst c)) \<and> distinct (map fst (snd c)) \<and> list_all (table_ok c) (fst c) \<and> list_all (index_ok c) (snd c)"

lemma full_catalog_ok: "catalog_ok full_catalog"
  by code_simp

lemma run_all_append: "run_all (xs @ ys) c = Option.bind (run_all xs c) (run_all ys)"
  by (induction xs arbitrary: c) (auto split: option.split)

lemma exec_ddl_ok: "dk_faults d = [] \<Longrightarrow> run_ddl q (dk_catalog d) = Some c \<Longrightarrow> exec_ddl q d = (None, d\<lparr>dk_catalog := c\<rparr>)"
  by (simp add: exec_ddl_def faulty_def)

lemma exec_ddl_all: "dk_faults d = [] \<Longrightarrow> run_all qs (dk_catalog d) = Some c \<Longrightarrow> exec_each exec_ddl qs d = (None, d\<lparr>dk_catalog := c\<rparr>)"
proof (induction qs arbitrary: d)
  case (Cons q qs)
  then obtain c1 where "run_ddl q (dk_catalog d) = Some c1" "run_all qs c1 = Some c" by (auto split: option.splits)
  with Cons show ?case by (simp add: exec_ddl_ok)
qed simp

lemma pragmas_ok: "dk_faults d = [] \<Longrightarrow> exec_each exec_pragma ps d = (None, d)"
  by (induction ps) (simp_all add: exec_pragma_def faulty_def)

text \<open>One migration of each version, nothing failing.\<close>

lemma step_ok:
  assumes "dk_faults d = []" and "runMigration v d = (None, e)" and "dk_faults e = []"
  shows "migration_step now v d = (None, e\<lparr>dk_versions := dk_versions e @ [(next_rowid (dk_versions e), v, rfc3339 now)]\<rparr>)"
  using assms by (simp add: migration_step_def SetVersion_def faulty_def)

lemma second_again:
  assumes "dk_faults d = []" and "dk_catalog d = full_catalog"
  shows "runMigration 2 d = (None, d)" and "runMigration 3 d = (None, d)"
proof -
  show "runMigration 2 d = (None, d)"
    using assms column_stays by (simp add: runMigration_def migrationV2_def exec_ddl_def faulty_def)
  show "runMigration 3 d = (None, d)"
    using assms reruns exec_ddl_all [of d schema_v3 full_catalog] by (simp add: runMigration_def migrationV3_def)
qed

definition note_version :: "int \<Rightarrow> int \<Rightarrow> disk \<Rightarrow> disk" where
  "note_version now v d = d\<lparr>dk_versions := dk_versions d @ [(next_rowid (dk_versions d), v, rfc3339 now)]\<rparr>"

lemma note_version_simps [simp]:
  "dk_faults (note_version now v d) = dk_faults d" "dk_catalog (note_version now v d) = dk_catalog d" "dk_rows (note_version now v d) = dk_rows d"
  "dk_versions (note_version now v d) = dk_versions d @ [(next_rowid (dk_versions d), v, rfc3339 now)]"
  by (simp_all add: note_version_def)

lemma migrate_fresh:
  assumes "dk_faults d = []" and "dk_catalog d = ([], [])" and "dk_versions d = []"
  shows "migrate now d = (None, note_version now 3 (note_version now 2 (note_version now 1 (d\<lparr>dk_catalog := full_catalog\<rparr>))))"
proof -
  obtain c where "run_all ([MakeTable first_table] @ schema_v1 @ [added_column] @ schema_v3) ([], []) = Some c" using all_runs by blast
  moreover from this have c: "full_catalog = c" by (simp add: full_catalog_def)
  ultimately obtain c0 c1 c2 where r: "run_ddl (MakeTable first_table) ([], []) = Some c0" "run_all schema_v1 c0 = Some c1"
      "run_ddl added_column c1 = Some c2" "run_all schema_v3 c2 = Some full_catalog"
    unfolding run_all_append by (auto simp: bind_eq_Some_conv simp del: run_ddl.simps split: option.splits)
  let ?d0 = "d\<lparr>dk_catalog := c0\<rparr>" let ?d1 = "note_version now 1 (d\<lparr>dk_catalog := c1\<rparr>)" let ?d2 = "note_version now 2 (?d1\<lparr>dk_catalog := c2\<rparr>)"
  have s1: "migration_step now 1 ?d0 = (None, ?d1)"
    using exec_ddl_all [of ?d0 schema_v1 c1] r assms by (subst step_ok [where e = "d\<lparr>dk_catalog := c1\<rparr>"]) (simp_all add: runMigration_def migrationV1_def note_version_def)
  have s2: "migration_step now 2 ?d1 = (None, ?d2)"
    using r assms exec_ddl_ok [of ?d1 added_column c2] by (subst step_ok [where e = "?d1\<lparr>dk_catalog := c2\<rparr>"]) (simp_all add: runMigration_def migrationV2_def note_version_def)
  have s3: "migration_step now 3 ?d2 = (None, note_version now 3 (?d2\<lparr>dk_catalog := full_catalog\<rparr>))"
    using r assms exec_ddl_all [of ?d2 schema_v3 full_catalog]
    by (subst step_ok [where e = "?d2\<lparr>dk_catalog := full_catalog\<rparr>"]) (simp_all add: runMigration_def migrationV3_def note_version_def)
  have u: "[1..3] = [1, 2, 3 :: int]" by (simp add: upto.simps)
  have e: "exec_ddl (MakeTable first_table) d = (None, ?d0)" using r(1) assms by (intro exec_ddl_ok) simp_all
  show ?thesis
    unfolding migrate_def e using assms by (simp add: GetVersion_def faulty_def u s1 s2 s3 CurrentSchemaVersion_def)
qed

lemma migrate_again:
  assumes "dk_faults d = []" and "dk_catalog d = full_catalog" and "dk_versions d = (i, 1, t) # vs"
  shows "migrate now d = (None, note_version now 3 (note_version now 2 d))"
proof -
  have e: "exec_ddl (MakeTable first_table) d = (None, d)" using exec_ddl_ok [of d _ full_catalog] remake assms by simp
  have u: "[2..3] = [2, 3 :: int]" by (simp add: upto.simps)
  have s: "migration_step now 2 d = (None, note_version now 2 d)" "migration_step now 3 (note_version now 2 d) = (None, note_version now 3 (note_version now 2 d))"
    using second_again [of d] second_again [of "note_version now 2 d"] step_ok [of d 2 d now] step_ok [of "note_version now 2 d" 3 "note_version now 2 d" now] assms
    by (simp_all add: note_version_def)
  show ?thesis unfolding migrate_def e using assms by (simp add: GetVersion_def faulty_def u s CurrentSchemaVersion_def)
qed

lemma exec_each_append: "exec_each f (xs @ ys) d = (case exec_each f xs d of (Some e, d1) \<Rightarrow> (Some e, d1) | (None, d1) \<Rightarrow> exec_each f ys d1)"
  by (induction xs arbitrary: d) (auto split: prod.split option.split)

lemma seed_perms:
  assumes "dk_faults d = []" and "dk_rows d = (rt, db)" and "\<forall>x \<in> set ps. list_ex (\<lambda>y. fst y = fst x) (rt_roles rt)" and "distinct (rt_perms rt @ ps)"
  shows "exec_each (exec_insert uid now) (map (\<lambda>x. PermRow (fst x) (snd x)) ps) d = (None, d\<lparr>dk_rows := (rt\<lparr>rt_perms := rt_perms rt @ ps\<rparr>, db)\<rparr>)"
  using assms
proof (induction ps arbitrary: d rt)
  case (Cons x ps)
  let ?rt = "rt\<lparr>rt_perms := rt_perms rt @ [x]\<rparr>" let ?d = "d\<lparr>dk_rows := (?rt, db)\<rparr>"
  have "exec_insert uid now (PermRow (fst x) (snd x)) d = (None, ?d)"
    using Cons.prems by (simp add: exec_insert_def faulty_def)
  moreover have "exec_each (exec_insert uid now) (map (\<lambda>x. PermRow (fst x) (snd x)) ps) ?d
      = (None, ?d\<lparr>dk_rows := (?rt\<lparr>rt_perms := rt_perms ?rt @ ps\<rparr>, db)\<rparr>)"
    using Cons.prems by (intro Cons.IH) simp_all
  ultimately show ?case by simp
qed simp

definition seeded_perms :: "(string \<times> permission) list" where
  "seeded_perms = map (Pair ''role_admin'') adminPerms @ map (Pair ''role_user'') userPerms @ map (Pair ''role_guest'') guestPerms"

lemma seed_rows_alt: "seed_rows = map RoleRow seeded_roles @ map (\<lambda>x. PermRow (fst x) (snd x)) seeded_perms @ [AdminRow]"
  by (simp add: seed_rows_def seeded_perms_def)

lemma seeded_perms_fit: "distinct seeded_perms" "\<forall>x \<in> set seeded_perms. list_ex (\<lambda>y. fst y = fst x) seeded_roles"
proof -
  show "distinct seeded_perms" by code_simp
  have "list_all (\<lambda>x. list_ex (\<lambda>y. fst y = fst x) seeded_roles) seeded_perms" by code_simp
  then show "\<forall>x \<in> set seeded_perms. list_ex (\<lambda>y. fst y = fst x) seeded_roles" by (simp add: list_all_iff)
qed

lemma column_there: "account_column full_catalog"
  by code_simp

lemma seed_fresh:
  assumes "dk_faults d = []" and "dk_catalog d = full_catalog" and "dk_rows d = (\<lparr>rt_roles = [], rt_perms = []\<rparr>, db)" and "users db = []"
  shows "seed_disk uid now d = (None, d\<lparr>dk_rows := seed uid now (dk_rows d)\<rparr>)"
proof -
  let ?d1 = "d\<lparr>dk_rows := (\<lparr>rt_roles = seeded_roles, rt_perms = []\<rparr>, db)\<rparr>"
  let ?d2 = "d\<lparr>dk_rows := (\<lparr>rt_roles = seeded_roles, rt_perms = seeded_perms\<rparr>, db)\<rparr>"
  have r: "exec_each (exec_insert uid now) (map RoleRow seeded_roles) d = (None, ?d1)"
    using assms by (simp add: seeded_roles_def exec_insert_def faulty_def)
  have p: "exec_each (exec_insert uid now) (map (\<lambda>x. PermRow (fst x) (snd x)) seeded_perms) ?d1 = (None, ?d2)"
    using seed_perms [of ?d1 "\<lparr>rt_roles = seeded_roles, rt_perms = []\<rparr>" db seeded_perms uid now] seeded_perms_fit assms(1) by simp
  have a: "exec_insert uid now AdminRow ?d2 = (None, d\<lparr>dk_rows := (\<lparr>rt_roles = seeded_roles, rt_perms = seeded_perms\<rparr>, db\<lparr>users := [seeded_admin uid now]\<rparr>)\<rparr>)"
    using assms column_there by (simp add: exec_insert_def faulty_def)
  show ?thesis
    using assms by (simp add: seed_disk_def faulty_def seed_rows_alt exec_each_append r p a) (simp add: seed_def seeded_perms_def)
qed

section \<open>Opening again\<close>

fun opens :: "string \<Rightarrow> (string \<times> int) list \<Rightarrow> disk \<Rightarrow> disk option" where
  "opens p [] d = Some d"
| "opens p ((uid, now) # rest) d = (case Open True p uid now d of (Inl e, _) \<Rightarrow> None | (Inr m, d1) \<Rightarrow> opens p rest d1)"

definition opened :: "role_tables \<times> database \<Rightarrow> disk \<Rightarrow> bool" where
  "opened rows d \<longleftrightarrow> dk_faults d = [] \<and> dk_catalog d = full_catalog \<and> dk_rows d = rows \<and> rt_roles (fst rows) \<noteq> []
     \<and> (\<exists>i t vs. dk_versions d = (i, 1, t) # vs)"

lemma open_again:
  assumes "opened rows d"
  shows "\<exists>m d1. Open True p uid now d = (Inr m, d1) \<and> opened rows d1 \<and> length (dk_versions d1) = length (dk_versions d) + 2"
proof -
  obtain i t vs where v: "dk_versions d = (i, 1, t) # vs" using assms by (auto simp: opened_def)
  have m: "migrate now d = (None, note_version now 3 (note_version now 2 d))"
    using assms v by (intro migrate_again) (auto simp: opened_def)
  show ?thesis
    using assms v by (simp add: Open_def opened_def pragmas_ok Ping_def faulty_def m seed_disk_def)
qed

lemma opens_again: "opened rows d \<Longrightarrow> \<exists>d1. opens p later d = Some d1 \<and> opened rows d1 \<and> length (dk_versions d1) = length (dk_versions d) + 2 * length later"
proof (induction later arbitrary: d)
  case (Cons x later)
  obtain uid now where x: "x = (uid, now)" by (cases x)
  obtain m d1 where o: "Open True p uid now d = (Inr m, d1)" "opened rows d1" "length (dk_versions d1) = length (dk_versions d) + 2"
    using open_again [OF Cons.prems] by blast
  then show ?case using Cons.IH [OF o(2)] x by auto
qed simp

text \<open>C39: however often the database of a new installation is opened, while no statement fails, each time succeeds and leaves the
  tables, the indexes and the rows of the first time, with every reference to an existing key; but the number of the version
  stays 1, since each note of a version is a new row, and the second and the third migration run every time.\<close>

theorem reopening_keeps_everything:
  assumes "users db = []"
    and "d0 = \<lparr>dk_faults = [], dk_catalog = ([], []), dk_versions = [], dk_rows = (\<lparr>rt_roles = [], rt_perms = []\<rparr>, db)\<rparr>"
  shows "\<exists>d. opens p ((uid, now) # later) d0 = Some d \<and> catalog_ok (dk_catalog d) \<and> dk_catalog d = full_catalog
    \<and> dk_rows d = seed uid now (dk_rows d0) \<and> fst (GetVersion d) = Inr 1 \<and> length (dk_versions d) = 3 + 2 * length later"
proof -
  let ?d1 = "note_version now 3 (note_version now 2 (note_version now 1 (d0\<lparr>dk_catalog := full_catalog\<rparr>)))"
  have m: "migrate now d0 = (None, ?d1)" using assms by (intro migrate_fresh) simp_all
  have s: "seed_disk uid now ?d1 = (None, ?d1\<lparr>dk_rows := seed uid now (dk_rows d0)\<rparr>)"
    using assms seed_fresh [of ?d1 db uid now] by simp
  let ?d = "?d1\<lparr>dk_rows := seed uid now (dk_rows d0)\<rparr>"
  have o: "Open True p uid now d0 = (Inr \<lparr>dm_path = p, dm_closed = False\<rparr>, ?d)"
  proof -
    have "dk_faults d0 = []" using assms(2) by simp
    then show ?thesis by (simp add: Open_def pragmas_ok Ping_def faulty_def m s)
  qed
  have w: "opened (seed uid now (dk_rows d0)) ?d" "length (dk_versions ?d) = 3"
    using assms(2) by (simp_all add: opened_def seed_def seeded_roles_def)
  obtain d where d: "opens p later ?d = Some d" "opened (seed uid now (dk_rows d0)) d" "length (dk_versions d) = 3 + 2 * length later"
    using opens_again [OF w(1), of p later] w(2) by auto
  then show ?thesis using o full_catalog_ok by (auto simp: opened_def GetVersion_def faulty_def)
qed

theorem reopening_keeps_everything_witness:
  "let d0 = \<lparr>dk_faults = [], dk_catalog = ([], []), dk_versions = [], dk_rows = (\<lparr>rt_roles = [], rt_perms = []\<rparr>, empty_db)\<rparr>
   in \<exists>d. opens ''v.db'' [(''u'', 0), (''w'', 5), (''x'', 9)] d0 = Some d \<and> catalog_ok (dk_catalog d)
        \<and> fst (GetVersion d) = Inr 1 \<and> length (dk_versions d) = 7"
  using reopening_keeps_everything [of empty_db _ "''v.db''" "''u''" 0 "[(''w'', 5), (''x'', 9)]", OF _ refl]
  by (auto simp: empty_db_def Let_def)

lemma inserts_keep_users:
  "AdminRow \<notin> set rs \<Longrightarrow> exec_each (exec_insert uid now) rs d = (e, d1) \<Longrightarrow> users (snd (dk_rows d1)) = users (snd (dk_rows d))
     \<and> dk_catalog d1 = dk_catalog d \<and> dk_versions d1 = dk_versions d"
proof (induction rs arbitrary: d)
  case (Cons r rs)
  obtain e0 d0 where s: "exec_insert uid now r d = (e0, d0)" by fastforce
  obtain rt db where db: "dk_rows d = (rt, db)" by fastforce
  have "users (snd (dk_rows d0)) = users db \<and> dk_catalog d0 = dk_catalog d \<and> dk_versions d0 = dk_versions d"
    using s db Cons.prems(1) by (cases r) (auto simp: exec_insert_def faulty_def split: list.splits bool.splits if_splits)
  then show ?case using Cons s db by (cases e0) auto
qed auto

text \<open>When the first start breaks off while the roles and permissions are written, the later starts succeed and take the
  installation as set up: the administrator is never made, and nobody has an account.\<close>

theorem interrupted_setup_has_no_account:
  assumes "dk_catalog d = full_catalog" and "dk_versions d = (i, 1, t) # vs" and "dk_rows d = (\<lparr>rt_roles = [], rt_perms = []\<rparr>, db)"
    and "users db = []" and "seed_disk uid now d = (Some e, d1)" and "rt_roles (fst (dk_rows d1)) \<noteq> []" and "dk_faults d1 = []"
  shows "\<exists>d2. opens p later d1 = Some d2 \<and> users (snd (dk_rows d2)) = []"
proof -
  obtain f d0 where f: "faulty d = (f, d0)" by fastforce
  have d0: "dk_catalog d0 = dk_catalog d" "dk_versions d0 = dk_versions d" "dk_rows d0 = dk_rows d"
    using f by (auto simp: faulty_def split: list.splits)
  have "\<not> f" using assms(3,5,6) f d0 by (auto simp: seed_disk_def split: bool.splits)
  then have x: "exec_each (exec_insert uid now) seed_rows d0 = (Some e, d1)" using assms(3,5) f d0 by (simp add: seed_disk_def)
  let ?rs = "map RoleRow seeded_roles @ map (\<lambda>x. PermRow (fst x) (snd x)) seeded_perms"
  obtain e2 d2 where r: "exec_each (exec_insert uid now) ?rs d0 = (e2, d2)" by fastforce
  have k: "users (snd (dk_rows d2)) = [] \<and> dk_catalog d2 = full_catalog \<and> dk_versions d2 = (i, 1, t) # vs"
    using inserts_keep_users [OF _ r] assms(1-4) d0 by auto
  have "users (snd (dk_rows d1)) = [] \<and> dk_catalog d1 = full_catalog \<and> dk_versions d1 = (i, 1, t) # vs"
  proof (cases e2)
    case None
    then have "exec_insert uid now AdminRow d2 = (Some e, d1)"
      using x r by (auto simp: seed_rows_alt exec_each_append simp flip: append_assoc split: prod.splits option.splits)
    then show ?thesis using k by (auto simp: exec_insert_def faulty_def split: list.splits bool.splits if_splits option.splits)
  next
    case (Some e3)
    then show ?thesis using x r k by (simp add: seed_rows_alt exec_each_append flip: append_assoc)
  qed
  then have "opened (dk_rows d1) d1" "users (snd (dk_rows d1)) = []" using assms(6,7) by (auto simp: opened_def)
  then show ?thesis using opens_again [of "dk_rows d1" d1 p later] by (auto simp: opened_def)
qed

definition third_write_fails :: disk where
  "third_write_fails = \<lparr>dk_faults = [False, False, True], dk_catalog = full_catalog, dk_versions = [(1, 1, 0)],
     dk_rows = (\<lparr>rt_roles = [], rt_perms = []\<rparr>, empty_db)\<rparr>"

theorem interrupted_setup_has_no_account_witness:
  "\<exists>d2. opens ''v.db'' [(''u'', 5)] (snd (seed_disk ''u'' 0 third_write_fails)) = Some d2 \<and> users (snd (dk_rows d2)) = []"
  by (rule interrupted_setup_has_no_account [of third_write_fails 1 0 "[]" empty_db "''u''" 0 "''disk I/O error''"])
    (simp_all add: third_write_fails_def seed_disk_def faulty_def seed_rows_def seeded_roles_def exec_insert_def empty_db_def)

text \<open>A transaction that reports an error has changed nothing.\<close>

lemma failed_transaction: "Transaction b c f s = (Some e, s') \<Longrightarrow> s' = s"
  by (auto simp: Transaction_def split: if_splits prod.splits option.splits)

end
