(* ===== verification/Routing.thy ===== *)
theory Routing
  imports Rbac Paths
begin

text \<open>
  The routes of the server (\<^verbatim>\<open>setupRoutes\<close> of \<^verbatim>\<open>src/internal/server/server.go\<close> and every
  \<^verbatim>\<open>RegisterRoutes\<close>) and the choice that \<^verbatim>\<open>http.ServeMux\<close> makes among them, its start and stop, and its
  health.  Patterns are the texts of the source.  A request comes with its path cleaned and cut at the
  slashes, so that a path that ends in a slash has an empty last segment.
\<close>

section \<open>Patterns\<close>

datatype segment = Lit string | Wild | Rest

text \<open>What stands between a request and its handler: nothing, the rate limiter of public shares, the reading of the
  credentials, the same with a refusal of strangers, a check of the access token, a check of the role.\<close>

datatype guard = Public | Limited | Identified | Required | TokenOnly | Administrator

record route =
  ro_method :: string
  ro_path :: "segment list"
  ro_guard :: guard
  ro_handler :: string

definition parse_segment :: "string \<Rightarrow> segment" where
  "parse_segment s = (if s = [] then Rest else if hd s = CHR ''{'' then Wild else Lit s)"

text \<open>A pattern is a method and a path, or a path alone.\<close>

definition route :: "string \<Rightarrow> guard \<Rightarrow> string \<Rightarrow> route" where
  "route p g h =
     (let m = takeWhile (\<lambda>c. c \<noteq> CHR '' '') p; r = drop (Suc (length m)) p;
          (method, path) = (if length m < length p then (m, r) else ([], p))
      in \<lparr>ro_method = method, ro_path = map parse_segment (split_on slash (tl path)), ro_guard = g, ro_handler = h\<rparr>)"

fun seg_match :: "segment list \<Rightarrow> string list \<Rightarrow> bool" where
  "seg_match [] [] = True"
| "seg_match (Lit s # p) (x # xs) = (s = x \<and> seg_match p xs)"
| "seg_match (Wild # p) (x # xs) = (x \<noteq> [] \<and> seg_match p xs)"
| "seg_match [Rest] (x # xs) = True"
| "seg_match _ _ = False"

definition method_match :: "string \<Rightarrow> string \<Rightarrow> bool" where
  "method_match p m \<longleftrightarrow> p = [] \<or> p = m \<or> (p = ''GET'' \<and> m = ''HEAD'')"

definition route_match :: "route \<Rightarrow> string \<Rightarrow> string list \<Rightarrow> bool" where
  "route_match r m xs \<longleftrightarrow> method_match (ro_method r) m \<and> seg_match (ro_path r) xs"

section \<open>Precedence\<close>

text \<open>Every path of the first pattern is one of the second; some path is of both.\<close>

fun seg_le :: "segment list \<Rightarrow> segment list \<Rightarrow> bool" where
  "seg_le (x # p) [Rest] = True"
| "seg_le [] [] = True"
| "seg_le (Lit s # p) (Lit t # q) = (s = t \<and> seg_le p q)"
| "seg_le (Lit s # p) (Wild # q) = (s \<noteq> [] \<and> seg_le p q)"
| "seg_le (Wild # p) (Wild # q) = seg_le p q"
| "seg_le _ _ = False"

fun seg_meet :: "segment list \<Rightarrow> segment list \<Rightarrow> bool" where
  "seg_meet [Rest] (y # q) = True"
| "seg_meet (x # p) [Rest] = True"
| "seg_meet [] [] = True"
| "seg_meet (Lit s # p) (Lit t # q) = (s = t \<and> seg_meet p q)"
| "seg_meet (Lit s # p) (Wild # q) = seg_meet p q"
| "seg_meet (Wild # p) (Lit t # q) = seg_meet p q"
| "seg_meet (Wild # p) (Wild # q) = seg_meet p q"
| "seg_meet _ _ = False"

definition method_le :: "string \<Rightarrow> string \<Rightarrow> bool" where
  "method_le a b \<longleftrightarrow> b = [] \<or> a = b \<or> (a = ''HEAD'' \<and> b = ''GET'')"

definition method_meet :: "string \<Rightarrow> string \<Rightarrow> bool" where
  "method_meet a b \<longleftrightarrow> method_le a b \<or> method_le b a"

definition route_le :: "route \<Rightarrow> route \<Rightarrow> bool" where
  "route_le a b \<longleftrightarrow> method_le (ro_method a) (ro_method b) \<and> seg_le (ro_path a) (ro_path b)"

text \<open>Two patterns that have a request in common, neither of which is the rest special one.\<close>

definition conflict :: "route \<Rightarrow> route \<Rightarrow> bool" where
  "conflict a b \<longleftrightarrow> seg_meet (ro_path a) (ro_path b) \<and> method_meet (ro_method a) (ro_method b) \<and> (route_le a b \<longleftrightarrow> route_le b a)"

text \<open>A registration that conflicts with an earlier one panics.\<close>

definition mux_Handle :: "route \<Rightarrow> route list \<Rightarrow> route list option" where
  "mux_Handle r rs = (if list_ex (conflict r) rs then None else Some (rs @ [r]))"

fun register :: "route list \<Rightarrow> route list \<Rightarrow> route list option" where
  "register [] rs = Some rs"
| "register (r # rest) rs = Option.bind (mux_Handle r rs) (register rest)"

text \<open>The chosen route: the most special one that matches.\<close>

definition pick_route :: "route list \<Rightarrow> string \<Rightarrow> string list \<Rightarrow> route option" where
  "pick_route rs m xs =
     (case filter (\<lambda>r. route_match r m xs) rs of [] \<Rightarrow> None | r # rest \<Rightarrow> Some (fold (\<lambda>a b. if route_le a b then a else b) rest r))"

datatype served = Served route | RedirectTo "string list" | NotRouted

definition is_exact :: "route \<Rightarrow> string list \<Rightarrow> bool" where
  "is_exact r xs \<longleftrightarrow> ro_path r = [] \<or> last (ro_path r) \<noteq> Rest \<or> (last xs = [] \<and> length (ro_path r) = length xs)"

text \<open>A path that only a longer pattern takes is sent on to the same path with a slash, when that is a pattern.\<close>

definition mux_serve :: "route list \<Rightarrow> string \<Rightarrow> string list \<Rightarrow> served" where
  "mux_serve rs m xs =
     (let r = pick_route rs m xs; e = (case r of None \<Rightarrow> False | Some x \<Rightarrow> is_exact x xs)
      in if \<not> e \<and> last xs \<noteq> [] \<and> (case pick_route rs m (xs @ [[]]) of None \<Rightarrow> False | Some y \<Rightarrow> is_exact y (xs @ [[]]))
         then RedirectTo (xs @ [[]])
         else (case r of None \<Rightarrow> NotRouted | Some x \<Rightarrow> Served x))"

section \<open>The routes of the handlers\<close>

definition auth_routes :: "route list" where
  "auth_routes =
    [route ''POST /api/v1/auth/login'' Public ''login'',
     route ''POST /api/v1/auth/totp/verify'' Public ''verifyTOTP'',
     route ''POST /api/v1/auth/logout'' TokenOnly ''logout'',
     route ''POST /api/v1/auth/refresh'' Public ''refresh'']"

definition user_routes :: "route list" where
  "user_routes =
    [route ''GET /api/v1/user/profile'' Required ''getProfile'',
     route ''GET /api/v1/users/me'' Required ''getProfile'',
     route ''PUT /api/v1/user/profile'' Required ''updateProfile'',
     route ''PUT /api/v1/user/password'' Required ''changePassword'']"

definition file_routes :: "route list" where
  "file_routes =
    [route ''GET /api/v1/files'' Required ''listFiles'',
     route ''GET /api/v1/files/{id}'' Required ''getFile'',
     route ''POST /api/v1/files'' Required ''createFile'',
     route ''PUT /api/v1/files/{id}'' Required ''updateFile'',
     route ''DELETE /api/v1/files/{id}'' Required ''deleteFile'',
     route ''GET /api/v1/search'' Required ''searchFiles'',
     route ''GET /api/v1/files/recent'' Required ''recentFiles'']"

definition folder_routes :: "route list" where
  "folder_routes =
    [route ''GET /api/v1/folders'' Required ''listFolders'',
     route ''GET /api/v1/folders/{id}'' Required ''getFolder'',
     route ''POST /api/v1/folders'' Required ''createFolder'',
     route ''PUT /api/v1/folders/{id}'' Required ''updateFolder'',
     route ''DELETE /api/v1/folders/{id}'' Required ''deleteFolder'',
     route ''GET /api/v1/folders/{id}/breadcrumbs'' Required ''getBreadcrumbs'']"

definition upload_routes :: "route list" where
  "upload_routes =
    [route ''POST /api/v1/uploads'' Required ''createUpload'',
     route ''PUT /api/v1/uploads/{id}/chunks/{index}'' Required ''uploadChunk'',
     route ''POST /api/v1/uploads/{id}/complete'' Required ''completeUpload'',
     route ''GET /api/v1/uploads/{id}/status'' Required ''getUploadStatus'',
     route ''DELETE /api/v1/uploads/{id}'' Required ''cancelUpload'']"

definition download_routes :: "route list" where
  "download_routes =
    [route ''GET /api/v1/files/{id}/download'' Required ''downloadFile'',
     route ''GET /api/v1/files/{id}/stream'' Required ''streamFile'',
     route ''GET /api/v1/files/{id}/chunks'' Required ''getChunksInfo'',
     route ''GET /api/v1/files/{id}/chunks/{hash}'' Required ''downloadChunk'']"

definition share_routes :: "route list" where
  "share_routes =
    [route ''POST /api/v1/files/{id}/shares'' Required ''createShare'',
     route ''GET /api/v1/files/{id}/shares'' Required ''listShares'',
     route ''GET /api/v1/shares'' Required ''listMyShares'',
     route ''GET /api/v1/shares/received'' Required ''listReceivedShares'',
     route ''GET /api/v1/shares/{id}'' Required ''getShare'',
     route ''PUT /api/v1/shares/{id}'' Required ''updateShare'',
     route ''DELETE /api/v1/shares/{id}'' Required ''revokeShare'']"

definition public_share_routes :: "route list" where
  "public_share_routes =
    [route ''GET /s/{token}'' Limited ''getShareInfo'',
     route ''GET /s/{token}/download'' Limited ''downloadSharedFile'',
     route ''GET /s/{token}/stream'' Limited ''streamSharedFile'']"

definition trash_routes :: "route list" where
  "trash_routes =
    [route ''GET /api/v1/trash'' Required ''listTrash'',
     route ''POST /api/v1/trash/{id}/restore'' Required ''restoreItem'',
     route ''DELETE /api/v1/trash/{id}'' Required ''permanentDelete'',
     route ''DELETE /api/v1/trash'' Required ''emptyTrash'']"

definition version_routes :: "route list" where
  "version_routes =
    [route ''GET /api/v1/files/{id}/version'' Required ''getVersion'',
     route ''POST /api/v1/files/{id}/version'' Required ''incrementVersion'']"

definition pprof_routes :: "route list" where
  "pprof_routes =
    [route ''GET /api/v1/admin/debug/pprof/'' Administrator ''pprof Index'',
     route ''GET /api/v1/admin/debug/pprof/cmdline'' Administrator ''pprof Cmdline'',
     route ''GET /api/v1/admin/debug/pprof/profile'' Administrator ''pprof Profile'',
     route ''GET /api/v1/admin/debug/pprof/symbol'' Administrator ''pprof Symbol'',
     route ''POST /api/v1/admin/debug/pprof/symbol'' Administrator ''pprof Symbol'',
     route ''GET /api/v1/admin/debug/pprof/trace'' Administrator ''pprof Trace'',
     route ''GET /api/v1/admin/debug/pprof/allocs'' Administrator ''pprof allocs'',
     route ''GET /api/v1/admin/debug/pprof/block'' Administrator ''pprof block'',
     route ''GET /api/v1/admin/debug/pprof/goroutine'' Administrator ''pprof goroutine'',
     route ''GET /api/v1/admin/debug/pprof/heap'' Administrator ''pprof heap'',
     route ''GET /api/v1/admin/debug/pprof/mutex'' Administrator ''pprof mutex'',
     route ''GET /api/v1/admin/debug/pprof/threadcreate'' Administrator ''pprof threadcreate'']"

definition admin_routes :: "route list" where
  "admin_routes =
    [route ''GET /api/v1/admin/health'' Identified ''getSystemHealth'',
     route ''GET /api/v1/admin/stats'' Identified ''getSystemStats'',
     route ''GET /api/v1/admin/users'' Identified ''listUsers'',
     route ''POST /api/v1/admin/users'' Identified ''createUser'',
     route ''GET /api/v1/admin/users/{userID}'' Identified ''getUser'',
     route ''PUT /api/v1/admin/users/{userID}'' Identified ''updateUser'',
     route ''DELETE /api/v1/admin/users/{userID}'' Identified ''deleteUser'',
     route ''GET /api/v1/admin/audit'' Identified ''getAuditLogs'',
     route ''POST /api/v1/admin/maintenance/gc'' Identified ''runGC'',
     route ''POST /api/v1/admin/maintenance/cleanup'' Identified ''runCleanup''] @ pprof_routes"

definition backup_routes :: "route list" where
  "backup_routes =
    [route ''POST /api/v1/admin/backup'' Identified ''createBackup'',
     route ''GET /api/v1/admin/backups'' Identified ''listBackups'',
     route ''GET /api/v1/admin/backups/{filename}'' Identified ''downloadBackup'',
     route ''DELETE /api/v1/admin/backups/{filename}'' Identified ''deleteBackup'',
     route ''POST /api/v1/admin/restore'' Identified ''restoreBackup'']"

definition media_routes :: "route list" where
  "media_routes =
    [route ''GET /api/v1/media/{fileID}/playlist.m3u8'' Identified ''handlePlaylist'',
     route ''GET /api/v1/media/{fileID}/{segment}'' Identified ''handleSegment'',
     route ''GET /api/v1/media/{fileID}/info'' Identified ''handleStreamInfo'',
     route ''GET /api/v1/media/{fileID}/status'' Identified ''handleTranscodeStatus'']"

definition preview_routes :: "route list" where
  "preview_routes =
    [route ''GET /api/v1/preview/{fileID}'' Identified ''handlePreviewInfo'',
     route ''GET /api/v1/preview/{fileID}/pdf'' Identified ''handlePreviewPDF'',
     route ''GET /api/v1/preview/{fileID}/html'' Identified ''handlePreviewHTML'',
     route ''POST /api/v1/preview/{fileID}/generate'' Identified ''handleGeneratePreview'']"

definition thumbnail_routes :: "route list" where
  "thumbnail_routes =
    [route ''GET /api/v1/thumbnails/{fileID}'' Required ''handleThumbnail'',
     route ''POST /api/v1/thumbnails/{fileID}/generate'' Required ''handleGenerate'',
     route ''DELETE /api/v1/thumbnails/{fileID}'' Required ''handleDelete'']"

definition event_routes :: "route list" where
  "event_routes =
    [route ''GET /api/v1/events'' Required ''HandleSSE'',
     route ''GET /api/v1/events/poll'' Required ''HandleLongPoll'']"

definition ws_routes :: "route list" where
  "ws_routes =
    [route ''GET /ws'' Public ''handleWebSocket'']"

definition sync_routes :: "route list" where
  "sync_routes =
    [route ''POST /api/v1/sync/devices'' Identified ''registerDevice'',
     route ''GET /api/v1/sync/devices'' Identified ''listDevices'',
     route ''DELETE /api/v1/sync/devices/{deviceID}'' Identified ''removeDevice'',
     route ''GET /api/v1/sync/sessions'' Identified ''listSessions'',
     route ''POST /api/v1/sync/negotiate'' Identified ''negotiate'',
     route ''POST /api/v1/sync/push'' Identified ''push'',
     route ''GET /api/v1/sync/pull/{hash}'' Identified ''pullChunk'',
     route ''POST /api/v1/sync/commit'' Identified ''commit'',
     route ''GET /api/v1/sync/status'' Identified ''getStatus'']"

definition federation_routes :: "route list" where
  "federation_routes =
    [route ''GET /api/v1/federation/config'' Identified ''handleGetConfig'',
     route ''GET /api/v1/federation/peers'' Identified ''handleListPeers'',
     route ''POST /api/v1/federation/peers'' Identified ''handleAddPeer'',
     route ''DELETE /api/v1/federation/peers/{peerID}'' Identified ''handleRemovePeer'',
     route ''POST /api/v1/federation/invites'' Identified ''handleCreateInvite'',
     route ''GET /federation/v1/health'' Public ''handleHealth'',
     route ''POST /federation/v1/discover'' Public ''handleDiscover'',
     route ''POST /federation/v1/message'' Public ''handleMessage'',
     route ''POST /federation/v1/join'' Public ''handleJoin'']"

section \<open>server.go\<close>

definition first_routes :: "route list" where
  "first_routes = [route ''GET /health'' Public ''handleHealth'', route ''GET /ready'' Public ''handleReady'']"

definition metric_routes :: "route list" where
  "metric_routes =
    [route ''GET /metrics/json'' Identified ''MetricsHandler'', route ''GET /metrics/prometheus'' Identified ''PrometheusHandler'',
     route ''GET /metrics'' Identified ''PrometheusHandler'']"

definition static_route :: route where
  "static_route = route ''/'' Public ''FileServer''"

definition webdav_routes :: "route list" where
  "webdav_routes = [route ''/webdav/'' Identified ''webdavHandler'']"

definition setupRoutes :: "bool \<Rightarrow> route list" where
  "setupRoutes federated =
     concat [first_routes, auth_routes, metric_routes, user_routes, file_routes, folder_routes, upload_routes, download_routes, share_routes,
       public_share_routes, trash_routes, version_routes, admin_routes, backup_routes, media_routes, preview_routes, thumbnail_routes,
       event_routes, ws_routes, sync_routes, if federated then federation_routes else [], [static_route], webdav_routes]"

text \<open>What \<^verbatim>\<open>ListenAndServe\<close> returned, if it did, comes in.\<close>

record tls_config =
  tl_enabled :: bool
  tl_cert :: string
  tl_key :: string

definition server_Start :: "tls_config \<Rightarrow> string option \<Rightarrow> string option" where
  "server_Start c listen =
     (if tl_enabled c \<and> (tl_cert c = [] \<or> tl_key c = []) then Some ''TLS enabled but cert_file or key_file not configured''
      else case listen of None \<Rightarrow> None | Some e \<Rightarrow> if e = ''http: Server closed'' then None else Some (''could not listen: '' @ e))"

definition handleHealth :: "bool \<Rightarrow> bool \<Rightarrow> nat \<times> string \<times> (string \<times> string) list" where
  "handleHealth database storage =
     (let deps = [(''database'', ''ok''), (''storage'', ''ok''), (''web_socket'', ''ok'')];
          d1 = (if database then deps else al_put deps ''database'' ''unavailable'');
          d2 = (if storage then d1 else al_put d1 ''storage'' ''unavailable'')
      in (200, if database \<and> storage then ''healthy'' else ''degraded'', d2))"

definition handleReady :: "bool \<Rightarrow> nat \<times> (string \<times> string) list" where
  "handleReady database =
     (if database then (200, [(''status'', ''ready'')]) else (503, [(''status'', ''not ready''), (''error'', ''database unavailable'')]))"

section \<open>Precedence decides\<close>

lemma seg_le_match: "seg_le p q \<Longrightarrow> seg_match p xs \<Longrightarrow> seg_match q xs"
proof (induction p q arbitrary: xs rule: seg_le.induct)
  case (1 x p)
  then show ?case by (cases xs; cases x; cases p) auto
next
  case (3 s p t q)
  then show ?case by (cases xs) auto
next
  case (4 s p q)
  then show ?case by (cases xs) auto
next
  case (5 p q)
  then show ?case by (cases xs) auto
qed auto

lemma seg_match_meet: "seg_match p xs \<Longrightarrow> seg_match q xs \<Longrightarrow> seg_meet p q"
proof (induction p q arbitrary: xs rule: seg_meet.induct)
  case (4 s p t q)
  then show ?case by (cases xs) auto
next
  case (5 s p q)
  then show ?case by (cases xs) auto
next
  case (6 p t q)
  then show ?case by (cases xs) auto
next
  case (7 p q)
  then show ?case by (cases xs) auto
qed (auto elim!: seg_match.elims)

lemma seg_le_trans: "seg_le p q \<Longrightarrow> seg_le q r \<Longrightarrow> seg_le p r"
proof (induction p q arbitrary: r rule: seg_le.induct)
  case (1 x p)
  then show ?case by (cases r) (auto elim: seg_le.elims)
next
  case (3 s p t q)
  then show ?case by (auto elim!: seg_le.elims(2) [of "Lit t # q"])
next
  case (4 s p q)
  then show ?case by (auto elim!: seg_le.elims(2) [of "Wild # q"])
next
  case (5 p q)
  then show ?case by (auto elim!: seg_le.elims(2) [of "Wild # q"])
qed auto

lemma method_le_trans: "method_le a b \<Longrightarrow> method_le b c \<Longrightarrow> method_le a c"
  by (auto simp: method_le_def)

lemma route_le_trans: "route_le a b \<Longrightarrow> route_le b c \<Longrightarrow> route_le a c"
  using seg_le_trans method_le_trans by (auto simp: route_le_def)

lemma both_match:
  assumes "route_match a m xs" and "route_match b m xs"
  shows "seg_meet (ro_path a) (ro_path b) \<and> method_meet (ro_method a) (ro_method b)"
  using assms seg_match_meet by (auto simp: route_match_def method_match_def method_meet_def method_le_def)

text \<open>The least of a list whose elements can be compared in exactly one direction.\<close>

lemma fold_least:
  assumes "\<And>a b c. le a b \<Longrightarrow> le b c \<Longrightarrow> le a c"
  shows "sorted_wrt (\<lambda>a b. le a b \<noteq> le b a) (b # bs) \<Longrightarrow>
    fold (\<lambda>a b. if le a b then a else b) bs b \<in> set (b # bs)
    \<and> (\<forall>x \<in> set (b # bs). x = fold (\<lambda>a b. if le a b then a else b) bs b
          \<or> (le (fold (\<lambda>a b. if le a b then a else b) bs b) x \<and> \<not> le x (fold (\<lambda>a b. if le a b then a else b) bs b)))"
proof (induction bs arbitrary: b)
  case (Cons a bs)
  define c where "c = (if le a b then a else b)"
  define r where "r = fold (\<lambda>a b. if le a b then a else b) bs c"
  have s: "sorted_wrt (\<lambda>a b. le a b \<noteq> le b a) (c # bs)" using Cons.prems by (auto simp: c_def)
  have ih: "r \<in> set (c # bs)" "\<forall>x \<in> set (c # bs). x = r \<or> (le r x \<and> \<not> le x r)" using Cons.IH [OF s] by (auto simp: r_def)
  have ab: "le a b \<noteq> le b a" using Cons.prems by auto
  have "x = r \<or> (le r x \<and> \<not> le x r)" if "x = a \<or> x = b" for x
  proof (cases "x = c")
    case False
    then have "le c x" "\<not> le x c" using that ab by (auto simp: c_def split: if_splits)
    moreover have "c = r \<or> (le r c \<and> \<not> le c r)" using ih(2) by auto
    ultimately show ?thesis using assms by metis
  qed (use ih in auto)
  moreover have "r \<in> set (b # a # bs)" using ih(1) by (auto simp: c_def split: if_splits)
  ultimately show ?case using ih(2) by (auto simp: r_def c_def)
qed simp

definition conflict_free :: "route list \<Rightarrow> bool" where
  "conflict_free rs \<longleftrightarrow> sorted_wrt (\<lambda>a b. \<not> conflict b a) rs"

lemma register_free: "conflict_free (old @ rs) \<Longrightarrow> register rs old = Some (old @ rs)"
proof (induction rs arbitrary: old)
  case (Cons r rs)
  have "\<not> list_ex (conflict r) old" using Cons.prems by (auto simp: conflict_free_def sorted_wrt_append list_ex_iff)
  then show ?case using Cons.IH [of "old @ [r]"] Cons.prems by (simp add: mux_Handle_def)
qed simp

lemma conflict_free_remove: "conflict_free (xs @ ys @ zs) \<Longrightarrow> conflict_free (xs @ zs)"
  by (auto simp: conflict_free_def sorted_wrt_append)

lemma picked:
  assumes "conflict_free rs" and "pick_route rs m xs = Some r"
  shows "r \<in> set rs \<and> route_match r m xs \<and> (\<forall>x \<in> set rs. route_match x m xs \<longrightarrow> x = r \<or> (route_le r x \<and> \<not> route_le x r))"
proof -
  let ?ms = "filter (\<lambda>r. route_match r m xs) rs"
  obtain b bs where b: "?ms = b # bs" "r = fold (\<lambda>a b. if route_le a b then a else b) bs b"
    using assms(2) by (auto simp: pick_route_def split: list.splits)
  have "sorted_wrt (\<lambda>a b. \<not> conflict b a) ?ms" using assms(1) by (simp add: conflict_free_def sorted_wrt_filter)
  then have "sorted_wrt (\<lambda>a b. route_le a b \<noteq> route_le b a) ?ms"
  proof (rule sorted_wrt_mono_rel [rotated])
    fix x y assume "x \<in> set ?ms" "y \<in> set ?ms" "\<not> conflict y x"
    then show "route_le x y \<noteq> route_le y x" using both_match [of y m xs x] by (auto simp: conflict_def)
  qed
  then have l: "r \<in> set ?ms \<and> (\<forall>x \<in> set ?ms. x = r \<or> (route_le r x \<and> \<not> route_le x r))"
    unfolding b using fold_least [of route_le b bs] route_le_trans by blast
  then show ?thesis by auto
qed

text \<open>The literal that tells the routes of one handler from those of the others.\<close>

fun route_key :: "segment list \<Rightarrow> string option" where
  "route_key (Lit a # b # Lit c # p) = (if a = ''api'' then Some (''api/'' @ c) else Some a)"
| "route_key (Lit a # p) = (if a = ''api'' then None else Some a)"
| "route_key p = None"

lemma route_key_differs: "route_key p = Some s \<Longrightarrow> route_key q = Some t \<Longrightarrow> s \<noteq> t \<Longrightarrow> \<not> seg_meet p q"
proof -
  assume k: "route_key p = Some s" "route_key q = Some t" "s \<noteq> t"
  have "(\<exists>b c r. p = Lit ''api'' # b # Lit c # r \<and> s = ''api/'' @ c) \<or> (\<exists>r. p = Lit s # r \<and> s \<noteq> ''api'')"
    using k(1) by (auto elim!: route_key.elims split: if_splits)
  moreover have "(\<exists>b c r. q = Lit ''api'' # b # Lit c # r \<and> t = ''api/'' @ c) \<or> (\<exists>r. q = Lit t # r \<and> t \<noteq> ''api'')"
    using k(2) by (auto elim!: route_key.elims split: if_splits)
  ultimately show ?thesis
  proof (elim disjE exE conjE)
    fix b c r b' c' r' assume "p = Lit ''api'' # b # Lit c # r" "s = ''api/'' @ c" "q = Lit ''api'' # b' # Lit c' # r'" "t = ''api/'' @ c'"
    then show ?thesis using k(3) by (cases b; cases b') auto
  qed (use k(3) in auto)
qed

definition group_ok :: "string list \<Rightarrow> route list \<Rightarrow> bool" where
  "group_ok ks rs \<longleftrightarrow> conflict_free rs \<and> list_all (\<lambda>r. case route_key (ro_path r) of None \<Rightarrow> False | Some k \<Rightarrow> k \<in> set ks) rs"

definition apart :: "route list \<Rightarrow> route list \<Rightarrow> bool" where
  "apart rs qs \<longleftrightarrow> list_all (\<lambda>a. list_all (\<lambda>b. \<not> conflict b a) qs) rs"

lemma groups_apart: "group_ok ks rs \<Longrightarrow> group_ok ls qs \<Longrightarrow> set ks \<inter> set ls = {} \<Longrightarrow> apart rs qs"
  unfolding apart_def list_all_iff
proof (intro ballI)
  fix a b assume g: "group_ok ks rs" "group_ok ls qs" "set ks \<inter> set ls = {}" and "a \<in> set rs" "b \<in> set qs"
  then obtain s t where "route_key (ro_path a) = Some s" "s \<in> set ks" "route_key (ro_path b) = Some t" "t \<in> set ls"
    by (fastforce simp: group_ok_def list_all_iff split: option.splits)
  then show "\<not> conflict b a" using g(3) route_key_differs [of "ro_path b" t "ro_path a" s] by (auto simp: conflict_def)
qed

lemma first_routes_ok: "group_ok [''health'', ''ready''] first_routes"
  by code_simp

lemma auth_routes_ok: "group_ok [''api/auth''] auth_routes"
  by code_simp

lemma metric_routes_ok: "group_ok [''metrics''] metric_routes"
  by code_simp

lemma user_routes_ok: "group_ok [''api/user'', ''api/users''] user_routes"
  by code_simp

lemma file_routes_ok: "group_ok [''api/files'', ''api/search''] file_routes"
  by code_simp

lemma folder_routes_ok: "group_ok [''api/folders''] folder_routes"
  by code_simp

lemma upload_routes_ok: "group_ok [''api/uploads''] upload_routes"
  by code_simp

lemma download_routes_ok: "group_ok [''api/files''] download_routes"
  by code_simp

lemma share_routes_ok: "group_ok [''api/files'', ''api/shares''] share_routes"
  by code_simp

lemma public_share_routes_ok: "group_ok [''s''] public_share_routes"
  by code_simp

lemma trash_routes_ok: "group_ok [''api/trash''] trash_routes"
  by code_simp

lemma version_routes_ok: "group_ok [''api/files''] version_routes"
  by code_simp

lemma admin_routes_ok: "group_ok [''api/admin''] admin_routes"
  by code_simp

lemma backup_routes_ok: "group_ok [''api/admin''] backup_routes"
  by code_simp

lemma media_routes_ok: "group_ok [''api/media''] media_routes"
  by code_simp

lemma preview_routes_ok: "group_ok [''api/preview''] preview_routes"
  by code_simp

lemma thumbnail_routes_ok: "group_ok [''api/thumbnails''] thumbnail_routes"
  by code_simp

lemma event_routes_ok: "group_ok [''api/events''] event_routes"
  by code_simp

lemma ws_routes_ok: "group_ok [''ws''] ws_routes"
  by code_simp

lemma sync_routes_ok: "group_ok [''api/sync''] sync_routes"
  by code_simp

lemma federation_routes_ok: "group_ok [''api/federation'', ''federation''] federation_routes"
  by code_simp

lemma webdav_routes_ok: "group_ok [''webdav''] webdav_routes"
  by code_simp

lemma file_routes_download_routes: "apart file_routes download_routes"
  by code_simp

lemma file_routes_share_routes: "apart file_routes share_routes"
  by code_simp

lemma file_routes_version_routes: "apart file_routes version_routes"
  by code_simp

lemma download_routes_share_routes: "apart download_routes share_routes"
  by code_simp

lemma download_routes_version_routes: "apart download_routes version_routes"
  by code_simp

lemma share_routes_version_routes: "apart share_routes version_routes"
  by code_simp

lemma admin_routes_backup_routes: "apart admin_routes backup_routes"
  by code_simp

lemmas group_lemmas = first_routes_ok auth_routes_ok metric_routes_ok user_routes_ok file_routes_ok folder_routes_ok upload_routes_ok download_routes_ok share_routes_ok public_share_routes_ok trash_routes_ok version_routes_ok admin_routes_ok backup_routes_ok media_routes_ok preview_routes_ok thumbnail_routes_ok event_routes_ok ws_routes_ok sync_routes_ok federation_routes_ok webdav_routes_ok

lemmas apart_lemmas = file_routes_download_routes file_routes_share_routes file_routes_version_routes download_routes_share_routes download_routes_version_routes share_routes_version_routes admin_routes_backup_routes

section \<open>The table of the server\<close>

lemma conflict_free_append: "conflict_free (xs @ ys) \<longleftrightarrow> conflict_free xs \<and> conflict_free ys \<and> apart xs ys"
  by (auto simp: conflict_free_def sorted_wrt_append apart_def list_all_iff)

lemma apart_concat: "apart rs (concat gs) \<longleftrightarrow> list_all (apart rs) gs"
  by (induction gs) (auto simp: apart_def list_all_iff)

lemma conflict_free_concat: "conflict_free (concat gs) \<longleftrightarrow> list_all conflict_free gs \<and> sorted_wrt apart gs"
  by (induction gs) (auto simp: conflict_free_append apart_concat list_all_iff, simp add: conflict_free_def)

lemma group_free: "group_ok ks rs \<Longrightarrow> conflict_free rs"
  by (simp add: group_ok_def)

text \<open>A route with a path of its own is more special than the static files, which take every path.\<close>

lemma static_apart: "\<forall>r \<in> set rs. ro_path r \<noteq> [Rest] \<and> ro_path r \<noteq> [] \<Longrightarrow> apart rs [static_route] \<and> apart [static_route] rs"
proof -
  assume a: "\<forall>r \<in> set rs. ro_path r \<noteq> [Rest] \<and> ro_path r \<noteq> []"
  have p: "ro_path static_route = [Rest]" "ro_method static_route = []" by code_simp+
  have "route_le r static_route \<and> \<not> route_le static_route r" if "r \<in> set rs" for r
  proof -
    obtain x q where x: "ro_path r = x # q" using a \<open>r \<in> set rs\<close> by (cases "ro_path r") auto
    then have "x # q \<noteq> [Rest]" using a that by auto
    then show ?thesis using x by (cases x; cases q) (auto simp: route_le_def method_le_def p)
  qed
  then show ?thesis by (auto simp: apart_def list_all_iff conflict_def)
qed

lemma keyed_static: "group_ok ks rs \<Longrightarrow> apart rs [static_route] \<and> apart [static_route] rs"
  by (rule static_apart) (auto simp: group_ok_def list_all_iff split: option.splits)

lemma static_free: "conflict_free [static_route]"
  by (simp add: conflict_free_def)

lemma setup_free: "conflict_free (setupRoutes True)"
proof -
  have s: "apart rs [static_route]" "apart [static_route] rs" if "group_ok ks rs" for ks rs using keyed_static [OF that] by auto
  have f: "list_all conflict_free [first_routes, auth_routes, metric_routes, user_routes, file_routes, folder_routes, upload_routes,
      download_routes, share_routes, public_share_routes, trash_routes, version_routes, admin_routes, backup_routes, media_routes, preview_routes,
      thumbnail_routes, event_routes, ws_routes, sync_routes, federation_routes, [static_route], webdav_routes]"
    using group_lemmas [THEN group_free] static_free by simp
  show ?thesis
    unfolding setupRoutes_def conflict_free_concat
    apply (intro conjI)
    subgoal using f by simp
    subgoal
      apply simp
      apply (intro conjI; (rule apart_lemmas | (rule s, rule group_lemmas) | (rule groups_apart, rule group_lemmas, rule group_lemmas, simp)))
      done
    done
qed

lemma static_matches: "route_match static_route m (s # path)"
proof -
  have "ro_path static_route = [Rest]" "ro_method static_route = []" by code_simp+
  then show ?thesis by (simp add: route_match_def method_match_def)
qed

lemma picks_some:
  assumes "q \<in> set (filter (\<lambda>r. route_match r m xs) rs)"
  obtains r where "pick_route rs m xs = Some r"
  using assms by (cases "filter (\<lambda>r. route_match r m xs) rs") (auto simp: pick_route_def)

lemmas route_tables = first_routes_def auth_routes_def metric_routes_def user_routes_def file_routes_def folder_routes_def upload_routes_def
  download_routes_def share_routes_def public_share_routes_def trash_routes_def version_routes_def admin_routes_def pprof_routes_def
  backup_routes_def media_routes_def preview_routes_def thumbnail_routes_def event_routes_def ws_routes_def sync_routes_def
  federation_routes_def webdav_routes_def static_route_def

lemma setup_conflict_free: "conflict_free (setupRoutes federated)"
proof (cases federated)
  case False
  define a where "a = concat [first_routes, auth_routes, metric_routes, user_routes, file_routes, folder_routes, upload_routes, download_routes, share_routes,
       public_share_routes, trash_routes, version_routes, admin_routes, backup_routes, media_routes, preview_routes, thumbnail_routes,
       event_routes, ws_routes, sync_routes]"
  have "setupRoutes True = a @ federation_routes @ ([static_route] @ webdav_routes)" "setupRoutes False = a @ ([static_route] @ webdav_routes)"
    by (simp_all add: setupRoutes_def a_def)
  then show ?thesis using False setup_free conflict_free_remove [of a federation_routes] by simp
qed (simp add: setup_free)

text \<open>C40: no two routes of the server conflict, so that none of its registrations panics, and every request is served by the one
  route that matches it and is more special than every other route that does.\<close>

theorem routing_is_determined:
  "register (setupRoutes federated) [] = Some (setupRoutes federated)
   \<and> (\<exists>r. pick_route (setupRoutes federated) m (s # path) = Some r \<and> r \<in> set (setupRoutes federated) \<and> route_match r m (s # path)
        \<and> (\<forall>x \<in> set (setupRoutes federated). route_match x m (s # path) \<longrightarrow> x = r \<or> (route_le r x \<and> \<not> route_le x r)))"
proof (intro conjI)
  show "register (setupRoutes federated) [] = Some (setupRoutes federated)"
    using register_free [of "[]"] setup_conflict_free by simp
  have "static_route \<in> set (filter (\<lambda>r. route_match r m (s # path)) (setupRoutes federated))"
    by (simp add: setupRoutes_def static_matches)
  then obtain r where "pick_route (setupRoutes federated) m (s # path) = Some r" by (rule picks_some)
  then show "\<exists>r. pick_route (setupRoutes federated) m (s # path) = Some r \<and> r \<in> set (setupRoutes federated) \<and> route_match r m (s # path)
        \<and> (\<forall>x \<in> set (setupRoutes federated). route_match x m (s # path) \<longrightarrow> x = r \<or> (route_le r x \<and> \<not> route_le x r))"
    using picked [OF setup_conflict_free] by blast
qed

theorem routing_is_determined_witness:
  "\<exists>r. pick_route (setupRoutes True) ''GET'' [''api'', ''v1'', ''files'', ''recent''] = Some r \<and> route_match r ''GET'' [''api'', ''v1'', ''files'', ''recent'']"
  using routing_is_determined [of True "''GET''" "''api''" "[''v1'', ''files'', ''recent'']"] by blast

text \<open>A path of the API that no handler knows gets the page of the web client, for every method; the client's
  downloads are among them.\<close>

lemma keyed_match:
  assumes "group_ok ks rs" and "r \<in> set rs" and "route_match r m (''api'' # v # c # path)"
  shows "''api/'' @ c \<in> set ks"
proof -
  obtain k where k: "route_key (ro_path r) = Some k" "k \<in> set ks" using assms(1,2) by (fastforce simp: group_ok_def list_all_iff split: option.splits)
  have "seg_match (ro_path r) (''api'' # v # c # path)" using assms(3) by (simp add: route_match_def)
  then show ?thesis
  proof (cases "ro_path r" rule: route_key.cases)
    case (1 a b d p)
    then show ?thesis using k \<open>seg_match (ro_path r) (''api'' # v # c # path)\<close> by (cases b) (auto split: if_splits)
  qed (use k in \<open>auto split: if_splits\<close>)
qed

definition api_keys :: "string list" where
  "api_keys = map (\<lambda>k. ''api/'' @ k) [''auth'', ''user'', ''users'', ''files'', ''search'', ''folders'', ''uploads'', ''shares'', ''trash'', ''admin'', ''media'',
     ''preview'', ''thumbnails'', ''events'', ''sync'', ''federation'']"

lemma unknown_api_path:
  assumes "''api/'' @ c \<notin> set api_keys"
  shows "pick_route (setupRoutes federated) m (''api'' # v # c # path) = Some static_route"
proof -
  let ?xs = "''api'' # v # c # path"
  have n: "\<not> route_match r m ?xs" if "group_ok ks rs" "r \<in> set rs" "set ks \<subseteq> set api_keys \<union> {''health'', ''ready'', ''metrics'', ''s'', ''ws'', ''webdav'', ''federation''}" for ks rs r
    using keyed_match [OF that(1,2), of m v c path] that(3) assms by auto
  have f: "filter (\<lambda>r. route_match r m ?xs) rs = []" if "group_ok ks rs" "set ks \<subseteq> set api_keys \<union> {''health'', ''ready'', ''metrics'', ''s'', ''ws'', ''webdav'', ''federation''}" for ks rs
    using n [OF that(1) _ that(2)] by (auto simp: filter_empty_conv)
  have "filter (\<lambda>r. route_match r m ?xs) (setupRoutes federated) = [static_route]"
    by (simp add: setupRoutes_def static_matches f [OF first_routes_ok] f [OF auth_routes_ok] f [OF metric_routes_ok] f [OF user_routes_ok]
        f [OF file_routes_ok] f [OF folder_routes_ok] f [OF upload_routes_ok] f [OF download_routes_ok] f [OF share_routes_ok]
        f [OF public_share_routes_ok] f [OF trash_routes_ok] f [OF version_routes_ok] f [OF admin_routes_ok] f [OF backup_routes_ok]
        f [OF media_routes_ok] f [OF preview_routes_ok] f [OF thumbnail_routes_ok] f [OF event_routes_ok] f [OF ws_routes_ok]
        f [OF sync_routes_ok] f [OF federation_routes_ok] f [OF webdav_routes_ok] api_keys_def)
  then show ?thesis by (simp add: pick_route_def)
qed

lemma client_downloads_get_the_page:
  "pick_route (setupRoutes federated) m [''api'', ''v1'', ''downloads'', fileID] = Some static_route"
  by (rule unknown_api_path) (simp add: api_keys_def)

text \<open>The routes that serve strangers.\<close>

definition open_handlers :: "string list" where
  "open_handlers = [''handleHealth'', ''handleReady'', ''login'', ''verifyTOTP'', ''refresh'', ''getShareInfo'', ''downloadSharedFile'',
       ''streamSharedFile'', ''handleWebSocket'', ''handleDiscover'', ''handleMessage'', ''handleJoin'', ''FileServer'']"

lemma open_routes: "list_all (\<lambda>r. (ro_guard r = Public \<or> ro_guard r = Limited) \<longrightarrow> ro_handler r \<in> set open_handlers) (setupRoutes federated)"
proof -
  have g: "ro_guard (route p g h) = g" "ro_handler (route p g h) = h" for p g h by (auto simp: route_def Let_def)
  show ?thesis by (simp add: setupRoutes_def route_tables g open_handlers_def)
qed

text \<open>Readiness and health differ only in what they look at and how they say it.\<close>

lemma ready_when_healthy: "fst (snd (handleHealth d s)) = ''healthy'' \<Longrightarrow> fst (handleReady d) = 200"
  by (cases d; cases s) (simp_all add: handleHealth_def handleReady_def Let_def)

lemma tls_needs_files: "tl_enabled c \<Longrightarrow> tl_cert c = [] \<Longrightarrow> \<exists>e. server_Start c l = Some e"
  by (simp add: server_Start_def)

end
