(* ===== verification/Metrics.thy ===== *)
theory Metrics
  imports Http
begin

text \<open>
  The metrics of the server (\<^verbatim>\<open>src/internal/server/metrics.go\<close>): counters that live in a registry of the process,
  the two texts that show them, and the greatest number of open sockets, which many connections
  update at once.  What the runtime and the connection pool report are parameters.
\<close>

section \<open>Counters\<close>

text \<open>The variables of \<^verbatim>\<open>expvar\<close>, which outlive the collector, and the numbers it counts by atomic additions.\<close>

record metrics =
  me_vars :: "(string \<times> int) list"
  me_durations :: "(string \<times> int) list"
  me_active :: int
  me_sockets :: int
  me_sockets_max :: int

definition safeNewInt :: "string \<Rightarrow> (string \<times> int) list \<Rightarrow> (string \<times> int) list" where
  "safeNewInt n vs = (case al_get vs n of Some v \<Rightarrow> vs | None \<Rightarrow> al_put vs n 0)"

definition counter_names :: "string list" where
  "counter_names = [''http_requests_total'', ''http_requests_errors_total'', ''storage_bytes_uploaded_total'', ''storage_bytes_downloaded_total'',
     ''storage_chunks_total'', ''storage_chunks_deduped_total'', ''auth_logins_total'', ''auth_logins_failed_total'', ''auth_tokens_issued_total'',
     ''auth_tokens_refreshed_total'', ''websocket_messages_sent_total'', ''websocket_messages_received_total'']"

definition NewMetrics :: "(string \<times> int) list \<Rightarrow> (string \<times> int) list \<Rightarrow> metrics" where
  "NewMetrics vars durations =
     \<lparr>me_vars = fold safeNewInt counter_names vars, me_durations = durations, me_active = 0, me_sockets = 0, me_sockets_max = 0\<rparr>"

definition counter :: "metrics \<Rightarrow> string \<Rightarrow> int" where
  "counter m n = (case al_get (me_vars m) n of None \<Rightarrow> 0 | Some v \<Rightarrow> v)"

definition add_to :: "string \<Rightarrow> int \<Rightarrow> metrics \<Rightarrow> metrics" where
  "add_to n k m = m\<lparr>me_vars := al_put (me_vars m) n (wrap64 (counter m n + k))\<rparr>"

definition duration_key :: "string \<Rightarrow> string \<Rightarrow> int \<Rightarrow> string" where
  "duration_key meth path status = meth @ ''_'' @ path @ ''_'' @ dec_int (go_div status 100) @ ''xx''"

definition RecordRequest :: "string \<Rightarrow> string \<Rightarrow> int \<Rightarrow> int \<Rightarrow> metrics \<Rightarrow> metrics" where
  "RecordRequest meth path duration status m =
     (let m1 = add_to ''http_requests_total'' 1 m; k = duration_key meth path status;
          old = (case al_get (me_durations m1) k of None \<Rightarrow> 0 | Some v \<Rightarrow> v);
          m2 = m1\<lparr>me_durations := al_put (me_durations m1) k (wrap64 (old + go_div duration (10 ^ 6)))\<rparr>
      in if status \<ge> 400 then add_to ''http_requests_errors_total'' 1 m2 else m2)"

definition RecordBytesUploaded :: "int \<Rightarrow> metrics \<Rightarrow> metrics" where
  "RecordBytesUploaded n m = add_to ''storage_bytes_uploaded_total'' n m"

definition RecordBytesDownloaded :: "int \<Rightarrow> metrics \<Rightarrow> metrics" where
  "RecordBytesDownloaded n m = add_to ''storage_bytes_downloaded_total'' n m"

definition RecordChunk :: "bool \<Rightarrow> metrics \<Rightarrow> metrics" where
  "RecordChunk deduplicated m =
     (let m1 = add_to ''storage_chunks_total'' 1 m in if deduplicated then add_to ''storage_chunks_deduped_total'' 1 m1 else m1)"

definition RecordLogin :: "bool \<Rightarrow> metrics \<Rightarrow> metrics" where
  "RecordLogin success m = (let m1 = add_to ''auth_logins_total'' 1 m in if \<not> success then add_to ''auth_logins_failed_total'' 1 m1 else m1)"

definition RecordToken :: "bool \<Rightarrow> metrics \<Rightarrow> metrics" where
  "RecordToken refresh m = add_to (if refresh then ''auth_tokens_refreshed_total'' else ''auth_tokens_issued_total'') 1 m"

definition RecordWSMessage :: "bool \<Rightarrow> metrics \<Rightarrow> metrics" where
  "RecordWSMessage sent m = add_to (if sent then ''websocket_messages_sent_total'' else ''websocket_messages_received_total'') 1 m"

definition IncActiveRequest :: "metrics \<Rightarrow> metrics" where
  "IncActiveRequest m = m\<lparr>me_active := wrap64 (me_active m + 1)\<rparr>"

definition DecActiveRequest :: "metrics \<Rightarrow> metrics" where
  "DecActiveRequest m = m\<lparr>me_active := wrap64 (me_active m - 1)\<rparr>"

section \<open>The texts\<close>

text \<open>What the runtime and the pool report, and the clock.\<close>

record runtime_stats =
  rs_now :: int
  rs_goroutines :: int
  rs_memory :: "(string \<times> int) list"
  rs_pool :: "(string \<times> int) list option"

definition reported :: "(string \<times> int) list \<Rightarrow> string \<Rightarrow> int" where
  "reported xs k = (case al_get xs k of None \<Rightarrow> 0 | Some v \<Rightarrow> v)"

definition newline :: string where
  "newline = [CHR 0x0A]"

definition json_member :: "string \<Rightarrow> string \<Rightarrow> int \<Rightarrow> string" where
  "json_member indent k v = indent @ [CHR 0x22] @ k @ [CHR 0x22] @ '': '' @ dec_int v"

definition json_block :: "string \<Rightarrow> string \<Rightarrow> string list \<Rightarrow> string" where
  "json_block indent k members = indent @ [CHR 0x22] @ k @ [CHR 0x22] @ '': {'' @ newline @ join_with ('','' @ newline) members @ newline @ indent @ ''}''"

definition MetricsHandler :: "runtime_stats \<Rightarrow> metrics \<Rightarrow> string" where
  "MetricsHandler R m =
     (let mem = map (\<lambda>k. json_member ''      '' k (reported (rs_memory R) k)) [''alloc_bytes'', ''total_alloc_bytes'', ''sys_bytes'', ''heap_alloc_bytes'',
            ''heap_sys_bytes'', ''heap_inuse_bytes'', ''gc_count'', ''gc_pause_ns''];
          pool = (case rs_pool R of None \<Rightarrow> []
            | Some p \<Rightarrow> [json_block ''  '' ''database'' (map (\<lambda>k. json_member ''    '' k (reported p k)) [''max_open_connections'', ''open_connections'',
                 ''in_use'', ''idle'', ''wait_count'', ''wait_duration_ms''])]);
          app = [json_member ''    '' ''http_requests_total'' (counter m ''http_requests_total''),
            json_member ''    '' ''http_requests_active'' (me_active m)]
            @ map (\<lambda>k. json_member ''    '' k (counter m k)) [''http_requests_errors_total'', ''storage_bytes_uploaded_total'',
                ''storage_bytes_downloaded_total'', ''auth_logins_total'', ''auth_logins_failed_total'']
            @ [json_member ''    '' ''websocket_connections_active'' (me_sockets m), json_member ''    '' ''websocket_connections_max'' (me_sockets_max m)]
      in ''{'' @ newline
         @ join_with ('','' @ newline)
             ([json_member ''  '' ''timestamp'' (unix_seconds (rs_now R)),
               ''  '' @ [CHR 0x22] @ ''version'' @ [CHR 0x22] @ '': '' @ [CHR 0x22] @ ''0.1.0'' @ [CHR 0x22],
               json_block ''  '' ''runtime'' [json_member ''    '' ''goroutines'' (rs_goroutines R), json_block ''    '' ''memory'' mem]]
              @ pool @ [json_block ''  '' ''application'' app])
         @ newline @ ''}'' @ newline)"

definition writeMetric :: "string \<times> string \<times> string \<times> int \<Rightarrow> string" where
  "writeMetric x = (case x of (n, help, typ, v) \<Rightarrow>
     ''# HELP '' @ n @ '' '' @ help @ newline @ ''# TYPE '' @ n @ '' '' @ typ @ newline @ n @ '' '' @ dec_int v @ newline)"

definition shown_metrics :: "runtime_stats \<Rightarrow> metrics \<Rightarrow> (string \<times> string \<times> string \<times> int) list" where
  "shown_metrics R m =
     [(''go_goroutines'', ''Number of goroutines'', ''gauge'', rs_goroutines R),
      (''go_memory_alloc_bytes'', ''Bytes allocated'', ''gauge'', reported (rs_memory R) ''alloc_bytes''),
      (''go_memory_sys_bytes'', ''Bytes obtained from system'', ''gauge'', reported (rs_memory R) ''sys_bytes''),
      (''go_gc_count'', ''Number of GC cycles'', ''counter'', reported (rs_memory R) ''gc_count''),
      (''vaultdrift_http_requests_total'', ''Total HTTP requests'', ''counter'', counter m ''http_requests_total''),
      (''vaultdrift_http_requests_active'', ''Active HTTP requests'', ''gauge'', me_active m),
      (''vaultdrift_http_requests_errors_total'', ''Total HTTP errors'', ''counter'', counter m ''http_requests_errors_total''),
      (''vaultdrift_storage_bytes_uploaded_total'', ''Total bytes uploaded'', ''counter'', counter m ''storage_bytes_uploaded_total''),
      (''vaultdrift_storage_bytes_downloaded_total'', ''Total bytes downloaded'', ''counter'', counter m ''storage_bytes_downloaded_total''),
      (''vaultdrift_storage_chunks_total'', ''Total chunks processed'', ''counter'', counter m ''storage_chunks_total''),
      (''vaultdrift_storage_chunks_deduped_total'', ''Deduplicated chunks'', ''counter'', counter m ''storage_chunks_deduped_total''),
      (''vaultdrift_auth_logins_total'', ''Total login attempts'', ''counter'', counter m ''auth_logins_total''),
      (''vaultdrift_auth_logins_failed_total'', ''Failed login attempts'', ''counter'', counter m ''auth_logins_failed_total''),
      (''vaultdrift_auth_tokens_issued_total'', ''Tokens issued'', ''counter'', counter m ''auth_tokens_issued_total''),
      (''vaultdrift_auth_tokens_refreshed_total'', ''Tokens refreshed'', ''counter'', counter m ''auth_tokens_refreshed_total''),
      (''vaultdrift_websocket_connections_active'', ''Active WebSocket connections'', ''gauge'', me_sockets m),
      (''vaultdrift_websocket_connections_max'', ''Max concurrent WebSocket connections'', ''gauge'', me_sockets_max m),
      (''vaultdrift_websocket_messages_sent_total'', ''WebSocket messages sent'', ''counter'', counter m ''websocket_messages_sent_total''),
      (''vaultdrift_websocket_messages_received_total'', ''WebSocket messages received'', ''counter'', counter m ''websocket_messages_received_total'')]
     @ (case rs_pool R of None \<Rightarrow> []
        | Some p \<Rightarrow> [(''vaultdrift_db_connections_open'', ''Open database connections'', ''gauge'', reported p ''open_connections''),
            (''vaultdrift_db_connections_in_use'', ''In-use database connections'', ''gauge'', reported p ''in_use''),
            (''vaultdrift_db_connections_idle'', ''Idle database connections'', ''gauge'', reported p ''idle''),
            (''vaultdrift_db_wait_count_total'', ''Total connection waits'', ''counter'', reported p ''wait_count'')])"

definition PrometheusHandler :: "runtime_stats \<Rightarrow> metrics \<Rightarrow> string" where
  "PrometheusHandler R m = concat (map writeMetric (shown_metrics R m))"

section \<open>Open sockets\<close>

text \<open>Where a connection is in \<^verbatim>\<open>RecordWSConnection\<close>: about to load the maximum, with the count it made; about
  to swap it, with the maximum it loaded.\<close>

datatype ws_phase = WsIdle | WsLoading int | WsSwapping int int

record ws_counts =
  wc_now :: int
  wc_max :: int
  wc_phase :: "nat \<Rightarrow> ws_phase"
  wc_peak :: int

text \<open>\<open>wc_peak\<close> is the greatest count that an opening has made; no step reads it.\<close>

inductive ws_count_step :: "ws_counts \<Rightarrow> ws_counts \<Rightarrow> bool" where
  ws_open: "wc_phase s i = WsIdle \<Longrightarrow> n = wrap64 (wc_now s + 1)
     \<Longrightarrow> ws_count_step s (s\<lparr>wc_now := n, wc_phase := (wc_phase s)(i := WsLoading n), wc_peak := max (wc_peak s) n\<rparr>)"
| ws_close: "ws_count_step s (s\<lparr>wc_now := wrap64 (wc_now s - 1)\<rparr>)"
| ws_enough: "wc_phase s i = WsLoading n \<Longrightarrow> n \<le> wc_max s \<Longrightarrow> ws_count_step s (s\<lparr>wc_phase := (wc_phase s)(i := WsIdle)\<rparr>)"
| ws_load: "wc_phase s i = WsLoading n \<Longrightarrow> \<not> n \<le> wc_max s \<Longrightarrow> ws_count_step s (s\<lparr>wc_phase := (wc_phase s)(i := WsSwapping n (wc_max s))\<rparr>)"
| ws_swap: "wc_phase s i = WsSwapping n mx \<Longrightarrow> wc_max s = mx
     \<Longrightarrow> ws_count_step s (s\<lparr>wc_max := n, wc_phase := (wc_phase s)(i := WsIdle)\<rparr>)"
| ws_retry: "wc_phase s i = WsSwapping n mx \<Longrightarrow> wc_max s \<noteq> mx \<Longrightarrow> ws_count_step s (s\<lparr>wc_phase := (wc_phase s)(i := WsLoading n)\<rparr>)"

inductive_simps ws_count_step_iff: "ws_count_step s s'"

inductive ws_counted :: "ws_counts \<Rightarrow> bool" where
  wc_start: "ws_counted \<lparr>wc_now = 0, wc_max = 0, wc_phase = (\<lambda>i. WsIdle), wc_peak = 0\<rparr>"
| wc_next: "ws_counted s \<Longrightarrow> ws_count_step s s' \<Longrightarrow> ws_counted s'"

fun pending :: "ws_phase \<Rightarrow> int option" where
  "pending WsIdle = None"
| "pending (WsLoading n) = Some n"
| "pending (WsSwapping n mx) = Some n"

definition peak_inv :: "ws_counts \<Rightarrow> bool" where
  "peak_inv s \<longleftrightarrow> wc_max s \<le> wc_peak s \<and> (\<forall>i n. pending (wc_phase s i) = Some n \<longrightarrow> n \<le> wc_peak s)
     \<and> (wc_peak s = wc_max s \<or> (\<exists>i. pending (wc_phase s i) = Some (wc_peak s)))
     \<and> (\<forall>i n mx. wc_phase s i = WsSwapping n mx \<longrightarrow> mx < n)"

lemma peak_same_pending:
  assumes "peak_inv s" and "pending x = pending (wc_phase s i)" and "\<forall>n mx. x = WsSwapping n mx \<longrightarrow> mx < n"
  shows "peak_inv (s\<lparr>wc_phase := (wc_phase s)(i := x)\<rparr>)"
proof -
  have "pending (((wc_phase s)(i := x)) j) = pending (wc_phase s j)" for j using assms(2) by simp
  then show ?thesis using assms(1,3) unfolding peak_inv_def by auto
qed

lemma peak_inv_step:
  assumes "ws_count_step s s'" and "peak_inv s"
  shows "peak_inv s'"
  using assms
proof (cases rule: ws_count_step.cases)
  case (ws_open i n)
  have "wc_peak s = wc_max s \<or> (\<exists>j. pending (wc_phase s j) = Some (wc_peak s) \<and> j \<noteq> i)"
    using assms(2) ws_open(2) by (fastforce simp: peak_inv_def)
  then show ?thesis using assms(2) ws_open by (fastforce simp: peak_inv_def max_def)
next
  case (ws_enough i n)
  have "wc_peak s = wc_max s \<or> (\<exists>j. j \<noteq> i \<and> pending (wc_phase s j) = Some (wc_peak s))"
  proof -
    have "wc_peak s = wc_max s" if "pending (wc_phase s i) = Some (wc_peak s)"
      using that assms(2) ws_enough(2,3) by (simp add: peak_inv_def)
    moreover have "wc_peak s = wc_max s \<or> (\<exists>j. pending (wc_phase s j) = Some (wc_peak s))" using assms(2) by (simp add: peak_inv_def)
    ultimately show ?thesis by metis
  qed
  then show ?thesis using assms(2) ws_enough(1) by (auto simp: peak_inv_def)
next
  case (ws_load i n)
  then show ?thesis using peak_same_pending [OF assms(2), of "WsSwapping n (wc_max s)" i] by simp
next
  case (ws_swap i n mx)
  have p: "pending (wc_phase s i) = Some n" using ws_swap(2) by simp
  have b: "n \<le> wc_peak s" "mx < n" using p ws_swap(2) assms(2) unfolding peak_inv_def by blast+
  have "wc_peak s = n \<or> (\<exists>j. j \<noteq> i \<and> pending (wc_phase s j) = Some (wc_peak s))"
  proof -
    have "wc_peak s = wc_max s \<or> (\<exists>j. pending (wc_phase s j) = Some (wc_peak s))" using assms(2) by (simp add: peak_inv_def)
    then show ?thesis using b ws_swap(3) p by (metis option.inject order.strict_iff_not)
  qed
  then show ?thesis using ws_swap(1) b assms(2) by (auto simp: peak_inv_def)
next
  case (ws_retry i n mx)
  then show ?thesis using peak_same_pending [OF assms(2), of "WsLoading n" i] by simp
qed (auto simp: peak_inv_def)

lemma ws_counted_inv: "ws_counted s \<Longrightarrow> peak_inv s"
proof (induction rule: ws_counted.induct)
  case wc_start
  then show ?case by (simp add: peak_inv_def)
next
  case (wc_next s s')
  then show ?case using peak_inv_step by blast
qed

text \<open>Whatever the interleaving of the connections, when none of them is between its atomic steps the maximum is the
  greatest count that any of them has made.\<close>

theorem socket_maximum_is_the_peak: "ws_counted s \<Longrightarrow> \<forall>i. wc_phase s i = WsIdle \<Longrightarrow> wc_max s = wc_peak s"
  using ws_counted_inv [of s] by (auto simp: peak_inv_def)

section \<open>The counters\<close>

lemma counter_add: "counter (add_to n k m) j = (if j = n then wrap64 (counter m n + k) else counter m j)"
  by (simp add: counter_def add_to_def al_simps)

text \<open>An error is counted among the requests and among the errors, anything else among the requests only.\<close>

lemma request_counts:
  "counter (RecordRequest mt p d st m) ''http_requests_total'' = wrap64 (counter m ''http_requests_total'' + 1)"
  "counter (RecordRequest mt p d st m) ''http_requests_errors_total''
     = (if st \<ge> 400 then wrap64 (counter m ''http_requests_errors_total'' + 1) else counter m ''http_requests_errors_total'')"
proof -
  have c: "counter (x\<lparr>me_durations := v\<rparr>) n = counter x n" for x v n by (simp add: counter_def)
  show "counter (RecordRequest mt p d st m) ''http_requests_total'' = wrap64 (counter m ''http_requests_total'' + 1)"
    and "counter (RecordRequest mt p d st m) ''http_requests_errors_total''
     = (if st \<ge> 400 then wrap64 (counter m ''http_requests_errors_total'' + 1) else counter m ''http_requests_errors_total'')"
    by (simp_all add: RecordRequest_def Let_def counter_add c)
qed

text \<open>A collector that is made anew goes on from the counters of the process.\<close>

lemma new_collector_keeps_counters: "al_get vars n = Some v \<Longrightarrow> counter (NewMetrics vars ds) n = v"
proof -
  have "al_get vars n = Some v \<Longrightarrow> al_get (fold safeNewInt ns vars) n = Some v" for ns
  proof (induction ns arbitrary: vars)
    case (Cons a ns)
    have "al_get (safeNewInt a vars) n = Some v" using Cons.prems by (auto simp: safeNewInt_def al_simps split: option.split)
    then show ?case using Cons.IH by simp
  qed simp
  then show "al_get vars n = Some v \<Longrightarrow> counter (NewMetrics vars ds) n = v" by (simp add: counter_def NewMetrics_def)
qed

end
