(* ===== verification/Spec2Isabelle.thy ===== *)
theory Spec2Isabelle
  imports Prelude Vector_Clock Merkle Chunker Circuit Worker Store Paths Vfs Storage Gc Upload Content Devices Engine Sync_Server Crypto Encrypted Users Ids Tokens Auth Rbac
    Http Download Shares Public_Shares Events Middleware Files_Api Maintenance Accounts_Api Webdav
    Websocket Media Previews Federation Backup Config Fuse Cli Remote Schema Routing Metrics
begin

text \<open>
  VaultDrift is a self-hosted file store written in Go.  Files are cut into content-defined chunks, chunks
  are stored once in a blob backend under the hash of their bytes, and rows in a SQLite database describe
  accounts, files, versions, chunks with their reference counts, shares, devices and peers.  An HTTP
  server offers an API, WebDAV, events and public links; devices synchronise by Merkle trees and vector
  clocks; background workers collect what is not referred to.  A client, a FUSE mount and a
  federation of servers stand beside it.  All paths below are under \<^verbatim>\<open>src/internal\<close>.

  How the code is modelled.  A struct is a record with the fields that matter, an enumeration a
  datatype, a table of the database the list of its rows with the constraints and cascades of the
  schema, a Go map an association list in the order of insertion where the order is visible.  A call
  takes the state it uses and returns the new one.  An error is a value (\<open>'a result\<close>, a status, an
  option); a panic and an endless run are the constructors \<open>Panics\<close> and \<open>Diverges\<close> of \<open>outcome\<close>.
  Integers of Go are words where their bits are used and ints wrapped by \<open>wrap64\<close> elsewhere; times are
  nanoseconds.  What many goroutines do at once is an inductive step relation whose steps are the atomic
  operations of the code.  Code that is not in the repository is a parameter with its documented laws as
  hypotheses: SHA-256, HMAC, AES-GCM, Argon2, X25519, the random source, the clock, the file
  system and its faults, gzip and tar, image and video tools, HTTP services, the kernel's side of FUSE.

  The theories, in the order in which they build on each other.

  Values and structures.
  \<^item> \<open>Prelude\<close>: outcomes, machine integers, the functions of package strings, maps, times and the lemmas that all components share.
  \<^item> \<open>Vector_Clock\<close>: \<^verbatim>\<open>sync/vector.go\<close>. Comparison is the pointwise causal order, merging a least upper bound; the locale \<open>logical_clock\<close> states what the engine relies on.
  \<^item> \<open>Merkle\<close>: \<^verbatim>\<open>sync/merkle.go\<close>. Building flattens back to the files; differences; inputs on which building never returns.
  \<^item> \<open>Chunker\<close>: \<^verbatim>\<open>chunk/chunker.go\<close>, \<^verbatim>\<open>manifest.go\<close>. The chunks of any reader partition its bytes within the size bounds.
  \<^item> \<open>Circuit\<close>: \<^verbatim>\<open>circuit/breaker.go\<close>. One caller and interleaved callers; a refinement of a small specification of a breaker; retries are bounded.
  \<^item> \<open>Worker\<close>: \<^verbatim>\<open>worker/pool.go\<close>. The queue implements the locale \<open>job_queue\<close>; no step of the pool loses or doubles a job.

  The database and what is kept in it.
  \<^item> \<open>Store\<close>: \<^verbatim>\<open>db/files.go\<close>, \<^verbatim>\<open>manifests.go\<close>, \<^verbatim>\<open>chunks.go\<close>, \<^verbatim>\<open>types.go\<close>. Each statement over the tables; the invariant \<open>db_ok\<close>; the locale \<open>ref_store\<close> of reference counts.
  \<^item> \<open>Paths\<close>, \<open>Vfs\<close>: \<^verbatim>\<open>vfs\<close>. Clean paths, and files and folders with the errors and the endless walks of cyclic trees.
  \<^item> \<open>Storage\<close>, \<open>Gc\<close>, \<open>Upload\<close>, \<open>Content\<close>: \<^verbatim>\<open>storage/local.go\<close>, \<^verbatim>\<open>worker/gc.go\<close>, \<^verbatim>\<open>server/handlers_upload.go\<close>. The local backend under any schedule of faults implements the locale \<open>blob_store\<close>; what uploads, file operations and the collector keep of the content together.
  \<^item> \<open>Devices\<close>, \<open>Engine\<close>, \<open>Sync_Server\<close>: \<^verbatim>\<open>db/syncstate.go\<close>, \<^verbatim>\<open>sync/engine.go\<close>, \<^verbatim>\<open>server/handlers_sync.go\<close>. Negotiation, pushes, pulls and commits over the store.
  \<^item> \<open>Crypto\<close>, \<open>Encrypted\<close>: \<^verbatim>\<open>crypto\<close>, \<^verbatim>\<open>chunk/encrypted.go\<close>. Encrypted files read back; the locale \<open>ready_store\<close> extends \<open>blob_store\<close> by a backend without faults.
  \<^item> \<open>Schema\<close>: \<^verbatim>\<open>db/db.go\<close>, \<^verbatim>\<open>schema.go\<close>. The statements of the schema as data, migrations and seeding with faults, opening again.

  Accounts and access.
  \<^item> \<open>Users\<close>, \<open>Ids\<close>, \<open>Tokens\<close>: \<^verbatim>\<open>db/users.go\<close>, \<^verbatim>\<open>sessions.go\<close>, \<^verbatim>\<open>apitokens.go\<close>, \<^verbatim>\<open>util\<close>, \<^verbatim>\<open>auth/jwt.go\<close>, \<^verbatim>\<open>password.go\<close>, \<^verbatim>\<open>totp.go\<close>. Rows, encodings with their round trips, signed tokens, a JSON reader and writer.
  \<^item> \<open>Auth\<close>, \<open>Rbac\<close>: \<^verbatim>\<open>auth/auth.go\<close>, \<^verbatim>\<open>token.go\<close>, \<^verbatim>\<open>rbac.go\<close>, \<^verbatim>\<open>server/middleware_auth.go\<close>. Login with its delays and locks, sessions, permissions and their cache.
  \<^item> \<open>Accounts_Api\<close>, \<open>Maintenance\<close>: the requests on accounts and of administrators (\<^verbatim>\<open>server/handlers_auth.go\<close>, \<^verbatim>\<open>handlers_user.go\<close>, \<^verbatim>\<open>handlers_admin.go\<close>), audit, settings, seed data (\<^verbatim>\<open>db\<close>) and the worker manager (\<^verbatim>\<open>worker/manager.go\<close>).

  The server.
  \<^item> \<open>Http\<close>, \<open>Middleware\<close>, \<open>Routing\<close>, \<open>Metrics\<close>: \<^verbatim>\<open>server/context.go\<close>, \<^verbatim>\<open>helpers.go\<close>, \<^verbatim>\<open>middleware.go\<close>, \<^verbatim>\<open>server.go\<close>, \<^verbatim>\<open>metrics.go\<close>. Replies, the chain of middleware with the rate limiter, every route and the choice among them, health, counters.
  \<^item> \<open>Download\<close>, \<open>Shares\<close>, \<open>Public_Shares\<close>, \<open>Files_Api\<close>: the handlers of downloads, shares, public links, files, folders, trash and versions (\<^verbatim>\<open>server\<close>) and \<^verbatim>\<open>db/shares.go\<close>. Ranges deliver the bytes they announce, limits hold, requests touch own rows only.
  \<^item> \<open>Events\<close>, \<open>Websocket\<close>: \<^verbatim>\<open>server/events.go\<close>, \<^verbatim>\<open>websocket.go\<close>. Who receives which event, under interleaving.
  \<^item> \<open>Webdav\<close>: \<^verbatim>\<open>webdav\<close>. Every method, locks, properties, conditional requests.
  \<^item> \<open>Media\<close>, \<open>Previews\<close>: \<^verbatim>\<open>media/stream.go\<close>, \<^verbatim>\<open>preview\<close>, \<^verbatim>\<open>thumbnail\<close>, \<^verbatim>\<open>server/handlers_thumbnail.go\<close>. Requests and their caches.
  \<^item> \<open>Backup\<close>, \<open>Config\<close>: \<^verbatim>\<open>server/handlers_backup.go\<close> and \<^verbatim>\<open>config\<close>. Archives round trip and restore atomically; loading keeps the type of each field.

  Around the server.
  \<^item> \<open>Federation\<close>: \<^verbatim>\<open>federation\<close>, \<^verbatim>\<open>db/federation.go\<close>, \<^verbatim>\<open>server/handlers_federation.go\<close>. Invitations, discovery, signed messages.
  \<^item> \<open>Remote\<close>: \<^verbatim>\<open>storage/s3client\<close>, \<^verbatim>\<open>storage/s3.go\<close>, \<^verbatim>\<open>storage/ipfs.go\<close>. The signature text is the documented one on plain names; the breaker in front of the service.
  \<^item> \<open>Fuse\<close>, \<open>Cli\<close>: \<^verbatim>\<open>fuse/fuse.go\<close> and \<^verbatim>\<open>cli\<close>. An open file is a buffer; the commands and the watching daemon of the client.

  Properties.  A property is a theorem whose text begins with its number; the other theorems and lemmas support
  them or record a behaviour.  Several state what the code does where a reader would expect something
  else; they are listed as findings with the lines concerned.

  Bounds.  Fuel is used where a call of the code need not return: \<open>Build\<close> (one more than the bytes of the
  longest path is enough for relative paths, and no fuel is enough for a path that starts with a slash), the listing of
  all files of a user (one more than the rows is enough, cycles included), breadcrumbs and copies of folders (which
  never return on a cycle of parents and on a copy of a folder into itself), and the emptying of the trash (one more than the
  entries).  All other recursions end by their structure or a measure.  Evaluated examples use
  small concrete states and stay independent of the sizes in the theorems.

  Not modelled: the OpenTelemetry set-up (\<^verbatim>\<open>tracing\<close>), whose effects are those of an external exporter; the desktop
  shell (\<^verbatim>\<open>desktop\<close>, \<^verbatim>\<open>cmd/vaultdrift-desktop\<close>), which opens a tray icon, a browser and a child process; the small
  tools under \<^verbatim>\<open>cmd\<close> that print one value; the texts of sizes and percentages (\<^verbatim>\<open>util/size.go\<close>), which are
  floating-point output; the readers of the IPFS backend and the hashing reader of the S3 client, which nothing uses.
\<close>

end
